(* ===== verification/Prelude.thy ===== *)
theory Prelude
  imports Main "HOL-Library.Word"
begin

text \<open>
  Shared vocabulary of the development: machine integers and byte buffers, C strings,
  big-endian numbers, the allocation oracle, and a locale for components that are driven by
  a sequence of events.

  A C buffer \<open>(const uint8_t *p, size_t n)\<close> is a \<open>byte list\<close> whose length is \<open>n\<close>.
  An allocation that the source checks is a call of the allocation oracle, a predicate over
  allocation sites (the source line of the call and, where one line allocates several times
  in a run, what tells the calls apart): \<open>False\<close> is the NULL branch of the source.
\<close>

type_synonym byte = "8 word"
type_synonym u16 = "16 word"
type_synonym u32 = "32 word"
type_synonym u64 = "64 word"
type_synonym bytes = "8 word list"
type_synonym alloc_oracle = "nat list \<Rightarrow> bool"

named_theorems wf_intros \<open>preservation of component invariants\<close>

text \<open>
  A call that may leave the defined part of C (a write out of bounds, a NULL dereference)
  has an outcome: \<open>Undef\<close>, or the value it returns.
\<close>

datatype 'a outcome = Undef | Ret 'a

text \<open>
  Sequencing.  \<open>on_null m d f\<close> goes on with \<open>f x\<close> after \<open>m\<close> returned \<open>x\<close> and ends with \<open>d\<close>
  after it returned NULL; \<open>bind_outcome\<close> goes on unless the call was undefined.
\<close>

definition on_null :: "'a option \<Rightarrow> 'b \<Rightarrow> ('a \<Rightarrow> 'b) \<Rightarrow> 'b" where
  "on_null m d f = (case m of None \<Rightarrow> d | Some x \<Rightarrow> f x)"

definition bind_outcome :: "'a outcome \<Rightarrow> ('a \<Rightarrow> 'b outcome) \<Rightarrow> 'b outcome" where
  "bind_outcome m f = (case m of Undef \<Rightarrow> Undef | Ret x \<Rightarrow> f x)"

lemma on_null_simps [simp]: "on_null None d f = d" "on_null (Some x) d f = f x"
  by (simp_all add: on_null_def)

lemma bind_outcome_simps [simp]: "bind_outcome Undef f = Undef" "bind_outcome (Ret x) f = f x"
  by (simp_all add: bind_outcome_def)

lemma on_null_bind: "on_null m None f = Option.bind m f"
  by (cases m) simp_all

lemma on_null_split:
  "P (on_null m d f) \<longleftrightarrow> (m = None \<longrightarrow> P d) \<and> (\<forall>x. m = Some x \<longrightarrow> P (f x))"
  by (cases m) simp_all

lemma bind_outcome_split:
  "P (bind_outcome m f) \<longleftrightarrow> (m = Undef \<longrightarrow> P Undef) \<and> (\<forall>x. m = Ret x \<longrightarrow> P (f x))"
  by (cases m) simp_all

lemma on_null_split_asm:
  "P (on_null m d f) \<longleftrightarrow> \<not> (m = None \<and> \<not> P d \<or> (\<exists>x. m = Some x \<and> \<not> P (f x)))"
  by (cases m) simp_all

lemma bind_outcome_split_asm:
  "P (bind_outcome m f) \<longleftrightarrow> \<not> (m = Undef \<and> \<not> P Undef \<or> (\<exists>x. m = Ret x \<and> \<not> P (f x)))"
  by (cases m) simp_all

lemma bind_outcome_Ret:
  "bind_outcome m f = Ret y \<longleftrightarrow> (\<exists>x. m = Ret x \<and> f x = Ret y)"
  by (cases m) simp_all

text \<open>
  A call that may also run forever has a result: \<open>None\<close> while no outcome was reached (the loop
  goes on, or its fuel is used up).
\<close>

type_synonym 'a result = "'a outcome option"

definition bind_result :: "'a result \<Rightarrow> ('a \<Rightarrow> 'b result) \<Rightarrow> 'b result" where
  "bind_result m f =
     (case m of None \<Rightarrow> None | Some Undef \<Rightarrow> Some Undef | Some (Ret x) \<Rightarrow> f x)"

lemma bind_result_simps [simp]:
  "bind_result None f = None" "bind_result (Some Undef) f = Some Undef" "bind_result (Some (Ret x)) f = f x"
  by (simp_all add: bind_result_def)

lemma bind_result_cong [fundef_cong]:
  "m = m' \<Longrightarrow> (\<And>x. m' = Some (Ret x) \<Longrightarrow> f x = g x) \<Longrightarrow> bind_result m f = bind_result m' g"
  by (auto simp: bind_result_def split: option.splits outcome.splits)

subsection \<open>Words\<close>

lemma unat_byte_less [simp]: "unat (b :: byte) < 256"
  using unsigned_less [of b] by simp

lemma unat_byte_le [simp]: "unat (b :: byte) \<le> 255"
  using unat_byte_less [of b] by linarith

lemma unat_of_nat_byte [simp]: "n \<le> 255 \<Longrightarrow> unat (of_nat n :: byte) = n"
  by (simp add: unat_of_nat)

lemma unat_u16_less [simp]: "unat (h :: u16) < 65536"
  using unsigned_less [of h] by simp

lemma unat_u32_less [simp]: "unat (w :: u32) < 4294967296"
  using unsigned_less [of w] by simp

subsection \<open>Buffers\<close>

lemma take_app_len [simp]: "n = length xs \<Longrightarrow> take n (xs @ ys) = xs"
  by simp

lemma drop_app_len [simp]: "n = length xs \<Longrightarrow> drop n (xs @ ys) = ys"
  by simp

lemma butlast_snoc_last [simp]: "xs \<noteq> [] \<Longrightarrow> butlast xs @ [last xs] = xs"
  by (rule append_butlast_last_id)

text \<open>\<open>memcpy (buf + off, src, n)\<close> into a buffer that is large enough.\<close>

definition write_at :: "'a list \<Rightarrow> nat \<Rightarrow> 'a list \<Rightarrow> 'a list" where
  "write_at buf off src = take off buf @ src @ drop (off + length src) buf"

lemma length_write_at [simp]:
  "off + length src \<le> length buf \<Longrightarrow> length (write_at buf off src) = length buf"
  by (simp add: write_at_def)

lemma write_at_end:
  "off + length src = length buf \<Longrightarrow> write_at buf off src = take off buf @ src"
  by (simp add: write_at_def)

text \<open>A C string in a byte array: the bytes before the first NUL; literals as bytes.\<close>

definition c_str :: "bytes \<Rightarrow> bytes" where
  "c_str b = takeWhile (\<lambda>x. x \<noteq> 0) b"

definition lit :: "string \<Rightarrow> bytes" where
  "lit s = map (\<lambda>c. of_nat (of_char c)) s"

lemma length_lit [simp]: "length (lit s) = length s"
  by (simp add: lit_def)

lemma length_c_str_le: "length (c_str b) \<le> length b"
  by (simp add: c_str_def length_takeWhile_le)

subsection \<open>Big-endian numbers\<close>

definition nat_of_bytes :: "bytes \<Rightarrow> nat" where
  "nat_of_bytes bs = foldl (\<lambda>n b. n * 256 + unat b) 0 bs"

fun bytes_of_nat :: "nat \<Rightarrow> bytes" where
  "bytes_of_nat n = (if n = 0 then [] else bytes_of_nat (n div 256) @ [of_nat (n mod 256)])"

declare bytes_of_nat.simps [simp del]

lemma nat_of_bytes_Nil [simp]: "nat_of_bytes [] = 0"
  by (simp add: nat_of_bytes_def)

lemma nat_of_bytes_snoc [simp]: "nat_of_bytes (bs @ [b]) = nat_of_bytes bs * 256 + unat b"
  by (simp add: nat_of_bytes_def)

lemma bytes_of_nat_0 [simp]: "bytes_of_nat 0 = []"
  by (simp add: bytes_of_nat.simps)

lemma nat_of_bytes_of_nat [simp]: "nat_of_bytes (bytes_of_nat n) = n"
proof (induction n rule: bytes_of_nat.induct)
  case (1 n)
  show ?case
  proof (cases "n = 0")
    case False
    have "n mod 256 \<le> 255" using mod_less_divisor [of 256 n] by linarith
    then have "unat (of_nat (n mod 256) :: byte) = n mod 256" by (rule unat_of_nat_byte)
    with 1 False show ?thesis by (subst bytes_of_nat.simps) simp
  qed simp
qed

lemma nat_of_bytes_append:
  "nat_of_bytes (xs @ ys) = nat_of_bytes xs * 256 ^ length ys + nat_of_bytes ys"
  by (induction ys rule: rev_induct)
     (simp_all add: append_assoc [symmetric] algebra_simps del: append_assoc)

lemma nat_of_bytes_bound: "nat_of_bytes xs < 256 ^ length xs"
proof (induction xs rule: rev_induct)
  case (snoc b xs)
  have "nat_of_bytes xs * 256 + unat b < (nat_of_bytes xs + 1) * 256"
    using unat_byte_less [of b] by simp
  also have "\<dots> \<le> 256 ^ length xs * 256"
    using snoc by (intro mult_le_mono1) simp
  finally show ?case by (simp add: mult.commute)
qed simp

lemma nat_of_bytes_replicate_0 [simp]: "nat_of_bytes (replicate n 0) = 0"
proof (induction n)
  case (Suc n)
  have "replicate (Suc n) (0 :: byte) = replicate n 0 @ [0]"
    by (simp add: replicate_append_same)
  with Suc show ?case by simp
qed simp

lemma length_bytes_of_nat_le: "n < 256 ^ k \<Longrightarrow> length (bytes_of_nat n) \<le> k"
proof (induction n arbitrary: k rule: bytes_of_nat.induct)
  case (1 n)
  show ?case
  proof (cases "n = 0")
    case False
    then obtain k' where k: "k = Suc k'" using "1.prems" by (cases k) auto
    have "n div 256 < 256 ^ k'" using "1.prems" k by (simp add: less_mult_imp_div_less mult.commute)
    then have "length (bytes_of_nat (n div 256)) \<le> k'" by (rule "1.IH" [OF False])
    with False k show ?thesis by (subst bytes_of_nat.simps) simp
  qed simp
qed

lemma bytes_of_nat_of_bytes:
  "bs = [] \<or> hd bs \<noteq> 0 \<Longrightarrow> bytes_of_nat (nat_of_bytes bs) = bs"
proof (induction bs rule: rev_induct)
  case (snoc b bs)
  have "bytes_of_nat (nat_of_bytes bs * 256 + unat b) = bs @ [b]"
  proof (cases "bs = []")
    case True
    with snoc.prems have "unat b \<noteq> 0" by (simp add: unat_eq_0)
    with True show ?thesis
      by (subst bytes_of_nat.simps) simp
  next
    case False
    with snoc have ih: "bytes_of_nat (nat_of_bytes bs) = bs" by simp
    then have "nat_of_bytes bs \<noteq> 0" using False by (metis bytes_of_nat_0)
    moreover have "(nat_of_bytes bs * 256 + unat b) div 256 = nat_of_bytes bs"
      "(nat_of_bytes bs * 256 + unat b) mod 256 = unat b" by simp_all
    ultimately show ?thesis using ih by (subst bytes_of_nat.simps) simp
  qed
  then show ?case by simp
qed simp

subsection \<open>Event-driven components\<close>

text \<open>
  A component that reacts to events: \<open>step\<close> is its handler (new state and output),
  \<open>inv\<close> its invariant, and \<open>ok\<close> tells which events a caller may deliver in which
  state. \<open>run\<close> delivers a list of events; what holds of a step is lifted to runs once.
\<close>

fun run :: "('s \<Rightarrow> 'e \<Rightarrow> 's \<times> 'o) \<Rightarrow> 's \<Rightarrow> 'e list \<Rightarrow> 's \<times> 'o list" where
  "run step s [] = (s, [])"
| "run step s (e # es) =
     (case step s e of (s', out) \<Rightarrow>
       (case run step s' es of (s'', outs) \<Rightarrow> (s'', out # outs)))"

fun run_ok :: "('s \<Rightarrow> 'e \<Rightarrow> bool) \<Rightarrow> ('s \<Rightarrow> 'e \<Rightarrow> 's \<times> 'o) \<Rightarrow> 's \<Rightarrow> 'e list \<Rightarrow> bool" where
  "run_ok ok step s [] = True"
| "run_ok ok step s (e # es) = (ok s e \<and> run_ok ok step (fst (step s e)) es)"

lemma run_Cons_fst [simp]: "fst (run step s (e # es)) = fst (run step (fst (step s e)) es)"
  by (simp split: prod.splits)

lemma run_Cons_snd [simp]:
  "snd (run step s (e # es)) = snd (step s e) # snd (run step (fst (step s e)) es)"
  by (simp split: prod.splits)

declare run.simps(2) [simp del]

locale machine =
  fixes step :: "'s \<Rightarrow> 'e \<Rightarrow> 's \<times> 'o"
    and inv :: "'s \<Rightarrow> bool"
    and ok :: "'s \<Rightarrow> 'e \<Rightarrow> bool"
  assumes step_inv: "inv s \<Longrightarrow> ok s e \<Longrightarrow> inv (fst (step s e))"
begin

lemma run_inv: "inv s \<Longrightarrow> run_ok ok step s es \<Longrightarrow> inv (fst (run step s es))"
proof (induction es arbitrary: s)
  case (Cons e es)
  from Cons.prems have "inv (fst (step s e))" by (simp add: step_inv)
  with Cons show ?case by simp
qed simp

lemma run_length: "length (snd (run step s es)) = length es"
  by (induction es arbitrary: s) simp_all

end

lemma run_append:
  "run step s (xs @ ys) =
     (case run step s xs of (s', o1) \<Rightarrow>
       (case run step s' ys of (s'', o2) \<Rightarrow> (s'', o1 @ o2)))"
  by (induction xs arbitrary: s) (auto simp: run.simps(2) split: prod.splits)

end
