(* ===== verification/OpenSsl.thy ===== *)
theory OpenSsl
  imports Prelude
begin

unbundle bit_operations_syntax

text \<open>
  The part of OpenSSL's libcrypto that \<^verbatim>\<open>source/carplay_pair.c\<close> calls.  The library is
  not part of the repository: its functions are the fields of a record, an argument of every
  definition that calls it.  \<open>'o\<close> is the type of OpenSSL's opaque objects (digest, cipher
  and HMAC contexts, keys); a BIGNUM is the natural number it holds.  \<open>None\<close> is a NULL
  result, or a result other than 1.  \<open>EVP_DigestSign\<close> and \<open>EVP_DigestVerify\<close> stand for the call
  of that name with a context that was just made for the key; the source does not check the result of
  \<open>EVP_MD_CTX_new\<close> there, and a failed allocation inside the library is not part of the model.

  The predicates below state the documented behaviour the source relies on.
\<close>

datatype cipher = Aes_128_gcm | Chacha20_poly1305

record 'o ossl =
  SHA512 :: "bytes \<Rightarrow> bytes"
  EVP_MD_CTX_new :: "'o option"
  EVP_DigestInit_ex :: "'o \<Rightarrow> 'o"
  EVP_DigestUpdate :: "'o \<Rightarrow> bytes \<Rightarrow> 'o"
  EVP_DigestFinal_ex :: "'o \<Rightarrow> bytes"
  HMAC :: "bytes \<Rightarrow> bytes \<Rightarrow> bytes"
  HMAC_CTX_new :: "'o"
  HMAC_Init_ex :: "'o \<Rightarrow> bytes \<Rightarrow> 'o"
  HMAC_Update :: "'o \<Rightarrow> bytes \<Rightarrow> 'o"
  HMAC_Final :: "'o \<Rightarrow> bytes"
  EVP_CIPHER_CTX_new :: "'o option"
  EVP_Init_cipher :: "'o \<Rightarrow> cipher \<Rightarrow> 'o option"
  EVP_CTRL_set_ivlen :: "'o \<Rightarrow> nat \<Rightarrow> 'o option"
  EVP_EncryptInit_key :: "'o \<Rightarrow> bytes \<Rightarrow> bytes \<Rightarrow> 'o option"
  EVP_EncryptUpdate :: "'o \<Rightarrow> bytes \<Rightarrow> ('o \<times> bytes) option"
  EVP_EncryptFinal_ex :: "'o \<Rightarrow> ('o \<times> bytes) option"
  EVP_CTRL_get_tag :: "'o \<Rightarrow> nat \<Rightarrow> bytes option"
  EVP_DecryptInit_key :: "'o \<Rightarrow> bytes \<Rightarrow> bytes \<Rightarrow> 'o option"
  EVP_DecryptUpdate :: "'o \<Rightarrow> bytes \<Rightarrow> ('o \<times> bytes) option"
  EVP_CTRL_set_tag :: "'o \<Rightarrow> bytes \<Rightarrow> 'o option"
  EVP_DecryptFinal_ex :: "'o \<Rightarrow> bytes option"
  BN_bin2bn :: "bytes \<Rightarrow> nat"
  BN_bn2bin :: "nat \<Rightarrow> bytes"
  BN_num_bytes :: "nat \<Rightarrow> nat"
  BN_hex2bn :: "string \<Rightarrow> nat"
  BN_mod :: "nat \<Rightarrow> nat \<Rightarrow> nat"
  BN_mul :: "nat \<Rightarrow> nat \<Rightarrow> nat"
  BN_mod_mul :: "nat \<Rightarrow> nat \<Rightarrow> nat \<Rightarrow> nat"
  BN_mod_add :: "nat \<Rightarrow> nat \<Rightarrow> nat \<Rightarrow> nat"
  BN_mod_exp :: "nat \<Rightarrow> nat \<Rightarrow> nat \<Rightarrow> nat"
  Ed25519_private_key :: "bytes \<Rightarrow> 'o option"
  Ed25519_public_key :: "bytes \<Rightarrow> 'o option"
  EVP_DigestSign :: "'o \<Rightarrow> bytes \<Rightarrow> bytes"
  EVP_DigestVerify :: "'o \<Rightarrow> bytes \<Rightarrow> bytes \<Rightarrow> bool"
  X25519_public_key :: "bytes \<Rightarrow> 'o option"
  EVP_PKEY_get_raw_public_key :: "'o \<Rightarrow> bytes"
  EVP_PKEY_derive :: "'o \<Rightarrow> 'o \<Rightarrow> bytes option"

subsection \<open>Documented behaviour\<close>

fun hex_digit :: "char \<Rightarrow> nat" where
  "hex_digit c =
     (let n = of_char c in
      if 48 \<le> n \<and> n \<le> 57 then n - 48
      else if 65 \<le> n \<and> n \<le> 70 then n - 55
      else if 97 \<le> n \<and> n \<le> 102 then n - 87 else 0)"

declare hex_digit.simps [simp del]

fun hex_acc :: "nat \<Rightarrow> string \<Rightarrow> nat" where
  "hex_acc n [] = n"
| "hex_acc n (c # cs) = hex_acc (16 * n + hex_digit c) cs"

definition nat_of_hex :: "string \<Rightarrow> nat" where
  "nat_of_hex s = hex_acc 0 s"

text \<open>Texts of hexadecimal digits.\<close>

definition hex_text :: "string \<Rightarrow> bool" where
  "hex_text s \<longleftrightarrow> s \<noteq> [] \<and> list_all (\<lambda>c. c \<in> set ''0123456789ABCDEFabcdef'') s"

lemma hex_digit_lits:
  "hex_digit (CHR ''0'') = 0" "hex_digit (CHR ''1'') = 1" "hex_digit (CHR ''2'') = 2"
  "hex_digit (CHR ''3'') = 3" "hex_digit (CHR ''4'') = 4" "hex_digit (CHR ''5'') = 5"
  "hex_digit (CHR ''6'') = 6" "hex_digit (CHR ''7'') = 7" "hex_digit (CHR ''8'') = 8"
  "hex_digit (CHR ''9'') = 9" "hex_digit (CHR ''A'') = 10" "hex_digit (CHR ''B'') = 11"
  "hex_digit (CHR ''C'') = 12" "hex_digit (CHR ''D'') = 13" "hex_digit (CHR ''E'') = 14"
  "hex_digit (CHR ''F'') = 15"
  by (simp_all add: hex_digit.simps)

text \<open>BIGNUM arithmetic and conversions.\<close>

definition bn_ok :: "'o ossl \<Rightarrow> bool" where
  "bn_ok O' \<longleftrightarrow>
     (\<forall>bs. BN_bin2bn O' bs = nat_of_bytes bs) \<and>
     (\<forall>n. BN_bn2bin O' n = bytes_of_nat n) \<and>
     (\<forall>n. BN_num_bytes O' n = length (bytes_of_nat n)) \<and>
     (\<forall>s. hex_text s \<longrightarrow> BN_hex2bn O' s = nat_of_hex s) \<and>
     (\<forall>a m. m > 0 \<longrightarrow> BN_mod O' a m = a mod m) \<and>
     (\<forall>a b. BN_mul O' a b = a * b) \<and>
     (\<forall>a b m. m > 0 \<longrightarrow> BN_mod_mul O' a b m = (a * b) mod m) \<and>
     (\<forall>a b m. m > 0 \<longrightarrow> BN_mod_add O' a b m = (a + b) mod m) \<and>
     (\<forall>a p m. m > 0 \<longrightarrow> BN_mod_exp O' a p m = a ^ p mod m)"

lemma bn_okD:
  assumes "bn_ok O'"
  shows "BN_bin2bn O' bs = nat_of_bytes bs" "BN_bn2bin O' n = bytes_of_nat n"
    "BN_num_bytes O' n = length (bytes_of_nat n)" "hex_text s \<Longrightarrow> BN_hex2bn O' s = nat_of_hex s"
    "BN_mul O' a b = a * b"
    "m > 0 \<Longrightarrow> BN_mod O' a m = a mod m"
    "m > 0 \<Longrightarrow> BN_mod_mul O' a b m = (a * b) mod m"
    "m > 0 \<Longrightarrow> BN_mod_add O' a b m = (a + b) mod m"
    "m > 0 \<Longrightarrow> BN_mod_exp O' a p m = a ^ p mod m"
  using assms by (simp_all add: bn_ok_def)

text \<open>SHA-512 and HMAC: a digest over several updates is the digest of their concatenation.\<close>

definition md_ok :: "'o ossl \<Rightarrow> bool" where
  "md_ok O' \<longleftrightarrow>
     (\<forall>d. length (SHA512 O' d) = 64) \<and>
     (\<forall>c ds. EVP_DigestFinal_ex O'
        (fold (\<lambda>d h. EVP_DigestUpdate O' h d) ds (EVP_DigestInit_ex O' c)) = SHA512 O' (concat ds))"

lemma md_okD:
  assumes "md_ok O'"
  shows "length (SHA512 O' d) = 64"
    "EVP_DigestFinal_ex O' (fold (\<lambda>d h. EVP_DigestUpdate O' h d) ds (EVP_DigestInit_ex O' c))
       = SHA512 O' (concat ds)"
  using assms by (simp_all add: md_ok_def)

definition hmac_ok :: "'o ossl \<Rightarrow> bool" where
  "hmac_ok O' \<longleftrightarrow>
     (\<forall>k d. length (HMAC O' k d) = 64) \<and>
     (\<forall>c k ds. HMAC_Final O'
        (fold (\<lambda>d h. HMAC_Update O' h d) ds (HMAC_Init_ex O' c k)) = HMAC O' k (concat ds))"

lemma hmac_okD:
  assumes "hmac_ok O'"
  shows "length (HMAC O' k d) = 64"
    "HMAC_Final O' (fold (\<lambda>d h. HMAC_Update O' h d) ds (HMAC_Init_ex O' c k)) = HMAC O' k (concat ds)"
  using assms by (simp_all add: hmac_ok_def)

text \<open>
  ChaCha20-Poly1305.  \<open>evp_seal\<close> and \<open>evp_open\<close> are the documented call sequences for one
  message; the contract says that sealing works for keys and nonces of the right length, keeps
  the length of the message, makes a 16-byte tag, and is undone by opening.
\<close>

definition evp_seal :: "'o ossl \<Rightarrow> bytes \<Rightarrow> bytes \<Rightarrow> bytes \<Rightarrow> (bytes \<times> bytes) option" where
  "evp_seal O' key nonce pt =
     Option.bind (EVP_CIPHER_CTX_new O') (\<lambda>c.
     Option.bind (EVP_Init_cipher O' c Chacha20_poly1305) (\<lambda>c.
     Option.bind (EVP_EncryptInit_key O' c key nonce) (\<lambda>c.
     Option.bind (EVP_EncryptUpdate O' c pt) (\<lambda>(c, o1).
     Option.bind (EVP_EncryptFinal_ex O' c) (\<lambda>(c, o2).
     Option.bind (EVP_CTRL_get_tag O' c 16) (\<lambda>tag. Some (o1 @ o2, tag)))))))"

definition evp_open :: "'o ossl \<Rightarrow> bytes \<Rightarrow> bytes \<Rightarrow> bytes \<Rightarrow> bytes \<Rightarrow> bytes option" where
  "evp_open O' key nonce ct tag =
     Option.bind (EVP_CIPHER_CTX_new O') (\<lambda>c.
     Option.bind (EVP_Init_cipher O' c Chacha20_poly1305) (\<lambda>c.
     Option.bind (EVP_DecryptInit_key O' c key nonce) (\<lambda>c.
     Option.bind (EVP_DecryptUpdate O' c ct) (\<lambda>(c, o1).
     Option.bind (EVP_CTRL_set_tag O' c tag) (\<lambda>c.
     Option.bind (EVP_DecryptFinal_ex O' c) (\<lambda>o2. Some (o1 @ o2)))))))"

definition aead_ok :: "'o ossl \<Rightarrow> bool" where
  "aead_ok O' \<longleftrightarrow>
     (\<forall>key nonce pt. length key = 32 \<longrightarrow> length nonce = 12 \<longrightarrow>
        (\<exists>ct tag. evp_seal O' key nonce pt = Some (ct, tag) \<and> length ct = length pt \<and>
           length tag = 16 \<and> evp_open O' key nonce ct tag = Some pt))"

lemma aead_okE:
  assumes "aead_ok O'" and "length key = 32" and "length nonce = 12"
  obtains ct tag where "evp_seal O' key nonce pt = Some (ct, tag)" "length ct = length pt"
    "length tag = 16" "evp_open O' key nonce ct tag = Some pt"
  using assms unfolding aead_ok_def by blast

text \<open>
  Ed25519 and X25519: a key seed of 32 bytes loads, its signatures are 64 bytes long, and
  X25519 public keys and shared secrets are 32 bytes long.  Two keys agree on a secret; with other
  public keys the derivation may fail (it does for points of small order).
\<close>

definition curve_ok :: "'o ossl \<Rightarrow> bool" where
  "curve_ok O' \<longleftrightarrow>
     (\<forall>sk. length sk = 32 \<longrightarrow> Ed25519_private_key O' sk \<noteq> None) \<and>
     (\<forall>k m. length (EVP_DigestSign O' k m) = 64) \<and>
     (\<forall>p. length p = 32 \<longrightarrow> X25519_public_key O' p \<noteq> None) \<and>
     (\<forall>k. length (EVP_PKEY_get_raw_public_key O' k) = 32) \<and>
     (\<forall>k p s. EVP_PKEY_derive O' k p = Some s \<longrightarrow> length s = 32) \<and>
     (\<forall>k k' p p'. X25519_public_key O' (EVP_PKEY_get_raw_public_key O' k) = Some p \<longrightarrow>
        X25519_public_key O' (EVP_PKEY_get_raw_public_key O' k') = Some p' \<longrightarrow>
        (\<exists>s. EVP_PKEY_derive O' k p' = Some s \<and> EVP_PKEY_derive O' k' p = Some s))"

lemma curve_okD:
  assumes "curve_ok O'"
  shows "length sk = 32 \<Longrightarrow> \<exists>k. Ed25519_private_key O' sk = Some k"
    "length (EVP_DigestSign O' k m) = 64"
    "length p = 32 \<Longrightarrow> \<exists>q. X25519_public_key O' p = Some q"
    "length (EVP_PKEY_get_raw_public_key O' k) = 32"
    "EVP_PKEY_derive O' k r = Some s \<Longrightarrow> length s = 32"
    "X25519_public_key O' (EVP_PKEY_get_raw_public_key O' k) = Some p1 \<Longrightarrow>
      X25519_public_key O' (EVP_PKEY_get_raw_public_key O' k') = Some p2 \<Longrightarrow>
      \<exists>s. EVP_PKEY_derive O' k p2 = Some s \<and> EVP_PKEY_derive O' k' p1 = Some s"
  using assms unfolding curve_ok_def by blast+

subsection \<open>A library that satisfies the contracts\<close>

text \<open>
  The contracts are satisfiable together: a toy library with real BIGNUM arithmetic, a
  checksum for a hash, and a cipher that leaves the text as it is.  Properties that rest on
  a contract use it in their witnesses.
\<close>

definition toy_hash :: "bytes \<Rightarrow> bytes" where
  "toy_hash d = replicate 63 0 @ [foldl (+) (of_nat (length d)) d]"

definition toy_ossl :: "bytes ossl" where
  "toy_ossl = \<lparr>
     SHA512 = toy_hash,
     EVP_MD_CTX_new = Some [],
     EVP_DigestInit_ex = (\<lambda>_. []),
     EVP_DigestUpdate = (@),
     EVP_DigestFinal_ex = toy_hash,
     HMAC = (\<lambda>k d. toy_hash (k @ d)),
     HMAC_CTX_new = [],
     HMAC_Init_ex = (\<lambda>_ k. k),
     HMAC_Update = (@),
     HMAC_Final = toy_hash,
     EVP_CIPHER_CTX_new = Some [],
     EVP_Init_cipher = (\<lambda>c _. Some c),
     EVP_CTRL_set_ivlen = (\<lambda>c _. Some c),
     EVP_EncryptInit_key = (\<lambda>_ k n. Some (k @ n)),
     EVP_EncryptUpdate = (\<lambda>c d. Some (c, d)),
     EVP_EncryptFinal_ex = (\<lambda>c. Some (c, [])),
     EVP_CTRL_get_tag = (\<lambda>_ n. Some (replicate n 0)),
     EVP_DecryptInit_key = (\<lambda>_ k n. Some (k @ n)),
     EVP_DecryptUpdate = (\<lambda>c d. Some (c, d)),
     EVP_CTRL_set_tag = (\<lambda>c t. if t = replicate 16 0 then Some c else None),
     EVP_DecryptFinal_ex = (\<lambda>_. Some []),
     BN_bin2bn = nat_of_bytes,
     BN_bn2bin = bytes_of_nat,
     BN_num_bytes = (\<lambda>n. length (bytes_of_nat n)),
     BN_hex2bn = nat_of_hex,
     BN_mod = (mod),
     BN_mul = (*),
     BN_mod_mul = (\<lambda>a b m. (a * b) mod m),
     BN_mod_add = (\<lambda>a b m. (a + b) mod m),
     BN_mod_exp = (\<lambda>a p m. a ^ p mod m),
     Ed25519_private_key = (\<lambda>sk. Some sk),
     Ed25519_public_key = (\<lambda>pk. Some pk),
     EVP_DigestSign = (\<lambda>k m. toy_hash (k @ m)),
     EVP_DigestVerify = (\<lambda>k s m. s = toy_hash (k @ m)),
     X25519_public_key = (\<lambda>p. Some p),
     EVP_PKEY_get_raw_public_key = (\<lambda>k. take 32 (k @ replicate 32 0)),
     EVP_PKEY_derive = (\<lambda>k p. Some (map2 (XOR) (take 32 (k @ replicate 32 0)) (take 32 (p @ replicate 32 0)))) \<rparr>"

lemma toy_hash_length [simp]: "length (toy_hash d) = 64"
  by (simp add: toy_hash_def)

lemma fold_update: "fold (\<lambda>d h. h @ d) ds h = h @ concat ds"
  by (induction ds arbitrary: h) simp_all

lemma toy_bn_ok: "bn_ok toy_ossl"
  by (simp add: bn_ok_def toy_ossl_def)

lemma toy_md_ok: "md_ok toy_ossl"
  by (simp add: md_ok_def toy_ossl_def fold_update)

lemma toy_hmac_ok: "hmac_ok toy_ossl"
  by (simp add: hmac_ok_def toy_ossl_def fold_update)

lemma toy_aead_ok: "aead_ok toy_ossl"
  by (simp add: aead_ok_def evp_seal_def evp_open_def toy_ossl_def)

lemma xor_commute: "map2 (XOR) xs ys = map2 (XOR) ys (xs :: bytes)"
  by (induction xs ys rule: list_induct2') (simp_all add: xor.commute)

lemma toy_curve_ok: "curve_ok toy_ossl"
proof -
  have m: "32 - min (n :: nat) 32 = 32 - n" for n by simp
  show ?thesis by (auto simp: curve_ok_def toy_ossl_def m xor_commute)
qed

lemmas toy_ok = toy_bn_ok toy_md_ok toy_hmac_ok toy_aead_ok toy_curve_ok

end
