(* ===== verification/Crypto.thy ===== *)
theory Crypto
  imports OpenSsl
begin

text \<open>
  Sections 4 and 5 of \<^verbatim>\<open>source/carplay_pair.c\<close>: AES-128-GCM, HKDF-SHA512 and
  ChaCha20-Poly1305 over OpenSSL's EVP interface.  Each \<open>goto fail\<close> and each return of -1 is
  \<open>None\<close>; a non-negative result is the number of bytes written, i.e. the length of the
  text that is returned.
\<close>

abbreviation (input) GCM_TAG_LEN :: nat where "GCM_TAG_LEN \<equiv> 16"

subsection \<open>AES-128-GCM\<close>

definition gcm_encrypt ::
    "'o ossl \<Rightarrow> bytes \<Rightarrow> bytes \<Rightarrow> bytes \<Rightarrow> (bytes \<times> bytes) option" where
  "gcm_encrypt O' plaintext key iv =
      on_null (EVP_CIPHER_CTX_new O') None (\<lambda>ctx.
      on_null (EVP_Init_cipher O' ctx Aes_128_gcm) None (\<lambda>ctx.
      on_null (EVP_CTRL_set_ivlen O' ctx 16) None (\<lambda>ctx.
      on_null (EVP_EncryptInit_key O' ctx key iv) None (\<lambda>ctx.
      on_null (EVP_EncryptUpdate O' ctx plaintext) None (\<lambda>(ctx, ct).
      on_null (EVP_EncryptFinal_ex O' ctx) None (\<lambda>(ctx, ct').
      on_null (EVP_CTRL_get_tag O' ctx GCM_TAG_LEN) None (\<lambda>tag.
      Some (ct @ ct', tag))))))))"

definition gcm_decrypt ::
    "'o ossl \<Rightarrow> bytes \<Rightarrow> bytes \<Rightarrow> bytes \<Rightarrow> bytes \<Rightarrow> bytes option" where
  "gcm_decrypt O' ciphertext key iv tag =
      on_null (EVP_CIPHER_CTX_new O') None (\<lambda>ctx.
      on_null (EVP_Init_cipher O' ctx Aes_128_gcm) None (\<lambda>ctx.
      on_null (EVP_CTRL_set_ivlen O' ctx 16) None (\<lambda>ctx.
      on_null (EVP_DecryptInit_key O' ctx key iv) None (\<lambda>ctx.
      on_null (EVP_DecryptUpdate O' ctx ciphertext) None (\<lambda>(ctx, pt).
      on_null (EVP_CTRL_set_tag O' ctx tag) None (\<lambda>ctx.
      on_null (EVP_DecryptFinal_ex O' ctx) None (\<lambda>pt'.
      Some (pt @ pt'))))))))"

subsection \<open>HKDF-SHA512\<close>

text \<open>The bytes copied to \<open>okm\<close>.\<close>

definition hkdf_sha512 :: "'o ossl \<Rightarrow> bytes \<Rightarrow> bytes \<Rightarrow> bytes \<Rightarrow> nat \<Rightarrow> bytes" where
  "hkdf_sha512 O' ikm salt info okm_len =
     (let prk = HMAC O' salt ikm;
          hctx = HMAC_Init_ex O' (HMAC_CTX_new O') prk;
          hctx = HMAC_Update O' hctx info;
          hctx = HMAC_Update O' hctx [1];
          t_buf = HMAC_Final O' hctx;
          copy = (if okm_len < length t_buf then okm_len else length t_buf)
      in take copy t_buf)"

definition derive_pair_setup_encrypt_key :: "'o ossl \<Rightarrow> bytes \<Rightarrow> bytes" where
  "derive_pair_setup_encrypt_key O' session_key =
     hkdf_sha512 O' session_key (lit ''Pair-Setup-Encrypt-Salt'') (lit ''Pair-Setup-Encrypt-Info'') 32"

subsection \<open>ChaCha20-Poly1305\<close>

definition nonce12 :: "bytes \<Rightarrow> bytes" where
  "nonce12 nonce8 = write_at (replicate 12 0) 4 (take 8 nonce8)"

definition chacha_decrypt ::
    "'o ossl \<Rightarrow> bytes \<Rightarrow> bytes \<Rightarrow> bytes \<Rightarrow> bytes \<Rightarrow> bytes option" where
  "chacha_decrypt O' key nonce8 ct tag =
      on_null (EVP_CIPHER_CTX_new O') None (\<lambda>ctx.
      on_null (EVP_Init_cipher O' ctx Chacha20_poly1305) None (\<lambda>ctx.
      on_null (EVP_DecryptInit_key O' ctx key (nonce12 nonce8)) None (\<lambda>ctx.
      on_null (EVP_DecryptUpdate O' ctx ct) None (\<lambda>(ctx, pt).
      on_null (EVP_CTRL_set_tag O' ctx tag) None (\<lambda>ctx.
      on_null (EVP_DecryptFinal_ex O' ctx) None (\<lambda>pt'.
      Some (pt @ pt')))))))"

definition chacha_encrypt ::
    "'o ossl \<Rightarrow> bytes \<Rightarrow> bytes \<Rightarrow> bytes \<Rightarrow> (bytes \<times> bytes) option" where
  "chacha_encrypt O' key nonce8 pt =
      on_null (EVP_CIPHER_CTX_new O') None (\<lambda>ctx.
      on_null (EVP_Init_cipher O' ctx Chacha20_poly1305) None (\<lambda>ctx.
      on_null (EVP_EncryptInit_key O' ctx key (nonce12 nonce8)) None (\<lambda>ctx.
      on_null (EVP_EncryptUpdate O' ctx pt) None (\<lambda>(ctx, ct).
      on_null (EVP_EncryptFinal_ex O' ctx) None (\<lambda>(ctx, ct').
      on_null (EVP_CTRL_get_tag O' ctx 16) None (\<lambda>tag.
      Some (ct @ ct', tag)))))))"

subsection \<open>HKDF against RFC 5869\<close>

text \<open>RFC 5869: \<open>T(i + 1) = HMAC(PRK, T(i) | info | i + 1)\<close>, the output is a prefix of their concatenation.\<close>

fun rfc5869_T :: "(bytes \<Rightarrow> bytes \<Rightarrow> bytes) \<Rightarrow> bytes \<Rightarrow> bytes \<Rightarrow> nat \<Rightarrow> bytes" where
  "rfc5869_T mac prk info 0 = []"
| "rfc5869_T mac prk info (Suc i) =
     mac prk (rfc5869_T mac prk info i @ info @ [of_nat (Suc i)])"

definition rfc5869 :: "(bytes \<Rightarrow> bytes \<Rightarrow> bytes) \<Rightarrow> bytes \<Rightarrow> bytes \<Rightarrow> bytes \<Rightarrow> nat \<Rightarrow> bytes" where
  "rfc5869 mac salt ikm info l =
     take l (concat (map (rfc5869_T mac (mac salt ikm) info) [1..<Suc ((l + 63) div 64)]))"

lemma hkdf_sha512_eq:
  assumes "hmac_ok O'"
  shows "hkdf_sha512 O' ikm salt info l = take l (HMAC O' (HMAC O' salt ikm) (info @ [1]))"
  using hmac_okD(2) [OF assms, of "[info, [1]]"] hmac_okD(1) [OF assms]
  by (simp add: hkdf_sha512_def Let_def)

lemma length_hkdf_sha512: "hmac_ok O' \<Longrightarrow> l \<le> 64 \<Longrightarrow> length (hkdf_sha512 O' ikm salt info l) = l"
  by (simp add: hkdf_sha512_eq hmac_okD(1))

subsection \<open>ChaCha20-Poly1305 is OpenSSL's one-message use\<close>

lemma nonce12_eq: "length n = 8 \<Longrightarrow> nonce12 n = replicate 4 0 @ n"
  by (simp add: nonce12_def write_at_def)

lemma length_nonce12: "length n = 8 \<Longrightarrow> length (nonce12 n) = 12"
  by (simp add: nonce12_eq)

lemma chacha_encrypt_eq: "chacha_encrypt O' key n pt = evp_seal O' key (nonce12 n) pt"
  by (simp add: chacha_encrypt_def evp_seal_def on_null_bind)

lemma chacha_decrypt_eq: "chacha_decrypt O' key n ct tag = evp_open O' key (nonce12 n) ct tag"
  by (simp add: chacha_decrypt_def evp_open_def on_null_bind)

lemma chacha_roundtrip:
  assumes "aead_ok O'" and "length key = 32" and "length n = 8"
  obtains ct tag where "chacha_encrypt O' key n pt = Some (ct, tag)" "length ct = length pt"
    "length tag = 16" "chacha_decrypt O' key n ct tag = Some pt"
  using aead_okE [OF assms(1,2) length_nonce12 [OF assms(3)], of pt]
  by (auto simp: chacha_encrypt_eq chacha_decrypt_eq)

end
