(* ===== verification/Srp.thy ===== *)
theory Srp
  imports Crypto
begin

unbundle bit_operations_syntax

text \<open>
  The SRP-6a server of \<^verbatim>\<open>source/carplay_pair.c\<close> (section 2 of the file), over the OpenSSL
  parameter.  The allocation oracle is asked at every \<open>malloc\<close>, \<open>calloc\<close>, \<open>BN_new\<close>,
  \<open>BN_bin2bn\<close> and \<open>BN_CTX_new\<close>, whose line is the head of the site.  A dereference of an
  unchecked NULL and a write outside a buffer are \<open>Undef\<close>.
\<close>

abbreviation (input) SRP_SALT_BYTES :: nat where "SRP_SALT_BYTES \<equiv> 16"
abbreviation (input) SRP_HASH_LEN :: nat where "SRP_HASH_LEN \<equiv> 64"
abbreviation (input) SRP_SKEY_LEN :: nat where "SRP_SKEY_LEN \<equiv> 64"

definition SRP_USERNAME :: bytes where "SRP_USERNAME = lit ''Pair-Setup''"

subsection \<open>The group\<close>

definition N_3072_hex :: string where
  "N_3072_hex =
    ''FFFFFFFFFFFFFFFFC90FDAA22168C234C4C6628B80DC1CD129024E088A67CC74020BBEA6'' @
    ''3B139B22514A08798E3404DDEF9519B3CD3A431B302B0A6DF25F14374FE1356D6D51C245'' @
    ''E485B576625E7EC6F44C42E9A637ED6B0BFF5CB6F406B7EDEE386BFB5A899FA5AE9F2411'' @
    ''7C4B1FE649286651ECE45B3DC2007CB8A163BF0598DA48361C55D39A69163FA8FD24CF5F'' @
    ''83655D23DCA3AD961C62F356208552BB9ED529077096966D670C354E4ABC9804F1746C08'' @
    ''CA18217C32905E462E36CE3BE39E772C180E86039B2783A2EC07A28FB5C55DF06F4C52C9'' @
    ''DE2BCBF6955817183995497CEA956AE515D2261898FA051015728E5A8AAAC42DAD33170D'' @
    ''04507A33A85521ABDF1CBA64ECFB850458DBEF0A8AEA71575D060C7DB3970F85A6E1E4C7'' @
    ''ABF5AE8CDB0933D71E8C94E04A25619DCEE3D2261AD2EE6BF12FFA06D98A0864D8760273'' @
    ''3EC86A64521F2B18177B200CBBE117577A615D6C770988C0BAD946E208E24FA074E5AB31'' @
    ''43DB5BFCE0FD108E4B82D120A93AD2CAFFFFFFFFFFFFFFFF''"

record ng =
  ng_N :: nat
  ng_g :: nat

definition ng_new :: "'o ossl \<Rightarrow> alloc_oracle \<Rightarrow> nat \<Rightarrow> ng option" where
  "ng_new O' al c =
     (if \<not> al [98, c] then None
      else if \<not> al [100, c] \<or> \<not> al [101, c] then None
      else Some \<lparr>ng_N = BN_hex2bn O' N_3072_hex, ng_g = BN_hex2bn O' ''5''\<rparr>)"

subsection \<open>Hash helpers\<close>

definition hctx_new :: "'o ossl \<Rightarrow> alloc_oracle \<Rightarrow> nat list \<Rightarrow> 'o option" where
  "hctx_new O' al c = (if \<not> al (121 # c) then None else EVP_MD_CTX_new O')"

definition hctx_init :: "'o ossl \<Rightarrow> 'o \<Rightarrow> 'o" where
  "hctx_init O' h = EVP_DigestInit_ex O' h"

definition hctx_update :: "'o ossl \<Rightarrow> 'o \<Rightarrow> bytes \<Rightarrow> 'o" where
  "hctx_update O' h data = EVP_DigestUpdate O' h data"

definition hctx_final :: "'o ossl \<Rightarrow> 'o \<Rightarrow> bytes" where
  "hctx_final O' h = EVP_DigestFinal_ex O' h"

definition hash_bytes :: "'o ossl \<Rightarrow> bytes \<Rightarrow> bytes" where
  "hash_bytes O' d = SHA512 O' d"

text \<open>\<open>H(n1 | n2)\<close> with both numbers padded to the length of \<open>N\<close>.\<close>

definition H_nn_pad :: "'o ossl \<Rightarrow> alloc_oracle \<Rightarrow> nat \<Rightarrow> nat \<Rightarrow> nat \<Rightarrow> nat \<Rightarrow> nat option" where
  "H_nn_pad O' al c N n1 n2 =
     (let len_N = BN_num_bytes O' N; nbytes = len_N * 2 in
      if \<not> al [160, c] then None
      else let bin = replicate nbytes 0;
               l1 = BN_num_bytes O' n1; l2 = BN_num_bytes O' n2 in
        if l1 > len_N \<or> l2 > len_N then None
        else let bin = write_at bin (len_N - l1) (BN_bn2bin O' n1);
                 bin = write_at bin (len_N + len_N - l2) (BN_bn2bin O' n2)
             in Some (BN_bin2bn O' (hash_bytes O' bin)))"

definition H_ns :: "'o ossl \<Rightarrow> alloc_oracle \<Rightarrow> nat \<Rightarrow> bytes \<Rightarrow> nat option" where
  "H_ns O' al n bs =
     (if \<not> al [179] then None
      else Some (BN_bin2bn O' (hash_bytes O' (BN_bn2bin O' n @ bs))))"

definition calculate_x :: "'o ossl \<Rightarrow> alloc_oracle \<Rightarrow> nat \<Rightarrow> bytes \<Rightarrow> bytes \<Rightarrow> nat option" where
  "calculate_x O' al salt username password =
      on_null (hctx_new O' al [193]) None (\<lambda>h.
      let h = hctx_init O' h;
          h = hctx_update O' h username;
          h = hctx_update O' h (lit '':'');
          h = hctx_update O' h password;
          ucp_hash = hctx_final O' h
      in H_ns O' al salt ucp_hash)"

text \<open>\<open>dest\<close> keeps its contents when the \<open>malloc\<close> fails.\<close>

definition hash_bn :: "'o ossl \<Rightarrow> alloc_oracle \<Rightarrow> nat list \<Rightarrow> nat \<Rightarrow> bytes \<Rightarrow> bytes" where
  "hash_bn O' al c n dest =
     (if \<not> al (219 # c) then dest else hash_bytes O' (BN_bn2bin O' n))"

definition hash_session_key :: "'o ossl \<Rightarrow> alloc_oracle \<Rightarrow> nat \<Rightarrow> bytes option" where
  "hash_session_key O' al S =
     (if \<not> al [230] then None
      else on_null (hctx_new O' al [235]) None (\<lambda>h.
        Some (hctx_final O' (hctx_update O' (hctx_init O' h) (BN_bn2bin O' S)))))"

definition hash_session_key_padded ::
    "'o ossl \<Rightarrow> alloc_oracle \<Rightarrow> nat \<Rightarrow> nat \<Rightarrow> bytes option" where
  "hash_session_key_padded O' al S padded_len =
     (let nbytes = BN_num_bytes O' S in
      if nbytes > padded_len then None
      else if \<not> al [250] then None
      else let bin = write_at (replicate padded_len 0) (padded_len - nbytes) (BN_bn2bin O' S) in
        on_null (hctx_new O' al [255]) None (\<lambda>h.
          Some (hctx_final O' (hctx_update O' (hctx_init O' h) bin))))"

text \<open>
  The left padding of \<open>calculate_M\<close> and \<open>calculate_H_AMK\<close> has no length check: a longer
  number is written in front of the buffer.
\<close>

definition pad_left :: "'o ossl \<Rightarrow> alloc_oracle \<Rightarrow> nat list \<Rightarrow> nat \<Rightarrow> nat \<Rightarrow> bytes outcome" where
  "pad_left O' al site n len_N =
     (if \<not> al site \<or> BN_num_bytes O' n > len_N then Undef
      else Ret (write_at (replicate len_N 0) (len_N - BN_num_bytes O' n) (BN_bn2bin O' n)))"

text \<open>\<open>c\<close> is the calling line.\<close>

definition calculate_M ::
    "'o ossl \<Rightarrow> alloc_oracle \<Rightarrow> nat \<Rightarrow> ng \<Rightarrow> bytes \<Rightarrow> bytes \<Rightarrow> nat \<Rightarrow> nat \<Rightarrow> bytes \<Rightarrow> bytes outcome" where
  "calculate_M O' al c ng I' salt_bytes A B K =
     (let len_N = BN_num_bytes O' (ng_N ng);
          H_N = hash_bn O' al [280, c] (ng_N ng) (replicate 64 0);
          H_g = hash_bn O' al [281, c] (ng_g ng) (replicate 64 0);
          H_I = hash_bytes O' I';
          H_xor = map2 (XOR) H_N H_g in
      bind_outcome (pad_left O' al [288, c] A len_N) (\<lambda>A_pad.
      bind_outcome (pad_left O' al [289, c] B len_N) (\<lambda>B_pad.
      on_null (hctx_new O' al [295, c]) Undef (\<lambda>h.
      let h = hctx_init O' h;
          h = hctx_update O' h H_xor;
          h = hctx_update O' h H_I;
          h = hctx_update O' h salt_bytes;
          h = hctx_update O' h A_pad;
          h = hctx_update O' h B_pad;
          h = hctx_update O' h K
      in Ret (hctx_final O' h)))))"

definition calculate_H_AMK ::
    "'o ossl \<Rightarrow> alloc_oracle \<Rightarrow> nat \<Rightarrow> nat \<Rightarrow> bytes \<Rightarrow> bytes \<Rightarrow> nat \<Rightarrow> bytes outcome" where
  "calculate_H_AMK O' al c A M K len_N =
      bind_outcome (pad_left O' al [314, c] A len_N) (\<lambda>A_pad.
      on_null (hctx_new O' al [318, c]) Undef (\<lambda>h.
      let h = hctx_init O' h;
          h = hctx_update O' h A_pad;
          h = hctx_update O' h M;
          h = hctx_update O' h K
      in Ret (hctx_final O' h)))"

subsection \<open>Salt, verifier and server key\<close>

text \<open>
  \<open>srp_create_salt_verifier\<close>: \<open>s\<close> is what \<open>BN_rand\<close> gave.  The results are the new value
  of \<open>salt_out\<close> (\<open>None\<close>: not written) and the verifier (\<open>None\<close>: the call returned -1).
\<close>

definition srp_create_salt_verifier ::
    "'o ossl \<Rightarrow> alloc_oracle \<Rightarrow> nat \<Rightarrow> bytes \<Rightarrow> bytes \<Rightarrow> (bytes option \<times> bytes option) outcome" where
  "srp_create_salt_verifier O' al s username password =
     (if \<not> al [365, 0] \<or> \<not> al [365, 1] \<or> \<not> al [366] then Ret (None, None)
      else on_null (ng_new O' al 367) (Ret (None, None)) (\<lambda>ng.
      on_null (calculate_x O' al s username password) (Ret (None, None)) (\<lambda>x.
      let v = BN_mod_exp O' (ng_g ng) x (ng_N ng);
          slen = BN_num_bytes O' s in
      if slen > SRP_SALT_BYTES then Undef
      else let salt_out = write_at (replicate SRP_SALT_BYTES 0) (SRP_SALT_BYTES - slen) (BN_bn2bin O' s) in
        if \<not> al [389] then Ret (Some salt_out, None)
        else Ret (Some salt_out, Some (BN_bn2bin O' v)))))"

definition srp_create_B ::
    "'o ossl \<Rightarrow> alloc_oracle \<Rightarrow> bytes \<Rightarrow> bytes \<Rightarrow> bytes option" where
  "srp_create_B O' al verifier b_bytes =
     (if \<not> al [407] \<or> \<not> al [408] \<or> \<not> al [409] \<or> \<not> al [411, 0] \<or> \<not> al [411, 1] \<or> \<not> al [412]
      then None
      else on_null (ng_new O' al 413) None (\<lambda>ng.
      let v = BN_bin2bn O' verifier; b = BN_bin2bn O' b_bytes in
      on_null (H_nn_pad O' al 420 (ng_N ng) (ng_N ng) (ng_g ng)) None (\<lambda>k.
      let tmp1 = BN_mod_mul O' k v (ng_N ng);
          tmp2 = BN_mod_exp O' (ng_g ng) b (ng_N ng);
          B = BN_mod_add O' tmp1 tmp2 (ng_N ng)
      in if \<not> al [429] then None else Some (BN_bn2bin O' B))))"

subsection \<open>The verifier object\<close>

record srp_verifier =
  ver_ng :: ng
  ver_username :: bytes
  ver_bytes_B :: "bytes option"
  authenticated :: bool
  ver_M :: bytes
  ver_H_AMK :: bytes
  session_key :: bytes
  M_padded :: bytes
  H_AMK_padded :: bytes
  session_key_padded :: bytes
  S_minimal_len :: nat
  N_len :: nat
  proof_mode :: nat

definition srp_verifier_new ::
    "'o ossl \<Rightarrow> alloc_oracle \<Rightarrow> bytes \<Rightarrow> bytes \<Rightarrow> bytes \<Rightarrow> bytes \<Rightarrow> bytes
      \<Rightarrow> srp_verifier option outcome" where
  "srp_verifier_new O' al username salt verifier bytes_A bytes_b =
     (if \<not> (al [450] \<and> al [451] \<and> al [452] \<and> al [453, 0] \<and> al [453, 1] \<and> al [454] \<and>
            al [456, 0] \<and> al [456, 1] \<and> al [457]) then Ret None
      else on_null (ng_new O' al 458) (Ret None) (\<lambda>ng.
      let N = ng_N ng;
          v = BN_bin2bn O' verifier; A = BN_bin2bn O' bytes_A; b = BN_bin2bn O' bytes_b in
      if BN_mod O' A N = 0 then Ret None
      else on_null (H_nn_pad O' al 469 N N (ng_g ng)) (Ret None) (\<lambda>k.
      let B = BN_mod_add O' (BN_mod_mul O' k v N) (BN_mod_exp O' (ng_g ng) b N) N in
      on_null (H_nn_pad O' al 478 N A B) (Ret None) (\<lambda>u.
      let S = BN_mod_exp O' (BN_mul O' A (BN_mod_exp O' v u N)) b N in
      if \<not> al [487] then Ret None
      else let ver_ng = ng_new O' al 490 in
      if \<not> al [492] then Ret None
      else on_null ver_ng Undef (\<lambda>ng'.
      let len_N = BN_num_bytes O' (ng_N ng') in
      on_null (hash_session_key O' al S) (Ret None) (\<lambda>K.
      if length K \<noteq> SRP_SKEY_LEN then Ret None
      else on_null (hash_session_key_padded O' al S len_N) (Ret None) (\<lambda>Kp.
      if length Kp \<noteq> SRP_SKEY_LEN then Ret None
      else bind_outcome (calculate_M O' al 516 ng' username salt A B K) (\<lambda>M.
      bind_outcome (calculate_H_AMK O' al 517 A M K len_N) (\<lambda>amk.
      bind_outcome (calculate_M O' al 518 ng' username salt A B Kp) (\<lambda>Mp.
      bind_outcome (calculate_H_AMK O' al 520 A Mp Kp len_N) (\<lambda>amkp.
      Ret (Some \<lparr>ver_ng = ng', ver_username = username,
        ver_bytes_B = (if al [524] then Some (BN_bn2bin O' B) else None),
        authenticated = False, ver_M = M, ver_H_AMK = amk, session_key = K,
        M_padded = Mp, H_AMK_padded = amkp, session_key_padded = Kp,
        S_minimal_len = BN_num_bytes O' S, N_len = len_N, proof_mode = 0\<rparr>))))))))))))"

text \<open>\<open>srp_verifier_verify\<close>: the updated object and \<open>*server_M2\<close> (\<open>None\<close>: NULL, result -1).\<close>

definition srp_verifier_verify ::
    "srp_verifier \<Rightarrow> bytes \<Rightarrow> srp_verifier \<times> bytes option" where
  "srp_verifier_verify ver client_M =
     (if take SRP_HASH_LEN (ver_M ver) = take SRP_HASH_LEN client_M then
        (ver\<lparr>authenticated := True, proof_mode := 1\<rparr>, Some (ver_H_AMK ver))
      else if take SRP_HASH_LEN (M_padded ver) = take SRP_HASH_LEN client_M then
        (ver\<lparr>authenticated := True, proof_mode := 2, session_key := session_key_padded ver,
             ver_M := M_padded ver, ver_H_AMK := H_AMK_padded ver\<rparr>, Some (H_AMK_padded ver))
      else (ver, None))"

subsection \<open>The group's numbers\<close>

definition srp_N :: nat where "srp_N = nat_of_hex N_3072_hex"

lemma srp_N_eq: "srp_N = 0xFFFFFFFFFFFFFFFFC90FDAA22168C234C4C6628B80DC1CD129024E088A67CC74020BBEA63B139B22514A08798E3404DDEF9519B3CD3A431B302B0A6DF25F14374FE1356D6D51C245E485B576625E7EC6F44C42E9A637ED6B0BFF5CB6F406B7EDEE386BFB5A899FA5AE9F24117C4B1FE649286651ECE45B3DC2007CB8A163BF0598DA48361C55D39A69163FA8FD24CF5F83655D23DCA3AD961C62F356208552BB9ED529077096966D670C354E4ABC9804F1746C08CA18217C32905E462E36CE3BE39E772C180E86039B2783A2EC07A28FB5C55DF06F4C52C9DE2BCBF6955817183995497CEA956AE515D2261898FA051015728E5A8AAAC42DAD33170D04507A33A85521ABDF1CBA64ECFB850458DBEF0A8AEA71575D060C7DB3970F85A6E1E4C7ABF5AE8CDB0933D71E8C94E04A25619DCEE3D2261AD2EE6BF12FFA06D98A0864D87602733EC86A64521F2B18177B200CBBE117577A615D6C770988C0BAD946E208E24FA074E5AB3143DB5BFCE0FD108E4B82D120A93AD2CAFFFFFFFFFFFFFFFF"
  by (simp add: srp_N_def nat_of_hex_def N_3072_hex_def hex_digit_lits)

lemma srp_N_pos [simp]: "srp_N > 1"
  by (simp add: srp_N_eq)

lemma srp_N_bounds: "256 ^ 383 \<le> srp_N" "srp_N < 256 ^ 384"
  by (simp_all add: srp_N_eq)

subsection \<open>Closed forms under the contracts\<close>

text \<open>A number left-padded with zeros to \<open>len\<close> bytes, and the group's constants.\<close>

definition pad_num :: "nat \<Rightarrow> nat \<Rightarrow> bytes" where
  "pad_num len n = replicate (len - length (bytes_of_nat n)) 0 @ bytes_of_nat n"

abbreviation (input) srp_g :: nat where "srp_g \<equiv> 5"
abbreviation (input) N_bytes :: nat where "N_bytes \<equiv> 384"

lemma length_pad_num [simp]: "length (bytes_of_nat n) \<le> len \<Longrightarrow> length (pad_num len n) = len"
  by (simp add: pad_num_def)

lemma nat_of_bytes_pad_num [simp]: "nat_of_bytes (pad_num len n) = n"
  by (simp add: pad_num_def nat_of_bytes_append)

lemma length_bytes_of_nat_ge: "256 ^ k \<le> n \<Longrightarrow> k < length (bytes_of_nat n)"
proof (rule ccontr)
  assume k: "256 ^ k \<le> n" and "\<not> k < length (bytes_of_nat n)"
  then have "length (bytes_of_nat n) \<le> k" by simp
  then have "(256::nat) ^ length (bytes_of_nat n) \<le> 256 ^ k" by simp
  with nat_of_bytes_bound [of "bytes_of_nat n"] k show False by simp
qed

lemma length_bytes_srp_N [simp]: "length (bytes_of_nat srp_N) = N_bytes"
  using length_bytes_of_nat_le [OF srp_N_bounds(2)] length_bytes_of_nat_ge [OF srp_N_bounds(1)]
  by linarith

lemma length_bytes_le_iff: "length (bytes_of_nat n) \<le> k \<longleftrightarrow> n < 256 ^ k"
  using length_bytes_of_nat_le length_bytes_of_nat_ge [of k n] by (meson not_less)

text \<open>Numbers that fit the length of the modulus.\<close>

definition fits_N :: "nat \<Rightarrow> bool" where
  "fits_N n \<longleftrightarrow> length (bytes_of_nat n) \<le> N_bytes"

lemma fits_N_iff: "fits_N n \<longleftrightarrow> n < 256 ^ N_bytes"
  by (simp only: fits_N_def length_bytes_le_iff)

lemma fits_N_less: "n < srp_N \<Longrightarrow> fits_N n"
  unfolding fits_N_iff using srp_N_bounds(2) by linarith

lemma fits_N_N [simp]: "fits_N srp_N"
  by (simp add: fits_N_def)

lemma srp_N_gt_0 [simp]: "srp_N > 0"
  using srp_N_pos by linarith

lemma bytes_of_nat_g: "bytes_of_nat srp_g = [5]"
  using bytes_of_nat_of_bytes [of "[5]"] by (simp add: nat_of_bytes_def)

lemma fits_N_g [simp]: "fits_N srp_g"
  by (simp add: fits_N_def bytes_of_nat_g)

lemma nat_of_hex_g: "nat_of_hex ''5'' = srp_g"
  by (simp add: nat_of_hex_def hex_digit_lits)

text \<open>The behaviour of the whole library when the contracts hold and no allocation fails.\<close>

definition lib_ok :: "'o ossl \<Rightarrow> bool" where
  "lib_ok O' \<longleftrightarrow> bn_ok O' \<and> md_ok O' \<and> EVP_MD_CTX_new O' \<noteq> None"

definition alloc_ok :: "alloc_oracle \<Rightarrow> bool" where
  "alloc_ok al \<longleftrightarrow> (\<forall>p. al p)"

lemma alloc_okD [simp]: "alloc_ok al \<Longrightarrow> al p"
  by (simp add: alloc_ok_def)

lemma write_at_2:
  assumes "length xs \<le> n" and "length ys \<le> n"
  shows "write_at (write_at (replicate (n * 2) 0) (n - length xs) xs) (n + n - length ys) ys =
     (replicate (n - length xs) 0 @ xs) @ (replicate (n - length ys) 0 @ ys)"
proof -
  have "write_at (replicate (n * 2) 0) (n - length xs) xs =
      (replicate (n - length xs) 0 @ xs) @ replicate n 0"
    using assms(1) by (simp add: write_at_def)
  then show ?thesis
    using assms by (simp add: write_at_def)
qed

end
