(* ===== verification/SrpSpec.thy ===== *)
theory SrpSpec
  imports Srp
begin

unbundle bit_operations_syntax

text \<open>
  What the SRP server of \<^verbatim>\<open>source/carplay_pair.c\<close> computes when OpenSSL behaves as
  documented and no allocation fails, and the client of RFC 5054 that talks to it.  The main
  facts: the server's result is given by closed formulas on every branch, it never leaves
  the defined part of C, and both sides agree on the premaster secret.
\<close>

subsection \<open>The formulas of the protocol\<close>

definition spec_x :: "'o ossl \<Rightarrow> bytes \<Rightarrow> bytes \<Rightarrow> bytes \<Rightarrow> nat" where
  "spec_x O' salt username password =
     nat_of_bytes (SHA512 O' (salt @ SHA512 O' (username @ lit '':'' @ password)))"

definition spec_k :: "'o ossl \<Rightarrow> nat" where
  "spec_k O' = nat_of_bytes (SHA512 O' (pad_num N_bytes srp_N @ pad_num N_bytes srp_g))"

definition spec_u :: "'o ossl \<Rightarrow> nat \<Rightarrow> nat \<Rightarrow> nat" where
  "spec_u O' A B = nat_of_bytes (SHA512 O' (pad_num N_bytes A @ pad_num N_bytes B))"

definition spec_B :: "'o ossl \<Rightarrow> nat \<Rightarrow> nat \<Rightarrow> nat" where
  "spec_B O' v b = (spec_k O' * v mod srp_N + srp_g ^ b mod srp_N) mod srp_N"

definition spec_S :: "'o ossl \<Rightarrow> nat \<Rightarrow> nat \<Rightarrow> nat \<Rightarrow> nat" where
  "spec_S O' A v b = (A * (v ^ spec_u O' A (spec_B O' v b) mod srp_N)) ^ b mod srp_N"

definition spec_M1 :: "'o ossl \<Rightarrow> bytes \<Rightarrow> bytes \<Rightarrow> nat \<Rightarrow> nat \<Rightarrow> bytes \<Rightarrow> bytes" where
  "spec_M1 O' username salt A B K =
     SHA512 O' (map2 (XOR) (SHA512 O' (bytes_of_nat srp_N)) (SHA512 O' (bytes_of_nat srp_g)) @
       SHA512 O' username @ salt @ pad_num N_bytes A @ pad_num N_bytes B @ K)"

definition spec_M2 :: "'o ossl \<Rightarrow> nat \<Rightarrow> bytes \<Rightarrow> bytes \<Rightarrow> bytes" where
  "spec_M2 O' A M K = SHA512 O' (pad_num N_bytes A @ M @ K)"

text \<open>The client's premaster secret, from the password, the salt and B it received, and its key \<open>a\<close>.\<close>

definition client_S :: "'o ossl \<Rightarrow> bytes \<Rightarrow> bytes \<Rightarrow> bytes \<Rightarrow> nat \<Rightarrow> nat \<Rightarrow> nat" where
  "client_S O' username password salt B a =
     (let x = spec_x O' salt username password;
          A = srp_g ^ a mod srp_N;
          kv = spec_k O' * (srp_g ^ x mod srp_N) mod srp_N
      in ((B + (srp_N - kv)) mod srp_N) ^ (a + spec_u O' A B * x) mod srp_N)"

subsection \<open>Closed forms of the model\<close>

lemma lib_okD:
  assumes "lib_ok O'"
  shows "bn_ok O'" "md_ok O'" "\<exists>h. EVP_MD_CTX_new O' = Some h"
  using assms by (auto simp: lib_ok_def)

lemmas lib_bn = bn_okD [OF lib_okD(1)]

lemma hctx_digest:
  assumes "lib_ok O'"
  shows "hctx_final O' (hctx_update O' (hctx_init O' h) a) = SHA512 O' a"
    "hctx_final O' (hctx_update O' (hctx_update O' (hctx_update O' (hctx_init O' h) a) b) c) =
       SHA512 O' (a @ b @ c)"
    "hctx_final O' (hctx_update O' (hctx_update O' (hctx_update O' (hctx_update O'
       (hctx_update O' (hctx_update O' (hctx_init O' h) a) b) c) d) e) f) =
       SHA512 O' (a @ b @ c @ d @ e @ f)"
  using md_okD(2) [OF lib_okD(2) [OF assms], of "[a]" h]
    md_okD(2) [OF lib_okD(2) [OF assms], of "[a, b, c]" h]
    md_okD(2) [OF lib_okD(2) [OF assms], of "[a, b, c, d, e, f]" h]
  by (simp_all add: hctx_final_def hctx_update_def hctx_init_def)

lemma length_sha512: "lib_ok O' \<Longrightarrow> length (SHA512 O' d) = 64"
  by (simp add: lib_okD(2) md_okD(1))

lemma hctx_new_ok: "lib_ok O' \<Longrightarrow> alloc_ok al \<Longrightarrow> \<exists>h. hctx_new O' al c = Some h"
  by (auto simp: hctx_new_def dest: lib_okD(3))

lemma hex_texts: "hex_text N_3072_hex" "hex_text ''5''"
  by (simp_all add: hex_text_def N_3072_hex_def)

lemma ng_new_ok:
  "lib_ok O' \<Longrightarrow> alloc_ok al \<Longrightarrow> ng_new O' al c = Some \<lparr>ng_N = srp_N, ng_g = srp_g\<rparr>"
  by (simp add: ng_new_def lib_bn(4) [OF _ hex_texts(1)] lib_bn(4) [OF _ hex_texts(2)] srp_N_def nat_of_hex_g)

lemma H_nn_pad_ok:
  assumes "lib_ok O'" "alloc_ok al"
  shows "H_nn_pad O' al c srp_N n1 n2 =
    (if fits_N n1 \<and> fits_N n2
     then Some (nat_of_bytes (SHA512 O' (pad_num N_bytes n1 @ pad_num N_bytes n2))) else None)"
  using assms write_at_2 [of "bytes_of_nat n1" N_bytes "bytes_of_nat n2"]
  by (simp add: H_nn_pad_def lib_bn hash_bytes_def Let_def fits_N_def pad_num_def)

lemma calculate_x_ok:
  assumes "lib_ok O'" "alloc_ok al"
  shows "calculate_x O' al s username password = Some (spec_x O' (bytes_of_nat s) username password)"
  using hctx_new_ok [OF assms, of "[193]"] assms
  by (auto simp: calculate_x_def H_ns_def Let_def hctx_digest lib_bn hash_bytes_def spec_x_def)

lemma pad_left_ok:
  "lib_ok O' \<Longrightarrow> alloc_ok al \<Longrightarrow> fits_N n \<Longrightarrow>
     pad_left O' al p n N_bytes = Ret (pad_num N_bytes n)"
  by (simp add: pad_left_def lib_bn pad_num_def write_at_def fits_N_def)

lemma calculate_M_ok:
  assumes "lib_ok O'" "alloc_ok al" "fits_N A" "fits_N B"
  shows "calculate_M O' al c \<lparr>ng_N = srp_N, ng_g = srp_g\<rparr> username salt A B K =
    Ret (spec_M1 O' username salt A B K)"
  using hctx_new_ok [OF assms(1,2), of "[295, c]"] assms
  by (auto simp: calculate_M_def Let_def hctx_digest lib_bn pad_left_ok hash_bn_def
      hash_bytes_def spec_M1_def)

lemma calculate_H_AMK_ok:
  assumes "lib_ok O'" "alloc_ok al" "fits_N A"
  shows "calculate_H_AMK O' al c A M K N_bytes = Ret (spec_M2 O' A M K)"
  using hctx_new_ok [OF assms(1,2), of "[318, c]"] assms
  by (auto simp: calculate_H_AMK_def Let_def hctx_digest pad_left_ok spec_M2_def)

lemma hash_session_key_ok:
  assumes "lib_ok O'" "alloc_ok al"
  shows "hash_session_key O' al S = Some (SHA512 O' (bytes_of_nat S))"
  using hctx_new_ok [OF assms, of "[235]"] assms
  by (auto simp: hash_session_key_def hctx_digest lib_bn)

lemma hash_session_key_padded_ok:
  assumes "lib_ok O'" "alloc_ok al" "fits_N S"
  shows "hash_session_key_padded O' al S N_bytes = Some (SHA512 O' (pad_num N_bytes S))"
  using hctx_new_ok [OF assms(1,2), of "[255]"] assms
  by (auto simp: hash_session_key_padded_def hctx_digest lib_bn Let_def pad_num_def write_at_def fits_N_def)

lemma spec_B_less [simp]: "spec_B O' v b < srp_N"
  by (simp only: spec_B_def mod_less_divisor srp_N_gt_0)

lemma spec_S_less [simp]: "spec_S O' A v b < srp_N"
  by (simp only: spec_S_def mod_less_divisor srp_N_gt_0)

lemmas closed_forms = ng_new_ok H_nn_pad_ok calculate_x_ok calculate_M_ok calculate_H_AMK_ok
  hash_session_key_ok hash_session_key_padded_ok

lemma srp_create_B_ok:
  assumes "lib_ok O'" "alloc_ok al"
  shows "srp_create_B O' al verifier bs =
    Some (bytes_of_nat (spec_B O' (nat_of_bytes verifier) (nat_of_bytes bs)))"
  using assms lib_bn(7-9) [OF assms(1) srp_N_gt_0]
  by (simp add: srp_create_B_def closed_forms lib_bn Let_def spec_B_def spec_k_def)

lemma srp_create_salt_verifier_ok:
  assumes "lib_ok O'" "alloc_ok al" "length (bytes_of_nat s) \<le> SRP_SALT_BYTES"
  shows "srp_create_salt_verifier O' al s username password =
    Ret (Some (pad_num SRP_SALT_BYTES s),
         Some (bytes_of_nat (srp_g ^ spec_x O' (bytes_of_nat s) username password mod srp_N)))"
  using assms lib_bn(9) [OF assms(1) srp_N_gt_0]
  by (simp add: srp_create_salt_verifier_def closed_forms lib_bn Let_def pad_num_def write_at_def)

subsection \<open>The verifier object\<close>

definition spec_verifier ::
    "'o ossl \<Rightarrow> bytes \<Rightarrow> bytes \<Rightarrow> nat \<Rightarrow> nat \<Rightarrow> nat \<Rightarrow> srp_verifier" where
  "spec_verifier O' username salt v A b =
     (let B = spec_B O' v b; S = spec_S O' A v b;
          K = SHA512 O' (bytes_of_nat S); Kp = SHA512 O' (pad_num N_bytes S);
          M = spec_M1 O' username salt A B K; Mp = spec_M1 O' username salt A B Kp
      in \<lparr>ver_ng = \<lparr>ng_N = srp_N, ng_g = srp_g\<rparr>, ver_username = username,
          ver_bytes_B = Some (bytes_of_nat B), authenticated = False,
          ver_M = M, ver_H_AMK = spec_M2 O' A M K, session_key = K,
          M_padded = Mp, H_AMK_padded = spec_M2 O' A Mp Kp, session_key_padded = Kp,
          S_minimal_len = length (bytes_of_nat S), N_len = N_bytes, proof_mode = 0\<rparr>)"

lemma srp_verifier_new_ok:
  assumes "lib_ok O'" "alloc_ok al"
  shows "srp_verifier_new O' al username salt verifier bytes_A bytes_b =
    (if nat_of_bytes bytes_A mod srp_N = 0 \<or> \<not> fits_N (nat_of_bytes bytes_A) then Ret None
     else Ret (Some (spec_verifier O' username salt (nat_of_bytes verifier)
                       (nat_of_bytes bytes_A) (nat_of_bytes bytes_b))))"
proof -
  let ?A = "nat_of_bytes bytes_A" and ?v = "nat_of_bytes verifier" and ?b = "nat_of_bytes bytes_b"
  have fits: "fits_N (spec_B O' ?v ?b)" "fits_N (spec_S O' ?A ?v ?b)"
    by (simp_all add: fits_N_less)
  note bn = lib_bn(6-9) [OF assms(1) srp_N_gt_0]
  have B: "BN_mod_add O' (BN_mod_mul O' (spec_k O') ?v srp_N) (BN_mod_exp O' srp_g ?b srp_N) srp_N
      = spec_B O' ?v ?b"
    by (simp only: bn spec_B_def)
  have S: "BN_mod_exp O' (BN_mul O' ?A (BN_mod_exp O' ?v (spec_u O' ?A (spec_B O' ?v ?b)) srp_N)) ?b srp_N
      = spec_S O' ?A ?v ?b"
    using assms(1) by (simp only: bn lib_bn(5) spec_S_def)
  have k: "H_nn_pad O' al c srp_N srp_N srp_g = Some (spec_k O')" for c
    using assms by (simp add: H_nn_pad_ok spec_k_def)
  have u: "H_nn_pad O' al c srp_N ?A (spec_B O' ?v ?b) =
      (if fits_N ?A then Some (spec_u O' ?A (spec_B O' ?v ?b)) else None)" for c
    using assms fits by (simp add: H_nn_pad_ok spec_u_def)
  show ?thesis
    using assms fits
    by (simp add: srp_verifier_new_def ng_new_ok lib_bn(1-3) bn(1) k B u S Let_def
        hash_session_key_ok hash_session_key_padded_ok length_sha512 calculate_M_ok
        calculate_H_AMK_ok spec_verifier_def)
qed

subsection \<open>Agreement\<close>

lemma mod_shift_back: "(t :: nat) < N \<Longrightarrow> g < N \<Longrightarrow> ((t + g) mod N + (N - t)) mod N = g"
proof -
  assume *: "t < N" "g < N"
  have "((t + g) mod N + (N - t)) mod N = (t + g + (N - t)) mod N"
    by (simp only: mod_add_left_eq)
  also have "\<dots> = (g + N) mod N" using * by simp
  finally show ?thesis using * by simp
qed

lemma srp_exponents:
  fixes N :: nat
  shows "((g ^ a mod N) * ((g ^ x mod N) ^ u mod N)) ^ b mod N = (g ^ b mod N) ^ (a + u * x) mod N"
proof -
  have "((g ^ a mod N) * ((g ^ x mod N) ^ u mod N)) ^ b mod N
      = (((g ^ a mod N) * ((g ^ x mod N) ^ u mod N)) mod N) ^ b mod N"
    by (simp only: power_mod)
  also have "((g ^ a mod N) * ((g ^ x mod N) ^ u mod N)) mod N = (g ^ a * (g ^ x) ^ u) mod N"
    by (simp only: power_mod mod_mult_left_eq mod_mult_right_eq)
  also have "(g ^ a * (g ^ x) ^ u mod N) ^ b mod N = (g ^ b) ^ (a + u * x) mod N"
    by (simp only: power_mod power_add [symmetric] power_mult [symmetric])
       (simp add: algebra_simps)
  finally show ?thesis by (simp only: power_mod)
qed

lemma client_server_agree:
  assumes "v = srp_g ^ spec_x O' salt username password mod srp_N"
  shows "client_S O' username password salt (spec_B O' v b) a = spec_S O' (srp_g ^ a mod srp_N) v b"
proof -
  let ?x = "spec_x O' salt username password" and ?t = "spec_k O' * v mod srp_N"
  have "(spec_B O' v b + (srp_N - ?t)) mod srp_N = srp_g ^ b mod srp_N"
    unfolding spec_B_def by (rule mod_shift_back; rule mod_less_divisor, rule srp_N_gt_0)
  then show ?thesis
    unfolding client_S_def spec_S_def Let_def assms by (simp only: srp_exponents)
qed

text \<open>A power of the generator is never 0 modulo N: 5 and N are coprime.\<close>

lemma coprime_g_N: "coprime srp_g srp_N"
proof -
  have "coprime 5 srp_N \<longleftrightarrow> coprime 5 (srp_N mod 5)" by (rule coprime_mod_right_iff [symmetric]) simp
  moreover have "srp_N mod 5 = 2"
  proof -
    have "srp_N = 5 * 0x333333333333333328365EED39E1C070F427AD4F19C59F5D0833A934E87B28E40068BFBAD89D856D437534E51C70CDC5FCB76B8A5C3EDA38A33BCEE2CA13040B0FF9D77C49105A0DFA81244AE0794C8E30DC0D61EE0B2F7BCF33128AFD9AF195FC71AF32454EB98789530736B2756CC7A83B47A9FC2DABD926CCE5BE86AD8C9AB82BA80AD27790B87B6AD98832A0F6464D7AAC3A5F53EF846C13CA446CE776F252F76E9B1684847C47CF3DDC7558EB34304A7C01C204D37F3D5012DAD60AF60BFA52E4A26B361ACD856E4D86FC0186E98AC112C9AFDC108EC608C2648444D16B3EB77518FBB77BC76AC3A1381E9867699DE3B6121BBBC0D5EF709E35CDA9B20A54DDD388C638F2142F658100DE9263021BC87D11790135B2BD849CB454939427EF3122E8F89B70C49FB5B7600ED446B92960C3A13890961596A332015EB534E0F8179A170C8E7BADAA063BD19E4BD335BF2D04AB1879DF7C17CEB4F35891DAFA01C6DCB9B0FABBD6A72BDF329365D01C75809039BB722A289999999999999999 + 2" unfolding srp_N_eq by simp
    then obtain q where "srp_N = 5 * q + 2" ..
    then show ?thesis by presburger
  qed
  moreover have "coprime (5 :: nat) 2" by simp
  ultimately show ?thesis by simp
qed

lemma client_A_nonzero: "srp_g ^ a mod srp_N \<noteq> 0"
proof
  assume "srp_g ^ a mod srp_N = 0"
  then have "srp_N dvd srp_g ^ a" by auto
  moreover have "coprime (srp_g ^ a) srp_N" using coprime_g_N by simp
  ultimately have "srp_N dvd 1" by (metis coprime_common_divisor dvd_refl)
  with srp_N_pos show False by simp
qed

lemma client_A_fits: "fits_N (srp_g ^ a mod srp_N)"
  by (rule fits_N_less) (rule mod_less_divisor, rule srp_N_gt_0)

subsection \<open>The proof check\<close>

lemma verify_accepts_iff:
  assumes "length (ver_M ver) = 64" "length (M_padded ver) = 64" "length m = 64"
  shows "snd (srp_verifier_verify ver m) \<noteq> None \<longleftrightarrow> m = ver_M ver \<or> m = M_padded ver"
  using assms by (auto simp: srp_verifier_verify_def)

lemma length_spec_M1: "lib_ok O' \<Longrightarrow> length (spec_M1 O' I' s A B K) = 64"
  by (simp add: spec_M1_def length_sha512)

lemma length_spec_M2: "lib_ok O' \<Longrightarrow> length (spec_M2 O' A M K) = 64"
  by (simp add: spec_M2_def length_sha512)

end
