(* ===== verification/Tlv8.thy ===== *)
theory Tlv8
  imports Prelude
begin

text \<open>
  The TLV8 codec of \<^verbatim>\<open>source/carplay_pair.c\<close> (section 3 of the file): parsing with
  reassembly of fragmented items, lookup, and building with fragmentation.  An item's
  \<open>len\<close> field is the length of its data.  \<open>size_t\<close> values are bounded by the size of a
  buffer in memory, so they are naturals.
\<close>

subsection \<open>Model\<close>

abbreviation (input) MAX_TLV_ITEMS :: nat where "MAX_TLV_ITEMS \<equiv> 16"

record tlv_item =
  tlv_type :: byte
  tlv_data :: bytes

definition tlv_item :: "byte \<Rightarrow> bytes \<Rightarrow> tlv_item" where
  "tlv_item t d = \<lparr>tlv_type = t, tlv_data = d\<rparr>"

text \<open>
  The loop of \<open>tlv_parse\<close>; \<open>items\<close> is \<open>t->items[0 .. count - 1]\<close>.  The oracle is asked
  at the \<open>realloc\<close> (line 609) and the \<open>malloc\<close> (line 619) of the entry at offset \<open>i\<close>.
\<close>

function tlv_parse_loop ::
    "alloc_oracle \<Rightarrow> nat \<Rightarrow> bytes \<Rightarrow> nat \<Rightarrow> tlv_item list \<Rightarrow> tlv_item list" where
  "tlv_parse_loop al c buf i items =
     (if i + 2 \<le> length buf then
        let type = buf ! i; tlen = unat (buf ! (i + 1)) in
        if i + 2 + tlen > length buf then items
        else if items \<noteq> [] \<and> tlv_type (last items) = type then
          if \<not> al [609, c, i] then items
          else tlv_parse_loop al c buf (i + 2 + tlen)
                 (butlast items @
                  [(last items)\<lparr>tlv_data := tlv_data (last items) @ take tlen (drop (i + 2) buf)\<rparr>])
        else if length items \<ge> MAX_TLV_ITEMS then items
        else if \<not> al [619, c, i] then items
        else tlv_parse_loop al c buf (i + 2 + tlen)
               (items @ [tlv_item type (take tlen (drop (i + 2) buf))])
      else items)"
  by pat_completeness auto
termination
  by (relation "measure (\<lambda>(al, c, buf, i, items). length buf - i)") auto

declare tlv_parse_loop.simps [simp del]

text \<open>\<open>tlv_parse\<close>: NULL when the \<open>calloc\<close> of line 597 fails; \<open>c\<close> is the calling line.\<close>

definition tlv_parse :: "alloc_oracle \<Rightarrow> nat \<Rightarrow> bytes \<Rightarrow> tlv_item list option" where
  "tlv_parse al c buf =
     (if \<not> al [597, c] then None else Some (tlv_parse_loop al c buf 0 []))"

fun tlv_find :: "tlv_item list \<Rightarrow> byte \<Rightarrow> tlv_item option" where
  "tlv_find [] type = None"
| "tlv_find (it # its) type = (if tlv_type it = type then Some it else tlv_find its type)"

text \<open>The first pass of \<open>tlv_build\<close>: the size of one item, and of all of them.\<close>

fun tlv_item_size :: "nat \<Rightarrow> nat" where
  "tlv_item_size rem =
     (if rem = 0 then 0
      else let chunk = (if rem > 255 then 255 else rem)
           in 2 + chunk + tlv_item_size (rem - chunk))"

declare tlv_item_size.simps [simp del]

definition tlv_total :: "tlv_item list \<Rightarrow> nat" where
  "tlv_total items =
     (\<Sum>it\<leftarrow>items. if tlv_data it = [] then 2 else tlv_item_size (length (tlv_data it)))"

text \<open>The second pass: the bytes written for one item, and for all of them.\<close>

fun tlv_emit_chunks :: "byte \<Rightarrow> bytes \<Rightarrow> bytes" where
  "tlv_emit_chunks type data =
     (if data = [] then []
      else let chunk = (if length data > 255 then 255 else length data)
           in type # of_nat chunk # take chunk data @ tlv_emit_chunks type (drop chunk data))"

declare tlv_emit_chunks.simps [simp del]

definition tlv_emit_item :: "tlv_item \<Rightarrow> bytes" where
  "tlv_emit_item it =
     (if tlv_data it = [] then [tlv_type it, 0] else tlv_emit_chunks (tlv_type it) (tlv_data it))"

definition tlv_emit :: "tlv_item list \<Rightarrow> bytes" where
  "tlv_emit items = concat (map tlv_emit_item items)"

text \<open>
  \<open>tlv_build\<close>: the buffer of \<open>tlv_total\<close> bytes, filled from position 0, and \<open>*out_len\<close>
  bytes of it; NULL when the \<open>malloc\<close> of line 662 fails.
\<close>

definition tlv_build :: "alloc_oracle \<Rightarrow> nat \<Rightarrow> tlv_item list \<Rightarrow> bytes option" where
  "tlv_build al c items =
     (if \<not> al [662, c] then None
      else Some (take (tlv_total items) (tlv_emit items)))"

subsection \<open>The two passes of the builder agree\<close>

lemma tlv_item_size_0 [simp]: "tlv_item_size 0 = 0"
  by (simp add: tlv_item_size.simps)

lemma tlv_emit_chunks_Nil [simp]: "tlv_emit_chunks t [] = []"
  by (simp add: tlv_emit_chunks.simps)

lemma length_tlv_emit_chunks: "length (tlv_emit_chunks t d) = tlv_item_size (length d)"
proof (induction t d rule: tlv_emit_chunks.induct)
  case (1 t d)
  show ?case
  proof (cases "d = []")
    case False
    with 1 show ?thesis
      by (subst tlv_emit_chunks.simps, subst tlv_item_size.simps) (auto simp: Let_def)
  qed simp
qed

lemma length_tlv_emit_item:
  "length (tlv_emit_item it) =
     (if tlv_data it = [] then 2 else tlv_item_size (length (tlv_data it)))"
  by (simp add: tlv_emit_item_def length_tlv_emit_chunks)

lemma length_tlv_emit: "length (tlv_emit items) = tlv_total items"
  by (simp add: tlv_emit_def tlv_total_def length_concat comp_def length_tlv_emit_item)

lemma tlv_build_Some: "al [662, c] \<Longrightarrow> tlv_build al c items = Some (tlv_emit items)"
  by (simp add: tlv_build_def length_tlv_emit [symmetric])

lemma tlv_emit_Cons [simp]: "tlv_emit (it # its) = tlv_emit_item it @ tlv_emit its"
  by (simp add: tlv_emit_def)

lemma tlv_emit_Nil [simp]: "tlv_emit [] = []"
  by (simp add: tlv_emit_def)

lemma tlv_emit_item_nonempty [simp]: "tlv_emit_item it \<noteq> []"
  by (simp add: tlv_emit_item_def tlv_emit_chunks.simps [of "tlv_type it" "tlv_data it"] Let_def)

lemma tlv_emit_eq_Nil [simp]: "tlv_emit items = [] \<longleftrightarrow> items = []"
  by (cases items) simp_all

text \<open>A fragmented item costs two bytes of header per 255 bytes of data.\<close>

lemma tlv_item_size_eq: "n > 0 \<Longrightarrow> tlv_item_size n = n + 2 * ((n + 254) div 255)"
proof (induction n rule: tlv_item_size.induct)
  case (1 n)
  show ?case
  proof (cases "n > 255")
    case True
    then have "tlv_item_size n = 257 + tlv_item_size (n - 255)"
      by (subst tlv_item_size.simps) simp
    moreover have "tlv_item_size (n - 255) = n - 255 + 2 * ((n - 255 + 254) div 255)"
      using "1.IH" True by simp
    moreover have "(n + 254) div 255 = (n - 255 + 254) div 255 + 1"
    proof -
      obtain m where "n = m + 255" using True by (metis less_imp_add_positive add.commute)
      then show ?thesis by simp
    qed
    ultimately show ?thesis using True by simp
  next
    case False
    with "1.prems" have "tlv_item_size n = 2 + n"
      by (subst tlv_item_size.simps) simp
    moreover have "(n + 254) div 255 = 1" using False "1.prems" by (simp add: div_nat_eqI)
    ultimately show ?thesis by simp
  qed
qed

subsection \<open>One step of the parser\<close>

lemma tlv_parse_loop_stop:
  "length buf \<le> i + 1 \<Longrightarrow> tlv_parse_loop al c buf i items = items"
  by (subst tlv_parse_loop.simps) simp

lemma tlv_parse_loop_step:
  assumes "length d \<le> 255" and "\<And>p. al p"
  shows "tlv_parse_loop al c (pre @ t # of_nat (length d) # d @ rest) (length pre) items =
     (if items \<noteq> [] \<and> tlv_type (last items) = t then
        tlv_parse_loop al c (pre @ t # of_nat (length d) # d @ rest) (length pre + 2 + length d)
          (butlast items @ [(last items)\<lparr>tlv_data := tlv_data (last items) @ d\<rparr>])
      else if length items \<ge> MAX_TLV_ITEMS then items
      else tlv_parse_loop al c (pre @ t # of_nat (length d) # d @ rest) (length pre + 2 + length d)
             (items @ [tlv_item t d]))"
  using assms
  by (subst tlv_parse_loop.simps) (simp add: nth_append Let_def)

text \<open>Fragments of one item are appended to the item that is last in the list.\<close>

lemma tlv_parse_chunks:
  assumes al: "\<And>p. al p" and "tlv_type (last items) = t" and "items \<noteq> []"
  shows "tlv_parse_loop al c (pre @ tlv_emit_chunks t d @ rest) (length pre) items =
    tlv_parse_loop al c (pre @ tlv_emit_chunks t d @ rest)
      (length pre + length (tlv_emit_chunks t d))
      (butlast items @ [(last items)\<lparr>tlv_data := tlv_data (last items) @ d\<rparr>])"
  using assms(2,3)
proof (induction t d arbitrary: pre items rule: tlv_emit_chunks.induct)
  case (1 t d)
  show ?case
  proof (cases "d = []")
    case False
    define n where "n = (if length d > 255 then 255 else length d)"
    define tk where "tk = take n d"
    have tk: "length tk = n" "n \<le> 255" "tk @ drop n d = d"
      using append_take_drop_id [of n d] by (auto simp: tk_def n_def)
    let ?hd = "t # of_nat n # tk"
    let ?its = "butlast items @ [(last items)\<lparr>tlv_data := tlv_data (last items) @ tk\<rparr>]"
    have e: "tlv_emit_chunks t d = ?hd @ tlv_emit_chunks t (drop n d)"
      using False by (subst tlv_emit_chunks.simps) (simp add: n_def tk_def Let_def)
    have "tlv_parse_loop al c (pre @ tlv_emit_chunks t d @ rest) (length pre) items =
      tlv_parse_loop al c (pre @ tlv_emit_chunks t d @ rest) (length pre + 2 + n) ?its"
      unfolding e using tlv_parse_loop_step [of tk al c pre t "tlv_emit_chunks t (drop n d) @ rest" items]
        tk al 1 by simp
    also have "\<dots> = tlv_parse_loop al c ((pre @ ?hd) @ tlv_emit_chunks t (drop n d) @ rest)
        (length (pre @ ?hd)) ?its"
      using tk(1) unfolding e by simp
    also have "\<dots> = tlv_parse_loop al c ((pre @ ?hd) @ tlv_emit_chunks t (drop n d) @ rest)
        (length (pre @ ?hd) + length (tlv_emit_chunks t (drop n d)))
        (butlast ?its @ [(last ?its)\<lparr>tlv_data := tlv_data (last ?its) @ drop n d\<rparr>])"
      by (rule "1.IH") (use False 1 in \<open>simp_all add: n_def\<close>)
    finally show ?thesis using tk unfolding e by (simp add: add.assoc)
  qed (use 1 in simp)
qed

lemma tlv_parse_item:
  assumes al: "\<And>p. al p" and new: "items = [] \<or> tlv_type (last items) \<noteq> tlv_type it"
    and "length items < MAX_TLV_ITEMS"
  shows "tlv_parse_loop al c (pre @ tlv_emit_item it @ rest) (length pre) items =
    tlv_parse_loop al c (pre @ tlv_emit_item it @ rest) (length pre + length (tlv_emit_item it))
      (items @ [it])"
proof -
  define t d where "t = tlv_type it" and "d = tlv_data it"
  have it: "it = tlv_item t d" by (simp add: t_def d_def tlv_item_def)
  show ?thesis
  proof (cases "d = []")
    case True
    then have "tlv_emit_item it = [t, 0]" by (simp add: tlv_emit_item_def it tlv_item_def)
    then show ?thesis
      using tlv_parse_loop_step [of "[]" al c pre t rest items] assms it True
      by (auto simp: tlv_item_def)
  next
    case False
    define n where "n = (if length d > 255 then 255 else length d)"
    define tk where "tk = take n d"
    have tk: "length tk = n" "n \<le> 255" "tk @ drop n d = d"
      using append_take_drop_id [of n d] by (auto simp: tk_def n_def)
    let ?hd = "t # of_nat n # tk"
    have e: "tlv_emit_item it = ?hd @ tlv_emit_chunks t (drop n d)"
      using False unfolding tlv_emit_item_def it
      by (simp add: tlv_item_def, subst tlv_emit_chunks.simps) (simp add: n_def tk_def Let_def)
    have "tlv_parse_loop al c (pre @ tlv_emit_item it @ rest) (length pre) items =
      tlv_parse_loop al c (pre @ tlv_emit_item it @ rest) (length pre + 2 + n)
        (items @ [tlv_item t tk])"
      unfolding e
      using tlv_parse_loop_step [of tk al c pre t "tlv_emit_chunks t (drop n d) @ rest" items]
        tk assms t_def by auto
    also have "\<dots> = tlv_parse_loop al c ((pre @ ?hd) @ tlv_emit_chunks t (drop n d) @ rest)
        (length (pre @ ?hd)) (items @ [tlv_item t tk])"
      using tk(1) unfolding e by simp
    also have "\<dots> = tlv_parse_loop al c ((pre @ ?hd) @ tlv_emit_chunks t (drop n d) @ rest)
        (length (pre @ ?hd) + length (tlv_emit_chunks t (drop n d))) (items @ [tlv_item t d])"
      using tlv_parse_chunks [of al "items @ [tlv_item t tk]" t c "pre @ ?hd" "drop n d" rest] tk(3) al
      by (simp add: tlv_item_def)
    finally show ?thesis using tk unfolding e by (simp add: it add.assoc)
  qed
qed

subsection \<open>Round trip\<close>

text \<open>
  A list of items survives a round trip when it fits the parser's table and no two
  neighbours have the same type (they would be read as fragments of one item).
\<close>

fun tlv_wf :: "tlv_item list \<Rightarrow> bool" where
  "tlv_wf (a # b # its) = (tlv_type a \<noteq> tlv_type b \<and> tlv_wf (b # its))"
| "tlv_wf _ = True"

lemma tlv_parse_emit:
  assumes al: "\<And>p. al p" and "length items + length its \<le> MAX_TLV_ITEMS"
    and "tlv_wf its" and "items = [] \<or> its = [] \<or> tlv_type (last items) \<noteq> tlv_type (hd its)"
  shows "tlv_parse_loop al c (pre @ tlv_emit its) (length pre) items = items @ its"
  using assms(2-)
proof (induction its arbitrary: pre items)
  case Nil
  then show ?case by (simp add: tlv_parse_loop_stop)
next
  case (Cons it its)
  have "tlv_parse_loop al c (pre @ tlv_emit (it # its)) (length pre) items =
    tlv_parse_loop al c ((pre @ tlv_emit_item it) @ tlv_emit its) (length (pre @ tlv_emit_item it))
      (items @ [it])"
    using tlv_parse_item [OF al, of items it] Cons.prems by auto
  also have "\<dots> = (items @ [it]) @ its"
    by (rule Cons.IH) (use Cons.prems in \<open>cases its; auto\<close>)+
  finally show ?case by simp
qed

lemma tlv_parse_tlv_emit:
  "(\<And>p. al p) \<Longrightarrow> length its \<le> MAX_TLV_ITEMS \<Longrightarrow> tlv_wf its \<Longrightarrow>
     tlv_parse al c (tlv_emit its) = Some its"
  using tlv_parse_emit [of al "[]" its c "[]"] by (simp add: tlv_parse_def)

subsection \<open>Bounds of the parser\<close>

lemma tlv_parse_loop_count:
  "length items \<le> MAX_TLV_ITEMS \<Longrightarrow> length (tlv_parse_loop al c buf i items) \<le> MAX_TLV_ITEMS"
proof (induction al c buf i items rule: tlv_parse_loop.induct)
  case (1 al c buf i items)
  show ?case
    using 1 by (subst tlv_parse_loop.simps) (auto simp: Let_def)
qed

abbreviation tlv_bytes :: "tlv_item list \<Rightarrow> nat" where
  "tlv_bytes items \<equiv> (\<Sum>it\<leftarrow>items. length (tlv_data it))"

lemma tlv_bytes_butlast:
  "items \<noteq> [] \<Longrightarrow> tlv_bytes (butlast items) + length (tlv_data (last items)) = tlv_bytes items"
  by (induction items rule: rev_induct) simp_all

lemma tlv_parse_loop_bytes:
  "tlv_bytes (tlv_parse_loop al c buf i items) \<le> tlv_bytes items + (length buf - i)"
proof (induction al c buf i items rule: tlv_parse_loop.induct)
  case (1 al c buf i items)
  let ?n = "unat (buf ! (i + 1))" and ?d = "take (unat (buf ! (i + 1))) (drop (i + 2) buf)"
  show ?case
  proof (cases "i + 2 + ?n \<le> length buf")
    case True
    then have d: "length ?d = ?n" by simp
    show ?thesis
      using 1 True d tlv_bytes_butlast [of items]
      by (subst tlv_parse_loop.simps) (force simp: Let_def tlv_item_def)
  next
    case False
    then show ?thesis by (subst tlv_parse_loop.simps) (auto simp: Let_def)
  qed
qed

subsection \<open>Lookup\<close>

lemma tlv_find_Some:
  "tlv_find its t = Some it \<Longrightarrow> it \<in> set its \<and> tlv_type it = t"
  by (induction its) (auto split: if_splits)

lemma tlv_find_None: "tlv_find its t = None \<longleftrightarrow> t \<notin> tlv_type ` set its"
  by (induction its) auto

lemma tlv_find_first:
  "tlv_type it = t \<Longrightarrow> t \<notin> tlv_type ` set its \<Longrightarrow> tlv_find (its @ it # its') t = Some it"
  by (induction its) auto

lemma tlv_item_sel [simp]:
  "tlv_type (tlv_item t d) = t" "tlv_data (tlv_item t d) = d"
  by (simp_all add: tlv_item_def)

end
