(* ===== verification/PairCtx.thy ===== *)
theory PairCtx
  imports SrpSpec Tlv8
begin

text \<open>
  Section 6 of \<^verbatim>\<open>source/carplay_pair.c\<close>: the pairing context, its creation and the
  keys derived from it after pair-verify, with the constants of the TLV8 messages and what a
  request takes from its environment.  The two status queries of section 9 are here too.
\<close>

abbreviation (input) TLV_METHOD :: byte where "TLV_METHOD \<equiv> 0x00"
abbreviation (input) TLV_IDENTIFIER :: byte where "TLV_IDENTIFIER \<equiv> 0x01"
abbreviation (input) TLV_SALT :: byte where "TLV_SALT \<equiv> 0x02"
abbreviation (input) TLV_PUBLIC_KEY :: byte where "TLV_PUBLIC_KEY \<equiv> 0x03"
abbreviation (input) TLV_PROOF :: byte where "TLV_PROOF \<equiv> 0x04"
abbreviation (input) TLV_ENCRYPTED_DATA :: byte where "TLV_ENCRYPTED_DATA \<equiv> 0x05"
abbreviation (input) TLV_STATE :: byte where "TLV_STATE \<equiv> 0x06"
abbreviation (input) TLV_ERROR :: byte where "TLV_ERROR \<equiv> 0x07"
abbreviation (input) TLV_SIGNATURE :: byte where "TLV_SIGNATURE \<equiv> 0x0A"
abbreviation (input) ED25519_KEY_LEN :: nat where "ED25519_KEY_LEN \<equiv> 32"

subsection \<open>State\<close>

record 'o pair_ctx =
  our_sk :: bytes
  our_pk :: bytes
  pc_pin :: bytes
  srp_salt :: bytes
  srp_b :: bytes
  srp_verifier :: "bytes option"
  srp_verifier_len :: nat
  srp_session_key :: bytes
  srp_has_session_key :: bool
  client_pk :: bytes
  client_pk_set :: bool
  setup_state :: nat
  verify_state :: nat
  verify_ecdh_ours :: "'o option"
  verify_shared :: bytes
  verify_enc_key :: bytes
  verify_our_ecdh_pk :: bytes
  client_ecdh_pk :: bytes
  client_ecdh_pk_set :: bool

text \<open>
  What one request takes from outside: the allocator, the results of \<open>BN_rand\<close> and
  \<open>RAND_bytes\<close>, and of X25519 key generation (context, key).
\<close>

record 'o env =
  alloc :: alloc_oracle
  env_bn_rand :: nat
  env_rand_b :: bytes
  env_pkey_ctx :: bool
  env_keygen :: "'o option"

text \<open>\<open>calloc\<close>, two \<open>memcpy\<close> of 32 bytes, and \<open>strncpy\<close> of at most 15 bytes into \<open>pin[16]\<close>.\<close>

definition pair_ctx_create ::
    "alloc_oracle \<Rightarrow> bytes \<Rightarrow> bytes \<Rightarrow> bytes option \<Rightarrow> 'o pair_ctx option" where
  "pair_ctx_create al sk pk pin =
     (if \<not> al [881] then None
      else let p = take 15 (c_str (case pin of Some p \<Rightarrow> p | None \<Rightarrow> lit ''3939''))
      in Some \<lparr>our_sk = take 32 sk, our_pk = take 32 pk,
           pc_pin = p @ replicate (16 - length p) 0,
           srp_salt = replicate 16 0, srp_b = replicate 32 0,
           srp_verifier = None, srp_verifier_len = 0,
           srp_session_key = replicate 64 0, srp_has_session_key = False,
           client_pk = replicate 32 0, client_pk_set = False,
           setup_state = 0, verify_state = 0, verify_ecdh_ours = None,
           verify_shared = replicate 32 0, verify_enc_key = replicate 32 0,
           verify_our_ecdh_pk = replicate 32 0, client_ecdh_pk = replicate 32 0,
           client_ecdh_pk_set = False\<rparr>)"

definition pair_setup_is_complete :: "'o pair_ctx option \<Rightarrow> bool" where
  "pair_setup_is_complete ctx = (case ctx of None \<Rightarrow> False | Some c \<Rightarrow> setup_state c = 6)"

definition pair_verify_is_complete :: "'o pair_ctx option \<Rightarrow> bool" where
  "pair_verify_is_complete ctx = (case ctx of None \<Rightarrow> False | Some c \<Rightarrow> verify_state c = 4)"

subsection \<open>Session keys\<close>

text \<open>Results: (readKey, writeKey), or \<open>None\<close> for -1.\<close>

definition pair_derive_control_keys ::
    "'o ossl \<Rightarrow> 'o pair_ctx option \<Rightarrow> (bytes \<times> bytes) option" where
  "pair_derive_control_keys O' ctx =
     (case ctx of None \<Rightarrow> None | Some c \<Rightarrow>
        if verify_state c \<noteq> 4 then None
        else Some
          (hkdf_sha512 O' (verify_shared c) (lit ''Control-Salt'') (lit ''Control-Write-Encryption-Key'') 32,
           hkdf_sha512 O' (verify_shared c) (lit ''Control-Salt'') (lit ''Control-Read-Encryption-Key'') 32))"

definition pair_derive_event_keys ::
    "'o ossl \<Rightarrow> 'o pair_ctx option \<Rightarrow> (bytes \<times> bytes) option" where
  "pair_derive_event_keys O' ctx =
     (case ctx of None \<Rightarrow> None | Some c \<Rightarrow>
        if verify_state c \<noteq> 4 then None
        else Some
          (hkdf_sha512 O' (verify_shared c) (lit ''Events-Salt'') (lit ''Events-Read-Encryption-Key'') 32,
           hkdf_sha512 O' (verify_shared c) (lit ''Events-Salt'') (lit ''Events-Write-Encryption-Key'') 32))"

text \<open>\<open>%llu\<close>.\<close>

fun dec_digits :: "nat \<Rightarrow> bytes" where
  "dec_digits n =
     (if n < 10 then [of_nat (48 + n)] else dec_digits (n div 10) @ [of_nat (48 + n mod 10)])"

declare dec_digits.simps [simp del]

text \<open>
  \<open>snprintf\<close> into \<open>char saltBuf[64]\<close> returns the length of the whole text; \<open>hkdf_sha512\<close>
  would read past the buffer if that exceeded 64.
\<close>

definition pair_derive_stream_key ::
    "'o ossl \<Rightarrow> 'o pair_ctx option \<Rightarrow> u64 \<Rightarrow> bytes option outcome" where
  "pair_derive_stream_key O' ctx streamConnectionID =
     (case ctx of None \<Rightarrow> Ret None | Some c \<Rightarrow>
        if verify_state c \<noteq> 4 then Ret None
        else let txt = lit ''DataStream-Salt'' @ dec_digits (unat streamConnectionID);
                 saltLen = length txt in
          if saltLen > 64 then Undef
          else let saltBuf = take 63 txt @ replicate (64 - length (take 63 txt)) 0
            in Ret (Some (hkdf_sha512 O' (verify_shared c) (take saltLen saltBuf)
                            (lit ''DataStream-Output-Encryption-Key'') 32)))"

lemma length_dec_digits: "n < 10 ^ Suc k \<Longrightarrow> length (dec_digits n) \<le> Suc k"
proof (induction n arbitrary: k rule: dec_digits.induct)
  case (1 n)
  show ?case
  proof (cases "n < 10")
    case True
    then show ?thesis by (subst dec_digits.simps) simp
  next
    case False
    then obtain k' where k: "k = Suc k'" using "1.prems" by (cases k) auto
    have "n div 10 < 10 ^ Suc k'" using "1.prems" k by (simp add: less_mult_imp_div_less)
    then have "length (dec_digits (n div 10)) \<le> Suc k'" by (rule "1.IH" [OF False])
    with False k show ?thesis by (subst dec_digits.simps) simp
  qed
qed

lemma length_dec_digits_u64: "length (dec_digits (unat (i :: u64))) \<le> 20"
proof -
  have "unat i < 18446744073709551616" using unsigned_less [of i] by simp
  then have "unat i < 10 ^ Suc 19" by simp
  then show ?thesis using length_dec_digits [of "unat i" 19] by simp
qed

text \<open>Well-formed contexts: every array has its C size, the pin is terminated.\<close>

definition ctx_sizes :: "'o pair_ctx \<Rightarrow> bool" where
  "ctx_sizes c \<longleftrightarrow>
     length (our_sk c) = 32 \<and> length (our_pk c) = 32 \<and> length (pc_pin c) = 16 \<and>
     0 \<in> set (pc_pin c) \<and> length (srp_salt c) = 16 \<and> length (srp_b c) = 32 \<and>
     length (srp_session_key c) = 64 \<and> length (client_pk c) = 32 \<and>
     length (verify_shared c) = 32 \<and> length (verify_enc_key c) = 32 \<and>
     length (verify_our_ecdh_pk c) = 32 \<and> length (client_ecdh_pk c) = 32 \<and>
     (case srp_verifier c of None \<Rightarrow> True | Some v \<Rightarrow> srp_verifier_len c = length v)"

text \<open>
  The invariant of the two handshakes, for a library that keeps its contracts: states are
  those of the comments in the struct, a finished pair-setup has a session key and a client
  key, and the pair-verify key belongs to the shared secret, or neither was ever computed.
\<close>

definition verify_key :: "'o ossl \<Rightarrow> bytes \<Rightarrow> bytes" where
  "verify_key O' shared =
     hkdf_sha512 O' shared (lit ''Pair-Verify-Encrypt-Salt'') (lit ''Pair-Verify-Encrypt-Info'') 32"

definition pair_inv :: "'o ossl \<Rightarrow> 'o pair_ctx \<Rightarrow> bool" where
  "pair_inv O' c \<longleftrightarrow> ctx_sizes c \<and>
     setup_state c \<in> {0, 2, 4, 6} \<and> verify_state c \<in> {0, 2, 4} \<and>
     (srp_verifier c = None \<longrightarrow> srp_verifier_len c = 0) \<and>
     (setup_state c \<in> {4, 6} \<longrightarrow> srp_has_session_key c) \<and>
     (setup_state c = 6 \<longrightarrow> client_pk_set c) \<and>
     (verify_state c = 2 \<longrightarrow> client_ecdh_pk_set c \<and> verify_ecdh_ours c \<noteq> None) \<and>
     (case verify_ecdh_ours c of
        None \<Rightarrow> verify_shared c = replicate 32 0 \<and> verify_enc_key c = replicate 32 0
      | Some k \<Rightarrow> verify_enc_key c = verify_key O' (verify_shared c) \<and>
                 verify_our_ecdh_pk c = EVP_PKEY_get_raw_public_key O' k)"

text \<open>The contracts of the library and the allocator for one request.\<close>

definition contracts :: "'o ossl \<Rightarrow> bool" where
  "contracts O' \<longleftrightarrow> lib_ok O' \<and> hmac_ok O' \<and> aead_ok O' \<and> curve_ok O'"

definition env_ok :: "'o env \<Rightarrow> bool" where
  "env_ok e \<longleftrightarrow> alloc_ok (alloc e) \<and> length (bytes_of_nat (env_bn_rand e)) \<le> 16 \<and>
     length (env_rand_b e) = 32"

lemma contractsD:
  assumes "contracts O'"
  shows "lib_ok O'" "hmac_ok O'" "aead_ok O'" "curve_ok O'"
  using assms by (simp_all add: contracts_def)

lemma toy_contracts: "contracts toy_ossl"
  using toy_ok by (simp add: contracts_def lib_ok_def) (simp add: toy_ossl_def)

lemma pair_inv_create:
  assumes "pair_ctx_create al sk pk pin = Some c" "length sk = 32" "length pk = 32"
  shows "pair_inv O' c"
  using assms
  by (auto simp: pair_ctx_create_def pair_inv_def ctx_sizes_def Let_def split: if_splits)

end
