(* ===== verification/PairSetup.thy ===== *)
theory PairSetup
  imports PairCtx
begin

text \<open>
  Section 7 of \<^verbatim>\<open>source/carplay_pair.c\<close>: the pair-setup handlers M1, M3 and M5 and
  their dispatcher.  A handler maps the context to the new context and the response (NULL is
  \<open>None\<close>); log output is left out.
\<close>

type_synonym 'o reply = "('o pair_ctx \<times> bytes option) outcome"

subsection \<open>Model\<close>

text \<open>\<open>c\<close> is the calling line.\<close>

definition make_error_response :: "alloc_oracle \<Rightarrow> nat \<Rightarrow> byte \<Rightarrow> byte \<Rightarrow> bytes option" where
  "make_error_response al c state error_code =
     tlv_build al c [tlv_item TLV_STATE [state], tlv_item TLV_ERROR [error_code]]"

definition handle_setup_m1 :: "'o ossl \<Rightarrow> 'o env \<Rightarrow> 'o pair_ctx \<Rightarrow> 'o reply" where
  "handle_setup_m1 O' e ctx =
     (let al = alloc e;
          ctx = ctx\<lparr>srp_verifier := None, srp_has_session_key := False, client_pk_set := False\<rparr> in
      bind_outcome (srp_create_salt_verifier O' al (env_bn_rand e) SRP_USERNAME (c_str (pc_pin ctx)))
        (\<lambda>(salt, ver).
      let ctx = (case salt of None \<Rightarrow> ctx | Some s \<Rightarrow> ctx\<lparr>srp_salt := s\<rparr>) in
      case ver of None \<Rightarrow> Ret (ctx, make_error_response al 1009 2 1)
      | Some verifier \<Rightarrow>
        let ctx = ctx\<lparr>srp_verifier := Some verifier, srp_verifier_len := length verifier,
                      srp_b := env_rand_b e\<rparr> in
        (case srp_create_B O' al verifier (srp_b ctx) of
           None \<Rightarrow> Ret (ctx, make_error_response al 1025 2 1)
         | Some B \<Rightarrow>
             Ret (ctx\<lparr>setup_state := 2\<rparr>,
                  tlv_build al 1040 [tlv_item TLV_STATE [2], tlv_item TLV_SALT (srp_salt ctx),
                                     tlv_item TLV_PUBLIC_KEY B]))))"

text \<open>
  M3.  \<open>srp_verifier_new\<close> is given \<open>srp_verifier_len\<close> bytes at \<open>srp_verifier\<close>; reading a
  positive number of bytes from a NULL pointer is undefined.
\<close>

definition handle_setup_m3 :: "'o ossl \<Rightarrow> 'o env \<Rightarrow> 'o pair_ctx \<Rightarrow> tlv_item list \<Rightarrow> 'o reply" where
  "handle_setup_m3 O' e ctx inp =
     (let al = alloc e in
      case (tlv_find inp TLV_PUBLIC_KEY, tlv_find inp TLV_PROOF) of
        (Some pk_item, Some proof_item) \<Rightarrow>
          if length (tlv_data proof_item) \<noteq> SRP_HASH_LEN
          then Ret (ctx, make_error_response al 1067 4 2)
          else if srp_verifier ctx = None \<and> srp_verifier_len ctx > 0 \<and> al [450] \<and> al [451]
          then Undef
          else let v = (case srp_verifier ctx of None \<Rightarrow> [] | Some v \<Rightarrow> v) in
            bind_outcome (srp_verifier_new O' al SRP_USERNAME (srp_salt ctx) v
                            (tlv_data pk_item) (srp_b ctx)) (\<lambda>ver.
            case ver of
              None \<Rightarrow> Ret (ctx, make_error_response al 1078 4 2)
            | Some ver \<Rightarrow>
                let (ver, server_M2) = srp_verifier_verify ver (tlv_data proof_item) in
                (case server_M2 of
                   None \<Rightarrow> Ret (ctx, make_error_response al 1091 4 2)
                 | Some M2 \<Rightarrow>
                     Ret (ctx\<lparr>srp_session_key := session_key ver, srp_has_session_key := True,
                              setup_state := 4\<rparr>,
                          tlv_build al 1109 [tlv_item TLV_STATE [4], tlv_item TLV_PROOF M2])))
      | _ \<Rightarrow> Ret (ctx, make_error_response al 1058 4 2))"

text \<open>The client's long-term key, from the decrypted sub-TLV of M5.\<close>

definition m5_learn_client_pk :: "alloc_oracle \<Rightarrow> 'o pair_ctx \<Rightarrow> bytes \<Rightarrow> 'o pair_ctx" where
  "m5_learn_client_pk al ctx plaintext =
     (case tlv_parse al 1166 plaintext of
        Some sub \<Rightarrow>
          (case tlv_find sub TLV_PUBLIC_KEY of
             Some pk \<Rightarrow>
               if length (tlv_data pk) \<ge> ED25519_KEY_LEN
               then ctx\<lparr>client_pk := take ED25519_KEY_LEN (tlv_data pk), client_pk_set := True\<rparr>
               else ctx
           | None \<Rightarrow> ctx)
      | None \<Rightarrow>
          if length plaintext = ED25519_KEY_LEN
          then ctx\<lparr>client_pk := plaintext, client_pk_set := True\<rparr> else ctx)"

definition m6_ident :: bytes where "m6_ident = lit ''90:B9:31:AC:86:A0''"

text \<open>The signature of M6, over accessoryX, the identifier and our public key.\<close>

definition m6_signature :: "'o ossl \<Rightarrow> 'o pair_ctx \<Rightarrow> bytes" where
  "m6_signature O' ctx =
     (let accessoryX = hkdf_sha512 O' (srp_session_key ctx) (lit ''Pair-Setup-Accessory-Sign-Salt'')
                         (lit ''Pair-Setup-Accessory-Sign-Info'') 32;
          sign_msg = accessoryX @ m6_ident @ our_pk ctx
      in case Ed25519_private_key O' (our_sk ctx) of
           Some k \<Rightarrow> EVP_DigestSign O' k sign_msg
         | None \<Rightarrow> replicate 64 0)"

definition m6_sub_items :: "'o ossl \<Rightarrow> 'o pair_ctx \<Rightarrow> tlv_item list" where
  "m6_sub_items O' ctx =
     [tlv_item TLV_IDENTIFIER m6_ident, tlv_item TLV_PUBLIC_KEY (our_pk ctx),
      tlv_item TLV_SIGNATURE (m6_signature O' ctx)]"

definition handle_setup_m5 :: "'o ossl \<Rightarrow> 'o env \<Rightarrow> 'o pair_ctx \<Rightarrow> tlv_item list \<Rightarrow> 'o reply" where
  "handle_setup_m5 O' e ctx inp =
     (let al = alloc e in
      if \<not> srp_has_session_key ctx then Ret (ctx, make_error_response al 1125 6 2)
      else on_null (tlv_find inp TLV_ENCRYPTED_DATA) (Ret (ctx, make_error_response al 1131 6 2))
        (\<lambda>enc_item.
      let enc = tlv_data enc_item;
          enc_key = derive_pair_setup_encrypt_key O' (srp_session_key ctx) in
      if length enc < 16 + 1 then Ret (ctx, make_error_response al 1144 6 2)
      else let ct_len = length enc - 16 in
      if \<not> al [1150] then Ret (ctx, make_error_response al 1151 6 1)
      else on_null (chacha_decrypt O' enc_key (lit ''PS-Msg05'') (take ct_len enc) (drop ct_len enc))
        (Ret (ctx, make_error_response al 1160 6 2)) (\<lambda>plaintext.
      if plaintext = [] then Ret (ctx, make_error_response al 1160 6 2)
      else let ctx = m5_learn_client_pk al ctx plaintext in
      if \<not> client_pk_set ctx then Ret (ctx, make_error_response al 1204 6 2)
      else if \<not> al [1226] then Undef
      else on_null (tlv_build al 1260 (m6_sub_items O' ctx))
        (Ret (ctx, make_error_response al 1261 6 1)) (\<lambda>sub_buf.
      if \<not> al [1266] then Ret (ctx, make_error_response al 1268 6 1)
      else on_null (chacha_encrypt O' enc_key (lit ''PS-Msg06'') sub_buf)
        (Ret (ctx, make_error_response al 1276 6 1)) (\<lambda>(enc_ct, enc_tag).
      if enc_ct = [] then Ret (ctx, make_error_response al 1276 6 1)
      else if \<not> al [1281] then Ret (ctx, make_error_response al 1282 6 1)
      else Ret (ctx\<lparr>setup_state := 6\<rparr>,
                tlv_build al 1293 [tlv_item TLV_STATE [6],
                  tlv_item TLV_ENCRYPTED_DATA (enc_ct @ take 16 enc_tag)]))))))"

definition pair_setup_handle :: "'o ossl \<Rightarrow> 'o env \<Rightarrow> 'o pair_ctx \<Rightarrow> bytes \<Rightarrow> 'o reply" where
  "pair_setup_handle O' e ctx body =
     (if body = [] then Ret (ctx, None)
      else on_null (tlv_parse (alloc e) 1308 body) (Ret (ctx, None)) (\<lambda>inp.
      on_null (tlv_find inp TLV_STATE) (Ret (ctx, None)) (\<lambda>state_item.
      if length (tlv_data state_item) \<noteq> 1 then Ret (ctx, None)
      else let state = tlv_data state_item ! 0 in
        if state = 1 then handle_setup_m1 O' e ctx
        else if state = 3 then handle_setup_m3 O' e ctx inp
        else if state = 5 then handle_setup_m5 O' e ctx inp
        else Ret (ctx, make_error_response (alloc e) 1339 (state + 1) 1))))"

subsection \<open>Responses\<close>

definition error_bytes :: "byte \<Rightarrow> byte \<Rightarrow> bytes" where
  "error_bytes state code = [0x06, 1, state, 0x07, 1, code]"

lemma tlv_emit_item_short:
  "d \<noteq> [] \<Longrightarrow> length d \<le> 255 \<Longrightarrow> tlv_emit_item (tlv_item t d) = t # of_nat (length d) # d"
  by (simp add: tlv_emit_item_def, subst tlv_emit_chunks.simps) (simp add: Let_def)

lemma make_error_response_ok:
  "alloc_ok al \<Longrightarrow> make_error_response al c state code = Some (error_bytes state code)"
  by (simp add: make_error_response_def tlv_build_Some tlv_emit_item_short error_bytes_def)

lemma tlv_build_ok: "alloc_ok al \<Longrightarrow> tlv_build al c items = Some (tlv_emit items)"
  by (simp add: tlv_build_Some)

lemma tlv_parse_ok: "alloc_ok al \<Longrightarrow> \<exists>its. tlv_parse al c buf = Some its"
  by (simp add: tlv_parse_def)

lemma env_okD:
  assumes "env_ok e"
  shows "alloc_ok (alloc e)" "length (bytes_of_nat (env_bn_rand e)) \<le> 16" "length (env_rand_b e) = 32"
  using assms by (simp_all add: env_ok_def)

subsection \<open>Preservation of the invariant\<close>

lemma length_pad_16: "length (bytes_of_nat n) \<le> 16 \<Longrightarrow> length (pad_num 16 n) = 16"
  by simp

text \<open>The verifier that M1 computes from the pin of the context, and its response.\<close>

definition m1_verifier :: "'o ossl \<Rightarrow> 'o env \<Rightarrow> 'o pair_ctx \<Rightarrow> nat" where
  "m1_verifier O' e ctx =
     srp_g ^ spec_x O' (bytes_of_nat (env_bn_rand e)) SRP_USERNAME (c_str (pc_pin ctx)) mod srp_N"

definition m2_items :: "'o ossl \<Rightarrow> 'o env \<Rightarrow> 'o pair_ctx \<Rightarrow> tlv_item list" where
  "m2_items O' e ctx =
     [tlv_item TLV_STATE [2], tlv_item TLV_SALT (pad_num 16 (env_bn_rand e)),
      tlv_item TLV_PUBLIC_KEY
        (bytes_of_nat (spec_B O' (m1_verifier O' e ctx) (nat_of_bytes (env_rand_b e))))]"

definition m1_ctx :: "'o ossl \<Rightarrow> 'o env \<Rightarrow> 'o pair_ctx \<Rightarrow> 'o pair_ctx" where
  "m1_ctx O' e ctx =
     ctx\<lparr>srp_verifier := Some (bytes_of_nat (m1_verifier O' e ctx)),
         srp_verifier_len := length (bytes_of_nat (m1_verifier O' e ctx)),
         srp_has_session_key := False, client_pk_set := False,
         srp_salt := pad_num 16 (env_bn_rand e), srp_b := env_rand_b e, setup_state := 2\<rparr>"

lemma setup_m1_ok:
  assumes "lib_ok O'" "env_ok e"
  shows "handle_setup_m1 O' e ctx = Ret (m1_ctx O' e ctx, Some (tlv_emit (m2_items O' e ctx)))"
  using assms env_okD [OF assms(2)]
  by (simp add: handle_setup_m1_def Let_def srp_create_salt_verifier_ok srp_create_B_ok
      tlv_build_ok m1_ctx_def m2_items_def m1_verifier_def)

lemma pair_inv_m1_ctx [wf_intros]:
  assumes "env_ok e" "pair_inv O' ctx"
  shows "pair_inv O' (m1_ctx O' e ctx)"
  using assms(2) env_okD [OF assms(1)]
  by (auto simp: m1_ctx_def pair_inv_def ctx_sizes_def split: option.splits)

text \<open>M3 under the contracts: rejected with an error, or accepted with one of the two keys.\<close>

definition m3_verifier :: "'o ossl \<Rightarrow> 'o pair_ctx \<Rightarrow> nat \<Rightarrow> srp_verifier" where
  "m3_verifier O' ctx A =
     spec_verifier O' SRP_USERNAME (srp_salt ctx)
       (nat_of_bytes (case srp_verifier ctx of None \<Rightarrow> [] | Some v \<Rightarrow> v)) A (nat_of_bytes (srp_b ctx))"

definition m3_accept :: "'o pair_ctx \<Rightarrow> bytes \<Rightarrow> bytes \<Rightarrow> 'o pair_ctx \<times> bytes option" where
  "m3_accept ctx K M2 =
     (ctx\<lparr>srp_session_key := K, srp_has_session_key := True, setup_state := 4\<rparr>,
      Some (tlv_emit [tlv_item TLV_STATE [4], tlv_item TLV_PROOF M2]))"

lemma setup_m3_ok:
  assumes "lib_ok O'" "env_ok e" "srp_verifier ctx = None \<longrightarrow> srp_verifier_len ctx = 0"
  shows "handle_setup_m3 O' e ctx inp =
    (case (tlv_find inp TLV_PUBLIC_KEY, tlv_find inp TLV_PROOF) of
       (Some pk, Some pr) \<Rightarrow>
         (let A = nat_of_bytes (tlv_data pk); P = tlv_data pr; ver = m3_verifier O' ctx A in
          if length P = 64 \<and> A mod srp_N \<noteq> 0 \<and> fits_N A \<and> P = ver_M ver
          then Ret (m3_accept ctx (session_key ver) (ver_H_AMK ver))
          else if length P = 64 \<and> A mod srp_N \<noteq> 0 \<and> fits_N A \<and> P = M_padded ver
          then Ret (m3_accept ctx (session_key_padded ver) (H_AMK_padded ver))
          else Ret (ctx, Some (error_bytes 4 2)))
     | _ \<Rightarrow> Ret (ctx, Some (error_bytes 4 2)))"
proof (cases "tlv_find inp TLV_PUBLIC_KEY")
  case (Some pk)
  note pk = this
  show ?thesis
  proof (cases "tlv_find inp TLV_PROOF")
    case (Some pr)
    let ?A = "nat_of_bytes (tlv_data pk)"
    have len: "length (ver_M (m3_verifier O' ctx ?A)) = 64"
      "length (M_padded (m3_verifier O' ctx ?A)) = 64"
      using assms(1) by (simp_all add: m3_verifier_def spec_verifier_def length_spec_M1 Let_def)
    from assms(1,3) env_okD(1) [OF assms(2)] len show ?thesis
      by (auto simp: handle_setup_m3_def pk Some Let_def srp_verifier_new_ok make_error_response_ok
          tlv_build_ok srp_verifier_verify_def m3_accept_def m3_verifier_def [symmetric])
  qed (use assms env_okD(1) [OF assms(2)] pk in \<open>simp add: handle_setup_m3_def Let_def make_error_response_ok\<close>)
qed (use assms env_okD(1) [OF assms(2)] in \<open>simp add: handle_setup_m3_def Let_def make_error_response_ok\<close>)

lemma pair_inv_m3_accept [wf_intros]:
  "pair_inv O' ctx \<Longrightarrow> length K = 64 \<Longrightarrow> pair_inv O' (fst (m3_accept ctx K M2))"
  by (auto simp: m3_accept_def pair_inv_def ctx_sizes_def split: option.splits)

lemma length_m3_keys:
  "lib_ok O' \<Longrightarrow> length (session_key (m3_verifier O' ctx A)) = 64"
  "lib_ok O' \<Longrightarrow> length (session_key_padded (m3_verifier O' ctx A)) = 64"
  by (simp_all add: m3_verifier_def spec_verifier_def Let_def length_sha512)

subsection \<open>M5\<close>

lemma pair_inv_set_client_pk [wf_intros]:
  "pair_inv O' ctx \<Longrightarrow> length k = 32 \<Longrightarrow> pair_inv O' (ctx\<lparr>client_pk := k, client_pk_set := True\<rparr>)"
  by (auto simp: pair_inv_def ctx_sizes_def split: option.splits)

lemma pair_inv_m5_learn [wf_intros]:
  "pair_inv O' ctx \<Longrightarrow> pair_inv O' (m5_learn_client_pk al ctx pt)"
  by (auto simp: m5_learn_client_pk_def pair_inv_set_client_pk split: option.splits)

lemma m5_learn_frame [simp]:
  "srp_has_session_key (m5_learn_client_pk al ctx pt) = srp_has_session_key ctx"
  "srp_session_key (m5_learn_client_pk al ctx pt) = srp_session_key ctx"
  "our_sk (m5_learn_client_pk al ctx pt) = our_sk ctx"
  "our_pk (m5_learn_client_pk al ctx pt) = our_pk ctx"
  "setup_state (m5_learn_client_pk al ctx pt) = setup_state ctx"
  "verify_state (m5_learn_client_pk al ctx pt) = verify_state ctx"
  by (simp_all add: m5_learn_client_pk_def split: option.splits)

lemma pair_inv_complete [wf_intros]:
  "pair_inv O' ctx \<Longrightarrow> srp_has_session_key ctx \<Longrightarrow> client_pk_set ctx \<Longrightarrow>
     pair_inv O' (ctx\<lparr>setup_state := 6\<rparr>)"
  by (auto simp: pair_inv_def ctx_sizes_def split: option.splits)

lemma setup_m5_inv [wf_intros]:
  assumes "env_ok e" "pair_inv O' ctx"
  shows "\<exists>ctx' r. handle_setup_m5 O' e ctx inp = Ret (ctx', Some r) \<and> pair_inv O' ctx'"
  using assms(2) env_okD(1) [OF assms(1)]
  by (auto simp: handle_setup_m5_def Let_def make_error_response_ok tlv_build_ok
      intro: wf_intros split: on_null_split)

lemma setup_m3_inv [wf_intros]:
  assumes "lib_ok O'" "env_ok e" "pair_inv O' ctx"
  shows "\<exists>ctx' r. handle_setup_m3 O' e ctx inp = Ret (ctx', Some r) \<and> pair_inv O' ctx'"
proof -
  have v: "srp_verifier ctx = None \<longrightarrow> srp_verifier_len ctx = 0"
    using assms(3) by (simp add: pair_inv_def)
  have acc: "\<exists>ctx'. (\<exists>r. m3_accept ctx K M = (ctx', Some r)) \<and> pair_inv O' ctx'" if "length K = 64" for K M
    using pair_inv_m3_accept [OF assms(3) that, of M] by (simp add: m3_accept_def)
  show ?thesis
    using assms(3) length_m3_keys [OF assms(1)]
    by (auto simp: setup_m3_ok [OF assms(1,2) v] Let_def acc split: option.splits)
qed

lemma setup_m1_inv [wf_intros]:
  assumes "lib_ok O'" "env_ok e" "pair_inv O' ctx"
  shows "\<exists>ctx' r. handle_setup_m1 O' e ctx = Ret (ctx', Some r) \<and> pair_inv O' ctx'"
  by (simp add: setup_m1_ok [OF assms(1,2)] pair_inv_m1_ctx [OF assms(2,3)])

lemma setup_handle_inv [wf_intros]:
  assumes "contracts O'" "env_ok e" "pair_inv O' ctx"
  shows "\<exists>ctx' r. pair_setup_handle O' e ctx body = Ret (ctx', r) \<and> pair_inv O' ctx'"
  unfolding pair_setup_handle_def
  using assms(3) setup_m1_inv [OF contractsD(1) [OF assms(1)] assms(2,3)]
    setup_m3_inv [OF contractsD(1) [OF assms(1)] assms(2,3)] setup_m5_inv [OF assms(2,3)]
  by (fastforce split: on_null_split simp: Let_def)

subsection \<open>The dispatcher on well-formed requests\<close>

lemma setup_dispatch:
  assumes "alloc_ok (alloc e)" "length its \<le> 16" "tlv_wf its" "tlv_find its TLV_STATE = Some it"
    "tlv_data it = [s]" "its \<noteq> []"
  shows "pair_setup_handle O' e ctx (tlv_emit its) =
    (if s = 1 then handle_setup_m1 O' e ctx
     else if s = 3 then handle_setup_m3 O' e ctx its
     else if s = 5 then handle_setup_m5 O' e ctx its
     else Ret (ctx, Some (error_bytes (s + 1) 1)))"
proof -
  have "tlv_emit its \<noteq> []"
    using assms(6) by simp
  moreover have "tlv_parse (alloc e) 1308 (tlv_emit its) = Some its"
    using assms by (intro tlv_parse_tlv_emit) simp_all
  ultimately show ?thesis
    using assms by (simp add: pair_setup_handle_def make_error_response_ok)
qed

text \<open>M5 from a client that knows the session key, and what it can read in M6.\<close>

lemma setup_m5_ok:
  assumes c: "contracts O'" and e: "env_ok e" and inv: "pair_inv O' ctx"
    and key: "srp_has_session_key ctx"
    and enc: "chacha_encrypt O' (derive_pair_setup_encrypt_key O' (srp_session_key ctx))
                (lit ''PS-Msg05'') (tlv_emit sub) = Some (ct, tag)"
    and sub: "length sub \<le> 16" "tlv_wf sub" "tlv_find sub TLV_PUBLIC_KEY = Some pk"
      "length (tlv_data pk) \<ge> 32"
    and find: "tlv_find inp TLV_ENCRYPTED_DATA = Some it" "tlv_data it = ct @ tag"
  obtains ct' tag' where
    "handle_setup_m5 O' e ctx inp =
      Ret (ctx\<lparr>client_pk := take 32 (tlv_data pk), client_pk_set := True, setup_state := 6\<rparr>,
           Some (tlv_emit [tlv_item TLV_STATE [6], tlv_item TLV_ENCRYPTED_DATA (ct' @ tag')]))"
    "chacha_decrypt O' (derive_pair_setup_encrypt_key O' (srp_session_key ctx))
       (lit ''PS-Msg06'') ct' tag' = Some (tlv_emit (m6_sub_items O' ctx))"
    "length tag' = 16"
proof -
  let ?k = "derive_pair_setup_encrypt_key O' (srp_session_key ctx)"
  let ?ctx = "ctx\<lparr>client_pk := take 32 (tlv_data pk), client_pk_set := True\<rparr>"
  have k: "length ?k = 32"
    using c by (simp add: derive_pair_setup_encrypt_key_def length_hkdf_sha512 contractsD)
  have al: "alloc_ok (alloc e)" using e by (rule env_okD)
  have ne: "tlv_emit sub \<noteq> []"
    using sub(3) by auto
  obtain ct1 tag1 where "chacha_encrypt O' ?k (lit ''PS-Msg05'') (tlv_emit sub) = Some (ct1, tag1)"
    "length ct1 = length (tlv_emit sub)" "length tag1 = 16"
    "chacha_decrypt O' ?k (lit ''PS-Msg05'') ct1 tag1 = Some (tlv_emit sub)"
    by (rule chacha_roundtrip [OF contractsD(3) [OF c] k, where n = "lit ''PS-Msg05''" and pt = "tlv_emit sub"])
       simp_all
  with enc have dec: "chacha_decrypt O' ?k (lit ''PS-Msg05'') ct tag = Some (tlv_emit sub)"
    "length tag = 16" "length ct = length (tlv_emit sub)" by auto
  have parse: "tlv_parse (alloc e) 1166 (tlv_emit sub) = Some sub"
    using al sub by (intro tlv_parse_tlv_emit) simp_all
  have learn: "m5_learn_client_pk (alloc e) ctx (tlv_emit sub) = ?ctx"
    using sub by (simp add: m5_learn_client_pk_def parse)
  have items: "m6_sub_items O' ?ctx = m6_sub_items O' ctx"
    by (simp add: m6_sub_items_def m6_signature_def)
  obtain ct2 tag2 where enc2: "chacha_encrypt O' ?k (lit ''PS-Msg06'') (tlv_emit (m6_sub_items O' ctx)) = Some (ct2, tag2)"
    "length ct2 = length (tlv_emit (m6_sub_items O' ctx))" "length tag2 = 16"
    "chacha_decrypt O' ?k (lit ''PS-Msg06'') ct2 tag2 = Some (tlv_emit (m6_sub_items O' ctx))"
    by (rule chacha_roundtrip [OF contractsD(3) [OF c] k, where n = "lit ''PS-Msg06''"
          and pt = "tlv_emit (m6_sub_items O' ctx)"]) simp_all
  have ne2: "ct2 \<noteq> []"
    using enc2(2) by (auto simp: m6_sub_items_def)
  have "handle_setup_m5 O' e ctx inp =
      Ret (ctx\<lparr>client_pk := take 32 (tlv_data pk), client_pk_set := True, setup_state := 6\<rparr>,
           Some (tlv_emit [tlv_item TLV_STATE [6], tlv_item TLV_ENCRYPTED_DATA (ct2 @ tag2)]))"
    using al key ne ne2 dec enc2 find
    by (simp add: handle_setup_m5_def Let_def learn items tlv_build_ok)
  with enc2 that show ?thesis by blast
qed

end
