(* ===== verification/PairVerify.thy ===== *)
theory PairVerify
  imports PairSetup
begin

text \<open>
  Section 8 of \<^verbatim>\<open>source/carplay_pair.c\<close>: the pair-verify handlers M1 and M3, their
  versions for OpenSSL before 1.1.1, and the dispatcher; then the whole context as a
  machine driven by pairing requests.
\<close>

subsection \<open>Model\<close>

definition derive_verify_key :: "'o ossl \<Rightarrow> bytes \<Rightarrow> bytes \<Rightarrow> nat \<Rightarrow> bytes" where
  "derive_verify_key O' secret salt out_len =
     (let hash = SHA512 O' (salt @ secret);
          out_len = (if out_len > 64 then 64 else out_len)
      in take out_len hash)"

definition our_ident :: bytes where "our_ident = lit ''90:B9:31:AC:86:A0''"

text \<open>The result of \<open>EVP_PKEY_derive\<close> is not checked: when it fails, the buffer keeps its content.\<close>

definition derived :: "'o ossl \<Rightarrow> 'o \<Rightarrow> 'o \<Rightarrow> bytes \<Rightarrow> bytes" where
  "derived O' k p old = (case EVP_PKEY_derive O' k p of None \<Rightarrow> old | Some s \<Rightarrow> s)"

definition handle_verify_m1 :: "'o ossl \<Rightarrow> 'o env \<Rightarrow> 'o pair_ctx \<Rightarrow> tlv_item list \<Rightarrow> 'o pair_ctx \<times> bytes option" where
  "handle_verify_m1 O' e ctx inp =
     (let al = alloc e in
      on_null (tlv_find inp TLV_PUBLIC_KEY) (ctx, make_error_response al 1376 2 2) (\<lambda>pk_item.
      let pk = tlv_data pk_item in
      if length pk \<noteq> 32 then (ctx, make_error_response al 1376 2 2)
      else let ctx = ctx\<lparr>client_ecdh_pk := pk, client_ecdh_pk_set := True\<rparr> in
      if \<not> env_pkey_ctx e then (ctx, make_error_response al 1391 2 1)
      else on_null (env_keygen e) (ctx, make_error_response al 1400 2 1) (\<lambda>our_ecdh.
      let our_ecdh_pk = EVP_PKEY_get_raw_public_key O' our_ecdh in
      on_null (X25519_public_key O' pk) (ctx, make_error_response al 1418 2 2) (\<lambda>their_ecdh.
      let ctx = ctx\<lparr>verify_shared := derived O' our_ecdh their_ecdh (verify_shared ctx),
                    verify_ecdh_ours := Some our_ecdh, verify_our_ecdh_pk := our_ecdh_pk\<rparr> in
      if \<not> al [1444] then (ctx, make_error_response al 1445 2 1)
      else let sig_msg = our_ecdh_pk @ our_ident @ pk in
      on_null (Ed25519_private_key O' (our_sk ctx)) (ctx, make_error_response al 1455 2 1) (\<lambda>ed_key.
      let signature = EVP_DigestSign O' ed_key sig_msg in
      on_null (tlv_build al 1475 [tlv_item TLV_IDENTIFIER our_ident, tlv_item TLV_SIGNATURE signature])
        (ctx, make_error_response al 1476 2 1) (\<lambda>sub_buf.
      let ctx = ctx\<lparr>verify_enc_key := hkdf_sha512 O' (verify_shared ctx)
                      (lit ''Pair-Verify-Encrypt-Salt'') (lit ''Pair-Verify-Encrypt-Info'') 32\<rparr> in
      if \<not> al [1491] then (ctx, make_error_response al 1493 2 1)
      else on_null (chacha_encrypt O' (verify_enc_key ctx) (lit ''PV-Msg02'') sub_buf)
        (ctx, make_error_response al 1502 2 1) (\<lambda>(enc_ct, enc_tag).
      if enc_ct = [] then (ctx, make_error_response al 1502 2 1)
      else if \<not> al [1507] then (ctx, make_error_response al 1508 2 1)
      else (ctx\<lparr>verify_state := 2\<rparr>,
            tlv_build al 1522 [tlv_item TLV_STATE [2], tlv_item TLV_PUBLIC_KEY our_ecdh_pk,
              tlv_item TLV_ENCRYPTED_DATA (enc_ct @ take 16 enc_tag)]))))))))"

text \<open>
  The signature check of M3.  The code computes a verdict, logs it, and goes on in every
  case; the model returns the verdict beside the context and the response.
\<close>

datatype m3_verdict = Sig_passed | Sig_failed | Sig_no_key | Sig_no_memory | Sig_skipped

definition m3_check_signature :: "'o ossl \<Rightarrow> alloc_oracle \<Rightarrow> 'o pair_ctx \<Rightarrow> bytes \<Rightarrow> bytes \<Rightarrow> m3_verdict" where
  "m3_check_signature O' al ctx ident sig =
     (if client_pk_set ctx \<and> client_ecdh_pk_set ctx then
        if \<not> al [1594] then Sig_no_memory
        else let verify_msg = client_ecdh_pk ctx @ ident @ verify_our_ecdh_pk ctx in
          on_null (Ed25519_public_key O' (client_pk ctx)) Sig_no_key (\<lambda>client_ed.
            if EVP_DigestVerify O' client_ed sig verify_msg then Sig_passed else Sig_failed)
      else Sig_skipped)"

definition handle_verify_m3_log ::
    "'o ossl \<Rightarrow> 'o env \<Rightarrow> 'o pair_ctx \<Rightarrow> tlv_item list \<Rightarrow> ('o pair_ctx \<times> bytes option) \<times> m3_verdict option" where
  "handle_verify_m3_log O' e ctx inp =
     (let al = alloc e in
      on_null (tlv_find inp TLV_ENCRYPTED_DATA) ((ctx, make_error_response al 1538 4 2), None) (\<lambda>enc_item.
      let enc = tlv_data enc_item in
      if length enc < 16 then ((ctx, make_error_response al 1538 4 2), None)
      else let ct_len = length enc - 16 in
      if \<not> al [1549] then ((ctx, make_error_response al 1550 4 1), None)
      else on_null (chacha_decrypt O' (verify_enc_key ctx) (lit ''PV-Msg03'') (take ct_len enc) (drop ct_len enc))
        ((ctx, make_error_response al 1558 4 2), None) (\<lambda>pt.
      on_null (tlv_parse al 1564 pt) ((ctx, make_error_response al 1568 4 2), None) (\<lambda>sub_tlv.
      on_null (tlv_find sub_tlv TLV_IDENTIFIER) ((ctx, make_error_response al 1577 4 2), None) (\<lambda>ident_item.
      on_null (tlv_find sub_tlv TLV_SIGNATURE) ((ctx, make_error_response al 1583 4 2), None) (\<lambda>sig_item.
      if length (tlv_data sig_item) \<noteq> 64 then ((ctx, make_error_response al 1583 4 2), None)
      else let verdict = m3_check_signature O' al ctx (tlv_data ident_item) (tlv_data sig_item)
        in ((ctx\<lparr>verify_state := 4\<rparr>, tlv_build al 1634 [tlv_item TLV_STATE [4]]), Some verdict)))))))"

definition handle_verify_m3 :: "'o ossl \<Rightarrow> 'o env \<Rightarrow> 'o pair_ctx \<Rightarrow> tlv_item list \<Rightarrow> 'o pair_ctx \<times> bytes option" where
  "handle_verify_m3 O' e ctx inp = fst (handle_verify_m3_log O' e ctx inp)"

text \<open>The handlers compiled against OpenSSL before 1.1.1.\<close>

definition handle_verify_m1_old :: "'o env \<Rightarrow> 'o pair_ctx \<Rightarrow> 'o pair_ctx \<times> bytes option" where
  "handle_verify_m1_old e ctx = (ctx, make_error_response (alloc e) 1648 2 6)"

definition handle_verify_m3_old :: "'o env \<Rightarrow> 'o pair_ctx \<Rightarrow> 'o pair_ctx \<times> bytes option" where
  "handle_verify_m3_old e ctx = (ctx, make_error_response (alloc e) 1652 4 6)"

text \<open>\<open>new_ssl\<close> is the preprocessor condition \<open>OPENSSL_VERSION_NUMBER >= 0x10101000L\<close>.\<close>

definition pair_verify_handle ::
    "bool \<Rightarrow> 'o ossl \<Rightarrow> 'o env \<Rightarrow> 'o pair_ctx \<Rightarrow> bytes \<Rightarrow> 'o pair_ctx \<times> bytes option" where
  "pair_verify_handle new_ssl O' e ctx body =
     (if body = [] then (ctx, None)
      else on_null (tlv_parse (alloc e) 1663 body) (ctx, None) (\<lambda>inp.
      on_null (tlv_find inp TLV_STATE) (ctx, None) (\<lambda>state_item.
      if length (tlv_data state_item) \<noteq> 1 then (ctx, None)
      else let state = tlv_data state_item ! 0 in
        if state = 1 then
          (if new_ssl then handle_verify_m1 O' e ctx inp else handle_verify_m1_old e ctx)
        else if state = 3 then
          (if new_ssl then handle_verify_m3 O' e ctx inp else handle_verify_m3_old e ctx)
        else (ctx, make_error_response (alloc e) 1690 (state + 1) 1))))"

subsection \<open>Preservation of the invariant\<close>

lemma verify_m3_frame:
  "fst (handle_verify_m3 O' e ctx inp) = ctx \<or> fst (handle_verify_m3 O' e ctx inp) = ctx\<lparr>verify_state := 4\<rparr>"
  by (auto simp: handle_verify_m3_def handle_verify_m3_log_def Let_def split: on_null_split)

lemma pair_inv_verified [wf_intros]: "pair_inv O' ctx \<Longrightarrow> pair_inv O' (ctx\<lparr>verify_state := 4\<rparr>)"
  by (auto simp: pair_inv_def ctx_sizes_def split: option.splits)

lemma verify_m3_inv [wf_intros]: "pair_inv O' ctx \<Longrightarrow> pair_inv O' (fst (handle_verify_m3 O' e ctx inp))"
  using verify_m3_frame [of O' e ctx inp] by (auto intro: pair_inv_verified)

definition m1_shared_ctx :: "'o ossl \<Rightarrow> 'o pair_ctx \<Rightarrow> bytes \<Rightarrow> 'o \<Rightarrow> 'o \<Rightarrow> 'o pair_ctx" where
  "m1_shared_ctx O' ctx pk k p =
     ctx\<lparr>client_ecdh_pk := pk, client_ecdh_pk_set := True,
         verify_shared := derived O' k p (verify_shared ctx), verify_ecdh_ours := Some k,
         verify_our_ecdh_pk := EVP_PKEY_get_raw_public_key O' k,
         verify_enc_key := verify_key O' (derived O' k p (verify_shared ctx))\<rparr>"

lemma length_derived: "curve_ok O' \<Longrightarrow> length old = 32 \<Longrightarrow> length (derived O' k p old) = 32"
  by (auto simp: derived_def curve_okD(5) split: option.split)

lemma pair_inv_m1_shared [wf_intros]:
  assumes "contracts O'" "pair_inv O' ctx" "length pk = 32" "n = 2"
  shows "pair_inv O' ((m1_shared_ctx O' ctx pk k p)\<lparr>verify_state := n\<rparr>)"
  using assms contractsD(2,4) [OF assms(1)]
  by (auto simp: m1_shared_ctx_def pair_inv_def ctx_sizes_def verify_key_def length_hkdf_sha512 length_derived curve_okD(1-4)
      split: option.splits)

lemma pair_inv_client_ecdh [wf_intros]:
  "pair_inv O' ctx \<Longrightarrow> length pk = 32 \<Longrightarrow>
     pair_inv O' (ctx\<lparr>client_ecdh_pk := pk, client_ecdh_pk_set := True\<rparr>)"
  by (auto simp: pair_inv_def ctx_sizes_def split: option.splits)

definition m2_sub_items :: "'o ossl \<Rightarrow> bytes \<Rightarrow> 'o \<Rightarrow> 'o \<Rightarrow> tlv_item list" where
  "m2_sub_items O' pk k ed =
     [tlv_item TLV_IDENTIFIER our_ident,
      tlv_item TLV_SIGNATURE (EVP_DigestSign O' ed (EVP_PKEY_get_raw_public_key O' k @ our_ident @ pk))]"

text \<open>M1 under the contracts, when key generation works: the shared secret and the encrypted answer.\<close>

lemma verify_m1_ok:
  assumes c: "contracts O'" and e: "env_ok e" and inv: "pair_inv O' ctx"
    and find: "tlv_find inp TLV_PUBLIC_KEY = Some it" and pk: "length (tlv_data it) = 32"
    and gen: "env_pkey_ctx e" "env_keygen e = Some k"
  obtains p ed ct tag where "X25519_public_key O' (tlv_data it) = Some p"
    "Ed25519_private_key O' (our_sk ctx) = Some ed"
    "handle_verify_m1 O' e ctx inp =
       ((m1_shared_ctx O' ctx (tlv_data it) k p)\<lparr>verify_state := 2\<rparr>,
        Some (tlv_emit [tlv_item TLV_STATE [2], tlv_item TLV_PUBLIC_KEY (EVP_PKEY_get_raw_public_key O' k),
               tlv_item TLV_ENCRYPTED_DATA (ct @ tag)]))"
    "chacha_decrypt O' (verify_key O' (derived O' k p (verify_shared ctx))) (lit ''PV-Msg02'') ct tag
       = Some (tlv_emit (m2_sub_items O' (tlv_data it) k ed))"
    "length tag = 16"
proof -
  have al: "alloc_ok (alloc e)" using e by (rule env_okD)
  obtain p where p: "X25519_public_key O' (tlv_data it) = Some p"
    using curve_okD(3) [OF contractsD(4) [OF c] pk] by blast
  have "length (our_sk ctx) = 32" using inv by (simp add: pair_inv_def ctx_sizes_def)
  then obtain ed where ed: "Ed25519_private_key O' (our_sk ctx) = Some ed"
    using curve_okD(1) [OF contractsD(4) [OF c]] by blast
  let ?key = "verify_key O' (derived O' k p (verify_shared ctx))" and ?sub = "m2_sub_items O' (tlv_data it) k ed"
  have "length ?key = 32"
    using contractsD(2) [OF c] by (simp add: verify_key_def length_hkdf_sha512)
  then obtain ct tag where enc: "chacha_encrypt O' ?key (lit ''PV-Msg02'') (tlv_emit ?sub) = Some (ct, tag)"
    "length ct = length (tlv_emit ?sub)" "length tag = 16"
    "chacha_decrypt O' ?key (lit ''PV-Msg02'') ct tag = Some (tlv_emit ?sub)"
    by (rule chacha_roundtrip [OF contractsD(3) [OF c], where n = "lit ''PV-Msg02''" and pt = "tlv_emit ?sub"])
       simp_all
  then have "ct \<noteq> []" by (auto simp: m2_sub_items_def)
  then have "handle_verify_m1 O' e ctx inp =
       ((m1_shared_ctx O' ctx (tlv_data it) k p)\<lparr>verify_state := 2\<rparr>,
        Some (tlv_emit [tlv_item TLV_STATE [2], tlv_item TLV_PUBLIC_KEY (EVP_PKEY_get_raw_public_key O' k),
               tlv_item TLV_ENCRYPTED_DATA (ct @ tag)]))"
    using al find pk gen p ed enc
    by (simp add: handle_verify_m1_def Let_def tlv_build_ok m1_shared_ctx_def m2_sub_items_def
        verify_key_def)
  with p ed enc that show ?thesis by blast
qed

lemma verify_m1_cases:
  assumes c: "contracts O'" and e: "env_ok e" and inv: "pair_inv O' ctx"
  shows "pair_inv O' (fst (handle_verify_m1 O' e ctx inp)) \<and> snd (handle_verify_m1 O' e ctx inp) \<noteq> None"
proof -
  have al: "alloc_ok (alloc e)" using e by (rule env_okD)
  consider "tlv_find inp TLV_PUBLIC_KEY = None"
    | it where "tlv_find inp TLV_PUBLIC_KEY = Some it" "length (tlv_data it) \<noteq> 32"
    | it where "tlv_find inp TLV_PUBLIC_KEY = Some it" "length (tlv_data it) = 32"
        "\<not> env_pkey_ctx e \<or> env_keygen e = None"
    | it k where "tlv_find inp TLV_PUBLIC_KEY = Some it" "length (tlv_data it) = 32"
        "env_pkey_ctx e" "env_keygen e = Some k"
    by (metis not_None_eq)
  then show ?thesis
  proof cases
    case (3 it)
    then show ?thesis
      using al inv by (auto simp: handle_verify_m1_def Let_def make_error_response_ok intro: wf_intros)
  next
    case (4 it k)
    show ?thesis
      by (rule verify_m1_ok [OF c e inv 4]) (use pair_inv_m1_shared [OF c inv 4(2) refl] in simp)
  qed (use al inv in \<open>auto simp: handle_verify_m1_def Let_def make_error_response_ok\<close>)
qed

lemma verify_handle_inv [wf_intros]:
  assumes "contracts O'" "env_ok e" "pair_inv O' ctx"
  shows "pair_inv O' (fst (pair_verify_handle new_ssl O' e ctx body))"
  using assms(3) verify_m1_cases [OF assms] verify_m3_inv [OF assms(3)]
  by (simp add: pair_verify_handle_def Let_def handle_verify_m1_old_def handle_verify_m3_old_def
      split: on_null_split)

text \<open>M3 sealed under the current pair-verify key, whatever that key is.\<close>

lemma verify_m3_sealed:
  assumes c: "contracts O'" and e: "env_ok e" and key: "verify_enc_key ctx = key"
    and sub: "length sub \<le> 16" "tlv_wf sub" "tlv_find sub TLV_IDENTIFIER = Some ident"
      "tlv_find sub TLV_SIGNATURE = Some sig" "length (tlv_data sig) = 64"
    and len: "length key = 32" and pre: "tlv_find pre TLV_ENCRYPTED_DATA = None"
  obtains ct tag where "chacha_encrypt O' key (lit ''PV-Msg03'') (tlv_emit sub) = Some (ct, tag)"
    "handle_verify_m3 O' e ctx (pre @ [tlv_item TLV_ENCRYPTED_DATA (ct @ tag)]) =
       (ctx\<lparr>verify_state := 4\<rparr>, Some (tlv_emit [tlv_item TLV_STATE [4]]))"
proof -
  have al: "alloc_ok (alloc e)" using e by (rule env_okD)
  obtain ct tag where enc: "chacha_encrypt O' key (lit ''PV-Msg03'') (tlv_emit sub) = Some (ct, tag)"
    "length tag = 16" "chacha_decrypt O' key (lit ''PV-Msg03'') ct tag = Some (tlv_emit sub)"
    by (rule chacha_roundtrip [OF contractsD(3) [OF c] len, where n = "lit ''PV-Msg03''" and pt = "tlv_emit sub"])
       simp_all
  have find: "tlv_find (pre @ [tlv_item TLV_ENCRYPTED_DATA (ct @ tag)]) TLV_ENCRYPTED_DATA
      = Some (tlv_item TLV_ENCRYPTED_DATA (ct @ tag))"
    using pre by (intro tlv_find_first) (simp_all add: tlv_find_None)
  have parse: "tlv_parse (alloc e) 1564 (tlv_emit sub) = Some sub"
    using al sub by (intro tlv_parse_tlv_emit) simp_all
  have "handle_verify_m3 O' e ctx (pre @ [tlv_item TLV_ENCRYPTED_DATA (ct @ tag)]) =
       (ctx\<lparr>verify_state := 4\<rparr>, Some (tlv_emit [tlv_item TLV_STATE [4]]))"
    using al enc parse find sub key
    by (simp add: handle_verify_m3_def handle_verify_m3_log_def Let_def tlv_build_ok)
  with enc that show ?thesis by blast
qed

lemma verify_dispatch:
  assumes "alloc_ok (alloc e)" "length its \<le> 16" "tlv_wf its" "tlv_find its TLV_STATE = Some it"
    "tlv_data it = [s]" "its \<noteq> []"
  shows "pair_verify_handle new_ssl O' e ctx (tlv_emit its) =
    (if s = 1 then (if new_ssl then handle_verify_m1 O' e ctx its else handle_verify_m1_old e ctx)
     else if s = 3 then (if new_ssl then handle_verify_m3 O' e ctx its else handle_verify_m3_old e ctx)
     else (ctx, Some (error_bytes (s + 1) 1)))"
proof -
  have "tlv_emit its \<noteq> []" using assms(6) by simp
  moreover have "tlv_parse (alloc e) 1663 (tlv_emit its) = Some its"
    using assms by (intro tlv_parse_tlv_emit) simp_all
  ultimately show ?thesis
    using assms by (simp add: pair_verify_handle_def make_error_response_ok)
qed

subsection \<open>The pairing service as a machine\<close>

datatype 'o request = Pair_setup "'o env" bytes | Pair_verify "'o env" bytes

fun pair_step :: "bool \<Rightarrow> 'o ossl \<Rightarrow> 'o pair_ctx outcome \<Rightarrow> 'o request \<Rightarrow> 'o pair_ctx outcome \<times> bytes option" where
  "pair_step new_ssl O' Undef r = (Undef, None)"
| "pair_step new_ssl O' (Ret ctx) (Pair_setup e body) =
     (case pair_setup_handle O' e ctx body of
        Undef \<Rightarrow> (Undef, None) | Ret (ctx', resp) \<Rightarrow> (Ret ctx', resp))"
| "pair_step new_ssl O' (Ret ctx) (Pair_verify e body) =
     (case pair_verify_handle new_ssl O' e ctx body of (ctx', resp) \<Rightarrow> (Ret ctx', resp))"

fun request_env :: "'o request \<Rightarrow> 'o env" where
  "request_env (Pair_setup e body) = e"
| "request_env (Pair_verify e body) = e"

definition pair_good :: "'o ossl \<Rightarrow> 'o pair_ctx outcome \<Rightarrow> bool" where
  "pair_good O' s \<longleftrightarrow> (\<exists>ctx. s = Ret ctx \<and> pair_inv O' ctx)"

definition request_ok :: "'o ossl \<Rightarrow> 'o pair_ctx outcome \<Rightarrow> 'o request \<Rightarrow> bool" where
  "request_ok O' s r \<longleftrightarrow> contracts O' \<and> env_ok (request_env r)"

lemma pair_step_good:
  assumes "pair_good O' s" "request_ok O' s r"
  shows "pair_good O' (fst (pair_step new_ssl O' s r))"
proof -
  obtain ctx where ctx: "s = Ret ctx" "pair_inv O' ctx" using assms(1) by (auto simp: pair_good_def)
  show ?thesis
  proof (cases r)
    case (Pair_setup e body)
    then obtain ctx' resp where "pair_setup_handle O' e ctx body = Ret (ctx', resp)" "pair_inv O' ctx'"
      using setup_handle_inv [of O' e ctx body] assms(2) ctx(2) by (auto simp: request_ok_def)
    with Pair_setup ctx(1) show ?thesis by (simp add: pair_good_def)
  next
    case (Pair_verify e body)
    then show ?thesis
      using verify_handle_inv [of O' e ctx new_ssl body] assms(2) ctx
      by (auto simp: request_ok_def pair_good_def split: prod.splits)
  qed
qed

interpretation pairing: machine "pair_step new_ssl O'" "pair_good O'" "request_ok O'"
  by unfold_locales (rule pair_step_good)

end
