(* ===== verification/PairProps.thy ===== *)
theory PairProps
  imports PairVerify
begin

text \<open>
  The properties of the pairing library: the TLV8 codec, HKDF, the SRP server, the two
  handshakes and the session keys.
\<close>

subsection \<open>Shared facts\<close>

definition client_key :: "'o ossl \<Rightarrow> bytes \<Rightarrow> bytes \<Rightarrow> nat \<Rightarrow> nat \<Rightarrow> bytes" where
  "client_key O' password salt B a =
     SHA512 O' (bytes_of_nat (client_S O' SRP_USERNAME password salt B a))"

text \<open>The proof of M3 of a client with password, key \<open>a\<close>, and the salt and B of M2.\<close>

definition client_proof :: "'o ossl \<Rightarrow> bytes \<Rightarrow> bytes \<Rightarrow> nat \<Rightarrow> nat \<Rightarrow> bytes" where
  "client_proof O' password salt B a =
     spec_M1 O' SRP_USERNAME salt (srp_g ^ a mod srp_N) B (client_key O' password salt B a)"

lemma client_proof_eq:
  assumes "nat_of_bytes (case srp_verifier ctx of None \<Rightarrow> [] | Some v \<Rightarrow> v)
             = srp_g ^ spec_x O' (srp_salt ctx) SRP_USERNAME password mod srp_N"
    and "B = spec_B O' (nat_of_bytes (case srp_verifier ctx of None \<Rightarrow> [] | Some v \<Rightarrow> v)) (nat_of_bytes (srp_b ctx))"
  shows "client_key O' password (srp_salt ctx) B a = session_key (m3_verifier O' ctx (srp_g ^ a mod srp_N))"
    "client_proof O' password (srp_salt ctx) B a = ver_M (m3_verifier O' ctx (srp_g ^ a mod srp_N))"
  using client_server_agree [OF assms(1), of "nat_of_bytes (srp_b ctx)" a]
  by (simp_all add: client_key_def client_proof_def m3_verifier_def spec_verifier_def Let_def assms(2))

lemma pad_num_full: "length (bytes_of_nat s) = n \<Longrightarrow> pad_num n s = bytes_of_nat s"
  by (simp add: pad_num_def)

lemma m3_verifier_H_AMK:
  "ver_H_AMK (m3_verifier O' ctx A) = spec_M2 O' A (ver_M (m3_verifier O' ctx A)) (session_key (m3_verifier O' ctx A))"
  by (simp add: m3_verifier_def spec_verifier_def Let_def)

text \<open>M3 of a client that uses the pin and the M2 of this context.\<close>

lemma setup_m3_honest:
  fixes O' :: "'o ossl" and ctx :: "'o pair_ctx" and e1 :: "'o env"
  assumes lib: "lib_ok O'" and e: "env_ok e" "env_ok e1"
    and s: "length (bytes_of_nat (env_bn_rand e1)) = 16"
  defines "ctx1 \<equiv> m1_ctx O' e1 ctx"
  defines "B \<equiv> spec_B O' (m1_verifier O' e1 ctx) (nat_of_bytes (env_rand_b e1))"
  defines "pin \<equiv> c_str (pc_pin ctx)" and "salt \<equiv> pad_num 16 (env_bn_rand e1)"
  assumes find: "tlv_find inp TLV_PUBLIC_KEY = Some pk" "nat_of_bytes (tlv_data pk) = srp_g ^ a mod srp_N"
    "tlv_find inp TLV_PROOF = Some pr" "tlv_data pr = client_proof O' pin salt B a"
  shows "handle_setup_m3 O' e ctx1 inp =
    Ret (m3_accept ctx1 (client_key O' pin salt B a)
           (spec_M2 O' (srp_g ^ a mod srp_N) (client_proof O' pin salt B a) (client_key O' pin salt B a)))"
proof -
  have salt: "salt = srp_salt ctx1" "salt = bytes_of_nat (env_bn_rand e1)"
    by (simp_all add: salt_def ctx1_def m1_ctx_def pad_num_full [OF s])
  have "nat_of_bytes (case srp_verifier ctx1 of None \<Rightarrow> [] | Some v \<Rightarrow> v) = m1_verifier O' e1 ctx"
    by (simp add: ctx1_def m1_ctx_def)
  then have v: "nat_of_bytes (case srp_verifier ctx1 of None \<Rightarrow> [] | Some v \<Rightarrow> v)
             = srp_g ^ spec_x O' (srp_salt ctx1) SRP_USERNAME pin mod srp_N"
    by (simp only: m1_verifier_def salt [symmetric] pin_def)
  have B: "B = spec_B O' (nat_of_bytes (case srp_verifier ctx1 of None \<Rightarrow> [] | Some v \<Rightarrow> v)) (nat_of_bytes (srp_b ctx1))"
    by (simp add: B_def ctx1_def m1_ctx_def)
  note pr = client_proof_eq [OF v B, of a, folded salt(1)]
  have "length (client_proof O' pin salt B a) = 64"
    using lib by (simp add: client_proof_def length_spec_M1)
  moreover have "srp_verifier ctx1 = None \<longrightarrow> srp_verifier_len ctx1 = 0"
    by (simp add: ctx1_def m1_ctx_def)
  ultimately show ?thesis
    using find client_A_nonzero client_A_fits
    by (simp add: setup_m3_ok [OF lib e(1)] Let_def pr m3_verifier_H_AMK)
qed

text \<open>The server's premaster secret and expected proof in a context, for a client key A.\<close>

definition S_of :: "'o ossl \<Rightarrow> 'o pair_ctx \<Rightarrow> nat \<Rightarrow> nat" where
  "S_of O' ctx A =
     spec_S O' A (nat_of_bytes (case srp_verifier ctx of None \<Rightarrow> [] | Some v \<Rightarrow> v)) (nat_of_bytes (srp_b ctx))"

definition proof_of :: "'o ossl \<Rightarrow> 'o pair_ctx \<Rightarrow> nat \<Rightarrow> bytes \<Rightarrow> bytes" where
  "proof_of O' ctx A K =
     spec_M1 O' SRP_USERNAME (srp_salt ctx) A
       (spec_B O' (nat_of_bytes (case srp_verifier ctx of None \<Rightarrow> [] | Some v \<Rightarrow> v)) (nat_of_bytes (srp_b ctx))) K"

lemma nat_of_bytes_inj: "length xs = length ys \<Longrightarrow> nat_of_bytes xs = nat_of_bytes ys \<Longrightarrow> xs = ys"
proof (induction xs ys rule: rev_induct2)
  case (4 x xs y ys)
  then have "nat_of_bytes xs * 256 + unat x = nat_of_bytes ys * 256 + unat y" by simp
  moreover have "(n * 256 + unat z) div 256 = n" "(n * 256 + unat z) mod 256 = unat z" for n and z :: byte
    by simp_all
  ultimately have "nat_of_bytes xs = nat_of_bytes ys" "unat x = unat y" by metis+
  with 4 show ?case by (auto intro: unsigned_word_eqI)
qed simp_all

text \<open>What the encrypted data of a message opens to under a key and a nonce.\<close>

definition opened :: "'o ossl \<Rightarrow> bytes \<Rightarrow> string \<Rightarrow> tlv_item list \<Rightarrow> bytes option" where
  "opened O' key nonce items =
     (case tlv_find items TLV_ENCRYPTED_DATA of
        None \<Rightarrow> None
      | Some it \<Rightarrow> chacha_decrypt O' key (lit nonce) (take (length (tlv_data it) - 16) (tlv_data it))
                     (drop (length (tlv_data it) - 16) (tlv_data it)))"

lemma opened_sealed:
  assumes "chacha_encrypt O' key (lit n) pt = Some (ct, tag)" "aead_ok O'" "length key = 32" "length n = 8"
    and "tlv_find items TLV_ENCRYPTED_DATA = Some (tlv_item TLV_ENCRYPTED_DATA (ct @ tag))"
  shows "opened O' key n items = Some pt"
proof -
  obtain ct' tag' where "chacha_encrypt O' key (lit n) pt = Some (ct', tag')" "length tag' = 16"
    "chacha_decrypt O' key (lit n) ct' tag' = Some pt"
    by (rule chacha_roundtrip [OF assms(2,3), of "lit n" pt]) (use assms(4) in simp_all)
  with assms(1,5) show ?thesis by (simp add: opened_def)
qed

lemma setup_m1_state:
  "handle_setup_m1 O' e ctx = Ret (ctx', r) \<Longrightarrow> setup_state ctx' = 6 \<Longrightarrow> setup_state ctx = 6"
  by (auto simp: handle_setup_m1_def Let_def split: bind_outcome_split_asm if_splits option.splits)

lemma setup_m3_state:
  "handle_setup_m3 O' e ctx inp = Ret (ctx', r) \<Longrightarrow> setup_state ctx' = 6 \<Longrightarrow> setup_state ctx = 6"
  by (auto simp: handle_setup_m3_def Let_def split: bind_outcome_split_asm if_splits option.splits prod.splits)

lemma setup_m5_opened:
  "handle_setup_m5 O' e ctx inp = Ret (ctx', r) \<Longrightarrow> setup_state ctx' = 6 \<Longrightarrow> setup_state ctx \<noteq> 6 \<Longrightarrow>
   srp_has_session_key ctx \<and>
     opened O' (derive_pair_setup_encrypt_key O' (srp_session_key ctx)) ''PS-Msg05'' inp \<noteq> None"
  by (auto simp: handle_setup_m5_def Let_def opened_def split: on_null_split_asm if_splits option.splits prod.splits)

lemma verify_handle_opened:
  assumes "verify_state (fst (pair_verify_handle new_ssl O' e ctx body)) = 4" "verify_state ctx \<noteq> 4"
  shows "\<exists>items. tlv_parse (alloc e) 1663 body = Some items \<and> opened O' (verify_enc_key ctx) ''PV-Msg03'' items \<noteq> None"
proof -
  have "opened O' (verify_enc_key ctx) ''PV-Msg03'' inp \<noteq> None"
    if "verify_state (fst (handle_verify_m3 O' e ctx inp)) = 4" for inp
    using that assms(2)
    by (auto simp: handle_verify_m3_def handle_verify_m3_log_def Let_def opened_def
        split: on_null_split_asm if_splits option.splits)
  moreover have "verify_state (fst (handle_verify_m1 O' e ctx inp)) \<noteq> 4" for inp
    using assms(2) by (simp add: handle_verify_m1_def Let_def split: on_null_split)
  ultimately show ?thesis
    using assms
    by (auto simp: pair_verify_handle_def Let_def handle_verify_m1_old_def handle_verify_m3_old_def
        split: on_null_split_asm if_splits)
qed


lemma run_snoc: "fst (run step s (xs @ [x])) = fst (step (fst (run step s xs)) x)"
  by (simp add: run_append run.simps(2) split: prod.splits)

lemma setup_handle_verify_state:
  assumes "pair_setup_handle O' e ctx body = Ret (ctx', r)"
  shows "verify_state ctx' = verify_state ctx"
proof -
  have "handle_setup_m1 O' e ctx = Ret (ctx', r) \<Longrightarrow> verify_state ctx' = verify_state ctx"
    by (auto simp: handle_setup_m1_def Let_def split: bind_outcome_split_asm if_splits option.splits)
  moreover have "handle_setup_m3 O' e ctx inp = Ret (ctx', r) \<Longrightarrow> verify_state ctx' = verify_state ctx" for inp
    by (auto simp: handle_setup_m3_def Let_def split: bind_outcome_split_asm if_splits option.splits prod.splits)
  moreover have "handle_setup_m5 O' e ctx inp = Ret (ctx', r) \<Longrightarrow> verify_state ctx' = verify_state ctx" for inp
    by (auto simp: handle_setup_m5_def Let_def split: on_null_split_asm if_splits option.splits prod.splits)
  ultimately show ?thesis
    using assms by (auto simp: pair_setup_handle_def Let_def split: on_null_split_asm if_splits)
qed

text \<open>A concrete service, request environment and client for the witnesses.\<close>

definition toy_ctx :: "bytes pair_ctx" where
  "toy_ctx = the (pair_ctx_create (\<lambda>_. True) (replicate 32 1) (replicate 32 2) None)"

definition toy_env :: "bytes env" where
  "toy_env = \<lparr>alloc = (\<lambda>_. True), env_bn_rand = 2 ^ 127, env_rand_b = replicate 32 3,
              env_pkey_ctx = True, env_keygen = Some []\<rparr>"

definition toy_sub :: "tlv_item list" where
  "toy_sub = [tlv_item TLV_IDENTIFIER [1, 2], tlv_item TLV_PUBLIC_KEY (replicate 32 7),
              tlv_item TLV_SIGNATURE (replicate 64 0)]"

lemma toy_ctx_create:
  "pair_ctx_create (\<lambda>_. True) (replicate 32 1) (replicate 32 2) None = Some toy_ctx"
  by (simp add: toy_ctx_def pair_ctx_create_def)

lemma toy_ctx_inv: "pair_inv O' toy_ctx"
  by (rule pair_inv_create [OF toy_ctx_create]) simp_all

lemma toy_rand_length: "length (bytes_of_nat (2 ^ 127)) = 16"
  using length_bytes_of_nat_le [of "2 ^ 127" 16] length_bytes_of_nat_ge [of 15 "2 ^ 127"] by simp

lemma toy_env_ok: "env_ok toy_env" "length (bytes_of_nat (env_bn_rand toy_env)) = 16"
  by (simp_all add: env_ok_def toy_env_def alloc_ok_def toy_rand_length [simplified])

lemma toy_sub_ok: "length toy_sub \<le> 16" "tlv_wf toy_sub"
  "tlv_find toy_sub TLV_PUBLIC_KEY = Some (tlv_item TLV_PUBLIC_KEY (replicate 32 7))"
  "length (tlv_data (tlv_item TLV_PUBLIC_KEY (replicate 32 7))) \<ge> 32"
  by (simp_all add: toy_sub_def)

lemmas toy_facts = toy_contracts toy_ctx_inv toy_env_ok toy_sub_ok

subsection \<open>Properties\<close>

text \<open>
  C1. Pair-setup completes, when the salt that the server drew has no leading zero byte.  From any
  context of the invariant, a client that knows the pin and follows the protocol gets through M1 to M6: M3 is accepted, M4 carries the server
  proof the client expects, M5 ends in the complete state with the client's long-term key
  stored, and M6 decrypts to the accessory's identifier, public key and signature.
\<close>

theorem pair_setup_completes:
  assumes "contracts O'" and "pair_inv O' ctx" and "env_ok e1" "env_ok e3" "env_ok e5"
    and "length (bytes_of_nat (env_bn_rand e1)) = 16"
    and "length sub \<le> 16" "tlv_wf sub" "tlv_find sub TLV_PUBLIC_KEY = Some pk" "length (tlv_data pk) \<ge> 32"
  shows "\<exists>ctx1 salt B ctx3 ctx5.
    pair_setup_handle O' e1 ctx (tlv_emit [tlv_item TLV_STATE [1], tlv_item TLV_METHOD [0]]) =
      Ret (ctx1, Some (tlv_emit [tlv_item TLV_STATE [2], tlv_item TLV_SALT salt, tlv_item TLV_PUBLIC_KEY B])) \<and>
    (let A = srp_g ^ a mod srp_N; pin = c_str (pc_pin ctx);
         M1 = client_proof O' pin salt (nat_of_bytes B) a; K = client_key O' pin salt (nat_of_bytes B) a;
         key = derive_pair_setup_encrypt_key O' K in
     pair_setup_handle O' e3 ctx1 (tlv_emit [tlv_item TLV_STATE [3],
         tlv_item TLV_PUBLIC_KEY (pad_num 384 A), tlv_item TLV_PROOF M1]) =
       Ret (ctx3, Some (tlv_emit [tlv_item TLV_STATE [4], tlv_item TLV_PROOF (spec_M2 O' A M1 K)])) \<and>
     (\<exists>ct tag ct' tag'.
        chacha_encrypt O' key (lit ''PS-Msg05'') (tlv_emit sub) = Some (ct, tag) \<and>
        pair_setup_handle O' e5 ctx3 (tlv_emit [tlv_item TLV_STATE [5], tlv_item TLV_ENCRYPTED_DATA (ct @ tag)]) =
          Ret (ctx5, Some (tlv_emit [tlv_item TLV_STATE [6], tlv_item TLV_ENCRYPTED_DATA (ct' @ tag')])) \<and>
        chacha_decrypt O' key (lit ''PS-Msg06'') ct' tag' = Some (tlv_emit (m6_sub_items O' ctx3)) \<and>
        pair_setup_is_complete (Some ctx5) \<and> client_pk ctx5 = take 32 (tlv_data pk)))"
proof -
  let ?ctx1 = "m1_ctx O' e1 ctx" and ?A = "srp_g ^ a mod srp_N" and ?pin = "c_str (pc_pin ctx)"
  let ?salt = "pad_num 16 (env_bn_rand e1)"
  let ?B = "spec_B O' (m1_verifier O' e1 ctx) (nat_of_bytes (env_rand_b e1))"
  define M1 K where "M1 = client_proof O' ?pin ?salt ?B a" and "K = client_key O' ?pin ?salt ?B a"
  define key where "key = derive_pair_setup_encrypt_key O' K"
  define ctx3 where "ctx3 = fst (m3_accept ?ctx1 K (spec_M2 O' ?A M1 K))"
  note lib = contractsD(1) [OF assms(1)]
  have al: "alloc_ok (alloc e1)" "alloc_ok (alloc e3)" "alloc_ok (alloc e5)"
    using assms(3-5) by (simp_all add: env_okD)
  have inv1: "pair_inv O' ?ctx1" using assms(2,3) by (rule pair_inv_m1_ctx [rotated])
  have "length K = 64" using lib by (simp add: K_def client_key_def length_sha512)
  then have inv3: "pair_inv O' ctx3" unfolding ctx3_def by (rule pair_inv_m3_accept [OF inv1])
  have 1: "pair_setup_handle O' e1 ctx (tlv_emit [tlv_item TLV_STATE [1], tlv_item TLV_METHOD [0]]) =
      Ret (?ctx1, Some (tlv_emit (m2_items O' e1 ctx)))"
    using al by (subst setup_dispatch [where s = 1 and it = "tlv_item TLV_STATE [1]"]) (simp_all add: setup_m1_ok [OF lib assms(3)])
  have 3: "pair_setup_handle O' e3 ?ctx1 (tlv_emit [tlv_item TLV_STATE [3],
         tlv_item TLV_PUBLIC_KEY (pad_num 384 ?A), tlv_item TLV_PROOF M1]) =
       Ret (ctx3, Some (tlv_emit [tlv_item TLV_STATE [4], tlv_item TLV_PROOF (spec_M2 O' ?A M1 K)]))"
    using al setup_m3_honest [OF lib assms(4,3,6), of
        "[tlv_item TLV_STATE [3], tlv_item TLV_PUBLIC_KEY (pad_num 384 ?A), tlv_item TLV_PROOF M1]"
        "tlv_item TLV_PUBLIC_KEY (pad_num 384 ?A)" a "tlv_item TLV_PROOF M1"]
    by (subst setup_dispatch [where s = 3 and it = "tlv_item TLV_STATE [3]"]) (simp_all add: m3_accept_def ctx3_def M1_def K_def)
  have K3: "key = derive_pair_setup_encrypt_key O' (srp_session_key ctx3)" "srp_has_session_key ctx3"
    by (simp_all add: m3_accept_def ctx3_def key_def)
  have "length key = 32"
    using assms(1) by (simp add: key_def derive_pair_setup_encrypt_key_def length_hkdf_sha512 contractsD)
  then obtain ct tag where enc: "chacha_encrypt O' key (lit ''PS-Msg05'') (tlv_emit sub) = Some (ct, tag)"
    by (rule chacha_roundtrip [OF contractsD(3) [OF assms(1)], where n = "lit ''PS-Msg05''"]) simp_all
  let ?m5 = "[tlv_item TLV_STATE [5], tlv_item TLV_ENCRYPTED_DATA (ct @ tag)]"
  have find5: "tlv_find ?m5 TLV_ENCRYPTED_DATA = Some (tlv_item TLV_ENCRYPTED_DATA (ct @ tag))"
    "tlv_data (tlv_item TLV_ENCRYPTED_DATA (ct @ tag)) = ct @ tag" by simp_all
  obtain ct' tag' where 5: "handle_setup_m5 O' e5 ctx3 ?m5 =
      Ret (ctx3\<lparr>client_pk := take 32 (tlv_data pk), client_pk_set := True, setup_state := 6\<rparr>,
           Some (tlv_emit [tlv_item TLV_STATE [6], tlv_item TLV_ENCRYPTED_DATA (ct' @ tag')]))"
    "chacha_decrypt O' key (lit ''PS-Msg06'') ct' tag' = Some (tlv_emit (m6_sub_items O' ctx3))"
    using setup_m5_ok [OF assms(1,5) inv3 K3(2) enc [unfolded K3(1)] assms(7-10) find5]
    unfolding K3(1) by blast
  have 6: "pair_setup_handle O' e5 ctx3 (tlv_emit ?m5) = handle_setup_m5 O' e5 ctx3 ?m5"
    using al by (subst setup_dispatch [where s = 5 and it = "tlv_item TLV_STATE [5]"]) simp_all
  show ?thesis
    unfolding Let_def
    apply (rule exI [of _ ?ctx1], rule exI [of _ ?salt], rule exI [of _ "bytes_of_nat ?B"],
        rule exI [of _ ctx3],
        rule exI [of _ "ctx3\<lparr>client_pk := take 32 (tlv_data pk), client_pk_set := True, setup_state := 6\<rparr>"])
    using 1 3 5 6 enc
    by (simp add: m2_items_def pair_setup_is_complete_def M1_def K_def key_def) blast
qed

theorem pair_setup_completes_witness:
  "\<exists>ctx3 body ctx5 r. pair_setup_handle toy_ossl toy_env ctx3 body = Ret (ctx5, Some r) \<and>
     pair_setup_is_complete (Some ctx5) \<and> client_pk ctx5 = replicate 32 7"
  using pair_setup_completes [OF toy_contracts toy_ctx_inv toy_env_ok(1) toy_env_ok(1) toy_env_ok(1)
      toy_env_ok(2) toy_sub_ok, of 5]
  unfolding Let_def by (simp del: tlv_emit_Cons) blast

text \<open>
  C2. SRP agreement, for a salt without a leading zero byte.  For the salt, verifier and B that the
  server's own functions make, and any A of a client with the same password, \<open>srp_verifier_new\<close>
  succeeds, and its session key and expected proof are the client's.  \<open>srp_verifier_verify\<close> accepts
  the client's proof, keeps the session key and answers the proof that the client expects; of all
  proofs of 64 bytes it accepts only this one and the one for S padded to the length of N.
\<close>

theorem srp_agreement:
  assumes "lib_ok O'" "alloc_ok al" "length (bytes_of_nat s) = 16"
    and "nat_of_bytes bytes_A = srp_g ^ a mod srp_N"
  shows "\<exists>salt v B ver.
    srp_create_salt_verifier O' al s SRP_USERNAME password = Ret (Some salt, Some v) \<and>
    srp_create_B O' al v bytes_b = Some B \<and>
    srp_verifier_new O' al SRP_USERNAME salt v bytes_A bytes_b = Ret (Some ver) \<and>
    \<not> authenticated ver \<and>
    session_key ver = client_key O' password salt (nat_of_bytes B) a \<and>
    (\<exists>ver'. srp_verifier_verify ver (client_proof O' password salt (nat_of_bytes B) a) =
        (ver', Some (spec_M2 O' (srp_g ^ a mod srp_N) (client_proof O' password salt (nat_of_bytes B) a) (session_key ver))) \<and>
      authenticated ver' \<and> session_key ver' = session_key ver) \<and>
    (\<forall>m. length m = 64 \<longrightarrow>
      (snd (srp_verifier_verify ver m) \<noteq> None \<longleftrightarrow>
        m = client_proof O' password salt (nat_of_bytes B) a \<or>
        m = spec_M1 O' SRP_USERNAME salt (srp_g ^ a mod srp_N) (nat_of_bytes B)
              (SHA512 O' (pad_num 384 (client_S O' SRP_USERNAME password salt (nat_of_bytes B) a)))))"
proof -
  let ?salt = "bytes_of_nat s" and ?A = "srp_g ^ a mod srp_N" and ?b = "nat_of_bytes bytes_b"
  define v where "v = srp_g ^ spec_x O' ?salt SRP_USERNAME password mod srp_N"
  define ver where "ver = spec_verifier O' SRP_USERNAME ?salt v ?A ?b"
  let ?B = "spec_B O' v ?b"
  have S: "client_S O' SRP_USERNAME password ?salt ?B a = spec_S O' ?A v ?b"
    by (rule client_server_agree) (simp add: v_def)
  have made: "srp_create_salt_verifier O' al s SRP_USERNAME password = Ret (Some ?salt, Some (bytes_of_nat v))"
    "srp_create_B O' al (bytes_of_nat v) bytes_b = Some (bytes_of_nat ?B)"
    using assms(1-3) by (simp_all add: srp_create_salt_verifier_ok srp_create_B_ok pad_num_full v_def)
  have new: "srp_verifier_new O' al SRP_USERNAME ?salt (bytes_of_nat v) bytes_A bytes_b = Ret (Some ver)"
    using client_A_nonzero [of a] client_A_fits [of a] assms(1,2,4) by (simp add: srp_verifier_new_ok ver_def)
  have ver: "\<not> authenticated ver" "session_key ver = client_key O' password ?salt ?B a"
    "ver_M ver = client_proof O' password ?salt ?B a" "ver_H_AMK ver = spec_M2 O' ?A (ver_M ver) (session_key ver)"
    "M_padded ver = spec_M1 O' SRP_USERNAME ?salt ?A ?B (SHA512 O' (pad_num 384 (client_S O' SRP_USERNAME password ?salt ?B a)))"
    by (simp_all add: ver_def spec_verifier_def Let_def client_key_def client_proof_def S)
  have "length (ver_M ver) = 64" "length (M_padded ver) = 64"
    using assms(1) by (simp_all add: ver(5) length_spec_M1) (simp add: ver(3) client_proof_def length_spec_M1)
  note accepts = verify_accepts_iff [OF this]
  show ?thesis
    by (rule exI [of _ ?salt], rule exI [of _ "bytes_of_nat v"], rule exI [of _ "bytes_of_nat ?B"], rule exI [of _ ver])
       (use made new ver accepts in \<open>simp add: srp_verifier_verify_def\<close>)
qed

theorem srp_agreement_witness:
  "\<exists>salt v B ver.
    srp_create_salt_verifier toy_ossl (\<lambda>_. True) (2 ^ 127) SRP_USERNAME (lit ''3939'') = Ret (Some salt, Some v) \<and>
    srp_create_B toy_ossl (\<lambda>_. True) v [1] = Some B \<and>
    srp_verifier_new toy_ossl (\<lambda>_. True) SRP_USERNAME salt v [5] [1] = Ret (Some ver) \<and>
    session_key ver = client_key toy_ossl (lit ''3939'') salt (nat_of_bytes B) 1"
proof -
  have "nat_of_bytes [5] = srp_g ^ 1 mod srp_N"
    using srp_N_bounds(1) by (simp add: nat_of_bytes_def)
  then show ?thesis
    using srp_agreement [OF contractsD(1) [OF toy_contracts] _ toy_rand_length, of "\<lambda>_. True" "[5]" 1 "lit ''3939''" "[1]"]
    by (auto simp: alloc_ok_def)
qed

text \<open>
  C3. A salt with a leading zero byte breaks pair-setup.  The server hashes the salt as a
  BIGNUM, without its leading zeros, and sends it padded to 16 bytes; unless the two inputs
  collide under SHA-512, its exponent differs from the one a client computes from the salt
  it received, even with the right password.
\<close>

theorem salt_leading_zero_mismatch:
  assumes "lib_ok O'" "alloc_ok al" "length (bytes_of_nat s) < 16"
    and "SHA512 O' (bytes_of_nat s @ SHA512 O' (SRP_USERNAME @ lit '':'' @ pw)) \<noteq>
         SHA512 O' (pad_num 16 s @ SHA512 O' (SRP_USERNAME @ lit '':'' @ pw))"
  shows "\<exists>salt v x. srp_create_salt_verifier O' al s SRP_USERNAME pw = Ret (Some salt, Some v) \<and>
    calculate_x O' al s SRP_USERNAME pw = Some x \<and>
    nat_of_bytes v = srp_g ^ x mod srp_N \<and> length salt = 16 \<and> x \<noteq> spec_x O' salt SRP_USERNAME pw"
proof -
  have "spec_x O' (bytes_of_nat s) SRP_USERNAME pw \<noteq> spec_x O' (pad_num 16 s) SRP_USERNAME pw"
    using nat_of_bytes_inj assms(4) length_sha512 [OF assms(1)] by (metis spec_x_def)
  then show ?thesis
    using assms(1-3) by (simp add: srp_create_salt_verifier_ok calculate_x_ok)
qed

theorem salt_leading_zero_mismatch_witness:
  "\<exists>salt v x. srp_create_salt_verifier toy_ossl (\<lambda>_. True) 1 SRP_USERNAME [] = Ret (Some salt, Some v) \<and>
    calculate_x toy_ossl (\<lambda>_. True) 1 SRP_USERNAME [] = Some x \<and> length salt = 16 \<and>
    x \<noteq> spec_x toy_ossl salt SRP_USERNAME []"
proof -
  have b: "bytes_of_nat 1 = [1]" using bytes_of_nat_of_bytes [of "[1]"] by (simp add: nat_of_bytes_def)
  have ne: "SHA512 toy_ossl (bytes_of_nat 1 @ h) \<noteq> SHA512 toy_ossl (pad_num 16 1 @ h)" for h
  proof -
    have f: "foldl (+) k h = k + foldl (+) (0 :: byte) h" for k
    proof (induction h arbitrary: k)
      case (Cons c h)
      show ?case using Cons [of "k + c"] Cons [of c] by (simp add: add.assoc)
    qed simp
    have "foldl (+) (of_nat (length h) + 2) h \<noteq> foldl (+) (of_nat (length h) + (17 :: byte)) h"
      by (subst (1 2) f) simp
    moreover have p: "pad_num 16 1 = replicate 15 0 @ [1]" by (simp only: pad_num_def b) simp
    ultimately show ?thesis
      unfolding p b by (simp add: toy_ossl_def toy_hash_def numeral_eq_Suc add.commute)
  qed
  have "alloc_ok (\<lambda>_. True)" "length (bytes_of_nat 1) < 16"
    by (simp add: alloc_ok_def) (simp only: b, simp)
  from salt_leading_zero_mismatch [OF contractsD(1) [OF toy_contracts] this ne]
  show ?thesis by blast
qed

text \<open>
  C4. M3 accepts exactly the two proofs of the protocol.  Under the library's contracts M3
  ends with the unchanged context and an authentication error, or A is not 0 modulo N and
  fits the modulus, the proof is the one for the minimal or the padded encoding of S, and
  the session key is the hash of that encoding.
\<close>

theorem setup_m3_accepts_only_proofs:
  assumes "lib_ok O'" "env_ok e" "pair_inv O' ctx"
  shows "handle_setup_m3 O' e ctx inp = Ret (ctx, Some (error_bytes 4 2)) \<or>
    (\<exists>pk pr S. tlv_find inp TLV_PUBLIC_KEY = Some pk \<and> tlv_find inp TLV_PROOF = Some pr \<and>
       nat_of_bytes (tlv_data pk) mod srp_N \<noteq> 0 \<and> fits_N (nat_of_bytes (tlv_data pk)) \<and>
       (S = bytes_of_nat (S_of O' ctx (nat_of_bytes (tlv_data pk))) \<or>
        S = pad_num 384 (S_of O' ctx (nat_of_bytes (tlv_data pk)))) \<and>
       tlv_data pr = proof_of O' ctx (nat_of_bytes (tlv_data pk)) (SHA512 O' S) \<and>
       handle_setup_m3 O' e ctx inp =
         Ret (ctx\<lparr>srp_session_key := SHA512 O' S, srp_has_session_key := True, setup_state := 4\<rparr>,
              Some (tlv_emit [tlv_item TLV_STATE [4], tlv_item TLV_PROOF
                (spec_M2 O' (nat_of_bytes (tlv_data pk)) (tlv_data pr) (SHA512 O' S))])))"
proof -
  have v: "srp_verifier ctx = None \<longrightarrow> srp_verifier_len ctx = 0"
    using assms(3) by (simp add: pair_inv_def)
  show ?thesis
    by (auto simp: setup_m3_ok [OF assms(1,2) v] Let_def m3_accept_def S_of_def proof_of_def
        m3_verifier_def spec_verifier_def split: option.splits)
qed

theorem setup_m3_accepts_only_proofs_witness:
  "handle_setup_m3 toy_ossl toy_env toy_ctx [] = Ret (toy_ctx, Some (error_bytes 4 2))"
  using setup_m3_accepts_only_proofs [OF contractsD(1) [OF toy_contracts] toy_env_ok(1) toy_ctx_inv, of "[]"]
  by simp

text \<open>
  C5. The pairing service is safe over whole sessions.  After any sequence of requests, with
  the library's contracts and an allocator that succeeds, no undefined behaviour has
  happened and the invariant holds: a context that reports a complete pair-setup holds a
  session key of 64 bytes and the client's long-term key, and every array has its size.
\<close>

theorem pairing_session_safe:
  assumes "contracts O'" and "pair_ctx_create al sk pk pin = Some ctx" "length sk = 32" "length pk = 32"
    and "\<forall>r \<in> set rs. env_ok (request_env r)"
  shows "\<exists>ctx'. fst (run (pair_step new_ssl O') (Ret ctx) rs) = Ret ctx' \<and> ctx_sizes ctx' \<and>
    (pair_setup_is_complete (Some ctx') \<longrightarrow> srp_has_session_key ctx' \<and> client_pk_set ctx')"
proof -
  have "run_ok (request_ok O') (pair_step new_ssl O') s rs" for s
    using assms(1,5) by (induction rs arbitrary: s) (simp_all add: request_ok_def)
  moreover have "pair_good O' (Ret ctx)"
    using pair_inv_create [OF assms(2-4)] by (simp add: pair_good_def)
  ultimately have "pair_good O' (fst (run (pair_step new_ssl O') (Ret ctx) rs))"
    by (intro pairing.run_inv)
  then show ?thesis
    by (auto simp: pair_good_def pair_inv_def pair_setup_is_complete_def)
qed

theorem pairing_session_safe_witness:
  "\<exists>ctx'. fst (run (pair_step True toy_ossl) (Ret toy_ctx) [Pair_setup toy_env [], Pair_verify toy_env [6, 1, 3]]) = Ret ctx' \<and>
     ctx_sizes ctx'"
  using pairing_session_safe [OF toy_contracts toy_ctx_create, of "[Pair_setup toy_env [], Pair_verify toy_env [6, 1, 3]]" True]
    toy_env_ok by auto

text \<open>
  Pair-setup completes only in an M5 whose payload is sealed under the session key: the
  request that makes a context complete arrives after a proof was accepted, and its
  encrypted data opens under the key derived from the SRP session key.
\<close>

theorem setup_completes_only_in_m5:
  assumes "pair_setup_handle O' e ctx body = Ret (ctx', r)"
    and "pair_setup_is_complete (Some ctx')" "\<not> pair_setup_is_complete (Some ctx)"
  shows "srp_has_session_key ctx \<and>
    (\<exists>items. tlv_parse (alloc e) 1308 body = Some items \<and>
       opened O' (derive_pair_setup_encrypt_key O' (srp_session_key ctx)) ''PS-Msg05'' items \<noteq> None)"
  using assms setup_m1_state [of O' e ctx ctx' r] setup_m3_state [of O' e ctx _ ctx' r]
    setup_m5_opened [of O' e ctx _ ctx' r]
  by (auto simp: pair_setup_handle_def pair_setup_is_complete_def Let_def split: on_null_split_asm if_splits)

theorem setup_completes_only_in_m5_witness:
  "\<exists>(ctx :: bytes pair_ctx) body. \<not> pair_setup_is_complete (Some ctx) \<and> srp_has_session_key ctx \<and>
     (\<exists>items. tlv_parse (alloc toy_env) 1308 body = Some items \<and>
       opened toy_ossl (derive_pair_setup_encrypt_key toy_ossl (srp_session_key ctx)) ''PS-Msg05'' items \<noteq> None)"
proof -
  let ?c = "toy_ctx\<lparr>srp_has_session_key := True, srp_session_key := replicate 64 1\<rparr>"
  let ?k = "derive_pair_setup_encrypt_key toy_ossl (srp_session_key ?c)"
  have inv: "pair_inv toy_ossl ?c"
    using toy_ctx_inv [of toy_ossl] by (auto simp: pair_inv_def ctx_sizes_def toy_ctx_def pair_ctx_create_def)
  have k: "length ?k = 32"
    by (simp add: derive_pair_setup_encrypt_key_def length_hkdf_sha512 toy_hmac_ok)
  obtain ct tag where enc: "chacha_encrypt toy_ossl ?k (lit ''PS-Msg05'') (tlv_emit toy_sub) = Some (ct, tag)"
    by (rule chacha_roundtrip [OF contractsD(3) [OF toy_contracts] k, of "lit ''PS-Msg05''" "tlv_emit toy_sub"]) simp_all
  let ?inp = "[tlv_item TLV_STATE [5], tlv_item TLV_ENCRYPTED_DATA (ct @ tag)]"
  obtain ctx' r where "handle_setup_m5 toy_ossl toy_env ?c ?inp = Ret (ctx', r)" "setup_state ctx' = 6"
    by (rule setup_m5_ok [OF toy_contracts toy_env_ok(1) inv _ enc toy_sub_ok, of ?inp]) auto
  then have a: "pair_setup_handle toy_ossl toy_env ?c (tlv_emit ?inp) = Ret (ctx', r)"
    using toy_env_ok(1) by (simp add: setup_dispatch [where s = 5 and it = "tlv_item TLV_STATE [5]"] env_okD del: tlv_emit_Cons)
  have b: "pair_setup_is_complete (Some ctx')" "\<not> pair_setup_is_complete (Some ?c)"
    using \<open>setup_state ctx' = 6\<close> by (simp_all add: pair_setup_is_complete_def toy_ctx_def pair_ctx_create_def)
  show ?thesis
    by (rule exI [of _ ?c], rule exI [of _ "tlv_emit ?inp"], rule conjI [OF b(2)])
       (rule setup_completes_only_in_m5 [OF a b])
qed

text \<open>
  C6. Pair-verify completes.  A controller with the X25519 key \<open>kc\<close> sends its public key in M1; from
  the accessory's public key in M2 it derives a shared secret, whose key opens the sub-TLV of M2 with
  the accessory's identifier and signature.  Its M3, encrypted under the same key, completes
  pair-verify, and the secret that the accessory stored is the controller's.
\<close>

theorem pair_verify_completes:
  assumes "contracts O'" "pair_inv O' ctx" "env_ok e1" "env_ok e3"
    and "env_pkey_ctx e1" "env_keygen e1 = Some k"
    and "length sub \<le> 16" "tlv_wf sub" "tlv_find sub TLV_IDENTIFIER = Some ident"
      "tlv_find sub TLV_SIGNATURE = Some sig" "length (tlv_data sig) = 64"
  shows "\<exists>apk ap secret ed ctx1 ct tag ct3 tag3 ctx3.
    Ed25519_private_key O' (our_sk ctx) = Some ed \<and>
    pair_verify_handle True O' e1 ctx
        (tlv_emit [tlv_item TLV_STATE [1], tlv_item TLV_PUBLIC_KEY (EVP_PKEY_get_raw_public_key O' kc)]) =
      (ctx1, Some (tlv_emit [tlv_item TLV_STATE [2], tlv_item TLV_PUBLIC_KEY apk, tlv_item TLV_ENCRYPTED_DATA (ct @ tag)])) \<and>
    X25519_public_key O' apk = Some ap \<and> EVP_PKEY_derive O' kc ap = Some secret \<and>
    (let key = verify_key O' secret in
     chacha_decrypt O' key (lit ''PV-Msg02'') ct tag =
       Some (tlv_emit (m2_sub_items O' (EVP_PKEY_get_raw_public_key O' kc) k ed)) \<and>
     chacha_encrypt O' key (lit ''PV-Msg03'') (tlv_emit sub) = Some (ct3, tag3) \<and>
     pair_verify_handle True O' e3 ctx1 (tlv_emit [tlv_item TLV_STATE [3], tlv_item TLV_ENCRYPTED_DATA (ct3 @ tag3)]) =
       (ctx3, Some (tlv_emit [tlv_item TLV_STATE [4]])) \<and>
     pair_verify_is_complete (Some ctx3) \<and> verify_shared ctx3 = secret)"
proof -
  note curve = curve_okD [OF contractsD(4) [OF assms(1)]]
  let ?cpk = "EVP_PKEY_get_raw_public_key O' kc" and ?apk = "EVP_PKEY_get_raw_public_key O' k"
  let ?m1 = "[tlv_item TLV_STATE [1], tlv_item TLV_PUBLIC_KEY ?cpk]"
  have find1: "tlv_find ?m1 TLV_PUBLIC_KEY = Some (tlv_item TLV_PUBLIC_KEY ?cpk)"
    "length (tlv_data (tlv_item TLV_PUBLIC_KEY ?cpk)) = 32" by (simp_all add: curve(4))
  obtain p ed ct tag where 1: "X25519_public_key O' ?cpk = Some p" "Ed25519_private_key O' (our_sk ctx) = Some ed"
    "handle_verify_m1 O' e1 ctx ?m1 =
       ((m1_shared_ctx O' ctx ?cpk k p)\<lparr>verify_state := 2\<rparr>,
        Some (tlv_emit [tlv_item TLV_STATE [2], tlv_item TLV_PUBLIC_KEY ?apk, tlv_item TLV_ENCRYPTED_DATA (ct @ tag)]))"
    "chacha_decrypt O' (verify_key O' (derived O' k p (verify_shared ctx))) (lit ''PV-Msg02'') ct tag
       = Some (tlv_emit (m2_sub_items O' ?cpk k ed))"
    using verify_m1_ok [OF assms(1,3,2) find1 assms(5,6)] by (metis tlv_item_sel(2))
  obtain ap where ap: "X25519_public_key O' ?apk = Some ap" using curve(3) [OF curve(4)] by blast
  obtain secret where secret: "EVP_PKEY_derive O' kc ap = Some secret" "EVP_PKEY_derive O' k p = Some secret"
    using curve(6) [OF 1(1) ap] by blast
  then have d: "derived O' k p (verify_shared ctx) = secret" by (simp add: derived_def)
  let ?ctx1 = "(m1_shared_ctx O' ctx ?cpk k p)\<lparr>verify_state := 2\<rparr>"
  have key: "verify_enc_key ?ctx1 = verify_key O' secret" "verify_shared ?ctx1 = secret"
    by (simp_all add: m1_shared_ctx_def d)
  obtain ct3 tag3 where 3:
    "chacha_encrypt O' (verify_enc_key ?ctx1) (lit ''PV-Msg03'') (tlv_emit sub) = Some (ct3, tag3)"
    "handle_verify_m3 O' e3 ?ctx1 [tlv_item TLV_STATE [3], tlv_item TLV_ENCRYPTED_DATA (ct3 @ tag3)] =
       (?ctx1\<lparr>verify_state := 4\<rparr>, Some (tlv_emit [tlv_item TLV_STATE [4]]))"
    by (rule verify_m3_sealed [OF assms(1,4) refl assms(7-11), where pre = "[tlv_item TLV_STATE [3]]" and ctx = ?ctx1])
       (use assms(1) key in \<open>auto simp: verify_key_def length_hkdf_sha512 contractsD\<close>)
  show ?thesis
    unfolding Let_def
    by (rule exI [of _ ?apk], rule exI [of _ ap], rule exI [of _ secret], rule exI [of _ ed], rule exI [of _ ?ctx1],
        rule exI [of _ ct], rule exI [of _ tag], rule exI [of _ ct3], rule exI [of _ tag3],
        rule exI [of _ "?ctx1\<lparr>verify_state := 4\<rparr>"])
       (use 1 3 key d ap secret(1) assms(3,4) in
         \<open>simp add: verify_dispatch [where s = 1 and it = "tlv_item TLV_STATE [1]"]
            verify_dispatch [where s = 3 and it = "tlv_item TLV_STATE [3]"] env_okD
            pair_verify_is_complete_def del: tlv_emit_Cons\<close>)
qed

theorem pair_verify_completes_witness:
  "\<exists>ctx3. pair_verify_is_complete (Some ctx3) \<and>
     (\<exists>ctx1 body r. pair_verify_handle True toy_ossl toy_env ctx1 body = (ctx3, Some r))"
proof -
  have h: "tlv_find toy_sub TLV_IDENTIFIER = Some (tlv_item TLV_IDENTIFIER [1, 2])"
    "tlv_find toy_sub TLV_SIGNATURE = Some (tlv_item TLV_SIGNATURE (replicate 64 0))"
    "length (tlv_data (tlv_item TLV_SIGNATURE (replicate 64 0))) = 64"
    by (simp_all add: toy_sub_def)
  have g: "env_pkey_ctx toy_env" "env_keygen toy_env = Some []"
    by (simp_all add: toy_env_def)
  from pair_verify_completes [OF toy_contracts toy_ctx_inv toy_env_ok(1) toy_env_ok(1) g toy_sub_ok(1,2) h, of "replicate 32 9"]
  show ?thesis unfolding Let_def by blast
qed

text \<open>
  C7. The client's signature does not matter.  Whatever \<open>EVP_DigestVerify\<close> answers, M3 of
  pair-verify gives the same context and the same response.
\<close>

theorem verify_m3_ignores_signature:
  "handle_verify_m3 (O'\<lparr>EVP_DigestVerify := f\<rparr>) e ctx inp = handle_verify_m3 O' e ctx inp"
  by (simp add: handle_verify_m3_def handle_verify_m3_log_def chacha_decrypt_def Let_def on_null_def
      split: option.split prod.split)

text \<open>
  C8. Pair-verify can be completed without M1.  On a new context, an M3 sealed under the key
  that the context starts with, 32 zero bytes (no key was derived), is accepted, and both control keys are then derived from a shared secret
  of 32 zero bytes.
\<close>

theorem verify_without_m1:
  assumes "contracts O'" "pair_ctx_create al sk pk pin = Some ctx" "env_ok e"
    and "length sub \<le> 16" "tlv_wf sub" "tlv_find sub TLV_IDENTIFIER = Some ident"
      "tlv_find sub TLV_SIGNATURE = Some sig" "length (tlv_data sig) = 64"
  shows "\<exists>ct tag ctx'.
    chacha_encrypt O' (replicate 32 0) (lit ''PV-Msg03'') (tlv_emit sub) = Some (ct, tag) \<and>
    pair_verify_handle True O' e ctx (tlv_emit [tlv_item TLV_STATE [3], tlv_item TLV_ENCRYPTED_DATA (ct @ tag)]) =
      (ctx', Some (tlv_emit [tlv_item TLV_STATE [4]])) \<and>
    pair_derive_control_keys O' (Some ctx') =
      Some (hkdf_sha512 O' (replicate 32 0) (lit ''Control-Salt'') (lit ''Control-Write-Encryption-Key'') 32,
            hkdf_sha512 O' (replicate 32 0) (lit ''Control-Salt'') (lit ''Control-Read-Encryption-Key'') 32)"
proof -
  have z: "verify_enc_key ctx = replicate 32 0" "verify_shared ctx = replicate 32 0"
    using assms(2) by (auto simp: pair_ctx_create_def Let_def split: if_splits)
  obtain ct tag where 3:
    "chacha_encrypt O' (replicate 32 0) (lit ''PV-Msg03'') (tlv_emit sub) = Some (ct, tag)"
    "handle_verify_m3 O' e ctx [tlv_item TLV_STATE [3], tlv_item TLV_ENCRYPTED_DATA (ct @ tag)] =
       (ctx\<lparr>verify_state := 4\<rparr>, Some (tlv_emit [tlv_item TLV_STATE [4]]))"
    by (rule verify_m3_sealed [OF assms(1,3) z(1) assms(4-8), where pre = "[tlv_item TLV_STATE [3]]"]) auto
  show ?thesis
    by (rule exI [of _ ct], rule exI [of _ tag], rule exI [of _ "ctx\<lparr>verify_state := 4\<rparr>"])
       (use 3 z assms(3) in
         \<open>simp add: verify_dispatch [where s = 3 and it = "tlv_item TLV_STATE [3]"] env_okD
            pair_derive_control_keys_def del: tlv_emit_Cons\<close>)
qed

theorem verify_without_m1_witness:
  "\<exists>ctx'. (\<exists>body r. pair_verify_handle True toy_ossl toy_env toy_ctx body = (ctx', Some r)) \<and>
     pair_derive_control_keys toy_ossl (Some ctx') \<noteq> None"
proof -
  have h: "tlv_find toy_sub TLV_IDENTIFIER = Some (tlv_item TLV_IDENTIFIER [1, 2])"
    "tlv_find toy_sub TLV_SIGNATURE = Some (tlv_item TLV_SIGNATURE (replicate 64 0))"
    "length (tlv_data (tlv_item TLV_SIGNATURE (replicate 64 0))) = 64"
    by (simp_all add: toy_sub_def)
  from verify_without_m1 [OF toy_contracts toy_ctx_create toy_env_ok(1) toy_sub_ok(1,2) h]
  show ?thesis by (metis option.distinct(1))
qed

text \<open>
  Pair-setup accepts a proof that does not depend on the pin when M3 comes first.  On a
  new context there is no verifier and the private key is zero, so the server's S is 1 for
  every A: anyone can compute the proof, and M3 establishes the session key SHA-512(01).
\<close>

theorem setup_m3_before_m1:
  assumes "lib_ok O'" "pair_ctx_create al sk pk pin = Some ctx" "env_ok e"
    and "A mod srp_N \<noteq> 0" "fits_N A"
  shows "\<exists>ctx' r. pair_setup_handle O' e ctx (tlv_emit [tlv_item TLV_STATE [3],
      tlv_item TLV_PUBLIC_KEY (pad_num 384 A),
      tlv_item TLV_PROOF (spec_M1 O' SRP_USERNAME (replicate 16 0) A 1 (SHA512 O' [1]))]) = Ret (ctx', Some r) \<and>
    srp_has_session_key ctx' \<and> srp_session_key ctx' = SHA512 O' [1]"
proof -
  let ?P = "spec_M1 O' SRP_USERNAME (replicate 16 0) A 1 (SHA512 O' [1])"
  let ?its = "[tlv_item TLV_STATE [3], tlv_item TLV_PUBLIC_KEY (pad_num 384 A), tlv_item TLV_PROOF ?P]"
  have c: "srp_verifier ctx = None" "srp_verifier_len ctx = 0" "srp_b ctx = replicate 32 0"
    "srp_salt ctx = replicate 16 0"
    using assms(2) by (auto simp: pair_ctx_create_def Let_def split: if_splits)
  have "srp_N \<noteq> Suc 0" using srp_N_pos by simp
  then have B: "spec_B O' 0 0 = 1" by (simp add: spec_B_def)
  have S: "spec_S O' A 0 0 = 1" using \<open>srp_N \<noteq> Suc 0\<close> by (simp add: spec_S_def)
  have 1: "bytes_of_nat 1 = [1]" using bytes_of_nat_of_bytes [of "[1]"] by (simp add: nat_of_bytes_def)
  have v: "ver_M (m3_verifier O' ctx A) = ?P" "session_key (m3_verifier O' ctx A) = SHA512 O' [1]"
    by (simp_all only: m3_verifier_def c option.case nat_of_bytes_Nil nat_of_bytes_replicate_0
        spec_verifier_def Let_def B S 1 srp_verifier.simps)
  have "length ?P = 64" using assms(1) by (rule length_spec_M1)
  then have "handle_setup_m3 O' e ctx ?its =
      Ret (m3_accept ctx (session_key (m3_verifier O' ctx A)) (ver_H_AMK (m3_verifier O' ctx A)))"
    using assms(4,5) by (simp add: setup_m3_ok [OF assms(1,3)] c Let_def v(1))
  then show ?thesis
    using env_okD(1) [OF assms(3)]
    by (subst setup_dispatch [where s = 3 and it = "tlv_item TLV_STATE [3]"])
       (simp_all add: m3_accept_def v(2))
qed

theorem setup_m3_before_m1_witness:
  "\<exists>ctx' r body. pair_setup_handle toy_ossl toy_env toy_ctx body = Ret (ctx', Some r) \<and>
     srp_session_key ctx' = SHA512 toy_ossl [1]"
proof -
  have "(5 :: nat) mod srp_N \<noteq> 0" using client_A_nonzero [of 1] by simp
  from setup_m3_before_m1 [OF contractsD(1) [OF toy_contracts] toy_ctx_create toy_env_ok(1) this fits_N_g]
  show ?thesis by blast
qed

text \<open>
  C9. TLV8 round trip.  A list of at most 16 items in which no two neighbours have the same
  type is what the parser reads from the builder's output, items of any length and empty
  items included.
\<close>

theorem tlv_roundtrip:
  assumes "alloc_ok al" "length items \<le> 16" "tlv_wf items"
  shows "\<exists>buf. tlv_build al c items = Some buf \<and> tlv_parse al c' buf = Some items"
  using assms by (simp add: tlv_build_ok tlv_parse_tlv_emit)

theorem tlv_roundtrip_witness:
  "\<exists>buf. tlv_build (\<lambda>_. True) 1 [tlv_item 6 [1], tlv_item 5 (replicate 300 9), tlv_item 1 []] = Some buf \<and>
     tlv_parse (\<lambda>_. True) 2 buf = Some [tlv_item 6 [1], tlv_item 5 (replicate 300 9), tlv_item 1 []]"
  by (rule tlv_roundtrip) (simp_all add: alloc_ok_def)

text \<open>
  The builder fills exactly the buffer it allocated.  The bytes that the second pass
  writes are as many as the first pass counted, so nothing is written past the end, and an
  item of n > 0 bytes takes two more bytes for every fragment of 255.
\<close>

theorem tlv_build_fills_buffer:
  "length (tlv_emit items) = tlv_total items \<and>
   tlv_total items = (\<Sum>it\<leftarrow>items. let n = length (tlv_data it) in if n = 0 then 2 else n + 2 * ((n + 254) div 255))"
proof
  show "length (tlv_emit items) = tlv_total items" by (rule length_tlv_emit)
  show "tlv_total items = (\<Sum>it\<leftarrow>items. let n = length (tlv_data it) in if n = 0 then 2 else n + 2 * ((n + 254) div 255))"
    unfolding tlv_total_def Let_def
    by (rule arg_cong [where f = sum_list]) (auto simp: tlv_item_size_eq)
qed

text \<open>
  The parser stays inside its table and its input: at most 16 items, whose data are
  together no longer than the buffer, for every input and every behaviour of the allocator.
\<close>

theorem tlv_parse_bounds:
  assumes "tlv_parse al c buf = Some items"
  shows "length items \<le> 16 \<and> (\<Sum>it\<leftarrow>items. length (tlv_data it)) \<le> length buf"
  using assms tlv_parse_loop_count [of "[]" al c buf 0] tlv_parse_loop_bytes [of al c buf 0 "[]"]
  by (auto simp: tlv_parse_def split: if_splits)

theorem tlv_parse_bounds_witness:
  "length [tlv_item 6 [1]] \<le> 16 \<and> (\<Sum>it\<leftarrow>[tlv_item 6 [1]]. length (tlv_data it)) \<le> length [6, 1, 1 :: byte]"
  by (rule tlv_parse_bounds [of "\<lambda>_. True" 0])
     (simp add: tlv_parse_def tlv_parse_loop.simps [of _ _ "[6, 1, 1]"] Let_def)

text \<open>
  C10. HKDF is RFC 5869 for outputs of at most one hash length (64 bytes): extract, then the
  first block of expand.
\<close>

theorem hkdf_is_rfc5869:
  assumes "hmac_ok O'" "l \<le> 64"
  shows "hkdf_sha512 O' ikm salt info l = rfc5869 (HMAC O') salt ikm info l"
proof (cases "l = 0")
  case False
  then have "(l + 63) div 64 = 1" using assms(2) by (intro div_nat_eqI) simp_all
  then show ?thesis by (simp add: hkdf_sha512_eq [OF assms(1)] rfc5869_def)
qed (simp add: hkdf_sha512_eq [OF assms(1)] rfc5869_def)

theorem hkdf_is_rfc5869_witness:
  "hkdf_sha512 toy_ossl [1] [2] [3] 32 = rfc5869 (HMAC toy_ossl) [2] [1] [3] 32"
  by (rule hkdf_is_rfc5869) (simp_all add: toy_hmac_ok)

text \<open>
  Deriving the stream key stays inside the 64-byte salt buffer for every connection id,
  and the salt is the text \<open>DataStream-Salt\<close> followed by the decimal id.
\<close>

theorem stream_key_in_bounds:
  "pair_derive_stream_key O' (Some c) i =
     Ret (if verify_state c = 4
          then Some (hkdf_sha512 O' (verify_shared c) (lit ''DataStream-Salt'' @ dec_digits (unat i))
                       (lit ''DataStream-Output-Encryption-Key'') 32)
          else None)"
  using length_dec_digits_u64 [of i] by (simp add: pair_derive_stream_key_def Let_def)

text \<open>
  C11. Session keys exist only after pair-verify.  When, after a sequence of requests to a new
  context, the control, event or stream keys can be derived, then the sequence has a
  pair-verify request whose encrypted data opened under the verify key of that moment.
\<close>

theorem session_keys_need_verify:
  assumes "pair_ctx_create al sk pk pin = Some ctx0"
    and "fst (run (pair_step new_ssl O') (Ret ctx0) rs) = Ret ctx"
    and "pair_derive_control_keys O' (Some ctx) \<noteq> None \<or> pair_derive_event_keys O' (Some ctx) \<noteq> None \<or>
         pair_derive_stream_key O' (Some ctx) i \<noteq> Ret None"
  shows "\<exists>rs1 e body rs2 c items. rs = rs1 @ Pair_verify e body # rs2 \<and>
    fst (run (pair_step new_ssl O') (Ret ctx0) rs1) = Ret c \<and>
    tlv_parse (alloc e) 1663 body = Some items \<and> opened O' (verify_enc_key c) ''PV-Msg03'' items \<noteq> None"
proof -
  have 4: "verify_state ctx = 4"
    using assms(3) by (auto simp: pair_derive_control_keys_def pair_derive_event_keys_def pair_derive_stream_key_def
        split: if_splits)
  have 0: "verify_state ctx0 \<noteq> 4"
    using assms(1) by (auto simp: pair_ctx_create_def Let_def split: if_splits)
  show ?thesis using assms(2) 4
  proof (induction rs arbitrary: ctx rule: rev_induct)
    case Nil
    then show ?case using 0 by simp
  next
    case (snoc r rs)
    obtain c where c: "fst (run (pair_step new_ssl O') (Ret ctx0) rs) = Ret c"
      "fst (pair_step new_ssl O' (Ret c) r) = Ret ctx"
      using snoc.prems(1) by (cases "fst (run (pair_step new_ssl O') (Ret ctx0) rs)") (auto simp: run_snoc)
    show ?case
    proof (cases "verify_state c = 4")
      case True
      from snoc.IH [OF c(1) this] show ?thesis by (metis append_Cons append_assoc)
    next
      case False
      show ?thesis
      proof (cases r)
        case (Pair_setup e body)
        with c(2) False snoc.prems(2) show ?thesis
          by (auto dest: setup_handle_verify_state split: outcome.splits)
      next
        case (Pair_verify e body)
        then have "verify_state (fst (pair_verify_handle new_ssl O' e c body)) = 4"
          using c(2) snoc.prems(2) by (auto split: prod.splits)
        from verify_handle_opened [OF this False] Pair_verify c(1) show ?thesis by blast
      qed
    qed
  qed
qed

theorem session_keys_need_verify_witness:
  "\<exists>rs rs1 e body rs2 c items. rs = rs1 @ Pair_verify e body # rs2 \<and>
     fst (run (pair_step True toy_ossl) (Ret toy_ctx) rs1) = Ret c \<and>
     tlv_parse (alloc e) 1663 body = Some items \<and> opened toy_ossl (verify_enc_key c) ''PV-Msg03'' items \<noteq> None"
proof -
  have h: "tlv_find toy_sub TLV_IDENTIFIER = Some (tlv_item TLV_IDENTIFIER [1, 2])"
    "tlv_find toy_sub TLV_SIGNATURE = Some (tlv_item TLV_SIGNATURE (replicate 64 0))"
    "length (tlv_data (tlv_item TLV_SIGNATURE (replicate 64 0))) = 64"
    "verify_enc_key toy_ctx = replicate 32 0" "length (replicate 32 0) = 32"
    "tlv_find [tlv_item TLV_STATE [3]] TLV_ENCRYPTED_DATA = None"
    by (simp_all add: toy_sub_def toy_ctx_def pair_ctx_create_def)
  obtain ct tag where m3: "handle_verify_m3 toy_ossl toy_env toy_ctx
      ([tlv_item TLV_STATE [3]] @ [tlv_item TLV_ENCRYPTED_DATA (ct @ tag)]) =
      (toy_ctx\<lparr>verify_state := 4\<rparr>, Some (tlv_emit [tlv_item TLV_STATE [4]]))"
    by (rule verify_m3_sealed [OF toy_contracts toy_env_ok(1) h(4) toy_sub_ok(1,2) h(1-3,5,6)])
  let ?body = "tlv_emit [tlv_item TLV_STATE [3], tlv_item TLV_ENCRYPTED_DATA (ct @ tag)]"
  have "fst (run (pair_step True toy_ossl) (Ret toy_ctx) [Pair_verify toy_env ?body]) = Ret (toy_ctx\<lparr>verify_state := 4\<rparr>)"
    using m3 toy_env_ok(1)
    by (simp add: run.simps(2) verify_dispatch [where s = 3 and it = "tlv_item TLV_STATE [3]"] env_okD del: tlv_emit_Cons)
  from session_keys_need_verify [OF toy_ctx_create this, of 0] show ?thesis
    by (simp add: pair_derive_control_keys_def) blast
qed

end
