(* ===== verification/Mem.thy ===== *)
theory Mem
  imports Prelude
begin

unbundle bit_operations_syntax

text \<open>
  Memory of the BTstack components.  A C object is its list of bytes, a pointer into it an
  offset; an access outside the object is undefined.  \<open>holds_at m p bs\<close> says that the bytes
  \<open>bs\<close> lie at offset \<open>p\<close>: the facts about reads and writes are stated with it.
\<close>

subsection \<open>Accesses\<close>

definition rd :: "bytes \<Rightarrow> int \<Rightarrow> byte outcome" where
  "rd m p = (if 0 \<le> p \<and> p < int (length m) then Ret (m ! nat p) else Undef)"

definition wr :: "bytes \<Rightarrow> int \<Rightarrow> byte \<Rightarrow> bytes outcome" where
  "wr m p v = (if 0 \<le> p \<and> p < int (length m) then Ret (m[nat p := v]) else Undef)"

text \<open>The source and the destination of a \<open>memcpy\<close>.\<close>

definition rd_block :: "bytes \<Rightarrow> int \<Rightarrow> nat \<Rightarrow> bytes outcome" where
  "rd_block m p n =
     (if 0 \<le> p \<and> p + int n \<le> int (length m) then Ret (take n (drop (nat p) m)) else Undef)"

definition wr_block :: "bytes \<Rightarrow> int \<Rightarrow> bytes \<Rightarrow> bytes outcome" where
  "wr_block m p bs =
     (if 0 \<le> p \<and> p + int (length bs) \<le> int (length m) then Ret (write_at m (nat p) bs) else Undef)"

text \<open>\<open>memcmp\<close> of two blocks: the sign of the first difference.\<close>

fun memcmp :: "bytes \<Rightarrow> bytes \<Rightarrow> int" where
  "memcmp (a # as) (b # bs) = (if a = b then memcmp as bs else if a < b then - 1 else 1)"
| "memcmp _ _ = 0"

lemma memcmp_eq_0: "length as = length bs \<Longrightarrow> memcmp as bs = 0 \<longleftrightarrow> as = bs"
  by (induction as bs rule: memcmp.induct) auto

lemma memcmp_flip: "length as = length bs \<Longrightarrow> memcmp bs as = - memcmp as bs"
  by (induction as bs rule: memcmp.induct) auto

subsection \<open>Bytes at an offset\<close>

definition holds_at :: "bytes \<Rightarrow> int \<Rightarrow> bytes \<Rightarrow> bool" where
  "holds_at m p bs \<longleftrightarrow>
     0 \<le> p \<and> p + int (length bs) \<le> int (length m) \<and> take (length bs) (drop (nat p) m) = bs"

lemma holds_at_intro:
  "p = int (length pre) \<Longrightarrow> holds_at (pre @ bs @ post) p bs"
  by (simp add: holds_at_def)

lemma holds_atE:
  assumes "holds_at m p bs"
  obtains pre post where "m = pre @ bs @ post" "p = int (length pre)"
proof -
  let ?pre = "take (nat p) m" and ?post = "drop (length bs) (drop (nat p) m)"
  have h: "0 \<le> p" "nat p \<le> length m" "take (length bs) (drop (nat p) m) = bs"
    using assms by (auto simp: holds_at_def)
  have "m = ?pre @ take (length bs) (drop (nat p) m) @ ?post" by (simp only: append_take_drop_id)
  with h(3) have "m = ?pre @ bs @ ?post" by simp
  moreover have "p = int (length ?pre)" using h(1,2) by simp
  ultimately show ?thesis by (rule that)
qed

lemma holds_at_nonneg: "holds_at m p bs \<Longrightarrow> 0 \<le> p \<and> p + int (length bs) \<le> int (length m)"
  by (simp add: holds_at_def)

lemma holds_at_nth:
  "holds_at m p bs \<longleftrightarrow> 0 \<le> p \<and> p + int (length bs) \<le> int (length m) \<and>
     (\<forall>i < length bs. m ! (nat p + i) = bs ! i)"
  by (auto simp: holds_at_def list_eq_iff_nth_eq)

lemma holds_at_append:
  "holds_at m p (xs @ ys) \<longleftrightarrow> holds_at m p xs \<and> holds_at m (p + int (length xs)) ys"
proof
  assume h: "holds_at m p (xs @ ys)"
  then obtain pre post where m: "m = pre @ (xs @ ys) @ post" "p = int (length pre)"
    by (rule holds_atE)
  show "holds_at m p xs \<and> holds_at m (p + int (length xs)) ys"
    using holds_at_intro [of p pre xs "ys @ post"] holds_at_intro [of "p + int (length xs)" "pre @ xs" ys post] m
    by simp
next
  assume h: "holds_at m p xs \<and> holds_at m (p + int (length xs)) ys"
  then show "holds_at m p (xs @ ys)"
    by (auto simp: holds_at_nth nth_append nat_add_distrib) (smt (verit) add.assoc add_diff_inverse_nat nat_add_left_cancel_less)
qed

lemma holds_at_Nil [simp]: "holds_at m p [] \<longleftrightarrow> 0 \<le> p \<and> p \<le> int (length m)"
  by (simp add: holds_at_def)

lemma holds_at_Cons:
  "holds_at m p (x # xs) \<longleftrightarrow> rd m p = Ret x \<and> holds_at m (p + 1) xs"
proof -
  have "holds_at m p [x] \<longleftrightarrow> rd m p = Ret x"
    by (auto simp: holds_at_nth rd_def)
  then show ?thesis using holds_at_append [of m p "[x]" xs] by simp
qed

lemma holds_at_rd:
  assumes "holds_at m p bs" "i < length bs"
  shows "rd m (p + int i) = Ret (bs ! i)"
  using assms by (auto simp: holds_at_nth rd_def nat_add_distrib)

lemma holds_at_block: "holds_at m p bs \<Longrightarrow> n = length bs \<Longrightarrow> rd_block m p n = Ret bs"
  by (simp add: holds_at_def rd_block_def)

lemma rd_block_holds: "rd_block m p n = Ret bs \<Longrightarrow> holds_at m p bs \<and> length bs = n"
  by (auto simp: rd_block_def holds_at_def split: if_splits)

lemma rd_Ret: "0 \<le> p \<Longrightarrow> p < int (length m) \<Longrightarrow> rd m p = Ret (m ! nat p)"
  by (simp add: rd_def)

lemma rd_bounds: "rd m p = Ret b \<Longrightarrow> 0 \<le> p \<and> p < int (length m)"
  by (simp add: rd_def split: if_splits)

subsection \<open>Writes\<close>

lemma wr_block_Ret:
  assumes "0 \<le> p" "p + int (length bs) \<le> int (length m)"
  obtains m' where "wr_block m p bs = Ret m'" "length m' = length m" "holds_at m' p bs"
    "\<And>q xs. holds_at m q xs \<Longrightarrow> q + int (length xs) \<le> p \<or> p + int (length bs) \<le> q \<Longrightarrow> holds_at m' q xs"
proof (rule that)
  let ?m = "write_at m (nat p) bs"
  have n: "nat p + length bs \<le> length m" using assms by linarith
  show "wr_block m p bs = Ret ?m" using assms by (simp add: wr_block_def)
  show len: "length ?m = length m" using n by simp
  have nth: "?m ! i = (if i < nat p then m ! i else if i < nat p + length bs then bs ! (i - nat p) else m ! i)"
    if "i < length m" for i
    using that n by (auto simp: write_at_def nth_append)
  show "holds_at ?m p bs"
    using assms n by (simp add: holds_at_nth nth)
  show "holds_at ?m q xs" if "holds_at m q xs" "q + int (length xs) \<le> p \<or> p + int (length bs) \<le> q" for q xs
    using that n assms by (auto simp: holds_at_nth nth)
qed

lemma wr_as_block: "wr m p v = wr_block m p [v]"
  by (auto simp: wr_def wr_block_def write_at_def upd_conv_take_nth_drop)

lemma wr_block_length: "wr_block m p bs = Ret m' \<Longrightarrow> length m' = length m"
  by (auto simp: wr_block_def split: if_splits)

lemma wr_length: "wr m p v = Ret m' \<Longrightarrow> length m' = length m"
  by (auto simp: wr_def split: if_splits)

lemma wr_block_append:
  assumes "wr_block m p xs = Ret m'"
  shows "wr_block m' (p + int (length xs)) ys = wr_block m p (xs @ ys)"
proof (cases "p + int (length xs) + int (length ys) \<le> int (length m)")
  case True
  have p: "0 \<le> p" "nat p + length xs \<le> length m" and m': "m' = write_at m (nat p) xs"
    using assms by (auto simp: wr_block_def split: if_splits)
  have "nat (p + int (length xs)) = nat p + length xs" using p by linarith
  then show ?thesis
    using p m' True by (simp add: wr_block_def write_at_def add.commute add.left_commute)
next
  case False
  then show ?thesis using assms by (auto simp: wr_block_def split: if_splits)
qed

lemma wr_wr: "wr m p v = Ret m' \<Longrightarrow> wr_block m' (p + 1) ys = wr_block m p (v # ys)"
  using wr_block_append [of m p "[v]" m' ys] by (simp add: wr_as_block)

text \<open>A write of bytes one after the other is a block write.\<close>

lemma wr_bind_block:
  assumes "q = p + 1"
  shows "bind_outcome (wr m p v) (\<lambda>m'. wr_block m' q ys) = wr_block m p (v # ys)"
proof (cases "wr m p v")
  case Undef
  then show ?thesis by (auto simp: wr_def wr_block_def split: if_splits)
next
  case (Ret m')
  then show ?thesis using wr_wr [OF Ret, of ys] assms by simp
qed

lemma wr_bind_wr:
  assumes "q = p + int (length xs)" "xs \<noteq> []"
  shows "bind_outcome (wr_block m p xs) (\<lambda>m'. wr m' q v) = wr_block m p (xs @ [v])"
proof (cases "wr_block m p xs")
  case Undef
  then show ?thesis by (auto simp: wr_block_def split: if_splits)
next
  case (Ret m')
  then show ?thesis
    using wr_block_append [OF Ret, of "[v]"] assms(1) by (simp add: wr_as_block)
qed

end
