(* ===== verification/Util.thy ===== *)
theory Util
  imports Mem
begin

text \<open>
  \<^verbatim>\<open>btstack-rootless/src/btstack_util.c\<close>: numbers in packets, Bluetooth addresses and
  UUIDs as text, decimal numbers, bit counting and CRC-8.  The functions on packets take the
  object, the pointer into it and the offset argument of the source.  Text is NUL-terminated
  bytes; a digit character is its ASCII code.
\<close>

subsection \<open>Numbers in packets\<close>

definition little_endian_read_16 :: "bytes \<Rightarrow> int \<Rightarrow> int \<Rightarrow> u16 outcome" where
  "little_endian_read_16 m buffer pos =
     bind_outcome (rd m (buffer + pos)) (\<lambda>b0.
     bind_outcome (rd m (buffer + pos + 1)) (\<lambda>b1.
     Ret (ucast b0 OR push_bit 8 (ucast b1))))"

definition little_endian_read_24 :: "bytes \<Rightarrow> int \<Rightarrow> int \<Rightarrow> u32 outcome" where
  "little_endian_read_24 m buffer pos =
     bind_outcome (rd m (buffer + pos)) (\<lambda>b0.
     bind_outcome (rd m (buffer + pos + 1)) (\<lambda>b1.
     bind_outcome (rd m (buffer + pos + 2)) (\<lambda>b2.
     Ret (ucast b0 OR push_bit 8 (ucast b1) OR push_bit 16 (ucast b2)))))"

definition little_endian_read_32 :: "bytes \<Rightarrow> int \<Rightarrow> int \<Rightarrow> u32 outcome" where
  "little_endian_read_32 m buffer pos =
     bind_outcome (rd m (buffer + pos)) (\<lambda>b0.
     bind_outcome (rd m (buffer + pos + 1)) (\<lambda>b1.
     bind_outcome (rd m (buffer + pos + 2)) (\<lambda>b2.
     bind_outcome (rd m (buffer + pos + 3)) (\<lambda>b3.
     Ret (ucast b0 OR push_bit 8 (ucast b1) OR push_bit 16 (ucast b2) OR push_bit 24 (ucast b3))))))"

text \<open>\<open>buffer[pos++] = value\<close>: \<open>pos\<close> is a \<open>uint16_t\<close> and wraps.\<close>

definition store_byte :: "bytes \<Rightarrow> int \<Rightarrow> u16 \<Rightarrow> byte \<Rightarrow> bytes outcome" where
  "store_byte m buffer pos v = wr m (buffer + uint pos) v"

definition little_endian_store_16 :: "bytes \<Rightarrow> int \<Rightarrow> u16 \<Rightarrow> u16 \<Rightarrow> bytes outcome" where
  "little_endian_store_16 m buffer pos v =
     bind_outcome (store_byte m buffer pos (ucast v)) (\<lambda>m.
     store_byte m buffer (pos + 1) (ucast (drop_bit 8 v)))"

definition little_endian_store_24 :: "bytes \<Rightarrow> int \<Rightarrow> u16 \<Rightarrow> u32 \<Rightarrow> bytes outcome" where
  "little_endian_store_24 m buffer pos v =
     bind_outcome (store_byte m buffer pos (ucast v)) (\<lambda>m.
     bind_outcome (store_byte m buffer (pos + 1) (ucast (drop_bit 8 v))) (\<lambda>m.
     store_byte m buffer (pos + 2) (ucast (drop_bit 16 v))))"

definition little_endian_store_32 :: "bytes \<Rightarrow> int \<Rightarrow> u16 \<Rightarrow> u32 \<Rightarrow> bytes outcome" where
  "little_endian_store_32 m buffer pos v =
     bind_outcome (store_byte m buffer pos (ucast v)) (\<lambda>m.
     bind_outcome (store_byte m buffer (pos + 1) (ucast (drop_bit 8 v))) (\<lambda>m.
     bind_outcome (store_byte m buffer (pos + 2) (ucast (drop_bit 16 v))) (\<lambda>m.
     store_byte m buffer (pos + 3) (ucast (drop_bit 24 v)))))"

text \<open>\<open>big_endian_read_16\<close> casts to 16 bits and returns a \<open>uint32_t\<close>.\<close>

definition big_endian_read_16 :: "bytes \<Rightarrow> int \<Rightarrow> int \<Rightarrow> u32 outcome" where
  "big_endian_read_16 m buffer pos =
     bind_outcome (rd m (buffer + pos + 1)) (\<lambda>b1.
     bind_outcome (rd m (buffer + pos)) (\<lambda>b0.
     Ret (ucast (ucast b1 OR push_bit 8 (ucast b0) :: u16))))"

definition big_endian_read_24 :: "bytes \<Rightarrow> int \<Rightarrow> int \<Rightarrow> u32 outcome" where
  "big_endian_read_24 m buffer pos =
     bind_outcome (rd m (buffer + pos + 2)) (\<lambda>b2.
     bind_outcome (rd m (buffer + pos + 1)) (\<lambda>b1.
     bind_outcome (rd m (buffer + pos)) (\<lambda>b0.
     Ret (ucast b2 OR push_bit 8 (ucast b1) OR push_bit 16 (ucast b0)))))"

definition big_endian_read_32 :: "bytes \<Rightarrow> int \<Rightarrow> int \<Rightarrow> u32 outcome" where
  "big_endian_read_32 m buffer pos =
     bind_outcome (rd m (buffer + pos + 3)) (\<lambda>b3.
     bind_outcome (rd m (buffer + pos + 2)) (\<lambda>b2.
     bind_outcome (rd m (buffer + pos + 1)) (\<lambda>b1.
     bind_outcome (rd m (buffer + pos)) (\<lambda>b0.
     Ret (ucast b3 OR push_bit 8 (ucast b2) OR push_bit 16 (ucast b1) OR push_bit 24 (ucast b0))))))"

definition big_endian_store_16 :: "bytes \<Rightarrow> int \<Rightarrow> u16 \<Rightarrow> u16 \<Rightarrow> bytes outcome" where
  "big_endian_store_16 m buffer pos v =
     bind_outcome (store_byte m buffer pos (ucast (drop_bit 8 v))) (\<lambda>m.
     store_byte m buffer (pos + 1) (ucast v))"

definition big_endian_store_24 :: "bytes \<Rightarrow> int \<Rightarrow> u16 \<Rightarrow> u32 \<Rightarrow> bytes outcome" where
  "big_endian_store_24 m buffer pos v =
     bind_outcome (store_byte m buffer pos (ucast (drop_bit 16 v))) (\<lambda>m.
     bind_outcome (store_byte m buffer (pos + 1) (ucast (drop_bit 8 v))) (\<lambda>m.
     store_byte m buffer (pos + 2) (ucast v)))"

definition big_endian_store_32 :: "bytes \<Rightarrow> int \<Rightarrow> u16 \<Rightarrow> u32 \<Rightarrow> bytes outcome" where
  "big_endian_store_32 m buffer pos v =
     bind_outcome (store_byte m buffer pos (ucast (drop_bit 24 v))) (\<lambda>m.
     bind_outcome (store_byte m buffer (pos + 1) (ucast (drop_bit 16 v))) (\<lambda>m.
     bind_outcome (store_byte m buffer (pos + 2) (ucast (drop_bit 8 v))) (\<lambda>m.
     store_byte m buffer (pos + 3) (ucast v))))"

subsection \<open>Blocks\<close>

text \<open>\<open>src\<close> and \<open>dst\<close> are different objects.\<close>

function reverse_bytes_loop :: "bytes \<Rightarrow> bytes \<Rightarrow> int \<Rightarrow> int \<Rightarrow> bytes outcome" where
  "reverse_bytes_loop src dst len i =
     (if i < len then
        bind_outcome (rd src i) (\<lambda>b.
        bind_outcome (wr dst (len - 1 - i) b) (\<lambda>dst.
        reverse_bytes_loop src dst len (i + 1)))
      else Ret dst)"
  by pat_completeness auto
termination by (relation "measure (\<lambda>(src, dst, len, i). nat (len - i))") auto

declare reverse_bytes_loop.simps [simp del]

definition reverse_bytes :: "bytes \<Rightarrow> bytes \<Rightarrow> int \<Rightarrow> bytes outcome" where
  "reverse_bytes src dst len = reverse_bytes_loop src dst len 0"

definition reverse_24 :: "bytes \<Rightarrow> bytes \<Rightarrow> bytes outcome" where
  "reverse_24 src dst = reverse_bytes src dst 3"

definition reverse_48 :: "bytes \<Rightarrow> bytes \<Rightarrow> bytes outcome" where
  "reverse_48 src dst = reverse_bytes src dst 6"

definition reverse_56 :: "bytes \<Rightarrow> bytes \<Rightarrow> bytes outcome" where
  "reverse_56 src dst = reverse_bytes src dst 7"

definition reverse_64 :: "bytes \<Rightarrow> bytes \<Rightarrow> bytes outcome" where
  "reverse_64 src dst = reverse_bytes src dst 8"

definition reverse_128 :: "bytes \<Rightarrow> bytes \<Rightarrow> bytes outcome" where
  "reverse_128 src dst = reverse_bytes src dst 16"

definition reverse_256 :: "bytes \<Rightarrow> bytes \<Rightarrow> bytes outcome" where
  "reverse_256 src dst = reverse_bytes src dst 32"

definition reverse_bd_addr :: "bytes \<Rightarrow> bytes \<Rightarrow> bytes outcome" where
  "reverse_bd_addr src dst = reverse_bytes src dst 6"

abbreviation (input) BD_ADDR_LEN :: nat where "BD_ADDR_LEN \<equiv> 6"

definition bd_addr_cmp :: "bytes \<Rightarrow> bytes \<Rightarrow> int" where
  "bd_addr_cmp a b = memcmp (take BD_ADDR_LEN a) (take BD_ADDR_LEN b)"

definition bd_addr_copy :: "bytes \<Rightarrow> bytes \<Rightarrow> bytes" where
  "bd_addr_copy dest src = write_at dest 0 (take BD_ADDR_LEN src)"

definition btstack_min :: "u32 \<Rightarrow> u32 \<Rightarrow> u32" where
  "btstack_min a b = (if a < b then a else b)"

definition btstack_max :: "u32 \<Rightarrow> u32 \<Rightarrow> u32" where
  "btstack_max a b = (if a > b then a else b)"

definition btstack_time_delta :: "u32 \<Rightarrow> u32 \<Rightarrow> int" where
  "btstack_time_delta time_a time_b = sint (time_a - time_b)"

subsection \<open>Hexadecimal text\<close>

text \<open>The callers pass a nibble, a number from 0 to 15.\<close>

definition char_for_nibble :: "nat \<Rightarrow> byte" where
  "char_for_nibble nibble = (if nibble < 16 then lit ''0123456789ABCDEF'' ! nibble else 63)"

definition char_for_high_nibble :: "byte \<Rightarrow> byte" where
  "char_for_high_nibble v = char_for_nibble (unat (drop_bit 4 v AND 0x0F))"

definition char_for_low_nibble :: "byte \<Rightarrow> byte" where
  "char_for_low_nibble v = char_for_nibble (unat (v AND 0x0F))"

definition nibble_for_char :: "byte \<Rightarrow> int" where
  "nibble_for_char c =
     (if c \<ge> 48 \<and> c \<le> 57 then uint c - 48
      else if c \<ge> 97 \<and> c \<le> 102 then uint c - 97 + 10
      else if c \<ge> 65 \<and> c \<le> 70 then uint c - 65 + 10
      else - 1)"

text \<open>The text printed.\<close>

function printf_hexdump_loop :: "bytes \<Rightarrow> int \<Rightarrow> int \<Rightarrow> bytes outcome" where
  "printf_hexdump_loop m ptr sz =
     (if sz > 0 then
        bind_outcome (rd m ptr) (\<lambda>byte.
        bind_outcome (printf_hexdump_loop m (ptr + 1) (sz - 1)) (\<lambda>txt.
        Ret ([char_for_high_nibble byte, char_for_low_nibble byte, 32] @ txt)))
      else Ret [10])"
  by pat_completeness auto
termination by (relation "measure (\<lambda>(m, ptr, sz). nat sz)") auto

declare printf_hexdump_loop.simps [simp del]

definition printf_hexdump :: "bytes \<Rightarrow> int \<Rightarrow> int \<Rightarrow> bytes outcome" where
  "printf_hexdump m data sz = printf_hexdump_loop m data sz"

text \<open>
  \<open>log_hexdump\<close> fills a buffer of \<open>BYTES_PER_BYTE * ITEMS_PER_LINE + 1\<close> = 97 bytes and logs it
  as a string when a line is full; the model returns the lines logged.
\<close>

definition log_byte :: "bytes \<Rightarrow> int \<Rightarrow> byte \<Rightarrow> bytes outcome" where
  "log_byte buffer j byte =
     bind_outcome (wr buffer j 48) (\<lambda>buffer.
     bind_outcome (wr buffer (j + 1) 120) (\<lambda>buffer.
     bind_outcome (wr buffer (j + 2) (char_for_high_nibble byte)) (\<lambda>buffer.
     bind_outcome (wr buffer (j + 3) (char_for_low_nibble byte)) (\<lambda>buffer.
     bind_outcome (wr buffer (j + 4) 44) (\<lambda>buffer.
     wr buffer (j + 5) 32)))))"

fun log_hexdump_loop :: "bytes \<Rightarrow> bytes \<Rightarrow> int \<Rightarrow> bytes list outcome" where
  "log_hexdump_loop [] buffer j =
     (if j \<noteq> 0 then bind_outcome (wr buffer j 0) (\<lambda>buffer. Ret [c_str buffer]) else Ret [])"
| "log_hexdump_loop (byte # data) buffer j =
     (let j = (if j > 6 * (16 - 1) then 0 else j) in
      bind_outcome (log_byte buffer j byte) (\<lambda>buffer.
      if j + 6 \<ge> 6 * 16 then
        bind_outcome (wr buffer (j + 6) 0) (\<lambda>buffer.
        bind_outcome (log_hexdump_loop data buffer 0) (\<lambda>ls.
        Ret (c_str buffer # ls)))
      else log_hexdump_loop data buffer (j + 6)))"

definition log_hexdump :: "bytes \<Rightarrow> bytes \<Rightarrow> bytes list outcome" where
  "log_hexdump buffer data = log_hexdump_loop data buffer 0"

text \<open>The key as text in a buffer of 33 bytes.\<close>

definition log_info_key :: "bytes \<Rightarrow> bytes" where
  "log_info_key key =
     concat (map (\<lambda>i. [char_for_high_nibble (key ! i), char_for_low_nibble (key ! i)]) [0..<16]) @ [0]"

subsection \<open>UUIDs\<close>

definition bluetooth_base_uuid :: bytes where
  "bluetooth_base_uuid =
     [0x00, 0x00, 0x00, 0x00, 0x00, 0x00, 0x10, 0x00, 0x80, 0x00, 0x00, 0x80, 0x5F, 0x9B, 0x34, 0xFB]"

definition uuid_add_bluetooth_prefix :: "bytes \<Rightarrow> int \<Rightarrow> u32 \<Rightarrow> bytes outcome" where
  "uuid_add_bluetooth_prefix m uuid shortUUID =
     bind_outcome (wr_block m uuid bluetooth_base_uuid) (\<lambda>m.
     big_endian_store_32 m uuid 0 shortUUID)"

definition uuid_has_bluetooth_prefix :: "bytes \<Rightarrow> int \<Rightarrow> bool outcome" where
  "uuid_has_bluetooth_prefix m uuid128 =
     bind_outcome (rd_block m (uuid128 + 4) 12) (\<lambda>bs.
     Ret (memcmp bs (drop 4 bluetooth_base_uuid) = 0))"

definition dash_locations :: nat where
  "dash_locations = 2 ^ 3 + 2 ^ 5 + 2 ^ 7 + 2 ^ 9"

definition uuid128_to_str :: "bytes \<Rightarrow> bytes" where
  "uuid128_to_str uuid =
     concat (map (\<lambda>i.
       [char_for_high_nibble (uuid ! i), char_for_low_nibble (uuid ! i)] @
       (if bit dash_locations i then [45] else [])) [0..<16]) @ [0]"

subsection \<open>Addresses as text\<close>

text \<open>The 18 bytes of \<open>bd_addr_to_str_buffer\<close>: the last colon becomes the NUL.\<close>

definition bd_addr_to_str :: "bytes \<Rightarrow> bytes" where
  "bd_addr_to_str addr =
     (concat (map (\<lambda>i. [char_for_high_nibble (addr ! i), char_for_low_nibble (addr ! i), 58]) [0..<6]))
       [17 := 0]"

function replace_loop :: "bytes \<Rightarrow> int \<Rightarrow> u16 \<Rightarrow> bytes \<Rightarrow> nat \<Rightarrow> bytes outcome" where
  "replace_loop m buffer sz address i =
     (if i + 17 \<le> unat sz then
        bind_outcome (rd_block m (buffer + int i) 17) (\<lambda>bs.
        if memcmp bs (lit ''00:00:00:00:00:00'') \<noteq> 0 then replace_loop m buffer sz address (i + 1)
        else bind_outcome (wr_block m (buffer + int i) (take 17 (bd_addr_to_str address))) (\<lambda>m.
          replace_loop m buffer sz address (i + 17)))
      else Ret m)"
  by pat_completeness auto
termination by (relation "measure (\<lambda>(m, buffer, sz, address, i). unat sz - i)") auto

declare replace_loop.simps [simp del]

definition btstack_replace_bd_addr_placeholder :: "bytes \<Rightarrow> int \<Rightarrow> u16 \<Rightarrow> bytes \<Rightarrow> bytes outcome" where
  "btstack_replace_bd_addr_placeholder m buffer sz address = replace_loop m buffer sz address 0"

definition scan_hex_byte :: "bytes \<Rightarrow> int \<Rightarrow> int outcome" where
  "scan_hex_byte m byte_string =
     bind_outcome (rd m byte_string) (\<lambda>c.
     if nibble_for_char c < 0 then Ret (- 1)
     else bind_outcome (rd m (byte_string + 1)) (\<lambda>c'.
       if nibble_for_char c' < 0 then Ret (- 1)
       else Ret (push_bit 4 (nibble_for_char c) OR nibble_for_char c')))"

text \<open>\<open>Some\<close> is result 1 and the address, \<open>None\<close> result 0.\<close>

function sscanf_loop :: "bytes \<Rightarrow> int \<Rightarrow> bytes \<Rightarrow> nat \<Rightarrow> bytes option outcome" where
  "sscanf_loop m addr_string buffer i =
     (if i < BD_ADDR_LEN then
        bind_outcome (scan_hex_byte m addr_string) (\<lambda>single_byte.
        if single_byte < 0 then Ret None
        else let buffer = buffer[i := word_of_int single_byte] in
          if i = BD_ADDR_LEN - 1 then Ret (Some buffer)
          else bind_outcome (rd m (addr_string + 2)) (\<lambda>next_char.
            sscanf_loop m (if next_char = 58 \<or> next_char = 45 \<or> next_char = 32
                           then addr_string + 3 else addr_string + 2) buffer (i + 1)))
      else Ret None)"
  by pat_completeness auto
termination by (relation "measure (\<lambda>(m, addr_string, buffer, i). 6 - i)") auto

declare sscanf_loop.simps [simp del]

definition sscanf_bd_addr :: "bytes \<Rightarrow> int \<Rightarrow> bytes option outcome" where
  "sscanf_bd_addr m addr_string = sscanf_loop m addr_string (replicate 6 0) 0"

subsection \<open>Decimal numbers and bits\<close>

function atoi_loop :: "bytes \<Rightarrow> int \<Rightarrow> u32 \<Rightarrow> u32 outcome" where
  "atoi_loop m str val =
     (case rd m str of
        Undef \<Rightarrow> Undef
      | Ret chr \<Rightarrow>
          if chr = 0 \<or> chr < 48 \<or> chr > 57 then Ret val
          else atoi_loop m (str + 1) (val * 10 + ucast (chr - 48)))"
  by pat_completeness auto
termination
  by (relation "measure (\<lambda>(m, str, val). nat (int (length m) - str))") (auto dest: rd_bounds)

declare atoi_loop.simps [simp del]

definition btstack_atoi :: "bytes \<Rightarrow> int \<Rightarrow> u32 outcome" where
  "btstack_atoi m str = atoi_loop m str 0"

definition string_len_for_uint32 :: "u32 \<Rightarrow> nat" where
  "string_len_for_uint32 i =
     (if i < 10 then 1 else if i < 100 then 2 else if i < 1000 then 3 else if i < 10000 then 4
      else if i < 100000 then 5 else if i < 1000000 then 6 else if i < 10000000 then 7
      else if i < 100000000 then 8 else if i < 1000000000 then 9 else 10)"

definition count_set_bits_uint32 :: "u32 \<Rightarrow> u32" where
  "count_set_bits_uint32 x =
     (let x = (x AND 0x55555555) + (drop_bit 1 x AND 0x55555555);
          x = (x AND 0x33333333) + (drop_bit 2 x AND 0x33333333);
          x = (x AND 0x0F0F0F0F) + (drop_bit 4 x AND 0x0F0F0F0F);
          x = (x AND 0x00FF00FF) + (drop_bit 8 x AND 0x00FF00FF)
      in (x AND 0x0000FFFF) + (drop_bit 16 x AND 0x0000FFFF))"

subsection \<open>CRC-8\<close>

definition crc8table :: bytes where
  "crc8table = [
     0x00, 0x91, 0xE3, 0x72, 0x07, 0x96, 0xE4, 0x75, 0x0E, 0x9F, 0xED, 0x7C, 0x09, 0x98, 0xEA, 0x7B,
     0x1C, 0x8D, 0xFF, 0x6E, 0x1B, 0x8A, 0xF8, 0x69, 0x12, 0x83, 0xF1, 0x60, 0x15, 0x84, 0xF6, 0x67,
     0x38, 0xA9, 0xDB, 0x4A, 0x3F, 0xAE, 0xDC, 0x4D, 0x36, 0xA7, 0xD5, 0x44, 0x31, 0xA0, 0xD2, 0x43,
     0x24, 0xB5, 0xC7, 0x56, 0x23, 0xB2, 0xC0, 0x51, 0x2A, 0xBB, 0xC9, 0x58, 0x2D, 0xBC, 0xCE, 0x5F,
     0x70, 0xE1, 0x93, 0x02, 0x77, 0xE6, 0x94, 0x05, 0x7E, 0xEF, 0x9D, 0x0C, 0x79, 0xE8, 0x9A, 0x0B,
     0x6C, 0xFD, 0x8F, 0x1E, 0x6B, 0xFA, 0x88, 0x19, 0x62, 0xF3, 0x81, 0x10, 0x65, 0xF4, 0x86, 0x17,
     0x48, 0xD9, 0xAB, 0x3A, 0x4F, 0xDE, 0xAC, 0x3D, 0x46, 0xD7, 0xA5, 0x34, 0x41, 0xD0, 0xA2, 0x33,
     0x54, 0xC5, 0xB7, 0x26, 0x53, 0xC2, 0xB0, 0x21, 0x5A, 0xCB, 0xB9, 0x28, 0x5D, 0xCC, 0xBE, 0x2F,
     0xE0, 0x71, 0x03, 0x92, 0xE7, 0x76, 0x04, 0x95, 0xEE, 0x7F, 0x0D, 0x9C, 0xE9, 0x78, 0x0A, 0x9B,
     0xFC, 0x6D, 0x1F, 0x8E, 0xFB, 0x6A, 0x18, 0x89, 0xF2, 0x63, 0x11, 0x80, 0xF5, 0x64, 0x16, 0x87,
     0xD8, 0x49, 0x3B, 0xAA, 0xDF, 0x4E, 0x3C, 0xAD, 0xD6, 0x47, 0x35, 0xA4, 0xD1, 0x40, 0x32, 0xA3,
     0xC4, 0x55, 0x27, 0xB6, 0xC3, 0x52, 0x20, 0xB1, 0xCA, 0x5B, 0x29, 0xB8, 0xCD, 0x5C, 0x2E, 0xBF,
     0x90, 0x01, 0x73, 0xE2, 0x97, 0x06, 0x74, 0xE5, 0x9E, 0x0F, 0x7D, 0xEC, 0x99, 0x08, 0x7A, 0xEB,
     0x8C, 0x1D, 0x6F, 0xFE, 0x8B, 0x1A, 0x68, 0xF9, 0x82, 0x13, 0x61, 0xF0, 0x85, 0x14, 0x66, 0xF7,
     0xA8, 0x39, 0x4B, 0xDA, 0xAF, 0x3E, 0x4C, 0xDD, 0xA6, 0x37, 0x45, 0xD4, 0xA1, 0x30, 0x42, 0xD3,
     0xB4, 0x25, 0x57, 0xC6, 0xB3, 0x22, 0x50, 0xC1, 0xBA, 0x2B, 0x59, 0xC8, 0xBD, 0x2C, 0x5E, 0xCF]"

definition crc8 :: "bytes \<Rightarrow> byte" where
  "crc8 data = foldl (\<lambda>crc d. crc8table ! unat (crc XOR d)) 0xFF data"

definition btstack_crc8_check :: "bytes \<Rightarrow> byte \<Rightarrow> byte" where
  "btstack_crc8_check data check_sum =
     (let crc = crc8 data; crc = crc8table ! unat (crc XOR check_sum)
      in if crc = 0xCF then 0 else 1)"

definition btstack_crc8_calc :: "bytes \<Rightarrow> byte" where
  "btstack_crc8_calc data = 0xFF - crc8 data"


subsection \<open>Encodings of numbers\<close>

definition be16 :: "u16 \<Rightarrow> bytes" where
  "be16 v = [ucast (drop_bit 8 v), ucast v]"

definition be24 :: "u32 \<Rightarrow> bytes" where
  "be24 v = [ucast (drop_bit 16 v), ucast (drop_bit 8 v), ucast v]"

definition be32 :: "u32 \<Rightarrow> bytes" where
  "be32 v = [ucast (drop_bit 24 v), ucast (drop_bit 16 v), ucast (drop_bit 8 v), ucast v]"

definition le16 :: "u16 \<Rightarrow> bytes" where
  "le16 v = rev (be16 v)"

definition le24 :: "u32 \<Rightarrow> bytes" where
  "le24 v = rev (be24 v)"

definition le32 :: "u32 \<Rightarrow> bytes" where
  "le32 v = rev (be32 v)"

lemmas enc_defs = be16_def be24_def be32_def le16_def le24_def le32_def

lemma length_enc [simp]:
  "length (be16 v) = 2" "length (be24 w) = 3" "length (be32 w) = 4"
  "length (le16 v) = 2" "length (le24 w) = 3" "length (le32 w) = 4"
  by (simp_all add: enc_defs)

text \<open>
  The contract of a pair of accessors: a store writes the encoding unless \<open>pos\<close> wraps, a read
  of an encoding returns the number (its low 24 bits for a 24-bit field).
\<close>

locale packet_number =
  fixes enc :: "'v \<Rightarrow> bytes" and width :: nat and norm :: "'v \<Rightarrow> 'r"
    and read :: "bytes \<Rightarrow> int \<Rightarrow> int \<Rightarrow> 'r outcome"
    and store :: "bytes \<Rightarrow> int \<Rightarrow> u16 \<Rightarrow> 'v \<Rightarrow> bytes outcome"
  assumes enc_length: "length (enc v) = width"
    and read_enc: "holds_at m (b + p) (enc v) \<Longrightarrow> read m b p = Ret (norm v)"
    and store_enc: "unat pos + width \<le> 65536 \<Longrightarrow> store m b pos v = wr_block m (b + uint pos) (enc v)"
begin

lemma store_in_bounds:
  assumes "unat pos + width \<le> 65536" "0 \<le> b + uint pos" "b + uint pos + int width \<le> int (length m)"
  obtains m' where "store m b pos v = Ret m'" "length m' = length m" "read m' b (uint pos) = Ret (norm v)"
    "\<And>q xs. holds_at m q xs \<Longrightarrow> q + int (length xs) \<le> b + uint pos \<or> b + uint pos + int width \<le> q \<Longrightarrow> holds_at m' q xs"
proof -
  have bnds: "b + uint pos + int (length (enc v)) \<le> int (length m)" using assms(3) by (simp add: enc_length)
  obtain m' where "wr_block m (b + uint pos) (enc v) = Ret m'" "length m' = length m"
      "holds_at m' (b + uint pos) (enc v)"
      "\<And>q xs. holds_at m q xs \<Longrightarrow> q + int (length xs) \<le> b + uint pos \<or> b + uint pos + int (length (enc v)) \<le> q \<Longrightarrow> holds_at m' q xs"
    by (rule wr_block_Ret [OF assms(2) bnds]) (rule that)
  then show ?thesis
    by (intro that [of m']) (simp_all add: store_enc assms(1) read_enc enc_length)
qed

lemma store_read:
  assumes "unat pos + width \<le> 65536" "store m b pos v = Ret m'"
  shows "read m' b (uint pos) = Ret (norm v)"
proof -
  have "wr_block m (b + uint pos) (enc v) = Ret m'" using assms by (simp add: store_enc)
  then have "holds_at m' (b + uint pos) (enc v)"
    by (metis outcome.distinct(1) outcome.inject wr_block_Ret wr_block_def)
  then show ?thesis by (rule read_enc)
qed

end

lemma uint_pos_add:
  assumes "unat (pos :: u16) + k \<le> 65535"
  shows "uint (pos + of_nat k) = uint pos + int k"
proof -
  have "unat (of_nat k :: u16) = k" using assms by (simp add: unat_of_nat)
  then have k: "uint (of_nat k :: u16) = int k" by (simp only: uint_nat)
  have less: "uint pos + int k < 65536" using assms by (simp only: uint_nat)
  have "uint (pos + of_nat k) = (uint pos + uint (of_nat k :: u16)) mod 2 ^ 16"
    by (simp only: uint_word_ariths(1)) simp
  also have "\<dots> = uint pos + int k"
    unfolding k by (rule mod_pos_pos_trivial) (use less in simp_all)
  finally show ?thesis .
qed

lemmas uint_pos_simps = uint_pos_add [of _ 1, simplified] uint_pos_add [of _ 2, simplified] uint_pos_add [of _ 3, simplified]

lemma holds_at_2: "holds_at m p [a, b] \<Longrightarrow> rd m p = Ret a \<and> rd m (p + 1) = Ret b"
  by (simp add: holds_at_Cons)

lemma holds_at_3: "holds_at m p [a, b, c] \<Longrightarrow> rd m p = Ret a \<and> rd m (p + 1) = Ret b \<and> rd m (p + 2) = Ret c"
  by (simp add: holds_at_Cons ac_simps)

lemma holds_at_4:
  "holds_at m p [a, b, c, d] \<Longrightarrow> rd m p = Ret a \<and> rd m (p + 1) = Ret b \<and> rd m (p + 2) = Ret c \<and> rd m (p + 3) = Ret d"
  by (simp add: holds_at_Cons ac_simps)

lemma wr_last: "q = p + 1 \<Longrightarrow> bind_outcome (wr m p v) (\<lambda>m'. wr m' q w) = wr_block m p [v, w]"
  by (simp only: wr_as_block [of _ "p + 1"] wr_bind_block)

lemma join_16: "ucast (ucast v :: byte) OR push_bit 8 (ucast (ucast (drop_bit 8 v) :: byte)) = (v :: u16)"
  by (rule bit_word_eqI) (auto simp: bit_simps)

lemma join_24:
  "ucast (ucast v :: byte) OR push_bit 8 (ucast (ucast (drop_bit 8 v) :: byte)) OR
     push_bit 16 (ucast (ucast (drop_bit 16 v) :: byte)) = (v AND 0xFFFFFF :: u32)"
proof -
  have m: "bit (0xFFFFFF :: u32) n \<longleftrightarrow> n < 24" if "n < 32" for n
    using that bit_mask_iff [of 24 n, where 'a = u32] by (simp add: mask_numeral min_def)
  show ?thesis
  proof (rule bit_word_eqI)
    fix n :: nat
    assume n: "n < LENGTH(32)"
    show "bit (ucast (ucast v :: byte) OR push_bit 8 (ucast (ucast (drop_bit 8 v) :: byte)) OR
     push_bit 16 (ucast (ucast (drop_bit 16 v) :: byte)) :: u32) n = bit (v AND 0xFFFFFF) n"
      using n m [of n] by (cases "n < 8"; cases "n < 16") (auto simp: bit_simps)
  qed
qed

lemma join_32:
  "ucast (ucast v :: byte) OR push_bit 8 (ucast (ucast (drop_bit 8 v) :: byte)) OR
     push_bit 16 (ucast (ucast (drop_bit 16 v) :: byte)) OR push_bit 24 (ucast (ucast (drop_bit 24 v) :: byte)) = (v :: u32)"
  (is "?w = v")
proof (rule bit_word_eqI)
  fix n :: nat
  assume n: "n < LENGTH(32)"
  then show "bit ?w n = bit v n"
    by (cases "n < 8"; cases "n < 16"; cases "n < 24") (auto simp: bit_simps)
qed

lemmas store_simps = store_byte_def uint_pos_simps wr_last wr_bind_block

interpretation be16: packet_number be16 2 "ucast :: u16 \<Rightarrow> u32" big_endian_read_16 big_endian_store_16
proof
  show "big_endian_read_16 m b p = Ret (ucast v)" if "holds_at m (b + p) (be16 v)" for m b p and v :: u16
    using holds_at_2 [of m "b + p"] that by (simp add: big_endian_read_16_def be16_def join_16)
  show "big_endian_store_16 m b pos v = wr_block m (b + uint pos) (be16 v)" if "unat pos + 2 \<le> 65536" for m b pos v
    using that by (simp add: big_endian_store_16_def be16_def store_simps)
qed simp

interpretation be24: packet_number be24 3 "\<lambda>v. v AND 0xFFFFFF" big_endian_read_24 big_endian_store_24
proof
  show "big_endian_read_24 m b p = Ret (v AND 0xFFFFFF)" if "holds_at m (b + p) (be24 v)" for m b p v
    using holds_at_3 [of m "b + p"] that by (simp add: big_endian_read_24_def be24_def join_24)
  show "big_endian_store_24 m b pos v = wr_block m (b + uint pos) (be24 v)" if "unat pos + 3 \<le> 65536" for m b pos v
    using that by (simp add: big_endian_store_24_def be24_def store_simps)
qed simp

interpretation be32: packet_number be32 4 "\<lambda>v. v" big_endian_read_32 big_endian_store_32
proof
  show "big_endian_read_32 m b p = Ret v" if "holds_at m (b + p) (be32 v)" for m b p v
    using holds_at_4 [of m "b + p"] that by (simp add: big_endian_read_32_def be32_def join_32)
  show "big_endian_store_32 m b pos v = wr_block m (b + uint pos) (be32 v)" if "unat pos + 4 \<le> 65536" for m b pos v
    using that by (simp add: big_endian_store_32_def be32_def store_simps)
qed simp

interpretation le16: packet_number le16 2 "\<lambda>v. v" little_endian_read_16 little_endian_store_16
proof
  show "little_endian_read_16 m b p = Ret v" if "holds_at m (b + p) (le16 v)" for m b p v
    using holds_at_2 [of m "b + p"] that by (simp add: little_endian_read_16_def le16_def be16_def join_16)
  show "little_endian_store_16 m b pos v = wr_block m (b + uint pos) (le16 v)" if "unat pos + 2 \<le> 65536" for m b pos v
    using that by (simp add: little_endian_store_16_def le16_def be16_def store_simps)
qed simp

interpretation le24: packet_number le24 3 "\<lambda>v. v AND 0xFFFFFF" little_endian_read_24 little_endian_store_24
proof
  show "little_endian_read_24 m b p = Ret (v AND 0xFFFFFF)" if "holds_at m (b + p) (le24 v)" for m b p v
    using holds_at_3 [of m "b + p"] that by (simp add: little_endian_read_24_def le24_def be24_def join_24)
  show "little_endian_store_24 m b pos v = wr_block m (b + uint pos) (le24 v)" if "unat pos + 3 \<le> 65536" for m b pos v
    using that by (simp add: little_endian_store_24_def le24_def be24_def store_simps)
qed simp

interpretation le32: packet_number le32 4 "\<lambda>v. v" little_endian_read_32 little_endian_store_32
proof
  show "little_endian_read_32 m b p = Ret v" if "holds_at m (b + p) (le32 v)" for m b p v
    using holds_at_4 [of m "b + p"] that by (simp add: little_endian_read_32_def le32_def be32_def join_32)
  show "little_endian_store_32 m b pos v = wr_block m (b + uint pos) (le32 v)" if "unat pos + 4 \<le> 65536" for m b pos v
    using that by (simp add: little_endian_store_32_def le32_def be32_def store_simps)
qed simp

end
