(* ===== verification/UtilProps.thy ===== *)
theory UtilProps
  imports Util
begin

text \<open>Properties of the utility functions of \<^verbatim>\<open>btstack_util.c\<close>.\<close>

subsection \<open>CRC-8 against its polynomial\<close>

text \<open>One bit and one byte of the reflected CRC with polynomial x^8 + x^2 + x + 1.\<close>

definition crc_bit :: "byte \<Rightarrow> byte" where
  "crc_bit c = (if bit c 0 then drop_bit 1 c XOR 0xE0 else drop_bit 1 c)"

definition crc_bits :: "byte \<Rightarrow> byte" where
  "crc_bits c = (crc_bit ^^ 8) c"

definition crc_unbit :: "byte \<Rightarrow> byte" where
  "crc_unbit c = (if bit c 7 then push_bit 1 (c XOR 0xE0) OR 1 else push_bit 1 c)"

lemma crc_bits_unfold:
  "crc_bits c = crc_bit (crc_bit (crc_bit (crc_bit (crc_bit (crc_bit (crc_bit (crc_bit c)))))))"
  by (simp add: crc_bits_def eval_nat_numeral)

lemma crc_unbit_bit: "crc_unbit (crc_bit c) = c"
proof (cases "bit c 0")
  case True
  have "bit (drop_bit 1 c XOR 0xE0) 7" by (simp add: bit_simps) (use bit_imp_le_length [of c 8] in auto)
  with True have "crc_unbit (crc_bit c) = push_bit 1 ((drop_bit 1 c XOR 0xE0) XOR 0xE0) OR 1"
    by (simp only: crc_unbit_def crc_bit_def if_True)
  also have "(drop_bit 1 c XOR 0xE0) XOR 0xE0 = drop_bit 1 c" by (simp only: xor.assoc xor_self_eq xor.right_neutral)
  also have "push_bit 1 (drop_bit 1 c) OR 1 = c"
    using True
    by (intro bit_word_eqI)
       (simp only: bit_or_iff bit_push_bit_iff bit_drop_bit_eq bit_1_iff o_apply possible_bit_word, auto)
  finally show ?thesis .
next
  case False
  have "\<not> bit (drop_bit 1 c) 7" using bit_imp_le_length [of c 8] by (auto simp: bit_simps)
  with False have "crc_unbit (crc_bit c) = push_bit 1 (drop_bit 1 c)"
    by (simp add: crc_unbit_def crc_bit_def)
  also have "\<dots> = c"
  proof (rule bit_word_eqI)
    show "bit (push_bit 1 (drop_bit 1 c)) n = bit c n" if "n < LENGTH(8)" for n
      using False that unfolding bit_push_bit_iff bit_drop_bit_eq by (cases n) auto
  qed
  finally show ?thesis .
qed

lemma crc_bits_inj: "crc_bits a = crc_bits b \<longleftrightarrow> a = b"
  by (metis crc_bits_unfold crc_unbit_bit)

definition crc_entry :: "nat \<Rightarrow> byte" where
  "crc_entry i = crc_bits (of_nat i)"

lemma upt_256: "[0..<256] = 0 # 1 # [2..<256]"
  by (simp add: upt_conv_Cons numeral_2_eq_2)

lemma crc_table_list: "map crc_entry [0..<256] = crc8table"
  by (simp add: upt_256 upt_rec_numeral crc_entry_def crc_bits_unfold crc_bit_def crc8table_def)

lemma crc8table_nth: "crc8table ! unat (b :: byte) = crc_bits b"
proof -
  have "crc8table ! unat b = map crc_entry [0..<256] ! unat b"
    by (simp only: crc_table_list)
  also have "\<dots> = crc_bits b" by (simp add: crc_entry_def)
  finally show ?thesis .
qed

lemma xor_cancel [simp]: "x XOR a = y XOR a \<longleftrightarrow> x = (y :: byte)"
  by (metis xor.assoc xor_self_eq xor.right_neutral)

lemma xor_cancel_left: "a XOR x = a XOR y \<longleftrightarrow> x = (y :: byte)"
  by (metis xor_cancel xor.commute)

lemma xor_all_ones: "w XOR c = 0xFF \<longleftrightarrow> c = 0xFF - (w :: byte)"
proof -
  have "(0xFF :: byte) = - 1" by simp
  then have "w XOR c = 0xFF \<longleftrightarrow> w XOR (w XOR c) = w XOR - 1"
    by (metis xor_cancel xor.commute)
  also have "w XOR (w XOR c) = c" by (simp flip: xor.assoc)
  also have "w XOR - 1 = 0xFF - w" by (simp add: not_eq_complement)
  finally show ?thesis .
qed

lemma crc_bits_last: "crc_bits c = 0xCF \<longleftrightarrow> c = 0xFF"
proof -
  have "crc_bits 0xFF = 0xCF" by (simp add: crc_bits_unfold crc_bit_def)
  then show ?thesis using crc_bits_inj [of c "0xFF"] by simp
qed

lemma crc8_eq: "crc8 data = foldl (\<lambda>c d. crc_bits (c XOR d)) 0xFF data"
  by (simp add: crc8_def crc8table_nth)

lemma crc8_check_iff: "btstack_crc8_check data c = 0 \<longleftrightarrow> c = btstack_crc8_calc data"
  by (simp add: btstack_crc8_check_def btstack_crc8_calc_def crc8table_nth crc_bits_last xor_all_ones)

lemma crc8_foldl_inj:
  "foldl (\<lambda>c d. crc_bits (c XOR d)) x data = foldl (\<lambda>c d. crc_bits (c XOR d)) y data \<longleftrightarrow> x = y"
  by (induction data arbitrary: x y) (auto simp: crc_bits_inj)


subsection \<open>Hexadecimal text\<close>

abbreviation (input) hi :: "byte \<Rightarrow> byte" where "hi \<equiv> char_for_high_nibble"
abbreviation (input) lo :: "byte \<Rightarrow> byte" where "lo \<equiv> char_for_low_nibble"

lemma nibble_char:
  assumes "n < 16"
  shows "nibble_for_char (char_for_nibble n) = int n \<and> char_for_nibble n \<noteq> 0"
proof -
  have "n \<in> {0, 1, 2, 3, 4, 5, 6, 7, 8, 9, 10, 11, 12, 13, 14, 15}" using assms by simp presburger
  then show ?thesis by (elim insertE) (simp_all add: char_for_nibble_def lit_def nibble_for_char_def)
qed

lemma and_0F: "b AND 0x0F = take_bit 4 (b :: byte)"
  by (simp add: take_bit_eq_mask mask_numeral)

lemma nibble_of_high: "nibble_for_char (hi b) = uint (drop_bit 4 b) \<and> hi b \<noteq> 0"
proof -
  have "take_bit 4 (drop_bit 4 b) = drop_bit 4 b"
    by (rule bit_word_eqI) (use bit_imp_le_length [of b] in \<open>force simp: bit_simps\<close>)
  moreover have "unat (drop_bit 4 b) < 16"
    unfolding unat_drop_bit_eq using unat_byte_less [of b] by (simp add: drop_bit_eq_div less_mult_imp_div_less)
  ultimately show ?thesis using nibble_char [of "unat (drop_bit 4 b)"] by (simp add: char_for_high_nibble_def and_0F)
qed

lemma nibble_of_low: "nibble_for_char (lo b) = uint (take_bit 4 b) \<and> lo b \<noteq> 0"
proof -
  have "unat (take_bit 4 b) < 16"
    unfolding unsigned_take_bit_eq by (simp add: take_bit_eq_mod)
  then show ?thesis using nibble_char [of "unat (take_bit 4 b)"] by (simp add: char_for_low_nibble_def and_0F)
qed

lemma nibbles_join: "push_bit 4 (uint (drop_bit 4 b)) OR uint (take_bit 4 b) = uint (b :: byte)"
proof -
  have "push_bit 4 (drop_bit 4 k) OR take_bit 4 k = k" for k :: int
    by (rule bit_eqI) (auto simp: bit_simps)
  moreover have "take_bit 8 (uint b) = uint b"
    using uint_lt2p [of b] by (simp add: take_bit_int_eq_self)
  ultimately show ?thesis
    unfolding unsigned_take_bit_eq unsigned_drop_bit_eq by simp
qed

lemma scan_hex_byte_text:
  assumes "holds_at m p [hi b, lo b]"
  shows "scan_hex_byte m p = Ret (uint b)"
  using holds_at_2 [OF assms] nibble_of_high [of b] nibble_of_low [of b] nibbles_join [of b]
  by (simp add: scan_hex_byte_def not_less)


subsection \<open>Addresses as text\<close>

lemma holds_at_2_append: "holds_at m p (a # b # xs) \<Longrightarrow> holds_at m p [a, b] \<and> holds_at m (p + 2) xs"
  using holds_at_append [of m p "[a, b]" xs] by simp

lemma sscanf_step:
  assumes "holds_at m p (hi b # lo b # 58 # xs)" "i < 5" "length buf = 6"
  shows "sscanf_loop m p buf i = sscanf_loop m (p + 3) (buf[i := b]) (i + 1)"
    "holds_at m (p + 3) xs"
  using holds_at_2_append [OF assms(1)] assms(2) scan_hex_byte_text [of m p b]
  by (simp_all add: sscanf_loop.simps [of m p buf i] holds_at_Cons ac_simps)

lemma sscanf_last:
  assumes "holds_at m p (hi b # lo b # xs)"
  shows "sscanf_loop m p buf 5 = Ret (Some (buf[5 := b]))"
  using holds_at_2_append [OF assms] scan_hex_byte_text [of m p b]
  by (simp add: sscanf_loop.simps [of m p buf 5])

lemma sscanf_text:
  assumes "length addr = 6" "holds_at m p (bd_addr_to_str addr)"
  shows "sscanf_bd_addr m p = Ret (Some addr)"
proof -
  obtain a b c d e f where addr: "addr = [a, b, c, d, e, f]"
    using assms(1) by (auto simp: numeral_eq_Suc length_Suc_conv)
  have tx: "bd_addr_to_str addr = hi a # lo a # 58 # hi b # lo b # 58 # hi c # lo c # 58 #
      hi d # lo d # 58 # hi e # lo e # 58 # hi f # lo f # [0]"
    by (simp add: bd_addr_to_str_def addr upt_rec_numeral numeral_2_eq_2 upt_conv_Cons)
  note h1 = sscanf_step [OF assms(2) [unfolded tx], of 0 "replicate 6 0"]
  note h2 = sscanf_step [OF h1(2), of 1 "(replicate 6 0)[0 := a]"]
  note h3 = sscanf_step [OF h2(2), of 2 "(replicate 6 0)[0 := a, 1 := b]"]
  note h4 = sscanf_step [OF h3(2), of 3 "(replicate 6 0)[0 := a, 1 := b, 2 := c]"]
  note h5 = sscanf_step [OF h4(2), of 4 "(replicate 6 0)[0 := a, 1 := b, 2 := c, 3 := d]"]
  note h6 = sscanf_last [OF h5(2), of "(replicate 6 0)[0 := a, 1 := b, 2 := c, 3 := d, 4 := e]"]
  from h1(1) h2(1) h3(1) h4(1) h5(1) h6 show ?thesis
    by (simp add: sscanf_bd_addr_def addr eval_nat_numeral)
qed

text \<open>A NUL at or after the pointer keeps every read inside the object.\<close>

lemma nibble_of_NUL: "nibble_for_char 0 = - 1"
  by (simp add: nibble_for_char_def)

lemma scan_hex_byte_NUL:
  assumes "rd m q = Ret 0" "0 \<le> p" "p \<le> q"
  shows "scan_hex_byte m p = Ret (- 1) \<or> (\<exists>v. scan_hex_byte m p = Ret v \<and> p + 2 \<le> q)"
proof -
  obtain c where c: "rd m p = Ret c" using assms rd_bounds [OF assms(1)] by (simp add: rd_def)
  show ?thesis
  proof (cases "nibble_for_char c < 0")
    case False
    then have "p \<noteq> q" using c assms(1) by (auto simp: nibble_of_NUL)
    then obtain c' where c': "rd m (p + 1) = Ret c'" using assms rd_bounds [OF assms(1)] by (simp add: rd_def)
    show ?thesis
    proof (cases "nibble_for_char c' < 0")
      case False
      then have "p + 1 \<noteq> q" using c' assms(1) by (auto simp: nibble_of_NUL)
      with \<open>p \<noteq> q\<close> assms(3) have "p + 2 \<le> q" by linarith
      with False c c' \<open>\<not> nibble_for_char c < 0\<close> show ?thesis by (simp add: scan_hex_byte_def)
    qed (use c c' False in \<open>simp add: scan_hex_byte_def\<close>)
  qed (use c in \<open>simp add: scan_hex_byte_def\<close>)
qed

lemma sscanf_loop_NUL:
  assumes "rd m q = Ret 0" "0 \<le> p" "p \<le> q"
  shows "sscanf_loop m p buf i \<noteq> Undef"
  using assms(2,3)
proof (induction "6 - i" arbitrary: p buf i)
  case 0
  then show ?case by (simp add: sscanf_loop.simps)
next
  case (Suc n)
  from scan_hex_byte_NUL [OF assms(1) Suc.prems] show ?case
  proof
    assume "scan_hex_byte m p = Ret (- 1)"
    then show ?thesis by (simp add: sscanf_loop.simps [of m p])
  next
    assume "\<exists>v. scan_hex_byte m p = Ret v \<and> p + 2 \<le> q"
    then obtain v where v: "scan_hex_byte m p = Ret v" "p + 2 \<le> q" by blast
    then obtain c where c: "rd m (p + 2) = Ret c" using Suc.prems rd_bounds [OF assms(1)] by (simp add: rd_def)
    have "n = 6 - (i + 1)" using Suc.hyps(2) by simp
    moreover have "p + 3 \<le> q" if "c \<noteq> 0" using that c v(2) assms(1) by (cases "p + 2 = q") auto
    ultimately show ?thesis
      using v c Suc.prems Suc.hyps(1) [of "i + 1"] by (subst sscanf_loop.simps) (auto simp: Let_def)
  qed
qed


subsection \<open>Reversal and decimal numbers\<close>

lemma reverse_bytes_loop_spec:
  assumes "n \<le> length src" "n \<le> length d" "i \<le> n" "\<forall>k < i. d ! (n - 1 - k) = src ! k"
  shows "reverse_bytes_loop src d (int n) (int i) = Ret (rev (take n src) @ drop n d)"
  using assms(2-)
proof (induction "n - i" arbitrary: d i)
  case 0
  then have "i = n" by simp
  have "take n d = rev (take n src)"
  proof (rule nth_equalityI)
    fix j assume "j < length (take n d)"
    then have "j < n" using 0 by simp
    then have "d ! (n - 1 - (n - 1 - j)) = src ! (n - 1 - j)" using 0 \<open>i = n\<close> by (metis diff_less_Suc le_antisym diff_le_self le_less_trans Suc_pred' less_Suc_eq_le not_le zero_less_iff_neq_zero not_less0)
    then show "take n d ! j = rev (take n src) ! j"
      using \<open>j < n\<close> assms(1) by (simp add: rev_nth)
  qed (use 0 assms(1) in simp)
  then have "d = rev (take n src) @ drop n d" by (metis append_take_drop_id)
  with \<open>i = n\<close> show ?case by (subst reverse_bytes_loop.simps) simp
next
  case (Suc k)
  then have i: "i < n" by simp
  let ?d = "d[n - 1 - i := src ! i]"
  have eq: "nat (int n - 1 - int i) = n - 1 - i" using i by linarith
  have "reverse_bytes_loop src d (int n) (int i) = reverse_bytes_loop src ?d (int n) (int (Suc i))"
    using i Suc.prems assms(1) eq
    by (subst reverse_bytes_loop.simps) (simp add: rd_def wr_def add.commute)
  also have "\<dots> = Ret (rev (take n src) @ drop n ?d)"
  proof (rule Suc.hyps(1))
    show "k = n - Suc i" using Suc.hyps(2) by simp
    show "\<forall>j < Suc i. ?d ! (n - 1 - j) = src ! j"
    proof (intro allI impI)
      fix j assume "j < Suc i"
      then show "?d ! (n - 1 - j) = src ! j"
        using Suc.prems i by (cases "j = i") (auto simp: nth_list_update)
    qed
  qed (use Suc.prems i in auto)
  also have "drop n ?d = drop n d" using i by (simp add: drop_update_cancel)
  finally show ?case .
qed

lemma reverse_bytes_eq:
  assumes "n \<le> length src" "n \<le> length d"
  shows "reverse_bytes src d (int n) = Ret (rev (take n src) @ drop n d)"
  using reverse_bytes_loop_spec [OF assms, of 0] by (simp add: reverse_bytes_def)

text \<open>The text of a list of decimal digits.\<close>

definition digits_text :: "nat list \<Rightarrow> bytes" where
  "digits_text ds = map (\<lambda>d. of_nat (48 + d)) ds"

lemma digit_byte:
  assumes "d < 10"
  shows "of_nat (48 + d) \<noteq> (0 :: byte) \<and> \<not> of_nat (48 + d) < (48 :: byte) \<and> \<not> of_nat (48 + d) > (57 :: byte) \<and>
    ucast (of_nat (48 + d) - 48 :: byte) = (of_nat d :: u32)"
proof -
  have "d \<in> {0, 1, 2, 3, 4, 5, 6, 7, 8, 9}" using assms by simp presburger
  then show ?thesis by (elim insertE) simp_all
qed

lemma atoi_loop_digits:
  assumes "\<forall>d \<in> set ds. d < 10" "holds_at m p (digits_text ds @ [c])" "c < 48 \<or> c > 57"
  shows "atoi_loop m p v = Ret (foldl (\<lambda>v d. v * 10 + of_nat d) v ds)"
  using assms(1,2)
proof (induction ds arbitrary: p v)
  case Nil
  then show ?case using assms(3) by (subst atoi_loop.simps) (auto simp: digits_text_def holds_at_Cons)
next
  case (Cons d ds)
  have "rd m p = Ret (of_nat (48 + d))" "holds_at m (p + 1) (digits_text ds @ [c])"
    using Cons.prems(2) by (simp_all add: digits_text_def holds_at_Cons)
  with Cons digit_byte [of d] show ?case by (subst atoi_loop.simps) simp
qed

lemma foldl_digits_word:
  "foldl (\<lambda>v d. v * 10 + of_nat d) (of_nat n :: u32) ds = of_nat (foldl (\<lambda>n d. n * 10 + d) n ds)"
proof (induction ds arbitrary: n)
  case (Cons d ds)
  from Cons [of "n * 10 + d"] show ?case by (simp add: mult.commute)
qed simp

subsection \<open>Hex dumps in the log\<close>

definition hex_item :: "byte \<Rightarrow> bytes" where
  "hex_item b = [48, 120, hi b, lo b, 44, 32]"

lemma hex_item_simps [simp]: "length (hex_item b) = 6" "0 \<notin> set (hex_item b)"
  using nibble_of_high [of b] nibble_of_low [of b] by (auto simp: hex_item_def)

lemma log_byte_eq: "log_byte buffer j b = wr_block buffer j (hex_item b)"
  by (simp add: log_byte_def hex_item_def wr_last wr_bind_block add.assoc)

text \<open>What was written so far is the string \<open>pre\<close>.\<close>

lemma c_str_cut:
  assumes "take n buffer = pre" "n = length pre" "0 \<notin> set pre" "n < length buffer"
  shows "c_str (buffer[n := 0]) = pre"
proof -
  have "buffer[n := 0] = pre @ 0 # drop (Suc n) buffer"
    using assms by (simp add: upd_conv_take_nth_drop)
  then show ?thesis using assms(3) by (simp add: c_str_def takeWhile_append)
qed


abbreviation (input) hex_text :: "bytes \<Rightarrow> bytes" where
  "hex_text bs \<equiv> concat (map hex_item bs)"

lemma hex_text_simps: "length (hex_text bs) = 6 * length bs" "0 \<notin> set (hex_text bs)"
  by (induction bs) auto

lemma log_line:
  assumes "length buffer = 97" "take (6 * length pre) buffer = hex_text pre" "length pre \<le> 15"
  obtains buffer' where "log_byte buffer (int (6 * length pre)) b = Ret buffer'" "length buffer' = 97"
    "take (6 * length (pre @ [b])) buffer' = hex_text (pre @ [b])"
proof (rule that)
  let ?b = "write_at buffer (6 * length pre) (hex_item b)"
  show "log_byte buffer (int (6 * length pre)) b = Ret ?b"
    using assms by (simp add: log_byte_eq wr_block_def nat_mult_distrib)
  show "length ?b = 97" using assms by simp
  show "take (6 * length (pre @ [b])) ?b = hex_text (pre @ [b])"
    using assms hex_text_simps(1) [of pre] by (simp add: write_at_def)
qed

lemma log_flush:
  assumes "length buffer = 97" "take (6 * length pre) buffer = hex_text pre" "length pre \<le> 16"
  shows "\<exists>b'. wr buffer (int (6 * length pre)) 0 = Ret b' \<and> length b' = 97 \<and> c_str b' = hex_text pre"
  using assms c_str_cut [OF assms(2)] by (simp add: wr_def hex_text_simps nat_mult_distrib)

lemma log_loop_lines:
  assumes "length buffer = 97" "take (6 * length pre) buffer = hex_text pre" "length pre \<le> 15"
  shows "\<exists>lines. log_hexdump_loop data buffer (int (6 * length pre)) = Ret lines \<and>
    concat lines = hex_text (pre @ data) \<and> (\<forall>l \<in> set lines. length l \<le> 96)"
  using assms
proof (induction data arbitrary: pre buffer)
  case Nil
  then show ?case
    using log_flush [of buffer pre] by (cases "pre = []") (auto simp: hex_text_simps)
next
  case (Cons b data)
  obtain b1 where b1: "log_byte buffer (int (6 * length pre)) b = Ret b1" "length b1 = 97"
      "take (6 * length (pre @ [b])) b1 = hex_text (pre @ [b])"
    by (rule log_line [OF Cons.prems, of b])
  show ?case
  proof (cases "length pre = 15")
    case True
    obtain b2 where b2: "wr b1 (int (6 * length (pre @ [b]))) 0 = Ret b2" "length b2 = 97" "c_str b2 = hex_text (pre @ [b])"
      using log_flush [OF b1(2,3)] True by auto
    obtain ls where "log_hexdump_loop data b2 0 = Ret ls" "concat ls = hex_text data" "\<forall>l \<in> set ls. length l \<le> 96"
      using Cons.IH [of b2 "[]"] b2(2) by auto
    with True b1(1) b2 show ?thesis
      by (auto simp: Let_def hex_text_simps)
  next
    case False
    then show ?thesis
      using Cons.IH [OF b1(2,3)] b1(1) Cons.prems(3) by (auto simp: Let_def add.commute)
  qed
qed


subsection \<open>Properties\<close>

text \<open>
  A store and a read of \<open>w\<close> bytes: where the field lies inside the object and the offset does not
  wrap, the store succeeds, the read returns the number, and nothing outside the field changes.
\<close>

definition accessors :: "nat \<Rightarrow> (bytes \<Rightarrow> int \<Rightarrow> u16 \<Rightarrow> 'v \<Rightarrow> bytes outcome) \<Rightarrow> (bytes \<Rightarrow> int \<Rightarrow> int \<Rightarrow> 'r outcome) \<Rightarrow> ('v \<Rightarrow> 'r) \<Rightarrow> bool" where
  "accessors w store read norm \<longleftrightarrow>
     (\<forall>m b pos v. unat pos + w \<le> 65536 \<and> 0 \<le> b + uint pos \<and> b + uint pos + int w \<le> int (length m) \<longrightarrow>
       (\<exists>m'. store m b pos v = Ret m' \<and> length m' = length m \<and> read m' b (uint pos) = Ret (norm v) \<and>
         (\<forall>q xs. holds_at m q xs \<and> (q + int (length xs) \<le> b + uint pos \<or> b + uint pos + int w \<le> q) \<longrightarrow> holds_at m' q xs)))"

context packet_number
begin

lemma accessors: "accessors width store read norm"
  unfolding accessors_def
proof (intro allI impI)
  fix m :: bytes and b :: int and pos :: u16 and v :: 'v
  assume a: "unat pos + width \<le> 65536 \<and> 0 \<le> b + uint pos \<and> b + uint pos + int width \<le> int (length m)"
  then obtain m' where "store m b pos v = Ret m'" "length m' = length m" "read m' b (uint pos) = Ret (norm v)"
      "\<And>q xs. holds_at m q xs \<Longrightarrow> q + int (length xs) \<le> b + uint pos \<or> b + uint pos + int width \<le> q \<Longrightarrow> holds_at m' q xs"
    using store_in_bounds by metis
  then show "\<exists>m'. store m b pos v = Ret m' \<and> length m' = length m \<and> read m' b (uint pos) = Ret (norm v) \<and>
      (\<forall>q xs. holds_at m q xs \<and> (q + int (length xs) \<le> b + uint pos \<or> b + uint pos + int width \<le> q) \<longrightarrow> holds_at m' q xs)"
    by blast
qed

end

text \<open>
  C12. The 16-, 24- and 32-bit accessors, big- and little-endian, store into a field of 2, 3 or 4
  bytes and no other byte, and read the number back, of a 24-bit field its low 24 bits.
\<close>

theorem packet_store_read:
  "accessors 4 big_endian_store_32 big_endian_read_32 (\<lambda>v. v) \<and>
   accessors 4 little_endian_store_32 little_endian_read_32 (\<lambda>v. v) \<and>
   accessors 3 big_endian_store_24 big_endian_read_24 (\<lambda>v. v AND 0xFFFFFF) \<and>
   accessors 3 little_endian_store_24 little_endian_read_24 (\<lambda>v. v AND 0xFFFFFF) \<and>
   accessors 2 big_endian_store_16 big_endian_read_16 ucast \<and>
   accessors 2 little_endian_store_16 little_endian_read_16 (\<lambda>v. v)"
  using be32.accessors le32.accessors be24.accessors le24.accessors be16.accessors le16.accessors by blast

theorem packet_store_read_witness:
  "\<exists>m'. big_endian_store_32 [0, 0, 0, 0, 0, 0, 0] 1 2 0xCAFE = Ret m' \<and> big_endian_read_32 m' 1 (uint (2 :: u16)) = Ret 0xCAFE"
  using packet_store_read [THEN conjunct1] unfolding accessors_def
  by (elim allE [where x = "[0, 0, 0, 0, 0, 0, 0]"] allE [where x = 1] allE [where x = 2] allE [where x = "0xCAFE"]) auto

text \<open>
  An address survives its text form: \<open>sscanf_bd_addr\<close> reads back the address that
  \<open>bd_addr_to_str\<close> wrote, and no NUL-terminated string makes it read past the terminator.
\<close>

theorem bd_addr_text_roundtrip:
  assumes "length addr = 6" "holds_at m p (bd_addr_to_str addr)"
    and "rd s q = Ret 0" "0 \<le> t" "t \<le> q"
  shows "sscanf_bd_addr m p = Ret (Some addr) \<and> sscanf_bd_addr s t \<noteq> Undef"
  using sscanf_text [OF assms(1,2)] sscanf_loop_NUL [OF assms(3-5)] by (simp add: sscanf_bd_addr_def)

theorem bd_addr_text_roundtrip_witness:
  "sscanf_bd_addr (bd_addr_to_str [0x90, 0xB9, 0x31, 0xAC, 0x86, 0xA0]) 0 = Ret (Some [0x90, 0xB9, 0x31, 0xAC, 0x86, 0xA0]) \<and>
   sscanf_bd_addr [65, 66, 58, 0] 0 \<noteq> Undef"
  by (rule bd_addr_text_roundtrip [where q = 3])
     (auto simp: holds_at_def rd_def bd_addr_to_str_def upt_rec_numeral upt_conv_Cons numeral_2_eq_2)

text \<open>
  The table-driven CRC-8 is the bitwise CRC of the polynomial x^8 + x^2 + x + 1 with initial
  value FF; the check accepts exactly the checksum of \<open>btstack_crc8_calc\<close>, so a single changed
  byte is always detected.
\<close>

theorem crc8_is_crc:
  "crc8 data = foldl (\<lambda>c d. crc_bits (c XOR d)) 0xFF data \<and>
   (btstack_crc8_check data c = 0 \<longleftrightarrow> c = btstack_crc8_calc data) \<and>
   (btstack_crc8_check (xs @ [a] @ ys) (btstack_crc8_calc (xs @ [b] @ ys)) = 0 \<longleftrightarrow> a = b)"
proof -
  have "crc8 (xs @ [a] @ ys) = crc8 (xs @ [b] @ ys) \<longleftrightarrow> a = b"
    by (simp only: crc8_eq foldl_append foldl_Cons foldl_Nil crc8_foldl_inj crc_bits_inj xor_cancel_left)
  then have "btstack_crc8_calc (xs @ [b] @ ys) = btstack_crc8_calc (xs @ [a] @ ys) \<longleftrightarrow> a = b"
    by (auto simp: btstack_crc8_calc_def)
  then show ?thesis by (simp only: crc8_check_iff crc8_eq simp_thms)
qed

text \<open>
  \<open>reverse_bytes\<close> writes the first \<open>len\<close> bytes of the source in reverse order, leaves the
  rest of the destination alone, and undoes itself.
\<close>

theorem reverse_bytes_reverses:
  assumes "n \<le> length src" "n \<le> length dst" "n \<le> length dst'"
  shows "\<exists>r. reverse_bytes src dst (int n) = Ret r \<and> r = rev (take n src) @ drop n dst \<and>
    reverse_bytes r dst' (int n) = Ret (take n src @ drop n dst')"
  using assms by (simp add: reverse_bytes_eq)

text \<open>
  \<open>btstack_atoi\<close> returns the number that the leading decimal digits denote, modulo 2^32.
\<close>

theorem atoi_reads_digits:
  assumes "\<forall>d \<in> set ds. d < 10" "holds_at m p (digits_text ds @ [c])" "c < 48 \<or> c > 57"
  shows "btstack_atoi m p = Ret (of_nat (foldl (\<lambda>n d. n * 10 + d) 0 ds))"
  using atoi_loop_digits [OF assms, of 0] foldl_digits_word [of 0 ds] by (simp add: btstack_atoi_def)

text \<open>
  \<open>log_hexdump\<close> never leaves its 97-byte line buffer, whatever the size of the data, and
  the lines that it logs hold every byte once, in order, at most 96 characters per line.
\<close>

theorem log_hexdump_complete:
  assumes "length buffer = 97"
  shows "\<exists>lines. log_hexdump buffer data = Ret lines \<and> concat lines = hex_text data \<and>
    (\<forall>l \<in> set lines. length l \<le> 96)"
  using log_loop_lines [of buffer "[]" data] assms by (simp add: log_hexdump_def)

end
