(* ===== verification/LinkedList.thy ===== *)
theory LinkedList
  imports Prelude
begin

text \<open>
  \<^verbatim>\<open>btstack-rootless/src/btstack_linked_list.c\<close> on an explicit store.  Every object that starts
  with a \<open>next\<close> pointer (an item, or the list variable itself, which the source casts to an
  item) is an address whose content is that pointer; address 0 is NULL.  A loop over a list
  with a cycle does not end: the result \<open>None\<close>.  \<open>Some Undef\<close> is the use of an invalid pointer.
\<close>

type_synonym addr = nat
type_synonym heap = "addr \<rightharpoonup> addr"

subsection \<open>Pointers\<close>

text \<open>\<open>p->next\<close> and \<open>p->next = v\<close>.\<close>

definition ld :: "heap \<Rightarrow> addr \<Rightarrow> addr outcome" where
  "ld h p = (if p = 0 then Undef else case h p of None \<Rightarrow> Undef | Some q \<Rightarrow> Ret q)"

definition st :: "heap \<Rightarrow> addr \<Rightarrow> addr \<Rightarrow> heap outcome" where
  "st h p v = (if p = 0 \<or> h p = None then Undef else Ret (h(p \<mapsto> v)))"

subsection \<open>Operations\<close>

definition btstack_linked_list_empty :: "heap \<Rightarrow> addr \<Rightarrow> bool outcome" where
  "btstack_linked_list_empty h list = bind_outcome (ld h list) (\<lambda>p. Ret (p = 0))"

partial_function (option) last_loop :: "heap \<Rightarrow> addr \<Rightarrow> addr \<Rightarrow> addr result" where
  "last_loop h lastItem it =
     (if it = 0 then Some (Ret lastItem)
      else case ld h it of Undef \<Rightarrow> Some Undef | Ret n \<Rightarrow> last_loop h it n)"

definition btstack_linked_list_get_last_item :: "heap \<Rightarrow> addr \<Rightarrow> addr result" where
  "btstack_linked_list_get_last_item h list =
     (case ld h list of Undef \<Rightarrow> Some Undef | Ret p \<Rightarrow> last_loop h 0 p)"

text \<open>The search for the item from a first pointer on: whether it was found.\<close>

partial_function (option) find_loop :: "heap \<Rightarrow> addr \<Rightarrow> addr \<Rightarrow> bool result" where
  "find_loop h item it =
     (if it = 0 then Some (Ret False)
      else if it = item then Some (Ret True)
      else case ld h it of Undef \<Rightarrow> Some Undef | Ret n \<Rightarrow> find_loop h item n)"

definition btstack_linked_list_add :: "heap \<Rightarrow> addr \<Rightarrow> addr \<Rightarrow> (heap \<times> bool) result" where
  "btstack_linked_list_add h list item =
     (case ld h list of
        Undef \<Rightarrow> Some Undef
      | Ret p \<Rightarrow>
          (case find_loop h item p of
             None \<Rightarrow> None
           | Some Undef \<Rightarrow> Some Undef
           | Some (Ret found) \<Rightarrow>
               if found then Some (Ret (h, False))
               else Some (bind_outcome (st h item p) (\<lambda>h.
                          bind_outcome (st h list item) (\<lambda>h. Ret (h, True))))))"

text \<open>\<open>None\<close> of the inner option: the item is in the list already; otherwise the last node.\<close>

partial_function (option) tail_loop :: "heap \<Rightarrow> addr \<Rightarrow> addr \<Rightarrow> addr option result" where
  "tail_loop h item it =
     (case ld h it of
        Undef \<Rightarrow> Some Undef
      | Ret n \<Rightarrow>
          if n = 0 then Some (Ret (Some it))
          else if n = item then Some (Ret None)
          else tail_loop h item n)"

definition btstack_linked_list_add_tail :: "heap \<Rightarrow> addr \<Rightarrow> addr \<Rightarrow> (heap \<times> bool) result" where
  "btstack_linked_list_add_tail h list item =
     (case tail_loop h item list of
        None \<Rightarrow> None
      | Some Undef \<Rightarrow> Some Undef
      | Some (Ret None) \<Rightarrow> Some (Ret (h, False))
      | Some (Ret (Some it)) \<Rightarrow>
          Some (bind_outcome (st h item 0) (\<lambda>h. bind_outcome (st h it item) (\<lambda>h. Ret (h, True)))))"

partial_function (option) remove_loop :: "heap \<Rightarrow> addr \<Rightarrow> addr \<Rightarrow> (heap \<times> bool) result" where
  "remove_loop h item it =
     (if it = 0 then Some (Ret (h, False))
      else case ld h it of
        Undef \<Rightarrow> Some Undef
      | Ret n \<Rightarrow>
          if n = item
          then Some (bind_outcome (ld h item) (\<lambda>m. bind_outcome (st h it m) (\<lambda>h. Ret (h, True))))
          else remove_loop h item n)"

definition btstack_linked_list_remove :: "heap \<Rightarrow> addr \<Rightarrow> addr \<Rightarrow> (heap \<times> bool) result" where
  "btstack_linked_list_remove h list item =
     (if item = 0 then Some (Ret (h, False)) else remove_loop h item list)"

partial_function (option) count_loop :: "heap \<Rightarrow> nat \<Rightarrow> addr \<Rightarrow> nat result" where
  "count_loop h counter it =
     (case ld h it of
        Undef \<Rightarrow> Some Undef
      | Ret n \<Rightarrow> if n = 0 then Some (Ret counter) else count_loop h (Suc counter) n)"

definition btstack_linked_list_count :: "heap \<Rightarrow> addr \<Rightarrow> nat result" where
  "btstack_linked_list_count h list = count_loop h 0 list"

definition btstack_linked_list_get_first_item :: "heap \<Rightarrow> addr \<Rightarrow> addr outcome" where
  "btstack_linked_list_get_first_item h list = ld h list"

definition btstack_linked_list_pop :: "heap \<Rightarrow> addr \<Rightarrow> (heap \<times> addr) outcome" where
  "btstack_linked_list_pop h list =
     bind_outcome (ld h list) (\<lambda>item.
     if item = 0 then Ret (h, 0)
     else bind_outcome (ld h item) (\<lambda>n. bind_outcome (st h list n) (\<lambda>h. Ret (h, item))))"

subsection \<open>Iterator\<close>

record iterator =
  advance_on_next :: bool
  prev :: addr
  curr :: addr

definition btstack_linked_list_iterator_init :: "heap \<Rightarrow> addr \<Rightarrow> iterator outcome" where
  "btstack_linked_list_iterator_init h head =
     bind_outcome (ld h head) (\<lambda>p. Ret \<lparr>advance_on_next = False, prev = head, curr = p\<rparr>)"

definition btstack_linked_list_iterator_has_next :: "heap \<Rightarrow> iterator \<Rightarrow> bool outcome" where
  "btstack_linked_list_iterator_has_next h it =
     (if \<not> advance_on_next it then Ret (curr it \<noteq> 0)
      else bind_outcome (ld h (prev it)) (\<lambda>n.
        if n \<noteq> curr it then Ret (n \<noteq> 0)
        else bind_outcome (ld h (curr it)) (\<lambda>n'. Ret (n' \<noteq> 0))))"

definition btstack_linked_list_iterator_next :: "heap \<Rightarrow> iterator \<Rightarrow> (iterator \<times> addr) outcome" where
  "btstack_linked_list_iterator_next h it =
     (if advance_on_next it then
        bind_outcome (ld h (prev it)) (\<lambda>n.
        if n = curr it then
          bind_outcome (ld h (curr it)) (\<lambda>n'.
          Ret (it\<lparr>prev := curr it, curr := n'\<rparr>, n'))
        else Ret (it\<lparr>curr := n\<rparr>, n))
      else Ret (it\<lparr>advance_on_next := True\<rparr>, curr it))"

definition btstack_linked_list_iterator_remove :: "heap \<Rightarrow> iterator \<Rightarrow> (heap \<times> iterator) outcome" where
  "btstack_linked_list_iterator_remove h it =
     bind_outcome (ld h (prev it)) (\<lambda>_.
     bind_outcome (ld h (curr it)) (\<lambda>n.
     bind_outcome (st h (prev it) n) (\<lambda>h.
     Ret (h, it\<lparr>curr := n, advance_on_next := False\<rparr>))))"

subsection \<open>Lists in the store\<close>

text \<open>The chain of items from a pointer to the NULL at its end, and the list of a list variable.\<close>

fun chain :: "heap \<Rightarrow> addr \<Rightarrow> addr list \<Rightarrow> bool" where
  "chain h p [] \<longleftrightarrow> p = 0"
| "chain h p (x # xs) \<longleftrightarrow> p = x \<and> x \<noteq> 0 \<and> (case h x of None \<Rightarrow> False | Some n \<Rightarrow> chain h n xs)"

definition list_at :: "heap \<Rightarrow> addr \<Rightarrow> addr list \<Rightarrow> bool" where
  "list_at h list xs \<longleftrightarrow> chain h list (list # xs)"

lemma chain_Cons: "chain h p (x # xs) \<longleftrightarrow> p = x \<and> x \<noteq> 0 \<and> (\<exists>n. h x = Some n \<and> chain h n xs)"
  by (auto split: option.splits)

lemma chain_ld: "chain h p (x # xs) \<longleftrightarrow> p = x \<and> (\<exists>n. ld h x = Ret n \<and> chain h n xs)"
  by (auto simp: ld_def split: option.splits)

declare chain.simps(2) [simp del]

lemma chain_append:
  "chain h p (xs @ y # ys) \<Longrightarrow> chain h y (y # ys)"
  by (induction xs arbitrary: p) (auto simp: chain_ld)

lemma chain_unique: "chain h p xs \<Longrightarrow> chain h p ys \<Longrightarrow> xs = ys"
proof (induction xs arbitrary: p ys)
  case Nil
  then show ?case by (cases ys) (auto simp: chain_Cons)
next
  case (Cons x xs)
  then show ?case by (cases ys) (auto simp: chain_Cons)
qed

lemma chain_distinct: "chain h p xs \<Longrightarrow> distinct xs"
proof (induction xs arbitrary: p)
  case (Cons x xs)
  have "x \<notin> set xs"
  proof
    assume "x \<in> set xs"
    then obtain as bs where xs: "xs = as @ x # bs" by (meson split_list)
    with Cons.prems have "chain h x (x # bs)" using chain_append [of h p "x # as" x bs] by simp
    moreover have "chain h x (x # xs)" using Cons.prems by (auto simp: chain_Cons)
    ultimately have "x # bs = x # xs" by (rule chain_unique)
    with xs show False by (metis list.inject length_append length_Cons add_Suc_right less_add_Suc2 less_irrefl)
  qed
  moreover have "distinct xs" using Cons by (auto simp: chain_Cons)
  ultimately show ?case by simp
qed simp

lemma chain_nonzero: "chain h p xs \<Longrightarrow> 0 \<notin> set xs"
  by (induction xs arbitrary: p) (auto simp: chain_Cons)

lemma chain_dom: "chain h p xs \<Longrightarrow> set xs \<subseteq> dom h"
  by (induction xs arbitrary: p) (auto simp: chain_Cons)

lemma chain_frame: "chain h p xs \<Longrightarrow> a \<notin> set xs \<Longrightarrow> chain (h(a := v)) p xs"
  by (induction xs arbitrary: p) (auto simp: chain_Cons)

lemma chain_0 [simp]: "chain h 0 xs \<longleftrightarrow> xs = []"
  by (cases xs) (auto simp: chain_Cons)

lemma list_at_distinct: "list_at h l xs \<Longrightarrow> distinct (l # xs) \<and> l \<noteq> 0 \<and> 0 \<notin> set xs"
  using chain_distinct [of h l "l # xs"] chain_nonzero [of h l "l # xs"] by (auto simp: list_at_def)

lemma list_at_ld: "list_at h l xs \<longleftrightarrow> (\<exists>p. ld h l = Ret p \<and> chain h p xs)"
  by (auto simp: list_at_def chain_ld)

text \<open>Inserting and removing behind a node of the chain.\<close>

lemma ld_st:
  assumes "st h p v = Ret h'"
  shows "h' = h(p \<mapsto> v)" "p \<noteq> 0" "p \<in> dom h"
  using assms by (auto simp: st_def split: if_splits)

lemma st_Ret: "p \<noteq> 0 \<Longrightarrow> p \<in> dom h \<Longrightarrow> st h p v = Ret (h(p \<mapsto> v))"
  by (auto simp: st_def)

lemma chain_split:
  "chain h p (xs @ y # ys) \<longleftrightarrow>
     chain (h(y \<mapsto> 0)) p (xs @ [y]) \<and> y \<notin> set xs \<and> y \<notin> set ys \<and> (\<exists>n. h y = Some n \<and> chain h n ys)"
proof (induction xs arbitrary: p)
  case Nil
  have "chain h y (y # ys) \<Longrightarrow> y \<notin> set ys" by (drule chain_distinct) simp
  then show ?case by (auto simp: chain_Cons)
next
  case (Cons x xs)
  have "chain h p ((x # xs) @ y # ys) \<Longrightarrow> x \<noteq> y" by (drule chain_distinct) auto
  then show ?case using Cons by (auto simp: chain_Cons)
qed


subsection \<open>The loops\<close>

lemma last_loop_chain:
  "chain h p xs \<Longrightarrow> last_loop h d p = Some (Ret (if xs = [] then d else last xs))"
  by (induction xs arbitrary: p d) (subst last_loop.simps, auto simp: chain_ld ld_def)+

lemma find_loop_chain: "chain h p xs \<Longrightarrow> find_loop h item p = Some (Ret (item \<in> set xs))"
  by (induction xs arbitrary: p) (subst find_loop.simps, auto simp: chain_ld ld_def split: if_splits)+

lemma tail_loop_chain:
  "chain h p (p # xs) \<Longrightarrow>
     tail_loop h item p = Some (Ret (if item \<in> set xs then None else Some (last (p # xs))))"
proof (induction xs arbitrary: p)
  case Nil
  then show ?case by (subst tail_loop.simps) (auto simp: chain_ld)
next
  case (Cons x xs)
  then obtain n where n: "ld h p = Ret n" "chain h n (x # xs)" by (auto simp: chain_ld)
  then have "n = x" "x \<noteq> 0" by (auto simp: chain_Cons)
  with n Cons.IH [of x] show ?case by (subst tail_loop.simps) auto
qed

lemma count_loop_chain: "chain h p (p # xs) \<Longrightarrow> count_loop h k p = Some (Ret (k + length xs))"
proof (induction xs arbitrary: p k)
  case Nil
  then show ?case by (subst count_loop.simps) (auto simp: chain_ld)
next
  case (Cons x xs)
  then obtain n where n: "ld h p = Ret n" "chain h n (x # xs)" by (auto simp: chain_ld)
  then have "n = x" "x \<noteq> 0" by (auto simp: chain_Cons)
  with n Cons.IH [of x] show ?case by (subst count_loop.simps) auto
qed

lemma remove_loop_chain:
  assumes "chain h p (p # xs)" "item \<noteq> 0"
  shows "\<exists>h'. remove_loop h item p = Some (Ret (h', item \<in> set xs)) \<and> chain h' p (p # remove1 item xs) \<and>
    dom h' = dom h \<and> (\<forall>a. a \<notin> set (p # xs) \<or> a = item \<longrightarrow> h' a = h a)"
  using assms(1)
proof (induction xs arbitrary: p)
  case Nil
  then have "ld h p = Ret 0" "p \<noteq> 0" by (auto simp: chain_ld ld_def split: if_splits)
  then show ?case using assms(2) Nil by (simp add: remove_loop.simps [of h item p] remove_loop.simps [of h item 0])
next
  case (Cons x xs)
  obtain n where n: "ld h p = Ret n" "chain h n (x # xs)" using Cons.prems by (auto simp: chain_ld)
  then have x: "n = x" "x \<noteq> 0" "chain h x (x # xs)" by (auto simp: chain_Cons)
  have p: "p \<noteq> 0" "p \<in> dom h" using Cons.prems by (auto simp: chain_Cons)
  have px: "p \<notin> set (x # xs)" using chain_distinct [OF Cons.prems] by simp
  show ?case
  proof (cases "x = item")
    case True
    obtain m where m: "ld h x = Ret m" "chain h m xs" using x(3) by (auto simp: chain_ld)
    have "chain (h(p \<mapsto> m)) m xs" using m(2) px by (intro chain_frame) auto
    then show ?thesis
      using True n x m p px
      by (subst remove_loop.simps) (auto simp: st_Ret chain_Cons)
  next
    case False
    obtain h' where h': "remove_loop h item x = Some (Ret (h', item \<in> set xs))" "chain h' x (x # remove1 item xs)"
      "dom h' = dom h" "\<forall>a. a \<notin> set (x # xs) \<or> a = item \<longrightarrow> h' a = h a"
      using Cons.IH [OF x(3)] by auto
    have "remove_loop h item p = Some (Ret (h', item \<in> set (x # xs)))"
      using False n x p h'(1) by (subst remove_loop.simps) auto
    moreover have "h' p = Some x"
      using h'(4) px n(1) x(1) by (auto simp: ld_def split: if_splits option.splits)
    then have "chain h' p (p # remove1 item (x # xs))"
      using False h'(2) p by (auto simp: chain_Cons)
    moreover have "\<forall>a. a \<notin> set (p # x # xs) \<or> a = item \<longrightarrow> h' a = h a"
      using h'(4) by auto
    ultimately show ?thesis using h'(3) by auto
  qed
qed

subsection \<open>The operations on lists\<close>

lemma list_add:
  assumes "list_at h l xs" "item \<in> dom h" "item \<noteq> 0" "item \<noteq> l"
  shows "btstack_linked_list_add h l item =
    (if item \<in> set xs then Some (Ret (h, False))
     else Some (Ret (h(item := h l, l \<mapsto> item), True)))"
    "item \<notin> set xs \<Longrightarrow> list_at (h(item := h l, l \<mapsto> item)) l (item # xs)"
proof -
  obtain p where p: "ld h l = Ret p" "chain h p xs" using assms(1) by (auto simp: list_at_ld)
  have l: "l \<noteq> 0" "l \<in> dom h" "h l = Some p" "l \<notin> set xs"
    using p(1) list_at_distinct [OF assms(1)] by (auto simp: ld_def split: if_splits option.splits)
  show "btstack_linked_list_add h l item =
    (if item \<in> set xs then Some (Ret (h, False))
     else Some (Ret (h(item := h l, l \<mapsto> item), True)))"
    using p l assms(2,3,4) find_loop_chain [OF p(2), of item]
    by (auto simp: btstack_linked_list_add_def st_Ret)
  assume "item \<notin> set xs"
  then have "chain (h(item := h l, l \<mapsto> item)) p xs" using p(2) l(4) by (intro chain_frame)
  then show "list_at (h(item := h l, l \<mapsto> item)) l (item # xs)"
    using l assms(3,4) by (auto simp: list_at_def chain_Cons)
qed


lemma chain_snoc:
  assumes "chain h p xs" "xs \<noteq> []" "item \<notin> set xs" "item \<noteq> 0"
  shows "chain (h(item \<mapsto> 0, last xs \<mapsto> item)) p (xs @ [item])"
  using assms(1-3)
proof (induction xs arbitrary: p)
  case (Cons x xs)
  show ?case
  proof (cases "xs = []")
    case False
    have "x \<noteq> last xs" using chain_distinct [OF Cons.prems(1)] last_in_set [OF False] by auto
    then show ?thesis using Cons False by (auto simp: chain_Cons)
  qed (use Cons.prems assms(4) in \<open>auto simp: chain_Cons\<close>)
qed simp

lemma list_add_tail:
  assumes "list_at h l xs" "item \<in> dom h" "item \<noteq> 0" "item \<noteq> l"
  shows "\<exists>h'. btstack_linked_list_add_tail h l item = Some (Ret (h', item \<notin> set xs)) \<and> dom h' = dom h \<and>
    list_at h' l (if item \<in> set xs then xs else xs @ [item]) \<and> (\<forall>a. a \<notin> set (l # item # xs) \<longrightarrow> h' a = h a)"
proof (cases "item \<in> set xs")
  case True
  then show ?thesis
    using assms(1) tail_loop_chain [of h l xs item] by (simp add: list_at_def btstack_linked_list_add_tail_def)
next
  case False
  let ?z = "last (l # xs)"
  have c: "chain h l (l # xs)" using assms(1) by (simp add: list_at_def)
  have "?z \<in> set (l # xs)" by (rule last_in_set) simp
  then have z: "?z \<noteq> 0" "?z \<in> dom h" using chain_nonzero [OF c] chain_dom [OF c] by (metis, blast)
  have "chain (h(item \<mapsto> 0, ?z \<mapsto> item)) l ((l # xs) @ [item])"
    by (rule chain_snoc [OF c]) (use False assms(3,4) in auto)
  moreover have "dom (h(item \<mapsto> 0, ?z \<mapsto> item)) = dom h" using z(2) assms(2) by auto
  moreover have "btstack_linked_list_add_tail h l item = Some (Ret (h(item \<mapsto> 0, ?z \<mapsto> item), True))"
    using tail_loop_chain [OF c, of item] False z assms(2,3)
    by (simp add: btstack_linked_list_add_tail_def st_Ret del: last.simps)
  moreover have "\<forall>a. a \<notin> set (l # item # xs) \<longrightarrow> (h(item \<mapsto> 0, ?z \<mapsto> item)) a = h a"
    using \<open>?z \<in> set (l # xs)\<close> by (auto simp del: last.simps)
  ultimately show ?thesis using False by (simp add: list_at_def del: last.simps fun_upd_apply)
qed

lemma list_remove:
  assumes "list_at h l xs"
  shows "\<exists>h'. btstack_linked_list_remove h l item = Some (Ret (h', item \<in> set xs)) \<and> dom h' = dom h \<and>
    list_at h' l (remove1 item xs) \<and> (\<forall>a. a \<notin> set (l # xs) \<or> a = item \<longrightarrow> h' a = h a)"
proof (cases "item = 0")
  case True
  then show ?thesis
    using assms list_at_distinct [OF assms] by (simp add: btstack_linked_list_remove_def remove1_idem)
next
  case False
  have "chain h l (l # xs)" using assms by (simp add: list_at_def)
  from remove_loop_chain [OF this False] False show ?thesis
    by (auto simp: btstack_linked_list_remove_def list_at_def)
qed

lemma list_pop:
  assumes "list_at h l xs"
  shows "btstack_linked_list_pop h l =
    (case xs of [] \<Rightarrow> Ret (h, 0) | x # _ \<Rightarrow> Ret (h(l := h x), x))"
    "xs = x # ys \<Longrightarrow> list_at (h(l := h x)) l ys \<and> dom (h(l := h x)) = dom h"
proof -
  obtain p where p: "ld h l = Ret p" "chain h p xs" using assms by (auto simp: list_at_ld)
  have l: "l \<noteq> 0" "l \<in> dom h" "l \<notin> set xs"
    using p(1) list_at_distinct [OF assms] by (auto simp: ld_def split: if_splits option.splits)
  show "btstack_linked_list_pop h l = (case xs of [] \<Rightarrow> Ret (h, 0) | x # _ \<Rightarrow> Ret (h(l := h x), x))"
    using p l by (cases xs) (auto simp: btstack_linked_list_pop_def chain_Cons ld_def st_Ret)
  assume xs: "xs = x # ys"
  then obtain n where n: "h x = Some n" "chain h n ys" using p(2) by (auto simp: chain_Cons)
  have "chain (h(l \<mapsto> n)) n ys" using n(2) l(3) xs by (intro chain_frame) auto
  then show "list_at (h(l := h x)) l ys \<and> dom (h(l := h x)) = dom h"
    using n l by (auto simp: list_at_def chain_Cons)
qed

lemma list_queries:
  assumes "list_at h l xs"
  shows "btstack_linked_list_empty h l = Ret (xs = [])"
    "btstack_linked_list_get_first_item h l = Ret (if xs = [] then 0 else hd xs)"
    "btstack_linked_list_get_last_item h l = Some (Ret (if xs = [] then 0 else last xs))"
    "btstack_linked_list_count h l = Some (Ret (length xs))"
proof -
  obtain p where p: "ld h l = Ret p" "chain h p xs" using assms by (auto simp: list_at_ld)
  show "btstack_linked_list_empty h l = Ret (xs = [])"
    "btstack_linked_list_get_first_item h l = Ret (if xs = [] then 0 else hd xs)"
    using p by (cases xs; auto simp: btstack_linked_list_empty_def btstack_linked_list_get_first_item_def chain_Cons)+
  show "btstack_linked_list_get_last_item h l = Some (Ret (if xs = [] then 0 else last xs))"
    using p last_loop_chain [of h p xs 0] by (simp add: btstack_linked_list_get_last_item_def)
  show "btstack_linked_list_count h l = Some (Ret (length xs))"
    using assms count_loop_chain [of h l xs 0] by (simp add: list_at_def btstack_linked_list_count_def)
qed

subsection \<open>Iteration\<close>

text \<open>
  \<open>iter_on\<close>: the current item is the head of \<open>todo\<close>, the items before it are \<open>pre\<close>.
  \<open>iter_fresh\<close>: the head of \<open>todo\<close> has not been handed out; either the iteration has not
  begun, or its current item was removed.  \<open>iter_at\<close>: \<open>todo\<close> is what is still to come.
\<close>

abbreviation (input) hd0 :: "addr list \<Rightarrow> addr" where
  "hd0 xs \<equiv> (if xs = [] then 0 else hd xs)"

definition iter_fresh :: "addr \<Rightarrow> iterator \<Rightarrow> addr list \<Rightarrow> addr list \<Rightarrow> bool" where
  "iter_fresh l it pre todo \<longleftrightarrow> prev it = last (l # pre) \<and> (advance_on_next it \<longleftrightarrow> curr it \<noteq> hd0 todo)"

definition iter_on :: "addr \<Rightarrow> iterator \<Rightarrow> addr list \<Rightarrow> addr list \<Rightarrow> bool" where
  "iter_on l it pre todo \<longleftrightarrow>
     prev it = last (l # pre) \<and> advance_on_next it \<and> todo \<noteq> [] \<and> curr it = hd todo"

definition iter_at :: "addr \<Rightarrow> iterator \<Rightarrow> addr list \<Rightarrow> addr list \<Rightarrow> bool" where
  "iter_at l it pre todo \<longleftrightarrow> iter_fresh l it pre todo \<or>
     (\<exists>c pre'. pre = pre' @ [c] \<and> iter_on l it pre' (c # todo))"

lemma chain_ld_last: "chain h p (xs @ ys) \<Longrightarrow> xs \<noteq> [] \<Longrightarrow> ld h (last xs) = Ret (hd0 ys)"
proof (induction xs arbitrary: p)
  case (Cons x xs)
  then show ?case by (cases xs; cases ys) (auto simp: chain_ld)
qed simp

lemma list_at_ld_last: "list_at h l (pre @ todo) \<Longrightarrow> ld h (last (l # pre)) = Ret (hd0 todo)"
  using chain_ld_last [of h l "l # pre" todo] by (simp add: list_at_def)

lemma iter_init:
  assumes "list_at h l xs"
  obtains it where "btstack_linked_list_iterator_init h l = Ret it" "iter_at l it [] xs"
  using list_at_ld_last [of h l "[]" xs] assms
  by (simp add: btstack_linked_list_iterator_init_def iter_at_def iter_fresh_def)

lemma iter_has_next:
  assumes "list_at h l (pre @ todo)" "iter_at l it pre todo"
  shows "btstack_linked_list_iterator_has_next h it = Ret (todo \<noteq> [])"
proof -
  have z: "0 \<notin> set todo" using list_at_distinct [OF assms(1)] by simp
  have ld1: "ld h (last (l # pre)) = Ret (hd0 todo)" by (rule list_at_ld_last [OF assms(1)])
  from assms(2) consider "iter_fresh l it pre todo"
    | c pre' where "pre = pre' @ [c]" "iter_on l it pre' (c # todo)" by (auto simp: iter_at_def)
  then show ?thesis
  proof cases
    case 1
    with ld1 z show ?thesis
      by (cases todo) (auto simp: btstack_linked_list_iterator_has_next_def iter_fresh_def simp del: last.simps)
  next
    case 2
    have "ld h (last (l # pre')) = Ret c" using list_at_ld_last [of h l pre' "c # todo"] assms(1) 2(1) by simp
    with 2 ld1 z show ?thesis
      by (cases todo) (auto simp: btstack_linked_list_iterator_has_next_def iter_on_def)
  qed
qed

lemma iter_next:
  assumes "list_at h l (pre @ c # todo)" "iter_at l it pre (c # todo)"
  obtains it' where "btstack_linked_list_iterator_next h it = Ret (it', c)" "iter_on l it' pre (c # todo)"
proof -
  have ld1: "ld h (last (l # pre)) = Ret c" using list_at_ld_last [OF assms(1)] by simp
  from assms(2) consider "iter_fresh l it pre (c # todo)"
    | d pre' where "pre = pre' @ [d]" "iter_on l it pre' (d # c # todo)" by (auto simp: iter_at_def)
  then show ?thesis
  proof cases
    case 1
    with ld1 show ?thesis
      by (cases "advance_on_next it")
         (auto simp: btstack_linked_list_iterator_next_def iter_fresh_def iter_on_def intro!: that)
  next
    case 2
    have "ld h (last (l # pre')) = Ret d" using list_at_ld_last [of h l pre' "d # c # todo"] assms(1) 2(1) by simp
    with 2 ld1 show ?thesis
      by (auto simp: btstack_linked_list_iterator_next_def iter_on_def intro!: that)
  qed
qed

lemma iter_on_at: "iter_on l it pre (c # todo) \<Longrightarrow> iter_at l it (pre @ [c]) todo"
  by (auto simp: iter_at_def)

text \<open>The current item may be removed with \<open>btstack_linked_list_remove\<close> or through the iterator.\<close>

lemma iter_removed:
  assumes "iter_on l it pre (c # todo)" "c \<notin> set todo" "c \<noteq> 0"
  shows "iter_at l it pre todo"
  using assms by (cases todo) (auto simp: iter_at_def iter_on_def iter_fresh_def)

lemma iter_remove:
  assumes "list_at h l (pre @ c # todo)" "iter_on l it pre (c # todo)"
  shows "\<exists>h' it'. btstack_linked_list_iterator_remove h it = Ret (h', it') \<and> iter_at l it' pre todo \<and>
    h' = h(last (l # pre) \<mapsto> hd0 todo)"
proof -
  have c: "chain h l (l # pre @ c # todo)" using assms(1) by (simp add: list_at_def)
  have "last (l # pre) \<in> set (l # pre)" by (rule last_in_set) simp
  then have "last (l # pre) \<in> set (l # pre @ c # todo)" by (simp del: last.simps) blast
  then have "last (l # pre) \<in> dom h" "last (l # pre) \<noteq> 0"
    using chain_dom [OF c] chain_nonzero [OF c] by (blast, metis)
  moreover have "ld h c = Ret (hd0 todo)"
    using list_at_ld_last [of h l "pre @ [c]" todo] assms(1) by simp
  moreover have "ld h (last (l # pre)) = Ret c" using list_at_ld_last [OF assms(1)] by simp
  ultimately show ?thesis
    using assms(2)
    by (simp add: btstack_linked_list_iterator_remove_def iter_on_def st_Ret iter_at_def iter_fresh_def del: last.simps)
qed

lemma chain_cut:
  assumes "chain h p (xs @ c # ys)" "xs \<noteq> []"
  shows "chain (h(last xs \<mapsto> hd0 ys)) p (xs @ ys)"
  using assms
proof (induction xs arbitrary: p)
  case (Cons x xs)
  have d: "distinct (x # xs @ c # ys)" using chain_distinct [OF Cons.prems(1)] by simp
  show ?case
  proof (cases "xs = []")
    case True
    then obtain n m where n: "x = p" "p \<noteq> 0" "h p = Some n" "n = c" "h c = Some m" "chain h m ys"
      using Cons.prems(1) by (auto simp: chain_Cons)
    have "m = hd0 ys" using n(6) by (cases ys) (auto simp: chain_Cons)
    moreover have "chain (h(x \<mapsto> hd0 ys)) m ys" using n(6) d by (intro chain_frame) auto
    ultimately show ?thesis using True n by (cases ys) (auto simp: chain_Cons fun_upd_def)
  next
    case False
    have "x \<noteq> last xs" using d last_in_set [OF False] by auto
    then show ?thesis using Cons False by (cases ys) (auto simp: chain_Cons)
  qed
qed simp

lemma list_cut:
  assumes "list_at h l (pre @ c # todo)"
  shows "list_at (h(last (l # pre) \<mapsto> hd0 todo)) l (pre @ todo)"
  using chain_cut [of h l "l # pre" c todo] assms by (simp add: list_at_def del: last.simps)

text \<open>
  The loop that the components of the stack write: hand out every item, and remove those
  that satisfy \<open>P\<close> from the list while it is being iterated, through the iterator (\<open>own\<close>) or with
  \<open>btstack_linked_list_remove\<close>.
\<close>

definition sweep_remove :: "bool \<Rightarrow> heap \<Rightarrow> addr \<Rightarrow> iterator \<Rightarrow> addr \<Rightarrow> (heap \<times> iterator) result" where
  "sweep_remove own h l it c =
     (if own then Some (btstack_linked_list_iterator_remove h it)
      else case btstack_linked_list_remove h l c of
        None \<Rightarrow> None
      | Some Undef \<Rightarrow> Some Undef
      | Some (Ret (h, _)) \<Rightarrow> Some (Ret (h, it)))"

fun sweep :: "bool \<Rightarrow> nat \<Rightarrow> (addr \<Rightarrow> bool) \<Rightarrow> heap \<Rightarrow> addr \<Rightarrow> iterator \<Rightarrow> (heap \<times> addr list) result" where
  "sweep own 0 P h l it = None"
| "sweep own (Suc n) P h l it =
     (case btstack_linked_list_iterator_has_next h it of
        Undef \<Rightarrow> Some Undef
      | Ret False \<Rightarrow> Some (Ret (h, []))
      | Ret True \<Rightarrow>
          (case btstack_linked_list_iterator_next h it of
             Undef \<Rightarrow> Some Undef
           | Ret (it, c) \<Rightarrow>
               (case (if P c then sweep_remove own h l it c else Some (Ret (h, it))) of
                  None \<Rightarrow> None
                | Some Undef \<Rightarrow> Some Undef
                | Some (Ret (h, it)) \<Rightarrow>
                    (case sweep own n P h l it of
                       None \<Rightarrow> None
                     | Some Undef \<Rightarrow> Some Undef
                     | Some (Ret (h, cs)) \<Rightarrow> Some (Ret (h, c # cs))))))"

lemma sweep_removes:
  assumes "list_at h l (pre @ c # todo)" "iter_on l it pre (c # todo)"
  obtains h' it' where "sweep_remove own h l it c = Some (Ret (h', it'))" "list_at h' l (pre @ todo)" "iter_at l it' pre todo"
    "\<forall>a. a \<notin> set (l # pre @ c # todo) \<longrightarrow> h' a = h a"
proof (cases own)
  case True
  obtain h' it' where r: "btstack_linked_list_iterator_remove h it = Ret (h', it')" "iter_at l it' pre todo"
      "h' = h(last (l # pre) \<mapsto> hd0 todo)" using iter_remove [OF assms] by blast
  have "last (l # pre) \<in> set (l # pre)" by (rule last_in_set) simp
  then have "\<forall>a. a \<notin> set (l # pre @ c # todo) \<longrightarrow> h' a = h a" unfolding r(3) by (auto simp del: last.simps)
  with r list_cut [OF assms(1)] True show ?thesis by (intro that) (auto simp: sweep_remove_def simp del: last.simps fun_upd_apply)
next
  case False
  have d: "c \<notin> set pre" "c \<notin> set todo" "c \<noteq> 0" using list_at_distinct [OF assms(1)] by auto
  obtain h1 where "btstack_linked_list_remove h l c = Some (Ret (h1, True))" "list_at h1 l (pre @ todo)"
      "\<forall>a. a \<notin> set (l # pre @ c # todo) \<or> a = c \<longrightarrow> h1 a = h a"
    using list_remove [OF assms(1), of c] d by (auto simp: remove1_append)
  with False iter_removed [OF assms(2) d(2,3)] show ?thesis by (intro that) (auto simp: sweep_remove_def)
qed

lemma sweep_visits:
  assumes "list_at h l (pre @ todo)" "iter_at l it pre todo" "length todo < n"
  shows "\<exists>h'. sweep own n P h l it = Some (Ret (h', todo)) \<and> list_at h' l (pre @ filter (\<lambda>c. \<not> P c) todo) \<and>
    (\<forall>a. a \<notin> set (l # pre @ todo) \<longrightarrow> h' a = h a)"
  using assms
proof (induction todo arbitrary: n h it pre)
  case Nil
  then show ?case using iter_has_next [of h l pre "[]" it] by (cases n) auto
next
  case (Cons c todo)
  obtain k where n: "n = Suc k" using Cons.prems(3) by (cases n) auto
  have hn: "btstack_linked_list_iterator_has_next h it = Ret True"
    using iter_has_next [OF Cons.prems(1,2)] by simp
  obtain it' where it': "btstack_linked_list_iterator_next h it = Ret (it', c)" "iter_on l it' pre (c # todo)"
    by (rule iter_next [OF Cons.prems(1,2)])
  show ?case
  proof (cases "P c")
    case True
    obtain h1 it1 where h1: "sweep_remove own h l it' c = Some (Ret (h1, it1))" "list_at h1 l (pre @ todo)" "iter_at l it1 pre todo"
        "\<forall>a. a \<notin> set (l # pre @ c # todo) \<longrightarrow> h1 a = h a"
      by (rule sweep_removes [OF Cons.prems(1) it'(2)])
    obtain h2 where "sweep own k P h1 l it1 = Some (Ret (h2, todo))" "list_at h2 l (pre @ filter (\<lambda>c. \<not> P c) todo)"
        "\<forall>a. a \<notin> set (l # pre @ todo) \<longrightarrow> h2 a = h1 a"
      using Cons.IH [OF h1(2,3)] Cons.prems(3) n by auto
    with n hn it'(1) h1(1,4) True show ?thesis by simp
  next
    case False
    have "list_at h l ((pre @ [c]) @ todo)" using Cons.prems(1) by simp
    then obtain h2 where "sweep own k P h l it' = Some (Ret (h2, todo))"
        "list_at h2 l ((pre @ [c]) @ filter (\<lambda>c. \<not> P c) todo)"
        "\<forall>a. a \<notin> set (l # (pre @ [c]) @ todo) \<longrightarrow> h2 a = h a"
      using Cons.IH [of h "pre @ [c]" it' k] iter_on_at [OF it'(2)] Cons.prems(3) n by auto
    with n hn it'(1) False show ?thesis by simp
  qed
qed

end
