(* ===== verification/MemoryPool.thy ===== *)
theory MemoryPool
  imports LinkedList
begin

text \<open>
  \<^verbatim>\<open>btstack-rootless/src/btstack_memory_pool.c\<close> on the store of LinkedList: a pool is an address
  whose content points to the first free block, and a free block starts with the pointer to
  the next one.  \<open>asserts\<close> is the build option that turns \<open>btstack_assert\<close> on (it is off in
  \<^verbatim>\<open>port/ios/btstack_config.h\<close>); a failed assertion stops the program and is \<open>Undef\<close> here.

  The locale \<open>block_store\<close> is the contract of a store of free blocks; the free list of the pool
  and the linked list used as a stack both satisfy it.
\<close>

subsection \<open>Model\<close>

partial_function (option) scan_loop :: "bool \<Rightarrow> heap \<Rightarrow> addr \<Rightarrow> addr \<Rightarrow> unit result" where
  "scan_loop asserts h node it =
     (if it = 0 then Some (Ret ())
      else if asserts \<and> it = node then Some Undef
      else case ld h it of Undef \<Rightarrow> Some Undef | Ret n \<Rightarrow> scan_loop asserts h node n)"

definition btstack_memory_pool_free :: "bool \<Rightarrow> heap \<Rightarrow> addr \<Rightarrow> addr \<Rightarrow> heap result" where
  "btstack_memory_pool_free asserts h pool block =
     (case ld h pool of
        Undef \<Rightarrow> Some Undef
      | Ret p \<Rightarrow>
          (case scan_loop asserts h block p of
             None \<Rightarrow> None
           | Some Undef \<Rightarrow> Some Undef
           | Some (Ret _) \<Rightarrow> Some (bind_outcome (st h block p) (\<lambda>h. st h pool block))))"

definition btstack_memory_pool_get :: "heap \<Rightarrow> addr \<Rightarrow> (heap \<times> addr) outcome" where
  "btstack_memory_pool_get h pool =
     bind_outcome (ld h pool) (\<lambda>node.
     if node = 0 then Ret (h, 0)
     else bind_outcome (ld h node) (\<lambda>n. bind_outcome (st h pool n) (\<lambda>h. Ret (h, node))))"

fun create_loop :: "bool \<Rightarrow> heap \<Rightarrow> addr \<Rightarrow> addr \<Rightarrow> nat \<Rightarrow> nat \<Rightarrow> heap result" where
  "create_loop asserts h pool mem_ptr 0 block_size = Some (Ret h)"
| "create_loop asserts h pool mem_ptr (Suc n) block_size =
     (case btstack_memory_pool_free asserts h pool mem_ptr of
        None \<Rightarrow> None
      | Some Undef \<Rightarrow> Some Undef
      | Some (Ret h) \<Rightarrow> create_loop asserts h pool (mem_ptr + block_size) n block_size)"

definition btstack_memory_pool_create :: "bool \<Rightarrow> heap \<Rightarrow> addr \<Rightarrow> addr \<Rightarrow> nat \<Rightarrow> nat \<Rightarrow> heap result" where
  "btstack_memory_pool_create asserts h pool storage count block_size =
     (case st h pool 0 of
        Undef \<Rightarrow> Some Undef
      | Ret h \<Rightarrow> create_loop asserts h pool storage count block_size)"

subsection \<open>The contract of a store of blocks\<close>

text \<open>
  Its clients: a sequence of allocations and releases.  A release gives back the i-th of the
  blocks in use.  The run stops at undefined behaviour or a loop that does not end.
\<close>

datatype pool_op = Alloc | Release nat

fun pool_run :: "(heap \<Rightarrow> addr \<Rightarrow> addr \<Rightarrow> heap result) \<Rightarrow> (heap \<Rightarrow> addr \<Rightarrow> (heap \<times> addr) outcome) \<Rightarrow>
    addr \<Rightarrow> pool_op list \<Rightarrow> heap \<times> addr list \<Rightarrow> (heap \<times> addr list) option" where
  "pool_run put get l [] s = Some s"
| "pool_run put get l (Alloc # ops) (h, used) =
     (case get h l of
        Undef \<Rightarrow> None
      | Ret (h, b) \<Rightarrow> pool_run put get l ops (h, if b = 0 then used else b # used))"
| "pool_run put get l (Release i # ops) (h, used) =
     (if i < length used then
        (case put h l (used ! i) of
           Some (Ret h) \<Rightarrow> pool_run put get l ops (h, take i used @ drop (Suc i) used)
         | _ \<Rightarrow> None)
      else pool_run put get l ops (h, used))"

locale block_store =
  fixes rep :: "heap \<Rightarrow> addr \<Rightarrow> addr list \<Rightarrow> bool"
    and put :: "heap \<Rightarrow> addr \<Rightarrow> addr \<Rightarrow> heap result"
    and get :: "heap \<Rightarrow> addr \<Rightarrow> (heap \<times> addr) outcome"
  assumes rep_wf: "rep h l xs \<Longrightarrow> distinct (l # xs) \<and> l \<noteq> 0 \<and> 0 \<notin> set xs \<and> set (l # xs) \<subseteq> dom h"
    and put_rep: "rep h l xs \<Longrightarrow> x \<in> dom h \<Longrightarrow> x \<notin> {0, l} \<Longrightarrow> x \<notin> set xs \<Longrightarrow>
      \<exists>h'. put h l x = Some (Ret h') \<and> rep h' l (x # xs) \<and> dom h' = dom h"
    and get_Nil: "rep h l [] \<Longrightarrow> get h l = Ret (h, 0)"
    and get_Cons: "rep h l (x # xs) \<Longrightarrow> \<exists>h'. get h l = Ret (h', x) \<and> rep h' l xs \<and> dom h' = dom h"
begin

lemma put_get:
  assumes "rep h l xs" "x \<in> dom h" "x \<notin> {0, l}" "x \<notin> set xs"
  shows "\<exists>h' h''. put h l x = Some (Ret h') \<and> get h' l = Ret (h'', x) \<and> rep h'' l xs"
  using put_rep [OF assms] get_Cons by blast

text \<open>Free blocks and blocks in use are always the blocks of the beginning, each once.\<close>

lemma run_partition:
  assumes "rep h l free" "distinct (l # free @ used)" "0 \<notin> set used" "set used \<subseteq> dom h"
  shows "\<exists>h' free' used'. pool_run put get l ops (h, used) = Some (h', used') \<and> rep h' l free' \<and>
    distinct (l # free' @ used') \<and> set (free' @ used') = set (free @ used)"
  using assms
proof (induction ops arbitrary: h free used)
  case Nil
  then show ?case by auto
next
  case (Cons oper ops)
  show ?case
  proof (cases oper)
    case Alloc
    show ?thesis
    proof (cases free)
      case Nil
      then have "get h l = Ret (h, 0)" using get_Nil Cons.prems(1) by simp
      with Cons.IH [OF Cons.prems] Alloc show ?thesis by simp
    next
      case (Cons b free')
      obtain h' where h': "get h l = Ret (h', b)" "rep h' l free'" "dom h' = dom h"
        using get_Cons Cons.prems(1) Cons by blast
      have "b \<noteq> 0" "b \<in> dom h" using rep_wf [OF Cons.prems(1)] Cons by auto
      moreover have "distinct (l # free' @ b # used)" using Cons.prems(2) Cons by auto
      ultimately have "\<exists>h'' free'' used''. pool_run put get l ops (h', b # used) = Some (h'', used'') \<and> rep h'' l free'' \<and>
          distinct (l # free'' @ used'') \<and> set (free'' @ used'') = set (free' @ b # used)"
        using Cons.prems(3,4) h' by (intro Cons.IH) auto
      then show ?thesis using h'(1) \<open>b \<noteq> 0\<close> Cons Alloc by (auto 0 3)
    qed
  next
    case (Release i)
    show ?thesis
    proof (cases "i < length used")
      case True
      let ?rest = "take i used @ drop (Suc i) used"
      have u: "used = take i used @ used ! i # drop (Suc i) used" by (rule id_take_nth_drop [OF True])
      then have "distinct (l # free @ take i used @ used ! i # drop (Suc i) used)" using Cons.prems(2) by metis
      then have d: "used ! i \<noteq> l" "used ! i \<notin> set free" "distinct (l # (used ! i # free) @ ?rest)" by auto
      have "used ! i \<in> set used" using True by simp
      then have "used ! i \<noteq> 0" "used ! i \<in> dom h" using Cons.prems(3,4) by (metis, blast)
      then obtain h' where h': "put h l (used ! i) = Some (Ret h')" "rep h' l (used ! i # free)" "dom h' = dom h"
        using put_rep [OF Cons.prems(1), of "used ! i"] d by auto
      have sub: "set ?rest \<subseteq> set used" using set_take_subset [of i used] set_drop_subset [of "Suc i" used] by auto
      have "\<exists>h'' free'' used''. pool_run put get l ops (h', ?rest) = Some (h'', used'') \<and> rep h'' l free'' \<and>
          distinct (l # free'' @ used'') \<and> set (free'' @ used'') = set ((used ! i # free) @ ?rest)"
        using d(3) h'(2,3) sub Cons.prems(3,4) by (intro Cons.IH) auto
      moreover have "set ((used ! i # free) @ ?rest) = set (free @ used)" by (subst (4) u) auto
      ultimately show ?thesis using h'(1) Release True by simp
    next
      case False
      then show ?thesis using Cons Release by simp
    qed
  qed
qed

end

subsection \<open>The pool and the linked list are such stores\<close>

lemma scan_loop_chain:
  "chain h p xs \<Longrightarrow> node \<notin> set xs \<or> \<not> asserts \<Longrightarrow> scan_loop asserts h node p = Some (Ret ())"
  by (induction xs arbitrary: p) (subst scan_loop.simps, auto simp: chain_ld ld_def split: if_splits)+

lemma pool_free:
  assumes "list_at h pool xs" "block \<in> dom h" "block \<noteq> 0" "block \<noteq> pool" "block \<notin> set xs \<or> \<not> asserts"
  shows "btstack_memory_pool_free asserts h pool block = Some (Ret (h(block := h pool, pool \<mapsto> block)))"
proof -
  obtain p where p: "ld h pool = Ret p" "chain h p xs" using assms(1) by (auto simp: list_at_ld)
  then show ?thesis
    using assms(2-4) scan_loop_chain [OF p(2) assms(5)]
    by (auto simp: btstack_memory_pool_free_def st_def ld_def split: if_splits option.splits)
qed

lemma pool_get_pop: "btstack_memory_pool_get h pool = btstack_linked_list_pop h pool"
  by (simp add: btstack_memory_pool_get_def btstack_linked_list_pop_def)

lemma list_at_wf: "list_at h l xs \<Longrightarrow> distinct (l # xs) \<and> l \<noteq> 0 \<and> 0 \<notin> set xs \<and> set (l # xs) \<subseteq> dom h"
  using list_at_distinct [of h l xs] chain_dom [of h l "l # xs"] by (auto simp: list_at_def)

lemma list_get_Cons:
  "list_at h l (x # xs) \<Longrightarrow> \<exists>h'. btstack_linked_list_pop h l = Ret (h', x) \<and> list_at h' l xs \<and> dom h' = dom h"
  using list_pop(1) [of h l "x # xs"] list_pop(2) [of h l "x # xs", OF _ refl] by (simp del: dom_fun_upd)

lemma list_push_dom:
  "l \<in> dom h \<Longrightarrow> x \<in> dom h \<Longrightarrow> dom (h(x := h l, l \<mapsto> x)) = dom h"
  by auto

interpretation pool: block_store list_at "btstack_memory_pool_free asserts" btstack_memory_pool_get
proof
  show "\<exists>h'. btstack_memory_pool_free asserts h l x = Some (Ret h') \<and> list_at h' l (x # xs) \<and> dom h' = dom h"
    if "list_at h l xs" "x \<in> dom h" "x \<notin> {0, l}" "x \<notin> set xs" for h l xs x
    using that pool_free [of h l xs x asserts] list_add(2) [of h l xs x] list_at_wf [OF that(1)] list_push_dom [of l h x]
    by (auto simp del: dom_fun_upd fun_upd_apply)
  show "\<exists>h'. btstack_memory_pool_get h l = Ret (h', x) \<and> list_at h' l xs \<and> dom h' = dom h"
    if "list_at h l (x # xs)" for h l x xs
    using list_get_Cons [OF that] by (simp add: pool_get_pop)
qed (rule list_at_wf, assumption, simp add: pool_get_pop list_pop(1))

text \<open>\<open>btstack_linked_list_add\<close> without its result.\<close>

definition list_push :: "heap \<Rightarrow> addr \<Rightarrow> addr \<Rightarrow> heap result" where
  "list_push h l x = map_option (\<lambda>r. bind_outcome r (\<lambda>(h, _). Ret h)) (btstack_linked_list_add h l x)"

interpretation stack: block_store list_at list_push btstack_linked_list_pop
proof
  show "\<exists>h'. list_push h l x = Some (Ret h') \<and> list_at h' l (x # xs) \<and> dom h' = dom h"
    if "list_at h l xs" "x \<in> dom h" "x \<notin> {0, l}" "x \<notin> set xs" for h l xs x
    using that list_add [of h l xs x] list_at_wf [OF that(1)] list_push_dom [of l h x]
    by (auto simp: list_push_def simp del: dom_fun_upd fun_upd_apply)
qed (rule list_at_wf, assumption, simp add: list_pop(1), rule list_get_Cons)

text \<open>Creation threads all blocks of the storage.\<close>

definition blocks :: "addr \<Rightarrow> nat \<Rightarrow> nat \<Rightarrow> addr list" where
  "blocks storage count block_size = map (\<lambda>i. storage + i * block_size) [0..<count]"

lemma blocks_Suc: "blocks s (Suc n) k = s # blocks (s + k) n k"
  by (simp add: blocks_def upt_conv_Cons map_Suc_upt [symmetric] o_def del: upt_Suc)

lemma create_loop_list:
  assumes "list_at h pool xs" "distinct (blocks p n k @ xs)" "0 \<notin> set (blocks p n k)" "pool \<notin> set (blocks p n k)"
    "set (blocks p n k) \<subseteq> dom h"
  shows "\<exists>h'. create_loop asserts h pool p n k = Some (Ret h') \<and> list_at h' pool (rev (blocks p n k) @ xs) \<and> dom h' = dom h"
  using assms
proof (induction n arbitrary: h p xs)
  case 0
  then show ?case by (simp add: blocks_def)
next
  case (Suc n)
  obtain h1 where h1: "btstack_memory_pool_free asserts h pool p = Some (Ret h1)" "list_at h1 pool (p # xs)" "dom h1 = dom h"
    using pool.put_rep [where asserts = asserts, OF Suc.prems(1), of p] Suc.prems by (auto simp: blocks_Suc)
  have "\<exists>h'. create_loop asserts h1 pool (p + k) n k = Some (Ret h') \<and>
      list_at h' pool (rev (blocks (p + k) n k) @ p # xs) \<and> dom h' = dom h1"
    using Suc.prems h1(2,3) by (intro Suc.IH) (auto simp: blocks_Suc)
  with h1 show ?case by (auto simp: blocks_Suc)
qed

lemma distinct_blocks: "k > 0 \<Longrightarrow> distinct (blocks p n k)"
  by (auto simp: blocks_def distinct_map inj_on_def)

lemma pool_create:
  assumes "pool \<in> dom h" "pool \<noteq> 0" "k > 0" "p > 0" "pool \<notin> set (blocks p n k)" "set (blocks p n k) \<subseteq> dom h"
  shows "\<exists>h'. btstack_memory_pool_create asserts h pool p n k = Some (Ret h') \<and>
    list_at h' pool (rev (blocks p n k)) \<and> dom h' = dom h"
proof -
  have "list_at (h(pool \<mapsto> 0)) pool []" using assms(2) by (simp add: list_at_def chain_Cons)
  moreover have "dom (h(pool \<mapsto> 0)) = dom h" using assms(1) by auto
  moreover have "0 \<notin> set (blocks p n k)" using assms(4) by (auto simp: blocks_def)
  ultimately show ?thesis
    using create_loop_list [of "h(pool \<mapsto> 0)" pool "[]" p n k asserts] distinct_blocks [OF assms(3)] assms
    by (simp add: btstack_memory_pool_create_def st_Ret del: dom_fun_upd fun_upd_apply)
qed

subsection \<open>Properties\<close>

lemma scan_loop_found:
  "chain h p xs \<Longrightarrow> node \<in> set xs \<Longrightarrow> scan_loop True h node p = Some Undef"
  by (induction xs arbitrary: p) (subst scan_loop.simps, auto simp: chain_ld ld_def split: if_splits)+

text \<open>A concrete store: the list variable 1 with the items 2 and 3, and the free items 4 and 5.\<close>

definition toy_heap :: heap where
  "toy_heap = [1 \<mapsto> 2, 2 \<mapsto> 3, 3 \<mapsto> 0, 4 \<mapsto> 0, 5 \<mapsto> 0]"

lemma toy_heap_list: "list_at toy_heap 1 [2, 3]" "list_at toy_heap 4 []"
  by (simp_all add: toy_heap_def list_at_def chain_Cons)

lemma toy_heap_dom: "4 \<in> dom toy_heap" "5 \<in> dom toy_heap" "1 \<in> dom toy_heap"
  by (simp_all add: toy_heap_def dom_def)

text \<open>
  C13. The linked list implements a list.  On a store that holds the list \<open>xs\<close>, adding at
  either end, removing, popping and the queries end without an invalid access, have the
  effect and the result of the same operation on \<open>xs\<close>, and an item is never linked twice.  An
  iteration that removes items, through the iterator or with \<open>btstack_linked_list_remove\<close>, hands out
  every item once, in order, and leaves the items that were not removed.  No operation changes an
  object other than the list, its items and the item that is added.
\<close>

theorem linked_list_refines:
  assumes "list_at h l xs" "item \<in> dom h" "item \<notin> {0, l}"
  shows "(\<exists>h'. btstack_linked_list_add h l item = Some (Ret (h', item \<notin> set xs)) \<and>
      list_at h' l (if item \<in> set xs then xs else item # xs) \<and> (\<forall>a. a \<notin> set (l # item # xs) \<longrightarrow> h' a = h a)) \<and>
    (\<exists>h'. btstack_linked_list_add_tail h l item = Some (Ret (h', item \<notin> set xs)) \<and>
      list_at h' l (if item \<in> set xs then xs else xs @ [item]) \<and> (\<forall>a. a \<notin> set (l # item # xs) \<longrightarrow> h' a = h a)) \<and>
    (\<exists>h'. btstack_linked_list_remove h l item = Some (Ret (h', item \<in> set xs)) \<and> list_at h' l (remove1 item xs) \<and>
      (\<forall>a. a \<notin> set (l # xs) \<or> a = item \<longrightarrow> h' a = h a)) \<and>
    (\<exists>h'. btstack_linked_list_pop h l = Ret (h', if xs = [] then 0 else hd xs) \<and> list_at h' l (tl xs) \<and>
      (\<forall>a. a \<noteq> l \<longrightarrow> h' a = h a)) \<and>
    btstack_linked_list_empty h l = Ret (xs = []) \<and>
    btstack_linked_list_get_first_item h l = Ret (if xs = [] then 0 else hd xs) \<and>
    btstack_linked_list_get_last_item h l = Some (Ret (if xs = [] then 0 else last xs)) \<and>
    btstack_linked_list_count h l = Some (Ret (length xs)) \<and>
    (\<exists>it. btstack_linked_list_iterator_init h l = Ret it \<and>
      (\<forall>own P. \<exists>h'. sweep own (Suc (length xs)) P h l it = Some (Ret (h', xs)) \<and> list_at h' l (filter (\<lambda>c. \<not> P c) xs) \<and>
        (\<forall>a. a \<notin> set (l # xs) \<longrightarrow> h' a = h a)))"
proof (intro conjI)
  show "\<exists>h'. btstack_linked_list_add h l item = Some (Ret (h', item \<notin> set xs)) \<and>
      list_at h' l (if item \<in> set xs then xs else item # xs) \<and> (\<forall>a. a \<notin> set (l # item # xs) \<longrightarrow> h' a = h a)"
  proof (cases "item \<in> set xs")
    case False
    let ?h = "h(item := h l, l \<mapsto> item)"
    have "btstack_linked_list_add h l item = Some (Ret (?h, True))" "list_at ?h l (item # xs)"
      using list_add [OF assms(1,2)] assms(3) False by (simp_all del: fun_upd_apply)
    moreover have "\<forall>a. a \<notin> set (l # item # xs) \<longrightarrow> ?h a = h a" by simp
    ultimately show ?thesis using False by (auto simp del: fun_upd_apply)
  qed (use list_add [OF assms(1,2)] assms(1,3) in auto)
  show "\<exists>h'. btstack_linked_list_add_tail h l item = Some (Ret (h', item \<notin> set xs)) \<and>
      list_at h' l (if item \<in> set xs then xs else xs @ [item]) \<and> (\<forall>a. a \<notin> set (l # item # xs) \<longrightarrow> h' a = h a)"
    using list_add_tail [OF assms(1,2)] assms(3) by (metis insertCI)
  show "\<exists>h'. btstack_linked_list_remove h l item = Some (Ret (h', item \<in> set xs)) \<and> list_at h' l (remove1 item xs) \<and>
      (\<forall>a. a \<notin> set (l # xs) \<or> a = item \<longrightarrow> h' a = h a)"
    using list_remove [OF assms(1), of item] by blast
  show "\<exists>h'. btstack_linked_list_pop h l = Ret (h', if xs = [] then 0 else hd xs) \<and> list_at h' l (tl xs) \<and>
      (\<forall>a. a \<noteq> l \<longrightarrow> h' a = h a)"
  proof (cases xs)
    case (Cons x ys)
    have "btstack_linked_list_pop h l = Ret (h(l := h x), x)" "list_at (h(l := h x)) l ys"
      using list_pop [OF assms(1)] Cons by (simp_all del: fun_upd_apply)
    moreover have "\<forall>a. a \<noteq> l \<longrightarrow> (h(l := h x)) a = h a" by simp
    ultimately show ?thesis using Cons by (auto simp del: fun_upd_apply)
  qed (use list_pop [OF assms(1)] assms(1) in auto)
  obtain it where "btstack_linked_list_iterator_init h l = Ret it" "iter_at l it [] xs" by (rule iter_init [OF assms(1)])
  then show "\<exists>it. btstack_linked_list_iterator_init h l = Ret it \<and>
      (\<forall>own P. \<exists>h'. sweep own (Suc (length xs)) P h l it = Some (Ret (h', xs)) \<and> list_at h' l (filter (\<lambda>c. \<not> P c) xs) \<and>
        (\<forall>a. a \<notin> set (l # xs) \<longrightarrow> h' a = h a))"
    using sweep_visits [of h l "[]" xs it "Suc (length xs)"] assms(1) by auto
qed (simp_all only: list_queries [OF assms(1)])

theorem linked_list_refines_witness:
  "\<exists>h'. btstack_linked_list_add toy_heap 1 5 = Some (Ret (h', True)) \<and> list_at h' 1 [5, 2, 3]"
  using linked_list_refines [OF toy_heap_list(1) toy_heap_dom(2)] by auto

text \<open>
  C14. A pool never hands out a block twice.  After creation over a storage of \<open>n\<close> blocks, any
  sequence of allocations and releases of blocks in use runs without an invalid access; the
  blocks in use are different blocks of the storage, and \<open>get\<close> returns NULL exactly when all
  \<open>n\<close> are in use.
\<close>

theorem pool_blocks_exclusive:
  assumes "pool \<in> dom h" "pool \<noteq> 0" "k > 0" "p > 0" "pool \<notin> set (blocks p n k)" "set (blocks p n k) \<subseteq> dom h"
  shows "\<exists>h0 h' used. btstack_memory_pool_create asserts h pool p n k = Some (Ret h0) \<and>
    pool_run (btstack_memory_pool_free asserts) btstack_memory_pool_get pool ops (h0, []) = Some (h', used) \<and>
    distinct used \<and> set used \<subseteq> set (blocks p n k) \<and>
    ((\<exists>h''. btstack_memory_pool_get h' pool = Ret (h'', 0)) \<longleftrightarrow> length used = n)"
proof -
  obtain h0 where h0: "btstack_memory_pool_create asserts h pool p n k = Some (Ret h0)"
      "list_at h0 pool (rev (blocks p n k))" using pool_create [OF assms] by blast
  obtain h' free used where r: "pool_run (btstack_memory_pool_free asserts) btstack_memory_pool_get pool ops (h0, []) = Some (h', used)"
      "list_at h' pool free" "distinct (pool # free @ used)" "set (free @ used) = set (rev (blocks p n k) @ [])"
    using pool.run_partition [OF h0(2), of "[]" asserts ops] list_at_wf [OF h0(2)] by auto
  have "length (free @ used) = n"
    using distinct_card [of "free @ used"] distinct_card [OF distinct_blocks [OF assms(3)], of p n] r(3,4)
    by (simp add: blocks_def)
  moreover have "(\<exists>h''. btstack_memory_pool_get h' pool = Ret (h'', 0)) \<longleftrightarrow> free = []"
    using pool.get_Nil [of h' pool] pool.get_Cons [of h' pool] list_at_wf [OF r(2)] r(2)
    by (cases free) fastforce+
  ultimately show ?thesis using h0(1) r by auto
qed

theorem pool_blocks_exclusive_witness:
  "\<exists>h0 h' used. btstack_memory_pool_create False (\<lambda>_. Some 0) 1 100 3 16 = Some (Ret h0) \<and>
     pool_run (btstack_memory_pool_free False) btstack_memory_pool_get 1 [Alloc, Alloc, Release 0, Alloc, Alloc, Alloc] (h0, []) = Some (h', used) \<and>
     distinct used \<and> set used \<subseteq> set (blocks 100 3 16) \<and>
     ((\<exists>h''. btstack_memory_pool_get h' 1 = Ret (h'', 0)) \<longleftrightarrow> length used = 3)"
  by (rule pool_blocks_exclusive) (auto simp: blocks_def)

text \<open>
  A block that is released twice is handed out twice when assertions are off, as in the
  iOS configuration; with assertions on, the second release stops the program.
\<close>

theorem double_release_shares_block:
  assumes "list_at h pool xs" "block \<in> dom h" "block \<notin> {0, pool}" "block \<notin> set xs"
  shows "\<exists>h1 h2 h3 h4. btstack_memory_pool_free False h pool block = Some (Ret h1) \<and>
    btstack_memory_pool_free True h1 pool block = Some Undef \<and>
    btstack_memory_pool_free False h1 pool block = Some (Ret h2) \<and>
    btstack_memory_pool_get h2 pool = Ret (h3, block) \<and> btstack_memory_pool_get h3 pool = Ret (h4, block)"
proof -
  let ?h1 = "h(block := h pool, pool \<mapsto> block)"
  let ?h2 = "?h1(block := ?h1 pool, pool \<mapsto> block)"
  have wf: "pool \<noteq> 0" "pool \<in> dom h" using list_at_wf [OF assms(1)] by auto
  have h1: "btstack_memory_pool_free False h pool block = Some (Ret ?h1)"
    using pool_free [OF assms(1,2)] assms(3,4) by simp
  have l1: "list_at ?h1 pool (block # xs)" using list_add(2) [OF assms(1,2)] assms(3,4) by simp
  have dom: "block \<in> dom ?h1" "pool \<in> dom ?h1" using wf(2) by (auto simp: dom_def)
  have h2: "btstack_memory_pool_free False ?h1 pool block = Some (Ret ?h2)"
    using pool_free [where asserts = False, OF l1 dom(1)] assms(3) by simp
  obtain q where q: "ld ?h1 pool = Ret q" "chain ?h1 q (block # xs)" using l1 by (auto simp: list_at_ld)
  then have "btstack_memory_pool_free True ?h1 pool block = Some Undef"
    by (simp add: btstack_memory_pool_free_def scan_loop_found [OF q(2)] del: fun_upd_apply)
  moreover have "btstack_memory_pool_get ?h2 pool = Ret (?h2(pool \<mapsto> block), block)"
    "btstack_memory_pool_get (?h2(pool \<mapsto> block)) pool = Ret (?h2(pool \<mapsto> block), block)"
    using wf assms(3) by (auto simp: btstack_memory_pool_get_def ld_def st_def)
  ultimately show ?thesis using h1 h2 by blast
qed

theorem double_release_shares_block_witness:
  "\<exists>h1 h2 h3 h4. btstack_memory_pool_free False toy_heap 4 5 = Some (Ret h1) \<and>
     btstack_memory_pool_free True h1 4 5 = Some Undef \<and>
     btstack_memory_pool_free False h1 4 5 = Some (Ret h2) \<and>
     btstack_memory_pool_get h2 4 = Ret (h3, 5) \<and> btstack_memory_pool_get h3 4 = Ret (h4, 5)"
  by (rule double_release_shares_block [OF toy_heap_list(2) toy_heap_dom(2)]) simp_all

end
