(* ===== verification/Sdp.thy ===== *)
theory Sdp
  imports Util
begin

text \<open>
  \<^verbatim>\<open>btstack-rootless/src/classic/sdp_util.c\<close>: SDP data elements.  An element is a pointer \<open>p\<close>
  into an object \<open>m\<close>; types and size classes are the bytes of the header.  A traversal gets its
  callback as a function on the callback's context.  A C \<open>int\<close> has 32 bits: a length computed
  as \<open>uint32_t\<close> may become negative or zero, so the loop of a traversal need not end; \<open>n\<close> is its
  fuel, and the result is \<open>None\<close> while it runs.
\<close>

subsection \<open>Headers\<close>

abbreviation (input) DE_NIL :: byte where "DE_NIL \<equiv> 0"
abbreviation (input) DE_UINT :: byte where "DE_UINT \<equiv> 1"
abbreviation (input) DE_UUID :: byte where "DE_UUID \<equiv> 3"
abbreviation (input) DE_STRING :: byte where "DE_STRING \<equiv> 4"
abbreviation (input) DE_DES :: byte where "DE_DES \<equiv> 6"
abbreviation (input) DE_SIZE_8 :: byte where "DE_SIZE_8 \<equiv> 0"
abbreviation (input) DE_SIZE_16 :: byte where "DE_SIZE_16 \<equiv> 1"
abbreviation (input) DE_SIZE_32 :: byte where "DE_SIZE_32 \<equiv> 2"
abbreviation (input) DE_SIZE_128 :: byte where "DE_SIZE_128 \<equiv> 4"
abbreviation (input) DE_SIZE_VAR_8 :: byte where "DE_SIZE_VAR_8 \<equiv> 5"
abbreviation (input) DE_SIZE_VAR_16 :: byte where "DE_SIZE_VAR_16 \<equiv> 6"
abbreviation (input) DE_SIZE_VAR_32 :: byte where "DE_SIZE_VAR_32 \<equiv> 7"

definition de_get_size_type :: "bytes \<Rightarrow> int \<Rightarrow> byte outcome" where
  "de_get_size_type m p = bind_outcome (rd m p) (\<lambda>b. Ret (b AND 7))"

definition de_get_element_type :: "bytes \<Rightarrow> int \<Rightarrow> byte outcome" where
  "de_get_element_type m p = bind_outcome (rd m p) (\<lambda>b. Ret (drop_bit 3 b))"

definition de_get_header_size :: "bytes \<Rightarrow> int \<Rightarrow> u32 outcome" where
  "de_get_header_size m p =
     bind_outcome (de_get_size_type m p) (\<lambda>de_size.
     if de_size \<le> DE_SIZE_128 then Ret 1 else Ret (1 + push_bit (unat (de_size - DE_SIZE_VAR_8)) 1))"

definition de_get_data_size :: "bytes \<Rightarrow> int \<Rightarrow> u32 outcome" where
  "de_get_data_size m p =
     bind_outcome (de_get_element_type m p) (\<lambda>de_type.
     bind_outcome (de_get_size_type m p) (\<lambda>de_size.
     if de_size = DE_SIZE_VAR_8 then bind_outcome (rd m (p + 1)) (\<lambda>b. Ret (ucast b))
     else if de_size = DE_SIZE_VAR_16 then big_endian_read_16 m p 1
     else if de_size = DE_SIZE_VAR_32 then big_endian_read_32 m p 1
     else if de_type = DE_NIL then Ret 0
     else Ret (push_bit (unat de_size) 1)))"

text \<open>The sum of two \<open>uint32_t\<close> returned as \<open>int\<close>.\<close>

definition de_get_len :: "bytes \<Rightarrow> int \<Rightarrow> int outcome" where
  "de_get_len m p =
     bind_outcome (de_get_header_size m p) (\<lambda>h.
     bind_outcome (de_get_data_size m p) (\<lambda>d. Ret (sint (h + d))))"

definition de_get_len_safe :: "bytes \<Rightarrow> int \<Rightarrow> u32 \<Rightarrow> u32 outcome" where
  "de_get_len_safe m p sz =
     (if 1 > sz then Ret 0
      else bind_outcome (de_get_header_size m p) (\<lambda>header_size.
      if header_size > sz then Ret 0
      else bind_outcome (de_get_data_size m p) (\<lambda>data_size.
      if data_size > sz then Ret 0
      else let de_len = header_size + data_size in
        if de_len > sz then Ret 0 else Ret de_len)))"

text \<open>\<open>Some\<close> is result 1 and the value stored.\<close>

definition de_element_get_uint16 :: "bytes \<Rightarrow> int \<Rightarrow> u16 option outcome" where
  "de_element_get_uint16 m p =
     bind_outcome (de_get_size_type m p) (\<lambda>sz.
     if sz \<noteq> DE_SIZE_16 then Ret None
     else bind_outcome (de_get_header_size m p) (\<lambda>h.
       bind_outcome (big_endian_read_16 m p (uint h)) (\<lambda>v. Ret (Some (ucast v)))))"

text \<open>\<open>Some\<close> is result 1 and the 16 bytes stored in \<open>uuid128\<close>.\<close>

definition de_get_normalized_uuid :: "bytes \<Rightarrow> int \<Rightarrow> bytes option outcome" where
  "de_get_normalized_uuid m p =
     bind_outcome (de_get_element_type m p) (\<lambda>uuidType.
     bind_outcome (de_get_size_type m p) (\<lambda>uuidSize.
     if uuidType \<noteq> DE_UUID then Ret None
     else if uuidSize = DE_SIZE_128 then bind_outcome (rd_block m (p + 1) 16) (\<lambda>bs. Ret (Some bs))
     else if uuidSize = DE_SIZE_16 \<or> uuidSize = DE_SIZE_32 then
       bind_outcome (if uuidSize = DE_SIZE_16 then big_endian_read_16 m p 1 else big_endian_read_32 m p 1)
         (\<lambda>shortUUID.
       bind_outcome (uuid_add_bluetooth_prefix (replicate 16 0) 0 shortUUID) (\<lambda>uuid128. Ret (Some uuid128)))
     else Ret None))"

definition de_get_uuid32 :: "bytes \<Rightarrow> int \<Rightarrow> u32 outcome" where
  "de_get_uuid32 m p =
     bind_outcome (de_get_normalized_uuid m p) (\<lambda>valid.
     case valid of
       None \<Rightarrow> Ret 0
     | Some uuid128 \<Rightarrow>
         bind_outcome (uuid_has_bluetooth_prefix uuid128 0) (\<lambda>has.
         if \<not> has then Ret 0 else big_endian_read_32 uuid128 0 0))"

text \<open>The pointer to the string, or NULL.\<close>

definition de_get_string :: "bytes \<Rightarrow> int \<Rightarrow> int option outcome" where
  "de_get_string m p =
     bind_outcome (de_get_element_type m p) (\<lambda>ty.
     if ty \<noteq> DE_STRING then Ret None
     else bind_outcome (de_get_header_size m p) (\<lambda>h. Ret (Some (p + uint h))))"

subsection \<open>Building elements\<close>

definition de_store_descriptor :: "bytes \<Rightarrow> int \<Rightarrow> byte \<Rightarrow> byte \<Rightarrow> bytes outcome" where
  "de_store_descriptor m header ty sz = wr m header (push_bit 3 ty OR sz)"

definition de_store_descriptor_with_len :: "bytes \<Rightarrow> int \<Rightarrow> byte \<Rightarrow> byte \<Rightarrow> u32 \<Rightarrow> bytes outcome" where
  "de_store_descriptor_with_len m header ty sz len =
     bind_outcome (wr m header (push_bit 3 ty OR sz)) (\<lambda>m.
     if sz = DE_SIZE_VAR_8 then wr m (header + 1) (ucast len)
     else if sz = DE_SIZE_VAR_16 then big_endian_store_16 m header 1 (ucast len)
     else if sz = DE_SIZE_VAR_32 then big_endian_store_32 m header 1 len
     else Ret m)"

definition de_create_sequence :: "bytes \<Rightarrow> int \<Rightarrow> bytes outcome" where
  "de_create_sequence m header = de_store_descriptor_with_len m header DE_DES DE_SIZE_VAR_16 0"

definition de_push_sequence :: "bytes \<Rightarrow> int \<Rightarrow> (bytes \<times> int) outcome" where
  "de_push_sequence m header =
     bind_outcome (de_get_len m header) (\<lambda>element_len.
     bind_outcome (de_store_descriptor_with_len m (header + element_len) DE_DES DE_SIZE_VAR_16 0) (\<lambda>m.
     Ret (m, header + element_len)))"

definition de_pop_sequence :: "bytes \<Rightarrow> int \<Rightarrow> int \<Rightarrow> bytes outcome" where
  "de_pop_sequence m parent child =
     bind_outcome (de_get_len m child) (\<lambda>child_len.
     bind_outcome (big_endian_read_16 m parent 1) (\<lambda>data_size_parent.
     big_endian_store_16 m parent 1 (word_of_int (uint data_size_parent + child_len))))"

text \<open>The offset \<open>4 + data_size\<close> of a store becomes a \<open>uint16_t\<close>.\<close>

definition de_add_number :: "bytes \<Rightarrow> int \<Rightarrow> byte \<Rightarrow> byte \<Rightarrow> u32 \<Rightarrow> bytes outcome" where
  "de_add_number m seq ty sz v =
     bind_outcome (big_endian_read_16 m seq 1) (\<lambda>ds.
     let data_size = uint ds in
     bind_outcome (de_store_descriptor m (seq + 3 + data_size) ty sz) (\<lambda>m.
     bind_outcome
       (if sz = DE_SIZE_8 then
          if ty \<noteq> DE_NIL then bind_outcome (wr m (seq + (4 + data_size)) (ucast v)) (\<lambda>m. Ret (m, 2))
          else Ret (m, 1)
        else if sz = DE_SIZE_16 then
          bind_outcome (big_endian_store_16 m seq (word_of_int (4 + data_size)) (ucast v)) (\<lambda>m. Ret (m, 3))
        else if sz = DE_SIZE_32 then
          bind_outcome (big_endian_store_32 m seq (word_of_int (4 + data_size)) v) (\<lambda>m. Ret (m, 5))
        else Ret (m, 1)) (\<lambda>(m, element_size).
     big_endian_store_16 m seq 1 (word_of_int (data_size + element_size)))))"

text \<open>\<open>data\<close> is another object.\<close>

definition de_add_data :: "bytes \<Rightarrow> int \<Rightarrow> byte \<Rightarrow> u16 \<Rightarrow> bytes \<Rightarrow> bytes outcome" where
  "de_add_data m seq ty sz data =
     bind_outcome (big_endian_read_16 m seq 1) (\<lambda>ds.
     let data_size = uint ds in
     bind_outcome
       (if sz > 0xFF then
          bind_outcome (de_store_descriptor_with_len m (seq + 3 + data_size) ty DE_SIZE_VAR_16 (ucast sz)) (\<lambda>m.
          Ret (m, data_size + 3))
        else
          bind_outcome (de_store_descriptor_with_len m (seq + 3 + data_size) ty DE_SIZE_VAR_8 (ucast sz)) (\<lambda>m.
          Ret (m, data_size + 2))) (\<lambda>(m, data_size).
     bind_outcome
       (if sz > 0 then
          bind_outcome (rd_block data 0 (unat sz)) (\<lambda>bs.
          bind_outcome (wr_block m (seq + 3 + data_size) bs) (\<lambda>m. Ret (m, data_size + uint sz)))
        else Ret (m, data_size)) (\<lambda>(m, data_size).
     big_endian_store_16 m seq 1 (word_of_int data_size))))"

definition de_add_uuid128 :: "bytes \<Rightarrow> int \<Rightarrow> bytes \<Rightarrow> bytes outcome" where
  "de_add_uuid128 m seq uuid =
     bind_outcome (big_endian_read_16 m seq 1) (\<lambda>ds.
     let data_size = uint ds in
     bind_outcome (de_store_descriptor m (seq + 3 + data_size) DE_UUID DE_SIZE_128) (\<lambda>m.
     bind_outcome (rd_block uuid 0 16) (\<lambda>bs.
     bind_outcome (wr_block m (seq + 4 + data_size) bs) (\<lambda>m.
     big_endian_store_16 m seq 1 (word_of_int (data_size + 1 + 16))))))"

subsection \<open>Iterator\<close>

record des_iterator =
  it_element :: int
  it_pos :: u16
  it_length :: u16

definition des_iterator_init :: "bytes \<Rightarrow> int \<Rightarrow> des_iterator option outcome" where
  "des_iterator_init m element =
     bind_outcome (de_get_element_type m element) (\<lambda>ty.
     if ty \<noteq> DE_DES then Ret None
     else bind_outcome (de_get_header_size m element) (\<lambda>h.
       bind_outcome (de_get_len m element) (\<lambda>len.
       Ret (Some \<lparr>it_element = element, it_pos = ucast h, it_length = word_of_int len\<rparr>))))"

definition des_iterator_get_type :: "bytes \<Rightarrow> des_iterator \<Rightarrow> byte outcome" where
  "des_iterator_get_type m it = de_get_element_type m (it_element it + uint (it_pos it))"

definition des_iterator_get_size :: "bytes \<Rightarrow> des_iterator \<Rightarrow> u16 outcome" where
  "des_iterator_get_size m it =
     bind_outcome (de_get_len m (it_element it + uint (it_pos it))) (\<lambda>len.
     bind_outcome (de_get_header_size m (it_element it + uint (it_pos it))) (\<lambda>h.
     Ret (word_of_int (len - uint h))))"

definition des_iterator_has_more :: "des_iterator \<Rightarrow> bool" where
  "des_iterator_has_more it = (it_pos it < it_length it)"

definition des_iterator_get_element :: "des_iterator \<Rightarrow> int option" where
  "des_iterator_get_element it =
     (if \<not> des_iterator_has_more it then None else Some (it_element it + uint (it_pos it)))"

definition des_iterator_next :: "bytes \<Rightarrow> des_iterator \<Rightarrow> des_iterator outcome" where
  "des_iterator_next m it =
     bind_outcome (de_get_len m (it_element it + uint (it_pos it))) (\<lambda>element_len.
     Ret (it\<lparr>it_pos := word_of_int (uint (it_pos it) + element_len)\<rparr>))"


subsection \<open>Traversals\<close>

text \<open>\<open>a + b\<close> on \<open>int\<close>.\<close>

definition add_int :: "int \<Rightarrow> int \<Rightarrow> int outcome" where
  "add_int a b = (if - 2147483648 \<le> a + b \<and> a + b \<le> 2147483647 then Ret (a + b) else Undef)"

text \<open>
  \<open>handler element type size context\<close> tells whether the traversal is done, and the new context;
  \<open>mem\<close> reads the traversed object from the context, for callbacks that write to it.
\<close>

fun traverse_loop :: "nat \<Rightarrow> ('c \<Rightarrow> bytes) \<Rightarrow> int \<Rightarrow> int \<Rightarrow> int \<Rightarrow>
    (int \<Rightarrow> byte \<Rightarrow> byte \<Rightarrow> 'c \<Rightarrow> (bool \<times> 'c) result) \<Rightarrow> 'c \<Rightarrow> 'c result" where
  "traverse_loop 0 mem element pos end_pos handler c = None"
| "traverse_loop (Suc n) mem element pos end_pos handler c =
     (if pos < end_pos then
        bind_result (Some (de_get_element_type (mem c) (element + pos))) (\<lambda>elemType.
        bind_result (Some (de_get_size_type (mem c) (element + pos))) (\<lambda>elemSize.
        bind_result (handler (element + pos) elemType elemSize c) (\<lambda>(done, c).
        if done then Some (Ret c)
        else bind_result (Some (de_get_len (mem c) (element + pos))) (\<lambda>len.
          bind_result (Some (add_int pos len)) (\<lambda>pos.
          traverse_loop n mem element pos end_pos handler c)))))
      else Some (Ret c))"

definition de_traverse_sequence :: "nat \<Rightarrow> ('c \<Rightarrow> bytes) \<Rightarrow> int \<Rightarrow>
    (int \<Rightarrow> byte \<Rightarrow> byte \<Rightarrow> 'c \<Rightarrow> (bool \<times> 'c) result) \<Rightarrow> 'c \<Rightarrow> 'c result" where
  "de_traverse_sequence n mem element handler c =
     bind_result (Some (de_get_element_type (mem c) element)) (\<lambda>ty.
     if ty \<noteq> DE_DES then Some (Ret c)
     else bind_result (Some (de_get_header_size (mem c) element)) (\<lambda>pos.
       bind_result (Some (de_get_len (mem c) element)) (\<lambda>end_pos.
       traverse_loop n mem element (uint pos) end_pos handler c)))"

text \<open>\<open>handler attributeID value type size context\<close>.\<close>

fun attribute_loop :: "nat \<Rightarrow> ('c \<Rightarrow> bytes) \<Rightarrow> int \<Rightarrow> int \<Rightarrow> int \<Rightarrow>
    (u16 \<Rightarrow> int \<Rightarrow> byte \<Rightarrow> byte \<Rightarrow> 'c \<Rightarrow> (bool \<times> 'c) result) \<Rightarrow> 'c \<Rightarrow> 'c result" where
  "attribute_loop 0 mem element pos end_pos handler c = None"
| "attribute_loop (Suc n) mem element pos end_pos handler c =
     (if pos < end_pos then
        bind_result (Some (de_get_element_type (mem c) (element + pos))) (\<lambda>idType.
        bind_result (Some (de_get_size_type (mem c) (element + pos))) (\<lambda>idSize.
        if idType \<noteq> DE_UINT \<or> idSize \<noteq> DE_SIZE_16 then Some (Ret c)
        else bind_result (Some (big_endian_read_16 (mem c) element (pos + 1))) (\<lambda>attribute_id.
        bind_result (Some (add_int pos 3)) (\<lambda>pos.
        if pos \<ge> end_pos then Some (Ret c)
        else bind_result (Some (de_get_element_type (mem c) (element + pos))) (\<lambda>valueType.
        bind_result (Some (de_get_size_type (mem c) (element + pos))) (\<lambda>valueSize.
        bind_result (handler (ucast attribute_id) (element + pos) valueType valueSize c) (\<lambda>(done, c).
        if done then Some (Ret c)
        else bind_result (Some (de_get_len (mem c) (element + pos))) (\<lambda>len.
          bind_result (Some (add_int pos len)) (\<lambda>pos.
          attribute_loop n mem element pos end_pos handler c)))))))))
      else Some (Ret c))"

definition sdp_attribute_list_traverse_sequence :: "nat \<Rightarrow> ('c \<Rightarrow> bytes) \<Rightarrow> int \<Rightarrow>
    (u16 \<Rightarrow> int \<Rightarrow> byte \<Rightarrow> byte \<Rightarrow> 'c \<Rightarrow> (bool \<times> 'c) result) \<Rightarrow> 'c \<Rightarrow> 'c result" where
  "sdp_attribute_list_traverse_sequence n mem element handler c =
     bind_result (Some (de_get_element_type (mem c) element)) (\<lambda>ty.
     if ty \<noteq> DE_DES then Some (Ret c)
     else bind_result (Some (de_get_header_size (mem c) element)) (\<lambda>pos.
       bind_result (Some (de_get_len (mem c) element)) (\<lambda>end_pos.
       attribute_loop n mem element (uint pos) end_pos handler c)))"

subsection \<open>Attribute IDs in a list of IDs and ranges\<close>

definition sdp_traversal_attributeID_search ::
    "bytes \<Rightarrow> u16 \<Rightarrow> int \<Rightarrow> byte \<Rightarrow> byte \<Rightarrow> bool \<Rightarrow> (bool \<times> bool) result" where
  "sdp_traversal_attributeID_search m attributeID element ty sz res =
     (if ty \<noteq> DE_UINT then Some (Ret (False, res))
      else if sz = DE_SIZE_16 then
        bind_result (Some (big_endian_read_16 m element 1)) (\<lambda>v.
        if v = ucast attributeID then Some (Ret (True, True)) else Some (Ret (False, res)))
      else if sz = DE_SIZE_32 then
        bind_result (Some (big_endian_read_16 m element 1)) (\<lambda>a.
        if a \<le> ucast attributeID then
          bind_result (Some (big_endian_read_16 m element 3)) (\<lambda>b.
          if ucast attributeID \<le> b then Some (Ret (True, True)) else Some (Ret (False, res)))
        else Some (Ret (False, res)))
      else Some (Ret (False, res)))"

definition sdp_attribute_list_constains_id :: "nat \<Rightarrow> bytes \<Rightarrow> int \<Rightarrow> u16 \<Rightarrow> bool result" where
  "sdp_attribute_list_constains_id n m attributeIDList attributeID =
     de_traverse_sequence n (\<lambda>_. m) attributeIDList (sdp_traversal_attributeID_search m attributeID) False"

subsection \<open>Copying attributes\<close>

text \<open>A \<open>memcpy\<close> whose length is an \<open>int\<close>: a negative one becomes a huge \<open>size_t\<close>.\<close>

definition rd_len :: "bytes \<Rightarrow> int \<Rightarrow> int \<Rightarrow> bytes outcome" where
  "rd_len m p len = (if len < 0 then Undef else rd_block m p (nat len))"

text \<open>
  The context of \<open>sdp_append_attributes_in_attributeIDList\<close> that changes is the buffer
  (\<open>usedBytes\<close> is set to 0 and never touched again); \<open>am\<close>, \<open>ap\<close> are the list of IDs.
\<close>

definition sdp_traversal_append_attributes :: "nat \<Rightarrow> bytes \<Rightarrow> bytes \<Rightarrow> int \<Rightarrow> int \<Rightarrow> u16 \<Rightarrow>
    u16 \<Rightarrow> int \<Rightarrow> byte \<Rightarrow> byte \<Rightarrow> bytes \<Rightarrow> (bool \<times> bytes) result" where
  "sdp_traversal_append_attributes n m am ap buffer maxBytes attributeID attributeValue ty sz bm =
     bind_result (sdp_attribute_list_constains_id n am ap attributeID) (\<lambda>found.
     if found then
       bind_result (Some (big_endian_read_16 bm buffer 1)) (\<lambda>ds.
       bind_result (Some (de_get_len m attributeValue)) (\<lambda>attribute_len.
       if 3 + uint ds + (3 + attribute_len) \<le> uint maxBytes then
         bind_result (Some (de_add_number bm buffer DE_UINT DE_SIZE_16 (ucast attributeID))) (\<lambda>bm.
         let data_size = (ucast ds :: u16) + 3 in
         bind_result (Some (rd_len m attributeValue attribute_len)) (\<lambda>bs.
         bind_result (Some (wr_block bm (buffer + 3 + uint data_size) bs)) (\<lambda>bm.
         bind_result (Some (big_endian_store_16 bm buffer 1 (word_of_int (uint data_size + attribute_len)))) (\<lambda>bm.
         Some (Ret (False, bm))))))
       else Some (Ret (True, bm))))
     else Some (Ret (False, bm)))"

definition sdp_append_attributes_in_attributeIDList ::
    "nat \<Rightarrow> bytes \<Rightarrow> int \<Rightarrow> bytes \<Rightarrow> int \<Rightarrow> u16 \<Rightarrow> u16 \<Rightarrow> bytes \<Rightarrow> int \<Rightarrow> (bytes \<times> u16) result" where
  "sdp_append_attributes_in_attributeIDList n m record am ap startOffset maxBytes bm buffer =
     bind_result (sdp_attribute_list_traverse_sequence n (\<lambda>_. m) record
       (sdp_traversal_append_attributes n m am ap buffer maxBytes) bm) (\<lambda>bm. Some (Ret (bm, 0)))"

record filter_context =
  fc_mem :: bytes
  fc_buffer :: int
  fc_startOffset :: u16
  fc_maxBytes :: u16
  fc_usedBytes :: u16
  fc_complete :: bool

definition spd_append_range :: "filter_context \<Rightarrow> u16 \<Rightarrow> bytes \<Rightarrow> int \<Rightarrow> (bool \<times> filter_context) outcome" where
  "spd_append_range c len dm data =
     (let remainder_len = len - fc_startOffset c;
          ok = \<not> fc_maxBytes c < remainder_len;
          remainder_len = (if ok then remainder_len else fc_maxBytes c) in
      bind_outcome (rd_block dm (data + uint (fc_startOffset c)) (unat remainder_len)) (\<lambda>bs.
      bind_outcome (wr_block (fc_mem c) (fc_buffer c) bs) (\<lambda>bm.
      Ret (ok, c\<lparr>fc_mem := bm, fc_usedBytes := fc_usedBytes c + remainder_len,
                fc_buffer := fc_buffer c + uint remainder_len,
                fc_maxBytes := fc_maxBytes c - remainder_len, fc_startOffset := 0\<rparr>))))"

text \<open>The attribute ID in a local buffer of three bytes.\<close>

definition id_buffer :: "u16 \<Rightarrow> bytes outcome" where
  "id_buffer attributeID =
     bind_outcome (de_store_descriptor (replicate 3 0) 0 DE_UINT DE_SIZE_16) (\<lambda>b.
     big_endian_store_16 b 0 1 attributeID)"

definition sdp_traversal_filter_attributes :: "nat \<Rightarrow> bytes \<Rightarrow> bytes \<Rightarrow> int \<Rightarrow>
    u16 \<Rightarrow> int \<Rightarrow> byte \<Rightarrow> byte \<Rightarrow> filter_context \<Rightarrow> (bool \<times> filter_context) result" where
  "sdp_traversal_filter_attributes n m am ap attributeID attributeValue ty sz c =
     bind_result (sdp_attribute_list_constains_id n am ap attributeID) (\<lambda>found.
     if \<not> found then Some (Ret (False, c))
     else bind_result
       (if fc_startOffset c \<ge> 3 then Some (Ret (True, c\<lparr>fc_startOffset := fc_startOffset c - 3\<rparr>))
        else bind_result (Some (id_buffer attributeID)) (\<lambda>idBuffer. Some (spd_append_range c 3 idBuffer 0))) (\<lambda>(ok, c).
     if \<not> ok then Some (Ret (True, c\<lparr>fc_complete := False\<rparr>))
     else bind_result (Some (de_get_len m attributeValue)) (\<lambda>attribute_len.
     if uint (fc_startOffset c) \<ge> attribute_len then
       Some (Ret (False, c\<lparr>fc_startOffset := word_of_int (uint (fc_startOffset c) - attribute_len)\<rparr>))
     else bind_result (Some (spd_append_range c (word_of_int attribute_len) m attributeValue)) (\<lambda>(ok, c).
     if \<not> ok then Some (Ret (True, c\<lparr>fc_complete := False\<rparr>))
     else Some (Ret (False, c))))))"

text \<open>The buffer, \<open>usedBytes\<close>, and whether everything was copied.\<close>

definition sdp_filter_attributes_in_attributeIDList ::
    "nat \<Rightarrow> bytes \<Rightarrow> int \<Rightarrow> bytes \<Rightarrow> int \<Rightarrow> u16 \<Rightarrow> u16 \<Rightarrow> bytes \<Rightarrow> int \<Rightarrow> (bytes \<times> u16 \<times> bool) result" where
  "sdp_filter_attributes_in_attributeIDList n m record am ap startOffset maxBytes bm buffer =
     bind_result (sdp_attribute_list_traverse_sequence n (\<lambda>_. m) record (sdp_traversal_filter_attributes n m am ap)
       \<lparr>fc_mem = bm, fc_buffer = buffer, fc_startOffset = startOffset, fc_maxBytes = maxBytes,
        fc_usedBytes = 0, fc_complete = True\<rparr>) (\<lambda>c.
     Some (Ret (fc_mem c, fc_usedBytes c, fc_complete c)))"

definition sdp_traversal_get_filtered_size :: "nat \<Rightarrow> bytes \<Rightarrow> bytes \<Rightarrow> int \<Rightarrow>
    u16 \<Rightarrow> int \<Rightarrow> byte \<Rightarrow> byte \<Rightarrow> u16 \<Rightarrow> (bool \<times> u16) result" where
  "sdp_traversal_get_filtered_size n m am ap attributeID attributeValue ty sz size' =
     bind_result (sdp_attribute_list_constains_id n am ap attributeID) (\<lambda>found.
     if found then
       bind_result (Some (de_get_len m attributeValue)) (\<lambda>len.
       Some (Ret (False, word_of_int (uint size' + (3 + len)))))
     else Some (Ret (False, size')))"

definition spd_get_filtered_size :: "nat \<Rightarrow> bytes \<Rightarrow> int \<Rightarrow> bytes \<Rightarrow> int \<Rightarrow> u16 result" where
  "spd_get_filtered_size n m record am ap =
     sdp_attribute_list_traverse_sequence n (\<lambda>_. m) record (sdp_traversal_get_filtered_size n m am ap) 0"

subsection \<open>Reading and writing one attribute\<close>

definition sdp_traversal_attribute_by_id ::
    "u16 \<Rightarrow> u16 \<Rightarrow> int \<Rightarrow> byte \<Rightarrow> byte \<Rightarrow> int option \<Rightarrow> (bool \<times> int option) result" where
  "sdp_traversal_attribute_by_id wanted attributeID attributeValue ty sz v =
     (if attributeID = wanted then Some (Ret (True, Some attributeValue)) else Some (Ret (False, v)))"

definition sdp_get_attribute_value_for_attribute_id :: "nat \<Rightarrow> bytes \<Rightarrow> int \<Rightarrow> u16 \<Rightarrow> int option result" where
  "sdp_get_attribute_value_for_attribute_id n m record attributeID =
     sdp_attribute_list_traverse_sequence n (\<lambda>_. m) record (sdp_traversal_attribute_by_id attributeID) None"

text \<open>The \<open>switch\<close> of the callback: a number written over the value of an element.\<close>

definition set_number :: "bytes \<Rightarrow> int \<Rightarrow> byte \<Rightarrow> byte \<Rightarrow> u32 \<Rightarrow> bytes outcome" where
  "set_number m attributeValue ty sz value =
     (if sz = DE_SIZE_8 then if ty \<noteq> DE_NIL then wr m (attributeValue + 1) (ucast value) else Ret m
      else if sz = DE_SIZE_16 then big_endian_store_16 m attributeValue 1 (ucast value)
      else if sz = DE_SIZE_32 then big_endian_store_32 m attributeValue 1 value
      else Ret m)"

text \<open>The context is the record's object and \<open>attributeFound\<close>.\<close>

definition sdp_traversal_set_attribute_for_id ::
    "u16 \<Rightarrow> u32 \<Rightarrow> u16 \<Rightarrow> int \<Rightarrow> byte \<Rightarrow> byte \<Rightarrow> bytes \<times> bool \<Rightarrow> (bool \<times> bytes \<times> bool) result" where
  "sdp_traversal_set_attribute_for_id wanted value attributeID attributeValue ty sz = (\<lambda>(m, found).
     if attributeID = wanted then
       bind_result (Some (set_number m attributeValue ty sz value)) (\<lambda>m. Some (Ret (True, m, True)))
     else Some (Ret (False, m, found)))"

definition sdp_set_attribute_value_for_attribute_id ::
    "nat \<Rightarrow> bytes \<Rightarrow> int \<Rightarrow> u16 \<Rightarrow> u32 \<Rightarrow> (bytes \<times> bool) result" where
  "sdp_set_attribute_value_for_attribute_id n m record attributeID value =
     sdp_attribute_list_traverse_sequence n fst record (sdp_traversal_set_attribute_for_id attributeID value) (m, False)"

subsection \<open>Matching a search pattern\<close>

text \<open>The callback of the nested search gets the search itself as \<open>contains\<close>.\<close>

definition sdp_traversal_contains_UUID128 :: "(int \<Rightarrow> bool result) \<Rightarrow> bytes \<Rightarrow> bytes \<Rightarrow>
    int \<Rightarrow> byte \<Rightarrow> byte \<Rightarrow> bool \<Rightarrow> (bool \<times> bool) result" where
  "sdp_traversal_contains_UUID128 contains m uuid128 element ty sz res =
     bind_result
       (if ty = DE_UUID then
          bind_result (Some (de_get_normalized_uuid m element)) (\<lambda>u.
          Some (Ret (case u of None \<Rightarrow> False | Some normalizedUUID \<Rightarrow> memcmp uuid128 normalizedUUID = 0)))
        else Some (Ret res)) (\<lambda>res.
     bind_result (if ty = DE_DES then contains element else Some (Ret res)) (\<lambda>res.
     Some (Ret (res, res))))"

fun sdp_record_contains_UUID128 :: "nat \<Rightarrow> bytes \<Rightarrow> int \<Rightarrow> bytes \<Rightarrow> bool result" where
  "sdp_record_contains_UUID128 0 m record uuid128 = None"
| "sdp_record_contains_UUID128 (Suc n) m record uuid128 =
     de_traverse_sequence (Suc n) (\<lambda>_. m) record
       (sdp_traversal_contains_UUID128 (\<lambda>element. sdp_record_contains_UUID128 n m element uuid128) m uuid128) False"

definition sdp_traversal_match_pattern :: "nat \<Rightarrow> bytes \<Rightarrow> int \<Rightarrow> bytes \<Rightarrow>
    int \<Rightarrow> byte \<Rightarrow> byte \<Rightarrow> bool \<Rightarrow> (bool \<times> bool) result" where
  "sdp_traversal_match_pattern n m record pm element ty sz res =
     bind_result (Some (de_get_normalized_uuid pm element)) (\<lambda>u.
     case u of
       None \<Rightarrow> Some (Ret (True, False))
     | Some normalizedUUID \<Rightarrow>
         bind_result (sdp_record_contains_UUID128 n m record normalizedUUID) (\<lambda>found.
         if \<not> found then Some (Ret (True, False)) else Some (Ret (False, res))))"

definition sdp_record_matches_service_search_pattern ::
    "nat \<Rightarrow> bytes \<Rightarrow> int \<Rightarrow> bytes \<Rightarrow> int \<Rightarrow> bool result" where
  "sdp_record_matches_service_search_pattern n m record pm serviceSearchPattern =
     de_traverse_sequence n (\<lambda>_. pm) serviceSearchPattern (sdp_traversal_match_pattern n m record pm) True"

definition sdp_service_search_pattern_for_uuid16 :: "u16 \<Rightarrow> bytes outcome" where
  "sdp_service_search_pattern_for_uuid16 uuid16 =
     big_endian_store_16 [0x35, 0x03, 0x19, 0x00, 0x00] 0 3 uuid16"

definition sdp_service_search_pattern_for_uuid128 :: "bytes \<Rightarrow> bytes outcome" where
  "sdp_service_search_pattern_for_uuid128 uuid128 =
     bind_outcome (rd_block uuid128 0 16) (\<lambda>bs.
     wr_block ([0x35, 0x11, 0x1c] @ replicate 16 0) 3 bs)"

end
