(* ===== verification/SdpSpec.thy ===== *)
theory SdpSpec
  imports Sdp
begin

text \<open>
  Data elements as values, and what the traversals of Sdp do on objects that hold them.  An
  element is the list of its bytes, \<open>elem_ok\<close> says that its header announces exactly its length;
  \<open>des_bytes\<close> is a sequence with a given length class.  \<open>visit\<close> is the traversal of a list.
\<close>

subsection \<open>Reading an element inside a larger object\<close>

lemma rd_local: "holds_at m p e \<Longrightarrow> rd e q = Ret b \<Longrightarrow> rd m (p + q) = Ret b"
  by (auto simp: rd_def holds_at_nth nat_add_distrib split: if_splits)

lemma rd_block_local: "holds_at m p e \<Longrightarrow> rd_block e q n = Ret b \<Longrightarrow> rd_block m (p + q) n = Ret b"
proof -
  assume h: "holds_at m p e" and r: "rd_block e q n = Ret b"
  from rd_block_holds [OF r] obtain pre post where e: "e = pre @ b @ post" "q = int (length pre)" "length b = n"
    by (auto elim: holds_atE)
  then have "holds_at m (p + q) b" using h by (simp add: holds_at_append)
  with e(3) show ?thesis by (simp add: holds_at_block)
qed

lemma read_16_local:
  "holds_at m p e \<Longrightarrow> big_endian_read_16 e q k = Ret v \<Longrightarrow> big_endian_read_16 m (p + q) k = Ret v"
  using rd_local [of m p e "q + k"] rd_local [of m p e "q + k + 1"]
  by (auto simp: big_endian_read_16_def bind_outcome_Ret add.assoc)

lemma read_32_local:
  "holds_at m p e \<Longrightarrow> big_endian_read_32 e q k = Ret v \<Longrightarrow> big_endian_read_32 m (p + q) k = Ret v"
  using rd_local [of m p e "q + k"] rd_local [of m p e "q + k + 1"] rd_local [of m p e "q + k + 2"]
    rd_local [of m p e "q + k + 3"]
  by (auto simp: big_endian_read_32_def bind_outcome_Ret add.assoc)

lemma size_type_local:
  "holds_at m p e \<Longrightarrow> de_get_size_type e q = Ret v \<Longrightarrow> de_get_size_type m (p + q) = Ret v"
  using rd_local [of m p e q] by (auto simp: de_get_size_type_def bind_outcome_Ret)

lemma element_type_local:
  "holds_at m p e \<Longrightarrow> de_get_element_type e q = Ret v \<Longrightarrow> de_get_element_type m (p + q) = Ret v"
  using rd_local [of m p e q] by (auto simp: de_get_element_type_def bind_outcome_Ret)

lemma header_size_local:
  "holds_at m p e \<Longrightarrow> de_get_header_size e q = Ret v \<Longrightarrow> de_get_header_size m (p + q) = Ret v"
  using size_type_local [of m p e q] by (auto simp: de_get_header_size_def bind_outcome_Ret)

lemma data_size_local:
  assumes "holds_at m p e" "de_get_data_size e q = Ret v"
  shows "de_get_data_size m (p + q) = Ret v"
proof -
  obtain t s where ts: "de_get_element_type e q = Ret t" "de_get_size_type e q = Ret s"
    using assms(2) by (auto simp: de_get_data_size_def bind_outcome_Ret)
  show ?thesis
    using assms ts element_type_local [OF assms(1) ts(1)] size_type_local [OF assms(1) ts(2)]
      rd_local [OF assms(1), of "q + 1"] read_16_local [OF assms(1), of q 1] read_32_local [OF assms(1), of q 1]
    by (auto simp: de_get_data_size_def bind_outcome_Ret add.assoc split: if_splits)
qed

lemma len_local:
  "holds_at m p e \<Longrightarrow> de_get_len e q = Ret v \<Longrightarrow> de_get_len m (p + q) = Ret v"
  using header_size_local [of m p e q] data_size_local [of m p e q]
  by (auto simp: de_get_len_def bind_outcome_Ret)

lemma normalized_uuid_local:
  assumes "holds_at m p e" "de_get_normalized_uuid e q = Ret v"
  shows "de_get_normalized_uuid m (p + q) = Ret v"
proof -
  obtain t s where ts: "de_get_element_type e q = Ret t" "de_get_size_type e q = Ret s"
    using assms(2) by (auto simp: de_get_normalized_uuid_def bind_outcome_Ret)
  show ?thesis
    using assms ts element_type_local [OF assms(1) ts(1)] size_type_local [OF assms(1) ts(2)]
      rd_block_local [OF assms(1), of "q + 1" 16] read_16_local [OF assms(1), of q 1] read_32_local [OF assms(1), of q 1]
    by (auto simp: de_get_normalized_uuid_def bind_outcome_Ret add.assoc split: if_splits)
qed

subsection \<open>Elements\<close>

definition elem_type :: "bytes \<Rightarrow> byte" where
  "elem_type e = drop_bit 3 (hd e)"

definition elem_size :: "bytes \<Rightarrow> byte" where
  "elem_size e = hd e AND 7"

definition elem_ok :: "bytes \<Rightarrow> bool" where
  "elem_ok e \<longleftrightarrow> de_get_len e 0 = Ret (int (length e))"

lemma elem_ok_nonempty: "elem_ok e \<Longrightarrow> e \<noteq> []"
  by (auto simp: elem_ok_def de_get_len_def de_get_header_size_def de_get_size_type_def rd_def)

lemma elem_ok_bound: "elem_ok e \<Longrightarrow> int (length e) \<le> 2147483647"
proof -
  assume "elem_ok e"
  then obtain v w :: u32 where "int (length e) = sint (v + w)"
    by (auto simp: elem_ok_def de_get_len_def bind_outcome_Ret dest: sym)
  then show ?thesis using sint_lt [of "v + w"] by simp
qed

lemma elem_header:
  assumes "holds_at m p e" "elem_ok e"
  shows "de_get_element_type m p = Ret (elem_type e)" "de_get_size_type m p = Ret (elem_size e)"
    "de_get_len m p = Ret (int (length e))"
proof -
  obtain x xs where e: "e = x # xs" using elem_ok_nonempty [OF assms(2)] by (cases e) auto
  then have "rd m p = Ret x" using assms(1) by (simp add: holds_at_Cons)
  then show "de_get_element_type m p = Ret (elem_type e)" "de_get_size_type m p = Ret (elem_size e)"
    by (simp_all add: de_get_element_type_def de_get_size_type_def elem_type_def elem_size_def e)
  show "de_get_len m p = Ret (int (length e))"
    using len_local [OF assms(1), of 0] assms(2) by (simp add: elem_ok_def)
qed

subsection \<open>Sequences\<close>

text \<open>The header of a sequence of length class \<open>cls\<close> with \<open>n\<close> bytes of data.\<close>

definition des_header :: "byte \<Rightarrow> nat \<Rightarrow> bytes" where
  "des_header cls n =
     (if cls = DE_SIZE_VAR_8 then [0x35, of_nat n]
      else if cls = DE_SIZE_VAR_16 then 0x36 # be16 (of_nat n)
      else 0x37 # be32 (of_nat n))"

definition des_fits :: "byte \<Rightarrow> nat \<Rightarrow> bool" where
  "des_fits cls n \<longleftrightarrow> cls = DE_SIZE_VAR_8 \<and> n < 256 \<or> cls = DE_SIZE_VAR_16 \<and> n < 65536 \<or>
     cls = DE_SIZE_VAR_32 \<and> n < 2147483643"

definition des_bytes :: "byte \<Rightarrow> bytes \<Rightarrow> bytes" where
  "des_bytes cls data = des_header cls (length data) @ data"

lemma des_cases:
  assumes "des_fits cls n"
  obtains "cls = 5" "n < 256" | "cls = 6" "n < 65536" | "cls = 7" "n < 2147483643"
  using assms by (auto simp: des_fits_def)

lemma unat_of_nat_u32: "n < 4294967296 \<Longrightarrow> unat (of_nat n :: u32) = n"
  by (simp add: unat_of_nat)

lemma ucast_of_nat_u32:
  "n < 256 \<Longrightarrow> (ucast (of_nat n :: byte) :: u32) = of_nat n"
  "n < 65536 \<Longrightarrow> (ucast (of_nat n :: u16) :: u32) = of_nat n"
  by (simp_all add: word_eq_iff_unsigned [where ?'a = nat] unsigned_ucast_eq unsigned_of_nat take_bit_nat_eq_self)

lemma sint_of_nat_u32: "n < 2147483648 \<Longrightarrow> sint (of_nat n :: u32) = int n"
  by (simp add: signed_of_nat signed_take_bit_int_eq_self)

lemma holds_at_self: "holds_at e 0 e"
  by (simp add: holds_at_def)

lemma des_header_reads:
  assumes "des_fits cls n" "holds_at m p (des_header cls n)"
  shows "de_get_element_type m p = Ret DE_DES" "de_get_size_type m p = Ret cls"
    "de_get_header_size m p = Ret (of_nat (length (des_header cls n)))" "de_get_data_size m p = Ret (of_nat n)"
proof -
  have "de_get_element_type m p = Ret DE_DES \<and> de_get_size_type m p = Ret cls \<and>
    de_get_header_size m p = Ret (of_nat (length (des_header cls n))) \<and> de_get_data_size m p = Ret (of_nat n)"
    using assms
  proof (cases rule: des_cases [OF assms(1)])
    case 1
    then show ?thesis using assms(2)
      by (simp add: des_header_def holds_at_Cons de_get_element_type_def de_get_size_type_def
          de_get_header_size_def de_get_data_size_def ucast_of_nat_u32)
  next
    case 2
    then have "big_endian_read_16 m p 1 = Ret (ucast (of_nat n :: u16))"
      using assms(2) by (intro be16.read_enc) (simp add: des_header_def holds_at_Cons)
    then show ?thesis using assms(2) 2
      by (simp add: des_header_def holds_at_Cons de_get_element_type_def de_get_size_type_def
          de_get_header_size_def de_get_data_size_def ucast_of_nat_u32)
  next
    case 3
    then have "big_endian_read_32 m p 1 = Ret (of_nat n)"
      using assms(2) by (intro be32.read_enc) (simp add: des_header_def holds_at_Cons)
    then show ?thesis using assms(2) 3
      by (simp add: des_header_def holds_at_Cons de_get_element_type_def de_get_size_type_def
          de_get_header_size_def de_get_data_size_def)
  qed
  then show "de_get_element_type m p = Ret DE_DES" "de_get_size_type m p = Ret cls"
    "de_get_header_size m p = Ret (of_nat (length (des_header cls n)))" "de_get_data_size m p = Ret (of_nat n)"
    by auto
qed

lemma length_des_header: "des_fits cls n \<Longrightarrow> length (des_header cls n) \<le> 5 \<and> n + length (des_header cls n) < 2147483648"
  by (auto simp: des_fits_def des_header_def)

lemma des_len:
  assumes "des_fits cls (length data)" "holds_at m p (des_bytes cls data)"
  shows "de_get_len m p = Ret (int (length (des_bytes cls data)))"
proof -
  have h: "holds_at m p (des_header cls (length data))" using assms(2) by (simp add: des_bytes_def holds_at_append)
  have "sint (of_nat (length (des_header cls (length data)) + length data) :: u32) =
      int (length (des_header cls (length data)) + length data)"
    using length_des_header [OF assms(1)] by (intro sint_of_nat_u32) simp
  then show ?thesis
    by (simp add: de_get_len_def des_header_reads [OF assms(1) h] des_bytes_def)
qed

lemma des_elem_ok: "des_fits cls (length data) \<Longrightarrow> elem_ok (des_bytes cls data)"
  unfolding elem_ok_def by (rule des_len [OF _ holds_at_self])

lemma des_elem_type: "des_fits cls n \<Longrightarrow> elem_type (des_header cls n @ xs) = DE_DES"
  by (auto simp: elem_type_def des_header_def des_fits_def)

subsection \<open>Traversal of a list of elements\<close>

text \<open>A traversal with the pure callback \<open>h\<close>, the first element at address \<open>a\<close>.\<close>

fun visit :: "(int \<Rightarrow> bytes \<Rightarrow> 'c \<Rightarrow> bool \<times> 'c) \<Rightarrow> int \<Rightarrow> bytes list \<Rightarrow> 'c \<Rightarrow> 'c" where
  "visit h a [] c = c"
| "visit h a (e # es) c =
     (case h a e c of (done, c') \<Rightarrow> if done then c' else visit h (a + int (length e)) es c')"

lemma traverse_loop_list:
  assumes "\<And>a e c. e \<in> set els \<Longrightarrow> holds_at m a e \<Longrightarrow> mem c = m \<Longrightarrow>
      handler a (elem_type e) (elem_size e) c = Some (Ret (h a e c)) \<and> (\<not> fst (h a e c) \<longrightarrow> mem (snd (h a e c)) = m)"
    and "holds_at m (element + pos) (concat els)" "\<forall>e \<in> set els. elem_ok e"
    and "end_pos = pos + int (length (concat els))" "end_pos \<le> 2147483647" "0 \<le> pos" "length els < n" "mem c = m"
  shows "traverse_loop n mem element pos end_pos handler c = Some (Ret (visit h (element + pos) els c))"
  using assms
proof (induction els arbitrary: n pos c)
  case Nil
  then show ?case by (cases n) auto
next
  case (Cons e els)
  obtain k where n: "n = Suc k" using Cons.prems(7) by (cases n) auto
  have he: "holds_at m (element + pos) e" "holds_at m (element + (pos + int (length e))) (concat els)"
    using Cons.prems(2) by (simp_all add: holds_at_append add.assoc)
  have ok: "elem_ok e" using Cons.prems(3) by simp
  have less: "pos < end_pos" using Cons.prems(4) elem_ok_nonempty [OF ok] by (cases e) auto
  obtain d c' where h: "h (element + pos) e c = (d, c')" by (cases "h (element + pos) e c")
  have H: "handler (element + pos) (elem_type e) (elem_size e) c = Some (Ret (d, c'))" "\<not> d \<Longrightarrow> mem c' = m"
    using Cons.prems(1) [of e "element + pos" c] he(1) Cons.prems(8) h by auto
  have add: "add_int pos (int (length e)) = Ret (pos + int (length e))"
    using Cons.prems(4-6) by (simp add: add_int_def)
  have "traverse_loop k mem element (pos + int (length e)) end_pos handler c' =
      Some (Ret (visit h (element + (pos + int (length e))) els c'))" if "\<not> d"
    using Cons.prems that H(2) n he(2) by (intro Cons.IH) auto
  then show ?case
    using n less H Cons.prems(8) h elem_header [OF he(1) ok] add by (simp add: add.assoc)
qed

lemma traverse_des:
  assumes "\<And>a e c. e \<in> set els \<Longrightarrow> holds_at m a e \<Longrightarrow> mem c = m \<Longrightarrow>
      handler a (elem_type e) (elem_size e) c = Some (Ret (h a e c)) \<and> (\<not> fst (h a e c) \<longrightarrow> mem (snd (h a e c)) = m)"
    and "holds_at m p (des_bytes cls (concat els))" "des_fits cls (length (concat els))"
    and "\<forall>e \<in> set els. elem_ok e" "length els < n" "mem c = m"
  shows "de_traverse_sequence n mem p handler c =
    Some (Ret (visit h (p + int (length (des_header cls (length (concat els))))) els c))"
proof -
  let ?hd = "des_header cls (length (concat els))"
  have h: "holds_at m p ?hd" "holds_at m (p + int (length ?hd)) (concat els)"
    using assms(2) by (simp_all add: des_bytes_def holds_at_append)
  have "uint (of_nat (length ?hd) :: u32) = int (length ?hd)"
    using length_des_header [OF assms(3)] by (simp add: uint_nat unat_of_nat_u32)
  moreover have "traverse_loop n mem p (int (length ?hd)) (int (length (des_bytes cls (concat els)))) handler c =
      Some (Ret (visit h (p + int (length ?hd)) els c))"
    using h(2) assms length_des_header [OF assms(3)] by (intro traverse_loop_list) (auto simp: des_bytes_def)
  ultimately show ?thesis
    using des_header_reads [OF assms(3) h(1)] des_len [OF assms(3,2)] assms(6)
    by (simp add: de_traverse_sequence_def)
qed

lemma unat_ucast_u16: "unat (ucast (a :: u16) :: u32) = unat a"
proof -
  have "unat a < 2 ^ 32" using unat_u16_less [of a] by (rule less_trans) simp
  then show ?thesis unfolding unsigned_ucast_eq by (simp add: take_bit_nat_eq_self)
qed

lemma ucast_u16_simps [simp]:
  "(ucast (a :: u16) :: u32) = ucast b \<longleftrightarrow> a = b"
  "(ucast (a :: u16) :: u32) \<le> ucast b \<longleftrightarrow> a \<le> b"
  "ucast (ucast (a :: u16) :: u32) = a"
proof -
  show "(ucast (a :: u16) :: u32) = ucast b \<longleftrightarrow> a = b" "(ucast (a :: u16) :: u32) \<le> ucast b \<longleftrightarrow> a \<le> b"
    by (simp_all only: word_eq_iff_unsigned [where ?'a = nat] word_le_nat_alt unat_ucast_u16)
  show "ucast (ucast (a :: u16) :: u32) = a" by (rule bit_word_eqI) (auto simp: bit_simps)
qed

subsection \<open>Attribute lists\<close>

definition attr_bytes :: "u16 \<times> bytes \<Rightarrow> bytes" where
  "attr_bytes ie = 0x09 # be16 (fst ie) @ snd ie"

definition attrs_bytes :: "(u16 \<times> bytes) list \<Rightarrow> bytes" where
  "attrs_bytes as = concat (map attr_bytes as)"

lemma attrs_bytes_simps [simp]:
  "attrs_bytes [] = []" "attrs_bytes (x # as) = attr_bytes x @ attrs_bytes as"
  "attrs_bytes (as @ bs) = attrs_bytes as @ attrs_bytes bs" "length (attr_bytes (i, e)) = 3 + length e"
  by (simp_all add: attrs_bytes_def attr_bytes_def)

fun visit_attrs :: "(u16 \<Rightarrow> int \<Rightarrow> bytes \<Rightarrow> 'c \<Rightarrow> bool \<times> 'c) \<Rightarrow> int \<Rightarrow> (u16 \<times> bytes) list \<Rightarrow> 'c \<Rightarrow> 'c" where
  "visit_attrs h a [] c = c"
| "visit_attrs h a ((i, e) # as) c =
     (case h i (a + 3) e c of (done, c') \<Rightarrow> if done then c' else visit_attrs h (a + 3 + int (length e)) as c')"

text \<open>One round of the loop, at an attribute.\<close>

lemma attribute_loop_step:
  assumes "holds_at (mem c) (element + pos) (attr_bytes (i, e))" "elem_ok e"
    and "pos + 3 + int (length e) \<le> end_pos" "end_pos \<le> 2147483647" "0 \<le> pos"
    and "handler i (element + pos + 3) (elem_type e) (elem_size e) c = Some (Ret (d, c'))"
    and "\<not> d \<Longrightarrow> mem c' = mem c"
  shows "attribute_loop (Suc k) mem element pos end_pos handler c =
    (if d then Some (Ret c') else attribute_loop k mem element (pos + 3 + int (length e)) end_pos handler c')"
proof -
  have "holds_at (mem c) (element + pos) (0x09 # be16 i @ e)"
    using assms(1) by (simp add: attr_bytes_def)
  then have he: "rd (mem c) (element + pos) = Ret 0x09" "holds_at (mem c) (element + (pos + 1)) (be16 i)"
    "holds_at (mem c) (element + (pos + 3)) e"
    by (simp_all add: holds_at_Cons holds_at_append ac_simps)
  have less: "pos < end_pos" "\<not> end_pos \<le> pos + 3"
    using assms(3) elem_ok_nonempty [OF assms(2)] by (cases e; simp)+
  have id: "de_get_element_type (mem c) (element + pos) = Ret 1" "de_get_size_type (mem c) (element + pos) = Ret 1"
    using he(1) by (simp_all add: de_get_element_type_def de_get_size_type_def)
  have rd16: "big_endian_read_16 (mem c) element (pos + 1) = Ret (ucast i)" by (rule be16.read_enc [OF he(2)])
  have add: "add_int pos 3 = Ret (pos + 3)" "add_int (pos + 3) (int (length e)) = Ret (pos + 3 + int (length e))"
    using assms(3-5) by (simp_all add: add_int_def)
  show ?thesis
    using less id rd16 add elem_header [OF he(3) assms(2)] assms(6,7) by (simp add: add.assoc)
qed

lemma attrs_bytes_at:
  "holds_at m a (attrs_bytes ((i, e) # as)) \<longleftrightarrow>
     holds_at m a (attr_bytes (i, e)) \<and> holds_at m (a + 3 + int (length e)) (attrs_bytes as)"
  by (simp add: holds_at_append ac_simps)

lemma attribute_loop_list:
  assumes "\<And>i a e c. (i, e) \<in> set as \<Longrightarrow> holds_at m a e \<Longrightarrow> mem c = m \<Longrightarrow>
      handler i a (elem_type e) (elem_size e) c = Some (Ret (h i a e c)) \<and>
      (\<not> fst (h i a e c) \<longrightarrow> mem (snd (h i a e c)) = m)"
    and "holds_at m (element + pos) (attrs_bytes as)" "\<forall>(i, e) \<in> set as. elem_ok e"
    and "end_pos = pos + int (length (attrs_bytes as))" "end_pos \<le> 2147483647" "0 \<le> pos" "length as < n" "mem c = m"
  shows "attribute_loop n mem element pos end_pos handler c = Some (Ret (visit_attrs h (element + pos) as c))"
  using assms
proof (induction as arbitrary: n pos c)
  case Nil
  then show ?case by (cases n) auto
next
  case (Cons ie as)
  obtain k where n: "n = Suc k" using Cons.prems(7) by (cases n) auto
  obtain i e where ie: "ie = (i, e)" by (cases ie)
  have at: "holds_at m (element + pos) (attr_bytes (i, e))" "holds_at m (element + (pos + 3 + int (length e))) (attrs_bytes as)"
    using Cons.prems(2) by (simp_all add: ie holds_at_append ac_simps)
  then have he: "holds_at m (element + pos + 3) e" by (simp add: attr_bytes_def holds_at_Cons holds_at_append ac_simps)
  obtain d c' where h: "h i (element + pos + 3) e c = (d, c')" by (cases "h i (element + pos + 3) e c")
  have H: "handler i (element + pos + 3) (elem_type e) (elem_size e) c = Some (Ret (d, c'))" "\<not> d \<Longrightarrow> mem c' = m"
    using Cons.prems(1) [of i e "element + pos + 3" c] he Cons.prems(8) h ie by auto
  have "attribute_loop (Suc k) mem element pos end_pos handler c =
      (if d then Some (Ret c') else attribute_loop k mem element (pos + 3 + int (length e)) end_pos handler c')"
    using at(1) Cons.prems H ie by (intro attribute_loop_step) auto
  moreover have "attribute_loop k mem element (pos + 3 + int (length e)) end_pos handler c' =
      Some (Ret (visit_attrs h (element + (pos + 3 + int (length e))) as c'))" if "\<not> d"
    using Cons.prems that H(2) n at(2) ie by (intro Cons.IH) auto
  ultimately show ?case using n h ie by (simp add: add.assoc)
qed

text \<open>
  The rule for a callback whose context has an invariant: \<open>Inv pre c\<close> after the attributes
  \<open>pre\<close>, \<open>Fin c\<close> when the traversal was stopped.
\<close>

lemma attribute_loop_inv:
  assumes step: "\<And>pre i e post c. as = pre @ (i, e) # post \<Longrightarrow> Inv pre c \<Longrightarrow>
      \<exists>d c'. handler i (element + pos + int (length (attrs_bytes pre)) + 3) (elem_type e) (elem_size e) c = Some (Ret (d, c')) \<and>
        (if d then Fin c' else Inv (pre @ [(i, e)]) c')"
    and "holds_at m (element + pos) (attrs_bytes as)" "\<forall>(i, e) \<in> set as. elem_ok e"
    and "end_pos = pos + int (length (attrs_bytes as))" "end_pos \<le> 2147483647" "0 \<le> pos"
    and "as = pre @ rest" "length rest < n" "Inv pre c"
  shows "\<exists>c'. attribute_loop n (\<lambda>_. m) element (pos + int (length (attrs_bytes pre))) end_pos handler c = Some (Ret c') \<and>
    (Fin c' \<or> Inv as c')"
  using assms(7-)
proof (induction rest arbitrary: n pre c)
  case Nil
  then show ?case using assms(4) by (cases n) auto
next
  case (Cons ie rest)
  obtain k where n: "n = Suc k" using Cons.prems(2) by (cases n) auto
  obtain i e where ie: "ie = (i, e)" by (cases ie)
  let ?pos = "pos + int (length (attrs_bytes pre))"
  have at: "holds_at m (element + ?pos) (attr_bytes (i, e))"
    using assms(2) Cons.prems(1) ie by (simp add: holds_at_append ac_simps)
  obtain d c' where H: "handler i (element + pos + int (length (attrs_bytes pre)) + 3) (elem_type e) (elem_size e) c = Some (Ret (d, c'))"
      "if d then Fin c' else Inv (pre @ [(i, e)]) c'"
    using step [of pre i e rest c] Cons.prems ie by blast
  have "attribute_loop (Suc k) (\<lambda>_. m) element ?pos end_pos handler c =
      (if d then Some (Ret c') else attribute_loop k (\<lambda>_. m) element (?pos + 3 + int (length e)) end_pos handler c')"
    using at Cons.prems H(1) ie assms(3-6) by (intro attribute_loop_step) (auto simp: add.assoc)
  moreover have "\<exists>c''. attribute_loop k (\<lambda>_. m) element (pos + int (length (attrs_bytes (pre @ [(i, e)])))) end_pos handler c' = Some (Ret c'') \<and>
      (Fin c'' \<or> Inv as c'')" if "\<not> d"
    using Cons.prems H(2) that n ie by (intro Cons.IH) auto
  ultimately show ?case using n H(2) by (cases d) (auto simp: add.assoc)
qed

lemma attribute_list_traverse:
  assumes "\<And>i a e c. (i, e) \<in> set as \<Longrightarrow> holds_at m a e \<Longrightarrow> mem c = m \<Longrightarrow>
      handler i a (elem_type e) (elem_size e) c = Some (Ret (h i a e c)) \<and>
      (\<not> fst (h i a e c) \<longrightarrow> mem (snd (h i a e c)) = m)"
    and "holds_at m p (des_bytes cls (attrs_bytes as))" "des_fits cls (length (attrs_bytes as))"
    and "\<forall>(i, e) \<in> set as. elem_ok e" "length as < n" "mem c = m"
  shows "sdp_attribute_list_traverse_sequence n mem p handler c =
    Some (Ret (visit_attrs h (p + int (length (des_header cls (length (attrs_bytes as))))) as c))"
proof -
  let ?hd = "des_header cls (length (attrs_bytes as))"
  have h: "holds_at m p ?hd" "holds_at m (p + int (length ?hd)) (attrs_bytes as)"
    using assms(2) by (simp_all add: des_bytes_def holds_at_append)
  have "uint (of_nat (length ?hd) :: u32) = int (length ?hd)"
    using length_des_header [OF assms(3)] by (simp add: uint_nat unat_of_nat_u32)
  moreover have "attribute_loop n mem p (int (length ?hd)) (int (length (des_bytes cls (attrs_bytes as)))) handler c =
      Some (Ret (visit_attrs h (p + int (length ?hd)) as c))"
    using h(2) assms length_des_header [OF assms(3)] by (intro attribute_loop_list) (auto simp: des_bytes_def)
  ultimately show ?thesis
    using des_header_reads [OF assms(3) h(1)] des_len [OF assms(3,2)] assms(6)
    by (simp add: sdp_attribute_list_traverse_sequence_def)
qed

lemma attribute_list_inv:
  assumes "\<And>pre i e post c. as = pre @ (i, e) # post \<Longrightarrow> Inv pre c \<Longrightarrow>
      \<exists>d c'. handler i (p + int (length (des_header cls (length (attrs_bytes as)))) + int (length (attrs_bytes pre)) + 3)
          (elem_type e) (elem_size e) c = Some (Ret (d, c')) \<and> (if d then Fin c' else Inv (pre @ [(i, e)]) c')"
    and "holds_at m p (des_bytes cls (attrs_bytes as))" "des_fits cls (length (attrs_bytes as))"
    and "\<forall>(i, e) \<in> set as. elem_ok e" "length as < n" "Inv [] c"
  shows "\<exists>c'. sdp_attribute_list_traverse_sequence n (\<lambda>_. m) p handler c = Some (Ret c') \<and> (Fin c' \<or> Inv as c')"
proof -
  let ?hd = "des_header cls (length (attrs_bytes as))"
  have h: "holds_at m p ?hd" "holds_at m (p + int (length ?hd)) (attrs_bytes as)"
    using assms(2) by (simp_all add: des_bytes_def holds_at_append)
  have "uint (of_nat (length ?hd) :: u32) = int (length ?hd)"
    using length_des_header [OF assms(3)] by (simp add: uint_nat unat_of_nat_u32)
  moreover have "\<exists>c'. attribute_loop n (\<lambda>_. m) p (int (length ?hd) + int (length (attrs_bytes [])))
      (int (length (des_bytes cls (attrs_bytes as)))) handler c = Some (Ret c') \<and> (Fin c' \<or> Inv as c')"
    using h(2) assms length_des_header [OF assms(3)]
    by (intro attribute_loop_inv [where as = as]) (auto simp: des_bytes_def)
  ultimately show ?thesis
    using des_header_reads [OF assms(3) h(1)] des_len [OF assms(3,2)]
    by (simp add: sdp_attribute_list_traverse_sequence_def)
qed

subsection \<open>Lists of attribute IDs and ranges\<close>

definition u16_at :: "bytes \<Rightarrow> nat \<Rightarrow> u16" where
  "u16_at e i = push_bit 8 (ucast (e ! i)) OR ucast (e ! (i + 1))"

text \<open>An entry covers an ID if it is the ID, or a range that contains it.\<close>

definition covers :: "bytes \<Rightarrow> u16 \<Rightarrow> bool" where
  "covers e i \<longleftrightarrow> elem_type e = DE_UINT \<and>
     (elem_size e = DE_SIZE_16 \<and> u16_at e 1 = i \<or>
      elem_size e = DE_SIZE_32 \<and> u16_at e 1 \<le> i \<and> i \<le> u16_at e 3)"

lemma read_u16_elem:
  assumes "holds_at m p e" "i + 1 < length e"
  shows "big_endian_read_16 m p (int i) = Ret (ucast (u16_at e i))"
proof -
  have "rd m (p + int i) = Ret (e ! i)" "rd m (p + int (i + 1)) = Ret (e ! (i + 1))"
    using assms by (intro holds_at_rd; simp)+
  then show ?thesis by (simp add: big_endian_read_16_def u16_at_def or.commute ac_simps)
qed

text \<open>The length of an element of fixed size.\<close>

lemma elem_fixed_length:
  assumes "elem_ok e" "elem_size e \<le> DE_SIZE_128" "elem_type e \<noteq> DE_NIL"
  shows "length e = 1 + 2 ^ unat (elem_size e)"
proof -
  obtain x xs where e: "e = x # xs" using elem_ok_nonempty [OF assms(1)] by (cases e) auto
  then have r: "rd e 0 = Ret x" by (simp add: rd_def)
  have "unat (elem_size e) \<le> 4" using assms(2) by (simp add: word_le_nat_alt)
  then have "unat (elem_size e) \<in> {0, 1, 2, 3, 4}" by simp presburger
  moreover have "elem_size e = of_nat (unat (elem_size e))" by simp
  ultimately have s: "elem_size e \<in> {0, 1, 2, 3, 4}" by (elim insertE) auto
  have hd: "de_get_element_type e 0 = Ret (elem_type e)" "de_get_size_type e 0 = Ret (elem_size e)"
    by (rule elem_header [OF holds_at_self assms(1)])+
  have "sint (1 + push_bit (unat (elem_size e)) 1 :: u32) = int (length e)"
    using assms(1,2,3) s hd
    by (auto simp: elem_ok_def de_get_len_def de_get_header_size_def de_get_data_size_def)
  with s show ?thesis by (elim insertE) auto
qed

end
