(* ===== verification/SdpAttr.thy ===== *)
theory SdpAttr
  imports SdpSpec
begin

text \<open>
  The operations of Sdp on attribute lists: membership of an ID in a list of IDs and ranges,
  lookup and update of an attribute, and the copy of the selected attributes in fragments.
\<close>

subsection \<open>Membership\<close>

lemma search_handler:
  assumes "elem_ok e" "holds_at m a e"
  shows "sdp_traversal_attributeID_search m i a (elem_type e) (elem_size e) res =
    Some (Ret (if covers e i then (True, True) else (False, res)))"
proof -
  have "length e = 3" if "elem_type e = 1" "elem_size e = 1"
    using elem_fixed_length [OF assms(1)] that by simp
  moreover have "length e = 5" if "elem_type e = 1" "elem_size e = 2"
    using elem_fixed_length [OF assms(1)] that by simp
  ultimately show ?thesis
    using read_u16_elem [OF assms(2), of 1] read_u16_elem [OF assms(2), of 3]
    by (auto simp: sdp_traversal_attributeID_search_def covers_def)
qed

lemma visit_search: "visit (\<lambda>a e res. if P e then (True, True) else (False, res)) a els False \<longleftrightarrow> (\<exists>e \<in> set els. P e)"
  by (induction els arbitrary: a) auto

text \<open>The list of IDs and ranges \<open>ids\<close> lies at \<open>p\<close>.\<close>

definition ids_at :: "bytes \<Rightarrow> int \<Rightarrow> bytes list \<Rightarrow> bool" where
  "ids_at m p ids \<longleftrightarrow> (\<exists>cls. holds_at m p (des_bytes cls (concat ids)) \<and> des_fits cls (length (concat ids))) \<and>
     (\<forall>e \<in> set ids. elem_ok e)"

definition selected :: "bytes list \<Rightarrow> u16 \<Rightarrow> bool" where
  "selected ids i \<longleftrightarrow> (\<exists>e \<in> set ids. covers e i)"

lemma constains_id:
  assumes "ids_at m p ids" "length ids < n"
  shows "sdp_attribute_list_constains_id n m p i = Some (Ret (selected ids i))"
proof -
  obtain cls where cls: "holds_at m p (des_bytes cls (concat ids))" "des_fits cls (length (concat ids))"
    using assms(1) by (auto simp: ids_at_def)
  have ok: "\<forall>e \<in> set ids. elem_ok e" using assms(1) by (simp add: ids_at_def)
  show ?thesis
    unfolding sdp_attribute_list_constains_id_def
    by (subst traverse_des [where m = m and h = "\<lambda>a e res. if covers e i then (True, True) else (False, res)", OF _ cls ok assms(2)])
       (use ok in \<open>auto simp: search_handler visit_search selected_def\<close>)
qed

subsection \<open>Lookup and update\<close>

text \<open>A record at \<open>p\<close> with the attributes \<open>as\<close>; \<open>first_attr\<close> is the address of the first one.\<close>

definition record_at :: "bytes \<Rightarrow> int \<Rightarrow> byte \<Rightarrow> (u16 \<times> bytes) list \<Rightarrow> bool" where
  "record_at m p cls as \<longleftrightarrow> holds_at m p (des_bytes cls (attrs_bytes as)) \<and>
     des_fits cls (length (attrs_bytes as)) \<and> (\<forall>(i, e) \<in> set as. elem_ok e)"

definition value_addr :: "int \<Rightarrow> byte \<Rightarrow> (u16 \<times> bytes) list \<Rightarrow> (u16 \<times> bytes) list \<Rightarrow> int" where
  "value_addr p cls as pre = p + int (length (des_header cls (length (attrs_bytes as)))) + int (length (attrs_bytes pre)) + 3"

lemma record_holds_value:
  assumes "record_at m p cls (pre @ (i, e) # post)"
  shows "holds_at m (value_addr p cls (pre @ (i, e) # post) pre) e"
  using assms
  by (simp add: record_at_def des_bytes_def attr_bytes_def holds_at_append holds_at_Cons value_addr_def ac_simps)

lemma visit_attrs_skip:
  assumes "\<forall>(i, e) \<in> set pre. \<forall>a. h i a e c = (False, c)"
  shows "visit_attrs h a (pre @ as) c = visit_attrs h (a + int (length (attrs_bytes pre))) as c"
  using assms by (induction pre arbitrary: a) (auto simp: ac_simps)

lemma get_attribute_found:
  assumes "record_at m p cls (pre @ (i, e) # post)" "i \<notin> fst ` set pre" "length pre + length post + 1 < n"
  shows "sdp_get_attribute_value_for_attribute_id n m p i =
    Some (Ret (Some (value_addr p cls (pre @ (i, e) # post) pre)))"
proof -
  let ?as = "pre @ (i, e) # post"
  have r: "holds_at m p (des_bytes cls (attrs_bytes ?as))" "des_fits cls (length (attrs_bytes ?as))" "\<forall>(i, e) \<in> set ?as. elem_ok e"
    using assms(1) by (auto simp: record_at_def)
  have "sdp_get_attribute_value_for_attribute_id n m p i =
    Some (Ret (visit_attrs (\<lambda>j a e v. if j = i then (True, Some a) else (False, v))
      (p + int (length (des_header cls (length (attrs_bytes ?as))))) ?as None))"
    unfolding sdp_get_attribute_value_for_attribute_id_def
    by (rule attribute_list_traverse [OF _ r]) (use assms(3) in \<open>auto simp: sdp_traversal_attribute_by_id_def\<close>)
  also have "\<dots> = Some (Ret (Some (value_addr p cls ?as pre)))"
    using assms(2) by (subst visit_attrs_skip) (force simp: value_addr_def)+
  finally show ?thesis .
qed

lemma get_attribute_missing:
  assumes "record_at m p cls as" "i \<notin> fst ` set as" "length as < n"
  shows "sdp_get_attribute_value_for_attribute_id n m p i = Some (Ret None)"
proof -
  have r: "holds_at m p (des_bytes cls (attrs_bytes as))" "des_fits cls (length (attrs_bytes as))" "\<forall>(i, e) \<in> set as. elem_ok e"
    using assms(1) by (auto simp: record_at_def)
  have "sdp_get_attribute_value_for_attribute_id n m p i =
    Some (Ret (visit_attrs (\<lambda>j a e v. if j = i then (True, Some a) else (False, v))
      (p + int (length (des_header cls (length (attrs_bytes as))))) (as @ []) None))"
    unfolding sdp_get_attribute_value_for_attribute_id_def append_Nil2
    by (rule attribute_list_traverse [OF _ r]) (use assms(3) in \<open>auto simp: sdp_traversal_attribute_by_id_def\<close>)
  also have "\<dots> = Some (Ret None)"
    using assms(2) by (subst visit_attrs_skip) force+
  finally show ?thesis .
qed

text \<open>The value with a number of its own width in place of the old one.\<close>

definition put_value :: "bytes \<Rightarrow> u32 \<Rightarrow> bytes" where
  "put_value e v =
     (if elem_size e = DE_SIZE_8 then if elem_type e \<noteq> DE_NIL then [hd e, ucast v] else e
      else if elem_size e = DE_SIZE_16 then hd e # be16 (ucast v)
      else if elem_size e = DE_SIZE_32 then hd e # be32 v
      else e)"

lemma put_value_length:
  assumes "elem_ok e" "elem_type e \<noteq> DE_NIL \<or> elem_size e = DE_SIZE_8"
  shows "length (put_value e v) = length e"
  using elem_fixed_length [OF assms(1)] assms(2) by (auto simp: put_value_def)

lemma put_value_header [simp]:
  "elem_ok e \<Longrightarrow> elem_type (put_value e v) = elem_type e" "elem_ok e \<Longrightarrow> elem_size (put_value e v) = elem_size e"
  by (auto simp: put_value_def elem_type_def elem_size_def)

lemma set_number_value:
  assumes "holds_at m a e" "elem_ok e" "elem_type e \<noteq> DE_NIL \<or> elem_size e = DE_SIZE_8"
  shows "\<exists>m'. set_number m a (elem_type e) (elem_size e) v = Ret m' \<and> length m' = length m \<and>
    holds_at m' a (put_value e v) \<and>
    (\<forall>q xs. holds_at m q xs \<longrightarrow> q + int (length xs) \<le> a \<or> a + int (length e) \<le> q \<longrightarrow> holds_at m' q xs)"
proof -
  obtain x xs where e: "e = x # xs" using elem_ok_nonempty [OF assms(2)] by (cases e) auto
  have x: "holds_at m a [x]" "0 \<le> a" "a + int (length e) \<le> int (length m)"
    using assms(1) holds_at_nonneg [OF assms(1)] by (simp_all add: e holds_at_Cons)
  have *: "\<exists>m'. wr_block m (a + 1) new = Ret m' \<and> length m' = length m \<and> holds_at m' a (hd e # new) \<and>
    (\<forall>q xs. holds_at m q xs \<longrightarrow> q + int (length xs) \<le> a \<or> a + int (length e) \<le> q \<longrightarrow> holds_at m' q xs)"
    if len: "length e = Suc (length new)" for new
  proof -
    have b: "0 \<le> a + 1" "a + 1 + int (length new) \<le> int (length m)" using x len by auto
    obtain m' where m': "wr_block m (a + 1) new = Ret m'" "length m' = length m" "holds_at m' (a + 1) new"
        "\<And>q xs. holds_at m q xs \<Longrightarrow> q + int (length xs) \<le> a + 1 \<or> a + 1 + int (length new) \<le> q \<Longrightarrow> holds_at m' q xs"
      by (rule wr_block_Ret [OF b]) (rule that)
    have "holds_at m' a [x]" using m'(4) [OF x(1)] by simp
    then have "holds_at m' a (hd e # new)" using m'(3) by (simp add: holds_at_Cons e)
    moreover have "holds_at m' q ys" if "holds_at m q ys" "q + int (length ys) \<le> a \<or> a + int (length e) \<le> q" for q ys
      using m'(4) [OF that(1)] that(2) len by auto
    ultimately show ?thesis using m'(1,2) by blast
  qed
  have l: "length e = 1 + 2 ^ unat (elem_size e)" if "elem_size e \<le> 4" "elem_type e \<noteq> 0"
    using elem_fixed_length [OF assms(2)] that by simp
  consider "elem_size e = 0" "elem_type e \<noteq> 0" | "elem_size e = 1" "elem_type e \<noteq> 0" | "elem_size e = 2" "elem_type e \<noteq> 0"
    | "elem_type e = 0 \<or> elem_size e \<notin> {0, 1, 2}"
    by auto
  then show ?thesis
  proof cases
    case 1
    with * [of "[ucast v]"] l show ?thesis by (simp add: put_value_def set_number_def wr_as_block)
  next
    case 2
    with * [of "be16 (ucast v)"] l show ?thesis by (simp add: put_value_def set_number_def be16.store_enc)
  next
    case 3
    with * [of "be32 v"] l show ?thesis by (simp add: put_value_def set_number_def be32.store_enc)
  next
    case 4
    then have "put_value e v = e" "set_number m a (elem_type e) (elem_size e) v = Ret m"
      using assms(3) by (auto simp: put_value_def set_number_def)
    then show ?thesis using assms(1) by simp
  qed
qed

lemma record_replace:
  assumes "record_at m p cls (pre @ (i, e) # post)" "length e' = length e" "elem_ok e'"
    and "holds_at m' (value_addr p cls (pre @ (i, e) # post) pre) e'"
    and "\<And>q xs. holds_at m q xs \<Longrightarrow> q + int (length xs) \<le> value_addr p cls (pre @ (i, e) # post) pre \<or>
        value_addr p cls (pre @ (i, e) # post) pre + int (length e) \<le> q \<Longrightarrow> holds_at m' q xs"
  shows "record_at m' p cls (pre @ (i, e') # post)"
proof -
  let ?hd = "des_header cls (length (attrs_bytes (pre @ (i, e) # post)))"
  let ?front = "?hd @ attrs_bytes pre @ 0x09 # be16 i"
  have a: "value_addr p cls (pre @ (i, e) # post) pre = p + int (length ?front)" by (simp add: value_addr_def)
  have "holds_at m p (?front @ e @ attrs_bytes post)"
    using assms(1) by (simp add: record_at_def des_bytes_def attr_bytes_def)
  then have f: "holds_at m p ?front" "holds_at m (p + int (length ?front) + int (length e)) (attrs_bytes post)"
    by (simp_all only: holds_at_append)
  have "holds_at m' p ?front" "holds_at m' (p + int (length ?front) + int (length e)) (attrs_bytes post)"
    using assms(5) [OF f(1)] assms(5) [OF f(2)] unfolding a by simp_all
  then have "holds_at m' p (?front @ e' @ attrs_bytes post)"
    using assms(2,4) unfolding a holds_at_append by simp
  then show ?thesis
    using assms(1-3) by (simp add: record_at_def des_bytes_def attr_bytes_def)
qed

lemma put_value_ok:
  assumes "elem_ok e" "elem_type e \<noteq> DE_NIL \<or> elem_size e = DE_SIZE_8"
  shows "elem_ok (put_value e v)"
proof (cases "put_value e v = e")
  case False
  then have s: "elem_size e \<in> {0, 1, 2}" "elem_type e \<noteq> 0" using assms by (auto simp: put_value_def split: if_splits)
  obtain x xs where p: "put_value e v = x # xs" using put_value_length [OF assms, of v] elem_ok_nonempty [OF assms(1)]
    by (cases "put_value e v") auto
  then have hd: "de_get_element_type (put_value e v) 0 = Ret (elem_type e)" "de_get_size_type (put_value e v) 0 = Ret (elem_size e)"
    using put_value_header [OF assms(1), of v]
    by (simp_all add: de_get_element_type_def de_get_size_type_def rd_def elem_type_def elem_size_def)
  have "length e = 1 + 2 ^ unat (elem_size e)"
    using s assms(1) by (intro elem_fixed_length) auto
  then show ?thesis
    using s hd put_value_length [OF assms, of v]
    by (auto simp: elem_ok_def de_get_len_def de_get_header_size_def de_get_data_size_def)
qed (use assms in simp)

lemma set_attribute:
  assumes "record_at m p cls (pre @ (i, e) # post)" "i \<notin> fst ` set (pre @ post)" "length pre + length post + 1 < n"
    and "elem_type e \<noteq> DE_NIL \<or> elem_size e = DE_SIZE_8"
  shows "\<exists>m'. sdp_set_attribute_value_for_attribute_id n m p i v = Some (Ret (m', True)) \<and>
    record_at m' p cls (pre @ (i, put_value e v) # post) \<and> length m' = length m"
proof -
  let ?as = "pre @ (i, e) # post" and ?a = "value_addr p cls (pre @ (i, e) # post) pre"
  have r: "holds_at m p (des_bytes cls (attrs_bytes ?as))" "des_fits cls (length (attrs_bytes ?as))" "\<forall>(i, e) \<in> set ?as. elem_ok e"
    using assms(1) by (auto simp: record_at_def)
  have ok: "elem_ok e" using r(3) by simp
  obtain m' where m': "set_number m ?a (elem_type e) (elem_size e) v = Ret m'" "length m' = length m"
      "holds_at m' ?a (put_value e v)"
      "\<And>q xs. holds_at m q xs \<Longrightarrow> q + int (length xs) \<le> ?a \<or> ?a + int (length e) \<le> q \<Longrightarrow> holds_at m' q xs"
    using set_number_value [OF record_holds_value [OF assms(1)] ok assms(4), of v] by blast
  define h where "h = (\<lambda>j a e' (c :: bytes \<times> bool).
    if j = i then (True, case set_number m a (elem_type e') (elem_size e') v of Ret m' \<Rightarrow> (m', True) | Undef \<Rightarrow> c) else (False, c))"
  have "sdp_set_attribute_value_for_attribute_id n m p i v =
    Some (Ret (visit_attrs h (p + int (length (des_header cls (length (attrs_bytes ?as))))) ?as (m, False)))"
    unfolding sdp_set_attribute_value_for_attribute_id_def
  proof (rule attribute_list_traverse [OF _ r])
    fix j a e' and c :: "bytes \<times> bool"
    assume j: "(j, e') \<in> set ?as" and a: "holds_at m a e'" and c: "fst c = m"
    obtain f where f: "c = (m, f)" using c by (cases c) auto
    show "sdp_traversal_set_attribute_for_id i v j a (elem_type e') (elem_size e') c = Some (Ret (h j a e' c)) \<and>
        (\<not> fst (h j a e' c) \<longrightarrow> fst (snd (h j a e' c)) = m)"
    proof (cases "j = i")
      case True
      then have "e' = e" using j assms(2) by (force simp: image_iff)
      with a obtain m2 where "set_number m a (elem_type e') (elem_size e') v = Ret m2"
        using set_number_value [OF _ ok assms(4), of m a v] by auto
      with True f show ?thesis by (simp add: h_def sdp_traversal_set_attribute_for_id_def)
    qed (use f in \<open>simp add: h_def sdp_traversal_set_attribute_for_id_def\<close>)
  qed (use assms(3) in auto)
  moreover have "visit_attrs h (p + int (length (des_header cls (length (attrs_bytes ?as))))) ?as (m, False) = (m', True)"
    using assms(2) m'(1) by (subst visit_attrs_skip) (force simp: h_def value_addr_def)+
  moreover have "record_at m' p cls (pre @ (i, put_value e v) # post)"
    using put_value_length [OF ok assms(4), of v] put_value_ok [OF ok assms(4), of v] m'(3,4)
    by (intro record_replace [OF assms(1)]) auto
  ultimately show ?thesis using m'(2) by simp
qed

end
