(* ===== verification/SdpMatch.thy ===== *)
theory SdpMatch
  imports SdpAttr
begin

text \<open>
  Nested data elements as trees, and the search for UUIDs: a record contains a UUID exactly when
  one of its leaves is that UUID in one of the three widths, and it matches a search pattern
  exactly when it contains every UUID of the pattern.
\<close>

subsection \<open>The invariant rule of the element traversal\<close>

lemma traverse_loop_inv:
  assumes step: "\<And>pre e post c. els = pre @ e # post \<Longrightarrow> Inv pre c \<Longrightarrow>
      \<exists>d c'. handler (element + pos + int (length (concat pre))) (elem_type e) (elem_size e) c = Some (Ret (d, c')) \<and>
        (if d then Fin c' else Inv (pre @ [e]) c')"
    and "holds_at m (element + pos) (concat els)" "\<forall>e \<in> set els. elem_ok e"
    and "end_pos = pos + int (length (concat els))" "end_pos \<le> 2147483647" "0 \<le> pos"
    and "els = pre @ rest" "length rest < n" "Inv pre c"
  shows "\<exists>c'. traverse_loop n (\<lambda>_. m) element (pos + int (length (concat pre))) end_pos handler c = Some (Ret c') \<and>
    (Fin c' \<or> Inv els c')"
  using assms(7-)
proof (induction rest arbitrary: n pre c)
  case Nil
  then show ?case using assms(4) by (cases n) auto
next
  case (Cons e rest)
  obtain k where n: "n = Suc k" using Cons.prems(2) by (cases n) auto
  let ?pos = "pos + int (length (concat pre))"
  have at: "holds_at m (element + ?pos) e"
    using assms(2) Cons.prems(1) by (simp add: holds_at_append add.assoc)
  have ok: "elem_ok e" using assms(3) Cons.prems(1) by simp
  have end_pos: "end_pos = ?pos + int (length e) + int (length (concat rest))" using assms(4) Cons.prems(1) by simp
  then have less: "?pos < end_pos" using elem_ok_nonempty [OF ok] by (cases e) auto
  have add: "add_int ?pos (int (length e)) = Ret (?pos + int (length e))"
    using end_pos assms(5,6) by (simp add: add_int_def)
  obtain d c' where H: "handler (element + pos + int (length (concat pre))) (elem_type e) (elem_size e) c = Some (Ret (d, c'))"
      "if d then Fin c' else Inv (pre @ [e]) c'"
    using step [of pre e rest c] Cons.prems by blast
  then have H': "handler (element + ?pos) (elem_type e) (elem_size e) c = Some (Ret (d, c'))" by (simp add: add.assoc)
  have "traverse_loop (Suc k) (\<lambda>_. m) element ?pos end_pos handler c =
      (if d then Some (Ret c') else traverse_loop k (\<lambda>_. m) element (?pos + int (length e)) end_pos handler c')"
    using less H' add elem_header [OF at ok] by simp
  moreover have "\<exists>c''. traverse_loop k (\<lambda>_. m) element (pos + int (length (concat (pre @ [e])))) end_pos handler c' = Some (Ret c'') \<and>
      (Fin c'' \<or> Inv els c'')" if "\<not> d"
    using Cons.prems H(2) that n by (intro Cons.IH) auto
  ultimately show ?case using n H(2) by (cases d) (auto simp: add.assoc)
qed

lemma traverse_inv:
  assumes "\<And>pre e post c. els = pre @ e # post \<Longrightarrow> Inv pre c \<Longrightarrow>
      \<exists>d c'. handler (p + int (length (des_header cls (length (concat els)))) + int (length (concat pre)))
          (elem_type e) (elem_size e) c = Some (Ret (d, c')) \<and> (if d then Fin c' else Inv (pre @ [e]) c')"
    and "holds_at m p (des_bytes cls (concat els))" "des_fits cls (length (concat els))"
    and "\<forall>e \<in> set els. elem_ok e" "length els < n" "Inv [] c"
  shows "\<exists>c'. de_traverse_sequence n (\<lambda>_. m) p handler c = Some (Ret c') \<and> (Fin c' \<or> Inv els c')"
proof -
  let ?hd = "des_header cls (length (concat els))"
  have h: "holds_at m p ?hd" "holds_at m (p + int (length ?hd)) (concat els)"
    using assms(2) by (simp_all add: des_bytes_def holds_at_append)
  have "uint (of_nat (length ?hd) :: u32) = int (length ?hd)"
    using length_des_header [OF assms(3)] by (simp add: uint_nat unat_of_nat_u32)
  moreover have "\<exists>c'. traverse_loop n (\<lambda>_. m) p (int (length ?hd) + int (length (concat ([] :: bytes list))))
      (int (length (des_bytes cls (concat els)))) handler c = Some (Ret c') \<and> (Fin c' \<or> Inv els c')"
    using h(2) assms length_des_header [OF assms(3)]
    by (intro traverse_loop_inv [where els = els]) (auto simp: des_bytes_def)
  ultimately show ?thesis
    using des_header_reads [OF assms(3) h(1)] des_len [OF assms(3,2)]
    by (simp add: de_traverse_sequence_def)
qed

subsection \<open>Trees of elements\<close>

datatype element = Atom bytes | Seq byte "element list"

fun enc :: "element \<Rightarrow> bytes" where
  "enc (Atom bs) = bs"
| "enc (Seq cls es) = des_bytes cls (concat (map enc es))"

fun wf :: "element \<Rightarrow> bool" where
  "wf (Atom bs) \<longleftrightarrow> elem_ok bs \<and> elem_type bs \<noteq> DE_DES"
| "wf (Seq cls es) \<longleftrightarrow> des_fits cls (length (concat (map enc es))) \<and> (\<forall>e \<in> set es. wf e)"

fun nodes :: "element \<Rightarrow> nat" where
  "nodes (Atom bs) = 1"
| "nodes (Seq cls es) = 2 + sum_list (map nodes es)"

definition u32_value :: "bytes \<Rightarrow> u32" where
  "u32_value e = ucast (e ! 4) OR push_bit 8 (ucast (e ! 3)) OR push_bit 16 (ucast (e ! 2)) OR push_bit 24 (ucast (e ! 1))"

text \<open>The 128-bit form of a UUID element.\<close>

definition uuid_of :: "bytes \<Rightarrow> bytes option" where
  "uuid_of e =
     (if elem_type e \<noteq> DE_UUID then None
      else if elem_size e = DE_SIZE_16 then Some (be32 (ucast (u16_at e 1)) @ drop 4 bluetooth_base_uuid)
      else if elem_size e = DE_SIZE_32 then Some (be32 (u32_value e) @ drop 4 bluetooth_base_uuid)
      else if elem_size e = DE_SIZE_128 then Some (take 16 (drop 1 e))
      else None)"

fun uuids :: "element \<Rightarrow> bytes set" where
  "uuids (Atom bs) = set_option (uuid_of bs)"
| "uuids (Seq cls es) = (\<Union>e \<in> set es. uuids e)"

lemma wf_elem_ok: "wf e \<Longrightarrow> elem_ok (enc e)"
  by (cases e) (auto simp: des_elem_ok)

lemma wf_elem_type: "wf e \<Longrightarrow> elem_type (enc e) = DE_DES \<longleftrightarrow> (\<exists>cls es. e = Seq cls es)"
  by (cases e) (auto simp: des_bytes_def des_elem_type)

lemma uuid_prefix: "uuid_add_bluetooth_prefix (replicate 16 0) 0 v = Ret (be32 v @ drop 4 bluetooth_base_uuid)"
proof -
  have "wr_block (replicate 16 0) 0 bluetooth_base_uuid = Ret bluetooth_base_uuid"
    by (simp add: wr_block_def write_at_def bluetooth_base_uuid_def)
  moreover have "big_endian_store_32 bluetooth_base_uuid 0 0 v = wr_block bluetooth_base_uuid 0 (be32 v)"
    by (simp add: be32.store_enc)
  moreover have "wr_block bluetooth_base_uuid 0 (be32 v) = Ret (be32 v @ drop 4 bluetooth_base_uuid)"
    by (simp add: wr_block_def write_at_def bluetooth_base_uuid_def be32_def)
  ultimately show ?thesis by (simp add: uuid_add_bluetooth_prefix_def)
qed

lemma normalized_uuid:
  assumes "elem_ok e" "holds_at m p e"
  shows "de_get_normalized_uuid m p = Ret (uuid_of e)"
proof (cases "elem_type e = DE_UUID")
  case False
  then show ?thesis
    using elem_header [OF assms(2,1)] by (simp add: de_get_normalized_uuid_def uuid_of_def)
next
  case True
  have l: "length e = 1 + 2 ^ unat (elem_size e)" if "elem_size e \<le> 4"
    using elem_fixed_length [OF assms(1) that] True by simp
  consider "elem_size e = 1" | "elem_size e = 2" | "elem_size e = 4" | "elem_size e \<notin> {1, 2, 4}" by auto
  then show ?thesis
  proof cases
    case 1
    then have "big_endian_read_16 m p 1 = Ret (ucast (u16_at e 1))"
      using l read_u16_elem [OF assms(2), of 1] by simp
    then show ?thesis
      using True 1 elem_header [OF assms(2,1)] by (simp add: de_get_normalized_uuid_def uuid_of_def uuid_prefix)
  next
    case 2
    then have "length e = 5" using l by simp
    then have "rd m (p + int 1) = Ret (e ! 1)" "rd m (p + int 2) = Ret (e ! 2)" "rd m (p + int 3) = Ret (e ! 3)" "rd m (p + int 4) = Ret (e ! 4)"
      by (intro holds_at_rd [OF assms(2)]; simp)+
    then have "big_endian_read_32 m p 1 = Ret (u32_value e)"
      by (simp add: big_endian_read_32_def u32_value_def add.assoc)
    then show ?thesis
      using True 2 elem_header [OF assms(2,1)] by (simp add: de_get_normalized_uuid_def uuid_of_def uuid_prefix)
  next
    case 3
    then have len: "length e = 17" using l by simp
    have "holds_at m (p + 1) (drop 1 e)"
      using assms(2) holds_at_append [of m p "take 1 e" "drop 1 e"] len by simp
    then have "rd_block m (p + 1) 16 = Ret (drop 1 e)" using len by (intro holds_at_block) simp_all
    then show ?thesis
      using True 3 len elem_header [OF assms(2,1)] by (simp add: de_get_normalized_uuid_def uuid_of_def)
  next
    case 4
    then show ?thesis
      using True elem_header [OF assms(2,1)] by (simp add: de_get_normalized_uuid_def uuid_of_def)
  qed
qed

subsection \<open>Search for a UUID\<close>

lemma memcmp_16: "length a = 16 \<Longrightarrow> length b = 16 \<Longrightarrow> memcmp a b = 0 \<longleftrightarrow> a = b"
  by (simp add: memcmp_eq_0)

lemma length_uuid_of: "elem_ok e \<Longrightarrow> uuid_of e = Some v \<Longrightarrow> length v = 16"
  using elem_fixed_length [of e] by (auto simp: uuid_of_def be32_def bluetooth_base_uuid_def split: if_splits)

lemma contains:
  assumes "wf (Seq cls es)" "holds_at m p (enc (Seq cls es))" "nodes (Seq cls es) \<le> n" "length u = 16"
  shows "sdp_record_contains_UUID128 n m p u = Some (Ret (u \<in> uuids (Seq cls es)))"
  using assms
proof (induction n arbitrary: cls es p)
  case 0
  then show ?case by simp
next
  case (Suc n)
  let ?els = "map enc es"
  have "es = [] \<or> length es \<le> sum_list (map nodes es)"
  proof -
    have "1 \<le> nodes e" for e by (cases e) auto
    then have "length xs \<le> sum_list (map nodes xs)" for xs
      by (induction xs) (auto simp: Suc_le_eq add_le_mono trans_le_add1 intro: add_mono [of 1 _ "length _", simplified])
    then show ?thesis by blast
  qed
  then have len: "length ?els < Suc n" using Suc.prems(3) by auto
  let ?a = "p + int (length (des_header cls (length (concat ?els))))"
  have data: "holds_at m ?a (concat ?els)"
    using Suc.prems(2) by (simp add: des_bytes_def holds_at_append)
  have step: "\<exists>d c'. sdp_traversal_contains_UUID128 (\<lambda>element. sdp_record_contains_UUID128 n m element u) m u
        (?a + int (length (concat pre))) (elem_type e) (elem_size e) c = Some (Ret (d, c')) \<and>
      (if d then c' \<and> u \<in> uuids (Seq cls es) else \<not> c' \<and> (\<forall>x \<in> set (take (length (pre @ [e])) es). u \<notin> uuids x))"
    if split: "?els = pre @ e # post" and inv: "\<not> c \<and> (\<forall>x \<in> set (take (length pre) es). u \<notin> uuids x)" for pre e post c
  proof -
    obtain es1 x es2 where es: "es = es1 @ x # es2" "pre = map enc es1" "e = enc x"
      using split by (auto simp: map_eq_append_conv map_eq_Cons_conv)
    have x: "wf x" "nodes x \<le> n" using Suc.prems(1,3) es by auto
    have at: "holds_at m (?a + int (length (concat pre))) e"
      using data by (simp add: es holds_at_append)
    show ?thesis
    proof (cases x)
      case (Atom bs)
      then have "de_get_normalized_uuid m (?a + int (length (concat pre))) = Ret (uuid_of bs)"
        using x at es by (intro normalized_uuid) auto
      moreover have "uuid_of bs = None" if "elem_type bs \<noteq> DE_UUID" using that by (simp add: uuid_of_def)
      moreover have "length v = 16" if "uuid_of bs = Some v" for v using length_uuid_of [of bs v] x Atom that by simp
      ultimately show ?thesis
        using x inv es Atom Suc.prems(4)
        by (auto simp: sdp_traversal_contains_UUID128_def memcmp_16 split: option.splits)
    next
      case (Seq cls' es')
      then have "sdp_record_contains_UUID128 n m (?a + int (length (concat pre))) u = Some (Ret (u \<in> uuids x))"
        using Suc.IH [of cls' es'] x at es Suc.prems(4) by simp
      moreover have "elem_type e = DE_DES" using wf_elem_type [OF x(1)] Seq es by auto
      ultimately show ?thesis
        using inv es by (auto simp: sdp_traversal_contains_UUID128_def)
    qed
  qed
  have "\<exists>c'. de_traverse_sequence (Suc n) (\<lambda>_. m) p
        (sdp_traversal_contains_UUID128 (\<lambda>element. sdp_record_contains_UUID128 n m element u) m u) False = Some (Ret c') \<and>
      ((c' \<and> u \<in> uuids (Seq cls es)) \<or> (\<not> c' \<and> (\<forall>x \<in> set (take (length ?els) es). u \<notin> uuids x)))"
  proof (rule traverse_inv [where els = ?els and Fin = "\<lambda>c. c \<and> u \<in> uuids (Seq cls es)"
        and Inv = "\<lambda>pre c. \<not> c \<and> (\<forall>x \<in> set (take (length pre) es). u \<notin> uuids x)"])
    show "holds_at m p (des_bytes cls (concat ?els))" "des_fits cls (length (concat ?els))"
      using Suc.prems(1,2) by simp_all
    show "\<forall>e \<in> set ?els. elem_ok e" using Suc.prems(1) wf_elem_ok by auto
  next
    fix pre e post c
    assume "?els = pre @ e # post" "\<not> c \<and> (\<forall>x \<in> set (take (length pre) es). u \<notin> uuids x)"
    then show "\<exists>d c'. sdp_traversal_contains_UUID128 (\<lambda>element. sdp_record_contains_UUID128 n m element u) m u
          (?a + int (length (concat pre))) (elem_type e) (elem_size e) c = Some (Ret (d, c')) \<and>
        (if d then c' \<and> u \<in> uuids (Seq cls es) else \<not> c' \<and> (\<forall>x \<in> set (take (length (pre @ [e])) es). u \<notin> uuids x))"
      by (rule step)
  qed (use len in simp_all)
  then show ?case by auto
qed

text \<open>The record matches a pattern, a sequence of UUID elements.\<close>

lemma matches:
  assumes rec: "wf (Seq cls es)" "holds_at m p (enc (Seq cls es))" "nodes (Seq cls es) \<le> n"
    and pattern: "holds_at pm q (des_bytes pcls (concat us))" "des_fits pcls (length (concat us))"
      "\<forall>e \<in> set us. elem_ok e" "length us < n"
  shows "sdp_record_matches_service_search_pattern n m p pm q =
    Some (Ret (\<forall>e \<in> set us. \<exists>v. uuid_of e = Some v \<and> v \<in> uuids (Seq cls es)))"
proof -
  let ?ok = "\<lambda>e. \<exists>v. uuid_of e = Some v \<and> v \<in> uuids (Seq cls es)"
  let ?a = "q + int (length (des_header pcls (length (concat us))))"
  have data: "holds_at pm ?a (concat us)" using pattern(1) by (simp add: des_bytes_def holds_at_append)
  have step: "\<exists>d c'. sdp_traversal_match_pattern n m p pm (?a + int (length (concat pre))) (elem_type e) (elem_size e) c =
        Some (Ret (d, c')) \<and>
      (if d then \<not> c' \<and> \<not> (\<forall>e \<in> set us. ?ok e) else c' \<and> (\<forall>e \<in> set (pre @ [e]). ?ok e))"
    if split: "us = pre @ e # post" and inv: "c \<and> (\<forall>e \<in> set pre. ?ok e)" for pre e post c
  proof -
    have at: "holds_at pm (?a + int (length (concat pre))) e" using data by (simp add: split holds_at_append)
    have ok: "elem_ok e" using pattern(3) split by simp
    show ?thesis
    proof (cases "uuid_of e")
      case None
      then show ?thesis
        using normalized_uuid [OF ok at] split
        by (intro exI [of _ True] exI [of _ False]) (simp add: sdp_traversal_match_pattern_def)
    next
      case (Some v)
      then show ?thesis
        using normalized_uuid [OF ok at] split inv contains [OF rec, of v] length_uuid_of [OF ok Some]
        by (auto simp: sdp_traversal_match_pattern_def simp del: uuids.simps)
    qed
  qed
  have "\<exists>c'. de_traverse_sequence n (\<lambda>_. pm) q (sdp_traversal_match_pattern n m p pm) True = Some (Ret c') \<and>
      ((\<not> c' \<and> \<not> (\<forall>e \<in> set us. ?ok e)) \<or> (c' \<and> (\<forall>e \<in> set us. ?ok e)))"
  proof (rule traverse_inv [where els = us and Inv = "\<lambda>pre c. c \<and> (\<forall>e \<in> set pre. ?ok e)"
        and Fin = "\<lambda>c. \<not> c \<and> \<not> (\<forall>e \<in> set us. ?ok e)", OF _ pattern])
    fix pre e post c
    assume "us = pre @ e # post" "c \<and> (\<forall>e \<in> set pre. ?ok e)"
    then show "\<exists>d c'. sdp_traversal_match_pattern n m p pm (?a + int (length (concat pre))) (elem_type e) (elem_size e) c =
          Some (Ret (d, c')) \<and>
        (if d then \<not> c' \<and> \<not> (\<forall>e \<in> set us. ?ok e) else c' \<and> (\<forall>e \<in> set (pre @ [e]). ?ok e))"
      by (rule step)
  qed simp
  then show ?thesis by (elim exE conjE disjE) (simp_all add: sdp_record_matches_service_search_pattern_def del: uuids.simps)
qed

end
