(* ===== verification/SdpFilter.thy ===== *)
theory SdpFilter
  imports SdpAttr
begin

text \<open>
  The copy of the attributes that a client asked for, from an offset on and up to a maximum,
  as the server does for a fragmented response; and the size and the one-shot variants.
\<close>

subsection \<open>One range\<close>

definition sel :: "bytes list \<Rightarrow> (u16 \<times> bytes) list \<Rightarrow> bytes" where
  "sel ids as = attrs_bytes (filter (\<lambda>(i, e). selected ids i) as)"

lemma sel_simps [simp]:
  "sel ids [] = []" "sel ids (as @ bs) = sel ids as @ sel ids bs"
  "sel ids [(i, e)] = (if selected ids i then attr_bytes (i, e) else [])"
  by (simp_all add: sel_def)

text \<open>Nothing before the address \<open>b\<close> has changed.\<close>

definition kept :: "int \<Rightarrow> bytes \<Rightarrow> bytes \<Rightarrow> bool" where
  "kept b m m' \<longleftrightarrow> length m' = length m \<and> take (nat b) m' = take (nat b) m"

lemma kept_length: "kept b m m' \<Longrightarrow> length m' = length m"
  by (simp add: kept_def)

lemma kept_refl [simp]: "kept b m m"
  by (simp add: kept_def)

lemma kept_holds:
  assumes "kept b m m'" "holds_at m q xs" "q + int (length xs) \<le> b"
  shows "holds_at m' q xs"
proof -
  have "m' ! i = m ! i" if "i < nat b" "i < length m" for i
    using assms(1) that nth_take [of i "nat b" m] nth_take [of i "nat b" m'] by (simp add: kept_def)
  then show ?thesis using assms by (auto simp: holds_at_nth kept_def)
qed

lemma kept_frame:
  assumes "length m' = length m" "\<And>q xs. holds_at m q xs \<Longrightarrow> q + int (length xs) \<le> b \<Longrightarrow> holds_at m' q xs" "0 \<le> b"
  shows "kept b m m'"
proof -
  have "holds_at m 0 (take (nat b) m @ drop (nat b) m)" by (simp add: holds_at_def)
  then have "holds_at m' 0 (take (nat b) m)" using assms(3) by (intro assms(2)) (simp_all only: holds_at_append, simp)
  then show ?thesis using assms(1) by (simp add: kept_def holds_at_def min_def split: if_splits)
qed

lemma kept_trans: "kept b m m' \<Longrightarrow> kept b' m' m'' \<Longrightarrow> b \<le> b' \<Longrightarrow> kept b m m''"
  unfolding kept_def by (metis nat_mono take_take min.absorb1)

text \<open>After the bytes \<open>s\<close> of the selection, with a window of \<open>mx\<close> bytes at offset \<open>start\<close>.\<close>

definition filt :: "nat \<Rightarrow> nat \<Rightarrow> int \<Rightarrow> bytes \<Rightarrow> bytes \<Rightarrow> filter_context \<Rightarrow> bool" where
  "filt start mx b M s c \<longleftrightarrow>
     fc_startOffset c = of_nat (start - length s) \<and> length (drop start s) \<le> mx \<and>
     fc_usedBytes c = of_nat (length (drop start s)) \<and> fc_maxBytes c = of_nat (mx - length (drop start s)) \<and>
     fc_buffer c = b + int (length (drop start s)) \<and> holds_at (fc_mem c) b (drop start s) \<and>
     kept b M (fc_mem c) \<and> fc_complete c"

text \<open>The window is full.\<close>

definition filt_full :: "nat \<Rightarrow> nat \<Rightarrow> int \<Rightarrow> bytes \<Rightarrow> bytes \<Rightarrow> filter_context \<Rightarrow> bool" where
  "filt_full start mx b M s c \<longleftrightarrow> mx < length (drop start s) \<and> fc_usedBytes c = of_nat mx \<and>
     holds_at (fc_mem c) b (take mx (drop start s)) \<and> kept b M (fc_mem c)"

lemma filt_full_more: "filt_full start mx b M s c \<Longrightarrow> filt_full start mx b M (s @ t) c"
  by (auto simp: filt_full_def)

lemma u16_of_nat [simp]: "n < 65536 \<Longrightarrow> unat (of_nat n :: u16) = n"
  by (simp add: unat_of_nat)

lemma uint_u16_of_nat: "n < 65536 \<Longrightarrow> uint (of_nat n :: u16) = int n"
  by (simp add: uint_nat)

lemma less_u16: "a < 65536 \<Longrightarrow> b < 65536 \<Longrightarrow> (of_nat a :: u16) < of_nat b \<longleftrightarrow> a < b"
  by (simp add: word_less_nat_alt)

lemma filt_skip:
  assumes "filt start mx b M s c" "length x \<le> start - length s"
  shows "filt start mx b M (s @ x) (c\<lparr>fc_startOffset := of_nat (start - length s - length x)\<rparr>)"
  using assms by (simp add: filt_def diff_diff_eq)

text \<open>\<open>spd_append_range\<close> in numbers: \<open>so\<close> bytes of the range are skipped, \<open>k\<close> are copied.\<close>

lemma append_range_eq:
  assumes c: "fc_startOffset c = of_nat so" "fc_maxBytes c = of_nat room"
    and bounds: "so < l" "l < 65536" "room < 65536" and k: "k = min (l - so) room"
    and rd: "holds_at dm (dp + int so) bs" "length bs = k"
    and wr: "0 \<le> fc_buffer c" "fc_buffer c + int k \<le> int (length (fc_mem c))"
  obtains m' where "spd_append_range c (of_nat l) dm dp =
      Ret (\<not> room < l - so, c\<lparr>fc_mem := m', fc_usedBytes := fc_usedBytes c + of_nat k,
        fc_buffer := fc_buffer c + int k, fc_maxBytes := of_nat (room - k), fc_startOffset := 0\<rparr>)"
    "length m' = length (fc_mem c)" "holds_at m' (fc_buffer c) bs"
    "\<And>q xs. holds_at (fc_mem c) q xs \<Longrightarrow> q + int (length xs) \<le> fc_buffer c \<Longrightarrow> holds_at m' q xs"
proof -
  have rem: "of_nat l - of_nat so = (of_nat (l - so) :: u16)" using bounds(1) by (simp add: of_nat_diff)
  have less: "of_nat room < (of_nat (l - so) :: u16) \<longleftrightarrow> room < l - so" using bounds by (subst less_u16) auto
  have so: "uint (of_nat so :: u16) = int so" and kk: "unat (of_nat k :: u16) = k" "uint (of_nat k :: u16) = int k"
    using bounds k by (auto simp: uint_u16_of_nat min_def)
  have sel: "(if \<not> room < l - so then of_nat (l - so) else of_nat room) = (of_nat k :: u16)"
    using k by (auto simp: min_def)
  have left: "of_nat room - of_nat k = (of_nat (room - k) :: u16)" using k by (simp add: of_nat_diff)
  have bw: "fc_buffer c + int (length bs) \<le> int (length (fc_mem c))" using wr(2) rd(2) by simp
  obtain m' where m': "wr_block (fc_mem c) (fc_buffer c) bs = Ret m'" "length m' = length (fc_mem c)"
      "holds_at m' (fc_buffer c) bs"
      "\<And>q xs. holds_at (fc_mem c) q xs \<Longrightarrow> q + int (length xs) \<le> fc_buffer c \<or> fc_buffer c + int (length bs) \<le> q \<Longrightarrow> holds_at m' q xs"
    by (rule wr_block_Ret [OF wr(1) bw]) (rule that)
  have "rd_block dm (dp + int so) k = Ret bs" using rd by (intro holds_at_block) simp_all
  then have "spd_append_range c (of_nat l) dm dp =
      Ret (\<not> room < l - so, c\<lparr>fc_mem := m', fc_usedBytes := fc_usedBytes c + of_nat k,
        fc_buffer := fc_buffer c + int k, fc_maxBytes := of_nat (room - k), fc_startOffset := 0\<rparr>)"
    using m'(1) by (simp only: spd_append_range_def Let_def c rem less sel so kk left bind_outcome_simps)
  then show ?thesis by (rule that) (use m' in auto)
qed

lemma append_range:
  assumes f: "filt start mx b M s c" and bounds: "start < 65536" "mx < 65536" "0 \<le> b" "b + int mx \<le> int (length M)"
    and x: "holds_at dm dp x" "length x < 65536" "start - length s < length x"
  shows "\<exists>ok c'. spd_append_range c (of_nat (length x)) dm dp = Ret (ok, c') \<and>
    (if ok then filt start mx b M (s @ x) c' else filt_full start mx b M (s @ x) c')"
proof -
  define so where "so = start - length s"
  define u where "u = length (drop start s)"
  define k where "k = min (length x - so) (mx - u)"
  have c: "fc_startOffset c = of_nat so" "fc_maxBytes c = of_nat (mx - u)" "fc_usedBytes c = of_nat u"
    "fc_buffer c = b + int u" "u \<le> mx" "holds_at (fc_mem c) b (drop start s)" "kept b M (fc_mem c)" "fc_complete c"
    using f by (simp_all add: filt_def so_def u_def)
  have drop: "drop start (s @ x) = drop start s @ drop so x" by (simp add: so_def)
  have "x = take so x @ take k (drop so x) @ drop k (drop so x)" by (simp only: append_take_drop_id)
  then have "holds_at dm dp (take so x @ take k (drop so x) @ drop k (drop so x))" using x(1) by simp
  then have dx: "holds_at dm (dp + int so) (take k (drop so x))"
    using x(3) by (simp add: holds_at_append so_def)
  have h: "so < length x" "mx - u < 65536" "length (take k (drop so x)) = k" "0 \<le> fc_buffer c"
    "fc_buffer c + int k \<le> int (length (fc_mem c))"
    using x(3) bounds c(4,5) kept_length [OF c(7)] by (auto simp: so_def k_def)
  obtain m' where m': "spd_append_range c (of_nat (length x)) dm dp =
      Ret (\<not> mx - u < length x - so, c\<lparr>fc_mem := m', fc_usedBytes := fc_usedBytes c + of_nat k,
        fc_buffer := fc_buffer c + int k, fc_maxBytes := of_nat (mx - u - k), fc_startOffset := 0\<rparr>)"
    "length m' = length (fc_mem c)" "holds_at m' (fc_buffer c) (take k (drop so x))"
    "\<And>q xs. holds_at (fc_mem c) q xs \<Longrightarrow> q + int (length xs) \<le> fc_buffer c \<Longrightarrow> holds_at m' q xs"
    by (rule append_range_eq [OF c(1,2) h(1) x(2) h(2) k_def dx h(3-5)]) (rule that)
  have "kept b (fc_mem c) m'" using c(4) bounds(3) by (intro kept_frame m'(2,4)) simp_all
  then have kept: "kept b M m'" by (rule kept_trans [OF c(7)]) simp
  have "holds_at m' b (drop start s)" using c(4,6) by (intro m'(4)) (simp_all add: u_def)
  then have out: "holds_at m' b (drop start s @ take k (drop so x))"
    using m'(3) c(4) by (simp add: holds_at_append u_def)
  have uk: "fc_usedBytes c + of_nat k = of_nat (u + k)" using c(3) by simp
  show ?thesis
  proof (cases "length x - so \<le> mx - u")
    case True
    then have k: "k = length x - so" by (simp add: k_def)
    have "filt start mx b M (s @ x) (c\<lparr>fc_mem := m', fc_usedBytes := of_nat (u + k),
        fc_buffer := fc_buffer c + int k, fc_maxBytes := of_nat (mx - u - k), fc_startOffset := 0\<rparr>)"
    proof -
      have l: "length (drop start (s @ x)) = u + k" using k x(3) by (simp add: so_def u_def)
      have "start - length (s @ x) = 0" using x(3) by (simp add: so_def)
      then show ?thesis
        unfolding filt_def l using True c out kept k by (simp add: drop so_def diff_diff_eq)
    qed
    with True m'(1) uk show ?thesis by auto
  next
    case False
    then have k: "k = mx - u" "u + k = mx" using c(5) by (simp_all add: k_def)
    have "filt_full start mx b M (s @ x) (c\<lparr>fc_mem := m', fc_usedBytes := of_nat (u + k),
        fc_buffer := fc_buffer c + int k, fc_maxBytes := of_nat (mx - u - k), fc_startOffset := 0\<rparr>)"
      using False c out kept k unfolding filt_full_def drop by (auto simp: u_def)
    with False m'(1) uk show ?thesis by auto
  qed
qed

subsection \<open>The filter\<close>

lemma id_buffer_eq: "id_buffer i = Ret (0x09 # be16 i)"
proof -
  have "de_store_descriptor (replicate 3 0) 0 1 1 = Ret [9, 0, 0]"
    by (simp add: de_store_descriptor_def wr_def numeral_3_eq_3)
  moreover have "big_endian_store_16 [9, 0, 0] 0 1 i = wr_block [9, 0, 0] 1 (be16 i)" by (simp add: be16.store_enc)
  moreover have "wr_block [9, 0, 0] 1 (be16 i) = Ret (9 # be16 i)" by (simp add: wr_block_def write_at_def be16_def)
  ultimately show ?thesis by (simp add: id_buffer_def)
qed

lemma attr_bytes_split: "attr_bytes (i, e) = (0x09 # be16 i) @ e"
  by (simp add: attr_bytes_def)

lemma filter_handler:
  assumes ids: "ids_at am ap ids" "length ids < n"
    and f: "filt start mx b M s c" and bounds: "start < 65536" "mx < 65536" "0 \<le> b" "b + int mx \<le> int (length M)"
    and e: "holds_at m a e" "elem_ok e" "length e < 65536"
  shows "\<exists>d c'. sdp_traversal_filter_attributes n m am ap i a ty sz c = Some (Ret (d, c')) \<and>
    (if d then filt_full start mx b M (s @ sel ids [(i, e)]) c' \<and> \<not> fc_complete c'
     else filt start mx b M (s @ sel ids [(i, e)]) c')"
proof (cases "selected ids i")
  case False
  then show ?thesis
    using f constains_id [OF ids, of i]
    by (intro exI [of _ False] exI [of _ c]) (simp add: sdp_traversal_filter_attributes_def)
next
  case True
  let ?x = "0x09 # be16 i"
  have so: "uint (fc_startOffset c) = int (start - length s)" "unat (fc_startOffset c) = start - length s"
    using f bounds(1) by (simp_all add: filt_def uint_u16_of_nat)
  have len: "de_get_len m a = Ret (int (length e))" by (rule elem_header [OF e(1,2)])
  define V where "V = (\<lambda>c1. if uint (fc_startOffset c1) \<ge> int (length e) then
         Some (Ret (False, c1\<lparr>fc_startOffset := word_of_int (uint (fc_startOffset c1) - int (length e))\<rparr>))
       else bind_result (Some (spd_append_range c1 (word_of_int (int (length e))) m a)) (\<lambda>(ok, c).
         if \<not> ok then Some (Ret (True, c\<lparr>fc_complete := False\<rparr>)) else Some (Ret (False, c))))"
  have val: "\<exists>d c2. V c1 = Some (Ret (d, c2)) \<and>
      (if d then filt_full start mx b M (s' @ e) c2 \<and> \<not> fc_complete c2 else filt start mx b M (s' @ e) c2)"
    if f1: "filt start mx b M s' c1" for s' c1
  proof -
    have so1: "uint (fc_startOffset c1) = int (start - length s')"
      using f1 bounds(1) by (simp add: filt_def uint_u16_of_nat)
    show ?thesis
    proof (cases "length e \<le> start - length s'")
      case True
      then have "word_of_int (int (start - length s') - int (length e)) = (of_nat (start - length s' - length e) :: u16)"
        by (simp flip: of_nat_diff)
      with True filt_skip [OF f1 True] so1 show ?thesis by (intro exI [of _ False]) (simp add: V_def)
    next
      case False
      then obtain ok c2 where "spd_append_range c1 (of_nat (length e)) m a = Ret (ok, c2)"
          "if ok then filt start mx b M (s' @ e) c2 else filt_full start mx b M (s' @ e) c2"
        using append_range [OF f1 bounds e(1,3)] by auto
      with False so1 show ?thesis by (cases ok) (auto simp: V_def filt_full_def)
    qed
  qed
  have sx: "s @ sel ids [(i, e)] = (s @ ?x) @ e" using True by (simp add: attr_bytes_split)
  show ?thesis
  proof (cases "3 \<le> start - length s")
    case t: True
    have "filt start mx b M (s @ ?x) (c\<lparr>fc_startOffset := fc_startOffset c - 3\<rparr>)"
    proof -
      have "fc_startOffset c - 3 = of_nat (start - length s - length ?x)"
        using f t by (simp add: filt_def of_nat_diff)
      moreover have "length ?x \<le> start - length s" using t by simp
      ultimately show ?thesis using filt_skip [OF f, of ?x] by metis
    qed
    note f1 = this
    have "3 \<le> fc_startOffset c" using so(2) t by (simp add: word_le_nat_alt)
    then have "sdp_traversal_filter_attributes n m am ap i a ty sz c = V (c\<lparr>fc_startOffset := fc_startOffset c - 3\<rparr>)"
      using True constains_id [OF ids, of i] len by (simp add: sdp_traversal_filter_attributes_def V_def)
    with val [OF f1] show ?thesis unfolding sx by simp
  next
    case t: False
    have lt: "\<not> 3 \<le> fc_startOffset c" using so(2) t by (simp add: word_le_nat_alt)
    obtain ok c1 where c1: "spd_append_range c 3 ?x 0 = Ret (ok, c1)"
        "if ok then filt start mx b M (s @ ?x) c1 else filt_full start mx b M (s @ ?x) c1"
      using append_range [OF f bounds holds_at_self, of ?x] t by auto
    show ?thesis
    proof (cases ok)
      case ok: True
      then have "filt start mx b M (s @ ?x) c1" using c1(2) by simp
      note f1 = this
      have "sdp_traversal_filter_attributes n m am ap i a ty sz c = V c1"
        using True lt ok c1(1) constains_id [OF ids, of i] len
        by (simp add: sdp_traversal_filter_attributes_def V_def id_buffer_eq)
      with val [OF f1] show ?thesis unfolding sx by simp
    next
      case ok: False
      then have "filt_full start mx b M ((s @ ?x) @ e) c1" using c1(2) by (simp add: filt_full_more del: append_assoc)
      then have "filt_full start mx b M ((s @ ?x) @ e) (c1\<lparr>fc_complete := False\<rparr>)" by (simp add: filt_full_def)
      moreover have "sdp_traversal_filter_attributes n m am ap i a ty sz c = Some (Ret (True, c1\<lparr>fc_complete := False\<rparr>))"
        using True lt ok c1(1) constains_id [OF ids, of i]
        by (simp add: sdp_traversal_filter_attributes_def id_buffer_eq)
      ultimately show ?thesis unfolding sx by (intro exI [of _ True]) simp
    qed
  qed
qed

lemma filter_attributes:
  assumes r: "record_at m p cls as" "length (attrs_bytes as) < 65536" "length as < n"
    and ids: "ids_at am ap ids" "length ids < n"
    and win: "0 \<le> b" "b + int (unat maxBytes) \<le> int (length bm)"
  shows "\<exists>bm'. sdp_filter_attributes_in_attributeIDList n m p am ap startOffset maxBytes bm b =
      Some (Ret (bm', of_nat (length (take (unat maxBytes) (drop (unat startOffset) (sel ids as)))),
        length (drop (unat startOffset) (sel ids as)) \<le> unat maxBytes)) \<and>
    holds_at bm' b (take (unat maxBytes) (drop (unat startOffset) (sel ids as))) \<and> kept b bm bm'"
proof -
  let ?st = "unat startOffset" and ?mx = "unat maxBytes"
  let ?c0 = "\<lparr>fc_mem = bm, fc_buffer = b, fc_startOffset = startOffset, fc_maxBytes = maxBytes,
        fc_usedBytes = 0, fc_complete = True\<rparr>"
  have rec: "holds_at m p (des_bytes cls (attrs_bytes as))" "des_fits cls (length (attrs_bytes as))" "\<forall>(i, e) \<in> set as. elem_ok e"
    using r(1) by (auto simp: record_at_def)
  have "\<exists>c'. sdp_attribute_list_traverse_sequence n (\<lambda>_. m) p (sdp_traversal_filter_attributes n m am ap) ?c0 = Some (Ret c') \<and>
    (filt_full ?st ?mx b bm (sel ids as) c' \<and> \<not> fc_complete c' \<or> filt ?st ?mx b bm (sel ids as) c')"
  proof (rule attribute_list_inv [where cls = cls and Inv = "\<lambda>pre. filt ?st ?mx b bm (sel ids pre)"
        and Fin = "\<lambda>c. filt_full ?st ?mx b bm (sel ids as) c \<and> \<not> fc_complete c", OF _ rec r(3)])
    show "filt ?st ?mx b bm (sel ids []) ?c0"
      using win(1) order_trans [OF _ win(2), of b] by (simp add: filt_def)
  next
    fix pre i e post c
    let ?a = "p + int (length (des_header cls (length (attrs_bytes as)))) + int (length (attrs_bytes pre)) + 3"
    assume as: "as = pre @ (i, e) # post" and inv: "filt ?st ?mx b bm (sel ids pre) c"
    have "holds_at m ?a e"
      using record_holds_value [of m p cls pre i e post] r(1) by (simp add: as value_addr_def)
    moreover have "elem_ok e" "length e < 65536" using rec(3) r(2) by (auto simp: as)
    ultimately obtain d c' where c': "sdp_traversal_filter_attributes n m am ap i ?a (elem_type e) (elem_size e) c = Some (Ret (d, c'))"
        "if d then filt_full ?st ?mx b bm (sel ids pre @ sel ids [(i, e)]) c' \<and> \<not> fc_complete c'
         else filt ?st ?mx b bm (sel ids pre @ sel ids [(i, e)]) c'"
      using filter_handler [OF ids inv unat_u16_less unat_u16_less win, of m ?a e i "elem_type e" "elem_size e"] by blast
    have more: "sel ids as = (sel ids pre @ sel ids [(i, e)]) @ sel ids post"
      using sel_simps(2) [of ids "[(i, e)]" post] by (simp add: as)
    have next_pre: "sel ids (pre @ [(i, e)]) = sel ids pre @ sel ids [(i, e)]" by (rule sel_simps(2))
    show "\<exists>d c'. sdp_traversal_filter_attributes n m am ap i ?a (elem_type e) (elem_size e) c = Some (Ret (d, c')) \<and>
        (if d then filt_full ?st ?mx b bm (sel ids as) c' \<and> \<not> fc_complete c'
         else filt ?st ?mx b bm (sel ids (pre @ [(i, e)])) c')"
    proof (cases d)
      case True
      then have "filt_full ?st ?mx b bm (sel ids as) c'" "\<not> fc_complete c'"
        using c'(2) filt_full_more unfolding more by (simp_all only: if_True) blast+
      with True c'(1) show ?thesis by metis
    next
      case False
      with c' show ?thesis unfolding next_pre by metis
    qed
  qed
  then obtain c' where c': "sdp_attribute_list_traverse_sequence n (\<lambda>_. m) p (sdp_traversal_filter_attributes n m am ap) ?c0 = Some (Ret c')"
      "filt_full ?st ?mx b bm (sel ids as) c' \<and> \<not> fc_complete c' \<or> filt ?st ?mx b bm (sel ids as) c'" by blast
  from c'(2) show ?thesis
  proof
    assume "filt_full ?st ?mx b bm (sel ids as) c' \<and> \<not> fc_complete c'"
    then show ?thesis using c'(1) by (simp add: sdp_filter_attributes_in_attributeIDList_def filt_full_def min_def)
  next
    assume "filt ?st ?mx b bm (sel ids as) c'"
    then show ?thesis using c'(1) by (simp add: sdp_filter_attributes_in_attributeIDList_def filt_def min_def)
  qed
qed

subsection \<open>Size and reassembly\<close>

lemma filtered_size:
  assumes r: "record_at m p cls as" "length (attrs_bytes as) < 65536" "length as < n"
    and ids: "ids_at am ap ids" "length ids < n"
  shows "spd_get_filtered_size n m p am ap = Some (Ret (of_nat (length (sel ids as))))"
proof -
  have rec: "holds_at m p (des_bytes cls (attrs_bytes as))" "des_fits cls (length (attrs_bytes as))" "\<forall>(i, e) \<in> set as. elem_ok e"
    using r(1) by (auto simp: record_at_def)
  let ?h = "\<lambda>i a e sz. (False, if selected ids i then word_of_int (uint sz + (3 + int (length e))) else sz)"
  have "spd_get_filtered_size n m p am ap =
    Some (Ret (visit_attrs ?h (p + int (length (des_header cls (length (attrs_bytes as))))) as 0))"
    unfolding spd_get_filtered_size_def
  proof (rule attribute_list_traverse [OF _ rec r(3)])
    fix i a e and sz :: u16
    assume "(i, e) \<in> set as" "holds_at m a e"
    then have "de_get_len m a = Ret (int (length e))" using rec(3) by (auto intro: elem_header)
    then show "sdp_traversal_get_filtered_size n m am ap i a (elem_type e) (elem_size e) sz = Some (Ret (?h i a e sz)) \<and>
      (\<not> fst (?h i a e sz) \<longrightarrow> m = m)"
      using constains_id [OF ids, of i] by (simp add: sdp_traversal_get_filtered_size_def)
  qed simp
  moreover have "visit_attrs ?h a as (of_nat k) = of_nat (k + length (sel ids as))" for a k and as :: "(u16 \<times> bytes) list"
  proof (induction as arbitrary: a k)
    case (Cons ie as)
    obtain i e where ie: "ie = (i, e)" by (cases ie)
    have "(word_of_int (uint (of_nat k :: u16) + (3 + int (length e))) :: u16) = of_nat (k + (3 + length e))"
      by simp
    then show ?case using Cons [of _ k] Cons [of _ "k + (3 + length e)"] sel_simps(2) [of ids "[ie]" as] ie
      by (simp add: add.assoc)
  qed simp
  from this [of "p + int (length (des_header cls (length (attrs_bytes as))))" as 0] have "visit_attrs ?h (p + int (length (des_header cls (length (attrs_bytes as))))) as 0 =
      of_nat (length (sel ids as))" by simp
  ultimately show ?thesis by simp
qed

text \<open>
  A client that asks for one fragment after the other, each of at most \<open>mx\<close> bytes and starting
  where the last one ended, until the record is complete.
\<close>

fun collect :: "nat \<Rightarrow> nat \<Rightarrow> bytes \<Rightarrow> int \<Rightarrow> bytes \<Rightarrow> int \<Rightarrow> u16 \<Rightarrow> u16 \<Rightarrow> bytes \<Rightarrow> int \<Rightarrow> bytes option" where
  "collect 0 n m p am ap start mx bm b = None"
| "collect (Suc k) n m p am ap start mx bm b =
     (case sdp_filter_attributes_in_attributeIDList n m p am ap start mx bm b of
        Some (Ret (bm', used, complete)) \<Rightarrow>
          (case rd_block bm' b (unat used) of
             Undef \<Rightarrow> None
           | Ret out \<Rightarrow>
               if complete then Some out
               else map_option ((@) out) (collect k n m p am ap (start + used) mx bm b))
      | _ \<Rightarrow> None)"

lemma sel_length: "length (sel ids as) \<le> length (attrs_bytes as)"
  by (induction as) (auto simp: sel_def)

lemma collect_all:
  assumes r: "record_at m p cls as" "length (attrs_bytes as) < 65536" "length as < n"
    and ids: "ids_at am ap ids" "length ids < n"
    and win: "0 \<le> b" "b + int (unat mx) \<le> int (length bm)" "0 < mx"
    and k: "s \<le> length (sel ids as)" "length (sel ids as) - s < k"
  shows "collect k n m p am ap (of_nat s) mx bm b = Some (drop s (sel ids as))"
  using k
proof (induction k arbitrary: s)
  case (Suc k)
  let ?sel = "sel ids as"
  have len: "length ?sel < 65536" using sel_length [of ids as] r(2) by simp
  then have s: "unat (of_nat s :: u16) = s" using Suc.prems(1) by simp
  define out where "out = take (unat mx) (drop s ?sel)"
  obtain bm' where bm': "sdp_filter_attributes_in_attributeIDList n m p am ap (of_nat s) mx bm b =
      Some (Ret (bm', of_nat (length out), length (drop s ?sel) \<le> unat mx))" "holds_at bm' b out"
    using filter_attributes [OF r ids win(1,2), of "of_nat s"] unfolding s out_def by blast
  have l: "length out < 65536" using len by (simp add: out_def)
  have rd: "rd_block bm' b (unat (of_nat (length out) :: u16)) = Ret out"
    using bm'(2) l by (intro holds_at_block) simp_all
  show ?case
  proof (cases "length (drop s ?sel) \<le> unat mx")
    case True
    then show ?thesis using bm'(1) rd by (simp add: out_def)
  next
    case False
    have "0 < unat mx" using win(3) by (simp add: word_less_nat_alt)
    with False have "length out = unat mx" "length out > 0" by (simp_all add: out_def)
    then have "collect k n m p am ap (of_nat (s + length out)) mx bm b = Some (drop (s + length out) ?sel)"
      using Suc.prems False by (intro Suc.IH) auto
    moreover have "out @ drop (s + length out) ?sel = drop s ?sel"
      using \<open>length out = unat mx\<close> by (metis add.commute append_take_drop_id drop_drop out_def)
    ultimately show ?thesis using bm'(1) rd False by simp
  qed
qed simp

end
