(* ===== verification/SdpProps.thy ===== *)
theory SdpProps
  imports SdpMatch SdpFilter
begin

text \<open>
  Properties of SDP data elements (sdp_util.c), and a sample record and sample ID list on which they
  are applied.
\<close>

subsection \<open>Samples\<close>

text \<open>A record with its handle and a service class list that holds one UUID.\<close>

definition sample_attrs :: "(u16 \<times> bytes) list" where
  "sample_attrs = [(0, [0x0A, 0, 1, 0, 1]), (1, [0x35, 3, 0x19, 0x11, 0x01])]"

definition sample_record :: bytes where
  "sample_record = [0x35, 16, 0x09, 0, 0, 0x0A, 0, 1, 0, 1, 0x09, 0, 1, 0x35, 3, 0x19, 0x11, 0x01]"

definition sample_tree :: element where
  "sample_tree = Seq 5 [Atom [0x09, 0, 0], Atom [0x0A, 0, 1, 0, 1], Atom [0x09, 0, 1], Seq 5 [Atom [0x19, 0x11, 0x01]]]"

lemmas elem_eval = elem_ok_def de_get_len_def de_get_header_size_def de_get_data_size_def de_get_size_type_def
  de_get_element_type_def rd_def big_endian_read_16_def big_endian_read_32_def

lemma sample_elems:
  "elem_ok [0x09, 0, 0]" "elem_ok [0x0A, 0, 1, 0, 1]" "elem_ok [0x09, 0, 1]"
  "elem_ok [0x35, 3, 0x19, 0x11, 0x01]" "elem_ok [0x19, 0x11, 0x01]" "elem_ok [0x0A, 0, 0, 0xFF, 0xFF]"
  by (simp_all add: elem_eval)

lemma sample_record_at: "record_at sample_record 0 5 sample_attrs"
  using sample_elems
  by (simp add: record_at_def sample_record_def sample_attrs_def des_bytes_def des_header_def des_fits_def
      attr_bytes_def be16_def holds_at_def)

lemma sample_ids_at: "ids_at [0x35, 5, 0x0A, 0, 0, 0xFF, 0xFF] 0 [[0x0A, 0, 0, 0xFF, 0xFF]]"
  using sample_elems
  by (auto simp: ids_at_def des_bytes_def des_header_def des_fits_def holds_at_def intro!: exI [of _ 5])

lemma sample_tree_enc: "enc sample_tree = sample_record" "wf sample_tree" "nodes sample_tree = 8"
  using sample_elems
  by (simp_all add: sample_tree_def sample_record_def des_bytes_def des_header_def des_fits_def elem_type_def)

subsection \<open>Attributes\<close>

text \<open>
  Lookup of an attribute in a record finds the value of the first attribute with the ID,
  and NULL exactly when the record has none.
\<close>

theorem attribute_lookup:
  assumes "record_at m p cls as" "length as < n"
  shows "case map_of as i of
      None \<Rightarrow> sdp_get_attribute_value_for_attribute_id n m p i = Some (Ret None)
    | Some e \<Rightarrow> \<exists>a. sdp_get_attribute_value_for_attribute_id n m p i = Some (Ret (Some a)) \<and> holds_at m a e"
proof (cases "map_of as i")
  case None
  then have "i \<notin> fst ` set as" by (simp add: map_of_eq_None_iff)
  then show ?thesis using get_attribute_missing [OF assms(1) _ assms(2)] None by simp
next
  case (Some e)
  then obtain pre post where as: "as = pre @ (i, e) # post" "i \<notin> fst ` set pre"
  proof (induction as arbitrary: thesis)
    case (Cons x as)
    show ?case
    proof (cases "fst x = i")
      case True
      then show ?thesis using Cons.prems by (cases x) (auto intro: Cons.prems(1) [of "[]"])
    next
      case False
      then have "map_of as i = Some e" using Cons.prems(2) by (cases x) auto
      then obtain pre post where "as = pre @ (i, e) # post" "i \<notin> fst ` set pre" using Cons.IH by blast
      then show ?thesis using False by (intro Cons.prems(1) [of "x # pre" post]) auto
    qed
  qed simp
  then show ?thesis
    using get_attribute_found [of m p cls pre i e post n] record_holds_value [of m p cls pre i e post] assms Some by auto
qed

theorem attribute_lookup_witness:
  "\<exists>a. sdp_get_attribute_value_for_attribute_id 3 sample_record 0 1 = Some (Ret (Some a)) \<and>
     holds_at sample_record a [0x35, 3, 0x19, 0x11, 0x01]"
  using attribute_lookup [OF sample_record_at, of 3 1] by (simp add: sample_attrs_def)

text \<open>
  Setting a numeric attribute stores the number in the element's own width and keeps every
  other attribute and the size of the record.
\<close>

theorem attribute_update:
  assumes "record_at m p cls (pre @ (i, e) # post)" "i \<notin> fst ` set (pre @ post)" "length pre + length post + 1 < n"
    and "elem_type e \<noteq> DE_NIL \<or> elem_size e = DE_SIZE_8"
  shows "\<exists>m'. sdp_set_attribute_value_for_attribute_id n m p i v = Some (Ret (m', True)) \<and>
    record_at m' p cls (pre @ (i, put_value e v) # post) \<and> length m' = length m"
  using assms by (rule set_attribute)

theorem attribute_update_witness:
  "\<exists>m'. sdp_set_attribute_value_for_attribute_id 3 sample_record 0 0 0x00010003 = Some (Ret (m', True)) \<and>
     record_at m' 0 5 [(0, put_value [0x0A, 0, 1, 0, 1] 0x00010003), (1, [0x35, 3, 0x19, 0x11, 0x01])] \<and>
     length m' = length sample_record"
  using attribute_update [of sample_record 0 5 "[]" 0 "[0x0A, 0, 1, 0, 1]" "[(1, [0x35, 3, 0x19, 0x11, 0x01])]" 3 "0x00010003"]
    sample_record_at
  by (simp add: sample_attrs_def elem_type_def)

text \<open>
  C15. A client that asks for the selected attributes in windows of any size above zero, each
  request starting where the last answer ended, gets exactly the selected attributes, in order.
\<close>

theorem fragments_reassemble:
  assumes "record_at m p cls as" "length (attrs_bytes as) < 65536" "length as < n"
    and "ids_at am ap ids" "length ids < n"
    and "0 \<le> b" "b + int (unat mx) \<le> int (length bm)" "0 < mx"
    and "length (sel ids as) < k"
  shows "collect k n m p am ap 0 mx bm b = Some (sel ids as)"
  using collect_all [OF assms(1-8), of 0 k] assms(9) by simp

theorem fragments_reassemble_witness:
  "collect 17 3 sample_record 0 [0x35, 5, 0x0A, 0, 0, 0xFF, 0xFF] 0 0 5 (replicate 5 0) 0 =
     Some (sel [[0x0A, 0, 0, 0xFF, 0xFF]] sample_attrs)"
proof (rule fragments_reassemble [OF sample_record_at _ _ sample_ids_at])
  have "length (sel [[0x0A, 0, 0, 0xFF, 0xFF]] sample_attrs) \<le> length (attrs_bytes sample_attrs)" by (rule sel_length)
  then show "length (sel [[0x0A, 0, 0, 0xFF, 0xFF]] sample_attrs) < 17" by (simp add: sample_attrs_def)
qed (simp_all add: sample_attrs_def)

text \<open>
  A record matches a search pattern exactly when every UUID of the pattern, normalised to
  128 bits, occurs somewhere in the record, at any depth.
\<close>

theorem pattern_matches:
  assumes "wf (Seq cls es)" "holds_at m p (enc (Seq cls es))" "nodes (Seq cls es) \<le> n"
    and "holds_at pm q (des_bytes pcls (concat us))" "des_fits pcls (length (concat us))"
    and "\<forall>e \<in> set us. elem_ok e" "length us < n"
  shows "sdp_record_matches_service_search_pattern n m p pm q =
    Some (Ret (\<forall>e \<in> set us. \<exists>v. uuid_of e = Some v \<and> v \<in> uuids (Seq cls es)))"
  using assms by (rule matches)

theorem pattern_matches_witness:
  "sdp_record_matches_service_search_pattern 8 sample_record 0 [0x35, 3, 0x19, 0x11, 0x01] 0 = Some (Ret True)"
  using pattern_matches [of 5 "[Atom [0x09, 0, 0], Atom [0x0A, 0, 1, 0, 1], Atom [0x09, 0, 1], Seq 5 [Atom [0x19, 0x11, 0x01]]]"
      sample_record 0 8 "[0x35, 3, 0x19, 0x11, 0x01]" 0 5 "[[0x19, 0x11, 0x01]]"]
    sample_tree_enc sample_elems
  by (simp add: sample_tree_def holds_at_def des_bytes_def des_header_def des_fits_def sample_record_def
      uuid_of_def elem_type_def elem_size_def)

subsection \<open>A length that stops the traversal\<close>

text \<open>
  C16. The length of an element is the sum of two 32-bit numbers, so an element that states
  0xFFFFFFFB bytes of data has length 0, and the traversal of a list that holds it never ends,
  whatever ID it looks for.
\<close>

theorem zero_length_never_ends:
  "sdp_attribute_list_constains_id n [0x35, 5, 0x27, 0xFF, 0xFF, 0xFF, 0xFB] 0 i = None"
proof -
  let ?m = "[0x35, 5, 0x27, 0xFF, 0xFF, 0xFF, 0xFB] :: bytes"
  have len: "de_get_len ?m 2 = Ret 0" by (simp add: elem_eval)
  have hd: "de_get_element_type ?m 2 = Ret 4" "de_get_size_type ?m 2 = Ret 7" by (simp_all add: elem_eval)
  have handler: "sdp_traversal_attributeID_search ?m i 2 4 7 False = Some (Ret (False, False))"
    by (simp add: sdp_traversal_attributeID_search_def)
  have loop: "traverse_loop k (\<lambda>_. ?m) 0 2 7 (sdp_traversal_attributeID_search ?m i) False = None" for k
    by (induction k) (simp_all add: len hd handler add_int_def)
  have "de_get_element_type ?m 0 = Ret 6" "de_get_header_size ?m 0 = Ret 2" "de_get_len ?m 0 = Ret 7"
    by (simp_all add: elem_eval)
  then show ?thesis
    using loop by (simp add: sdp_attribute_list_constains_id_def de_traverse_sequence_def)
qed

end
