(* ===== verification/SdpServer.thy ===== *)
theory SdpServer
  imports Sdp
begin

text \<open>
  \<^verbatim>\<open>btstack-rootless/src/classic/sdp_server.c\<close>: the SDP server.  The linked list of service
  records is the list of its items, newest first (theory LinkedList relates the two); a record is
  an object of its own.  A request is the object \<open>packet\<close>, the response is built in
  \<open>sdp_response_buffer\<close>.  Calls to L2CAP are the actions a handler returns.  \<open>n\<close> is the fuel of
  the traversals of data elements.
\<close>

subsection \<open>State\<close>

record service_record_item =
  service_record_handle :: u32
  service_record :: bytes

record sdp_server =
  sdp_service_records :: "service_record_item list"
  sdp_next_service_record_handle :: u32
  sdp_response_buffer :: bytes
  l2cap_cid :: u16
  sdp_response_size :: u16
  l2cap_waiting_list_cids :: "u16 list"
  l2cap_waiting_list_count :: int

text \<open>\<open>HCI_ACL_PAYLOAD_SIZE - L2CAP_HEADER_SIZE\<close>, with the 1021 bytes of \<^verbatim>\<open>port/ios/btstack_config.h\<close>.\<close>

definition SDP_RESPONSE_BUFFER_SIZE :: nat where
  "SDP_RESPONSE_BUFFER_SIZE = 1017"

definition SDP_WAITING_LIST_MAX_COUNT :: nat where
  "SDP_WAITING_LIST_MAX_COUNT = 8"

definition maxReservedServiceRecordHandle :: u32 where
  "maxReservedServiceRecordHandle = 0xFFFF"

definition sdp_start :: sdp_server where
  "sdp_start = \<lparr>sdp_service_records = [], sdp_next_service_record_handle = maxReservedServiceRecordHandle + 2,
     sdp_response_buffer = replicate SDP_RESPONSE_BUFFER_SIZE 0, l2cap_cid = 0, sdp_response_size = 0,
     l2cap_waiting_list_cids = replicate SDP_WAITING_LIST_MAX_COUNT 0, l2cap_waiting_list_count = 0\<rparr>"

datatype sdp_action = AcceptConnection u16 | DeclineConnection u16 | RequestCanSendNow u16 | L2capSend u16 bytes

subsection \<open>Service records\<close>

definition sdp_get_service_record_handle :: "nat \<Rightarrow> bytes \<Rightarrow> u32 result" where
  "sdp_get_service_record_handle n rec =
     bind_result (sdp_get_attribute_value_for_attribute_id n rec 0 0x0000) (\<lambda>serviceRecordHandleAttribute.
     case serviceRecordHandleAttribute of
       None \<Rightarrow> Some (Ret 0)
     | Some a \<Rightarrow>
         bind_result (Some (de_get_element_type rec a)) (\<lambda>ty.
         if ty \<noteq> DE_UINT then Some (Ret 0)
         else bind_result (Some (de_get_size_type rec a)) (\<lambda>sz.
           if sz \<noteq> DE_SIZE_32 then Some (Ret 0)
           else Some (big_endian_read_32 rec a 1))))"

definition sdp_get_record_item_for_handle :: "sdp_server \<Rightarrow> u32 \<Rightarrow> service_record_item option" where
  "sdp_get_record_item_for_handle s handle =
     find (\<lambda>item. service_record_handle item = handle) (sdp_service_records s)"

definition sdp_get_record_for_handle :: "sdp_server \<Rightarrow> u32 \<Rightarrow> bytes option" where
  "sdp_get_record_for_handle s handle =
     (case sdp_get_record_item_for_handle s handle of
        None \<Rightarrow> None
      | Some record_item \<Rightarrow> Some (service_record record_item))"

text \<open>\<open>None\<close>: the loop still runs after \<open>n\<close> rounds.\<close>

fun sdp_create_service_record_handle :: "nat \<Rightarrow> sdp_server \<Rightarrow> (sdp_server \<times> u32) option" where
  "sdp_create_service_record_handle 0 s = None"
| "sdp_create_service_record_handle (Suc n) s =
     (let handle = sdp_next_service_record_handle s;
          s = s\<lparr>sdp_next_service_record_handle := handle + 1\<rparr>;
          handle = (if sdp_get_record_item_for_handle s handle \<noteq> None then 0 else handle)
      in if handle = 0 then sdp_create_service_record_handle n s else Some (s, handle))"

text \<open>\<open>alloc\<close> tells whether \<open>btstack_memory_service_record_item_get\<close> returned a block.\<close>

definition sdp_register_service :: "nat \<Rightarrow> bool \<Rightarrow> sdp_server \<Rightarrow> bytes \<Rightarrow> (sdp_server \<times> byte) result" where
  "sdp_register_service n alloc s rec =
     bind_result (sdp_get_service_record_handle n rec) (\<lambda>record_handle.
     if record_handle = 0 then Some (Ret (s, 0x83))
     else if record_handle \<le> maxReservedServiceRecordHandle then Some (Ret (s, 0x83))
     else if sdp_get_record_item_for_handle s record_handle \<noteq> None then Some (Ret (s, 0x80))
     else if \<not> alloc then Some (Ret (s, 0x56))
     else let newRecordItem = \<lparr>service_record_handle = record_handle, service_record = rec\<rparr> in
       Some (Ret (s\<lparr>sdp_service_records := newRecordItem # sdp_service_records s\<rparr>, 0)))"

text \<open>\<open>btstack_linked_list_remove\<close> takes out the first item with the handle, the one found.\<close>

fun remove_item :: "u32 \<Rightarrow> service_record_item list \<Rightarrow> service_record_item list" where
  "remove_item h [] = []"
| "remove_item h (item # items) =
     (if service_record_handle item = h then items else item # remove_item h items)"

definition sdp_unregister_service :: "sdp_server \<Rightarrow> u32 \<Rightarrow> sdp_server" where
  "sdp_unregister_service s handle =
     (case sdp_get_record_item_for_handle s handle of
        None \<Rightarrow> s
      | Some record_item \<Rightarrow>
          s\<lparr>sdp_service_records := remove_item (service_record_handle record_item) (sdp_service_records s)\<rparr>)"

subsection \<open>Responses\<close>

definition sdp_create_error_response :: "bytes \<Rightarrow> u16 \<Rightarrow> u16 \<Rightarrow> (bytes \<times> int) outcome" where
  "sdp_create_error_response buf transaction_id error_code =
     bind_outcome (wr buf 0 1) (\<lambda>buf.
     bind_outcome (big_endian_store_16 buf 0 1 transaction_id) (\<lambda>buf.
     bind_outcome (big_endian_store_16 buf 0 3 2) (\<lambda>buf.
     bind_outcome (big_endian_store_16 buf 0 5 error_code) (\<lambda>buf.
     Ret (buf, 7)))))"

text \<open>PDU ID, transaction and size of the parameters.\<close>

definition response_header :: "bytes \<Rightarrow> byte \<Rightarrow> u16 \<Rightarrow> u16 \<Rightarrow> bytes outcome" where
  "response_header buf pdu transaction_id pos =
     bind_outcome (wr buf 0 pdu) (\<lambda>buf.
     bind_outcome (big_endian_store_16 buf 0 1 transaction_id) (\<lambda>buf.
     big_endian_store_16 buf 0 3 (pos - 5)))"

text \<open>Division of an \<open>int\<close> by 4, towards zero.\<close>

definition quarter :: "int \<Rightarrow> int" where
  "quarter i = (if i < 0 then - ((- i) div 4) else i div 4)"

subsection \<open>Service search\<close>

fun count_matching :: "nat \<Rightarrow> bytes \<Rightarrow> int \<Rightarrow> service_record_item list \<Rightarrow> u16 \<Rightarrow> u16 result" where
  "count_matching n packet serviceSearchPattern [] total_service_count = Some (Ret total_service_count)"
| "count_matching n packet serviceSearchPattern (item # items) total_service_count =
     bind_result (sdp_record_matches_service_search_pattern n (service_record item) 0 packet serviceSearchPattern) (\<lambda>m.
     count_matching n packet serviceSearchPattern items
       (if m then total_service_count + 1 else total_service_count))"

record search_state =
  ss_buffer :: bytes
  ss_pos :: u16
  ss_count :: u16
  ss_index :: u16
  ss_matching :: u16
  ss_continuation :: bool
  ss_continuation_index :: u16

fun search_loop :: "nat \<Rightarrow> bytes \<Rightarrow> int \<Rightarrow> u16 \<Rightarrow> u16 \<Rightarrow> service_record_item list \<Rightarrow>
    search_state \<Rightarrow> search_state result" where
  "search_loop n packet pat limit per_response [] s = Some (Ret s)"
| "search_loop n packet pat limit per_response (item # items) s =
     bind_result (sdp_record_matches_service_search_pattern n (service_record item) 0 packet pat) (\<lambda>m.
     if \<not> m then search_loop n packet pat limit per_response items (s\<lparr>ss_index := ss_index s + 1\<rparr>)
     else let s = s\<lparr>ss_matching := ss_matching s + 1\<rparr> in
     if ss_index s < ss_continuation_index s then
       search_loop n packet pat limit per_response items (s\<lparr>ss_index := ss_index s + 1\<rparr>)
     else
       bind_result (Some (big_endian_store_32 (ss_buffer s) 0 (ss_pos s) (service_record_handle item))) (\<lambda>buf.
       let s = s\<lparr>ss_buffer := buf, ss_pos := ss_pos s + 4, ss_count := ss_count s + 1\<rparr> in
       if ss_matching s \<ge> limit then Some (Ret s)
       else if ss_count s \<ge> per_response then
         Some (Ret (s\<lparr>ss_continuation := True, ss_continuation_index := ss_index s + 1\<rparr>))
       else search_loop n packet pat limit per_response items (s\<lparr>ss_index := ss_index s + 1\<rparr>)))"

text \<open>The end of a response: the continuation state, the header and the two counts.\<close>

definition search_finish :: "u16 \<Rightarrow> u16 \<Rightarrow> search_state \<Rightarrow> (bytes \<times> int) outcome" where
  "search_finish transaction_id count s =
     bind_outcome
       (if ss_continuation s then
          bind_outcome (wr (ss_buffer s) (uint (ss_pos s)) 2) (\<lambda>buf.
          bind_outcome (big_endian_store_16 buf 0 (ss_pos s + 1) (ss_continuation_index s)) (\<lambda>buf.
          Ret (buf, ss_pos s + 3)))
        else bind_outcome (wr (ss_buffer s) (uint (ss_pos s)) 0) (\<lambda>buf. Ret (buf, ss_pos s + 1))) (\<lambda>(buf, pos).
     bind_outcome (response_header buf 3 transaction_id pos) (\<lambda>buf.
     bind_outcome (big_endian_store_16 buf 0 5 count) (\<lambda>buf.
     bind_outcome (big_endian_store_16 buf 0 7 (ss_count s)) (\<lambda>buf.
     Ret (buf, uint pos)))))"

definition sdp_handle_service_search_request :: "nat \<Rightarrow> sdp_server \<Rightarrow> bytes \<Rightarrow> u16 \<Rightarrow> (bytes \<times> int) result" where
  "sdp_handle_service_search_request n s packet remote_mtu =
     (let buf = sdp_response_buffer s in
     bind_result (Some (big_endian_read_16 packet 0 1)) (\<lambda>transaction_id.
     bind_result (Some (big_endian_read_16 packet 0 3)) (\<lambda>param_len.
     let param_len = (ucast param_len :: u16) in
     bind_result (Some (de_get_len_safe packet 5 (ucast param_len))) (\<lambda>serviceSearchPatternLen.
     let serviceSearchPatternLen = (ucast serviceSearchPatternLen :: u16) in
     if serviceSearchPatternLen = 0 then Some (Ret (buf, 0))
     else let param_len = param_len - serviceSearchPatternLen in
     if param_len < 2 then Some (Ret (buf, 0))
     else bind_result (Some (big_endian_read_16 packet 0 (5 + uint serviceSearchPatternLen))) (\<lambda>maximumServiceRecordCount.
     let maximumServiceRecordCount = (ucast maximumServiceRecordCount :: u16);
         param_len = param_len - 2;
         continuationState = 5 + uint serviceSearchPatternLen + 2 in
     if param_len < 1 then Some (Ret (buf, 0))
     else bind_result (Some (rd packet continuationState)) (\<lambda>continuation_len.
     if 1 + uint continuation_len > uint param_len then Some (Ret (buf, 0))
     else let maxNrServiceRecordsPerResponse = (word_of_int (quarter (uint remote_mtu - (9 + 3))) :: u16) in
     bind_result (if continuation_len = 2 then Some (big_endian_read_16 packet continuationState 1) else Some (Ret 0)) (\<lambda>continuation_index.
     bind_result (count_matching n packet 5 (sdp_service_records s) 0) (\<lambda>total_service_count.
     let total_service_count =
       (if total_service_count > maximumServiceRecordCount then maximumServiceRecordCount else total_service_count) in
     bind_result (search_loop n packet 5 total_service_count maxNrServiceRecordsPerResponse (sdp_service_records s)
       \<lparr>ss_buffer = buf, ss_pos = 9, ss_count = 0, ss_index = 0, ss_matching = 0, ss_continuation = False,
        ss_continuation_index = ucast continuation_index\<rparr>) (\<lambda>ss.
     Some (search_finish (ucast transaction_id) total_service_count ss))))))))))"

subsection \<open>Attributes of a record\<close>

text \<open>
  What the two steps of the handler that fill the response leave at offset 7: the header of the
  list, if the request starts at its beginning, and as much of the list as fits.
\<close>

definition attribute_fill :: "nat \<Rightarrow> bytes \<Rightarrow> bytes \<Rightarrow> int \<Rightarrow> u16 \<Rightarrow> u16 \<Rightarrow> bytes \<Rightarrow> (bytes \<times> u16 \<times> u16 \<times> bool) result" where
  "attribute_fill n rec packet ids offs room buf =
     bind_result
       (if offs = 0 then
          bind_result (spd_get_filtered_size n rec 0 packet ids) (\<lambda>filtered_attributes_size.
          bind_result (Some (de_store_descriptor_with_len buf 7 DE_DES DE_SIZE_VAR_16 (ucast filtered_attributes_size))) (\<lambda>buf.
          Some (Ret (buf, room - 3, 10))))
        else Some (Ret (buf, room, 7))) (\<lambda>(buf, room, pos).
     bind_result (sdp_filter_attributes_in_attributeIDList n rec 0 packet ids offs room buf (uint (pos :: u16)))
       (\<lambda>(buf, bytes_used, complete). Some (Ret (buf, pos, bytes_used, complete))))"

text \<open>The continuation state after the fragment, and the header.\<close>

definition attribute_end :: "u16 \<Rightarrow> bytes \<Rightarrow> u16 \<Rightarrow> bool \<Rightarrow> u16 \<Rightarrow> u16 \<Rightarrow> (bytes \<times> int) result" where
  "attribute_end tid buf pos complete offs cnt =
     bind_result
       (if complete then bind_result (Some (wr buf (uint pos) 0)) (\<lambda>buf. Some (Ret (buf, pos + 1)))
        else bind_result (Some (wr buf (uint pos) 2)) (\<lambda>buf.
          bind_result (Some (big_endian_store_16 buf 0 (pos + 1) offs)) (\<lambda>buf.
          Some (Ret (buf, pos + 3))))) (\<lambda>(buf, pos).
     bind_result (Some (response_header buf 5 tid pos)) (\<lambda>buf.
     bind_result (Some (big_endian_store_16 buf 0 5 cnt)) (\<lambda>buf.
     Some (Ret (buf, uint pos)))))"

definition sdp_handle_service_attribute_request :: "nat \<Rightarrow> sdp_server \<Rightarrow> bytes \<Rightarrow> u16 \<Rightarrow> (bytes \<times> int) result" where
  "sdp_handle_service_attribute_request n s packet remote_mtu =
     (let buf = sdp_response_buffer s in
     bind_result (Some (big_endian_read_16 packet 0 1)) (\<lambda>transaction_id.
     bind_result (Some (big_endian_read_16 packet 0 3)) (\<lambda>param_len.
     let transaction_id = (ucast transaction_id :: u16); param_len = (ucast param_len :: u16) in
     if param_len < 6 then Some (Ret (buf, 0))
     else bind_result (Some (big_endian_read_32 packet 0 5)) (\<lambda>serviceRecordHandle.
     bind_result (Some (big_endian_read_16 packet 0 9)) (\<lambda>maximumAttributeByteCount.
     let maximumAttributeByteCount = (ucast maximumAttributeByteCount :: u16); param_len = param_len - 6 in
     bind_result (Some (de_get_len_safe packet 11 (ucast param_len))) (\<lambda>attributeIDListLen.
     let attributeIDListLen = (ucast attributeIDListLen :: u16) in
     if attributeIDListLen = 0 then Some (Ret (buf, 0))
     else let param_len = param_len - attributeIDListLen in
     if param_len < 1 then Some (Ret (buf, 0))
     else let continuationState = 11 + uint attributeIDListLen in
     bind_result (Some (rd packet continuationState)) (\<lambda>continuation_len.
     if 1 + uint continuation_len > uint param_len then Some (Ret (buf, 0))
     else let maximumAttributeByteCount2 = remote_mtu - (7 + 3);
       maximumAttributeByteCount =
         (if maximumAttributeByteCount2 < maximumAttributeByteCount then maximumAttributeByteCount2 else maximumAttributeByteCount) in
     bind_result (if continuation_len = 2 then Some (big_endian_read_16 packet continuationState 1) else Some (Ret 0)) (\<lambda>continuation_offset.
     let continuation_offset = (ucast continuation_offset :: u16) in
     case sdp_get_record_item_for_handle s serviceRecordHandle of
       None \<Rightarrow> Some (sdp_create_error_response buf transaction_id 0x0002)
     | Some item \<Rightarrow>
         bind_result (attribute_fill n (service_record item) packet 11 continuation_offset maximumAttributeByteCount buf)
           (\<lambda>(buf, pos, bytes_used, complete).
         let pos = pos + bytes_used; attributeListByteCount = pos - 7 in
         attribute_end transaction_id buf pos complete (continuation_offset + bytes_used) attributeListByteCount)))))))))"

subsection \<open>Attributes of all records that match a pattern\<close>

fun sdp_get_size_for_service_search_attribute_response :: "nat \<Rightarrow> bytes \<Rightarrow> int \<Rightarrow> int \<Rightarrow>
    service_record_item list \<Rightarrow> u16 \<Rightarrow> u16 result" where
  "sdp_get_size_for_service_search_attribute_response n packet pat ids [] total_response_size = Some (Ret total_response_size)"
| "sdp_get_size_for_service_search_attribute_response n packet pat ids (item # items) total_response_size =
     bind_result (sdp_record_matches_service_search_pattern n (service_record item) 0 packet pat) (\<lambda>m.
     if \<not> m then sdp_get_size_for_service_search_attribute_response n packet pat ids items total_response_size
     else bind_result (spd_get_filtered_size n (service_record item) 0 packet ids) (\<lambda>sz.
       sdp_get_size_for_service_search_attribute_response n packet pat ids items (total_response_size + (3 + sz))))"

record attributes_state =
  as_buffer :: bytes
  as_pos :: u16
  as_room :: u16
  as_index :: u16
  as_offset :: u16
  as_first :: bool
  as_continuation :: bool

text \<open>One matching record: its header, unless the request continues within the record, and its bytes.\<close>

fun attributes_loop :: "nat \<Rightarrow> bytes \<Rightarrow> int \<Rightarrow> int \<Rightarrow> u16 \<Rightarrow> service_record_item list \<Rightarrow>
    attributes_state \<Rightarrow> attributes_state result" where
  "attributes_loop n packet pat ids continuation_service_index [] s = Some (Ret s)"
| "attributes_loop n packet pat ids continuation_service_index (item # items) s =
     (if as_index s < continuation_service_index then
        attributes_loop n packet pat ids continuation_service_index items (s\<lparr>as_index := as_index s + 1\<rparr>)
      else bind_result (sdp_record_matches_service_search_pattern n (service_record item) 0 packet pat) (\<lambda>m.
      if \<not> m then attributes_loop n packet pat ids continuation_service_index items (s\<lparr>as_index := as_index s + 1\<rparr>)
      else bind_result
        (if as_offset s = 0 then
           bind_result (spd_get_filtered_size n (service_record item) 0 packet ids) (\<lambda>filtered_attributes_size.
           if uint filtered_attributes_size + 3 > uint (as_room s) \<and> \<not> as_first s then
             Some (Ret (True, s\<lparr>as_continuation := True\<rparr>))
           else
             bind_result (Some (de_store_descriptor_with_len (as_buffer s) (uint (as_pos s)) DE_DES DE_SIZE_VAR_16
               (ucast filtered_attributes_size))) (\<lambda>buf.
             Some (Ret (False, s\<lparr>as_buffer := buf, as_pos := as_pos s + 3, as_room := as_room s - 3\<rparr>))))
         else Some (Ret (False, s))) (\<lambda>(stop, s).
      if stop then Some (Ret s)
      else bind_result (sdp_filter_attributes_in_attributeIDList n (service_record item) 0 packet ids (as_offset s)
        (as_room s) (as_buffer s) (uint (as_pos s))) (\<lambda>(buf, bytes_used, complete).
      let s = s\<lparr>as_first := False, as_buffer := buf, as_pos := as_pos s + bytes_used, as_room := as_room s - bytes_used\<rparr> in
      if complete then
        attributes_loop n packet pat ids continuation_service_index items (s\<lparr>as_offset := 0, as_index := as_index s + 1\<rparr>)
      else Some (Ret (s\<lparr>as_continuation := True, as_offset := as_offset s + bytes_used\<rparr>))))))"

definition attributes_finish :: "u16 \<Rightarrow> attributes_state \<Rightarrow> (bytes \<times> int) outcome" where
  "attributes_finish transaction_id s =
     (let attributeListsByteCount = as_pos s - 7 in
     bind_outcome
       (if as_continuation s then
          bind_outcome (wr (as_buffer s) (uint (as_pos s)) 4) (\<lambda>buf.
          bind_outcome (big_endian_store_16 buf 0 (as_pos s + 1) (as_index s)) (\<lambda>buf.
          bind_outcome (big_endian_store_16 buf 0 (as_pos s + 3) (as_offset s)) (\<lambda>buf.
          Ret (buf, as_pos s + 5))))
        else bind_outcome (wr (as_buffer s) (uint (as_pos s)) 0) (\<lambda>buf. Ret (buf, as_pos s + 1))) (\<lambda>(buf, pos).
     bind_outcome (response_header buf 7 transaction_id pos) (\<lambda>buf.
     bind_outcome (big_endian_store_16 buf 0 5 attributeListsByteCount) (\<lambda>buf.
     Ret (buf, uint pos)))))"

text \<open>\<open>param_len\<close> is not reduced by the length of the ID list.\<close>

definition sdp_handle_service_search_attribute_request :: "nat \<Rightarrow> sdp_server \<Rightarrow> bytes \<Rightarrow> u16 \<Rightarrow> (bytes \<times> int) result" where
  "sdp_handle_service_search_attribute_request n s packet remote_mtu =
     (let buf = sdp_response_buffer s in
     bind_result (Some (big_endian_read_16 packet 0 1)) (\<lambda>transaction_id.
     bind_result (Some (big_endian_read_16 packet 0 3)) (\<lambda>param_len.
     let param_len = (ucast param_len :: u16) in
     bind_result (Some (de_get_len_safe packet 5 (ucast param_len))) (\<lambda>serviceSearchPatternLen.
     let serviceSearchPatternLen = (ucast serviceSearchPatternLen :: u16) in
     if serviceSearchPatternLen = 0 then Some (Ret (buf, 0))
     else let param_len = param_len - serviceSearchPatternLen in
     if param_len < 2 then Some (Ret (buf, 0))
     else bind_result (Some (big_endian_read_16 packet 0 (5 + uint serviceSearchPatternLen))) (\<lambda>maximumAttributeByteCount.
     let maximumAttributeByteCount = (ucast maximumAttributeByteCount :: u16);
         param_len = param_len - 2;
         attributeIDList = 5 + uint serviceSearchPatternLen + 2 in
     bind_result (Some (de_get_len_safe packet attributeIDList (ucast param_len))) (\<lambda>attributeIDListLen.
     let attributeIDListLen = (ucast attributeIDListLen :: u16) in
     if attributeIDListLen = 0 then Some (Ret (buf, 0))
     else if param_len < 1 then Some (Ret (buf, 0))
     else let continuationState = 5 + uint serviceSearchPatternLen + 2 + uint attributeIDListLen in
     bind_result (Some (rd packet continuationState)) (\<lambda>continuation_len.
     if 1 + uint continuation_len > uint param_len then Some (Ret (buf, 0))
     else let maximumAttributeByteCount2 = remote_mtu - 12;
       maximumAttributeByteCount =
         (if maximumAttributeByteCount2 < maximumAttributeByteCount then maximumAttributeByteCount2 else maximumAttributeByteCount) in
     bind_result
       (if continuation_len = 4 then
          bind_result (Some (big_endian_read_16 packet continuationState 1)) (\<lambda>i.
          bind_result (Some (big_endian_read_16 packet continuationState 3)) (\<lambda>off. Some (Ret (ucast i, ucast off))))
        else Some (Ret (0, 0))) (\<lambda>(continuation_service_index, continuation_offset).
     bind_result
       (if continuation_service_index = 0 \<and> continuation_offset = 0 then
          bind_result (sdp_get_size_for_service_search_attribute_response n packet 5 attributeIDList (sdp_service_records s) 0) (\<lambda>total_response_size.
          bind_result (Some (de_store_descriptor_with_len buf 7 DE_DES DE_SIZE_VAR_16 (ucast total_response_size))) (\<lambda>buf.
          Some (Ret (buf, 10, maximumAttributeByteCount - 3))))
        else Some (Ret (buf, 7, maximumAttributeByteCount))) (\<lambda>(buf, pos, maximumAttributeByteCount).
     bind_result (attributes_loop n packet 5 attributeIDList continuation_service_index (sdp_service_records s)
       \<lparr>as_buffer = buf, as_pos = pos, as_room = maximumAttributeByteCount, as_index = 0, as_offset = continuation_offset,
        as_first = True, as_continuation = False\<rparr>) (\<lambda>st.
     Some (attributes_finish (ucast transaction_id) st)))))))))))"

subsection \<open>Connections\<close>

definition sdp_respond :: "sdp_server \<Rightarrow> (sdp_server \<times> sdp_action list) outcome" where
  "sdp_respond s =
     (if sdp_response_size s = 0 then Ret (s, [])
      else if l2cap_cid s = 0 then Ret (s, [])
      else bind_outcome (rd_block (sdp_response_buffer s) 0 (unat (sdp_response_size s))) (\<lambda>bs.
        Ret (s\<lparr>sdp_response_size := 0\<rparr>, [L2capSend (l2cap_cid s) bs])))"

definition sdp_waiting_list_add :: "sdp_server \<Rightarrow> u16 \<Rightarrow> sdp_server outcome" where
  "sdp_waiting_list_add s cid =
     (let c = l2cap_waiting_list_count s in
      if 0 \<le> c \<and> c < int (length (l2cap_waiting_list_cids s)) then
        Ret (s\<lparr>l2cap_waiting_list_cids := (l2cap_waiting_list_cids s)[nat c := cid], l2cap_waiting_list_count := c + 1\<rparr>)
      else Undef)"

text \<open>\<open>memmove\<close> of the \<open>count\<close> entries from index 1 to index 0.\<close>

definition sdp_waiting_list_get :: "sdp_server \<Rightarrow> (sdp_server \<times> u16) outcome" where
  "sdp_waiting_list_get s =
     (case l2cap_waiting_list_cids s of
        [] \<Rightarrow> Undef
      | cid # rest \<Rightarrow>
          let count = l2cap_waiting_list_count s - 1;
              s = s\<lparr>l2cap_waiting_list_count := count\<rparr> in
          if count \<noteq> 0 then
            if 0 \<le> count \<and> count \<le> int (length rest) then
              Ret (s\<lparr>l2cap_waiting_list_cids := take (nat count) rest @ drop (nat count) (cid # rest)\<rparr>, cid)
            else Undef
          else Ret (s, cid))"

definition handle_request :: "nat \<Rightarrow> sdp_server \<Rightarrow> bytes \<Rightarrow> u16 \<Rightarrow> u16 \<Rightarrow> (sdp_server \<times> sdp_action list) result" where
  "handle_request n s packet sz remote_mtu =
     bind_result (Some (rd packet 0)) (\<lambda>pdu_id.
     bind_result (Some (big_endian_read_16 packet 0 1)) (\<lambda>transaction_id.
     bind_result (Some (big_endian_read_16 packet 0 3)) (\<lambda>param_len.
     let remote_mtu = (if uint remote_mtu > int SDP_RESPONSE_BUFFER_SIZE then of_nat SDP_RESPONSE_BUFFER_SIZE else remote_mtu);
         pdu_id = (if uint (ucast param_len :: u16) + 5 > uint sz then 1 else pdu_id) in
     bind_result
       (if pdu_id = 2 then sdp_handle_service_search_request n s packet remote_mtu
        else if pdu_id = 4 then sdp_handle_service_attribute_request n s packet remote_mtu
        else if pdu_id = 6 then sdp_handle_service_search_attribute_request n s packet remote_mtu
        else Some (sdp_create_error_response (sdp_response_buffer s) (ucast transaction_id) 0x0003)) (\<lambda>(buf, response_size).
     let s = s\<lparr>sdp_response_buffer := buf, sdp_response_size := word_of_int response_size\<rparr> in
     Some (Ret (s, if sdp_response_size s = 0 then [] else [RequestCanSendNow (l2cap_cid s)]))))))"

text \<open>
  \<open>remote_mtu\<close> is the value of \<open>l2cap_get_remote_mtu_for_local_cid\<close>; packet types 6 and 4 are
  \<open>L2CAP_DATA_PACKET\<close> and \<open>HCI_EVENT_PACKET\<close>, events 0x72, 0x70, 0x78 and 0x71 are incoming
  connection, channel opened, can send now and channel closed.
\<close>

definition sdp_packet_handler :: "nat \<Rightarrow> sdp_server \<Rightarrow> byte \<Rightarrow> u16 \<Rightarrow> bytes \<Rightarrow> u16 \<Rightarrow> u16 \<Rightarrow> (sdp_server \<times> sdp_action list) result" where
  "sdp_packet_handler n s packet_type channel packet sz remote_mtu =
     (if packet_type = 6 then handle_request n s packet sz remote_mtu
      else if packet_type = 4 then
        bind_result (Some (rd packet 0)) (\<lambda>event.
        if event = 0x72 then
          if l2cap_cid s \<noteq> 0 then
            if l2cap_waiting_list_count s < int SDP_WAITING_LIST_MAX_COUNT then
              bind_result (Some (sdp_waiting_list_add s channel)) (\<lambda>s. Some (Ret (s, [])))
            else Some (Ret (s, [DeclineConnection channel]))
          else Some (Ret (s\<lparr>l2cap_cid := channel, sdp_response_size := 0\<rparr>, [AcceptConnection channel]))
        else if event = 0x70 then
          bind_result (Some (rd packet 2)) (\<lambda>status.
          Some (Ret (if status \<noteq> 0 then s\<lparr>l2cap_cid := 0\<rparr> else s, [])))
        else if event = 0x78 then Some (sdp_respond s)
        else if event = 0x71 then
          if channel = l2cap_cid s then
            let s = s\<lparr>l2cap_cid := 0\<rparr> in
            if l2cap_waiting_list_count s = 0 then Some (Ret (s, []))
            else bind_result (Some (sdp_waiting_list_get s)) (\<lambda>(s, cid).
              Some (Ret (s\<lparr>l2cap_cid := cid, sdp_response_size := 0\<rparr>, [AcceptConnection cid])))
          else Some (Ret (s, []))
        else Some (Ret (s, [])))
      else Some (Ret (s, [])))"

end
