(* ===== verification/SdpResponse.thy ===== *)
theory SdpResponse
  imports SdpServer SdpMatch SdpFilter
begin

text \<open>
  Requests and responses of the SDP server as byte lists, and what the handler of attribute
  requests answers.
\<close>

subsection \<open>Reads and writes\<close>

lemma read_16: "holds_at m (b + p) (be16 v) \<Longrightarrow> big_endian_read_16 m b p = Ret (ucast v)"
  by (rule be16.read_enc)

lemma ucast_u16_back [simp]: "ucast (ucast (v :: u16) :: u32) = (v :: u16)"
  by (simp add: word_eq_iff_unsigned [where ?'a = nat] unsigned_ucast_eq)

lemma ucast_of_nat_u16 [simp]: "n < 65536 \<Longrightarrow> (ucast (of_nat n :: u32) :: u16) = of_nat n"
  by (simp add: word_eq_iff_unsigned [where ?'a = nat] unsigned_ucast_eq unsigned_of_nat take_bit_nat_eq_self)

lemma des_len_safe:
  assumes "des_fits cls (length data)" "holds_at m p (des_bytes cls data)" "length (des_bytes cls data) \<le> unat sz"
  shows "de_get_len_safe m p sz = Ret (of_nat (length (des_bytes cls data)))"
proof -
  let ?h = "length (des_header cls (length data))"
  have h: "holds_at m p (des_header cls (length data))" using assms(2) by (simp add: des_bytes_def holds_at_append)
  have b: "?h + length data < 2147483648" "?h + length data \<le> unat sz" "0 < ?h"
    using length_des_header [OF assms(1)] assms(3) by (simp_all add: des_bytes_def des_header_def)
  have "0 < unat sz" using b(2,3) by linarith
  then have "\<not> sz < 1" by (simp add: word_less_nat_alt)
  moreover have "\<not> sz < of_nat ?h" "\<not> sz < of_nat (length data)" "\<not> sz < of_nat (?h + length data)"
    using b by (simp_all add: word_less_nat_alt unat_of_nat_u32 del: of_nat_add)
  ultimately show ?thesis
    by (simp add: de_get_len_safe_def des_header_reads [OF assms(1) h] des_bytes_def Let_def)
qed

lemma store_des16: "de_store_descriptor_with_len m p DE_DES DE_SIZE_VAR_16 v = wr_block m p (0x36 # be16 (ucast v))"
proof -
  have "big_endian_store_16 m' p 1 (ucast v) = wr_block m' (p + 1) (be16 (ucast v))" for m'
    by (simp add: be16.store_enc)
  then show ?thesis by (simp add: de_store_descriptor_with_len_def wr_bind_block)
qed

subsection \<open>Responses\<close>

definition response :: "byte \<Rightarrow> u16 \<Rightarrow> bytes \<Rightarrow> bytes \<Rightarrow> bytes" where
  "response pdu tid out cont =
     pdu # be16 tid @ be16 (of_nat (2 + length out + length cont)) @ be16 (of_nat (length out)) @ out @ cont"

lemma length_response [simp]: "length (response pdu tid out cont) = 7 + length out + length cont"
  by (simp add: response_def)

lemma header_block:
  "bind_outcome (response_header buf pdu tid pos) (\<lambda>buf. bind_outcome (big_endian_store_16 buf 0 5 v) f) =
     bind_outcome (wr_block buf 0 (pdu # be16 tid @ be16 (pos - 5) @ be16 v)) f"
proof -
  have s: "big_endian_store_16 m 0 1 x = wr_block m 1 (be16 x)" "big_endian_store_16 m 0 3 x = wr_block m 3 (be16 x)"
    "big_endian_store_16 m 0 5 x = wr_block m 5 (be16 x)" for m x
    by (simp_all add: be16.store_enc)
  have two: "bind_outcome (wr_block m p xs) (\<lambda>m'. wr_block m' q ys) = wr_block m p (xs @ ys)" if "q = p + int (length xs)"
    for m p q xs ys
  proof (cases "wr_block m p xs")
    case Undef
    then show ?thesis by (auto simp: wr_block_def split: if_splits)
  next
    case (Ret m')
    then show ?thesis using wr_block_append [OF Ret, of ys] that by simp
  qed
  have assoc: "bind_outcome (bind_outcome a g) h = bind_outcome a (\<lambda>x. bind_outcome (g x) h)" for a :: "bytes outcome" and g h
    by (cases a) simp_all
  have "response_header buf pdu tid pos = wr_block buf 0 (pdu # be16 tid @ be16 (pos - 5))"
    using two [of 3 0 "pdu # be16 tid" buf "be16 (pos - 5)"]
    by (simp add: response_header_def s flip: assoc) (simp add: wr_bind_block)
  then show ?thesis
    using two [of 5 0 "pdu # be16 tid @ be16 (pos - 5)" buf "be16 v"] by (simp add: s flip: assoc)
qed

lemma response_written:
  assumes "holds_at buf 7 out" "7 + length out + length cont \<le> length buf" "length buf < 65536"
  obtains b1 b2 b3 where "wr_block buf (7 + int (length out)) cont = Ret b1"
    "response_header b1 pdu tid (of_nat (7 + length out + length cont)) = Ret b2"
    "big_endian_store_16 b2 0 5 (of_nat (length out)) = Ret b3"
    "holds_at b3 0 (response pdu tid out cont)" "length b3 = length buf"
proof -
  have room: "7 + int (length out) + int (length cont) \<le> int (length buf)" using assms(2) by linarith
  obtain b1 where b1: "wr_block buf (7 + int (length out)) cont = Ret b1" "length b1 = length buf"
      "holds_at b1 (7 + int (length out)) cont"
      "\<And>q xs. holds_at buf q xs \<Longrightarrow> q + int (length xs) \<le> 7 + int (length out) \<or> 7 + int (length out) + int (length cont) \<le> q
        \<Longrightarrow> holds_at b1 q xs"
    by (rule wr_block_Ret [OF _ room]) (simp, rule that)
  have out: "holds_at b1 7 (out @ cont)" using b1(3) b1(4) [OF assms(1)] by (simp add: holds_at_append)
  let ?hd = "pdu # be16 tid @ be16 (of_nat (7 + length out + length cont) - 5) @ be16 (of_nat (length out))"
  have "0 + int (length ?hd) \<le> int (length b1)" using assms(2) b1(2) by simp
  then obtain b3 where b3: "wr_block b1 0 ?hd = Ret b3" "length b3 = length b1" "holds_at b3 0 ?hd"
      "\<And>q xs. holds_at b1 q xs \<Longrightarrow> q + int (length xs) \<le> 0 \<or> 0 + int (length ?hd) \<le> q \<Longrightarrow> holds_at b3 q xs"
    by (rule wr_block_Ret [OF order_refl]) (rule that)
  have sz: "of_nat (7 + length out + length cont) - 5 = (of_nat (2 + length out + length cont) :: u16)" by simp
  have "holds_at b3 7 (out @ cont)" by (rule b3(4) [OF out]) simp
  then have "holds_at b3 0 (?hd @ out @ cont)" using b3(3) by (simp only: holds_at_append) simp
  then have h: "holds_at b3 0 (response pdu tid out cont)" unfolding sz response_def by simp
  have "bind_outcome (response_header b1 pdu tid (of_nat (7 + length out + length cont)))
      (\<lambda>b. bind_outcome (big_endian_store_16 b 0 5 (of_nat (length out))) Ret) = Ret b3"
    unfolding header_block b3(1) by simp
  then obtain b2 where "response_header b1 pdu tid (of_nat (7 + length out + length cont)) = Ret b2"
      "big_endian_store_16 b2 0 5 (of_nat (length out)) = Ret b3"
    by (auto simp: bind_outcome_Ret)
  with b1(1) show ?thesis using h b3(2) b1(2) by (intro that [of b1 b2 b3]) simp_all
qed

text \<open>The bytes a client reads from a response: the fragment, and the continuation state.\<close>

definition read_response :: "bytes \<Rightarrow> int \<Rightarrow> (bytes \<times> bytes) option" where
  "read_response buf sz =
     (case big_endian_read_16 buf 0 5 of
        Undef \<Rightarrow> None
      | Ret cnt \<Rightarrow> Some (take (unat cnt) (drop 7 buf), take (nat sz - (7 + unat cnt)) (drop (7 + unat cnt) buf)))"

lemma read_response:
  assumes "holds_at buf 0 (response pdu tid out cont)" "length out < 65536"
  shows "read_response buf (7 + int (length out) + int (length cont)) = Some (out, cont)"
proof -
  have "holds_at buf 0 ((pdu # be16 tid @ be16 (of_nat (2 + length out + length cont))) @ be16 (of_nat (length out)) @ out @ cont)"
    using assms(1) by (simp add: response_def)
  then have h: "holds_at buf 5 (be16 (of_nat (length out)))" "holds_at buf 7 out" "holds_at buf (7 + int (length out)) cont"
    by (simp_all only: holds_at_append) simp_all
  have "big_endian_read_16 buf 0 5 = Ret (ucast (of_nat (length out) :: u16))" using h(1) by (intro read_16) simp
  moreover have "unat (ucast (of_nat (length out) :: u16) :: u32) = length out"
    using assms(2) by (simp only: unat_ucast_u16 u16_of_nat)
  moreover have "take (length out) (drop 7 buf) = out" using h(2) by (simp add: holds_at_def)
  moreover have "take (length cont) (drop (7 + length out) buf) = cont"
    using h(3) by (simp add: holds_at_def nat_add_distrib)
  moreover have "nat (7 + int (length out) + int (length cont)) = 7 + length out + length cont" by linarith
  ultimately show ?thesis by (simp add: read_response_def)
qed

subsection \<open>The attribute request\<close>

definition attribute_request :: "u16 \<Rightarrow> u32 \<Rightarrow> u16 \<Rightarrow> bytes \<Rightarrow> bytes \<Rightarrow> bytes" where
  "attribute_request tid handle mx idl cont =
     4 # be16 tid @ be16 (of_nat (6 + length idl + length cont)) @ be32 handle @ be16 mx @ idl @ cont"

lemma attribute_request_parts:
  fixes tid h mx idl cont
  defines "pk \<equiv> attribute_request tid h mx idl cont"
  shows "holds_at pk 1 (be16 tid)" "holds_at pk 3 (be16 (of_nat (6 + length idl + length cont)))"
    "holds_at pk 5 (be32 h)" "holds_at pk 9 (be16 mx)" "holds_at pk 11 idl" "holds_at pk (11 + int (length idl)) cont"
proof -
  have "holds_at pk 0 ([4] @ be16 tid @ be16 (of_nat (6 + length idl + length cont)) @ be32 h @ be16 mx @ idl @ cont)"
    by (simp add: pk_def attribute_request_def holds_at_self)
  then show "holds_at pk 1 (be16 tid)" "holds_at pk 3 (be16 (of_nat (6 + length idl + length cont)))"
    "holds_at pk 5 (be32 h)" "holds_at pk 9 (be16 mx)" "holds_at pk 11 idl" "holds_at pk (11 + int (length idl)) cont"
    by (simp_all only: holds_at_append) simp_all
qed

text \<open>The continuation state \<open>[0]\<close> asks for the start, \<open>2\<close> and an offset for the bytes from there.\<close>

definition offset_state :: "nat \<Rightarrow> bytes" where
  "offset_state off = (if off = 0 then [0] else 2 # be16 (of_nat off))"

lemma offset_state_reads:
  assumes "holds_at pk p (offset_state off)" "off < 65536"
  shows "\<exists>c. rd pk p = Ret c \<and> 1 + uint c = int (length (offset_state off)) \<and>
    (if c = 2 then Some (big_endian_read_16 pk p 1) else Some (Ret 0)) = Some (Ret (ucast (of_nat off :: u16)))"
proof (cases "off = 0")
  case True
  then show ?thesis using assms by (intro exI [of _ 0]) (simp add: offset_state_def holds_at_Cons)
next
  case False
  then have "rd pk p = Ret 2" "holds_at pk (p + 1) (be16 (of_nat off))"
    using assms(1) by (simp_all add: offset_state_def holds_at_Cons)
  then show ?thesis using False by (intro exI [of _ 2]) (simp add: offset_state_def read_16)
qed

text \<open>The whole answer for a record, and the part of it a request with an offset starts at.\<close>

definition answer :: "bytes \<Rightarrow> bytes" where
  "answer xs = des_header 6 (length xs) @ xs"

definition answer_from :: "nat \<Rightarrow> bytes \<Rightarrow> bytes" where
  "answer_from off xs = (if off = 0 then answer xs else drop off xs)"

lemma answer_header: "des_header 6 n = 0x36 # be16 (of_nat n)"
  by (simp add: des_header_def)

lemma des16_written:
  assumes "0 \<le> b" "b + 3 \<le> int (length buf)" "k < 65536"
  obtains buf' where "de_store_descriptor_with_len buf b DE_DES DE_SIZE_VAR_16 (ucast (of_nat k :: u16)) = Ret buf'"
    "holds_at buf' b (des_header 6 k)" "kept b buf buf'"
proof -
  have room: "b + int (length (des_header 6 k)) \<le> int (length buf)" using assms(2) by (simp add: answer_header)
  obtain buf' where "wr_block buf b (des_header 6 k) = Ret buf'" "length buf' = length buf" "holds_at buf' b (des_header 6 k)"
      "\<And>q xs. holds_at buf q xs \<Longrightarrow> q + int (length xs) \<le> b \<or> b + int (length (des_header 6 k)) \<le> q \<Longrightarrow> holds_at buf' q xs"
    by (rule wr_block_Ret [OF assms(1) room]) (rule that)
  moreover from this have "kept b buf buf'" using assms(1) by (intro kept_frame) simp_all
  ultimately show ?thesis using assms(3) by (intro that) (simp_all add: store_des16 answer_header)
qed

lemma attribute_fill:
  assumes r: "record_at rec 0 cls as" "length (attrs_bytes as) < 65536" "length as < n"
    and ids: "ids_at packet a ids" "length ids < n"
    and off: "off < 65536" and lim: "3 < lim" "lim < 65536" and room: "7 + lim \<le> length buf"
  defines "out \<equiv> take lim (answer_from off (sel ids as))"
  shows "\<exists>buf'. attribute_fill n rec packet a (of_nat off) (of_nat lim) buf =
      Some (Ret (buf', if off = 0 then 10 else 7, of_nat (length out - (if off = 0 then 3 else 0)),
        length (answer_from off (sel ids as)) \<le> lim)) \<and>
    holds_at buf' 7 out \<and> length buf' = length buf"
proof (cases "off = 0")
  case True
  let ?xs = "sel ids as"
  have xs: "length ?xs < 65536" using sel_length [of ids as] r(2) by simp
  have e: "(7 :: int) + 3 \<le> int (length buf)" using room lim by linarith
  obtain b1 where b1: "de_store_descriptor_with_len buf 7 DE_DES DE_SIZE_VAR_16 (ucast (of_nat (length ?xs) :: u16)) = Ret b1"
      "holds_at b1 7 (des_header 6 (length ?xs))" "kept 7 buf b1"
    by (rule des16_written [OF _ e xs]) (simp, rule that)
  have lim3: "of_nat lim - 3 = (of_nat (lim - 3) :: u16)" "unat (of_nat (lim - 3) :: u16) = lim - 3"
    using lim by (simp add: of_nat_diff, intro u16_of_nat, linarith)
  have fits: "10 + int (unat (of_nat (lim - 3) :: u16)) \<le> int (length b1)"
    unfolding lim3(2) using room lim(1) kept_length [OF b1(3)] by linarith
  obtain b2 where b2: "sdp_filter_attributes_in_attributeIDList n rec 0 packet a 0 (of_nat (lim - 3)) b1 10 =
      Some (Ret (b2, of_nat (length (take (lim - 3) ?xs)), length ?xs \<le> lim - 3))"
      "holds_at b2 10 (take (lim - 3) ?xs)" "kept 10 b1 b2"
    using filter_attributes [OF r ids _ fits, of 0] unfolding lim3(2) by auto
  have out: "out = des_header 6 (length ?xs) @ take (lim - 3) ?xs" "length out = 3 + length (take (lim - 3) ?xs)"
    using True lim(1) by (simp_all add: out_def answer_from_def answer_def answer_header numeral_3_eq_3 Suc_diff_Suc take_Cons')
  have "holds_at b2 7 (des_header 6 (length ?xs))"
    by (rule kept_holds [OF b2(3) b1(2)]) (simp add: answer_header)
  then have "holds_at b2 7 out" using b2(2) unfolding out(1) holds_at_append by (simp add: answer_header)
  moreover have "length b2 = length buf" using kept_length [OF b1(3)] kept_length [OF b2(3)] by simp
  moreover have "attribute_fill n rec packet a (of_nat off) (of_nat lim) buf =
      Some (Ret (b2, 10, of_nat (length (take (lim - 3) ?xs)), length ?xs \<le> lim - 3))"
    using True b1(1) b2(1) filtered_size [OF r ids] by (simp add: attribute_fill_def lim3(1) del: length_take)
  moreover have "length (answer_from off ?xs) \<le> lim \<longleftrightarrow> length ?xs \<le> lim - 3"
    using True lim(1) by (auto simp: answer_from_def answer_def answer_header)
  ultimately show ?thesis using True out(2) by (intro exI [of _ b2]) simp
next
  case False
  let ?xs = "sel ids as"
  have u: "unat (of_nat off :: u16) = off" "unat (of_nat lim :: u16) = lim" "(of_nat off :: u16) \<noteq> 0"
    using off lim False by (simp_all add: unat_eq_zero [symmetric] del: unat_eq_zero)
  have fits: "7 + int (unat (of_nat lim :: u16)) \<le> int (length buf)" unfolding u using room by linarith
  obtain b2 where b2: "sdp_filter_attributes_in_attributeIDList n rec 0 packet a (of_nat off) (of_nat lim) buf 7 =
      Some (Ret (b2, of_nat (length (take lim (drop off ?xs))), length (drop off ?xs) \<le> lim))"
      "holds_at b2 7 (take lim (drop off ?xs))" "kept 7 buf b2"
    using filter_attributes [OF r ids _ fits, of "of_nat off"] unfolding u by auto
  then show ?thesis
    using False u(3) kept_length [OF b2(3)]
    by (intro exI [of _ b2]) (simp add: attribute_fill_def out_def answer_from_def)
qed

lemma bind_result_weak_cong: "m = m' \<Longrightarrow> bind_result m f = bind_result m' f"
  by simp

lemma attribute_end:
  assumes "holds_at buf 7 out" "length out + 10 \<le> length buf" "length buf < 65536" "pos = of_nat (7 + length out)"
    and "complete \<or> (next < 65536 \<and> 0 < next \<and> offs = of_nat next)"
  defines "cont \<equiv> offset_state (if complete then 0 else next)"
  shows "\<exists>buf'. attribute_end tid buf pos complete offs (of_nat (length out)) =
      Some (Ret (buf', 7 + int (length out) + int (length cont))) \<and>
    holds_at buf' 0 (response 5 tid out cont) \<and> length buf' = length buf"
proof -
  have len: "length cont \<le> 3" "complete \<Longrightarrow> cont = [0]" "\<not> complete \<Longrightarrow> cont = 2 # be16 offs"
    using assms(5) by (auto simp: cont_def offset_state_def)
  then have "7 + length out + length cont \<le> length buf" using assms(2) by linarith
  from response_written [OF assms(1) this assms(3), of 5 tid] obtain b1 b2 b3
    where b: "wr_block buf (7 + int (length out)) cont = Ret b1"
      "response_header b1 5 tid (of_nat (7 + length out + length cont)) = Ret b2"
      "big_endian_store_16 b2 0 5 (of_nat (length out)) = Ret b3"
      "holds_at b3 0 (response 5 tid out cont)" "length b3 = length buf" by blast
  have pos: "uint pos = 7 + int (length out)" "uint (pos + 1) = 8 + int (length out)" "unat (pos + 1) + 2 \<le> 65536"
    "uint (pos + 3) = 10 + int (length out)"
  proof -
    have p: "pos = of_nat (7 + length out)" "pos + 1 = of_nat (8 + length out)" "pos + 3 = of_nat (10 + length out)"
      using assms(4) by simp_all
    show "uint (pos + 3) = 10 + int (length out)" "uint (pos + 1) = 8 + int (length out)"
      unfolding p(2,3) using assms(2,3) by (subst uint_u16_of_nat; simp)+
    show "uint pos = 7 + int (length out)"
      unfolding p(1) using assms(2,3) by (subst uint_u16_of_nat) simp_all
    show "unat (pos + 1) + 2 \<le> 65536" unfolding p(2) using assms(2,3) by (subst u16_of_nat) simp_all
  qed
  show ?thesis
  proof (cases complete)
    case True
    then have "pos + 1 = of_nat (7 + length out + length cont)" using len(2) assms(4) by simp
    then show ?thesis
      using True len(2) b pos by (simp add: wr_as_block attribute_end_def)
  next
    case False
    have "bind_outcome (wr buf (uint pos) 2) (\<lambda>m. big_endian_store_16 m 0 (pos + 1) offs) = wr_block buf (uint pos) cont"
      using pos len(3) [OF False] by (simp add: be16.store_enc wr_bind_block)
    then obtain b0 where b0: "wr buf (uint pos) 2 = Ret b0" "big_endian_store_16 b0 0 (pos + 1) offs = Ret b1"
      using b(1) pos(1) by (auto simp: bind_outcome_Ret)
    have "pos + 3 = of_nat (7 + length out + length cont)" using len(3) [OF False] assms(4) by simp
    then show ?thesis using False len(3) b b0 pos by (simp add: attribute_end_def)
  qed
qed

text \<open>The handler parses a well-formed request and goes on with the two steps.\<close>

lemma attribute_request_parsed:
  fixes mx tid mtu
  assumes item: "sdp_get_record_item_for_handle s h = Some item"
    and ids: "des_fits c (length (concat ids))" "idl = des_bytes c (concat ids)" "length idl < 65520"
    and off: "off < 65536"
  defines "pk \<equiv> attribute_request tid h mx idl (offset_state off)"
    and "room \<equiv> (if mtu - (7 + 3) < mx then mtu - (7 + 3) else mx)"
  shows "sdp_handle_service_attribute_request n s pk mtu =
    bind_result (attribute_fill n (service_record item) pk 11 (of_nat off) room (sdp_response_buffer s))
      (\<lambda>(buf, pos, bytes_used, complete).
        attribute_end tid buf (pos + bytes_used) complete (of_nat off + bytes_used) (pos + bytes_used - 7))"
proof -
  define cont where "cont = offset_state off"
  have lc: "length cont \<le> 3" "0 < length cont" by (simp_all add: cont_def offset_state_def)
  have at: "holds_at pk 1 (be16 tid)" "holds_at pk 3 (be16 (of_nat (6 + length idl + length cont)))"
    "holds_at pk 5 (be32 h)" "holds_at pk 9 (be16 mx)" "holds_at pk 11 idl" "holds_at pk (11 + int (length idl)) cont"
    unfolding pk_def cont_def by (rule attribute_request_parts)+
  define P :: u16 where "P = of_nat (6 + length idl + length cont)"
  define L :: u16 where "L = of_nat (length idl)"
  have uP: "unat P = 6 + length idl + length cont" and uL: "unat L = length idl" "uint L = int (length idl)"
    using ids(3) lc(1) by (simp_all only: P_def L_def u16_of_nat uint_u16_of_nat)
  have P6: "unat (P - 6) = length idl + length cont" and PL: "unat (P - 6 - L) = length cont" "uint (P - 6 - L) = int (length cont)"
  proof -
    have e: "P - 6 = of_nat (length idl + length cont)" "P - 6 - L = of_nat (length cont)" by (simp_all add: P_def L_def)
    show "unat (P - 6 - L) = length cont" "uint (P - 6 - L) = int (length cont)"
      unfolding e(2) using lc(1) by (simp_all only: u16_of_nat uint_u16_of_nat)
    show "unat (P - 6) = length idl + length cont"
      unfolding e(1) using ids(3) lc(1) by (simp only: u16_of_nat)
  qed
  have reads: "big_endian_read_16 pk 0 1 = Ret (ucast tid)" "big_endian_read_16 pk 0 3 = Ret (ucast P)"
    "big_endian_read_32 pk 0 5 = Ret h" "big_endian_read_16 pk 0 9 = Ret (ucast mx)"
    using at(1-4) by (simp_all add: read_16 be32.read_enc P_def)
  have "length idl \<le> unat (ucast (P - 6) :: u32)" unfolding unat_ucast_u16 P6 by simp
  then have safe: "de_get_len_safe pk 11 (ucast (P - 6)) = Ret (of_nat (length idl))"
    unfolding ids(2) by (intro des_len_safe [OF ids(1)]) (use at(5) in \<open>simp_all add: ids(2)\<close>)
  have sL: "ucast (of_nat (length idl) :: u32) = L" using ids(3) by (simp add: L_def)
  have nz: "L \<noteq> 0" "\<not> P < 6" "\<not> P - 6 - L < 1"
  proof -
    have "length idl \<noteq> 0" by (simp add: ids(2) des_bytes_def des_header_def)
    then show "L \<noteq> 0" using uL(1) by auto
    show "\<not> P < 6" "\<not> P - 6 - L < 1" using uP PL lc(2) by (simp_all add: word_less_nat_alt)
  qed
  obtain cl where cl: "rd pk (11 + uint L) = Ret cl" "1 + uint cl = int (length cont)"
      "(if cl = 2 then Some (big_endian_read_16 pk (11 + uint L) 1) else Some (Ret 0)) = Some (Ret (ucast (of_nat off :: u16)))"
    using offset_state_reads [of pk "11 + uint L" off] at(6) off(1) unfolding cont_def uL(2) by blast
  have clR: "\<not> 1 + uint cl > uint (P - 6 - L)" using cl(2) PL(2) by simp
  show ?thesis
    unfolding sdp_handle_service_attribute_request_def
    by (simp only: reads bind_result_simps Let_def ucast_u16_back nz(2) if_False safe sL nz(1,3) cl(1) clR cl(3) item option.case
        room_def cong: bind_result_weak_cong let_weak_cong) (simp only: Let_def)
qed

lemma attribute_response:
  assumes item: "sdp_get_record_item_for_handle s h = Some item"
    and r: "record_at (service_record item) 0 cls as" "length (attrs_bytes as) < 65536" "length as < n"
    and ids: "des_fits c (length (concat ids))" "\<forall>e \<in> set ids. elem_ok e" "length ids < n"
      "idl = des_bytes c (concat ids)" "length idl < 65520"
    and off: "off < 65536" "off \<le> length (sel ids as)"
    and lim: "lim = min (unat mx) (unat mtu - 10)" "3 < lim"
    and buf: "unat mtu \<le> length (sdp_response_buffer s)" "length (sdp_response_buffer s) < 65536"
  defines "out \<equiv> take lim (answer_from off (sel ids as))"
    and "nxt \<equiv> if length (answer_from off (sel ids as)) \<le> lim then 0
      else off + length (take lim (answer_from off (sel ids as))) - (if off = 0 then 3 else 0)"
  shows "\<exists>buf'. sdp_handle_service_attribute_request n s (attribute_request tid h mx idl (offset_state off)) mtu =
      Some (Ret (buf', 7 + int (length out) + int (length (offset_state nxt)))) \<and>
    holds_at buf' 0 (response 5 tid out (offset_state nxt)) \<and> length buf' = length (sdp_response_buffer s)"
proof -
  define pk where "pk = attribute_request tid h mx idl (offset_state off)"
  have room: "(if mtu - (7 + 3) < mx then mtu - (7 + 3) else mx) = of_nat lim"
  proof -
    have "10 \<le> unat mtu" using lim by linarith
    then have "unat (mtu - 10) = unat mtu - 10" by (simp add: unat_sub word_le_nat_alt)
    then have "unat (if mtu - (7 + 3) < mx then mtu - (7 + 3) else mx) = lim"
      using lim(1) by (simp add: word_less_nat_alt min_def)
    then have "of_nat (unat (if mtu - (7 + 3) < mx then mtu - (7 + 3) else mx)) = (of_nat lim :: u16)" by (simp only:)
    then show ?thesis by simp
  qed
  have lims: "lim < 65536" "7 + lim \<le> length (sdp_response_buffer s)" "lim + 10 \<le> length (sdp_response_buffer s)"
    using lim buf(1) unat_u16_less [of mtu] by linarith+
  have idsat: "ids_at pk 11 ids" using attribute_request_parts(5) [of tid h mx idl] ids unfolding pk_def ids_at_def by blast
  obtain b1 where b1: "attribute_fill n (service_record item) pk 11 (of_nat off) (of_nat lim) (sdp_response_buffer s) =
      Some (Ret (b1, if off = 0 then 10 else 7, of_nat (length out - (if off = 0 then 3 else 0)),
        length (answer_from off (sel ids as)) \<le> lim))" "holds_at b1 7 out" "length b1 = length (sdp_response_buffer s)"
    using attribute_fill [OF r idsat ids(3) off(1) lim(2) lims(1,2)] unfolding out_def by blast
  have out3: "3 \<le> length out" if "off = 0"
    using that lim(2) by (simp add: out_def answer_from_def answer_def answer_header)
  have pos: "(if off = 0 then 10 else 7) + of_nat (length out - (if off = 0 then 3 else 0)) = (of_nat (7 + length out) :: u16)"
    using out3 by (simp add: of_nat_diff)
  have cnt: "of_nat (7 + length out) - 7 = (of_nat (length out) :: u16)" by simp
  have nxt_ok: "length (answer_from off (sel ids as)) \<le> lim \<or> (nxt < 65536 \<and> 0 < nxt \<and>
      of_nat off + of_nat (length out - (if off = 0 then 3 else 0)) = (of_nat nxt :: u16))"
  proof (cases "length (answer_from off (sel ids as)) \<le> lim")
    case False
    then have out: "length out = lim" by (simp add: out_def)
    show ?thesis
    proof (cases "off = 0")
      case True
      with False out lim(2) lims(1) show ?thesis by (simp add: nxt_def out_def)
    next
      case f: False
      have "length (sel ids as) < 65536" using sel_length [of ids as] r(2) by simp
      then show ?thesis using f False out lim(2) by (simp add: nxt_def out_def answer_from_def)
    qed
  qed simp
  have outlen: "length out + 10 \<le> length b1" using lims(3) b1(3) by (simp add: out_def)
  have b1len: "length b1 < 65536" using buf(2) b1(3) by simp
  have nx: "(if length (answer_from off (sel ids as)) \<le> lim then 0 else nxt) = nxt" by (simp add: nxt_def)
  obtain b2 where b2: "attribute_end tid b1 (of_nat (7 + length out)) (length (answer_from off (sel ids as)) \<le> lim)
      (of_nat off + of_nat (length out - (if off = 0 then 3 else 0))) (of_nat (length out)) =
      Some (Ret (b2, 7 + int (length out) + int (length (offset_state nxt))))"
    "holds_at b2 0 (response 5 tid out (offset_state nxt))" "length b2 = length b1"
    using attribute_end [OF b1(2) outlen b1len refl nxt_ok, of tid] unfolding nx by blast
  have "sdp_handle_service_attribute_request n s pk mtu = Some (Ret (b2, 7 + int (length out) + int (length (offset_state nxt))))"
    unfolding pk_def attribute_request_parsed [OF item ids(1,4,5) off(1)] room
    by (simp only: pk_def [symmetric] b1(1) bind_result_simps prod.case pos cnt b2(1))
  moreover have "length b2 = length (sdp_response_buffer s)" using b2(3) b1(3) by (rule trans)
  ultimately show ?thesis using b2(2) unfolding pk_def by (intro exI [of _ b2] conjI)
qed

lemma length_des16: "length (des_header 6 n) = 3"
  by (simp add: answer_header)

text \<open>A client that sends one request after the other, with the continuation state of the last answer.\<close>

fun fetch_attributes :: "nat \<Rightarrow> nat \<Rightarrow> sdp_server \<Rightarrow> u16 \<Rightarrow> u32 \<Rightarrow> u16 \<Rightarrow> bytes \<Rightarrow> u16 \<Rightarrow> bytes \<Rightarrow> bytes option" where
  "fetch_attributes 0 n s tid h mx idl mtu cont = None"
| "fetch_attributes (Suc k) n s tid h mx idl mtu cont =
     (case sdp_handle_service_attribute_request n s (attribute_request tid h mx idl cont) mtu of
        Some (Ret (buf, sz)) \<Rightarrow>
          (case read_response buf sz of
             None \<Rightarrow> None
           | Some (out, cont') \<Rightarrow>
               if cont' = [0] then Some out
               else map_option ((@) out) (fetch_attributes k n (s\<lparr>sdp_response_buffer := buf\<rparr>) tid h mx idl mtu cont'))
      | _ \<Rightarrow> None)"

lemma fetch_attributes_from:
  assumes item: "sdp_get_record_item_for_handle s h = Some item"
    and r: "record_at (service_record item) 0 cls as" "length (attrs_bytes as) < 65536" "length as < n"
    and ids: "des_fits c (length (concat ids))" "\<forall>e \<in> set ids. elem_ok e" "length ids < n"
      "idl = des_bytes c (concat ids)" "length idl < 65520"
    and lim: "4 \<le> unat mx" "14 \<le> unat mtu"
    and buf: "unat mtu \<le> length (sdp_response_buffer s)" "length (sdp_response_buffer s) < 65536"
    and off: "off \<le> length (sel ids as)" and k: "length (answer_from off (sel ids as)) < k"
  shows "fetch_attributes k n s tid h mx idl mtu (offset_state off) = Some (answer_from off (sel ids as))"
  using item buf off k
proof (induction k arbitrary: s off)
  case (Suc k)
  let ?xs = "sel ids as"
  have xs: "length ?xs < 65536" using sel_length [of ids as] r(2) by simp
  then have offs: "off < 65536" using Suc.prems(4) by simp
  define lim where "lim = min (unat mx) (unat mtu - 10)"
  have lim3: "3 < lim" using lim by (simp add: lim_def)
  define out where "out = take lim (answer_from off ?xs)"
  define nxt where "nxt = (if length (answer_from off ?xs) \<le> lim then 0 else off + length out - (if off = 0 then 3 else 0))"
  obtain b where b: "sdp_handle_service_attribute_request n s (attribute_request tid h mx idl (offset_state off)) mtu =
      Some (Ret (b, 7 + int (length out) + int (length (offset_state nxt))))"
      "holds_at b 0 (response 5 tid out (offset_state nxt))" "length b = length (sdp_response_buffer s)"
    using attribute_response [OF Suc.prems(1) r ids offs Suc.prems(4) lim_def lim3 Suc.prems(2,3), of tid]
    unfolding nxt_def out_def by blast
  have "length out \<le> unat mx" by (simp add: out_def lim_def)
  then have "length out < 65536" using unat_u16_less [of mx] by linarith
  from read_response [OF b(2) this]
  have read: "read_response b (7 + int (length out) + int (length (offset_state nxt))) = Some (out, offset_state nxt)" .
  show ?case
  proof (cases "length (answer_from off ?xs) \<le> lim")
    case True
    then have "nxt = 0" "out = answer_from off ?xs" by (simp_all add: nxt_def out_def)
    then show ?thesis using b(1) read by (simp add: offset_state_def)
  next
    case False
    then have out: "length out = lim" by (simp add: out_def)
    have nx: "0 < nxt" "nxt \<le> length ?xs" "out @ drop nxt ?xs = answer_from off ?xs"
    proof -
      show "0 < nxt" "nxt \<le> length ?xs"
        using False out lim3 by (auto simp: nxt_def answer_from_def answer_def answer_header split: if_splits)
      show "out @ drop nxt ?xs = answer_from off ?xs"
      proof (cases "off = 0")
        case True
        have "drop nxt ?xs = drop lim (answer ?xs)"
          using True False out lim3 by (simp add: nxt_def answer_from_def answer_def length_des16)
        then show ?thesis using True by (simp add: out_def answer_from_def)
      next
        case off: False
        have "drop nxt ?xs = drop lim (drop off ?xs)" using off False out by (simp add: nxt_def answer_from_def add.commute)
        then show ?thesis using off by (simp only: out_def answer_from_def if_False append_take_drop_id)
      qed
    qed
    have "length (answer_from nxt ?xs) < k"
    proof -
      have "length (out @ drop nxt ?xs) = length (answer_from off ?xs)" unfolding nx(3) ..
      then show ?thesis using nx(1) out lim3 Suc.prems(5) by (simp add: answer_from_def)
    qed
    then have "fetch_attributes k n (s\<lparr>sdp_response_buffer := b\<rparr>) tid h mx idl mtu (offset_state nxt) = Some (answer_from nxt ?xs)"
      using Suc.prems(1-3) b(3) nx(2) by (intro Suc.IH) (simp_all add: sdp_get_record_item_for_handle_def)
    moreover have "offset_state nxt \<noteq> [0]" using nx(1) by (simp add: offset_state_def)
    ultimately show ?thesis using b(1) read nx(1,3) by (simp add: answer_from_def)
  qed
qed simp

end
