(* ===== verification/SdpServerProps.thy ===== *)
theory SdpServerProps
  imports SdpResponse SdpProps
begin

text \<open>
  Properties of the SDP server: the registry of records, the connections that wait for the server,
  and the answers to attribute requests.
\<close>

subsection \<open>The registry\<close>

definition handles :: "sdp_server \<Rightarrow> u32 list" where
  "handles s = map service_record_handle (sdp_service_records s)"

definition registry_ok :: "sdp_server \<Rightarrow> bool" where
  "registry_ok s \<longleftrightarrow> distinct (handles s) \<and> (\<forall>h \<in> set (handles s). maxReservedServiceRecordHandle < h)"

datatype registry_op = Register nat bool bytes | Unregister u32

text \<open>A registration whose record makes the lookup fail leaves no state.\<close>

fun registry_step :: "registry_op \<Rightarrow> sdp_server \<Rightarrow> sdp_server option" where
  "registry_step (Register n alloc rec) s =
     (case sdp_register_service n alloc s rec of Some (Ret (s', status)) \<Rightarrow> Some s' | _ \<Rightarrow> None)"
| "registry_step (Unregister h) s = Some (sdp_unregister_service s h)"

fun registry_run :: "registry_op list \<Rightarrow> sdp_server \<Rightarrow> sdp_server option" where
  "registry_run [] s = Some s"
| "registry_run (op # ops) s = (case registry_step op s of None \<Rightarrow> None | Some s \<Rightarrow> registry_run ops s)"

lemma item_for_handle_None: "sdp_get_record_item_for_handle s h = None \<longleftrightarrow> h \<notin> set (handles s)"
  by (auto simp: sdp_get_record_item_for_handle_def handles_def find_None_iff)

lemma remove_item_handles: "map service_record_handle (remove_item h items) = remove1 h (map service_record_handle items)"
  by (induction items) auto

lemma remove_item_subset: "set (remove_item h items) \<subseteq> set items"
  by (induction items) auto

lemma registry_step_ok:
  assumes "registry_ok s" "registry_step op s = Some s'"
  shows "registry_ok s'"
proof (cases op)
  case (Register n alloc rec)
  then show ?thesis
    using assms item_for_handle_None [of s]
    by (auto simp: sdp_register_service_def bind_result_def registry_ok_def handles_def Let_def not_le
        split: option.splits outcome.splits if_splits)
next
  case (Unregister h)
  have "registry_ok (s\<lparr>sdp_service_records := remove_item k (sdp_service_records s)\<rparr>)" for k
    using assms(1) subsetD [OF remove_item_subset, of _ k "sdp_service_records s"]
    by (auto simp: registry_ok_def handles_def remove_item_handles)
  then show ?thesis
    using assms Unregister by (auto simp: sdp_unregister_service_def split: option.splits)
qed

text \<open>
  C17. Whatever records are registered and unregistered, the handles of the registered records are
  distinct and above the reserved range; unregistering takes exactly the handle out.
\<close>

theorem registry_stays_distinct:
  assumes "registry_run ops sdp_start = Some s"
  shows "registry_ok s \<and> set (handles (sdp_unregister_service s h)) = set (handles s) - {h}"
proof -
  have "registry_ok s" if "registry_ok s0" "registry_run ops s0 = Some s" for s0
    using that by (induction ops arbitrary: s0) (auto split: option.splits dest: registry_step_ok)
  from this [OF _ assms] have ok: "registry_ok s" by (simp add: registry_ok_def handles_def sdp_start_def)
  have "handles (sdp_unregister_service s h) = remove1 h (handles s)"
  proof (cases "sdp_get_record_item_for_handle s h")
    case None
    then show ?thesis using item_for_handle_None [of s h] by (simp add: sdp_unregister_service_def remove1_idem)
  next
    case (Some item)
    then have "service_record_handle item = h" by (auto simp: sdp_get_record_item_for_handle_def find_Some_iff)
    with Some show ?thesis by (simp add: sdp_unregister_service_def handles_def remove_item_handles)
  qed
  then show ?thesis using ok by (simp add: registry_ok_def)
qed

lemma sample_handle: "sdp_get_service_record_handle 3 sample_record = Some (Ret 0x00010001)"
proof -
  have "sdp_get_attribute_value_for_attribute_id 3 sample_record 0 0 =
      Some (Ret (Some (value_addr 0 5 sample_attrs [])))"
    using get_attribute_found [of sample_record 0 5 "[]" 0 "[0x0A, 0, 1, 0, 1]" "[(1, [0x35, 3, 0x19, 0x11, 0x01])]" 3]
      sample_record_at by (simp add: sample_attrs_def)
  moreover have "value_addr 0 5 sample_attrs [] = 5" by (simp add: value_addr_def sample_attrs_def des_header_def)
  ultimately show ?thesis
    by (simp add: sdp_get_service_record_handle_def sample_record_def de_get_element_type_def de_get_size_type_def
        big_endian_read_32_def rd_def)
qed

theorem registry_stays_distinct_witness:
  "\<exists>s. registry_run [Register 3 True sample_record, Register 3 True sample_record] sdp_start = Some s \<and>
     registry_ok s \<and> set (handles (sdp_unregister_service s 0x00010001)) = set (handles s) - {0x00010001}"
proof -
  define s where "s = sdp_start\<lparr>sdp_service_records := [\<lparr>service_record_handle = 0x00010001, service_record = sample_record\<rparr>]\<rparr>"
  have run: "registry_run [Register 3 True sample_record, Register 3 True sample_record] sdp_start = Some s"
    by (simp add: sdp_register_service_def sample_handle maxReservedServiceRecordHandle_def
        sdp_get_record_item_for_handle_def sdp_start_def s_def Let_def)
  show ?thesis
    by (rule exI [of _ s]) (use run registry_stays_distinct [OF run, of "0x00010001"] in blast)
qed

subsection \<open>New handles\<close>

lemma create_handle_Some:
  assumes "sdp_create_service_record_handle n s = Some (s', h)"
  shows "h \<noteq> 0 \<and> h \<notin> set (handles s) \<and> sdp_service_records s' = sdp_service_records s"
  using assms
proof (induction n arbitrary: s)
  case (Suc n)
  let ?s = "s\<lparr>sdp_next_service_record_handle := sdp_next_service_record_handle s + 1\<rparr>"
  have "handles ?s = handles s" by (simp add: handles_def)
  have free: "sdp_get_record_item_for_handle ?s h = None \<longleftrightarrow> h \<notin> set (handles s)" for h
    using item_for_handle_None [of ?s h] by (simp add: handles_def)
  show ?case
  proof (cases "sdp_next_service_record_handle s = 0 \<or> sdp_next_service_record_handle s \<in> set (handles s)")
    case True
    then have "sdp_create_service_record_handle n ?s = Some (s', h)"
      using Suc.prems free by (auto simp: Let_def split: if_splits)
    then show ?thesis using Suc.IH [of ?s] \<open>handles ?s = handles s\<close> by simp
  next
    case False
    then have "sdp_get_record_item_for_handle ?s (sdp_next_service_record_handle s) = None" using free by simp
    then have "h = sdp_next_service_record_handle s \<and> s' = ?s" using Suc.prems False by (auto simp: Let_def)
    then show ?thesis using False by simp
  qed
qed simp

lemma create_handle_None:
  assumes "sdp_create_service_record_handle n s = None" "i < n"
  shows "sdp_next_service_record_handle s + of_nat i \<in> insert 0 (set (handles s))"
  using assms
proof (induction n arbitrary: s i)
  case (Suc n)
  let ?s = "s\<lparr>sdp_next_service_record_handle := sdp_next_service_record_handle s + 1\<rparr>"
  have hs: "handles ?s = handles s" by (simp add: handles_def)
  have next_round: "sdp_create_service_record_handle n ?s = None"
    and now: "sdp_next_service_record_handle s \<in> insert 0 (set (handles s))"
    using Suc.prems(1) item_for_handle_None [of ?s "sdp_next_service_record_handle s"] hs
    by (auto simp: Let_def split: if_splits)
  show ?case
  proof (cases i)
    case 0
    then show ?thesis using now by simp
  next
    case (Suc j)
    then show ?thesis using Suc.IH [OF next_round, of j] \<open>i < Suc n\<close> hs by (simp add: add.assoc [symmetric])
  qed
qed simp

text \<open>
  C18. The search for a new handle ends after at most two rounds more than there are records, with a
  handle other than 0 that no record has.
\<close>

theorem new_handle_found:
  assumes "length (sdp_service_records s) + 2 \<le> n" "n \<le> 4294967296"
  shows "\<exists>s' h. sdp_create_service_record_handle n s = Some (s', h) \<and> h \<noteq> 0 \<and> h \<notin> set (handles s) \<and>
    sdp_service_records s' = sdp_service_records s"
proof (cases "sdp_create_service_record_handle n s")
  case None
  let ?f = "\<lambda>i. sdp_next_service_record_handle s + (of_nat i :: u32)"
  have inj: "inj_on ?f {..<n}"
  proof (rule inj_onI)
    fix i j assume ij: "i \<in> {..<n}" "j \<in> {..<n}" "?f i = ?f j"
    then have "unat (of_nat i :: u32) = unat (of_nat j :: u32)" by (simp only: add_left_cancel)
    moreover have "unat (of_nat i :: u32) = i" "unat (of_nat j :: u32) = j"
      using ij(1,2) assms(2) by (auto intro!: unat_of_nat_u32)
    ultimately show "i = j" by (simp only:)
  qed
  have "?f ` {..<n} \<subseteq> insert 0 (set (handles s))" using create_handle_None [OF None] by auto
  then have "card {..<n} \<le> card (insert 0 (set (handles s)))"
    using inj by (intro card_inj_on_le) auto
  also have "\<dots> \<le> length (sdp_service_records s) + 1"
    using card_length [of "0 # handles s"] by (simp add: handles_def)
  finally show ?thesis using assms(1) by simp
next
  case (Some r)
  then show ?thesis using create_handle_Some [of n s] by (cases r) auto
qed

theorem new_handle_found_witness:
  "\<exists>s' h. sdp_create_service_record_handle 2 sdp_start = Some (s', h) \<and> h \<noteq> 0 \<and> h \<notin> set (handles sdp_start) \<and>
     sdp_service_records s' = sdp_service_records sdp_start"
  using new_handle_found [of sdp_start 2] by (simp add: sdp_start_def)

subsection \<open>Connections\<close>

text \<open>
  What the server promises of its connections: one channel is served, the others wait in the order
  they came in, and a channel is declined when eight wait.
\<close>

datatype conn_event = Incoming u16 | Opened byte | Closed u16

fun conn_step :: "conn_event \<Rightarrow> u16 \<times> u16 list \<Rightarrow> (u16 \<times> u16 list) \<times> sdp_action list" where
  "conn_step (Incoming c) (cid, q) =
     (if cid = 0 then ((c, q), [AcceptConnection c])
      else if length q < SDP_WAITING_LIST_MAX_COUNT then ((cid, q @ [c]), [])
      else ((cid, q), [DeclineConnection c]))"
| "conn_step (Opened status) (cid, q) = (if status = 0 then (cid, q) else (0, q), [])"
| "conn_step (Closed c) (cid, q) =
     (if c \<noteq> cid then ((cid, q), [])
      else case q of [] \<Rightarrow> ((0, []), []) | d # q \<Rightarrow> ((d, q), [AcceptConnection d]))"

fun conn_run :: "conn_event list \<Rightarrow> u16 \<times> u16 list \<Rightarrow> (u16 \<times> u16 list) \<times> sdp_action list" where
  "conn_run [] st = (st, [])"
| "conn_run (e # es) st = (case conn_step e st of (st, as) \<Rightarrow> case conn_run es st of (st, bs) \<Rightarrow> (st, as @ bs))"

text \<open>The packets of the events, and the handler run on them.\<close>

fun conn_channel :: "conn_event \<Rightarrow> u16" where
  "conn_channel (Incoming c) = c"
| "conn_channel (Opened status) = 0"
| "conn_channel (Closed c) = c"

fun conn_packet :: "conn_event \<Rightarrow> bytes" where
  "conn_packet (Incoming c) = [0x72]"
| "conn_packet (Opened status) = [0x70, 0, status]"
| "conn_packet (Closed c) = [0x71]"

definition conn_handler :: "conn_event \<Rightarrow> sdp_server \<Rightarrow> (sdp_server \<times> sdp_action list) result" where
  "conn_handler e s = sdp_packet_handler 0 s 4 (conn_channel e) (conn_packet e) (of_nat (length (conn_packet e))) 0"

fun handler_run :: "conn_event list \<Rightarrow> sdp_server \<Rightarrow> (sdp_server \<times> sdp_action list) result" where
  "handler_run [] s = Some (Ret (s, []))"
| "handler_run (e # es) s =
     bind_result (conn_handler e s) (\<lambda>(s, as). bind_result (handler_run es s) (\<lambda>(s, bs). Some (Ret (s, as @ bs))))"

definition conn_abs :: "sdp_server \<Rightarrow> u16 \<times> u16 list" where
  "conn_abs s = (l2cap_cid s, take (nat (l2cap_waiting_list_count s)) (l2cap_waiting_list_cids s))"

definition conn_ok :: "sdp_server \<Rightarrow> bool" where
  "conn_ok s \<longleftrightarrow> length (l2cap_waiting_list_cids s) = SDP_WAITING_LIST_MAX_COUNT \<and>
     0 \<le> l2cap_waiting_list_count s \<and> l2cap_waiting_list_count s \<le> int SDP_WAITING_LIST_MAX_COUNT"

lemma waiting_list_add:
  assumes "conn_ok s" "l2cap_waiting_list_count s < int SDP_WAITING_LIST_MAX_COUNT"
  shows "\<exists>s'. sdp_waiting_list_add s c = Ret s' \<and> conn_ok s' \<and> conn_abs s' = (l2cap_cid s, snd (conn_abs s) @ [c])"
proof -
  have n: "nat (l2cap_waiting_list_count s) < length (l2cap_waiting_list_cids s)"
    using assms by (auto simp: conn_ok_def nat_less_iff)
  have "nat (l2cap_waiting_list_count s + 1) = Suc (nat (l2cap_waiting_list_count s))"
    using assms(1) by (intro Suc_nat_eq_nat_zadd1 [symmetric, unfolded add.commute [of 1]]) (simp add: conn_ok_def)
  then show ?thesis
    using assms n by (simp add: sdp_waiting_list_add_def Let_def conn_ok_def conn_abs_def take_Suc_conv_app_nth)
qed

lemma waiting_list_get:
  assumes "conn_ok s" "snd (conn_abs s) = d # q"
  shows "\<exists>s'. sdp_waiting_list_get s = Ret (s', d) \<and> conn_ok s' \<and> conn_abs s' = (l2cap_cid s, q)"
proof -
  define k where "k = nat (l2cap_waiting_list_count s)"
  obtain x xs where x: "l2cap_waiting_list_cids s = x # xs" using assms(1)
    by (cases "l2cap_waiting_list_cids s") (auto simp: conn_ok_def SDP_WAITING_LIST_MAX_COUNT_def)
  have k: "l2cap_waiting_list_count s = int k" using assms(1) by (simp add: conn_ok_def k_def)
  have "take k (x # xs) = d # q" using assms(2) by (simp add: conn_abs_def x k)
  then obtain j where j: "k = Suc j" "d = x" "q = take j xs" by (cases k) auto
  have "j \<le> length xs" using assms(1) j(1) by (simp add: conn_ok_def x k)
  then show ?thesis
    using assms(1) j by (cases "j = 0") (simp_all add: sdp_waiting_list_get_def Let_def x k conn_ok_def conn_abs_def)
qed

lemma conn_handler_step:
  assumes "conn_ok s"
  shows "\<exists>s'. conn_handler e s = Some (Ret (s', snd (conn_step e (conn_abs s)))) \<and> conn_ok s' \<and>
    conn_abs s' = fst (conn_step e (conn_abs s))"
proof -
  have abs: "conn_abs s = (l2cap_cid s, snd (conn_abs s))" by (simp add: conn_abs_def)
  have len: "length (snd (conn_abs s)) = nat (l2cap_waiting_list_count s)"
    using assms by (auto simp: conn_abs_def conn_ok_def nat_le_iff)
  show ?thesis
  proof (cases e)
    case (Incoming c)
    then have "l2cap_waiting_list_count s < int SDP_WAITING_LIST_MAX_COUNT \<longleftrightarrow> length (snd (conn_abs s)) < SDP_WAITING_LIST_MAX_COUNT"
      using assms len by (auto simp: conn_ok_def)
    then show ?thesis
      using Incoming assms waiting_list_add [OF assms, of c]
      by (subst abs) (auto simp: conn_handler_def sdp_packet_handler_def rd_def conn_ok_def conn_abs_def)
  next
    case (Opened status)
    then show ?thesis
      using assms by (auto simp: conn_handler_def sdp_packet_handler_def rd_def conn_ok_def conn_abs_def numeral_2_eq_2)
  next
    case (Closed c)
    show ?thesis
    proof (cases "c = l2cap_cid s \<and> snd (conn_abs s) \<noteq> []")
      case True
      then obtain d q where dq: "snd (conn_abs s) = d # q" by (cases "snd (conn_abs s)") auto
      let ?s = "s\<lparr>l2cap_cid := 0\<rparr>"
      have "conn_ok ?s" "snd (conn_abs ?s) = d # q" using assms dq by (simp_all add: conn_ok_def conn_abs_def)
      from waiting_list_get [OF this] obtain s' where s': "sdp_waiting_list_get ?s = Ret (s', d)" "conn_ok s'" "conn_abs s' = (0, q)"
        by auto
      have "l2cap_waiting_list_count s \<noteq> 0" using dq by (auto simp: conn_abs_def)
      then show ?thesis
        using True dq s' Closed
        by (subst abs, subst abs, simp add: conn_handler_def sdp_packet_handler_def rd_def Let_def)
           (simp add: conn_ok_def conn_abs_def)
    next
      case False
      moreover have "l2cap_waiting_list_count s = 0 \<longleftrightarrow> snd (conn_abs s) = []"
        using assms by (auto simp: conn_abs_def conn_ok_def SDP_WAITING_LIST_MAX_COUNT_def)
      ultimately show ?thesis
        using assms Closed
        by (subst abs, subst abs) (auto simp: conn_handler_def sdp_packet_handler_def rd_def Let_def conn_ok_def conn_abs_def)
    qed
  qed
qed

lemma handler_run_refines:
  assumes "conn_ok s"
  shows "\<exists>s'. handler_run es s = Some (Ret (s', snd (conn_run es (conn_abs s)))) \<and> conn_ok s' \<and>
    conn_abs s' = fst (conn_run es (conn_abs s))"
  using assms
proof (induction es arbitrary: s)
  case (Cons e es)
  obtain s1 where s1: "conn_handler e s = Some (Ret (s1, snd (conn_step e (conn_abs s))))" "conn_ok s1"
      "conn_abs s1 = fst (conn_step e (conn_abs s))"
    using conn_handler_step [OF Cons.prems] by blast
  obtain s2 where s2: "handler_run es s1 = Some (Ret (s2, snd (conn_run es (conn_abs s1))))" "conn_ok s2"
      "conn_abs s2 = fst (conn_run es (conn_abs s1))"
    using Cons.IH [OF s1(2)] by blast
  then show ?case using s1 by (auto simp: case_prod_beta)
qed simp

lemma conn_ok_start: "conn_ok sdp_start" "conn_abs sdp_start = (0, [])"
  by (simp_all add: conn_ok_def conn_abs_def sdp_start_def)

lemma connections_refine:
  "\<exists>s. handler_run es sdp_start = Some (Ret (s, snd (conn_run es (0, [])))) \<and> conn_abs s = fst (conn_run es (0, []))"
  using handler_run_refines [OF conn_ok_start(1), of es] unfolding conn_ok_start(2) by blast

text \<open>
  C19. From the start, on any sequence of connection events, the packet handler does what the
  queue of waiting channels does, and never reads or writes outside the waiting list.
\<close>

theorem connections_refine_queue:
  "\<exists>s. handler_run es sdp_start = Some (Ret (s, snd (conn_run es (0, [])))) \<and> conn_abs s = fst (conn_run es (0, []))"
  by (rule connections_refine)

lemma conn_run_append:
  "conn_run (es @ es') st = (case conn_run es st of (st, as) \<Rightarrow> case conn_run es' st of (st, bs) \<Rightarrow> (st, as @ bs))"
  by (induction es arbitrary: st) (auto simp: case_prod_beta)

text \<open>
  C20. A channel that closes while it waits stays in the queue: when the served channel closes, the
  server accepts the channel that is gone and from then on accepts no other channel.
\<close>

theorem closed_while_waiting_blocks:
  assumes "a \<noteq> 0" "b \<noteq> 0" "a \<noteq> b"
  shows "\<exists>s as. handler_run ([Incoming a, Incoming b, Closed b, Closed a] @ map Incoming cs) sdp_start = Some (Ret (s, as)) \<and>
    l2cap_cid s = b \<and> (\<forall>c. AcceptConnection c \<in> set as \<longrightarrow> c = a \<or> c = b)"
proof -
  have four: "conn_run [Incoming a, Incoming b, Closed b, Closed a] (0, []) = ((b, []), [AcceptConnection a, AcceptConnection b])"
    using assms by (simp add: SDP_WAITING_LIST_MAX_COUNT_def)
  have rest: "fst (fst (conn_run (map Incoming cs) (b, q))) = b \<and> (\<forall>c. AcceptConnection c \<notin> set (snd (conn_run (map Incoming cs) (b, q))))" for q
    using assms(2) by (induction cs arbitrary: q) (auto simp: case_prod_beta)
  let ?es = "[Incoming a, Incoming b, Closed b, Closed a] @ map Incoming cs"
  obtain s where s: "handler_run ?es sdp_start = Some (Ret (s, snd (conn_run ?es (0, []))))" "conn_abs s = fst (conn_run ?es (0, []))"
    using connections_refine [of ?es] by blast
  have "conn_run ?es (0, []) = (case conn_run (map Incoming cs) (b, []) of (st, bs) \<Rightarrow> (st, [AcceptConnection a, AcceptConnection b] @ bs))"
    by (simp only: conn_run_append four prod.case)
  then have run: "conn_run ?es (0, []) = (fst (conn_run (map Incoming cs) (b, [])),
      [AcceptConnection a, AcceptConnection b] @ snd (conn_run (map Incoming cs) (b, [])))"
    by (simp only: case_prod_beta)
  have "l2cap_cid s = b" using arg_cong [OF s(2), of fst] rest [of "[]"] unfolding run by (simp add: conn_abs_def)
  moreover have "\<forall>c. AcceptConnection c \<in> set (snd (conn_run ?es (0, []))) \<longrightarrow> c = a \<or> c = b"
    using rest [of "[]"] unfolding run by simp
  ultimately show ?thesis using s(1) by blast
qed

theorem closed_while_waiting_blocks_witness:
  "\<exists>s as. handler_run ([Incoming 0x41, Incoming 0x42, Closed 0x42, Closed 0x41] @ map Incoming [0x43]) sdp_start = Some (Ret (s, as)) \<and>
     l2cap_cid s = 0x42 \<and> (\<forall>c. AcceptConnection c \<in> set as \<longrightarrow> c = 0x41 \<or> c = 0x42)"
  by (rule closed_while_waiting_blocks) simp_all

end
