(* ===== verification/SdpClient.thy ===== *)
theory SdpClient
  imports Sdp
begin

text \<open>
  \<^verbatim>\<open>btstack-rootless/src/classic/sdp_client.c\<close>: the SDP client.  A stream parser turns the attribute
  lists of the responses into one event per value byte; the client connects, sends a request, and
  repeats it with the continuation state of the response.  The queries inside
  \<open>ENABLE_SDP_EXTRA_QUERIES\<close> are part of the model when the flag \<open>extra\<close> is set.
\<close>

subsection \<open>Headers of data elements, byte by byte\<close>

record de_state =
  in_state_GET_DE_HEADER_LENGTH :: bool
  addon_header_bytes :: u32
  de_size :: u32
  de_offset :: u32

definition de_state_init :: de_state where
  "de_state_init = \<lparr>in_state_GET_DE_HEADER_LENGTH = True, addon_header_bytes = 0, de_size = 0, de_offset = 0\<rparr>"

text \<open>The flag is the result: the size is complete.\<close>

definition de_state_size :: "byte \<Rightarrow> de_state \<Rightarrow> (de_state \<times> bool) outcome" where
  "de_state_size eventByte d =
     (if in_state_GET_DE_HEADER_LENGTH d then
        bind_outcome (de_get_header_size [eventByte] 0) (\<lambda>h.
        let d = d\<lparr>addon_header_bytes := h - 1, de_size := 0, de_offset := 0\<rparr> in
        if addon_header_bytes d = 0 then
          bind_outcome (de_get_data_size [eventByte] 0) (\<lambda>sz. Ret (d\<lparr>de_size := sz\<rparr>, True))
        else Ret (d\<lparr>in_state_GET_DE_HEADER_LENGTH := False\<rparr>, False))
      else
        let d = (if addon_header_bytes d > 0 then
                   d\<lparr>de_size := push_bit 8 (de_size d) OR ucast eventByte, addon_header_bytes := addon_header_bytes d - 1\<rparr>
                 else d) in
        if addon_header_bytes d > 0 then Ret (d, False)
        else Ret (d\<lparr>in_state_GET_DE_HEADER_LENGTH := True\<rparr>, True))"

subsection \<open>The parser\<close>

datatype sdp_parser_state = GET_LIST_LENGTH | GET_RECORD_LENGTH | GET_ATTRIBUTE_ID_HEADER_LENGTH | GET_ATTRIBUTE_ID |
  GET_ATTRIBUTE_VALUE_LENGTH | GET_ATTRIBUTE_VALUE

record sdp_parser =
  de_header_state :: de_state
  parser_state :: sdp_parser_state
  attribute_id :: u16
  attribute_bytes_received :: u16
  attribute_bytes_delivered :: u16
  list_offset :: u16
  list_size :: u16
  record_offset :: u16
  record_size :: u16
  attribute_value_size :: u16
  record_counter :: int

text \<open>The event of a value byte, as the callback gets it.\<close>

definition sdp_parser_emit_value_byte :: "sdp_parser \<Rightarrow> byte \<Rightarrow> bytes outcome" where
  "sdp_parser_emit_value_byte p event_byte =
     bind_outcome (wr (replicate 11 0) 0 0x94) (\<lambda>event.
     bind_outcome (wr event 1 9) (\<lambda>event.
     bind_outcome (little_endian_store_16 event 0 2 (word_of_int (record_counter p))) (\<lambda>event.
     bind_outcome (little_endian_store_16 event 0 4 (attribute_id p)) (\<lambda>event.
     bind_outcome (little_endian_store_16 event 0 6 (attribute_value_size p)) (\<lambda>event.
     bind_outcome (little_endian_store_16 event 0 8 (attribute_bytes_delivered p)) (\<lambda>event.
     wr event 10 event_byte))))))"

definition value_byte :: "sdp_parser \<Rightarrow> byte \<Rightarrow> (sdp_parser \<times> bytes) outcome" where
  "value_byte p eventByte =
     (let p = p\<lparr>attribute_bytes_received := attribute_bytes_received p + 1\<rparr> in
      bind_outcome (sdp_parser_emit_value_byte p eventByte) (\<lambda>event.
      Ret (p\<lparr>attribute_bytes_delivered := attribute_bytes_delivered p + 1\<rparr>, event)))"

definition sdp_parser_process_byte :: "sdp_parser \<Rightarrow> byte \<Rightarrow> (sdp_parser \<times> bytes list) outcome" where
  "sdp_parser_process_byte p eventByte =
     (let p = p\<lparr>list_offset := list_offset p + 1, record_offset := record_offset p + 1\<rparr> in
      case parser_state p of
        GET_LIST_LENGTH \<Rightarrow>
          bind_outcome (de_state_size eventByte (de_header_state p)) (\<lambda>(d, complete).
          let p = p\<lparr>de_header_state := d\<rparr> in
          if \<not> complete then Ret (p, [])
          else Ret (p\<lparr>list_offset := ucast (de_offset d), list_size := ucast (de_size d), record_counter := 0,
            parser_state := GET_RECORD_LENGTH\<rparr>, []))
      | GET_RECORD_LENGTH \<Rightarrow>
          bind_outcome (de_state_size eventByte (de_header_state p)) (\<lambda>(d, complete).
          let p = p\<lparr>de_header_state := d\<rparr> in
          if \<not> complete then Ret (p, [])
          else Ret (p\<lparr>record_offset := ucast (de_offset d), record_size := ucast (de_size d),
            parser_state := GET_ATTRIBUTE_ID_HEADER_LENGTH\<rparr>, []))
      | GET_ATTRIBUTE_ID_HEADER_LENGTH \<Rightarrow>
          bind_outcome (de_state_size eventByte (de_header_state p)) (\<lambda>(d, complete).
          let p = p\<lparr>de_header_state := d\<rparr> in
          if \<not> complete then Ret (p, [])
          else Ret (p\<lparr>attribute_id := 0, parser_state := GET_ATTRIBUTE_ID\<rparr>, []))
      | GET_ATTRIBUTE_ID \<Rightarrow>
          let d = de_header_state p;
              d = d\<lparr>de_size := de_size d - 1\<rparr>;
              p = p\<lparr>attribute_id := push_bit 8 (attribute_id p) OR ucast eventByte, de_header_state := d\<rparr> in
          if de_size d > 0 then Ret (p, [])
          else Ret (p\<lparr>parser_state := GET_ATTRIBUTE_VALUE_LENGTH, attribute_bytes_received := 0,
            attribute_bytes_delivered := 0, attribute_value_size := 0, de_header_state := de_state_init\<rparr>, [])
      | GET_ATTRIBUTE_VALUE_LENGTH \<Rightarrow>
          bind_outcome (value_byte p eventByte) (\<lambda>(p, event).
          bind_outcome (de_state_size eventByte (de_header_state p)) (\<lambda>(d, complete).
          let p = p\<lparr>de_header_state := d\<rparr> in
          if \<not> complete then Ret (p, [event])
          else Ret (p\<lparr>attribute_value_size := ucast (de_size d + ucast (attribute_bytes_received p)),
            parser_state := GET_ATTRIBUTE_VALUE\<rparr>, [event])))
      | GET_ATTRIBUTE_VALUE \<Rightarrow>
          bind_outcome (value_byte p eventByte) (\<lambda>(p, event).
          if attribute_bytes_received p < attribute_value_size p then Ret (p, [event])
          else if record_offset p \<noteq> record_size p then Ret (p\<lparr>parser_state := GET_ATTRIBUTE_ID_HEADER_LENGTH\<rparr>, [event])
          else let p = p\<lparr>record_offset := 0\<rparr> in
          if list_size p > 0 \<and> list_offset p \<noteq> list_size p then
            Ret (p\<lparr>record_counter := record_counter p + 1, parser_state := GET_RECORD_LENGTH\<rparr>, [event])
          else Ret (p\<lparr>list_offset := 0, de_header_state := de_state_init, parser_state := GET_LIST_LENGTH,
            record_counter := 0\<rparr>, [event])))"

definition sdp_parser_init :: "sdp_parser \<Rightarrow> sdp_parser" where
  "sdp_parser_init p = p\<lparr>de_header_state := de_state_init, parser_state := GET_LIST_LENGTH, list_offset := 0,
     record_offset := 0, record_counter := 0\<rparr>"

text \<open>The bytes of a chunk, one after the other, and their events.\<close>

fun sdp_parser_handle_chunk :: "sdp_parser \<Rightarrow> bytes \<Rightarrow> (sdp_parser \<times> bytes list) outcome" where
  "sdp_parser_handle_chunk p [] = Ret (p, [])"
| "sdp_parser_handle_chunk p (b # data) =
     bind_outcome (sdp_parser_process_byte p b) (\<lambda>(p, es).
     bind_outcome (sdp_parser_handle_chunk p data) (\<lambda>(p, es'). Ret (p, es @ es')))"

definition sdp_parser_init_service_attribute_search :: "sdp_parser \<Rightarrow> sdp_parser" where
  "sdp_parser_init_service_attribute_search p = p\<lparr>de_header_state := de_state_init, parser_state := GET_RECORD_LENGTH,
     list_offset := 0, record_offset := 0, record_counter := 0\<rparr>"

definition sdp_parser_init_service_search :: "sdp_parser \<Rightarrow> sdp_parser" where
  "sdp_parser_init_service_search p = p\<lparr>record_offset := 0\<rparr>"

subsection \<open>The client\<close>

datatype client_state = INIT | W4_CONNECT | W2_SEND | W4_RESPONSE | QUERY_COMPLETE

record sdp_client =
  parser :: sdp_parser
  mtu :: u16
  sdp_cid :: u16
  service_search_pattern :: bytes
  attribute_id_list :: bytes
  transactionID :: u16
  continuationState :: bytes
  continuationStateLen :: byte
  sdp_client_state :: client_state
  PDU_ID :: byte
  sdp_client_query_requests :: "nat list"
  serviceRecordHandle :: u32
  record_handle :: u32

definition sdp_client_start :: sdp_client where
  "sdp_client_start = \<lparr>parser = \<lparr>de_header_state = \<lparr>in_state_GET_DE_HEADER_LENGTH = False, addon_header_bytes = 0, de_size = 0,
       de_offset = 0\<rparr>, parser_state = GET_LIST_LENGTH, attribute_id = 0, attribute_bytes_received = 0,
       attribute_bytes_delivered = 0, list_offset = 0, list_size = 0, record_offset = 0, record_size = 0,
       attribute_value_size = 0, record_counter = 0\<rparr>, mtu = 0, sdp_cid = 0x40, service_search_pattern = [],
     attribute_id_list = [], transactionID = 0, continuationState = replicate 16 0, continuationStateLen = 0,
     sdp_client_state = INIT, PDU_ID = 0, sdp_client_query_requests = [], serviceRecordHandle = 0, record_handle = 0\<rparr>"

text \<open>Events for the callback of the query and calls to L2CAP.\<close>

datatype client_action = Emit bytes | Disconnect u16 | AskToSend u16 | ReserveBuffer | SendRequest u16 bytes | CreateChannel u16

text \<open>
  What the application does when its callback gets the event that the query is complete, and when a
  registered query callback runs: both may start a query of their own.
\<close>

record sdp_app =
  on_complete :: "byte \<Rightarrow> sdp_client \<Rightarrow> sdp_client \<times> client_action list"
  on_ready :: "nat \<Rightarrow> sdp_client \<Rightarrow> sdp_client \<times> client_action list"

definition sdp_client_ready :: "sdp_client \<Rightarrow> bool" where
  "sdp_client_ready c \<longleftrightarrow> sdp_client_state c = INIT"

definition sdp_client_notify_callbacks :: "sdp_app \<Rightarrow> sdp_client \<Rightarrow> sdp_client \<times> client_action list" where
  "sdp_client_notify_callbacks app c =
     (if \<not> sdp_client_ready c then (c, [])
      else case sdp_client_query_requests c of
        [] \<Rightarrow> (c, [])
      | callback # rest \<Rightarrow> on_ready app callback (c\<lparr>sdp_client_query_requests := rest\<rparr>))"

definition sdp_parser_handle_done :: "sdp_app \<Rightarrow> sdp_client \<Rightarrow> byte \<Rightarrow> sdp_client \<times> client_action list" where
  "sdp_parser_handle_done app c status =
     (let c = c\<lparr>sdp_client_state := INIT\<rparr> in
      case on_complete app status c of (c, as) \<Rightarrow>
      case sdp_client_notify_callbacks app c of (c, bs) \<Rightarrow>
        (c, Emit [0x91, 1, status] # as @ bs))"

text \<open>\<open>handles\<close>: the handles at \<open>data\<close>, four bytes each.\<close>

fun sdp_parser_handle_service_search :: "nat \<Rightarrow> bytes \<Rightarrow> int \<Rightarrow> u16 \<Rightarrow> sdp_client \<Rightarrow> (sdp_client \<times> bytes list) outcome" where
  "sdp_parser_handle_service_search 0 m data total_count c = Ret (c, [])"
| "sdp_parser_handle_service_search (Suc k) m data total_count c =
     bind_outcome (big_endian_read_32 m data 0) (\<lambda>handle.
     let p = parser c;
         c = c\<lparr>record_handle := handle, parser := p\<lparr>record_counter := record_counter p + 1\<rparr>\<rparr> in
     bind_outcome (wr (replicate 10 0) 0 0x95) (\<lambda>event.
     bind_outcome (wr event 1 8) (\<lambda>event.
     bind_outcome (little_endian_store_16 event 0 2 total_count) (\<lambda>event.
     bind_outcome (little_endian_store_16 event 0 4 (word_of_int (record_counter (parser c)))) (\<lambda>event.
     bind_outcome (little_endian_store_32 event 0 6 handle) (\<lambda>event.
     bind_outcome (sdp_parser_handle_service_search k m (data + 4) total_count c) (\<lambda>(c, es).
     Ret (c, event # es))))))))"

subsection \<open>Requests\<close>

text \<open>\<open>memcpy(data + offset, src, len)\<close>, and a data element copied as a parameter.\<close>

definition copy_to :: "bytes \<Rightarrow> u16 \<Rightarrow> bytes \<Rightarrow> nat \<Rightarrow> (bytes \<times> u16) outcome" where
  "copy_to data offset src len =
     bind_outcome (rd_block src 0 len) (\<lambda>bs.
     bind_outcome (wr_block data (uint offset) bs) (\<lambda>data.
     Ret (data, offset + of_nat len)))"

definition copy_element :: "bytes \<Rightarrow> u16 \<Rightarrow> bytes \<Rightarrow> (bytes \<times> u16) outcome" where
  "copy_element data offset e =
     bind_outcome (de_get_len e 0) (\<lambda>len. copy_to data offset e (unat (word_of_int len :: u16)))"

text \<open>PDU ID and transaction; the length is written last.\<close>

definition request_start :: "bytes \<Rightarrow> byte \<Rightarrow> u16 \<Rightarrow> (bytes \<times> u16) outcome" where
  "request_start data pdu tid =
     bind_outcome (wr data 0 pdu) (\<lambda>data.
     bind_outcome (big_endian_store_16 data 0 1 tid) (\<lambda>data.
     Ret (data, 5)))"

definition request_end :: "sdp_client \<Rightarrow> bytes \<Rightarrow> u16 \<Rightarrow> (bytes \<times> u16) outcome" where
  "request_end c data offset =
     bind_outcome (wr data (uint offset) (continuationStateLen c)) (\<lambda>data.
     bind_outcome (copy_to data (offset + 1) (continuationState c) (unat (continuationStateLen c))) (\<lambda>(data, offset).
     bind_outcome (big_endian_store_16 data 0 3 (offset - 5)) (\<lambda>data.
     Ret (data, offset))))"

definition sdp_client_setup_service_search_attribute_request :: "sdp_client \<Rightarrow> bytes \<Rightarrow> (sdp_client \<times> bytes \<times> u16) outcome" where
  "sdp_client_setup_service_search_attribute_request c data =
     (let c = c\<lparr>transactionID := transactionID c + 1\<rparr> in
      bind_outcome (request_start data 6 (transactionID c)) (\<lambda>(data, offset).
      bind_outcome (copy_element data offset (service_search_pattern c)) (\<lambda>(data, offset).
      bind_outcome (big_endian_store_16 data 0 offset (mtu c)) (\<lambda>data.
      bind_outcome (copy_element data (offset + 2) (attribute_id_list c)) (\<lambda>(data, offset).
      bind_outcome (request_end c data offset) (\<lambda>r. Ret (c, r)))))))"

definition sdp_client_setup_service_search_request :: "sdp_client \<Rightarrow> bytes \<Rightarrow> (sdp_client \<times> bytes \<times> u16) outcome" where
  "sdp_client_setup_service_search_request c data =
     (let c = c\<lparr>transactionID := transactionID c + 1\<rparr> in
      bind_outcome (request_start data 2 (transactionID c)) (\<lambda>(data, offset).
      bind_outcome (copy_element data offset (service_search_pattern c)) (\<lambda>(data, offset).
      bind_outcome (big_endian_store_16 data 0 offset (mtu c)) (\<lambda>data.
      bind_outcome (request_end c data (offset + 2)) (\<lambda>r. Ret (c, r))))))"

definition sdp_client_setup_service_attribute_request :: "sdp_client \<Rightarrow> bytes \<Rightarrow> (sdp_client \<times> bytes \<times> u16) outcome" where
  "sdp_client_setup_service_attribute_request c data =
     (let c = c\<lparr>transactionID := transactionID c + 1\<rparr> in
      bind_outcome (request_start data 4 (transactionID c)) (\<lambda>(data, offset).
      bind_outcome (big_endian_store_32 data 0 offset (serviceRecordHandle c)) (\<lambda>data.
      bind_outcome (big_endian_store_16 data 0 (offset + 4) (mtu c)) (\<lambda>data.
      bind_outcome (copy_element data (offset + 6) (attribute_id_list c)) (\<lambda>(data, offset).
      bind_outcome (request_end c data offset) (\<lambda>r. Ret (c, r)))))))"

text \<open>
  \<open>data\<close> is the outgoing buffer of L2CAP, which the client reserves first and \<open>l2cap_send_prepared\<close>
  gives back.
\<close>

definition sdp_client_send_request :: "bool \<Rightarrow> sdp_client \<Rightarrow> bytes \<Rightarrow> u16 \<Rightarrow> (sdp_client \<times> client_action list) outcome" where
  "sdp_client_send_request extra c data channel =
     (if sdp_client_state c \<noteq> W2_SEND then Ret (c, [])
      else
        let send = (\<lambda>r. bind_outcome r (\<lambda>(c, data, request_len).
          let c = c\<lparr>sdp_client_state := W4_RESPONSE, PDU_ID := 0\<rparr> in
          bind_outcome (rd_block data 0 (unat (request_len :: u16))) (\<lambda>bs. Ret (c, [ReserveBuffer, SendRequest channel bs])))) in
        if extra \<and> PDU_ID c = 3 then send (sdp_client_setup_service_search_request c data)
        else if extra \<and> PDU_ID c = 5 then send (sdp_client_setup_service_attribute_request c data)
        else if PDU_ID c = 7 then send (sdp_client_setup_service_search_attribute_request c data)
        else Ret (c, [ReserveBuffer]))"

subsection \<open>Responses\<close>

text \<open>The continuation state of a response, at \<open>offset\<close>; a response that ends early leaves the old one.\<close>

definition parse_continuation :: "sdp_client \<Rightarrow> bytes \<Rightarrow> u16 \<Rightarrow> u16 \<Rightarrow> sdp_client outcome" where
  "parse_continuation c packet sz offset =
     (if uint offset + 1 > uint sz then Ret c
      else bind_outcome (rd packet (uint offset)) (\<lambda>len.
        let c = c\<lparr>continuationStateLen := len\<rparr>; offset = offset + 1 in
        if len > 16 then Ret (c\<lparr>continuationStateLen := 0\<rparr>)
        else if uint offset + uint len > uint sz then Ret c
        else bind_outcome (rd_block packet (uint offset) (unat len)) (\<lambda>bs.
          bind_outcome (wr_block (continuationState c) 0 bs) (\<lambda>st. Ret (c\<lparr>continuationState := st\<rparr>)))))"

text \<open>
  The responses to both attribute requests have the same layout, and the two functions of the
  source the same text.
\<close>

definition sdp_client_parse_service_search_attribute_response :: "sdp_client \<Rightarrow> bytes \<Rightarrow> u16 \<Rightarrow> (sdp_client \<times> bytes list) outcome" where
  "sdp_client_parse_service_search_attribute_response c packet sz =
     (let offset = (3 :: u16) in
      if uint offset + 2 + 2 > uint sz then Ret (c, [])
      else bind_outcome (big_endian_read_16 packet 0 (uint offset)) (\<lambda>parameterLength.
        let parameterLength = (ucast parameterLength :: u16); offset = offset + 2 in
        if uint offset + uint parameterLength > uint sz then Ret (c, [])
        else bind_outcome (big_endian_read_16 packet 0 (uint offset)) (\<lambda>attributeListByteCount.
          let attributeListByteCount = (ucast attributeListByteCount :: u16); offset = offset + 2 in
          if attributeListByteCount > mtu c then Ret (c, [])
          else if uint offset + uint attributeListByteCount > uint sz then Ret (c, [])
          else bind_outcome (rd_block packet (uint offset) (unat attributeListByteCount)) (\<lambda>data.
            bind_outcome (sdp_parser_handle_chunk (parser c) data) (\<lambda>(p, es).
            bind_outcome (parse_continuation (c\<lparr>parser := p\<rparr>) packet sz (offset + attributeListByteCount)) (\<lambda>c.
            Ret (c, es)))))))"

definition sdp_client_parse_service_attribute_response :: "sdp_client \<Rightarrow> bytes \<Rightarrow> u16 \<Rightarrow> (sdp_client \<times> bytes list) outcome" where
  "sdp_client_parse_service_attribute_response = sdp_client_parse_service_search_attribute_response"

definition sdp_client_parse_service_search_response :: "sdp_client \<Rightarrow> bytes \<Rightarrow> u16 \<Rightarrow> (sdp_client \<times> bytes list) outcome" where
  "sdp_client_parse_service_search_response c packet sz =
     (let offset = (3 :: u16) in
      if uint offset + 2 + 2 + 2 > uint sz then Ret (c, [])
      else bind_outcome (big_endian_read_16 packet 0 (uint offset)) (\<lambda>parameterLength.
        let parameterLength = (ucast parameterLength :: u16); offset = offset + 2 in
        if uint offset + uint parameterLength > uint sz then Ret (c, [])
        else bind_outcome (big_endian_read_16 packet 0 (uint offset)) (\<lambda>totalServiceRecordCount.
          bind_outcome (big_endian_read_16 packet 0 (uint (offset + 2))) (\<lambda>currentServiceRecordCount.
          let totalServiceRecordCount = (ucast totalServiceRecordCount :: u16);
              currentServiceRecordCount = (ucast currentServiceRecordCount :: u16); offset = offset + 2 + 2 in
          if currentServiceRecordCount > totalServiceRecordCount then Ret (c, [])
          else if uint offset + uint currentServiceRecordCount * 4 > uint sz then Ret (c, [])
          else bind_outcome (sdp_parser_handle_service_search (unat currentServiceRecordCount) packet (uint offset)
              totalServiceRecordCount c) (\<lambda>(c, es).
            bind_outcome (parse_continuation c packet sz (offset + currentServiceRecordCount * 4)) (\<lambda>c.
            Ret (c, es)))))))"

text \<open>A data packet: the response of the server.\<close>

definition client_data_packet :: "bool \<Rightarrow> sdp_client \<Rightarrow> bytes \<Rightarrow> u16 \<Rightarrow> (sdp_client \<times> client_action list) outcome" where
  "client_data_packet extra c packet sz =
     (if sz < 3 then Ret (c, [])
      else bind_outcome (big_endian_read_16 packet 0 1) (\<lambda>responseTransactionID.
        if (ucast responseTransactionID :: u16) \<noteq> transactionID c then Ret (c, [])
        else bind_outcome (rd packet 0) (\<lambda>pdu.
          let c = c\<lparr>PDU_ID := pdu\<rparr>;
              finish = (\<lambda>r. bind_outcome r (\<lambda>(c, es).
                if continuationStateLen c = 0 then
                  Ret (c\<lparr>sdp_client_state := QUERY_COMPLETE\<rparr>, map Emit es @ [Disconnect (sdp_cid c)])
                else Ret (c\<lparr>sdp_client_state := W2_SEND\<rparr>, map Emit es @ [AskToSend (sdp_cid c)]))) in
          if pdu = 1 then Ret (c, [Disconnect (sdp_cid c)])
          else if extra \<and> pdu = 3 then finish (sdp_client_parse_service_search_response c packet sz)
          else if extra \<and> pdu = 5 then finish (sdp_client_parse_service_attribute_response c packet sz)
          else if pdu = 7 then finish (sdp_client_parse_service_search_attribute_response c packet sz)
          else Ret (c, []))))"

text \<open>
  Packet types 6 and 4 are \<open>L2CAP_DATA_PACKET\<close> and \<open>HCI_EVENT_PACKET\<close>, events 0x70, 0x78 and 0x71
  are channel opened, can send now and channel closed.
\<close>

definition sdp_client_packet_handler :: "bool \<Rightarrow> sdp_app \<Rightarrow> bytes \<Rightarrow> sdp_client \<Rightarrow> byte \<Rightarrow> u16 \<Rightarrow> bytes \<Rightarrow> u16 \<Rightarrow>
    (sdp_client \<times> client_action list) outcome" where
  "sdp_client_packet_handler extra app data c packet_type channel packet sz =
     (if packet_type = 6 then client_data_packet extra c packet sz
      else if packet_type \<noteq> 4 then Ret (c, [])
      else bind_outcome (rd packet 0) (\<lambda>event.
        if event = 0x70 then
          if sdp_client_state c \<noteq> W4_CONNECT then Ret (c, [])
          else bind_outcome (rd packet 2) (\<lambda>status.
            if status \<noteq> 0 then Ret (sdp_parser_handle_done app c status)
            else bind_outcome (little_endian_read_16 packet 0 17) (\<lambda>m.
              Ret (c\<lparr>sdp_cid := channel, mtu := m, sdp_client_state := W2_SEND\<rparr>, [AskToSend channel])))
        else if event = 0x78 then
          bind_outcome (little_endian_read_16 packet 0 2) (\<lambda>cid.
          if cid = sdp_cid c then sdp_client_send_request extra c data (sdp_cid c) else Ret (c, []))
        else if event = 0x71 then
          bind_outcome (little_endian_read_16 packet 0 2) (\<lambda>cid.
          if sdp_cid c \<noteq> cid then Ret (c, [])
          else Ret (sdp_parser_handle_done app c (if sdp_client_state c = QUERY_COMPLETE then 0 else 0x81)))
        else Ret (c, [])))"

subsection \<open>Queries\<close>

definition sdp_client_reset :: "sdp_client \<Rightarrow> sdp_client" where
  "sdp_client_reset c = c\<lparr>sdp_client_state := INIT\<rparr>"

text \<open>\<open>btstack_linked_list_add_tail\<close> refuses an item that is in the list.\<close>

definition sdp_client_register_query_callback :: "sdp_app \<Rightarrow> sdp_client \<Rightarrow> nat \<Rightarrow> sdp_client \<times> client_action list \<times> byte" where
  "sdp_client_register_query_callback app c callback =
     (if callback \<in> set (sdp_client_query_requests c) then (c, [], 0x0C)
      else case sdp_client_notify_callbacks app (c\<lparr>sdp_client_query_requests := sdp_client_query_requests c @ [callback]\<rparr>) of
        (c, as) \<Rightarrow> (c, as, 0))"

text \<open>\<open>create_status\<close> is the result of \<open>l2cap_create_channel\<close>.\<close>

definition sdp_client_query :: "sdp_client \<Rightarrow> byte \<Rightarrow> bytes \<Rightarrow> bytes \<Rightarrow> sdp_client \<times> client_action list \<times> byte" where
  "sdp_client_query c create_status pattern ids =
     (if \<not> sdp_client_ready c then (c, [], 0x84)
      else (c\<lparr>parser := sdp_parser_init (parser c), service_search_pattern := pattern, attribute_id_list := ids,
              continuationStateLen := 0, PDU_ID := 7, sdp_client_state := W4_CONNECT\<rparr>, [CreateChannel 1], create_status))"

definition des_attributeIDList :: bytes where
  "des_attributeIDList = [0x35, 0x05, 0x0A, 0x00, 0x00, 0xFF, 0xFF]"

definition sdp_client_query_uuid16 :: "sdp_client \<Rightarrow> byte \<Rightarrow> u16 \<Rightarrow> (sdp_client \<times> client_action list \<times> byte) outcome" where
  "sdp_client_query_uuid16 c create_status uuid =
     (if \<not> sdp_client_ready c then Ret (c, [], 0x84)
      else bind_outcome (sdp_service_search_pattern_for_uuid16 uuid) (\<lambda>pattern.
        Ret (sdp_client_query c create_status pattern des_attributeIDList)))"

definition sdp_client_query_uuid128 :: "sdp_client \<Rightarrow> byte \<Rightarrow> bytes \<Rightarrow> (sdp_client \<times> client_action list \<times> byte) outcome" where
  "sdp_client_query_uuid128 c create_status uuid =
     (if \<not> sdp_client_ready c then Ret (c, [], 0x84)
      else bind_outcome (sdp_service_search_pattern_for_uuid128 uuid) (\<lambda>pattern.
        Ret (sdp_client_query c create_status pattern des_attributeIDList)))"

definition sdp_client_service_attribute_search :: "sdp_client \<Rightarrow> u32 \<Rightarrow> bytes \<Rightarrow> sdp_client \<times> client_action list \<times> byte" where
  "sdp_client_service_attribute_search c handle ids =
     (if \<not> sdp_client_ready c then (c, [], 0x84)
      else (c\<lparr>parser := sdp_parser_init (parser c), serviceRecordHandle := handle, attribute_id_list := ids,
              continuationStateLen := 0, PDU_ID := 5, sdp_client_state := W4_CONNECT\<rparr>, [CreateChannel 1], 0))"

definition sdp_client_service_search :: "sdp_client \<Rightarrow> bytes \<Rightarrow> sdp_client \<times> client_action list \<times> byte" where
  "sdp_client_service_search c pattern =
     (if \<not> sdp_client_ready c then (c, [], 0x84)
      else (c\<lparr>parser := sdp_parser_init (parser c), service_search_pattern := pattern,
              continuationStateLen := 0, PDU_ID := 3, sdp_client_state := W4_CONNECT\<rparr>, [CreateChannel 1], 0))"

end
