(* ===== verification/SdpParser.thy ===== *)
theory SdpParser
  imports SdpClient SdpResponse
begin

text \<open>
  The stream parser of the SDP client on well-formed attribute lists: it delivers every value byte
  once, in order, with the index of its record, the ID of its attribute and its position.
\<close>

subsection \<open>Chunks\<close>

lemma handle_chunk_append:
  "sdp_parser_handle_chunk p (xs @ ys) =
     bind_outcome (sdp_parser_handle_chunk p xs) (\<lambda>(p, es).
     bind_outcome (sdp_parser_handle_chunk p ys) (\<lambda>(p, es'). Ret (p, es @ es')))"
proof (induction xs arbitrary: p)
  case Nil
  then show ?case by (cases "sdp_parser_handle_chunk p ys") auto
next
  case (Cons x xs)
  show ?case
  proof (cases "sdp_parser_process_byte p x")
    case (Ret r)
    obtain p1 es1 where r: "r = (p1, es1)" by (cases r)
    show ?thesis
    proof (cases "sdp_parser_handle_chunk p1 xs")
      case Undef
      then show ?thesis using Cons [of p1] Ret r by simp
    next
      case (Ret r2)
      obtain p2 es2 where r2: "r2 = (p2, es2)" by (cases r2)
      show ?thesis
        using Cons [of p1] \<open>sdp_parser_process_byte p x = Ret r\<close> Ret r r2
        by (cases "sdp_parser_handle_chunk p2 ys") auto
    qed
  qed simp
qed

lemma chunk_then:
  assumes "sdp_parser_handle_chunk p xs = Ret (p', es)" "sdp_parser_handle_chunk p' ys = Ret (p'', es')"
  shows "sdp_parser_handle_chunk p (xs @ ys) = Ret (p'', es @ es')"
  using assms by (simp add: handle_chunk_append)

subsection \<open>Sizes\<close>

definition de_pending :: "u32 \<Rightarrow> u32 \<Rightarrow> de_state" where
  "de_pending addon sz = \<lparr>in_state_GET_DE_HEADER_LENGTH = False, addon_header_bytes = addon, de_size = sz, de_offset = 0\<rparr>"

definition de_done :: "u32 \<Rightarrow> de_state" where
  "de_done sz = \<lparr>in_state_GET_DE_HEADER_LENGTH = True, addon_header_bytes = 0, de_size = sz, de_offset = 0\<rparr>"

lemma de_done_simps [simp]:
  "in_state_GET_DE_HEADER_LENGTH (de_done sz)" "de_size (de_done sz) = sz" "de_offset (de_done sz) = 0"
  "de_size (de_pending a sz) = sz" "de_offset (de_pending a sz) = 0"
  by (simp_all add: de_done_def de_pending_def)

lemma de_state_init_done: "de_state_init = de_done 0"
  by (simp add: de_state_init_def de_done_def)

text \<open>The first byte of an element of fixed size, and of one whose length follows.\<close>

lemma de_first_fixed:
  assumes "in_state_GET_DE_HEADER_LENGTH d" "b AND 7 \<le> 4"
  shows "de_state_size b d = Ret (de_done (if drop_bit 3 b = 0 then 0 else push_bit (unat (b AND 7)) 1), True)"
proof -
  have "b AND 7 \<noteq> 5" "b AND 7 \<noteq> 6" "b AND 7 \<noteq> 7" using assms(2) by auto
  then show ?thesis
    using assms
    by (simp add: de_state_size_def de_get_header_size_def de_get_size_type_def de_get_data_size_def
        de_get_element_type_def rd_def Let_def de_done_def)
qed

lemma de_first_var:
  assumes "in_state_GET_DE_HEADER_LENGTH d" "b AND 7 = s" "s = 5 \<or> s = 6 \<or> s = 7"
  shows "de_state_size b d = Ret (de_pending (push_bit (unat (s - 5)) 1) 0, False)"
  using assms
  by (auto simp: de_state_size_def de_get_header_size_def de_get_size_type_def rd_def Let_def de_pending_def)

lemma de_next:
  "de_state_size b (de_pending 1 sz) = Ret (de_done (push_bit 8 sz OR ucast b), True)"
  "de_state_size b (de_pending 2 sz) = Ret (de_pending 1 (push_bit 8 sz OR ucast b), False)"
  "de_state_size b (de_pending 3 sz) = Ret (de_pending 2 (push_bit 8 sz OR ucast b), False)"
  "de_state_size b (de_pending 4 sz) = Ret (de_pending 3 (push_bit 8 sz OR ucast b), False)"
  by (simp_all add: de_state_size_def de_pending_def de_done_def Let_def)

text \<open>Feeding a list of header bytes.\<close>

fun de_feed :: "bytes \<Rightarrow> de_state \<Rightarrow> (de_state \<times> bool) outcome" where
  "de_feed [] d = Ret (d, True)"
| "de_feed (b # bs) d =
     bind_outcome (de_state_size b d) (\<lambda>(d, complete).
     if complete then (if bs = [] then Ret (d, True) else Undef) else if bs = [] then Ret (d, False) else de_feed bs d)"

lemma ucast_join16:
  "(ucast (ucast (l :: byte) OR push_bit 8 (ucast (h :: byte)) :: u16) :: u32) = ucast l OR push_bit 8 (ucast h)"
  by (rule bit_word_eqI) (auto simp: bit_simps dest: bit_imp_le_length)

text \<open>An element is its header and its body; the header makes \<open>de_state_size\<close> give the size of the body.\<close>

definition header_length :: "bytes \<Rightarrow> nat" where
  "header_length e = (if elem_size e \<le> 4 then 1 else 1 + 2 ^ (unat (elem_size e) - 5))"

lemma element_split:
  assumes "elem_ok e" "length e < 65536"
  obtains hdr body where "e = hdr @ body" "hdr \<noteq> []" "length hdr = header_length e"
    "\<And>d. in_state_GET_DE_HEADER_LENGTH d \<Longrightarrow> de_feed hdr d = Ret (de_done (of_nat (length body)), True)"
proof -
  obtain b r where e: "e = b # r" using elem_ok_nonempty [OF assms(1)] by (cases e) auto
  have len: "de_get_len e 0 = Ret (int (length e))" using assms(1) by (simp add: elem_ok_def)
  have sz: "de_get_size_type e 0 = Ret (b AND 7)" "de_get_element_type e 0 = Ret (drop_bit 3 b)"
    by (simp_all add: de_get_size_type_def de_get_element_type_def rd_def e)
  have small: "k = of_nat (length e)" if "sint (k :: u32) = int (length e)" for k
  proof -
    have "k = word_of_int (sint k)" by simp
    then show ?thesis by (simp add: that)
  qed
  have "b AND 7 \<le> 7" by (rule word_and_le1)
  then consider "b AND 7 \<le> 4" | "b AND 7 = 5" | "b AND 7 = 6" | "b AND 7 = 7"
  proof -
    have "unat (b AND 7) \<le> 7" using \<open>b AND 7 \<le> 7\<close> by (simp add: word_le_nat_alt)
    then have "unat (b AND 7) \<le> 4 \<or> unat (b AND 7) = 5 \<or> unat (b AND 7) = 6 \<or> unat (b AND 7) = 7" by linarith
    then show thesis using that by (auto simp: word_le_nat_alt word_unat_eq_iff)
  qed
  then show ?thesis
  proof cases
    case 1
    let ?k = "if drop_bit 3 b = 0 then 0 else push_bit (unat (b AND 7)) 1 :: u32"
    have "b AND 7 \<noteq> 5" "b AND 7 \<noteq> 6" "b AND 7 \<noteq> 7" using 1 by auto
    then have "sint (1 + ?k) = int (length e)"
      using len sz 1 by (simp add: de_get_len_def de_get_header_size_def de_get_data_size_def split: if_splits)
    then have "1 + ?k = of_nat (length e)" by (rule small)
    then have "?k = of_nat (length r)" by (simp add: e split: if_splits)
    then show ?thesis using 1 by (intro that [of "[b]" r]) (simp_all add: header_length_def elem_size_def e de_first_fixed)
  next
    case 2
    then obtain l body where r: "r = l # body" "sint (2 + ucast l :: u32) = int (length e)"
      using len sz by (cases r) (auto simp: de_get_len_def de_get_header_size_def de_get_data_size_def rd_def e)
    have "2 + ucast l = (of_nat (length e) :: u32)" by (rule small [OF r(2)])
    then have "ucast l = (of_nat (length body) :: u32)" by (simp add: e r(1))
    then show ?thesis using 2 by (intro that [of "[b, l]" body]) (simp_all add: header_length_def elem_size_def e r(1) de_first_var de_next)
  next
    case 3
    then obtain h l body where r: "r = h # l # body" "sint (3 + (push_bit 8 (ucast h) OR ucast l) :: u32) = int (length e)"
      using len sz
      by (cases r; cases "tl r") (auto simp: de_get_len_def de_get_header_size_def de_get_data_size_def rd_def e
          big_endian_read_16_def ucast_join16 or.commute)
    have "3 + (push_bit 8 (ucast h) OR ucast l) = (of_nat (length e) :: u32)" by (rule small [OF r(2)])
    then have "push_bit 8 (ucast h) OR ucast l = (of_nat (length body) :: u32)" by (simp add: e r(1))
    then show ?thesis using 3 by (intro that [of "[b, h, l]" body]) (simp_all add: header_length_def elem_size_def e r(1) de_first_var de_next)
  next
    case 4
    then obtain h i j l body where r: "r = h # i # j # l # body"
        "sint (5 + (push_bit 8 (push_bit 8 (push_bit 8 (ucast h) OR ucast i) OR ucast j) OR ucast l) :: u32) = int (length e)"
      using len sz
      by (cases r; cases "tl r"; cases "tl (tl r)"; cases "tl (tl (tl r))")
         (auto simp: de_get_len_def de_get_header_size_def de_get_data_size_def rd_def e
          big_endian_read_32_def push_bit_or or.commute or.left_commute or.assoc)
    let ?k = "push_bit 8 (push_bit 8 (push_bit 8 (ucast h) OR ucast i) OR ucast j) OR ucast l :: u32"
    have "5 + ?k = (of_nat (length e) :: u32)" by (rule small [OF r(2)])
    then have "?k = (of_nat (length body) :: u32)" by (simp add: e r(1))
    then show ?thesis using 4 by (intro that [of "[b, h, i, j, l]" body]) (simp_all add: header_length_def elem_size_def e r(1) de_first_var de_next)
  qed
qed

subsection \<open>Headers in the parser\<close>

lemma process_list_header:
  assumes "de_feed hdr (de_header_state p) = Ret (d, True)" "hdr \<noteq> []" "parser_state p = GET_LIST_LENGTH"
  shows "sdp_parser_handle_chunk p hdr = Ret (p\<lparr>de_header_state := d, list_offset := ucast (de_offset d),
    list_size := ucast (de_size d), record_offset := record_offset p + of_nat (length hdr), record_counter := 0,
    parser_state := GET_RECORD_LENGTH\<rparr>, [])"
  using assms
proof (induction hdr arbitrary: p)
  case (Cons b hdr)
  obtain d1 complete where d1: "de_state_size b (de_header_state p) = Ret (d1, complete)"
    using Cons.prems(1) by (cases "de_state_size b (de_header_state p)") auto
  show ?case
  proof (cases complete)
    case True
    then show ?thesis using Cons.prems d1 by (simp add: sdp_parser_process_byte_def Let_def split: if_splits)
  next
    case False
    let ?p = "p\<lparr>list_offset := list_offset p + 1, record_offset := record_offset p + 1, de_header_state := d1\<rparr>"
    have "hdr \<noteq> []" "de_feed hdr (de_header_state ?p) = Ret (d, True)" "parser_state ?p = GET_LIST_LENGTH"
      using Cons.prems d1 False by (auto split: if_splits)
    from Cons.IH [OF this(2,1,3)] show ?thesis
      using Cons.prems d1 False by (simp add: sdp_parser_process_byte_def Let_def add.assoc)
  qed
qed simp

lemma process_record_header:
  assumes "de_feed hdr (de_header_state p) = Ret (d, True)" "hdr \<noteq> []" "parser_state p = GET_RECORD_LENGTH"
  shows "sdp_parser_handle_chunk p hdr = Ret (p\<lparr>de_header_state := d, list_offset := list_offset p + of_nat (length hdr),
    record_offset := ucast (de_offset d), record_size := ucast (de_size d),
    parser_state := GET_ATTRIBUTE_ID_HEADER_LENGTH\<rparr>, [])"
  using assms
proof (induction hdr arbitrary: p)
  case (Cons b hdr)
  obtain d1 complete where d1: "de_state_size b (de_header_state p) = Ret (d1, complete)"
    using Cons.prems(1) by (cases "de_state_size b (de_header_state p)") auto
  show ?case
  proof (cases complete)
    case True
    then show ?thesis using Cons.prems d1 by (simp add: sdp_parser_process_byte_def Let_def split: if_splits)
  next
    case False
    let ?p = "p\<lparr>list_offset := list_offset p + 1, record_offset := record_offset p + 1, de_header_state := d1\<rparr>"
    have "hdr \<noteq> []" "de_feed hdr (de_header_state ?p) = Ret (d, True)" "parser_state ?p = GET_RECORD_LENGTH"
      using Cons.prems d1 False by (auto split: if_splits)
    from Cons.IH [OF this(2,1,3)] show ?thesis
      using Cons.prems d1 False by (simp add: sdp_parser_process_byte_def Let_def add.assoc)
  qed
qed simp

text \<open>The ID of an attribute: the byte 0x09 and two bytes.\<close>

lemma process_id:
  assumes "in_state_GET_DE_HEADER_LENGTH (de_header_state p)" "parser_state p = GET_ATTRIBUTE_ID_HEADER_LENGTH"
  shows "sdp_parser_handle_chunk p (0x09 # be16 i) = Ret (p\<lparr>list_offset := list_offset p + 3,
    record_offset := record_offset p + 3, attribute_id := i, de_header_state := de_state_init,
    attribute_bytes_received := 0, attribute_bytes_delivered := 0, attribute_value_size := 0,
    parser_state := GET_ATTRIBUTE_VALUE_LENGTH\<rparr>, [])"
proof -
  have d: "de_state_size 0x09 (de_header_state p) = Ret (de_done 2, True)"
    using de_first_fixed [OF assms(1), of "0x09"] by simp
  have "push_bit 8 (ucast (ucast (drop_bit 8 i) :: byte)) OR ucast (ucast i :: byte) = i"
    by (rule bit_word_eqI) (auto simp: bit_simps dest: bit_imp_le_length)
  then show ?thesis using assms(2) d by (simp add: sdp_parser_process_byte_def be16_def Let_def add.assoc)
qed

subsection \<open>Values in the parser\<close>

definition value_event :: "int \<Rightarrow> u16 \<Rightarrow> nat \<Rightarrow> nat \<Rightarrow> byte \<Rightarrow> bytes" where
  "value_event r i sz k b = 0x94 # 9 # le16 (word_of_int r) @ le16 i @ le16 (of_nat sz) @ le16 (of_nat k) @ [b]"

fun events_from :: "int \<Rightarrow> u16 \<Rightarrow> nat \<Rightarrow> nat \<Rightarrow> bytes \<Rightarrow> bytes list" where
  "events_from r i sz k [] = []"
| "events_from r i sz k (b # bs) = value_event r i sz k b # events_from r i sz (Suc k) bs"

definition value_events :: "int \<Rightarrow> u16 \<Rightarrow> bytes \<Rightarrow> bytes list" where
  "value_events r i e = events_from r i 0 0 (take (header_length e) e) @
     events_from r i (length e) (header_length e) (drop (header_length e) e)"

lemma emit_value:
  "sdp_parser_emit_value_byte p b = Ret (0x94 # 9 # le16 (word_of_int (record_counter p)) @ le16 (attribute_id p) @
     le16 (attribute_value_size p) @ le16 (attribute_bytes_delivered p) @ [b])"
proof -
  have st: "little_endian_store_16 m 0 2 v = wr_block m 2 (le16 v)" "little_endian_store_16 m 0 4 v = wr_block m 4 (le16 v)"
    "little_endian_store_16 m 0 6 v = wr_block m 6 (le16 v)" "little_endian_store_16 m 0 8 v = wr_block m 8 (le16 v)" for m v
    by (simp_all add: le16.store_enc)
  have "replicate 11 0 = [0, 0, 0, 0, 0, 0, 0, 0, 0, 0, 0 :: byte]" by (simp add: eval_nat_numeral)
  then show ?thesis
    by (simp add: sdp_parser_emit_value_byte_def st wr_def wr_block_def write_at_def le16_def be16_def)
qed

lemma process_value_header:
  assumes "de_feed hdr (de_header_state p) = Ret (d, True)" "hdr \<noteq> []" "parser_state p = GET_ATTRIBUTE_VALUE_LENGTH"
    and "attribute_bytes_received p = of_nat k" "attribute_bytes_delivered p = of_nat k" "attribute_value_size p = 0"
  shows "sdp_parser_handle_chunk p hdr = Ret (p\<lparr>de_header_state := d, list_offset := list_offset p + of_nat (length hdr),
    record_offset := record_offset p + of_nat (length hdr), attribute_bytes_received := of_nat (k + length hdr),
    attribute_bytes_delivered := of_nat (k + length hdr),
    attribute_value_size := ucast (de_size d + ucast (of_nat (k + length hdr) :: u16)),
    parser_state := GET_ATTRIBUTE_VALUE\<rparr>, events_from (record_counter p) (attribute_id p) 0 k hdr)"
  using assms
proof (induction hdr arbitrary: p k)
  case (Cons b hdr)
  obtain d1 complete where d1: "de_state_size b (de_header_state p) = Ret (d1, complete)"
    using Cons.prems(1) by (cases "de_state_size b (de_header_state p)") auto
  show ?case
  proof (cases complete)
    case True
    then show ?thesis using Cons.prems d1
      by (simp add: sdp_parser_process_byte_def value_byte_def emit_value value_event_def Let_def add.commute split: if_splits)
  next
    case False
    let ?p = "p\<lparr>list_offset := list_offset p + 1, record_offset := record_offset p + 1,
      attribute_bytes_received := of_nat (Suc k), attribute_bytes_delivered := of_nat (Suc k), de_header_state := d1\<rparr>"
    have "hdr \<noteq> []" "de_feed hdr (de_header_state ?p) = Ret (d, True)" "parser_state ?p = GET_ATTRIBUTE_VALUE_LENGTH"
      "attribute_bytes_received ?p = of_nat (Suc k)" "attribute_bytes_delivered ?p = of_nat (Suc k)" "attribute_value_size ?p = 0"
      using Cons.prems d1 False by (auto split: if_splits)
    note IH = Cons.IH [OF this(2,1,3-6)]
    have "sdp_parser_process_byte p b = Ret (?p, [value_event (record_counter p) (attribute_id p) 0 k b])"
      using Cons.prems d1 False
      by (simp add: sdp_parser_process_byte_def value_byte_def emit_value value_event_def Let_def add.commute)
    with IH show ?thesis by (simp add: add.assoc)
  qed
qed simp

text \<open>After the last byte of a value: the next attribute, the next record, or the next list.\<close>

definition value_end :: "sdp_parser \<Rightarrow> sdp_parser" where
  "value_end p =
     (if record_offset p \<noteq> record_size p then p\<lparr>parser_state := GET_ATTRIBUTE_ID_HEADER_LENGTH\<rparr>
      else if list_size p > 0 \<and> list_offset p \<noteq> list_size p then
        p\<lparr>record_offset := 0, record_counter := record_counter p + 1, parser_state := GET_RECORD_LENGTH\<rparr>
      else p\<lparr>record_offset := 0, list_offset := 0, de_header_state := de_state_init, parser_state := GET_LIST_LENGTH,
        record_counter := 0\<rparr>)"

lemma process_body:
  assumes "body \<noteq> []" "parser_state p = GET_ATTRIBUTE_VALUE" "k + length body < 65536"
    and "attribute_bytes_received p = of_nat k" "attribute_bytes_delivered p = of_nat k"
    and "attribute_value_size p = of_nat (k + length body)"
  shows "sdp_parser_handle_chunk p body = Ret (value_end (p\<lparr>list_offset := list_offset p + of_nat (length body),
    record_offset := record_offset p + of_nat (length body), attribute_bytes_received := of_nat (k + length body),
    attribute_bytes_delivered := of_nat (k + length body)\<rparr>),
    events_from (record_counter p) (attribute_id p) (k + length body) k body)"
  using assms
proof (induction body arbitrary: p k)
  case (Cons b body)
  show ?case
  proof (cases "body = []")
    case True
    then show ?thesis using Cons.prems
      by (simp add: sdp_parser_process_byte_def value_byte_def emit_value value_event_def value_end_def Let_def add.commute)
  next
    case False
    let ?p = "p\<lparr>list_offset := list_offset p + 1, record_offset := record_offset p + 1,
      attribute_bytes_received := of_nat (Suc k), attribute_bytes_delivered := of_nat (Suc k)\<rparr>"
    have less: "(of_nat (Suc k) :: u16) < of_nat (k + length (b # body))"
      using Cons.prems(3) False by (subst less_u16) auto
    have step: "sdp_parser_process_byte p b = Ret (?p, [value_event (record_counter p) (attribute_id p) (k + length (b # body)) k b])"
      using Cons.prems(2,4-6) less
      by (simp add: sdp_parser_process_byte_def value_byte_def emit_value value_event_def Let_def add.commute)
    have IH: "sdp_parser_handle_chunk ?p body = Ret (value_end (?p\<lparr>list_offset := list_offset ?p + of_nat (length body),
        record_offset := record_offset ?p + of_nat (length body), attribute_bytes_received := of_nat (Suc k + length body),
        attribute_bytes_delivered := of_nat (Suc k + length body)\<rparr>),
        events_from (record_counter ?p) (attribute_id ?p) (Suc k + length body) (Suc k) body)"
      by (rule Cons.IH [OF False]) (use Cons.prems in simp_all)
    show ?thesis using step IH by (simp add: add.assoc)
  qed
qed simp

subsection \<open>Lists of records\<close>

text \<open>The parser in state \<open>st\<close>, \<open>lo\<close> bytes into a list of \<open>ls\<close> and \<open>ro\<close> bytes into record \<open>r\<close> of \<open>rs\<close>.\<close>

definition parser_at :: "sdp_parser_state \<Rightarrow> int \<Rightarrow> nat \<Rightarrow> nat \<Rightarrow> nat \<Rightarrow> nat \<Rightarrow> sdp_parser \<Rightarrow> bool" where
  "parser_at st r lo ls ro rs p \<longleftrightarrow> parser_state p = st \<and> in_state_GET_DE_HEADER_LENGTH (de_header_state p) \<and>
     record_counter p = r \<and> list_offset p = of_nat lo \<and> list_size p = of_nat ls \<and>
     record_offset p = of_nat ro \<and> record_size p = of_nat rs"

definition value_ok :: "bytes \<Rightarrow> bool" where
  "value_ok e \<longleftrightarrow> elem_ok e \<and> header_length e < length e"

lemma process_attribute:
  assumes "parser_at GET_ATTRIBUTE_ID_HEADER_LENGTH r lo ls ro rs p" "value_ok e" "length e < 65536"
  shows "\<exists>q. sdp_parser_handle_chunk p (attr_bytes (i, e)) = Ret (value_end q, value_events r i e) \<and>
    parser_at GET_ATTRIBUTE_VALUE r (lo + 3 + length e) ls (ro + 3 + length e) rs q"
proof -
  obtain hdr body where e: "e = hdr @ body" "hdr \<noteq> []" "length hdr = header_length e"
      "\<And>d. in_state_GET_DE_HEADER_LENGTH d \<Longrightarrow> de_feed hdr d = Ret (de_done (of_nat (length body)), True)"
    using assms(2,3) by (auto simp: value_ok_def elim: element_split)
  have body: "body \<noteq> []" "drop (header_length e) e = body" "take (header_length e) e = hdr" "length e = header_length e + length body"
    using assms(2) e(1,3) arg_cong [OF e(1), of length] by (auto simp: value_ok_def)
  obtain p1 where p1: "sdp_parser_handle_chunk p (0x09 # be16 i) = Ret (p1, [])"
      "parser_at GET_ATTRIBUTE_VALUE_LENGTH r (lo + 3) ls (ro + 3) rs p1" "attribute_id p1 = i"
      "attribute_bytes_received p1 = of_nat 0" "attribute_bytes_delivered p1 = of_nat 0" "attribute_value_size p1 = 0"
    using process_id [of p i] assms(1) by (auto simp: parser_at_def de_state_init_done add.commute)
  have feed: "de_feed hdr (de_header_state p1) = Ret (de_done (of_nat (length body)), True)"
    using e(4) p1(2) by (simp add: parser_at_def)
  have sz: "ucast (of_nat (length body) + ucast (of_nat (0 + length hdr) :: u16) :: u32) = (of_nat (length hdr + length body) :: u16)"
  proof -
    have "ucast (of_nat (length hdr) :: u16) = (of_nat (length hdr) :: u32)"
      using assms(3) e(1) by (intro ucast_of_nat_u32(2)) simp
    then have "of_nat (length body) + ucast (of_nat (0 + length hdr) :: u16) = (of_nat (length hdr + length body) :: u32)"
      by simp
    then show ?thesis using assms(3) e(1) by (simp only: ucast_of_nat_u16 length_append)
  qed
  obtain p2 where p2: "sdp_parser_handle_chunk p1 hdr = Ret (p2, events_from r i 0 0 hdr)"
      "parser_at GET_ATTRIBUTE_VALUE r (lo + 3 + length hdr) ls (ro + 3 + length hdr) rs p2" "attribute_id p2 = i"
      "attribute_bytes_received p2 = of_nat (length hdr)" "attribute_bytes_delivered p2 = of_nat (length hdr)"
      "attribute_value_size p2 = of_nat (length hdr + length body)"
  proof -
    let ?p2 = "p1\<lparr>de_header_state := de_done (of_nat (length body)), list_offset := list_offset p1 + of_nat (length hdr),
      record_offset := record_offset p1 + of_nat (length hdr), attribute_bytes_received := of_nat (0 + length hdr),
      attribute_bytes_delivered := of_nat (0 + length hdr),
      attribute_value_size := ucast (de_size (de_done (of_nat (length body))) + ucast (of_nat (0 + length hdr) :: u16)),
      parser_state := GET_ATTRIBUTE_VALUE\<rparr>"
    have "sdp_parser_handle_chunk p1 hdr = Ret (?p2, events_from (record_counter p1) (attribute_id p1) 0 0 hdr)"
      using p1(2) by (intro process_value_header [OF feed e(2) _ p1(4-6)]) (simp add: parser_at_def)
    then show ?thesis
      using p1(2,3) sz by (intro that [of ?p2]) (simp_all add: parser_at_def)
  qed
  let ?q = "p2\<lparr>list_offset := list_offset p2 + of_nat (length body), record_offset := record_offset p2 + of_nat (length body),
    attribute_bytes_received := of_nat (length hdr + length body), attribute_bytes_delivered := of_nat (length hdr + length body)\<rparr>"
  have "sdp_parser_handle_chunk p2 body = Ret (value_end ?q, events_from (record_counter p2) (attribute_id p2) (length hdr + length body) (length hdr) body)"
    using p2(2) assms(3) e(1) by (intro process_body [OF body(1) _ _ p2(4-6)]) (simp_all add: parser_at_def)
  then have "sdp_parser_handle_chunk p2 body = Ret (value_end ?q, events_from r i (length e) (header_length e) body)"
    using p2(2,3) e(3) body(4) by (simp add: parser_at_def)
  from chunk_then [OF chunk_then [OF p1(1) p2(1)] this]
  have "sdp_parser_handle_chunk p (attr_bytes (i, e)) = Ret (value_end ?q, value_events r i e)"
    using e(1) body(2,3) by (simp add: attr_bytes_def value_events_def)
  moreover have "parser_at GET_ATTRIBUTE_VALUE r (lo + 3 + length e) ls (ro + 3 + length e) rs ?q"
    using p2(2) body(4) e(3) by (simp add: parser_at_def add.assoc)
  ultimately show ?thesis by blast
qed

lemma parser_at_end:
  assumes "parser_at GET_ATTRIBUTE_VALUE r lo ls ro rs q" "lo \<le> ls" "0 < ls" "ls < 65536" "ro \<le> rs" "rs < 65536"
  shows "if ro < rs then parser_at GET_ATTRIBUTE_ID_HEADER_LENGTH r lo ls ro rs (value_end q)
    else if lo < ls then parser_at GET_RECORD_LENGTH (r + 1) lo ls 0 rs (value_end q)
    else parser_at GET_LIST_LENGTH 0 0 ls 0 rs (value_end q)"
proof -
  have inj: "(of_nat a :: u16) = of_nat b \<longleftrightarrow> a = b" if "a \<le> b" "b < 65536" for a b
    using that by (metis le_less_trans u16_of_nat)
  have "record_offset q = record_size q \<longleftrightarrow> ro = rs" "list_offset q = list_size q \<longleftrightarrow> lo = ls"
    using assms inj by (simp_all add: parser_at_def)
  moreover have "list_size q > 0"
    using assms(1,3,4) by (simp add: parser_at_def word_less_nat_alt)
  ultimately show ?thesis
    using assms(1,2,5) by (auto simp: value_end_def parser_at_def de_state_init_done)
qed

definition attr_events :: "int \<Rightarrow> (u16 \<times> bytes) list \<Rightarrow> bytes list" where
  "attr_events r as = concat (map (\<lambda>(i, e). value_events r i e) as)"

lemma process_attributes:
  assumes "as \<noteq> []" "\<forall>(i, e) \<in> set as. value_ok e" "parser_at GET_ATTRIBUTE_ID_HEADER_LENGTH r lo ls ro rs p"
    and "ro + length (attrs_bytes as) = rs" "rs < 65536" "lo + length (attrs_bytes as) \<le> ls" "ls < 65536"
  shows "\<exists>q. sdp_parser_handle_chunk p (attrs_bytes as) = Ret (q, attr_events r as) \<and>
    (if lo + length (attrs_bytes as) < ls then parser_at GET_RECORD_LENGTH (r + 1) (lo + length (attrs_bytes as)) ls 0 rs q
     else parser_at GET_LIST_LENGTH 0 0 ls 0 rs q)"
  using assms
proof (induction as arbitrary: p lo ro)
  case (Cons x as)
  obtain i e where x: "x = (i, e)" by (cases x)
  obtain q where q: "sdp_parser_handle_chunk p (attr_bytes (i, e)) = Ret (value_end q, value_events r i e)"
      "parser_at GET_ATTRIBUTE_VALUE r (lo + 3 + length e) ls (ro + 3 + length e) rs q"
    using process_attribute [OF Cons.prems(3), of e i] Cons.prems(2,4,5) by (auto simp: x)
  have l: "length (attrs_bytes (x # as)) = 3 + length e + length (attrs_bytes as)" by (simp add: x)
  note at = parser_at_end [OF q(2)]
  show ?case
  proof (cases "as = []")
    case True
    then show ?thesis
      using q at Cons.prems(4-7) by (intro exI [of _ "value_end q"]) (auto simp: x attr_events_def add.assoc split: if_splits)
  next
    case False
    then have "0 < length (attrs_bytes as)" by (cases as) (auto simp: attr_bytes_def)
    then have n: "lo + 3 + length e \<le> ls" "0 < ls" "ro + 3 + length e \<le> rs" "ro + 3 + length e < rs"
      using Cons.prems(4,6) l by linarith+
    then have at': "parser_at GET_ATTRIBUTE_ID_HEADER_LENGTH r (lo + 3 + length e) ls (ro + 3 + length e) rs (value_end q)"
      using at [OF n(1,2) Cons.prems(7) n(3) Cons.prems(5)] by simp
    obtain q' where "sdp_parser_handle_chunk (value_end q) (attrs_bytes as) = Ret (q', attr_events r as)"
        "if lo + 3 + length e + length (attrs_bytes as) < ls then
           parser_at GET_RECORD_LENGTH (r + 1) (lo + 3 + length e + length (attrs_bytes as)) ls 0 rs q'
         else parser_at GET_LIST_LENGTH 0 0 ls 0 rs q'"
      using Cons.IH [OF False _ at'] Cons.prems(2,4-7) l by (auto simp: x)
    moreover have sum: "lo + length (attrs_bytes (x # as)) = lo + 3 + length e + length (attrs_bytes as)" using l by simp
    ultimately show ?thesis
      unfolding sum using chunk_then [OF q(1), of "attrs_bytes as" q'] by (intro exI [of _ q']) (simp add: x attr_events_def)
  qed
qed simp

lemma des_header_feed:
  assumes "des_fits cls n" "n < 65536" "in_state_GET_DE_HEADER_LENGTH d"
  shows "de_feed (des_header cls n) d = Ret (de_done (of_nat n), True)"
  using assms(1)
proof (cases rule: des_cases)
  case 1
  then show ?thesis
    using assms(3) by (simp add: des_header_def de_first_var de_next ucast_of_nat_u32)
next
  case 2
  have "push_bit 8 (ucast (ucast (drop_bit 8 v) :: byte)) OR ucast (ucast v :: byte) = (ucast v :: u32)" for v :: u16
    by (rule bit_word_eqI) (auto simp: bit_simps dest: bit_imp_le_length)
  with 2 show ?thesis
    using assms(2,3) by (simp add: des_header_def be16_def de_first_var de_next ucast_of_nat_u32)
next
  case 3
  have "push_bit 8 (push_bit 8 (push_bit 8 (ucast (ucast (drop_bit 24 v) :: byte)) OR ucast (ucast (drop_bit 16 v) :: byte)) OR
      ucast (ucast (drop_bit 8 v) :: byte)) OR ucast (ucast v :: byte) = v" for v :: u32
    using join_32 [of v] by (simp add: push_bit_or or.commute or.left_commute or.assoc)
  with 3 show ?thesis
    using assms(3) by (simp add: des_header_def be32_def de_first_var de_next)
qed

text \<open>A record: the class of its header and its attributes.\<close>

type_synonym rec = "byte \<times> (u16 \<times> bytes) list"

definition rec_bytes :: "rec \<Rightarrow> bytes" where
  "rec_bytes R = des_bytes (fst R) (attrs_bytes (snd R))"

definition rec_ok :: "rec \<Rightarrow> bool" where
  "rec_ok R \<longleftrightarrow> snd R \<noteq> [] \<and> des_fits (fst R) (length (attrs_bytes (snd R))) \<and> (\<forall>(i, e) \<in> set (snd R). value_ok e)"

fun recs_events :: "int \<Rightarrow> rec list \<Rightarrow> bytes list" where
  "recs_events r [] = []"
| "recs_events r (R # Rs) = attr_events r (snd R) @ recs_events (r + 1) Rs"

lemma process_records:
  assumes "Rs \<noteq> []" "\<forall>R \<in> set Rs. rec_ok R" "parser_at GET_RECORD_LENGTH r lo ls ro rs p"
    and "lo + length (concat (map rec_bytes Rs)) = ls" "ls < 65536"
  shows "\<exists>q rs'. sdp_parser_handle_chunk p (concat (map rec_bytes Rs)) = Ret (q, recs_events r Rs) \<and>
    parser_at GET_LIST_LENGTH 0 0 ls 0 rs' q"
  using assms
proof (induction Rs arbitrary: p r lo ro rs)
  case (Cons R Rs)
  let ?as = "snd R" and ?hd = "des_header (fst R) (length (attrs_bytes (snd R)))"
  have R: "?as \<noteq> []" "des_fits (fst R) (length (attrs_bytes ?as))" "\<forall>(i, e) \<in> set ?as. value_ok e"
    using Cons.prems(2) by (simp_all add: rec_ok_def)
  have len: "lo + length ?hd + length (attrs_bytes ?as) + length (concat (map rec_bytes Rs)) = ls"
    using Cons.prems(4) by (simp add: rec_bytes_def [of R] des_bytes_def)
  then have n: "length (attrs_bytes ?as) < 65536" "lo + length ?hd + length (attrs_bytes ?as) \<le> ls" using Cons.prems(5) by linarith+
  have feed: "de_feed ?hd (de_header_state p) = Ret (de_done (of_nat (length (attrs_bytes ?as))), True)"
    using Cons.prems(3) n(1) by (intro des_header_feed R(2)) (simp_all add: parser_at_def)
  have "?hd \<noteq> []" "parser_state p = GET_RECORD_LENGTH" using Cons.prems(3) by (simp_all add: des_header_def parser_at_def)
  from process_record_header [OF feed this] obtain p1 where p1: "sdp_parser_handle_chunk p ?hd = Ret (p1, [])"
      "parser_at GET_ATTRIBUTE_ID_HEADER_LENGTH r (lo + length ?hd) ls 0 (length (attrs_bytes ?as)) p1"
    using Cons.prems(3) n(1) by (auto simp: parser_at_def)
  obtain p2 where p2: "sdp_parser_handle_chunk p1 (attrs_bytes ?as) = Ret (p2, attr_events r ?as)"
      "if lo + length ?hd + length (attrs_bytes ?as) < ls then
         parser_at GET_RECORD_LENGTH (r + 1) (lo + length ?hd + length (attrs_bytes ?as)) ls 0 (length (attrs_bytes ?as)) p2
       else parser_at GET_LIST_LENGTH 0 0 ls 0 (length (attrs_bytes ?as)) p2"
    using process_attributes [OF R(1,3) p1(2) _ n(1,2) Cons.prems(5)] by auto
  have both: "sdp_parser_handle_chunk p (rec_bytes R) = Ret (p2, attr_events r ?as)"
    using chunk_then [OF p1(1) p2(1)] by (simp add: rec_bytes_def des_bytes_def)
  show ?case
  proof (cases "Rs = []")
    case True
    then show ?thesis using both p2(2) len by auto
  next
    case False
    then have "0 < length (concat (map rec_bytes Rs))" by (cases Rs) (auto simp: rec_bytes_def des_bytes_def des_header_def)
    then have "lo + length ?hd + length (attrs_bytes ?as) < ls" using len by linarith
    then have "parser_at GET_RECORD_LENGTH (r + 1) (lo + length ?hd + length (attrs_bytes ?as)) ls 0 (length (attrs_bytes ?as)) p2"
      using p2(2) by simp
    from Cons.IH [OF False _ this _ Cons.prems(5)] obtain q rs' where
        "sdp_parser_handle_chunk p2 (concat (map rec_bytes Rs)) = Ret (q, recs_events (r + 1) Rs)"
        "parser_at GET_LIST_LENGTH 0 0 ls 0 rs' q"
      using Cons.prems(2) len by auto
    with chunk_then [OF both] show ?thesis by auto
  qed
qed simp

text \<open>The whole list, from the start of a query.\<close>

lemma process_list:
  assumes "Rs \<noteq> []" "\<forall>R \<in> set Rs. rec_ok R" "des_fits cls (length (concat (map rec_bytes Rs)))"
    and "length (concat (map rec_bytes Rs)) < 65536"
  shows "\<exists>q. sdp_parser_handle_chunk (sdp_parser_init p) (des_bytes cls (concat (map rec_bytes Rs))) = Ret (q, recs_events 0 Rs)"
proof -
  let ?p = "sdp_parser_init p" and ?data = "concat (map rec_bytes Rs)"
  have feed: "de_feed (des_header cls (length ?data)) (de_header_state ?p) = Ret (de_done (of_nat (length ?data)), True)"
    by (intro des_header_feed assms(3,4)) (simp add: sdp_parser_init_def de_state_init_done)
  have "des_header cls (length ?data) \<noteq> []" "parser_state ?p = GET_LIST_LENGTH"
    by (simp_all add: des_header_def sdp_parser_init_def)
  from process_list_header [OF feed this] obtain p1 where p1: "sdp_parser_handle_chunk ?p (des_header cls (length ?data)) = Ret (p1, [])"
      "parser_at GET_RECORD_LENGTH 0 0 (length ?data) (length (des_header cls (length ?data))) (unat (record_size ?p)) p1"
    using assms(4) by (auto simp: parser_at_def sdp_parser_init_def)
  from process_records [OF assms(1,2) p1(2) _ assms(4)] chunk_then [OF p1(1)] show ?thesis
    by (auto simp: des_bytes_def)
qed

end
