(* ===== verification/SdpAnswers.thy ===== *)
theory SdpAnswers
  imports SdpServerProps
begin

text \<open>
  Properties of the answers of the SDP server: a client gets the attributes of a record complete
  whatever the limits are, and the two requests that make the server leave its buffers.
\<close>

subsection \<open>The attributes of a record\<close>

text \<open>A server with the sample record.\<close>

definition sample_server :: sdp_server where
  "sample_server = sdp_start\<lparr>sdp_service_records := [\<lparr>service_record_handle = 0x00010001, service_record = sample_record\<rparr>]\<rparr>"

text \<open>The list with the range of all attribute IDs.\<close>

definition all_ids :: bytes where
  "all_ids = des_bytes 5 (concat [[0x0A, 0, 0, 0xFF, 0xFF]])"

lemma all_ids: "length all_ids = 7" "des_fits 5 (length (concat [[0x0A, 0, 0, 0xFF, 0xFF :: byte]]))"
  by (simp_all add: all_ids_def des_bytes_def des_header_def des_fits_def)

text \<open>
  C21. A client that asks for attributes of a record, and repeats the request with the continuation
  state of each answer, gets a data element sequence of exactly the attributes it selected, for
  every limit of at least four bytes and every MTU of at least 14 bytes.
\<close>

theorem attributes_fetched:
  assumes "sdp_get_record_item_for_handle s h = Some item"
    and "record_at (service_record item) 0 cls as" "length (attrs_bytes as) < 65536" "length as < n"
    and "des_fits c (length (concat ids))" "\<forall>e \<in> set ids. elem_ok e" "length ids < n"
    and "idl = des_bytes c (concat ids)" "length idl < 65520"
    and "4 \<le> unat mx" "14 \<le> unat mtu"
    and "unat mtu \<le> length (sdp_response_buffer s)" "length (sdp_response_buffer s) < 65536"
    and "length (answer (sel ids as)) < k"
  shows "fetch_attributes k n s tid h mx idl mtu [0] = Some (answer (sel ids as))"
  using fetch_attributes_from [OF assms(1-13), of 0 k tid] assms(14) by (simp add: offset_state_def answer_from_def)

theorem attributes_fetched_witness:
  "fetch_attributes 20 3 sample_server 1 0x00010001 7 all_ids 48 [0] =
     Some (answer (sel [[0x0A, 0, 0, 0xFF, 0xFF]] sample_attrs))"
proof (rule attributes_fetched [OF _ _ _ _ all_ids(2) _ _ all_ids_def])
  show "sdp_get_record_item_for_handle sample_server 0x00010001 =
      Some \<lparr>service_record_handle = 0x00010001, service_record = sample_record\<rparr>"
    by (simp add: sample_server_def sdp_get_record_item_for_handle_def)
  show "record_at (service_record \<lparr>service_record_handle = 0x00010001, service_record = sample_record\<rparr>) 0 5 sample_attrs"
    by (simp add: sample_record_at)
  have "length (sel [[0x0A, 0, 0, 0xFF, 0xFF]] sample_attrs) \<le> length (attrs_bytes sample_attrs)" by (rule sel_length)
  then show "length (answer (sel [[0x0A, 0, 0, 0xFF, 0xFF]] sample_attrs)) < 20"
    by (simp add: sample_attrs_def answer_def length_des16)
qed (use sample_elems all_ids in \<open>simp_all add: sample_attrs_def sample_server_def sdp_start_def SDP_RESPONSE_BUFFER_SIZE_def\<close>)

subsection \<open>A limit below the size of the header\<close>

lemma append_range_overflow:
  assumes "fc_startOffset c = 0" "\<not> fc_maxBytes c < of_nat (length v)" "length v < 65536" "holds_at dm dp v"
    and "int (length (fc_mem c)) < fc_buffer c + int (length v)"
  shows "spd_append_range c (of_nat (length v)) dm dp = Undef"
proof -
  have "rd_block dm (dp + uint (0 :: u16)) (unat (of_nat (length v) :: u16)) = Ret v"
    using assms(3,4) by (intro holds_at_block) simp_all
  moreover have "wr_block (fc_mem c) (fc_buffer c) v = Undef" using assms(5) by (simp add: wr_block_def)
  ultimately show ?thesis using assms(1,2) by (simp add: spd_append_range_def Let_def)
qed

lemma filter_overflow:
  assumes r: "record_at rec 0 cls [(i, v)]" "1 < n" "length v < 65000"
    and ids: "ids_at am ap ids" "length ids < n" "selected ids i"
    and room: "65500 \<le> unat room" "0 \<le> b" "b + 3 \<le> int (length buf)" "int (length buf) < b + 3 + int (length v)"
  shows "sdp_filter_attributes_in_attributeIDList n rec 0 am ap 0 room buf b = Some Undef"
proof -
  let ?c = "\<lparr>fc_mem = buf, fc_buffer = b, fc_startOffset = 0, fc_maxBytes = room, fc_usedBytes = 0, fc_complete = True\<rparr>"
  let ?a = "int (length (des_header cls (length (attrs_bytes [(i, v)]))))"
  have rec: "holds_at rec 0 (des_bytes cls (attrs_bytes [(i, v)]))" "des_fits cls (length (attrs_bytes [(i, v)]))" "elem_ok v"
    using r(1) by (auto simp: record_at_def)
  have at: "holds_at rec ?a (attr_bytes (i, v))" "holds_at rec (?a + 3) v" "rd rec ?a = Ret 0x09" "holds_at rec (?a + 1) (be16 i)"
    using rec(1) by (simp_all add: des_bytes_def attr_bytes_def holds_at_append holds_at_Cons add.commute)
  have rm: "room = of_nat (unat room)" "unat room < 65536" using unat_u16_less [of room] by simp_all
  obtain m' where m': "spd_append_range ?c (of_nat 3) (0x09 # be16 i) 0 =
      Ret (\<not> unat room < 3 - 0, ?c\<lparr>fc_mem := m', fc_usedBytes := fc_usedBytes ?c + of_nat 3,
        fc_buffer := fc_buffer ?c + int 3, fc_maxBytes := of_nat (unat room - 3), fc_startOffset := 0\<rparr>)"
      "length m' = length (fc_mem ?c)"
    by (rule append_range_eq [of ?c 0 "unat room" 3 3 "0x09 # be16 i" 0 "0x09 # be16 i"])
       (use room rm holds_at_self [of "0x09 # be16 i"] in auto)
  have u3: "unat (of_nat (unat room - 3) :: u16) = unat room - 3" using rm(2) by (intro u16_of_nat) linarith
  have "unat (of_nat (length v) :: u16) = length v" using r(3) by simp
  then have fits: "\<not> of_nat (unat room - 3) < (of_nat (length v) :: u16)"
    using u3 room(1) r(3) unfolding word_less_nat_alt by linarith
  have over: "spd_append_range (?c\<lparr>fc_mem := m', fc_usedBytes := 3, fc_buffer := b + 3, fc_maxBytes := of_nat (unat room - 3),
        fc_startOffset := 0\<rparr>) (of_nat (length v)) rec (?a + 3) = Undef"
    using fits r(3) at(2) room(4) m'(2) by (intro append_range_overflow) simp_all
  have ne: "0 < int (length v)" using elem_ok_nonempty [OF rec(3)] by simp
  have "sdp_traversal_filter_attributes n rec am ap i (?a + 3) (elem_type v) (elem_size v) ?c = Some Undef"
    using constains_id [OF ids(1,2), of i] ids(3) m'(1) room(1) over elem_header [OF at(2) rec(3)] ne
    by (simp add: sdp_traversal_filter_attributes_def id_buffer_eq not_le)
  moreover have "de_get_element_type rec ?a = Ret 1" "de_get_size_type rec ?a = Ret 1" "big_endian_read_16 rec 0 (?a + 1) = Ret (ucast i)"
    using at(3,4) by (simp_all add: de_get_element_type_def de_get_size_type_def read_16)
  moreover have "add_int ?a 3 = Ret (?a + 3)" using length_des_header [OF rec(2)] by (simp add: add_int_def)
  moreover obtain k where "n = Suc k" using r(2) by (cases n) auto
  moreover have "?a < int (length (des_bytes cls (attrs_bytes [(i, v)])))" "\<not> int (length (des_bytes cls (attrs_bytes [(i, v)]))) \<le> ?a + 3"
    using ne by (simp_all add: des_bytes_def)
  ultimately have "attribute_loop n (\<lambda>_. rec) 0 ?a (int (length (des_bytes cls (attrs_bytes [(i, v)]))))
      (sdp_traversal_filter_attributes n rec am ap) ?c = Some Undef"
    using elem_header [OF at(2) rec(3)] by simp
  moreover have "uint (of_nat (length (des_header cls (length (attrs_bytes [(i, v)])))) :: u32) = ?a"
    using length_des_header [OF rec(2)] by (simp add: uint_nat unat_of_nat_u32)
  moreover have "holds_at rec 0 (des_header cls (length (attrs_bytes [(i, v)])))" using rec(1) by (simp add: des_bytes_def holds_at_append)
  ultimately show ?thesis
    using des_header_reads [OF rec(2)] des_len [OF rec(2,1)]
    by (simp add: sdp_filter_attributes_in_attributeIDList_def sdp_attribute_list_traverse_sequence_def)
qed

text \<open>
  C22. The three bytes of the sequence header are taken off the client's limit without a check: with
  a limit of 0, 1 or 2 the rest wraps around to about 65,535, and a record whose attribute does not
  fit in the response buffer is written past its end.
\<close>

theorem small_limit_overflows:
  assumes item: "sdp_get_record_item_for_handle s h = Some item"
    and r: "record_at (service_record item) 0 cls [(i, v)]" "1 < n" "length v < 65000"
    and ids: "des_fits c (length (concat ids))" "\<forall>e \<in> set ids. elem_ok e" "length ids < n"
      "idl = des_bytes c (concat ids)" "length idl < 65520" "selected ids i"
    and mx: "mx < 3" "14 \<le> unat mtu"
    and buf: "13 \<le> length (sdp_response_buffer s)" "length (sdp_response_buffer s) < 13 + length v"
  shows "sdp_handle_service_attribute_request n s (attribute_request tid h mx idl [0]) mtu = Some Undef"
proof -
  let ?pk = "attribute_request tid h mx idl (offset_state 0)"
  have at: "ids_at ?pk 11 ids" using attribute_request_parts(5) [of tid h mx idl] ids unfolding ids_at_def by blast
  have "unat (mtu - 10) = unat mtu - 10" using mx(2) by (simp add: unat_sub word_le_nat_alt)
  then have room: "(if mtu - (7 + 3) < mx then mtu - (7 + 3) else mx) = mx"
    using mx by (auto simp: word_less_nat_alt)
  have big: "65500 \<le> unat (mx - 3)"
  proof -
    have "mx = 0 \<or> mx = 1 \<or> mx = 2" using mx(1) by (auto simp: word_less_nat_alt word_unat_eq_iff)
    then show ?thesis by (elim disjE) (simp_all add: unsigned_minus_1_eq_mask mask_eq_exp_minus_1)
  qed
  let ?xs = "sel ids [(i, v)]"
  have "length (attrs_bytes [(i, v)]) < 65536" "length ?xs < 65536"
    using r(3) sel_length [of ids "[(i, v)]"] by simp_all
  have e: "(7 :: int) + 3 \<le> int (length (sdp_response_buffer s))" using buf(1) by linarith
  obtain b1 where b1: "de_store_descriptor_with_len (sdp_response_buffer s) 7 DE_DES DE_SIZE_VAR_16 (ucast (of_nat (length ?xs) :: u16)) = Ret b1"
      "kept 7 (sdp_response_buffer s) b1"
    by (rule des16_written [OF _ e \<open>length ?xs < 65536\<close>]) (simp, rule that)
  have "sdp_filter_attributes_in_attributeIDList n (service_record item) 0 ?pk 11 0 (mx - 3) b1 10 = Some Undef"
    by (rule filter_overflow [OF r at ids(3,6) big]) (use buf kept_length [OF b1(2)] in simp_all)
  then have "attribute_fill n (service_record item) ?pk 11 (of_nat 0) mx (sdp_response_buffer s) = Some Undef"
    using filtered_size [OF r(1) \<open>length (attrs_bytes [(i, v)]) < 65536\<close> _ at ids(3)] r(2) b1(1)
    by (simp add: attribute_fill_def)
  then show ?thesis
    using attribute_request_parsed [OF item ids(1,4,5), of 0 n tid mx mtu] unfolding room
    by (simp add: offset_state_def)
qed

text \<open>A record whose only attribute is a string of 1200 bytes.\<close>

definition long_value :: bytes where
  "long_value = 0x26 # be16 1200 @ replicate 1200 0x41"

definition long_record :: bytes where
  "long_record = des_bytes 6 (attrs_bytes [(0x0100, long_value)])"

lemma length_long_value: "length long_value = 1203"
  by (simp add: long_value_def)

lemma long_record_at: "record_at long_record 0 6 [(0x0100, long_value)]"
proof -
  have "big_endian_read_16 long_value 0 1 = Ret (ucast (1200 :: u16))"
    by (rule read_16) (simp add: long_value_def holds_at_Cons holds_at_append rd_def be16_def)
  then have "de_get_len long_value 0 = Ret 1203"
    by (simp add: de_get_len_def de_get_header_size_def de_get_data_size_def de_get_element_type_def
        de_get_size_type_def rd_def) (simp add: long_value_def)
  then show ?thesis
    by (simp add: record_at_def long_record_def holds_at_self des_fits_def elem_ok_def length_long_value)
qed

theorem small_limit_overflows_witness:
  "sdp_handle_service_attribute_request 3
     (sdp_start\<lparr>sdp_service_records := [\<lparr>service_record_handle = 0x00010001, service_record = long_record\<rparr>]\<rparr>)
     (attribute_request 1 0x00010001 0 all_ids [0]) 48 = Some Undef"
proof (rule small_limit_overflows [OF _ _ _ _ all_ids(2) _ _ all_ids_def])
  show "sdp_get_record_item_for_handle
      (sdp_start\<lparr>sdp_service_records := [\<lparr>service_record_handle = 0x00010001, service_record = long_record\<rparr>]\<rparr>) 0x00010001 =
      Some \<lparr>service_record_handle = 0x00010001, service_record = long_record\<rparr>"
    by (simp add: sdp_get_record_item_for_handle_def)
  show "record_at (service_record \<lparr>service_record_handle = 0x00010001, service_record = long_record\<rparr>) 0 6 [(0x0100, long_value)]"
    by (simp add: long_record_at)
  show "selected [[0x0A, 0, 0, 0xFF, 0xFF]] 0x0100"
    by (simp add: selected_def covers_def elem_type_def elem_size_def u16_at_def)
qed (use sample_elems all_ids in \<open>simp_all add: length_long_value sdp_start_def SDP_RESPONSE_BUFFER_SIZE_def\<close>)

subsection \<open>A request without its continuation state\<close>

definition search_attribute_request :: "u16 \<Rightarrow> bytes \<Rightarrow> u16 \<Rightarrow> bytes \<Rightarrow> bytes \<Rightarrow> bytes" where
  "search_attribute_request tid pat mx idl cont =
     6 # be16 tid @ be16 (of_nat (length pat + 2 + length idl + length cont)) @ pat @ be16 mx @ idl @ cont"

lemma search_attribute_request_parts:
  fixes tid pat mx idl cont
  defines "pk \<equiv> search_attribute_request tid pat mx idl cont"
  shows "holds_at pk 1 (be16 tid)" "holds_at pk 3 (be16 (of_nat (length pat + 2 + length idl + length cont)))"
    "holds_at pk 5 pat" "holds_at pk (5 + int (length pat)) (be16 mx)" "holds_at pk (5 + int (length pat) + 2) idl"
    "holds_at pk (5 + int (length pat) + 2 + int (length idl)) cont"
    "length pk = 7 + length pat + length idl + length cont"
proof -
  have "holds_at pk 0 ([6] @ be16 tid @ be16 (of_nat (length pat + 2 + length idl + length cont)) @ pat @ be16 mx @ idl @ cont)"
    by (simp add: pk_def search_attribute_request_def holds_at_self)
  then show "holds_at pk 1 (be16 tid)" "holds_at pk 3 (be16 (of_nat (length pat + 2 + length idl + length cont)))"
    "holds_at pk 5 pat" "holds_at pk (5 + int (length pat)) (be16 mx)" "holds_at pk (5 + int (length pat) + 2) idl"
    "holds_at pk (5 + int (length pat) + 2 + int (length idl)) cont"
    by (simp_all only: holds_at_append) simp_all
qed (simp add: pk_def search_attribute_request_def)

text \<open>
  The check that the continuation state is in the request counts the ID list twice: a request
  that ends with its ID list passes it, and the server reads past the end of the packet.
\<close>

theorem missing_continuation_overreads:
  assumes pat: "des_fits c (length pd)" "pat = des_bytes c pd"
    and ids: "des_fits c' (length ld)" "idl = des_bytes c' ld"
    and len: "length pat + 2 + length idl < 65536"
  shows "sdp_handle_service_search_attribute_request n s (search_attribute_request tid pat mx idl []) mtu = Some Undef"
proof -
  let ?pk = "search_attribute_request tid pat mx idl []"
  note at = search_attribute_request_parts [of tid pat mx idl "[]"]
  define P :: u16 where "P = of_nat (length pat + 2 + length idl + length ([] :: bytes))"
  define A :: u16 where "A = of_nat (length pat)"
  define L :: u16 where "L = of_nat (length idl)"
  have u: "unat P = length pat + 2 + length idl" "unat A = length pat" "unat L = length idl"
    "uint A = int (length pat)" "uint L = int (length idl)"
    unfolding P_def A_def L_def using len by (subst u16_of_nat uint_u16_of_nat; simp)+
  have PA: "unat (P - A) = 2 + length idl" and P2: "unat (P - A - 2) = length idl"
  proof -
    have e: "P - A = of_nat (2 + length idl)" "P - A - 2 = of_nat (length idl)" by (simp_all add: P_def A_def)
    show "unat (P - A) = 2 + length idl" unfolding e(1) using len by (subst u16_of_nat) simp_all
    show "unat (P - A - 2) = length idl" unfolding e(2) using len by (subst u16_of_nat) simp_all
  qed
  have reads: "big_endian_read_16 ?pk 0 1 = Ret (ucast tid)" "big_endian_read_16 ?pk 0 3 = Ret (ucast P)"
    "big_endian_read_16 ?pk 0 (5 + uint A) = Ret (ucast mx)"
    unfolding u(4) using at(1,2,4) by (simp_all add: read_16 P_def)
  have "length pat \<le> unat (ucast P :: u32)" "length idl \<le> unat (ucast (P - A - 2) :: u32)"
    unfolding unat_ucast_u16 u(1) P2 by simp_all
  then have safe: "de_get_len_safe ?pk 5 (ucast P) = Ret (of_nat (length pat))"
    "de_get_len_safe ?pk (5 + uint A + 2) (ucast (P - A - 2)) = Ret (of_nat (length idl))"
    using at(3,5) unfolding u(4) pat(2) ids(2) by (intro des_len_safe pat(1) ids(1); simp)+
  have cast: "ucast (of_nat (length pat) :: u32) = A" "ucast (of_nat (length idl) :: u32) = L"
    using len by (simp_all add: A_def L_def)
  have nz: "A \<noteq> 0" "L \<noteq> 0" "\<not> P - A < 2" "\<not> P - A - 2 < 1"
  proof -
    have ne: "0 < length pat" "0 < length idl" by (simp_all add: pat(2) ids(2) des_bytes_def des_header_def)
    then show "A \<noteq> 0" "L \<noteq> 0" using u(2,3) by auto
    show "\<not> P - A < 2" "\<not> P - A - 2 < 1" using PA P2 ne by (simp_all add: word_less_nat_alt)
  qed
  have over: "rd ?pk (5 + uint A + 2 + uint L) = Undef" unfolding u(4,5) using at(7) by (simp add: rd_def)
  show ?thesis
    unfolding sdp_handle_service_search_attribute_request_def
    by (simp only: reads bind_result_simps Let_def ucast_u16_back nz if_False safe cast over
        cong: bind_result_weak_cong let_weak_cong)
qed

theorem missing_continuation_overreads_witness:
  "sdp_handle_service_search_attribute_request 3 sample_server
     (search_attribute_request 1 [0x35, 3, 0x19, 0x11, 0x01] 7 all_ids []) 48 = Some Undef"
  by (rule missing_continuation_overreads [where c = 5 and pd = "[0x19, 0x11, 0x01]", OF _ _ all_ids(2) all_ids_def])
     (simp_all add: des_bytes_def des_header_def des_fits_def all_ids)

end
