(* ===== verification/SdpExchange.thy ===== *)
theory SdpExchange
  imports SdpAnswers
begin

text \<open>
  What the SDP server answers to a request for the attributes of all records that match a pattern:
  the fields of the request as the handler reads them, and the whole answer when it fits in one
  response.
\<close>

subsection \<open>The fields of the request\<close>

text \<open>The record and the offset at which a request starts, from its continuation state.\<close>

definition continued :: "bytes \<Rightarrow> u16 \<times> u16" where
  "continued cont = (if hd cont = 4 then (u16_at cont 1, u16_at cont 3) else (0, 0))"

text \<open>
  What the handler does with the fields: the pattern of the packet is at 5, its ID list at \<open>ids\<close>, the
  rest are values.
\<close>

definition search_attributes :: "nat \<Rightarrow> sdp_server \<Rightarrow> bytes \<Rightarrow> int \<Rightarrow> u16 \<Rightarrow> u16 \<Rightarrow> u16 \<times> u16 \<Rightarrow> (bytes \<times> int) result" where
  "search_attributes n s packet ids tid room start =
     (let buf = sdp_response_buffer s in
     bind_result
       (if start = (0, 0) then
          bind_result (sdp_get_size_for_service_search_attribute_response n packet 5 ids (sdp_service_records s) 0) (\<lambda>total.
          bind_result (Some (de_store_descriptor_with_len buf 7 DE_DES DE_SIZE_VAR_16 (ucast total))) (\<lambda>buf.
          Some (Ret (buf, 10, room - 3))))
        else Some (Ret (buf, 7, room))) (\<lambda>(buf, pos, room).
     bind_result (attributes_loop n packet 5 ids (fst start) (sdp_service_records s)
       \<lparr>as_buffer = buf, as_pos = pos, as_room = room, as_index = 0, as_offset = snd start,
        as_first = True, as_continuation = False\<rparr>) (\<lambda>st.
     Some (attributes_finish tid st))))"

lemma search_attribute_request_parsed:
  fixes mx tid mtu :: u16
  assumes pat: "des_fits c (length pd)" "pat = des_bytes c pd"
    and ids: "des_fits c' (length ld)" "idl = des_bytes c' ld"
    and cont: "cont = cl # st" "length st = unat cl"
    and len: "length pat + 2 + length idl + length cont < 65536"
  defines "pk \<equiv> search_attribute_request tid pat mx idl cont"
  shows "sdp_handle_service_search_attribute_request n s pk mtu =
    search_attributes n s pk (5 + int (length pat) + 2) tid (if mtu - 12 < mx then mtu - 12 else mx) (continued cont)"
proof -
  note at = search_attribute_request_parts [of tid pat mx idl cont, folded pk_def]
  define P :: u16 where "P = of_nat (length pat + 2 + length idl + length cont)"
  define A :: u16 where "A = of_nat (length pat)"
  define L :: u16 where "L = of_nat (length idl)"
  have u: "unat A = length pat" "unat L = length idl" "uint A = int (length pat)" "uint L = int (length idl)"
    "unat P = length pat + 2 + length idl + length cont"
    unfolding P_def A_def L_def using len by (subst u16_of_nat uint_u16_of_nat; simp)+
  have PA: "unat (P - A) = 2 + length idl + length cont" and P2: "unat (P - A - 2) = length idl + length cont"
    and P2i: "uint (P - A - 2) = int (length idl + length cont)"
  proof -
    have e: "P - A = of_nat (2 + length idl + length cont)" "P - A - 2 = of_nat (length idl + length cont)"
      by (simp_all add: P_def A_def)
    show "unat (P - A) = 2 + length idl + length cont" unfolding e(1) using len by (subst u16_of_nat) simp_all
    show "unat (P - A - 2) = length idl + length cont" "uint (P - A - 2) = int (length idl + length cont)"
      unfolding e(2) using len by (subst u16_of_nat uint_u16_of_nat; simp)+
  qed
  have reads: "big_endian_read_16 pk 0 1 = Ret (ucast tid)" "big_endian_read_16 pk 0 3 = Ret (ucast P)"
    "big_endian_read_16 pk 0 (5 + uint A) = Ret (ucast mx)"
    unfolding u(3) using at(1,2,4) by (simp_all add: read_16 P_def)
  have "length pat \<le> unat (ucast P :: u32)" "length idl \<le> unat (ucast (P - A - 2) :: u32)"
    unfolding unat_ucast_u16 u(5) P2 by simp_all
  then have safe: "de_get_len_safe pk 5 (ucast P) = Ret (of_nat (length pat))"
    "de_get_len_safe pk (5 + uint A + 2) (ucast (P - A - 2)) = Ret (of_nat (length idl))"
    using at(3,5) unfolding u(3) pat(2) ids(2) by (intro des_len_safe pat(1) ids(1); simp)+
  have cast: "ucast (of_nat (length pat) :: u32) = A" "ucast (of_nat (length idl) :: u32) = L"
    using len by (simp_all add: A_def L_def)
  have nz: "A \<noteq> 0" "L \<noteq> 0" "\<not> P - A < 2" "\<not> P - A - 2 < 1"
  proof -
    have ne: "0 < length pat" "0 < length idl" by (simp_all add: pat(2) ids(2) des_bytes_def des_header_def)
    then show "A \<noteq> 0" "L \<noteq> 0" using u(1,2) by auto
    show "\<not> P - A < 2" "\<not> P - A - 2 < 1" using PA P2 ne by (simp_all add: word_less_nat_alt)
  qed
  let ?cp = "5 + uint A + 2 + uint L"
  have at6: "holds_at pk ?cp cont" using at(6) unfolding u(3,4) .
  have cl: "rd pk ?cp = Ret cl" using at6 unfolding cont(1) by (simp add: holds_at_Cons)
  have clR: "\<not> 1 + uint cl > uint (P - A - 2)" unfolding P2i cont(1) using uint_nat [of cl] cont(2) by (simp only: list.size)
  have start: "(if cl = 4 then
       bind_result (Some (big_endian_read_16 pk ?cp 1)) (\<lambda>i.
       bind_result (Some (big_endian_read_16 pk ?cp 3)) (\<lambda>off. Some (Ret (ucast i, ucast off))))
     else Some (Ret (0, 0))) = Some (Ret (continued cont))"
  proof (cases "cl = 4")
    case True
    have len: "length cont = 5" using cont True by simp
    have "big_endian_read_16 pk ?cp (int 1) = Ret (ucast (u16_at cont 1))" by (rule read_u16_elem [OF at6]) (simp add: len)
    moreover have "big_endian_read_16 pk ?cp (int 3) = Ret (ucast (u16_at cont 3))" by (rule read_u16_elem [OF at6]) (simp add: len)
    ultimately have r: "big_endian_read_16 pk ?cp 1 = Ret (ucast (u16_at cont 1))" "big_endian_read_16 pk ?cp 3 = Ret (ucast (u16_at cont 3))"
      by simp_all
    have c: "continued cont = (u16_at cont 1, u16_at cont 3)" using True cont(1) by (simp add: continued_def)
    show ?thesis unfolding r c by (simp add: True)
  qed (simp add: continued_def cont(1))
  show ?thesis
    unfolding sdp_handle_service_search_attribute_request_def
    apply (simp only: reads bind_result_simps Let_def ucast_u16_back nz if_False safe cast cl clR start
        cong: bind_result_weak_cong let_weak_cong)
    apply (cases "continued cont")
    apply (simp add: search_attributes_def Let_def u(3))
    done
qed


subsection \<open>The whole answer in one response\<close>

text \<open>
  A record as a tree of elements, which the pattern is compared with, and as a list of attributes,
  which the ID list selects from.
\<close>

type_synonym entry = "byte \<times> element list \<times> (u16 \<times> bytes) list"

definition entry_at :: "nat \<Rightarrow> bytes \<Rightarrow> entry \<Rightarrow> bool" where
  "entry_at n m = (\<lambda>(cls, ts, as). wf (Seq cls ts) \<and> holds_at m 0 (enc (Seq cls ts)) \<and> nodes (Seq cls ts) \<le> n \<and>
     record_at m 0 cls as \<and> length (attrs_bytes as) < 65536 \<and> length as < n)"

definition entry_matches :: "bytes list \<Rightarrow> entry \<Rightarrow> bool" where
  "entry_matches us = (\<lambda>(cls, ts, as). \<forall>u \<in> set us. \<exists>v. uuid_of u = Some v \<and> v \<in> uuids (Seq cls ts))"

definition entry_answer :: "bytes list \<Rightarrow> entry \<Rightarrow> bytes" where
  "entry_answer ids = (\<lambda>(cls, ts, as). answer (sel ids as))"

definition answers :: "bytes list \<Rightarrow> bytes list \<Rightarrow> entry list \<Rightarrow> bytes" where
  "answers us ids es = concat (map (entry_answer ids) (filter (entry_matches us) es))"

lemma answers_simps [simp]:
  "answers us ids [] = []"
  "answers us ids (e # es) = (if entry_matches us e then entry_answer ids e else []) @ answers us ids es"
  by (simp_all add: answers_def)

text \<open>A pattern and an ID list in a packet.\<close>

definition asks :: "nat \<Rightarrow> bytes \<Rightarrow> int \<Rightarrow> bytes list \<Rightarrow> bytes list \<Rightarrow> bool" where
  "asks n packet a us ids \<longleftrightarrow>
     (\<exists>c. holds_at packet 5 (des_bytes c (concat us)) \<and> des_fits c (length (concat us))) \<and> (\<forall>u \<in> set us. elem_ok u) \<and>
     length us < n \<and> ids_at packet a ids \<and> length ids < n"

lemma entry_matched:
  assumes "asks n packet a us ids" "entry_at n m e"
  shows "sdp_record_matches_service_search_pattern n m 0 packet 5 = Some (Ret (entry_matches us e))"
proof -
  obtain cls ts as where e: "e = (cls, ts, as)" by (cases e) auto
  obtain c where "holds_at packet 5 (des_bytes c (concat us))" "des_fits c (length (concat us))" "\<forall>u \<in> set us. elem_ok u" "length us < n"
    using assms(1) by (auto simp: asks_def)
  from matches [OF _ _ _ this, of cls ts m 0] show ?thesis
    using assms(2) by (simp only: e entry_at_def entry_matches_def prod.case)
qed

lemma entry_size:
  assumes "asks n packet a us ids" "entry_at n m e"
  shows "spd_get_filtered_size n m 0 packet a = Some (Ret (of_nat (length (entry_answer ids e) - 3)))"
    "length (entry_answer ids e) = 3 + (length (entry_answer ids e) - 3)" "length (entry_answer ids e) - 3 < 65536"
proof -
  obtain cls ts as where e: "e = (cls, ts, as)" by (cases e) auto
  have a: "length (entry_answer ids e) = 3 + length (sel ids as)" by (simp add: e entry_answer_def answer_def answer_header)
  show "spd_get_filtered_size n m 0 packet a = Some (Ret (of_nat (length (entry_answer ids e) - 3)))"
    unfolding a using assms filtered_size [of m 0 cls as n packet a ids] by (simp add: e asks_def entry_at_def)
  show "length (entry_answer ids e) = 3 + (length (entry_answer ids e) - 3)" "length (entry_answer ids e) - 3 < 65536"
    unfolding a using assms(2) sel_length [of ids as] by (simp_all add: e entry_at_def)
qed

lemma answers_size:
  assumes "asks n packet a us ids" "list_all2 (\<lambda>item e. entry_at n (service_record item) e) items es"
  shows "sdp_get_size_for_service_search_attribute_response n packet 5 a items (of_nat t) =
    Some (Ret (of_nat (t + length (answers us ids es))))"
  using assms(2)
proof (induction arbitrary: t rule: list_all2_induct)
  case (Cons item items e es)
  have IH: "sdp_get_size_for_service_search_attribute_response n packet 5 a items (of_nat t') =
      Some (Ret (of_nat (t' + length (answers us ids es))))" for t' by (rule Cons.IH)
  have "(of_nat t + (3 + of_nat (length (entry_answer ids e) - 3)) :: u16) = of_nat (t + (3 + (length (entry_answer ids e) - 3)))"
    by (simp only: of_nat_add of_nat_numeral)
  then have sum: "(of_nat t + (3 + of_nat (length (entry_answer ids e) - 3)) :: u16) = of_nat (t + length (entry_answer ids e))"
    using entry_size(2) [OF assms(1) Cons.hyps(1)] by simp
  show ?case
    using entry_matched [OF assms(1) Cons.hyps(1)] entry_size(1) [OF assms(1) Cons.hyps(1)]
    by (simp add: sum IH add.assoc del: of_nat_add)
qed simp

text \<open>One matching record, with room for its attributes.\<close>

lemma entry_written:
  assumes "asks n packet a us ids" "entry_at n m e"
    and room: "length (entry_answer ids e) \<le> r" "r < 65536" "0 \<le> b" "b + int r \<le> int (length buf)"
  obtains buf1 buf2 where
    "de_store_descriptor_with_len buf b DE_DES DE_SIZE_VAR_16 (ucast (of_nat (length (entry_answer ids e) - 3) :: u16)) = Ret buf1"
    "sdp_filter_attributes_in_attributeIDList n m 0 packet a 0 (of_nat (r - 3)) buf1 (b + 3) =
       Some (Ret (buf2, of_nat (length (entry_answer ids e) - 3), True))"
    "holds_at buf2 b (entry_answer ids e)" "kept b buf buf2"
proof -
  obtain cls ts as where e: "e = (cls, ts, as)" by (cases e) auto
  let ?xs = "sel ids as"
  have ans: "entry_answer ids e = des_header 6 (length ?xs) @ ?xs" "length (entry_answer ids e) - 3 = length ?xs"
    by (simp_all add: e entry_answer_def answer_def answer_header)
  have len: "length ?xs < 65536" "length ?xs \<le> r - 3" "3 \<le> r"
    using room(1,2) by (simp_all add: ans(1) answer_header)
  have b3: "b + 3 \<le> int (length buf)" using room(4) len(3) by linarith
  obtain buf1 where buf1: "de_store_descriptor_with_len buf b DE_DES DE_SIZE_VAR_16 (ucast (of_nat (length ?xs) :: u16)) = Ret buf1"
      "holds_at buf1 b (des_header 6 (length ?xs))" "kept b buf buf1"
    by (rule des16_written [OF room(3) b3 len(1)]) (rule that)
  have r3: "unat (of_nat (r - 3) :: u16) = r - 3" using room(2) by (intro u16_of_nat) simp
  have win: "0 \<le> b + 3" "b + 3 + int (unat (of_nat (r - 3) :: u16)) \<le> int (length buf1)"
    unfolding r3 using room(3,4) len(3) kept_length [OF buf1(3)] by simp_all
  have rec: "record_at m 0 cls as" "length (attrs_bytes as) < 65536" "length as < n"
    using assms(2) by (simp_all add: e entry_at_def)
  have idl: "ids_at packet a ids" "length ids < n" using assms(1) by (simp_all add: asks_def)
  from filter_attributes [OF rec idl win, of 0] obtain buf2 where
      buf2: "sdp_filter_attributes_in_attributeIDList n m 0 packet a 0 (of_nat (r - 3)) buf1 (b + 3) =
        Some (Ret (buf2, of_nat (length ?xs), True))" "holds_at buf2 (b + 3) ?xs" "kept (b + 3) buf1 buf2"
    unfolding r3 using len(2) by auto
  have "holds_at buf2 b (des_header 6 (length ?xs))" by (rule kept_holds [OF buf2(3) buf1(2)]) (simp add: answer_header)
  then have "holds_at buf2 b (entry_answer ids e)" using buf2(2) unfolding ans(1) holds_at_append by (simp add: answer_header)
  moreover have "kept b buf buf2" using kept_trans [OF buf1(3) buf2(3)] by simp
  ultimately show thesis using buf1(1) buf2(1) by (intro that) (simp_all add: ans(2))
qed

lemma answers_written:
  assumes "asks n packet a us ids" "list_all2 (\<lambda>item e. entry_at n (service_record item) e) items es"
    and "length (answers us ids es) \<le> r" "r < 65536" "q + r \<le> length buf" "length buf < 65536"
    and "as_buffer s = buf" "as_pos s = of_nat q" "as_room s = of_nat r" "as_offset s = 0" "\<not> as_continuation s"
  shows "\<exists>s'. attributes_loop n packet 5 a 0 items s = Some (Ret s') \<and> as_pos s' = of_nat (q + length (answers us ids es)) \<and>
    \<not> as_continuation s' \<and> holds_at (as_buffer s') (int q) (answers us ids es) \<and> kept (int q) buf (as_buffer s')"
  using assms(2-)
proof (induction arbitrary: s q r buf rule: list_all2_induct)
  case Nil
  have "q \<le> length buf" using Nil.prems(3) by simp
  with Nil.prems show ?case by (auto simp: holds_at_def)
next
  case (Cons item items e es)
  note m = entry_matched [OF assms(1) Cons.hyps(1)]
  show ?case
  proof (cases "entry_matches us e")
    case False
    have "\<exists>s'. attributes_loop n packet 5 a 0 items (s\<lparr>as_index := as_index s + 1\<rparr>) = Some (Ret s') \<and>
        as_pos s' = of_nat (q + length (answers us ids es)) \<and> \<not> as_continuation s' \<and>
        holds_at (as_buffer s') (int q) (answers us ids es) \<and> kept (int q) buf (as_buffer s')"
      by (rule Cons.IH) (use Cons.prems False in simp_all)
    then show ?thesis using m False by simp
  next
    case True
    let ?k = "length (entry_answer ids e)"
    have k: "3 \<le> ?k" "?k - 3 < 65536" "?k \<le> r" "length (answers us ids es) \<le> r - ?k"
      using entry_size(2,3) [OF assms(1) Cons.hyps(1)] Cons.prems(1) True by simp_all
    have fit: "int q + int r \<le> int (length buf)" using Cons.prems(3) by linarith
    obtain b1 b2 where b: "de_store_descriptor_with_len buf (int q) DE_DES DE_SIZE_VAR_16 (ucast (of_nat (?k - 3) :: u16)) = Ret b1"
        "sdp_filter_attributes_in_attributeIDList n (service_record item) 0 packet a 0 (of_nat (r - 3)) b1 (int q + 3) =
          Some (Ret (b2, of_nat (?k - 3), True))"
        "holds_at b2 (int q) (entry_answer ids e)" "kept (int q) buf b2"
      by (rule entry_written [OF assms(1) Cons.hyps(1) k(3) Cons.prems(2) _ fit]) (simp, rule that)
    have q: "uint (of_nat q :: u16) = int q" "uint (of_nat q + 3 :: u16) = int q + 3"
    proof -
      show "uint (of_nat q :: u16) = int q" using Cons.prems(3,4) by (intro uint_u16_of_nat) simp
      have "uint (of_nat (q + 3) :: u16) = int (q + 3)" using Cons.prems(3,4) k by (intro uint_u16_of_nat) simp
      then show "uint (of_nat q + 3 :: u16) = int q + 3" by simp
    qed
    have r: "uint (of_nat r :: u16) = int r" "(of_nat r - 3 :: u16) = of_nat (r - 3)"
      "(of_nat (r - 3) - of_nat (?k - 3) :: u16) = of_nat (r - ?k)" "(of_nat q + 3 + of_nat (?k - 3) :: u16) = of_nat (q + ?k)"
      using Cons.prems(2) k by (simp_all add: uint_u16_of_nat of_nat_diff)
    have sz: "uint (of_nat (?k - 3) :: u16) = int ?k - 3" using k by (subst uint_u16_of_nat) simp_all
    have nfit: "\<not> int ?k - 3 + 3 > int r" using k(3) by simp
    let ?s = "s\<lparr>as_first := False, as_buffer := b2, as_pos := of_nat (q + ?k), as_room := of_nat (r - ?k), as_offset := 0,
      as_index := as_index s + 1\<rparr>"
    have "\<exists>s'. attributes_loop n packet 5 a 0 items ?s = Some (Ret s') \<and>
        as_pos s' = of_nat (q + ?k + length (answers us ids es)) \<and> \<not> as_continuation s' \<and>
        holds_at (as_buffer s') (int (q + ?k)) (answers us ids es) \<and> kept (int (q + ?k)) b2 (as_buffer s')"
      by (rule Cons.IH [where r = "r - ?k"]) (use Cons.prems k kept_length [OF b(4)] in simp_all)
    then obtain s' where s': "attributes_loop n packet 5 a 0 items ?s = Some (Ret s')"
        "as_pos s' = of_nat (q + ?k + length (answers us ids es))" "\<not> as_continuation s'"
        "holds_at (as_buffer s') (int (q + ?k)) (answers us ids es)" "kept (int (q + ?k)) b2 (as_buffer s')" by blast
    have step: "attributes_loop n packet 5 a 0 (item # items) s = attributes_loop n packet 5 a 0 items ?s"
      using m True Cons.prems(5-9) entry_size(1) [OF assms(1) Cons.hyps(1)] b(1,2) nfit
      by (simp only: attributes_loop.simps q r sz Let_def bind_result_simps if_True if_False simp_thms)
        (simp, simp only: q bind_result_simps prod.case if_True, simp add: r(3,4))
    have "holds_at (as_buffer s') (int q) (entry_answer ids e)" by (rule kept_holds [OF s'(5) b(3)]) simp
    then show ?thesis
      using s' step True kept_trans [OF b(4) s'(5)] by (simp add: holds_at_append add.assoc)
  qed
qed


lemma search_attributes_answer:
  assumes asks: "asks n packet a us ids"
    and es: "list_all2 (\<lambda>item e. entry_at n (service_record item) e) (sdp_service_records s) es"
    and room: "3 + length (answers us ids es) \<le> unat room" "11 + length (answers us ids es) \<le> length (sdp_response_buffer s)"
      "7 + unat room \<le> length (sdp_response_buffer s)" "length (sdp_response_buffer s) < 65536"
  shows "\<exists>buf. search_attributes n s packet a tid room (0, 0) = Some (Ret (buf, 11 + int (length (answers us ids es)))) \<and>
    holds_at buf 0 (response 7 tid (answer (answers us ids es)) [0]) \<and> length buf = length (sdp_response_buffer s)"
proof -
  let ?xs = "answers us ids es" and ?buf = "sdp_response_buffer s"
  have b: "(0 :: int) \<le> 7" "7 + 3 \<le> int (length ?buf)" "length ?xs < 65536" using room by simp_all
  obtain b1 where b1: "de_store_descriptor_with_len ?buf 7 DE_DES DE_SIZE_VAR_16 (ucast (of_nat (length ?xs) :: u16)) = Ret b1"
      "holds_at b1 7 (des_header 6 (length ?xs))" "kept 7 ?buf b1"
    by (rule des16_written [OF b]) (rule that)
  have r3: "room - 3 = of_nat (unat room - 3)" using room(1) by (simp add: of_nat_diff)
  let ?s = "\<lparr>as_buffer = b1, as_pos = 10, as_room = room - 3, as_index = 0, as_offset = 0, as_first = True, as_continuation = False\<rparr>"
  have "\<exists>s'. attributes_loop n packet 5 a 0 (sdp_service_records s) ?s = Some (Ret s') \<and> as_pos s' = of_nat (10 + length ?xs) \<and>
      \<not> as_continuation s' \<and> holds_at (as_buffer s') (int 10) ?xs \<and> kept (int 10) b1 (as_buffer s')"
    by (rule answers_written [OF asks es, where r = "unat room - 3"])
       (use room kept_length [OF b1(3)] unat_u16_less [of room] in \<open>simp_all add: r3 [symmetric]\<close>)
  then obtain s' where s': "attributes_loop n packet 5 a 0 (sdp_service_records s) ?s = Some (Ret s')"
      "as_pos s' = of_nat (10 + length ?xs)" "\<not> as_continuation s'" "holds_at (as_buffer s') 10 ?xs" "kept 10 b1 (as_buffer s')"
    by auto
  let ?out = "answer ?xs"
  have len: "length ?out = 3 + length ?xs" "length (as_buffer s') = length ?buf"
    using kept_length [OF s'(5)] kept_length [OF b1(3)] by (simp_all add: answer_def answer_header)
  have "holds_at (as_buffer s') 7 (des_header 6 (length ?xs))" by (rule kept_holds [OF s'(5) b1(2)]) (simp add: answer_header)
  then have out: "holds_at (as_buffer s') 7 ?out" using s'(4) unfolding answer_def holds_at_append by (simp add: answer_header)
  have fits: "7 + length ?out + length ([0] :: bytes) \<le> length (as_buffer s')" "length (as_buffer s') < 65536"
    using room(2,4) len by simp_all
  obtain b2 b3 b4 where fin: "wr_block (as_buffer s') (7 + int (length ?out)) [0] = Ret b2"
      "response_header b2 7 tid (of_nat (7 + length ?out + length ([0] :: bytes))) = Ret b3"
      "big_endian_store_16 b3 0 5 (of_nat (length ?out)) = Ret b4"
      "holds_at b4 0 (response 7 tid ?out [0])" "length b4 = length (as_buffer s')"
    by (rule response_written [OF out fits])
  have pos: "uint (as_pos s') = 7 + int (length ?out)" "as_pos s' + 1 = of_nat (7 + length ?out + length ([0] :: bytes))"
    "as_pos s' - 7 = of_nat (length ?out)" "uint (of_nat (7 + length ?out + length ([0] :: bytes)) :: u16) = 11 + int (length ?xs)"
  proof -
    show "uint (as_pos s') = 7 + int (length ?out)" unfolding s'(2) using fits len by (subst uint_u16_of_nat) simp_all
    show "uint (of_nat (7 + length ?out + length ([0] :: bytes)) :: u16) = 11 + int (length ?xs)"
      using fits len by (subst uint_u16_of_nat) simp_all
    show "as_pos s' + 1 = of_nat (7 + length ?out + length ([0] :: bytes))" "as_pos s' - 7 = of_nat (length ?out)"
      by (simp_all add: s'(2) len(1))
  qed
  have "attributes_finish tid s' = Ret (b4, 11 + int (length ?xs))"
    unfolding attributes_finish_def Let_def using s'(3) fin(1-3)
    by (simp only: if_False wr_as_block pos bind_outcome_simps prod.case)
  moreover have "sdp_get_size_for_service_search_attribute_response n packet 5 a (sdp_service_records s) 0 = Some (Ret (of_nat (length ?xs)))"
    using answers_size [OF asks es, of 0] by simp
  ultimately have "search_attributes n s packet a tid room (0, 0) = Some (Ret (b4, 11 + int (length ?xs)))"
    unfolding search_attributes_def Let_def by (simp add: b1(1) s'(1))
  then show ?thesis using fin(4,5) len(2) by auto
qed

text \<open>What the handler of requests does with a response.\<close>

definition store_response :: "sdp_server \<Rightarrow> (bytes \<times> int) result \<Rightarrow> (sdp_server \<times> sdp_action list) result" where
  "store_response s r =
     bind_result r (\<lambda>(buf, response_size).
     let s = s\<lparr>sdp_response_buffer := buf, sdp_response_size := word_of_int response_size\<rparr> in
     Some (Ret (s, if sdp_response_size s = 0 then [] else [RequestCanSendNow (l2cap_cid s)])))"

lemma handle_search_attribute_request:
  fixes tid mx mtu :: u16
  assumes pat: "des_fits c (length pd)" "pat = des_bytes c pd"
    and ids: "des_fits c' (length ld)" "idl = des_bytes c' ld"
    and cont: "cont = cl # st" "length st = unat cl"
    and len: "7 + length pat + length idl + length cont < 65536" and mtu: "unat mtu \<le> SDP_RESPONSE_BUFFER_SIZE"
  defines "pk \<equiv> search_attribute_request tid pat mx idl cont"
  shows "handle_request n s pk (of_nat (length pk)) mtu =
    store_response s (search_attributes n s pk (7 + int (length pat)) tid (if mtu - 12 < mx then mtu - 12 else mx) (continued cont))"
proof -
  note at = search_attribute_request_parts [of tid pat mx idl cont, folded pk_def]
  let ?P = "of_nat (length pat + 2 + length idl + length cont) :: u16"
  have reads: "rd pk 0 = Ret 6" "big_endian_read_16 pk 0 1 = Ret (ucast tid)" "big_endian_read_16 pk 0 3 = Ret (ucast ?P)"
    using at(1,2) by (simp_all add: read_16) (simp add: pk_def search_attribute_request_def rd_def)
  have "uint ?P = int (length pat + 2 + length idl + length cont)" using len by (subst uint_u16_of_nat) simp_all
  moreover have "uint (of_nat (length pk) :: u16) = int (length pk)" using len at(7) by (subst uint_u16_of_nat) simp_all
  ultimately have lenok: "\<not> uint ?P + 5 > uint (of_nat (length pk) :: u16)" using at(7) by simp
  have "uint mtu \<le> int SDP_RESPONSE_BUFFER_SIZE" using mtu uint_nat [of mtu] by (simp only: of_nat_le_iff)
  then have nm: "\<not> uint mtu > int SDP_RESPONSE_BUFFER_SIZE" by simp
  have len': "length pat + 2 + length idl + length cont < 65536" using len by simp
  note parsed = search_attribute_request_parsed [OF pat ids cont len', of n s tid mx mtu, folded pk_def]
  show ?thesis
    unfolding handle_request_def Let_def store_response_def
    by (simp only: reads bind_result_simps ucast_u16_back lenok nm if_False) (simp add: parsed [simplified])
qed

text \<open>
  The server gets the request of a client that starts: it fills its buffer, asks to send, and when
  L2CAP lets it, sends the response with the attributes of all matching records.
\<close>

lemma search_attribute_exchange:
  fixes tid mx mtu :: u16
  assumes pat: "des_fits c (length (concat us))" "\<forall>u \<in> set us. elem_ok u" "length us < n" "pat = des_bytes c (concat us)"
    and ids: "des_fits c' (length (concat ids))" "\<forall>e \<in> set ids. elem_ok e" "length ids < n" "idl = des_bytes c' (concat ids)"
    and es: "list_all2 (\<lambda>item e. entry_at n (service_record item) e) (sdp_service_records s) es"
    and len: "8 + length pat + length idl < 65536"
    and room: "3 + length (answers us ids es) \<le> unat mx" "15 + length (answers us ids es) \<le> unat mtu"
      "unat mtu \<le> SDP_RESPONSE_BUFFER_SIZE" "length (sdp_response_buffer s) = SDP_RESPONSE_BUFFER_SIZE" "l2cap_cid s \<noteq> 0"
  defines "pk \<equiv> search_attribute_request tid pat mx idl [0]"
  shows "\<exists>s' s''. handle_request n s pk (of_nat (length pk)) mtu = Some (Ret (s', [RequestCanSendNow (l2cap_cid s)])) \<and>
    sdp_respond s' = Ret (s'', [L2capSend (l2cap_cid s) (response 7 tid (answer (answers us ids es)) [0])])"
proof -
  let ?a = "7 + int (length pat)" and ?xs = "answers us ids es"
  note at = search_attribute_request_parts [of tid pat mx idl "[0]", folded pk_def]
  define room where "room = (if mtu - 12 < mx then mtu - 12 else mx)"
  have size: "SDP_RESPONSE_BUFFER_SIZE < 65536" by (simp add: SDP_RESPONSE_BUFFER_SIZE_def)
  have m12: "unat (mtu - 12) = unat mtu - 12" using room(2) by (simp add: unat_sub word_le_nat_alt)
  have r: "3 + length ?xs \<le> unat room" "unat room + 12 \<le> unat mtu"
    using room(1,2) m12 by (auto simp: room_def word_less_nat_alt split: if_splits)
  have asks: "asks n pk ?a us ids"
    using pat ids at(3,5) unfolding asks_def ids_at_def by (auto simp: add.commute add.left_commute)
  have "continued [0] = (0, 0)" by (simp add: continued_def)
  then have parsed: "handle_request n s pk (of_nat (length pk)) mtu =
      store_response s (search_attributes n s pk (7 + int (length pat)) tid room (0, 0))"
    using handle_search_attribute_request [OF pat(1,4) ids(1,4), where cont = "[0]" and cl = 0 and st = "[]" and mtu = mtu and tid = tid and
        mx = mx and n = n and s = s] len room(3)
    by (simp add: pk_def room_def)
  have fits: "11 + length ?xs \<le> length (sdp_response_buffer s)" "7 + unat room \<le> length (sdp_response_buffer s)"
      "length (sdp_response_buffer s) < 65536"
    using room(2,3) r(2) size unfolding room(4) by linarith+
  obtain buf where buf: "search_attributes n s pk ?a tid room (0, 0) = Some (Ret (buf, 11 + int (length ?xs)))"
      "holds_at buf 0 (response 7 tid (answer ?xs) [0])" "length buf = length (sdp_response_buffer s)"
    using search_attributes_answer [OF asks es r(1) fits, of tid] by blast
  let ?sz = "word_of_int (11 + int (length ?xs)) :: u16" and ?rsp = "response 7 tid (answer ?xs) [0]"
  have sz: "?sz = of_nat (11 + length ?xs)" by simp
  have usz: "unat ?sz = 11 + length ?xs" unfolding sz using fits by (subst u16_of_nat) simp_all
  then have nz: "?sz \<noteq> 0" by (metis add_is_0 unat_0 zero_neq_numeral)
  let ?s' = "s\<lparr>sdp_response_buffer := buf, sdp_response_size := ?sz\<rparr>"
  have "handle_request n s pk (of_nat (length pk)) mtu = Some (Ret (?s', [RequestCanSendNow (l2cap_cid s)]))"
    using nz unfolding parsed buf(1) by (simp add: store_response_def Let_def del: of_int_add)
  moreover have "length ?rsp = 11 + length ?xs" by (simp add: answer_def answer_header)
  then have "rd_block buf 0 (unat ?sz) = Ret ?rsp" using buf(2) usz by (intro holds_at_block) simp_all
  then have "sdp_respond ?s' = Ret (?s'\<lparr>sdp_response_size := 0\<rparr>, [L2capSend (l2cap_cid s) ?rsp])"
    using nz room(5) by (simp add: sdp_respond_def del: of_int_add)
  ultimately show ?thesis by blast
qed

end
