(* ===== verification/Wp.thy ===== *)
theory Wp
  imports Util
begin

text \<open>
  Safety of code with outcomes, from the results backwards: \<open>returns m P\<close> says that \<open>m\<close> is
  defined and that its result satisfies \<open>P\<close>.  The rules of the collection \<open>wp\<close> take a goal about
  a sequence of calls apart into the bounds of its accesses.
\<close>

named_theorems wp \<open>weakest preconditions of outcomes\<close>

definition returns :: "'a outcome \<Rightarrow> ('a \<Rightarrow> bool) \<Rightarrow> bool" where
  "returns m P \<longleftrightarrow> (case m of Undef \<Rightarrow> False | Ret x \<Rightarrow> P x)"

lemma returns_simps [simp]: "returns (Ret x) P \<longleftrightarrow> P x" "\<not> returns Undef P"
  by (simp_all add: returns_def)

lemma returnsE:
  assumes "returns m P"
  obtains x where "m = Ret x" "P x"
  using assms by (cases m) auto

lemma returns_bind [wp]: "returns m (\<lambda>x. returns (f x) P) \<Longrightarrow> returns (bind_outcome m f) P"
  by (auto elim: returnsE)

lemma returns_bind_iff: "returns (bind_outcome m f) P \<longleftrightarrow> returns m (\<lambda>x. returns (f x) P)"
  by (cases m) simp_all

lemma returns_mono: "returns m P \<Longrightarrow> (\<And>x. m = Ret x \<Longrightarrow> P x \<Longrightarrow> Q x) \<Longrightarrow> returns m Q"
  by (auto elim: returnsE)

lemma returns_if [wp]:
  "(b \<Longrightarrow> returns m P) \<Longrightarrow> (\<not> b \<Longrightarrow> returns m' P) \<Longrightarrow> returns (if b then m else m') P"
  by simp

lemma returns_split [wp]: "(\<And>a b. x = (a, b) \<Longrightarrow> returns (f a b) P) \<Longrightarrow> returns (case x of (a, b) \<Rightarrow> f a b) P"
  by (cases x) simp

lemma returns_Ret [wp]: "P x \<Longrightarrow> returns (Ret x) P"
  by simp

subsection \<open>Accesses\<close>

lemma returns_rd [wp]:
  "0 \<le> p \<Longrightarrow> p < int (length m) \<Longrightarrow> (\<And>b. P b) \<Longrightarrow> returns (rd m p) P"
  by (simp add: rd_def)

lemma returns_wr [wp]:
  "0 \<le> p \<Longrightarrow> p < int (length m) \<Longrightarrow> (\<And>m'. length m' = length m \<Longrightarrow> P m') \<Longrightarrow> returns (wr m p v) P"
  by (simp add: wr_def)

lemma returns_rd_block [wp]:
  "0 \<le> p \<Longrightarrow> p + int n \<le> int (length m) \<Longrightarrow> (\<And>bs. length bs = n \<Longrightarrow> P bs) \<Longrightarrow> returns (rd_block m p n) P"
  by (simp add: rd_block_def)

lemma returns_wr_block [wp]:
  "0 \<le> p \<Longrightarrow> p + int (length bs) \<le> int (length m) \<Longrightarrow> (\<And>m'. length m' = length m \<Longrightarrow> P m') \<Longrightarrow>
    returns (wr_block m p bs) P"
  by (rule wr_block_Ret [of p bs m]) simp_all

text \<open>Numbers in a packet.\<close>

lemma returns_read_16 [wp]:
  "0 \<le> b + p \<Longrightarrow> b + p + 2 \<le> int (length m) \<Longrightarrow> (\<And>v. P v) \<Longrightarrow> returns (big_endian_read_16 m b p) P"
  "0 \<le> b + p \<Longrightarrow> b + p + 2 \<le> int (length m) \<Longrightarrow> (\<And>v. Q v) \<Longrightarrow> returns (little_endian_read_16 m b p) Q"
  by (auto simp: big_endian_read_16_def little_endian_read_16_def rd_def)

lemma returns_read_32 [wp]:
  "0 \<le> b + p \<Longrightarrow> b + p + 4 \<le> int (length m) \<Longrightarrow> (\<And>v. P v) \<Longrightarrow> returns (big_endian_read_32 m b p) P"
  "0 \<le> b + p \<Longrightarrow> b + p + 4 \<le> int (length m) \<Longrightarrow> (\<And>v. Q v) \<Longrightarrow> returns (little_endian_read_32 m b p) Q"
  by (auto simp: big_endian_read_32_def little_endian_read_32_def rd_def)

lemma returns_store_16 [wp]:
  assumes "unat pos + 2 \<le> 65536" "0 \<le> b + uint pos" "b + uint pos + 2 \<le> int (length m)"
    "\<And>m'. length m' = length m \<Longrightarrow> P m'"
  shows "returns (big_endian_store_16 m b pos v) P" "returns (little_endian_store_16 m b pos v) P"
  using assms by (simp_all add: be16.store_enc le16.store_enc be16_def le16_def returns_wr_block)

lemma returns_store_32 [wp]:
  assumes "unat pos + 4 \<le> 65536" "0 \<le> b + uint pos" "b + uint pos + 4 \<le> int (length m)"
    "\<And>m'. length m' = length m \<Longrightarrow> P m'"
  shows "returns (big_endian_store_32 m b pos v) P" "returns (little_endian_store_32 m b pos v) P"
  using assms by (simp_all add: be32.store_enc le32.store_enc be32_def le32_def returns_wr_block)

subsection \<open>A buffer that is filled from its start\<close>

lemma fill_append:
  assumes "holds_at m 0 xs" "p = int (length xs)" "length xs + length bs \<le> length m"
  obtains m' where "wr_block m p bs = Ret m'" "length m' = length m" "holds_at m' 0 (xs @ bs)"
proof -
  obtain m' where m': "wr_block m p bs = Ret m'" "length m' = length m" "holds_at m' p bs"
      "\<And>q ys. holds_at m q ys \<Longrightarrow> q + int (length ys) \<le> p \<or> p + int (length bs) \<le> q \<Longrightarrow> holds_at m' q ys"
    by (rule wr_block_Ret [of p bs m]) (use assms in auto)
  then have "holds_at m' 0 (xs @ bs)" using assms by (simp add: holds_at_append)
  with m'(1,2) show ?thesis by (rule that)
qed

lemma fill_replace:
  assumes "holds_at m 0 (xs @ bs @ ys)" "p = int (length xs)" "length bs' = length bs"
  obtains m' where "wr_block m p bs' = Ret m'" "length m' = length m" "holds_at m' 0 (xs @ bs' @ ys)"
proof -
  have h: "holds_at m 0 xs" "holds_at m p bs" "holds_at m (p + int (length bs')) ys"
    using assms by (simp_all add: holds_at_append)
  obtain m' where m': "wr_block m p bs' = Ret m'" "length m' = length m" "holds_at m' p bs'"
      "\<And>q zs. holds_at m q zs \<Longrightarrow> q + int (length zs) \<le> p \<or> p + int (length bs') \<le> q \<Longrightarrow> holds_at m' q zs"
    by (rule wr_block_Ret [of p bs' m]) (use assms(2,3) holds_at_nonneg [OF h(2)] in auto)
  have "holds_at m' 0 xs" "holds_at m' (p + int (length bs')) ys"
    using m'(4) [OF h(1)] m'(4) [OF h(3)] assms(2) by simp_all
  with m'(3) have "holds_at m' 0 (xs @ bs' @ ys)" using assms(2) by (simp add: holds_at_append)
  with m'(1,2) show ?thesis by (rule that)
qed

lemma holds_at_grow:
  assumes "holds_at m 0 xs" "length xs + n \<le> length m"
  obtains bs where "length bs = n" "holds_at m 0 (xs @ bs)"
proof
  let ?bs = "take n (drop (length xs) m)"
  show "length ?bs = n" using assms(2) by simp
  show "holds_at m 0 (xs @ ?bs)"
    using assms by (simp add: holds_at_append) (simp add: holds_at_def)
qed

end
