(* ===== verification/SdpClientProps.thy ===== *)
theory SdpClientProps
  imports SdpParser SdpExchange Wp
begin

text \<open>
  Properties of the SDP client: the parser delivers the values of the records whatever the sizes of
  the chunks are, responses are read within the packet, and requests have the form the server reads.
\<close>

subsection \<open>The parser\<close>

fun handle_chunks :: "sdp_parser \<Rightarrow> bytes list \<Rightarrow> (sdp_parser \<times> bytes list) outcome" where
  "handle_chunks p [] = Ret (p, [])"
| "handle_chunks p (x # xs) =
     bind_outcome (sdp_parser_handle_chunk p x) (\<lambda>(p, es).
     bind_outcome (handle_chunks p xs) (\<lambda>(p, es'). Ret (p, es @ es')))"

lemma handle_chunks_concat: "handle_chunks p xs = sdp_parser_handle_chunk p (concat xs)"
  by (induction xs arbitrary: p) (simp_all add: handle_chunk_append)

text \<open>
  C23. The attribute lists of a response, cut into fragments in any way, give one event for every
  byte of every attribute value, in order, with the index of the record, the ID of the attribute
  and the offset of the byte; for at least one record, each with at least one attribute, and values
  that are not empty.  (For empty values see \<open>empty_value_loses_attributes\<close>.)
\<close>

theorem parser_delivers_values:
  assumes "concat xs = des_bytes cls (concat (map rec_bytes Rs))"
    and "Rs \<noteq> []" "\<forall>R \<in> set Rs. rec_ok R" "des_fits cls (length (concat (map rec_bytes Rs)))"
    and "length (concat (map rec_bytes Rs)) < 65536"
  shows "\<exists>q. handle_chunks (sdp_parser_init p) xs = Ret (q, recs_events 0 Rs)"
  unfolding handle_chunks_concat assms(1) using assms(2-5) by (rule process_list)

theorem parser_delivers_values_witness:
  "\<exists>q. handle_chunks (sdp_parser_init (parser sdp_client_start)) [[0x35], [10, 0x35, 8, 0x09], [0, 0, 0x0A, 0, 1], [0, 1]] =
     Ret (q, recs_events 0 [(5, [(0, [0x0A, 0, 1, 0, 1])])])"
  by (rule parser_delivers_values [where cls = 5])
     (simp_all add: rec_bytes_def rec_ok_def value_ok_def sample_elems des_bytes_def des_header_def des_fits_def attr_bytes_def
        be16_def header_length_def elem_size_def)

lemma ucast_byte_u32_u16: "ucast (ucast (b :: byte) :: u32) = (ucast b :: u16)"
  by (rule bit_word_eqI) (auto simp: bit_simps dest: bit_imp_le_length)

lemma process_long_id:
  assumes "parser_state p = GET_ATTRIBUTE_ID" "length data < unat (de_size (de_header_state p))"
  shows "\<exists>q. sdp_parser_handle_chunk p data = Ret (q, [])"
  using assms
proof (induction data arbitrary: p)
  case (Cons b data)
  let ?d = "de_header_state p"
  have u: "unat (de_size ?d - 1) = unat (de_size ?d) - 1"
    using Cons.prems(2) by (intro unat_minus_one) auto
  then have pos: "de_size ?d - 1 > 0" "length data < unat (de_size ?d - 1)"
    using Cons.prems(2) by (auto simp: word_less_nat_alt)
  let ?p = "p\<lparr>list_offset := list_offset p + 1, record_offset := record_offset p + 1,
    attribute_id := push_bit 8 (attribute_id p) OR ucast b, de_header_state := ?d\<lparr>de_size := de_size ?d - 1\<rparr>\<rparr>"
  have "sdp_parser_process_byte p b = Ret (?p, [])"
    using Cons.prems(1) pos(1) by (simp add: sdp_parser_process_byte_def Let_def)
  moreover have "\<exists>q. sdp_parser_handle_chunk ?p data = Ret (q, [])"
    by (rule Cons.IH) (use Cons.prems(1) pos(2) in simp_all)
  ultimately show ?case by auto
qed simp

text \<open>
  An attribute with an empty value, here an empty string, makes the parser take the next byte as
  its value and read the attribute after it at the wrong place: whatever follows gives no event.
\<close>

theorem empty_value_loses_attributes:
  assumes "m \<noteq> 6" "length data < 1000000"
  shows "\<exists>q es. sdp_parser_handle_chunk (sdp_parser_init p)
      ([0x35, n, 0x35, m, 0x09, 0x01, 0x00, 0x25, 0x00, 0x09, 0x02, 0x00] @ data) = Ret (q, es) \<and> length es = 3"
proof -
  let ?hdr = "[0x35, n, 0x35, m] :: bytes"
  have h: "des_header 5 k = [0x35, of_nat k]" for k by (simp add: des_header_def)
  have nm: "n = of_nat (unat n)" "m = of_nat (unat m)" "unat n < 256" "unat m < 256"
    using unsigned_less [of n] unsigned_less [of m] by simp_all
  then have nm': "unat n < 65536" "unat m < 65536" by linarith+
  have "de_feed (des_header 5 (unat n)) (de_header_state (sdp_parser_init p)) = Ret (de_done (of_nat (unat n)), True)"
    using nm(3) nm' by (intro des_header_feed) (simp_all add: des_fits_def sdp_parser_init_def de_state_init_done)
  note l = process_list_header [OF this]
  obtain p1 where p1: "sdp_parser_handle_chunk (sdp_parser_init p) [0x35, n] = Ret (p1, [])"
      "parser_state p1 = GET_RECORD_LENGTH" "in_state_GET_DE_HEADER_LENGTH (de_header_state p1)"
    by (rule that [OF l [unfolded h, unfolded nm(1) [symmetric]]]) (simp_all add: sdp_parser_init_def)
  have "de_feed (des_header 5 (unat m)) (de_header_state p1) = Ret (de_done (of_nat (unat m)), True)"
    using nm(4) nm' p1(3) by (intro des_header_feed) (simp_all add: des_fits_def)
  note r = process_record_header [OF this _ p1(2)]
  obtain p2 where p2: "sdp_parser_handle_chunk p1 [0x35, m] = Ret (p2, [])"
      "parser_state p2 = GET_ATTRIBUTE_ID_HEADER_LENGTH" "in_state_GET_DE_HEADER_LENGTH (de_header_state p2)"
      "record_offset p2 = 0" "record_size p2 = ucast m"
    by (rule that [OF r [unfolded h, unfolded nm(2) [symmetric]]])
       (use p1(2) in \<open>simp_all add: ucast_byte_u32_u16 flip: nm(2)\<close>)
  obtain p3 where p3: "sdp_parser_handle_chunk p2 (0x09 # be16 0x0100) = Ret (p3, [])"
      "parser_state p3 = GET_ATTRIBUTE_VALUE_LENGTH" "de_header_state p3 = de_done 0" "record_offset p3 = 3"
      "record_size p3 = ucast m" "attribute_bytes_received p3 = 0" "attribute_bytes_delivered p3 = 0" "attribute_value_size p3 = 0"
    using process_id [OF p2(3,2), of "0x0100"] p2(4,5) by (simp add: de_state_init_done)
  have "de_feed [0x25, 0] (de_header_state p3) = Ret (de_done 0, True)"
    unfolding p3(3) by (simp add: de_first_var de_next)
  from process_value_header [OF this _ p3(2), of 0] obtain p4 where p4: "sdp_parser_handle_chunk p3 [0x25, 0] =
      Ret (p4, events_from (record_counter p3) (attribute_id p3) 0 0 [0x25, 0])"
      "parser_state p4 = GET_ATTRIBUTE_VALUE" "de_header_state p4 = de_done 0" "record_offset p4 = 5" "record_size p4 = ucast m"
      "attribute_bytes_received p4 = 2" "attribute_value_size p4 = 2"
    using p3 by simp
  have m6: "ucast m \<noteq> (6 :: u16)"
  proof
    assume "ucast m = (6 :: u16)"
    then have "unat (ucast m :: u16) = 6" by simp
    then have "unat m = 6" by (simp add: unsigned_ucast_eq take_bit_nat_eq_self [of _ 16] nm'(2))
    then show False using assms(1) by (simp add: word_unat_eq_iff)
  qed
  obtain p5 e where p5: "sdp_parser_process_byte p4 0x09 = Ret (p5, [e])" "parser_state p5 = GET_ATTRIBUTE_ID_HEADER_LENGTH"
      "de_header_state p5 = de_done 0"
    using p4 m6 by (simp add: sdp_parser_process_byte_def value_byte_def emit_value Let_def)
  have "de_state_size 0x02 (de_done 0) = Ret (de_done 0, True)" by (simp add: de_first_fixed)
  then obtain p6 where p6: "sdp_parser_process_byte p5 0x02 = Ret (p6, [])" "parser_state p6 = GET_ATTRIBUTE_ID" "de_size (de_header_state p6) = 0"
    using p5(2,3) by (simp add: sdp_parser_process_byte_def Let_def)
  have pos: "0 < (- 1 :: u32)" by (simp add: word_gt_0)
  from p6 obtain p7 where p7: "sdp_parser_process_byte p6 0x00 = Ret (p7, [])" "parser_state p7 = GET_ATTRIBUTE_ID" "de_size (de_header_state p7) = - 1"
    by (simp add: sdp_parser_process_byte_def Let_def pos)
  have "length data < unat (de_size (de_header_state p7))"
    unfolding p7(3) using assms(2) by (simp add: unsigned_minus_1_eq_mask mask_eq_exp_minus_1)
  from process_long_id [OF p7(2) this] obtain q where q: "sdp_parser_handle_chunk p7 data = Ret (q, [])" by blast
  have bid: "be16 0x0100 = [1, 0]" by (simp add: be16_def)
  have "sdp_parser_handle_chunk p4 ([0x09, 0x02, 0x00] @ data) = Ret (q, [e])" using p5(1) p6(1) p7(1) q by simp
  from chunk_then [OF p1(1) chunk_then [OF p2(1) chunk_then [OF p3(1) chunk_then [OF p4(1) this]]]]
  have "sdp_parser_handle_chunk (sdp_parser_init p)
      ([0x35, n, 0x35, m, 0x09, 0x01, 0x00, 0x25, 0x00, 0x09, 0x02, 0x00] @ data) =
      Ret (q, events_from (record_counter p3) (attribute_id p3) 0 0 [0x25, 0] @ [e])"
    by (simp del: sdp_parser_handle_chunk.simps add: bid)
  then show ?thesis by simp
qed

theorem empty_value_loses_attributes_witness:
  "\<exists>q es. sdp_parser_handle_chunk (sdp_parser_init (parser sdp_client_start))
      ([0x35, 12, 0x35, 10, 0x09, 0x01, 0x00, 0x25, 0x00, 0x09, 0x02, 0x00] @ [0x08, 7]) = Ret (q, es) \<and> length es = 3"
  by (rule empty_value_loses_attributes) simp_all

subsection \<open>Responses\<close>

lemma returns_de_state_size [wp]: "(\<And>r. P r) \<Longrightarrow> returns (de_state_size b d) P"
  by (simp add: de_state_size_def de_get_header_size_def de_get_size_type_def de_get_data_size_def
      de_get_element_type_def rd_def Let_def)

lemma returns_emit_value_byte [wp]: "(\<And>e. P e) \<Longrightarrow> returns (sdp_parser_emit_value_byte p b) P"
  by (simp add: emit_value)

lemma returns_process_byte [wp]: "(\<And>r. P r) \<Longrightarrow> returns (sdp_parser_process_byte p b) P"
  unfolding sdp_parser_process_byte_def value_byte_def Let_def
  by (cases "parser_state p") (auto intro!: wp)

lemma returns_handle_chunk [wp]: "(\<And>r. P r) \<Longrightarrow> returns (sdp_parser_handle_chunk p data) P"
proof (induction data arbitrary: p P)
  case (Cons b data)
  show ?case by (auto intro!: wp Cons)
qed simp

text \<open>The client keeps the continuation state of the last response within its buffer.\<close>

definition continuation_ok :: "sdp_client \<Rightarrow> bool" where
  "continuation_ok c \<longleftrightarrow> length (continuationState c) = 16 \<and> uint (continuationStateLen c) \<le> 16"

lemma uint_u16_plus: "uint (a :: u16) + uint b < 65536 \<Longrightarrow> uint (a + b) = uint a + uint b"
  by (subst uint_add_lem [symmetric]) simp

lemma returns_parse_continuation [wp]:
  assumes "continuation_ok c" "uint sz = int (length packet)"
    "\<And>c'. continuation_ok c' \<Longrightarrow> P c'"
  shows "returns (parse_continuation c packet sz offset) P"
proof -
  have "uint (offset + 1) = uint offset + 1" if "uint offset + 1 \<le> uint sz"
    using that uint_u16_plus [of offset 1] uint_bounded [of sz] by simp
  then show ?thesis
    using assms unfolding parse_continuation_def Let_def
    by (auto intro!: wp assms(3) simp: continuation_ok_def word_less_def)
qed

lemma returns_search_attribute_response [wp]:
  assumes "continuation_ok c" "uint sz = int (length packet)"
    "\<And>r. continuation_ok (fst r) \<Longrightarrow> P r"
  shows "returns (sdp_client_parse_service_search_attribute_response c packet sz) P"
  unfolding sdp_client_parse_service_search_attribute_response_def Let_def
  using assms
  by (auto intro!: wp assms(3) simp: continuation_ok_def)

lemma returns_handle_service_search [wp]:
  assumes "continuation_ok c" "0 \<le> data" "data + int k * 4 \<le> int (length m)"
    "\<And>r. continuation_ok (fst r) \<Longrightarrow> P r"
  shows "returns (sdp_parser_handle_service_search k m data n c) P"
  using assms
proof (induction k arbitrary: data c P)
  case (Suc k)
  show ?case using Suc.prems by (auto simp: Let_def continuation_ok_def intro!: wp Suc.IH Suc.prems(4))
qed simp

lemma returns_search_response [wp]:
  assumes "continuation_ok c" "uint sz = int (length packet)"
    "\<And>r. continuation_ok (fst r) \<Longrightarrow> P r"
  shows "returns (sdp_client_parse_service_search_response c packet sz) P"
  unfolding sdp_client_parse_service_search_response_def Let_def
  using assms
  by (auto intro!: wp assms(3))

text \<open>
  C24. The client reads every packet of the server, of whatever content, within its bounds, keeps
  its continuation state within its 16 bytes, and answers with events, then at most one call: it
  disconnects, or asks to send the next request, which only a response that leaves a continuation
  state brings about.
\<close>

theorem client_reads_within_packet:
  assumes "continuation_ok c" "uint sz = int (length packet)"
  shows "\<exists>c' es as. client_data_packet extra c packet sz = Ret (c', map Emit es @ as) \<and> continuation_ok c' \<and>
    (as = [] \<and> es = [] \<and> sdp_client_state c' = sdp_client_state c \<or>
     as = [Disconnect (sdp_cid c')] \<or>
     as = [AskToSend (sdp_cid c')] \<and> sdp_client_state c' = W2_SEND \<and> continuationStateLen c' \<noteq> 0)"
proof -
  define Q where "Q r \<longleftrightarrow> continuation_ok (fst r) \<and> (\<exists>es as. snd r = map Emit es @ as \<and>
    (as = [] \<and> es = [] \<and> sdp_client_state (fst r) = sdp_client_state c \<or> as = [Disconnect (sdp_cid (fst r))] \<or>
     as = [AskToSend (sdp_cid (fst r))] \<and> sdp_client_state (fst r) = W2_SEND \<and> continuationStateLen (fst r) \<noteq> 0))" for r
  have ignored: "Q (c', [])" if "continuation_ok c'" "sdp_client_state c' = sdp_client_state c" for c'
    using that by (auto simp: Q_def)
  have QI: "Q (c', map Emit es @ [a])"
    if "continuation_ok c'" "a = Disconnect (sdp_cid c') \<or> a = AskToSend (sdp_cid c') \<and> sdp_client_state c' = W2_SEND \<and>
      continuationStateLen c' \<noteq> 0" for c' es a
    unfolding Q_def by (intro conjI exI [of _ es] exI [of _ "[a]"]) (use that in auto)
  have complete: "Q (c'\<lparr>sdp_client_state := QUERY_COMPLETE\<rparr>, map Emit es @ [Disconnect (sdp_cid c')])"
    and again: "continuationStateLen c' \<noteq> 0 \<Longrightarrow> Q (c'\<lparr>sdp_client_state := W2_SEND\<rparr>, map Emit es @ [AskToSend (sdp_cid c')])"
    if "continuation_ok c'" for c' es
    using that by (auto intro!: QI simp: continuation_ok_def)
  have update: "continuation_ok (c\<lparr>PDU_ID := pdu\<rparr>)" for pdu
    using assms(1) by (simp add: continuation_ok_def)
  have disconnect: "Q (c\<lparr>PDU_ID := pdu\<rparr>, [Disconnect (sdp_cid c)])" for pdu
    using QI [OF update, of "Disconnect (sdp_cid c)" pdu "[]"] by simp
  have "returns (client_data_packet extra c packet sz) Q"
    unfolding client_data_packet_def Let_def sdp_client_parse_service_attribute_response_def
    using assms update
    by (auto intro!: wp complete again disconnect ignored simp: word_less_def)
  then obtain c' acts where "client_data_packet extra c packet sz = Ret (c', acts)" "Q (c', acts)" by (auto elim!: returnsE)
  then show ?thesis unfolding Q_def by (auto simp only: fst_conv snd_conv)
qed

theorem client_reads_within_packet_witness:
  "\<exists>c' es as. client_data_packet False sdp_client_start [7, 0, 0, 0, 3] 5 = Ret (c', map Emit es @ as) \<and> continuation_ok c' \<and>
    (as = [] \<and> es = [] \<and> sdp_client_state c' = sdp_client_state sdp_client_start \<or>
     as = [Disconnect (sdp_cid c')] \<or>
     as = [AskToSend (sdp_cid c')] \<and> sdp_client_state c' = W2_SEND \<and> continuationStateLen c' \<noteq> 0)"
  by (rule client_reads_within_packet) (simp_all add: continuation_ok_def sdp_client_start_def)

subsection \<open>Requests\<close>

lemma u16_plus_nat: "int a + int b < 65536 \<Longrightarrow> uint (of_nat a + of_nat b :: u16) = int a + int b"
  by (simp add: uint_u16_of_nat flip: of_nat_add)

lemma copy_element_fill:
  assumes "holds_at m 0 xs" "elem_ok e" "length xs + length e \<le> length m" "length xs + length e < 65536"
  obtains m' where "copy_element m (of_nat (length xs)) e = Ret (m', of_nat (length (xs @ e)))"
    "length m' = length m" "holds_at m' 0 (xs @ e)"
proof -
  obtain m' where m': "wr_block m (int (length xs)) e = Ret m'" "length m' = length m" "holds_at m' 0 (xs @ e)"
    by (rule fill_append [OF assms(1) refl assms(3)])
  have "unat (word_of_int (int (length e)) :: u16) = length e" using assms(4) by (simp add: u16_of_nat)
  then have "copy_element m (of_nat (length xs)) e = Ret (m', of_nat (length (xs @ e)))"
    using assms(2,4) m'(1) by (simp add: copy_element_def copy_to_def elem_ok_def rd_block_def uint_u16_of_nat)
  then show ?thesis using m'(2,3) by (rule that)
qed

lemma client_request:
  assumes "sdp_client_state c = W2_SEND" "PDU_ID c = 7" "continuation_ok c"
    and "elem_ok (service_search_pattern c)" "elem_ok (attribute_id_list c)"
    and "24 + length (service_search_pattern c) + length (attribute_id_list c) \<le> length data" "length data < 65536"
  shows "sdp_client_send_request extra c data channel =
    Ret (c\<lparr>transactionID := transactionID c + 1, sdp_client_state := W4_RESPONSE, PDU_ID := 0\<rparr>,
      [ReserveBuffer, SendRequest channel (search_attribute_request (transactionID c + 1) (service_search_pattern c) (mtu c)
        (attribute_id_list c) (continuationStateLen c # take (unat (continuationStateLen c)) (continuationState c)))])"
proof -
  let ?tid = "transactionID c + 1" and ?pat = "service_search_pattern c" and ?idl = "attribute_id_list c"
    and ?n = "continuationStateLen c"
  let ?cont = "take (unat ?n) (continuationState c)"
  have bound: "uint ?n \<le> 16" using assms(3) by (simp add: continuation_ok_def)
  have "int (unat ?n) \<le> 16" "length (continuationState c) = 16" using assms(3) by (simp_all add: continuation_ok_def)
  moreover from this have "unat ?n \<le> 16" by linarith
  ultimately have n: "unat ?n \<le> 16" "length ?cont = unat ?n" "length (continuationState c) = 16" by simp_all
  obtain d1 where d1: "wr data 0 6 = Ret d1" "length d1 = length data" "holds_at d1 0 [6]"
    unfolding wr_as_block by (rule fill_append [of data "[]" 0 "[6]"]) (use assms(6) in auto)
  obtain d2 where d2: "wr_block d1 1 (be16 ?tid) = Ret d2" "length d2 = length data" "holds_at d2 0 (6 # be16 ?tid)"
    by (rule fill_append [OF d1(3), of 1 "be16 ?tid"]) (use assms(6) d1(2) in auto)
  obtain l where l: "length l = 2" "holds_at d2 0 (6 # be16 ?tid @ l)"
    by (rule holds_at_grow [OF d2(3), of 2]) (use assms(6) d2(2) in auto)
  let ?hd = "6 # be16 ?tid @ l"
  obtain d3 where d3: "copy_element d2 (of_nat 5) ?pat = Ret (d3, of_nat (5 + length ?pat))"
      "length d3 = length data" "holds_at d3 0 (?hd @ ?pat)"
    by (rule copy_element_fill [OF l(2) assms(4)]) (use assms(6,7) d2(2) l(1) in \<open>auto simp: add.commute\<close>)
  obtain d4 where d4: "wr_block d3 (int (5 + length ?pat)) (be16 (mtu c)) = Ret d4" "length d4 = length data"
      "holds_at d4 0 ((?hd @ ?pat) @ be16 (mtu c))"
    by (rule fill_append [OF d3(3), of "int (5 + length ?pat)" "be16 (mtu c)"]) (use assms(6) d3(2) l(1) in auto)
  obtain d5 where d5: "copy_element d4 (of_nat (7 + length ?pat)) ?idl = Ret (d5, of_nat (7 + length ?pat + length ?idl))"
      "length d5 = length data" "holds_at d5 0 (((?hd @ ?pat) @ be16 (mtu c)) @ ?idl)"
    by (rule copy_element_fill [OF d4(3) assms(5)]) (use assms(6,7) d4(2) l(1) in \<open>auto simp: add_ac\<close>)
  let ?k = "length ?pat + 2 + length ?idl"
  obtain d6 where d6: "wr d5 (int (5 + ?k)) ?n = Ret d6" "length d6 = length data"
      "holds_at d6 0 ((((?hd @ ?pat) @ be16 (mtu c)) @ ?idl) @ [?n])"
    unfolding wr_as_block
    by (rule fill_append [OF d5(3), of "int (5 + ?k)" "[?n]"]) (use assms(6) d5(2) l(1) in auto)
  obtain d7 where d7: "wr_block d6 (int (6 + ?k)) ?cont = Ret d7" "length d7 = length data"
      "holds_at d7 0 (((((?hd @ ?pat) @ be16 (mtu c)) @ ?idl) @ [?n]) @ ?cont)"
    by (rule fill_append [OF d6(3), of "int (6 + ?k)" ?cont]) (use assms(6) n d6(2) l(1) in auto)
  let ?len = "be16 (of_nat (length ?pat + 2 + length ?idl + length (?n # ?cont)))"
  have "holds_at d7 0 ((6 # be16 ?tid) @ l @ (?pat @ be16 (mtu c) @ ?idl @ ?n # ?cont))"
    using d7(3) by (simp only: append_assoc append_Cons append_Nil)
  then obtain d8 where d8: "wr_block d7 3 ?len = Ret d8" "length d8 = length data"
      "holds_at d8 0 ((6 # be16 ?tid) @ ?len @ (?pat @ be16 (mtu c) @ ?idl @ ?n # ?cont))"
    by (rule fill_replace [of _ _ _ _ 3 ?len]) (use l(1) d7(2) in auto)
  let ?rq = "search_attribute_request ?tid ?pat (mtu c) ?idl (?n # ?cont)"
  have rq: "holds_at d8 0 ?rq" using d8(3) by (simp only: search_attribute_request_def append_assoc append_Cons append_Nil)
  have start: "request_start data 6 ?tid = Ret (d2, of_nat 5)"
    using d1(1) d2(1) by (simp add: request_start_def be16.store_enc)
  have pos: "unat (of_nat j :: u16) = j" "uint (of_nat j :: u16) = int j" if "j \<le> 24 + length ?pat + length ?idl" for j
    using that assms(6,7) by (simp_all add: u16_of_nat uint_u16_of_nat)
  have offsets: "of_nat (5 + length ?pat) + 2 = (of_nat (7 + length ?pat) :: u16)"
    "of_nat (7 + length ?pat + length ?idl) = (of_nat (5 + ?k) :: u16)"
    "of_nat (5 + ?k) + 1 = (of_nat (6 + ?k) :: u16)"
    "of_nat (6 + ?k) + of_nat (unat ?n) = (of_nat (6 + ?k + unat ?n) :: u16)"
    "of_nat (6 + ?k + unat ?n) - 5 = (of_nat (length ?pat + 2 + length ?idl + length (?n # ?cont)) :: u16)"
    using n(2) by (simp_all add: algebra_simps)
  have copy: "copy_to d6 (of_nat (6 + ?k)) (continuationState c) (unat ?n) = Ret (d7, of_nat (6 + ?k + unat ?n))"
    using d7(1) n by (simp only: copy_to_def rd_block_def pos offsets(4)) (simp add: pos bound)
  have p5: "uint (of_nat (5 + ?k) :: u16) = int (5 + ?k)" by (rule pos(2)) simp
  have plen: "big_endian_store_16 d7 0 3 (of_nat (length ?pat + 2 + length ?idl + length (?n # ?cont))) = Ret d8"
    using d8(1) by (subst be16.store_enc) simp_all
  have upd: "continuationStateLen (c\<lparr>transactionID := t\<rparr>) = ?n" "continuationState (c\<lparr>transactionID := t\<rparr>) = continuationState c"
    "service_search_pattern (c\<lparr>transactionID := t\<rparr>) = ?pat" "attribute_id_list (c\<lparr>transactionID := t\<rparr>) = ?idl"
    "mtu (c\<lparr>transactionID := t\<rparr>) = mtu c" "transactionID (c\<lparr>transactionID := t\<rparr>) = t" for t
    by simp_all
  have fin: "request_end (c\<lparr>transactionID := ?tid\<rparr>) d5 (of_nat (5 + ?k)) = Ret (d8, of_nat (6 + ?k + unat ?n))"
    by (simp only: request_end_def p5 offsets d6(1) copy plen bind_outcome_simps prod.case upd)
  have len: "unat (of_nat (6 + ?k + unat ?n) :: u16) = length ?rq"
    using pos(1) [of "6 + ?k + unat ?n"] n by (simp add: search_attribute_request_parts(7) add.assoc)
  have block: "rd_block d8 0 (unat (of_nat (6 + ?k + unat ?n) :: u16)) = Ret ?rq"
    unfolding len by (rule holds_at_block [OF rq refl])
  have mtu: "big_endian_store_16 d3 0 (of_nat (5 + length ?pat)) (mtu c) = Ret d4"
  proof (subst be16.store_enc)
    show "unat (of_nat (5 + length ?pat) :: u16) + 2 \<le> 65536" "wr_block d3 (0 + uint (of_nat (5 + length ?pat) :: u16)) (be16 (mtu c)) = Ret d4"
      by (subst pos; use d4(1) assms(6,7) in simp)+
  qed
  show ?thesis
    unfolding sdp_client_send_request_def sdp_client_setup_service_search_attribute_request_def Let_def
    by (simp only: assms(1,2) start d3(1) mtu offsets(1,2) d5(1) fin block bind_outcome_simps prod.case upd
        simp_thms if_False if_True) (simp add: assms(1,2))
qed

text \<open>
  C25. The request that the client sends is read by the server's handler as it was meant: for a
  pattern and an ID list that are data element sequences and fit in the packet buffer, the server
  goes on with the pattern and the ID list at the places where the client put them, with the
  client's new transaction ID, its limit, and the continuation state of the last response.
\<close>

theorem client_request_form:
  assumes "sdp_client_state c = W2_SEND" "PDU_ID c = 7" "continuation_ok c"
    and "service_search_pattern c = des_bytes pc pd" "des_fits pc (length pd)"
    and "attribute_id_list c = des_bytes ic ld" "des_fits ic (length ld)"
    and "24 + length (service_search_pattern c) + length (attribute_id_list c) \<le> length data" "length data < 65536"
    and "unat server_mtu \<le> SDP_RESPONSE_BUFFER_SIZE"
  shows "\<exists>rq. sdp_client_send_request extra c data channel =
      Ret (c\<lparr>transactionID := transactionID c + 1, sdp_client_state := W4_RESPONSE, PDU_ID := 0\<rparr>,
        [ReserveBuffer, SendRequest channel rq]) \<and>
    holds_at rq 5 (service_search_pattern c) \<and> holds_at rq (7 + int (length (service_search_pattern c))) (attribute_id_list c) \<and>
    handle_request n s rq (of_nat (length rq)) server_mtu =
      store_response s (search_attributes n s rq (7 + int (length (service_search_pattern c))) (transactionID c + 1)
        (if server_mtu - 12 < mtu c then server_mtu - 12 else mtu c)
        (continued (continuationStateLen c # take (unat (continuationStateLen c)) (continuationState c))))"
proof -
  let ?pat = "service_search_pattern c" and ?idl = "attribute_id_list c" and ?st = "take (unat (continuationStateLen c)) (continuationState c)"
  let ?rq = "search_attribute_request (transactionID c + 1) ?pat (mtu c) ?idl (continuationStateLen c # ?st)"
  have ok: "elem_ok ?pat" "elem_ok ?idl" using assms(4-7) by (simp_all add: des_elem_ok)
  have "int (unat (continuationStateLen c)) \<le> 16" "length (continuationState c) = 16" using assms(3) by (simp_all add: continuation_ok_def)
  moreover from this have "unat (continuationStateLen c) \<le> 16" by linarith
  ultimately have n: "unat (continuationStateLen c) \<le> 16" "length ?st = unat (continuationStateLen c)" by simp_all
  then have len: "7 + length ?pat + length ?idl + length (continuationStateLen c # ?st) < 65536"
    using assms(8,9) by simp
  note parts = search_attribute_request_parts [of "transactionID c + 1" ?pat "mtu c" ?idl "continuationStateLen c # ?st"]
  have "5 + int (length ?pat) + 2 = 7 + int (length ?pat)" by simp
  then have ids: "holds_at ?rq (7 + int (length ?pat)) ?idl" using parts(5) by (simp only:)
  show ?thesis
    by (rule exI [of _ ?rq], intro conjI client_request [OF assms(1-3) ok assms(8,9)] parts(3) ids
        handle_search_attribute_request [OF assms(5,4,7,6) refl n(2) len assms(10)])
qed

definition sample_client :: sdp_client where
  "sample_client = sdp_client_start\<lparr>sdp_client_state := W2_SEND, PDU_ID := 7, mtu := 48,
     service_search_pattern := [0x35, 3, 0x19, 0x11, 0x01], attribute_id_list := des_attributeIDList\<rparr>"

theorem client_request_form_witness:
  "\<exists>rq. sdp_client_send_request False sample_client (replicate 48 0) 0x40 =
      Ret (sample_client\<lparr>transactionID := transactionID sample_client + 1, sdp_client_state := W4_RESPONSE, PDU_ID := 0\<rparr>,
        [ReserveBuffer, SendRequest 0x40 rq]) \<and>
    holds_at rq 5 (service_search_pattern sample_client) \<and>
    holds_at rq (7 + int (length (service_search_pattern sample_client))) (attribute_id_list sample_client) \<and>
    handle_request 3 sample_server rq (of_nat (length rq)) 48 =
      store_response sample_server (search_attributes 3 sample_server rq (7 + int (length (service_search_pattern sample_client)))
        (transactionID sample_client + 1) (if 48 - 12 < mtu sample_client then 48 - 12 else mtu sample_client)
        (continued (continuationStateLen sample_client # take (unat (continuationStateLen sample_client)) (continuationState sample_client))))"
  by (rule client_request_form [where pc = 5 and ic = 5 and pd = "[0x19, 0x11, 0x01]" and ld = "[0x0A, 0x00, 0x00, 0xFF, 0xFF]"])
     (simp_all add: sample_client_def sdp_client_start_def des_attributeIDList_def continuation_ok_def des_bytes_def des_header_def
       des_fits_def SDP_RESPONSE_BUFFER_SIZE_def)

text \<open>
  A second packet with an unexpected PDU, while the client waits to send, makes it reserve the
  packet buffer of L2CAP and return: nothing is sent, nothing gives the buffer back, and the client
  stays where it is.
\<close>

theorem unexpected_pdu_keeps_buffer:
  assumes "sdp_client_state c = W2_SEND" "pdu \<noteq> 1" "pdu \<noteq> 7" "3 \<le> sz"
  shows "client_data_packet False c (pdu # be16 (transactionID c) @ data) sz =
      Ret (c\<lparr>PDU_ID := pdu\<rparr>, []) \<and>
    sdp_client_send_request False (c\<lparr>PDU_ID := pdu\<rparr>) buffer (sdp_cid c) = Ret (c\<lparr>PDU_ID := pdu\<rparr>, [ReserveBuffer])"
proof -
  let ?packet = "pdu # be16 (transactionID c) @ data"
  have "\<not> sz < 3" using assms(4) by simp
  moreover have "holds_at ?packet 1 (be16 (transactionID c))" by (rule holds_at_intro [of 1 "[pdu]", simplified])
  then have "big_endian_read_16 ?packet 0 1 = Ret (ucast (transactionID c))" by (simp add: read_16)
  moreover have "rd ?packet 0 = Ret pdu" by (simp add: rd_def)
  ultimately show ?thesis
    using assms by (simp only: client_data_packet_def sdp_client_send_request_def Let_def) (simp add: ucast_u16_back)
qed

theorem unexpected_pdu_keeps_buffer_witness:
  "client_data_packet False sample_client (0 # be16 (transactionID sample_client) @ []) 3 =
      Ret (sample_client\<lparr>PDU_ID := 0\<rparr>, []) \<and>
    sdp_client_send_request False (sample_client\<lparr>PDU_ID := 0\<rparr>) [] (sdp_cid sample_client) = Ret (sample_client\<lparr>PDU_ID := 0\<rparr>, [ReserveBuffer])"
  by (rule unexpected_pdu_keeps_buffer) (simp_all add: sample_client_def)

end
