(* ===== verification/SppServer.thy ===== *)
theory SppServer
  imports SdpResponse
begin

text \<open>
  \<^verbatim>\<open>btstack-rootless/src/classic/spp_server.c\<close>: the SDP record of a serial port, which announces the
  RFCOMM channel of a service and its name.  The record is built in the buffer \<open>m\<close>, at \<open>service\<close>; one
  helper for each attribute with a nested sequence.
\<close>

subsection \<open>The record\<close>

text \<open>The name is an object with the characters of a C string.\<close>

definition strlen :: "bytes \<Rightarrow> nat outcome" where
  "strlen s = (if 0 \<in> set s then Ret (length (c_str s)) else Undef)"

definition spp_service_class :: "bytes option \<Rightarrow> bytes \<Rightarrow> int \<Rightarrow> bytes outcome" where
  "spp_service_class service_uuid128 m service =
     bind_outcome (de_add_number m service DE_UINT DE_SIZE_16 0x0001) (\<lambda>m.
     bind_outcome (de_push_sequence m service) (\<lambda>(m, attribute).
     bind_outcome
       (case service_uuid128 of
          None \<Rightarrow> de_add_number m attribute DE_UUID DE_SIZE_16 0x1101
        | Some uuid \<Rightarrow> de_add_uuid128 m attribute uuid) (\<lambda>m.
     de_pop_sequence m service attribute)))"

definition spp_protocol_list :: "int \<Rightarrow> bytes \<Rightarrow> int \<Rightarrow> bytes outcome" where
  "spp_protocol_list rfcomm_channel m service =
     bind_outcome (de_add_number m service DE_UINT DE_SIZE_16 0x0004) (\<lambda>m.
     bind_outcome (de_push_sequence m service) (\<lambda>(m, attribute).
     bind_outcome
       (bind_outcome
         (bind_outcome (de_push_sequence m attribute) (\<lambda>(m, l2cpProtocol).
          bind_outcome (de_add_number m l2cpProtocol DE_UUID DE_SIZE_16 0x0100) (\<lambda>m.
          de_pop_sequence m attribute l2cpProtocol))) (\<lambda>m.
        bind_outcome (de_push_sequence m attribute) (\<lambda>(m, rfcomm).
        bind_outcome
          (bind_outcome (de_add_number m rfcomm DE_UUID DE_SIZE_16 0x0003) (\<lambda>m.
           de_add_number m rfcomm DE_UINT DE_SIZE_8 (word_of_int rfcomm_channel))) (\<lambda>m.
        de_pop_sequence m attribute rfcomm)))) (\<lambda>m.
     de_pop_sequence m service attribute)))"

definition spp_browse_group :: "bytes \<Rightarrow> int \<Rightarrow> bytes outcome" where
  "spp_browse_group m service =
     bind_outcome (de_add_number m service DE_UINT DE_SIZE_16 0x0005) (\<lambda>m.
     bind_outcome (de_push_sequence m service) (\<lambda>(m, attribute).
     bind_outcome (de_add_number m attribute DE_UUID DE_SIZE_16 0x1002) (\<lambda>m.
     de_pop_sequence m service attribute)))"

definition spp_language_base :: "bytes \<Rightarrow> int \<Rightarrow> bytes outcome" where
  "spp_language_base m service =
     bind_outcome (de_add_number m service DE_UINT DE_SIZE_16 0x0006) (\<lambda>m.
     bind_outcome (de_push_sequence m service) (\<lambda>(m, attribute).
     bind_outcome
       (bind_outcome (de_add_number m attribute DE_UINT DE_SIZE_16 0x656e) (\<lambda>m.
        bind_outcome (de_add_number m attribute DE_UINT DE_SIZE_16 0x006a) (\<lambda>m.
        de_add_number m attribute DE_UINT DE_SIZE_16 0x0100))) (\<lambda>m.
     de_pop_sequence m service attribute)))"

definition spp_profile_list :: "bytes \<Rightarrow> int \<Rightarrow> bytes outcome" where
  "spp_profile_list m service =
     bind_outcome (de_add_number m service DE_UINT DE_SIZE_16 0x0009) (\<lambda>m.
     bind_outcome (de_push_sequence m service) (\<lambda>(m, attribute).
     bind_outcome
       (bind_outcome (de_push_sequence m attribute) (\<lambda>(m, sppProfile).
        bind_outcome
          (bind_outcome (de_add_number m sppProfile DE_UUID DE_SIZE_16 0x1101) (\<lambda>m.
           de_add_number m sppProfile DE_UINT DE_SIZE_16 0x1102)) (\<lambda>m.
        de_pop_sequence m attribute sppProfile))) (\<lambda>m.
     de_pop_sequence m service attribute)))"

definition spp_service_name :: "bytes \<Rightarrow> bytes \<Rightarrow> int \<Rightarrow> bytes outcome" where
  "spp_service_name name m service =
     bind_outcome (de_add_number m service DE_UINT DE_SIZE_16 0x0100) (\<lambda>m.
     bind_outcome (strlen name) (\<lambda>len.
     de_add_data m service DE_STRING (of_nat len) name))"

definition spp_create_sdp_record_internal :: "bytes \<Rightarrow> int \<Rightarrow> u32 \<Rightarrow> bytes option \<Rightarrow> int \<Rightarrow> bytes \<Rightarrow> bytes outcome" where
  "spp_create_sdp_record_internal m service rec_handle service_uuid128 rfcomm_channel name =
     bind_outcome (de_create_sequence m service) (\<lambda>m.
     bind_outcome (de_add_number m service DE_UINT DE_SIZE_16 0x0000) (\<lambda>m.
     bind_outcome (de_add_number m service DE_UINT DE_SIZE_32 rec_handle) (\<lambda>m.
     bind_outcome (spp_service_class service_uuid128 m service) (\<lambda>m.
     bind_outcome (spp_protocol_list rfcomm_channel m service) (\<lambda>m.
     bind_outcome (spp_browse_group m service) (\<lambda>m.
     bind_outcome (spp_language_base m service) (\<lambda>m.
     bind_outcome (spp_profile_list m service) (\<lambda>m.
     spp_service_name name m service))))))))"

definition spp_create_sdp_record :: "bytes \<Rightarrow> int \<Rightarrow> u32 \<Rightarrow> int \<Rightarrow> bytes \<Rightarrow> bytes outcome" where
  "spp_create_sdp_record m service rec_handle rfcomm_channel name =
     spp_create_sdp_record_internal m service rec_handle None rfcomm_channel name"

definition spp_create_custom_sdp_record :: "bytes \<Rightarrow> int \<Rightarrow> u32 \<Rightarrow> bytes option \<Rightarrow> int \<Rightarrow> bytes \<Rightarrow> bytes outcome" where
  "spp_create_custom_sdp_record m service rec_handle service_uuid128 rfcomm_channel name =
     spp_create_sdp_record_internal m service rec_handle service_uuid128 rfcomm_channel name"

subsection \<open>Operations that append to a sequence\<close>

text \<open>The sequence with the data \<open>d\<close> is at \<open>p\<close>, in the form the builders use.\<close>

definition seq_at :: "bytes \<Rightarrow> int \<Rightarrow> bytes \<Rightarrow> bool" where
  "seq_at m p d \<longleftrightarrow> holds_at m p (des_bytes 6 d)"

text \<open>
  An operation appends \<open>x\<close>: to any sequence, when there is room behind it, and it leaves alone what is
  before the sequence.
\<close>

definition appends :: "(bytes \<Rightarrow> int \<Rightarrow> bytes outcome) \<Rightarrow> bytes \<Rightarrow> bool" where
  "appends F x \<longleftrightarrow>
     (\<forall>m p d. seq_at m p d \<longrightarrow> p + 3 + int (length d + length x) \<le> int (length m) \<longrightarrow> length d + length x < 65000 \<longrightarrow>
       (\<exists>m'. F m p = Ret m' \<and> seq_at m' p (d @ x) \<and> kept p m m'))"

lemma appendsE:
  assumes "appends F x" "seq_at m p d" "p + 3 + int (length d + length x) \<le> int (length m)" "length d + length x < 65000"
  obtains m' where "F m p = Ret m'" "seq_at m' p (d @ x)" "kept p m m'"
  using assms unfolding appends_def by blast

lemma seq_at_simp: "seq_at m p d \<longleftrightarrow> rd m p = Ret 0x36 \<and> holds_at m (p + 1) (be16 (of_nat (length d)) @ d)"
  by (simp add: seq_at_def des_bytes_def answer_header holds_at_Cons)

lemma seq_len: "seq_at m p d \<Longrightarrow> length d < 65000 \<Longrightarrow> de_get_len m p = Ret (3 + int (length d))"
  using des_len [of 6 d m p] by (simp add: seq_at_def des_fits_def des_bytes_def answer_header)

lemma seq_size:
  "seq_at m p d \<Longrightarrow> length d < 65000 \<Longrightarrow> big_endian_read_16 m p 1 = Ret (of_nat (length d))"
  using be16.read_enc [of m p 1 "of_nat (length d)"]
  by (simp add: seq_at_simp holds_at_append ucast_of_nat_u32)

text \<open>Writing behind the data, and the new size.\<close>

lemma seq_store:
  assumes "seq_at m p d" "length d + length x < 65000" "holds_at m (p + 3 + int (length d)) x"
  obtains m' where "big_endian_store_16 m p 1 (of_nat (length d + length x)) = Ret m'" "seq_at m' p (d @ x)" "kept p m m'"
proof -
  have "holds_at m p ([0x36] @ be16 (of_nat (length d)) @ d)"
    using assms(1) by (simp add: seq_at_def des_bytes_def answer_header)
  then have h: "holds_at m p [0x36]" "holds_at m (p + 1) (be16 (of_nat (length d)))" "holds_at m (p + 3) d"
    unfolding holds_at_append by (simp_all add: add.commute)
  have p: "0 \<le> p + 1" "p + 1 + int (length (be16 (of_nat (length d + length x)))) \<le> int (length m)"
    using holds_at_nonneg [OF h(1)] holds_at_nonneg [OF h(2)] by simp_all
  obtain m' where m': "wr_block m (p + 1) (be16 (of_nat (length d + length x))) = Ret m'" "length m' = length m"
      "holds_at m' (p + 1) (be16 (of_nat (length d + length x)))"
      "\<And>q xs. holds_at m q xs \<Longrightarrow> q + int (length xs) \<le> p + 1 \<or> p + 1 + int (length (be16 (of_nat (length d + length x)))) \<le> q \<Longrightarrow> holds_at m' q xs"
    by (rule wr_block_Ret [OF p]) (rule that)
  have "holds_at m' p [0x36]" "holds_at m' (p + 3) (d @ x)"
    using h(1,3) assms(3) by (intro m'(4); simp add: holds_at_append)+
  then have "holds_at m' p ([0x36] @ be16 (of_nat (length d + length x)) @ d @ x)"
    using m'(3) unfolding holds_at_append by (simp add: add.assoc)
  then have "seq_at m' p (d @ x)" by (simp add: seq_at_def des_bytes_def answer_header)
  moreover have "kept p m m'" using m'(2,4) holds_at_nonneg [OF h(1)] by (intro kept_frame) auto
  ultimately show ?thesis using m'(1) by (intro that [of m']) (simp_all add: be16.store_enc)
qed

lemma seq_append:
  assumes "seq_at m p d" "length d + length x < 65000" "p + 3 + int (length d + length x) \<le> int (length m)"
  obtains m1 m2 where "wr_block m (p + 3 + int (length d)) x = Ret m1"
    "big_endian_store_16 m1 p 1 (of_nat (length d + length x)) = Ret m2" "seq_at m2 p (d @ x)" "kept p m m2"
proof -
  have p: "0 \<le> p" using assms(1) by (simp add: seq_at_def holds_at_def)
  obtain m1 where m1: "wr_block m (p + 3 + int (length d)) x = Ret m1" "length m1 = length m"
      "holds_at m1 (p + 3 + int (length d)) x"
      "\<And>q xs. holds_at m q xs \<Longrightarrow> q + int (length xs) \<le> p + 3 + int (length d) \<or> p + 3 + int (length d) + int (length x) \<le> q \<Longrightarrow> holds_at m1 q xs"
    by (rule wr_block_Ret [of "p + 3 + int (length d)" x m]) (use assms(3) p in simp_all)
  have "seq_at m1 p d" using assms(1) m1(4) by (simp add: seq_at_def des_bytes_def answer_header)
  from seq_store [OF this assms(2) m1(3)] obtain m2 where
      m2: "big_endian_store_16 m1 p 1 (of_nat (length d + length x)) = Ret m2" "seq_at m2 p (d @ x)" "kept p m1 m2" .
  have "kept p m m1" using m1(2,4) p by (intro kept_frame) auto
  from kept_trans [OF this m2(3)] have "kept p m m2" by simp
  with m1(1) m2(1,2) show ?thesis by (rule that)
qed

text \<open>The operations of Sdp, in terms of one write behind the data.\<close>

lemma appendsI:
  assumes "\<And>m p ds. big_endian_read_16 m p 1 = Ret (of_nat ds) \<Longrightarrow> ds + length x < 65000 \<Longrightarrow> F m p =
      bind_outcome (wr_block m (p + 3 + int ds) x) (\<lambda>m. big_endian_store_16 m p 1 (of_nat (ds + length x)))"
  shows "appends F x"
  unfolding appends_def
proof (intro allI impI)
  fix m p d
  assume a: "seq_at m p d" "p + 3 + int (length d + length x) \<le> int (length m)" "length d + length x < 65000"
  obtain m1 m2 where "wr_block m (p + 3 + int (length d)) x = Ret m1"
      "big_endian_store_16 m1 p 1 (of_nat (length d + length x)) = Ret m2" "seq_at m2 p (d @ x)" "kept p m m2"
    by (rule seq_append [OF a(1,3,2)])
  moreover have "F m p = bind_outcome (wr_block m (p + 3 + int (length d)) x) (\<lambda>m. big_endian_store_16 m p 1 (of_nat (length d + length x)))"
    using a by (intro assms seq_size) simp_all
  ultimately show "\<exists>m'. F m p = Ret m' \<and> seq_at m' p (d @ x) \<and> kept p m m'" by simp
qed

lemma uint_size: "ds < 65536 \<Longrightarrow> uint (of_nat ds :: u32) = int ds" "ds < 65536 \<Longrightarrow> uint (word_of_int (int ds) :: u16) = int ds"
  by (simp_all add: unsigned_of_nat unsigned_of_int take_bit_nat_eq_self take_bit_int_eq_self)

lemma store_behind:
  assumes "ds < 65000"
  shows "big_endian_store_16 m p (4 + of_nat ds) v = wr_block m (p + 3 + int ds + 1) (be16 v)"
    "big_endian_store_32 m p (4 + of_nat ds) w = wr_block m (p + 3 + int ds + 1) (be32 w)"
proof -
  have "unat (of_nat (4 + ds) :: u16) = 4 + ds" using assms by (intro u16_of_nat) simp
  then have u: "unat (4 + of_nat ds :: u16) = 4 + ds" by simp
  then have i: "uint (4 + of_nat ds :: u16) = 4 + int ds" by (simp only: uint_nat)
  show "big_endian_store_16 m p (4 + of_nat ds) v = wr_block m (p + 3 + int ds + 1) (be16 v)"
    "big_endian_store_32 m p (4 + of_nat ds) w = wr_block m (p + 3 + int ds + 1) (be32 w)"
    using assms arg_cong [of "p + (4 + int ds)" "p + 3 + int ds + 1" "\<lambda>q. wr_block m q xs" for xs]
    by (simp_all add: be16.store_enc be32.store_enc u i)
qed

text \<open>A header and what follows it are one write.\<close>

lemma write_then:
  "q = p + 1 \<Longrightarrow> bind_outcome (wr m p v) (\<lambda>m. bind_outcome (wr_block m q ys) f) = bind_outcome (wr_block m p (v # ys)) f"
  "q = p + int (length xs) \<Longrightarrow>
    bind_outcome (wr_block m p xs) (\<lambda>m. bind_outcome (wr_block m q ys) f) = bind_outcome (wr_block m p (xs @ ys)) f"
proof -
  have assoc: "bind_outcome a (\<lambda>m. bind_outcome (b m) f) = bind_outcome (bind_outcome a b) f"
    for a :: "bytes outcome" and b :: "bytes \<Rightarrow> bytes outcome" by (cases a) simp_all
  show "q = p + 1 \<Longrightarrow> bind_outcome (wr m p v) (\<lambda>m. bind_outcome (wr_block m q ys) f) = bind_outcome (wr_block m p (v # ys)) f"
    unfolding assoc by (simp add: wr_bind_block)
  have "bind_outcome (wr_block m p xs) (\<lambda>m. wr_block m (p + int (length xs)) ys) = wr_block m p (xs @ ys)"
  proof (cases "wr_block m p xs")
    case Undef
    then show ?thesis by (auto simp: wr_block_def split: if_splits)
  qed (simp add: wr_block_append)
  then show "q = p + int (length xs) \<Longrightarrow> bind_outcome (wr_block m p xs) (\<lambda>m. bind_outcome (wr_block m q ys) f) =
      bind_outcome (wr_block m p (xs @ ys)) f"
    unfolding assoc by simp
qed

lemma bind_pair: "bind_outcome (bind_outcome a (\<lambda>m. Ret (m, k))) (\<lambda>(m, k). g m k) = bind_outcome a (\<lambda>m. g m k)"
  by (cases a) simp_all

lemma appends_u8: "ty \<noteq> 0 \<Longrightarrow> appends (\<lambda>m p. de_add_number m p ty 0 v) [push_bit 3 ty, ucast v]"
  by (rule appendsI)
    (simp add: de_add_number_def de_store_descriptor_def uint_size Let_def bind_pair write_then wr_as_block [of _ _ "ucast v"] add.commute)

lemma appends_u16: "appends (\<lambda>m p. de_add_number m p ty 1 v) ((push_bit 3 ty OR 1) # be16 (ucast v))"
  by (rule appendsI)
    (simp add: de_add_number_def de_store_descriptor_def uint_size store_behind Let_def bind_pair write_then)

lemma appends_u32: "appends (\<lambda>m p. de_add_number m p ty 2 v) ((push_bit 3 ty OR 2) # be32 v)"
  by (rule appendsI)
    (simp add: de_add_number_def de_store_descriptor_def uint_size store_behind Let_def bind_pair write_then)

lemma appends_uuid128: "length uuid = 16 \<Longrightarrow> appends (\<lambda>m p. de_add_uuid128 m p uuid) (0x1C # uuid)"
  by (rule appendsI)
    (simp add: de_add_uuid128_def de_store_descriptor_def uint_size Let_def write_then rd_block_def add.commute)

text \<open>A string, as \<open>de_add_data\<close> writes it.\<close>

definition text_elem :: "bytes \<Rightarrow> bytes" where
  "text_elem t = (if length t < 256 then [0x25, of_nat (length t)] else 0x26 # be16 (of_nat (length t))) @ t"

lemma descriptor_len:
  "de_store_descriptor_with_len m p DE_STRING 5 v = wr_block m p [0x25, ucast v]"
  "de_store_descriptor_with_len m p DE_STRING 6 v = wr_block m p (0x26 # be16 (ucast v))"
  by (simp_all add: de_store_descriptor_with_len_def be16.store_enc wr_bind_block wr_as_block [of _ "p + 1"])

lemma appends_text:
  assumes "length t < 64000" "rd_block buf 0 (length t) = Ret t"
  shows "appends (\<lambda>m p. de_add_data m p DE_STRING (of_nat (length t)) buf) (text_elem t)"
proof -
  have u: "unat (of_nat (length t) :: u16) = length t" "uint (of_nat (length t) :: u16) = int (length t)"
    using assms(1) by (simp_all add: uint_u16_of_nat)
  have big: "(0xFF < (of_nat (length t) :: u16)) \<longleftrightarrow> 256 \<le> length t"
    using less_u16 [of 255 "length t"] assms(1) by auto
  have pos: "(0 < (of_nat (length t) :: u16)) \<longleftrightarrow> t \<noteq> []"
    using less_u16 [of 0 "length t"] assms(1) by auto
  have c: "ucast (ucast (of_nat (length t) :: u16) :: u32) = (of_nat (length t) :: u16)"
    "length t < 256 \<Longrightarrow> ucast (ucast (of_nat (length t) :: u16) :: u32) = (of_nat (length t) :: byte)"
    using assms(1) by (simp_all add: ucast_of_nat_u32 unsigned_of_nat take_bit_nat_eq_self)
  show ?thesis
  proof (rule appendsI)
    fix m p ds
    assume r: "big_endian_read_16 m p 1 = Ret (of_nat ds)" "ds + length (text_elem t) < 65000"
    have ds: "uint (of_nat ds :: u32) = int ds" using r(2) by (intro uint_size) simp
    show "de_add_data m p DE_STRING (of_nat (length t)) buf =
        bind_outcome (wr_block m (p + 3 + int ds) (text_elem t)) (\<lambda>m. big_endian_store_16 m p 1 (of_nat (ds + length (text_elem t))))"
    proof (cases "256 \<le> length t")
      case True
      then have "t \<noteq> []" by auto
      with True show ?thesis
        using r ds assms(2) by (simp add: ucast_of_nat_u16 de_add_data_def Let_def big pos u c descriptor_len text_elem_def bind_pair write_then ac_simps)
    next
      case False
      then show ?thesis
        using r ds assms(2)
        by (cases "t = []") (simp_all add: de_add_data_def Let_def big pos u c descriptor_len text_elem_def bind_pair write_then ac_simps)
    qed
  qed
qed

subsection \<open>Operations one after the other, and nested sequences\<close>

lemma appends_bind:
  assumes "appends F x" "appends G y"
  shows "appends (\<lambda>m p. bind_outcome (F m p) (\<lambda>m. G m p)) (x @ y)"
  unfolding appends_def
proof (intro allI impI)
  fix m p d
  assume a: "seq_at m p d" "p + 3 + int (length d + length (x @ y)) \<le> int (length m)" "length d + length (x @ y) < 65000"
  from a(2,3) have "p + 3 + int (length d + length x) \<le> int (length m)" "length d + length x < 65000" by simp_all
  from appendsE [OF assms(1) a(1) this] obtain m1 where m1: "F m p = Ret m1" "seq_at m1 p (d @ x)" "kept p m m1" .
  have "p + 3 + int (length (d @ x) + length y) \<le> int (length m1)" "length (d @ x) + length y < 65000"
    using a(2,3) kept_length [OF m1(3)] by simp_all
  from appendsE [OF assms(2) m1(2) this] obtain m2 where m2: "G m1 p = Ret m2" "seq_at m2 p ((d @ x) @ y)" "kept p m1 m2" .
  with kept_trans [OF m1(3) m2(3)] m1(1)
  show "\<exists>m'. bind_outcome (F m p) (\<lambda>m. G m p) = Ret m' \<and> seq_at m' p (d @ x @ y) \<and> kept p m m'" by simp
qed

lemma appends_seq:
  assumes "appends F x"
  shows "appends (\<lambda>m p. bind_outcome (de_push_sequence m p) (\<lambda>(m, q). bind_outcome (F m q) (\<lambda>m. de_pop_sequence m p q))) (des_bytes 6 x)"
  unfolding appends_def
proof (intro allI impI)
  fix m p d
  assume a: "seq_at m p d" "p + 3 + int (length d + length (des_bytes 6 x)) \<le> int (length m)" "length d + length (des_bytes 6 x) < 65000"
  have len: "length (des_bytes 6 x) = 3 + length x" by (simp add: des_bytes_def answer_header)
  let ?q = "p + 3 + int (length d)"
  have p: "0 \<le> p" using a(1) by (simp add: seq_at_def holds_at_def)
  obtain m1 where m1: "wr_block m ?q (des_bytes 6 []) = Ret m1" "length m1 = length m" "holds_at m1 ?q (des_bytes 6 [])"
      "\<And>r xs. holds_at m r xs \<Longrightarrow> r + int (length xs) \<le> ?q \<or> ?q + int (length (des_bytes 6 [])) \<le> r \<Longrightarrow> holds_at m1 r xs"
    by (rule wr_block_Ret [of ?q "des_bytes 6 []" m]) (use a(2) p len in \<open>simp_all add: des_bytes_def answer_header\<close>)
  have push: "de_push_sequence m p = Ret (m1, ?q)"
    using m1(1) seq_len [OF a(1)] a(3)
    by (simp add: de_push_sequence_def store_des16 des_bytes_def answer_header add.assoc)
  have "seq_at m1 ?q []" "seq_at m1 p d"
    using m1(3,4) a(1) by (simp_all add: seq_at_def des_bytes_def answer_header)
  moreover have "?q + 3 + int (length ([] :: bytes) + length x) \<le> int (length m1)" "length ([] :: bytes) + length x < 65000"
    using a(2,3) len m1(2) by simp_all
  ultimately obtain m2 where m2: "F m1 ?q = Ret m2" "seq_at m2 ?q ([] @ x)" "kept ?q m1 m2"
    using assms by (auto elim: appendsE)
  have sub: "holds_at m2 ?q (des_bytes 6 x)" using m2(2) by (simp add: seq_at_def)
  have at: "seq_at m2 p d"
    using \<open>seq_at m1 p d\<close> kept_holds [OF m2(3)] by (simp add: seq_at_def des_bytes_def answer_header)
  have child: "de_get_len m2 ?q = Ret (3 + int (length x))"
    using seq_len [OF m2(2)] a(3) len by simp
  from seq_store [OF at a(3) sub] obtain m3 where
      m3: "big_endian_store_16 m2 p 1 (of_nat (length d + length (des_bytes 6 x))) = Ret m3"
        "seq_at m3 p (d @ des_bytes 6 x)" "kept p m2 m3" .
  have "(word_of_int (int (length d) + (3 + int (length x))) :: u16) = of_nat (length d + length (des_bytes 6 x))"
    by (simp add: len)
  then have "de_pop_sequence m2 p ?q = Ret m3"
    using child seq_size [OF at] m3(1) a(3) by (simp add: de_pop_sequence_def uint_size)
  moreover have "kept p m m1" using m1(2,4) p by (intro kept_frame) auto
  then have "kept p m m2" using m2(3) by (rule kept_trans) simp
  then have "kept p m m3" using m3(3) by (rule kept_trans) simp
  ultimately show "\<exists>m'. bind_outcome (de_push_sequence m p) (\<lambda>(m, q). bind_outcome (F m q) (\<lambda>m. de_pop_sequence m p q)) = Ret m' \<and>
      seq_at m' p (d @ des_bytes 6 x) \<and> kept p m m'"
    using push m2(1) m3(2) by simp
qed

subsection \<open>The record of a serial port\<close>

definition uuid_elem :: "bytes option \<Rightarrow> bytes" where
  "uuid_elem u = (case u of None \<Rightarrow> [0x19, 0x11, 0x01] | Some uuid \<Rightarrow> 0x1C # uuid)"

text \<open>The attributes of the record.\<close>

definition spp_attrs :: "u32 \<Rightarrow> bytes option \<Rightarrow> byte \<Rightarrow> bytes \<Rightarrow> (u16 \<times> bytes) list" where
  "spp_attrs h u channel name =
     [(0x0000, 0x0A # be32 h),
      (0x0001, des_bytes 6 (uuid_elem u)),
      (0x0004, des_bytes 6 (des_bytes 6 [0x19, 0x01, 0x00] @ des_bytes 6 ([0x19, 0x00, 0x03] @ [0x08, channel]))),
      (0x0005, des_bytes 6 [0x19, 0x10, 0x02]),
      (0x0006, des_bytes 6 ([0x09, 0x65, 0x6E] @ [0x09, 0x00, 0x6A] @ [0x09, 0x01, 0x00])),
      (0x0009, des_bytes 6 (des_bytes 6 ([0x19, 0x11, 0x01] @ [0x09, 0x11, 0x02]))),
      (0x0100, text_elem name)]"

lemma number_elems:
  "x = 0x09 # be16 (ucast v) \<Longrightarrow> appends (\<lambda>m p. de_add_number m p DE_UINT DE_SIZE_16 v) x"
  "x = 0x19 # be16 (ucast v) \<Longrightarrow> appends (\<lambda>m p. de_add_number m p DE_UUID DE_SIZE_16 v) x"
  "x = 0x0A # be32 v \<Longrightarrow> appends (\<lambda>m p. de_add_number m p DE_UINT DE_SIZE_32 v) x"
  "x = [0x08, ucast v] \<Longrightarrow> appends (\<lambda>m p. de_add_number m p DE_UINT DE_SIZE_8 v) x"
  using appends_u16 [of 1 v] appends_u16 [of 3 v] appends_u32 [of 1 v] appends_u8 [of 1 v] by simp_all

lemma appends_class:
  assumes "\<forall>uuid. u = Some uuid \<longrightarrow> length uuid = 16"
  shows "appends (\<lambda>m p. case u of None \<Rightarrow> de_add_number m p DE_UUID DE_SIZE_16 0x1101 | Some uuid \<Rightarrow> de_add_uuid128 m p uuid) (uuid_elem u)"
  using assms number_elems(2) [of "[0x19, 0x11, 0x01]" "0x1101"] appends_uuid128
  by (cases u) (simp_all add: uuid_elem_def be16_def)

lemma channel_byte: "(ucast (word_of_int ch :: u32) :: byte) = word_of_int ch"
  by (rule bit_word_eqI) (simp add: bit_simps)

lemmas appends_rules = appends_bind appends_seq number_elems

lemma spp_parts:
  "(\<forall>uuid. u = Some uuid \<longrightarrow> length uuid = 16) \<Longrightarrow> appends (spp_service_class u) ((0x09 # be16 1) @ des_bytes 6 (uuid_elem u))"
  "appends (spp_protocol_list ch) ((0x09 # be16 4) @
     des_bytes 6 (des_bytes 6 [0x19, 0x01, 0x00] @ des_bytes 6 ([0x19, 0x00, 0x03] @ [0x08, word_of_int ch])))"
  "appends spp_browse_group ((0x09 # be16 5) @ des_bytes 6 [0x19, 0x10, 0x02])"
  "appends spp_language_base ((0x09 # be16 6) @ des_bytes 6 ([0x09, 0x65, 0x6E] @ [0x09, 0x00, 0x6A] @ [0x09, 0x01, 0x00]))"
  "appends spp_profile_list ((0x09 # be16 9) @ des_bytes 6 (des_bytes 6 ([0x19, 0x11, 0x01] @ [0x09, 0x11, 0x02])))"
  unfolding spp_service_class_def [abs_def] spp_protocol_list_def [abs_def] spp_browse_group_def [abs_def]
    spp_language_base_def [abs_def] spp_profile_list_def [abs_def]
  by (intro appends_rules appends_class; simp add: be16_def channel_byte)+

lemma spp_name_part:
  assumes "c_str name \<noteq> name" "length (c_str name) < 64000"
  shows "appends (spp_service_name name) ((0x09 # be16 0x0100) @ text_elem (c_str name))"
proof -
  have z: "0 \<in> set name" using assms(1) by (auto simp: c_str_def takeWhile_eq_all_conv)
  have "rd_block name 0 (length (c_str name)) = Ret (c_str name)"
    by (simp add: rd_block_def length_c_str_le) (metis c_str_def takeWhile_eq_take)
  note elem = appends_text [OF assms(2) this]
  have id: "appends (\<lambda>m p. de_add_number m p DE_UINT DE_SIZE_16 0x0100) (0x09 # be16 0x0100)"
    by (rule number_elems) (simp add: be16_def)
  show ?thesis
    unfolding spp_service_name_def [abs_def] strlen_def using appends_bind [OF id elem] z by simp
qed

lemma appends_created:
  assumes "appends F x" "0 \<le> p" "p + 3 + int (length x) \<le> int (length m)" "length x < 65000"
  shows "\<exists>m'. bind_outcome (de_create_sequence m p) (\<lambda>m. F m p) = Ret m' \<and> holds_at m' p (des_bytes 6 x)"
proof -
  obtain m1 where m1: "wr_block m p (des_bytes 6 []) = Ret m1" "length m1 = length m" "holds_at m1 p (des_bytes 6 [])"
    by (rule wr_block_Ret [of p "des_bytes 6 []" m]) (use assms(2,3) in \<open>simp_all add: des_bytes_def answer_header\<close>)
  have "de_create_sequence m p = Ret m1"
    using m1(1) by (simp add: de_create_sequence_def store_des16 des_bytes_def answer_header)
  moreover obtain m2 where "F m1 p = Ret m2" "seq_at m2 p ([] @ x)"
    by (rule appendsE [OF assms(1), of m1 p "[]"]) (use m1(2,3) assms(3,4) in \<open>simp_all add: seq_at_def\<close>)
  ultimately show ?thesis by (simp add: seq_at_def)
qed

text \<open>The elements of the record have the length that their headers announce.\<close>

lemma text_elem_ok:
  assumes "length t < 64000"
  shows "elem_ok (text_elem t)"
proof (cases "length t < 256")
  case True
  have "(2 :: u32) + ucast (of_nat (length t) :: byte) = of_nat (2 + length t)"
    using True by (simp add: ucast_of_nat_u32)
  then show ?thesis
    using True sint_of_nat_u32 [of "2 + length t"]
    by (simp add: text_elem_def elem_ok_def de_get_len_def de_get_header_size_def de_get_data_size_def de_get_size_type_def
        de_get_element_type_def rd_def del: of_nat_add)
next
  case False
  have "(3 :: u32) + ucast (of_nat (length t) :: u16) = of_nat (3 + length t)"
    using assms by (simp add: ucast_of_nat_u32)
  moreover have "big_endian_read_16 (text_elem t) 0 1 = Ret (ucast (of_nat (length t) :: u16))"
    using False holds_at_intro [of 1 "[0x26]" "be16 (of_nat (length t))" t] by (intro be16.read_enc) (simp add: text_elem_def)
  ultimately show ?thesis
    using False assms sint_of_nat_u32 [of "3 + length t"]
    by (simp add: elem_ok_def de_get_len_def de_get_header_size_def de_get_data_size_def de_get_size_type_def
        de_get_element_type_def rd_def del: of_nat_add) (simp add: text_elem_def)
qed

lemma length_des6: "length (des_bytes 6 d) = 3 + length d"
  by (simp add: des_bytes_def answer_header)

lemma spp_attrs_ok:
  assumes "\<forall>uuid. u = Some uuid \<longrightarrow> length uuid = 16" "length name < 64000"
  shows "\<forall>(i, e) \<in> set (spp_attrs h u ch name). elem_ok e"
proof -
  have "elem_ok (0x0A # be32 h)"
    by (simp add: elem_ok_def be32_def de_get_len_def de_get_header_size_def de_get_size_type_def rd_def de_get_data_size_def
        de_get_element_type_def)
  moreover have "length (uuid_elem u) < 256" using assms(1) by (auto simp: uuid_elem_def split: option.split)
  ultimately show ?thesis
    using text_elem_ok [OF assms(2)] by (simp add: spp_attrs_def des_elem_ok des_fits_def length_des6)
qed

lemma spp_attrs_length:
  assumes "\<forall>uuid. u = Some uuid \<longrightarrow> length uuid = 16"
  shows "length (attrs_bytes (spp_attrs h u ch name)) \<le> 110 + length name"
  using assms by (auto simp: spp_attrs_def des_bytes_def answer_header uuid_elem_def text_elem_def be32_def split: option.split)

text \<open>The record is written as announced, into a buffer that is large enough.\<close>

lemma record_created:
  assumes "\<forall>uuid. u = Some uuid \<longrightarrow> length uuid = 16" "c_str name \<noteq> name" "length (c_str name) < 64000"
    and "0 \<le> p" "p + 113 + int (length (c_str name)) \<le> int (length m)"
  shows "\<exists>m'. spp_create_sdp_record_internal m p h u ch name = Ret m' \<and>
    record_at m' p 6 (spp_attrs h u (word_of_int ch) (c_str name))"
proof -
  let ?as = "spp_attrs h u (word_of_int ch) (c_str name)"
  have "appends (\<lambda>m p.
     bind_outcome (de_add_number m p DE_UINT DE_SIZE_16 0x0000) (\<lambda>m.
     bind_outcome (de_add_number m p DE_UINT DE_SIZE_32 h) (\<lambda>m.
     bind_outcome (spp_service_class u m p) (\<lambda>m.
     bind_outcome (spp_protocol_list ch m p) (\<lambda>m.
     bind_outcome (spp_browse_group m p) (\<lambda>m.
     bind_outcome (spp_language_base m p) (\<lambda>m.
     bind_outcome (spp_profile_list m p) (\<lambda>m.
     spp_service_name name m p))))))))
    ((0x09 # be16 0) @ (0x0A # be32 h) @ ((0x09 # be16 1) @ des_bytes 6 (uuid_elem u)) @
     ((0x09 # be16 4) @ des_bytes 6 (des_bytes 6 [0x19, 0x01, 0x00] @ des_bytes 6 ([0x19, 0x00, 0x03] @ [0x08, word_of_int ch]))) @
     ((0x09 # be16 5) @ des_bytes 6 [0x19, 0x10, 0x02]) @
     ((0x09 # be16 6) @ des_bytes 6 ([0x09, 0x65, 0x6E] @ [0x09, 0x00, 0x6A] @ [0x09, 0x01, 0x00])) @
     ((0x09 # be16 9) @ des_bytes 6 (des_bytes 6 ([0x19, 0x11, 0x01] @ [0x09, 0x11, 0x02]))) @
     ((0x09 # be16 0x0100) @ text_elem (c_str name)))" (is "appends ?F ?x")
    by (intro appends_bind number_elems spp_parts spp_name_part assms(1-3)) (simp_all add: be16_def)
  moreover have x: "?x = attrs_bytes ?as" by (simp add: spp_attrs_def attr_bytes_def)
  ultimately have F: "appends ?F (attrs_bytes ?as)" by simp
  have len: "length (attrs_bytes ?as) \<le> 110 + length (c_str name)" by (rule spp_attrs_length [OF assms(1)])
  have "\<exists>m'. bind_outcome (de_create_sequence m p) (\<lambda>m. ?F m p) = Ret m' \<and> holds_at m' p (des_bytes 6 (attrs_bytes ?as))"
    by (rule appends_created [OF F assms(4)]) (use len assms(3,5) in simp_all)
  then show ?thesis
    using spp_attrs_ok [OF assms(1,3), of h "word_of_int ch"] len assms(3)
    by (auto simp: spp_create_sdp_record_internal_def record_at_def des_fits_def)
qed

end
