(* ===== verification/RfcommQuery.thy ===== *)
theory RfcommQuery
  imports SppServer SdpParser
begin

text \<open>
  \<^verbatim>\<open>btstack-rootless/src/classic/sdp_client_rfcomm.c\<close>: a query of the SDP client that collects the
  RFCOMM channel and the name of each service that the peer announces.  It gets the values of the
  attributes byte by byte, as events of SdpClient, and calls the application with one event for each
  service.  A C \<open>int\<close> has 32 bits, an overflow is \<open>Undef\<close>.
\<close>

subsection \<open>State\<close>

abbreviation (input) SDP_SERVICE_NAME_LEN :: int where "SDP_SERVICE_NAME_LEN \<equiv> 20"

datatype pdl_state_t = GET_PROTOCOL_LIST_LENGTH | GET_PROTOCOL_LENGTH | GET_PROTOCOL_ID_HEADER_LENGTH | GET_PROTOCOL_ID |
  GET_PROTOCOL_VALUE_LENGTH | GET_PROTOCOL_VALUE

record rfcomm_query =
  sdp_service_name :: bytes
  sdp_service_name_len :: byte
  sdp_rfcomm_channel_nr :: byte
  sdp_service_name_header_size :: byte
  pdl_state :: pdl_state_t
  protocol_value_bytes_received :: int
  protocol_id :: u16
  protocol_offset :: int
  protocol_size :: int
  protocol_id_bytes_to_read :: int
  protocol_value_size :: int
  pdl_header_state :: de_state
  sn_de_header_state :: de_state
  sdp_app_callback :: nat

definition query_start :: rfcomm_query where
  "query_start = \<lparr>sdp_service_name = replicate 21 0, sdp_service_name_len = 0, sdp_rfcomm_channel_nr = 0,
     sdp_service_name_header_size = 0, pdl_state = GET_PROTOCOL_LIST_LENGTH, protocol_value_bytes_received = 0,
     protocol_id = 0, protocol_offset = 0, protocol_size = 0, protocol_id_bytes_to_read = 0, protocol_value_size = 0,
     pdl_header_state = \<lparr>in_state_GET_DE_HEADER_LENGTH = False, addon_header_bytes = 0, de_size = 0, de_offset = 0\<rparr>,
     sn_de_header_state = \<lparr>in_state_GET_DE_HEADER_LENGTH = False, addon_header_bytes = 0, de_size = 0, de_offset = 0\<rparr>,
     sdp_app_callback = 0\<rparr>"

text \<open>A call of the application: the callback and the event.\<close>

type_synonym app_call = "nat \<times> bytes"

subsection \<open>The event for a service\<close>

text \<open>\<open>event\<close> is the local array of 24 bytes, with any content.\<close>

definition sdp_rfcomm_query_emit_service :: "bytes \<Rightarrow> rfcomm_query \<Rightarrow> (rfcomm_query \<times> app_call list) outcome" where
  "sdp_rfcomm_query_emit_service event q =
     bind_outcome (wr event 0 0x92) (\<lambda>event.
     bind_outcome (wr event 1 (sdp_service_name_len q + 1)) (\<lambda>event.
     bind_outcome (wr event 2 (sdp_rfcomm_channel_nr q)) (\<lambda>event.
     bind_outcome (rd_block (sdp_service_name q) 0 (unat (sdp_service_name_len q))) (\<lambda>bs.
     bind_outcome (wr_block event 3 bs) (\<lambda>event.
     bind_outcome (wr event (3 + uint (sdp_service_name_len q)) 0) (\<lambda>event.
     Ret (q\<lparr>sdp_rfcomm_channel_nr := 0\<rparr>, [(sdp_app_callback q, event)])))))))"

subsection \<open>Attribute values\<close>

definition sdp_client_query_rfcomm_handle_protocol_descriptor_list_data :: "u32 \<Rightarrow> byte \<Rightarrow> rfcomm_query \<Rightarrow> rfcomm_query outcome" where
  "sdp_client_query_rfcomm_handle_protocol_descriptor_list_data data_offset data q =
     (let q = (if data_offset = 0 then q\<lparr>pdl_state := GET_PROTOCOL_LIST_LENGTH\<rparr> else q) in
      case pdl_state q of
        GET_PROTOCOL_LIST_LENGTH \<Rightarrow>
          bind_outcome (de_state_size data (pdl_header_state q)) (\<lambda>(d, complete).
          let q = q\<lparr>pdl_header_state := d\<rparr> in
          if \<not> complete then Ret q else Ret (q\<lparr>pdl_state := GET_PROTOCOL_LENGTH\<rparr>))
      | GET_PROTOCOL_LENGTH \<Rightarrow>
          bind_outcome (de_state_size data (pdl_header_state q)) (\<lambda>(d, complete).
          let q = q\<lparr>pdl_header_state := d\<rparr> in
          if \<not> complete then Ret q
          else Ret (q\<lparr>protocol_offset := sint (de_offset d), protocol_size := sint (de_size d),
                     pdl_state := GET_PROTOCOL_ID_HEADER_LENGTH\<rparr>))
      | GET_PROTOCOL_ID_HEADER_LENGTH \<Rightarrow>
          bind_outcome (add_int (protocol_offset q) 1) (\<lambda>off.
          bind_outcome (de_state_size data (pdl_header_state q)) (\<lambda>(d, complete).
          let q = q\<lparr>protocol_offset := off, pdl_header_state := d\<rparr> in
          if \<not> complete then Ret q
          else Ret (q\<lparr>protocol_id := 0, protocol_id_bytes_to_read := sint (de_size d), pdl_state := GET_PROTOCOL_ID\<rparr>)))
      | GET_PROTOCOL_ID \<Rightarrow>
          bind_outcome (add_int (protocol_offset q) 1) (\<lambda>off.
          bind_outcome (add_int (protocol_id_bytes_to_read q) (- 1)) (\<lambda>left.
          let q = q\<lparr>protocol_offset := off, protocol_id := push_bit 8 (protocol_id q) OR ucast data,
                    protocol_id_bytes_to_read := left\<rparr> in
          if protocol_id_bytes_to_read q > 0 then Ret q
          else if protocol_offset q \<ge> protocol_size q then Ret (q\<lparr>pdl_state := GET_PROTOCOL_LENGTH\<rparr>)
          else Ret (q\<lparr>pdl_state := GET_PROTOCOL_VALUE_LENGTH, protocol_value_bytes_received := 0\<rparr>)))
      | GET_PROTOCOL_VALUE_LENGTH \<Rightarrow>
          bind_outcome (add_int (protocol_offset q) 1) (\<lambda>off.
          bind_outcome (de_state_size data (pdl_header_state q)) (\<lambda>(d, complete).
          let q = q\<lparr>protocol_offset := off, pdl_header_state := d\<rparr> in
          if \<not> complete then Ret q
          else Ret (q\<lparr>protocol_value_size := sint (de_size d), pdl_state := GET_PROTOCOL_VALUE, sdp_rfcomm_channel_nr := 0\<rparr>)))
      | GET_PROTOCOL_VALUE \<Rightarrow>
          bind_outcome (add_int (protocol_offset q) 1) (\<lambda>off.
          bind_outcome (add_int (protocol_value_bytes_received q) 1) (\<lambda>received.
          let q = q\<lparr>protocol_offset := off, protocol_value_bytes_received := received\<rparr> in
          if protocol_value_bytes_received q < protocol_value_size q then Ret q
          else
            let q = (if protocol_id q = 0x0003 then q\<lparr>sdp_rfcomm_channel_nr := data\<rparr> else q) in
            if protocol_offset q \<ge> protocol_size q then Ret (q\<lparr>pdl_state := GET_PROTOCOL_LENGTH\<rparr>)
            else Ret (q\<lparr>pdl_state := GET_PROTOCOL_ID_HEADER_LENGTH\<rparr>))))"

text \<open>A byte of the name, terminated when the name or the buffer is complete.\<close>

definition service_name_byte :: "int \<Rightarrow> int \<Rightarrow> byte \<Rightarrow> rfcomm_query \<Rightarrow> rfcomm_query outcome" where
  "service_name_byte name_len name_pos data q =
     (if name_pos < SDP_SERVICE_NAME_LEN then
        bind_outcome (wr (sdp_service_name q) name_pos data) (\<lambda>name.
        let q = q\<lparr>sdp_service_name := name\<rparr>; name_pos = name_pos + 1 in
        bind_outcome
          (if name_pos \<ge> name_len then
             bind_outcome (wr (sdp_service_name q) name_pos 0) (\<lambda>name.
             Ret (q\<lparr>sdp_service_name := name, sdp_service_name_len := word_of_int name_pos\<rparr>))
           else Ret q) (\<lambda>q.
        if name_pos = SDP_SERVICE_NAME_LEN then
          bind_outcome (wr (sdp_service_name q) name_pos 0) (\<lambda>name.
          Ret (q\<lparr>sdp_service_name := name, sdp_service_name_len := word_of_int name_pos\<rparr>))
        else Ret q))
      else Ret q)"

definition sdp_client_query_rfcomm_handle_service_name_data :: "bytes \<Rightarrow> u32 \<Rightarrow> u32 \<Rightarrow> byte \<Rightarrow> rfcomm_query \<Rightarrow>
    (rfcomm_query \<times> app_call list) outcome" where
  "sdp_client_query_rfcomm_handle_service_name_data event attribute_value_length data_offset data q =
     (if data_offset = 0 then
        bind_outcome (de_state_size data (sn_de_header_state q)) (\<lambda>(d, complete).
        Ret (q\<lparr>sn_de_header_state := d, sdp_service_name_header_size := ucast (addon_header_bytes d + 1)\<rparr>, []))
      else if data_offset < ucast (sdp_service_name_header_size q) then
        bind_outcome (de_state_size data (sn_de_header_state q)) (\<lambda>(d, complete). Ret (q\<lparr>sn_de_header_state := d\<rparr>, []))
      else
        let name_len = sint (attribute_value_length - ucast (sdp_service_name_header_size q));
            name_pos = sint (data_offset - ucast (sdp_service_name_header_size q)) in
        bind_outcome (service_name_byte name_len name_pos data q) (\<lambda>q.
        if data_offset = attribute_value_length - 1 \<and> sdp_rfcomm_channel_nr q \<noteq> 0 then sdp_rfcomm_query_emit_service event q
        else Ret (q, [])))"

text \<open>A service without a name is announced when the next record starts, or at the end of the query.\<close>

definition emit_nameless :: "bytes \<Rightarrow> rfcomm_query \<Rightarrow> (rfcomm_query \<times> app_call list) outcome" where
  "emit_nameless event q = (if sdp_rfcomm_channel_nr q \<noteq> 0 then sdp_rfcomm_query_emit_service event q else Ret (q, []))"

definition sdp_client_query_rfcomm_handle_sdp_parser_event :: "bytes \<Rightarrow> bytes \<Rightarrow> rfcomm_query \<Rightarrow>
    (rfcomm_query \<times> app_call list) outcome" where
  "sdp_client_query_rfcomm_handle_sdp_parser_event event packet q =
     bind_outcome (rd packet 0) (\<lambda>ty.
     if ty = 0x95 then
       bind_outcome (emit_nameless event q) (\<lambda>(q, calls).
       bind_outcome (wr (sdp_service_name q) 0 0) (\<lambda>name.
       Ret (q\<lparr>sdp_rfcomm_channel_nr := 0, sdp_service_name := name\<rparr>, calls)))
     else if ty = 0x94 then
       bind_outcome (little_endian_read_16 packet 0 4) (\<lambda>attribute.
       if attribute = 0x0004 then
         bind_outcome (little_endian_read_16 packet 0 8) (\<lambda>data_offset.
         bind_outcome (rd packet 10) (\<lambda>data.
         bind_outcome (sdp_client_query_rfcomm_handle_protocol_descriptor_list_data (ucast data_offset) data q) (\<lambda>q.
         Ret (q, []))))
       else if attribute = 0x0100 then
         bind_outcome (little_endian_read_16 packet 0 6) (\<lambda>attribute_length.
         bind_outcome (little_endian_read_16 packet 0 8) (\<lambda>data_offset.
         bind_outcome (rd packet 10) (\<lambda>data.
         sdp_client_query_rfcomm_handle_service_name_data event (ucast attribute_length) (ucast data_offset) data q)))
       else Ret (q, []))
     else if ty = 0x91 then
       bind_outcome (emit_nameless event q) (\<lambda>(q, calls).
       Ret (q, calls @ [(sdp_app_callback q, packet)]))
     else Ret (q, []))"

subsection \<open>Queries\<close>

definition sdp_client_query_rfcomm_init :: "rfcomm_query \<Rightarrow> rfcomm_query outcome" where
  "sdp_client_query_rfcomm_init q =
     bind_outcome (wr (sdp_service_name q) 0 0) (\<lambda>name.
     Ret (q\<lparr>pdl_header_state := de_state_init, sn_de_header_state := de_state_init, pdl_state := GET_PROTOCOL_LIST_LENGTH,
            protocol_offset := 0, sdp_rfcomm_channel_nr := 0, sdp_service_name := name\<rparr>))"

definition rfcomm_attributeIDList :: bytes where
  "rfcomm_attributeIDList = [0x35, 0x05, 0x0A, 0x00, 0x01, 0x01, 0x00]"

definition sdp_client_query_rfcomm_channel_and_name_for_search_pattern :: "sdp_client \<Rightarrow> byte \<Rightarrow> nat \<Rightarrow> bytes \<Rightarrow> rfcomm_query \<Rightarrow>
    (rfcomm_query \<times> sdp_client \<times> client_action list \<times> byte) outcome" where
  "sdp_client_query_rfcomm_channel_and_name_for_search_pattern c create_status callback pattern q =
     (if \<not> sdp_client_ready c then Ret (q, c, [], 0x84)
      else bind_outcome (sdp_client_query_rfcomm_init (q\<lparr>sdp_app_callback := callback\<rparr>)) (\<lambda>q.
        Ret (q, sdp_client_query c create_status pattern rfcomm_attributeIDList)))"

definition sdp_client_query_rfcomm_channel_and_name_for_uuid :: "sdp_client \<Rightarrow> byte \<Rightarrow> nat \<Rightarrow> u16 \<Rightarrow> rfcomm_query \<Rightarrow>
    (rfcomm_query \<times> sdp_client \<times> client_action list \<times> byte) outcome" where
  "sdp_client_query_rfcomm_channel_and_name_for_uuid c create_status callback uuid16 q =
     (if \<not> sdp_client_ready c then Ret (q, c, [], 0x84)
      else bind_outcome (sdp_service_search_pattern_for_uuid16 uuid16) (\<lambda>pattern.
        sdp_client_query_rfcomm_channel_and_name_for_search_pattern c create_status callback pattern q))"

definition sdp_client_query_rfcomm_channel_and_name_for_uuid128 :: "sdp_client \<Rightarrow> byte \<Rightarrow> nat \<Rightarrow> bytes \<Rightarrow> rfcomm_query \<Rightarrow>
    (rfcomm_query \<times> sdp_client \<times> client_action list \<times> byte) outcome" where
  "sdp_client_query_rfcomm_channel_and_name_for_uuid128 c create_status callback uuid128 q =
     (if \<not> sdp_client_ready c then Ret (q, c, [], 0x84)
      else bind_outcome (sdp_service_search_pattern_for_uuid128 uuid128) (\<lambda>pattern.
        sdp_client_query_rfcomm_channel_and_name_for_search_pattern c create_status callback pattern q))"

text \<open>A sequence of events; the local array of the \<open>k\<close>-th call has the content \<open>stack k\<close>.\<close>

fun query_events :: "(nat \<Rightarrow> bytes) \<Rightarrow> nat \<Rightarrow> bytes list \<Rightarrow> rfcomm_query \<Rightarrow> (rfcomm_query \<times> app_call list) outcome" where
  "query_events stack k [] q = Ret (q, [])"
| "query_events stack k (e # es) q =
     bind_outcome (sdp_client_query_rfcomm_handle_sdp_parser_event (stack k) e q) (\<lambda>(q, calls).
     bind_outcome (query_events stack (Suc k) es q) (\<lambda>(q, calls'). Ret (q, calls @ calls')))"

end
