(* ===== verification/SppProps.thy ===== *)
theory SppProps
  imports RfcommQuery SdpClientProps
begin

text \<open>
  A service that one side announces with a serial port record is found by the query of the other
  side: with its RFCOMM channel and its name.
\<close>

subsection \<open>Events\<close>

lemma query_events_append:
  "query_events stack k (es @ fs) q =
     bind_outcome (query_events stack k es q) (\<lambda>(q, calls).
     bind_outcome (query_events stack (k + length es) fs q) (\<lambda>(q, calls'). Ret (q, calls @ calls')))"
proof (induction es arbitrary: k q)
  case Nil
  then show ?case by (cases "query_events stack k fs q") auto
next
  case (Cons e es)
  show ?case
  proof (cases "sdp_client_query_rfcomm_handle_sdp_parser_event (stack k) e q")
    case (Ret r)
    obtain q1 c1 where r: "r = (q1, c1)" by (cases r)
    show ?thesis
    proof (cases "query_events stack (Suc k) es q1")
      case Undef
      then show ?thesis using Cons Ret r by simp
    next
      case (Ret r2)
      obtain q2 c2 where r2: "r2 = (q2, c2)" by (cases r2)
      show ?thesis using Cons \<open>_ = Ret r\<close> Ret r r2 by (cases "query_events stack (Suc (k + length es)) fs q2") auto
    qed
  qed simp
qed

lemma query_then:
  assumes "query_events stack k es q = Ret (q1, calls)" "query_events stack (k + length es) fs q1 = Ret (q2, calls')"
  shows "query_events stack k (es @ fs) q = Ret (q2, calls @ calls')"
  using assms by (simp add: query_events_append)

lemma value_event_reads:
  "rd (value_event r i sz k b) 0 = Ret 0x94" "rd (value_event r i sz k b) 10 = Ret b"
  "little_endian_read_16 (value_event r i sz k b) 0 4 = Ret i"
  "little_endian_read_16 (value_event r i sz k b) 0 6 = Ret (of_nat sz)"
  "little_endian_read_16 (value_event r i sz k b) 0 8 = Ret (of_nat k)"
proof -
  have h: "value_event r i sz k b = [0x94, 9] @ le16 (word_of_int r) @ le16 i @ le16 (of_nat sz) @ le16 (of_nat k) @ [b]"
    by (simp add: value_event_def)
  show "rd (value_event r i sz k b) 0 = Ret 0x94" "rd (value_event r i sz k b) 10 = Ret b"
    by (simp_all add: h rd_def le16_def be16_def)
  have "holds_at (value_event r i sz k b) 0 ([0x94, 9] @ le16 (word_of_int r) @ le16 i @ le16 (of_nat sz) @ le16 (of_nat k) @ [b])"
    using holds_at_self [of "value_event r i sz k b"] by (simp only: h)
  then have at: "holds_at (value_event r i sz k b) 4 (le16 i)" "holds_at (value_event r i sz k b) 6 (le16 (of_nat sz))"
    "holds_at (value_event r i sz k b) 8 (le16 (of_nat k))"
    unfolding holds_at_append by simp_all
  show "little_endian_read_16 (value_event r i sz k b) 0 4 = Ret i"
    "little_endian_read_16 (value_event r i sz k b) 0 6 = Ret (of_nat sz)"
    "little_endian_read_16 (value_event r i sz k b) 0 8 = Ret (of_nat k)"
    using le16.read_enc [of "value_event r i sz k b" 0 4 i] le16.read_enc [of "value_event r i sz k b" 0 6 "of_nat sz"]
      le16.read_enc [of "value_event r i sz k b" 0 8 "of_nat k"] at
    by simp_all
qed

text \<open>The handler on a byte of an attribute value.\<close>

lemma handle_value:
  "sdp_client_query_rfcomm_handle_sdp_parser_event event (value_event r i sz k b) q =
     (if i = 4 then
        bind_outcome (sdp_client_query_rfcomm_handle_protocol_descriptor_list_data (ucast (of_nat k :: u16)) b q) (\<lambda>q. Ret (q, []))
      else if i = 0x0100 then
        sdp_client_query_rfcomm_handle_service_name_data event (ucast (of_nat sz :: u16)) (ucast (of_nat k :: u16)) b q
      else Ret (q, []))"
  by (simp add: sdp_client_query_rfcomm_handle_sdp_parser_event_def value_event_reads)

lemma other_attribute:
  assumes "i \<noteq> 4" "i \<noteq> 0x0100"
  shows "query_events stack n (events_from r i sz k e) q = Ret (q, [])"
  by (induction e arbitrary: n k) (simp_all add: handle_value assms)

lemma length_events_from [simp]: "length (events_from r i sz k e) = length e"
  by (induction e arbitrary: k) simp_all

lemma length_value_events: "length (value_events r i e) = length e"
  by (simp add: value_events_def)

lemma other_value: "i \<noteq> 4 \<Longrightarrow> i \<noteq> 0x0100 \<Longrightarrow> query_events stack n (value_events r i e) q = Ret (q, [])"
  unfolding value_events_def by (rule query_then [where calls = "[]" and calls' = "[]", simplified]) (rule other_attribute; assumption)+

lemma skip_value:
  assumes "i \<noteq> 4" "i \<noteq> 0x0100"
  shows "query_events stack n (value_events r i e @ es) q = query_events stack (n + length e) es q"
  using other_value [OF assms, of stack n r e q]
  by (cases "query_events stack (n + length e) es q") (auto simp: query_events_append length_value_events)

subsection \<open>The protocol descriptor list\<close>

definition query_ready :: "rfcomm_query \<Rightarrow> bool" where
  "query_ready q \<longleftrightarrow> in_state_GET_DE_HEADER_LENGTH (pdl_header_state q) \<and> in_state_GET_DE_HEADER_LENGTH (sn_de_header_state q) \<and>
     length (sdp_service_name q) = 21"

abbreviation pdl_value :: "byte \<Rightarrow> bytes" where
  "pdl_value ch \<equiv> des_bytes 6 (des_bytes 6 [0x19, 0x01, 0x00] @ des_bytes 6 ([0x19, 0x00, 0x03] @ [0x08, ch]))"

lemma pdl_bytes:
  "pdl_value ch = [0x36, 0, 14, 0x36, 0, 3, 0x19, 0x01, 0x00, 0x36, 0, 5, 0x19, 0x00, 0x03, 0x08, ch]"
  by (simp add: des_bytes_def answer_header be16_def)

lemma header_length_des6: "header_length (des_bytes 6 d) = 3"
  by (simp add: header_length_def elem_size_def des_bytes_def answer_header)

lemma pdl_read:
  assumes "query_ready q"
  shows "\<exists>q'. query_events stack n (value_events r 4 (pdl_value ch)) q = Ret (q', []) \<and> query_ready q' \<and>
    sdp_rfcomm_channel_nr q' = ch \<and> sdp_app_callback q' = sdp_app_callback q \<and> sdp_service_name q' = sdp_service_name q \<and>
    sdp_service_name_len q' = sdp_service_name_len q"
proof -
  note step = sdp_client_query_rfcomm_handle_protocol_descriptor_list_data_def
  have h: "header_length (pdl_value ch) = 3" by (rule header_length_des6)
  show ?thesis
    unfolding value_events_def h unfolding pdl_bytes using assms
    by (simp add: handle_value step query_ready_def de_first_var de_next de_first_fixed add_int_def Let_def)
qed

subsection \<open>The service name\<close>

text \<open>The event of a service: its channel and its name, in an array whose rest is not written.\<close>

definition service_event :: "byte \<Rightarrow> bytes \<Rightarrow> bytes \<Rightarrow> bytes" where
  "service_event ch t event =
     (let w = [0x92, of_nat (length t) + 1, ch] @ t @ [0] in w @ drop (length w) event)"

lemma emit_service:
  assumes "length event = 24" "length t \<le> 20" "sdp_service_name_len q = of_nat (length t)"
    and "length (sdp_service_name q) = 21" "take (length t) (sdp_service_name q) = t"
  shows "sdp_rfcomm_query_emit_service event q =
    Ret (q\<lparr>sdp_rfcomm_channel_nr := 0\<rparr>, [(sdp_app_callback q, service_event (sdp_rfcomm_channel_nr q) t event)])"
proof -
  have l: "unat (sdp_service_name_len q) = length t" "uint (sdp_service_name_len q) = int (length t)"
    using assms(2,3) by (simp_all add: unsigned_of_nat take_bit_nat_eq_self)
  have rd: "rd_block (sdp_service_name q) 0 (length t) = Ret t"
    using assms(2,4,5) by (simp add: rd_block_def)
  let ?w = "[0x92, sdp_service_name_len q + 1, sdp_rfcomm_channel_nr q] @ t @ [0]"
  have "sdp_rfcomm_query_emit_service event q =
      bind_outcome (wr_block event 0 ?w) (\<lambda>event. Ret (q\<lparr>sdp_rfcomm_channel_nr := 0\<rparr>, [(sdp_app_callback q, event)]))"
    unfolding sdp_rfcomm_query_emit_service_def l wr_as_block by (simp add: write_then(2) rd)
  moreover have "wr_block event 0 ?w = Ret (?w @ drop (length ?w) event)"
    using assms(1,2) by (simp add: wr_block_def write_at_def)
  ultimately show ?thesis using assms(3) by (simp add: service_event_def)
qed

text \<open>After \<open>j\<close> bytes of the name \<open>t\<close>.\<close>

definition name_at :: "bytes \<Rightarrow> nat \<Rightarrow> rfcomm_query \<Rightarrow> bool" where
  "name_at t j q \<longleftrightarrow> length (sdp_service_name q) = 21 \<and> take (min j 20) (sdp_service_name q) = take (min j 20) t \<and>
     (20 \<le> j \<or> j = length t \<longrightarrow> sdp_service_name_len q = of_nat (min j 20))"

lemma take_update: "k < length xs \<Longrightarrow> take (Suc k) (xs[k := x]) = take k xs @ [x]"
  by (simp add: take_Suc_conv_app_nth)

lemma name_stored:
  assumes "name_at t j q" "j < length t" "length t < 65536"
  shows "\<exists>name l. service_name_byte (int (length t)) (int j) (t ! j) q =
      Ret (q\<lparr>sdp_service_name := name, sdp_service_name_len := l\<rparr>) \<and>
    name_at t (Suc j) (q\<lparr>sdp_service_name := name, sdp_service_name_len := l\<rparr>)"
proof (cases "j < 20")
  case True
  let ?N = "(sdp_service_name q)[j := t ! j]"
  have N: "length ?N = 21" "take (Suc j) ?N = take (Suc j) t"
    using assms(1,2) True by (simp_all add: name_at_def take_update take_Suc_conv_app_nth)
  have w: "wr (sdp_service_name q) (int j) (t ! j) = Ret ?N" "wr ?N (int j + 1) 0 = Ret (?N[Suc j := 0])"
    "wr (?N[Suc j := 0]) (int j + 1) 0 = Ret (?N[Suc j := 0])"
    using assms(1) True by (simp_all add: wr_def name_at_def nat_add_distrib)
  have l: "(word_of_int (int j + 1) :: byte) = of_nat (Suc j)" by simp
  show ?thesis
  proof (cases "Suc j = length t \<or> Suc j = 20")
    case stop: True
    have "take (Suc j) (?N[Suc j := 0]) = take (Suc j) t" using N(2) by simp
    then show ?thesis
      using True N(1) w l assms(2) stop
      by (intro exI [of _ "?N[Suc j := 0]"] exI [of _ "of_nat (Suc j)"])
        (cases "j = 19"; cases "Suc j = length t"; auto simp: service_name_byte_def name_at_def Let_def min_def simp flip: of_nat_Suc)
  next
    case False
    then show ?thesis
      using True N w assms(2)
      by (intro exI [of _ ?N] exI [of _ "sdp_service_name_len q"]) (simp add: service_name_byte_def name_at_def Let_def min_def)
  qed
next
  case False
  then show ?thesis
    using assms(1)
    by (intro exI [of _ "sdp_service_name q"] exI [of _ "sdp_service_name_len q"]) (auto simp: service_name_byte_def name_at_def)
qed

lemma u32_of_nat: "a < 65536 \<Longrightarrow> b < 65536 \<Longrightarrow> (of_nat a :: u32) = of_nat b \<longleftrightarrow> a = b"
  "a < 65536 \<Longrightarrow> b < 65536 \<Longrightarrow> (of_nat a :: u32) < of_nat b \<longleftrightarrow> a < b"
  by (simp_all add: word_eq_iff_unsigned [where ?'a = nat] word_less_nat_alt unat_of_nat_u32)

lemma name_byte:
  assumes "name_at t j q" "j < length t" "hs + length t < 65536" "1 \<le> hs" "hs < 256" "sdp_service_name_header_size q = of_nat hs"
    and "length event = 24" "sdp_rfcomm_channel_nr q \<noteq> 0"
  shows "\<exists>q'. sdp_client_query_rfcomm_handle_service_name_data event (ucast (of_nat (hs + length t) :: u16)) (ucast (of_nat (hs + j) :: u16)) (t ! j) q =
      Ret (q', if Suc j = length t then [(sdp_app_callback q, service_event (sdp_rfcomm_channel_nr q) (take 20 t) event)] else []) \<and>
    name_at t (Suc j) q' \<and> sdp_app_callback q' = sdp_app_callback q \<and> sdp_service_name_header_size q' = of_nat hs \<and>
    sdp_rfcomm_channel_nr q' = (if Suc j = length t then 0 else sdp_rfcomm_channel_nr q) \<and>
    pdl_header_state q' = pdl_header_state q \<and> sn_de_header_state q' = sn_de_header_state q"
proof -
  let ?len = "of_nat (hs + length t) :: u32" and ?off = "of_nat (hs + j) :: u32" and ?h = "of_nat hs :: u32"
  have small: "hs + length t < 65536" "hs + j < 65536" "hs < 65536" "length t < 65536" "j < 65536" using assms(2,3,5) by simp_all
  have w: "ucast (of_nat (hs + length t) :: u16) = ?len" "ucast (of_nat (hs + j) :: u16) = ?off"
    "ucast (sdp_service_name_header_size q) = ?h"
    unfolding assms(6) by (rule ucast_of_nat_u32; use small assms(5) in simp)+
  have d: "?len - ?h = of_nat (length t)" "?off - ?h = of_nat j" by simp_all
  have s: "sint (?len - ?h) = int (length t)" "sint (?off - ?h) = int j"
    unfolding d using small by (simp_all add: sint_of_nat_u32)
  have one: "?len - 1 = of_nat (hs + length t - 1)" using assms(4) by (simp add: of_nat_diff)
  have "?off \<noteq> of_nat 0" using u32_of_nat(1) [OF small(2), of 0] assms(4) by (simp del: of_nat_add of_nat_0)
  moreover have "\<not> ?off < ?h" using u32_of_nat(2) [OF small(2,3)] by (simp del: of_nat_add)
  moreover have "?off = ?len - 1 \<longleftrightarrow> Suc j = length t"
    unfolding one using u32_of_nat(1) [OF small(2), of "hs + length t - 1"] small(1) assms(4) by (simp del: of_nat_add) linarith
  ultimately have c: "?off \<noteq> 0" "\<not> ?off < ?h" "?off = ?len - 1 \<longleftrightarrow> Suc j = length t" by simp_all
  obtain name l where r: "service_name_byte (int (length t)) (int j) (t ! j) q = Ret (q\<lparr>sdp_service_name := name, sdp_service_name_len := l\<rparr>)"
      "name_at t (Suc j) (q\<lparr>sdp_service_name := name, sdp_service_name_len := l\<rparr>)" (is "name_at t (Suc j) ?q")
    using name_stored [OF assms(1,2) small(4)] by blast
  show ?thesis
  proof (cases "Suc j = length t")
    case True
    have "sdp_rfcomm_query_emit_service event ?q =
        Ret (?q\<lparr>sdp_rfcomm_channel_nr := 0\<rparr>, [(sdp_app_callback ?q, service_event (sdp_rfcomm_channel_nr ?q) (take 20 t) event)])"
      using r(2) True assms(7) by (intro emit_service) (auto simp: name_at_def min_def)
    then show ?thesis
      unfolding sdp_client_query_rfcomm_handle_service_name_data_def w using c s r True assms(6,8)
      by (simp add: Let_def name_at_def)
  next
    case False
    then show ?thesis
      unfolding sdp_client_query_rfcomm_handle_service_name_data_def w using c s r assms(6)
      by (simp add: Let_def)
  qed
qed

lemma name_loop:
  assumes "name_at t j q" "rest = drop j t" "rest \<noteq> []" "hs + length t < 65536" "1 \<le> hs" "hs < 256"
    and "sdp_service_name_header_size q = of_nat hs" "\<forall>k. length (stack k) = 24" "sdp_rfcomm_channel_nr q = ch" "ch \<noteq> 0"
  shows "\<exists>q' m. query_events stack n (events_from r 0x0100 (hs + length t) (hs + j) rest) q =
      Ret (q', [(sdp_app_callback q, service_event ch (take 20 t) (stack m))]) \<and>
    length (sdp_service_name q') = 21 \<and> sdp_app_callback q' = sdp_app_callback q \<and> sdp_rfcomm_channel_nr q' = 0 \<and>
    pdl_header_state q' = pdl_header_state q \<and> sn_de_header_state q' = sn_de_header_state q"
  using assms(1-3,7,9)
proof (induction rest arbitrary: j q n)
  case (Cons b rest)
  have j: "j < length t" "b = t ! j" "rest = drop (Suc j) t"
    using Cons.prems(2) by (auto simp: drop_Suc nth_via_drop tl_drop [symmetric] dest: sym) (metis drop_all list.distinct(1) not_le)
  obtain q1 where q1: "sdp_client_query_rfcomm_handle_service_name_data (stack n) (ucast (of_nat (hs + length t) :: u16))
        (ucast (of_nat (hs + j) :: u16)) (t ! j) q =
      Ret (q1, if Suc j = length t then [(sdp_app_callback q, service_event (sdp_rfcomm_channel_nr q) (take 20 t) (stack n))] else [])"
    "name_at t (Suc j) q1" "sdp_app_callback q1 = sdp_app_callback q" "sdp_service_name_header_size q1 = of_nat hs"
    "sdp_rfcomm_channel_nr q1 = (if Suc j = length t then 0 else sdp_rfcomm_channel_nr q)"
    "pdl_header_state q1 = pdl_header_state q" "sn_de_header_state q1 = sn_de_header_state q"
    using name_byte [OF Cons.prems(1) j(1) assms(4-6) Cons.prems(4) assms(8) [rule_format, of n]] Cons.prems(5) assms(10) by blast
  show ?case
  proof (cases "Suc j = length t")
    case True
    then show ?thesis
      using q1 j(2,3) Cons.prems(5) by (intro exI [of _ q1] exI [of _ n]) (simp add: handle_value name_at_def)
  next
    case False
    then have "rest \<noteq> []" using j(1,3) by simp
    from Cons.IH [OF q1(2) j(3) this q1(4), of "Suc n"] obtain q' m where
        "query_events stack (Suc n) (events_from r 0x0100 (hs + length t) (hs + Suc j) rest) q1 =
           Ret (q', [(sdp_app_callback q1, service_event ch (take 20 t) (stack m))])"
        "length (sdp_service_name q') = 21" "sdp_app_callback q' = sdp_app_callback q1" "sdp_rfcomm_channel_nr q' = 0"
        "pdl_header_state q' = pdl_header_state q1" "sn_de_header_state q' = sn_de_header_state q1"
      using q1(5) False Cons.prems(5) by auto
    then show ?thesis
      using q1 j(2) False by (intro exI [of _ q'] exI [of _ m]) (simp add: handle_value)
  qed
qed simp

lemma name_read:
  assumes "query_ready q" "t \<noteq> []" "length t < 64000" "\<forall>k. length (stack k) = 24" "sdp_rfcomm_channel_nr q = ch" "ch \<noteq> 0"
  shows "\<exists>q' m. query_events stack n (value_events r 0x0100 (text_elem t)) q = Ret (q', [(sdp_app_callback q, service_event ch (take 20 t) (stack m))]) \<and>
    query_ready q' \<and> sdp_app_callback q' = sdp_app_callback q \<and> sdp_rfcomm_channel_nr q' = 0"
proof -
  define hs :: nat where "hs = (if length t < 256 then 2 else 3)"
  define hdr where "hdr = (if length t < 256 then [0x25, of_nat (length t)] else 0x26 # be16 (of_nat (length t)))"
  have e: "text_elem t = hdr @ t" "length hdr = hs" "header_length (text_elem t) = hs"
    by (simp_all add: text_elem_def hdr_def hs_def header_length_def elem_size_def)
  have sz: "hs + length t < 65536" "1 \<le> hs" "hs < 256" using assms(3) by (simp_all add: hs_def)
  note step = handle_value sdp_client_query_rfcomm_handle_service_name_data_def query_ready_def de_first_var de_next
  obtain q1 where q1: "query_events stack n (events_from r 0x0100 0 0 hdr) q = Ret (q1, [])" "query_ready q1"
      "sdp_service_name_header_size q1 = of_nat hs" "sdp_app_callback q1 = sdp_app_callback q" "sdp_rfcomm_channel_nr q1 = ch"
  proof (cases "length t < 256")
    case True
    have "query_events stack n (events_from r 0x0100 0 0 hdr) q =
        Ret (q\<lparr>sn_de_header_state := de_done (ucast (of_nat (length t) :: byte)), sdp_service_name_header_size := 2\<rparr>, [])"
      using assms(1) True by (simp add: hdr_def step Let_def) (simp add: de_pending_def de_state_size_def)
    then show thesis by (rule that) (use assms(1,5) True in \<open>simp_all add: query_ready_def hs_def\<close>)
  next
    case False
    obtain a b where ab: "be16 (of_nat (length t)) = [a, b]" by (simp add: be16_def)
    have "query_events stack n (events_from r 0x0100 0 0 hdr) q =
        Ret (q\<lparr>sn_de_header_state := de_done (push_bit 8 (push_bit 8 0 OR ucast a) OR ucast b), sdp_service_name_header_size := 3\<rparr>, [])"
      using assms(1) False by (simp add: hdr_def ab step Let_def) (simp add: de_pending_def de_done_def de_state_size_def)
    then show thesis by (rule that) (use assms(1,5) False in \<open>simp_all add: query_ready_def hs_def\<close>)
  qed
  have "name_at t 0 q1" using q1(2) assms(2) by (simp add: name_at_def query_ready_def)
  from name_loop [OF this _ assms(2) sz q1(3) assms(4) q1(5) assms(6), where n = "n + hs" and r = r] obtain q' m where
      "query_events stack (n + hs) (events_from r 0x0100 (hs + length t) (hs + 0) t) q1 =
         Ret (q', [(sdp_app_callback q1, service_event ch (take 20 t) (stack m))])"
      "length (sdp_service_name q') = 21" "sdp_app_callback q' = sdp_app_callback q1" "sdp_rfcomm_channel_nr q' = 0"
      "pdl_header_state q' = pdl_header_state q1" "sn_de_header_state q' = sn_de_header_state q1"
    by auto
  moreover have "value_events r 0x0100 (text_elem t) = events_from r 0x0100 0 0 hdr @ events_from r 0x0100 (hs + length t) hs t"
    unfolding value_events_def e(3) using e(1,2) by simp
  ultimately show ?thesis
    using q1 query_then [OF q1(1), of "events_from r 0x0100 (hs + length t) hs t" q'] e(2) by (auto simp: query_ready_def)
qed

subsection \<open>Services\<close>

record spp_service =
  svc_handle :: u32
  svc_uuid :: "bytes option"
  svc_channel :: int
  svc_name :: bytes

text \<open>A name is a C string, not empty, and the channel a positive byte.\<close>

definition service_ok :: "spp_service \<Rightarrow> bool" where
  "service_ok s \<longleftrightarrow> (\<forall>uuid. svc_uuid s = Some uuid \<longrightarrow> length uuid = 16) \<and> 0 < svc_channel s \<and> svc_channel s < 256 \<and>
     c_str (svc_name s) \<noteq> svc_name s \<and> c_str (svc_name s) \<noteq> [] \<and> length (c_str (svc_name s)) < 64000"

definition svc_attrs :: "spp_service \<Rightarrow> (u16 \<times> bytes) list" where
  "svc_attrs s = spp_attrs (svc_handle s) (svc_uuid s) (word_of_int (svc_channel s)) (c_str (svc_name s))"

text \<open>The attributes that the query asks for: all but the handle of the record.\<close>

lemma query_selects: "sel [[0x0A, 0, 1, 1, 0]] (svc_attrs s) = attrs_bytes (tl (svc_attrs s))"
  by (simp add: sel_def svc_attrs_def spp_attrs_def selected_def covers_def elem_type_def elem_size_def u16_at_def)

lemma text_value_ok: "length t < 64000 \<Longrightarrow> t \<noteq> [] \<Longrightarrow> value_ok (text_elem t)"
  by (simp add: value_ok_def text_elem_ok) (simp add: text_elem_def header_length_def elem_size_def)

lemma svc_rec_ok:
  assumes "service_ok s"
  shows "rec_ok (6, tl (svc_attrs s))"
proof -
  have u: "\<forall>uuid. svc_uuid s = Some uuid \<longrightarrow> length uuid = 16" and t: "length (c_str (svc_name s)) < 64000" "c_str (svc_name s) \<noteq> []"
    using assms by (simp_all add: service_ok_def)
  have "length (attrs_bytes (tl (svc_attrs s))) \<le> length (attrs_bytes (svc_attrs s))"
    by (simp add: svc_attrs_def spp_attrs_def)
  also have "\<dots> \<le> 110 + length (c_str (svc_name s))" unfolding svc_attrs_def by (rule spp_attrs_length [OF u])
  finally have "des_fits 6 (length (attrs_bytes (tl (svc_attrs s))))" using t(1) by (simp add: des_fits_def)
  moreover have "\<forall>(i, e) \<in> set (svc_attrs s). elem_ok e" unfolding svc_attrs_def by (rule spp_attrs_ok [OF u t(1)])
  moreover have "value_ok (text_elem (c_str (svc_name s)))" using t by (rule text_value_ok)
  ultimately show ?thesis
    by (simp add: rec_ok_def svc_attrs_def spp_attrs_def value_ok_def header_length_des6)
      (simp add: des_bytes_def answer_header uuid_elem_def split: option.split)
qed

lemma service_read:
  assumes "query_ready q" "service_ok s" "\<forall>k. length (stack k) = 24"
  shows "\<exists>q' m. query_events stack n (attr_events r (tl (svc_attrs s))) q =
      Ret (q', [(sdp_app_callback q, service_event (word_of_int (svc_channel s)) (take 20 (c_str (svc_name s))) (stack m))]) \<and>
    query_ready q' \<and> sdp_app_callback q' = sdp_app_callback q \<and> sdp_rfcomm_channel_nr q' = 0"
proof -
  let ?t = "c_str (svc_name s)" and ?ch = "word_of_int (svc_channel s) :: byte"
  have t: "?t \<noteq> []" "length ?t < 64000" using assms(2) by (simp_all add: service_ok_def)
  have ch: "?ch \<noteq> 0"
    using assms(2) by (simp add: service_ok_def word_of_int_eq_0_iff mod_pos_pos_trivial dvd_imp_le_int) (meson not_less zdvd_imp_le)
  obtain e1 e5 e6 e9 where "tl (svc_attrs s) = [(1, e1), (4, pdl_value ?ch), (5, e5), (6, e6), (9, e9), (0x0100, text_elem ?t)]"
    unfolding svc_attrs_def spp_attrs_def list.sel by blast
  then have ev: "attr_events r (tl (svc_attrs s)) = value_events r 1 e1 @ value_events r 4 (pdl_value ?ch) @ value_events r 5 e5 @
      value_events r 6 e6 @ value_events r 9 e9 @ value_events r 0x0100 (text_elem ?t)"
    by (simp only: attr_events_def list.map prod.case concat.simps append_Nil2)
  let ?n = "n + length e1" and ?rest = "value_events r 5 e5 @ value_events r 6 e6 @ value_events r 9 e9 @ value_events r 0x0100 (text_elem ?t)"
  let ?k = "?n + length (pdl_value ?ch) + length e5 + length e6 + length e9"
  obtain q1 where q1: "query_events stack ?n (value_events r 4 (pdl_value ?ch)) q = Ret (q1, [])" "query_ready q1"
      "sdp_rfcomm_channel_nr q1 = ?ch" "sdp_app_callback q1 = sdp_app_callback q"
    using pdl_read [OF assms(1), of stack ?n r ?ch] by blast
  obtain q2 m where q2: "query_events stack ?k (value_events r 0x0100 (text_elem ?t)) q1 =
      Ret (q2, [(sdp_app_callback q1, service_event ?ch (take 20 ?t) (stack m))])" "query_ready q2" "sdp_app_callback q2 = sdp_app_callback q1"
      "sdp_rfcomm_channel_nr q2 = 0"
    using name_read [OF q1(2) t assms(3) q1(3) ch, of ?k r] by blast
  have "query_events stack (?n + length (value_events r 4 (pdl_value ?ch))) ?rest q1 =
      Ret (q2, [(sdp_app_callback q1, service_event ?ch (take 20 ?t) (stack m))])"
    using q2(1) by (simp add: skip_value length_value_events del: append_Cons append.append_Cons)
  from query_then [OF q1(1) this] show ?thesis
    unfolding ev using q1(4) q2(2-4) by (auto simp: skip_value)
qed

text \<open>What a call tells the application: the type of the event, the channel, and the name.\<close>

definition announced :: "app_call \<Rightarrow> nat \<times> byte \<times> byte \<times> bytes" where
  "announced c = (fst c, snd c ! 0, snd c ! 2, c_str (drop 3 (snd c)))"

lemma announced_service: "0 \<notin> set t \<Longrightarrow> announced (cb, service_event ch t ev) = (cb, 0x92, ch, t)"
  by (simp add: announced_def service_event_def Let_def c_str_def takeWhile_append)

lemma services_read:
  assumes "query_ready q" "\<forall>s \<in> set svcs. service_ok s" "\<forall>k. length (stack k) = 24" "sdp_rfcomm_channel_nr q = 0"
  shows "\<exists>q' calls. query_events stack n (recs_events r (map (\<lambda>s. (6, tl (svc_attrs s))) svcs)) q = Ret (q', calls) \<and>
    sdp_rfcomm_channel_nr q' = 0 \<and> sdp_app_callback q' = sdp_app_callback q \<and>
    map announced calls = map (\<lambda>s. (sdp_app_callback q, 0x92, word_of_int (svc_channel s), take 20 (c_str (svc_name s)))) svcs"
  using assms(1,2,4)
proof (induction svcs arbitrary: q n r)
  case (Cons s svcs)
  obtain q1 m where q1: "query_events stack n (attr_events r (tl (svc_attrs s))) q =
      Ret (q1, [(sdp_app_callback q, service_event (word_of_int (svc_channel s)) (take 20 (c_str (svc_name s))) (stack m))])"
    "query_ready q1" "sdp_app_callback q1 = sdp_app_callback q" "sdp_rfcomm_channel_nr q1 = 0"
    using service_read [OF Cons.prems(1) _ assms(3), of s n r] Cons.prems(2) by auto
  have "0 \<notin> set (take 20 (c_str (svc_name s)))" by (auto simp: c_str_def dest!: in_set_takeD set_takeWhileD)
  note ann = announced_service [OF this]
  obtain q2 calls where q2: "query_events stack (n + length (attr_events r (tl (svc_attrs s))))
        (recs_events (r + 1) (map (\<lambda>s. (6, tl (svc_attrs s))) svcs)) q1 = Ret (q2, calls)"
      "sdp_rfcomm_channel_nr q2 = 0" "sdp_app_callback q2 = sdp_app_callback q1"
      "map announced calls = map (\<lambda>s. (sdp_app_callback q1, 0x92, word_of_int (svc_channel s), take 20 (c_str (svc_name s)))) svcs"
    using Cons.IH [OF q1(2) _ q1(4)] Cons.prems(2) by (meson list.set_intros(2))
  from query_then [OF q1(1) q2(1)] show ?case
    using q2(2-4) q1(3) ann by auto
qed simp

lemma query_init:
  assumes "length (sdp_service_name q) = 21"
  shows "\<exists>q'. sdp_client_query_rfcomm_init q = Ret q' \<and> query_ready q' \<and> sdp_rfcomm_channel_nr q' = 0 \<and>
    sdp_app_callback q' = sdp_app_callback q"
  using assms by (simp add: sdp_client_query_rfcomm_init_def wr_def query_ready_def de_state_init_def)

text \<open>
  The record of each service is written completely into a buffer with room for it, and holds its
  attributes.  When the server answers a query with the attributes of these records that the query
  selects, and the answer arrives in chunks of any size, the application is called once for each service, in order,
  with its channel and the first 20 characters of its name, and then with the end of the query.
\<close>

theorem services_in_chunks:
  assumes "\<forall>s \<in> set svcs. service_ok s \<and> 113 + length (c_str (svc_name s)) \<le> length (buffer s)" "svcs \<noteq> []"
    and "concat xs = des_bytes cls (concat (map (\<lambda>s. answer (sel [[0x0A, 0, 1, 1, 0]] (svc_attrs s))) svcs))"
    and "des_fits cls (length (concat (map (\<lambda>s. answer (sel [[0x0A, 0, 1, 1, 0]] (svc_attrs s))) svcs)))"
    and "length (concat (map (\<lambda>s. answer (sel [[0x0A, 0, 1, 1, 0]] (svc_attrs s))) svcs)) < 65536"
    and "length (sdp_service_name q) = 21" "\<forall>k. length (stack k) = 24"
  shows "(\<forall>s \<in> set svcs. \<exists>m.
      spp_create_sdp_record_internal (buffer s) 0 (svc_handle s) (svc_uuid s) (svc_channel s) (svc_name s) = Ret m \<and>
      record_at m 0 6 (svc_attrs s)) \<and>
    (\<exists>q0 p events q' calls.
      sdp_client_query_rfcomm_init q = Ret q0 \<and> handle_chunks (sdp_parser_init p0) xs = Ret (p, events) \<and>
      query_events stack 0 (events @ [[0x91, 1, status]]) q0 = Ret (q', calls @ [(sdp_app_callback q, [0x91, 1, status])]) \<and>
      map announced calls = map (\<lambda>s. (sdp_app_callback q, 0x92, word_of_int (svc_channel s), take 20 (c_str (svc_name s)))) svcs)"
proof
  show "\<forall>s \<in> set svcs. \<exists>m.
      spp_create_sdp_record_internal (buffer s) 0 (svc_handle s) (svc_uuid s) (svc_channel s) (svc_name s) = Ret m \<and>
      record_at m 0 6 (svc_attrs s)"
    unfolding svc_attrs_def using assms(1) by (intro ballI record_created) (auto simp: service_ok_def)
  let ?Rs = "map (\<lambda>s. (6, tl (svc_attrs s))) svcs"
  have Rs: "concat (map (\<lambda>s. answer (sel [[0x0A, 0, 1, 1, 0]] (svc_attrs s))) svcs) = concat (map rec_bytes ?Rs)"
    by (simp add: query_selects answer_def rec_bytes_def des_bytes_def comp_def)
  have "\<forall>R \<in> set ?Rs. rec_ok R" using assms(1) svc_rec_ok by auto
  then obtain p where p: "handle_chunks (sdp_parser_init p0) xs = Ret (p, recs_events 0 ?Rs)"
    using process_list [of ?Rs cls p0] assms(2-5) unfolding Rs handle_chunks_concat by auto
  obtain q0 where q0: "sdp_client_query_rfcomm_init q = Ret q0" "query_ready q0" "sdp_rfcomm_channel_nr q0 = 0"
      "sdp_app_callback q0 = sdp_app_callback q"
    using query_init [OF assms(6)] by blast
  have "\<forall>s \<in> set svcs. service_ok s" using assms(1) by blast
  from services_read [OF q0(2) this assms(7) q0(3), of 0 0] obtain q1 calls where
      q1: "query_events stack 0 (recs_events 0 ?Rs) q0 = Ret (q1, calls)" "sdp_rfcomm_channel_nr q1 = 0"
        "sdp_app_callback q1 = sdp_app_callback q0"
        "map announced calls = map (\<lambda>s. (sdp_app_callback q0, 0x92, word_of_int (svc_channel s), take 20 (c_str (svc_name s)))) svcs"
    by blast
  have "query_events stack (0 + length (recs_events 0 ?Rs)) [[0x91, 1, status]] q1 = Ret (q1, [(sdp_app_callback q, [0x91, 1, status])])"
    using q1(2,3) q0(4) by (simp add: sdp_client_query_rfcomm_handle_sdp_parser_event_def emit_nameless_def rd_def)
  from query_then [OF q1(1) this] p q0(1,4) q1(4) show "\<exists>q0 p events q' calls.
      sdp_client_query_rfcomm_init q = Ret q0 \<and> handle_chunks (sdp_parser_init p0) xs = Ret (p, events) \<and>
      query_events stack 0 (events @ [[0x91, 1, status]]) q0 = Ret (q', calls @ [(sdp_app_callback q, [0x91, 1, status])]) \<and>
      map announced calls = map (\<lambda>s. (sdp_app_callback q, 0x92, word_of_int (svc_channel s), take 20 (c_str (svc_name s)))) svcs"
    by auto
qed

definition ex_services :: "spp_service list" where
  "ex_services =
     [\<lparr>svc_handle = 0x00010001, svc_uuid = None, svc_channel = 1, svc_name = [0x53, 0x50, 0x50, 0]\<rparr>,
      \<lparr>svc_handle = 0x00010002, svc_uuid = Some (replicate 16 7), svc_channel = 5, svc_name = replicate 25 0x41 @ [0]\<rparr>]"

lemma ex_names: "c_str [0x53, 0x50, 0x50, 0] = [0x53, 0x50, 0x50]" "c_str (replicate 25 0x41 @ [0]) = replicate 25 0x41"
  by (simp_all add: c_str_def takeWhile_append)

lemma ex_answers_length:
  "length (concat (map (\<lambda>s. answer (sel [[0x0A, 0, 1, 1, 0]] (svc_attrs s))) ex_services)) < 300"
  by (simp add: ex_services_def query_selects) (simp add: svc_attrs_def spp_attrs_def ex_names answer_def answer_header length_des6
      uuid_elem_def text_elem_def)

theorem services_in_chunks_witness:
  "list_all (\<lambda>s. \<exists>m.
      spp_create_sdp_record_internal (replicate 200 0) 0 (svc_handle s) (svc_uuid s) (svc_channel s) (svc_name s) = Ret m \<and>
      record_at m 0 6 (svc_attrs s)) ex_services \<and>
    (\<exists>q0 p events q' calls.
      sdp_client_query_rfcomm_init query_start = Ret q0 \<and>
      handle_chunks (sdp_parser_init (parser sdp_client_start))
        [des_bytes 6 (concat (map (\<lambda>s. answer (sel [[0x0A, 0, 1, 1, 0]] (svc_attrs s))) ex_services))] = Ret (p, events) \<and>
      query_events (\<lambda>_. replicate 24 0xAA) 0 (events @ [[0x91, 1, 0]]) q0 = Ret (q', calls @ [(sdp_app_callback query_start, [0x91, 1, 0])]) \<and>
      map announced calls =
        map (\<lambda>s. (sdp_app_callback query_start, 0x92, word_of_int (svc_channel s), take 20 (c_str (svc_name s)))) ex_services)"
  unfolding list_all_iff
proof (rule services_in_chunks [where cls = 6])
  show "\<forall>s \<in> set ex_services. service_ok s \<and> 113 + length (c_str (svc_name s)) \<le> length (replicate 200 0 :: bytes)"
    by (simp add: ex_services_def service_ok_def ex_names)
  show "des_fits 6 (length (concat (map (\<lambda>s. answer (sel [[0x0A, 0, 1, 1, 0]] (svc_attrs s))) ex_services)))"
    "length (concat (map (\<lambda>s. answer (sel [[0x0A, 0, 1, 1, 0]] (svc_attrs s))) ex_services)) < 65536"
    using ex_answers_length by (simp_all add: des_fits_def)
qed (simp_all add: ex_services_def query_start_def)

subsection \<open>Services without a name\<close>

text \<open>
  The query has code for a service without a name, which waits for the event that starts the next
  record.  The parser of this query never emits that event, so that the service is forgotten when a
  record follows: its channel is overwritten.
\<close>

theorem nameless_service_lost:
  assumes "query_ready q" "ch2 \<noteq> 0" "t \<noteq> []" "length t < 64000" "\<forall>k. length (stack k) = 24"
  shows "\<exists>q' m. query_events stack 0 (recs_events 0 [(6, [(4, pdl_value ch1)]), (6, [(4, pdl_value ch2), (0x0100, text_elem t)])]) q =
    Ret (q', [(sdp_app_callback q, service_event ch2 (take 20 t) (stack m))])"
proof -
  obtain q1 where q1: "query_events stack 0 (value_events 0 4 (pdl_value ch1)) q = Ret (q1, [])" "query_ready q1"
      "sdp_app_callback q1 = sdp_app_callback q"
    using pdl_read [OF assms(1), of stack 0 0 ch1] by blast
  let ?n = "0 + length (value_events 0 4 (pdl_value ch1))"
  obtain q2 where q2: "query_events stack ?n (value_events 1 4 (pdl_value ch2)) q1 = Ret (q2, [])" "query_ready q2"
      "sdp_rfcomm_channel_nr q2 = ch2" "sdp_app_callback q2 = sdp_app_callback q1"
    using pdl_read [OF q1(2), of stack ?n 1 ch2] by blast
  obtain q3 m where q3: "query_events stack (?n + length (value_events 1 4 (pdl_value ch2))) (value_events 1 0x0100 (text_elem t)) q2 =
      Ret (q3, [(sdp_app_callback q2, service_event ch2 (take 20 t) (stack m))])"
    using name_read [OF q2(2) assms(3,4,5) q2(3) assms(2)] by blast
  from query_then [OF q1(1) query_then [OF q2(1) q3]] show ?thesis
    using q1(3) q2(4) by (auto simp: attr_events_def)
qed

theorem nameless_service_lost_witness:
  "\<exists>q' (m :: nat). query_events (\<lambda>_. replicate 24 0) 0
     (recs_events 0 [(6, [(4, pdl_value 3)]), (6, [(4, pdl_value 5), (0x0100, text_elem [0x53])])])
     (query_start\<lparr>pdl_header_state := de_state_init, sn_de_header_state := de_state_init\<rparr>) =
   Ret (q', [(sdp_app_callback (query_start\<lparr>pdl_header_state := de_state_init, sn_de_header_state := de_state_init\<rparr>),
     service_event 5 (take 20 [0x53]) (replicate 24 0))])"
  by (rule nameless_service_lost [where stack = "\<lambda>_. replicate 24 0"]) (simp_all add: query_ready_def query_start_def de_state_init_def)

text \<open>
  The length of a name is never reset: a service without a name, at the end of a query, is announced
  with the length of the name before it.
\<close>

theorem name_length_stays:
  assumes "sdp_rfcomm_channel_nr q \<noteq> 0" "sdp_service_name_len q = of_nat (length t)" "length t \<le> 20"
    and "length (sdp_service_name q) = 21" "take (length t) (sdp_service_name q) = t" "length event = 24"
  shows "sdp_client_query_rfcomm_handle_sdp_parser_event event [0x91, 1, status] q =
    Ret (q\<lparr>sdp_rfcomm_channel_nr := 0\<rparr>,
      [(sdp_app_callback q, service_event (sdp_rfcomm_channel_nr q) t event), (sdp_app_callback q, [0x91, 1, status])])"
  using emit_service [OF assms(6,3,2,4,5)] assms(1)
  by (simp add: sdp_client_query_rfcomm_handle_sdp_parser_event_def emit_nameless_def rd_def)

definition ex_named :: rfcomm_query where
  "ex_named = query_start\<lparr>sdp_rfcomm_channel_nr := 3, sdp_service_name_len := 2, sdp_service_name := [0, 0x50] @ replicate 19 0\<rparr>"

theorem name_length_stays_witness:
  "sdp_client_query_rfcomm_handle_sdp_parser_event (replicate 24 0) [0x91, 1, 0] ex_named =
   Ret (ex_named\<lparr>sdp_rfcomm_channel_nr := 0\<rparr>,
     [(sdp_app_callback ex_named, service_event (sdp_rfcomm_channel_nr ex_named) [0, 0x50] (replicate 24 0)),
      (sdp_app_callback ex_named, [0x91, 1, 0])])"
  by (rule name_length_stays) (simp_all add: ex_named_def query_start_def)

subsection \<open>Lengths of protocol identifiers\<close>

text \<open>
  The length of the identifier of a protocol is taken from the peer, as an \<open>int\<close>: the length
  0x80000000 is the smallest one, and counting it down overflows.
\<close>

theorem protocol_id_length_overflows:
  assumes "query_ready q"
  shows "query_events stack 0 (events_from 0 4 20 0 [0x35, 20, 0x35, 18, 0x1F, 0x80, 0, 0, 0, 7]) q = Undef"
  using assms
  by (simp add: handle_value sdp_client_query_rfcomm_handle_protocol_descriptor_list_data_def query_ready_def de_first_var de_next
      de_first_fixed add_int_def Let_def)

theorem protocol_id_length_overflows_witness:
  "query_events (\<lambda>_. replicate 24 0) 0 (events_from 0 4 20 0 [0x35, 20, 0x35, 18, 0x1F, 0x80, 0, 0, 0, 7])
     (query_start\<lparr>pdl_header_state := de_state_init, sn_de_header_state := de_state_init\<rparr>) = Undef"
  by (rule protocol_id_length_overflows) (simp add: query_ready_def query_start_def de_state_init_def)

end
