(* ===== verification/SppExchange.thy ===== *)
theory SppExchange
  imports SppProps
begin

text \<open>
  A whole query: the records of the services on one side, the request of the client, the response of
  the server, and the calls of the application on the other side.
\<close>

subsection \<open>The record of a service as a tree\<close>

definition svc_tree :: "spp_service \<Rightarrow> element list" where
  "svc_tree s =
     [Atom (0x09 # be16 0), Atom (0x0A # be32 (svc_handle s)),
      Atom (0x09 # be16 1), Seq 6 [Atom (uuid_elem (svc_uuid s))],
      Atom (0x09 # be16 4), Seq 6 [Seq 6 [Atom [0x19, 0x01, 0x00]], Seq 6 [Atom [0x19, 0x00, 0x03], Atom [0x08, word_of_int (svc_channel s)]]],
      Atom (0x09 # be16 5), Seq 6 [Atom [0x19, 0x10, 0x02]],
      Atom (0x09 # be16 6), Seq 6 [Atom [0x09, 0x65, 0x6E], Atom [0x09, 0x00, 0x6A], Atom [0x09, 0x01, 0x00]],
      Atom (0x09 # be16 9), Seq 6 [Seq 6 [Atom [0x19, 0x11, 0x01], Atom [0x09, 0x11, 0x02]]],
      Atom (0x09 # be16 0x0100), Atom (text_elem (c_str (svc_name s)))]"

lemma svc_tree_bytes: "concat (map enc (svc_tree s)) = attrs_bytes (svc_attrs s)"
  by (simp add: svc_tree_def svc_attrs_def spp_attrs_def attr_bytes_def)

lemma small_elems:
  "elem_ok (0x09 # be16 v)" "elem_ok (0x0A # be32 w)" "elem_ok [0x19, a, b]" "elem_ok [0x09, a, b]" "elem_ok [0x08, a]"
  "elem_ok [0x0A, a, b, d, e]"
  by (simp_all add: elem_ok_def be16_def be32_def de_get_len_def de_get_header_size_def de_get_size_type_def rd_def
      de_get_data_size_def de_get_element_type_def)

lemma uuid_elem_ok:
  assumes "\<forall>uuid. u = Some uuid \<longrightarrow> length uuid = 16"
  shows "elem_ok (uuid_elem u)"
proof (cases u)
  case (Some uuid)
  then show ?thesis
    using assms by (simp add: uuid_elem_def elem_ok_def de_get_len_def de_get_header_size_def de_get_size_type_def rd_def
        de_get_data_size_def de_get_element_type_def)
qed (simp add: uuid_elem_def small_elems)

lemma first_byte:
  "elem_type (0x09 # xs) = 1" "elem_type (0x0A # xs) = 1" "elem_type (0x08 # xs) = 1" "elem_type (0x19 # xs) = 3"
  "elem_type (text_elem t) = 4" "elem_type (uuid_elem u) = 3"
  by (simp_all add: elem_type_def text_elem_def uuid_elem_def split: option.split)

lemma svc_entry:
  assumes "service_ok s" "record_at m 0 6 (svc_attrs s)" "60 \<le> n"
  shows "entry_at n m (6, svc_tree s, svc_attrs s)"
proof -
  have u: "\<forall>uuid. svc_uuid s = Some uuid \<longrightarrow> length uuid = 16" and t: "length (c_str (svc_name s)) < 64000"
    using assms(1) by (simp_all add: service_ok_def)
  have "length (attrs_bytes (svc_attrs s)) \<le> 110 + length (c_str (svc_name s))"
    unfolding svc_attrs_def by (rule spp_attrs_length [OF u])
  then have len: "length (attrs_bytes (svc_attrs s)) < 65536" using t by linarith
  have "length (uuid_elem (svc_uuid s)) < 256" using u by (auto simp: uuid_elem_def split: option.split)
  then have w: "\<forall>e \<in> set (svc_tree s). wf e"
    using uuid_elem_ok [OF u] text_elem_ok [OF t]
    by (simp add: svc_tree_def small_elems des_fits_def first_byte des_bytes_def answer_header)
  then have "wf (Seq 6 (svc_tree s))" using len by (simp add: svc_tree_bytes des_fits_def)
  moreover have "holds_at m 0 (enc (Seq 6 (svc_tree s)))" using assms(2) by (simp add: svc_tree_bytes record_at_def)
  moreover have "nodes (Seq 6 (svc_tree s)) \<le> n" using assms(3) by (simp add: svc_tree_def)
  ultimately show ?thesis
    using assms len by (simp add: entry_at_def svc_attrs_def spp_attrs_def)
qed

subsection \<open>The services that a query finds\<close>

text \<open>A UUID of 16 bits, as 128 bits.\<close>

definition uuid16_bytes :: "u16 \<Rightarrow> bytes" where
  "uuid16_bytes u = be32 (ucast u) @ drop 4 bluetooth_base_uuid"

text \<open>
  The UUIDs of a record: of its class, which the service may have chosen, of its protocols L2CAP and
  RFCOMM, of the browse group, and of the serial port profile.
\<close>

definition svc_offers :: "spp_service \<Rightarrow> u16 \<Rightarrow> bool" where
  "svc_offers s u \<longleftrightarrow> u \<in> {0x0100, 0x0003, 0x1002, 0x1101} \<or> svc_uuid s = Some (uuid16_bytes u)"

lemma u16_at_be16: "u16_at (x # be16 u) 1 = u"
proof -
  have "holds_at (x # be16 u) 0 ([x] @ be16 u)" by (simp add: holds_at_self)
  then have "holds_at (x # be16 u) (0 + 1) (be16 u)" unfolding holds_at_append by simp
  from read_16 [OF this] have "big_endian_read_16 (x # be16 u) 0 (int 1) = Ret (ucast u)" by simp
  moreover have "big_endian_read_16 (x # be16 u) 0 (int 1) = Ret (ucast (u16_at (x # be16 u) 1))"
    by (rule read_u16_elem [OF holds_at_self]) simp
  ultimately show ?thesis by simp
qed

lemma uuid_of_16: "uuid_of (0x19 # be16 u) = Some (uuid16_bytes u)"
  unfolding uuid_of_def u16_at_be16 uuid16_bytes_def by (simp add: elem_type_def elem_size_def)

lemma uuid_of_numerals:
  "uuid_of [0x19, 0x01, 0x00] = Some (uuid16_bytes 0x0100)" "uuid_of [0x19, 0x00, 0x03] = Some (uuid16_bytes 0x0003)"
  "uuid_of [0x19, 0x10, 0x02] = Some (uuid16_bytes 0x1002)" "uuid_of [0x19, 0x11, 0x01] = Some (uuid16_bytes 0x1101)"
proof -
  have "be16 0x0100 = [0x01, 0x00]" "be16 0x0003 = [0x00, 0x03]" "be16 0x1002 = [0x10, 0x02]" "be16 0x1101 = [0x11, 0x01]"
    by (simp_all add: be16_def)
  then show "uuid_of [0x19, 0x01, 0x00] = Some (uuid16_bytes 0x0100)" "uuid_of [0x19, 0x00, 0x03] = Some (uuid16_bytes 0x0003)"
    "uuid_of [0x19, 0x10, 0x02] = Some (uuid16_bytes 0x1002)" "uuid_of [0x19, 0x11, 0x01] = Some (uuid16_bytes 0x1101)"
    using uuid_of_16 [of "0x0100"] uuid_of_16 [of "0x0003"] uuid_of_16 [of "0x1002"] uuid_of_16 [of "0x1101"] by simp_all
qed

lemma uuid16_bytes_eq [simp]: "uuid16_bytes u = uuid16_bytes v \<longleftrightarrow> u = v"
proof
  assume "uuid16_bytes u = uuid16_bytes v"
  then have "be32 (ucast u) = be32 (ucast v)" by (simp add: uuid16_bytes_def)
  then have "big_endian_read_32 (be32 (ucast u)) 0 0 = big_endian_read_32 (be32 (ucast v)) 0 0" by (simp only:)
  moreover have "big_endian_read_32 (be32 w) 0 0 = Ret w" for w by (rule be32.read_enc) (simp add: holds_at_self)
  ultimately have "Ret (ucast u :: u32) = Ret (ucast v)" by (simp only:)
  then show "u = v" by simp
qed simp

lemma uuid_of_class:
  "\<forall>uuid. u = Some uuid \<longrightarrow> length uuid = 16 \<Longrightarrow> uuid_of (uuid_elem u) = Some (case u of None \<Rightarrow> uuid16_bytes 0x1101 | Some uuid \<Rightarrow> uuid)"
  by (cases u) (simp_all add: uuid_elem_def uuid_of_numerals, simp add: uuid_of_def elem_type_def elem_size_def)

lemma no_uuid:
  "uuid_of (0x09 # xs) = None" "uuid_of (0x0A # xs) = None" "uuid_of (0x08 # xs) = None" "uuid_of (text_elem t) = None"
  by (simp_all add: uuid_of_def elem_type_def text_elem_def)

lemma svc_matches:
  assumes "service_ok s"
  shows "entry_matches [0x19 # be16 u] (6, svc_tree s, as) \<longleftrightarrow> svc_offers s u"
proof -
  have l: "\<forall>uuid. svc_uuid s = Some uuid \<longrightarrow> length uuid = 16" using assms by (simp add: service_ok_def)
  have "uuids (Seq 6 (svc_tree s)) =
      {case svc_uuid s of None \<Rightarrow> uuid16_bytes 0x1101 | Some uuid \<Rightarrow> uuid, uuid16_bytes 0x0100, uuid16_bytes 0x0003,
       uuid16_bytes 0x1002, uuid16_bytes 0x1101}"
    by (auto simp: svc_tree_def no_uuid uuid_of_class [OF l] uuid_of_numerals)
  then show ?thesis
    unfolding entry_matches_def prod.case by (auto simp del: uuids.simps simp add: uuid_of_16 svc_offers_def split: option.splits)
qed

text \<open>The lists of attributes that the server sends for a query of the UUID.\<close>

definition svc_answers :: "spp_service list \<Rightarrow> u16 \<Rightarrow> bytes" where
  "svc_answers svcs u = concat (map (\<lambda>s. answer (sel [[0x0A, 0, 1, 1, 0]] (svc_attrs s))) (filter (\<lambda>s. svc_offers s u) svcs))"

lemma svc_answers:
  assumes "\<forall>s \<in> set svcs. service_ok s"
  shows "answers [0x19 # be16 u] [[0x0A, 0, 1, 1, 0]] (map (\<lambda>s. (6, svc_tree s, svc_attrs s)) svcs) = svc_answers svcs u"
  using assms by (induction svcs) (auto simp: svc_answers_def svc_matches entry_answer_def)


subsection \<open>The client\<close>

text \<open>A response that carries everything: the client parses the list and closes the connection.\<close>

lemma client_response:
  assumes "sdp_parser_handle_chunk (parser c) out = Ret (p, es)" "length out \<le> unat (mtu c)" "8 + length out < 65536"
    and "transactionID c = tid"
  shows "\<exists>c'. client_data_packet extra c (response 7 tid out [0]) (of_nat (length (response 7 tid out [0]))) =
      Ret (c', map Emit es @ [Disconnect (sdp_cid c)]) \<and> sdp_client_state c' = QUERY_COMPLETE \<and> sdp_cid c' = sdp_cid c"
proof -
  let ?rsp = "response 7 tid out [0]" and ?sz = "of_nat (8 + length out) :: u16"
  have len: "length ?rsp = 8 + length out" by simp
  have sz: "uint ?sz = 8 + int (length out)" using assms(3) by (subst uint_u16_of_nat) simp_all
  have "holds_at ?rsp 0 ([7] @ be16 tid @ be16 (of_nat (3 + length out)) @ be16 (of_nat (length out)) @ out @ [0])"
    by (simp add: response_def holds_at_self)
  then have at: "holds_at ?rsp 1 (be16 tid)" "holds_at ?rsp 3 (be16 (of_nat (3 + length out)))"
    "holds_at ?rsp 5 (be16 (of_nat (length out)))" "holds_at ?rsp 7 out" "holds_at ?rsp (7 + int (length out)) [0]"
    by (simp_all only: holds_at_append) simp_all
  have reads: "rd ?rsp 0 = Ret 7" "big_endian_read_16 ?rsp 0 1 = Ret (ucast tid)"
    "big_endian_read_16 ?rsp 0 3 = Ret (ucast (of_nat (3 + length out) :: u16))"
    "big_endian_read_16 ?rsp 0 5 = Ret (ucast (of_nat (length out) :: u16))" "rd ?rsp (7 + int (length out)) = Ret 0"
    using at by (simp_all add: read_16 holds_at_Cons) (simp add: response_def rd_def)
  have u: "unat (of_nat (length out) :: u16) = length out" "uint (of_nat (length out) :: u16) = int (length out)"
    "uint (of_nat (3 + length out) :: u16) = 3 + int (length out)" "uint (7 + of_nat (length out) :: u16) = 7 + int (length out)"
    "uint (of_nat (8 + length out) :: u16) = 8 + int (length out)"
  proof -
    show "unat (of_nat (length out) :: u16) = length out" "uint (of_nat (length out) :: u16) = int (length out)"
      "uint (of_nat (3 + length out) :: u16) = 3 + int (length out)" "uint (of_nat (8 + length out) :: u16) = 8 + int (length out)"
      using assms(3) by (subst u16_of_nat uint_u16_of_nat; simp)+
    have "uint (of_nat (7 + length out) :: u16) = int (7 + length out)" using assms(3) by (subst uint_u16_of_nat) simp_all
    then show "uint (7 + of_nat (length out) :: u16) = 7 + int (length out)" by simp
  qed
  have room: "\<not> (of_nat (length out) :: u16) > mtu c" using assms(2) u(1) by (simp add: word_less_nat_alt)
  have block: "rd_block ?rsp 7 (length out) = Ret out" by (rule holds_at_block [OF at(4) refl])
  have end_pos: "uint (7 + of_nat (length out) + 1 :: u16) = 8 + int (length out)"
    using u(5) by (simp add: add.commute)
  have cont: "parse_continuation c1 ?rsp ?sz (7 + of_nat (length out)) = Ret (c1\<lparr>continuationStateLen := 0\<rparr>)" for c1
  proof -
    have "rd_block ?rsp (8 + int (length out)) 0 = Ret []" by (simp add: rd_block_def)
    moreover have "wr_block (continuationState c1) 0 [] = Ret (continuationState c1)" by (simp add: wr_block_def write_at_def)
    ultimately show ?thesis
      using reads(5) unfolding parse_continuation_def u(4) sz Let_def end_pos by simp
  qed
  have off: "uint (3 :: u16) = 3" "uint (3 + 2 :: u16) = 5" "uint (7 :: u16) = 7" "(3 + 2 + 2 :: u16) = 7" by simp_all
  have fits: "\<not> 3 + 2 + 2 > uint ?sz" "\<not> 5 + uint (of_nat (3 + length out) :: u16) > uint ?sz"
    "\<not> 7 + uint (of_nat (length out) :: u16) > uint ?sz"
    unfolding sz u by simp_all
  have parse: "sdp_client_parse_service_search_attribute_response c1 ?rsp ?sz = Ret (c1\<lparr>parser := p, continuationStateLen := 0\<rparr>, es)"
    if "parser c1 = parser c" "mtu c1 = mtu c" for c1
    unfolding sdp_client_parse_service_search_attribute_response_def Let_def off
    by (simp only: fits reads bind_outcome_simps ucast_u16_back if_False that room u(1) block assms(1) prod.case cont)
  have "\<not> ?sz < 3" using u(5) by (simp add: word_less_def)
  then show ?thesis
    unfolding client_data_packet_def Let_def len
    by (simp add: reads assms(4) parse del: of_nat_add)
qed

subsection \<open>The query\<close>

text \<open>
  Events of L2CAP, as far as the client reads them: the channel is open and takes packets of \<open>m\<close>
  bytes, or something happened to the channel \<open>cid\<close>.
\<close>

definition opened_event :: "bytes \<Rightarrow> u16 \<Rightarrow> bool" where
  "opened_event ev m \<longleftrightarrow> rd ev 0 = Ret 0x70 \<and> rd ev 2 = Ret 0 \<and> little_endian_read_16 ev 0 17 = Ret m"

definition channel_event :: "bytes \<Rightarrow> byte \<Rightarrow> u16 \<Rightarrow> bool" where
  "channel_event ev ty cid \<longleftrightarrow> rd ev 0 = Ret ty \<and> little_endian_read_16 ev 0 2 = Ret cid"

lemma search_pattern: "sdp_service_search_pattern_for_uuid16 u = Ret (des_bytes 5 (0x19 # be16 u))"
  by (simp add: sdp_service_search_pattern_for_uuid16_def be16.store_enc)
    (simp add: wr_block_def write_at_def be16_def des_bytes_def des_header_def)

lemma ids_des: "rfcomm_attributeIDList = des_bytes 5 (concat [[0x0A, 0, 1, 1, 0]])"
  by (simp add: rfcomm_attributeIDList_def des_bytes_def des_header_def)

text \<open>The record of a service, in a buffer with room for it.\<close>

definition announces :: "service_record_item \<Rightarrow> spp_service \<Rightarrow> bool" where
  "announces item s \<longleftrightarrow> (\<exists>buffer. 113 + length (c_str (svc_name s)) \<le> length buffer \<and>
     spp_create_sdp_record_internal buffer 0 (svc_handle s) (svc_uuid s) (svc_channel s) (svc_name s) = Ret (service_record item))"

lemma announces_entry:
  assumes "announces item s" "service_ok s" "60 \<le> n"
  shows "entry_at n (service_record item) (6, svc_tree s, svc_attrs s)"
proof -
  obtain buffer where b: "113 + length (c_str (svc_name s)) \<le> length buffer"
    "spp_create_sdp_record_internal buffer 0 (svc_handle s) (svc_uuid s) (svc_channel s) (svc_name s) = Ret (service_record item)"
    using assms(1) by (auto simp: announces_def)
  have "\<exists>m'. spp_create_sdp_record_internal buffer 0 (svc_handle s) (svc_uuid s) (svc_channel s) (svc_name s) = Ret m' \<and>
      record_at m' 0 6 (svc_attrs s)"
    unfolding svc_attrs_def using assms(2) b(1) by (intro record_created) (auto simp: service_ok_def)
  then have "record_at (service_record item) 0 6 (svc_attrs s)" using b(2) by simp
  from svc_entry [OF assms(2) this assms(3)] show ?thesis .
qed

lemma answers_read:
  assumes "\<forall>s \<in> set svcs. service_ok s" "svcs \<noteq> []" "length (concat (map (\<lambda>s. answer (sel [[0x0A, 0, 1, 1, 0]] (svc_attrs s))) svcs)) < 65536"
    and "query_ready q" "sdp_rfcomm_channel_nr q = 0" "\<forall>k. length (stack k) = 24"
  shows "\<exists>p es q' calls.
    sdp_parser_handle_chunk (sdp_parser_init p0) (answer (concat (map (\<lambda>s. answer (sel [[0x0A, 0, 1, 1, 0]] (svc_attrs s))) svcs))) = Ret (p, es) \<and>
    query_events stack 0 (es @ [[0x91, 1, status]]) q = Ret (q', calls @ [(sdp_app_callback q, [0x91, 1, status])]) \<and>
    map announced calls = map (\<lambda>s. (sdp_app_callback q, 0x92, word_of_int (svc_channel s), take 20 (c_str (svc_name s)))) svcs"
proof -
  let ?Rs = "map (\<lambda>s. (6, tl (svc_attrs s))) svcs"
  have Rs: "concat (map (\<lambda>s. answer (sel [[0x0A, 0, 1, 1, 0]] (svc_attrs s))) svcs) = concat (map rec_bytes ?Rs)"
    by (simp add: query_selects answer_def rec_bytes_def des_bytes_def comp_def)
  have "\<forall>R \<in> set ?Rs. rec_ok R" "?Rs \<noteq> []" using assms(1,2) svc_rec_ok by auto
  from process_list [OF this(2,1), of 6 p0] obtain p where
      p: "sdp_parser_handle_chunk (sdp_parser_init p0) (answer (concat (map rec_bytes ?Rs))) = Ret (p, recs_events 0 ?Rs)"
    using assms(3) unfolding Rs by (auto simp: des_fits_def des_bytes_def answer_def)
  from services_read [OF assms(4,1,6,5), of 0 0] obtain q1 calls where
      q1: "query_events stack 0 (recs_events 0 ?Rs) q = Ret (q1, calls)" "sdp_rfcomm_channel_nr q1 = 0" "sdp_app_callback q1 = sdp_app_callback q"
        "map announced calls = map (\<lambda>s. (sdp_app_callback q, 0x92, word_of_int (svc_channel s), take 20 (c_str (svc_name s)))) svcs"
    by blast
  have "query_events stack (0 + length (recs_events 0 ?Rs)) [[0x91, 1, status]] q1 = Ret (q1, [(sdp_app_callback q, [0x91, 1, status])])"
    using q1(2,3) by (simp add: sdp_client_query_rfcomm_handle_sdp_parser_event_def emit_nameless_def rd_def)
  from query_then [OF q1(1) this] p q1(4) show ?thesis unfolding Rs by blast
qed

text \<open>
  C26. A device asks another one for services with a UUID of 16 bits.  The server of the other
  device holds serial port records, written by the code of the SPP server; the request of the client
  reaches it, and the answer fits in one response.  Then the application is called once for each
  service with the UUID (as its class, or one of the UUIDs every serial port record has), in order,
  with its channel and the first 20 characters of its name, and then with the end of the query.
  There is at least one such service, their names are not empty, and their channels are from 1 to 255.
\<close>

theorem services_found:
  assumes svcs: "\<forall>s \<in> set svcs. service_ok s" "filter (\<lambda>s. svc_offers s u) svcs \<noteq> []"
    and server: "list_all2 announces (sdp_service_records server) svcs" "l2cap_cid server \<noteq> 0"
      "length (sdp_response_buffer server) = SDP_RESPONSE_BUFFER_SIZE" "60 \<le> n"
    and limits: "15 + length (svc_answers svcs u) \<le> unat server_mtu" "unat server_mtu \<le> SDP_RESPONSE_BUFFER_SIZE"
      "3 + length (svc_answers svcs u) \<le> unat m"
    and client: "sdp_client_ready c" "continuation_ok c" "length (sdp_service_name q) = 21" "\<forall>k. length (stack k) = 24"
      "36 \<le> length data" "length data < 65536"
    and events: "opened_event opened m" "channel_event can_send 0x78 cid" "channel_event closed 0x71 cid"
  shows "\<exists>q0 c0 c1 c2 c3 rq s' s'' rsp es q' calls.
    sdp_client_query_rfcomm_channel_and_name_for_uuid c 0 callback u q = Ret (q0, c0, [CreateChannel 1], 0) \<and>
    sdp_client_packet_handler extra app data c0 4 cid opened opened_size = Ret (c1, [AskToSend cid]) \<and>
    sdp_client_packet_handler extra app data c1 4 cid can_send can_send_size = Ret (c2, [ReserveBuffer, SendRequest cid rq]) \<and>
    handle_request n server rq (of_nat (length rq)) server_mtu = Some (Ret (s', [RequestCanSendNow (l2cap_cid server)])) \<and>
    sdp_respond s' = Ret (s'', [L2capSend (l2cap_cid server) rsp]) \<and>
    sdp_client_packet_handler extra app data c2 6 cid rsp (of_nat (length rsp)) = Ret (c3, map Emit es @ [Disconnect cid]) \<and>
    sdp_client_packet_handler extra app data c3 4 cid closed closed_size = Ret (sdp_parser_handle_done app c3 0) \<and>
    query_events stack 0 (es @ [[0x91, 1, 0]]) q0 = Ret (q', calls @ [(callback, [0x91, 1, 0])]) \<and>
    map announced calls =
      map (\<lambda>s. (callback, 0x92, word_of_int (svc_channel s), take 20 (c_str (svc_name s)))) (filter (\<lambda>s. svc_offers s u) svcs)"
proof -
  let ?pat = "des_bytes 5 (0x19 # be16 u)" and ?ids = "[0x0A, 0, 1, 1, 0] :: bytes" and ?found = "filter (\<lambda>s. svc_offers s u) svcs"
  obtain q0 where q0: "sdp_client_query_rfcomm_init (q\<lparr>sdp_app_callback := callback\<rparr>) = Ret q0" "query_ready q0"
      "sdp_rfcomm_channel_nr q0 = 0" "sdp_app_callback q0 = callback"
    using query_init [of "q\<lparr>sdp_app_callback := callback\<rparr>"] client(3) by auto
  define c0 where "c0 = c\<lparr>parser := sdp_parser_init (parser c), service_search_pattern := ?pat, attribute_id_list := rfcomm_attributeIDList,
    continuationStateLen := 0, PDU_ID := 7, sdp_client_state := W4_CONNECT\<rparr>"
  have query: "sdp_client_query_rfcomm_channel_and_name_for_uuid c 0 callback u q = Ret (q0, c0, [CreateChannel 1], 0)"
    using client(1) q0(1)
    by (simp add: sdp_client_query_rfcomm_channel_and_name_for_uuid_def search_pattern
        sdp_client_query_rfcomm_channel_and_name_for_search_pattern_def sdp_client_query_def c0_def)
  define c1 where "c1 = c0\<lparr>sdp_cid := cid, mtu := m, sdp_client_state := W2_SEND\<rparr>"
  have connected: "sdp_client_packet_handler extra app data c0 4 cid opened opened_size = Ret (c1, [AskToSend cid])"
    using events(1) by (simp add: sdp_client_packet_handler_def opened_event_def c1_def c0_def)
  define rq where "rq = search_attribute_request (transactionID c + 1) ?pat m rfcomm_attributeIDList [0]"
  define c2 where "c2 = c1\<lparr>transactionID := transactionID c + 1, sdp_client_state := W4_RESPONSE, PDU_ID := 0\<rparr>"
  have fits: "des_fits 5 (length (concat [0x19 # be16 u]))" "des_fits 5 (length (concat [?ids]))" by (simp_all add: des_fits_def)
  have c1: "sdp_client_state c1 = W2_SEND" "PDU_ID c1 = 7" "continuation_ok c1" "service_search_pattern c1 = ?pat"
    "attribute_id_list c1 = rfcomm_attributeIDList" "transactionID c1 = transactionID c" "mtu c1 = m" "continuationStateLen c1 = 0" "sdp_cid c1 = cid"
    using client(2) by (simp_all add: c1_def c0_def continuation_ok_def)
  have lens: "length ?pat = 5" "length rfcomm_attributeIDList = 7" by (simp_all add: des_bytes_def des_header_def rfcomm_attributeIDList_def)
  have ok: "elem_ok (service_search_pattern c1)" "elem_ok (attribute_id_list c1)"
    unfolding c1 ids_des using fits by (simp_all add: des_elem_ok)
  have "sdp_client_send_request extra c1 data cid = Ret (c2, [ReserveBuffer, SendRequest cid rq])"
    using client_request [OF c1(1-3) ok, of data extra cid] client(5,6) by (simp add: c1 lens c2_def rq_def)
  then have sent: "sdp_client_packet_handler extra app data c1 4 cid can_send can_send_size = Ret (c2, [ReserveBuffer, SendRequest cid rq])"
    using events(2) c1(9) by (simp add: sdp_client_packet_handler_def channel_event_def)
  have es: "list_all2 (\<lambda>item e. entry_at n (service_record item) e) (sdp_service_records server) (map (\<lambda>s. (6, svc_tree s, svc_attrs s)) svcs)"
    using server(1) svcs(1) announces_entry [OF _ _ server(4)]
    by (auto simp: list_all2_conv_all_nth)
  note ans = svc_answers [OF svcs(1)]
  obtain s' s'' where server_sends: "handle_request n server rq (of_nat (length rq)) server_mtu = Some (Ret (s', [RequestCanSendNow (l2cap_cid server)]))"
      "sdp_respond s' = Ret (s'', [L2capSend (l2cap_cid server) (response 7 (transactionID c + 1) (answer (svc_answers svcs u)) [0])])"
    using search_attribute_exchange [OF fits(1) _ _ _ fits(2) _ _ _ es, of ?pat rfcomm_attributeIDList m server_mtu "transactionID c + 1"]
      server limits small_elems(3) lens unfolding ans rq_def
    by (auto simp: ids_des be16_def small_elems)
  let ?rsp = "response 7 (transactionID c + 1) (answer (svc_answers svcs u)) [0]"
  have small: "length (svc_answers svcs u) < 1100" using limits by (simp add: SDP_RESPONSE_BUFFER_SIZE_def)
  have found: "\<forall>s \<in> set ?found. service_ok s" using svcs(1) by auto
  from answers_read [OF found svcs(2) _ q0(2,3) client(4), of "parser c" 0] obtain p es q' calls where
      read: "sdp_parser_handle_chunk (sdp_parser_init (parser c)) (answer (svc_answers svcs u)) = Ret (p, es)"
        "query_events stack 0 (es @ [[0x91, 1, 0]]) q0 = Ret (q', calls @ [(callback, [0x91, 1, 0])])"
        "map announced calls = map (\<lambda>s. (callback, 0x92, word_of_int (svc_channel s), take 20 (c_str (svc_name s)))) ?found"
    using small unfolding svc_answers_def q0(4) by auto
  have "sdp_parser_handle_chunk (parser c2) (answer (svc_answers svcs u)) = Ret (p, es)"
    using read(1) by (simp add: c2_def c1_def c0_def)
  moreover have "length (answer (svc_answers svcs u)) \<le> unat (mtu c2)" "8 + length (answer (svc_answers svcs u)) < 65536"
    "transactionID c2 = transactionID c + 1"
    using limits small by (simp_all add: c2_def c1 answer_def answer_header)
  ultimately obtain c3 where c3: "client_data_packet extra c2 ?rsp (of_nat (length ?rsp)) = Ret (c3, map Emit es @ [Disconnect (sdp_cid c2)])"
      "sdp_client_state c3 = QUERY_COMPLETE" "sdp_cid c3 = sdp_cid c2"
    using client_response by blast
  have cid: "sdp_cid c2 = cid" by (simp add: c2_def c1)
  have got: "sdp_client_packet_handler extra app data c2 6 cid ?rsp (of_nat (length ?rsp)) = Ret (c3, map Emit es @ [Disconnect cid])"
    using c3(1) unfolding cid by (simp add: sdp_client_packet_handler_def del: of_nat_add length_response)
  have over: "sdp_client_packet_handler extra app data c3 4 cid closed closed_size = Ret (sdp_parser_handle_done app c3 0)"
    using c3(2,3) cid events(3) by (simp add: sdp_client_packet_handler_def channel_event_def)
  show ?thesis
    using query connected sent server_sends got over read(2,3) by blast
qed


text \<open>
  Two services, the second with a class of its own and a name of 25 characters; packets of 400 bytes,
  and an application that does nothing else.
\<close>

definition ex_record :: "spp_service \<Rightarrow> bytes" where
  "ex_record s =
     (case spp_create_sdp_record_internal (replicate 200 0) 0 (svc_handle s) (svc_uuid s) (svc_channel s) (svc_name s) of
        Ret m \<Rightarrow> m | Undef \<Rightarrow> [])"

definition ex_server :: sdp_server where
  "ex_server = sdp_start\<lparr>l2cap_cid := 0x41,
     sdp_service_records := map (\<lambda>s. \<lparr>service_record_handle = svc_handle s, service_record = ex_record s\<rparr>) ex_services\<rparr>"

definition ex_app :: sdp_app where
  "ex_app = \<lparr>on_complete = \<lambda>status c. (c, []), on_ready = \<lambda>callback c. (c, [])\<rparr>"

definition ex_opened :: bytes where
  "ex_opened = [0x70, 21, 0, 0, 0, 0, 0, 0, 0, 0, 0, 0, 0, 0, 0, 0, 0, 0x90, 0x01]"

lemma ex_services_ok: "\<forall>s \<in> set ex_services. service_ok s"
  by (simp add: ex_services_def service_ok_def ex_names)

lemma ex_announces:
  assumes "s \<in> set ex_services"
  shows "announces \<lparr>service_record_handle = h, service_record = ex_record s\<rparr> s"
proof -
  have len: "113 + length (c_str (svc_name s)) \<le> length (replicate 200 0 :: bytes)"
    using assms by (auto simp: ex_services_def ex_names)
  have ok: "service_ok s" using assms ex_services_ok by blast
  have "\<exists>m'. spp_create_sdp_record_internal (replicate 200 0) 0 (svc_handle s) (svc_uuid s) (svc_channel s) (svc_name s) = Ret m' \<and>
      record_at m' 0 6 (svc_attrs s)"
    unfolding svc_attrs_def using ok len by (intro record_created) (auto simp: service_ok_def)
  then have "spp_create_sdp_record_internal (replicate 200 0) 0 (svc_handle s) (svc_uuid s) (svc_channel s) (svc_name s) = Ret (ex_record s)"
    by (auto simp: ex_record_def)
  with len show ?thesis unfolding announces_def by (intro exI [of _ "replicate 200 0"]) simp
qed

lemma ex_all_found: "filter (\<lambda>s. svc_offers s 0x1101) ex_services = ex_services"
  by (simp add: ex_services_def svc_offers_def)

theorem services_found_witness:
  "\<exists>q0 c0 c1 c2 c3 rq s' s'' rsp es q' calls.
    sdp_client_query_rfcomm_channel_and_name_for_uuid sdp_client_start 0 7 0x1101 query_start = Ret (q0, c0, [CreateChannel 1], 0) \<and>
    sdp_client_packet_handler False ex_app (replicate 400 0) c0 4 0x40 ex_opened 19 = Ret (c1, [AskToSend 0x40]) \<and>
    sdp_client_packet_handler False ex_app (replicate 400 0) c1 4 0x40 [0x78, 2, 0x40, 0] 4 = Ret (c2, [ReserveBuffer, SendRequest 0x40 rq]) \<and>
    handle_request 60 ex_server rq (of_nat (length rq)) 400 = Some (Ret (s', [RequestCanSendNow (l2cap_cid ex_server)])) \<and>
    sdp_respond s' = Ret (s'', [L2capSend (l2cap_cid ex_server) rsp]) \<and>
    sdp_client_packet_handler False ex_app (replicate 400 0) c2 6 0x40 rsp (of_nat (length rsp)) = Ret (c3, map Emit es @ [Disconnect 0x40]) \<and>
    sdp_client_packet_handler False ex_app (replicate 400 0) c3 4 0x40 [0x71, 2, 0x40, 0] 4 = Ret (sdp_parser_handle_done ex_app c3 0) \<and>
    query_events (\<lambda>_. replicate 24 0xAA) 0 (es @ [[0x91, 1, 0]]) q0 = Ret (q', calls @ [(7, [0x91, 1, 0])]) \<and>
    map announced calls =
      map (\<lambda>s. (7, 0x92, word_of_int (svc_channel s), take 20 (c_str (svc_name s)))) (filter (\<lambda>s. svc_offers s 0x1101) ex_services)"
proof (rule services_found [OF ex_services_ok])
  show "list_all2 announces (sdp_service_records ex_server) ex_services"
    using ex_announces by (simp add: ex_server_def list_all2_conv_all_nth)
  have "length (svc_answers ex_services 0x1101) < 300"
    using ex_answers_length by (simp only: svc_answers_def ex_all_found)
  then show "15 + length (svc_answers ex_services 0x1101) \<le> unat (400 :: u16)" "3 + length (svc_answers ex_services 0x1101) \<le> unat (400 :: u16)"
    by simp_all
  show "opened_event ex_opened 400"
    by (simp add: opened_event_def ex_opened_def rd_def little_endian_read_16_def)
  show "channel_event [0x78, 2, 0x40, 0] 0x78 0x40" "channel_event [0x71, 2, 0x40, 0] 0x71 0x40"
    by (simp_all add: channel_event_def rd_def little_endian_read_16_def)
  show "filter (\<lambda>s. svc_offers s 0x1101) ex_services \<noteq> []" unfolding ex_all_found by (simp add: ex_services_def)
qed (simp_all add: ex_server_def sdp_start_def SDP_RESPONSE_BUFFER_SIZE_def sdp_client_ready_def sdp_client_start_def
    continuation_ok_def query_start_def)

end
