(* ===== verification/Rfcomm.thy ===== *)
theory Rfcomm
  imports Wp
begin

text \<open>
  \<^verbatim>\<open>btstack-rootless/src/classic/rfcomm.c\<close>, first part: the data of RFCOMM, its lists, the frames it
  sends and the events it emits.  Multiplexers and channels are heap objects: a pointer is a number,
  a freed object is \<open>None\<close>, and an access to it is undefined.  The calls RFCOMM makes (frames for
  L2CAP, events for the packet handlers of the applications, timers) are collected in \<open>trace\<close>, in
  order; what L2CAP and the applications do in turn are calls of their own.
\<close>

subsection \<open>Types\<close>

datatype multiplexer_state = RFCOMM_MULTIPLEXER_CLOSED | RFCOMM_MULTIPLEXER_W4_CONNECT | RFCOMM_MULTIPLEXER_SEND_SABM_0 |
  RFCOMM_MULTIPLEXER_W4_UA_0 | RFCOMM_MULTIPLEXER_W4_SABM_0 | RFCOMM_MULTIPLEXER_SEND_UA_0 | RFCOMM_MULTIPLEXER_OPEN |
  RFCOMM_MULTIPLEXER_SEND_UA_0_AND_DISC | RFCOMM_MULTIPLEXER_SHUTTING_DOWN

datatype channel_state = RFCOMM_CHANNEL_CLOSED | RFCOMM_CHANNEL_W4_MULTIPLEXER | RFCOMM_CHANNEL_SEND_UIH_PN |
  RFCOMM_CHANNEL_W4_PN_RSP | RFCOMM_CHANNEL_SEND_SABM_W4_UA | RFCOMM_CHANNEL_W4_UA | RFCOMM_CHANNEL_INCOMING_SETUP |
  RFCOMM_CHANNEL_DLC_SETUP | RFCOMM_CHANNEL_OPEN | RFCOMM_CHANNEL_SEND_UA_AFTER_DISC | RFCOMM_CHANNEL_SEND_DISC |
  RFCOMM_CHANNEL_W4_UA_AFTER_DISC | RFCOMM_CHANNEL_SEND_DM | RFCOMM_CHANNEL_EMIT_OPEN_FAILED_AND_DISCARD

record rfcomm_rpn_data =
  rpn_baud_rate :: byte
  rpn_flags :: byte
  rpn_flow_control :: byte
  rpn_xon :: byte
  rpn_xoff :: byte
  parameter_mask_0 :: byte
  parameter_mask_1 :: byte

text \<open>A packet handler of an application is a number.\<close>

record rfcomm_service =
  srv_packet_handler :: nat
  server_channel :: byte
  srv_max_frame_size :: u16
  srv_incoming_flow_control :: byte
  incoming_initial_credits :: byte

record rfcomm_multiplexer =
  timer_active :: bool
  mux_state :: multiplexer_state
  l2cap_cid :: u16
  fcon :: byte
  remote_addr :: bytes
  con_handle :: u16
  outgoing :: byte
  at_least_one_connection :: bool
  mux_max_frame_size :: u16
  send_dm_for_dlci :: byte
  nsc_command :: byte
  test_data_len :: byte
  test_data :: bytes

text \<open>\<open>has_service\<close> is \<open>service != NULL\<close>: the source only compares the pointer.\<close>

record rfcomm_channel =
  packet_handler :: nat
  has_service :: bool
  multiplexer :: nat
  rfcomm_cid :: u16
  dlci :: byte
  credits_outgoing :: byte
  new_credits_incoming :: byte
  credits_incoming :: byte
  incoming_flow_control :: byte
  ch_state :: channel_state
  state_var :: u16
  pn_priority :: byte
  max_frame_size :: u16
  rpn_data :: rfcomm_rpn_data
  rls_line_status :: byte
  waiting_for_can_send_now :: bool

text \<open>The calls: \<open>SendPrepared cid frame status\<close> returned \<open>status\<close>.\<close>

datatype rf_action = Callback nat byte u16 bytes | SendPrepared u16 bytes int | RequestCanSendNow u16 | ReserveBuffer |
  ReleaseBuffer | L2capDisconnect u16 | AcceptConnection u16 | DeclineConnection u16 | CreateL2capChannel bytes u16 |
  RegisterL2capService byte | UnregisterL2capService | AddTimer nat | RemoveTimer nat

text \<open>
  What L2CAP answers: whether it can send now, after so many frames, and the status of a send.
\<close>

record l2cap =
  can_send :: "nat \<Rightarrow> u16 \<Rightarrow> bool"
  can_send_prepared :: "nat \<Rightarrow> u16 \<Rightarrow> bool"
  send_status :: "nat \<Rightarrow> u16 \<Rightarrow> int"
  max_mtu :: u16

record rfcomm =
  rfcomm_client_cid_generator :: u16
  rfcomm_multiplexers :: "nat list"
  rfcomm_channels :: "nat list"
  rfcomm_services :: "rfcomm_service list"
  rfcomm_security_level :: byte
  mux_mem :: "nat \<Rightarrow> rfcomm_multiplexer option"
  channel_mem :: "nat \<Rightarrow> rfcomm_channel option"
  out_buffer :: bytes
  frames :: nat
  trace :: "rf_action list"

definition RFCOMM_CREDITS :: byte where "RFCOMM_CREDITS = 10"
definition RFCOMM_RLS_STATUS_INVALID :: byte where "RFCOMM_RLS_STATUS_INVALID = 0xFF"
definition RFCOMM_TEST_DATA_MAX_LEN :: nat where "RFCOMM_TEST_DATA_MAX_LEN = 4"

text \<open>The flags of \<open>state_var\<close>.\<close>

definition CLIENT_ACCEPTED :: u16 where "CLIENT_ACCEPTED = 0x0001"
definition RCVD_PN :: u16 where "RCVD_PN = 0x0002"
definition RCVD_SABM :: u16 where "RCVD_SABM = 0x0008"
definition RCVD_MSC_CMD :: u16 where "RCVD_MSC_CMD = 0x0010"
definition RCVD_MSC_RSP :: u16 where "RCVD_MSC_RSP = 0x0020"
definition SEND_PN_RSP :: u16 where "SEND_PN_RSP = 0x0040"
definition SEND_RPN_INFO :: u16 where "SEND_RPN_INFO = 0x0080"
definition SEND_RPN_RSP :: u16 where "SEND_RPN_RSP = 0x0100"
definition SEND_UA :: u16 where "SEND_UA = 0x0200"
definition SEND_MSC_CMD :: u16 where "SEND_MSC_CMD = 0x0400"
definition SEND_MSC_RSP :: u16 where "SEND_MSC_RSP = 0x0800"
definition SEND_CREDITS :: u16 where "SEND_CREDITS = 0x1000"
definition SENT_MSC_CMD :: u16 where "SENT_MSC_CMD = 0x2000"
definition SENT_MSC_RSP :: u16 where "SENT_MSC_RSP = 0x4000"
definition SENT_CREDITS :: u16 where "SENT_CREDITS = 0x8000"

subsection \<open>Memory and lists\<close>

definition mux :: "rfcomm \<Rightarrow> nat \<Rightarrow> rfcomm_multiplexer outcome" where
  "mux s m = (case mux_mem s m of None \<Rightarrow> Undef | Some x \<Rightarrow> Ret x)"

definition chan :: "rfcomm \<Rightarrow> nat \<Rightarrow> rfcomm_channel outcome" where
  "chan s p = (case channel_mem s p of None \<Rightarrow> Undef | Some c \<Rightarrow> Ret c)"

definition set_mux :: "nat \<Rightarrow> rfcomm_multiplexer \<Rightarrow> rfcomm \<Rightarrow> rfcomm" where
  "set_mux m x s = s\<lparr>mux_mem := (mux_mem s)(m \<mapsto> x)\<rparr>"

definition set_chan :: "nat \<Rightarrow> rfcomm_channel \<Rightarrow> rfcomm \<Rightarrow> rfcomm" where
  "set_chan p c s = s\<lparr>channel_mem := (channel_mem s)(p \<mapsto> c)\<rparr>"

definition upd_mux :: "nat \<Rightarrow> (rfcomm_multiplexer \<Rightarrow> rfcomm_multiplexer) \<Rightarrow> rfcomm \<Rightarrow> rfcomm outcome" where
  "upd_mux m f s = bind_outcome (mux s m) (\<lambda>x. Ret (set_mux m (f x) s))"

definition upd_chan :: "nat \<Rightarrow> (rfcomm_channel \<Rightarrow> rfcomm_channel) \<Rightarrow> rfcomm \<Rightarrow> rfcomm outcome" where
  "upd_chan p f s = bind_outcome (chan s p) (\<lambda>c. Ret (set_chan p (f c) s))"

definition act :: "rf_action \<Rightarrow> rfcomm \<Rightarrow> rfcomm" where
  "act a s = s\<lparr>trace := trace s @ [a]\<rparr>"

text \<open>The first element of a list that passes a test on memory.\<close>

fun find_out :: "('a \<Rightarrow> bool outcome) \<Rightarrow> 'a list \<Rightarrow> 'a option outcome" where
  "find_out P [] = Ret None"
| "find_out P (x # xs) = bind_outcome (P x) (\<lambda>b. if b then Ret (Some x) else find_out P xs)"

definition rfcomm_channel_for_rfcomm_cid :: "rfcomm \<Rightarrow> u16 \<Rightarrow> nat option outcome" where
  "rfcomm_channel_for_rfcomm_cid s cid =
     find_out (\<lambda>p. bind_outcome (chan s p) (\<lambda>c. Ret (rfcomm_cid c = cid))) (rfcomm_channels s)"

text \<open>
  The loop of \<open>rfcomm_next_client_cid\<close>.  After 65535 rounds it has tried every identifier and goes on
  forever: like every run without a result, that is \<open>Undef\<close>.
\<close>

fun next_client_cid_loop :: "nat \<Rightarrow> rfcomm \<Rightarrow> (rfcomm \<times> u16) outcome" where
  "next_client_cid_loop 0 s = Undef"
| "next_client_cid_loop (Suc n) s =
     (let cid = (if rfcomm_client_cid_generator s = 0xFFFF then 1 else rfcomm_client_cid_generator s + 1);
          s = s\<lparr>rfcomm_client_cid_generator := cid\<rparr> in
      bind_outcome (rfcomm_channel_for_rfcomm_cid s cid) (\<lambda>r.
      if r \<noteq> None then next_client_cid_loop n s else Ret (s, cid)))"

definition rfcomm_next_client_cid :: "rfcomm \<Rightarrow> (rfcomm \<times> u16) outcome" where
  "rfcomm_next_client_cid s = next_client_cid_loop 65535 s"

definition rfcomm_multiplexer_for_addr :: "rfcomm \<Rightarrow> bytes \<Rightarrow> nat option outcome" where
  "rfcomm_multiplexer_for_addr s addr =
     find_out (\<lambda>m. bind_outcome (mux s m) (\<lambda>x.
       Ret (mux_state x \<noteq> RFCOMM_MULTIPLEXER_SHUTTING_DOWN \<and> addr = remote_addr x))) (rfcomm_multiplexers s)"

definition rfcomm_multiplexer_for_l2cap_cid :: "rfcomm \<Rightarrow> u16 \<Rightarrow> nat option outcome" where
  "rfcomm_multiplexer_for_l2cap_cid s cid =
     find_out (\<lambda>m. bind_outcome (mux s m) (\<lambda>x. Ret (l2cap_cid x = cid))) (rfcomm_multiplexers s)"

definition rfcomm_multiplexer_has_channels :: "rfcomm \<Rightarrow> nat \<Rightarrow> bool outcome" where
  "rfcomm_multiplexer_has_channels s m =
     bind_outcome (find_out (\<lambda>p. bind_outcome (chan s p) (\<lambda>c. Ret (multiplexer c = m))) (rfcomm_channels s)) (\<lambda>r.
     Ret (r \<noteq> None))"

definition rfcomm_channel_for_multiplexer_and_dlci :: "rfcomm \<Rightarrow> nat \<Rightarrow> byte \<Rightarrow> nat option outcome" where
  "rfcomm_channel_for_multiplexer_and_dlci s m d =
     find_out (\<lambda>p. bind_outcome (chan s p) (\<lambda>c. Ret (dlci c = d \<and> multiplexer c = m))) (rfcomm_channels s)"

definition rfcomm_service_for_channel :: "rfcomm \<Rightarrow> byte \<Rightarrow> rfcomm_service option" where
  "rfcomm_service_for_channel s channel = find (\<lambda>srv. server_channel srv = channel) (rfcomm_services s)"

subsection \<open>Events\<close>

definition call_handler :: "nat \<Rightarrow> byte \<Rightarrow> u16 \<Rightarrow> bytes \<Rightarrow> rfcomm \<Rightarrow> rfcomm" where
  "call_handler h packet_type channel packet s = act (Callback h packet_type channel packet) s"

definition rfcomm_emit_connection_request :: "nat \<Rightarrow> rfcomm \<Rightarrow> rfcomm outcome" where
  "rfcomm_emit_connection_request p s =
     bind_outcome (chan s p) (\<lambda>c. bind_outcome (mux s (multiplexer c)) (\<lambda>x.
     Ret (call_handler (packet_handler c) 4 0
       ([0x82, 9] @ rev (remote_addr x) @ [drop_bit 1 (dlci c)] @ le16 (rfcomm_cid c)) s)))"

definition rfcomm_emit_can_send_now :: "nat \<Rightarrow> rfcomm \<Rightarrow> rfcomm outcome" where
  "rfcomm_emit_can_send_now p s =
     bind_outcome (chan s p) (\<lambda>c.
     Ret (call_handler (packet_handler c) 4 (rfcomm_cid c) ([0x89, 2] @ le16 (rfcomm_cid c)) s))"

definition rfcomm_channel_can_send :: "l2cap \<Rightarrow> rfcomm \<Rightarrow> nat \<Rightarrow> bool outcome" where
  "rfcomm_channel_can_send L s p =
     bind_outcome (chan s p) (\<lambda>c.
     if credits_outgoing c = 0 then Ret False
     else bind_outcome (mux s (multiplexer c)) (\<lambda>x.
       if fcon x AND 1 = 0 then Ret False else Ret (can_send L (frames s) (l2cap_cid x))))"

definition rfcomm_emit_channel_opened :: "l2cap \<Rightarrow> nat \<Rightarrow> byte \<Rightarrow> rfcomm \<Rightarrow> rfcomm outcome" where
  "rfcomm_emit_channel_opened L p status s =
     bind_outcome (chan s p) (\<lambda>c. bind_outcome (mux s (multiplexer c)) (\<lambda>x.
     let s = call_handler (packet_handler c) 4 0
       ([0x80, 16, status] @ rev (remote_addr x) @ le16 (con_handle x) @ [drop_bit 1 (dlci c)] @ le16 (rfcomm_cid c) @
        le16 (max_frame_size c) @ [if has_service c then 1 else 0]) s in
     if status \<noteq> 0 then Ret s
     else bind_outcome (rfcomm_channel_can_send L s p) (\<lambda>b.
       if b then rfcomm_emit_can_send_now p s else Ret s)))"

definition rfcomm_emit_channel_closed :: "nat \<Rightarrow> rfcomm \<Rightarrow> rfcomm outcome" where
  "rfcomm_emit_channel_closed p s =
     bind_outcome (chan s p) (\<lambda>c.
     Ret (call_handler (packet_handler c) 4 0 ([0x81, 2] @ le16 (rfcomm_cid c)) s))"

definition rfcomm_emit_remote_line_status :: "nat \<Rightarrow> byte \<Rightarrow> rfcomm \<Rightarrow> rfcomm outcome" where
  "rfcomm_emit_remote_line_status p line_status s =
     bind_outcome (chan s p) (\<lambda>c.
     Ret (call_handler (packet_handler c) 4 0 ([0x83, 3] @ le16 (rfcomm_cid c) @ [line_status]) s))"

definition rpn_bytes :: "rfcomm_rpn_data \<Rightarrow> bytes" where
  "rpn_bytes d = [rpn_baud_rate d, rpn_flags d, rpn_flow_control d, rpn_xon d, rpn_xoff d, parameter_mask_0 d, parameter_mask_1 d]"

definition rfcomm_emit_port_configuration :: "nat \<Rightarrow> rfcomm \<Rightarrow> rfcomm outcome" where
  "rfcomm_emit_port_configuration p s =
     bind_outcome (chan s p) (\<lambda>c.
     Ret (call_handler (packet_handler c) 4 (rfcomm_cid c) ([0x88, 7] @ rpn_bytes (rpn_data c)) s))"

subsection \<open>Port configuration\<close>

definition rfcomm_rpn_data_set_defaults :: rfcomm_rpn_data where
  "rfcomm_rpn_data_set_defaults = \<lparr>rpn_baud_rate = 3, rpn_flags = 0x03, rpn_flow_control = 0, rpn_xon = 0xD1, rpn_xoff = 0xD3,
     parameter_mask_0 = 0x7F, parameter_mask_1 = 0x3F\<rparr>"

text \<open>The last loop, which goes over the six bits of \<open>parameter_mask_1\<close>.\<close>

fun rpn_flow_loop :: "nat list \<Rightarrow> rfcomm_rpn_data \<Rightarrow> byte \<Rightarrow> byte" where
  "rpn_flow_loop [] src flags = flags"
| "rpn_flow_loop (i # is) src flags =
     (let mask = push_bit i 1 in
      rpn_flow_loop is src (if parameter_mask_1 src AND mask \<noteq> 0 then (flags AND NOT mask) OR (rpn_flags src AND mask) else flags))"

definition rfcomm_rpn_data_update :: "rfcomm_rpn_data \<Rightarrow> rfcomm_rpn_data \<Rightarrow> rfcomm_rpn_data" where
  "rfcomm_rpn_data_update dest src =
     (let m = parameter_mask_0 src;
          dest = (if m AND 0x01 \<noteq> 0 then dest\<lparr>rpn_baud_rate := rpn_baud_rate src\<rparr> else dest);
          dest = (if m AND 0x02 \<noteq> 0 then dest\<lparr>rpn_flags := (rpn_flags dest AND 0xFC) OR (rpn_flags src AND 0x03)\<rparr> else dest);
          dest = (if m AND 0x04 \<noteq> 0 then dest\<lparr>rpn_flags := (rpn_flags dest AND 0xFB) OR (rpn_flags src AND 0x04)\<rparr> else dest);
          dest = (if m AND 0x08 \<noteq> 0 then dest\<lparr>rpn_flags := (rpn_flags dest AND 0xF7) OR (rpn_flags src AND 0x08)\<rparr> else dest);
          dest = (if m AND 0x10 \<noteq> 0 then dest\<lparr>rpn_flags := (rpn_flags dest AND 0xFC) OR (rpn_flags src AND 0x30)\<rparr> else dest);
          dest = (if m AND 0x20 \<noteq> 0 then dest\<lparr>rpn_xon := rpn_xon src\<rparr> else dest);
          dest = (if m AND 0x40 \<noteq> 0 then dest\<lparr>rpn_xoff := rpn_xoff src\<rparr> else dest);
          dest = dest\<lparr>rpn_flags := rpn_flow_loop [0..<6] src (rpn_flags dest)\<rparr> in
      dest\<lparr>parameter_mask_0 := parameter_mask_0 src, parameter_mask_1 := parameter_mask_1 src\<rparr>)"

subsection \<open>Frames\<close>

definition send_prepared_to_l2cap :: "l2cap \<Rightarrow> u16 \<Rightarrow> u16 \<Rightarrow> rfcomm \<Rightarrow> (rfcomm \<times> int) outcome" where
  "send_prepared_to_l2cap L cid n s =
     (let status = send_status L (frames s) cid in
      bind_outcome (rd_block (out_buffer s) 0 (unat n)) (\<lambda>bs.
      Ret (act (SendPrepared cid bs status) (s\<lparr>frames := frames s + 1\<rparr>), status)))"

text \<open>The length field: one byte below 128, two bytes otherwise.\<close>

definition length_field :: "u16 \<Rightarrow> bytes" where
  "length_field len =
     (if len < 128 then [ucast (push_bit 1 len OR 1)] else [ucast (push_bit 1 (len AND 0x7F)), ucast (drop_bit 7 len)])"

definition rfcomm_send_packet_for_multiplexer ::
    "l2cap \<Rightarrow> nat \<Rightarrow> byte \<Rightarrow> byte \<Rightarrow> byte \<Rightarrow> bytes \<Rightarrow> rfcomm \<Rightarrow> (rfcomm \<times> int) outcome" where
  "rfcomm_send_packet_for_multiplexer L m address control credits data s =
     bind_outcome (mux s m) (\<lambda>x.
     if \<not> can_send L (frames s) (l2cap_cid x) then Ret (s, 0x57)
     else
       let s = act ReserveBuffer s;
           len = of_nat (length data);
           hdr = [address, control] @ length_field len;
           crc_fields = (if control AND 0xEF = 0xEF then 2 else length hdr);
           hdr = hdr @ (if control = 0xFF then [credits] else []);
           pos = length hdr + length data in
       bind_outcome (wr_block (out_buffer s) 0 hdr) (\<lambda>buf.
       bind_outcome (wr_block buf (int (length hdr)) data) (\<lambda>buf.
       bind_outcome (rd_block buf 0 crc_fields) (\<lambda>fcs.
       bind_outcome (wr buf (int pos) (btstack_crc8_calc fcs)) (\<lambda>buf.
       send_prepared_to_l2cap L (l2cap_cid x) (of_nat (pos + 1)) (s\<lparr>out_buffer := buf\<rparr>))))))"

text \<open>A prepared UIH frame: its data lies at offset 4 of the buffer.\<close>

definition rfcomm_send_uih_prepared :: "l2cap \<Rightarrow> nat \<Rightarrow> byte \<Rightarrow> u16 \<Rightarrow> rfcomm \<Rightarrow> (rfcomm \<times> int) outcome" where
  "rfcomm_send_uih_prepared L m d len s =
     bind_outcome (mux s m) (\<lambda>x.
     let address = 1 OR push_bit 1 (outgoing x) OR push_bit 2 d;
         hdr = [address, 0xEF, ucast (push_bit 1 (len AND 0x7F)), ucast (drop_bit 7 len)] in
     bind_outcome (wr_block (out_buffer s) 0 hdr) (\<lambda>buf.
     bind_outcome (rd_block buf 0 2) (\<lambda>fcs.
     bind_outcome (wr buf (uint (4 + len)) (btstack_crc8_calc fcs)) (\<lambda>buf.
     send_prepared_to_l2cap L (l2cap_cid x) (4 + len + 1) (s\<lparr>out_buffer := buf\<rparr>)))))"

text \<open>The address of a command and of a response, and of a message in the control channel.\<close>

definition cmd_address :: "rfcomm_multiplexer \<Rightarrow> byte \<Rightarrow> byte" where
  "cmd_address x d = 1 OR push_bit 1 (outgoing x) OR push_bit 2 d"

definition rsp_address :: "rfcomm_multiplexer \<Rightarrow> byte \<Rightarrow> byte" where
  "rsp_address x d = 1 OR push_bit 1 (outgoing x XOR 1) OR push_bit 2 d"

definition uih_message :: "l2cap \<Rightarrow> nat \<Rightarrow> bytes \<Rightarrow> rfcomm \<Rightarrow> (rfcomm \<times> int) outcome" where
  "uih_message L m payload s =
     bind_outcome (mux s m) (\<lambda>x.
     rfcomm_send_packet_for_multiplexer L m (1 OR push_bit 1 (outgoing x)) 0xEF 0 payload s)"

definition rfcomm_send_sabm :: "l2cap \<Rightarrow> nat \<Rightarrow> byte \<Rightarrow> rfcomm \<Rightarrow> (rfcomm \<times> int) outcome" where
  "rfcomm_send_sabm L m d s =
     bind_outcome (mux s m) (\<lambda>x. rfcomm_send_packet_for_multiplexer L m (cmd_address x d) 0x3F 0 [] s)"

definition rfcomm_send_disc :: "l2cap \<Rightarrow> nat \<Rightarrow> byte \<Rightarrow> rfcomm \<Rightarrow> (rfcomm \<times> int) outcome" where
  "rfcomm_send_disc L m d s =
     bind_outcome (mux s m) (\<lambda>x. rfcomm_send_packet_for_multiplexer L m (cmd_address x d) 0x53 0 [] s)"

definition rfcomm_send_ua :: "l2cap \<Rightarrow> nat \<Rightarrow> byte \<Rightarrow> rfcomm \<Rightarrow> (rfcomm \<times> int) outcome" where
  "rfcomm_send_ua L m d s =
     bind_outcome (mux s m) (\<lambda>x. rfcomm_send_packet_for_multiplexer L m (rsp_address x d) 0x73 0 [] s)"

definition rfcomm_send_dm_pf :: "l2cap \<Rightarrow> nat \<Rightarrow> byte \<Rightarrow> rfcomm \<Rightarrow> (rfcomm \<times> int) outcome" where
  "rfcomm_send_dm_pf L m d s =
     bind_outcome (mux s m) (\<lambda>x. rfcomm_send_packet_for_multiplexer L m (rsp_address x d) 0x1F 0 [] s)"

definition rfcomm_send_uih_fc_rsp :: "l2cap \<Rightarrow> nat \<Rightarrow> byte \<Rightarrow> rfcomm \<Rightarrow> (rfcomm \<times> int) outcome" where
  "rfcomm_send_uih_fc_rsp L m fc s = uih_message L m [if fc \<noteq> 0 then 0xA1 else 0x61, 1] s"

definition rfcomm_send_uih_test_rsp :: "l2cap \<Rightarrow> nat \<Rightarrow> bytes \<Rightarrow> u16 \<Rightarrow> rfcomm \<Rightarrow> (rfcomm \<times> int) outcome" where
  "rfcomm_send_uih_test_rsp L m data len s =
     (let len = (if unat len > RFCOMM_TEST_DATA_MAX_LEN then of_nat RFCOMM_TEST_DATA_MAX_LEN else len) in
      bind_outcome (rd_block data 0 (unat len)) (\<lambda>bs.
      uih_message L m ([0x21, ucast (push_bit 1 len OR 1)] @ bs) s))"

definition msg_dlci :: "byte \<Rightarrow> byte" where
  "msg_dlci d = 1 OR push_bit 1 1 OR push_bit 2 d"

definition rfcomm_send_uih_msc_cmd :: "l2cap \<Rightarrow> nat \<Rightarrow> byte \<Rightarrow> byte \<Rightarrow> rfcomm \<Rightarrow> (rfcomm \<times> int) outcome" where
  "rfcomm_send_uih_msc_cmd L m d signals s = uih_message L m [0xE3, 5, msg_dlci d, signals] s"

definition rfcomm_send_uih_msc_rsp :: "l2cap \<Rightarrow> nat \<Rightarrow> byte \<Rightarrow> byte \<Rightarrow> rfcomm \<Rightarrow> (rfcomm \<times> int) outcome" where
  "rfcomm_send_uih_msc_rsp L m d signals s = uih_message L m [0xE1, 5, msg_dlci d, signals] s"

definition rfcomm_send_uih_nsc_rsp :: "l2cap \<Rightarrow> nat \<Rightarrow> byte \<Rightarrow> rfcomm \<Rightarrow> (rfcomm \<times> int) outcome" where
  "rfcomm_send_uih_nsc_rsp L m command s = uih_message L m [0x11, 3, command] s"

definition rfcomm_send_uih_pn_command :: "l2cap \<Rightarrow> nat \<Rightarrow> byte \<Rightarrow> u16 \<Rightarrow> rfcomm \<Rightarrow> (rfcomm \<times> int) outcome" where
  "rfcomm_send_uih_pn_command L m d mfs s =
     uih_message L m [0x83, 17, d, 0xF0, 0, 0, ucast (mfs AND 0xFF), ucast (drop_bit 8 mfs), 0, 0] s"

definition rfcomm_send_uih_pn_response :: "l2cap \<Rightarrow> nat \<Rightarrow> byte \<Rightarrow> byte \<Rightarrow> u16 \<Rightarrow> rfcomm \<Rightarrow> (rfcomm \<times> int) outcome" where
  "rfcomm_send_uih_pn_response L m d priority mfs s =
     uih_message L m [0x81, 17, d, 0xE0, priority, 0, ucast (mfs AND 0xFF), ucast (drop_bit 8 mfs), 0, 0] s"

definition rfcomm_send_uih_rls_cmd :: "l2cap \<Rightarrow> nat \<Rightarrow> byte \<Rightarrow> byte \<Rightarrow> rfcomm \<Rightarrow> (rfcomm \<times> int) outcome" where
  "rfcomm_send_uih_rls_cmd L m d line_status s = uih_message L m [0x53, 5, msg_dlci d, line_status] s"

definition rfcomm_send_uih_rls_rsp :: "l2cap \<Rightarrow> nat \<Rightarrow> byte \<Rightarrow> byte \<Rightarrow> rfcomm \<Rightarrow> (rfcomm \<times> int) outcome" where
  "rfcomm_send_uih_rls_rsp L m d line_status s = uih_message L m [0x51, 5, msg_dlci d, line_status] s"

definition rfcomm_send_uih_rpn_cmd :: "l2cap \<Rightarrow> nat \<Rightarrow> byte \<Rightarrow> rfcomm_rpn_data \<Rightarrow> rfcomm \<Rightarrow> (rfcomm \<times> int) outcome" where
  "rfcomm_send_uih_rpn_cmd L m d rpn s = uih_message L m ([0x93, 17, msg_dlci d] @ rpn_bytes rpn) s"

definition rfcomm_send_uih_rpn_req :: "l2cap \<Rightarrow> nat \<Rightarrow> byte \<Rightarrow> rfcomm \<Rightarrow> (rfcomm \<times> int) outcome" where
  "rfcomm_send_uih_rpn_req L m d s = uih_message L m [0x93, 3, msg_dlci d] s"

definition rfcomm_send_uih_rpn_rsp :: "l2cap \<Rightarrow> nat \<Rightarrow> byte \<Rightarrow> rfcomm_rpn_data \<Rightarrow> rfcomm \<Rightarrow> (rfcomm \<times> int) outcome" where
  "rfcomm_send_uih_rpn_rsp L m d rpn s = uih_message L m ([0x91, 17, msg_dlci d] @ rpn_bytes rpn) s"

definition rfcomm_send_uih_credits :: "l2cap \<Rightarrow> nat \<Rightarrow> byte \<Rightarrow> byte \<Rightarrow> rfcomm \<Rightarrow> rfcomm outcome" where
  "rfcomm_send_uih_credits L m d credits s =
     bind_outcome (mux s m) (\<lambda>x.
     bind_outcome (rfcomm_send_packet_for_multiplexer L m (cmd_address x d) 0xFF credits [] s) (\<lambda>(s, err). Ret s))"

end
