(* ===== verification/RfcommChannel.thy ===== *)
theory RfcommChannel
  imports Rfcomm
begin

text \<open>
  \<^verbatim>\<open>btstack-rootless/src/classic/rfcomm.c\<close>, second part: the state machine of a channel, its flow
  control, and how a channel comes and goes.  The state machine is split by the state of the channel.
\<close>

subsection \<open>Events\<close>

datatype rfcomm_channel_event = CH_EVT_RCVD_SABM | CH_EVT_RCVD_UA | CH_EVT_RCVD_PN u16 byte byte | CH_EVT_RCVD_PN_RSP u16 byte byte |
  CH_EVT_RCVD_DISC | CH_EVT_RCVD_DM | CH_EVT_RCVD_MSC_CMD byte | CH_EVT_RCVD_MSC_RSP | CH_EVT_RCVD_RLS_CMD byte |
  CH_EVT_RCVD_RPN_CMD rfcomm_rpn_data | CH_EVT_RCVD_RPN_REQ | CH_EVT_RCVD_CREDITS | CH_EVT_MULTIPLEXER_READY | CH_EVT_READY_TO_SEND

subsection \<open>Life of a channel\<close>

text \<open>
  \<open>pointer\<close> is what the allocator returned, \<open>None\<close> for NULL; the object is filled with zeros before.
\<close>

definition rfcomm_channel_initialize :: "nat \<Rightarrow> rfcomm_service option \<Rightarrow> byte \<Rightarrow> rfcomm \<Rightarrow> (rfcomm \<times> rfcomm_channel) outcome" where
  "rfcomm_channel_initialize m srv channel s =
     bind_outcome (rfcomm_next_client_cid s) (\<lambda>(s, cid).
     bind_outcome (mux s m) (\<lambda>x.
     let c = \<lparr>packet_handler = 0, has_service = False, multiplexer = m, rfcomm_cid = cid, dlci = 0, credits_outgoing = 0,
              new_credits_incoming = RFCOMM_CREDITS, credits_incoming = 0, incoming_flow_control = 0,
              ch_state = RFCOMM_CHANNEL_CLOSED, state_var = 0, pn_priority = 0, max_frame_size = mux_max_frame_size x,
              rpn_data = rfcomm_rpn_data_set_defaults, rls_line_status = RFCOMM_RLS_STATUS_INVALID,
              waiting_for_can_send_now = False\<rparr> in
     Ret (s, case srv of
         Some srv \<Rightarrow> c\<lparr>has_service := True, dlci := push_bit 1 channel OR outgoing x,
           max_frame_size := (if max_frame_size c > srv_max_frame_size srv then srv_max_frame_size srv else max_frame_size c),
           incoming_flow_control := srv_incoming_flow_control srv, new_credits_incoming := incoming_initial_credits srv,
           packet_handler := srv_packet_handler srv\<rparr>
       | None \<Rightarrow> c\<lparr>dlci := push_bit 1 channel OR (outgoing x XOR 1)\<rparr>)))"

definition rfcomm_channel_create :: "nat option \<Rightarrow> nat \<Rightarrow> rfcomm_service option \<Rightarrow> byte \<Rightarrow> rfcomm \<Rightarrow> (rfcomm \<times> nat option) outcome" where
  "rfcomm_channel_create pointer m srv channel s =
     (case pointer of None \<Rightarrow> Ret (s, None)
      | Some p \<Rightarrow>
          bind_outcome (rfcomm_channel_initialize m srv channel s) (\<lambda>(s, c).
          let s = set_chan p c s in
          Ret (s\<lparr>rfcomm_channels := p # rfcomm_channels s\<rparr>, Some p)))"

definition rfcomm_channel_free :: "nat \<Rightarrow> rfcomm \<Rightarrow> rfcomm" where
  "rfcomm_channel_free p s = s\<lparr>channel_mem := (channel_mem s)(p := None)\<rparr>"

definition rfcomm_multiplexer_stop_timer :: "nat \<Rightarrow> rfcomm \<Rightarrow> rfcomm outcome" where
  "rfcomm_multiplexer_stop_timer m s =
     bind_outcome (mux s m) (\<lambda>x.
     if timer_active x then Ret (act (RemoveTimer m) (set_mux m (x\<lparr>timer_active := False\<rparr>) s)) else Ret s)"

definition rfcomm_multiplexer_prepare_idle_timer :: "nat \<Rightarrow> rfcomm \<Rightarrow> rfcomm outcome" where
  "rfcomm_multiplexer_prepare_idle_timer m s =
     bind_outcome (rfcomm_multiplexer_stop_timer m s) (\<lambda>s.
     bind_outcome (rfcomm_multiplexer_has_channels s m) (\<lambda>b.
     if b then Ret s else upd_mux m (\<lambda>x. x\<lparr>timer_active := True\<rparr>) (act (AddTimer m) s)))"

definition rfcomm_channel_finalize :: "nat \<Rightarrow> rfcomm \<Rightarrow> rfcomm outcome" where
  "rfcomm_channel_finalize p s =
     bind_outcome (chan s p) (\<lambda>c.
     let s = rfcomm_channel_free p (s\<lparr>rfcomm_channels := remove1 p (rfcomm_channels s)\<rparr>) in
     rfcomm_multiplexer_prepare_idle_timer (multiplexer c) s)"

definition rfcomm_channel_emit_final_event :: "l2cap \<Rightarrow> nat \<Rightarrow> byte \<Rightarrow> rfcomm \<Rightarrow> rfcomm outcome" where
  "rfcomm_channel_emit_final_event L p status s =
     bind_outcome (chan s p) (\<lambda>c.
     case ch_state c of
       RFCOMM_CHANNEL_OPEN \<Rightarrow> rfcomm_emit_channel_closed p s
     | RFCOMM_CHANNEL_W4_UA_AFTER_DISC \<Rightarrow> rfcomm_emit_channel_closed p s
     | RFCOMM_CHANNEL_SEND_UA_AFTER_DISC \<Rightarrow> Ret s
     | _ \<Rightarrow> rfcomm_emit_channel_opened L p status s)"

subsection \<open>Flags and readiness\<close>

definition rfcomm_channel_state_add :: "u16 \<Rightarrow> rfcomm_channel \<Rightarrow> rfcomm_channel" where
  "rfcomm_channel_state_add event c = c\<lparr>state_var := state_var c OR event\<rparr>"

definition rfcomm_channel_state_remove :: "u16 \<Rightarrow> rfcomm_channel \<Rightarrow> rfcomm_channel" where
  "rfcomm_channel_state_remove event c = c\<lparr>state_var := state_var c AND NOT event\<rparr>"

definition has_flag :: "rfcomm_channel \<Rightarrow> u16 \<Rightarrow> bool" where
  "has_flag c event \<longleftrightarrow> state_var c AND event \<noteq> 0"

definition rfcomm_channel_ready_for_open :: "rfcomm_channel \<Rightarrow> bool" where
  "rfcomm_channel_ready_for_open c \<longleftrightarrow> has_flag c RCVD_MSC_RSP \<and> has_flag c SENT_CREDITS"

definition rfcomm_channel_ready_for_incoming_dlc_setup :: "rfcomm_channel \<Rightarrow> bool" where
  "rfcomm_channel_ready_for_incoming_dlc_setup c \<longleftrightarrow>
     has_flag c CLIENT_ACCEPTED \<and> has_flag c RCVD_SABM \<and> \<not> has_flag c SEND_UA \<and> \<not> has_flag c SEND_PN_RSP"

definition rfcomm_channel_ready_to_send :: "rfcomm_channel \<Rightarrow> bool" where
  "rfcomm_channel_ready_to_send c \<longleftrightarrow>
     ch_state c \<in> {RFCOMM_CHANNEL_SEND_UIH_PN, RFCOMM_CHANNEL_SEND_SABM_W4_UA, RFCOMM_CHANNEL_SEND_UA_AFTER_DISC,
       RFCOMM_CHANNEL_SEND_DISC, RFCOMM_CHANNEL_SEND_DM} \<or>
     ch_state c = RFCOMM_CHANNEL_OPEN \<and> new_credits_incoming c \<noteq> 0 \<or>
     ch_state c = RFCOMM_CHANNEL_DLC_SETUP \<and> has_flag c (SEND_MSC_CMD OR SEND_CREDITS) \<or>
     has_flag c (SEND_PN_RSP OR SEND_RPN_INFO OR SEND_RPN_RSP OR SEND_UA OR SEND_MSC_RSP) \<or>
     rls_line_status c \<noteq> RFCOMM_RLS_STATUS_INVALID"

text \<open>After a call of the state machine: a channel that is still there asks to send if it is ready.\<close>

definition request_if_ready :: "nat \<Rightarrow> nat \<Rightarrow> rfcomm \<times> bool \<Rightarrow> rfcomm outcome" where
  "request_if_ready m p r =
     (case r of (s, valid) \<Rightarrow>
        if \<not> valid then Ret s
        else bind_outcome (chan s p) (\<lambda>c.
          if \<not> rfcomm_channel_ready_to_send c then Ret s
          else bind_outcome (mux s m) (\<lambda>x. Ret (act (RequestCanSendNow (l2cap_cid x)) s))))"

text \<open>Channels that wait to send and can, from the list of channels.\<close>

fun notify_loop :: "l2cap \<Rightarrow> nat list \<Rightarrow> rfcomm \<Rightarrow> rfcomm outcome" where
  "notify_loop L [] s = Ret s"
| "notify_loop L (p # ps) s =
     bind_outcome (chan s p) (\<lambda>c.
     if \<not> waiting_for_can_send_now c then notify_loop L ps s
     else bind_outcome (rfcomm_channel_can_send L s p) (\<lambda>b.
       if \<not> b then notify_loop L ps s
       else bind_outcome (upd_chan p (\<lambda>c. c\<lparr>waiting_for_can_send_now := False\<rparr>) s) (\<lambda>s.
         bind_outcome (rfcomm_emit_can_send_now p s) (notify_loop L ps))))"

definition rfcomm_notify_channel_can_send :: "l2cap \<Rightarrow> rfcomm \<Rightarrow> rfcomm outcome" where
  "rfcomm_notify_channel_can_send L s = notify_loop L (rfcomm_channels s) s"

definition rfcomm_channel_send_credits :: "l2cap \<Rightarrow> nat \<Rightarrow> byte \<Rightarrow> rfcomm \<Rightarrow> rfcomm outcome" where
  "rfcomm_channel_send_credits L p credits s =
     bind_outcome (upd_chan p (\<lambda>c. c\<lparr>credits_incoming := credits_incoming c + credits\<rparr>) s) (\<lambda>s.
     bind_outcome (chan s p) (\<lambda>c. rfcomm_send_uih_credits L (multiplexer c) (dlci c) credits s))"

definition rfcomm_channel_opened :: "l2cap \<Rightarrow> nat \<Rightarrow> rfcomm \<Rightarrow> rfcomm outcome" where
  "rfcomm_channel_opened L p s =
     bind_outcome (upd_chan p (\<lambda>c. c\<lparr>ch_state := RFCOMM_CHANNEL_OPEN\<rparr>) s) (\<lambda>s.
     bind_outcome (rfcomm_emit_channel_opened L p 0 s) (\<lambda>s.
     bind_outcome (rfcomm_emit_port_configuration p s) (\<lambda>s.
     bind_outcome (chan s p) (\<lambda>c.
     bind_outcome (rfcomm_multiplexer_stop_timer (multiplexer c) s) (\<lambda>s.
     bind_outcome (upd_mux (multiplexer c) (\<lambda>x. x\<lparr>at_least_one_connection := True\<rparr>) s) (\<lambda>s.
     request_if_ready (multiplexer c) p (s, True)))))))"

definition limit_frame_size :: "u16 \<Rightarrow> rfcomm_channel \<Rightarrow> rfcomm_channel" where
  "limit_frame_size n c = (if max_frame_size c > n then c\<lparr>max_frame_size := n\<rparr> else c)"

definition rfcomm_channel_accept_pn :: "u16 \<Rightarrow> byte \<Rightarrow> byte \<Rightarrow> rfcomm_multiplexer \<Rightarrow> rfcomm_channel \<Rightarrow> rfcomm_channel" where
  "rfcomm_channel_accept_pn mfs priority credits x c =
     limit_frame_size mfs (limit_frame_size (mux_max_frame_size x) (c\<lparr>pn_priority := priority, credits_outgoing := credits\<rparr>))"

subsection \<open>The state machine\<close>

text \<open>A frame is sent and the result ignored.\<close>

definition sent :: "(rfcomm \<times> int) outcome \<Rightarrow> (rfcomm \<times> bool) outcome" where
  "sent r = bind_outcome r (\<lambda>(s, err). Ret (s, True))"

text \<open>The states before the channel is set up: \<open>CLOSED\<close> and \<open>INCOMING_SETUP\<close>.\<close>

definition channel_closed_event :: "nat \<Rightarrow> rfcomm_channel_event \<Rightarrow> rfcomm \<Rightarrow> (rfcomm \<times> bool) outcome" where
  "channel_closed_event p event s =
     bind_outcome (chan s p) (\<lambda>c. bind_outcome (mux s (multiplexer c)) (\<lambda>x.
     case event of
       CH_EVT_RCVD_SABM \<Rightarrow>
         let c = (rfcomm_channel_state_add RCVD_SABM c)\<lparr>ch_state := RFCOMM_CHANNEL_INCOMING_SETUP\<rparr> in
         bind_outcome (rfcomm_emit_connection_request p (set_chan p c s)) (\<lambda>s. Ret (s, True))
     | CH_EVT_RCVD_PN mfs priority credits \<Rightarrow>
         let c = (rfcomm_channel_state_add RCVD_PN (rfcomm_channel_accept_pn mfs priority credits x c))
               \<lparr>ch_state := RFCOMM_CHANNEL_INCOMING_SETUP\<rparr> in
         bind_outcome (rfcomm_emit_connection_request p (set_chan p c s)) (\<lambda>s. Ret (s, True))
     | _ \<Rightarrow> Ret (s, True)))"

definition channel_incoming_setup_event :: "l2cap \<Rightarrow> nat \<Rightarrow> rfcomm_channel_event \<Rightarrow> rfcomm \<Rightarrow> (rfcomm \<times> bool) outcome" where
  "channel_incoming_setup_event L p event s =
     bind_outcome (chan s p) (\<lambda>c. bind_outcome (mux s (multiplexer c)) (\<lambda>x.
     case event of
       CH_EVT_RCVD_SABM \<Rightarrow>
         let c = rfcomm_channel_state_add RCVD_SABM c;
             c = (if has_flag c CLIENT_ACCEPTED then rfcomm_channel_state_add SEND_UA c else c) in
         Ret (set_chan p c s, True)
     | CH_EVT_RCVD_PN mfs priority credits \<Rightarrow>
         let c = rfcomm_channel_state_add RCVD_PN (rfcomm_channel_accept_pn mfs priority credits x c);
             c = (if has_flag c CLIENT_ACCEPTED then rfcomm_channel_state_add SEND_PN_RSP c else c) in
         Ret (set_chan p c s, True)
     | CH_EVT_READY_TO_SEND \<Rightarrow>
         bind_outcome
           (if has_flag c SEND_PN_RSP then
              sent (rfcomm_send_uih_pn_response L (multiplexer c) (dlci c) (pn_priority c) (max_frame_size c)
                (set_chan p (rfcomm_channel_state_remove SEND_PN_RSP c) s))
            else if has_flag c SEND_UA then
              sent (rfcomm_send_ua L (multiplexer c) (dlci c) (set_chan p (rfcomm_channel_state_remove SEND_UA c) s))
            else Ret (s, True)) (\<lambda>(s, valid).
         bind_outcome (chan s p) (\<lambda>c.
         Ret (if rfcomm_channel_ready_for_incoming_dlc_setup c then
             set_chan p ((rfcomm_channel_state_add SEND_CREDITS (rfcomm_channel_state_add SEND_MSC_CMD c))
               \<lparr>ch_state := RFCOMM_CHANNEL_DLC_SETUP\<rparr>) s
           else s, True)))
     | _ \<Rightarrow> Ret (s, True)))"

text \<open>The states of an outgoing channel until it is set up.\<close>

definition channel_outgoing_event :: "l2cap \<Rightarrow> nat \<Rightarrow> rfcomm_channel_event \<Rightarrow> rfcomm \<Rightarrow> (rfcomm \<times> bool) outcome" where
  "channel_outgoing_event L p event s =
     bind_outcome (chan s p) (\<lambda>c. bind_outcome (mux s (multiplexer c)) (\<lambda>x.
     case (ch_state c, event) of
       (RFCOMM_CHANNEL_W4_MULTIPLEXER, CH_EVT_MULTIPLEXER_READY) \<Rightarrow>
         Ret (set_chan p (c\<lparr>ch_state := RFCOMM_CHANNEL_SEND_UIH_PN\<rparr>) s, True)
     | (RFCOMM_CHANNEL_SEND_UIH_PN, CH_EVT_READY_TO_SEND) \<Rightarrow>
         let c = c\<lparr>max_frame_size := ucast (btstack_min (ucast (mux_max_frame_size x)) (ucast (max_frame_size c))),
                   ch_state := RFCOMM_CHANNEL_W4_PN_RSP\<rparr> in
         sent (rfcomm_send_uih_pn_command L (multiplexer c) (dlci c) (max_frame_size c) (set_chan p c s))
     | (RFCOMM_CHANNEL_W4_PN_RSP, CH_EVT_RCVD_PN_RSP mfs priority credits) \<Rightarrow>
         let c = limit_frame_size mfs c in
         Ret (set_chan p (c\<lparr>credits_outgoing := credits, ch_state := RFCOMM_CHANNEL_SEND_SABM_W4_UA\<rparr>) s, True)
     | (RFCOMM_CHANNEL_SEND_SABM_W4_UA, CH_EVT_READY_TO_SEND) \<Rightarrow>
         sent (rfcomm_send_sabm L (multiplexer c) (dlci c) (set_chan p (c\<lparr>ch_state := RFCOMM_CHANNEL_W4_UA\<rparr>) s))
     | (RFCOMM_CHANNEL_W4_UA, CH_EVT_RCVD_UA) \<Rightarrow>
         Ret (set_chan p (rfcomm_channel_state_add SEND_CREDITS (rfcomm_channel_state_add SEND_MSC_CMD
           (c\<lparr>ch_state := RFCOMM_CHANNEL_DLC_SETUP\<rparr>))) s, True)
     | _ \<Rightarrow> Ret (s, True)))"

definition channel_dlc_setup_event :: "l2cap \<Rightarrow> nat \<Rightarrow> rfcomm_channel_event \<Rightarrow> rfcomm \<Rightarrow> (rfcomm \<times> bool) outcome" where
  "channel_dlc_setup_event L p event s =
     bind_outcome (chan s p) (\<lambda>c.
     bind_outcome
       (case event of
          CH_EVT_RCVD_MSC_CMD status \<Rightarrow>
            Ret (set_chan p (rfcomm_channel_state_add SEND_MSC_RSP (rfcomm_channel_state_add RCVD_MSC_CMD c)) s)
        | CH_EVT_RCVD_MSC_RSP \<Rightarrow> Ret (set_chan p (rfcomm_channel_state_add RCVD_MSC_RSP c) s)
        | CH_EVT_READY_TO_SEND \<Rightarrow>
            if has_flag c SEND_MSC_CMD then
              bind_outcome (rfcomm_send_uih_msc_cmd L (multiplexer c) (dlci c) 0x8D
                (set_chan p (rfcomm_channel_state_add SENT_MSC_CMD (rfcomm_channel_state_remove SEND_MSC_CMD c)) s))
                (\<lambda>(s, err). Ret s)
            else if has_flag c SEND_CREDITS then
              let c = rfcomm_channel_state_add SENT_CREDITS (rfcomm_channel_state_remove SEND_CREDITS c);
                  new_credits = new_credits_incoming c in
              if new_credits \<noteq> 0 then
                rfcomm_channel_send_credits L p new_credits (set_chan p (c\<lparr>new_credits_incoming := 0\<rparr>) s)
              else Ret (set_chan p c s)
            else Ret s
        | _ \<Rightarrow> Ret s) (\<lambda>s.
     bind_outcome (chan s p) (\<lambda>c.
     if rfcomm_channel_ready_for_open c then
       bind_outcome (rfcomm_channel_opened L p (set_chan p (c\<lparr>ch_state := RFCOMM_CHANNEL_OPEN\<rparr>) s)) (\<lambda>s. Ret (s, True))
     else Ret (s, True))))"

definition channel_open_event :: "l2cap \<Rightarrow> nat \<Rightarrow> rfcomm_channel_event \<Rightarrow> rfcomm \<Rightarrow> (rfcomm \<times> bool) outcome" where
  "channel_open_event L p event s =
     bind_outcome (chan s p) (\<lambda>c.
     bind_outcome
       (case event of
          CH_EVT_RCVD_MSC_CMD status \<Rightarrow> Ret (set_chan p (rfcomm_channel_state_add SEND_MSC_RSP c) s)
        | CH_EVT_READY_TO_SEND \<Rightarrow>
            if new_credits_incoming c \<noteq> 0 then
              rfcomm_channel_send_credits L p (new_credits_incoming c) (set_chan p (c\<lparr>new_credits_incoming := 0\<rparr>) s)
            else Ret s
        | CH_EVT_RCVD_CREDITS \<Rightarrow> rfcomm_notify_channel_can_send L s
        | _ \<Rightarrow> Ret s) (\<lambda>s. Ret (s, True)))"

text \<open>The states of a channel that is being closed.\<close>

definition channel_closing_event :: "l2cap \<Rightarrow> nat \<Rightarrow> rfcomm_channel_event \<Rightarrow> rfcomm \<Rightarrow> (rfcomm \<times> bool) outcome" where
  "channel_closing_event L p event s =
     bind_outcome (chan s p) (\<lambda>c.
     let closed = set_chan p (c\<lparr>ch_state := RFCOMM_CHANNEL_CLOSED\<rparr>) s;
         finalize = (\<lambda>s. bind_outcome (rfcomm_channel_finalize p s) (\<lambda>s. Ret (s, False))) in
     case (ch_state c, event) of
       (RFCOMM_CHANNEL_SEND_DM, CH_EVT_READY_TO_SEND) \<Rightarrow>
         bind_outcome (rfcomm_send_dm_pf L (multiplexer c) (dlci c) closed) (\<lambda>(s, err). finalize s)
     | (RFCOMM_CHANNEL_SEND_DISC, CH_EVT_READY_TO_SEND) \<Rightarrow>
         sent (rfcomm_send_disc L (multiplexer c) (dlci c) (set_chan p (c\<lparr>ch_state := RFCOMM_CHANNEL_W4_UA_AFTER_DISC\<rparr>) s))
     | (RFCOMM_CHANNEL_W4_UA_AFTER_DISC, CH_EVT_RCVD_UA) \<Rightarrow>
         bind_outcome (rfcomm_emit_channel_closed p closed) finalize
     | (RFCOMM_CHANNEL_SEND_UA_AFTER_DISC, CH_EVT_READY_TO_SEND) \<Rightarrow>
         bind_outcome (rfcomm_send_ua L (multiplexer c) (dlci c) closed) (\<lambda>(s, err). finalize s)
     | _ \<Rightarrow> Ret (s, True))"

definition channel_state_switch :: "l2cap \<Rightarrow> nat \<Rightarrow> rfcomm_channel_event \<Rightarrow> rfcomm \<Rightarrow> (rfcomm \<times> bool) outcome" where
  "channel_state_switch L p event s =
     bind_outcome (chan s p) (\<lambda>c.
     case ch_state c of
       RFCOMM_CHANNEL_CLOSED \<Rightarrow> channel_closed_event p event s
     | RFCOMM_CHANNEL_INCOMING_SETUP \<Rightarrow> channel_incoming_setup_event L p event s
     | RFCOMM_CHANNEL_DLC_SETUP \<Rightarrow> channel_dlc_setup_event L p event s
     | RFCOMM_CHANNEL_OPEN \<Rightarrow> channel_open_event L p event s
     | RFCOMM_CHANNEL_SEND_DM \<Rightarrow> channel_closing_event L p event s
     | RFCOMM_CHANNEL_SEND_DISC \<Rightarrow> channel_closing_event L p event s
     | RFCOMM_CHANNEL_W4_UA_AFTER_DISC \<Rightarrow> channel_closing_event L p event s
     | RFCOMM_CHANNEL_SEND_UA_AFTER_DISC \<Rightarrow> channel_closing_event L p event s
     | RFCOMM_CHANNEL_EMIT_OPEN_FAILED_AND_DISCARD \<Rightarrow> Ret (s, True)
     | _ \<Rightarrow> channel_outgoing_event L p event s)"

text \<open>The result: the state, and whether the channel still exists.\<close>

definition rfcomm_channel_state_machine_with_channel ::
    "l2cap \<Rightarrow> nat \<Rightarrow> rfcomm_channel_event \<Rightarrow> rfcomm \<Rightarrow> (rfcomm \<times> bool) outcome" where
  "rfcomm_channel_state_machine_with_channel L p event s =
     bind_outcome (chan s p) (\<lambda>c.
     case event of
       CH_EVT_RCVD_DISC \<Rightarrow>
         bind_outcome (rfcomm_emit_channel_closed p s) (\<lambda>s.
         bind_outcome (upd_chan p (\<lambda>c. c\<lparr>ch_state := RFCOMM_CHANNEL_SEND_UA_AFTER_DISC\<rparr>) s) (\<lambda>s. Ret (s, True)))
     | CH_EVT_RCVD_DM \<Rightarrow>
         bind_outcome (rfcomm_channel_emit_final_event L p 0x0D s) (\<lambda>s.
         bind_outcome (rfcomm_channel_finalize p s) (\<lambda>s. Ret (s, False)))
     | CH_EVT_RCVD_RPN_CMD data \<Rightarrow>
         bind_outcome (rfcomm_emit_port_configuration p
           (set_chan p (rfcomm_channel_state_add SEND_RPN_RSP (c\<lparr>rpn_data := rfcomm_rpn_data_update (rpn_data c) data\<rparr>)) s))
           (\<lambda>s. Ret (s, True))
     | CH_EVT_RCVD_RPN_REQ \<Rightarrow>
         Ret (set_chan p (rfcomm_channel_state_add SEND_RPN_RSP
           (c\<lparr>rpn_data := (rpn_data c)\<lparr>parameter_mask_0 := 0, parameter_mask_1 := 0\<rparr>\<rparr>)) s, True)
     | CH_EVT_RCVD_RLS_CMD line_status \<Rightarrow>
         bind_outcome (rfcomm_emit_remote_line_status p line_status (set_chan p (c\<lparr>rls_line_status := line_status AND 0x0F\<rparr>) s))
           (\<lambda>s. Ret (s, True))
     | CH_EVT_READY_TO_SEND \<Rightarrow>
         if has_flag c SEND_RPN_RSP then
           sent (rfcomm_send_uih_rpn_rsp L (multiplexer c) (dlci c) (rpn_data c)
             (set_chan p (rfcomm_channel_state_remove SEND_RPN_RSP c) s))
         else if has_flag c SEND_MSC_RSP then
           sent (rfcomm_send_uih_msc_rsp L (multiplexer c) (dlci c) 0x8D
             (set_chan p (rfcomm_channel_state_add SENT_MSC_RSP (rfcomm_channel_state_remove SEND_MSC_RSP c)) s))
         else if rls_line_status c \<noteq> RFCOMM_RLS_STATUS_INVALID then
           sent (rfcomm_send_uih_rls_rsp L (multiplexer c) (dlci c) (rls_line_status c)
             (set_chan p (c\<lparr>rls_line_status := RFCOMM_RLS_STATUS_INVALID\<rparr>) s))
         else channel_state_switch L p event s
     | CH_EVT_RCVD_MSC_CMD modem_status \<Rightarrow>
         channel_state_switch L p event (call_handler (packet_handler c) 4 (rfcomm_cid c) [0x87, 1, modem_status] s)
     | _ \<Rightarrow> channel_state_switch L p event s)"

end
