(* ===== verification/RfcommMux.thy ===== *)
theory RfcommMux
  imports RfcommChannel
begin

text \<open>
  \<^verbatim>\<open>btstack-rootless/src/classic/rfcomm.c\<close>, third part: multiplexers, the events and packets of L2CAP,
  and the functions for applications.  RFCOMM over ERTM (\<open>RFCOMM_USE_ERTM\<close>) is not configured.
\<close>

subsection \<open>Multiplexers\<close>

definition rfcomm_max_frame_size_for_l2cap_mtu :: "u16 \<Rightarrow> u16" where
  "rfcomm_max_frame_size_for_l2cap_mtu l2cap_mtu = l2cap_mtu - 5"

text \<open>The object is filled with zeros by the allocator.\<close>

definition rfcomm_multiplexer_initialize :: "l2cap \<Rightarrow> rfcomm_multiplexer" where
  "rfcomm_multiplexer_initialize L = \<lparr>timer_active = False, mux_state = RFCOMM_MULTIPLEXER_CLOSED, l2cap_cid = 0, fcon = 1,
     remote_addr = replicate 6 0, con_handle = 0, outgoing = 0, at_least_one_connection = False,
     mux_max_frame_size = rfcomm_max_frame_size_for_l2cap_mtu (max_mtu L), send_dm_for_dlci = 0, nsc_command = 0,
     test_data_len = 0, test_data = replicate 4 0\<rparr>"

definition rfcomm_multiplexer_create_for_addr :: "l2cap \<Rightarrow> nat option \<Rightarrow> bytes \<Rightarrow> rfcomm \<Rightarrow> rfcomm \<times> nat option" where
  "rfcomm_multiplexer_create_for_addr L pointer addr s =
     (case pointer of None \<Rightarrow> (s, None)
      | Some m \<Rightarrow>
          (let x = (rfcomm_multiplexer_initialize L)\<lparr>remote_addr := addr\<rparr>; s = set_mux m x s in
           (s\<lparr>rfcomm_multiplexers := m # rfcomm_multiplexers s\<rparr>, Some m)))"

definition mux_free :: "nat \<Rightarrow> rfcomm \<Rightarrow> rfcomm" where
  "mux_free m s = s\<lparr>mux_mem := (mux_mem s)(m := None)\<rparr>"

definition rfcomm_multiplexer_free :: "nat \<Rightarrow> rfcomm \<Rightarrow> rfcomm" where
  "rfcomm_multiplexer_free m s = mux_free m (s\<lparr>rfcomm_multiplexers := remove1 m (rfcomm_multiplexers s)\<rparr>)"

text \<open>The loop over the channels, from the list before the loop: it only removes the current element.\<close>

fun finalize_channels :: "l2cap \<Rightarrow> nat \<Rightarrow> nat list \<Rightarrow> rfcomm \<Rightarrow> rfcomm outcome" where
  "finalize_channels L m [] s = Ret s"
| "finalize_channels L m (p # ps) s =
     bind_outcome (chan s p) (\<lambda>c.
     if multiplexer c = m then
       bind_outcome (rfcomm_channel_emit_final_event L p 0x70 s) (\<lambda>s.
       finalize_channels L m ps (rfcomm_channel_free p (s\<lparr>rfcomm_channels := remove1 p (rfcomm_channels s)\<rparr>)))
     else finalize_channels L m ps s)"

definition rfcomm_multiplexer_finalize :: "l2cap \<Rightarrow> nat \<Rightarrow> rfcomm \<Rightarrow> rfcomm outcome" where
  "rfcomm_multiplexer_finalize L m s =
     bind_outcome (rfcomm_multiplexer_stop_timer m s) (\<lambda>s.
     bind_outcome (finalize_channels L m (rfcomm_channels s) s) (\<lambda>s.
     Ret (rfcomm_multiplexer_free m s)))"

definition rfcomm_multiplexer_timer_handler :: "l2cap \<Rightarrow> nat \<Rightarrow> rfcomm \<Rightarrow> rfcomm outcome" where
  "rfcomm_multiplexer_timer_handler L m s =
     bind_outcome (rfcomm_multiplexer_has_channels s m) (\<lambda>b.
     if b then Ret s
     else bind_outcome (mux s m) (\<lambda>x.
       bind_outcome (rfcomm_multiplexer_finalize L m s) (\<lambda>s. Ret (act (L2capDisconnect (l2cap_cid x)) s))))"

definition rfcomm_multiplexer_ready_to_send :: "rfcomm_multiplexer \<Rightarrow> bool" where
  "rfcomm_multiplexer_ready_to_send x \<longleftrightarrow>
     send_dm_for_dlci x \<noteq> 0 \<or> nsc_command x \<noteq> 0 \<or> fcon x AND 0x80 \<noteq> 0 \<or>
     mux_state x \<in> {RFCOMM_MULTIPLEXER_SEND_SABM_0, RFCOMM_MULTIPLEXER_SEND_UA_0, RFCOMM_MULTIPLEXER_SEND_UA_0_AND_DISC} \<or>
     mux_state x = RFCOMM_MULTIPLEXER_OPEN \<and> test_data_len x \<noteq> 0"

text \<open>Each channel of the multiplexer gets the event that it is ready.\<close>

fun opened_loop :: "l2cap \<Rightarrow> nat \<Rightarrow> nat list \<Rightarrow> rfcomm \<Rightarrow> rfcomm outcome" where
  "opened_loop L m [] s = Ret s"
| "opened_loop L m (p # ps) s =
     bind_outcome (chan s p) (\<lambda>c.
     if multiplexer c \<noteq> m then opened_loop L m ps s
     else bind_outcome (rfcomm_channel_state_machine_with_channel L p CH_EVT_MULTIPLEXER_READY s) (\<lambda>r.
       bind_outcome (request_if_ready m p r) (opened_loop L m ps)))"

definition rfcomm_multiplexer_opened :: "l2cap \<Rightarrow> nat \<Rightarrow> rfcomm \<Rightarrow> rfcomm outcome" where
  "rfcomm_multiplexer_opened L m s =
     bind_outcome (upd_mux m (\<lambda>x. x\<lparr>mux_state := RFCOMM_MULTIPLEXER_OPEN\<rparr>) s) (\<lambda>s.
     bind_outcome (opened_loop L m (rfcomm_channels s) s) (\<lambda>s.
     bind_outcome (rfcomm_multiplexer_prepare_idle_timer m s) (\<lambda>s.
     bind_outcome (mux s m) (\<lambda>x.
     Ret (if rfcomm_multiplexer_ready_to_send x then act (RequestCanSendNow (l2cap_cid x)) s else s)))))"

definition rfcomm_multiplexer_state_machine :: "l2cap \<Rightarrow> nat \<Rightarrow> rfcomm \<Rightarrow> rfcomm outcome" where
  "rfcomm_multiplexer_state_machine L m s =
     bind_outcome (mux s m) (\<lambda>x.
     let done = (\<lambda>r. bind_outcome r (\<lambda>(s, err :: int). Ret s)) in
     if send_dm_for_dlci x \<noteq> 0 then
       done (rfcomm_send_dm_pf L m (send_dm_for_dlci x) (set_mux m (x\<lparr>send_dm_for_dlci := 0\<rparr>) s))
     else if nsc_command x \<noteq> 0 then
       done (rfcomm_send_uih_nsc_rsp L m (nsc_command x) (set_mux m (x\<lparr>nsc_command := 0\<rparr>) s))
     else if fcon x AND 0x80 \<noteq> 0 then
       let f = fcon x AND 0x01 in
       bind_outcome (done (rfcomm_send_uih_fc_rsp L m f (set_mux m (x\<lparr>fcon := f\<rparr>) s))) (\<lambda>s.
       if f = 0 then Ret s else rfcomm_notify_channel_can_send L s)
     else case mux_state x of
       RFCOMM_MULTIPLEXER_SEND_SABM_0 \<Rightarrow>
         done (rfcomm_send_sabm L m 0 (set_mux m (x\<lparr>mux_state := RFCOMM_MULTIPLEXER_W4_UA_0\<rparr>) s))
     | RFCOMM_MULTIPLEXER_SEND_UA_0 \<Rightarrow>
         bind_outcome (done (rfcomm_send_ua L m 0 (set_mux m (x\<lparr>mux_state := RFCOMM_MULTIPLEXER_OPEN\<rparr>) s)))
           (rfcomm_multiplexer_opened L m)
     | RFCOMM_MULTIPLEXER_SEND_UA_0_AND_DISC \<Rightarrow>
         bind_outcome (done (rfcomm_send_ua L m 0 (set_mux m (x\<lparr>mux_state := RFCOMM_MULTIPLEXER_CLOSED\<rparr>) s))) (\<lambda>s.
         bind_outcome (rfcomm_multiplexer_finalize L m s) (\<lambda>s. Ret (act (L2capDisconnect (l2cap_cid x)) s)))
     | RFCOMM_MULTIPLEXER_OPEN \<Rightarrow>
         if test_data_len x \<noteq> 0 then
           done (rfcomm_send_uih_test_rsp L m (test_data x) (ucast (test_data_len x)) (set_mux m (x\<lparr>test_data_len := 0\<rparr>) s))
         else Ret s
     | _ \<Rightarrow> Ret s)"

subsection \<open>Events of L2CAP\<close>

text \<open>
  L2CAP can send one packet: the first multiplexer, channel or application on the L2CAP channel that
  has something to send gets the chance, and another one is asked for.
\<close>

definition rfcomm_handle_can_send_now :: "l2cap \<Rightarrow> u16 \<Rightarrow> rfcomm \<Rightarrow> rfcomm outcome" where
  "rfcomm_handle_can_send_now L cid s =
     (let request = (\<lambda>s. Ret (act (RequestCanSendNow cid) s)) in
      bind_outcome (find_out (\<lambda>m. bind_outcome (mux s m) (\<lambda>x.
        Ret (l2cap_cid x = cid \<and> rfcomm_multiplexer_ready_to_send x))) (rfcomm_multiplexers s)) (\<lambda>r.
      case r of
        Some m \<Rightarrow> bind_outcome (rfcomm_multiplexer_state_machine L m s) request
      | None \<Rightarrow>
          bind_outcome (find_out (\<lambda>p. bind_outcome (chan s p) (\<lambda>c. bind_outcome (mux s (multiplexer c)) (\<lambda>x.
            Ret (l2cap_cid x = cid \<and> rfcomm_channel_ready_to_send c)))) (rfcomm_channels s)) (\<lambda>r.
          case r of
            Some p \<Rightarrow>
              bind_outcome (rfcomm_channel_state_machine_with_channel L p CH_EVT_READY_TO_SEND s) (\<lambda>(s, valid). request s)
          | None \<Rightarrow>
              bind_outcome (find_out (\<lambda>p. bind_outcome (chan s p) (\<lambda>c. bind_outcome (mux s (multiplexer c)) (\<lambda>x.
                Ret (l2cap_cid x = cid \<and> waiting_for_can_send_now c \<and> fcon x AND 1 \<noteq> 0 \<and> credits_outgoing c \<noteq> 0))))
                (rfcomm_channels s)) (\<lambda>r.
              case r of
                Some p \<Rightarrow>
                  bind_outcome (upd_chan p (\<lambda>c. c\<lparr>waiting_for_can_send_now := False\<rparr>) s) (\<lambda>s.
                  bind_outcome (rfcomm_emit_can_send_now p s) request)
              | None \<Rightarrow> Ret s))))"

definition set_state_and_request :: "nat \<Rightarrow> multiplexer_state \<Rightarrow> rfcomm \<Rightarrow> rfcomm outcome" where
  "set_state_and_request m st s =
     bind_outcome (mux s m) (\<lambda>x. Ret (act (RequestCanSendNow (l2cap_cid x)) (set_mux m (x\<lparr>mux_state := st\<rparr>) s)))"

text \<open>
  After a failed connection: the first channel of the multiplexer is told and removed, again and
  again until there is none; \<open>n\<close> bounds the rounds.
\<close>

fun open_failed_loop :: "nat \<Rightarrow> l2cap \<Rightarrow> nat \<Rightarrow> byte \<Rightarrow> rfcomm \<Rightarrow> rfcomm outcome" where
  "open_failed_loop 0 L m status s = Undef"
| "open_failed_loop (Suc n) L m status s =
     bind_outcome (find_out (\<lambda>p. bind_outcome (chan s p) (\<lambda>c. Ret (multiplexer c = m))) (rfcomm_channels s)) (\<lambda>r.
     case r of
       None \<Rightarrow> Ret s
     | Some p \<Rightarrow>
         bind_outcome (rfcomm_emit_channel_opened L p status s) (\<lambda>s.
         open_failed_loop n L m status (rfcomm_channel_free p (s\<lparr>rfcomm_channels := remove1 p (rfcomm_channels s)\<rparr>))))"

definition event_addr :: "bytes \<Rightarrow> int \<Rightarrow> bytes outcome" where
  "event_addr packet pos = bind_outcome (rd_block packet pos 6) (\<lambda>bs. Ret (rev bs))"

definition l2cap_incoming_connection :: "l2cap \<Rightarrow> nat option \<Rightarrow> bytes \<Rightarrow> rfcomm \<Rightarrow> rfcomm outcome" where
  "l2cap_incoming_connection L pointer packet s =
     bind_outcome (event_addr packet 2) (\<lambda>addr.
     bind_outcome (little_endian_read_16 packet 0 8) (\<lambda>handle.
     bind_outcome (little_endian_read_16 packet 0 10) (\<lambda>psm.
     bind_outcome (little_endian_read_16 packet 0 12) (\<lambda>cid.
     if psm \<noteq> 3 then Ret s
     else bind_outcome (rfcomm_multiplexer_for_addr s addr) (\<lambda>r.
       if r \<noteq> None then Ret (act (DeclineConnection cid) s)
       else case rfcomm_multiplexer_create_for_addr L pointer addr s of
         (s, None) \<Rightarrow> Ret (act (DeclineConnection cid) s)
       | (s, Some m) \<Rightarrow>
           bind_outcome (upd_mux m (\<lambda>x. x\<lparr>con_handle := handle, l2cap_cid := cid,
             mux_state := RFCOMM_MULTIPLEXER_W4_SABM_0\<rparr>) s) (\<lambda>s.
           Ret (act (AcceptConnection cid) s)))))))"

definition l2cap_channel_opened :: "l2cap \<Rightarrow> bytes \<Rightarrow> rfcomm \<Rightarrow> rfcomm outcome" where
  "l2cap_channel_opened L packet s =
     bind_outcome (little_endian_read_16 packet 0 11) (\<lambda>psm.
     if psm \<noteq> 3 then Ret s
     else
     bind_outcome (rd packet 2) (\<lambda>status.
     bind_outcome (little_endian_read_16 packet 0 9) (\<lambda>handle.
     bind_outcome (little_endian_read_16 packet 0 13) (\<lambda>cid.
     bind_outcome (event_addr packet 3) (\<lambda>addr.
     bind_outcome (rfcomm_multiplexer_for_addr s addr) (\<lambda>r.
     case r of None \<Rightarrow> Ret s
     | Some m \<Rightarrow>
         if status \<noteq> 0 then
           bind_outcome (rfcomm_multiplexer_stop_timer m s) (\<lambda>s.
           bind_outcome (upd_mux m (\<lambda>x. x\<lparr>mux_state := RFCOMM_MULTIPLEXER_SHUTTING_DOWN\<rparr>) s) (\<lambda>s.
           bind_outcome (open_failed_loop (Suc (length (rfcomm_channels s))) L m status s) (\<lambda>s.
           Ret (rfcomm_multiplexer_free m s))))
         else
           bind_outcome (little_endian_read_16 packet 0 17) (\<lambda>mtu.
           bind_outcome (upd_mux m (\<lambda>x. x\<lparr>mux_max_frame_size := rfcomm_max_frame_size_for_l2cap_mtu mtu\<rparr>) s) (\<lambda>s.
           bind_outcome (mux s m) (\<lambda>x.
           if mux_state x = RFCOMM_MULTIPLEXER_W4_CONNECT \<and> addr = remote_addr x then
             bind_outcome (upd_mux m (\<lambda>x. x\<lparr>l2cap_cid := cid, con_handle := handle\<rparr>) s)
               (set_state_and_request m RFCOMM_MULTIPLEXER_SEND_SABM_0)
           else Ret s)))))))))"

definition l2cap_channel_closed :: "l2cap \<Rightarrow> bytes \<Rightarrow> rfcomm \<Rightarrow> rfcomm outcome" where
  "l2cap_channel_closed L packet s =
     bind_outcome (little_endian_read_16 packet 0 2) (\<lambda>cid.
     bind_outcome (rfcomm_multiplexer_for_l2cap_cid s cid) (\<lambda>r.
     case r of None \<Rightarrow> Ret s | Some m \<Rightarrow> rfcomm_multiplexer_finalize L m s))"

text \<open>The events 0x72, 0x70, 0x78 and 0x71: incoming connection, channel opened, can send now, channel closed.\<close>

definition rfcomm_hci_event_handler :: "l2cap \<Rightarrow> nat option \<Rightarrow> bytes \<Rightarrow> rfcomm \<Rightarrow> rfcomm outcome" where
  "rfcomm_hci_event_handler L pointer packet s =
     bind_outcome (rd packet 0) (\<lambda>event.
     if event = 0x72 then l2cap_incoming_connection L pointer packet s
     else if event = 0x70 then l2cap_channel_opened L packet s
     else if event = 0x78 then
       bind_outcome (little_endian_read_16 packet 0 2) (\<lambda>cid. rfcomm_handle_can_send_now L cid s)
     else if event = 0x71 then l2cap_channel_closed L packet s
     else Ret s)"

subsection \<open>Packets\<close>

text \<open>The position of the payload in a frame: after address, control, length and, for UIH with P/F, credits.\<close>

definition payload_offset :: "byte \<Rightarrow> byte \<Rightarrow> nat" where
  "payload_offset control len =
     3 + (if len AND 1 = 0 then 1 else 0) + (if control AND 0xFF = 0xFF then 1 else 0)"

text \<open>Frames for the control channel; the flag is the result: the packet was handled.\<close>

definition mux_uih_message :: "l2cap \<Rightarrow> nat \<Rightarrow> rfcomm_multiplexer \<Rightarrow> int \<Rightarrow> bytes \<Rightarrow> u16 \<Rightarrow> rfcomm \<Rightarrow> (rfcomm \<times> bool) outcome" where
  "mux_uih_message L m x off packet sz s =
     bind_outcome (rd packet off) (\<lambda>msg.
     let request = (\<lambda>x. Ret (act (RequestCanSendNow (l2cap_cid x)) (set_mux m x s), True)) in
     if msg = 0xC3 then
       bind_outcome (rfcomm_multiplexer_finalize L m s) (\<lambda>s. Ret (act (L2capDisconnect (l2cap_cid x)) s, True))
     else if msg = 0xA3 then request (x\<lparr>fcon := 0x81\<rparr>)
     else if msg = 0x63 then request (x\<lparr>fcon := 0x80\<rparr>)
     else if msg = 0x23 then
       bind_outcome (rd packet (off + 1)) (\<lambda>l.
       let len = uint (drop_bit 1 l);
           len = (if len > int RFCOMM_TEST_DATA_MAX_LEN then int RFCOMM_TEST_DATA_MAX_LEN else len);
           len = uint (btstack_min (word_of_int len) (word_of_int (uint sz - 1 - off))) in
       bind_outcome (rd_block packet (off + 2) (nat len)) (\<lambda>data.
       bind_outcome (wr_block (test_data x) 0 data) (\<lambda>td.
       request (x\<lparr>test_data_len := word_of_int len, test_data := td\<rparr>))))
     else Ret (s, False))"

definition rfcomm_multiplexer_l2cap_packet_handler :: "l2cap \<Rightarrow> u16 \<Rightarrow> bytes \<Rightarrow> u16 \<Rightarrow> rfcomm \<Rightarrow> (rfcomm \<times> bool) outcome" where
  "rfcomm_multiplexer_l2cap_packet_handler L channel packet sz s =
     bind_outcome (rfcomm_multiplexer_for_l2cap_cid s channel) (\<lambda>r.
     case r of None \<Rightarrow> Ret (s, False)
     | Some m \<Rightarrow>
         bind_outcome (mux s m) (\<lambda>x.
         bind_outcome (rd packet 0) (\<lambda>address.
         if drop_bit 2 address \<noteq> 0 then Ret (s, False)
         else
         bind_outcome (rd packet 2) (\<lambda>len.
         bind_outcome (rd packet 1) (\<lambda>control.
         let handled = (\<lambda>r. bind_outcome r (\<lambda>s. Ret (s, True))) in
         if control = 0x3F then
           if mux_state x = RFCOMM_MULTIPLEXER_W4_SABM_0 then
             handled (set_state_and_request m RFCOMM_MULTIPLEXER_SEND_UA_0 (set_mux m (x\<lparr>outgoing := 0\<rparr>) s))
           else Ret (s, False)
         else if control = 0x73 then
           if mux_state x = RFCOMM_MULTIPLEXER_W4_UA_0 then handled (rfcomm_multiplexer_opened L m s)
           else Ret (s, False)
         else if control = 0x53 then handled (set_state_and_request m RFCOMM_MULTIPLEXER_SEND_UA_0_AND_DISC s)
         else if control = 0x0F then
           handled (bind_outcome (rfcomm_multiplexer_finalize L m s) (\<lambda>s. Ret (act (L2capDisconnect (l2cap_cid x)) s)))
         else if control = 0xEF then mux_uih_message L m x (int (payload_offset control len)) packet sz s
         else Ret (s, False))))))"

text \<open>Data of a channel, and its credits.\<close>

definition rfcomm_channel_packet_handler_uih :: "l2cap \<Rightarrow> nat \<Rightarrow> bytes \<Rightarrow> u16 \<Rightarrow> rfcomm \<Rightarrow> rfcomm outcome" where
  "rfcomm_channel_packet_handler_uih L m packet sz s =
     bind_outcome (rd packet 0) (\<lambda>address.
     bind_outcome (rd packet 2) (\<lambda>len.
     bind_outcome (rd packet 1) (\<lambda>control.
     let off = payload_offset control len in
     bind_outcome (rfcomm_channel_for_multiplexer_and_dlci s m (drop_bit 2 address)) (\<lambda>r.
     case r of None \<Rightarrow> Ret s
     | Some p \<Rightarrow>
         bind_outcome
           (if control = 0xFF then
              bind_outcome (rd packet (3 + (if len AND 1 = 0 then 1 else 0))) (\<lambda>new_credits.
              bind_outcome (upd_chan p (\<lambda>c. c\<lparr>credits_outgoing := credits_outgoing c + new_credits\<rparr>) s) (\<lambda>s.
              bind_outcome (rfcomm_channel_state_machine_with_channel L p CH_EVT_RCVD_CREDITS s) (\<lambda>(s, valid).
              if valid then
                bind_outcome (chan s p) (\<lambda>c. Ret (s, rfcomm_channel_ready_to_send c \<or> waiting_for_can_send_now c))
              else Ret (s, False))))
            else Ret (s, False)) (\<lambda>(s, request).
         bind_outcome
           (if uint sz - 1 > int off then
              bind_outcome (upd_chan p (\<lambda>c. c\<lparr>credits_incoming :=
                (if credits_incoming c > 0 then credits_incoming c - 1 else credits_incoming c)\<rparr>) s) (\<lambda>s.
              bind_outcome (rd_block packet (int off) (nat (uint sz - int off - 1))) (\<lambda>data.
              bind_outcome (chan s p) (\<lambda>c.
              Ret (call_handler (packet_handler c) 7 (rfcomm_cid c) data s))))
            else Ret s) (\<lambda>s.
         bind_outcome (chan s p) (\<lambda>c.
         let more = incoming_flow_control c = 0 \<and> credits_incoming c < 5;
             s = (if more then set_chan p (c\<lparr>new_credits_incoming := RFCOMM_CREDITS\<rparr>) s else s) in
         if request \<or> more then bind_outcome (mux s m) (\<lambda>x. Ret (act (RequestCanSendNow (l2cap_cid x)) s))
         else Ret s)))))))"

text \<open>
  Frames that change the state of a channel.  \<open>pointer\<close> is the object for a new channel of a
  service.
\<close>

definition rfcomm_channel_state_machine_with_dlci ::
    "l2cap \<Rightarrow> nat option \<Rightarrow> nat \<Rightarrow> byte \<Rightarrow> rfcomm_channel_event \<Rightarrow> rfcomm \<Rightarrow> rfcomm outcome" where
  "rfcomm_channel_state_machine_with_dlci L pointer m d event s =
     bind_outcome (rfcomm_channel_for_multiplexer_and_dlci s m d) (\<lambda>r.
     let run = (\<lambda>p s. bind_outcome (rfcomm_channel_state_machine_with_channel L p event s) (request_if_ready m p));
         send_dm = (\<lambda>s. bind_outcome (upd_mux m (\<lambda>x. x\<lparr>send_dm_for_dlci := d\<rparr>) s) (\<lambda>s.
           bind_outcome (mux s m) (\<lambda>x. Ret (act (RequestCanSendNow (l2cap_cid x)) s)))) in
     case r of Some p \<Rightarrow> run p s
     | None \<Rightarrow>
         (case rfcomm_service_for_channel s (drop_bit 1 d) of
            None \<Rightarrow> send_dm s
          | Some srv \<Rightarrow>
              if (case event of CH_EVT_RCVD_SABM \<Rightarrow> True | CH_EVT_RCVD_PN mfs pr cr \<Rightarrow> True | CH_EVT_RCVD_RPN_REQ \<Rightarrow> True
                  | CH_EVT_RCVD_RPN_CMD data \<Rightarrow> True | _ \<Rightarrow> False) then
                bind_outcome (rfcomm_channel_create pointer m (Some srv) (drop_bit 1 d) s) (\<lambda>(s, r).
                case r of None \<Rightarrow> bind_outcome (send_dm s) send_dm | Some p \<Rightarrow> run p s)
              else send_dm s))"

definition rpn_at :: "bytes \<Rightarrow> int \<Rightarrow> rfcomm_rpn_data outcome" where
  "rpn_at packet pos =
     bind_outcome (rd_block packet pos 7) (\<lambda>bs.
     Ret \<lparr>rpn_baud_rate = bs ! 0, rpn_flags = bs ! 1, rpn_flow_control = bs ! 2, rpn_xon = bs ! 3, rpn_xoff = bs ! 4,
       parameter_mask_0 = bs ! 5, parameter_mask_1 = bs ! 6\<rparr>)"

text \<open>A message in a UIH frame on the control channel.\<close>

definition channel_message :: "l2cap \<Rightarrow> nat option \<Rightarrow> nat \<Rightarrow> int \<Rightarrow> bytes \<Rightarrow> rfcomm \<Rightarrow> rfcomm outcome" where
  "channel_message L pointer m off packet s =
     bind_outcome (rd packet (off + 1)) (\<lambda>l.
     let message_len = drop_bit 1 l; run = (\<lambda>d event. rfcomm_channel_state_machine_with_dlci L pointer m d event s);
         run2 = (\<lambda>event. bind_outcome (rd packet (off + 2)) (\<lambda>d. run (drop_bit 2 d) event)) in
     bind_outcome (rd packet off) (\<lambda>msg.
     if msg = 0x83 \<or> msg = 0x81 then
       bind_outcome (rd packet (off + 2)) (\<lambda>d.
       bind_outcome (rd packet (off + 4)) (\<lambda>priority.
       bind_outcome (little_endian_read_16 packet 0 (off + 6)) (\<lambda>mfs.
       bind_outcome (rd packet (off + 9)) (\<lambda>credits.
       run d (if msg = 0x83 then CH_EVT_RCVD_PN mfs priority credits else CH_EVT_RCVD_PN_RSP mfs priority credits)))))
     else if msg = 0xE3 then bind_outcome (rd packet (off + 3)) (\<lambda>status. run2 (CH_EVT_RCVD_MSC_CMD status))
     else if msg = 0xE1 then run2 CH_EVT_RCVD_MSC_RSP
     else if msg = 0x93 then
       if message_len = 1 then run2 CH_EVT_RCVD_RPN_REQ
       else if message_len = 8 then bind_outcome (rpn_at packet (off + 3)) (\<lambda>data. run2 (CH_EVT_RCVD_RPN_CMD data))
       else bind_outcome (rd packet (off + 2)) (\<lambda>d. Ret s)
     else if msg = 0x91 then Ret s
     else if msg = 0x53 then bind_outcome (rd packet (off + 3)) (\<lambda>status. run2 (CH_EVT_RCVD_RLS_CMD status))
     else if msg = 0x51 then Ret s
     else upd_mux m (\<lambda>x. x\<lparr>nsc_command := msg\<rparr>) s))"

definition rfcomm_channel_packet_handler :: "l2cap \<Rightarrow> nat option \<Rightarrow> nat \<Rightarrow> bytes \<Rightarrow> rfcomm \<Rightarrow> rfcomm outcome" where
  "rfcomm_channel_packet_handler L pointer m packet s =
     bind_outcome (rd packet 0) (\<lambda>address.
     bind_outcome (rd packet 1) (\<lambda>control.
     bind_outcome (rd packet 2) (\<lambda>len.
     let run = (\<lambda>event. rfcomm_channel_state_machine_with_dlci L pointer m (drop_bit 2 address) event s) in
     bind_outcome
       (if control = 0x3F then run CH_EVT_RCVD_SABM
        else if control = 0x73 then run CH_EVT_RCVD_UA
        else if control = 0x53 then run CH_EVT_RCVD_DISC
        else if control = 0x0F \<or> control = 0x1F then run CH_EVT_RCVD_DM
        else if control = 0xFF \<or> control = 0xEF then
          channel_message L pointer m (int (payload_offset control len)) packet s
        else Ret s) (\<lambda>s.
     bind_outcome (mux s m) (\<lambda>x.
     Ret (if rfcomm_multiplexer_ready_to_send x then act (RequestCanSendNow (l2cap_cid x)) s else s))))))"

text \<open>Packet types 4 and 6 are events and data.\<close>

definition rfcomm_packet_handler :: "l2cap \<Rightarrow> nat option \<Rightarrow> byte \<Rightarrow> u16 \<Rightarrow> bytes \<Rightarrow> u16 \<Rightarrow> rfcomm \<Rightarrow> rfcomm outcome" where
  "rfcomm_packet_handler L pointer packet_type channel packet sz s =
     (if packet_type = 4 then rfcomm_hci_event_handler L pointer packet s
      else if packet_type \<noteq> 6 then Ret s
      else bind_outcome (rfcomm_multiplexer_l2cap_packet_handler L channel packet sz s) (\<lambda>(s, handled).
        if handled then Ret s
        else bind_outcome (rfcomm_multiplexer_for_l2cap_cid s channel) (\<lambda>r.
          case r of None \<Rightarrow> Ret s
          | Some m \<Rightarrow>
              bind_outcome (mux s m) (\<lambda>x.
              if mux_state x \<noteq> RFCOMM_MULTIPLEXER_OPEN then Ret s
              else bind_outcome (rd packet 0) (\<lambda>address.
                bind_outcome (if drop_bit 2 address = 0 then Ret 0 else rd packet 1) (\<lambda>control.
                if drop_bit 2 address \<noteq> 0 \<and> (control = 0xEF \<or> control = 0xFF) then
                  rfcomm_channel_packet_handler_uih L m packet sz s
                else rfcomm_channel_packet_handler L pointer m packet s))))))"

end
