(* ===== verification/RfcommApi.thy ===== *)
theory RfcommApi
  imports RfcommMux
begin

text \<open>
  \<^verbatim>\<open>btstack-rootless/src/classic/rfcomm.c\<close>, last part: the functions for applications.
\<close>

subsection \<open>Start\<close>

definition rfcomm_init :: "bytes \<Rightarrow> rfcomm" where
  "rfcomm_init buffer = \<lparr>rfcomm_client_cid_generator = 0, rfcomm_multiplexers = [], rfcomm_channels = [], rfcomm_services = [],
     rfcomm_security_level = 0, mux_mem = (\<lambda>_. None), channel_mem = (\<lambda>_. None), out_buffer = buffer, frames = 0, trace = []\<rparr>"

definition rfcomm_set_required_security_level :: "byte \<Rightarrow> rfcomm \<Rightarrow> rfcomm" where
  "rfcomm_set_required_security_level level s = s\<lparr>rfcomm_security_level := level\<rparr>"

subsection \<open>Sending\<close>

definition rfcomm_can_send_packet_now :: "l2cap \<Rightarrow> rfcomm \<Rightarrow> u16 \<Rightarrow> bool outcome" where
  "rfcomm_can_send_packet_now L s cid =
     bind_outcome (rfcomm_channel_for_rfcomm_cid s cid) (\<lambda>r.
     case r of None \<Rightarrow> Ret False | Some p \<Rightarrow> rfcomm_channel_can_send L s p)"

definition rfcomm_request_can_send_now_event :: "u16 \<Rightarrow> rfcomm \<Rightarrow> rfcomm outcome" where
  "rfcomm_request_can_send_now_event cid s =
     bind_outcome (rfcomm_channel_for_rfcomm_cid s cid) (\<lambda>r.
     case r of None \<Rightarrow> Ret s
     | Some p \<Rightarrow>
         bind_outcome (upd_chan p (\<lambda>c. c\<lparr>waiting_for_can_send_now := True\<rparr>) s) (\<lambda>s.
         bind_outcome (chan s p) (\<lambda>c. bind_outcome (mux s (multiplexer c)) (\<lambda>x.
         Ret (act (RequestCanSendNow (l2cap_cid x)) s)))))"

definition rfcomm_assert_send_valid :: "rfcomm \<Rightarrow> nat \<Rightarrow> u16 \<Rightarrow> int outcome" where
  "rfcomm_assert_send_valid s p len =
     bind_outcome (chan s p) (\<lambda>c.
     if len > max_frame_size c then Ret 0x74
     else if credits_outgoing c = 0 then Ret 0x72
     else bind_outcome (mux s (multiplexer c)) (\<lambda>x. if fcon x AND 1 = 0 then Ret 0x73 else Ret 0))"

definition rfcomm_get_max_frame_size :: "rfcomm \<Rightarrow> u16 \<Rightarrow> u16 outcome" where
  "rfcomm_get_max_frame_size s cid =
     bind_outcome (rfcomm_channel_for_rfcomm_cid s cid) (\<lambda>r.
     case r of None \<Rightarrow> Ret 0 | Some p \<Rightarrow> bind_outcome (chan s p) (\<lambda>c. Ret (max_frame_size c)))"

definition rfcomm_reserve_packet_buffer :: "rfcomm \<Rightarrow> rfcomm" where
  "rfcomm_reserve_packet_buffer s = act ReserveBuffer s"

definition rfcomm_release_packet_buffer :: "rfcomm \<Rightarrow> rfcomm" where
  "rfcomm_release_packet_buffer s = act ReleaseBuffer s"

text \<open>The offset of the data in the outgoing buffer.\<close>

definition rfcomm_get_outgoing_buffer :: int where
  "rfcomm_get_outgoing_buffer = 4"

definition rfcomm_send_prepared :: "l2cap \<Rightarrow> u16 \<Rightarrow> u16 \<Rightarrow> rfcomm \<Rightarrow> (rfcomm \<times> int) outcome" where
  "rfcomm_send_prepared L cid len s =
     bind_outcome (rfcomm_channel_for_rfcomm_cid s cid) (\<lambda>r.
     case r of None \<Rightarrow> Ret (s, 0)
     | Some p \<Rightarrow>
         bind_outcome (rfcomm_assert_send_valid s p len) (\<lambda>err.
         if err \<noteq> 0 then Ret (s, err)
         else bind_outcome (chan s p) (\<lambda>c. bind_outcome (mux s (multiplexer c)) (\<lambda>x.
           if \<not> can_send_prepared L (frames s) (l2cap_cid x) then Ret (s, 0x57)
           else
             let s = (if len \<noteq> 0 then set_chan p (c\<lparr>credits_outgoing := credits_outgoing c - 1\<rparr>) s else s) in
             bind_outcome (rfcomm_send_uih_prepared L (multiplexer c) (dlci c) len s) (\<lambda>(s, result).
             if result \<noteq> 0 then
               bind_outcome (if len \<noteq> 0 then upd_chan p (\<lambda>c. c\<lparr>credits_outgoing := credits_outgoing c + 1\<rparr>) s else Ret s)
                 (\<lambda>s. Ret (s, result))
             else Ret (s, result))))))"

definition rfcomm_send :: "l2cap \<Rightarrow> u16 \<Rightarrow> bytes \<Rightarrow> rfcomm \<Rightarrow> (rfcomm \<times> int) outcome" where
  "rfcomm_send L cid data s =
     bind_outcome (rfcomm_channel_for_rfcomm_cid s cid) (\<lambda>r.
     case r of None \<Rightarrow> Ret (s, 0x02)
     | Some p \<Rightarrow>
         bind_outcome (rfcomm_assert_send_valid s p (of_nat (length data))) (\<lambda>err.
         if err \<noteq> 0 then Ret (s, err)
         else bind_outcome (chan s p) (\<lambda>c. bind_outcome (mux s (multiplexer c)) (\<lambda>x.
           if \<not> can_send L (frames s) (l2cap_cid x) then Ret (s, 0x57)
           else
             let s = rfcomm_reserve_packet_buffer s in
             bind_outcome (wr_block (out_buffer s) rfcomm_get_outgoing_buffer data) (\<lambda>buf.
             bind_outcome (rfcomm_send_prepared L cid (of_nat (length data)) (s\<lparr>out_buffer := buf\<rparr>)) (\<lambda>(s, err).
             Ret (if err \<noteq> 0 then rfcomm_release_packet_buffer s else s, err)))))))"

text \<open>A message about a channel, sent over its multiplexer.\<close>

definition with_cid :: "u16 \<Rightarrow> (nat \<Rightarrow> byte \<Rightarrow> rfcomm \<Rightarrow> (rfcomm \<times> int) outcome) \<Rightarrow> rfcomm \<Rightarrow> (rfcomm \<times> int) outcome" where
  "with_cid cid f s =
     bind_outcome (rfcomm_channel_for_rfcomm_cid s cid) (\<lambda>r.
     case r of None \<Rightarrow> Ret (s, 0)
     | Some p \<Rightarrow> bind_outcome (chan s p) (\<lambda>c. f (multiplexer c) (dlci c) s))"

definition rfcomm_send_local_line_status :: "l2cap \<Rightarrow> u16 \<Rightarrow> byte \<Rightarrow> rfcomm \<Rightarrow> (rfcomm \<times> int) outcome" where
  "rfcomm_send_local_line_status L cid line_status = with_cid cid (\<lambda>m d. rfcomm_send_uih_rls_cmd L m d line_status)"

definition rfcomm_send_modem_status :: "l2cap \<Rightarrow> u16 \<Rightarrow> byte \<Rightarrow> rfcomm \<Rightarrow> (rfcomm \<times> int) outcome" where
  "rfcomm_send_modem_status L cid modem_status = with_cid cid (\<lambda>m d. rfcomm_send_uih_msc_cmd L m d modem_status)"

definition rfcomm_send_port_configuration ::
    "l2cap \<Rightarrow> u16 \<Rightarrow> byte \<Rightarrow> byte \<Rightarrow> byte \<Rightarrow> byte \<Rightarrow> byte \<Rightarrow> rfcomm \<Rightarrow> (rfcomm \<times> int) outcome" where
  "rfcomm_send_port_configuration L cid baud_rate data_bits stop_bits parity flow_control =
     with_cid cid (\<lambda>m d. rfcomm_send_uih_rpn_cmd L m d \<lparr>rpn_baud_rate = baud_rate,
       rpn_flags = data_bits OR push_bit 2 stop_bits OR push_bit 3 parity, rpn_flow_control = flow_control, rpn_xon = 0,
       rpn_xoff = 0, parameter_mask_0 = 0x1F, parameter_mask_1 = 0x3F\<rparr>)"

definition rfcomm_query_port_configuration :: "l2cap \<Rightarrow> u16 \<Rightarrow> rfcomm \<Rightarrow> (rfcomm \<times> int) outcome" where
  "rfcomm_query_port_configuration L cid = with_cid cid (\<lambda>m d. rfcomm_send_uih_rpn_req L m d)"

subsection \<open>Connections\<close>

text \<open>
  \<open>mp\<close> and \<open>cp\<close> are what the allocators return for a multiplexer and a channel, \<open>create\<close> the status
  and the identifier of \<open>l2cap_create_channel\<close>.  The result is the status and the identifier of the
  channel, if one was assigned.  The error paths free objects without taking them out of the lists.
  First the part that has the multiplexer \<open>m\<close>, with contents \<open>x\<close>.
\<close>

definition create_channel_on ::
    "l2cap \<Rightarrow> bool \<Rightarrow> nat \<Rightarrow> rfcomm_multiplexer \<Rightarrow> nat option \<Rightarrow> byte \<times> u16 \<Rightarrow> nat \<Rightarrow> bytes \<Rightarrow> byte \<Rightarrow> byte \<Rightarrow> byte \<Rightarrow> rfcomm \<Rightarrow>
     (rfcomm \<times> byte \<times> u16 option) outcome" where
  "create_channel_on L new_multiplexer m x cp create handler addr channel flow_control initial_credits s =
     (let free_new = (\<lambda>s. if new_multiplexer then mux_free m s else s) in
      bind_outcome (rfcomm_channel_for_multiplexer_and_dlci s m (push_bit 1 channel OR (outgoing x XOR 1))) (\<lambda>r.
      if r \<noteq> None then Ret (free_new s, 0x71, None)
      else bind_outcome (rfcomm_channel_create cp m None channel s) (\<lambda>(s, r).
        case r of None \<Rightarrow> Ret (free_new s, 0x56, None)
        | Some p \<Rightarrow>
            bind_outcome (upd_chan p (\<lambda>c. c\<lparr>incoming_flow_control := flow_control, new_credits_incoming := initial_credits,
              packet_handler := handler\<rparr>) s) (\<lambda>s.
            bind_outcome (chan s p) (\<lambda>c.
            if mux_state x \<noteq> RFCOMM_MULTIPLEXER_OPEN then
              let s = act (CreateL2capChannel addr (max_mtu L))
                (set_chan p (c\<lparr>ch_state := RFCOMM_CHANNEL_W4_MULTIPLEXER\<rparr>) s) in
              if fst create \<noteq> 0 then Ret (rfcomm_channel_free p (free_new s), fst create, Some (rfcomm_cid c))
              else bind_outcome (upd_mux m (\<lambda>x. x\<lparr>l2cap_cid := snd create\<rparr>) s) (\<lambda>s. Ret (s, 0, Some (rfcomm_cid c)))
            else
              Ret (act (RequestCanSendNow (l2cap_cid x)) (set_chan p (c\<lparr>ch_state := RFCOMM_CHANNEL_SEND_UIH_PN\<rparr>) s),
                0, Some (rfcomm_cid c)))))))"

definition rfcomm_channel_create_internal ::
    "l2cap \<Rightarrow> nat option \<Rightarrow> nat option \<Rightarrow> byte \<times> u16 \<Rightarrow> nat \<Rightarrow> bytes \<Rightarrow> byte \<Rightarrow> byte \<Rightarrow> byte \<Rightarrow> rfcomm \<Rightarrow>
     (rfcomm \<times> byte \<times> u16 option) outcome" where
  "rfcomm_channel_create_internal L mp cp create handler addr channel flow_control initial_credits s =
     bind_outcome (rfcomm_multiplexer_for_addr s addr) (\<lambda>r.
     case (case r of Some m \<Rightarrow> (s, Some m) | None \<Rightarrow> rfcomm_multiplexer_create_for_addr L mp addr s) of
       (s, None) \<Rightarrow> Ret (s, 0x56, None)
     | (s, Some m) \<Rightarrow>
         bind_outcome (if r = None then
           upd_mux m (\<lambda>x. x\<lparr>outgoing := 1, mux_state := RFCOMM_MULTIPLEXER_W4_CONNECT\<rparr>) s else Ret s) (\<lambda>s.
         bind_outcome (mux s m) (\<lambda>x.
         create_channel_on L (r = None) m x cp create handler addr channel flow_control initial_credits s)))"

definition rfcomm_create_channel_with_initial_credits ::
    "l2cap \<Rightarrow> nat option \<Rightarrow> nat option \<Rightarrow> byte \<times> u16 \<Rightarrow> nat \<Rightarrow> bytes \<Rightarrow> byte \<Rightarrow> byte \<Rightarrow> rfcomm \<Rightarrow> (rfcomm \<times> byte \<times> u16 option) outcome" where
  "rfcomm_create_channel_with_initial_credits L mp cp create handler addr channel initial_credits =
     rfcomm_channel_create_internal L mp cp create handler addr channel 1 initial_credits"

definition rfcomm_create_channel ::
    "l2cap \<Rightarrow> nat option \<Rightarrow> nat option \<Rightarrow> byte \<times> u16 \<Rightarrow> nat \<Rightarrow> bytes \<Rightarrow> byte \<Rightarrow> rfcomm \<Rightarrow> (rfcomm \<times> byte \<times> u16 option) outcome" where
  "rfcomm_create_channel L mp cp create handler addr channel =
     rfcomm_channel_create_internal L mp cp create handler addr channel 0 RFCOMM_CREDITS"

text \<open>A function that acts on the channel with an identifier, if there is one.\<close>

definition on_channel :: "u16 \<Rightarrow> (nat \<Rightarrow> rfcomm_channel \<Rightarrow> rfcomm \<Rightarrow> rfcomm outcome) \<Rightarrow> rfcomm \<Rightarrow> rfcomm outcome" where
  "on_channel cid f s =
     bind_outcome (rfcomm_channel_for_rfcomm_cid s cid) (\<lambda>r.
     case r of None \<Rightarrow> Ret s | Some p \<Rightarrow> bind_outcome (chan s p) (\<lambda>c. f p c s))"

definition store_and_request :: "nat \<Rightarrow> rfcomm_channel \<Rightarrow> rfcomm \<Rightarrow> rfcomm outcome" where
  "store_and_request p c s =
     bind_outcome (mux s (multiplexer c)) (\<lambda>x. Ret (act (RequestCanSendNow (l2cap_cid x)) (set_chan p c s)))"

definition rfcomm_disconnect :: "u16 \<Rightarrow> rfcomm \<Rightarrow> rfcomm outcome" where
  "rfcomm_disconnect cid = on_channel cid (\<lambda>p c. store_and_request p (c\<lparr>ch_state := RFCOMM_CHANNEL_SEND_DISC\<rparr>))"

definition rfcomm_accept_connection :: "u16 \<Rightarrow> rfcomm \<Rightarrow> rfcomm outcome" where
  "rfcomm_accept_connection cid = on_channel cid (\<lambda>p c s.
     if ch_state c \<noteq> RFCOMM_CHANNEL_INCOMING_SETUP then Ret s
     else
       let c = rfcomm_channel_state_add CLIENT_ACCEPTED c in
       bind_outcome (if has_flag c RCVD_PN then store_and_request p (rfcomm_channel_state_add SEND_PN_RSP c) s
                     else Ret (set_chan p c s)) (\<lambda>s.
       bind_outcome (chan s p) (\<lambda>c.
       if has_flag c RCVD_SABM then store_and_request p (rfcomm_channel_state_add SEND_UA c) s else Ret s)))"

definition rfcomm_decline_connection :: "u16 \<Rightarrow> rfcomm \<Rightarrow> rfcomm outcome" where
  "rfcomm_decline_connection cid = on_channel cid (\<lambda>p c s.
     if ch_state c = RFCOMM_CHANNEL_INCOMING_SETUP then store_and_request p (c\<lparr>ch_state := RFCOMM_CHANNEL_SEND_DM\<rparr>) s
     else Ret s)"

definition rfcomm_grant_credits :: "u16 \<Rightarrow> byte \<Rightarrow> rfcomm \<Rightarrow> rfcomm outcome" where
  "rfcomm_grant_credits cid credits = on_channel cid (\<lambda>p c s.
     if incoming_flow_control c = 0 then Ret s
     else store_and_request p (c\<lparr>new_credits_incoming := new_credits_incoming c + credits\<rparr>) s)"

subsection \<open>Services\<close>

text \<open>\<open>alloc\<close>: the allocator returned an object.\<close>

definition rfcomm_register_service_internal :: "bool \<Rightarrow> nat \<Rightarrow> byte \<Rightarrow> u16 \<Rightarrow> byte \<Rightarrow> byte \<Rightarrow> rfcomm \<Rightarrow> rfcomm \<times> byte" where
  "rfcomm_register_service_internal alloc handler channel mfs flow_control initial_credits s =
     (if rfcomm_service_for_channel s channel \<noteq> None then (s, 0x71)
      else if \<not> alloc then (s, 0x56)
      else
        let s = (if rfcomm_services s = [] then act (RegisterL2capService (rfcomm_security_level s)) s else s);
            srv = \<lparr>srv_packet_handler = handler, server_channel = channel, srv_max_frame_size = mfs,
                   srv_incoming_flow_control = flow_control, incoming_initial_credits = initial_credits\<rparr> in
        (s\<lparr>rfcomm_services := srv # rfcomm_services s\<rparr>, 0))"

definition rfcomm_register_service_with_initial_credits :: "bool \<Rightarrow> nat \<Rightarrow> byte \<Rightarrow> u16 \<Rightarrow> byte \<Rightarrow> rfcomm \<Rightarrow> rfcomm \<times> byte" where
  "rfcomm_register_service_with_initial_credits alloc handler channel mfs initial_credits =
     rfcomm_register_service_internal alloc handler channel mfs 1 initial_credits"

definition rfcomm_register_service :: "bool \<Rightarrow> nat \<Rightarrow> byte \<Rightarrow> u16 \<Rightarrow> rfcomm \<Rightarrow> rfcomm \<times> byte" where
  "rfcomm_register_service alloc handler channel mfs = rfcomm_register_service_internal alloc handler channel mfs 0 RFCOMM_CREDITS"

definition rfcomm_unregister_service :: "byte \<Rightarrow> rfcomm \<Rightarrow> rfcomm" where
  "rfcomm_unregister_service service_channel s =
     (case rfcomm_service_for_channel s service_channel of
        None \<Rightarrow> s
      | Some srv \<Rightarrow>
          let s = s\<lparr>rfcomm_services := remove1 srv (rfcomm_services s)\<rparr> in
          if rfcomm_services s = [] then act UnregisterL2capService s else s)"

end
