(* ===== verification/RfcommInv.thy ===== *)
theory RfcommInv
  imports RfcommApi
begin

text \<open>
  The invariant of RFCOMM: the lists hold exactly the live objects, every channel belongs to a live
  multiplexer, identifiers are distinct, and frames fit the outgoing buffer.  Every function keeps
  it and never accesses a freed object.
\<close>

subsection \<open>The invariant\<close>

definition chan_fits :: "rfcomm \<Rightarrow> rfcomm_channel \<Rightarrow> bool" where
  "chan_fits s c \<longleftrightarrow> unat (max_frame_size c) + 5 \<le> length (out_buffer s)"

definition mux_fits :: "rfcomm \<Rightarrow> rfcomm_multiplexer \<Rightarrow> bool" where
  "mux_fits s x \<longleftrightarrow> unat (mux_max_frame_size x) + 5 \<le> length (out_buffer s) \<and> length (test_data x) = 4 \<and> length (remote_addr x) = 6"

definition rf_ok :: "rfcomm \<Rightarrow> bool" where
  "rf_ok s \<longleftrightarrow> distinct (rfcomm_channels s) \<and> distinct (rfcomm_multiplexers s) \<and>
     set (rfcomm_channels s) = dom (channel_mem s) \<and> set (rfcomm_multiplexers s) = dom (mux_mem s) \<and>
     (\<forall>p c. channel_mem s p = Some c \<longrightarrow> multiplexer c \<in> dom (mux_mem s) \<and> rfcomm_cid c \<noteq> 0 \<and> chan_fits s c) \<and>
     (\<forall>m x. mux_mem s m = Some x \<longrightarrow> mux_fits s x) \<and>
     (\<forall>p q c d. channel_mem s p = Some c \<longrightarrow> channel_mem s q = Some d \<longrightarrow> rfcomm_cid c = rfcomm_cid d \<longrightarrow> p = q) \<and>
     16 \<le> length (out_buffer s) \<and> length (out_buffer s) < 65536"

definition chan_id :: "rfcomm_channel \<Rightarrow> nat \<times> u16" where
  "chan_id c = (multiplexer c, rfcomm_cid c)"

text \<open>What no function changes that only works on objects: which there are, and what they belong to.\<close>

definition objs :: "rfcomm \<Rightarrow> nat list \<times> nat list \<times> rfcomm_service list \<times> (nat \<Rightarrow> (nat \<times> u16) option) \<times> nat" where
  "objs s = (rfcomm_channels s, rfcomm_multiplexers s, rfcomm_services s, map_option chan_id \<circ> channel_mem s, length (out_buffer s))"

lemma objsD:
  assumes "objs s' = objs s"
  shows "rfcomm_channels s' = rfcomm_channels s" "rfcomm_multiplexers s' = rfcomm_multiplexers s"
    "rfcomm_services s' = rfcomm_services s" "length (out_buffer s') = length (out_buffer s)"
    "map_option chan_id (channel_mem s' p) = map_option chan_id (channel_mem s p)"
  using assms by (auto simp: objs_def dest: fun_cong [of _ _ p])

lemma rf_ok_chan:
  assumes "rf_ok s" "channel_mem s p = Some c"
  shows "p \<in> set (rfcomm_channels s)" "multiplexer c \<in> set (rfcomm_multiplexers s)" "rfcomm_cid c \<noteq> 0" "chan_fits s c"
  using assms by (auto simp: rf_ok_def)

lemma rf_ok_mux:
  assumes "rf_ok s" "mux_mem s m = Some x"
  shows "m \<in> set (rfcomm_multiplexers s)" "mux_fits s x"
  using assms by (auto simp: rf_ok_def)

lemma rf_ok_buffer: "rf_ok s \<Longrightarrow> 16 \<le> length (out_buffer s) \<and> length (out_buffer s) < 65536"
  by (simp add: rf_ok_def)

text \<open>Reading objects.\<close>

lemma returns_chan [wp]:
  assumes "rf_ok s" "p \<in> set (rfcomm_channels s)"
    and "\<And>c. channel_mem s p = Some c \<Longrightarrow> multiplexer c \<in> set (rfcomm_multiplexers s) \<Longrightarrow> P c"
  shows "returns (chan s p) P"
proof -
  obtain c where c: "channel_mem s p = Some c" using assms(1,2) by (auto simp: rf_ok_def)
  then show ?thesis using assms(3) [OF c] rf_ok_chan [OF assms(1) c] by (simp add: chan_def)
qed

lemma returns_mux [wp]:
  assumes "rf_ok s" "m \<in> set (rfcomm_multiplexers s)" "\<And>x. mux_mem s m = Some x \<Longrightarrow> P x"
  shows "returns (mux s m) P"
  using assms by (auto simp: rf_ok_def mux_def)

subsection \<open>Updates\<close>

lemma act_simps [simp]:
  "rf_ok (act a s) = rf_ok s" "objs (act a s) = objs s" "channel_mem (act a s) = channel_mem s" "mux_mem (act a s) = mux_mem s"
  "rfcomm_channels (act a s) = rfcomm_channels s" "rfcomm_multiplexers (act a s) = rfcomm_multiplexers s"
  "out_buffer (act a s) = out_buffer s" "rfcomm_services (act a s) = rfcomm_services s"
  by (simp_all add: act_def rf_ok_def objs_def chan_fits_def mux_fits_def)

lemma call_handler_simps [simp]:
  "rf_ok (call_handler h t ch pk s) = rf_ok s" "objs (call_handler h t ch pk s) = objs s"
  "channel_mem (call_handler h t ch pk s) = channel_mem s" "mux_mem (call_handler h t ch pk s) = mux_mem s"
  "rfcomm_channels (call_handler h t ch pk s) = rfcomm_channels s"
  "rfcomm_multiplexers (call_handler h t ch pk s) = rfcomm_multiplexers s"
  by (simp_all add: call_handler_def)

lemma frames_simps [simp]:
  "rf_ok (s\<lparr>frames := n\<rparr>) = rf_ok s" "objs (s\<lparr>frames := n\<rparr>) = objs s"
  by (simp_all add: rf_ok_def objs_def chan_fits_def mux_fits_def)

lemma buffer_ok:
  assumes "length buf = length (out_buffer s)"
  shows "rf_ok (s\<lparr>out_buffer := buf\<rparr>) = rf_ok s" "objs (s\<lparr>out_buffer := buf\<rparr>) = objs s"
  using assms by (simp_all add: rf_ok_def objs_def chan_fits_def mux_fits_def)

text \<open>A channel keeps its multiplexer and its identifier.\<close>

definition keeps_chan :: "rfcomm \<Rightarrow> nat \<Rightarrow> rfcomm_channel \<Rightarrow> bool" where
  "keeps_chan s p c' \<longleftrightarrow> (case channel_mem s p of None \<Rightarrow> False | Some c \<Rightarrow> chan_id c' = chan_id c \<and> max_frame_size c' \<le> max_frame_size c)"

lemma set_chan_ok [simp]:
  assumes "rf_ok s" "keeps_chan s p c'"
  shows "rf_ok (set_chan p c' s)" "objs (set_chan p c' s) = objs s"
proof -
  obtain c where c: "channel_mem s p = Some c" "chan_id c' = chan_id c" "max_frame_size c' \<le> max_frame_size c"
    using assms(2) by (auto simp: keeps_chan_def split: option.splits)
  have fits: "chan_fits (set_chan p c' s) c'"
    using rf_ok_chan(4) [OF assms(1) c(1)] c(3) by (simp add: chan_fits_def set_chan_def word_le_nat_alt)
  note ok = assms(1) [unfolded rf_ok_def]
  show "rf_ok (set_chan p c' s)" unfolding rf_ok_def
  proof (intro conjI allI impI)
    show "set (rfcomm_channels (set_chan p c' s)) = dom (channel_mem (set_chan p c' s))"
      using ok c(1) by (auto simp: set_chan_def)
    fix q d assume q: "channel_mem (set_chan p c' s) q = Some d"
    show "multiplexer d \<in> dom (mux_mem (set_chan p c' s))" "rfcomm_cid d \<noteq> 0" "chan_fits (set_chan p c' s) d"
      using rf_ok_chan [OF assms(1) c(1)] rf_ok_chan [OF assms(1), of q d] q fits c(2) ok
      by (auto simp: set_chan_def chan_id_def chan_fits_def split: if_splits)
    fix q' d' assume "channel_mem (set_chan p c' s) q' = Some d'" "rfcomm_cid d = rfcomm_cid d'"
    then show "q = q'" using q c ok by (auto simp: set_chan_def chan_id_def split: if_splits)
  qed (use ok in \<open>auto simp: set_chan_def mux_fits_def\<close>)
  show "objs (set_chan p c' s) = objs s"
    using c by (auto simp: objs_def set_chan_def fun_eq_iff)
qed

lemma set_chan_simps [simp]:
  "channel_mem (set_chan p c s) = (channel_mem s)(p \<mapsto> c)" "mux_mem (set_chan p c s) = mux_mem s"
  "rfcomm_channels (set_chan p c s) = rfcomm_channels s" "rfcomm_multiplexers (set_chan p c s) = rfcomm_multiplexers s"
  "out_buffer (set_chan p c s) = out_buffer s" "rfcomm_services (set_chan p c s) = rfcomm_services s"
  by (simp_all add: set_chan_def)

definition keeps_mux :: "rfcomm \<Rightarrow> nat \<Rightarrow> rfcomm_multiplexer \<Rightarrow> bool" where
  "keeps_mux s m x' \<longleftrightarrow> m \<in> set (rfcomm_multiplexers s) \<and> mux_fits s x'"

lemma set_mux_ok [simp]:
  assumes "rf_ok s" "keeps_mux s m x'"
  shows "rf_ok (set_mux m x' s)" "objs (set_mux m x' s) = objs s"
proof -
  have "set (rfcomm_multiplexers s) = dom ((mux_mem s)(m \<mapsto> x'))" "mux_fits s x'"
    using assms by (auto simp: rf_ok_def keeps_mux_def)
  then show "rf_ok (set_mux m x' s)"
    using assms(1) unfolding rf_ok_def by (auto simp: set_mux_def chan_fits_def mux_fits_def)
  show "objs (set_mux m x' s) = objs s" by (simp add: objs_def set_mux_def)
qed

lemma set_mux_simps [simp]:
  "channel_mem (set_mux m x s) = channel_mem s" "mux_mem (set_mux m x s) = (mux_mem s)(m \<mapsto> x)"
  "rfcomm_channels (set_mux m x s) = rfcomm_channels s" "rfcomm_multiplexers (set_mux m x s) = rfcomm_multiplexers s"
  "out_buffer (set_mux m x s) = out_buffer s" "rfcomm_services (set_mux m x s) = rfcomm_services s"
  by (simp_all add: set_mux_def)

lemma returns_upd_chan [wp]:
  assumes "rf_ok s" "p \<in> set (rfcomm_channels s)"
    and "\<And>c. channel_mem s p = Some c \<Longrightarrow> multiplexer c \<in> set (rfcomm_multiplexers s) \<Longrightarrow> P (set_chan p (f c) s)"
  shows "returns (upd_chan p f s) P"
  unfolding upd_chan_def using assms by (auto intro!: wp)

lemma returns_upd_mux [wp]:
  assumes "rf_ok s" "m \<in> set (rfcomm_multiplexers s)" "\<And>x. mux_mem s m = Some x \<Longrightarrow> P (set_mux m (f x) s)"
  shows "returns (upd_mux m f s) P"
  unfolding upd_mux_def using assms by (auto intro!: wp)

subsection \<open>Lookups\<close>

lemma returns_find_out [wp]:
  assumes "\<And>x. x \<in> set xs \<Longrightarrow> returns (Q x) (\<lambda>_. True)"
    and "\<And>x. x \<in> set xs \<Longrightarrow> Q x = Ret True \<Longrightarrow> P (Some x)"
    and "\<forall>x \<in> set xs. Q x = Ret False \<Longrightarrow> P None"
  shows "returns (find_out Q xs) P"
  using assms
proof (induction xs)
  case (Cons x xs)
  obtain b where b: "Q x = Ret b" using Cons.prems(1) [of x] by (auto elim: returnsE)
  show ?case
  proof (cases b)
    case True
    then show ?thesis using b Cons.prems(2) by simp
  next
    case False
    have "returns (find_out Q xs) P"
      by (rule Cons.IH) (use Cons.prems b False in auto)
    then show ?thesis using b False by simp
  qed
qed simp

subsection \<open>Events and frames\<close>

text \<open>The result of a function that works on objects, and of one that only makes calls.\<close>

definition keeps :: "rfcomm \<Rightarrow> rfcomm \<Rightarrow> bool" where
  "keeps s s' \<longleftrightarrow> rf_ok s' \<and> objs s' = objs s"

definition only_calls :: "rfcomm \<Rightarrow> rfcomm \<Rightarrow> bool" where
  "only_calls s s' \<longleftrightarrow> keeps s s' \<and> channel_mem s' = channel_mem s \<and> mux_mem s' = mux_mem s"

lemma keepsI: "rf_ok s' \<Longrightarrow> objs s' = objs s \<Longrightarrow> keeps s s'"
  by (simp add: keeps_def)

lemma keepsD:
  assumes "keeps s s'"
  shows "rf_ok s' \<and> objs s' = objs s \<and> rfcomm_channels s' = rfcomm_channels s \<and> rfcomm_multiplexers s' = rfcomm_multiplexers s \<and>
    length (out_buffer s') = length (out_buffer s)"
  using assms by (auto simp: keeps_def objs_def)

lemma only_callsI: "rf_ok s \<Longrightarrow> only_calls s s" "only_calls s s' \<Longrightarrow> only_calls s (act a s')"
  by (simp_all add: only_calls_def keeps_def)

lemma only_callsD:
  assumes "only_calls s s'"
  shows "rf_ok s' \<and> objs s' = objs s \<and> rfcomm_channels s' = rfcomm_channels s \<and> rfcomm_multiplexers s' = rfcomm_multiplexers s \<and>
    length (out_buffer s') = length (out_buffer s) \<and> channel_mem s' = channel_mem s \<and> mux_mem s' = mux_mem s"
  using assms keepsD [of s s'] by (auto simp: only_calls_def)

lemma only_calls_keeps: "only_calls s s' \<Longrightarrow> keeps s s'"
  by (simp add: only_calls_def)

lemma keeps_trans: "keeps s s' \<Longrightarrow> keeps s' s'' \<Longrightarrow> keeps s s''"
  by (simp add: keeps_def)

lemma only_calls_call [simp]: "rf_ok s \<Longrightarrow> only_calls s (call_handler h t ch pk s)" "rf_ok s \<Longrightarrow> only_calls s (act a s)"
  by (simp_all add: only_calls_def keeps_def)

text \<open>An event of a channel.\<close>

lemma returns_emit [wp]:
  assumes "rf_ok s" "p \<in> set (rfcomm_channels s)" "\<And>s'. only_calls s s' \<Longrightarrow> P s'"
  shows "returns (rfcomm_emit_connection_request p s) P" "returns (rfcomm_emit_can_send_now p s) P"
    "returns (rfcomm_emit_channel_closed p s) P" "returns (rfcomm_emit_remote_line_status p ls s) P"
    "returns (rfcomm_emit_port_configuration p s) P"
  unfolding rfcomm_emit_connection_request_def rfcomm_emit_can_send_now_def rfcomm_emit_channel_closed_def
    rfcomm_emit_remote_line_status_def rfcomm_emit_port_configuration_def
  using assms by (auto intro!: wp)

lemma returns_channel_can_send [wp]:
  assumes "rf_ok s" "p \<in> set (rfcomm_channels s)" "\<And>b. P b"
  shows "returns (rfcomm_channel_can_send L s p) P"
  unfolding rfcomm_channel_can_send_def using assms by (auto intro!: wp)

lemma returns_emit_opened [wp]:
  assumes "rf_ok s" "p \<in> set (rfcomm_channels s)" "\<And>s'. only_calls s s' \<Longrightarrow> P s'"
  shows "returns (rfcomm_emit_channel_opened L p status s) P"
  unfolding rfcomm_emit_channel_opened_def Let_def
  using assms by (auto intro!: wp dest!: only_callsD simp: only_calls_def keeps_def)

lemma unat_u16: "n < 65536 \<Longrightarrow> unat (of_nat n :: u16) = n"
  by (simp add: unat_of_nat)

lemma uint_u16: "n < 65536 \<Longrightarrow> uint (of_nat n :: u16) = int n"
  by (simp add: uint_word_of_int unsigned_of_nat take_bit_nat_eq_self)

lemma returns_send_prepared_to_l2cap [wp]:
  assumes "rf_ok s" "uint n \<le> int (length (out_buffer s))" "\<And>s' e. only_calls s s' \<Longrightarrow> P (s', e)"
  shows "returns (send_prepared_to_l2cap L cid n s) P"
  unfolding send_prepared_to_l2cap_def Let_def
  using assms by (auto intro!: wp simp: only_calls_def keeps_def)

lemma returns_send_packet [wp]:
  assumes "rf_ok s" "m \<in> set (rfcomm_multiplexers s)" "length data \<le> 10" "\<And>s' e. only_calls s s' \<Longrightarrow> P (s', e)"
  shows "returns (rfcomm_send_packet_for_multiplexer L m address control credits data s) P"
proof -
  have len: "(of_nat (length data) :: u16) < 128" using assms(3) by (simp add: word_less_nat_alt unat_u16)
  then have l: "length_field (of_nat (length data)) = [ucast (push_bit 1 (of_nat (length data) :: u16) OR 1)]"
    by (simp add: length_field_def)
  show ?thesis
    unfolding rfcomm_send_packet_for_multiplexer_def Let_def l
    using assms rf_ok_buffer [OF assms(1)] uint_u16 [of "4 + length data"] uint_u16 [of "5 + length data"]
    by (auto intro!: wp simp: buffer_ok uint_u16 only_calls_def keeps_def)
qed

lemma returns_uih_message [wp]:
  assumes "rf_ok s" "m \<in> set (rfcomm_multiplexers s)" "length payload \<le> 10" "\<And>s' e. only_calls s s' \<Longrightarrow> P (s', e)"
  shows "returns (uih_message L m payload s) P"
  unfolding uih_message_def using assms by (auto intro!: wp)

lemma returns_commands [wp]:
  assumes "rf_ok s" "m \<in> set (rfcomm_multiplexers s)" "\<And>s' e. only_calls s s' \<Longrightarrow> P (s', e)"
  shows "returns (rfcomm_send_sabm L m d s) P" "returns (rfcomm_send_disc L m d s) P" "returns (rfcomm_send_ua L m d s) P"
    "returns (rfcomm_send_dm_pf L m d s) P" "returns (rfcomm_send_uih_fc_rsp L m f s) P"
    "returns (rfcomm_send_uih_msc_cmd L m d sg s) P" "returns (rfcomm_send_uih_msc_rsp L m d sg s) P"
    "returns (rfcomm_send_uih_nsc_rsp L m cm s) P" "returns (rfcomm_send_uih_pn_command L m d mfs s) P"
    "returns (rfcomm_send_uih_pn_response L m d pr mfs s) P" "returns (rfcomm_send_uih_rls_cmd L m d ls s) P"
    "returns (rfcomm_send_uih_rls_rsp L m d ls s) P" "returns (rfcomm_send_uih_rpn_cmd L m d rpn s) P"
    "returns (rfcomm_send_uih_rpn_req L m d s) P" "returns (rfcomm_send_uih_rpn_rsp L m d rpn s) P"
  unfolding rfcomm_send_sabm_def rfcomm_send_disc_def rfcomm_send_ua_def rfcomm_send_dm_pf_def rfcomm_send_uih_fc_rsp_def
    rfcomm_send_uih_msc_cmd_def rfcomm_send_uih_msc_rsp_def rfcomm_send_uih_nsc_rsp_def rfcomm_send_uih_pn_command_def
    rfcomm_send_uih_pn_response_def rfcomm_send_uih_rls_cmd_def rfcomm_send_uih_rls_rsp_def rfcomm_send_uih_rpn_cmd_def
    rfcomm_send_uih_rpn_req_def rfcomm_send_uih_rpn_rsp_def rpn_bytes_def
  using assms by (auto intro!: wp)

lemma unat_le_uint: "unat w \<le> n \<Longrightarrow> uint w \<le> int n"
  by (simp only: uint_nat of_nat_le_iff)

lemma returns_test_rsp [wp]:
  assumes "rf_ok s" "m \<in> set (rfcomm_multiplexers s)" "length data = 4" "\<And>s' e. only_calls s s' \<Longrightarrow> P (s', e)"
  shows "returns (rfcomm_send_uih_test_rsp L m data len s) P"
  unfolding rfcomm_send_uih_test_rsp_def Let_def RFCOMM_TEST_DATA_MAX_LEN_def
  using assms unat_le_uint [of len 4] by (auto intro!: wp simp: not_less)

lemma returns_credits [wp]:
  assumes "rf_ok s" "m \<in> set (rfcomm_multiplexers s)" "\<And>s'. only_calls s s' \<Longrightarrow> P s'"
  shows "returns (rfcomm_send_uih_credits L m d n s) P"
  unfolding rfcomm_send_uih_credits_def using assms by (auto intro!: wp)

subsection \<open>Channels\<close>

definition drop_chan :: "nat \<Rightarrow> rfcomm \<Rightarrow> rfcomm" where
  "drop_chan p s = rfcomm_channel_free p (s\<lparr>rfcomm_channels := remove1 p (rfcomm_channels s)\<rparr>)"

lemma drop_chan_simps [simp]:
  "rfcomm_channels (drop_chan p s) = remove1 p (rfcomm_channels s)" "rfcomm_multiplexers (drop_chan p s) = rfcomm_multiplexers s"
  "channel_mem (drop_chan p s) = (channel_mem s)(p := None)" "mux_mem (drop_chan p s) = mux_mem s"
  "rfcomm_services (drop_chan p s) = rfcomm_services s" "out_buffer (drop_chan p s) = out_buffer s"
  by (simp_all add: drop_chan_def rfcomm_channel_free_def)

lemma drop_chan_ok [simp]: "rf_ok s \<Longrightarrow> rf_ok (drop_chan p s)"
  unfolding rf_ok_def by (auto simp: chan_fits_def mux_fits_def split: if_splits)

lemma drop_chan_objs: "objs s' = objs s \<Longrightarrow> objs (drop_chan p s') = objs (drop_chan p s)"
  by (auto simp: objs_def fun_eq_iff)

lemma keeps_muxI [simp]: "rf_ok s \<Longrightarrow> mux_mem s m = Some x \<Longrightarrow> keeps_mux s m (x\<lparr>timer_active := b\<rparr>)"
  "rf_ok s \<Longrightarrow> mux_mem s m = Some x \<Longrightarrow> keeps_mux s m (x\<lparr>at_least_one_connection := b\<rparr>)"
  "rf_ok s \<Longrightarrow> mux_mem s m = Some x \<Longrightarrow> keeps_mux s m (x\<lparr>mux_state := st\<rparr>)"
  "rf_ok s \<Longrightarrow> mux_mem s m = Some x \<Longrightarrow> keeps_mux s m (x\<lparr>send_dm_for_dlci := d\<rparr>)"
  "rf_ok s \<Longrightarrow> mux_mem s m = Some x \<Longrightarrow> keeps_mux s m (x\<lparr>nsc_command := d\<rparr>)"
  "rf_ok s \<Longrightarrow> mux_mem s m = Some x \<Longrightarrow> keeps_mux s m (x\<lparr>fcon := d\<rparr>)"
  "rf_ok s \<Longrightarrow> mux_mem s m = Some x \<Longrightarrow> keeps_mux s m (x\<lparr>test_data_len := d\<rparr>)"
  "rf_ok s \<Longrightarrow> mux_mem s m = Some x \<Longrightarrow> keeps_mux s m (x\<lparr>outgoing := d\<rparr>)"
  "rf_ok s \<Longrightarrow> mux_mem s m = Some x \<Longrightarrow> keeps_mux s m (x\<lparr>l2cap_cid := cid\<rparr>)"
  "rf_ok s \<Longrightarrow> mux_mem s m = Some x \<Longrightarrow> keeps_mux s m (x\<lparr>con_handle := h, l2cap_cid := cid, mux_state := st\<rparr>)"
  "rf_ok s \<Longrightarrow> mux_mem s m = Some x \<Longrightarrow> keeps_mux s m (x\<lparr>l2cap_cid := cid, con_handle := h\<rparr>)"
  using rf_ok_mux [of s m x] by (simp_all add: keeps_mux_def mux_fits_def)

text \<open>A function that works on the objects but not on the channels.\<close>

definition keeps_chans :: "rfcomm \<Rightarrow> rfcomm \<Rightarrow> bool" where
  "keeps_chans s s' \<longleftrightarrow> keeps s s' \<and> channel_mem s' = channel_mem s"

lemma keeps_chansD:
  assumes "keeps_chans s s'"
  shows "rf_ok s' \<and> objs s' = objs s \<and> rfcomm_channels s' = rfcomm_channels s \<and> rfcomm_multiplexers s' = rfcomm_multiplexers s \<and>
    length (out_buffer s') = length (out_buffer s) \<and> channel_mem s' = channel_mem s"
  using assms keepsD [of s s'] by (auto simp: keeps_chans_def)

lemmas stepD = keepsD only_callsD keeps_chansD
lemmas step_defs = keeps_chans_def only_calls_def keeps_def

lemma returns_stop_timer [wp]:
  assumes "rf_ok s" "m \<in> set (rfcomm_multiplexers s)" "\<And>s'. keeps_chans s s' \<Longrightarrow> P s'"
  shows "returns (rfcomm_multiplexer_stop_timer m s) P"
  unfolding rfcomm_multiplexer_stop_timer_def
  using assms by (auto intro!: wp simp: step_defs)

lemma returns_has_channels [wp]:
  assumes "rf_ok s" "(\<forall>p c. channel_mem s p = Some c \<longrightarrow> multiplexer c \<noteq> m) \<Longrightarrow> P False" "P True"
  shows "returns (rfcomm_multiplexer_has_channels s m) P"
proof -
  have none: "\<forall>p c. channel_mem s p = Some c \<longrightarrow> multiplexer c \<noteq> m"
    if "\<forall>p \<in> set (rfcomm_channels s). bind_outcome (chan s p) (\<lambda>c. Ret (multiplexer c = m)) = Ret False"
    using that rf_ok_chan(1) [OF assms(1)] by (fastforce simp: chan_def)
  show ?thesis
    unfolding rfcomm_multiplexer_has_channels_def
    using assms by (auto intro!: wp dest: none)
qed

lemma returns_idle_timer [wp]:
  assumes "rf_ok s" "m \<in> set (rfcomm_multiplexers s)" "\<And>s'. keeps_chans s s' \<Longrightarrow> P s'"
  shows "returns (rfcomm_multiplexer_prepare_idle_timer m s) P"
  unfolding rfcomm_multiplexer_prepare_idle_timer_def
  using assms by (auto intro!: wp dest!: stepD simp: step_defs)

lemma returns_finalize [wp]:
  assumes "rf_ok s" "p \<in> set (rfcomm_channels s)" "\<And>s'. keeps (drop_chan p s) s' \<Longrightarrow> P s'"
  shows "returns (rfcomm_channel_finalize p s) P"
  unfolding rfcomm_channel_finalize_def Let_def drop_chan_def [symmetric]
  using assms by (auto intro!: wp simp: keeps_chans_def)

lemma returns_final_event [wp]:
  assumes "rf_ok s" "p \<in> set (rfcomm_channels s)" "\<And>s'. only_calls s s' \<Longrightarrow> P s'"
  shows "returns (rfcomm_channel_emit_final_event L p status s) P"
  unfolding rfcomm_channel_emit_final_event_def
proof (rule wp, rule wp)
  fix c assume "channel_mem s p = Some c"
  show "returns (case ch_state c of
       RFCOMM_CHANNEL_OPEN \<Rightarrow> rfcomm_emit_channel_closed p s
     | RFCOMM_CHANNEL_W4_UA_AFTER_DISC \<Rightarrow> rfcomm_emit_channel_closed p s
     | RFCOMM_CHANNEL_SEND_UA_AFTER_DISC \<Rightarrow> Ret s
     | _ \<Rightarrow> rfcomm_emit_channel_opened L p status s) P"
    using assms by (cases "ch_state c") (auto intro!: wp simp: only_callsI)
qed (use assms in auto)

lemma returns_request_if_ready [wp]:
  assumes "rf_ok s" "m \<in> set (rfcomm_multiplexers s)" "valid \<Longrightarrow> p \<in> set (rfcomm_channels s)"
    "\<And>s'. only_calls s s' \<Longrightarrow> P s'"
  shows "returns (request_if_ready m p (s, valid)) P"
  unfolding request_if_ready_def using assms by (auto intro!: wp simp: only_callsI)

lemma keeps_chan_flags [simp]:
  "keeps_chan s p (rfcomm_channel_state_add f c) = keeps_chan s p c" "keeps_chan s p (rfcomm_channel_state_remove f c) = keeps_chan s p c"
  "keeps_chan s p (c\<lparr>ch_state := st\<rparr>) = keeps_chan s p c" "keeps_chan s p (c\<lparr>waiting_for_can_send_now := b\<rparr>) = keeps_chan s p c"
  "keeps_chan s p (c\<lparr>credits_incoming := n\<rparr>) = keeps_chan s p c" "keeps_chan s p (c\<lparr>credits_outgoing := n\<rparr>) = keeps_chan s p c"
  "keeps_chan s p (c\<lparr>new_credits_incoming := n\<rparr>) = keeps_chan s p c" "keeps_chan s p (c\<lparr>rls_line_status := n\<rparr>) = keeps_chan s p c"
  "keeps_chan s p (c\<lparr>rpn_data := d\<rparr>) = keeps_chan s p c" "keeps_chan s p (c\<lparr>credits_outgoing := n, ch_state := st\<rparr>) = keeps_chan s p c"
  by (simp_all add: keeps_chan_def chan_id_def rfcomm_channel_state_add_def rfcomm_channel_state_remove_def split: option.splits)

lemma keeps_chan_self [simp]: "channel_mem s p = Some c \<Longrightarrow> keeps_chan s p c"
  by (simp add: keeps_chan_def)

lemma keeps_chan_set [simp]: "keeps_chan (set_chan p c s) p c' \<longleftrightarrow> chan_id c' = chan_id c \<and> max_frame_size c' \<le> max_frame_size c"
  by (simp add: keeps_chan_def)

lemma chan_id_flags [simp]:
  "multiplexer (rfcomm_channel_state_add f c) = multiplexer c" "multiplexer (rfcomm_channel_state_remove f c) = multiplexer c"
  "max_frame_size (rfcomm_channel_state_add f c) = max_frame_size c" "max_frame_size (rfcomm_channel_state_remove f c) = max_frame_size c"
  "chan_id (rfcomm_channel_state_add f c) = chan_id c" "chan_id (rfcomm_channel_state_remove f c) = chan_id c"
  "chan_id (c\<lparr>ch_state := st\<rparr>) = chan_id c" "chan_id (c\<lparr>credits_incoming := n\<rparr>) = chan_id c"
  "chan_id (c\<lparr>credits_outgoing := n\<rparr>) = chan_id c" "chan_id (c\<lparr>new_credits_incoming := n\<rparr>) = chan_id c"
  "chan_id (c\<lparr>max_frame_size := f\<rparr>) = chan_id c"
  by (simp_all add: rfcomm_channel_state_add_def rfcomm_channel_state_remove_def chan_id_def)

lemma set_chan_twice [simp]: "set_chan p c' (set_chan p c s) = set_chan p c' s"
  by (simp add: set_chan_def)

lemma returns_notify_loop:
  assumes "rf_ok s" "set ps \<subseteq> set (rfcomm_channels s)" "\<And>s'. keeps s s' \<Longrightarrow> P s'"
  shows "returns (notify_loop L ps s) P"
  using assms
proof (induction ps arbitrary: s)
  case (Cons p ps)
  show ?case
    using Cons.prems
    by (auto intro!: wp Cons.IH dest!: stepD simp: keeps_def)
qed (simp add: keeps_def)

lemma returns_notify [wp]:
  assumes "rf_ok s" "\<And>s'. keeps s s' \<Longrightarrow> P s'"
  shows "returns (rfcomm_notify_channel_can_send L s) P"
  unfolding rfcomm_notify_channel_can_send_def using assms by (intro returns_notify_loop) auto

lemma returns_channel_send_credits [wp]:
  assumes "rf_ok s" "p \<in> set (rfcomm_channels s)" "\<And>s'. keeps s s' \<Longrightarrow> P s'"
  shows "returns (rfcomm_channel_send_credits L p n s) P"
  unfolding rfcomm_channel_send_credits_def
  using assms by (auto intro!: wp dest!: stepD simp: step_defs)

lemma returns_channel_opened [wp]:
  assumes "rf_ok s" "p \<in> set (rfcomm_channels s)" "\<And>s'. keeps s s' \<Longrightarrow> P s'"
  shows "returns (rfcomm_channel_opened L p s) P"
  unfolding rfcomm_channel_opened_def
  using assms by (auto intro!: wp dest!: stepD simp: step_defs)

subsection \<open>The state machine of a channel\<close>

lemma keeps_refl [simp]: "keeps s s \<longleftrightarrow> rf_ok s"
  by (simp add: keeps_def)

lemma keeps_drop:
  assumes "keeps (drop_chan p s') s''" "objs s' = objs s"
  shows "keeps (drop_chan p s) s''"
  using assms(1) drop_chan_objs [OF assms(2), of p] unfolding keeps_def by (simp only: simp_thms)

lemma limit_frame_size [simp]:
  "max_frame_size (limit_frame_size n c) \<le> max_frame_size c" "chan_id (limit_frame_size n c) = chan_id c"
  "multiplexer (limit_frame_size n c) = multiplexer c"
  by (simp_all add: limit_frame_size_def chan_id_def less_imp_le)

lemma accept_pn [simp]:
  "max_frame_size (rfcomm_channel_accept_pn mfs pr cr x c) \<le> max_frame_size c" "chan_id (rfcomm_channel_accept_pn mfs pr cr x c) = chan_id c"
proof -
  let ?c = "c\<lparr>pn_priority := pr, credits_outgoing := cr\<rparr>"
  have "max_frame_size (limit_frame_size mfs (limit_frame_size (mux_max_frame_size x) ?c)) \<le> max_frame_size ?c"
    using limit_frame_size(1) [of mfs "limit_frame_size (mux_max_frame_size x) ?c"] limit_frame_size(1) [of "mux_max_frame_size x" ?c]
    by (rule order_trans)
  then show "max_frame_size (rfcomm_channel_accept_pn mfs pr cr x c) \<le> max_frame_size c"
    by (simp add: rfcomm_channel_accept_pn_def)
  show "chan_id (rfcomm_channel_accept_pn mfs pr cr x c) = chan_id c"
    using limit_frame_size(2) by (simp add: rfcomm_channel_accept_pn_def) (simp add: chan_id_def)
qed

lemma keeps_chan_pn [simp]: "channel_mem s p = Some c \<Longrightarrow> keeps_chan s p (rfcomm_channel_accept_pn mfs pr cr x c)"
  by (simp add: keeps_chan_def)

lemma returns_sent [wp]: "returns r (\<lambda>(s', e). P (s', True)) \<Longrightarrow> returns (sent r) P"
  by (cases r) (simp_all add: sent_def split_def)

lemma returns_closed_event [wp]:
  assumes "rf_ok s" "p \<in> set (rfcomm_channels s)" "\<And>s'. keeps s s' \<Longrightarrow> P (s', True)"
  shows "returns (channel_closed_event p e s) P"
  unfolding channel_closed_event_def Let_def
  by (cases e) (use assms(1,2) in \<open>auto intro!: wp assms(3) keepsI dest!: stepD\<close>)

lemma returns_incoming_setup_event [wp]:
  assumes "rf_ok s" "p \<in> set (rfcomm_channels s)" "\<And>s'. keeps s s' \<Longrightarrow> P (s', True)"
  shows "returns (channel_incoming_setup_event L p e s) P"
  unfolding channel_incoming_setup_event_def Let_def
  by (cases e) (use assms(1,2) in \<open>auto intro!: wp assms(3) keepsI dest!: stepD\<close>)

lemma min_frame_size: "ucast (btstack_min (ucast a) (ucast (b :: u16)) :: u32) \<le> (b :: u16)" for a :: u16
proof -
  have "(ucast (ucast c :: u32) :: u16) = c" for c :: u16
    by (rule bit_word_eqI) (auto simp: bit_simps)
  moreover have "unat (ucast c :: u32) = unat c" for c :: u16
    by (simp add: unsigned_ucast_eq take_bit_nat_eq_self less_trans [OF unat_u16_less])
  ultimately show ?thesis by (auto simp: btstack_min_def word_le_nat_alt word_less_nat_alt)
qed

lemma returns_dlc_setup_event [wp]:
  assumes "rf_ok s" "p \<in> set (rfcomm_channels s)" "\<And>s'. keeps s s' \<Longrightarrow> P (s', True)"
  shows "returns (channel_dlc_setup_event L p e s) P"
  unfolding channel_dlc_setup_event_def Let_def
  by (cases e) (use assms(1,2) in \<open>auto intro!: wp assms(3) keepsI dest!: stepD\<close>)

lemma returns_open_event [wp]:
  assumes "rf_ok s" "p \<in> set (rfcomm_channels s)" "\<And>s'. keeps s s' \<Longrightarrow> P (s', True)"
  shows "returns (channel_open_event L p e s) P"
  unfolding channel_open_event_def Let_def
  by (cases e) (use assms(1,2) in \<open>auto intro!: wp assms(3) keepsI dest!: stepD\<close>)

lemma returns_outgoing_event [wp]:
  assumes "rf_ok s" "p \<in> set (rfcomm_channels s)" "\<And>s'. keeps s s' \<Longrightarrow> P (s', True)"
  shows "returns (channel_outgoing_event L p e s) P"
proof -
  have P: "P (s, True)" by (rule assms(3)) (simp add: assms(1))
  have pn: "keeps_chan s p (c\<lparr>max_frame_size := ucast (btstack_min (ucast a) (ucast (max_frame_size c)) :: u32)\<rparr>)"
    if "channel_mem s p = Some c" for c and a :: u16
    using that min_frame_size by (simp add: keeps_chan_def chan_id_def)
  have rsp: "keeps_chan s p (limit_frame_size mfs c)" if "channel_mem s p = Some c" for c mfs
    using that by (simp add: keeps_chan_def)
  show ?thesis
    unfolding channel_outgoing_event_def Let_def
  proof (rule wp, rule wp, rule assms(1), rule assms(2), rule wp, rule wp, rule assms(1))
    fix c x assume c: "channel_mem s p = Some c" "multiplexer c \<in> set (rfcomm_multiplexers s)"
    show "multiplexer c \<in> set (rfcomm_multiplexers s)" by fact
    show "returns (case (ch_state c, e) of
       (RFCOMM_CHANNEL_W4_MULTIPLEXER, CH_EVT_MULTIPLEXER_READY) \<Rightarrow>
         Ret (set_chan p (c\<lparr>ch_state := RFCOMM_CHANNEL_SEND_UIH_PN\<rparr>) s, True)
     | (RFCOMM_CHANNEL_SEND_UIH_PN, CH_EVT_READY_TO_SEND) \<Rightarrow>
         sent (rfcomm_send_uih_pn_command L (multiplexer (c\<lparr>max_frame_size := ucast (btstack_min (ucast (mux_max_frame_size x)) (ucast (max_frame_size c))),
                   ch_state := RFCOMM_CHANNEL_W4_PN_RSP\<rparr>)) (dlci (c\<lparr>max_frame_size := ucast (btstack_min (ucast (mux_max_frame_size x)) (ucast (max_frame_size c))),
                   ch_state := RFCOMM_CHANNEL_W4_PN_RSP\<rparr>)) (max_frame_size (c\<lparr>max_frame_size := ucast (btstack_min (ucast (mux_max_frame_size x)) (ucast (max_frame_size c))),
                   ch_state := RFCOMM_CHANNEL_W4_PN_RSP\<rparr>)) (set_chan p (c\<lparr>max_frame_size := ucast (btstack_min (ucast (mux_max_frame_size x)) (ucast (max_frame_size c))),
                   ch_state := RFCOMM_CHANNEL_W4_PN_RSP\<rparr>) s))
     | (RFCOMM_CHANNEL_W4_PN_RSP, CH_EVT_RCVD_PN_RSP mfs priority credits) \<Rightarrow>
         Ret (set_chan p (limit_frame_size mfs c\<lparr>credits_outgoing := credits, ch_state := RFCOMM_CHANNEL_SEND_SABM_W4_UA\<rparr>) s, True)
     | (RFCOMM_CHANNEL_SEND_SABM_W4_UA, CH_EVT_READY_TO_SEND) \<Rightarrow>
         sent (rfcomm_send_sabm L (multiplexer c) (dlci c) (set_chan p (c\<lparr>ch_state := RFCOMM_CHANNEL_W4_UA\<rparr>) s))
     | (RFCOMM_CHANNEL_W4_UA, CH_EVT_RCVD_UA) \<Rightarrow>
         Ret (set_chan p (rfcomm_channel_state_add SEND_CREDITS (rfcomm_channel_state_add SEND_MSC_CMD
           (c\<lparr>ch_state := RFCOMM_CHANNEL_DLC_SETUP\<rparr>))) s, True)
     | _ \<Rightarrow> Ret (s, True)) P"
      using c assms(1,2) P by (cases "ch_state c"; cases e) (auto intro!: wp assms(3) keepsI dest!: stepD simp: pn rsp)
  qed
qed

lemma returns_closing_event [wp]:
  assumes "rf_ok s" "p \<in> set (rfcomm_channels s)" "\<And>s'. keeps s s' \<Longrightarrow> P (s', True)"
    "\<And>s'. keeps (drop_chan p s) s' \<Longrightarrow> P (s', False)"
  shows "returns (channel_closing_event L p e s) P"
proof -
  have P: "P (s, True)" by (rule assms(3)) (simp add: assms(1))
  have gone: "P (s'', False)" if "keeps (drop_chan p s') s''" "objs s' = objs s" for s' s''
    by (rule assms(4), rule keeps_drop [OF that])
  let ?fin = "\<lambda>s. bind_outcome (rfcomm_channel_finalize p s) (\<lambda>s. Ret (s, False))"
  show ?thesis
    unfolding channel_closing_event_def Let_def
  proof (rule wp, rule wp, rule assms(1), rule assms(2))
    fix c assume c: "channel_mem s p = Some c" "multiplexer c \<in> set (rfcomm_multiplexers s)"
    let ?closed = "set_chan p (c\<lparr>ch_state := RFCOMM_CHANNEL_CLOSED\<rparr>) s"
    show "returns (case (ch_state c, e) of
         (RFCOMM_CHANNEL_SEND_DM, CH_EVT_READY_TO_SEND) \<Rightarrow>
           bind_outcome (rfcomm_send_dm_pf L (multiplexer c) (dlci c) ?closed) (\<lambda>(s, err). ?fin s)
       | (RFCOMM_CHANNEL_SEND_DISC, CH_EVT_READY_TO_SEND) \<Rightarrow>
           sent (rfcomm_send_disc L (multiplexer c) (dlci c) (set_chan p (c\<lparr>ch_state := RFCOMM_CHANNEL_W4_UA_AFTER_DISC\<rparr>) s))
       | (RFCOMM_CHANNEL_W4_UA_AFTER_DISC, CH_EVT_RCVD_UA) \<Rightarrow>
           bind_outcome (rfcomm_emit_channel_closed p ?closed) ?fin
       | (RFCOMM_CHANNEL_SEND_UA_AFTER_DISC, CH_EVT_READY_TO_SEND) \<Rightarrow>
           bind_outcome (rfcomm_send_ua L (multiplexer c) (dlci c) ?closed) (\<lambda>(s, err). ?fin s)
       | _ \<Rightarrow> Ret (s, True)) P"
      using c assms(1,2) P
      by (cases "ch_state c"; cases e) (auto intro!: wp assms(3) keepsI dest!: only_callsD elim!: gone dest: keepsD)
  qed
qed

lemma returns_state_switch [wp]:
  assumes "rf_ok s" "p \<in> set (rfcomm_channels s)" "\<And>s'. keeps s s' \<Longrightarrow> P (s', True)"
    "\<And>s'. keeps (drop_chan p s) s' \<Longrightarrow> P (s', False)"
  shows "returns (channel_state_switch L p e s) P"
  unfolding channel_state_switch_def
proof (rule wp, rule wp, rule assms(1), rule assms(2))
  fix c
  have P: "P (s, True)" by (rule assms(3)) (simp add: assms(1))
  show "returns (case ch_state c of
       RFCOMM_CHANNEL_CLOSED \<Rightarrow> channel_closed_event p e s
     | RFCOMM_CHANNEL_INCOMING_SETUP \<Rightarrow> channel_incoming_setup_event L p e s
     | RFCOMM_CHANNEL_DLC_SETUP \<Rightarrow> channel_dlc_setup_event L p e s
     | RFCOMM_CHANNEL_OPEN \<Rightarrow> channel_open_event L p e s
     | RFCOMM_CHANNEL_SEND_DM \<Rightarrow> channel_closing_event L p e s
     | RFCOMM_CHANNEL_SEND_DISC \<Rightarrow> channel_closing_event L p e s
     | RFCOMM_CHANNEL_W4_UA_AFTER_DISC \<Rightarrow> channel_closing_event L p e s
     | RFCOMM_CHANNEL_SEND_UA_AFTER_DISC \<Rightarrow> channel_closing_event L p e s
     | RFCOMM_CHANNEL_EMIT_OPEN_FAILED_AND_DISCARD \<Rightarrow> Ret (s, True)
     | _ \<Rightarrow> channel_outgoing_event L p e s) P"
    by (cases "ch_state c") (auto intro!: wp P assms)
qed

lemma returns_state_machine [wp]:
  assumes "rf_ok s" "p \<in> set (rfcomm_channels s)" "\<And>s'. keeps s s' \<Longrightarrow> P (s', True)"
    "\<And>s'. keeps (drop_chan p s) s' \<Longrightarrow> P (s', False)"
  shows "returns (rfcomm_channel_state_machine_with_channel L p e s) P"
proof -
  have gone: "P (s'', False)" if "keeps (drop_chan p s') s''" "objs s' = objs s" for s' s''
    by (rule assms(4), rule keeps_drop [OF that])
  have valid: "P (s'', True)" if "keeps s' s''" "objs s' = objs s" for s' s''
    using that by (intro assms(3)) (simp add: keeps_def)
  show ?thesis
    unfolding rfcomm_channel_state_machine_with_channel_def
    by (rule wp, rule wp, rule assms(1), rule assms(2), cases e)
       (use assms(1,2) in \<open>auto intro!: wp assms(3) keepsI dest!: only_callsD elim!: gone valid dest: keepsD\<close>)
qed

subsection \<open>Creating channels\<close>

text \<open>The search for an identifier: \<open>k\<close> tries suffice when there are fewer than \<open>k\<close> channels.\<close>

definition cids :: "rfcomm \<Rightarrow> u16 set" where
  "cids s = {rfcomm_cid c | p c. channel_mem s p = Some c}"

lemma for_cid_None:
  assumes "rf_ok s"
  shows "rfcomm_channel_for_rfcomm_cid s cid = Ret None \<longleftrightarrow> cid \<notin> cids s"
proof -
  have "returns (rfcomm_channel_for_rfcomm_cid s cid) (\<lambda>r. (r = None) = (cid \<notin> cids s))"
    unfolding rfcomm_channel_for_rfcomm_cid_def
  proof (rule wp)
    fix p assume p: "p \<in> set (rfcomm_channels s)"
    show "returns (bind_outcome (chan s p) (\<lambda>c. Ret (rfcomm_cid c = cid))) (\<lambda>_. True)" using assms p by (auto intro!: wp)
    show "(Some p = None) = (cid \<notin> cids s)" if "bind_outcome (chan s p) (\<lambda>c. Ret (rfcomm_cid c = cid)) = Ret True"
      using that by (auto simp: chan_def cids_def split: option.splits)
  next
    assume "\<forall>p \<in> set (rfcomm_channels s). bind_outcome (chan s p) (\<lambda>c. Ret (rfcomm_cid c = cid)) = Ret False"
    then show "(None = None) = (cid \<notin> cids s)" using rf_ok_chan(1) [OF assms] by (fastforce simp: chan_def cids_def)
  qed
  then show ?thesis by (auto elim: returnsE)
qed

definition nth_cid :: "nat \<Rightarrow> u16" where
  "nth_cid j = of_nat (j mod 65535 + 1)"

lemma unat_nth_cid: "unat (nth_cid j) = j mod 65535 + 1"
proof -
  have "j mod 65535 < 65535" by simp
  then show ?thesis unfolding nth_cid_def by (subst unat_u16) linarith+
qed

lemma next_nth_cid: "(if nth_cid j = 0xFFFF then 1 else nth_cid j + 1) = nth_cid (Suc j)"
proof (cases "j mod 65535 = 65534")
  case True
  then have "nth_cid j = 0xFFFF" by (simp add: word_unat_eq_iff unat_nth_cid)
  moreover have "Suc j mod 65535 = 0" using True by (simp add: mod_Suc)
  ultimately show ?thesis by (simp add: nth_cid_def)
next
  case False
  then have "nth_cid j \<noteq> 0xFFFF" by (simp add: word_unat_eq_iff unat_nth_cid)
  moreover have "Suc j mod 65535 = Suc (j mod 65535)" using False by (simp add: mod_Suc)
  ultimately show ?thesis by (simp add: nth_cid_def)
qed

lemma ex_free_cid:
  assumes "rf_ok s" "length (rfcomm_channels s) < 65535"
  shows "\<exists>i < 65535. nth_cid (j + i) \<notin> cids s"
proof (rule ccontr)
  assume "\<not> ?thesis"
  then have sub: "(\<lambda>i. nth_cid (j + i)) ` {..<65535} \<subseteq> cids s" by auto
  have "inj_on (\<lambda>i. nth_cid (j + i)) {..<65535}"
  proof (rule inj_onI)
    fix a b :: nat assume ab: "a \<in> {..<65535}" "b \<in> {..<65535}" "nth_cid (j + a) = nth_cid (j + b)"
    then have "(j + a) mod 65535 = (j + b) mod 65535" using unat_nth_cid [of "j + a"] unat_nth_cid [of "j + b"] by simp
    then have "int (j + a) mod 65535 = int (j + b) mod 65535" using zmod_int [of "j + a" 65535] zmod_int [of "j + b" 65535] by (simp del: of_nat_add)
    then have "65535 dvd int a - int b" by (simp add: mod_eq_dvd_iff)
    moreover have "\<bar>int a - int b\<bar> < 65535" using ab by auto
    ultimately have "int a - int b = 0" using dvd_imp_le_int [of "int a - int b" 65535] by linarith
    then show "a = b" by simp
  qed
  then have "card ((\<lambda>i. nth_cid (j + i)) ` {..<65535}) = 65535" by (simp add: card_image)
  moreover have fin: "finite (cids s)" and "card (cids s) \<le> length (rfcomm_channels s)"
  proof -
    have "cids s = (\<lambda>p. rfcomm_cid (the (channel_mem s p))) ` set (rfcomm_channels s)"
      using assms(1) by (force simp: cids_def rf_ok_def dom_def image_iff)
    then show "finite (cids s)" "card (cids s) \<le> length (rfcomm_channels s)"
      using card_image_le [of "set (rfcomm_channels s)"] card_length [of "rfcomm_channels s"] by (force intro: order_trans)+
  qed
  ultimately show False using card_mono [OF fin sub] assms(2) by linarith
qed

lemma cids_generator [simp]: "cids (s\<lparr>rfcomm_client_cid_generator := g\<rparr>) = cids s"
  by (simp add: cids_def)

lemma generator_ok [simp]:
  "rf_ok (s\<lparr>rfcomm_client_cid_generator := g\<rparr>) = rf_ok s" "objs (s\<lparr>rfcomm_client_cid_generator := g\<rparr>) = objs s"
  by (simp_all add: rf_ok_def objs_def chan_fits_def mux_fits_def)

lemma next_cid_loop:
  assumes "rf_ok s" "i < n" "nth_cid (j + i) \<notin> cids s"
    and "(if rfcomm_client_cid_generator s = 0xFFFF then 1 else rfcomm_client_cid_generator s + 1) = nth_cid j"
  shows "\<exists>k. next_client_cid_loop n s = Ret (s\<lparr>rfcomm_client_cid_generator := nth_cid k\<rparr>, nth_cid k) \<and> nth_cid k \<notin> cids s"
  using assms
proof (induction n arbitrary: s i j)
  case (Suc n)
  let ?s = "s\<lparr>rfcomm_client_cid_generator := nth_cid j\<rparr>"
  have ok: "rf_ok ?s" using Suc.prems(1) by simp
  show ?case
  proof (cases "nth_cid j \<in> cids s")
    case False
    then have "rfcomm_channel_for_rfcomm_cid ?s (nth_cid j) = Ret None" using for_cid_None [OF ok] by simp
    then show ?thesis using False Suc.prems(4) by (auto simp: Let_def)
  next
    case True
    then obtain p where p: "rfcomm_channel_for_rfcomm_cid ?s (nth_cid j) = Ret (Some p)"
    proof -
      have "returns (rfcomm_channel_for_rfcomm_cid ?s (nth_cid j)) (\<lambda>_. True)"
        unfolding rfcomm_channel_for_rfcomm_cid_def using ok by (auto intro!: wp)
      then show thesis using that True for_cid_None [OF ok, of "nth_cid j"] by (auto elim!: returnsE)
    qed
    have "i \<noteq> 0" using True Suc.prems(3) by (cases i) auto
    then have i: "i - 1 < n" "nth_cid (Suc j + (i - 1)) \<notin> cids ?s" using Suc.prems(2,3) by simp_all
    have gen: "rfcomm_client_cid_generator ?s = nth_cid j" by simp
    from Suc.IH [OF ok i, unfolded gen, OF next_nth_cid] obtain k where
      "next_client_cid_loop n ?s = Ret (?s\<lparr>rfcomm_client_cid_generator := nth_cid k\<rparr>, nth_cid k)" "nth_cid k \<notin> cids ?s"
      by blast
    then show ?thesis using p Suc.prems(4) by (auto simp: Let_def)
  qed
qed simp

lemma start_cid: "\<exists>j. (if g = 0xFFFF then 1 else g + 1 :: u16) = nth_cid j"
proof (cases "g = 0xFFFF")
  case True
  then show ?thesis by (intro exI [of _ 0]) (simp add: nth_cid_def)
next
  case False
  have "unat g < 65536" by simp
  moreover have "unat g \<noteq> 65535" using False by (simp add: word_unat_eq_iff)
  ultimately have "unat g < 65535" by linarith
  then have "unat g mod 65535 = unat g" by simp
  then have "nth_cid (unat g) = g + 1" by (simp add: nth_cid_def)
  then show ?thesis using False by metis
qed

lemma returns_next_cid [wp]:
  assumes "rf_ok s" "length (rfcomm_channels s) < 65535"
    and "\<And>cid. cid \<noteq> 0 \<Longrightarrow> cid \<notin> cids s \<Longrightarrow> P (s\<lparr>rfcomm_client_cid_generator := cid\<rparr>, cid)"
  shows "returns (rfcomm_next_client_cid s) P"
proof -
  obtain j where j: "(if rfcomm_client_cid_generator s = 0xFFFF then 1 else rfcomm_client_cid_generator s + 1) = nth_cid j"
    using start_cid by blast
  obtain i where "i < 65535" "nth_cid (j + i) \<notin> cids s" using ex_free_cid [OF assms(1,2)] by blast
  from next_cid_loop [OF assms(1) this j] obtain k where
    k: "next_client_cid_loop 65535 s = Ret (s\<lparr>rfcomm_client_cid_generator := nth_cid k\<rparr>, nth_cid k)" "nth_cid k \<notin> cids s" by blast
  have "nth_cid k \<noteq> 0" using unat_nth_cid [of k] by (auto simp: word_unat_eq_iff)
  then show ?thesis using k assms(3) by (simp add: rfcomm_next_client_cid_def)
qed

end
