(* ===== verification/RfcommSafe.thy ===== *)
theory RfcommSafe
  imports RfcommInv
begin

text \<open>
  Every packet, event, timer and call of an application keeps the invariant of RFCOMM and never
  leaves the defined part of C, as long as allocators return new objects, the creation of an L2CAP
  channel does not fail, and packets are complete.
\<close>

subsection \<open>New channels\<close>

lemma rf_ok_muxes:
  "rf_ok s \<Longrightarrow> dom (mux_mem s) = set (rfcomm_multiplexers s)" "rf_ok s \<Longrightarrow> dom (channel_mem s) = set (rfcomm_channels s)"
  unfolding rf_ok_def by blast+

lemma rf_ok_lists: "rf_ok s \<Longrightarrow> distinct (rfcomm_channels s)" "rf_ok s \<Longrightarrow> distinct (rfcomm_multiplexers s)"
  unfolding rf_ok_def by blast+

lemma rf_ok_inj:
  assumes "rf_ok s" "channel_mem s p = Some c" "channel_mem s q = Some d" "rfcomm_cid c = rfcomm_cid d"
  shows "p = q"
  using assms unfolding rf_ok_def by blast

lemma cidsI: "channel_mem s p = Some c \<Longrightarrow> rfcomm_cid c \<in> cids s"
  by (auto simp: cids_def)

lemma new_chan_ok:
  assumes "rf_ok s" "p \<notin> set (rfcomm_channels s)" "multiplexer c \<in> set (rfcomm_multiplexers s)" "rfcomm_cid c \<noteq> 0"
    "rfcomm_cid c \<notin> cids s" "chan_fits s c"
  shows "rf_ok ((set_chan p c s)\<lparr>rfcomm_channels := p # rfcomm_channels s\<rparr>)"
  unfolding rf_ok_def
proof (intro conjI allI impI)
  let ?s = "(set_chan p c s)\<lparr>rfcomm_channels := p # rfcomm_channels s\<rparr>"
  show "set (rfcomm_channels ?s) = dom (channel_mem ?s)" using rf_ok_muxes(2) [OF assms(1)] by simp
  show "mux_fits ?s y" if "mux_mem ?s m = Some y" for m y
    using rf_ok_mux(2) [OF assms(1)] that by (simp add: mux_fits_def)
  fix q d assume q: "channel_mem ?s q = Some d"
  show "multiplexer d \<in> dom (mux_mem ?s)" "rfcomm_cid d \<noteq> 0" "chan_fits ?s d"
    using q assms(3,4,6) rf_ok_chan [OF assms(1), of q d] rf_ok_muxes(1) [OF assms(1)]
    by (simp_all add: chan_fits_def split: if_splits)
  fix q' d' assume q': "channel_mem ?s q' = Some d'" and eq: "rfcomm_cid d = rfcomm_cid d'"
  have old: "channel_mem s r = Some e \<and> rfcomm_cid e \<noteq> rfcomm_cid c \<or> r = p \<and> e = c" if "channel_mem ?s r = Some e" for r e
    using that assms(5) cidsI [of s r e] by (auto split: if_splits)
  from old [OF q] old [OF q'] show "q = q'" using eq rf_ok_inj [OF assms(1)] by metis
qed (use assms(2) rf_ok_lists [OF assms(1)] rf_ok_buffer [OF assms(1)] rf_ok_muxes(1) [OF assms(1)] in simp_all)

definition created :: "nat \<Rightarrow> rfcomm \<Rightarrow> rfcomm \<Rightarrow> bool" where
  "created p s s' \<longleftrightarrow> rf_ok s' \<and> rfcomm_channels s' = p # rfcomm_channels s \<and> rfcomm_multiplexers s' = rfcomm_multiplexers s \<and>
     mux_mem s' = mux_mem s \<and> rfcomm_services s' = rfcomm_services s \<and> length (out_buffer s') = length (out_buffer s) \<and>
     (\<forall>c. channel_mem s' p = Some c \<longrightarrow> multiplexer c \<in> set (rfcomm_multiplexers s'))"

lemma returns_create [wp]:
  assumes "rf_ok s" "m \<in> set (rfcomm_multiplexers s)" "length (rfcomm_channels s) < 65535"
    and "\<And>p. pointer = Some p \<Longrightarrow> p \<notin> set (rfcomm_channels s)"
    and "pointer = None \<Longrightarrow> P (s, None)"
    and "\<And>p s'. pointer = Some p \<Longrightarrow> created p s s' \<Longrightarrow> P (s', Some p)"
  shows "returns (rfcomm_channel_create pointer m srv channel s) P"
proof (cases pointer)
  case None
  then show ?thesis using assms(5) by (simp add: rfcomm_channel_create_def)
next
  case (Some p)
  note fresh = assms(4) [OF Some] and P = assms(6) [OF Some]
  obtain x where x: "mux_mem s m = Some x" using assms(1,2) by (auto simp: rf_ok_def)
  have new: "created p s ((set_chan p c (s\<lparr>rfcomm_client_cid_generator := cid\<rparr>))\<lparr>rfcomm_channels := p # rfcomm_channels s\<rparr>)"
    if "multiplexer c = m" "rfcomm_cid c = cid" "max_frame_size c \<le> mux_max_frame_size x" "cid \<noteq> 0" "cid \<notin> cids s" for c cid
  proof -
    let ?s = "s\<lparr>rfcomm_client_cid_generator := cid\<rparr>"
    have "chan_fits ?s c"
      using rf_ok_mux(2) [OF assms(1) x] that(3) by (simp add: chan_fits_def mux_fits_def word_le_nat_alt)
    then have "rf_ok ((set_chan p c ?s)\<lparr>rfcomm_channels := p # rfcomm_channels ?s\<rparr>)"
      using that assms(1,2) fresh by (intro new_chan_ok) simp_all
    then show ?thesis using that(1) assms(2) by (simp add: created_def)
  qed
  show ?thesis
    unfolding rfcomm_channel_create_def rfcomm_channel_initialize_def Some Let_def
    using assms(1-3) x
    by (cases srv) (auto intro!: wp P new assms(1-3) simp: mux_def less_imp_le)
qed

subsection \<open>Removing channels\<close>

text \<open>What is left when channels have gone: the others keep what they belong to.\<close>

definition shrinks :: "rfcomm \<Rightarrow> rfcomm \<Rightarrow> bool" where
  "shrinks s s' \<longleftrightarrow> rf_ok s' \<and> rfcomm_multiplexers s' = rfcomm_multiplexers s \<and> length (out_buffer s') = length (out_buffer s) \<and>
     (\<forall>p c. channel_mem s' p = Some c \<longrightarrow> (\<exists>d. channel_mem s p = Some d \<and> chan_id d = chan_id c))"

lemma shrinksD:
  "shrinks s s' \<Longrightarrow> rf_ok s' \<and> rfcomm_multiplexers s' = rfcomm_multiplexers s \<and> length (out_buffer s') = length (out_buffer s)"
  by (simp add: shrinks_def)

lemma keeps_old:
  assumes "keeps s s'" "channel_mem s' p = Some c"
  shows "\<exists>d. channel_mem s p = Some d \<and> chan_id d = chan_id c"
  using assms objsD(5) [of s' s p] by (cases "channel_mem s p") (simp_all add: keeps_def)

lemma keeps_shrinks: "keeps s s' \<Longrightarrow> shrinks s s'"
  using keeps_old keepsD unfolding shrinks_def by blast

lemma drop_shrinks: "keeps (drop_chan p s) s' \<Longrightarrow> shrinks s s'"
  using keeps_old [of "drop_chan p s" s'] keepsD [of "drop_chan p s" s'] unfolding shrinks_def
  by (fastforce split: if_splits)

lemma shrinks_trans: "shrinks s s' \<Longrightarrow> shrinks s' s'' \<Longrightarrow> shrinks s s''"
  unfolding shrinks_def by metis

lemma free_mux_buffer [simp]: "out_buffer (rfcomm_multiplexer_free m s) = out_buffer s"
  by (simp add: rfcomm_multiplexer_free_def mux_free_def)

lemma shrinks_refl [simp]: "shrinks s s \<longleftrightarrow> rf_ok s"
  unfolding shrinks_def by blast

lemma drop_keeps_chans:
  assumes "keeps (drop_chan p s) s'" "rf_ok s"
  shows "set (rfcomm_channels s') = set (rfcomm_channels s) - {p}" "rfcomm_multiplexers s' = rfcomm_multiplexers s" "rf_ok s'"
  using keepsD [OF assms(1)] rf_ok_lists(1) [OF assms(2)] by simp_all

lemma shrinks_no_chan:
  assumes "shrinks s s'" "\<forall>p c. channel_mem s p = Some c \<longrightarrow> multiplexer c \<noteq> m"
  shows "\<forall>p c. channel_mem s' p = Some c \<longrightarrow> multiplexer c \<noteq> m"
proof (intro allI impI)
  fix p c assume c: "channel_mem s' p = Some c"
  then obtain d where "channel_mem s p = Some d" "chan_id d = chan_id c" using assms(1) unfolding shrinks_def by blast
  then show "multiplexer c \<noteq> m" using assms(2) by (auto simp: chan_id_def)
qed

text \<open>A multiplexer without channels can be freed.\<close>

lemma free_mux_ok:
  assumes "rf_ok s" "\<forall>p c. channel_mem s p = Some c \<longrightarrow> multiplexer c \<noteq> m"
  shows "rf_ok (rfcomm_multiplexer_free m s)"
  unfolding rf_ok_def
proof (intro conjI allI impI)
  let ?s = "rfcomm_multiplexer_free m s"
  have eqs: "channel_mem ?s = channel_mem s" "mux_mem ?s = (mux_mem s)(m := None)" "out_buffer ?s = out_buffer s"
    "rfcomm_channels ?s = rfcomm_channels s" "rfcomm_multiplexers ?s = remove1 m (rfcomm_multiplexers s)"
    by (simp_all add: rfcomm_multiplexer_free_def mux_free_def)
  note lists = rf_ok_lists [OF assms(1)] rf_ok_muxes [OF assms(1)]
  show "distinct (rfcomm_channels ?s)" "distinct (rfcomm_multiplexers ?s)" "set (rfcomm_channels ?s) = dom (channel_mem ?s)"
    "set (rfcomm_multiplexers ?s) = dom (mux_mem ?s)" "16 \<le> length (out_buffer ?s)" "length (out_buffer ?s) < 65536"
    using lists rf_ok_buffer [OF assms(1)] by (simp_all add: eqs)
  show "mux_fits ?s y" if "mux_mem ?s n = Some y" for n y
    using rf_ok_mux(2) [OF assms(1), of n y] that by (simp add: mux_fits_def eqs split: if_splits)
  show "multiplexer c \<in> dom (mux_mem ?s)" "rfcomm_cid c \<noteq> 0" "chan_fits ?s c" if "channel_mem ?s p = Some c" for p c
    using rf_ok_chan [OF assms(1), of p c] that assms(2) lists(3) by (auto simp: chan_fits_def eqs)
  show "p = q" if "channel_mem ?s p = Some c" "channel_mem ?s q = Some d" "rfcomm_cid c = rfcomm_cid d" for p q c d
    using rf_ok_inj [OF assms(1)] that unfolding eqs by blast
qed

subsection \<open>Multiplexers\<close>

lemma returns_finalize_channels:
  assumes "rf_ok s" "set ps \<subseteq> set (rfcomm_channels s)" "distinct ps"
    and "\<And>p c. channel_mem s p = Some c \<Longrightarrow> multiplexer c = m \<Longrightarrow> p \<in> set ps"
    and "\<And>s'. shrinks s s' \<Longrightarrow> \<forall>p c. channel_mem s' p = Some c \<longrightarrow> multiplexer c \<noteq> m \<Longrightarrow> P s'"
  shows "returns (finalize_channels L m ps s) P"
  using assms
proof (induction ps arbitrary: s)
  case Nil
  have "P s" by (rule Nil(5)) (use Nil(1,4) in auto)
  then show ?case by simp
next
  case (Cons p ps)
  obtain c where c: "channel_mem s p = Some c" using Cons.prems(1,2) by (auto simp: rf_ok_def)
  note [simp] = drop_chan_def [symmetric]
  show ?case
  proof (cases "multiplexer c = m")
    case True
    have "returns (finalize_channels L m ps (drop_chan p s')) P" if s': "only_calls s s'" for s'
    proof (rule Cons.IH)
      note eq = only_callsD [OF s']
      show "rf_ok (drop_chan p s')" "distinct ps" "set ps \<subseteq> set (rfcomm_channels (drop_chan p s'))"
        using eq rf_ok_lists(1) [OF Cons.prems(1)] Cons.prems(2,3) by auto
      show "q \<in> set ps" if "channel_mem (drop_chan p s') q = Some d" "multiplexer d = m" for q d
        using Cons.prems(4) [of q d] that eq by (auto split: if_splits)
      show "P s''" if "shrinks (drop_chan p s') s''" "\<forall>p c. channel_mem s'' p = Some c \<longrightarrow> multiplexer c \<noteq> m" for s''
        using shrinks_trans [OF drop_shrinks [of p s] that(1)] eq drop_chan_objs [of s' s p] that(2)
        by (intro Cons.prems(5)) (auto simp: keeps_def)
    qed
    then show ?thesis using c True Cons.prems(1,2) by (auto intro!: wp simp: chan_def)
  next
    case False
    have "q \<in> set ps" if "channel_mem s q = Some d" "multiplexer d = m" for q d
      using Cons.prems(4) [OF that] that c False by auto
    then have "returns (finalize_channels L m ps s) P"
      using Cons.prems(1-3,5) by (intro Cons.IH) simp_all
    then show ?thesis using c False by (simp add: chan_def)
  qed
qed

lemma returns_mux_finalize [wp]:
  assumes "rf_ok s" "m \<in> set (rfcomm_multiplexers s)" "\<And>s'. rf_ok s' \<Longrightarrow> length (out_buffer s') = length (out_buffer s) \<Longrightarrow> P s'"
  shows "returns (rfcomm_multiplexer_finalize L m s) P"
proof -
  have "returns (finalize_channels L m cs s') (\<lambda>s. P (rfcomm_multiplexer_free m s))"
    if "rf_ok s'" "rfcomm_channels s' = cs" "length (out_buffer s') = length (out_buffer s)" for s' cs
    using that rf_ok_chan(1) [OF that(1)] rf_ok_lists(1) [OF that(1)]
    by (intro returns_finalize_channels) (auto intro!: assms(3) free_mux_ok dest: shrinksD)
  then show ?thesis
    unfolding rfcomm_multiplexer_finalize_def using assms(1,2) by (auto intro!: wp dest!: stepD)
qed

lemma returns_mux_timer [wp]:
  assumes "rf_ok s" "m \<in> set (rfcomm_multiplexers s)" "\<And>s'. rf_ok s' \<Longrightarrow> length (out_buffer s') = length (out_buffer s) \<Longrightarrow> P s'"
  shows "returns (rfcomm_multiplexer_timer_handler L m s) P"
  unfolding rfcomm_multiplexer_timer_handler_def using assms by (auto intro!: wp)


lemma returns_opened_loop:
  assumes "rf_ok s" "m \<in> set (rfcomm_multiplexers s)" "set ps \<subseteq> set (rfcomm_channels s)" "distinct ps" "\<And>s'. shrinks s s' \<Longrightarrow> P s'"
  shows "returns (opened_loop L m ps s) P"
  using assms
proof (induction ps arbitrary: s)
  case Nil
  then show ?case by simp
next
  case (Cons p ps)
  have rest: "returns (opened_loop L m ps s'') P"
    if s'': "shrinks s s'" "keeps s' s''" "set ps \<subseteq> set (rfcomm_channels s')" for s' s''
    using Cons.prems(2,4) s'' keepsD [OF s''(2)] shrinksD [OF s''(1)]
    by (intro Cons.IH) (auto intro!: Cons.prems(5) elim: shrinks_trans dest!: keeps_shrinks)
  have same: "returns (opened_loop L m ps s) P"
    using Cons.prems(1,3) by (intro rest [of s]) auto
  have dropped: "set ps \<subseteq> set (rfcomm_channels s')" if "keeps (drop_chan p s) s'" for s'
    using drop_keeps_chans(1) [OF that Cons.prems(1)] Cons.prems(3,4) by auto
  obtain c where c: "channel_mem s p = Some c" using Cons.prems(1,3) by (auto simp: rf_ok_def)
  show ?case
  proof (cases "multiplexer c = m")
    case True
    have ready: "returns (request_if_ready m p (s', b)) (\<lambda>s'. returns (opened_loop L m ps s') P)"
      if "shrinks s s'" "set ps \<subseteq> set (rfcomm_channels s')" "b \<Longrightarrow> p \<in> set (rfcomm_channels s')" for s' b
      using that Cons.prems(2) shrinksD [OF that(1)] by (auto intro!: wp rest [OF that(1)] dest: only_calls_keeps)
    have "returns (rfcomm_channel_state_machine_with_channel L p CH_EVT_MULTIPLEXER_READY s)
        (\<lambda>r. returns (request_if_ready m p r) (\<lambda>s'. returns (opened_loop L m ps s') P))"
    proof (rule returns_state_machine)
      show "returns (request_if_ready m p (s', True)) (\<lambda>s'. returns (opened_loop L m ps s') P)" if "keeps s s'" for s'
        using that Cons.prems(3) keepsD [OF that] by (intro ready) (auto intro: keeps_shrinks)
      show "returns (request_if_ready m p (s', False)) (\<lambda>s'. returns (opened_loop L m ps s') P)"
        if "keeps (drop_chan p s) s'" for s'
        using that dropped [OF that] by (intro ready) (auto intro: drop_shrinks)
    qed (use Cons.prems(1,3) in auto)
    then show ?thesis using c True by (simp add: chan_def returns_bind_iff)
  qed (use c same in \<open>simp add: chan_def\<close>)
qed

lemma returns_opened [wp]:
  assumes "rf_ok s" "m \<in> set (rfcomm_multiplexers s)" "\<And>s'. rf_ok s' \<Longrightarrow> length (out_buffer s') = length (out_buffer s) \<Longrightarrow> P s'"
  shows "returns (rfcomm_multiplexer_opened L m s) P"
proof -
  have *: "returns (opened_loop L m cs s') (\<lambda>s. returns (rfcomm_multiplexer_prepare_idle_timer m s) (\<lambda>s.
      returns (mux s m) (\<lambda>x. P (if rfcomm_multiplexer_ready_to_send x then act (RequestCanSendNow (l2cap_cid x)) s else s))))"
    if "keeps s s'" "rfcomm_channels s' = cs" for s' cs
    using that keepsD [OF that(1)] rf_ok_lists(1) [of s'] assms(2)
    by (intro returns_opened_loop) (auto intro!: wp assms(3) dest!: shrinksD stepD)
  show ?thesis
    unfolding rfcomm_multiplexer_opened_def returns_bind_iff returns_simps
    using assms(1,2) by (intro returns_upd_mux * keepsI) simp_all
qed

lemma returns_mux_state_machine [wp]:
  assumes "rf_ok s" "m \<in> set (rfcomm_multiplexers s)" "\<And>s'. rf_ok s' \<Longrightarrow> length (out_buffer s') = length (out_buffer s) \<Longrightarrow> P s'"
  shows "returns (rfcomm_multiplexer_state_machine L m s) P"
  unfolding rfcomm_multiplexer_state_machine_def Let_def
proof (rule wp, rule wp, rule assms(1), rule assms(2))
  fix x assume x: "mux_mem s m = Some x"
  have t: "length (test_data x) = 4" using rf_ok_mux(2) [OF assms(1) x] by (simp add: mux_fits_def)
  show "returns (if send_dm_for_dlci x \<noteq> 0 then
       bind_outcome (rfcomm_send_dm_pf L m (send_dm_for_dlci x) (set_mux m (x\<lparr>send_dm_for_dlci := 0\<rparr>) s)) (\<lambda>(s, err). Ret s)
     else if nsc_command x \<noteq> 0 then
       bind_outcome (rfcomm_send_uih_nsc_rsp L m (nsc_command x) (set_mux m (x\<lparr>nsc_command := 0\<rparr>) s)) (\<lambda>(s, err). Ret s)
     else if fcon x AND 0x80 \<noteq> 0 then
       bind_outcome (bind_outcome (rfcomm_send_uih_fc_rsp L m (fcon x AND 0x01) (set_mux m (x\<lparr>fcon := fcon x AND 0x01\<rparr>) s)) (\<lambda>(s, err). Ret s)) (\<lambda>s.
       if fcon x AND 0x01 = 0 then Ret s else rfcomm_notify_channel_can_send L s)
     else case mux_state x of
       RFCOMM_MULTIPLEXER_SEND_SABM_0 \<Rightarrow>
         bind_outcome (rfcomm_send_sabm L m 0 (set_mux m (x\<lparr>mux_state := RFCOMM_MULTIPLEXER_W4_UA_0\<rparr>) s)) (\<lambda>(s, err). Ret s)
     | RFCOMM_MULTIPLEXER_SEND_UA_0 \<Rightarrow>
         bind_outcome (bind_outcome (rfcomm_send_ua L m 0 (set_mux m (x\<lparr>mux_state := RFCOMM_MULTIPLEXER_OPEN\<rparr>) s)) (\<lambda>(s, err). Ret s))
           (rfcomm_multiplexer_opened L m)
     | RFCOMM_MULTIPLEXER_SEND_UA_0_AND_DISC \<Rightarrow>
         bind_outcome (bind_outcome (rfcomm_send_ua L m 0 (set_mux m (x\<lparr>mux_state := RFCOMM_MULTIPLEXER_CLOSED\<rparr>) s)) (\<lambda>(s, err). Ret s)) (\<lambda>s.
         bind_outcome (rfcomm_multiplexer_finalize L m s) (\<lambda>s. Ret (act (L2capDisconnect (l2cap_cid x)) s)))
     | RFCOMM_MULTIPLEXER_OPEN \<Rightarrow>
         if test_data_len x \<noteq> 0 then
           bind_outcome (rfcomm_send_uih_test_rsp L m (test_data x) (ucast (test_data_len x)) (set_mux m (x\<lparr>test_data_len := 0\<rparr>) s)) (\<lambda>(s, err). Ret s)
         else Ret s
     | _ \<Rightarrow> Ret s) P"
    by (cases "mux_state x") (use assms(1,2) x t in \<open>auto intro!: wp assms(3) dest!: stepD\<close>)
qed

end
