(* ===== verification/RfcommPackets.thy ===== *)
theory RfcommPackets
  imports RfcommSafe
begin

text \<open>
  The packets and events of L2CAP keep the invariant of RFCOMM: complete frames and events are read
  inside their bounds, and no freed object is accessed.
\<close>

subsection \<open>Events of L2CAP\<close>

text \<open>The size of the outgoing buffer never changes; the largest frame of L2CAP fits it.\<close>

definition l2cap_fits :: "l2cap \<Rightarrow> rfcomm \<Rightarrow> bool" where
  "l2cap_fits L s \<longleftrightarrow> 5 \<le> unat (max_mtu L) \<and> unat (max_mtu L) \<le> length (out_buffer s)"

lemma frame_size_fits:
  assumes "5 \<le> unat mtu" "unat mtu \<le> n"
  shows "unat (rfcomm_max_frame_size_for_l2cap_mtu mtu) + 5 \<le> n"
proof -
  have "unat (mtu - 5) = unat mtu - 5" using assms(1) by (simp add: unat_sub word_le_nat_alt)
  then show ?thesis using assms by (simp add: rfcomm_max_frame_size_for_l2cap_mtu_def)
qed

lemma returns_can_send_now [wp]:
  assumes "rf_ok s" "\<And>s'. rf_ok s' \<Longrightarrow> length (out_buffer s') = length (out_buffer s) \<Longrightarrow> P s'"
  shows "returns (rfcomm_handle_can_send_now L cid s) P"
proof -
  have Q: "P s" by (rule assms(2)) (use assms(1) in auto)
  have chan_ready: "returns (bind_outcome (chan s p) (\<lambda>c. bind_outcome (mux s (multiplexer c)) (\<lambda>x. Ret (f c x)))) (\<lambda>_. True)"
    if "p \<in> set (rfcomm_channels s)" for p and f :: "rfcomm_channel \<Rightarrow> rfcomm_multiplexer \<Rightarrow> bool"
    using that assms(1) by (auto intro!: wp)
  have mux_ready: "returns (bind_outcome (mux s m) (\<lambda>x. Ret (f x))) (\<lambda>_. True)"
    if "m \<in> set (rfcomm_multiplexers s)" for m and f :: "rfcomm_multiplexer \<Rightarrow> bool"
    using that assms(1) by (auto intro!: wp)
  show ?thesis
    unfolding rfcomm_handle_can_send_now_def Let_def
    by (rule wp, rule wp, erule mux_ready, simp_all)
       (use assms(1) Q in \<open>auto intro!: wp assms(2) chan_ready dest!: stepD\<close>)
qed


lemma returns_open_failed_loop:
  assumes "rf_ok s" "m \<in> set (rfcomm_multiplexers s)" "length (rfcomm_channels s) < n"
    and "\<And>s'. shrinks s s' \<Longrightarrow> \<forall>p c. channel_mem s' p = Some c \<longrightarrow> multiplexer c \<noteq> m \<Longrightarrow> P s'"
  shows "returns (open_failed_loop n L m status s) P"
  using assms
proof (induction n arbitrary: s)
  case 0
  then show ?case by simp
next
  case (Suc n)
  let ?of_mux = "\<lambda>p. bind_outcome (chan s p) (\<lambda>c. Ret (multiplexer c = m))"
  note [simp] = drop_chan_def [symmetric]
  have found: "returns (open_failed_loop n L m status (drop_chan p s')) P" if s': "only_calls s s'" "p \<in> set (rfcomm_channels s)" for p s'
  proof (rule Suc.IH)
    note eq = only_callsD [OF s'(1)]
    show "rf_ok (drop_chan p s')" "m \<in> set (rfcomm_multiplexers (drop_chan p s'))"
      using eq Suc.prems(2) by simp_all
    have "length (remove1 p (rfcomm_channels s)) < length (rfcomm_channels s)"
      using s'(2) length_pos_if_in_set [OF s'(2)] by (simp add: length_remove1)
    then show "length (rfcomm_channels (drop_chan p s')) < n" using eq Suc.prems(3) by simp
    show "P s''" if "shrinks (drop_chan p s') s''" "\<forall>p c. channel_mem s'' p = Some c \<longrightarrow> multiplexer c \<noteq> m" for s''
      using shrinks_trans [OF drop_shrinks [of p s] that(1)] eq drop_chan_objs [of s' s p] that(2)
      by (intro Suc.prems(4)) (auto simp: keeps_def)
  qed
  have none: "\<forall>p c. channel_mem s p = Some c \<longrightarrow> multiplexer c \<noteq> m"
    if "\<forall>p \<in> set (rfcomm_channels s). ?of_mux p = Ret False"
    using that rf_ok_chan(1) [OF Suc.prems(1)] by (fastforce simp: chan_def)
  show ?case
    unfolding open_failed_loop.simps
  proof (rule wp, rule wp)
    fix p assume p: "p \<in> set (rfcomm_channels s)"
    show "returns (?of_mux p) (\<lambda>_. True)" using p Suc.prems(1) by (auto intro!: wp)
    show "returns (case Some p of None \<Rightarrow> Ret s | Some p \<Rightarrow> bind_outcome (rfcomm_emit_channel_opened L p status s) (\<lambda>s.
         open_failed_loop n L m status (rfcomm_channel_free p (s\<lparr>rfcomm_channels := remove1 p (rfcomm_channels s)\<rparr>)))) P"
      using p Suc.prems(1) by (auto intro!: returns_bind returns_emit_opened found)
  next
    assume "\<forall>p \<in> set (rfcomm_channels s). ?of_mux p = Ret False"
    from none [OF this] have "P s" by (intro Suc.prems(4)) (use Suc.prems(1) in auto)
    then show "returns (case None of None \<Rightarrow> Ret s | Some p \<Rightarrow> bind_outcome (rfcomm_emit_channel_opened L p status s) (\<lambda>s.
         open_failed_loop n L m status (rfcomm_channel_free p (s\<lparr>rfcomm_channels := remove1 p (rfcomm_channels s)\<rparr>)))) P"
      by simp
  qed
qed

text \<open>A new multiplexer: the allocator returned an object that is not in use.\<close>

lemma new_mux_ok:
  assumes "rf_ok s" "m \<notin> set (rfcomm_multiplexers s)" "mux_fits s x"
  shows "rf_ok ((set_mux m x s)\<lparr>rfcomm_multiplexers := m # rfcomm_multiplexers s\<rparr>)"
  unfolding rf_ok_def
proof (intro conjI allI impI)
  let ?s = "(set_mux m x s)\<lparr>rfcomm_multiplexers := m # rfcomm_multiplexers s\<rparr>"
  note lists = rf_ok_lists [OF assms(1)] rf_ok_muxes [OF assms(1)]
  show "distinct (rfcomm_channels ?s)" "distinct (rfcomm_multiplexers ?s)" "set (rfcomm_channels ?s) = dom (channel_mem ?s)"
    "set (rfcomm_multiplexers ?s) = dom (mux_mem ?s)" "16 \<le> length (out_buffer ?s)" "length (out_buffer ?s) < 65536"
    using lists rf_ok_buffer [OF assms(1)] assms(2) by simp_all
  show "mux_fits ?s y" if "mux_mem ?s n = Some y" for n y
    using rf_ok_mux(2) [OF assms(1), of n y] that assms(3) by (simp add: mux_fits_def split: if_splits)
  show "multiplexer c \<in> dom (mux_mem ?s)" "rfcomm_cid c \<noteq> 0" "chan_fits ?s c" if "channel_mem ?s p = Some c" for p c
    using rf_ok_chan [OF assms(1), of p c] that lists(3) by (simp_all add: chan_fits_def)
  show "p = q" if "channel_mem ?s p = Some c" "channel_mem ?s q = Some d" "rfcomm_cid c = rfcomm_cid d" for p q c d
    using rf_ok_inj [OF assms(1), of p c q d] that by simp
qed

definition fresh_mux :: "nat option \<Rightarrow> rfcomm \<Rightarrow> bool" where
  "fresh_mux pointer s \<longleftrightarrow> (case pointer of None \<Rightarrow> True | Some m \<Rightarrow> m \<notin> set (rfcomm_multiplexers s))"

definition fresh_chan :: "nat option \<Rightarrow> rfcomm \<Rightarrow> bool" where
  "fresh_chan pointer s \<longleftrightarrow>
     length (rfcomm_channels s) < 65535 \<and> (case pointer of None \<Rightarrow> True | Some p \<Rightarrow> p \<notin> set (rfcomm_channels s))"

lemma mux_create_ok:
  assumes "rf_ok s" "fresh_mux (Some m) s" "l2cap_fits L s" "length addr = 6"
    and "rfcomm_multiplexer_create_for_addr L (Some m) addr s = (s', r)"
  shows "rf_ok s'" "r = Some m" "m \<in> set (rfcomm_multiplexers s')" "length (out_buffer s') = length (out_buffer s)"
    "rfcomm_channels s' = rfcomm_channels s"
    "mux_mem s' m = Some ((rfcomm_multiplexer_initialize L)\<lparr>remote_addr := addr\<rparr>)" "channel_mem s' = channel_mem s"
proof -
  let ?x = "(rfcomm_multiplexer_initialize L)\<lparr>remote_addr := addr\<rparr>"
  have "mux_fits s ?x"
    using frame_size_fits [of "max_mtu L"] assms(3,4)
    by (simp add: mux_fits_def rfcomm_multiplexer_initialize_def l2cap_fits_def)
  moreover have s': "s' = (set_mux m ?x s)\<lparr>rfcomm_multiplexers := m # rfcomm_multiplexers s\<rparr>" "r = Some m"
    using assms(5) by (simp_all add: rfcomm_multiplexer_create_for_addr_def Let_def)
  ultimately show "rf_ok s'" using assms(1,2) by (auto intro: new_mux_ok simp: fresh_mux_def)
  show "r = Some m" "m \<in> set (rfcomm_multiplexers s')" "length (out_buffer s') = length (out_buffer s)"
    "rfcomm_channels s' = rfcomm_channels s" "mux_mem s' m = Some ?x" "channel_mem s' = channel_mem s" using s' by simp_all
qed


lemma returns_event_addr [wp]:
  assumes "0 \<le> p" "p + 6 \<le> int (length packet)" "\<And>addr. length addr = 6 \<Longrightarrow> P addr"
  shows "returns (event_addr packet p) P"
  unfolding event_addr_def using assms by (auto intro!: wp)

lemma returns_for_addr [wp]:
  assumes "rf_ok s" "P None" "\<And>m. m \<in> set (rfcomm_multiplexers s) \<Longrightarrow> P (Some m)"
  shows "returns (rfcomm_multiplexer_for_addr s addr) P" "returns (rfcomm_multiplexer_for_l2cap_cid s cid) P"
  unfolding rfcomm_multiplexer_for_addr_def rfcomm_multiplexer_for_l2cap_cid_def using assms by (auto intro!: wp)

lemma returns_incoming_connection [wp]:
  assumes "rf_ok s" "fresh_mux pointer s" "l2cap_fits L s" "14 \<le> length packet"
    and "\<And>s'. rf_ok s' \<Longrightarrow> length (out_buffer s') = length (out_buffer s) \<Longrightarrow> P s'"
  shows "returns (l2cap_incoming_connection L pointer packet s) P"
proof -
  have ok: "P s" "P (act (DeclineConnection cid) s)" for cid by (rule assms(5); use assms(1) in simp)+
  have new: "returns (case rfcomm_multiplexer_create_for_addr L pointer addr s of
         (s, None) \<Rightarrow> Ret (act (DeclineConnection cid) s)
       | (s, Some m) \<Rightarrow>
           bind_outcome (upd_mux m (\<lambda>x. x\<lparr>con_handle := handle, l2cap_cid := cid,
             mux_state := RFCOMM_MULTIPLEXER_W4_SABM_0\<rparr>) s) (\<lambda>s.
           Ret (act (AcceptConnection cid) s))) P" if "length addr = 6" for addr cid handle
  proof (cases pointer)
    case None
    then show ?thesis using ok by (simp add: rfcomm_multiplexer_create_for_addr_def)
  next
    case (Some m)
    obtain s' r where cr: "rfcomm_multiplexer_create_for_addr L pointer addr s = (s', r)" by fastforce
    note new = mux_create_ok [OF assms(1) _ assms(3) that cr [unfolded Some]]
    have f: "fresh_mux (Some m) s" using assms(2) Some by simp
    show ?thesis
      using new [OF f] unfolding cr by (auto intro!: wp assms(5))
  qed
  show ?thesis
    unfolding l2cap_incoming_connection_def using assms(1,4) by (auto intro!: wp ok new)
qed

lemma returns_channel_closed [wp]:
  assumes "rf_ok s" "4 \<le> length packet" "\<And>s'. rf_ok s' \<Longrightarrow> length (out_buffer s') = length (out_buffer s) \<Longrightarrow> P s'"
  shows "returns (l2cap_channel_closed L packet s) P"
  unfolding l2cap_channel_closed_def using assms by (auto intro!: wp)

lemma returns_set_state [wp]:
  assumes "rf_ok s" "m \<in> set (rfcomm_multiplexers s)" "\<And>s'. rf_ok s' \<Longrightarrow> length (out_buffer s') = length (out_buffer s) \<Longrightarrow> P s'"
  shows "returns (set_state_and_request m st s) P"
  unfolding set_state_and_request_def using assms by (auto intro!: wp)

text \<open>An event that the channel is open names a size for packets that fits the outgoing buffer.\<close>

definition mtu_fits :: "bytes \<Rightarrow> rfcomm \<Rightarrow> bool" where
  "mtu_fits packet s \<longleftrightarrow>
     (case little_endian_read_16 packet 0 17 of Undef \<Rightarrow> False
      | Ret mtu \<Rightarrow> 5 \<le> unat mtu \<and> unat mtu \<le> length (out_buffer s))"

lemma set_mux_twice [simp]: "set_mux m x' (set_mux m x s) = set_mux m x' s"
  by (simp add: set_mux_def)

lemma returns_channel_opened_event [wp]:
  assumes "rf_ok s" "19 \<le> length packet" "mtu_fits packet s"
    and "\<And>s'. rf_ok s' \<Longrightarrow> length (out_buffer s') = length (out_buffer s) \<Longrightarrow> P s'"
  shows "returns (l2cap_channel_opened L packet s) P"
proof -
  have ok: "P s" by (rule assms(4)) (use assms(1) in simp_all)
  obtain mtu where mtu: "little_endian_read_16 packet 0 17 = Ret mtu" "5 \<le> unat mtu" "unat mtu \<le> length (out_buffer s)"
    using assms(3) by (auto simp: mtu_fits_def split: outcome.splits)
  have failed: "returns (open_failed_loop n L m status s') (\<lambda>s. P (rfcomm_multiplexer_free m s))"
    if "rf_ok s'" "m \<in> set (rfcomm_multiplexers s')" "length (out_buffer s') = length (out_buffer s)" "length (rfcomm_channels s') < n"
    for s' m status n
    using that by (intro returns_open_failed_loop) (auto intro!: assms(4) free_mux_ok dest: shrinksD)
  have keeps: "keeps_mux s m (x\<lparr>mux_max_frame_size := rfcomm_max_frame_size_for_l2cap_mtu mtu\<rparr>)"
    "keeps_mux s m (x\<lparr>mux_max_frame_size := rfcomm_max_frame_size_for_l2cap_mtu mtu, l2cap_cid := cid, con_handle := h\<rparr>)"
    if "mux_mem s m = Some x" for m x cid h
    using rf_ok_mux [OF assms(1) that] frame_size_fits [OF mtu(2,3)] by (simp_all add: keeps_mux_def mux_fits_def)
  show ?thesis
    unfolding l2cap_channel_opened_def mtu(1) using assms(1,2) ok
    by (auto intro!: wp assms(4) failed dest!: stepD simp: keeps simp del: open_failed_loop.simps)
qed


text \<open>The events RFCOMM handles, complete.\<close>

definition complete_event :: "bytes \<Rightarrow> rfcomm \<Rightarrow> bool" where
  "complete_event packet s \<longleftrightarrow> packet \<noteq> [] \<and>
     (packet ! 0 = 0x72 \<longrightarrow> 14 \<le> length packet) \<and> (packet ! 0 = 0x70 \<longrightarrow> 19 \<le> length packet \<and> mtu_fits packet s) \<and>
     (packet ! 0 = 0x78 \<or> packet ! 0 = 0x71 \<longrightarrow> 4 \<le> length packet)"

lemma returns_rd_at: "0 \<le> p \<Longrightarrow> p < int (length m) \<Longrightarrow> P (m ! nat p) \<Longrightarrow> returns (rd m p) P"
  by (simp add: rd_def)

lemma returns_hci_event_handler [wp]:
  assumes "rf_ok s" "fresh_mux pointer s" "l2cap_fits L s" "complete_event packet s"
    and "\<And>s'. rf_ok s' \<Longrightarrow> length (out_buffer s') = length (out_buffer s) \<Longrightarrow> P s'"
  shows "returns (rfcomm_hci_event_handler L pointer packet s) P"
  unfolding rfcomm_hci_event_handler_def returns_bind_iff
proof (rule returns_rd_at)
  show "returns (if packet ! nat 0 = 0x72 then l2cap_incoming_connection L pointer packet s
     else if packet ! nat 0 = 0x70 then l2cap_channel_opened L packet s
     else if packet ! nat 0 = 0x78 then
       bind_outcome (little_endian_read_16 packet 0 2) (\<lambda>cid. rfcomm_handle_can_send_now L cid s)
     else if packet ! nat 0 = 0x71 then l2cap_channel_closed L packet s
     else Ret s) P"
    using assms(1-4) by (auto intro!: wp assms(5) simp: complete_event_def)
qed (use assms(4) in \<open>auto simp: complete_event_def\<close>)

subsection \<open>Messages in the control channel\<close>

text \<open>How many bytes a message has at least.\<close>

definition message_needs :: "byte \<Rightarrow> nat" where
  "message_needs msg =
     (if msg = 0x83 \<or> msg = 0x81 then 8 else if msg = 0xE3 \<or> msg = 0x53 then 2
      else if msg = 0xE1 \<or> msg = 0x93 then 1 else 0)"

definition complete_message :: "bytes \<Rightarrow> nat \<Rightarrow> bool" where
  "complete_message packet off \<longleftrightarrow> off + 2 \<le> length packet \<and>
     (let n = unat (drop_bit 1 (packet ! (off + 1))) in off + 2 + n \<le> length packet \<and> message_needs (packet ! off) \<le> n)"

text \<open>A frame has four bytes at least, its payload lies inside, and a message is complete.\<close>

definition complete_frame :: "bytes \<Rightarrow> bool" where
  "complete_frame packet \<longleftrightarrow> 4 \<le> length packet \<and> length packet < 65536 \<and>
     (packet ! 1 = 0xEF \<or> packet ! 1 = 0xFF \<longrightarrow>
        (let off = payload_offset (packet ! 1) (packet ! 2) in
         off < length packet \<and> (drop_bit 2 (packet ! 0) = 0 \<longrightarrow> complete_message packet off)))"

lemma complete_messageD:
  assumes "complete_message packet off"
  obtains n where "rd packet (int off) = Ret (packet ! off)" "rd packet (int off + 1) = Ret (packet ! (off + 1))"
    "n = unat (drop_bit 1 (packet ! (off + 1)))" "off + 2 + n \<le> length packet" "message_needs (packet ! off) \<le> n"
  using assms that by (auto simp: complete_message_def Let_def rd_def nat_add_distrib)

lemma returns_mux_uih_message [wp]:
  assumes "rf_ok s" "m \<in> set (rfcomm_multiplexers s)" "mux_mem s m = Some x" "complete_message packet off"
    and "length packet < 65536" "sz = of_nat (length packet)" "P (s, False)"
    and "\<And>s'. rf_ok s' \<Longrightarrow> length (out_buffer s') = length (out_buffer s) \<Longrightarrow> P (s', True)"
  shows "returns (mux_uih_message L m x (int off) packet sz s) P"
proof -
  obtain n where n: "rd packet (int off) = Ret (packet ! off)" "rd packet (int off + 1) = Ret (packet ! (off + 1))"
    "n = unat (drop_bit 1 (packet ! (off + 1)))" "off + 2 + n \<le> length packet"
    using assms(4) by (rule complete_messageD)
  have t: "length (test_data x) = 4" "mux_fits s x" using rf_ok_mux(2) [OF assms(1,3)] by (simp_all add: mux_fits_def)
  define k where "k = uint (btstack_min (word_of_int (if uint (drop_bit 1 (packet ! (off + 1))) > int RFCOMM_TEST_DATA_MAX_LEN
      then int RFCOMM_TEST_DATA_MAX_LEN else uint (drop_bit 1 (packet ! (off + 1))))) (word_of_int (uint sz - 1 - int off)))"
  have un: "uint (drop_bit 1 (packet ! (off + 1))) = int n" by (simp only: n(3) uint_nat)
  have four: "int RFCOMM_TEST_DATA_MAX_LEN = 4" by (simp add: RFCOMM_TEST_DATA_MAX_LEN_def)
  have k: "0 \<le> k" "k \<le> 4" "k \<le> int n"
  proof -
    define a where "a = (word_of_int (if int n > 4 then 4 else int n) :: u32)"
    have a: "uint a = min 4 (int n)" unfolding a_def by (simp add: uint_word_of_int)
    have "btstack_min a b \<le> a" for b by (simp add: btstack_min_def not_less)
    then have "uint (btstack_min a b) \<le> min 4 (int n)" for b using a by (simp add: word_le_def)
    from this [of "word_of_int (uint sz - 1 - int off)"] have "k \<le> min 4 (int n)"
      unfolding k_def un four a_def by simp
    then show "k \<le> 4" "k \<le> int n" by simp_all
  qed (simp add: k_def)
  have test: "keeps_mux s m (x\<lparr>test_data_len := l, test_data := td\<rparr>)" if "length td = 4" for l td
    using t that assms(2) by (simp add: keeps_mux_def mux_fits_def)
  show ?thesis
    unfolding mux_uih_message_def n(1,2) bind_outcome_simps Let_def k_def [symmetric]
    using assms(1-3) n(4) k t by (auto intro!: wp assms(7,8) simp: test)
qed


lemma returns_mux_packet [wp]:
  assumes "rf_ok s" "complete_frame packet" "sz = of_nat (length packet)" "P (s, False)"
    and "\<And>s'. rf_ok s' \<Longrightarrow> length (out_buffer s') = length (out_buffer s) \<Longrightarrow> P (s', True)"
  shows "returns (rfcomm_multiplexer_l2cap_packet_handler L channel packet sz s) P"
proof -
  have rd: "rd packet 0 = Ret (packet ! 0)" "rd packet 1 = Ret (packet ! 1)" "rd packet 2 = Ret (packet ! 2)"
    and len: "length packet < 65536"
    using assms(2) by (auto simp: complete_frame_def rd_def)
  have msg: "complete_message packet (payload_offset 0xEF (packet ! 2))" if "packet ! 1 = 0xEF" "drop_bit 2 (packet ! 0) = 0"
    using assms(2) that by (simp add: complete_frame_def Let_def)
  show ?thesis
    unfolding rfcomm_multiplexer_l2cap_packet_handler_def rd bind_outcome_simps Let_def
    using assms(1,3,4) msg len by (auto intro!: wp assms(5))
qed

subsection \<open>Data of channels\<close>

lemma returns_credits_event:
  assumes "rf_ok s" "p \<in> set (rfcomm_channels s)" "\<And>s'. keeps s s' \<Longrightarrow> P (s', True)"
  shows "returns (rfcomm_channel_state_machine_with_channel L p CH_EVT_RCVD_CREDITS s) P"
proof -
  obtain c where c: "channel_mem s p = Some c" using assms(1,2) by (auto simp: rf_ok_def)
  have ok: "P (s, True)" by (rule assms(3)) (simp add: assms(1))
  have closing: "returns (channel_closing_event L p CH_EVT_RCVD_CREDITS s) P"
    using c ok by (cases "ch_state c") (simp_all add: channel_closing_event_def chan_def)
  show ?thesis
    unfolding rfcomm_channel_state_machine_with_channel_def channel_state_switch_def
    using c ok assms closing by (cases "ch_state c") (auto simp: chan_def intro!: returns_closed_event returns_incoming_setup_event
      returns_outgoing_event returns_dlc_setup_event returns_open_event)
qed

lemma returns_for_dlci [wp]:
  assumes "rf_ok s" "P None" "\<And>p. p \<in> set (rfcomm_channels s) \<Longrightarrow> P (Some p)"
  shows "returns (rfcomm_channel_for_multiplexer_and_dlci s m d) P"
  unfolding rfcomm_channel_for_multiplexer_and_dlci_def using assms by (auto intro!: wp)

lemma returns_uih [wp]:
  assumes "rf_ok s" "m \<in> set (rfcomm_multiplexers s)" "complete_frame packet" "packet ! 1 = 0xEF \<or> packet ! 1 = 0xFF"
    and "sz = of_nat (length packet)"
    and "\<And>s'. rf_ok s' \<Longrightarrow> length (out_buffer s') = length (out_buffer s) \<Longrightarrow> P s'"
  shows "returns (rfcomm_channel_packet_handler_uih L m packet sz s) P"
proof -
  define off where "off = payload_offset (packet ! 1) (packet ! 2)"
  have rd: "rd packet 0 = Ret (packet ! 0)" "rd packet 1 = Ret (packet ! 1)" "rd packet 2 = Ret (packet ! 2)"
    and off: "off < length packet" and len: "length packet < 65536"
    using assms(3,4) by (auto simp: complete_frame_def rd_def Let_def off_def)
  have cr: "3 + (if packet ! 2 AND 1 = 0 then 1 else 0) < int (length packet)" if "packet ! 1 = 0xFF"
    using off that by (auto simp: off_def payload_offset_def)
  have ok: "P s" by (rule assms(6)) (use assms(1) in simp_all)
  have sz: "uint sz = int (length packet)" using assms(5) len by (simp add: uint_u16)
  have data: "int off + int (nat (uint sz - int off - 1)) \<le> int (length packet)" if "uint sz - 1 > int off"
    using off sz that by simp
  let ?rest = "\<lambda>p (s, request).
         bind_outcome
           (if uint sz - 1 > int off then
              bind_outcome (upd_chan p (\<lambda>c. c\<lparr>credits_incoming :=
                (if credits_incoming c > 0 then credits_incoming c - 1 else credits_incoming c)\<rparr>) s) (\<lambda>s.
              bind_outcome (rd_block packet (int off) (nat (uint sz - int off - 1))) (\<lambda>data.
              bind_outcome (chan s p) (\<lambda>c.
              Ret (call_handler (packet_handler c) 7 (rfcomm_cid c) data s))))
            else Ret s) (\<lambda>s.
         bind_outcome (chan s p) (\<lambda>c.
         let more = incoming_flow_control c = 0 \<and> credits_incoming c < 5;
             s = (if more then set_chan p (c\<lparr>new_credits_incoming := RFCOMM_CREDITS\<rparr>) s else s) in
         if request \<or> more then bind_outcome (mux s m) (\<lambda>x. Ret (act (RequestCanSendNow (l2cap_cid x)) s))
         else Ret s))"
  have last: "returns (bind_outcome (chan s' p) (\<lambda>c.
         let more = incoming_flow_control c = 0 \<and> credits_incoming c < 5;
             s' = (if more then set_chan p (c\<lparr>new_credits_incoming := RFCOMM_CREDITS\<rparr>) s' else s') in
         if b \<or> more then bind_outcome (mux s' m) (\<lambda>x. Ret (act (RequestCanSendNow (l2cap_cid x)) s'))
         else Ret s')) P"
    if "keeps s s'" "p \<in> set (rfcomm_channels s)" for s' p b
  proof (rule returns_bind, rule returns_chan)
    fix c assume c: "channel_mem s' p = Some c"
    note eq = keepsD [OF that(1)]
    define s2 where "s2 = (if incoming_flow_control c = 0 \<and> credits_incoming c < 5
      then set_chan p (c\<lparr>new_credits_incoming := RFCOMM_CREDITS\<rparr>) s' else s')"
    have "rf_ok s2" "length (out_buffer s2) = length (out_buffer s)" "m \<in> set (rfcomm_multiplexers s2)"
      using c eq assms(2) by (simp_all add: s2_def)
    then show "returns (let more = incoming_flow_control c = 0 \<and> credits_incoming c < 5;
             s' = (if more then set_chan p (c\<lparr>new_credits_incoming := RFCOMM_CREDITS\<rparr>) s' else s') in
         if b \<or> more then bind_outcome (mux s' m) (\<lambda>x. Ret (act (RequestCanSendNow (l2cap_cid x)) s'))
         else Ret s') P"
      unfolding Let_def s2_def [symmetric] by (auto intro!: wp assms(6))
  qed (use that keepsD [OF that(1)] in simp_all)
  have data_step: "returns (bind_outcome (upd_chan p (\<lambda>c. c\<lparr>credits_incoming :=
                (if credits_incoming c > 0 then credits_incoming c - 1 else credits_incoming c)\<rparr>) s') (\<lambda>s.
              bind_outcome (rd_block packet (int off) (nat (uint sz - int off - 1))) (\<lambda>data.
              bind_outcome (chan s p) (\<lambda>c.
              Ret (call_handler (packet_handler c) 7 (rfcomm_cid c) data s))))) Q"
    if "keeps s s'" "p \<in> set (rfcomm_channels s)" "uint sz - 1 > int off" "\<And>s''. keeps s s'' \<Longrightarrow> Q s''" for s' p Q
    using keepsD [OF that(1)] that(2) data [OF that(3)] by (auto intro!: wp that(4) keepsI)
  have rest: "returns (?rest p (s', b)) P" if k: "keeps s s'" and p: "p \<in> set (rfcomm_channels s)" for s' p b
    unfolding split_conv
    by (rule returns_bind, rule returns_if, rule data_step, rule k, rule p, assumption, rule last, assumption, rule p,
      rule returns_Ret, rule last, rule k, rule p)
  have credits: "returns (bind_outcome
           (if packet ! 1 = 0xFF then
              bind_outcome (rd packet (3 + (if packet ! 2 AND 1 = 0 then 1 else 0))) (\<lambda>new_credits.
              bind_outcome (upd_chan p (\<lambda>c. c\<lparr>credits_outgoing := credits_outgoing c + new_credits\<rparr>) s) (\<lambda>s.
              bind_outcome (rfcomm_channel_state_machine_with_channel L p CH_EVT_RCVD_CREDITS s) (\<lambda>(s, valid).
              if valid then
                bind_outcome (chan s p) (\<lambda>c. Ret (s, rfcomm_channel_ready_to_send c \<or> waiting_for_can_send_now c))
              else Ret (s, False))))
            else Ret (s, False)) f) P"
    if p: "p \<in> set (rfcomm_channels s)" and f: "\<And>s' b. keeps s s' \<Longrightarrow> returns (f (s', b)) P" for p f
  proof (cases "packet ! 1 = 0xFF")
    case True
    have ev: "returns (bind_outcome (rfcomm_channel_state_machine_with_channel L p CH_EVT_RCVD_CREDITS s') (\<lambda>(s, valid).
              if valid then
                bind_outcome (chan s p) (\<lambda>c. Ret (s, rfcomm_channel_ready_to_send c \<or> waiting_for_can_send_now c))
              else Ret (s, False))) (\<lambda>r. returns (f r) P)" if "keeps s s'" for s'
      unfolding returns_bind_iff
    proof (rule returns_credits_event)
      fix s'' assume k: "keeps s' s''"
      then have "keeps s s''" using that by (rule keeps_trans [rotated])
      then show "returns (case (s'', True) of (s, valid) \<Rightarrow> if valid then
                bind_outcome (chan s p) (\<lambda>c. Ret (s, rfcomm_channel_ready_to_send c \<or> waiting_for_can_send_now c))
              else Ret (s, False)) (\<lambda>r. returns (f r) P)"
        using keepsD [of s s''] p by (auto intro!: returns_bind returns_chan f)
    qed (use keepsD [OF that] p in simp_all)
    show ?thesis
      using True p cr assms(1) by (auto simp: returns_bind_iff intro!: returns_rd returns_upd_chan keepsI ev [unfolded returns_bind_iff])
  qed (use f [of s] assms(1) in simp)
  show ?thesis
    unfolding rfcomm_channel_packet_handler_uih_def rd bind_outcome_simps Let_def [of "payload_offset _ _"] off_def [symmetric]
    by (rule returns_bind, rule returns_for_dlci, rule assms(1), unfold option.case, rule returns_Ret, rule ok,
      rule credits, assumption, rule rest, assumption, assumption)
qed


subsection \<open>Frames of channels\<close>

text \<open>The multiplexer stays: only its channels come and go.\<close>

lemma returns_with_dlci [wp]:
  assumes "rf_ok s" "m \<in> set (rfcomm_multiplexers s)" "fresh_chan pointer s"
    and "\<And>s'. rf_ok s' \<Longrightarrow> rfcomm_multiplexers s' = rfcomm_multiplexers s \<Longrightarrow> length (out_buffer s') = length (out_buffer s) \<Longrightarrow> P s'"
  shows "returns (rfcomm_channel_state_machine_with_dlci L pointer m d event s) P"
proof -
  have run: "returns (bind_outcome (rfcomm_channel_state_machine_with_channel L p event s') (request_if_ready m p)) P"
    if s': "rf_ok s'" "p \<in> set (rfcomm_channels s')" "rfcomm_multiplexers s' = rfcomm_multiplexers s"
      "length (out_buffer s') = length (out_buffer s)" for p s'
    using s' assms(2) by (auto intro!: returns_bind returns_state_machine returns_request_if_ready assms(4) dest!: stepD)
  have dm: "returns (bind_outcome (upd_mux m (\<lambda>x. x\<lparr>send_dm_for_dlci := d\<rparr>) s') (\<lambda>s.
           bind_outcome (mux s m) (\<lambda>x. Ret (act (RequestCanSendNow (l2cap_cid x)) s)))) Q"
    if "rf_ok s'" "m \<in> set (rfcomm_multiplexers s')" "\<And>s''. rf_ok s'' \<Longrightarrow> rfcomm_multiplexers s'' = rfcomm_multiplexers s' \<Longrightarrow>
      length (out_buffer s'') = length (out_buffer s') \<Longrightarrow> Q s''" for Q s'
    using that by (auto intro!: wp)
  have new: "returns (bind_outcome (rfcomm_channel_create pointer m (Some srv) (drop_bit 1 d) s) (\<lambda>(s, r).
      case r of None \<Rightarrow> bind_outcome (bind_outcome (upd_mux m (\<lambda>x. x\<lparr>send_dm_for_dlci := d\<rparr>) s) (\<lambda>s.
           bind_outcome (mux s m) (\<lambda>x. Ret (act (RequestCanSendNow (l2cap_cid x)) s)))) (\<lambda>s.
           bind_outcome (upd_mux m (\<lambda>x. x\<lparr>send_dm_for_dlci := d\<rparr>) s) (\<lambda>s.
           bind_outcome (mux s m) (\<lambda>x. Ret (act (RequestCanSendNow (l2cap_cid x)) s))))
      | Some p \<Rightarrow> bind_outcome (rfcomm_channel_state_machine_with_channel L p event s) (request_if_ready m p))) P" for srv
  proof (rule returns_bind, rule returns_create)
    show "returns (case (s, None) of (s, r) \<Rightarrow> case r of None \<Rightarrow> bind_outcome (bind_outcome (upd_mux m (\<lambda>x. x\<lparr>send_dm_for_dlci := d\<rparr>) s) (\<lambda>s.
           bind_outcome (mux s m) (\<lambda>x. Ret (act (RequestCanSendNow (l2cap_cid x)) s)))) (\<lambda>s.
           bind_outcome (upd_mux m (\<lambda>x. x\<lparr>send_dm_for_dlci := d\<rparr>) s) (\<lambda>s.
           bind_outcome (mux s m) (\<lambda>x. Ret (act (RequestCanSendNow (l2cap_cid x)) s))))
      | Some p \<Rightarrow> bind_outcome (rfcomm_channel_state_machine_with_channel L p event s) (request_if_ready m p)) P"
      unfolding split_conv option.case
      by (rule returns_bind, rule dm, rule assms(1), rule assms(2), rule dm) (use assms(2) in \<open>auto intro: assms(4)\<close>)
    show "returns (case (s', Some p) of (s, r) \<Rightarrow> case r of None \<Rightarrow> bind_outcome (bind_outcome (upd_mux m (\<lambda>x. x\<lparr>send_dm_for_dlci := d\<rparr>) s) (\<lambda>s.
           bind_outcome (mux s m) (\<lambda>x. Ret (act (RequestCanSendNow (l2cap_cid x)) s)))) (\<lambda>s.
           bind_outcome (upd_mux m (\<lambda>x. x\<lparr>send_dm_for_dlci := d\<rparr>) s) (\<lambda>s.
           bind_outcome (mux s m) (\<lambda>x. Ret (act (RequestCanSendNow (l2cap_cid x)) s))))
      | Some p \<Rightarrow> bind_outcome (rfcomm_channel_state_machine_with_channel L p event s) (request_if_ready m p)) P"
      if "created p s s'" for p s'
      unfolding split_conv option.case using that by (intro run) (simp_all add: created_def)
  qed (use assms(1-3) in \<open>auto simp: fresh_chan_def\<close>)
  show ?thesis
    unfolding rfcomm_channel_state_machine_with_dlci_def Let_def
    by (rule returns_bind, rule returns_for_dlci, rule assms(1), cases "rfcomm_service_for_channel s (drop_bit 1 d)")
       (use assms(1,2) in \<open>auto intro: run new dm assms(4) simp del: One_nat_def\<close>)
qed


lemma returns_rpn_at [wp]:
  assumes "0 \<le> p" "p + 7 \<le> int (length packet)" "\<And>d. P d"
  shows "returns (rpn_at packet p) P"
  unfolding rpn_at_def using assms by (auto intro!: wp)

lemma returns_channel_message [wp]:
  assumes "rf_ok s" "m \<in> set (rfcomm_multiplexers s)" "fresh_chan pointer s" "complete_message packet off"
    and "\<And>s'. rf_ok s' \<Longrightarrow> rfcomm_multiplexers s' = rfcomm_multiplexers s \<Longrightarrow> length (out_buffer s') = length (out_buffer s) \<Longrightarrow> P s'"
  shows "returns (channel_message L pointer m (int off) packet s) P"
proof -
  obtain n where n: "rd packet (int off) = Ret (packet ! off)" "rd packet (int off + 1) = Ret (packet ! (off + 1))"
    "n = unat (drop_bit 1 (packet ! (off + 1)))" "off + 2 + n \<le> length packet" "message_needs (packet ! off) \<le> n"
    using assms(4) by (rule complete_messageD)
  have len8: "n = 8" if "drop_bit 1 (packet ! (off + 1)) = 8" using that n(3) by simp
  have run: "returns (rfcomm_channel_state_machine_with_dlci L pointer m d event s) P" for d event
    using assms(1-3) by (auto intro!: wp assms(5))
  have run2: "returns (bind_outcome (rd packet (int off + 2))
      (\<lambda>d. rfcomm_channel_state_machine_with_dlci L pointer m (drop_bit 2 d) event s)) P" if "1 \<le> n" for event
    using n(4) that by (auto intro!: returns_bind returns_rd run)
  have ok: "P s" by (rule assms(5)) (use assms(1) in simp_all)
  note needs = n(5) [unfolded message_needs_def]
  show ?thesis
    unfolding channel_message_def n(1,2) bind_outcome_simps Let_def
    using needs n(4) len8 assms(1,2)
    by (intro returns_if; (simp del: One_nat_def)?)
       (auto intro!: returns_bind returns_rd returns_read_16 returns_rpn_at returns_upd_mux returns_Ret run run2 ok assms(5))
qed

lemma returns_channel_packet [wp]:
  assumes "rf_ok s" "m \<in> set (rfcomm_multiplexers s)" "fresh_chan pointer s" "complete_frame packet"
    and "packet ! 1 = 0xEF \<or> packet ! 1 = 0xFF \<Longrightarrow> drop_bit 2 (packet ! 0) = 0"
    and "\<And>s'. rf_ok s' \<Longrightarrow> length (out_buffer s') = length (out_buffer s) \<Longrightarrow> P s'"
  shows "returns (rfcomm_channel_packet_handler L pointer m packet s) P"
proof -
  have rd: "rd packet 0 = Ret (packet ! 0)" "rd packet 1 = Ret (packet ! 1)" "rd packet 2 = Ret (packet ! 2)"
    using assms(4) by (auto simp: complete_frame_def rd_def)
  have msg: "complete_message packet (payload_offset (packet ! 1) (packet ! 2))" if "packet ! 1 = 0xFF \<or> packet ! 1 = 0xEF"
    using assms(4,5) that by (auto simp: complete_frame_def Let_def)
  have final: "returns (bind_outcome (mux s' m) (\<lambda>x.
     Ret (if rfcomm_multiplexer_ready_to_send x then act (RequestCanSendNow (l2cap_cid x)) s' else s'))) P"
    if "rf_ok s'" "rfcomm_multiplexers s' = rfcomm_multiplexers s" "length (out_buffer s') = length (out_buffer s)" for s'
    using that assms(2) by (auto intro!: wp assms(6))
  have run: "returns (rfcomm_channel_state_machine_with_dlci L pointer m d event s) (\<lambda>s'. returns (bind_outcome (mux s' m) (\<lambda>x.
     Ret (if rfcomm_multiplexer_ready_to_send x then act (RequestCanSendNow (l2cap_cid x)) s' else s'))) P)" for d event
    by (rule returns_with_dlci, rule assms(1), rule assms(2), rule assms(3), rule final)
  have message: "returns (channel_message L pointer m (int (payload_offset (packet ! 1) (packet ! 2))) packet s)
     (\<lambda>s'. returns (bind_outcome (mux s' m) (\<lambda>x.
     Ret (if rfcomm_multiplexer_ready_to_send x then act (RequestCanSendNow (l2cap_cid x)) s' else s'))) P)"
    if "packet ! 1 = 0xFF \<or> packet ! 1 = 0xEF"
    by (rule returns_channel_message, rule assms(1), rule assms(2), rule assms(3), rule msg, rule that, rule final)
  show ?thesis
    unfolding rfcomm_channel_packet_handler_def rd bind_outcome_simps Let_def
    by (rule returns_bind, intro returns_if run message returns_Ret final) (use assms(1) in simp_all)
qed

text \<open>Every event and packet RFCOMM gets from L2CAP.\<close>

lemma returns_packet_handler [wp]:
  assumes "rf_ok s" "l2cap_fits L s"
    and "packet_type = 4 \<Longrightarrow> fresh_mux pointer s \<and> complete_event packet s"
    and "packet_type = 6 \<Longrightarrow> fresh_chan pointer s \<and> complete_frame packet \<and> sz = of_nat (length packet)"
    and "\<And>s'. rf_ok s' \<Longrightarrow> length (out_buffer s') = length (out_buffer s) \<Longrightarrow> P s'"
  shows "returns (rfcomm_packet_handler L pointer packet_type channel packet sz s) P"
proof (cases "packet_type = 6")
  case True
  note data = assms(4) [OF True]
  have ok: "P s" by (rule assms(5)) (use assms(1) in simp_all)
  have rd: "rd packet 0 = Ret (packet ! 0)" "rd packet 1 = Ret (packet ! 1)"
    using data by (auto simp: complete_frame_def rd_def)
  have uih: "returns (rfcomm_channel_packet_handler_uih L m packet sz s) P"
    if "m \<in> set (rfcomm_multiplexers s)" "packet ! 1 = 0xEF \<or> packet ! 1 = 0xFF" for m
    using that assms(1) data by (intro returns_uih assms(5)) auto
  have frame: "returns (rfcomm_channel_packet_handler L pointer m packet s) P"
    if "m \<in> set (rfcomm_multiplexers s)" "packet ! 1 = 0xEF \<or> packet ! 1 = 0xFF \<Longrightarrow> drop_bit 2 (packet ! 0) = 0" for m
    using that assms(1) data by (intro returns_channel_packet assms(5)) auto
  have deliver: "returns (bind_outcome (if drop_bit 2 (packet ! 0) = 0 then Ret 0 else Ret (packet ! 1)) (\<lambda>control.
                if drop_bit 2 (packet ! 0) \<noteq> 0 \<and> (control = 0xEF \<or> control = 0xFF) then
                  rfcomm_channel_packet_handler_uih L m packet sz s
                else rfcomm_channel_packet_handler L pointer m packet s)) P" if m: "m \<in> set (rfcomm_multiplexers s)" for m
    using uih [OF m] frame [OF m]
    by (cases "drop_bit 2 (packet ! 0) = 0"; cases "packet ! 1 = 0xEF \<or> packet ! 1 = 0xFF") (simp_all del: One_nat_def)
  have handle: "returns (rfcomm_multiplexer_l2cap_packet_handler L channel packet sz s) Q"
    if "Q (s, False)" "\<And>s'. rf_ok s' \<Longrightarrow> length (out_buffer s') = length (out_buffer s) \<Longrightarrow> Q (s', True)" for Q
    using that assms(1) data by (intro returns_mux_packet) auto
  have found: "returns (bind_outcome (mux s m) (\<lambda>x. if mux_state x \<noteq> RFCOMM_MULTIPLEXER_OPEN then Ret s
      else bind_outcome (if drop_bit 2 (packet ! 0) = 0 then Ret 0 else Ret (packet ! 1)) (\<lambda>control.
                if drop_bit 2 (packet ! 0) \<noteq> 0 \<and> (control = 0xEF \<or> control = 0xFF) then
                  rfcomm_channel_packet_handler_uih L m packet sz s
                else rfcomm_channel_packet_handler L pointer m packet s))) P" if m: "m \<in> set (rfcomm_multiplexers s)" for m
    by (rule returns_bind, rule returns_mux, rule assms(1), rule m, rule returns_if, rule returns_Ret, rule ok, rule deliver, rule m)
  show ?thesis
    unfolding rfcomm_packet_handler_def rd bind_outcome_simps
    by (rule returns_if, use True in simp, rule returns_if, use True in simp, rule returns_bind, rule handle,
      unfold split_conv if_True if_False, rule returns_bind, rule returns_for_addr(2), rule assms(1), unfold option.case,
      rule returns_Ret, rule ok, rule found, assumption, rule returns_Ret, rule assms(5))
next
  case False
  then show ?thesis
    unfolding rfcomm_packet_handler_def using assms(1-3) by (auto intro!: returns_hci_event_handler assms(5))
qed

end
