(* ===== verification/RfcommSteps.thy ===== *)
theory RfcommSteps
  imports RfcommPackets
begin

text \<open>
  RFCOMM as a state machine: its states are changed by packets and events of L2CAP, by timers, and
  by calls of applications.  A call is \<open>allowed\<close> when its caller keeps the contract of RFCOMM:
  allocators return objects that are not in use, L2CAP delivers complete packets and accepts new
  connections, the run loop fires timers of live multiplexers.  Every allowed call in a reachable
  state returns, and keeps the invariant.
\<close>

subsection \<open>Calls\<close>

datatype rf_call = L2capPacket "nat option" byte u16 bytes | IdleTimer nat | Send u16 bytes | SendBuffer u16 u16 |
  RequestSend u16 | LineStatus u16 byte | ModemStatus u16 byte | PortConfiguration u16 byte byte byte byte byte | QueryPort u16 |
  CreateChannel "nat option" "nat option" "byte \<times> u16" nat bytes byte byte byte | Disconnect u16 | AcceptChannel u16 |
  DeclineChannel u16 | GrantCredits u16 byte | RegisterService bool nat byte u16 byte byte | UnregisterService byte

definition ignore_status :: "(rfcomm \<times> 'a) outcome \<Rightarrow> rfcomm outcome" where
  "ignore_status r = bind_outcome r (\<lambda>(s, status). Ret s)"

fun perform :: "l2cap \<Rightarrow> rf_call \<Rightarrow> rfcomm \<Rightarrow> rfcomm outcome" where
  "perform L (L2capPacket pointer packet_type channel packet) s =
     rfcomm_packet_handler L pointer packet_type channel packet (of_nat (length packet)) s"
| "perform L (IdleTimer m) s = rfcomm_multiplexer_timer_handler L m s"
| "perform L (Send cid data) s = ignore_status (rfcomm_send L cid data s)"
| "perform L (SendBuffer cid len) s = ignore_status (rfcomm_send_prepared L cid len s)"
| "perform L (RequestSend cid) s = rfcomm_request_can_send_now_event cid s"
| "perform L (LineStatus cid status) s = ignore_status (rfcomm_send_local_line_status L cid status s)"
| "perform L (ModemStatus cid status) s = ignore_status (rfcomm_send_modem_status L cid status s)"
| "perform L (PortConfiguration cid baud data stop parity flow) s =
     ignore_status (rfcomm_send_port_configuration L cid baud data stop parity flow s)"
| "perform L (QueryPort cid) s = ignore_status (rfcomm_query_port_configuration L cid s)"
| "perform L (CreateChannel mp cp create handler addr channel flow credits) s =
     ignore_status (rfcomm_channel_create_internal L mp cp create handler addr channel flow credits s)"
| "perform L (Disconnect cid) s = rfcomm_disconnect cid s"
| "perform L (AcceptChannel cid) s = rfcomm_accept_connection cid s"
| "perform L (DeclineChannel cid) s = rfcomm_decline_connection cid s"
| "perform L (GrantCredits cid credits) s = rfcomm_grant_credits cid credits s"
| "perform L (RegisterService alloc handler channel mfs flow credits) s =
     Ret (fst (rfcomm_register_service_internal alloc handler channel mfs flow credits s))"
| "perform L (UnregisterService channel) s = Ret (rfcomm_unregister_service channel s)"

text \<open>
  What callers promise.  The error paths of \<open>rfcomm_channel_create_internal\<close> leave freed objects in
  the lists: so L2CAP accepts the connection, and there is a channel when there is a new multiplexer.
\<close>

fun allowed :: "l2cap \<Rightarrow> rf_call \<Rightarrow> rfcomm \<Rightarrow> bool" where
  "allowed L (L2capPacket pointer packet_type channel packet) s \<longleftrightarrow>
     (packet_type = 4 \<longrightarrow> fresh_mux pointer s \<and> complete_event packet s) \<and>
     (packet_type = 6 \<longrightarrow> fresh_chan pointer s \<and> complete_frame packet)"
| "allowed L (IdleTimer m) s \<longleftrightarrow> m \<in> set (rfcomm_multiplexers s)"
| "allowed L (Send cid data) s \<longleftrightarrow> length data < 65536"
| "allowed L (CreateChannel mp cp create handler addr channel flow credits) s \<longleftrightarrow>
     fresh_mux mp s \<and> fresh_chan cp s \<and> fst create = 0 \<and> length addr = 6 \<and> (cp = None \<longrightarrow> mp = None)"
| "allowed L call s \<longleftrightarrow> True"

inductive rf_reachable :: "l2cap \<Rightarrow> bytes \<Rightarrow> rfcomm \<Rightarrow> bool" for L buffer where
  start: "rf_reachable L buffer (rfcomm_init buffer)"
| step: "rf_reachable L buffer s \<Longrightarrow> allowed L call s \<Longrightarrow> perform L call s = Ret s' \<Longrightarrow> rf_reachable L buffer s'"

inductive_cases rf_reachableE: "rf_reachable L buffer s"

subsection \<open>Safety of the calls\<close>

lemma returns_for_cid [wp]:
  assumes "rf_ok s" "P None" "\<And>p. p \<in> set (rfcomm_channels s) \<Longrightarrow> P (Some p)"
  shows "returns (rfcomm_channel_for_rfcomm_cid s cid) P"
  unfolding rfcomm_channel_for_rfcomm_cid_def using assms by (auto intro!: wp)

lemma returns_ignore [wp]: "returns r (\<lambda>(s', st). P s') \<Longrightarrow> returns (ignore_status r) P"
  by (cases r) (simp_all add: ignore_status_def split_def)

lemma returns_with_cid [wp]:
  assumes "rf_ok s" "P (s, 0)" "\<And>m d. m \<in> set (rfcomm_multiplexers s) \<Longrightarrow> returns (f m d s) P"
  shows "returns (with_cid cid f s) P"
  unfolding with_cid_def using assms by (auto intro!: wp)

lemma returns_send_messages [wp]:
  assumes "rf_ok s" "\<And>s' e. keeps s s' \<Longrightarrow> P (s', e)"
  shows "returns (rfcomm_send_local_line_status L cid ls s) P" "returns (rfcomm_send_modem_status L cid ms s) P"
    "returns (rfcomm_send_port_configuration L cid baud data stop parity flow s) P" "returns (rfcomm_query_port_configuration L cid s) P"
  unfolding rfcomm_send_local_line_status_def rfcomm_send_modem_status_def rfcomm_send_port_configuration_def
    rfcomm_query_port_configuration_def
  using assms by (auto intro!: wp dest: only_calls_keeps)

lemma returns_request_send [wp]:
  assumes "rf_ok s" "\<And>s'. keeps s s' \<Longrightarrow> P s'"
  shows "returns (rfcomm_request_can_send_now_event cid s) P"
  unfolding rfcomm_request_can_send_now_event_def using assms(1) by (auto intro!: wp assms(2) keepsI)

lemma returns_on_channel [wp]:
  assumes "rf_ok s" "P s"
    and "\<And>p c. p \<in> set (rfcomm_channels s) \<Longrightarrow> channel_mem s p = Some c \<Longrightarrow> multiplexer c \<in> set (rfcomm_multiplexers s) \<Longrightarrow>
      returns (f p c s) P"
  shows "returns (on_channel cid f s) P"
  unfolding on_channel_def using assms by (auto intro!: wp)

lemma returns_store [wp]:
  assumes "rf_ok s" "keeps_chan s p c" "multiplexer c \<in> set (rfcomm_multiplexers s)" "\<And>s'. keeps s s' \<Longrightarrow> channel_mem s' = (channel_mem s)(p \<mapsto> c) \<Longrightarrow> P s'"
  shows "returns (store_and_request p c s) P"
  unfolding store_and_request_def using assms(1-3) by (auto intro!: wp assms(4) keepsI)


lemma returns_on_channels [wp]:
  assumes "rf_ok s" "\<And>s'. keeps s s' \<Longrightarrow> P s'"
  shows "returns (rfcomm_disconnect cid s) P" "returns (rfcomm_decline_connection cid s) P"
    "returns (rfcomm_grant_credits cid credits s) P"
  unfolding rfcomm_disconnect_def rfcomm_decline_connection_def rfcomm_grant_credits_def
  using assms by (auto intro!: wp)

lemma returns_accept [wp]:
  assumes "rf_ok s" "\<And>s'. keeps s s' \<Longrightarrow> P s'"
  shows "returns (rfcomm_accept_connection cid s) P"
  unfolding rfcomm_accept_connection_def Let_def
  using assms(1) by (auto intro!: wp assms(2) keepsI dest!: stepD)

lemma returns_send_valid [wp]:
  assumes "rf_ok s" "p \<in> set (rfcomm_channels s)" "\<And>e. e \<noteq> 0 \<Longrightarrow> P e"
    and "\<And>c. channel_mem s p = Some c \<Longrightarrow> len \<le> max_frame_size c \<Longrightarrow> P 0"
  shows "returns (rfcomm_assert_send_valid s p len) P"
  unfolding rfcomm_assert_send_valid_def using assms by (auto intro!: wp simp: not_less)

lemma returns_uih_prepared [wp]:
  assumes "rf_ok s" "m \<in> set (rfcomm_multiplexers s)" "unat len + 5 \<le> length (out_buffer s)" "\<And>s' e. only_calls s s' \<Longrightarrow> P (s', e)"
  shows "returns (rfcomm_send_uih_prepared L m d len s) P"
proof -
  have len: "unat len + 5 < 65536" using assms(3) rf_ok_buffer [OF assms(1)] by linarith
  have u: "uint (4 + len) = uint len + 4" "uint (5 + len) = uint len + 5"
    using uint_u16 [of "4 + unat len"] uint_u16 [of "5 + unat len"] len by simp_all
  have n: "unat (5 + len) = unat len + 5"
    using unat_u16 [of "5 + unat len"] len by simp
  have b: "uint len + 5 \<le> int (length (out_buffer s))"
    using unat_le_uint [of len "length (out_buffer s) - 5"] assms(3) by linarith
  show ?thesis
    unfolding rfcomm_send_uih_prepared_def Let_def
    using assms(1-3) rf_ok_buffer [OF assms(1)] len b
    by (auto intro!: wp assms(4) simp: buffer_ok u only_calls_def keeps_def)
qed

lemma chan_fits_len:
  assumes "rf_ok s" "channel_mem s p = Some c" "len \<le> max_frame_size c"
  shows "unat len + 5 \<le> length (out_buffer s)"
  using rf_ok_chan(4) [OF assms(1,2)] assms(3) by (simp add: chan_fits_def word_le_nat_alt)

lemma returns_send_prepared [wp]:
  assumes "rf_ok s" "\<And>s' e. keeps s s' \<Longrightarrow> P (s', e)"
  shows "returns (rfcomm_send_prepared L cid len s) P"
proof -
  have ok: "P (s, e)" for e by (rule assms(2)) (use assms(1) in simp)
  have sent: "returns (bind_outcome (rfcomm_send_uih_prepared L m d len s') (\<lambda>(s, result).
             if result \<noteq> 0 then
               bind_outcome (if len \<noteq> 0 then upd_chan p (\<lambda>c. c\<lparr>credits_outgoing := credits_outgoing c + 1\<rparr>) s else Ret s)
                 (\<lambda>s. Ret (s, result))
             else Ret (s, result))) P"
    if "keeps s s'" "m \<in> set (rfcomm_multiplexers s)" "p \<in> set (rfcomm_channels s)" "unat len + 5 \<le> length (out_buffer s)" for s' m d p
    using that keepsD [OF that(1)] by (auto intro!: wp assms(2) keepsI dest!: only_callsD)
  have send: "returns (let s = (if len \<noteq> 0 then set_chan p (c\<lparr>credits_outgoing := credits_outgoing c - 1\<rparr>) s else s) in
             bind_outcome (rfcomm_send_uih_prepared L (multiplexer c) (dlci c) len s) (\<lambda>(s, result).
             if result \<noteq> 0 then
               bind_outcome (if len \<noteq> 0 then upd_chan p (\<lambda>c. c\<lparr>credits_outgoing := credits_outgoing c + 1\<rparr>) s else Ret s)
                 (\<lambda>s. Ret (s, result))
             else Ret (s, result))) P"
    if "p \<in> set (rfcomm_channels s)" "channel_mem s p = Some c" "len \<le> max_frame_size c" for p c
    unfolding Let_def using that rf_ok_chan(2) [OF assms(1) that(2)] chan_fits_len [OF assms(1) that(2,3)] assms(1)
    by (intro sent) (simp_all add: keepsI)
  show ?thesis
    unfolding rfcomm_send_prepared_def
    using assms(1) by (auto intro!: returns_bind returns_for_cid returns_send_valid returns_chan
      returns_mux returns_if returns_Ret send ok)
qed


lemma returns_send [wp]:
  assumes "rf_ok s" "length data < 65536" "\<And>s'. rf_ok s' \<Longrightarrow> length (out_buffer s') = length (out_buffer s) \<Longrightarrow> Q s'"
  shows "returns (rfcomm_send L cid data s) (\<lambda>(s', e). Q s')"
proof -
  have ok: "Q s" by (rule assms(3)) (use assms(1) in simp_all)
  have send: "returns (let s = rfcomm_reserve_packet_buffer s in
             bind_outcome (wr_block (out_buffer s) rfcomm_get_outgoing_buffer data) (\<lambda>buf.
             bind_outcome (rfcomm_send_prepared L cid (of_nat (length data)) (s\<lparr>out_buffer := buf\<rparr>)) (\<lambda>(s, err).
             Ret (if err \<noteq> 0 then rfcomm_release_packet_buffer s else s, err)))) (\<lambda>(s', e). Q s')"
    if c: "channel_mem s p = Some c" "of_nat (length data) \<le> max_frame_size c" for p c
  proof -
    have "length data + 5 \<le> length (out_buffer s)"
      using chan_fits_len [OF assms(1) c] unat_u16 [OF assms(2)] by simp
    then show ?thesis
      unfolding Let_def rfcomm_reserve_packet_buffer_def rfcomm_release_packet_buffer_def rfcomm_get_outgoing_buffer_def
      using assms(1) by (auto intro!: wp assms(3) simp: buffer_ok dest!: stepD)
  qed
  show ?thesis
    unfolding rfcomm_send_def
    using assms(1) by (auto intro!: returns_bind returns_for_cid returns_send_valid returns_chan returns_mux returns_if
      returns_Ret send ok)
qed

subsection \<open>Connections and services\<close>

lemma services_ok [simp]:
  "rf_ok (s\<lparr>rfcomm_services := x\<rparr>) = rf_ok s" "out_buffer (s\<lparr>rfcomm_services := x\<rparr>) = out_buffer s"
  by (simp_all add: rf_ok_def chan_fits_def mux_fits_def)

lemma register_ok:
  assumes "rf_ok s"
  shows "rf_ok (fst (rfcomm_register_service_internal alloc handler channel mfs flow credits s))"
    "out_buffer (fst (rfcomm_register_service_internal alloc handler channel mfs flow credits s)) = out_buffer s"
    "rf_ok (rfcomm_unregister_service channel s)" "out_buffer (rfcomm_unregister_service channel s) = out_buffer s"
  using assms by (simp_all add: rfcomm_register_service_internal_def rfcomm_unregister_service_def Let_def split: option.split)

lemma mux_free_new:
  assumes "rf_ok s" "m \<in> set (rfcomm_multiplexers s)" "\<And>p c. channel_mem s p = Some c \<Longrightarrow> multiplexer c \<noteq> m"
  shows "rfcomm_channel_for_multiplexer_and_dlci s m d = Ret None"
proof -
  have live: "\<exists>y. channel_mem s x = Some y" if "x \<in> set (rfcomm_channels s)" for x
    using that rf_ok_muxes(2) [OF assms(1)] by blast
  have "returns (rfcomm_channel_for_multiplexer_and_dlci s m d) (\<lambda>r. r = None)"
    unfolding rfcomm_channel_for_multiplexer_and_dlci_def
    using assms(3) by (auto intro!: returns_find_out simp: chan_def split: option.splits dest: live)
  then show ?thesis by (auto elim: returnsE)
qed

lemma fresh_chan_eq: "rfcomm_channels s' = rfcomm_channels s \<Longrightarrow> fresh_chan cp s' = fresh_chan cp s"
  by (cases cp) (simp_all add: fresh_chan_def)

lemma keeps_chan_setup [simp]:
  "keeps_chan s p (c\<lparr>incoming_flow_control := flow, new_credits_incoming := credits, packet_handler := handler\<rparr>) = keeps_chan s p c"
  "chan_id (c\<lparr>incoming_flow_control := flow, new_credits_incoming := credits, packet_handler := handler\<rparr>) = chan_id c"
  by (simp_all add: keeps_chan_def chan_id_def split: option.splits)

lemma returns_create_channel_on:
  assumes "rf_ok s" "m \<in> set (rfcomm_multiplexers s)" "fresh_chan cp s"
    and P: "\<And>s' v. rf_ok s' \<Longrightarrow> length (out_buffer s') = length (out_buffer s) \<Longrightarrow> P (s', v)"
    and new: "new_multiplexer \<Longrightarrow> cp \<noteq> None \<and> (\<forall>p c. channel_mem s p = Some c \<longrightarrow> multiplexer c \<noteq> m)" and "fst create = 0"
  shows "returns (create_channel_on L new_multiplexer m x cp create handler addr channel flow credits s) P"
proof -
  have found: "\<not> new_multiplexer" if "rfcomm_channel_for_multiplexer_and_dlci s m d = Ret (Some p)" for d p
    using mux_free_new [OF assms(1,2)] new that by fastforce
  have create: "returns (rfcomm_channel_create cp m None channel s) Q"
    if "\<not> new_multiplexer \<Longrightarrow> Q (s, None)" "\<And>p s'. created p s s' \<Longrightarrow> Q (s', Some p)" for Q
    using assms(1-3) new that by (intro returns_create) (auto simp: fresh_chan_def)
  obtain r where r: "rfcomm_channel_for_multiplexer_and_dlci s m (push_bit 1 channel OR (outgoing x XOR 1)) = Ret r"
    by (rule returnsE [OF returns_for_dlci [OF assms(1), of "\<lambda>_. True"]]) auto
  show ?thesis
  proof (cases r)
    case None
    then show ?thesis
      unfolding create_channel_on_def Let_def r bind_outcome_simps using assms(1,2,6)
      by (auto intro!: returns_bind create returns_upd_chan returns_chan returns_if returns_upd_mux returns_Ret P
        simp: created_def)
  next
    case (Some p)
    then show ?thesis
      unfolding create_channel_on_def Let_def r bind_outcome_simps
      using found [of _ p] r assms(1) by (auto intro!: P)
  qed
qed

lemma returns_create_internal [wp]:
  assumes "rf_ok s" "l2cap_fits L s" "allowed L (CreateChannel mp cp create handler addr channel flow credits) s"
    and P: "\<And>s' v. rf_ok s' \<Longrightarrow> length (out_buffer s') = length (out_buffer s) \<Longrightarrow> P (s', v)"
  shows "returns (rfcomm_channel_create_internal L mp cp create handler addr channel flow credits s) P"
  unfolding rfcomm_channel_create_internal_def
proof (rule returns_bind, rule returns_for_addr(1), rule assms(1), unfold option.case)
  have fresh: "fresh_mux mp s" "fresh_chan cp s" "fst create = 0" "length addr = 6" "cp = None \<Longrightarrow> mp = None"
    using assms(3) by simp_all
  show "returns (case rfcomm_multiplexer_create_for_addr L mp addr s of (s, None) \<Rightarrow> Ret (s, 0x56, None)
     | (s, Some m) \<Rightarrow>
         bind_outcome (if None = None then
           upd_mux m (\<lambda>x. x\<lparr>outgoing := 1, mux_state := RFCOMM_MULTIPLEXER_W4_CONNECT\<rparr>) s else Ret s) (\<lambda>s.
         bind_outcome (mux s m) (\<lambda>x.
         create_channel_on L (None = None) m x cp create handler addr channel flow credits s))) P"
  proof (cases mp)
    case None
    then show ?thesis using assms(1) by (auto simp: rfcomm_multiplexer_create_for_addr_def intro: P)
  next
    case (Some m)
    obtain s' r where cr: "rfcomm_multiplexer_create_for_addr L (Some m) addr s = (s', r)" by fastforce
    note new = mux_create_ok [OF assms(1) fresh(1) [unfolded Some] assms(2) fresh(4) cr]
    have none: "multiplexer c \<noteq> m" if "channel_mem s' p = Some c" for p c
      using rf_ok_chan(2) [OF assms(1), of p c] that new(7) fresh(1) Some by (auto simp: fresh_mux_def)
    define f :: "rfcomm_multiplexer \<Rightarrow> rfcomm_multiplexer" where "f = (\<lambda>x. x\<lparr>outgoing := 1, mux_state := RFCOMM_MULTIPLEXER_W4_CONNECT\<rparr>)"
    have s2: "rf_ok (set_mux m (f x) s')" "fresh_chan cp (set_mux m (f x) s')"
      "\<forall>p c. channel_mem (set_mux m (f x) s') p = Some c \<longrightarrow> multiplexer c \<noteq> m" if "mux_mem s' m = Some x" for x
      using rf_ok_mux [OF new(1) that] new(1) fresh(2) none fresh_chan_eq [of "set_mux m (f x) s'" s cp] new(5)
      by (simp_all add: f_def keeps_mux_def mux_fits_def)
    have "returns (bind_outcome (upd_mux m f s') (\<lambda>s. bind_outcome (mux s m) (\<lambda>x.
        create_channel_on L True m x cp create handler addr channel flow credits s))) P"
      using new(1,3,4) fresh(3,5) Some s2
      by (auto intro!: returns_bind returns_upd_mux returns_mux returns_create_channel_on P) blast
    then show ?thesis unfolding Some cr new(2) f_def by simp
  qed
next
  fix n assume n: "n \<in> set (rfcomm_multiplexers s)"
  show "returns (case (s, Some n) of (s, None) \<Rightarrow> Ret (s, 0x56, None)
     | (s, Some m) \<Rightarrow>
         bind_outcome (if Some n = None then
           upd_mux m (\<lambda>x. x\<lparr>outgoing := 1, mux_state := RFCOMM_MULTIPLEXER_W4_CONNECT\<rparr>) s else Ret s) (\<lambda>s.
         bind_outcome (mux s m) (\<lambda>x.
         create_channel_on L (Some n = None) m x cp create handler addr channel flow credits s))) P"
    using n assms(1,3) by (auto intro!: returns_bind returns_mux returns_create_channel_on P)
qed


subsection \<open>All calls\<close>

lemma keepsD': "keeps s s' \<Longrightarrow> rf_ok s'" "keeps s s' \<Longrightarrow> length (out_buffer s') = length (out_buffer s)"
  using keepsD by blast+

lemma returns_perform:
  assumes "rf_ok s" "l2cap_fits L s" "allowed L call s"
  shows "returns (perform L call s) (\<lambda>s'. rf_ok s' \<and> length (out_buffer s') = length (out_buffer s))"
  using assms
  by (cases call) (auto intro!: wp dest: keepsD' simp: register_ok fresh_chan_def)

lemma init_ok: "16 \<le> length buffer \<Longrightarrow> length buffer < 65536 \<Longrightarrow> rf_ok (rfcomm_init buffer)"
  by (simp add: rf_ok_def rfcomm_init_def)

lemma reachable_ok:
  assumes "rf_reachable L buffer s" "16 \<le> length buffer" "length buffer < 65536" "5 \<le> unat (max_mtu L)" "unat (max_mtu L) \<le> length buffer"
  shows "rf_ok s \<and> length (out_buffer s) = length buffer"
  using assms(1)
proof (induction rule: rf_reachable.induct)
  case start
  then show ?case using init_ok assms(2,3) by (simp add: rfcomm_init_def)
next
  case (step s call s')
  have "returns (perform L call s) (\<lambda>s'. rf_ok s' \<and> length (out_buffer s') = length (out_buffer s))"
    using step assms(4,5) by (intro returns_perform) (simp_all add: l2cap_fits_def)
  then show ?case using step by simp
qed

end
