(* ===== verification/RfcommData.thy ===== *)
theory RfcommData
  imports RfcommSteps
begin

text \<open>
  What RFCOMM puts on the wire for the data of an application, and what it takes from a frame: exact
  results of \<open>rfcomm_send\<close> and of \<open>rfcomm_packet_handler\<close> on the frames it produces.
\<close>

subsection \<open>Lookups\<close>

lemma find_out_find: "(\<And>x. x \<in> set xs \<Longrightarrow> Q x = Ret (R x)) \<Longrightarrow> find_out Q xs = Ret (find R xs)"
  by (induction xs) auto

lemma find_unique:
  assumes "x \<in> set xs" "R x" "\<And>y. y \<in> set xs \<Longrightarrow> R y \<Longrightarrow> y = x"
  shows "find R xs = Some x"
proof (cases "find R xs")
  case None
  then show ?thesis using assms(1,2) by (simp add: find_None_iff)
next
  case (Some y)
  then have "y \<in> set xs" "R y" by (auto simp: find_Some_iff)
  then show ?thesis using Some assms(3) by simp
qed

lemma live_chan: "rf_ok s \<Longrightarrow> p \<in> set (rfcomm_channels s) \<Longrightarrow> \<exists>c. channel_mem s p = Some c"
  using rf_ok_muxes(2) by blast

lemma live_mux: "rf_ok s \<Longrightarrow> m \<in> set (rfcomm_multiplexers s) \<Longrightarrow> \<exists>x. mux_mem s m = Some x"
  using rf_ok_muxes(1) by blast

lemma for_cid_eq:
  assumes "rf_ok s" "channel_mem s p = Some c"
  shows "rfcomm_channel_for_rfcomm_cid s (rfcomm_cid c) = Ret (Some p)"
proof -
  let ?R = "\<lambda>q. rfcomm_cid (the (channel_mem s q)) = rfcomm_cid c"
  have "rfcomm_channel_for_rfcomm_cid s (rfcomm_cid c) = Ret (find ?R (rfcomm_channels s))"
    unfolding rfcomm_channel_for_rfcomm_cid_def
    by (rule find_out_find) (use live_chan [OF assms(1)] in \<open>fastforce simp: chan_def\<close>)
  also have "find ?R (rfcomm_channels s) = Some p"
  proof (rule find_unique)
    show "p \<in> set (rfcomm_channels s)" by (rule rf_ok_chan(1) [OF assms])
    show "q = p" if "q \<in> set (rfcomm_channels s)" "?R q" for q
      using live_chan [OF assms(1) that(1)] that(2) rf_ok_inj [OF assms(1) _ assms(2)] by auto
  qed (use assms(2) in simp)
  finally show ?thesis .
qed

lemma chan_mux:
  assumes "rf_ok s" "channel_mem s p = Some c"
  obtains x where "mux_mem s (multiplexer c) = Some x"
  using live_mux [OF assms(1)] rf_ok_chan(2) [OF assms] by blast

subsection \<open>Frames with data\<close>

text \<open>Address, control UIH, the length in two bytes, the data and the checksum of the first two bytes.\<close>

definition uih_header :: "byte \<Rightarrow> u16 \<Rightarrow> bytes" where
  "uih_header address len = [address, 0xEF, ucast (push_bit 1 (len AND 0x7F)), ucast (drop_bit 7 len)]"

definition uih_frame :: "byte \<Rightarrow> bytes \<Rightarrow> bytes" where
  "uih_frame address data = uih_header address (of_nat (length data)) @ data @ [btstack_crc8_calc [address, 0xEF]]"

lemma uih_header_simps [simp]: "length (uih_header a n) = 4" "length (uih_frame a data) = length data + 5"
  by (simp_all add: uih_header_def uih_frame_def)

lemma uih_prepared_frame:
  fixes L :: l2cap
  assumes "mux_mem s m = Some x" "holds_at (out_buffer s) 4 data" "length data + 5 \<le> length (out_buffer s)"
    and "length (out_buffer s) < 65536"
  defines "st \<equiv> send_status L (frames s) (l2cap_cid x)"
  obtains buf where "length buf = length (out_buffer s)"
    "rfcomm_send_uih_prepared L m d (of_nat (length data)) s =
       Ret (act (SendPrepared (l2cap_cid x) (uih_frame (cmd_address x d) data) st) (s\<lparr>out_buffer := buf, frames := frames s + 1\<rparr>), st)"
proof -
  let ?n = "of_nat (length data) :: u16" and ?a = "cmd_address x d"
  have u: "uint (4 + ?n) = int (length data) + 4" "unat (4 + ?n + 1) = length data + 5"
    using uint_u16 [of "4 + length data"] unat_u16 [of "5 + length data"] assms(3,4) by simp_all
  obtain b1 where b1: "wr_block (out_buffer s) 0 (uih_header ?a ?n) = Ret b1" "length b1 = length (out_buffer s)"
      "holds_at b1 0 (uih_header ?a ?n)" "holds_at b1 4 data"
  proof (rule wr_block_Ret [of 0 "uih_header ?a ?n" "out_buffer s"])
    fix b assume b: "wr_block (out_buffer s) 0 (uih_header ?a ?n) = Ret b" "length b = length (out_buffer s)"
      "holds_at b 0 (uih_header ?a ?n)" "\<And>q xs. holds_at (out_buffer s) q xs \<Longrightarrow>
        q + int (length xs) \<le> 0 \<or> 0 + int (length (uih_header ?a ?n)) \<le> q \<Longrightarrow> holds_at b q xs"
    then show thesis using assms(2) by (intro that [of b]) simp_all
  qed (use assms(3) in simp_all)
  have fcs: "rd_block b1 0 2 = Ret [?a, 0xEF]"
    using b1(3) holds_at_append [of b1 0 "[?a, 0xEF]" "drop 2 (uih_header ?a ?n)"]
    by (intro holds_at_block) (simp_all add: uih_header_def)
  obtain b2 where b2: "wr b1 (int (length data) + 4) (btstack_crc8_calc [?a, 0xEF]) = Ret b2"
      "holds_at b2 (int (length data) + 4) [btstack_crc8_calc [?a, 0xEF]]" "holds_at b2 0 (uih_header ?a ?n)" "holds_at b2 4 data"
      "length b2 = length b1"
  proof (rule wr_block_Ret [of "int (length data) + 4" "[btstack_crc8_calc [?a, 0xEF]]" b1])
    fix b assume b: "wr_block b1 (int (length data) + 4) [btstack_crc8_calc [?a, 0xEF]] = Ret b" "length b = length b1"
      "holds_at b (int (length data) + 4) [btstack_crc8_calc [?a, 0xEF]]" "\<And>q xs. holds_at b1 q xs \<Longrightarrow>
        q + int (length xs) \<le> int (length data) + 4 \<or>
        int (length data) + 4 + int (length [btstack_crc8_calc [?a, 0xEF]]) \<le> q \<Longrightarrow> holds_at b q xs"
    then show thesis using b1(3,4) by (intro that [of b]) (simp_all add: wr_as_block)
  qed (use b1(2) assms(3) in simp_all)
  have frame: "rd_block b2 0 (length data + 5) = Ret (uih_frame ?a data)"
    using b2(2-4) by (intro holds_at_block) (simp_all add: uih_frame_def holds_at_append add.commute)
  have "rfcomm_send_uih_prepared L m d ?n s =
       Ret (act (SendPrepared (l2cap_cid x) (uih_frame ?a data) st) (s\<lparr>out_buffer := b2, frames := frames s + 1\<rparr>), st)"
    unfolding rfcomm_send_uih_prepared_def Let_def mux_def cmd_address_def [symmetric] uih_header_def [symmetric]
    using b1 b2 fcs frame u assms(1) by (simp add: send_prepared_to_l2cap_def st_def Let_def)
  then show thesis using b1(2) b2(5) by (intro that [of b2]) simp_all
qed


lemma act_trace [simp]: "frames (act a s) = frames s" "trace (act a s) = trace s @ [a]"
  "frames (set_chan p c s) = frames s" "trace (set_chan p c s) = trace s"
  by (simp_all add: act_def set_chan_def)

text \<open>The conditions for sending, and the whole effect of a send.\<close>

definition ready_to_send :: "l2cap \<Rightarrow> rfcomm \<Rightarrow> rfcomm_channel \<Rightarrow> rfcomm_multiplexer \<Rightarrow> bool" where
  "ready_to_send L s c x \<longleftrightarrow> credits_outgoing c \<noteq> 0 \<and> fcon x AND 1 \<noteq> 0 \<and> can_send L (frames s) (l2cap_cid x) \<and>
     can_send_prepared L (frames s) (l2cap_cid x) \<and> send_status L (frames s) (l2cap_cid x) = 0"

lemma send_prepared_result:
  fixes L :: l2cap
  assumes "rf_ok s" "channel_mem s p = Some c" "mux_mem s (multiplexer c) = Some x" "ready_to_send L s c x"
    and "data \<noteq> []" "length data \<le> unat (max_frame_size c)" "holds_at (out_buffer s) 4 data"
  obtains s' where "rfcomm_send_prepared L (rfcomm_cid c) (of_nat (length data)) s = Ret (s', 0)"
    "trace s' = trace s @ [SendPrepared (l2cap_cid x) (uih_frame (cmd_address x (dlci c)) data) 0]"
    "channel_mem s' = (channel_mem s)(p \<mapsto> c\<lparr>credits_outgoing := credits_outgoing c - 1\<rparr>)" "mux_mem s' = mux_mem s"
proof -
  let ?n = "of_nat (length data) :: u16" and ?c = "c\<lparr>credits_outgoing := credits_outgoing c - 1\<rparr>"
  let ?s = "set_chan p ?c s"
  have fits: "length data + 5 \<le> length (out_buffer s)" "length (out_buffer s) < 65536"
    using rf_ok_chan(4) [OF assms(1,2)] rf_ok_buffer [OF assms(1)] assms(6) by (simp_all add: chan_fits_def)
  then have un: "unat ?n = length data" by (intro unat_u16) linarith
  have valid: "rfcomm_assert_send_valid s p ?n = Ret 0"
    using assms(2-4,6) un by (simp add: rfcomm_assert_send_valid_def chan_def mux_def ready_to_send_def word_less_nat_alt)
  have ne: "?n \<noteq> 0" using un assms(5) by auto
  obtain buf where buf: "rfcomm_send_uih_prepared L (multiplexer c) (dlci c) ?n ?s =
       Ret (act (SendPrepared (l2cap_cid x) (uih_frame (cmd_address x (dlci c)) data) 0) (?s\<lparr>out_buffer := buf, frames := frames ?s + 1\<rparr>), 0)"
  proof (rule uih_prepared_frame [where s = ?s and m = "multiplexer c" and x = x and data = data and d = "dlci c" and L = L])
    fix buf assume "rfcomm_send_uih_prepared L (multiplexer c) (dlci c) (word_of_nat (length data)) ?s =
      Ret (act (SendPrepared (l2cap_cid x) (uih_frame (cmd_address x (dlci c)) data) (send_status L (frames ?s) (l2cap_cid x)))
        (?s\<lparr>out_buffer := buf, frames := frames ?s + 1\<rparr>), send_status L (frames ?s) (l2cap_cid x))"
    moreover have "frames ?s = frames s" by (simp add: set_chan_def)
    ultimately show thesis using that assms(4) by (simp add: ready_to_send_def)
  qed (use assms(3,7) fits in simp_all)
  have "rfcomm_send_prepared L (rfcomm_cid c) ?n s =
      Ret (act (SendPrepared (l2cap_cid x) (uih_frame (cmd_address x (dlci c)) data) 0) (?s\<lparr>out_buffer := buf, frames := frames ?s + 1\<rparr>), 0)"
    unfolding rfcomm_send_prepared_def for_cid_eq [OF assms(1,2)] bind_outcome_simps option.case valid
    using assms(2-4) ne buf by (simp add: chan_def mux_def ready_to_send_def Let_def)
  then show thesis by (rule that) simp_all
qed

lemma send_result:
  fixes L :: l2cap
  assumes "rf_ok s" "channel_mem s p = Some c" "mux_mem s (multiplexer c) = Some x" "ready_to_send L s c x"
    and "data \<noteq> []" "length data \<le> unat (max_frame_size c)"
  obtains s' where "rfcomm_send L (rfcomm_cid c) data s = Ret (s', 0)"
    "trace s' = trace s @ [ReserveBuffer, SendPrepared (l2cap_cid x) (uih_frame (cmd_address x (dlci c)) data) 0]"
    "channel_mem s' = (channel_mem s)(p \<mapsto> c\<lparr>credits_outgoing := credits_outgoing c - 1\<rparr>)" "mux_mem s' = mux_mem s"
proof -
  let ?n = "of_nat (length data) :: u16"
  have fits: "length data + 5 \<le> length (out_buffer s)" "length (out_buffer s) < 65536"
    using rf_ok_chan(4) [OF assms(1,2)] rf_ok_buffer [OF assms(1)] assms(6) by (simp_all add: chan_fits_def)
  then have un: "unat ?n = length data" by (intro unat_u16) linarith
  have valid: "rfcomm_assert_send_valid s p ?n = Ret 0"
    using assms(2-4,6) un by (simp add: rfcomm_assert_send_valid_def chan_def mux_def ready_to_send_def word_less_nat_alt)
  obtain buf where buf: "wr_block (out_buffer s) 4 data = Ret buf" "length buf = length (out_buffer s)" "holds_at buf 4 data"
    by (rule wr_block_Ret [of 4 data "out_buffer s"]) (use fits that in simp_all)
  let ?s = "(act ReserveBuffer s)\<lparr>out_buffer := buf\<rparr>"
  have s: "rf_ok ?s" "channel_mem ?s = channel_mem s" "mux_mem ?s = mux_mem s" "frames ?s = frames s"
    "trace ?s = trace s @ [ReserveBuffer]" "out_buffer ?s = buf"
    using assms(1) buf(2) by (simp_all add: buffer_ok)
  obtain s' where s': "rfcomm_send_prepared L (rfcomm_cid c) ?n ?s = Ret (s', 0)"
    "trace s' = trace ?s @ [SendPrepared (l2cap_cid x) (uih_frame (cmd_address x (dlci c)) data) 0]"
    "channel_mem s' = (channel_mem ?s)(p \<mapsto> c\<lparr>credits_outgoing := credits_outgoing c - 1\<rparr>)" "mux_mem s' = mux_mem ?s"
    by (rule send_prepared_result [where s = ?s and p = p and c = c and x = x and L = L and data = data]) (use assms s buf(3) in \<open>simp_all add: ready_to_send_def\<close>)
  have "rfcomm_send L (rfcomm_cid c) data s = Ret (s', 0)"
    unfolding rfcomm_send_def for_cid_eq [OF assms(1,2)] bind_outcome_simps option.case valid
    using assms(2-4) buf(1) s'(1)
    by (simp add: chan_def mux_def ready_to_send_def Let_def rfcomm_reserve_packet_buffer_def rfcomm_get_outgoing_buffer_def)
  then show thesis by (rule that) (use s'(2-4) s in simp_all)
qed


subsection \<open>Received data\<close>

text \<open>The state of a receiver with an open multiplexer on the L2CAP channel and a channel for the address.\<close>

definition receives :: "rfcomm \<Rightarrow> u16 \<Rightarrow> byte \<Rightarrow> nat \<Rightarrow> nat \<Rightarrow> bool" where
  "receives s cid d m q \<longleftrightarrow> rf_ok s \<and> rfcomm_multiplexer_for_l2cap_cid s cid = Ret (Some m) \<and>
     m \<in> set (rfcomm_multiplexers s) \<and> q \<in> set (rfcomm_channels s) \<and>
     (case mux_mem s m of None \<Rightarrow> False | Some x \<Rightarrow> mux_state x = RFCOMM_MULTIPLEXER_OPEN) \<and>
     rfcomm_channel_for_multiplexer_and_dlci s m d = Ret (Some q) \<and>
     (case channel_mem s q of None \<Rightarrow> False | Some c \<Rightarrow> multiplexer c = m)"

lemma address_dlci:
  assumes "d < 64" "v = 0 \<or> v = 1"
  shows "drop_bit 2 (1 OR push_bit 1 v OR push_bit 2 d :: byte) = d"
proof -
  have "drop_bit 2 (push_bit 2 d :: byte) = take_bit 6 d" by (rule bit_word_eqI) (auto simp: bit_simps)
  also have "\<dots> = d"
    using assms(1) by (simp add: word_unat_eq_iff word_less_nat_alt unsigned_take_bit_eq take_bit_nat_eq_self)
  finally show ?thesis using assms(2) by (auto simp: drop_bit_or)
qed

lemma even_length_byte: "(ucast (w AND 254 :: u16) :: byte) AND 1 = 0"
proof (rule bit_word_eqI)
  fix n
  show "bit ((ucast (w AND 254 :: u16) :: byte) AND 1) n = bit 0 n" by (cases n) (simp_all add: bit_simps)
qed

lemma payload_at:
  assumes "length data < 65531"
  shows "payload_offset 0xEF (uih_frame a data ! 2) = 4" "rd_block (uih_frame a data) 4 (length data) = Ret data"
    "rd (uih_frame a data) 0 = Ret a" "rd (uih_frame a data) 1 = Ret 0xEF" "rd (uih_frame a data) 2 = Ret (uih_frame a data ! 2)"
proof -
  show "payload_offset 0xEF (uih_frame a data ! 2) = 4"
    by (simp add: payload_offset_def uih_frame_def uih_header_def even_length_byte)
  show "rd_block (uih_frame a data) 4 (length data) = Ret data"
    by (simp add: rd_block_def) (simp add: uih_frame_def)
  show "rd (uih_frame a data) 0 = Ret a" "rd (uih_frame a data) 1 = Ret 0xEF" "rd (uih_frame a data) 2 = Ret (uih_frame a data ! 2)"
    by (simp_all add: rd_def) (simp_all add: uih_frame_def uih_header_def)
qed

lemma frame_delivered:
  assumes "receives s cid d m q" "channel_mem s q = Some c" "data \<noteq> []" "length data < 65531" "drop_bit 2 a = d" "d \<noteq> 0"
  obtains s' calls where "rfcomm_packet_handler L pointer 6 cid (uih_frame a data) (of_nat (length (uih_frame a data))) s = Ret s'"
    "trace s' = trace s @ Callback (packet_handler c) 7 (rfcomm_cid c) data # calls" "\<forall>a \<in> set calls. \<exists>l. a = RequestCanSendNow l"
proof -
  let ?f = "uih_frame a data"
  let ?sz = "of_nat (length ?f) :: u16"
  obtain x where x: "mux_mem s m = Some x" "mux_state x = RFCOMM_MULTIPLEXER_OPEN"
    and m: "rfcomm_multiplexer_for_l2cap_cid s cid = Ret (Some m)" "rfcomm_channel_for_multiplexer_and_dlci s m d = Ret (Some q)"
    using assms(1) by (auto simp: receives_def split: option.splits)
  note rd = payload_at [OF assms(4), of a]
  have sz: "uint ?sz = int (length data) + 5" using uint_u16 [of "length data + 5"] assms(4) by simp
  have mux_skips: "rfcomm_multiplexer_l2cap_packet_handler L cid ?f ?sz s = Ret (s, False)"
    unfolding rfcomm_multiplexer_l2cap_packet_handler_def m bind_outcome_simps option.case
    using x assms(5,6) rd(3) by (simp add: mux_def)
  have handler: "rfcomm_packet_handler L pointer 6 cid ?f ?sz s = rfcomm_channel_packet_handler_uih L m ?f ?sz s"
    unfolding rfcomm_packet_handler_def mux_skips m bind_outcome_simps option.case split_conv
    using x assms(5,6) rd(3,4) by (simp add: mux_def)
  define c1 where "c1 = c\<lparr>credits_incoming := (if credits_incoming c > 0 then credits_incoming c - 1 else credits_incoming c)\<rparr>"
  have c1: "packet_handler c1 = packet_handler c" "rfcomm_cid c1 = rfcomm_cid c" by (simp_all add: c1_def)
  define s1 where "s1 = call_handler (packet_handler c) 7 (rfcomm_cid c) data (set_chan q c1 s)"
  define more where "more = (incoming_flow_control c1 = 0 \<and> credits_incoming c1 < 5)"
  define s2 where "s2 = (if more then set_chan q (c1\<lparr>new_credits_incoming := RFCOMM_CREDITS\<rparr>) s1 else s1)"
  have s1: "channel_mem s1 q = Some c1" "mux_mem s1 m = Some x" "trace s1 = trace s @ [Callback (packet_handler c) 7 (rfcomm_cid c) data]"
    using x by (simp_all add: s1_def call_handler_def)
  have s2: "mux_mem s2 m = Some x" "trace s2 = trace s1" using s1 by (simp_all add: s2_def)
  have data_part: "bind_outcome (upd_chan q (\<lambda>c. c\<lparr>credits_incoming :=
                (if credits_incoming c > 0 then credits_incoming c - 1 else credits_incoming c)\<rparr>) s) (\<lambda>s.
              bind_outcome (rd_block ?f 4 (nat (uint ?sz - 4 - 1))) (\<lambda>data.
              bind_outcome (chan s q) (\<lambda>c.
              Ret (call_handler (packet_handler c) 7 (rfcomm_cid c) data s)))) = Ret s1"
    unfolding sz using assms(2) rd(2) by (simp add: upd_chan_def chan_def c1_def [symmetric] s1_def c1)
  have "rfcomm_channel_packet_handler_uih L m ?f ?sz s =
      Ret (if more then act (RequestCanSendNow (l2cap_cid x)) s2 else s2)"
    unfolding rfcomm_channel_packet_handler_uih_def rd(3-5) bind_outcome_simps Let_def [of "payload_offset _ _"] rd(1) assms(5) m
      option.case
    using data_part sz assms(3) s1 s2
    by (simp add: chan_def mux_def Let_def more_def [symmetric] s2_def)
  then have "rfcomm_packet_handler L pointer 6 cid ?f ?sz s = Ret (if more then act (RequestCanSendNow (l2cap_cid x)) s2 else s2)"
    unfolding handler .
  then show thesis
    by (rule that [where calls = "if more then [RequestCanSendNow (l2cap_cid x)] else []"]) (simp_all add: s1 s2)
qed

end
