(* ===== verification/RfcommProps.thy ===== *)
theory RfcommProps
  imports RfcommData
begin

text \<open>
  The properties of RFCOMM: every allowed call in a reachable state returns, data arrives as it was
  sent, channels get set up, and where the error paths go wrong.
\<close>

subsection \<open>Setting up a channel\<close>

text \<open>Events for one channel, one after the other, as long as it exists.\<close>

fun run_events :: "l2cap \<Rightarrow> nat \<Rightarrow> rfcomm_channel_event list \<Rightarrow> rfcomm \<Rightarrow> (rfcomm \<times> bool) outcome" where
  "run_events L p [] s = Ret (s, True)"
| "run_events L p (e # es) s =
     bind_outcome (rfcomm_channel_state_machine_with_channel L p e s) (\<lambda>(s, valid).
     if valid then run_events L p es s else Ret (s, False))"

definition has_chan :: "rfcomm \<Rightarrow> nat \<Rightarrow> rfcomm_channel \<Rightarrow> bool" where
  "has_chan s p c \<longleftrightarrow> rf_ok s \<and> channel_mem s p = Some c"

lemma run_step:
  assumes "returns (rfcomm_channel_state_machine_with_channel L p e s) (\<lambda>(s', v). v \<and> Q s')"
    and "\<And>s'. Q s' \<Longrightarrow> returns (run_events L p es s') P"
  shows "returns (run_events L p (e # es) s) P"
  using assms by (auto elim!: returnsE)

text \<open>No message is pending that goes out before the setup.\<close>

definition quiet :: "rfcomm_channel \<Rightarrow> bool" where
  "quiet c \<longleftrightarrow> \<not> has_flag c SEND_RPN_RSP \<and> \<not> has_flag c SEND_MSC_RSP \<and> rls_line_status c = RFCOMM_RLS_STATUS_INVALID"

lemma has_chanD: "has_chan s p c \<Longrightarrow> rf_ok s \<and> channel_mem s p = Some c \<and> p \<in> set (rfcomm_channels s) \<and> multiplexer c \<in> set (rfcomm_multiplexers s)"
  using rf_ok_chan by (auto simp: has_chan_def)

lemma keeps_chan_limit [simp]: "channel_mem s p = Some c \<Longrightarrow> keeps_chan s p (limit_frame_size n c)"
  by (simp add: keeps_chan_def)

lemma outgoing_step:
  assumes "has_chan s p c"
  shows "ch_state c = RFCOMM_CHANNEL_W4_MULTIPLEXER \<Longrightarrow>
     returns (rfcomm_channel_state_machine_with_channel L p CH_EVT_MULTIPLEXER_READY s)
       (\<lambda>(s', v). v \<and> has_chan s' p (c\<lparr>ch_state := RFCOMM_CHANNEL_SEND_UIH_PN\<rparr>))"
    "ch_state c = RFCOMM_CHANNEL_W4_PN_RSP \<Longrightarrow>
     returns (rfcomm_channel_state_machine_with_channel L p (CH_EVT_RCVD_PN_RSP mfs pr cr) s)
       (\<lambda>(s', v). v \<and> has_chan s' p ((limit_frame_size mfs c)\<lparr>credits_outgoing := cr, ch_state := RFCOMM_CHANNEL_SEND_SABM_W4_UA\<rparr>))"
    "ch_state c = RFCOMM_CHANNEL_W4_UA \<Longrightarrow>
     returns (rfcomm_channel_state_machine_with_channel L p CH_EVT_RCVD_UA s)
       (\<lambda>(s', v). v \<and> has_chan s' p (rfcomm_channel_state_add SEND_CREDITS (rfcomm_channel_state_add SEND_MSC_CMD
          (c\<lparr>ch_state := RFCOMM_CHANNEL_DLC_SETUP\<rparr>))))"
    "ch_state c = RFCOMM_CHANNEL_SEND_SABM_W4_UA \<Longrightarrow> quiet c \<Longrightarrow>
     returns (rfcomm_channel_state_machine_with_channel L p CH_EVT_READY_TO_SEND s)
       (\<lambda>(s', v). v \<and> has_chan s' p (c\<lparr>ch_state := RFCOMM_CHANNEL_W4_UA\<rparr>))"
  using has_chanD [OF assms] live_mux [of s "multiplexer c"]
  by (auto simp: rfcomm_channel_state_machine_with_channel_def channel_state_switch_def channel_outgoing_event_def chan_def mux_def
      has_chan_def quiet_def intro!: wp dest!: only_callsD)


lemma pn_step:
  assumes "has_chan s p c" "ch_state c = RFCOMM_CHANNEL_SEND_UIH_PN" "quiet c"
  shows "returns (rfcomm_channel_state_machine_with_channel L p CH_EVT_READY_TO_SEND s)
     (\<lambda>(s', v). v \<and> (\<exists>n \<le> max_frame_size c. has_chan s' p (c\<lparr>max_frame_size := n, ch_state := RFCOMM_CHANNEL_W4_PN_RSP\<rparr>)))"
proof -
  obtain x where x: "mux_mem s (multiplexer c) = Some x" using has_chanD [OF assms(1)] live_mux by blast
  let ?n = "ucast (btstack_min (ucast (mux_max_frame_size x)) (ucast (max_frame_size c))) :: u16"
  let ?c = "c\<lparr>max_frame_size := ?n, ch_state := RFCOMM_CHANNEL_W4_PN_RSP\<rparr>"
  have n: "?n \<le> max_frame_size c" by (rule min_frame_size)
  have k: "keeps_chan s p (c\<lparr>max_frame_size := ?n\<rparr>)"
    using n has_chanD [OF assms(1)] by (simp add: keeps_chan_def)
  have ok: "rf_ok (set_chan p ?c s)" using k has_chanD [OF assms(1)] by simp
  have "returns (sent (rfcomm_send_uih_pn_command L (multiplexer ?c) (dlci ?c) (max_frame_size ?c) (set_chan p ?c s)))
     (\<lambda>(s', v). v \<and> has_chan s' p ?c)"
    using ok has_chanD [OF assms(1)] by (auto intro!: returns_sent returns_commands dest!: only_callsD simp: has_chan_def)
  then have "returns (rfcomm_channel_state_machine_with_channel L p CH_EVT_READY_TO_SEND s) (\<lambda>(s', v). v \<and> has_chan s' p ?c)"
    using assms(2,3) x has_chanD [OF assms(1)]
    by (simp add: rfcomm_channel_state_machine_with_channel_def channel_state_switch_def channel_outgoing_event_def chan_def mux_def
      quiet_def Let_def)
  then show ?thesis by (rule returns_mono) (use n in auto)
qed

text \<open>The last steps: the modem status, the credits, and the answer to the modem status.\<close>

lemmas flag_defs = has_flag_def rfcomm_channel_state_add_def rfcomm_channel_state_remove_def CLIENT_ACCEPTED_def RCVD_PN_def
  RCVD_SABM_def RCVD_MSC_CMD_def RCVD_MSC_RSP_def SEND_PN_RSP_def SEND_RPN_INFO_def SEND_RPN_RSP_def SEND_UA_def SEND_MSC_CMD_def
  SEND_MSC_RSP_def SEND_CREDITS_def SENT_MSC_CMD_def SENT_MSC_RSP_def SENT_CREDITS_def

lemma msc_step:
  assumes "has_chan s p c" "ch_state c = RFCOMM_CHANNEL_DLC_SETUP" "quiet c" "state_var c = 0x1400"
  shows "returns (rfcomm_channel_state_machine_with_channel L p CH_EVT_READY_TO_SEND s)
     (\<lambda>(s', v). v \<and> has_chan s' p (c\<lparr>state_var := 0x3000\<rparr>))"
proof -
  let ?c = "rfcomm_channel_state_add SENT_MSC_CMD (rfcomm_channel_state_remove SEND_MSC_CMD c)"
  have c: "?c = c\<lparr>state_var := 0x3000\<rparr>" "\<not> rfcomm_channel_ready_for_open ?c" "has_flag c SEND_MSC_CMD"
    using assms(4) by (simp_all add: flag_defs rfcomm_channel_ready_for_open_def)
  note h = has_chanD [OF assms(1)]
  have "returns (rfcomm_send_uih_msc_cmd L (multiplexer c) (dlci c) 0x8D (set_chan p ?c s))
     (\<lambda>(s', e). has_chan s' p ?c)"
    using h by (auto intro!: returns_commands dest!: only_callsD simp: has_chan_def)
  then show ?thesis
    using assms(2,3) h c unfolding rfcomm_channel_state_machine_with_channel_def channel_state_switch_def channel_dlc_setup_event_def
    by (auto simp: chan_def quiet_def has_chan_def elim!: returnsE)
qed

lemma credits_step:
  assumes "has_chan s p c" "ch_state c = RFCOMM_CHANNEL_DLC_SETUP" "quiet c" "state_var c = 0x3000"
  shows "returns (rfcomm_channel_state_machine_with_channel L p CH_EVT_READY_TO_SEND s)
     (\<lambda>(s', v). v \<and> has_chan s' p (c\<lparr>state_var := 0xA000, new_credits_incoming := 0,
        credits_incoming := credits_incoming c + new_credits_incoming c\<rparr>))"
proof -
  let ?c = "rfcomm_channel_state_add SENT_CREDITS (rfcomm_channel_state_remove SEND_CREDITS c)"
  let ?d = "c\<lparr>state_var := 0xA000, new_credits_incoming := 0, credits_incoming := credits_incoming c + new_credits_incoming c\<rparr>"
  have c: "?c = c\<lparr>state_var := 0xA000\<rparr>" "\<not> rfcomm_channel_ready_for_open ?c" "has_flag c SEND_CREDITS" "\<not> has_flag c SEND_MSC_CMD"
    "\<not> rfcomm_channel_ready_for_open ?d"
    using assms(4) by (simp_all add: flag_defs rfcomm_channel_ready_for_open_def)
  note h = has_chanD [OF assms(1)]
  have d: "keeps_chan s p ?d" "keeps_chan s p (c\<lparr>state_var := 0xA000\<rparr>)" using h by (simp_all add: keeps_chan_def chan_id_def)
  have none: "c\<lparr>state_var := 0xA000, new_credits_incoming := 0\<rparr> = c\<lparr>state_var := 0xA000\<rparr>" if "new_credits_incoming c = 0"
    using that by (cases c) simp
  have "returns (rfcomm_send_uih_credits L (multiplexer c) (dlci c) (new_credits_incoming c) (set_chan p ?d s)) (\<lambda>s'. has_chan s' p ?d)"
    using h d by (auto intro!: returns_credits dest!: only_callsD simp: has_chan_def)
  then have "returns (rfcomm_channel_send_credits L p (new_credits_incoming c) (set_chan p (c\<lparr>state_var := 0xA000, new_credits_incoming := 0\<rparr>) s))
      (\<lambda>s'. has_chan s' p ?d)"
    by (simp add: rfcomm_channel_send_credits_def upd_chan_def chan_def)
  then show ?thesis
    using assms(2,3) h c unfolding rfcomm_channel_state_machine_with_channel_def channel_state_switch_def channel_dlc_setup_event_def
    by (cases "new_credits_incoming c = 0") (auto simp: chan_def quiet_def has_chan_def Let_def none d(2) elim!: returnsE)
qed

lemma set_mux_trace [simp]: "trace (set_mux m x s) = trace s" "frames (set_mux m x s) = frames s"
  by (simp_all add: set_mux_def)

text \<open>The application is told that its channel is open.\<close>

definition opened_event :: "rfcomm_channel \<Rightarrow> rfcomm_multiplexer \<Rightarrow> byte \<Rightarrow> bytes" where
  "opened_event c x status =
     [0x80, 16, status] @ rev (remote_addr x) @ le16 (con_handle x) @ [drop_bit 1 (dlci c)] @ le16 (rfcomm_cid c) @
     le16 (max_frame_size c) @ [if has_service c then 1 else 0]"

lemma opened_event_simps [simp]:
  "opened_event (c\<lparr>state_var := v\<rparr>) x st = opened_event c x st" "opened_event (c\<lparr>ch_state := z\<rparr>) x st = opened_event c x st"
  "opened_event (c\<lparr>new_credits_incoming := n\<rparr>) x st = opened_event c x st"
  "opened_event (c\<lparr>credits_incoming := n\<rparr>) x st = opened_event c x st"
  by (simp_all add: opened_event_def)

lemma opened_result:
  assumes "channel_mem s p = Some c" "mux_mem s (multiplexer c) = Some x"
  shows "returns (rfcomm_channel_opened L p s) (\<lambda>s'. channel_mem s' p = Some (c\<lparr>ch_state := RFCOMM_CHANNEL_OPEN\<rparr>) \<and>
     Callback (packet_handler c) 4 0 (opened_event c x 0) \<in> set (trace s'))"
  using assms
  by (simp add: rfcomm_channel_opened_def upd_chan_def chan_def mux_def rfcomm_emit_channel_opened_def rfcomm_channel_can_send_def
      rfcomm_emit_can_send_now_def rfcomm_emit_port_configuration_def rfcomm_multiplexer_stop_timer_def upd_mux_def
      request_if_ready_def opened_event_def call_handler_def Let_def)

lemma open_step:
  assumes "has_chan s p c" "ch_state c = RFCOMM_CHANNEL_DLC_SETUP" "state_var c = 0xA000"
  shows "returns (rfcomm_channel_state_machine_with_channel L p CH_EVT_RCVD_MSC_RSP s)
     (\<lambda>(s', v). v \<and> has_chan s' p (c\<lparr>state_var := 0xA020, ch_state := RFCOMM_CHANNEL_OPEN\<rparr>) \<and>
        (\<exists>x. Callback (packet_handler c) 4 0 (opened_event c x 0) \<in> set (trace s')))"
proof -
  obtain x where x: "mux_mem s (multiplexer c) = Some x" using has_chanD [OF assms(1)] live_mux by blast
  note h = has_chanD [OF assms(1)]
  let ?c = "rfcomm_channel_state_add RCVD_MSC_RSP c"
  have c: "?c = c\<lparr>state_var := 0xA020\<rparr>" "rfcomm_channel_ready_for_open (c\<lparr>state_var := 0xA020\<rparr>)"
    using assms(3) by (simp_all add: flag_defs rfcomm_channel_ready_for_open_def)
  let ?s = "set_chan p (c\<lparr>state_var := 0xA020, ch_state := RFCOMM_CHANNEL_OPEN\<rparr>) s"
  have k: "keeps_chan s p (c\<lparr>state_var := 0xA020, ch_state := RFCOMM_CHANNEL_OPEN\<rparr>)"
    using h by (simp add: keeps_chan_def chan_id_def)
  have res: "returns (rfcomm_channel_opened L p ?s) (\<lambda>s'. channel_mem s' p = Some (c\<lparr>state_var := 0xA020, ch_state := RFCOMM_CHANNEL_OPEN\<rparr>) \<and>
     Callback (packet_handler c) 4 0 (opened_event c x 0) \<in> set (trace s'))"
    using opened_result [of ?s p "c\<lparr>state_var := 0xA020, ch_state := RFCOMM_CHANNEL_OPEN\<rparr>" x L] x by (simp add: opened_event_def)
  have ok: "returns (rfcomm_channel_opened L p ?s) (\<lambda>s'. rf_ok s')"
    using h k by (intro returns_channel_opened) (auto dest: keepsD)
  show ?thesis
    using res ok h c assms(2) unfolding rfcomm_channel_state_machine_with_channel_def channel_state_switch_def channel_dlc_setup_event_def
    by (auto simp: chan_def has_chan_def elim!: returnsE)
qed


text \<open>The second half of the setup, from the answer to the negotiation on.\<close>

lemma quiet_flags: "state_var d \<in> {0, 0x1400, 0x3000} \<Longrightarrow> rls_line_status d = RFCOMM_RLS_STATUS_INVALID \<Longrightarrow> quiet d"
  by (auto simp: quiet_def flag_defs)

lemma setup_rest:
  assumes "has_chan s p (c\<lparr>ch_state := RFCOMM_CHANNEL_SEND_SABM_W4_UA\<rparr>)" "state_var c = 0" "rls_line_status c = RFCOMM_RLS_STATUS_INVALID"
    and P: "\<And>s' x. rf_ok s' \<Longrightarrow> channel_mem s' p = Some (c\<lparr>state_var := 0xA020, ch_state := RFCOMM_CHANNEL_OPEN, new_credits_incoming := 0,
        credits_incoming := credits_incoming c + new_credits_incoming c\<rparr>) \<Longrightarrow>
      Callback (packet_handler c) 4 0 (opened_event c x 0) \<in> set (trace s') \<Longrightarrow> P (s', True)"
  shows "returns (run_events L p [CH_EVT_READY_TO_SEND, CH_EVT_RCVD_UA, CH_EVT_READY_TO_SEND, CH_EVT_READY_TO_SEND,
    CH_EVT_RCVD_MSC_RSP] s) P"
proof (rule run_step, rule outgoing_step(4) [OF assms(1)])
  fix s1 assume "has_chan s1 p (c\<lparr>ch_state := RFCOMM_CHANNEL_SEND_SABM_W4_UA, ch_state := RFCOMM_CHANNEL_W4_UA\<rparr>)"
  then have s1: "has_chan s1 p (c\<lparr>ch_state := RFCOMM_CHANNEL_W4_UA\<rparr>)" by simp
  show "returns (run_events L p [CH_EVT_RCVD_UA, CH_EVT_READY_TO_SEND, CH_EVT_READY_TO_SEND, CH_EVT_RCVD_MSC_RSP] s1) P"
  proof (rule run_step, rule outgoing_step(3) [OF s1])
    let ?d = "c\<lparr>ch_state := RFCOMM_CHANNEL_DLC_SETUP, state_var := 0x1400\<rparr>"
    fix s2 assume "has_chan s2 p (rfcomm_channel_state_add SEND_CREDITS (rfcomm_channel_state_add SEND_MSC_CMD
      (c\<lparr>ch_state := RFCOMM_CHANNEL_W4_UA, ch_state := RFCOMM_CHANNEL_DLC_SETUP\<rparr>)))"
    then have s2: "has_chan s2 p ?d" using assms(2) by (simp add: flag_defs)
    show "returns (run_events L p [CH_EVT_READY_TO_SEND, CH_EVT_READY_TO_SEND, CH_EVT_RCVD_MSC_RSP] s2) P"
    proof (rule run_step, rule msc_step [OF s2])
      fix s3 assume s3: "has_chan s3 p (?d\<lparr>state_var := 0x3000\<rparr>)"
      show "returns (run_events L p [CH_EVT_READY_TO_SEND, CH_EVT_RCVD_MSC_RSP] s3) P"
      proof (rule run_step, rule credits_step [OF s3])
        let ?e = "?d\<lparr>state_var := 0xA000, new_credits_incoming := 0, credits_incoming := credits_incoming c + new_credits_incoming c\<rparr>"
        fix s4 assume "has_chan s4 p (?d\<lparr>state_var := 0x3000, state_var := 0xA000, new_credits_incoming := 0,
          credits_incoming := credits_incoming (?d\<lparr>state_var := 0x3000\<rparr>) + new_credits_incoming (?d\<lparr>state_var := 0x3000\<rparr>)\<rparr>)"
        then have s4: "has_chan s4 p ?e" by simp
        show "returns (run_events L p [CH_EVT_RCVD_MSC_RSP] s4) P"
          by (rule run_step, rule open_step [OF s4]) (auto simp: has_chan_def opened_event_def intro: P)
      qed (use assms(3) quiet_flags in simp_all)
    qed (use assms(3) quiet_flags in simp_all)
  qed simp
qed (use assms(2,3) quiet_flags in simp_all)

text \<open>
  C29. A channel the application asked for gets open: from the moment the multiplexer is ready, through
  the negotiation of parameters, SABM and UA, the modem status and the first credits, whenever the
  peer answers; the application is told, the frame size is no larger than what the peer accepts, the
  peer's credits are those it granted, and its own are those the application offered.
\<close>
theorem outgoing_channel_opens:
  assumes "rf_ok s" "channel_mem s p = Some c" "ch_state c = RFCOMM_CHANNEL_W4_MULTIPLEXER" "state_var c = 0"
    "rls_line_status c = RFCOMM_RLS_STATUS_INVALID"
  shows "\<exists>s' c' x. run_events L p [CH_EVT_MULTIPLEXER_READY, CH_EVT_READY_TO_SEND, CH_EVT_RCVD_PN_RSP mfs priority credits,
      CH_EVT_READY_TO_SEND, CH_EVT_RCVD_UA, CH_EVT_READY_TO_SEND, CH_EVT_READY_TO_SEND, CH_EVT_RCVD_MSC_RSP] s = Ret (s', True) \<and>
    rf_ok s' \<and> channel_mem s' p = Some c' \<and> ch_state c' = RFCOMM_CHANNEL_OPEN \<and> credits_outgoing c' = credits \<and>
    credits_incoming c' = credits_incoming c + new_credits_incoming c \<and> max_frame_size c' \<le> mfs \<and>
    max_frame_size c' \<le> max_frame_size c \<and> Callback (packet_handler c) 4 0 (opened_event c' x 0) \<in> set (trace s')"
proof -
  have limit: "max_frame_size (limit_frame_size mfs d) \<le> mfs" for d by (simp add: limit_frame_size_def not_less)
  have kept: "state_var (limit_frame_size mfs d) = state_var d" "rls_line_status (limit_frame_size mfs d) = rls_line_status d"
    "credits_incoming (limit_frame_size mfs d) = credits_incoming d" "new_credits_incoming (limit_frame_size mfs d) = new_credits_incoming d"
    "packet_handler (limit_frame_size mfs d) = packet_handler d" for d
    by (simp_all add: limit_frame_size_def)
  have start: "has_chan s p c" using assms(1,2) by (simp add: has_chan_def)
  have "returns (run_events L p [CH_EVT_MULTIPLEXER_READY, CH_EVT_READY_TO_SEND, CH_EVT_RCVD_PN_RSP mfs priority credits,
      CH_EVT_READY_TO_SEND, CH_EVT_RCVD_UA, CH_EVT_READY_TO_SEND, CH_EVT_READY_TO_SEND, CH_EVT_RCVD_MSC_RSP] s)
    (\<lambda>(s', v). v \<and> rf_ok s' \<and> (\<exists>c' x. channel_mem s' p = Some c' \<and> ch_state c' = RFCOMM_CHANNEL_OPEN \<and> credits_outgoing c' = credits \<and>
    credits_incoming c' = credits_incoming c + new_credits_incoming c \<and> max_frame_size c' \<le> mfs \<and>
    max_frame_size c' \<le> max_frame_size c \<and> Callback (packet_handler c) 4 0 (opened_event c' x 0) \<in> set (trace s')))" (is "returns _ ?P")
  proof (rule run_step, rule outgoing_step(1) [OF start assms(3)])
    fix s1 assume s1: "has_chan s1 p (c\<lparr>ch_state := RFCOMM_CHANNEL_SEND_UIH_PN\<rparr>)"
    show "returns (run_events L p [CH_EVT_READY_TO_SEND, CH_EVT_RCVD_PN_RSP mfs priority credits,
      CH_EVT_READY_TO_SEND, CH_EVT_RCVD_UA, CH_EVT_READY_TO_SEND, CH_EVT_READY_TO_SEND, CH_EVT_RCVD_MSC_RSP] s1) ?P"
    proof (rule run_step, rule pn_step [OF s1])
      fix s2 assume "\<exists>n \<le> max_frame_size (c\<lparr>ch_state := RFCOMM_CHANNEL_SEND_UIH_PN\<rparr>). has_chan s2 p
        (c\<lparr>ch_state := RFCOMM_CHANNEL_SEND_UIH_PN, max_frame_size := n, ch_state := RFCOMM_CHANNEL_W4_PN_RSP\<rparr>)"
      then obtain n where n: "n \<le> max_frame_size c" and s2: "has_chan s2 p (c\<lparr>max_frame_size := n, ch_state := RFCOMM_CHANNEL_W4_PN_RSP\<rparr>)"
        by auto
      let ?c2 = "c\<lparr>max_frame_size := n, ch_state := RFCOMM_CHANNEL_W4_PN_RSP\<rparr>"
      let ?c3 = "(limit_frame_size mfs ?c2)\<lparr>credits_outgoing := credits\<rparr>"
      have c3: "state_var ?c3 = 0" "rls_line_status ?c3 = RFCOMM_RLS_STATUS_INVALID" "max_frame_size ?c3 \<le> n" "max_frame_size ?c3 \<le> mfs"
        "packet_handler ?c3 = packet_handler c" "credits_incoming ?c3 = credits_incoming c" "new_credits_incoming ?c3 = new_credits_incoming c"
        using assms(4,5) limit [of ?c2] limit_frame_size(1) [of mfs ?c2] by (simp_all add: kept)
      show "returns (run_events L p [CH_EVT_RCVD_PN_RSP mfs priority credits, CH_EVT_READY_TO_SEND, CH_EVT_RCVD_UA,
        CH_EVT_READY_TO_SEND, CH_EVT_READY_TO_SEND, CH_EVT_RCVD_MSC_RSP] s2) ?P"
      proof (rule run_step, rule outgoing_step(2) [OF s2], simp)
        fix s3 assume s3: "has_chan s3 p ((limit_frame_size mfs ?c2)\<lparr>credits_outgoing := credits, ch_state := RFCOMM_CHANNEL_SEND_SABM_W4_UA\<rparr>)"
        show "returns (run_events L p [CH_EVT_READY_TO_SEND, CH_EVT_RCVD_UA, CH_EVT_READY_TO_SEND, CH_EVT_READY_TO_SEND,
          CH_EVT_RCVD_MSC_RSP] s3) ?P"
          by (rule setup_rest [OF s3]) (use c3 order_trans [OF c3(3) n] assms(4,5) in \<open>auto simp: kept\<close>)
      qed
    qed (use assms(4,5) quiet_flags in simp_all)
  qed
  then show ?thesis by (auto elim!: returnsE)
qed


text \<open>States with one multiplexer and one channel, for examples.\<close>

definition a_mux :: rfcomm_multiplexer where
  "a_mux = \<lparr>timer_active = False, mux_state = RFCOMM_MULTIPLEXER_OPEN, l2cap_cid = 0x41, fcon = 1, remote_addr = [1, 2, 3, 4, 5, 6],
     con_handle = 1, outgoing = 1, at_least_one_connection = True, mux_max_frame_size = 50, send_dm_for_dlci = 0, nsc_command = 0,
     test_data_len = 0, test_data = [0, 0, 0, 0]\<rparr>"

definition a_channel :: rfcomm_channel where
  "a_channel = \<lparr>packet_handler = 7, has_service = False, multiplexer = 1, rfcomm_cid = 1, dlci = 4, credits_outgoing = 3,
     new_credits_incoming = 10, credits_incoming = 7, incoming_flow_control = 0, ch_state = RFCOMM_CHANNEL_OPEN, state_var = 0,
     pn_priority = 0, max_frame_size = 50, rpn_data = rfcomm_rpn_data_set_defaults, rls_line_status = RFCOMM_RLS_STATUS_INVALID,
     waiting_for_can_send_now = False\<rparr>"

definition a_state :: "rfcomm_multiplexer \<Rightarrow> rfcomm_channel \<Rightarrow> rfcomm" where
  "a_state x c = \<lparr>rfcomm_client_cid_generator = 1, rfcomm_multiplexers = [1], rfcomm_channels = [2], rfcomm_services = [],
     rfcomm_security_level = 0, mux_mem = [1 \<mapsto> x], channel_mem = [2 \<mapsto> c], out_buffer = replicate 64 0, frames = 0, trace = []\<rparr>"

definition an_l2cap :: l2cap where
  "an_l2cap = \<lparr>can_send = (\<lambda>n cid. True), can_send_prepared = (\<lambda>n cid. True), send_status = (\<lambda>n cid. 0), max_mtu = 55\<rparr>"

lemma a_state_ok:
  assumes "multiplexer c = 1" "rfcomm_cid c \<noteq> 0" "unat (max_frame_size c) \<le> 50"
    "unat (mux_max_frame_size x) \<le> 50" "length (test_data x) = 4" "length (remote_addr x) = 6"
  shows "rf_ok (a_state x c)"
  using assms by (auto simp: rf_ok_def a_state_def chan_fits_def mux_fits_def)

lemma outgoing_channel_opens_witness:
  "\<exists>s' c' x. run_events an_l2cap 2 [CH_EVT_MULTIPLEXER_READY, CH_EVT_READY_TO_SEND, CH_EVT_RCVD_PN_RSP 30 0 5,
      CH_EVT_READY_TO_SEND, CH_EVT_RCVD_UA, CH_EVT_READY_TO_SEND, CH_EVT_READY_TO_SEND, CH_EVT_RCVD_MSC_RSP]
      (a_state a_mux (a_channel\<lparr>ch_state := RFCOMM_CHANNEL_W4_MULTIPLEXER\<rparr>)) = Ret (s', True) \<and>
    rf_ok s' \<and> channel_mem s' 2 = Some c' \<and> ch_state c' = RFCOMM_CHANNEL_OPEN \<and> credits_outgoing c' = 5 \<and>
    credits_incoming c' = 17 \<and> max_frame_size c' \<le> 30 \<and>
    max_frame_size c' \<le> 50 \<and> Callback 7 4 0 (opened_event c' x 0) \<in> set (trace s')"
proof -
  have ok: "rf_ok (a_state a_mux (a_channel\<lparr>ch_state := RFCOMM_CHANNEL_W4_MULTIPLEXER\<rparr>))"
    by (rule a_state_ok) (simp_all add: a_mux_def a_channel_def)
  show ?thesis
    using outgoing_channel_opens [OF ok, of 2 "a_channel\<lparr>ch_state := RFCOMM_CHANNEL_W4_MULTIPLEXER\<rparr>" an_l2cap 30 0 5]
    by (simp add: a_state_def a_channel_def)
qed

subsection \<open>Safety\<close>

text \<open>
  C27. RFCOMM never leaves the defined part of C: in every state that packets, events, timers and calls of
  applications lead to from the start, every further call whose caller keeps the contract returns, and
  the lists hold exactly the live objects, with distinct identifiers, and frames that fit the buffer.
\<close>
theorem rfcomm_calls_return:
  assumes "rf_reachable L buffer s" "allowed L call s" "16 \<le> length buffer" "length buffer < 65536"
    "5 \<le> unat (max_mtu L)" "unat (max_mtu L) \<le> length buffer"
  shows "\<exists>s'. perform L call s = Ret s' \<and> rf_reachable L buffer s' \<and> rf_ok s' \<and> length (out_buffer s') = length buffer"
proof -
  have s: "rf_ok s" "length (out_buffer s) = length buffer" using reachable_ok [OF assms(1,3-6)] by simp_all
  have "returns (perform L call s) (\<lambda>s'. rf_ok s' \<and> length (out_buffer s') = length (out_buffer s))"
    using s assms(2,5,6) by (intro returns_perform) (simp_all add: l2cap_fits_def)
  then show ?thesis using s rf_reachable.step [OF assms(1,2)] by (auto elim!: returnsE)
qed

lemma rfcomm_calls_return_witness:
  "\<exists>s'. perform an_l2cap (CreateChannel (Some 1) (Some 2) (0, 0x41) 7 [1, 2, 3, 4, 5, 6] 3 0 10) (rfcomm_init (replicate 60 0)) = Ret s' \<and>
     rf_reachable an_l2cap (replicate 60 0) s' \<and> rf_ok s' \<and> length (out_buffer s') = 60"
  using rfcomm_calls_return [OF rf_reachable.start, of an_l2cap "CreateChannel (Some 1) (Some 2) (0, 0x41) 7 [1, 2, 3, 4, 5, 6] 3 0 10"
      "replicate 60 0"]
  by (simp add: an_l2cap_def fresh_mux_def fresh_chan_def rfcomm_init_def)

subsection \<open>Data\<close>

text \<open>
  C28. Data that is sent arrives: when a channel has credit and L2CAP can send, \<open>rfcomm_send\<close> hands one
  frame to L2CAP and uses one credit, and a receiver with an open channel for the frame's address gives
  exactly these bytes to its application, with at most a request to send credits.
\<close>
theorem rfcomm_data_roundtrip:
  assumes "rf_ok s" "channel_mem s p = Some c" "mux_mem s (multiplexer c) = Some x" "ready_to_send L s c x"
    and "data \<noteq> []" "length data \<le> unat (max_frame_size c)" "0 < dlci c" "dlci c < 64" "outgoing x = 0 \<or> outgoing x = 1"
    and "receives r cid (dlci c) m q" "channel_mem r q = Some d"
  shows "\<exists>s' frame r' calls. rfcomm_send L (rfcomm_cid c) data s = Ret (s', 0) \<and>
     trace s' = trace s @ [ReserveBuffer, SendPrepared (l2cap_cid x) frame 0] \<and>
     channel_mem s' = (channel_mem s)(p \<mapsto> c\<lparr>credits_outgoing := credits_outgoing c - 1\<rparr>) \<and>
     rfcomm_packet_handler L' pointer 6 cid frame (of_nat (length frame)) r = Ret r' \<and>
     trace r' = trace r @ Callback (packet_handler d) 7 (rfcomm_cid d) data # calls \<and>
     (\<forall>a \<in> set calls. \<exists>l. a = RequestCanSendNow l)"
proof -
  let ?frame = "uih_frame (cmd_address x (dlci c)) data"
  obtain s' where s': "rfcomm_send L (rfcomm_cid c) data s = Ret (s', 0)"
    "trace s' = trace s @ [ReserveBuffer, SendPrepared (l2cap_cid x) ?frame 0]"
    "channel_mem s' = (channel_mem s)(p \<mapsto> c\<lparr>credits_outgoing := credits_outgoing c - 1\<rparr>)"
    by (rule send_result [OF assms(1-6)])
  have len: "length data < 65531"
    using rf_ok_chan(4) [OF assms(1,2)] rf_ok_buffer [OF assms(1)] assms(6) by (simp add: chan_fits_def)
  have addr: "drop_bit 2 (cmd_address x (dlci c)) = dlci c"
    unfolding cmd_address_def by (rule address_dlci [OF assms(8,9)])
  have "dlci c \<noteq> 0" using assms(7) by auto
  then obtain r' calls where "rfcomm_packet_handler L' pointer 6 cid ?frame (of_nat (length ?frame)) r = Ret r'"
    "trace r' = trace r @ Callback (packet_handler d) 7 (rfcomm_cid d) data # calls" "\<forall>a \<in> set calls. \<exists>l. a = RequestCanSendNow l"
    by (rule frame_delivered [OF assms(10,11,5) len addr])
  with s' show ?thesis by blast
qed

lemma rfcomm_data_roundtrip_witness:
  "\<exists>s' frame r' calls. rfcomm_send an_l2cap 1 [10, 20, 30] (a_state a_mux a_channel) = Ret (s', 0) \<and>
     trace s' = [ReserveBuffer, SendPrepared 0x41 frame 0] \<and>
     rfcomm_packet_handler an_l2cap None 6 0x41 frame (of_nat (length frame)) (a_state a_mux a_channel) = Ret r' \<and>
     trace r' = Callback 7 7 1 [10, 20, 30] # calls"
proof -
  have ok: "rf_ok (a_state a_mux a_channel)" by (rule a_state_ok) (simp_all add: a_mux_def a_channel_def)
  have rec: "receives (a_state a_mux a_channel) 0x41 (dlci a_channel) 1 2"
    using ok by (simp add: receives_def rfcomm_multiplexer_for_l2cap_cid_def rfcomm_channel_for_multiplexer_and_dlci_def a_state_def
        mux_def chan_def) (simp add: a_mux_def a_channel_def)
  have send: "ready_to_send an_l2cap (a_state a_mux a_channel) a_channel a_mux"
    by (simp add: ready_to_send_def an_l2cap_def a_mux_def a_channel_def)
  have mem: "channel_mem (a_state a_mux a_channel) 2 = Some a_channel"
    "mux_mem (a_state a_mux a_channel) (multiplexer a_channel) = Some a_mux" "trace (a_state a_mux a_channel) = []"
    by (simp_all add: a_state_def a_channel_def)
  have vals: "rfcomm_cid a_channel = 1" "dlci a_channel = 4" "outgoing a_mux = 1" "max_frame_size a_channel = 50" "packet_handler a_channel = 7"
    "l2cap_cid a_mux = 0x41" by (simp_all add: a_channel_def a_mux_def)
  show ?thesis
    using rfcomm_data_roundtrip [OF ok mem(1,2) send, where data = "[10, 20, 30]" and r = "a_state a_mux a_channel" and cid = "0x41"
        and m = 1 and q = 2 and d = a_channel and L' = an_l2cap and pointer = None] rec mem
    unfolding vals by fastforce
qed


text \<open>
  Without credit, with the peer's flow control on, with too much data or when L2CAP cannot send,
  \<open>rfcomm_send\<close> returns the error for the first of these, in the order of its checks, and changes
  nothing: no frame leaves, no credit is used, no buffer is reserved.
\<close>
theorem rfcomm_send_refuses:
  assumes "rf_ok s" "channel_mem s p = Some c" "mux_mem s (multiplexer c) = Some x" "length data < 65536"
    and "unat (max_frame_size c) < length data \<or> credits_outgoing c = 0 \<or> fcon x AND 1 = 0 \<or> \<not> can_send L (frames s) (l2cap_cid x)"
  shows "rfcomm_send L (rfcomm_cid c) data s =
    Ret (s, if unat (max_frame_size c) < length data then 0x74 else if credits_outgoing c = 0 then 0x72
            else if fcon x AND 1 = 0 then 0x73 else 0x57)"
proof -
  have len: "of_nat (length data) > max_frame_size c \<longleftrightarrow> unat (max_frame_size c) < length data"
    using unat_u16 [OF assms(4)] by (simp add: word_less_nat_alt)
  show ?thesis
    unfolding rfcomm_send_def for_cid_eq [OF assms(1,2)] bind_outcome_simps option.case rfcomm_assert_send_valid_def
    using assms(2,3,5) by (auto simp: chan_def mux_def len)
qed

lemma rfcomm_send_refuses_witness:
  "rfcomm_send an_l2cap 1 [1, 2] (a_state a_mux (a_channel\<lparr>credits_outgoing := 0\<rparr>)) =
     Ret (a_state a_mux (a_channel\<lparr>credits_outgoing := 0\<rparr>), 0x72)"
proof -
  have ok: "rf_ok (a_state a_mux (a_channel\<lparr>credits_outgoing := 0\<rparr>))" by (rule a_state_ok) (simp_all add: a_mux_def a_channel_def)
  show ?thesis
    using rfcomm_send_refuses [OF ok, of 2 "a_channel\<lparr>credits_outgoing := 0\<rparr>" a_mux "[1, 2]" an_l2cap]
    by (simp add: a_state_def a_channel_def)
qed

subsection \<open>Errors of connections\<close>

text \<open>
  C30. When L2CAP refuses the connection for the first channel to a device, the new multiplexer and the
  new channel are freed but stay in the lists: the next search through either list reads freed memory.
\<close>
theorem failed_connection_dangles:
  assumes "rf_ok s" "l2cap_fits L s" "rfcomm_multiplexer_for_addr s addr = Ret None" "length addr = 6"
    and "fresh_mux (Some m) s" "fresh_chan (Some p) s" "fst create \<noteq> 0"
  shows "\<exists>s' cid. rfcomm_channel_create_internal L (Some m) (Some p) create handler addr channel flow credits s =
      Ret (s', fst create, Some cid) \<and> (\<forall>a. rfcomm_multiplexer_for_addr s' a = Undef) \<and>
    (\<forall>k. rfcomm_channel_for_rfcomm_cid s' k = Undef)"
proof -
  obtain s1 r where cr: "rfcomm_multiplexer_create_for_addr L (Some m) addr s = (s1, r)" by fastforce
  note new = mux_create_ok [OF assms(1,5,2,4) cr]
  let ?x = "(rfcomm_multiplexer_initialize L)\<lparr>remote_addr := addr, outgoing := 1, mux_state := RFCOMM_MULTIPLEXER_W4_CONNECT\<rparr>"
  let ?s = "set_mux m ?x s1"
  have lists: "rfcomm_multiplexers s1 = m # rfcomm_multiplexers s"
    using cr by (auto simp: rfcomm_multiplexer_create_for_addr_def Let_def)
  have s2: "rf_ok ?s" "fresh_chan (Some p) ?s" "rfcomm_multiplexers ?s = m # rfcomm_multiplexers s"
    using rf_ok_mux [OF new(1,6)] new(1) assms(6) fresh_chan_eq [of ?s s "Some p"] new(5) lists
    by (simp_all add: keeps_mux_def mux_fits_def)
  have none: "multiplexer c \<noteq> m" if "channel_mem ?s p = Some c" for p c
    using rf_ok_chan(2) [OF assms(1), of p c] that new(7) assms(5) by (auto simp: fresh_mux_def)
  have dlci: "rfcomm_channel_for_multiplexer_and_dlci ?s m d = Ret None" for d
    by (rule mux_free_new [OF s2(1)]) (use s2(3) none in auto)
  have "returns (create_channel_on L True m ?x (Some p) create handler addr channel flow credits ?s)
     (\<lambda>(s', e, cid). e = fst create \<and> cid \<noteq> None \<and> rfcomm_multiplexers s' = m # rfcomm_multiplexers s \<and> mux_mem s' m = None \<and>
        rfcomm_channels s' = p # rfcomm_channels s \<and> channel_mem s' p = None)"
    unfolding create_channel_on_def Let_def dlci bind_outcome_simps
    using s2 assms(7) new(5)
    by (auto intro!: returns_bind returns_create returns_upd_chan returns_chan simp: created_def mux_free_def rfcomm_channel_free_def
        fresh_chan_def)
  then obtain s' cid where s': "create_channel_on L True m ?x (Some p) create handler addr channel flow credits ?s = Ret (s', fst create, Some cid)"
    "rfcomm_multiplexers s' = m # rfcomm_multiplexers s" "mux_mem s' m = None"
    "rfcomm_channels s' = p # rfcomm_channels s" "channel_mem s' p = None"
    by (auto elim!: returnsE)
  have "rfcomm_channel_create_internal L (Some m) (Some p) create handler addr channel flow credits s = Ret (s', fst create, Some cid)"
    unfolding rfcomm_channel_create_internal_def assms(3) bind_outcome_simps option.case cr
    using new(2,6) s'(1) by (simp add: upd_mux_def mux_def)
  moreover have "rfcomm_multiplexer_for_addr s' a = Undef" "rfcomm_channel_for_rfcomm_cid s' k = Undef" for a k
    using s' by (simp_all add: rfcomm_multiplexer_for_addr_def rfcomm_channel_for_rfcomm_cid_def mux_def chan_def)
  ultimately show ?thesis by blast
qed

lemma failed_connection_dangles_witness:
  "\<exists>s' cid. rfcomm_channel_create_internal an_l2cap (Some 1) (Some 2) (0x65, 0) 7 [1, 2, 3, 4, 5, 6] 3 0 10 (rfcomm_init (replicate 60 0)) =
      Ret (s', 0x65, Some cid) \<and> (\<forall>a. rfcomm_multiplexer_for_addr s' a = Undef) \<and>
    (\<forall>k. rfcomm_channel_for_rfcomm_cid s' k = Undef)"
  using failed_connection_dangles [of "rfcomm_init (replicate 60 0)" an_l2cap "[1, 2, 3, 4, 5, 6]" 1 2 "(0x65, 0)" 7 3 0 10]
  by (simp add: init_ok) (simp add: l2cap_fits_def an_l2cap_def rfcomm_init_def rfcomm_multiplexer_for_addr_def fresh_mux_def fresh_chan_def)


text \<open>
  A second channel to a device whose first connection is still being set up asks L2CAP for another
  connection, and its identifier replaces that of the first in the multiplexer, which then is not found
  by the packets and events of the first connection any more.
\<close>
theorem second_channel_reconnects:
  assumes "rf_ok s" "rfcomm_multiplexer_for_addr s addr = Ret (Some m)" "mux_mem s m = Some x"
    and "mux_state x = RFCOMM_MULTIPLEXER_W4_CONNECT" "fresh_chan (Some p) s" "fst create = 0" "snd create \<noteq> l2cap_cid x"
    and "rfcomm_channel_for_multiplexer_and_dlci s m (push_bit 1 channel OR (outgoing x XOR 1)) = Ret None"
    and "\<And>n y. mux_mem s n = Some y \<Longrightarrow> l2cap_cid y = l2cap_cid x \<Longrightarrow> n = m"
  shows "\<exists>s' cid. rfcomm_channel_create_internal L mp (Some p) create handler addr channel flow credits s = Ret (s', 0, Some cid) \<and>
    last (trace s') = CreateL2capChannel addr (max_mtu L) \<and> mux_mem s' m = Some (x\<lparr>l2cap_cid := snd create\<rparr>) \<and>
    rfcomm_multiplexer_for_l2cap_cid s' (l2cap_cid x) = Ret None"
proof -
  have m: "m \<in> set (rfcomm_multiplexers s)" by (rule rf_ok_mux(1) [OF assms(1,3)])
  have open': "mux_state x \<noteq> RFCOMM_MULTIPLEXER_OPEN" using assms(4) by simp
  have "returns (create_channel_on L False m x (Some p) create handler addr channel flow credits s)
     (\<lambda>(s', e, cid). e = 0 \<and> cid \<noteq> None \<and> last (trace s') = CreateL2capChannel addr (max_mtu L) \<and>
        mux_mem s' = (mux_mem s)(m \<mapsto> x\<lparr>l2cap_cid := snd create\<rparr>) \<and> rfcomm_multiplexers s' = rfcomm_multiplexers s)"
    unfolding create_channel_on_def Let_def assms(8) bind_outcome_simps
    using assms(1,3,5,6) open' m
    by (auto intro!: returns_bind returns_create returns_upd_chan returns_chan returns_upd_mux simp: created_def fresh_chan_def)
  then obtain s' cid where s': "create_channel_on L False m x (Some p) create handler addr channel flow credits s = Ret (s', 0, Some cid)"
    "last (trace s') = CreateL2capChannel addr (max_mtu L)" "mux_mem s' = (mux_mem s)(m \<mapsto> x\<lparr>l2cap_cid := snd create\<rparr>)"
    "rfcomm_multiplexers s' = rfcomm_multiplexers s"
    by (auto elim!: returnsE)
  have lookup: "rfcomm_multiplexer_for_l2cap_cid s' (l2cap_cid x) = Ret (find (\<lambda>n. l2cap_cid (the (mux_mem s' n)) = l2cap_cid x) (rfcomm_multiplexers s))"
    unfolding rfcomm_multiplexer_for_l2cap_cid_def s'(4)
    by (rule find_out_find) (use live_mux [OF assms(1)] s'(3) in \<open>fastforce simp: mux_def\<close>)
  have "l2cap_cid (the (mux_mem s' n)) \<noteq> l2cap_cid x" if "n \<in> set (rfcomm_multiplexers s)" for n
    using live_mux [OF assms(1) that] assms(7,9) s'(3) by auto
  then have "find (\<lambda>n. l2cap_cid (the (mux_mem s' n)) = l2cap_cid x) (rfcomm_multiplexers s) = None"
    by (simp add: find_None_iff)
  moreover have "rfcomm_channel_create_internal L mp (Some p) create handler addr channel flow credits s = Ret (s', 0, Some cid)"
    unfolding rfcomm_channel_create_internal_def assms(2) bind_outcome_simps option.case
    using assms(3) s'(1) by (simp add: mux_def)
  ultimately show ?thesis using s' lookup by auto
qed

lemma second_channel_reconnects_witness:
  "\<exists>s' cid. rfcomm_channel_create_internal an_l2cap None (Some 3) (0, 0x42) 7 [1, 2, 3, 4, 5, 6] 5 0 10
      (a_state (a_mux\<lparr>mux_state := RFCOMM_MULTIPLEXER_W4_CONNECT\<rparr>) a_channel) = Ret (s', 0, Some cid) \<and>
    last (trace s') = CreateL2capChannel [1, 2, 3, 4, 5, 6] 55 \<and> rfcomm_multiplexer_for_l2cap_cid s' 0x41 = Ret None"
proof -
  let ?x = "a_mux\<lparr>mux_state := RFCOMM_MULTIPLEXER_W4_CONNECT\<rparr>"
  have ok: "rf_ok (a_state ?x a_channel)" by (rule a_state_ok) (simp_all add: a_mux_def a_channel_def)
  let ?s = "a_state ?x a_channel"
  have addr: "rfcomm_multiplexer_for_addr ?s [1, 2, 3, 4, 5, 6] = Ret (Some 1)"
    by (simp add: a_state_def rfcomm_multiplexer_for_addr_def mux_def) (simp add: a_mux_def)
  have mem: "mux_mem ?s 1 = Some ?x" "l2cap_cid ?x = 0x41" "outgoing ?x = 1"
    by (simp_all add: a_state_def) (simp_all add: a_mux_def)
  have fresh: "fresh_chan (Some 3) ?s" by (simp add: fresh_chan_def a_state_def)
  have free: "rfcomm_channel_for_multiplexer_and_dlci ?s 1 (push_bit 1 5 OR (outgoing ?x XOR 1)) = Ret None"
    by (simp add: a_state_def rfcomm_channel_for_multiplexer_and_dlci_def chan_def mem) (simp add: a_channel_def)
  have only: "n = 1" if "mux_mem ?s n = Some y" for n y
    using that by (simp add: a_state_def split: if_splits)
  have st: "mux_state ?x = RFCOMM_MULTIPLEXER_W4_CONNECT" by simp
  have cr: "fst (0 :: byte, 0x42 :: u16) = 0" "snd (0 :: byte, 0x42 :: u16) \<noteq> l2cap_cid ?x" by (simp_all add: mem)
  from second_channel_reconnects [OF ok addr mem(1) st fresh cr free only] show ?thesis
    unfolding mem(2) by (fastforce simp: an_l2cap_def)
qed

text \<open>
  A repeated DISC tells the application twice that the channel is closed.
\<close>
theorem repeated_disc_closes_twice:
  assumes "channel_mem s p = Some c"
  shows "\<exists>s'. run_events L p [CH_EVT_RCVD_DISC, CH_EVT_RCVD_DISC] s = Ret (s', True) \<and>
    trace s' = trace s @ replicate 2 (Callback (packet_handler c) 4 0 ([0x81, 2] @ le16 (rfcomm_cid c)))"
  using assms
  by (simp add: rfcomm_channel_state_machine_with_channel_def chan_def rfcomm_emit_channel_closed_def upd_chan_def
      call_handler_def numeral_2_eq_2)

lemma repeated_disc_closes_twice_witness:
  "\<exists>s'. run_events an_l2cap 2 [CH_EVT_RCVD_DISC, CH_EVT_RCVD_DISC] (a_state a_mux a_channel) = Ret (s', True) \<and>
    trace s' = replicate 2 (Callback 7 4 0 ([0x81, 2] @ le16 1))"
  using repeated_disc_closes_twice [of "a_state a_mux a_channel" 2 a_channel an_l2cap] by (simp add: a_state_def) (simp add: a_channel_def)

subsection \<open>Control messages\<close>

text \<open>
  The answer to a TEST command is cut to the packet, but at the wrong place: when the command says
  more data than the packet has, the copy goes on one byte past the packet.
\<close>
theorem test_command_overreads:
  assumes "rfcomm_multiplexer_for_l2cap_cid s cid = Ret (Some m)" "mux_mem s m = Some x"
    and "drop_bit 2 address = 0" "len AND 1 \<noteq> 0" "packet = [address, 0xEF, len, 0x23, l] @ data"
    and "length data < 3" "length data < unat (drop_bit 1 l)"
  shows "rfcomm_packet_handler L pointer 6 cid packet (of_nat (length packet)) s = Undef"
proof -
  have off: "payload_offset 0xEF len = 3" using assms(4) by (simp add: payload_offset_def)
  have rd: "rd packet 0 = Ret address" "rd packet 1 = Ret 0xEF" "rd packet 2 = Ret len" "rd packet 3 = Ret 0x23" "rd packet 4 = Ret l"
    using assms(5) by (simp_all add: rd_def)
  have len: "length packet = length data + 5" using assms(5) by simp
  have sz: "uint (of_nat (length packet) :: u16) = int (length data) + 5" using uint_u16 [of "length packet"] assms(6) len by simp
  let ?l = "uint (drop_bit 1 l)"
  let ?k = "if ?l > int RFCOMM_TEST_DATA_MAX_LEN then int RFCOMM_TEST_DATA_MAX_LEN else ?l"
  have l: "?l = int (unat (drop_bit 1 l))" by (simp only: uint_nat)
  have k: "uint (btstack_min (word_of_int ?k) (word_of_int (int (length data) + 5 - 1 - int 3))) = int (length data) + 1"
  proof -
    have "int (length data) < ?l" using assms(7) l by linarith
    then have k: "int (length data) + 1 \<le> ?k" "?k \<le> 4" using assms(6) by (simp_all add: RFCOMM_TEST_DATA_MAX_LEN_def)
    have small: "uint (word_of_int i :: u32) = i" if "0 \<le> i" "i \<le> 4" for i
      using that by (simp add: uint_word_of_int)
    have e: "int (length data) + 5 - 1 - int 3 = int (length data) + 1" by simp
    have "\<not> (word_of_int ?k :: u32) < word_of_int (int (length data) + 1)"
      unfolding word_less_def using k by (subst (1 2) small) linarith+
    then have "btstack_min (word_of_int ?k) (word_of_int (int (length data) + 1)) = word_of_int (int (length data) + 1)"
      unfolding btstack_min_def by (simp only: if_False)
    moreover have "uint (word_of_int (int (length data) + 1) :: u32) = int (length data) + 1"
      by (rule small) (use assms(6) in simp_all)
    ultimately show ?thesis unfolding e by (simp only:)
  qed
  have at: "rd packet (int 3) = Ret 0x23" "rd packet (int 3 + 1) = Ret l" using rd by simp_all
  have "mux_uih_message L m x (int 3) packet (of_nat (length packet)) s = Undef"
    unfolding mux_uih_message_def at bind_outcome_simps Let_def sz k by (simp add: rd_block_def len)
  then show ?thesis
    unfolding rfcomm_packet_handler_def rfcomm_multiplexer_l2cap_packet_handler_def assms(1) bind_outcome_simps option.case
    using assms(2,3) rd off by (simp add: mux_def)
qed


lemma test_command_overreads_witness:
  "rfcomm_packet_handler an_l2cap None 6 0x41 [3, 0xEF, 7, 0x23, 9, 0x70] 6 (a_state a_mux a_channel) = Undef"
proof -
  have m: "rfcomm_multiplexer_for_l2cap_cid (a_state a_mux a_channel) 0x41 = Ret (Some 1)"
    by (simp add: rfcomm_multiplexer_for_l2cap_cid_def a_state_def mux_def) (simp add: a_mux_def)
  show ?thesis
    using test_command_overreads [OF m, of a_mux 3 7 "[3, 0xEF, 7, 0x23, 9, 0x70]" 9 "[0x70]" an_l2cap None]
    by (simp add: a_state_def)
qed

text \<open>
  Changing only the parity type of a port keeps the old parity bits, adding the new ones, and resets
  the number of data bits to its lowest value; changing only the flow control overwrites data bits, stop
  bits and parity, and leaves the flow control as it was.
\<close>
theorem rpn_update_masks:
  "(parameter_mask_0 src = 0x10 \<and> parameter_mask_1 src = 0 \<longrightarrow>
      rpn_flags (rfcomm_rpn_data_update dest src) AND 0x03 = 0 \<and>
      rpn_flags (rfcomm_rpn_data_update dest src) AND 0x30 = (rpn_flags dest OR rpn_flags src) AND 0x30) \<and>
   (parameter_mask_0 src = 0 \<and> parameter_mask_1 src = 0x3F \<longrightarrow>
      rpn_flow_control (rfcomm_rpn_data_update dest src) = rpn_flow_control dest \<and>
      rpn_flags (rfcomm_rpn_data_update dest src) = (rpn_flags dest AND 0xC0) OR (rpn_flags src AND 0x3F))"
proof (intro conjI impI; elim conjE)
  assume m: "parameter_mask_0 src = 0x10" "parameter_mask_1 src = 0"
  have f: "rpn_flags (rfcomm_rpn_data_update dest src) = (rpn_flags dest AND 0xFC) OR (rpn_flags src AND 0x30)"
    using m by (simp add: rfcomm_rpn_data_update_def Let_def upt_rec)
  show "rpn_flags (rfcomm_rpn_data_update dest src) AND 0x03 = 0"
    "rpn_flags (rfcomm_rpn_data_update dest src) AND 0x30 = (rpn_flags dest OR rpn_flags src) AND 0x30"
    unfolding f by (simp_all add: bit.conj_disj_distrib2 and.assoc)
next
  assume m: "parameter_mask_0 src = 0" "parameter_mask_1 src = 0x3F"
  show "rpn_flow_control (rfcomm_rpn_data_update dest src) = rpn_flow_control dest"
    using m by (simp add: rfcomm_rpn_data_update_def Let_def)
  have "rpn_flags (rfcomm_rpn_data_update dest src) = rpn_flow_loop [0..<6] src (rpn_flags dest)"
    using m by (simp add: rfcomm_rpn_data_update_def Let_def)
  also have "\<dots> = (rpn_flags dest AND 0xC0) OR (rpn_flags src AND 0x3F)"
  proof (rule bit_word_eqI)
    fix n assume "n < LENGTH(8)"
    then consider "n = 0" | "n = 1" | "n = 2" | "n = 3" | "n = 4" | "n = 5" | "n = 6" | "n = 7" by fastforce
    then show "bit (rpn_flow_loop [0..<6] src (rpn_flags dest)) n = bit ((rpn_flags dest AND 0xC0) OR (rpn_flags src AND 0x3F)) n"
      by cases (simp_all add: m upt_rec Let_def bit_simps)
  qed
  finally show "rpn_flags (rfcomm_rpn_data_update dest src) = (rpn_flags dest AND 0xC0) OR (rpn_flags src AND 0x3F)" .
qed

text \<open>An event is well formed when its second byte counts the bytes after it.\<close>

definition event_ok :: "bytes \<Rightarrow> bool" where
  "event_ok ev \<longleftrightarrow> 2 \<le> length ev \<and> unat (ev ! 1) + 2 = length ev"

text \<open>A function makes one call: an event for a handler.\<close>

definition emits :: "(rfcomm \<Rightarrow> rfcomm outcome) \<Rightarrow> rfcomm \<Rightarrow> nat \<Rightarrow> (bytes \<Rightarrow> bool) \<Rightarrow> bool" where
  "emits f s h P \<longleftrightarrow> (\<exists>channel ev. f s = Ret (act (Callback h 4 channel ev) s) \<and> P ev)"

lemma emitsI: "f s = Ret (call_handler h 4 channel ev s) \<Longrightarrow> P ev \<Longrightarrow> emits f s h P"
  by (auto simp: emits_def call_handler_def)

lemma length_le16 [simp]: "length (le16 v) = 2"
  by (simp add: le16_def be16_def)

text \<open>
  The events for applications are well formed, except that a channel is open: that event says it has
  one byte more than it has.
\<close>
theorem event_headers:
  assumes "channel_mem s p = Some c" "mux_mem s (multiplexer c) = Some x" "length (remote_addr x) = 6" "st \<noteq> 0"
  shows "emits (rfcomm_emit_connection_request p) s (packet_handler c) event_ok \<and>
    emits (rfcomm_emit_channel_closed p) s (packet_handler c) event_ok \<and>
    emits (rfcomm_emit_can_send_now p) s (packet_handler c) event_ok \<and>
    emits (rfcomm_emit_remote_line_status p ls) s (packet_handler c) event_ok \<and>
    emits (rfcomm_emit_port_configuration p) s (packet_handler c) event_ok \<and>
    emits (rfcomm_emit_channel_opened L p st) s (packet_handler c) (\<lambda>ev. length ev = 17 \<and> ev ! 1 = 16 \<and> \<not> event_ok ev)"
proof (intro conjI)
  note [simp] = chan_def mux_def assms
  show "emits (rfcomm_emit_connection_request p) s (packet_handler c) event_ok"
    by (rule emitsI, simp add: rfcomm_emit_connection_request_def) (simp add: event_ok_def)
  show "emits (rfcomm_emit_channel_closed p) s (packet_handler c) event_ok"
    by (rule emitsI, simp add: rfcomm_emit_channel_closed_def) (simp add: event_ok_def)
  show "emits (rfcomm_emit_can_send_now p) s (packet_handler c) event_ok"
    by (rule emitsI, simp add: rfcomm_emit_can_send_now_def) (simp add: event_ok_def)
  show "emits (rfcomm_emit_remote_line_status p ls) s (packet_handler c) event_ok"
    by (rule emitsI, simp add: rfcomm_emit_remote_line_status_def) (simp add: event_ok_def)
  show "emits (rfcomm_emit_port_configuration p) s (packet_handler c) event_ok"
    by (rule emitsI, simp add: rfcomm_emit_port_configuration_def) (simp add: event_ok_def rpn_bytes_def)
  show "emits (rfcomm_emit_channel_opened L p st) s (packet_handler c) (\<lambda>ev. length ev = 17 \<and> ev ! 1 = 16 \<and> \<not> event_ok ev)"
    by (rule emitsI, simp add: rfcomm_emit_channel_opened_def Let_def) (simp add: event_ok_def)
qed

lemma event_headers_witness:
  "emits (rfcomm_emit_channel_closed 2) (a_state a_mux a_channel) 7 event_ok \<and>
   emits (rfcomm_emit_channel_opened an_l2cap 2 0x0D) (a_state a_mux a_channel) 7 (\<lambda>ev. length ev = 17 \<and> ev ! 1 = 16 \<and> \<not> event_ok ev)"
proof -
  have h: "channel_mem (a_state a_mux a_channel) 2 = Some a_channel" "mux_mem (a_state a_mux a_channel) (multiplexer a_channel) = Some a_mux"
    "length (remote_addr a_mux) = 6" "(0x0D :: byte) \<noteq> 0" "packet_handler a_channel = 7"
    by (simp_all add: a_state_def a_mux_def a_channel_def)
  show ?thesis using event_headers [OF h(1-4), of 0 an_l2cap] unfolding h(5) by blast
qed

lemma rpn_update_masks_witness:
  "rpn_flags (rfcomm_rpn_data_update rfcomm_rpn_data_set_defaults
     (rfcomm_rpn_data_set_defaults\<lparr>parameter_mask_0 := 0x10, parameter_mask_1 := 0\<rparr>)) AND 0x03 = 0"
  using rpn_update_masks [of "rfcomm_rpn_data_set_defaults\<lparr>parameter_mask_0 := 0x10, parameter_mask_1 := 0\<rparr>"
    rfcomm_rpn_data_set_defaults] by simp

end
