(* ===== verification/HciAcl.thy ===== *)
theory HciAcl
  imports Wp
begin

unbundle bit_operations_syntax

text \<open>
  The path of ACL data through \<^verbatim>\<open>btstack-rootless/src/hci.c\<close>: the packet buffer that L2CAP fills,
  the count of free buffers in the controller, the fragments that a packet is sent in, and the
  recombination of the fragments that are received.  The transport is a parameter: whether it is
  asynchronous, when it can take a packet and what it returns, by the number of packets and events
  so far.
\<close>

subsection \<open>State\<close>

datatype bd_addr_type = BD_ADDR_TYPE_LE_PUBLIC | BD_ADDR_TYPE_LE_RANDOM | BD_ADDR_TYPE_LE_PRIVAT_FALLBACK_PUBLIC |
  BD_ADDR_TYPE_LE_PRIVAT_FALLBACK_RANDOM | BD_ADDR_TYPE_SCO | BD_ADDR_TYPE_ACL | BD_ADDR_TYPE_UNKNOWN

record hci_connection =
  hc_address :: bytes
  hc_handle :: u16
  address_type :: bd_addr_type
  bonding_flags :: u16
  authentication_flags :: u32
  acl_recombination_buffer :: bytes
  acl_recombination_pos :: u16
  acl_recombination_length :: u16
  num_packets_sent :: byte

text \<open>Packets given to the transport, and events for the layers above.\<close>

datatype hci_action = TransportSend bytes | TransportPacketSent

record hci =
  connections :: "hci_connection list"
  hci_packet_buffer :: bytes
  hci_packet_buffer_reserved :: bool
  acl_fragmentation_pos :: u16
  acl_fragmentation_total_size :: u16
  acl_fragmentation_tx_active :: bool
  acl_packets_total_num :: byte
  le_acl_packets_total_num :: byte
  acl_data_packet_length :: u16
  le_data_packets_length :: u16
  non_flushable :: bool
  hci_clock :: nat
  hci_trace :: "hci_action list"

record hci_transport =
  can_send_packet_now :: "(nat \<Rightarrow> byte \<Rightarrow> bool) option"
  send_packet :: "nat \<Rightarrow> bytes \<Rightarrow> int"

definition HCI_ACL_BUFFER_SIZE :: nat where "HCI_ACL_BUFFER_SIZE = 1025"
definition HCI_INCOMING_PRE_BUFFER_SIZE :: nat where "HCI_INCOMING_PRE_BUFFER_SIZE = 8"

definition create_connection_for_bd_addr_and_type :: "bytes \<Rightarrow> bd_addr_type \<Rightarrow> hci_connection" where
  "create_connection_for_bd_addr_and_type addr type =
     \<lparr>hc_address = addr, hc_handle = 0xFFFF, address_type = type, bonding_flags = 0, authentication_flags = 0,
      acl_recombination_buffer = replicate (HCI_INCOMING_PRE_BUFFER_SIZE + 4 + HCI_ACL_BUFFER_SIZE) 0,
      acl_recombination_pos = 0, acl_recombination_length = 0, num_packets_sent = 0\<rparr>"

definition hci_connection_for_handle :: "hci \<Rightarrow> u16 \<Rightarrow> hci_connection option" where
  "hci_connection_for_handle s h = find (\<lambda>c. hc_handle c = h) (connections s)"

text \<open>An assignment to a field of the connection that was found for a handle.\<close>

fun upd_first :: "u16 \<Rightarrow> (hci_connection \<Rightarrow> hci_connection) \<Rightarrow> hci_connection list \<Rightarrow> hci_connection list" where
  "upd_first h f [] = []"
| "upd_first h f (c # cs) = (if hc_handle c = h then f c # cs else c # upd_first h f cs)"

definition upd_connection :: "u16 \<Rightarrow> (hci_connection \<Rightarrow> hci_connection) \<Rightarrow> hci \<Rightarrow> hci" where
  "upd_connection h f s = s\<lparr>connections := upd_first h f (connections s)\<rparr>"

definition hci_emit_transport_packet_sent :: "hci \<Rightarrow> hci" where
  "hci_emit_transport_packet_sent s = s\<lparr>hci_trace := hci_trace s @ [TransportPacketSent]\<rparr>"

subsection \<open>Who may send\<close>

definition hci_is_le_connection_type :: "bd_addr_type \<Rightarrow> bool" where
  "hci_is_le_connection_type t \<longleftrightarrow>
     t \<in> {BD_ADDR_TYPE_LE_PUBLIC, BD_ADDR_TYPE_LE_RANDOM, BD_ADDR_TYPE_LE_PRIVAT_FALLBACK_PUBLIC, BD_ADDR_TYPE_LE_PRIVAT_FALLBACK_RANDOM}"

definition hci_number_free_acl_slots_for_connection_type :: "hci \<Rightarrow> bd_addr_type \<Rightarrow> int" where
  "hci_number_free_acl_slots_for_connection_type s type =
     (let sent_le = sum_list (map (\<lambda>c. uint (num_packets_sent c)) (filter (\<lambda>c. hci_is_le_connection_type (address_type c)) (connections s)));
          sent_classic = sum_list (map (\<lambda>c. uint (num_packets_sent c)) (filter (\<lambda>c. address_type c = BD_ADDR_TYPE_ACL) (connections s)));
          free_classic = uint (acl_packets_total_num s) - sent_classic in
      if free_classic < 0 then 0
      else if le_acl_packets_total_num s \<noteq> 0 then
        let free_le = uint (le_acl_packets_total_num s) - sent_le in
        if free_le < 0 then 0
        else case type of BD_ADDR_TYPE_UNKNOWN \<Rightarrow> 0 | BD_ADDR_TYPE_ACL \<Rightarrow> free_classic | _ \<Rightarrow> free_le
      else
        let free_classic = free_classic - sent_le in
        if free_classic < 0 then 0
        else case type of BD_ADDR_TYPE_UNKNOWN \<Rightarrow> 0 | _ \<Rightarrow> free_classic)"

definition hci_number_free_acl_slots_for_handle :: "hci \<Rightarrow> u16 \<Rightarrow> int" where
  "hci_number_free_acl_slots_for_handle s h =
     (case hci_connection_for_handle s h of None \<Rightarrow> 0
      | Some c \<Rightarrow> hci_number_free_acl_slots_for_connection_type s (address_type c))"

definition hci_transport_can_send_prepared_packet_now :: "hci_transport \<Rightarrow> hci \<Rightarrow> byte \<Rightarrow> bool" where
  "hci_transport_can_send_prepared_packet_now T s packet_type =
     (case can_send_packet_now T of None \<Rightarrow> True | Some f \<Rightarrow> f (hci_clock s) packet_type)"

definition hci_can_send_prepared_acl_packet_for_address_type :: "hci_transport \<Rightarrow> hci \<Rightarrow> bd_addr_type \<Rightarrow> bool" where
  "hci_can_send_prepared_acl_packet_for_address_type T s type \<longleftrightarrow>
     hci_transport_can_send_prepared_packet_now T s 2 \<and> hci_number_free_acl_slots_for_connection_type s type > 0"

definition hci_can_send_prepared_acl_packet_now :: "hci_transport \<Rightarrow> hci \<Rightarrow> u16 \<Rightarrow> bool" where
  "hci_can_send_prepared_acl_packet_now T s h \<longleftrightarrow>
     hci_transport_can_send_prepared_packet_now T s 2 \<and> hci_number_free_acl_slots_for_handle s h > 0"

definition hci_can_send_acl_packet_now :: "hci_transport \<Rightarrow> hci \<Rightarrow> u16 \<Rightarrow> bool" where
  "hci_can_send_acl_packet_now T s h \<longleftrightarrow> \<not> hci_packet_buffer_reserved s \<and> hci_can_send_prepared_acl_packet_now T s h"

definition hci_can_send_acl_classic_packet_now :: "hci_transport \<Rightarrow> hci \<Rightarrow> bool" where
  "hci_can_send_acl_classic_packet_now T s \<longleftrightarrow>
     \<not> hci_packet_buffer_reserved s \<and> hci_can_send_prepared_acl_packet_for_address_type T s BD_ADDR_TYPE_ACL"

definition hci_is_packet_buffer_reserved :: "hci \<Rightarrow> bool" where
  "hci_is_packet_buffer_reserved s = hci_packet_buffer_reserved s"

definition hci_reserve_packet_buffer :: "hci \<Rightarrow> hci \<times> int" where
  "hci_reserve_packet_buffer s = (if hci_packet_buffer_reserved s then (s, 0) else (s\<lparr>hci_packet_buffer_reserved := True\<rparr>, 1))"

definition hci_release_packet_buffer :: "hci \<Rightarrow> hci" where
  "hci_release_packet_buffer s = s\<lparr>hci_packet_buffer_reserved := False\<rparr>"

definition hci_transport_synchronous :: "hci_transport \<Rightarrow> bool" where
  "hci_transport_synchronous T \<longleftrightarrow> can_send_packet_now T = None"

subsection \<open>Sending\<close>

definition transport_send :: "hci_transport \<Rightarrow> bytes \<Rightarrow> hci \<Rightarrow> hci \<times> int" where
  "transport_send T packet s =
     (s\<lparr>hci_trace := hci_trace s @ [TransportSend packet], hci_clock := Suc (hci_clock s)\<rparr>, send_packet T (hci_clock s) packet)"

definition hci_is_le_connection :: "hci_connection \<Rightarrow> bool" where
  "hci_is_le_connection c = hci_is_le_connection_type (address_type c)"

text \<open>The longest fragment for the connection of a handle.\<close>

definition max_acl_data_packet_length :: "u16 \<Rightarrow> hci \<Rightarrow> u16" where
  "max_acl_data_packet_length h s =
     (case hci_connection_for_handle s h of
        Some c \<Rightarrow> if hci_is_le_connection c \<and> le_data_packets_length s > 0 then le_data_packets_length s else acl_data_packet_length s
      | None \<Rightarrow> acl_data_packet_length s)"

text \<open>The header of the next fragment, at \<open>header_pos\<close> of the packet buffer, and the fragment.\<close>

definition next_fragment :: "u16 \<Rightarrow> int \<Rightarrow> bytes \<Rightarrow> (bytes \<times> bytes) outcome" where
  "next_fragment header_pos len buf =
     bind_outcome
       (if header_pos > 0 then
          bind_outcome (little_endian_read_16 buf 0 0) (\<lambda>flags.
          little_endian_store_16 buf 0 header_pos ((flags AND 0xCFFF) OR 0x1000))
        else Ret buf) (\<lambda>buf.
     bind_outcome (little_endian_store_16 buf 0 (header_pos + 2) (word_of_int len)) (\<lambda>buf.
     bind_outcome (rd_block buf (uint header_pos) (nat (len + 4))) (\<lambda>packet.
     Ret (buf, packet))))"

text \<open>
  The loop over the fragments, for at most \<open>n\<close> of them.  The result says whether all fragments were
  sent or the controller has no room for the rest.
\<close>

fun fragments_loop :: "nat \<Rightarrow> hci_transport \<Rightarrow> u16 \<Rightarrow> int \<Rightarrow> hci \<Rightarrow> (hci \<times> int \<times> bool) outcome" where
  "fragments_loop 0 T h max_len s = Undef"
| "fragments_loop (Suc n) T h max_len s =
     (let rest = uint (acl_fragmentation_total_size s) - uint (acl_fragmentation_pos s);
          more = rest > max_len;
          len = (if more then max_len else rest) in
      bind_outcome (next_fragment (acl_fragmentation_pos s - 4) len (hci_packet_buffer s)) (\<lambda>(buf, packet).
      let s = (upd_connection h (\<lambda>c. c\<lparr>num_packets_sent := num_packets_sent c + 1\<rparr>) s)\<lparr>hci_packet_buffer := buf\<rparr>;
          s = (if more then s\<lparr>acl_fragmentation_pos := acl_fragmentation_pos s + word_of_int len\<rparr>
               else s\<lparr>acl_fragmentation_pos := 0, acl_fragmentation_total_size := 0\<rparr>) in
      case transport_send T packet (s\<lparr>acl_fragmentation_tx_active := True\<rparr>) of (s, err) \<Rightarrow>
        if \<not> more then Ret (s, err, True)
        else if hci_can_send_prepared_acl_packet_now T s h then fragments_loop n T h max_len s
        else Ret (s, err, False)))"

definition hci_send_acl_packet_fragments :: "hci_transport \<Rightarrow> u16 \<Rightarrow> hci \<Rightarrow> (hci \<times> int) outcome" where
  "hci_send_acl_packet_fragments T h s =
     bind_outcome (fragments_loop 65536 T h (uint (max_acl_data_packet_length h s)) s) (\<lambda>(s, err, complete).
     Ret (if complete \<and> hci_transport_synchronous T then
            hci_emit_transport_packet_sent (hci_release_packet_buffer (s\<lparr>acl_fragmentation_tx_active := False\<rparr>))
          else s, err))"

definition READ_ACL_CONNECTION_HANDLE :: "bytes \<Rightarrow> u16 outcome" where
  "READ_ACL_CONNECTION_HANDLE buf = bind_outcome (little_endian_read_16 buf 0 0) (\<lambda>v. Ret (v AND 0x0FFF))"

definition hci_send_acl_packet_buffer :: "hci_transport \<Rightarrow> u16 \<Rightarrow> hci \<Rightarrow> (hci \<times> int) outcome" where
  "hci_send_acl_packet_buffer T len s =
     (if \<not> hci_packet_buffer_reserved s then Ret (s, 0)
      else bind_outcome (READ_ACL_CONNECTION_HANDLE (hci_packet_buffer s)) (\<lambda>h.
        if \<not> hci_can_send_prepared_acl_packet_now T s h then
          Ret (hci_emit_transport_packet_sent (hci_release_packet_buffer s), 0x57)
        else case hci_connection_for_handle s h of
          None \<Rightarrow> Ret (hci_emit_transport_packet_sent (hci_release_packet_buffer s), 0)
        | Some c \<Rightarrow>
            hci_send_acl_packet_fragments T h
              (s\<lparr>acl_fragmentation_total_size := len, acl_fragmentation_pos := 4\<rparr>)))"

text \<open>The first part of \<open>hci_run\<close>; the result says whether something was sent.\<close>

definition hci_run_acl_fragments :: "hci_transport \<Rightarrow> hci \<Rightarrow> (hci \<times> bool) outcome" where
  "hci_run_acl_fragments T s =
     (if acl_fragmentation_total_size s > 0 then
        bind_outcome (READ_ACL_CONNECTION_HANDLE (hci_packet_buffer s)) (\<lambda>h.
        case hci_connection_for_handle s h of
          None \<Rightarrow> Ret (s\<lparr>acl_fragmentation_total_size := 0, acl_fragmentation_pos := 0\<rparr>, False)
        | Some c \<Rightarrow>
            if hci_can_send_prepared_acl_packet_now T s h then
              bind_outcome (hci_send_acl_packet_fragments T h s) (\<lambda>(s, err). Ret (s, True))
            else Ret (s, False))
      else Ret (s, False))"

subsection \<open>Events\<close>

text \<open>\<open>HCI_EVENT_TRANSPORT_PACKET_SENT\<close>, \<open>HCI_EVENT_NUMBER_OF_COMPLETED_PACKETS\<close> and \<open>HCI_EVENT_DISCONNECTION_COMPLETE\<close>.\<close>

definition transport_packet_sent_event :: "hci_transport \<Rightarrow> hci \<Rightarrow> hci" where
  "transport_packet_sent_event T s =
     (if hci_transport_synchronous T then s
      else
        let s = s\<lparr>acl_fragmentation_tx_active := False\<rparr> in
        if acl_fragmentation_total_size s \<noteq> 0 then s else hci_release_packet_buffer s)"

fun completed_packets_loop :: "nat \<Rightarrow> bytes \<Rightarrow> u16 \<Rightarrow> hci \<Rightarrow> hci outcome" where
  "completed_packets_loop 0 packet offset s = Ret s"
| "completed_packets_loop (Suc n) packet offset s =
     bind_outcome (little_endian_read_16 packet 0 (uint offset)) (\<lambda>h.
     bind_outcome (little_endian_read_16 packet 0 (uint (offset + 2))) (\<lambda>num.
     let s = upd_connection (h AND 0x0FFF) (\<lambda>c. c\<lparr>num_packets_sent :=
               (if ucast (num_packets_sent c) \<ge> num then num_packets_sent c - ucast num else 0)\<rparr>) s in
     completed_packets_loop n packet (offset + 4) s))"

definition number_of_completed_packets_event :: "bytes \<Rightarrow> hci \<Rightarrow> hci outcome" where
  "number_of_completed_packets_event packet s =
     (if length packet < 3 then Ret s
      else bind_outcome (rd packet 2) (\<lambda>num.
        if length packet \<noteq> 3 + unat num * 4 then Ret s
        else completed_packets_loop (unat num) packet 3 s))"

text \<open>What a lost connection does to a packet that is being sent.\<close>

definition disconnection_complete_event :: "bytes \<Rightarrow> hci \<Rightarrow> hci outcome" where
  "disconnection_complete_event packet s =
     bind_outcome (rd packet 2) (\<lambda>status.
     if status \<noteq> 0 then Ret s
     else bind_outcome (little_endian_read_16 packet 0 3) (\<lambda>h.
     if acl_fragmentation_total_size s > 0 then
       bind_outcome (READ_ACL_CONNECTION_HANDLE (hci_packet_buffer s)) (\<lambda>h'.
       if h = h' then
         let s' = s\<lparr>acl_fragmentation_total_size := 0, acl_fragmentation_pos := 0\<rparr> in
         Ret (if acl_fragmentation_tx_active s then s' else hci_release_packet_buffer s')
       else Ret s)
     else Ret s))"

subsection \<open>Receiving\<close>

text \<open>One ACL packet of a connection; the result has the L2CAP packet that is complete, if one is.\<close>

definition acl_continuation :: "u16 \<Rightarrow> bytes \<Rightarrow> hci_connection \<Rightarrow> (hci_connection \<times> bytes option) outcome" where
  "acl_continuation acl_length packet c =
     (if acl_recombination_pos c = 0 then Ret (c, None)
      else if uint (acl_recombination_pos c) + uint acl_length > int (4 + HCI_ACL_BUFFER_SIZE) then
        Ret (c\<lparr>acl_recombination_pos := 0\<rparr>, None)
      else
        bind_outcome (rd_block packet 4 (unat acl_length)) (\<lambda>data.
        bind_outcome (wr_block (acl_recombination_buffer c) (int HCI_INCOMING_PRE_BUFFER_SIZE + uint (acl_recombination_pos c)) data) (\<lambda>buf.
        let c = c\<lparr>acl_recombination_buffer := buf, acl_recombination_pos := acl_recombination_pos c + acl_length\<rparr> in
        if uint (acl_recombination_pos c) \<ge> uint (acl_recombination_length c) + 4 + 4 then
          bind_outcome (rd_block buf (int HCI_INCOMING_PRE_BUFFER_SIZE) (unat (acl_recombination_pos c))) (\<lambda>p.
          Ret (c\<lparr>acl_recombination_length := 0, acl_recombination_pos := 0\<rparr>, Some p))
        else Ret (c, None))))"

definition acl_first :: "u16 \<Rightarrow> bytes \<Rightarrow> hci_connection \<Rightarrow> (hci_connection \<times> bytes option) outcome" where
  "acl_first acl_length packet c =
     (let c = c\<lparr>acl_recombination_pos := 0\<rparr> in
      bind_outcome (little_endian_read_16 packet 0 4) (\<lambda>l2cap_length.
      if uint acl_length \<ge> uint l2cap_length + 4 then
        bind_outcome (rd_block packet 0 (unat acl_length + 4)) (\<lambda>p. Ret (c, Some p))
      else if unat acl_length > HCI_ACL_BUFFER_SIZE then Ret (c, None)
      else
        bind_outcome (rd_block packet 0 (unat acl_length + 4)) (\<lambda>p.
        bind_outcome (wr_block (acl_recombination_buffer c) (int HCI_INCOMING_PRE_BUFFER_SIZE) p) (\<lambda>buf.
        bind_outcome (little_endian_store_16 buf 0 (of_nat HCI_INCOMING_PRE_BUFFER_SIZE + 2) (l2cap_length + 4)) (\<lambda>buf.
        Ret (c\<lparr>acl_recombination_buffer := buf, acl_recombination_pos := acl_length + 4, acl_recombination_length := l2cap_length\<rparr>,
             None))))))"

definition acl_handler :: "bytes \<Rightarrow> hci \<Rightarrow> (hci \<times> bytes option) outcome" where
  "acl_handler packet s =
     bind_outcome (READ_ACL_CONNECTION_HANDLE packet) (\<lambda>h.
     bind_outcome (rd packet 1) (\<lambda>b.
     bind_outcome (little_endian_read_16 packet 0 2) (\<lambda>acl_length.
     case hci_connection_for_handle s h of None \<Rightarrow> Ret (s, None)
     | Some c \<Rightarrow>
         if uint acl_length + 4 \<noteq> int (length packet) then Ret (s, None)
         else
           let flags = drop_bit 4 b AND 3 in
           bind_outcome
             (if flags = 1 then acl_continuation acl_length packet c
              else if flags = 2 then acl_first acl_length packet c
              else Ret (c, None)) (\<lambda>(c, p).
           Ret (upd_connection h (\<lambda>_. c) s, p)))))"

end
