(* ===== verification/HciRecombine.thy ===== *)
theory HciRecombine
  imports HciAcl
begin

unbundle bit_operations_syntax

text \<open>
  Receiving ACL data: the handler never leaves its buffers, and the fragments of a packet, cut in
  any way, give that packet once and complete.
\<close>

subsection \<open>ACL packets\<close>

definition acl_packet :: "u16 \<Rightarrow> bytes \<Rightarrow> bytes" where
  "acl_packet flags data = le16 flags @ le16 (of_nat (length data)) @ data"

lemma length_acl_packet [simp]: "length (acl_packet f d) = length d + 4"
  by (simp add: acl_packet_def)

text \<open>The handle and the flags of a first and of a following fragment, as a controller delivers them.\<close>

definition first_flags :: "u16 \<Rightarrow> u16" where
  "first_flags h = h OR 0x2000"

definition cont_flags :: "u16 \<Rightarrow> u16" where
  "cont_flags h = h OR 0x1000"

lemma flags_byte: "ucast (drop_bit 8 (w :: u16)) = (w' :: byte) \<Longrightarrow> drop_bit 4 w' AND 3 = ucast (drop_bit 12 w AND 3)"
proof -
  have three: "(3 :: byte) = mask 2" "(3 :: u16) = mask 2" by (simp_all add: mask_eq_exp_minus_1)
  have "drop_bit 4 (ucast (drop_bit 8 w) :: byte) AND 3 = ucast (drop_bit 12 w AND 3)"
    unfolding three take_bit_eq_mask [symmetric] by (rule bit_word_eqI) (auto simp: bit_simps)
  then show "ucast (drop_bit 8 w) = w' \<Longrightarrow> drop_bit 4 w' AND 3 = ucast (drop_bit 12 w AND 3)" by simp
qed

lemma handle_12: "(h :: u16) < 0x1000 \<Longrightarrow> h AND 0x0FFF = h"
proof -
  assume "h < 0x1000"
  then have "h AND mask 12 = h" by (intro less_mask_eq) simp
  then show ?thesis by (simp add: mask_eq_exp_minus_1)
qed

lemma acl_header:
  assumes "length data < 65532"
  shows "READ_ACL_CONNECTION_HANDLE (acl_packet f data) = Ret (f AND 0x0FFF)"
    "rd (acl_packet f data) 1 = Ret (ucast (drop_bit 8 f))"
    "little_endian_read_16 (acl_packet f data) 0 2 = Ret (of_nat (length data))"
proof -
  have h: "holds_at (acl_packet f data) 0 (le16 f)" "holds_at (acl_packet f data) (0 + 2) (le16 (of_nat (length data)))"
    unfolding acl_packet_def using holds_at_intro [of 0 "[]" "le16 f"] holds_at_intro [of "0 + 2" "le16 f"] by simp_all
  show "READ_ACL_CONNECTION_HANDLE (acl_packet f data) = Ret (f AND 0x0FFF)"
    unfolding READ_ACL_CONNECTION_HANDLE_def using le16.read_enc [of "acl_packet f data" 0 0 f] h(1) by simp
  show "little_endian_read_16 (acl_packet f data) 0 2 = Ret (of_nat (length data))"
    by (rule le16.read_enc [OF h(2)])
  show "rd (acl_packet f data) 1 = Ret (ucast (drop_bit 8 f))"
    unfolding acl_packet_def le16_def be16_def by (simp add: rd_def)
qed

lemma acl_flags:
  assumes "h < 0x1000"
  shows "first_flags h AND 0x0FFF = h" "cont_flags h AND 0x0FFF = h"
    "drop_bit 4 (ucast (drop_bit 8 (first_flags h)) :: byte) AND 3 = 2"
    "drop_bit 4 (ucast (drop_bit 8 (cont_flags h)) :: byte) AND 3 = 1"
proof -
  have d: "drop_bit 12 h = 0" using assms by (simp add: drop_bit_eq_div word_less_nat_alt word_arith_nat_div)
  show "first_flags h AND 0x0FFF = h" "cont_flags h AND 0x0FFF = h"
    using handle_12 [OF assms] by (simp_all add: first_flags_def cont_flags_def bit.conj_disj_distrib2)
  show "drop_bit 4 (ucast (drop_bit 8 (first_flags h)) :: byte) AND 3 = 2"
    "drop_bit 4 (ucast (drop_bit 8 (cont_flags h)) :: byte) AND 3 = 1"
    unfolding flags_byte [OF refl] by (simp_all add: first_flags_def cont_flags_def drop_bit_or d)
qed

subsection \<open>Connections\<close>

lemma find_upd_first:
  assumes "\<And>c. hc_handle c = h \<Longrightarrow> hc_handle (f c) = h"
  shows "find (\<lambda>c. hc_handle c = h) (upd_first h f cs) = map_option f (find (\<lambda>c. hc_handle c = h) cs)"
    "h' \<noteq> h \<Longrightarrow> find (\<lambda>c. hc_handle c = h') (upd_first h f cs) = find (\<lambda>c. hc_handle c = h') cs"
  by (induction cs) (auto simp: assms)

lemma for_handle_handle: "hci_connection_for_handle s h = Some c \<Longrightarrow> hc_handle c = h"
  by (auto simp: hci_connection_for_handle_def find_Some_iff)

lemma for_handle_upd:
  assumes "\<And>c. hc_handle c = h \<Longrightarrow> hc_handle (f c) = h"
  shows "hci_connection_for_handle (upd_connection h f s) h = map_option f (hci_connection_for_handle s h)"
    "h' \<noteq> h \<Longrightarrow> hci_connection_for_handle (upd_connection h f s) h' = hci_connection_for_handle s h'"
  by (simp_all add: hci_connection_for_handle_def upd_connection_def find_upd_first [OF assms])

text \<open>What keeps the handler within the buffer of a connection.\<close>

definition conn_ok :: "hci_connection \<Rightarrow> bool" where
  "conn_ok c \<longleftrightarrow> length (acl_recombination_buffer c) = 1037 \<and> uint (acl_recombination_pos c) \<le> 1029"

definition hci_conns_ok :: "hci \<Rightarrow> bool" where
  "hci_conns_ok s \<longleftrightarrow> (\<forall>c \<in> set (connections s). conn_ok c)"

lemma conns_ok_for_handle: "hci_conns_ok s \<Longrightarrow> hci_connection_for_handle s h = Some c \<Longrightarrow> conn_ok c"
  by (auto simp: hci_conns_ok_def hci_connection_for_handle_def find_Some_iff)

lemma upd_first_ok: "\<forall>c \<in> set cs. P c \<Longrightarrow> (\<And>c. P c \<Longrightarrow> P (f c)) \<Longrightarrow> \<forall>c \<in> set (upd_first h f cs). P c"
  by (induction cs) auto

lemma created_connection_ok: "conn_ok (create_connection_for_bd_addr_and_type addr type)"
  by (simp add: conn_ok_def create_connection_for_bd_addr_and_type_def HCI_INCOMING_PRE_BUFFER_SIZE_def HCI_ACL_BUFFER_SIZE_def)

subsection \<open>Safety\<close>

lemma u16_sum: "uint (a :: u16) + uint b < 65536 \<Longrightarrow> uint (a + b) = uint a + uint b"
proof -
  assume less: "uint a + uint b < 65536"
  have "uint (a + b) = (uint a + uint b) mod 2 ^ 16" by (simp only: uint_word_ariths(1)) simp
  also have "\<dots> = uint a + uint b" by (rule mod_pos_pos_trivial) (use less in simp_all)
  finally show ?thesis .
qed

lemma returns_continuation:
  assumes "conn_ok c" "length packet = unat n + 4"
  shows "returns (acl_continuation n packet c) (\<lambda>(c', p). conn_ok c' \<and> hc_handle c' = hc_handle c)"
proof -
  have pos: "uint (acl_recombination_pos c) \<le> 1029" "length (acl_recombination_buffer c) = 1037"
    "0 \<le> uint (acl_recombination_pos c)" using assms(1) by (simp_all add: conn_ok_def)
  have nat_pos: "int (unat w) = uint w" for w :: u16 by (simp only: uint_nat)
  have sum: "uint (acl_recombination_pos c + n) = uint (acl_recombination_pos c) + uint n"
    if "\<not> 1029 < uint (acl_recombination_pos c) + uint n" by (rule u16_sum) (use that in linarith)
  show ?thesis
    unfolding acl_continuation_def Let_def
    by (intro wp) (use pos assms in \<open>simp_all add: HCI_ACL_BUFFER_SIZE_def HCI_INCOMING_PRE_BUFFER_SIZE_def conn_ok_def nat_pos sum\<close>)
qed

lemma returns_first:
  assumes "conn_ok c" "length packet = unat n + 4" "2 \<le> unat n"
  shows "returns (acl_first n packet c) (\<lambda>(c', p). conn_ok c' \<and> hc_handle c' = hc_handle c)"
proof -
  have nat_pos: "int (unat w) = uint w" for w :: u16 by (simp only: uint_nat)
  have len: "length (acl_recombination_buffer c) = 1037" using assms(1) by (simp add: conn_ok_def)
  have n: "2 \<le> uint n" "int (length packet) = uint n + 4" using assms(2,3) nat_pos [of n] by linarith+
  have sum: "uint (n + 4) = uint n + 4" if "unat n \<le> 1025"
  proof -
    have "uint n \<le> 1025" using that nat_pos [of n] by linarith
    then show ?thesis by (subst u16_sum) simp_all
  qed
  have small: "uint n \<le> 1025" if "\<not> 1025 < unat n" using that nat_pos [of n] by linarith
  show ?thesis
    unfolding acl_first_def Let_def
    by (intro wp) (use len n small in \<open>simp_all add: HCI_ACL_BUFFER_SIZE_def HCI_INCOMING_PRE_BUFFER_SIZE_def conn_ok_def nat_pos sum\<close>)
qed

lemma conns_ok_upd: "hci_conns_ok s \<Longrightarrow> conn_ok c \<Longrightarrow> hci_conns_ok (upd_connection h (\<lambda>_. c) s)"
  using upd_first_ok [of "connections s" conn_ok "\<lambda>_. c" h] by (simp add: hci_conns_ok_def upd_connection_def)

lemma returns_acl_handler:
  assumes "hci_conns_ok s" "6 \<le> length packet" "length packet < 65536"
  shows "returns (acl_handler packet s) (\<lambda>(s', p). hci_conns_ok s')"
proof -
  have nat_pos: "int (unat w) = uint w" for w :: u16 by (simp only: uint_nat)
  have read: "\<exists>v. little_endian_read_16 packet 0 p = Ret v" if "p \<in> {0, 2}" for p
    using that assms(2) returns_read_16(2) [of 0 p packet "\<lambda>_. True"] by (auto elim!: returnsE)
  obtain v n where v: "little_endian_read_16 packet 0 0 = Ret v" "little_endian_read_16 packet 0 2 = Ret n" using read by blast
  have b: "rd packet 1 = Ret (packet ! 1)" using assms(2) by (simp add: rd_def)
  show ?thesis
  proof (cases "hci_connection_for_handle s (v AND 0x0FFF)")
    case None
    then show ?thesis using assms(1) by (simp add: acl_handler_def READ_ACL_CONNECTION_HANDLE_def v b)
  next
    case (Some c)
    note ok = conns_ok_for_handle [OF assms(1) Some]
    have len: "length packet = unat n + 4" "2 \<le> unat n" if "uint n + 4 = int (length packet)"
      using that nat_pos [of n] assms(2) by linarith+
    have part: "returns (if flags = (1 :: byte) then acl_continuation n packet c else if flags = 2 then acl_first n packet c else Ret (c, None))
        (\<lambda>(c', p). conn_ok c' \<and> hc_handle c' = hc_handle c)" if "uint n + 4 = int (length packet)" for flags
      using len [OF that] ok by (simp add: returns_continuation returns_first)
    show ?thesis
    proof (cases "uint n + 4 = int (length packet)")
      case False
      then show ?thesis using assms(1) by (simp add: acl_handler_def READ_ACL_CONNECTION_HANDLE_def v b Some)
    next
      case True
      then have same: "(uint n + 4 \<noteq> int (length packet)) = False" by simp
      show ?thesis
        unfolding acl_handler_def READ_ACL_CONNECTION_HANDLE_def v b bind_outcome_simps Some option.case Let_def same if_False
        by (intro returns_bind returns_mono [OF part [OF True]]) (auto intro: conns_ok_upd [OF assms(1)])
    qed
  qed
qed

subsection \<open>A packet in fragments\<close>

text \<open>The buffer of the connection holds the first bytes of a packet of \<open>n\<close> and four bytes.\<close>

definition collects :: "hci_connection \<Rightarrow> u16 \<Rightarrow> nat \<Rightarrow> bytes \<Rightarrow> bool" where
  "collects c flags n bs \<longleftrightarrow> conn_ok c \<and> unat (acl_recombination_pos c) = 4 + length bs \<and>
     unat (acl_recombination_length c) = n \<and> holds_at (acl_recombination_buffer c) 8 (le16 flags @ le16 (of_nat (n + 4)) @ bs)"

lemma unat_of_nat_u16: "k < 65536 \<Longrightarrow> unat (of_nat k :: u16) = k"
  by (simp add: unat_of_nat)

lemma uint_of_nat_u16: "k < 65536 \<Longrightarrow> uint (of_nat k :: u16) = int k"
  by (simp only: uint_nat unat_of_nat_u16)

lemma acl_data: "length data < 65532 \<Longrightarrow> rd_block (acl_packet f data) 4 (length data) = Ret data"
  using holds_at_intro [of 4 "le16 f @ le16 (of_nat (length data))" data "[]"]
  by (intro holds_at_block) (simp_all add: acl_packet_def)

lemma first_fragment:
  assumes "conn_ok c" "2 \<le> length d" "length d < n + 4" "n \<le> 1021" "take 2 d = le16 (of_nat n)"
  shows "\<exists>c'. acl_first (of_nat (length d)) (acl_packet f d) c = Ret (c', None) \<and> collects c' f n d \<and> hc_handle c' = hc_handle c"
proof -
  have len: "length d < 65532" "length d \<le> 1025" and less: "length d < 65536" using assms(3,4) by simp_all
  have d: "d = le16 (of_nat n) @ drop 2 d" using assms(5) by (metis append_take_drop_id)
  have l2cap: "little_endian_read_16 (acl_packet f d) 0 4 = Ret (of_nat n)"
    unfolding acl_packet_def
    by (rule le16.read_enc, subst d) (use holds_at_intro [of "0 + 4" "le16 f @ le16 (of_nat (length d))" "le16 (of_nat n)" "drop 2 d"] d in simp)
  let ?buf = "acl_recombination_buffer c"
  have buf: "length ?buf = 1037" using assms(1) by (simp add: conn_ok_def)
  have all: "rd_block (acl_packet f d) 0 (unat (of_nat (length d) :: u16) + 4) = Ret (acl_packet f d)"
    unfolding unat_of_nat_u16 [OF less] rd_block_def by simp
  obtain b1 where b1: "wr_block ?buf 8 (acl_packet f d) = Ret b1" "length b1 = length ?buf" "holds_at b1 8 (le16 f @ le16 (of_nat (length d)) @ d)"
    by (rule wr_block_Ret [of 8 "acl_packet f d" ?buf]) (use buf len in \<open>simp_all add: acl_packet_def\<close>)
  obtain b2 where b2: "little_endian_store_16 b1 0 10 (of_nat n + 4) = Ret b2" "length b2 = length b1"
      "holds_at b2 8 (le16 f @ le16 (of_nat n + 4) @ d)"
  proof -
    have h: "holds_at b1 8 (le16 f)" "holds_at b1 12 d" using b1(3) by (simp_all add: holds_at_append)
    obtain b2 where b2: "wr_block b1 10 (le16 (of_nat n + 4)) = Ret b2" "length b2 = length b1" "holds_at b2 10 (le16 (of_nat n + 4))"
        "\<And>q xs. holds_at b1 q xs \<Longrightarrow> q + int (length xs) \<le> 10 \<or> 10 + int (length (le16 (of_nat n + 4))) \<le> q \<Longrightarrow> holds_at b2 q xs"
      by (rule wr_block_Ret [of 10 "le16 (of_nat n + 4)" b1]) (use b1(2) buf in simp_all)
    then have "holds_at b2 8 (le16 f @ le16 (of_nat n + 4) @ d)"
      using b2(4) [OF h(1)] b2(4) [OF h(2)] by (simp add: holds_at_append)
    with b2(1,2) show ?thesis by (intro that) (simp_all add: le16.store_enc)
  qed
  let ?c = "c\<lparr>acl_recombination_pos := of_nat (length d) + 4, acl_recombination_buffer := b2, acl_recombination_length := of_nat n\<rparr>"
  have pos: "unat (of_nat (length d) + 4 :: u16) = 4 + length d"
    using unat_of_nat_u16 [of "length d + 4"] len by simp
  then have upos: "uint (of_nat (length d) + 4 :: u16) = 4 + int (length d)" by (simp only: uint_nat)
  have "acl_first (of_nat (length d)) (acl_packet f d) c = Ret (?c, None)"
    unfolding acl_first_def Let_def l2cap bind_outcome_simps all
    using assms(3,4) b1(1) b2(1) len
    by (simp add: uint_of_nat_u16 unat_of_nat_u16 HCI_ACL_BUFFER_SIZE_def HCI_INCOMING_PRE_BUFFER_SIZE_def)
  moreover have "collects ?c f n d"
    using b1(2) b2(2,3) buf pos upos len assms(4) by (simp add: collects_def conn_ok_def unat_of_nat_u16)
  ultimately show ?thesis by fastforce
qed

lemma next_part:
  assumes "collects c f n bs" "length bs + length d \<le> n + 4" "n \<le> 1021"
  shows "\<exists>c'. acl_continuation (of_nat (length d)) (acl_packet g d) c =
      Ret (c', if length bs + length d = n + 4 then Some (acl_packet f (bs @ d)) else None) \<and> hc_handle c' = hc_handle c \<and>
    (if length bs + length d = n + 4 then conn_ok c' \<and> acl_recombination_pos c' = 0 else collects c' f n (bs @ d))"
proof -
  let ?buf = "acl_recombination_buffer c"
  have c: "conn_ok c" "unat (acl_recombination_pos c) = 4 + length bs" "unat (acl_recombination_length c) = n"
    "holds_at ?buf 8 (le16 f @ le16 (of_nat (n + 4)) @ bs)" using assms(1) by (simp_all add: collects_def)
  have upos: "uint (acl_recombination_pos c) = 4 + int (length bs)" "uint (acl_recombination_length c) = int n"
    using c(2,3) by (simp_all only: uint_nat)
  have buf: "length ?buf = 1037" using c(1) by (simp add: conn_ok_def)
  have len: "length d < 65532" "length bs + length d \<le> 1025" using assms(2,3) by simp_all
  have ulen: "uint (of_nat (length d) :: u16) = int (length d)" using len by (simp add: uint_of_nat_u16)
  have h: "holds_at ?buf 8 ((le16 f @ le16 (of_nat (n + 4))) @ bs)" using c(4) by simp
  obtain b where b: "wr_block ?buf (12 + int (length bs)) d = Ret b" "length b = length ?buf"
      "holds_at b (12 + int (length bs)) d" "holds_at b 8 (le16 f @ le16 (of_nat (n + 4)) @ bs)"
  proof -
    obtain b where b: "wr_block ?buf (12 + int (length bs)) d = Ret b" "length b = length ?buf" "holds_at b (12 + int (length bs)) d"
        "\<And>q xs. holds_at ?buf q xs \<Longrightarrow> q + int (length xs) \<le> 12 + int (length bs) \<or> 12 + int (length bs) + int (length d) \<le> q \<Longrightarrow> holds_at b q xs"
      by (rule wr_block_Ret [of "12 + int (length bs)" d ?buf]) (use buf len in simp_all)
    from b(1-3) b(4) [OF c(4)] show ?thesis by (intro that) simp_all
  qed
  then have hb: "holds_at b 8 (le16 f @ le16 (of_nat (n + 4)) @ bs @ d)"
    using holds_at_append [of b 8 "le16 f @ le16 (of_nat (n + 4)) @ bs" d] by (simp del: of_nat_add)
  have sum: "uint (acl_recombination_pos c + of_nat (length d)) = 4 + int (length bs + length d)"
    by (subst u16_sum) (use upos ulen len in simp_all)
  then have nsum: "unat (acl_recombination_pos c + of_nat (length d)) = 4 + (length bs + length d)" by (simp only: uint_nat)
  have nz: "acl_recombination_pos c \<noteq> 0" using c(2) by auto
  have whole: "rd_block b 8 (4 + (length bs + length d)) = Ret (acl_packet f (bs @ d))" if "length bs + length d = n + 4"
    by (rule holds_at_block) (use hb that in \<open>simp_all add: acl_packet_def del: of_nat_add\<close>)
  have fits: "\<not> int (4 + HCI_ACL_BUFFER_SIZE) < uint (acl_recombination_pos c) + uint (of_nat (length d) :: u16)"
    using upos ulen len by (simp add: HCI_ACL_BUFFER_SIZE_def)
  have ld: "unat (of_nat (length d) :: u16) = length d" using len by (simp add: unat_of_nat_u16)
  let ?c = "c\<lparr>acl_recombination_buffer := b, acl_recombination_pos := acl_recombination_pos c + of_nat (length d)\<rparr>"
  have step: "acl_continuation (of_nat (length d)) (acl_packet g d) c =
    (if n + 4 \<le> length bs + length d then
       bind_outcome (rd_block b 8 (4 + (length bs + length d))) (\<lambda>p. Ret (?c\<lparr>acl_recombination_length := 0, acl_recombination_pos := 0\<rparr>, Some p))
     else Ret (?c, None))"
    unfolding acl_continuation_def Let_def ld acl_data [OF len(1)] bind_outcome_simps
    using nz fits b(1) upos nsum sum by (simp add: HCI_INCOMING_PRE_BUFFER_SIZE_def add.commute add.left_commute)
  show ?thesis
  proof (cases "length bs + length d = n + 4")
    case True
    then have "n + 4 \<le> length bs + length d" by simp
    then show ?thesis unfolding step whole [OF True] using True b(2) buf by (simp add: conn_ok_def)
  next
    case False
    then have "\<not> n + 4 \<le> length bs + length d" using assms(2) by simp
    then show ?thesis
      unfolding step using False b(2) buf sum nsum hb c(3) len by (simp add: collects_def conn_ok_def add.assoc)
  qed
qed

text \<open>ACL packets one after the other, and the L2CAP packets that they complete.\<close>

fun receive_all :: "bytes list \<Rightarrow> hci \<Rightarrow> (hci \<times> bytes list) outcome" where
  "receive_all [] s = Ret (s, [])"
| "receive_all (p # ps) s =
     bind_outcome (acl_handler p s) (\<lambda>(s, r).
     bind_outcome (receive_all ps s) (\<lambda>(s, rs). Ret (s, (case r of None \<Rightarrow> rs | Some q \<Rightarrow> q # rs))))"

lemma handler_part:
  assumes "hci_connection_for_handle s h = Some c" "h < 0x1000" "length d < 65532"
  shows "acl_handler (acl_packet (first_flags h) d) s =
     bind_outcome (acl_first (of_nat (length d)) (acl_packet (first_flags h) d) c) (\<lambda>(c, p). Ret (upd_connection h (\<lambda>_. c) s, p))"
    "acl_handler (acl_packet (cont_flags h) d) s =
     bind_outcome (acl_continuation (of_nat (length d)) (acl_packet (cont_flags h) d) c) (\<lambda>(c, p). Ret (upd_connection h (\<lambda>_. c) s, p))"
  using assms acl_flags [OF assms(2)]
  by (simp_all add: acl_handler_def acl_header uint_of_nat_u16)

lemma upd_upd_connection: "hc_handle c = h \<Longrightarrow> upd_connection h f (upd_connection h (\<lambda>_. c) s) = upd_connection h (\<lambda>_. f c) s"
proof -
  assume "hc_handle c = h"
  then have "upd_first h f (upd_first h (\<lambda>_. c) cs) = upd_first h (\<lambda>_. f c) cs" for cs by (induction cs) auto
  then show ?thesis by (simp add: upd_connection_def)
qed

lemma receive_idle:
  assumes "hci_connection_for_handle s h = Some c" "h < 0x1000" "acl_recombination_pos c = 0" "\<forall>d \<in> set ds. length d = 0"
  shows "\<exists>s'. receive_all (map (acl_packet (cont_flags h)) ds) s = Ret (s', []) \<and> hci_connection_for_handle s' h = Some c"
  using assms(1,4)
proof (induction ds arbitrary: s)
  case (Cons d ds)
  have "hci_connection_for_handle (upd_connection h (\<lambda>_. c) s) h = Some c"
    using Cons.prems(1) for_handle_handle by (subst for_handle_upd) auto
  moreover have "acl_handler (acl_packet (cont_flags h) d) s = Ret (upd_connection h (\<lambda>_. c) s, None)"
    using Cons.prems assms(2,3) by (simp add: handler_part [OF Cons.prems(1)] acl_continuation_def)
  ultimately show ?case using Cons.IH Cons.prems(2) by fastforce
qed simp

lemma receive_rest:
  assumes "hci_connection_for_handle s h = Some c" "h < 0x1000" "collects c f n bs" "length bs < n + 4"
    "length bs + length (concat ds) = n + 4" "n \<le> 1021"
  shows "\<exists>s' c'. receive_all (map (acl_packet (cont_flags h)) ds) s = Ret (s', [acl_packet f (bs @ concat ds)]) \<and>
    hci_connection_for_handle s' h = Some c' \<and> conn_ok c' \<and> acl_recombination_pos c' = 0"
  using assms(1,3-5)
proof (induction ds arbitrary: s c bs)
  case (Cons d ds)
  note c = Cons.prems(1)
  have len: "length bs + length d \<le> n + 4" "length d < 65532" using Cons.prems(4) assms(6) by simp_all
  obtain c' where c': "acl_continuation (of_nat (length d)) (acl_packet (cont_flags h) d) c =
      Ret (c', if length bs + length d = n + 4 then Some (acl_packet f (bs @ d)) else None)" "hc_handle c' = hc_handle c"
    "if length bs + length d = n + 4 then conn_ok c' \<and> acl_recombination_pos c' = 0 else collects c' f n (bs @ d)"
    using next_part [OF Cons.prems(2) len(1) assms(6)] by blast
  let ?s = "upd_connection h (\<lambda>_. c') s"
  have s: "acl_handler (acl_packet (cont_flags h) d) s =
      Ret (?s, if length bs + length d = n + 4 then Some (acl_packet f (bs @ d)) else None)"
    using handler_part(2) [OF c assms(2) len(2)] c'(1) by simp
  have found: "hci_connection_for_handle ?s h = Some c'"
    using c c'(2) for_handle_handle [OF c] by (subst for_handle_upd) simp_all
  show ?case
  proof (cases "length bs + length d = n + 4")
    case True
    moreover have "length bs + (length d + length (concat ds)) = n + 4" using Cons.prems(4) by simp
    ultimately have "length (concat ds) = 0" by linarith
    then have nil: "concat ds = []" by (simp only: length_0_conv)
    then have empty: "\<forall>d \<in> set ds. length d = 0" by simp
    have c'': "conn_ok c'" "acl_recombination_pos c' = 0" using c'(3) True by simp_all
    obtain s' where s': "receive_all (map (acl_packet (cont_flags h)) ds) ?s = Ret (s', [])" "hci_connection_for_handle s' h = Some c'"
      using receive_idle [OF found assms(2) c''(2) empty] by blast
    show ?thesis
      by (intro exI [of _ s'] exI [of _ c'] conjI s'(2) c'') (simp add: s s'(1) True nil)
  next
    case False
    then have "length (bs @ d) < n + 4" "length (bs @ d) + length (concat ds) = n + 4" using len(1) Cons.prems(4) by simp_all
    with Cons.IH [OF found, of "bs @ d"] c'(3) False s show ?thesis by fastforce
  qed
qed simp

text \<open>The fragments of an L2CAP packet, cut in any way that leaves the length field in one piece.\<close>

theorem fragments_recombine:
  assumes "hci_connection_for_handle s h = Some c" "conn_ok c" "h < 0x1000"
    and "2 \<le> length d" "take 2 d = le16 (of_nat n)" "n \<le> 1021" "length (d @ concat ds) = n + 4"
  shows "\<exists>s' c'. receive_all (acl_packet (first_flags h) d # map (acl_packet (cont_flags h)) ds) s =
      Ret (s', [acl_packet (first_flags h) (d @ concat ds)]) \<and>
    hci_connection_for_handle s' h = Some c' \<and> conn_ok c' \<and> acl_recombination_pos c' = 0"
proof -
  have len: "length d < 65532" using assms(6,7) by simp
  have h: "hc_handle c = h" by (rule for_handle_handle [OF assms(1)])
  show ?thesis
  proof (cases "length d < n + 4")
    case True
    obtain c' where c': "acl_first (of_nat (length d)) (acl_packet (first_flags h) d) c = Ret (c', None)"
        "collects c' (first_flags h) n d" "hc_handle c' = hc_handle c"
      using first_fragment [OF assms(2,4) True assms(6,5)] by blast
    let ?s = "upd_connection h (\<lambda>_. c') s"
    have s: "acl_handler (acl_packet (first_flags h) d) s = Ret (?s, None)"
      using handler_part(1) [OF assms(1,3) len] c'(1) by simp
    have found: "hci_connection_for_handle ?s h = Some c'" using assms(1) c'(3) h by (subst for_handle_upd) simp_all
    show ?thesis using receive_rest [OF found assms(3) c'(2) True] s assms(6,7) by fastforce
  next
    case False
    moreover have "length d + length (concat ds) = n + 4" using assms(7) by simp
    ultimately have d: "length d = n + 4" and "length (concat ds) = 0" by linarith+
    then have nil: "concat ds = []" by (simp only: length_0_conv)
    then have empty: "\<forall>d \<in> set ds. length d = 0" by simp
    let ?c = "c\<lparr>acl_recombination_pos := 0\<rparr>"
    have l2cap: "little_endian_read_16 (acl_packet (first_flags h) d) 0 4 = Ret (of_nat n)"
    proof -
      have "d = le16 (of_nat n) @ drop 2 d" using assms(5) by (metis append_take_drop_id)
      then have "acl_packet (first_flags h) d = (le16 (first_flags h) @ le16 (of_nat (length d))) @ le16 (of_nat n) @ drop 2 d"
        by (simp add: acl_packet_def)
      then show ?thesis
        using holds_at_intro [of "0 + 4" "le16 (first_flags h) @ le16 (of_nat (length d))" "le16 (of_nat n)" "drop 2 d"]
        by (intro le16.read_enc) simp
    qed
    have less: "length d < 65536" using len by simp
    have "acl_first (of_nat (length d)) (acl_packet (first_flags h) d) c = Ret (?c, Some (acl_packet (first_flags h) d))"
      unfolding acl_first_def Let_def l2cap bind_outcome_simps unat_of_nat_u16 [OF less] uint_of_nat_u16 [OF less]
      using d assms(6) by (simp add: uint_of_nat_u16 rd_block_def)
    then have s: "acl_handler (acl_packet (first_flags h) d) s = Ret (upd_connection h (\<lambda>_. ?c) s, Some (acl_packet (first_flags h) d))"
      using handler_part(1) [OF assms(1,3) len] by simp
    have found: "hci_connection_for_handle (upd_connection h (\<lambda>_. ?c) s) h = Some ?c" using assms(1) h by (subst for_handle_upd) simp_all
    have ok: "conn_ok ?c" using assms(2) by (simp add: conn_ok_def)
    have "acl_recombination_pos ?c = 0" by simp
    then obtain s' where s': "receive_all (map (acl_packet (cont_flags h)) ds) (upd_connection h (\<lambda>_. ?c) s) = Ret (s', [])"
        "hci_connection_for_handle s' h = Some ?c"
      using receive_idle [OF found assms(3) _ empty] by blast
    show ?thesis
      by (intro exI [of _ s'] exI [of _ ?c] conjI s'(2) ok) (simp_all add: s s'(1) nil)
  qed
qed

end
