(* ===== verification/HciSend.thy ===== *)
theory HciSend
  imports HciRecombine
begin

unbundle bit_operations_syntax

text \<open>
  Sending ACL data: the fragments that leave are the packet cut in pieces of the controller's size,
  whatever the order of events is, and there are never more of them on the way than the controller
  has buffers for.
\<close>

subsection \<open>Fragments\<close>

fun chunks :: "nat \<Rightarrow> bytes \<Rightarrow> bytes list" where
  "chunks n xs = (if n = 0 \<or> length xs \<le> n then [xs] else take n xs # chunks n (drop n xs))"

declare chunks.simps [simp del]

lemma concat_chunks [simp]: "concat (chunks n xs) = xs"
  by (induction n xs rule: chunks.induct) (subst chunks.simps, simp)

definition continued :: "u16 \<Rightarrow> u16" where
  "continued flags = (flags AND 0xCFFF) OR 0x1000"

text \<open>What is left to send of a packet of which \<open>k\<close> bytes were sent.\<close>

definition fragments_from :: "u16 \<Rightarrow> nat \<Rightarrow> nat \<Rightarrow> bytes \<Rightarrow> bytes list" where
  "fragments_from flags n k rest =
     (case chunks n rest of [] \<Rightarrow> [] | c # cs \<Rightarrow> acl_packet (if k = 0 then flags else continued flags) c # map (acl_packet (continued flags)) cs)"

lemma fragments_step:
  assumes "0 < n" "n < length rest"
  shows "fragments_from f n k rest = acl_packet (if k = 0 then f else continued f) (take n rest) # fragments_from f n (k + n) (drop n rest)"
proof -
  have "chunks n rest = take n rest # chunks n (drop n rest)" using assms by (subst chunks.simps) simp
  moreover have "chunks n (drop n rest) \<noteq> []" by (subst chunks.simps) simp
  ultimately show ?thesis using assms(1) by (simp add: fragments_from_def split: list.split)
qed

lemma fragments_last: "length rest \<le> n \<Longrightarrow> fragments_from f n k rest = [acl_packet (if k = 0 then f else continued f) rest]"
  by (simp add: fragments_from_def chunks.simps)

lemma fragments_data: "concat (map (drop 4) (fragments_from f n k rest)) = rest"
proof -
  have d: "drop 4 (acl_packet g c) = c" for g c by (simp add: acl_packet_def)
  then show ?thesis using concat_chunks [of n rest] by (cases "chunks n rest") (auto simp: fragments_from_def comp_def)
qed

lemma chunks_sizes: "0 < n \<Longrightarrow> \<forall>c \<in> set (chunks n xs). length c \<le> n"
  by (induction n xs rule: chunks.induct) (subst chunks.simps, simp)

lemma fragments_sizes: "0 < n \<Longrightarrow> \<forall>p \<in> set (fragments_from f n k rest). length p \<le> n + 4"
  using chunks_sizes [of n rest] by (cases "chunks n rest") (auto simp: fragments_from_def)

subsection \<open>The packet buffer while a packet is sent\<close>

definition holds_rest :: "bytes \<Rightarrow> u16 \<Rightarrow> nat \<Rightarrow> bytes \<Rightarrow> bool" where
  "holds_rest buf flags k rest \<longleftrightarrow> holds_at buf 0 (le16 flags) \<and> holds_at buf (4 + int k) rest \<and> (k = 0 \<or> 4 \<le> k) \<and> length buf < 65536"

lemma fragment_packet:
  assumes "holds_rest buf f k (c @ r)"
  shows "\<exists>buf'. next_fragment (of_nat k) (int (length c)) buf = Ret (buf', acl_packet (if k = 0 then f else continued f) c) \<and>
    holds_at buf' 0 (le16 f) \<and> holds_at buf' (4 + int k + int (length c)) r \<and> length buf' = length buf"
proof -
  let ?g = "if k = 0 then f else continued f"
  have h: "holds_at buf 0 (le16 f)" "holds_at buf (4 + int k) c" "holds_at buf (4 + int k + int (length c)) r" "k = 0 \<or> 4 \<le> k"
    "length buf < 65536" using assms by (simp_all add: holds_rest_def holds_at_append)
  have len: "4 + k + length c \<le> length buf" using holds_at_nonneg [OF h(2)] by simp
  have k: "unat (of_nat k :: u16) = k" "uint (of_nat k :: u16) = int k" "unat (of_nat k + 2 :: u16) = k + 2"
    "uint (of_nat k + 2 :: u16) = int k + 2"
    using unat_of_nat_u16 [of k] uint_of_nat_u16 [of k] unat_of_nat_u16 [of "k + 2"] uint_of_nat_u16 [of "k + 2"] len h(5)
    by (simp_all add: add.commute)
  have zero: "(of_nat k :: u16) > 0 \<longleftrightarrow> k \<noteq> 0" using k(1) by (simp add: word_less_nat_alt)
  obtain b1 where b1: "(if (of_nat k :: u16) > 0 then bind_outcome (little_endian_read_16 buf 0 0) (\<lambda>flags.
        little_endian_store_16 buf 0 (of_nat k) ((flags AND 0xCFFF) OR 0x1000)) else Ret buf) = Ret b1"
      "length b1 = length buf" "holds_at b1 (int k) (le16 ?g)" "holds_at b1 0 (le16 f)" "holds_at b1 (4 + int k) c"
      "holds_at b1 (4 + int k + int (length c)) r"
  proof (cases "k = 0")
    case True
    then show ?thesis using h zero that [of buf] by simp
  next
    case False
    obtain b1 where b: "wr_block buf (int k) (le16 (continued f)) = Ret b1" "length b1 = length buf" "holds_at b1 (int k) (le16 (continued f))"
        "\<And>q xs. holds_at buf q xs \<Longrightarrow> q + int (length xs) \<le> int k \<or> int k + int (length (le16 (continued f))) \<le> q \<Longrightarrow> holds_at b1 q xs"
      by (rule wr_block_Ret [of "int k" "le16 (continued f)" buf]) (use len in simp_all)
    have "little_endian_read_16 buf 0 0 = Ret f" using le16.read_enc [of buf 0 0 f] h(1) by simp
    then show ?thesis
      using False zero b(1-3) b(4) [OF h(1)] b(4) [OF h(2)] b(4) [OF h(3)] h(4) k len h(5)
      by (intro that [of b1]) (simp_all add: le16.store_enc continued_def)
  qed
  obtain b2 where b2: "wr_block b1 (int k + 2) (le16 (of_nat (length c))) = Ret b2" "length b2 = length b1"
      "holds_at b2 (int k + 2) (le16 (of_nat (length c)))"
      "\<And>q xs. holds_at b1 q xs \<Longrightarrow> q + int (length xs) \<le> int k + 2 \<or> int k + 2 + int (length (le16 (of_nat (length c)))) \<le> q \<Longrightarrow> holds_at b2 q xs"
    by (rule wr_block_Ret [of "int k + 2" "le16 (of_nat (length c))" b1]) (use len b1(2) in simp_all)
  have parts: "holds_at b2 (int k) (le16 ?g)" "holds_at b2 (4 + int k) c" "holds_at b2 (4 + int k + int (length c)) r"
    using b2(4) [OF b1(3)] b2(4) [OF b1(5)] b2(4) [OF b1(6)] by simp_all
  have front: "holds_at b2 0 (le16 f)"
    using b2(4) [OF b1(4)] parts(1) h(4) by (cases "k = 0") simp_all
  have whole: "holds_at b2 (int k) (acl_packet ?g c)"
    using parts b2(3) by (simp add: acl_packet_def holds_at_append add.commute add.left_commute)
  have "rd_block b2 (int k) (nat (int (length c) + 4)) = Ret (acl_packet ?g c)"
    by (rule holds_at_block [OF whole]) simp
  then have "next_fragment (of_nat k) (int (length c)) buf = Ret (b2, acl_packet ?g c)"
    unfolding next_fragment_def b1(1) bind_outcome_simps using b2(1) k len h(5) by (simp add: le16.store_enc)
  then show ?thesis using front parts(3) b2(2) b1(2) by auto
qed

text \<open>In the middle of a packet: \<open>k\<close> bytes of it were sent, \<open>rest\<close> is left.\<close>

definition sending :: "hci \<Rightarrow> u16 \<Rightarrow> u16 \<Rightarrow> nat \<Rightarrow> bytes \<Rightarrow> bool" where
  "sending s h flags k rest \<longleftrightarrow> holds_rest (hci_packet_buffer s) flags k rest \<and>
     unat (acl_fragmentation_pos s) = 4 + k \<and> unat (acl_fragmentation_total_size s) = 4 + k + length rest \<and>
     flags AND 0x0FFF = h \<and> hci_connection_for_handle s h \<noteq> None"

text \<open>The packets given to the transport.\<close>

definition sends :: "hci \<Rightarrow> bytes list" where
  "sends s = [p. TransportSend p \<leftarrow> hci_trace s]"

lemma sends_simps [simp]:
  "sends (s\<lparr>hci_trace := hci_trace s @ [TransportSend p]\<rparr>) = sends s @ [p]"
  "sends (hci_emit_transport_packet_sent s) = sends s" "sends (hci_release_packet_buffer s) = sends s"
  "sends (upd_connection h f s) = sends s" "sends (s\<lparr>acl_fragmentation_tx_active := b\<rparr>) = sends s"
  by (simp_all add: sends_def hci_emit_transport_packet_sent_def hci_release_packet_buffer_def upd_connection_def)

lemma sends_eq: "hci_trace s = hci_trace s' \<Longrightarrow> sends s = sends s'"
  by (simp add: sends_def)

lemma max_len_eq:
  assumes "map_option address_type (hci_connection_for_handle s' h) = map_option address_type (hci_connection_for_handle s h)"
    "acl_data_packet_length s' = acl_data_packet_length s" "le_data_packets_length s' = le_data_packets_length s"
  shows "max_acl_data_packet_length h s' = max_acl_data_packet_length h s"
  using assms
  by (cases "hci_connection_for_handle s h"; cases "hci_connection_for_handle s' h")
    (simp_all add: max_acl_data_packet_length_def hci_is_le_connection_def)

lemma finished [simp]:
  fixes s :: hci
  defines "s' \<equiv> hci_emit_transport_packet_sent (hci_release_packet_buffer (s\<lparr>acl_fragmentation_tx_active := False\<rparr>))"
  shows "sends s' = sends s" "max_acl_data_packet_length h s' = max_acl_data_packet_length h s"
    "acl_fragmentation_total_size s' = acl_fragmentation_total_size s" "\<not> hci_packet_buffer_reserved s'"
    "connections s' = connections s" "acl_packets_total_num s' = acl_packets_total_num s" "le_acl_packets_total_num s' = le_acl_packets_total_num s"
  unfolding s'_def
  by (auto simp: sends_def hci_emit_transport_packet_sent_def hci_release_packet_buffer_def hci_connection_for_handle_def intro!: max_len_eq)

lemma loop_step:
  assumes "sending s h f k rest" "4 \<le> max_len" "max_len < 65536"
  shows "\<exists>s' err. sends s' = sends s @ [acl_packet (if k = 0 then f else continued f) (take max_len rest)] \<and>
     hci_packet_buffer_reserved s' = hci_packet_buffer_reserved s \<and> max_acl_data_packet_length h s' = max_acl_data_packet_length h s \<and>
     (if length rest \<le> max_len then fragments_loop (Suc n) T h (int max_len) s = Ret (s', err, True) \<and> acl_fragmentation_total_size s' = 0
      else sending s' h f (k + max_len) (drop max_len rest) \<and>
        fragments_loop (Suc n) T h (int max_len) s =
          (if hci_can_send_prepared_acl_packet_now T s' h then fragments_loop n T h (int max_len) s' else Ret (s', err, False)))"
proof -
  let ?c = "take max_len rest" and ?r = "drop max_len rest"
  let ?more = "max_len < length rest"
  have st: "unat (acl_fragmentation_pos s) = 4 + k" "unat (acl_fragmentation_total_size s) = 4 + k + length rest" "f AND 0x0FFF = h"
    "hci_connection_for_handle s h \<noteq> None" and hr: "holds_rest (hci_packet_buffer s) f k (?c @ ?r)"
    using assms(1) by (simp_all add: sending_def)
  have upos: "uint (acl_fragmentation_pos s) = 4 + int k" "uint (acl_fragmentation_total_size s) = 4 + int k + int (length rest)"
    using st(1,2) by (simp_all only: uint_nat)
  have hpos: "acl_fragmentation_pos s - 4 = of_nat k"
  proof -
    have "4 + k < 65536" using st(1) unat_u16_less [of "acl_fragmentation_pos s"] by simp
    then have "acl_fragmentation_pos s = of_nat (4 + k)" using st(1) by (simp only: word_unat_eq_iff unat_of_nat_u16)
    then show ?thesis by simp
  qed
  obtain buf' where buf: "next_fragment (of_nat k) (int (length ?c)) (hci_packet_buffer s) =
      Ret (buf', acl_packet (if k = 0 then f else continued f) ?c)"
    "holds_at buf' 0 (le16 f)" "holds_at buf' (4 + int k + int (length ?c)) ?r" "length buf' = length (hci_packet_buffer s)"
    using fragment_packet [OF hr] by blast
  have len: "int (length ?c) = (if ?more then int max_len else int (length rest))" by simp
  let ?count = "\<lambda>c. c\<lparr>num_packets_sent := num_packets_sent c + 1\<rparr>"
  let ?s1 = "(upd_connection h ?count s)\<lparr>hci_packet_buffer := buf'\<rparr>"
  let ?s2 = "if ?more then ?s1\<lparr>acl_fragmentation_pos := acl_fragmentation_pos s + of_nat max_len\<rparr>
             else ?s1\<lparr>acl_fragmentation_pos := 0, acl_fragmentation_total_size := 0\<rparr>"
  let ?s = "fst (transport_send T (acl_packet (if k = 0 then f else continued f) ?c) (?s2\<lparr>acl_fragmentation_tx_active := True\<rparr>))"
  let ?err = "snd (transport_send T (acl_packet (if k = 0 then f else continued f) ?c) (?s2\<lparr>acl_fragmentation_tx_active := True\<rparr>))"
  have conn: "hci_connection_for_handle ?s h = map_option ?count (hci_connection_for_handle s h)"
    using for_handle_upd(1) [of h ?count s] by (simp add: transport_send_def hci_connection_for_handle_def upd_connection_def)
  have loop: "fragments_loop (Suc n) T h (int max_len) s =
     (if \<not> ?more then Ret (?s, ?err, True)
      else if hci_can_send_prepared_acl_packet_now T ?s h then fragments_loop n T h (int max_len) ?s else Ret (?s, ?err, False))"
  proof -
    have more: "(uint (acl_fragmentation_total_size s) - uint (acl_fragmentation_pos s) > int max_len) = ?more"
      "uint (acl_fragmentation_total_size s) - uint (acl_fragmentation_pos s) = int (length rest)" by (simp_all add: upos)
    show ?thesis
      using buf(1) unfolding fragments_loop.simps Let_def more(1) hpos more(2) len
      by (cases ?more) (simp_all add: transport_send_def upd_connection_def)
  qed
  have basic: "sends ?s = sends s @ [acl_packet (if k = 0 then f else continued f) ?c]"
    "hci_packet_buffer_reserved ?s = hci_packet_buffer_reserved s" "hci_packet_buffer ?s = buf'"
    "\<not> ?more \<Longrightarrow> acl_fragmentation_total_size ?s = 0"
    by (simp_all add: transport_send_def sends_def upd_connection_def)
  have mx: "max_acl_data_packet_length h ?s = max_acl_data_packet_length h s"
  proof -
    have "map_option address_type (hci_connection_for_handle ?s h) = map_option address_type (hci_connection_for_handle s h)"
      unfolding conn by (simp add: option.map_comp comp_def)
    then show ?thesis by (rule max_len_eq) (simp_all add: transport_send_def upd_connection_def)
  qed
  have mid: "sending ?s h f (k + max_len) ?r" if ?more
  proof -
    have small: "4 + k + max_len < 65536"
      using holds_at_nonneg [of "hci_packet_buffer s" "4 + int k" rest] hr that by (simp add: holds_rest_def)
    have "unat (acl_fragmentation_pos s + of_nat max_len) = unat (acl_fragmentation_pos s) + unat (of_nat max_len :: u16)"
      by (rule unat_plus_simple [THEN iffD1]) (use small st(1) assms(3) in \<open>simp add: word_le_nat_alt unat_word_ariths(1) unat_of_nat_u16\<close>)
    then have "unat (acl_fragmentation_pos ?s) = 4 + (k + max_len)" "acl_fragmentation_total_size ?s = acl_fragmentation_total_size s"
      using st(1) assms(3) that by (simp_all add: transport_send_def unat_of_nat_u16 upd_connection_def)
    moreover have "holds_rest buf' f (k + max_len) ?r"
      using buf(2-4) hr that assms(2) by (simp add: holds_rest_def add.commute add.left_commute)
    ultimately show ?thesis using st(2-4) that conn basic(3) by (simp add: sending_def)
  qed
  show ?thesis
    by (rule exI [of _ ?s], rule exI [of _ ?err]) (use loop basic mx mid in \<open>simp add: not_less\<close>)
qed

lemma loop_sends:
  assumes "sending s h f k rest" "4 \<le> max_len" "max_len < 65536" "length rest < n"
  shows "\<exists>s' err j. 1 \<le> j \<and> sends s' = sends s @ take j (fragments_from f max_len k rest) \<and>
     hci_packet_buffer_reserved s' = hci_packet_buffer_reserved s \<and> max_acl_data_packet_length h s' = max_acl_data_packet_length h s \<and>
     fragments_loop n T h (int max_len) s = Ret (s', err, acl_fragmentation_total_size s' = 0) \<and>
     (if acl_fragmentation_total_size s' = 0 then j = length (fragments_from f max_len k rest)
      else \<exists>k' rest'. sending s' h f k' rest' \<and> fragments_from f max_len k' rest' = drop j (fragments_from f max_len k rest))"
  using assms(1,4)
proof (induction n arbitrary: s k rest)
  case (Suc n)
  let ?p = "acl_packet (if k = 0 then f else continued f) (take max_len rest)"
  obtain s1 err where s1: "sends s1 = sends s @ [?p]" "hci_packet_buffer_reserved s1 = hci_packet_buffer_reserved s"
      "max_acl_data_packet_length h s1 = max_acl_data_packet_length h s"
      "if length rest \<le> max_len then fragments_loop (Suc n) T h (int max_len) s = Ret (s1, err, True) \<and> acl_fragmentation_total_size s1 = 0
      else sending s1 h f (k + max_len) (drop max_len rest) \<and>
        fragments_loop (Suc n) T h (int max_len) s =
          (if hci_can_send_prepared_acl_packet_now T s1 h then fragments_loop n T h (int max_len) s1 else Ret (s1, err, False))"
    using loop_step [OF Suc.prems(1) assms(2,3), of n T] by blast
  show ?case
  proof (cases "length rest \<le> max_len")
    case True
    then show ?thesis using s1 by (intro exI [of _ s1] exI [of _ err] exI [of _ 1]) (simp add: fragments_last)
  next
    case False
    let ?r = "drop max_len rest"
    have mid: "sending s1 h f (k + max_len) ?r" and loop: "fragments_loop (Suc n) T h (int max_len) s =
          (if hci_can_send_prepared_acl_packet_now T s1 h then fragments_loop n T h (int max_len) s1 else Ret (s1, err, False))"
      using s1(4) False by simp_all
    have frs: "fragments_from f max_len k rest = ?p # fragments_from f max_len (k + max_len) ?r"
      using False assms(2) by (intro fragments_step) simp_all
    have nz: "acl_fragmentation_total_size s1 \<noteq> 0" using mid by (auto simp: sending_def)
    show ?thesis
    proof (cases "hci_can_send_prepared_acl_packet_now T s1 h")
      case True
      have "length ?r < n" using False Suc.prems(2) assms(2) by simp
      then obtain s' err' j where IH: "1 \<le> j" "sends s' = sends s1 @ take j (fragments_from f max_len (k + max_len) ?r)"
        "hci_packet_buffer_reserved s' = hci_packet_buffer_reserved s1" "max_acl_data_packet_length h s' = max_acl_data_packet_length h s1"
        "fragments_loop n T h (int max_len) s1 = Ret (s', err', acl_fragmentation_total_size s' = 0)"
        "if acl_fragmentation_total_size s' = 0 then j = length (fragments_from f max_len (k + max_len) ?r)
          else \<exists>k' rest'. sending s' h f k' rest' \<and> fragments_from f max_len k' rest' = drop j (fragments_from f max_len (k + max_len) ?r)"
        using Suc.IH [OF mid] by blast
      show ?thesis
        using IH s1 frs loop True by (intro exI [of _ s'] exI [of _ err'] exI [of _ "Suc j"]) (simp split: if_splits)
    next
      case False
      then show ?thesis
        using s1 frs loop nz mid by (intro exI [of _ s1] exI [of _ err] exI [of _ 1]) auto
    qed
  qed
qed simp

lemma fragments_send:
  assumes "sending s h f k rest" "max_len = unat (max_acl_data_packet_length h s)" "4 \<le> max_len"
  shows "\<exists>s' err j. 1 \<le> j \<and> hci_send_acl_packet_fragments T h s = Ret (s', err) \<and>
     sends s' = sends s @ take j (fragments_from f max_len k rest) \<and> max_acl_data_packet_length h s' = max_acl_data_packet_length h s \<and>
     (if acl_fragmentation_total_size s' = 0 then j = length (fragments_from f max_len k rest)
      else hci_packet_buffer_reserved s' = hci_packet_buffer_reserved s \<and>
        (\<exists>k' rest'. sending s' h f k' rest' \<and> fragments_from f max_len k' rest' = drop j (fragments_from f max_len k rest)))"
proof -
  have n: "uint (max_acl_data_packet_length h s) = int max_len" "max_len < 65536" using assms(2) by (simp_all only: uint_nat) simp
  have "length rest < 65536"
    using assms(1) holds_at_nonneg [of "hci_packet_buffer s" "4 + int k" rest] by (simp add: sending_def holds_rest_def)
  then obtain s1 err j where s1: "1 \<le> j" "sends s1 = sends s @ take j (fragments_from f max_len k rest)"
     "hci_packet_buffer_reserved s1 = hci_packet_buffer_reserved s" "max_acl_data_packet_length h s1 = max_acl_data_packet_length h s"
     "fragments_loop 65536 T h (int max_len) s = Ret (s1, err, acl_fragmentation_total_size s1 = 0)"
     "if acl_fragmentation_total_size s1 = 0 then j = length (fragments_from f max_len k rest)
      else \<exists>k' rest'. sending s1 h f k' rest' \<and> fragments_from f max_len k' rest' = drop j (fragments_from f max_len k rest)"
    using loop_sends [OF assms(1,3) n(2), of 65536 T] by blast
  let ?s = "if acl_fragmentation_total_size s1 = 0 \<and> hci_transport_synchronous T
    then hci_emit_transport_packet_sent (hci_release_packet_buffer (s1\<lparr>acl_fragmentation_tx_active := False\<rparr>)) else s1"
  have same: "sends ?s = sends s1" "max_acl_data_packet_length h ?s = max_acl_data_packet_length h s1"
    "acl_fragmentation_total_size ?s = acl_fragmentation_total_size s1"
    by simp_all
  have "hci_send_acl_packet_fragments T h s = Ret (?s, err)"
    unfolding hci_send_acl_packet_fragments_def n(1) s1(5) by simp
  then show ?thesis
    using s1 same by (intro exI [of _ ?s] exI [of _ err] exI [of _ j]) (auto split: if_splits)
qed

subsection \<open>Steps of HCI\<close>

text \<open>What happens to HCI besides requests to send: its run loop, events of the controller, received packets.\<close>

inductive hci_step :: "hci_transport \<Rightarrow> hci \<Rightarrow> hci \<Rightarrow> bool" for T where
  run: "hci_run_acl_fragments T s = Ret (s', b) \<Longrightarrow> hci_step T s s'"
| sent: "hci_step T s (transport_packet_sent_event T s)"
| completed: "number_of_completed_packets_event packet s = Ret s' \<Longrightarrow> hci_step T s s'"
| received: "acl_handler packet s = Ret (s', p) \<Longrightarrow> hci_step T s s'"

inductive_cases hci_stepE: "hci_step T s s'"

text \<open>What the events leave as it is.\<close>

definition conn_kind :: "hci_connection \<Rightarrow> u16 \<times> bd_addr_type" where
  "conn_kind c = (hc_handle c, address_type c)"

definition same_link :: "hci \<Rightarrow> hci \<Rightarrow> bool" where
  "same_link s s' \<longleftrightarrow> map conn_kind (connections s') = map conn_kind (connections s) \<and> hci_packet_buffer s' = hci_packet_buffer s \<and>
     acl_fragmentation_pos s' = acl_fragmentation_pos s \<and> acl_fragmentation_total_size s' = acl_fragmentation_total_size s \<and>
     hci_trace s' = hci_trace s \<and> acl_data_packet_length s' = acl_data_packet_length s \<and>
     le_data_packets_length s' = le_data_packets_length s \<and> acl_packets_total_num s' = acl_packets_total_num s \<and>
     le_acl_packets_total_num s' = le_acl_packets_total_num s"

lemma same_link_refl [simp]: "same_link s s" by (simp add: same_link_def)

lemma same_link_trans: "same_link s s' \<Longrightarrow> same_link s' s'' \<Longrightarrow> same_link s s''" by (simp add: same_link_def)

lemma same_link_upd:
  assumes "\<And>c. hci_connection_for_handle s h = Some c \<Longrightarrow> conn_kind (f c) = conn_kind c"
  shows "same_link s (upd_connection h f s)"
proof -
  have "(\<And>c. find (\<lambda>c. hc_handle c = h) cs = Some c \<Longrightarrow> conn_kind (f c) = conn_kind c) \<Longrightarrow>
      map conn_kind (upd_first h f cs) = map conn_kind cs" for cs
    by (induction cs) (auto split: if_splits)
  with assms show ?thesis by (simp add: same_link_def upd_connection_def hci_connection_for_handle_def)
qed

lemma find_kinds:
  "map conn_kind cs' = map conn_kind cs \<Longrightarrow>
    map_option conn_kind (find (\<lambda>c. hc_handle c = h) cs') = map_option conn_kind (find (\<lambda>c. hc_handle c = h) cs)"
proof (induction cs arbitrary: cs')
  case (Cons c cs)
  obtain c' ds where cs': "cs' = c' # ds" "conn_kind c' = conn_kind c" "map conn_kind ds = map conn_kind cs"
    using Cons.prems by (cases cs') auto
  then have "hc_handle c' = hc_handle c" by (simp add: conn_kind_def)
  then show ?case using Cons.IH [OF cs'(3)] cs'(1,2) by simp
qed simp

lemma same_link_for_handle:
  assumes "same_link s s'"
  shows "map_option conn_kind (hci_connection_for_handle s' h) = map_option conn_kind (hci_connection_for_handle s h)"
  using assms unfolding same_link_def hci_connection_for_handle_def by (intro find_kinds) simp

lemma same_link_sending:
  assumes "same_link s s'" "sending s h f k rest"
  shows "sending s' h f k rest"
proof -
  have "(hci_connection_for_handle s' h = None) = (hci_connection_for_handle s h = None)"
    using same_link_for_handle [OF assms(1), of h] by (metis option.map_disc_iff)
  with assms show ?thesis by (simp add: same_link_def sending_def)
qed

lemma same_link_max:
  assumes "same_link s s'"
  shows "max_acl_data_packet_length h s' = max_acl_data_packet_length h s"
proof (rule max_len_eq)
  have "map_option snd (map_option conn_kind x) = map_option address_type x" for x
    by (simp add: option.map_comp comp_def conn_kind_def)
  then show "map_option address_type (hci_connection_for_handle s' h) = map_option address_type (hci_connection_for_handle s h)"
    using arg_cong [OF same_link_for_handle [OF assms, of h], of "map_option snd"] by simp
qed (use assms in \<open>simp_all add: same_link_def\<close>)

lemma same_link_sent: "same_link s (transport_packet_sent_event T s)"
  by (simp add: same_link_def transport_packet_sent_event_def hci_release_packet_buffer_def Let_def)

lemma completed_link: "completed_packets_loop n packet offset s = Ret s' \<Longrightarrow> same_link s s'"
proof (induction n arbitrary: offset s)
  case (Suc n)
  obtain h num where r: "little_endian_read_16 packet 0 (uint offset) = Ret h" "little_endian_read_16 packet 0 (uint (offset + 2)) = Ret num"
    "completed_packets_loop n packet (offset + 4) (upd_connection (h AND 0x0FFF) (\<lambda>c. c\<lparr>num_packets_sent :=
               (if ucast (num_packets_sent c) \<ge> num then num_packets_sent c - ucast num else 0)\<rparr>) s) = Ret s'"
    using Suc.prems by (auto simp: Let_def split: bind_outcome_split_asm)
  show ?case by (rule same_link_trans [OF same_link_upd Suc.IH [OF r(3)]]) (simp add: conn_kind_def)
qed simp

lemma received_kind:
  "acl_continuation n packet c = Ret (c', p) \<Longrightarrow> conn_kind c' = conn_kind c \<and> num_packets_sent c' = num_packets_sent c"
  "acl_first n packet c = Ret (c', p) \<Longrightarrow> conn_kind c' = conn_kind c \<and> num_packets_sent c' = num_packets_sent c"
  by (auto simp: acl_continuation_def acl_first_def Let_def conn_kind_def split: if_splits bind_outcome_split_asm)

lemma acl_handler_result:
  assumes "acl_handler packet s = Ret (s', p)"
  obtains "s' = s" | h c c' where "hci_connection_for_handle s h = Some c" "conn_kind c' = conn_kind c"
    "num_packets_sent c' = num_packets_sent c" "s' = upd_connection h (\<lambda>_. c') s"
  using assms received_kind
  by (fastforce simp: acl_handler_def Let_def split: if_splits bind_outcome_split_asm option.splits)

end
