(* ===== verification/HciBudget.thy ===== *)
theory HciBudget
  imports HciSend
begin

unbundle bit_operations_syntax

text \<open>
  Two invariants of the ACL path: the packets on their way to the controller never exceed its
  buffers, and whatever is received, every packet given to L2CAP is as long as its header claims.
\<close>

subsection \<open>Counting packets\<close>

definition weight :: "(bd_addr_type \<Rightarrow> bool) \<Rightarrow> hci_connection list \<Rightarrow> int" where
  "weight P cs = sum_list (map (\<lambda>c. uint (num_packets_sent c)) (filter (\<lambda>c. P (address_type c)) cs))"

definition classic_sent :: "hci \<Rightarrow> int" where
  "classic_sent s = weight (\<lambda>t. t = BD_ADDR_TYPE_ACL) (connections s)"

definition le_sent :: "hci \<Rightarrow> int" where
  "le_sent s = weight hci_is_le_connection_type (connections s)"

text \<open>Packets that the controller has not reported as completed.\<close>

definition outstanding :: "hci \<Rightarrow> int" where
  "outstanding s = classic_sent s + le_sent s"

text \<open>A controller without own buffers for LE shares those of the classic connections.\<close>

definition in_budget :: "hci \<Rightarrow> bool" where
  "in_budget s \<longleftrightarrow>
     (if le_acl_packets_total_num s = 0 then outstanding s \<le> uint (acl_packets_total_num s)
      else classic_sent s \<le> uint (acl_packets_total_num s) \<and> le_sent s \<le> uint (le_acl_packets_total_num s))"

text \<open>All connections carry ACL data.\<close>

definition acl_links :: "hci \<Rightarrow> bool" where
  "acl_links s \<longleftrightarrow> (\<forall>c \<in> set (connections s). address_type c = BD_ADDR_TYPE_ACL \<or> hci_is_le_connection_type (address_type c))"

lemma weight_nonneg [simp]: "0 \<le> weight P cs"
  unfolding weight_def by (rule sum_list_nonneg) auto

lemma weight_Cons: "weight P (c # cs) = (if P (address_type c) then uint (num_packets_sent c) else 0) + weight P cs"
  by (simp add: weight_def)

lemma weight_upd:
  assumes "find (\<lambda>c. hc_handle c = h) cs = Some c" "address_type (f c) = address_type c"
  shows "weight P (upd_first h f cs) =
    weight P cs + (if P (address_type c) then uint (num_packets_sent (f c)) - uint (num_packets_sent c) else 0)"
  using assms(1) by (induction cs) (auto simp: weight_Cons assms(2) split: if_splits)

lemma weight_member: "find (\<lambda>c. hc_handle c = h) cs = Some c \<Longrightarrow> P (address_type c) \<Longrightarrow> uint (num_packets_sent c) \<le> weight P cs"
proof (induction cs)
  case (Cons a cs)
  then show ?case by (auto simp: weight_Cons add_increasing split: if_splits)
qed simp

lemma sent_upd:
  assumes "hci_connection_for_handle s h = Some c" "address_type (f c) = address_type c"
  shows "classic_sent (upd_connection h f s) =
      classic_sent s + (if address_type c = BD_ADDR_TYPE_ACL then uint (num_packets_sent (f c)) - uint (num_packets_sent c) else 0)"
    "le_sent (upd_connection h f s) =
      le_sent s + (if hci_is_le_connection_type (address_type c) then uint (num_packets_sent (f c)) - uint (num_packets_sent c) else 0)"
  using assms by (simp_all add: classic_sent_def le_sent_def upd_connection_def hci_connection_for_handle_def weight_upd)

lemma upd_nobody: "hci_connection_for_handle s h = None \<Longrightarrow> upd_connection h f s = s"
proof -
  have "find (\<lambda>c. hc_handle c = h) cs = None \<Longrightarrow> upd_first h f cs = cs" for cs by (induction cs) (auto split: if_splits)
  then show "hci_connection_for_handle s h = None \<Longrightarrow> upd_connection h f s = s"
    by (simp add: upd_connection_def hci_connection_for_handle_def)
qed

lemma for_handle_member: "hci_connection_for_handle s h = Some c \<Longrightarrow> c \<in> set (connections s)"
  by (auto simp: hci_connection_for_handle_def find_Some_iff)

text \<open>The counts depend on the connections and the sizes of the controller only.\<close>

definition same_counts :: "hci \<Rightarrow> hci \<Rightarrow> bool" where
  "same_counts s s' \<longleftrightarrow> connections s' = connections s \<and> acl_packets_total_num s' = acl_packets_total_num s \<and>
     le_acl_packets_total_num s' = le_acl_packets_total_num s"

lemma same_counts_eqs:
  assumes "same_counts s s'"
  shows "in_budget s' = in_budget s" "outstanding s' = outstanding s" "acl_links s' = acl_links s"
    "hci_number_free_acl_slots_for_handle s' h = hci_number_free_acl_slots_for_handle s h"
proof -
  have same: "connections s' = connections s" "acl_packets_total_num s' = acl_packets_total_num s"
    "le_acl_packets_total_num s' = le_acl_packets_total_num s" using assms by (simp_all add: same_counts_def)
  have "hci_number_free_acl_slots_for_connection_type s' type = hci_number_free_acl_slots_for_connection_type s type" for type
    unfolding hci_number_free_acl_slots_for_connection_type_def same by (rule refl)
  with same show "in_budget s' = in_budget s" "outstanding s' = outstanding s" "acl_links s' = acl_links s"
    "hci_number_free_acl_slots_for_handle s' h = hci_number_free_acl_slots_for_handle s h"
    by (simp_all add: in_budget_def outstanding_def classic_sent_def le_sent_def acl_links_def
        hci_number_free_acl_slots_for_handle_def hci_connection_for_handle_def cong: option.case_cong)
qed

lemma weight_free:
  "hci_number_free_acl_slots_for_connection_type s type =
     (if uint (acl_packets_total_num s) < classic_sent s then 0
      else if le_acl_packets_total_num s \<noteq> 0 then
        if uint (le_acl_packets_total_num s) < le_sent s then 0
        else case type of BD_ADDR_TYPE_UNKNOWN \<Rightarrow> 0 | BD_ADDR_TYPE_ACL \<Rightarrow> uint (acl_packets_total_num s) - classic_sent s
          | _ \<Rightarrow> uint (le_acl_packets_total_num s) - le_sent s
      else if uint (acl_packets_total_num s) < outstanding s then 0
      else case type of BD_ADDR_TYPE_UNKNOWN \<Rightarrow> 0 | _ \<Rightarrow> uint (acl_packets_total_num s) - outstanding s)"
  by (cases type) (simp_all add: hci_number_free_acl_slots_for_connection_type_def Let_def classic_sent_def le_sent_def weight_def
      outstanding_def algebra_simps)

definition count_packet :: "u16 \<Rightarrow> hci \<Rightarrow> hci" where
  "count_packet h s = upd_connection h (\<lambda>c. c\<lparr>num_packets_sent := num_packets_sent c + 1\<rparr>) s"

lemma byte_inc: "uint (b :: byte) < 255 \<Longrightarrow> uint (b + 1) = uint b + 1"
proof -
  assume less: "uint b < 255"
  have "uint (b + 1) = (uint b + 1) mod 2 ^ 8" by (simp only: uint_word_ariths(1)) simp
  also have "\<dots> = uint b + 1" by (rule mod_pos_pos_trivial) (use less in simp_all)
  finally show ?thesis .
qed

lemma byte_le: "uint (b :: byte) \<le> 255"
  using uint_lt2p [of b] by simp

lemma counted:
  assumes "in_budget s" "hci_number_free_acl_slots_for_handle s h > 0" "acl_links s"
  shows "in_budget (count_packet h s)" "outstanding (count_packet h s) = outstanding s + 1" "acl_links (count_packet h s)"
proof -
  let ?f = "\<lambda>c :: hci_connection. c\<lparr>num_packets_sent := num_packets_sent c + 1\<rparr>"
  obtain c where c: "hci_connection_for_handle s h = Some c" "hci_number_free_acl_slots_for_connection_type s (address_type c) > 0"
    using assms(2) by (auto simp: hci_number_free_acl_slots_for_handle_def split: option.splits)
  have kind: "address_type c = BD_ADDR_TYPE_ACL \<or> hci_is_le_connection_type (address_type c)"
    using assms(3) for_handle_member [OF c(1)] by (simp add: acl_links_def)
  note le_member = weight_member [OF c(1) [unfolded hci_connection_for_handle_def], of hci_is_le_connection_type, folded le_sent_def]
  note acl_member = weight_member [OF c(1) [unfolded hci_connection_for_handle_def], of "\<lambda>t. t = BD_ADDR_TYPE_ACL", folded classic_sent_def]
  have tot: "uint (acl_packets_total_num s) \<le> 255" "uint (le_acl_packets_total_num s) \<le> 255" by (rule byte_le)+
  have nonneg: "0 \<le> classic_sent s" "0 \<le> le_sent s" by (simp_all add: classic_sent_def le_sent_def)
  have le_types: "\<not> hci_is_le_connection_type BD_ADDR_TYPE_ACL" by (simp add: hci_is_le_connection_type_def)
  have room: "if le_acl_packets_total_num s = 0 then outstanding s < uint (acl_packets_total_num s)
    else if address_type c = BD_ADDR_TYPE_ACL then classic_sent s < uint (acl_packets_total_num s)
    else le_sent s < uint (le_acl_packets_total_num s)"
    using c(2) kind by (cases "address_type c") (auto simp: weight_free hci_is_le_connection_type_def split: if_splits)
  have "uint (num_packets_sent c) < 255"
    using room kind le_member acl_member tot nonneg by (auto simp: outstanding_def split: if_splits)
  then have inc: "uint (num_packets_sent (?f c)) = uint (num_packets_sent c) + 1" by (simp add: byte_inc)
  note sent = sent_upd [OF c(1), of ?f, folded count_packet_def]
  have new: "classic_sent (count_packet h s) = classic_sent s + (if address_type c = BD_ADDR_TYPE_ACL then 1 else 0)"
    "le_sent (count_packet h s) = le_sent s + (if hci_is_le_connection_type (address_type c) then 1 else 0)"
    using sent inc by simp_all
  have tots: "acl_packets_total_num (count_packet h s) = acl_packets_total_num s"
    "le_acl_packets_total_num (count_packet h s) = le_acl_packets_total_num s" by (simp_all add: count_packet_def upd_connection_def)
  show "outstanding (count_packet h s) = outstanding s + 1" using new kind le_types by (auto simp: outstanding_def)
  then show "in_budget (count_packet h s)"
    using assms(1) new room tots kind le_types by (auto simp: in_budget_def split: if_splits)
  show "acl_links (count_packet h s)"
    using upd_first_ok [of "connections s" "\<lambda>c. address_type c = BD_ADDR_TYPE_ACL \<or> hci_is_le_connection_type (address_type c)" ?f h] assms(3)
    by (simp add: acl_links_def count_packet_def upd_connection_def)
qed

subsection \<open>The budget of the controller\<close>

lemma fragments_loop_budget:
  assumes "fragments_loop n T h max_len s = Ret (s', err, b)" "in_budget s" "acl_links s" "hci_number_free_acl_slots_for_handle s h > 0"
  shows "in_budget s' \<and> acl_links s' \<and> outstanding s' - outstanding s = int (length (sends s')) - int (length (sends s))"
  using assms
proof (induction n arbitrary: s)
  case (Suc n)
  let ?rest = "uint (acl_fragmentation_total_size s) - uint (acl_fragmentation_pos s)"
  let ?more = "?rest > max_len"
  let ?len = "if ?more then max_len else ?rest"
  obtain buf packet where p: "next_fragment (acl_fragmentation_pos s - 4) ?len (hci_packet_buffer s) = Ret (buf, packet)"
    using Suc.prems(1) by (cases "next_fragment (acl_fragmentation_pos s - 4) ?len (hci_packet_buffer s)") (auto simp: Let_def)
  let ?s1 = "(count_packet h s)\<lparr>hci_packet_buffer := buf\<rparr>"
  let ?s2 = "if ?more then ?s1\<lparr>acl_fragmentation_pos := acl_fragmentation_pos ?s1 + word_of_int ?len\<rparr>
             else ?s1\<lparr>acl_fragmentation_pos := 0, acl_fragmentation_total_size := 0\<rparr>"
  let ?t = "transport_send T packet (?s2\<lparr>acl_fragmentation_tx_active := True\<rparr>)"
  let ?s3 = "fst ?t"
  have same: "same_counts (count_packet h s) ?s3" "length (sends ?s3) = length (sends s) + 1"
    by (simp_all add: same_counts_def transport_send_def sends_def count_packet_def upd_connection_def)
  note c = counted [OF Suc.prems(2,4,3)]
  have s3: "in_budget ?s3" "acl_links ?s3" "outstanding ?s3 = outstanding s + 1"
    using c same_counts_eqs [OF same(1)] by simp_all
  have loop: "fragments_loop (Suc n) T h max_len s =
    (if \<not> ?more then Ret (?s3, snd ?t, True)
     else if hci_can_send_prepared_acl_packet_now T ?s3 h then fragments_loop n T h max_len ?s3 else Ret (?s3, snd ?t, False))"
    using p by (simp add: Let_def count_packet_def split_beta)
  show ?case
  proof (cases "?more \<and> hci_can_send_prepared_acl_packet_now T ?s3 h")
    case True
    then have "fragments_loop n T h max_len ?s3 = Ret (s', err, b)" "hci_number_free_acl_slots_for_handle ?s3 h > 0"
      using Suc.prems(1) loop by (auto simp: hci_can_send_prepared_acl_packet_now_def)
    then show ?thesis using Suc.IH [OF _ s3(1,2)] s3(3) same(2) by fastforce
  next
    case False
    then have "s' = ?s3" using Suc.prems(1) loop by (auto split: if_splits)
    then show ?thesis using s3 same(2) by simp
  qed
qed simp

lemma send_budget:
  assumes "hci_send_acl_packet_fragments T h s = Ret (s', err)" "in_budget s" "acl_links s" "hci_number_free_acl_slots_for_handle s h > 0"
  shows "in_budget s' \<and> acl_links s' \<and> outstanding s' - outstanding s = int (length (sends s')) - int (length (sends s))"
proof -
  obtain s1 e b where s1: "fragments_loop 65536 T h (uint (max_acl_data_packet_length h s)) s = Ret (s1, e, b)"
    "s' = (if b \<and> hci_transport_synchronous T then
            hci_emit_transport_packet_sent (hci_release_packet_buffer (s1\<lparr>acl_fragmentation_tx_active := False\<rparr>)) else s1)"
    using assms(1) by (auto simp: hci_send_acl_packet_fragments_def split: bind_outcome_split_asm)
  have "same_counts s1 s'" "sends s' = sends s1"
    unfolding s1(2) by simp_all (simp add: same_counts_def hci_emit_transport_packet_sent_def hci_release_packet_buffer_def)
  then show ?thesis using fragments_loop_budget [OF s1(1) assms(2-4)] same_counts_eqs by simp
qed

lemma send_buffer_budget:
  assumes "hci_send_acl_packet_buffer T len s = Ret (s', err)" "in_budget s" "acl_links s"
  shows "in_budget s' \<and> acl_links s' \<and> outstanding s' - outstanding s = int (length (sends s')) - int (length (sends s))"
proof -
  have idle: ?thesis if "same_counts s s'" "sends s' = sends s" using that assms(2,3) same_counts_eqs by simp
  consider "same_counts s s'" "sends s' = sends s"
    | h where "hci_send_acl_packet_fragments T h (s\<lparr>acl_fragmentation_total_size := len, acl_fragmentation_pos := 4\<rparr>) = Ret (s', err)"
        "hci_can_send_prepared_acl_packet_now T s h"
    using assms(1)
    by (auto simp: hci_send_acl_packet_buffer_def same_counts_def hci_emit_transport_packet_sent_def hci_release_packet_buffer_def sends_def
        split: if_splits bind_outcome_split_asm option.splits)
  then show ?thesis
  proof cases
    case (2 h)
    let ?s = "s\<lparr>acl_fragmentation_total_size := len, acl_fragmentation_pos := 4\<rparr>"
    have same: "same_counts s ?s" "sends ?s = sends s" by (simp_all add: same_counts_def sends_def)
    have "hci_number_free_acl_slots_for_handle s h > 0" using 2(2) by (simp add: hci_can_send_prepared_acl_packet_now_def)
    then show ?thesis using send_budget [OF 2(1)] same_counts_eqs [OF same(1)] same(2) assms(2,3) by simp
  qed (rule idle)
qed

lemma run_budget:
  assumes "hci_run_acl_fragments T s = Ret (s', b)" "in_budget s" "acl_links s"
  shows "in_budget s' \<and> acl_links s' \<and> outstanding s' - outstanding s = int (length (sends s')) - int (length (sends s))"
proof -
  have idle: ?thesis if "same_counts s s'" "sends s' = sends s" using that assms(2,3) same_counts_eqs by simp
  consider "same_counts s s'" "sends s' = sends s"
    | h err where "hci_send_acl_packet_fragments T h s = Ret (s', err)" "hci_can_send_prepared_acl_packet_now T s h"
    using assms(1)
    by (auto simp: hci_run_acl_fragments_def same_counts_def sends_def split: if_splits bind_outcome_split_asm option.splits)
  then show ?thesis
  proof cases
    case (2 h err)
    then have "hci_number_free_acl_slots_for_handle s h > 0" by (simp add: hci_can_send_prepared_acl_packet_now_def)
    then show ?thesis using send_budget [OF 2(1)] assms(2,3) by simp
  qed (rule idle)
qed

text \<open>Reports of completed packets only lower the counts.\<close>

lemma unat_byte_u16: "unat (ucast (k :: byte) :: u16) = unat k"
  by transfer (simp add: take_bit_nat_eq_self take_bit_int_eq_self)

lemma completed_one_budget:
  assumes "\<And>c. address_type (f c) = address_type c" "\<And>c. uint (num_packets_sent (f c)) \<le> uint (num_packets_sent c)"
  shows "classic_sent (upd_connection h f s) \<le> classic_sent s \<and> le_sent (upd_connection h f s) \<le> le_sent s"
proof (cases "hci_connection_for_handle s h")
  case (Some c)
  then show ?thesis using assms(2) [of c] by (simp add: sent_upd assms(1))
qed (simp add: upd_nobody)

lemma completed_le:
  "completed_packets_loop n packet offset s = Ret s' \<Longrightarrow> classic_sent s' \<le> classic_sent s \<and> le_sent s' \<le> le_sent s"
proof (induction n arbitrary: offset s)
  case (Suc n)
  obtain h num where r: "little_endian_read_16 packet 0 (uint offset) = Ret h" "little_endian_read_16 packet 0 (uint (offset + 2)) = Ret num"
    "completed_packets_loop n packet (offset + 4) (upd_connection (h AND 0x0FFF) (\<lambda>c. c\<lparr>num_packets_sent :=
               (if ucast (num_packets_sent c) \<ge> num then num_packets_sent c - ucast num else 0)\<rparr>) s) = Ret s'"
    using Suc.prems by (auto simp: Let_def split: bind_outcome_split_asm)
  have "uint (if ucast k \<ge> num then k - ucast num else 0) \<le> uint k" for k :: byte
  proof (cases "ucast k \<ge> num")
    case True
    then have "unat num \<le> unat k" by (simp add: word_le_nat_alt unat_byte_u16)
    then have "unat num < 256" using unat_byte_less [of k] by (rule le_less_trans)
    then have "unat (ucast num :: byte) = unat num" by (simp add: unsigned_ucast_eq take_bit_nat_eq_self)
    then have "ucast num \<le> k" using \<open>unat num \<le> unat k\<close> by (simp add: word_le_nat_alt)
    then show ?thesis using True by (simp add: word_le_minus_cancel uint_sub_lem word_le_def)
  qed simp
  then show ?case
    using Suc.IH [OF r(3)] completed_one_budget [of "\<lambda>c. c\<lparr>num_packets_sent :=
               (if ucast (num_packets_sent c) \<ge> num then num_packets_sent c - ucast num else 0)\<rparr>" "h AND 0x0FFF" s] by fastforce
qed simp

lemma link_budget:
  assumes "same_link s s'" "classic_sent s' \<le> classic_sent s" "le_sent s' \<le> le_sent s" "in_budget s" "acl_links s"
  shows "in_budget s' \<and> acl_links s' \<and> outstanding s' \<le> outstanding s \<and> sends s' = sends s"
proof -
  have kinds: "map conn_kind (connections s') = map conn_kind (connections s)" using assms(1) by (simp add: same_link_def)
  have eq: "map address_type cs = map snd (map conn_kind cs)" for cs by (simp add: conn_kind_def)
  have "map address_type (connections s') = map address_type (connections s)"
    by (simp only: eq kinds)
  then have types: "address_type ` set (connections s') = address_type ` set (connections s)" by (simp only: set_map [symmetric])
  have "\<forall>t \<in> address_type ` set (connections s'). t = BD_ADDR_TYPE_ACL \<or> hci_is_le_connection_type t"
    using assms(5) unfolding types acl_links_def by blast
  then have links: "acl_links s'" by (simp add: acl_links_def)
  have "acl_packets_total_num s' = acl_packets_total_num s" "le_acl_packets_total_num s' = le_acl_packets_total_num s"
    "sends s' = sends s" using assms(1) by (simp_all add: same_link_def sends_def)
  with links assms(2-4) show ?thesis by (auto simp: in_budget_def outstanding_def split: if_splits)
qed

text \<open>Everything that happens, with the number of packets that the controller completed.\<close>

inductive hci_uses :: "hci_transport \<Rightarrow> hci \<Rightarrow> int \<Rightarrow> hci \<Rightarrow> bool" for T s where
  uses_start: "hci_uses T s 0 s"
| uses_fill: "hci_uses T s n s1 \<Longrightarrow> \<not> hci_packet_buffer_reserved s1 \<Longrightarrow>
    hci_uses T s n (s1\<lparr>hci_packet_buffer_reserved := True, hci_packet_buffer := buf\<rparr>)"
| uses_send: "hci_uses T s n s1 \<Longrightarrow> hci_send_acl_packet_buffer T len s1 = Ret (s2, err) \<Longrightarrow> hci_uses T s n s2"
| uses_run: "hci_uses T s n s1 \<Longrightarrow> hci_run_acl_fragments T s1 = Ret (s2, b) \<Longrightarrow> hci_uses T s n s2"
| uses_sent: "hci_uses T s n s1 \<Longrightarrow> hci_uses T s n (transport_packet_sent_event T s1)"
| uses_completed: "hci_uses T s n s1 \<Longrightarrow> number_of_completed_packets_event packet s1 = Ret s2 \<Longrightarrow>
    hci_uses T s (n + (outstanding s1 - outstanding s2)) s2"
| uses_received: "hci_uses T s n s1 \<Longrightarrow> acl_handler packet s1 = Ret (s2, p) \<Longrightarrow> hci_uses T s n s2"

lemma received_counts:
  assumes "acl_handler packet s = Ret (s', p)"
  shows "same_link s s' \<and> classic_sent s' = classic_sent s \<and> le_sent s' = le_sent s"
  using assms
proof (cases rule: acl_handler_result)
  case (2 h c c')
  then have "address_type c' = address_type c" by (simp add: conn_kind_def)
  then show ?thesis using 2 sent_upd [OF 2(1), of "\<lambda>_. c'"] same_link_upd [of s h "\<lambda>_. c'"] by simp
qed simp

lemma completed_counts:
  assumes "number_of_completed_packets_event packet s = Ret s'"
  shows "same_link s s' \<and> classic_sent s' \<le> classic_sent s \<and> le_sent s' \<le> le_sent s"
  using assms completed_link completed_le
  by (fastforce simp: number_of_completed_packets_event_def split: if_splits bind_outcome_split_asm)

lemma uses_budget:
  assumes "hci_uses T s n s'" "in_budget s" "acl_links s"
  shows "in_budget s' \<and> acl_links s' \<and> 0 \<le> n \<and>
    outstanding s' + n - outstanding s = int (length (sends s')) - int (length (sends s))"
  using assms(1)
proof induction
  case uses_start
  then show ?case using assms(2,3) by simp
next
  case (uses_fill n s1 buf)
  let ?s = "s1\<lparr>hci_packet_buffer_reserved := True, hci_packet_buffer := buf\<rparr>"
  have "same_counts s1 ?s" "sends ?s = sends s1" by (simp_all add: same_counts_def sends_def)
  then show ?case using uses_fill.IH same_counts_eqs [of s1 ?s] by simp
next
  case (uses_send n s1 len s2 err)
  then show ?case using send_buffer_budget [of T len s1 s2 err] by linarith
next
  case (uses_run n s1 s2 b)
  then show ?case using run_budget [of T s1 s2 b] by linarith
next
  case (uses_sent n s1)
  have "same_counts s1 (transport_packet_sent_event T s1)" "sends (transport_packet_sent_event T s1) = sends s1"
    by (simp_all add: same_counts_def sends_def transport_packet_sent_event_def hci_release_packet_buffer_def Let_def)
  then show ?case using uses_sent.IH same_counts_eqs [of s1 "transport_packet_sent_event T s1"] by simp
next
  case (uses_completed n s1 packet s2)
  have c: "same_link s1 s2" "classic_sent s2 \<le> classic_sent s1" "le_sent s2 \<le> le_sent s1"
    using completed_counts [OF uses_completed.hyps(2)] by simp_all
  show ?case using link_budget [OF c] uses_completed.IH by auto
next
  case (uses_received n s1 packet s2 p)
  have c: "same_link s1 s2" "classic_sent s2 = classic_sent s1" "le_sent s2 = le_sent s1"
    using received_counts [OF uses_received.hyps(2)] by simp_all
  show ?case using link_budget [OF c(1)] c(2,3) uses_received.IH by (auto simp: outstanding_def)
qed

subsection \<open>What L2CAP gets\<close>

text \<open>The packet has the bytes that its L2CAP header says.\<close>

definition whole_packet :: "bytes \<Rightarrow> bool" where
  "whole_packet q \<longleftrightarrow> (case little_endian_read_16 q 0 4 of Undef \<Rightarrow> False | Ret n \<Rightarrow> unat n + 8 \<le> length q)"

text \<open>A packet that is being collected starts with its ACL header and the length that is remembered.\<close>

definition conn_sound :: "hci_connection \<Rightarrow> bool" where
  "conn_sound c \<longleftrightarrow> conn_ok c \<and>
     (acl_recombination_pos c \<noteq> 0 \<longrightarrow> 6 \<le> uint (acl_recombination_pos c) \<and>
        little_endian_read_16 (acl_recombination_buffer c) 0 12 = Ret (acl_recombination_length c))"

definition hci_conns_sound :: "hci \<Rightarrow> bool" where
  "hci_conns_sound s \<longleftrightarrow> (\<forall>c \<in> set (connections s). conn_sound c)"

lemma rd_wr_block:
  assumes "wr_block m p bs = Ret m'" "0 \<le> p"
  shows "rd m' q = (if p \<le> q \<and> q < p + int (length bs) then Ret (bs ! nat (q - p)) else rd m q)"
  using assms by (auto simp: wr_block_def rd_def write_at_def nth_append nat_diff_distrib' split: if_splits)

lemma rd_rd_block: "rd_block m p n = Ret q \<Longrightarrow> 0 \<le> i \<Longrightarrow> i < int n \<Longrightarrow> rd q i = rd m (p + i)"
  by (auto simp: rd_block_def rd_def nat_add_distrib split: if_splits)

lemma read_cong: "rd m (b + p) = rd m' (b' + p') \<Longrightarrow> rd m (b + p + 1) = rd m' (b' + p' + 1) \<Longrightarrow>
    little_endian_read_16 m b p = little_endian_read_16 m' b' p'"
  by (simp add: little_endian_read_16_def add.assoc)

lemma continuation_sound:
  assumes "conn_sound c" "length packet = unat n + 4"
  shows "returns (acl_continuation n packet c) (\<lambda>(c', p). conn_sound c' \<and> (\<forall>q. p = Some q \<longrightarrow> whole_packet q))"
proof -
  have ok: "conn_ok c" and nz: "acl_recombination_pos c \<noteq> 0 \<Longrightarrow> 6 \<le> uint (acl_recombination_pos c) \<and>
        little_endian_read_16 (acl_recombination_buffer c) 0 12 = Ret (acl_recombination_length c)"
    using assms(1) by (simp_all add: conn_sound_def)
  have run: "returns (acl_continuation n packet c) (\<lambda>(c', p). conn_ok c' \<and> hc_handle c' = hc_handle c)"
    by (rule returns_continuation [OF ok assms(2)])
  have "conn_sound c' \<and> (\<forall>q. p = Some q \<longrightarrow> whole_packet q)"
    if r: "acl_continuation n packet c = Ret (c', p)" and c': "conn_ok c'" for c' p
  proof (cases "acl_recombination_pos c = 0 \<or> uint (acl_recombination_pos c) + uint n > 1029")
    case True
    then show ?thesis
      using r assms(1) ok by (auto simp: acl_continuation_def HCI_ACL_BUFFER_SIZE_def conn_sound_def conn_ok_def split: if_splits)
  next
    case False
    let ?pos = "acl_recombination_pos c + n"
    have pos: "uint ?pos = uint (acl_recombination_pos c) + uint n" "0 \<le> uint n" using False by (simp_all add: u16_sum)
    note old = nz [THEN conjunct1] nz [THEN conjunct2]
    note unf = r [unfolded acl_continuation_def Let_def HCI_ACL_BUFFER_SIZE_def HCI_INCOMING_PRE_BUFFER_SIZE_def]
    obtain data where data: "rd_block packet 4 (unat n) = Ret data" using unf False by (cases "rd_block packet 4 (unat n)") simp_all
    obtain buf where buf: "wr_block (acl_recombination_buffer c) (8 + uint (acl_recombination_pos c)) data = Ret buf"
      using unf False data by (cases "wr_block (acl_recombination_buffer c) (8 + uint (acl_recombination_pos c)) data") simp_all
    have d: "(if uint (acl_recombination_length c) + 8 \<le> uint ?pos
        then bind_outcome (rd_block buf 8 (unat ?pos)) (\<lambda>q. Ret (c\<lparr>acl_recombination_buffer := buf, acl_recombination_length := 0, acl_recombination_pos := 0\<rparr>, Some q))
        else Ret (c\<lparr>acl_recombination_buffer := buf, acl_recombination_pos := ?pos\<rparr>, None)) = Ret (c', p)"
      using unf False data buf by (cases "uint (acl_recombination_length c) + 8 \<le> uint ?pos") simp_all
    have "little_endian_read_16 buf 0 12 = little_endian_read_16 (acl_recombination_buffer c) 0 12"
      using rd_wr_block [OF buf] old(1) False by (intro read_cong) simp_all
    then have len: "little_endian_read_16 buf 0 12 = Ret (acl_recombination_length c)" using old(2) False by simp
    show ?thesis
    proof (cases "uint (acl_recombination_length c) + 8 \<le> uint ?pos")
      case True
      then obtain q where q: "rd_block buf 8 (unat ?pos) = Ret q" "p = Some q" using d by (auto split: bind_outcome_split_asm)
      have npos: "unat (acl_recombination_length c) + 8 \<le> unat ?pos" using True unfolding uint_nat by linarith
      have wide: "8 \<le> uint ?pos" using True uint_ge_0 [of "acl_recombination_length c"] by linarith
      have "little_endian_read_16 q 0 4 = little_endian_read_16 buf 0 12"
        using rd_rd_block [OF q(1), of 4] rd_rd_block [OF q(1), of 5] wide by (intro read_cong) simp_all
      then have "whole_packet q" using len npos rd_block_holds [OF q(1)] by (simp add: whole_packet_def)
      then show ?thesis using d q True c' by (auto simp: conn_sound_def)
    next
      case more: False
      then have "c' = c\<lparr>acl_recombination_buffer := buf, acl_recombination_pos := ?pos\<rparr>" "p = None" using d by simp_all
      moreover have "6 \<le> uint ?pos" using pos old(1) False by linarith
      ultimately show ?thesis using c' len by (simp add: conn_sound_def)
    qed
  qed
  then show ?thesis using run by (elim returnsE) auto
qed

lemma first_sound:
  assumes "conn_sound c" "length packet = unat n + 4" "2 \<le> unat n"
  shows "returns (acl_first n packet c) (\<lambda>(c', p). conn_sound c' \<and> (\<forall>q. p = Some q \<longrightarrow> whole_packet q))"
proof -
  have ok: "conn_ok c" using assms(1) by (simp add: conn_sound_def)
  have run: "returns (acl_first n packet c) (\<lambda>(c', p). conn_ok c' \<and> hc_handle c' = hc_handle c)"
    by (rule returns_first [OF ok assms(2,3)])
  have n: "uint n = int (unat n)" by (simp only: uint_nat)
  have all: "rd_block packet 0 (unat n + 4) = Ret packet" using assms(2) by (simp add: rd_block_def)
  have "conn_sound c' \<and> (\<forall>q. p = Some q \<longrightarrow> whole_packet q)"
    if r: "acl_first n packet c = Ret (c', p)" and c': "conn_ok c'" for c' p
  proof -
    note unf = r [unfolded acl_first_def Let_def HCI_ACL_BUFFER_SIZE_def HCI_INCOMING_PRE_BUFFER_SIZE_def all bind_outcome_simps]
    obtain l where l: "little_endian_read_16 packet 0 4 = Ret l" using unf by (cases "little_endian_read_16 packet 0 4") simp_all
    have nl: "uint l = int (unat l)" by (simp only: uint_nat)
    consider "uint l + 4 \<le> uint n" | "uint n < uint l + 4" "1025 < unat n" | "uint n < uint l + 4" "unat n \<le> 1025" by linarith
    then show ?thesis
    proof cases
      case 1
      then have "p = Some packet" "c' = c\<lparr>acl_recombination_pos := 0\<rparr>" using unf l by simp_all
      moreover have "unat l + 8 \<le> length packet" using 1 n nl assms(2) by linarith
      moreover have "whole_packet packet" if "unat l + 8 \<le> length packet" using that l by (simp add: whole_packet_def)
      ultimately show ?thesis using c' by (simp add: conn_sound_def)
    next
      case 2
      then have "p = None" "c' = c\<lparr>acl_recombination_pos := 0\<rparr>" using unf l by simp_all
      then show ?thesis using c' by (simp add: conn_sound_def)
    next
      case 3
      obtain b1 where b1: "wr_block (acl_recombination_buffer c) 8 packet = Ret b1"
        using unf l 3 by (cases "wr_block (acl_recombination_buffer c) 8 packet") simp_all
      have store: "little_endian_store_16 b1 0 10 (l + 4) = wr_block b1 10 (le16 (l + 4))" by (simp add: le16.store_enc)
      obtain b2 where b2: "wr_block b1 10 (le16 (l + 4)) = Ret b2"
        using unf l 3 b1 store by (cases "wr_block b1 10 (le16 (l + 4))") simp_all
      have res: "p = None" "c' = c\<lparr>acl_recombination_buffer := b2, acl_recombination_pos := n + 4, acl_recombination_length := l\<rparr>"
        using unf l 3 b1 b2 store by simp_all
      have big: "5 < int (length packet)" using assms(2,3) by linarith
      have "rd b1 (8 + i) = rd packet i" if "0 \<le> i" "i < int (length packet)" for i
        using that unfolding rd_wr_block [OF b1 zero_le_numeral] by (simp add: rd_Ret)
      from this [of 4] this [of 5] have at: "rd b1 12 = rd packet 4" "rd b1 13 = rd packet 5" using big by simp_all
      have "little_endian_read_16 b2 0 12 = little_endian_read_16 b1 0 12"
        using rd_wr_block [OF b2] by (intro read_cong) (simp_all add: le16_def be16_def)
      also have "\<dots> = little_endian_read_16 packet 0 4"
        by (rule read_cong) (simp_all add: at)
      finally have len: "little_endian_read_16 b2 0 12 = Ret l" using l by simp
      have "uint n + 4 < 65536" using 3 n by linarith
      then have "uint (n + 4) = uint n + 4" by (subst u16_sum) simp_all
      then have "6 \<le> uint (n + 4)" using assms(3) n by linarith
      then show ?thesis using res c' len by (simp add: conn_sound_def)
    qed
  qed
  then show ?thesis using run by (elim returnsE) auto
qed

lemma conns_sound_upd: "hci_conns_sound s \<Longrightarrow> conn_sound c \<Longrightarrow> hci_conns_sound (upd_connection h (\<lambda>_. c) s)"
  using upd_first_ok [of "connections s" conn_sound "\<lambda>_. c" h] by (simp add: hci_conns_sound_def upd_connection_def)

lemma handler_sound:
  assumes "hci_conns_sound s" "6 \<le> length packet" "length packet < 65536"
  shows "returns (acl_handler packet s) (\<lambda>(s', p). hci_conns_sound s' \<and> (\<forall>q. p = Some q \<longrightarrow> whole_packet q))"
proof -
  have nat_pos: "int (unat w) = uint w" for w :: u16 by (simp only: uint_nat)
  have read: "\<exists>v. little_endian_read_16 packet 0 p = Ret v" if "p \<in> {0, 2}" for p
    using that assms(2) returns_read_16(2) [of 0 p packet "\<lambda>_. True"] by (auto elim!: returnsE)
  obtain v n where v: "little_endian_read_16 packet 0 0 = Ret v" "little_endian_read_16 packet 0 2 = Ret n" using read by blast
  have b: "rd packet 1 = Ret (packet ! 1)" using assms(2) by (simp add: rd_def)
  show ?thesis
  proof (cases "hci_connection_for_handle s (v AND 0x0FFF) = None \<or> uint n + 4 \<noteq> int (length packet)")
    case True
    then show ?thesis using assms(1) by (auto simp: acl_handler_def READ_ACL_CONNECTION_HANDLE_def v b split: option.split)
  next
    case False
    then obtain c where c: "hci_connection_for_handle s (v AND 0x0FFF) = Some c" by auto
    then have sound: "conn_sound c" using assms(1) for_handle_member by (auto simp: hci_conns_sound_def)
    have len: "length packet = unat n + 4" "2 \<le> unat n" using False nat_pos [of n] assms(2) by linarith+
    have same: "(uint n + 4 \<noteq> int (length packet)) = False" using False by simp
    have part: "returns (if flags = (1 :: byte) then acl_continuation n packet c else if flags = 2 then acl_first n packet c else Ret (c, None))
        (\<lambda>(c', p). conn_sound c' \<and> (\<forall>q. p = Some q \<longrightarrow> whole_packet q))" for flags
      using len sound by (simp add: continuation_sound first_sound)
    show ?thesis
      unfolding acl_handler_def READ_ACL_CONNECTION_HANDLE_def v b bind_outcome_simps c option.case Let_def same if_False
      by (intro returns_bind returns_mono [OF part]) (auto intro: conns_sound_upd [OF assms(1)])
  qed
qed

lemma receive_all_sound:
  "hci_conns_sound s \<Longrightarrow> \<forall>p \<in> set ps. 6 \<le> length p \<and> length p < 65536 \<Longrightarrow>
    returns (receive_all ps s) (\<lambda>(s', qs). hci_conns_sound s' \<and> (\<forall>q \<in> set qs. whole_packet q))"
proof (induction ps arbitrary: s)
  case (Cons p ps)
  have "returns (acl_handler p s) (\<lambda>(s', r). hci_conns_sound s' \<and> (\<forall>q. r = Some q \<longrightarrow> whole_packet q))"
    using Cons.prems by (intro handler_sound) simp_all
  then obtain s1 r where s1: "acl_handler p s = Ret (s1, r)" "hci_conns_sound s1" "\<forall>q. r = Some q \<longrightarrow> whole_packet q"
    by (auto elim!: returnsE)
  have "returns (receive_all ps s1) (\<lambda>(s', qs). hci_conns_sound s' \<and> (\<forall>q \<in> set qs. whole_packet q))"
    using Cons.IH s1(2) Cons.prems(2) by simp
  then show ?case using s1 by (auto elim!: returnsE split: option.split)
qed simp

end
