(* ===== verification/HciLink.thy ===== *)
theory HciLink
  imports HciBudget
begin

unbundle bit_operations_syntax

text \<open>
  What is between two hosts: the controller of the sender reads the header of each ACL packet that it
  gets, and gathers the L2CAP packets of a link from it; the controller of the receiver delivers
  them, cut anew, with headers of its own.
\<close>

subsection \<open>The controller of the sender\<close>

text \<open>
  Handle, the four bits with the packet boundary, and data of an ACL packet; a packet whose length
  field is not its length is lost.
\<close>

definition acl_fields :: "bytes \<Rightarrow> (u16 \<times> u16 \<times> bytes) option" where
  "acl_fields p =
     (case (little_endian_read_16 p 0 0, little_endian_read_16 p 0 2) of
        (Ret w, Ret n) \<Rightarrow> if unat n + 4 = length p then Some (w AND 0x0FFF, drop_bit 12 w, drop 4 p) else None
      | _ \<Rightarrow> None)"

text \<open>
  The L2CAP packets of the link \<open>h\<close>: a boundary of 0 or 2 starts one, a boundary of 1 continues the
  last one, and what continues nothing is lost.
\<close>

fun gather :: "u16 \<Rightarrow> bytes list \<Rightarrow> bytes list \<Rightarrow> bytes list" where
  "gather h ps [] = ps"
| "gather h ps (x # xs) =
     gather h
       (case acl_fields x of
          None \<Rightarrow> ps
        | Some (h', boundary, data) \<Rightarrow>
            if h' \<noteq> h then ps
            else if boundary = 0 \<or> boundary = 2 then ps @ [data]
            else if boundary = 1 \<and> ps \<noteq> [] then butlast ps @ [last ps @ data]
            else ps) xs"

lemma acl_fields: "length data < 65532 \<Longrightarrow> acl_fields (acl_packet f data) = Some (f AND 0x0FFF, drop_bit 12 f, data)"
proof -
  assume len: "length data < 65532"
  have "holds_at (acl_packet f data) 0 (le16 f)"
    unfolding acl_packet_def using holds_at_intro [of 0 "[]" "le16 f"] by simp
  then have "little_endian_read_16 (acl_packet f data) 0 0 = Ret f" by (intro le16.read_enc) simp
  moreover have "drop 4 (acl_packet f data) = data" by (simp add: acl_packet_def)
  ultimately show ?thesis using acl_header(3) [OF len, of f] len by (simp add: acl_fields_def unat_of_nat_u16)
qed

lemma continued_fields: "continued f AND 0x0FFF = f AND 0x0FFF" "drop_bit 12 f = 0 \<or> drop_bit 12 f = 2 \<Longrightarrow> drop_bit 12 (continued f) = 1"
proof -
  show "continued f AND 0x0FFF = f AND 0x0FFF"
    by (simp add: continued_def bit.conj_disj_distrib2 and.assoc)
  have c: "drop_bit 12 (continued f) = (drop_bit 12 f AND 0xC) OR 1"
    by (simp add: continued_def drop_bit_or drop_bit_and)
  show "drop_bit 12 f = 0 \<or> drop_bit 12 f = 2 \<Longrightarrow> drop_bit 12 (continued f) = 1"
    unfolding c by auto
qed

lemma gather_rest:
  assumes "drop_bit 12 f = 0 \<or> drop_bit 12 f = 2" "f AND 0x0FFF = h" "\<forall>c \<in> set cs. length c < 65532"
  shows "gather h [x] (map (acl_packet (continued f)) cs) = [x @ concat cs]"
  using assms(3) continued_fields [of f] assms(1,2) by (induction cs arbitrary: x) (simp_all add: acl_fields)

text \<open>All fragments of a packet are one packet on the link.\<close>

lemma gather_fragments:
  assumes "drop_bit 12 f = 0 \<or> drop_bit 12 f = 2" "f AND 0x0FFF = h" "length payload < 65532"
  shows "gather h [] (fragments_from f n 0 payload) = [payload]"
proof (cases "chunks n payload")
  case Nil
  then show ?thesis by (simp add: chunks.simps split: if_splits)
next
  case (Cons c cs)
  have payload: "payload = c @ concat cs" using concat_chunks [of n payload] Cons by simp
  then have len: "\<forall>x \<in> set (c # cs). length x < 65532"
    using assms(3) member_le_sum_list [of _ "map length cs"] by (force simp: length_concat)
  have "gather h [] (fragments_from f n 0 payload) = gather h [c] (map (acl_packet (continued f)) cs)"
    using assms(1,2) len by (auto simp: fragments_from_def Cons acl_fields)
  also have "\<dots> = [payload]" using gather_rest [OF assms(1,2)] len by (simp add: payload)
  finally show ?thesis .
qed

subsection \<open>The controller of the receiver\<close>

text \<open>Each packet arrives in pieces of any sizes, the first one with the length of the L2CAP packet.\<close>

definition delivered :: "u16 \<Rightarrow> bytes list \<Rightarrow> bytes list \<Rightarrow> bool" where
  "delivered h packets got \<longleftrightarrow>
     (\<exists>cuts. packets = map (\<lambda>(d, ds). d @ concat ds) cuts \<and> (\<forall>(d, ds) \<in> set cuts. 2 \<le> length d) \<and>
       got = concat (map (\<lambda>(d, ds). acl_packet (first_flags h) d # map (acl_packet (cont_flags h)) ds) cuts))"

lemma delivered_one:
  "delivered h [p] got \<longleftrightarrow>
    (\<exists>d ds. p = d @ concat ds \<and> 2 \<le> length d \<and> got = acl_packet (first_flags h) d # map (acl_packet (cont_flags h)) ds)"
proof
  assume "delivered h [p] got"
  then obtain cuts where cuts: "[p] = map (\<lambda>(d, ds). d @ concat ds) cuts" "\<forall>(d, ds) \<in> set cuts. 2 \<le> length d"
      "got = concat (map (\<lambda>(d, ds). acl_packet (first_flags h) d # map (acl_packet (cont_flags h)) ds) cuts)"
    unfolding delivered_def by (elim exE conjE)
  then obtain d ds where "cuts = [(d, ds)]" by (cases cuts; cases "tl cuts") auto
  then show "\<exists>d ds. p = d @ concat ds \<and> 2 \<le> length d \<and> got = acl_packet (first_flags h) d # map (acl_packet (cont_flags h)) ds"
    using cuts by auto
next
  assume "\<exists>d ds. p = d @ concat ds \<and> 2 \<le> length d \<and> got = acl_packet (first_flags h) d # map (acl_packet (cont_flags h)) ds"
  then obtain d ds where "p = d @ concat ds" "2 \<le> length d" "got = acl_packet (first_flags h) d # map (acl_packet (cont_flags h)) ds"
    by blast
  then show "delivered h [p] got" unfolding delivered_def by (intro exI [of _ "[(d, ds)]"]) simp
qed

text \<open>A receiver gets the packet back, whole and once, with the header that L2CAP expects.\<close>

lemma delivered_received:
  assumes "delivered h [payload] got" "h < 0x1000" "hci_connection_for_handle r h = Some c" "conn_ok c"
    and "take 2 payload = le16 (of_nat m)" "length payload = m + 4" "m \<le> 1021"
  shows "\<exists>r'. receive_all got r = Ret (r', [acl_packet (first_flags h) payload])"
proof -
  obtain d ds where d: "payload = d @ concat ds" "2 \<le> length d" "got = acl_packet (first_flags h) d # map (acl_packet (cont_flags h)) ds"
    using assms(1) unfolding delivered_one by blast
  have tk: "take 2 d = le16 (of_nat m)" using assms(5) d(1,2) by simp
  have len: "length (d @ concat ds) = m + 4" using assms(6) d(1) by simp
  show ?thesis using fragments_recombine [OF assms(3,4,2) d(2) tk assms(7) len] unfolding d(1,3) by blast
qed

end
