(* ===== verification/HciProps.thy ===== *)
theory HciProps
  imports HciLink
begin

unbundle bit_operations_syntax

text \<open>
  The properties of the ACL path of HCI: packets arrive as they were sent however they are cut and
  whatever happens in between, the controller's buffers are never overrun, received packets are
  handled within bounds, and a lost connection can block the packet buffer for good.
\<close>

subsection \<open>Round trip\<close>

lemma received_link: "acl_handler packet s = Ret (s', p) \<Longrightarrow> same_link s s'"
  by (erule acl_handler_result) (auto intro: same_link_upd)

lemma completed_event_link: "number_of_completed_packets_event packet s = Ret s' \<Longrightarrow> same_link s s'"
  by (auto simp: number_of_completed_packets_event_def dest: completed_link split: if_splits bind_outcome_split_asm)

text \<open>A part of the fragments was sent, and the rest is still in the buffer; or all of them were.\<close>

definition in_transit :: "hci \<Rightarrow> u16 \<Rightarrow> u16 \<Rightarrow> nat \<Rightarrow> bytes list \<Rightarrow> bytes list \<Rightarrow> bool" where
  "in_transit s h f n old frs \<longleftrightarrow> unat (max_acl_data_packet_length h s) = n \<and>
     (if acl_fragmentation_total_size s = 0 then sends s = old @ frs
      else \<exists>j k rest. sends s = old @ take j frs \<and> sending s h f k rest \<and> fragments_from f n k rest = drop j frs)"

lemma in_transit_link: "in_transit s h f n old frs \<Longrightarrow> same_link s s' \<Longrightarrow> in_transit s' h f n old frs"
  using same_link_max [of s s' h] same_link_sending [of s s' h f] sends_eq [of s s']
  by (fastforce simp: in_transit_def same_link_def split: if_splits)

lemma sending_handle: "sending s h f k rest \<Longrightarrow> READ_ACL_CONNECTION_HANDLE (hci_packet_buffer s) = Ret h"
  using le16.read_enc [of "hci_packet_buffer s" 0 0 f] by (simp add: sending_def holds_rest_def READ_ACL_CONNECTION_HANDLE_def)

lemma in_transit_send:
  assumes "sending s h f k rest" "unat (max_acl_data_packet_length h s) = n" "4 \<le> n" "fragments_from f n k rest = drop i frs"
    "sends s = old @ take i frs" "i \<le> length frs"
  obtains s' err where "hci_send_acl_packet_fragments T h s = Ret (s', err)" "in_transit s' h f n old frs"
proof -
  obtain s' err j where s': "1 \<le> j" "hci_send_acl_packet_fragments T h s = Ret (s', err)"
     "sends s' = sends s @ take j (fragments_from f n k rest)" "max_acl_data_packet_length h s' = max_acl_data_packet_length h s"
     "if acl_fragmentation_total_size s' = 0 then j = length (fragments_from f n k rest)
      else hci_packet_buffer_reserved s' = hci_packet_buffer_reserved s \<and>
        (\<exists>k' rest'. sending s' h f k' rest' \<and> fragments_from f n k' rest' = drop j (fragments_from f n k rest))"
    using fragments_send [OF assms(1) assms(2) [symmetric] assms(3), of T] by blast
  have tk: "take i frs @ take j (drop i frs) = take (i + j) frs" by (simp add: take_add)
  have mx: "unat (max_acl_data_packet_length h s') = n" using s'(4) assms(2) by simp
  have "in_transit s' h f n old frs"
  proof (cases "acl_fragmentation_total_size s' = 0")
    case True
    then have "j = length (drop i frs)" using s'(5) assms(4) by simp
    then have "sends s' = old @ frs" using s'(3) assms(4,5) by simp
    with True mx show ?thesis by (simp add: in_transit_def)
  next
    case False
    then obtain k' rest' where r: "sending s' h f k' rest'" "fragments_from f n k' rest' = drop j (drop i frs)"
      using s'(5) assms(4) by auto
    have "sends s' = old @ take (i + j) frs" using s'(3) assms(4,5) tk by simp
    with r False mx show ?thesis
      unfolding in_transit_def
      by (simp, intro exI [of _ "i + j"] conjI exI [of _ k'] exI [of _ rest']) (simp_all add: add.commute)
  qed
  with s'(2) show ?thesis by (rule that)
qed

lemma in_transit_run:
  assumes "in_transit s h f n old frs" "4 \<le> n" "hci_run_acl_fragments T s = Ret (s', b)"
  shows "in_transit s' h f n old frs"
proof (cases "acl_fragmentation_total_size s = 0")
  case True
  then show ?thesis using assms(1,3) by (simp add: hci_run_acl_fragments_def)
next
  case False
  obtain j k rest where m: "unat (max_acl_data_packet_length h s) = n" "sends s = old @ take j frs" "sending s h f k rest"
      "fragments_from f n k rest = drop j frs"
    using assms(1) False by (auto simp: in_transit_def)
  have ne: "fragments_from f n k rest \<noteq> []" using chunks.simps [of n rest] by (auto simp: fragments_from_def split: list.split)
  then have j: "j \<le> length frs" using m(4) by (cases "j \<le> length frs") simp_all
  have pos: "acl_fragmentation_total_size s > 0" using False by (simp add: word_greater_zero_iff)
  obtain c where c: "hci_connection_for_handle s h = Some c" using m(3) by (auto simp: sending_def)
  obtain s1 err where s1: "hci_send_acl_packet_fragments T h s = Ret (s1, err)" "in_transit s1 h f n old frs"
    by (rule in_transit_send [OF m(3,1) assms(2) m(4,2) j])
  show ?thesis
    using assms(1,3) s1 pos c sending_handle [OF m(3)] by (auto simp: hci_run_acl_fragments_def split: if_splits)
qed

lemma in_transit_steps:
  assumes "(hci_step T)\<^sup>*\<^sup>* s s'" "in_transit s h f n old frs" "4 \<le> n"
  shows "in_transit s' h f n old frs"
  using assms(1)
proof (induction rule: rtranclp_induct)
  case (step y z)
  from step.hyps(2) show ?case
  proof cases
    case (run b)
    then show ?thesis using in_transit_run [OF step.IH assms(3)] by simp
  next
    case sent
    then show ?thesis using in_transit_link [OF step.IH same_link_sent] by simp
  next
    case (completed packet)
    then show ?thesis using in_transit_link [OF step.IH completed_event_link] by simp
  next
    case (received packet p)
    then show ?thesis using in_transit_link [OF step.IH received_link] by simp
  qed
qed (rule assms(2))

lemma send_starts:
  assumes "hci_packet_buffer_reserved s" "hci_can_send_prepared_acl_packet_now T s h"
    and "holds_at (hci_packet_buffer s) 0 (acl_packet f payload)" "f AND 0x0FFF = h" "length (hci_packet_buffer s) < 65536"
    and "unat (max_acl_data_packet_length h s) = n" "4 \<le> n" "length payload \<le> 1025"
  obtains s1 err where "hci_send_acl_packet_buffer T (of_nat (4 + length payload)) s = Ret (s1, err)"
    "in_transit s1 h f n (sends s) (fragments_from f n 0 payload)"
proof -
  let ?frs = "fragments_from f n 0 payload"
  let ?s = "s\<lparr>acl_fragmentation_total_size := of_nat (4 + length payload), acl_fragmentation_pos := 4\<rparr>"
  have parts: "holds_at (hci_packet_buffer s) 0 (le16 f)" "holds_at (hci_packet_buffer s) 4 payload"
    using assms(3) by (simp_all add: acl_packet_def holds_at_append)
  have free: "hci_connection_for_handle s h \<noteq> None"
    using assms(2) by (auto simp: hci_can_send_prepared_acl_packet_now_def hci_number_free_acl_slots_for_handle_def split: option.splits)
  have conn: "hci_connection_for_handle ?s h = hci_connection_for_handle s h" by (simp add: hci_connection_for_handle_def)
  have start: "sending ?s h f 0 payload"
    using parts assms(4,5,8) free conn by (simp add: sending_def holds_rest_def unat_of_nat_u16 del: of_nat_add)
  have mx: "unat (max_acl_data_packet_length h ?s) = n" using assms(6) max_len_eq [of ?s h s] conn by simp
  obtain s1 err where s1: "hci_send_acl_packet_fragments T h ?s = Ret (s1, err)" "in_transit s1 h f n (sends s) ?frs"
    by (rule in_transit_send [OF start mx assms(7), of 0 ?frs "sends s"]) (simp_all add: sends_def)
  have handle: "READ_ACL_CONNECTION_HANDLE (hci_packet_buffer s) = Ret h"
    using le16.read_enc [of "hci_packet_buffer s" 0 0 f] parts(1) assms(4) by (simp add: READ_ACL_CONNECTION_HANDLE_def)
  have s2: "hci_send_acl_packet_buffer T (of_nat (4 + length payload)) s = Ret (s1, err)"
    using assms(1,2) free s1(1) by (auto simp: hci_send_acl_packet_buffer_def handle simp del: of_nat_add split: option.split)
  show ?thesis by (rule that [OF s2 s1(2)])
qed

text \<open>
  C31. ACL data arrives: a packet in the packet buffer leaves in fragments of at most the controller's
  size, at once or bit by bit, whatever events, received packets and runs of HCI come in between; when
  all is sent, the controller, which goes by the handle, the flags and the length in the header of
  each fragment, has gathered exactly this packet for the link; and the host at the other end, however
  the packet is cut for it, hands it to L2CAP, complete and once.
\<close>
theorem acl_roundtrip:
  assumes "hci_packet_buffer_reserved s" "hci_can_send_prepared_acl_packet_now T s h"
    and "holds_at (hci_packet_buffer s) 0 (acl_packet f payload)" "f AND 0x0FFF = h" "drop_bit 12 f = 0 \<or> drop_bit 12 f = 2"
    and "length (hci_packet_buffer s) < 65536" "unat (max_acl_data_packet_length h s) = n" "4 \<le> n"
    and "take 2 payload = le16 (of_nat m)" "length payload = m + 4" "m \<le> 1021"
  shows "\<exists>s1 err. hci_send_acl_packet_buffer T (of_nat (4 + length payload)) s = Ret (s1, err) \<and>
    (\<forall>s2. (hci_step T)\<^sup>*\<^sup>* s1 s2 \<longrightarrow>
      (\<exists>new. sends s2 = sends s @ new \<and> (\<forall>p \<in> set new. length p \<le> n + 4) \<and>
        (acl_fragmentation_total_size s2 = 0 \<longrightarrow>
          gather h [] new = [payload] \<and>
          (\<forall>got r h' c. delivered h' (gather h [] new) got \<and> h' < 0x1000 \<and> hci_connection_for_handle r h' = Some c \<and> conn_ok c \<longrightarrow>
             (\<exists>r'. receive_all got r = Ret (r', [acl_packet (first_flags h') payload]))))))"
proof -
  let ?frs = "fragments_from f n 0 payload"
  have len: "length payload \<le> 1025" "length payload < 65532" using assms(10,11) by simp_all
  obtain s1 err where s1: "hci_send_acl_packet_buffer T (of_nat (4 + length payload)) s = Ret (s1, err)"
      "in_transit s1 h f n (sends s) ?frs"
    by (rule send_starts [OF assms(1-4,6-8) len(1)])
  have sizes: "\<forall>p \<in> set ?frs. length p \<le> n + 4" using assms(8) by (intro fragments_sizes) simp
  note whole = gather_fragments [OF assms(5,4) len(2), of n]
  have "\<exists>new. sends s2 = sends s @ new \<and> (\<forall>p \<in> set new. length p \<le> n + 4) \<and>
      (acl_fragmentation_total_size s2 = 0 \<longrightarrow>
        gather h [] new = [payload] \<and>
        (\<forall>got r h' c. delivered h' (gather h [] new) got \<and> h' < 0x1000 \<and> hci_connection_for_handle r h' = Some c \<and> conn_ok c \<longrightarrow>
           (\<exists>r'. receive_all got r = Ret (r', [acl_packet (first_flags h') payload]))))"
    if steps: "(hci_step T)\<^sup>*\<^sup>* s1 s2" for s2
  proof -
    note t = in_transit_steps [OF steps s1(2) assms(8)]
    show ?thesis
    proof (cases "acl_fragmentation_total_size s2 = 0")
      case True
      have new: "sends s2 = sends s @ ?frs" using t True by (simp add: in_transit_def)
      have arrive: "\<exists>r'. receive_all got r = Ret (r', [acl_packet (first_flags h') payload])"
        if "delivered h' (gather h [] ?frs) got \<and> h' < 0x1000 \<and> hci_connection_for_handle r h' = Some c \<and> conn_ok c" for got r h' c
        using that delivered_received [OF _ _ _ _ assms(9-11)] unfolding whole by blast
      show ?thesis by (rule exI [of _ ?frs], intro conjI impI allI) (rule new, rule sizes, rule whole, erule arrive)
    next
      case False
      then obtain j where j: "sends s2 = sends s @ take j ?frs" using t by (auto simp: in_transit_def)
      show ?thesis
        by (rule exI [of _ "take j ?frs"], rule conjI [OF j]) (use sizes False in_set_takeD in \<open>fastforce simp only: simp_thms\<close>)
    qed
  qed
  then show ?thesis using s1(1) by blast
qed

text \<open>Two states to try the properties on: a link with handle 1, and a packet of eight bytes in the packet buffer.\<close>

definition ex_link :: hci_connection where
  "ex_link = create_connection_for_bd_addr_and_type [1, 2, 3, 4, 5, 6] BD_ADDR_TYPE_ACL \<lparr>hc_handle := 1\<rparr>"

definition ex_packet :: bytes where
  "ex_packet = [4, 0, 0x40, 0, 7, 8, 9, 10]"

definition ex_hci :: "byte \<Rightarrow> hci" where
  "ex_hci room =
     \<lparr>connections = [ex_link], hci_packet_buffer = acl_packet 0x2001 ex_packet @ replicate 4 0, hci_packet_buffer_reserved = True,
      acl_fragmentation_pos = 0, acl_fragmentation_total_size = 0, acl_fragmentation_tx_active = False,
      acl_packets_total_num = room, le_acl_packets_total_num = 0, acl_data_packet_length = 4, le_data_packets_length = 0,
      non_flushable = False, hci_clock = 0, hci_trace = []\<rparr>"

definition sync_transport :: hci_transport where
  "sync_transport = \<lparr>can_send_packet_now = None, send_packet = \<lambda>_ _. 0\<rparr>"

lemma ex_link_ok: "conn_ok ex_link" "conn_sound ex_link"
  by (simp_all add: conn_sound_def ex_link_def conn_ok_def create_connection_for_bd_addr_and_type_def HCI_INCOMING_PRE_BUFFER_SIZE_def
      HCI_ACL_BUFFER_SIZE_def)

lemma ex_hci_ready:
  "0 < room \<Longrightarrow> hci_can_send_prepared_acl_packet_now sync_transport (ex_hci room) 1" "in_budget (ex_hci room)" "acl_links (ex_hci room)"
  "holds_at (hci_packet_buffer (ex_hci room)) 0 (acl_packet 0x2001 ex_packet)" "length (hci_packet_buffer (ex_hci room)) = 16"
  "unat (max_acl_data_packet_length 1 (ex_hci room)) = 4"
  using holds_at_intro [of 0 "[]" "acl_packet 0x2001 ex_packet"]
  by (simp_all add: hci_can_send_prepared_acl_packet_now_def hci_transport_can_send_prepared_packet_now_def sync_transport_def
      hci_number_free_acl_slots_for_handle_def hci_connection_for_handle_def hci_number_free_acl_slots_for_connection_type_def
      ex_hci_def ex_link_def create_connection_for_bd_addr_and_type_def in_budget_def outstanding_def classic_sent_def le_sent_def
      weight_def acl_links_def ex_packet_def max_acl_data_packet_length_def hci_is_le_connection_def hci_is_le_connection_type_def
      word_less_def)

lemma acl_roundtrip_witness:
  "\<exists>s1 err. hci_send_acl_packet_buffer sync_transport 12 (ex_hci 1) = Ret (s1, err) \<and>
    (\<forall>s2. (hci_step sync_transport)\<^sup>*\<^sup>* s1 s2 \<longrightarrow>
      (\<exists>new. sends s2 = sends (ex_hci 1) @ new \<and> (\<forall>p \<in> set new. length p \<le> 8) \<and>
        (acl_fragmentation_total_size s2 = 0 \<longrightarrow>
          gather 1 [] new = [ex_packet] \<and>
          (\<forall>got r h' c. delivered h' (gather 1 [] new) got \<and> h' < 0x1000 \<and> hci_connection_for_handle r h' = Some c \<and> conn_ok c \<longrightarrow>
             (\<exists>r'. receive_all got r = Ret (r', [acl_packet (first_flags h') ex_packet]))))))"
  using acl_roundtrip [of "ex_hci 1" sync_transport 1 "0x2001" ex_packet 4 4] ex_hci_ready [of 1]
  by (simp add: ex_hci_def ex_packet_def le16_def be16_def)

subsection \<open>Safety and bounds\<close>

text \<open>
  C32. Received ACL packets of at least six bytes (the header, and room for an L2CAP length), in any
  order and of any content, are handled within the bounds of the packet and of the buffers of the
  connections; and every packet that L2CAP
  gets is at least as long as its L2CAP header says.
\<close>
theorem acl_handler_safe:
  assumes "hci_conns_sound s" "\<forall>p \<in> set ps. 6 \<le> length p \<and> length p < 65536"
  shows "\<exists>s' qs. receive_all ps s = Ret (s', qs) \<and> hci_conns_sound s' \<and>
    (\<forall>q \<in> set qs. \<exists>n. little_endian_read_16 q 0 4 = Ret n \<and> unat n + 8 \<le> length q)"
proof -
  have "returns (receive_all ps s) (\<lambda>(s', qs). hci_conns_sound s' \<and> (\<forall>q \<in> set qs. whole_packet q))"
    by (rule receive_all_sound [OF assms])
  moreover have "\<exists>n. little_endian_read_16 q 0 4 = Ret n \<and> unat n + 8 \<le> length q" if "whole_packet q" for q
    using that by (auto simp: whole_packet_def split: outcome.splits)
  ultimately show ?thesis by (fastforce elim!: returnsE)
qed

lemma acl_handler_safe_witness:
  "\<exists>s' qs. receive_all [acl_packet 0x1001 [1, 2], acl_packet 0x2001 [9, 0, 5], acl_packet 0x3001 [255, 255]] (ex_hci 1) = Ret (s', qs) \<and>
    hci_conns_sound s' \<and> (\<forall>q \<in> set qs. \<exists>n. little_endian_read_16 q 0 4 = Ret n \<and> unat n + 8 \<le> length q)"
proof (rule acl_handler_safe)
  show "hci_conns_sound (ex_hci 1)" using ex_link_ok by (simp add: hci_conns_sound_def ex_hci_def)
qed simp

text \<open>The header is read before the size is looked at.\<close>

lemma short_first_fragment_overreads:
  "acl_handler (acl_packet 0x2001 []) (ex_hci 1) = Undef" "acl_handler [] s = Undef"
  by (simp_all add: acl_handler_def READ_ACL_CONNECTION_HANDLE_def acl_packet_def le16_def be16_def little_endian_read_16_def rd_def
      acl_first_def hci_connection_for_handle_def ex_hci_def ex_link_def)

text \<open>
  C33. The controller's buffers are never overrun: whatever is sent, received and reported, in any order,
  the packets that the controller has not completed fit in its buffers, also when LE shares those of
  the classic connections, and every packet given to the transport is counted.
\<close>
theorem acl_in_budget:
  assumes "hci_uses T s n s'" "in_budget s" "acl_links s"
  shows "int (length (sends s')) - int (length (sends s)) = outstanding s' - outstanding s + n \<and> 0 \<le> n \<and>
    (if le_acl_packets_total_num s' = 0 then classic_sent s' + le_sent s' \<le> uint (acl_packets_total_num s')
     else classic_sent s' \<le> uint (acl_packets_total_num s') \<and> le_sent s' \<le> uint (le_acl_packets_total_num s'))"
  using uses_budget [OF assms] by (simp add: in_budget_def outstanding_def split: if_splits)

lemma acl_in_budget_witness:
  "\<exists>s' err. hci_send_acl_packet_buffer sync_transport 12 (ex_hci 1) = Ret (s', err) \<and>
    int (length (sends s')) = outstanding s' \<and>
    (if le_acl_packets_total_num s' = 0 then classic_sent s' + le_sent s' \<le> uint (acl_packets_total_num s')
     else classic_sent s' \<le> uint (acl_packets_total_num s') \<and> le_sent s' \<le> uint (le_acl_packets_total_num s'))"
proof -
  have bounds: "length (hci_packet_buffer (ex_hci 1)) < 65536" "(0x2001 :: u16) AND 0x0FFF = 1" "hci_packet_buffer_reserved (ex_hci 1)"
    "length ex_packet \<le> 1025" using ex_hci_ready(5) by (simp_all add: ex_hci_def ex_packet_def)
  obtain s' err where "hci_send_acl_packet_buffer sync_transport (of_nat (4 + length ex_packet)) (ex_hci 1) = Ret (s', err)"
    by (rule send_starts [OF bounds(3) ex_hci_ready(1) ex_hci_ready(4) bounds(2,1) ex_hci_ready(6) order.refl bounds(4)]) simp
  then have s': "hci_send_acl_packet_buffer sync_transport 12 (ex_hci 1) = Ret (s', err)" by (simp add: ex_packet_def)
  have "hci_uses sync_transport (ex_hci 1) 0 s'" by (rule uses_send [OF uses_start s'])
  from acl_in_budget [OF this ex_hci_ready(2,3)] s' show ?thesis
    by (auto simp: ex_hci_def sends_def outstanding_def classic_sent_def le_sent_def weight_def ex_link_def create_connection_for_bd_addr_and_type_def)
qed

subsection \<open>A lost connection\<close>

definition hci_event_step :: "hci_transport \<Rightarrow> hci \<Rightarrow> hci \<Rightarrow> bool" where
  "hci_event_step T s s' \<longleftrightarrow> hci_step T s s' \<or> (\<exists>packet. disconnection_complete_event packet s = Ret s')"

definition blocked :: "bytes list \<Rightarrow> hci \<Rightarrow> bool" where
  "blocked sent s \<longleftrightarrow> hci_packet_buffer_reserved s \<and> acl_fragmentation_total_size s = 0 \<and> sends s = sent"

lemma upd_connection_reserved [simp]: "hci_packet_buffer_reserved (upd_connection h f s) = hci_packet_buffer_reserved s"
  by (simp add: upd_connection_def)

lemma completed_loop_reserved:
  "completed_packets_loop n packet offset s = Ret s' \<Longrightarrow> hci_packet_buffer_reserved s' = hci_packet_buffer_reserved s"
  by (induction n arbitrary: offset s) (auto simp: Let_def split: bind_outcome_split_asm)

lemma blocked_step:
  assumes "hci_transport_synchronous T" "blocked sent s" "hci_event_step T s s'"
  shows "blocked sent s'"
proof -
  have keep: "blocked sent s''" if "same_link s s''" "hci_packet_buffer_reserved s'' = hci_packet_buffer_reserved s" for s''
    using that assms(2) by (simp add: blocked_def same_link_def sends_def)
  have total: "acl_fragmentation_total_size s = 0" using assms(2) by (simp add: blocked_def)
  from assms(3) consider "hci_step T s s'" | packet where "disconnection_complete_event packet s = Ret s'"
    by (auto simp: hci_event_step_def)
  then show ?thesis
  proof cases
    case 1
    then show ?thesis
    proof cases
      case (run b)
      then show ?thesis using assms(2) total by (simp add: hci_run_acl_fragments_def)
    next
      case sent
      then show ?thesis using assms(1,2) by (simp add: transport_packet_sent_event_def)
    next
      case (completed packet)
      then have "hci_packet_buffer_reserved s' = hci_packet_buffer_reserved s"
        using completed_loop_reserved by (auto simp: number_of_completed_packets_event_def split: if_splits bind_outcome_split_asm)
      with completed_event_link [OF completed] show ?thesis by (rule keep)
    next
      case (received packet p)
      have "hci_packet_buffer_reserved s' = hci_packet_buffer_reserved s"
        by (rule acl_handler_result [OF received]) simp_all
      with received_link [OF received] show ?thesis by (rule keep)
    qed
  next
    case (2 packet)
    then have "s' = s" using total by (auto simp: disconnection_complete_event_def split: if_splits bind_outcome_split_asm)
    then show ?thesis using assms(2) by simp
  qed
qed

text \<open>
  C34. With a synchronous transport, as on the iPhone, a connection that is lost in the middle of a packet
  blocks the packet buffer: its fragments are dropped, but the buffer stays reserved, so that no later
  event, received packet or run of HCI sends anything, the buffer cannot be reserved again, and no
  connection may send.
\<close>
theorem disconnect_keeps_buffer:
  assumes "hci_transport_synchronous T" "acl_fragmentation_tx_active s" "acl_fragmentation_total_size s > 0"
    and "hci_packet_buffer_reserved s" "READ_ACL_CONNECTION_HANDLE (hci_packet_buffer s) = Ret h"
    and "rd packet 2 = Ret 0" "little_endian_read_16 packet 0 3 = Ret h"
  shows "\<exists>s1. disconnection_complete_event packet s = Ret s1 \<and>
    (\<forall>s2. (hci_event_step T)\<^sup>*\<^sup>* s1 s2 \<longrightarrow> sends s2 = sends s \<and> hci_reserve_packet_buffer s2 = (s2, 0) \<and>
       (\<forall>h'. \<not> hci_can_send_acl_packet_now T s2 h') \<and> \<not> hci_can_send_acl_classic_packet_now T s2)"
proof -
  let ?s1 = "s\<lparr>acl_fragmentation_total_size := 0, acl_fragmentation_pos := 0\<rparr>"
  have start: "disconnection_complete_event packet s = Ret ?s1" using assms by (simp add: disconnection_complete_event_def)
  have "blocked (sends s) ?s1" using assms(4) by (simp add: blocked_def sends_def)
  have "blocked (sends s) s2" if "(hci_event_step T)\<^sup>*\<^sup>* ?s1 s2" for s2
    using that
  proof (induction rule: rtranclp_induct)
    case base
    show ?case by fact
  next
    case (step y z)
    then show ?case using blocked_step [OF assms(1)] by blast
  qed
  then show ?thesis
    using start
    by (auto simp: blocked_def hci_reserve_packet_buffer_def hci_can_send_acl_packet_now_def hci_can_send_acl_classic_packet_now_def)
qed

text \<open>The first of two fragments is on its way, and the controller has no buffer for the second.\<close>

definition ex_cut :: hci where
  "ex_cut = (ex_hci 1)\<lparr>connections := [ex_link\<lparr>num_packets_sent := 1\<rparr>],
     hci_packet_buffer := [1, 0x20, 4, 0, 4, 0, 0x40, 0, 7, 8, 9, 10, 0, 0, 0, 0],
     acl_fragmentation_pos := 8, acl_fragmentation_total_size := 12, acl_fragmentation_tx_active := True, hci_clock := 1,
     hci_trace := [TransportSend [1, 0x20, 4, 0, 4, 0, 0x40, 0]]\<rparr>"

lemma ex_cut_sent: "hci_send_acl_packet_buffer sync_transport 12 (ex_hci 1) = Ret (ex_cut, 0)"
proof -
  have step: "fragments_loop 65536 T h m s = fragments_loop (Suc 65535) T h m s" for T h m s by simp
  show ?thesis
    unfolding hci_send_acl_packet_buffer_def hci_send_acl_packet_fragments_def step fragments_loop.simps(2) by code_simp
qed

lemma disconnect_keeps_buffer_witness:
  "hci_send_acl_packet_buffer sync_transport 12 (ex_hci 1) = Ret (ex_cut, 0) \<and>
    (\<exists>s1. disconnection_complete_event [5, 4, 0, 1, 0, 8] ex_cut = Ret s1 \<and>
      (\<forall>s2. (hci_event_step sync_transport)\<^sup>*\<^sup>* s1 s2 \<longrightarrow> sends s2 = sends ex_cut \<and> hci_reserve_packet_buffer s2 = (s2, 0) \<and>
         (\<forall>h'. \<not> hci_can_send_acl_packet_now sync_transport s2 h') \<and> \<not> hci_can_send_acl_classic_packet_now sync_transport s2))"
proof (rule conjI [OF ex_cut_sent], rule disconnect_keeps_buffer)
  show "READ_ACL_CONNECTION_HANDLE (hci_packet_buffer ex_cut) = Ret 1" by code_simp
qed (simp_all add: hci_transport_synchronous_def sync_transport_def ex_cut_def ex_hci_def rd_def little_endian_read_16_def)

end
