(* ===== verification/L2cap.thy ===== *)
theory L2cap
  imports HciBudget
begin

unbundle bit_operations_syntax

text \<open>
  \<^verbatim>\<open>btstack-rootless/src/l2cap.c\<close> and \<^verbatim>\<open>l2cap_signaling.c\<close>, first part, for classic connections without
  enhanced retransmission mode: the data of L2CAP, the events for the layers above, and everything
  that is sent.  L2CAP works on the model of HCI (HciAcl): its state contains HCI's, and what it sends
  is written to HCI's packet buffer and leaves through \<open>hci_send_acl_packet_buffer\<close>.  Other calls, to
  the packet handlers of applications and to the parts of HCI that are not modelled, are recorded in
  \<open>l2_actions\<close>, in order; what they cause (an event of HCI, a call of an application) is a step of its
  own.

  A channel is known by its \<open>local_cid\<close>, which no other live channel has, in place of its address; a
  channel that was freed is not in the list, and an access to it is undefined.
\<close>

subsection \<open>Types\<close>

datatype L2CAP_STATE = L2CAP_STATE_CLOSED | L2CAP_STATE_WILL_SEND_CREATE_CONNECTION | L2CAP_STATE_WAIT_CONNECTION_COMPLETE |
  L2CAP_STATE_WAIT_REMOTE_SUPPORTED_FEATURES | L2CAP_STATE_WAIT_INCOMING_SECURITY_LEVEL_UPDATE |
  L2CAP_STATE_WAIT_OUTGOING_SECURITY_LEVEL_UPDATE | L2CAP_STATE_WAIT_INCOMING_EXTENDED_FEATURES |
  L2CAP_STATE_WAIT_OUTGOING_EXTENDED_FEATURES | L2CAP_STATE_WAIT_CLIENT_ACCEPT_OR_REJECT | L2CAP_STATE_WAIT_CONNECT_RSP |
  L2CAP_STATE_CONFIG | L2CAP_STATE_OPEN | L2CAP_STATE_WAIT_DISCONNECT | L2CAP_STATE_WILL_SEND_CONNECTION_REQUEST |
  L2CAP_STATE_WILL_SEND_CONNECTION_RESPONSE_INSUFFICIENT_SECURITY | L2CAP_STATE_WILL_SEND_CONNECTION_RESPONSE_DECLINE |
  L2CAP_STATE_WILL_SEND_CONNECTION_RESPONSE_ACCEPT | L2CAP_STATE_WILL_SEND_DISCONNECT_REQUEST |
  L2CAP_STATE_WILL_SEND_DISCONNECT_RESPONSE | L2CAP_STATE_WILL_SEND_LE_CONNECTION_REQUEST |
  L2CAP_STATE_WILL_SEND_LE_CONNECTION_RESPONSE_DECLINE | L2CAP_STATE_WILL_SEND_LE_CONNECTION_RESPONSE_ACCEPT |
  L2CAP_STATE_WAIT_LE_CONNECTION_RESPONSE | L2CAP_STATE_EMIT_OPEN_FAILED_AND_DISCARD | L2CAP_STATE_INVALID

text \<open>The bits of \<open>state_var\<close>; the value of the variable is the set of its bits.\<close>

datatype L2CAP_CHANNEL_STATE_VAR = RCVD_CONF_REQ | RCVD_CONF_RSP | SEND_CONF_REQ | SEND_CONF_RSP | SENT_CONF_REQ | SENT_CONF_RSP |
  SEND_CONF_RSP_MTU | SEND_CONF_RSP_ERTM | SEND_CONF_RSP_CONT | SEND_CONF_RSP_INVALID | SEND_CONF_RSP_REJECTED |
  BASIC_FALLBACK_TRIED | SEND_CMD_REJ_UNKNOWN | SEND_CONN_RESP_PEND | INCOMING

datatype l2cap_channel_type = L2CAP_CHANNEL_TYPE_CLASSIC | L2CAP_CHANNEL_TYPE_CONNECTIONLESS | L2CAP_CHANNEL_TYPE_LE_DATA_CHANNEL |
  L2CAP_CHANNEL_TYPE_LE_FIXED

text \<open>
  \<open>l2cap_channel_t\<close>, and \<open>l2cap_fixed_channel_t\<close>, which has the first four fields only.  A packet
  handler is a number, 0 is NULL; \<open>rtx\<close> is the time a running timer was set to, in ms.
\<close>

record l2cap_channel =
  channel_type :: l2cap_channel_type
  local_cid :: u16
  l2_handler :: nat
  l2_waiting :: bool
  rtx :: "nat option"
  l2_state :: L2CAP_STATE
  l2_var :: "L2CAP_CHANNEL_STATE_VAR set"
  l2_handle :: u16
  l2_address :: bytes
  remote_sig_id :: byte
  local_sig_id :: byte
  remote_cid :: u16
  local_mtu :: u16
  remote_mtu :: u16
  flush_timeout :: u16
  psm :: u16
  required_security_level :: byte
  l2_reason :: byte

record l2cap_service =
  sv_psm :: u16
  sv_mtu :: u16
  sv_handler :: nat
  sv_security_level :: byte

record l2cap_signaling_response =
  rsp_handle :: u16
  rsp_sig_id :: byte
  rsp_code :: byte
  rsp_cid :: u16
  rsp_data :: u16

datatype l2_action = L2Event nat u16 bytes | L2Data nat u16 bytes | L2Ucd nat u16 bytes | CreateConnection bytes |
  Disconnect u16 byte | DisconnectSecurityBlock u16 | RequestSecurityLevel u16 byte | DropLinkKey bytes | Connectable bool

record l2 =
  l2_hci :: hci
  l2cap_channels :: "l2cap_channel list"
  l2cap_services :: "l2cap_service list"
  require_security_level2_for_outgoing_sdp :: bool
  l2cap_outgoing_classic_addr :: bytes
  local_source_cid :: u16
  sig_seq_nr :: byte
  signaling_responses :: "l2cap_signaling_response list"
  l2_actions :: "l2_action list"

text \<open>
  What L2CAP is told from outside: the transport, whether a command may be sent (after so many
  actions), the security level of GAP, which links are being authenticated, and whether there is
  memory for a new channel (by the number of channels) and for a new service.  Memory is zeroed.
\<close>

record l2_env =
  transport :: hci_transport
  can_send_command :: "nat \<Rightarrow> bool"
  gap_security_level :: byte
  authentication_active :: "u16 \<Rightarrow> bool"
  new_channel :: "nat \<Rightarrow> bool"
  new_service :: bool

definition l2_act :: "l2_action \<Rightarrow> l2 \<Rightarrow> l2" where
  "l2_act a s = s\<lparr>l2_actions := l2_actions s @ [a]\<rparr>"

subsection \<open>What L2CAP asks HCI\<close>

definition hci_connection_for_bd_addr_and_type :: "hci \<Rightarrow> bytes \<Rightarrow> bd_addr_type \<Rightarrow> hci_connection option" where
  "hci_connection_for_bd_addr_and_type s addr type =
     find (\<lambda>c. address_type c = type \<and> memcmp addr (hc_address c) = 0) (connections s)"

definition hci_max_acl_data_packet_length :: "hci \<Rightarrow> u16" where
  "hci_max_acl_data_packet_length s = acl_data_packet_length s"

definition hci_non_flushable_packet_boundary_flag_supported :: "hci \<Rightarrow> bool" where
  "hci_non_flushable_packet_boundary_flag_supported s = non_flushable s"

definition BONDING_RECEIVED_REMOTE_FEATURES :: u16 where "BONDING_RECEIVED_REMOTE_FEATURES = 8"
definition HCI_CON_HANDLE_INVALID :: u16 where "HCI_CON_HANDLE_INVALID = 0xFFFF"

definition gap_connection_is_acl :: "hci \<Rightarrow> u16 \<Rightarrow> bool" where
  "gap_connection_is_acl s h = (case hci_connection_for_handle s h of None \<Rightarrow> False | Some c \<Rightarrow> address_type c = BD_ADDR_TYPE_ACL)"

subsection \<open>Channels\<close>

definition l2cap_channel_item_by_cid :: "l2 \<Rightarrow> u16 \<Rightarrow> l2cap_channel option" where
  "l2cap_channel_item_by_cid s cid = find (\<lambda>c. local_cid c = cid) (l2cap_channels s)"

definition l2cap_fixed_channel_for_channel_id :: "l2 \<Rightarrow> u16 \<Rightarrow> l2cap_channel option" where
  "l2cap_fixed_channel_for_channel_id s cid = (if cid \<ge> 0x40 then None else l2cap_channel_item_by_cid s cid)"

definition l2cap_get_channel_for_local_cid :: "l2 \<Rightarrow> u16 \<Rightarrow> l2cap_channel option" where
  "l2cap_get_channel_for_local_cid s cid = (if cid < 0x40 then None else l2cap_channel_item_by_cid s cid)"

definition l2cap_is_dynamic_channel_type :: "l2cap_channel_type \<Rightarrow> bool" where
  "l2cap_is_dynamic_channel_type t =
     (case t of L2CAP_CHANNEL_TYPE_CLASSIC \<Rightarrow> True | L2CAP_CHANNEL_TYPE_LE_DATA_CHANNEL \<Rightarrow> True | _ \<Rightarrow> False)"

text \<open>A channel behind a pointer, an assignment to its fields, its removal from the list with \<open>free\<close>.\<close>

definition l2_chan :: "l2 \<Rightarrow> u16 \<Rightarrow> l2cap_channel outcome" where
  "l2_chan s cid = (case l2cap_channel_item_by_cid s cid of None \<Rightarrow> Undef | Some c \<Rightarrow> Ret c)"

definition l2_upd :: "u16 \<Rightarrow> (l2cap_channel \<Rightarrow> l2cap_channel) \<Rightarrow> l2 \<Rightarrow> l2" where
  "l2_upd cid f s = s\<lparr>l2cap_channels := map (\<lambda>c. if local_cid c = cid then f c else c) (l2cap_channels s)\<rparr>"

definition l2cap_free_channel_entry :: "u16 \<Rightarrow> l2 \<Rightarrow> l2" where
  "l2cap_free_channel_entry cid s = s\<lparr>l2cap_channels := filter (\<lambda>c. local_cid c \<noteq> cid) (l2cap_channels s)\<rparr>"

text \<open>The loop of \<open>l2cap_next_local_cid\<close>, which goes on forever when all numbers are in use.\<close>

fun next_local_cid_loop :: "nat \<Rightarrow> l2 \<Rightarrow> (l2 \<times> u16) outcome" where
  "next_local_cid_loop 0 s = Undef"
| "next_local_cid_loop (Suc n) s =
     (let cid = (if local_source_cid s = 0xFFFF then 0x40 else local_source_cid s + 1);
          s = s\<lparr>local_source_cid := cid\<rparr> in
      if l2cap_get_channel_for_local_cid s cid \<noteq> None then next_local_cid_loop n s else Ret (s, cid))"

definition l2cap_next_local_cid :: "l2 \<Rightarrow> (l2 \<times> u16) outcome" where
  "l2cap_next_local_cid s = next_local_cid_loop 65536 s"

definition l2cap_next_sig_id :: "l2 \<Rightarrow> l2 \<times> byte" where
  "l2cap_next_sig_id s = (let n = (if sig_seq_nr s = 0xFF then 1 else sig_seq_nr s + 1) in (s\<lparr>sig_seq_nr := n\<rparr>, n))"

definition l2cap_stop_rtx :: "l2cap_channel \<Rightarrow> l2cap_channel" where
  "l2cap_stop_rtx c = c\<lparr>rtx := None\<rparr>"

definition l2cap_start_rtx :: "l2cap_channel \<Rightarrow> l2cap_channel" where
  "l2cap_start_rtx c = (l2cap_stop_rtx c)\<lparr>rtx := Some 10000\<rparr>"

definition l2cap_start_ertx :: "l2cap_channel \<Rightarrow> l2cap_channel" where
  "l2cap_start_ertx c = (l2cap_stop_rtx c)\<lparr>rtx := Some 120000\<rparr>"

definition channelStateVarSetFlag :: "L2CAP_CHANNEL_STATE_VAR \<Rightarrow> l2cap_channel \<Rightarrow> l2cap_channel" where
  "channelStateVarSetFlag f c = c\<lparr>l2_var := insert f (l2_var c)\<rparr>"

definition channelStateVarClearFlag :: "L2CAP_CHANNEL_STATE_VAR \<Rightarrow> l2cap_channel \<Rightarrow> l2cap_channel" where
  "channelStateVarClearFlag f c = c\<lparr>l2_var := l2_var c - {f}\<rparr>"

definition l2cap_max_mtu :: u16 where
  "l2cap_max_mtu = 1021 - 4"

definition l2cap_channel_ready_for_open :: "l2cap_channel \<Rightarrow> bool" where
  "l2cap_channel_ready_for_open c =
     (if RCVD_CONF_RSP \<notin> l2_var c then False
      else if SENT_CONF_RSP \<notin> l2_var c then False
      else if l2_state c = L2CAP_STATE_OPEN then False
      else True)"

subsection \<open>Events\<close>

definition l2cap_dispatch_to_channel :: "l2cap_channel \<Rightarrow> bytes \<Rightarrow> l2 \<Rightarrow> l2" where
  "l2cap_dispatch_to_channel c event s = l2_act (L2Event (l2_handler c) (local_cid c) event) s"

definition l2cap_emit_can_send_now :: "nat \<Rightarrow> u16 \<Rightarrow> l2 \<Rightarrow> l2" where
  "l2cap_emit_can_send_now handler cid s = l2_act (L2Event handler cid ([0x78, 2] @ le16 cid)) s"

definition l2cap_emit_simple_event_with_cid :: "byte \<Rightarrow> l2cap_channel \<Rightarrow> l2 \<Rightarrow> l2" where
  "l2cap_emit_simple_event_with_cid code c s = l2cap_dispatch_to_channel c ([code, 2] @ le16 (local_cid c)) s"

text \<open>\<open>reverse_bd_addr\<close> writes an address of six bytes backwards.\<close>

definition l2cap_emit_channel_opened :: "byte \<Rightarrow> l2cap_channel \<Rightarrow> l2 \<Rightarrow> l2" where
  "l2cap_emit_channel_opened status c s =
     l2cap_dispatch_to_channel c
       ([0x70, 24, status] @ rev (l2_address c) @ le16 (l2_handle c) @ le16 (psm c) @ le16 (local_cid c) @ le16 (remote_cid c) @
        le16 (local_mtu c) @ le16 (remote_mtu c) @ le16 (flush_timeout c) @ [if INCOMING \<in> l2_var c then 1 else 0, 0, 0]) s"

definition l2cap_emit_channel_closed :: "l2cap_channel \<Rightarrow> l2 \<Rightarrow> l2" where
  "l2cap_emit_channel_closed c s = l2cap_emit_simple_event_with_cid 0x71 c s"

definition l2cap_emit_incoming_connection :: "l2cap_channel \<Rightarrow> l2 \<Rightarrow> l2" where
  "l2cap_emit_incoming_connection c s =
     l2cap_dispatch_to_channel c
       ([0x72, 14] @ rev (l2_address c) @ le16 (l2_handle c) @ le16 (psm c) @ le16 (local_cid c) @ le16 (remote_cid c)) s"

definition l2cap_handle_channel_open_failed :: "byte \<Rightarrow> l2cap_channel \<Rightarrow> l2 \<Rightarrow> l2" where
  "l2cap_handle_channel_open_failed status c s = l2cap_emit_channel_opened status c s"

definition l2cap_handle_channel_closed :: "l2cap_channel \<Rightarrow> l2 \<Rightarrow> l2" where
  "l2cap_handle_channel_closed c s = l2cap_emit_channel_closed c s"

definition l2cap_finialize_channel_close :: "l2cap_channel \<Rightarrow> l2 \<Rightarrow> l2" where
  "l2cap_finialize_channel_close c s =
     l2cap_free_channel_entry (local_cid c) (l2cap_handle_channel_closed (c\<lparr>l2_state := L2CAP_STATE_CLOSED\<rparr>) s)"

subsection \<open>Signaling commands\<close>

text \<open>\<^verbatim>\<open>L2CAP_SIGNALING_COMMANDS\<close>, as the numbers that are sent.\<close>

definition COMMAND_REJECT :: byte where "COMMAND_REJECT = 1"
definition CONNECTION_REQUEST :: byte where "CONNECTION_REQUEST = 2"
definition CONNECTION_RESPONSE :: byte where "CONNECTION_RESPONSE = 3"
definition CONFIGURE_REQUEST :: byte where "CONFIGURE_REQUEST = 4"
definition CONFIGURE_RESPONSE :: byte where "CONFIGURE_RESPONSE = 5"
definition DISCONNECTION_REQUEST :: byte where "DISCONNECTION_REQUEST = 6"
definition DISCONNECTION_RESPONSE :: byte where "DISCONNECTION_RESPONSE = 7"
definition ECHO_REQUEST :: byte where "ECHO_REQUEST = 8"
definition ECHO_RESPONSE :: byte where "ECHO_RESPONSE = 9"
definition INFORMATION_REQUEST :: byte where "INFORMATION_REQUEST = 10"
definition INFORMATION_RESPONSE :: byte where "INFORMATION_RESPONSE = 11"

lemmas sig_codes = COMMAND_REJECT_def CONNECTION_REQUEST_def CONNECTION_RESPONSE_def CONFIGURE_REQUEST_def CONFIGURE_RESPONSE_def
  DISCONNECTION_REQUEST_def DISCONNECTION_RESPONSE_def ECHO_REQUEST_def ECHO_RESPONSE_def INFORMATION_REQUEST_def
  INFORMATION_RESPONSE_def

text \<open>The variable arguments: a number, or a length with the data it is the length of.\<close>

datatype sig_arg = Num u16 | Data bytes

definition l2cap_signaling_commands_format :: "string list" where
  "l2cap_signaling_commands_format =
     [''2D'', ''22'', ''2222'', ''22D'', ''222D'', ''22'', ''22'', ''D'', ''D'', ''2'', ''22D'']"

text \<open>The loop over the format; arguments of the wrong kind are undefined, as for \<open>va_arg\<close>.\<close>

fun signaling_fields :: "string \<Rightarrow> sig_arg list \<Rightarrow> u16 \<Rightarrow> bytes \<Rightarrow> (bytes \<times> u16) outcome" where
  "signaling_fields [] args pos buf = Ret (buf, pos)"
| "signaling_fields (f # fs) args pos buf =
     (if f = CHR ''1'' \<or> f = CHR ''2'' then
        (case args of
          Num w # args \<Rightarrow>
            bind_outcome (wr buf (uint pos) (ucast (w AND 0xFF))) (\<lambda>buf.
            let pos = pos + 1 in
            if f = CHR ''2'' then
              bind_outcome (wr buf (uint pos) (ucast (drop_bit 8 w))) (\<lambda>buf. signaling_fields fs args (pos + 1) buf)
            else signaling_fields fs args pos buf)
        | _ \<Rightarrow> Undef)
      else if f = CHR ''D'' then
        (case args of
          Data bs # args \<Rightarrow>
            bind_outcome (wr_block buf (uint pos) bs) (\<lambda>buf. signaling_fields fs args (pos + of_nat (length bs)) buf)
        | _ \<Rightarrow> Undef)
      else signaling_fields fs args pos buf)"

definition l2cap_create_signaling_internal ::
  "bytes \<Rightarrow> u16 \<Rightarrow> bool \<Rightarrow> u16 \<Rightarrow> byte \<Rightarrow> byte \<Rightarrow> sig_arg list \<Rightarrow> (bytes \<times> u16) outcome" where
  "l2cap_create_signaling_internal buf handle flushable cid cmd identifier args =
     (if cmd = 0 \<or> unat cmd > length l2cap_signaling_commands_format then Ret (buf, 0)
      else
        bind_outcome (little_endian_store_16 buf 0 0 (handle OR (if flushable then push_bit 12 2 else 0))) (\<lambda>buf.
        bind_outcome (little_endian_store_16 buf 0 6 cid) (\<lambda>buf.
        bind_outcome (wr buf 8 cmd) (\<lambda>buf.
        bind_outcome (wr buf 9 identifier) (\<lambda>buf.
        bind_outcome (signaling_fields (l2cap_signaling_commands_format ! (unat cmd - 1)) args 12 buf) (\<lambda>(buf, pos).
        bind_outcome (little_endian_store_16 buf 0 2 (pos - 4)) (\<lambda>buf.
        bind_outcome (little_endian_store_16 buf 0 4 (pos - 6 - 2)) (\<lambda>buf.
        bind_outcome (little_endian_store_16 buf 0 10 (pos - 12)) (\<lambda>buf.
        Ret (buf, pos))))))))))"

definition l2cap_create_signaling_classic :: "hci \<Rightarrow> u16 \<Rightarrow> byte \<Rightarrow> byte \<Rightarrow> sig_arg list \<Rightarrow> (bytes \<times> u16) outcome" where
  "l2cap_create_signaling_classic h handle cmd identifier args =
     l2cap_create_signaling_internal (hci_packet_buffer h) handle (\<not> hci_non_flushable_packet_boundary_flag_supported h) 1 cmd identifier args"

definition l2cap_send_signaling_packet :: "l2_env \<Rightarrow> u16 \<Rightarrow> byte \<Rightarrow> byte \<Rightarrow> sig_arg list \<Rightarrow> l2 \<Rightarrow> (l2 \<times> int) outcome" where
  "l2cap_send_signaling_packet E handle cmd identifier args s =
     (if \<not> hci_can_send_acl_packet_now (transport E) (l2_hci s) handle then Ret (s, 0x57)
      else
        let h = fst (hci_reserve_packet_buffer (l2_hci s)) in
        bind_outcome (l2cap_create_signaling_classic h handle cmd identifier args) (\<lambda>(buf, len).
        bind_outcome (hci_send_acl_packet_buffer (transport E) len (h\<lparr>hci_packet_buffer := buf\<rparr>)) (\<lambda>(h, err).
        Ret (s\<lparr>l2_hci := h\<rparr>, err))))"

text \<open>A signaling packet whose result is not looked at.\<close>

definition l2_signal :: "l2_env \<Rightarrow> u16 \<Rightarrow> byte \<Rightarrow> byte \<Rightarrow> sig_arg list \<Rightarrow> l2 \<Rightarrow> l2 outcome" where
  "l2_signal E handle cmd identifier args s =
     bind_outcome (l2cap_send_signaling_packet E handle cmd identifier args s) (\<lambda>(s, err). Ret s)"

subsection \<open>Data\<close>

definition l2cap_setup_header :: "bytes \<Rightarrow> u16 \<Rightarrow> u16 \<Rightarrow> u16 \<Rightarrow> u16 \<Rightarrow> bytes outcome" where
  "l2cap_setup_header buf handle packet_boundary cid len =
     bind_outcome (little_endian_store_16 buf 0 0 (handle OR push_bit 12 packet_boundary)) (\<lambda>buf.
     bind_outcome (little_endian_store_16 buf 0 2 (len + 4)) (\<lambda>buf.
     bind_outcome (little_endian_store_16 buf 0 4 len) (\<lambda>buf.
     little_endian_store_16 buf 0 6 cid)))"

definition l2cap_send_prepared_connectionless :: "l2_env \<Rightarrow> u16 \<Rightarrow> u16 \<Rightarrow> u16 \<Rightarrow> l2 \<Rightarrow> (l2 \<times> int) outcome" where
  "l2cap_send_prepared_connectionless E handle cid len s =
     (if \<not> hci_is_packet_buffer_reserved (l2_hci s) then Ret (s, 0x57)
      else if \<not> hci_can_send_prepared_acl_packet_now (transport E) (l2_hci s) handle then Ret (s, 0x57)
      else
        bind_outcome (l2cap_setup_header (hci_packet_buffer (l2_hci s)) handle 0 cid len) (\<lambda>buf.
        bind_outcome (hci_send_acl_packet_buffer (transport E) (len + 8) ((l2_hci s)\<lparr>hci_packet_buffer := buf\<rparr>)) (\<lambda>(h, err).
        Ret (s\<lparr>l2_hci := h\<rparr>, err))))"

definition l2cap_send_connectionless :: "l2_env \<Rightarrow> u16 \<Rightarrow> u16 \<Rightarrow> bytes \<Rightarrow> l2 \<Rightarrow> (l2 \<times> int) outcome" where
  "l2cap_send_connectionless E handle cid data s =
     (if \<not> hci_can_send_acl_packet_now (transport E) (l2_hci s) handle then Ret (s, 0x57)
      else
        let h = fst (hci_reserve_packet_buffer (l2_hci s)) in
        bind_outcome (wr_block (hci_packet_buffer h) 8 data) (\<lambda>buf.
        l2cap_send_prepared_connectionless E handle cid (of_nat (length data)) (s\<lparr>l2_hci := h\<lparr>hci_packet_buffer := buf\<rparr>\<rparr>)))"

definition l2cap_send_prepared :: "l2_env \<Rightarrow> u16 \<Rightarrow> u16 \<Rightarrow> l2 \<Rightarrow> (l2 \<times> int) outcome" where
  "l2cap_send_prepared E cid len s =
     (if \<not> hci_is_packet_buffer_reserved (l2_hci s) then Ret (s, 0x57)
      else case l2cap_get_channel_for_local_cid s cid of None \<Rightarrow> Ret (s, - 1)
      | Some c \<Rightarrow>
          if \<not> hci_can_send_prepared_acl_packet_now (transport E) (l2_hci s) (l2_handle c) then Ret (s, 0x57)
          else
            bind_outcome
              (l2cap_setup_header (hci_packet_buffer (l2_hci s)) (l2_handle c)
                 (if hci_non_flushable_packet_boundary_flag_supported (l2_hci s) then 0 else 2) (remote_cid c) len) (\<lambda>buf.
            bind_outcome (hci_send_acl_packet_buffer (transport E) (len + 8) ((l2_hci s)\<lparr>hci_packet_buffer := buf\<rparr>)) (\<lambda>(h, err).
            Ret (s\<lparr>l2_hci := h\<rparr>, err))))"

definition l2cap_send :: "l2_env \<Rightarrow> u16 \<Rightarrow> bytes \<Rightarrow> l2 \<Rightarrow> (l2 \<times> int) outcome" where
  "l2cap_send E cid data s =
     (case l2cap_get_channel_for_local_cid s cid of None \<Rightarrow> Ret (s, - 1)
      | Some c \<Rightarrow>
          if length data > unat (remote_mtu c) then Ret (s, 0x6C)
          else if \<not> hci_can_send_acl_packet_now (transport E) (l2_hci s) (l2_handle c) then Ret (s, 0x57)
          else
            let h = fst (hci_reserve_packet_buffer (l2_hci s)) in
            bind_outcome (wr_block (hci_packet_buffer h) 8 data) (\<lambda>buf.
            l2cap_send_prepared E cid (of_nat (length data)) (s\<lparr>l2_hci := h\<lparr>hci_packet_buffer := buf\<rparr>\<rparr>)))"

definition l2cap_send_echo_request :: "l2_env \<Rightarrow> u16 \<Rightarrow> bytes \<Rightarrow> l2 \<Rightarrow> (l2 \<times> int) outcome" where
  "l2cap_send_echo_request E handle data s = l2cap_send_signaling_packet E handle ECHO_REQUEST 0x77 [Data data] s"

end
