(* ===== verification/L2capRun.thy ===== *)
theory L2capRun
  imports L2cap
begin

unbundle bit_operations_syntax

text \<open>
  \<^verbatim>\<open>l2cap.c\<close>, second part: what L2CAP does when it can send.
\<close>

subsection \<open>The run loop\<close>

definition l2cap_setup_options_mtu :: "u16 \<Rightarrow> bytes" where
  "l2cap_setup_options_mtu mtu = [1, 2] @ le16 mtu"

definition l2cap_setup_options_request :: "l2cap_channel \<Rightarrow> bytes" where
  "l2cap_setup_options_request c = l2cap_setup_options_mtu (local_mtu c)"

definition l2cap_setup_options_mtu_response :: "l2cap_channel \<Rightarrow> bytes" where
  "l2cap_setup_options_mtu_response c = l2cap_setup_options_mtu (min (local_mtu c) (remote_mtu c))"

definition l2cap_extended_features_mask :: u32 where
  "l2cap_extended_features_mask = 0x280"

text \<open>An assignment to the channel, the channel as it is now, and a command to its peer.\<close>

definition l2_set :: "u16 \<Rightarrow> (l2cap_channel \<Rightarrow> l2cap_channel) \<Rightarrow> l2 \<Rightarrow> (l2 \<times> l2cap_channel) outcome" where
  "l2_set cid f s = (let s = l2_upd cid f s in bind_outcome (l2_chan s cid) (\<lambda>c. Ret (s, c)))"

text \<open>\<open>L2CAP_STATE_CONFIG\<close>: a response to the peer's configuration, else the own request; the channel may open.\<close>

definition run_config_response :: "l2_env \<Rightarrow> u16 \<Rightarrow> l2 \<Rightarrow> l2 outcome" where
  "run_config_response E cid s =
     bind_outcome (l2_set cid (channelStateVarClearFlag SEND_CONF_RSP) s) (\<lambda>(s, c).
     let flags = (if SEND_CONF_RSP_CONT \<in> l2_var c then 1 else 0) in
     bind_outcome (l2_set cid (if SEND_CONF_RSP_CONT \<in> l2_var c then \<lambda>c. c else channelStateVarSetFlag SENT_CONF_RSP) s) (\<lambda>(s, c).
     bind_outcome
       (if SEND_CONF_RSP_INVALID \<in> l2_var c then
          bind_outcome (l2_set cid (channelStateVarClearFlag SENT_CONF_RSP) s) (\<lambda>(s, c).
          l2_signal E (l2_handle c) CONFIGURE_RESPONSE (remote_sig_id c) [Num (remote_cid c), Num flags, Num 3, Data []] s)
        else if SEND_CONF_RSP_MTU \<in> l2_var c then
          bind_outcome (l2_set cid (channelStateVarClearFlag SEND_CONF_RSP_MTU) s) (\<lambda>(s, c).
          l2_signal E (l2_handle c) CONFIGURE_RESPONSE (remote_sig_id c)
            [Num (remote_cid c), Num flags, Num 0, Data (l2cap_setup_options_mtu_response c)] s)
        else
          l2_signal E (l2_handle c) CONFIGURE_RESPONSE (remote_sig_id c) [Num (remote_cid c), Num flags, Num 0, Data []] s) (\<lambda>s.
     Ret (l2_upd cid (channelStateVarClearFlag SEND_CONF_RSP_CONT) s))))"

definition run_config_request :: "l2_env \<Rightarrow> u16 \<Rightarrow> l2 \<Rightarrow> l2 outcome" where
  "run_config_request E cid s =
     (let s = l2_upd cid (channelStateVarSetFlag SENT_CONF_REQ \<circ> channelStateVarClearFlag SEND_CONF_REQ) s in
      case l2cap_next_sig_id s of (s, n) \<Rightarrow>
      bind_outcome (l2_set cid (\<lambda>c. c\<lparr>local_sig_id := n\<rparr>) s) (\<lambda>(s, c).
      bind_outcome (l2_signal E (l2_handle c) CONFIGURE_REQUEST (local_sig_id c)
          [Num (remote_cid c), Num 0, Data (l2cap_setup_options_request c)] s) (\<lambda>s.
      Ret (l2_upd cid l2cap_start_rtx s))))"

definition open_if_ready :: "u16 \<Rightarrow> l2 \<Rightarrow> l2 outcome" where
  "open_if_ready cid s =
     bind_outcome (l2_chan s cid) (\<lambda>c.
     if l2cap_channel_ready_for_open c then
       bind_outcome (l2_set cid (\<lambda>c. c\<lparr>l2_state := L2CAP_STATE_OPEN\<rparr>) s) (\<lambda>(s, c). Ret (l2cap_emit_channel_opened 0 c s))
     else Ret s)"

definition run_config :: "l2_env \<Rightarrow> u16 \<Rightarrow> l2 \<Rightarrow> l2 outcome" where
  "run_config E cid s =
     bind_outcome (l2_chan s cid) (\<lambda>c.
     bind_outcome
       (if SEND_CONF_RSP \<in> l2_var c then run_config_response E cid s
        else if SEND_CONF_REQ \<in> l2_var c then run_config_request E cid s
        else Ret s) (\<lambda>s.
     open_if_ready cid s))"

text \<open>The other states in which something is sent, given that it can be.\<close>

definition run_pending_response :: "l2_env \<Rightarrow> u16 \<Rightarrow> l2 \<Rightarrow> l2 outcome" where
  "run_pending_response E cid s =
     bind_outcome (l2_chan s cid) (\<lambda>c.
     if SEND_CONN_RESP_PEND \<in> l2_var c then
       bind_outcome (l2_set cid (channelStateVarClearFlag SEND_CONN_RESP_PEND) s) (\<lambda>(s, c).
       l2_signal E (l2_handle c) CONNECTION_RESPONSE (remote_sig_id c) [Num (local_cid c), Num (remote_cid c), Num 1, Num 0] s)
     else Ret s)"

definition run_create_connection :: "l2_env \<Rightarrow> u16 \<Rightarrow> l2 \<Rightarrow> l2 outcome" where
  "run_create_connection E cid s =
     bind_outcome (l2_set cid (\<lambda>c. c\<lparr>l2_state := L2CAP_STATE_WAIT_CONNECTION_COMPLETE\<rparr>) s) (\<lambda>(s, c).
     Ret (l2_act (CreateConnection (l2_address c)) (s\<lparr>l2cap_outgoing_classic_addr := l2_address c\<rparr>)))"

definition run_decline :: "l2_env \<Rightarrow> u16 \<Rightarrow> l2 \<Rightarrow> l2 outcome" where
  "run_decline E cid s =
     bind_outcome (l2_set cid (\<lambda>c. c\<lparr>l2_state := L2CAP_STATE_INVALID\<rparr>) s) (\<lambda>(s, c).
     bind_outcome (l2_signal E (l2_handle c) CONNECTION_RESPONSE (remote_sig_id c)
         [Num (local_cid c), Num (remote_cid c), Num (ucast (l2_reason c)), Num 0] s) (\<lambda>s.
     Ret (l2cap_free_channel_entry cid s)))"

definition run_accept :: "l2_env \<Rightarrow> u16 \<Rightarrow> l2 \<Rightarrow> l2 outcome" where
  "run_accept E cid s =
     bind_outcome (l2_set cid (channelStateVarSetFlag SEND_CONF_REQ \<circ> (\<lambda>c. c\<lparr>l2_state := L2CAP_STATE_CONFIG\<rparr>)) s) (\<lambda>(s, c).
     l2_signal E (l2_handle c) CONNECTION_RESPONSE (remote_sig_id c) [Num (local_cid c), Num (remote_cid c), Num 0, Num 0] s)"

definition run_connection_request :: "l2_env \<Rightarrow> u16 \<Rightarrow> l2 \<Rightarrow> l2 outcome" where
  "run_connection_request E cid s =
     (case l2cap_next_sig_id s of (s, n) \<Rightarrow>
      bind_outcome (l2_set cid (\<lambda>c. c\<lparr>local_sig_id := n, l2_state := L2CAP_STATE_WAIT_CONNECT_RSP\<rparr>) s) (\<lambda>(s, c).
      bind_outcome (l2_signal E (l2_handle c) CONNECTION_REQUEST (local_sig_id c) [Num (psm c), Num (local_cid c)] s) (\<lambda>s.
      Ret (l2_upd cid l2cap_start_rtx s))))"

definition run_disconnect_response :: "l2_env \<Rightarrow> u16 \<Rightarrow> l2 \<Rightarrow> l2 outcome" where
  "run_disconnect_response E cid s =
     bind_outcome (l2_set cid (\<lambda>c. c\<lparr>l2_state := L2CAP_STATE_INVALID\<rparr>) s) (\<lambda>(s, c).
     bind_outcome (l2_signal E (l2_handle c) DISCONNECTION_RESPONSE (remote_sig_id c) [Num (local_cid c), Num (remote_cid c)] s) (\<lambda>s.
     bind_outcome (l2_chan s cid) (\<lambda>c. Ret (l2cap_finialize_channel_close c s))))"

definition run_disconnect_request :: "l2_env \<Rightarrow> u16 \<Rightarrow> l2 \<Rightarrow> l2 outcome" where
  "run_disconnect_request E cid s =
     (case l2cap_next_sig_id s of (s, n) \<Rightarrow>
      bind_outcome (l2_set cid (\<lambda>c. c\<lparr>local_sig_id := n, l2_state := L2CAP_STATE_WAIT_DISCONNECT\<rparr>) s) (\<lambda>(s, c).
      l2_signal E (l2_handle c) DISCONNECTION_REQUEST (local_sig_id c) [Num (remote_cid c), Num (local_cid c)] s))"

text \<open>One channel.  The source returns whether the channel is gone; its caller does not use it.\<close>

definition l2cap_run_for_classic_channel :: "l2_env \<Rightarrow> u16 \<Rightarrow> l2 \<Rightarrow> l2 outcome" where
  "l2cap_run_for_classic_channel E cid s =
     bind_outcome (l2_chan s cid) (\<lambda>c.
     if l2_state c = L2CAP_STATE_WILL_SEND_CREATE_CONNECTION then
       if can_send_command E (length (l2_actions s)) then run_create_connection E cid s else Ret s
     else if l2_state c \<in> {L2CAP_STATE_WAIT_INCOMING_SECURITY_LEVEL_UPDATE, L2CAP_STATE_WAIT_CLIENT_ACCEPT_OR_REJECT,
         L2CAP_STATE_WILL_SEND_CONNECTION_RESPONSE_DECLINE, L2CAP_STATE_WILL_SEND_CONNECTION_RESPONSE_ACCEPT,
         L2CAP_STATE_WILL_SEND_CONNECTION_REQUEST, L2CAP_STATE_CONFIG, L2CAP_STATE_WILL_SEND_DISCONNECT_RESPONSE,
         L2CAP_STATE_WILL_SEND_DISCONNECT_REQUEST} then
       if \<not> hci_can_send_acl_packet_now (transport E) (l2_hci s) (l2_handle c) then Ret s
       else if l2_state c = L2CAP_STATE_WILL_SEND_CONNECTION_RESPONSE_DECLINE then run_decline E cid s
       else if l2_state c = L2CAP_STATE_WILL_SEND_CONNECTION_RESPONSE_ACCEPT then run_accept E cid s
       else if l2_state c = L2CAP_STATE_WILL_SEND_CONNECTION_REQUEST then run_connection_request E cid s
       else if l2_state c = L2CAP_STATE_CONFIG then run_config E cid s
       else if l2_state c = L2CAP_STATE_WILL_SEND_DISCONNECT_RESPONSE then run_disconnect_response E cid s
       else if l2_state c = L2CAP_STATE_WILL_SEND_DISCONNECT_REQUEST then run_disconnect_request E cid s
       else run_pending_response E cid s
     else Ret s)"

text \<open>The answer to a request that belongs to no channel.\<close>

definition signaling_response :: "l2_env \<Rightarrow> l2cap_signaling_response \<Rightarrow> l2 \<Rightarrow> l2 outcome" where
  "signaling_response E r s =
     (if rsp_code r = CONNECTION_REQUEST then
        bind_outcome (l2_signal E (rsp_handle r) CONNECTION_RESPONSE (rsp_sig_id r) [Num (rsp_cid r), Num 0, Num (rsp_data r), Num 0] s) (\<lambda>s.
        Ret (if rsp_data r = 3 then l2_act (DisconnectSecurityBlock (rsp_handle r)) s else s))
      else if rsp_code r = ECHO_REQUEST then l2_signal E (rsp_handle r) ECHO_RESPONSE (rsp_sig_id r) [Data []] s
      else if rsp_code r = INFORMATION_REQUEST then
        l2_signal E (rsp_handle r) INFORMATION_RESPONSE (rsp_sig_id r)
          (if rsp_data r = 1 then [Num (rsp_data r), Num 0, Data (le16 (hci_max_acl_data_packet_length (l2_hci s)))]
           else if rsp_data r = 2 then [Num (rsp_data r), Num 0, Data (le32 l2cap_extended_features_mask)]
           else if rsp_data r = 3 then [Num (rsp_data r), Num 0, Data [6, 0, 0, 0, 0, 0, 0, 0]]
           else [Num (rsp_data r), Num 1, Data []]) s
      else if rsp_code r = COMMAND_REJECT then l2_signal E (rsp_handle r) COMMAND_REJECT (rsp_sig_id r) [Num (rsp_data r), Data []] s
      else Ret s)"

fun run_responses :: "nat \<Rightarrow> l2_env \<Rightarrow> l2 \<Rightarrow> l2 outcome" where
  "run_responses 0 E s = Ret s"
| "run_responses (Suc n) E s =
     (case signaling_responses s of [] \<Rightarrow> Ret s
      | r # rs \<Rightarrow>
          if \<not> hci_can_send_acl_packet_now (transport E) (l2_hci s) (rsp_handle r) then Ret s
          else bind_outcome (signaling_response E r (s\<lparr>signaling_responses := rs\<rparr>)) (run_responses n E))"

definition l2cap_run_signaling_response :: "l2_env \<Rightarrow> l2 \<Rightarrow> l2 outcome" where
  "l2cap_run_signaling_response E s = run_responses (length (signaling_responses s)) E s"

text \<open>The loop over the channels; the iterator has gone on before a channel is freed.\<close>

fun run_channels :: "l2_env \<Rightarrow> u16 list \<Rightarrow> l2 \<Rightarrow> l2 outcome" where
  "run_channels E [] s = Ret s"
| "run_channels E (cid # cids) s =
     bind_outcome (l2_chan s cid) (\<lambda>c.
     if channel_type c \<noteq> L2CAP_CHANNEL_TYPE_CLASSIC then run_channels E cids s
     else bind_outcome (l2cap_run_for_classic_channel E cid s) (run_channels E cids))"

definition l2cap_run :: "l2_env \<Rightarrow> l2 \<Rightarrow> l2 outcome" where
  "l2cap_run E s =
     bind_outcome (l2cap_run_signaling_response E s) (\<lambda>s. run_channels E (map local_cid (l2cap_channels s)) s)"

text \<open>Who waits for room in the controller is told, in turn, while there is room.\<close>

definition l2cap_channel_ready_to_send :: "l2_env \<Rightarrow> l2 \<Rightarrow> l2cap_channel \<Rightarrow> bool" where
  "l2cap_channel_ready_to_send E s c =
     (case channel_type c of
        L2CAP_CHANNEL_TYPE_CLASSIC \<Rightarrow> l2_waiting c \<and> hci_can_send_acl_classic_packet_now (transport E) (l2_hci s)
      | L2CAP_CHANNEL_TYPE_CONNECTIONLESS \<Rightarrow> l2_waiting c \<and> hci_can_send_acl_classic_packet_now (transport E) (l2_hci s)
      | _ \<Rightarrow> False)"

definition l2cap_channel_trigger_send :: "l2cap_channel \<Rightarrow> l2 \<Rightarrow> l2" where
  "l2cap_channel_trigger_send c s =
     (if channel_type c \<in> {L2CAP_CHANNEL_TYPE_CLASSIC, L2CAP_CHANNEL_TYPE_CONNECTIONLESS} then
        l2cap_emit_can_send_now (l2_handler c) (local_cid c) (l2_upd (local_cid c) (\<lambda>c. c\<lparr>l2_waiting := False\<rparr>) s)
      else s)"

fun notify_channel_loop :: "nat \<Rightarrow> l2_env \<Rightarrow> l2 \<Rightarrow> l2 outcome" where
  "notify_channel_loop 0 E s = Undef"
| "notify_channel_loop (Suc n) E s =
     (case find (l2cap_channel_ready_to_send E s) (l2cap_channels s) of
        None \<Rightarrow> Ret s
      | Some c \<Rightarrow>
          let s = s\<lparr>l2cap_channels := filter (\<lambda>d. local_cid d \<noteq> local_cid c) (l2cap_channels s) @ [c]\<rparr> in
          notify_channel_loop n E (l2cap_channel_trigger_send c s))"

definition l2cap_notify_channel_can_send :: "l2_env \<Rightarrow> l2 \<Rightarrow> l2 outcome" where
  "l2cap_notify_channel_can_send E s = notify_channel_loop (Suc (length (l2cap_channels s))) E s"

definition l2cap_rtx_timeout :: "u16 \<Rightarrow> l2 \<Rightarrow> l2" where
  "l2cap_rtx_timeout cid s =
     (case find (\<lambda>c. l2cap_is_dynamic_channel_type (channel_type c) \<and> local_cid c = cid) (l2cap_channels s) of None \<Rightarrow> s
      | Some c \<Rightarrow> l2cap_free_channel_entry cid (l2cap_handle_channel_open_failed 0x69 c s))"

end
