(* ===== verification/L2capSignal.thy ===== *)
theory L2capSignal
  imports L2capRun
begin

unbundle bit_operations_syntax

text \<open>
  \<^verbatim>\<open>l2cap.c\<close>, third part: connections that come and go, and the signaling commands of the peer.
\<close>

subsection \<open>Connections\<close>

definition l2cap_security_level_0_allowed_for_PSM :: "u16 \<Rightarrow> l2 \<Rightarrow> bool" where
  "l2cap_security_level_0_allowed_for_PSM p s \<longleftrightarrow> p = 1 \<and> \<not> require_security_level2_for_outgoing_sdp s"

definition l2cap_handle_connection_complete :: "u16 \<Rightarrow> l2cap_channel \<Rightarrow> l2cap_channel" where
  "l2cap_handle_connection_complete handle c =
     (if l2_state c = L2CAP_STATE_WAIT_CONNECTION_COMPLETE \<or> l2_state c = L2CAP_STATE_WILL_SEND_CREATE_CONNECTION then
        c\<lparr>l2_handle := handle, l2_state := L2CAP_STATE_WAIT_REMOTE_SUPPORTED_FEATURES\<rparr>
      else c)"

definition l2cap_ready_to_connect :: "l2cap_channel \<Rightarrow> l2cap_channel" where
  "l2cap_ready_to_connect c = c\<lparr>l2_state := L2CAP_STATE_WILL_SEND_CONNECTION_REQUEST\<rparr>"

definition l2cap_handle_remote_supported_features_received :: "l2_env \<Rightarrow> u16 \<Rightarrow> l2 \<Rightarrow> l2 outcome" where
  "l2cap_handle_remote_supported_features_received E cid s =
     bind_outcome (l2_chan s cid) (\<lambda>c.
     if l2_state c \<noteq> L2CAP_STATE_WAIT_REMOTE_SUPPORTED_FEATURES then Ret s
     else if \<not> l2cap_security_level_0_allowed_for_PSM (psm c) s then
       Ret (l2_act (RequestSecurityLevel (l2_handle c) (gap_security_level E))
         (l2_upd cid (\<lambda>c. c\<lparr>l2_state := L2CAP_STATE_WAIT_OUTGOING_SECURITY_LEVEL_UPDATE,
            required_security_level := gap_security_level E\<rparr>) s))
     else Ret (l2_upd cid l2cap_ready_to_connect s))"

text \<open>The memory of a new channel is zeroed, so what is not set here is 0; the state is set at the end.\<close>

definition l2cap_create_channel_entry ::
  "l2_env \<Rightarrow> nat \<Rightarrow> l2cap_channel_type \<Rightarrow> bytes \<Rightarrow> u16 \<Rightarrow> u16 \<Rightarrow> byte \<Rightarrow> l2 \<Rightarrow> (l2 \<times> l2cap_channel option) outcome" where
  "l2cap_create_channel_entry E handler type address p mtu level s =
     (if \<not> new_channel E (length (l2cap_channels s)) then Ret (s, None)
      else bind_outcome (l2cap_next_local_cid s) (\<lambda>(s, cid).
        Ret (s, Some
          \<lparr>channel_type = type, local_cid = cid, l2_handler = handler, l2_waiting = False, rtx = None,
           l2_state = L2CAP_STATE_WILL_SEND_CREATE_CONNECTION, l2_var = {}, l2_handle = HCI_CON_HANDLE_INVALID,
           l2_address = address, remote_sig_id = 0, local_sig_id = 0, remote_cid = 0, local_mtu = mtu, remote_mtu = 672,
           flush_timeout = 0, psm = p, required_security_level = level, l2_reason = 0\<rparr>)))"

definition add_channel :: "l2cap_channel \<Rightarrow> l2 \<Rightarrow> l2" where
  "add_channel c s = s\<lparr>l2cap_channels := l2cap_channels s @ [c]\<rparr>"

definition l2cap_create_channel :: "l2_env \<Rightarrow> nat \<Rightarrow> bytes \<Rightarrow> u16 \<Rightarrow> u16 \<Rightarrow> l2 \<Rightarrow> (l2 \<times> byte \<times> u16 option) outcome" where
  "l2cap_create_channel E handler address p mtu s =
     bind_outcome (l2cap_create_channel_entry E handler L2CAP_CHANNEL_TYPE_CLASSIC address p (min mtu l2cap_max_mtu) 0 s) (\<lambda>(s, r).
     case r of None \<Rightarrow> Ret (s, 0x56, None)
     | Some c \<Rightarrow>
         let s = add_channel c s in
         bind_outcome
           (case hci_connection_for_bd_addr_and_type (l2_hci s) address BD_ADDR_TYPE_ACL of
              None \<Rightarrow> Ret s
            | Some conn \<Rightarrow>
                if hc_handle conn \<noteq> HCI_CON_HANDLE_INVALID then
                  let s = l2_upd (local_cid c) (l2cap_handle_connection_complete (hc_handle conn)) s in
                  if bonding_flags conn AND BONDING_RECEIVED_REMOTE_FEATURES \<noteq> 0 then
                    l2cap_handle_remote_supported_features_received E (local_cid c) s
                  else Ret s
                else Ret s) (\<lambda>s.
         bind_outcome (l2cap_run E s) (\<lambda>s. Ret (s, 0, Some (local_cid c)))))"

definition l2cap_disconnect :: "l2_env \<Rightarrow> u16 \<Rightarrow> l2 \<Rightarrow> l2 outcome" where
  "l2cap_disconnect E cid s =
     l2cap_run E (if l2cap_get_channel_for_local_cid s cid \<noteq> None
       then l2_upd cid (\<lambda>c. c\<lparr>l2_state := L2CAP_STATE_WILL_SEND_DISCONNECT_REQUEST\<rparr>) s else s)"

text \<open>The loop that reports and frees the channels of a failed connection, one in each round.\<close>

fun discard_failed_loop :: "nat \<Rightarrow> byte \<Rightarrow> l2 \<Rightarrow> l2 outcome" where
  "discard_failed_loop 0 status s = Undef"
| "discard_failed_loop (Suc n) status s =
     (case find (\<lambda>c. l2cap_is_dynamic_channel_type (channel_type c) \<and> l2_state c = L2CAP_STATE_EMIT_OPEN_FAILED_AND_DISCARD)
        (l2cap_channels s) of
        None \<Rightarrow> Ret s
      | Some c \<Rightarrow> discard_failed_loop n status (l2cap_free_channel_entry (local_cid c) (l2cap_handle_channel_open_failed status c s)))"

definition mark_failed :: "bytes \<Rightarrow> l2cap_channel \<Rightarrow> l2cap_channel" where
  "mark_failed address c =
     (if l2cap_is_dynamic_channel_type (channel_type c) \<and> memcmp (l2_address c) address = 0 \<and>
         l2_state c \<in> {L2CAP_STATE_WAIT_CONNECTION_COMPLETE, L2CAP_STATE_WILL_SEND_CREATE_CONNECTION} then
        c\<lparr>l2_state := L2CAP_STATE_EMIT_OPEN_FAILED_AND_DISCARD\<rparr>
      else c)"

definition l2cap_handle_connection_failed_for_addr :: "bytes \<Rightarrow> byte \<Rightarrow> l2 \<Rightarrow> l2 outcome" where
  "l2cap_handle_connection_failed_for_addr address status s =
     discard_failed_loop (Suc (length (l2cap_channels s))) status
       (s\<lparr>l2cap_channels := map (mark_failed address) (l2cap_channels s)\<rparr>)"

definition l2cap_handle_connection_success_for_addr :: "l2_env \<Rightarrow> bytes \<Rightarrow> u16 \<Rightarrow> l2 \<Rightarrow> l2 outcome" where
  "l2cap_handle_connection_success_for_addr E address handle s =
     l2cap_run E
       (s\<lparr>l2cap_channels :=
           map (\<lambda>c. if l2cap_is_dynamic_channel_type (channel_type c) \<and> memcmp (l2_address c) address = 0
             then l2cap_handle_connection_complete handle c else c) (l2cap_channels s)\<rparr>)"

definition l2cap_send_open_failed_on_hci_disconnect :: "l2cap_channel \<Rightarrow> bool" where
  "l2cap_send_open_failed_on_hci_disconnect c \<longleftrightarrow> INCOMING \<notin> l2_var c \<and>
     l2_state c \<in> {L2CAP_STATE_WILL_SEND_CREATE_CONNECTION, L2CAP_STATE_WAIT_CONNECTION_COMPLETE,
       L2CAP_STATE_WAIT_REMOTE_SUPPORTED_FEATURES, L2CAP_STATE_WAIT_OUTGOING_SECURITY_LEVEL_UPDATE,
       L2CAP_STATE_WAIT_CLIENT_ACCEPT_OR_REJECT, L2CAP_STATE_WAIT_OUTGOING_EXTENDED_FEATURES, L2CAP_STATE_WAIT_CONNECT_RSP,
       L2CAP_STATE_CONFIG, L2CAP_STATE_WILL_SEND_CONNECTION_REQUEST, L2CAP_STATE_WILL_SEND_LE_CONNECTION_REQUEST,
       L2CAP_STATE_WAIT_LE_CONNECTION_RESPONSE, L2CAP_STATE_EMIT_OPEN_FAILED_AND_DISCARD}"

definition l2cap_handle_hci_disconnect_event :: "l2cap_channel \<Rightarrow> l2 \<Rightarrow> l2" where
  "l2cap_handle_hci_disconnect_event c s =
     (if l2cap_send_open_failed_on_hci_disconnect c then l2cap_handle_channel_open_failed 0x6A c s
      else l2cap_handle_channel_closed c s)"

definition l2cap_register_signaling_response :: "l2_env \<Rightarrow> u16 \<Rightarrow> byte \<Rightarrow> byte \<Rightarrow> u16 \<Rightarrow> u16 \<Rightarrow> l2 \<Rightarrow> l2 outcome" where
  "l2cap_register_signaling_response E handle code sig_id cid data s =
     (if length (signaling_responses s) < 3 then
        l2cap_run E (s\<lparr>signaling_responses := signaling_responses s @
          [\<lparr>rsp_handle = handle, rsp_sig_id = sig_id, rsp_code = code, rsp_cid = cid, rsp_data = data\<rparr>]\<rparr>)
      else Ret s)"

subsection \<open>Signaling commands\<close>

definition l2cap_get_service :: "l2 \<Rightarrow> u16 \<Rightarrow> l2cap_service option" where
  "l2cap_get_service s p = find (\<lambda>v. sv_psm v = p) (l2cap_services s)"

definition l2cap_handle_disconnect_request :: "l2_env \<Rightarrow> u16 \<Rightarrow> byte \<Rightarrow> l2 \<Rightarrow> l2 outcome" where
  "l2cap_handle_disconnect_request E cid identifier s =
     l2cap_run E (l2_upd cid (\<lambda>c. c\<lparr>remote_sig_id := identifier, l2_state := L2CAP_STATE_WILL_SEND_DISCONNECT_RESPONSE\<rparr>) s)"

definition l2cap_handle_connection_request :: "l2_env \<Rightarrow> u16 \<Rightarrow> byte \<Rightarrow> u16 \<Rightarrow> u16 \<Rightarrow> l2 \<Rightarrow> l2 outcome" where
  "l2cap_handle_connection_request E handle sig_id p source_cid s =
     (case l2cap_get_service s p of
        None \<Rightarrow> l2cap_register_signaling_response E handle CONNECTION_REQUEST sig_id source_cid 2 s
      | Some v \<Rightarrow>
          (case hci_connection_for_handle (l2_hci s) handle of None \<Rightarrow> Ret s
           | Some conn \<Rightarrow>
               bind_outcome (l2cap_create_channel_entry E (sv_handler v) L2CAP_CHANNEL_TYPE_CLASSIC (hc_address conn) p (sv_mtu v)
                 (sv_security_level v) s) (\<lambda>(s, r).
               case r of
                 None \<Rightarrow> l2cap_register_signaling_response E handle CONNECTION_REQUEST sig_id source_cid 4 s
               | Some c \<Rightarrow>
                   Ret (l2_act (RequestSecurityLevel handle (required_security_level c))
                     (add_channel
                       (c\<lparr>l2_handle := handle, remote_cid := source_cid, remote_sig_id := sig_id,
                         local_mtu := (if local_mtu c > l2cap_max_mtu then l2cap_max_mtu else local_mtu c),
                         l2_state := L2CAP_STATE_WAIT_INCOMING_SECURITY_LEVEL_UPDATE, l2_var := {SEND_CONN_RESP_PEND, INCOMING}\<rparr>) s)))))"

text \<open>
  The options of a configure request.  \<open>pos\<close> grows by at least two in each round, or wraps around;
  when it does not reach \<open>end_pos\<close> in so many rounds, the loop does not end.
\<close>

fun configure_options :: "nat \<Rightarrow> bytes \<Rightarrow> u16 \<Rightarrow> u16 \<Rightarrow> l2cap_channel \<Rightarrow> l2cap_channel outcome" where
  "configure_options n command end_pos pos c =
     (if \<not> pos < end_pos then Ret c
      else case n of 0 \<Rightarrow> Undef
      | Suc n \<Rightarrow>
          bind_outcome (rd command (uint pos)) (\<lambda>option.
          let option_hint = drop_bit 7 option; option_type = option AND 0x7F; pos = pos + 1 in
          bind_outcome (rd command (uint pos)) (\<lambda>len.
          let pos = pos + 1 in
          bind_outcome
            (if option_type = 1 \<and> len = 2 then
               bind_outcome (little_endian_read_16 command 0 (uint pos)) (\<lambda>mtu.
               Ret (channelStateVarSetFlag SEND_CONF_RSP_MTU (c\<lparr>remote_mtu := (if mtu > l2cap_max_mtu then l2cap_max_mtu else mtu)\<rparr>)))
             else Ret c) (\<lambda>c.
          bind_outcome
            (if option_type = 2 \<and> len = 2 then
               bind_outcome (little_endian_read_16 command 0 (uint pos)) (\<lambda>t. Ret (c\<lparr>flush_timeout := t\<rparr>))
             else Ret c) (\<lambda>c.
          configure_options n command end_pos (pos + ucast len)
            (if option_hint = 0 \<and> (option_type < 1 \<or> option_type > 7) then channelStateVarSetFlag SEND_CONF_RSP_INVALID c else c))))))"

declare configure_options.simps [simp del]

definition l2cap_signaling_handle_configure_request :: "bytes \<Rightarrow> l2cap_channel \<Rightarrow> l2cap_channel outcome" where
  "l2cap_signaling_handle_configure_request command c =
     bind_outcome (rd command 1) (\<lambda>sig_id.
     bind_outcome (little_endian_read_16 command 0 6) (\<lambda>flags.
     bind_outcome (little_endian_read_16 command 0 2) (\<lambda>len.
     let c = c\<lparr>remote_sig_id := sig_id\<rparr> in
     configure_options 65536 command (4 + len) 8 (if flags AND 1 \<noteq> 0 then channelStateVarSetFlag SEND_CONF_RSP_CONT c else c))))"

text \<open>Commands for a channel, by its state.\<close>

definition connect_response :: "l2_env \<Rightarrow> byte \<Rightarrow> byte \<Rightarrow> u16 \<Rightarrow> bytes \<Rightarrow> l2cap_channel \<Rightarrow> l2 \<Rightarrow> l2 outcome" where
  "connect_response E code identifier cmd_len command c s =
     (if code \<noteq> CONNECTION_RESPONSE then Ret s
      else if cmd_len < 8 then l2cap_register_signaling_response E (l2_handle c) COMMAND_REJECT identifier 0 0 s
      else
        bind_outcome (little_endian_read_16 command 0 8) (\<lambda>result.
        if result = 0 then
          bind_outcome (little_endian_read_16 command 0 4) (\<lambda>cid.
          Ret (l2_upd (local_cid c)
            (\<lambda>c. channelStateVarSetFlag SEND_CONF_REQ ((l2cap_stop_rtx c)\<lparr>remote_cid := cid, l2_state := L2CAP_STATE_CONFIG\<rparr>)) s))
        else if result = 1 then Ret (l2_upd (local_cid c) (\<lambda>c. l2cap_start_ertx (l2cap_stop_rtx c)) s)
        else
          let s = l2cap_handle_channel_open_failed (ucast (0x63 + result)) ((l2cap_stop_rtx c)\<lparr>l2_state := L2CAP_STATE_CLOSED\<rparr>) s;
              s = (if uint result + 0x63 = 0x66 then l2_act (DropLinkKey (l2_address c)) s else s) in
          Ret (l2cap_free_channel_entry (local_cid c) s)))"

definition config_command :: "l2_env \<Rightarrow> byte \<Rightarrow> byte \<Rightarrow> u16 \<Rightarrow> bytes \<Rightarrow> l2cap_channel \<Rightarrow> l2 \<Rightarrow> l2 outcome" where
  "config_command E code identifier cmd_len command c s =
     (if code = CONFIGURE_REQUEST then
        if cmd_len < 4 then l2cap_register_signaling_response E (l2_handle c) COMMAND_REJECT identifier 0 0 s
        else
          bind_outcome (l2cap_signaling_handle_configure_request command (channelStateVarSetFlag SEND_CONF_RSP c)) (\<lambda>c.
          Ret (l2_upd (local_cid c) (\<lambda>_. if SEND_CONF_RSP_CONT \<notin> l2_var c then channelStateVarSetFlag RCVD_CONF_REQ c else c) s))
      else if code = CONFIGURE_RESPONSE then
        if cmd_len < 6 then l2cap_register_signaling_response E (l2_handle c) COMMAND_REJECT identifier 0 0 s
        else
          bind_outcome (little_endian_read_16 command 0 8) (\<lambda>result.
          Ret (l2_upd (local_cid c)
            (\<lambda>c. let c = l2cap_stop_rtx c in
              if result = 0 then channelStateVarSetFlag RCVD_CONF_RSP c
              else if result = 4 then l2cap_start_ertx c
              else channelStateVarSetFlag SEND_CONF_REQ c) s))
      else Ret s)"

definition l2cap_signaling_handler_channel :: "l2_env \<Rightarrow> u16 \<Rightarrow> bytes \<Rightarrow> l2 \<Rightarrow> l2 outcome" where
  "l2cap_signaling_handler_channel E cid command s =
     bind_outcome (l2_chan s cid) (\<lambda>c.
     bind_outcome (rd command 0) (\<lambda>code.
     bind_outcome (rd command 1) (\<lambda>identifier.
     bind_outcome (little_endian_read_16 command 0 2) (\<lambda>cmd_len.
     if code = DISCONNECTION_REQUEST then
       if l2_state c \<in> {L2CAP_STATE_CONFIG, L2CAP_STATE_OPEN, L2CAP_STATE_WILL_SEND_DISCONNECT_REQUEST, L2CAP_STATE_WAIT_DISCONNECT}
       then l2cap_handle_disconnect_request E cid identifier s
       else Ret s
     else if l2_state c = L2CAP_STATE_WAIT_CONNECT_RSP then connect_response E code identifier cmd_len command c s
     else if l2_state c = L2CAP_STATE_CONFIG then
       bind_outcome (config_command E code identifier cmd_len command c s) (open_if_ready cid)
     else if l2_state c = L2CAP_STATE_WAIT_DISCONNECT then
       Ret (if code = DISCONNECTION_RESPONSE then l2cap_finialize_channel_close c s else s)
     else Ret s))))"

definition l2cap_signaling_handler_dispatch :: "l2_env \<Rightarrow> u16 \<Rightarrow> bytes \<Rightarrow> l2 \<Rightarrow> l2 outcome" where
  "l2cap_signaling_handler_dispatch E handle command s =
     bind_outcome (rd command 0) (\<lambda>code.
     bind_outcome (rd command 1) (\<lambda>sig_id.
     bind_outcome (little_endian_read_16 command 0 2) (\<lambda>cmd_len.
     if code < 1 \<or> code = ECHO_RESPONSE \<or> code > INFORMATION_RESPONSE then
       l2cap_register_signaling_response E handle COMMAND_REJECT sig_id 0 0 s
     else if code = CONNECTION_REQUEST then
       if cmd_len = 4 then
         bind_outcome (little_endian_read_16 command 0 4) (\<lambda>p.
         bind_outcome (little_endian_read_16 command 0 6) (\<lambda>source_cid.
         l2cap_handle_connection_request E handle sig_id p source_cid s))
       else l2cap_register_signaling_response E handle COMMAND_REJECT sig_id 0 0 s
     else if code = ECHO_REQUEST then l2cap_register_signaling_response E handle code sig_id 0 0 s
     else if code = INFORMATION_REQUEST then
       if cmd_len = 2 then
         bind_outcome (little_endian_read_16 command 0 4) (\<lambda>info_type.
         l2cap_register_signaling_response E handle code sig_id 0 info_type s)
       else l2cap_register_signaling_response E handle COMMAND_REJECT sig_id 0 0 s
     else
       bind_outcome (little_endian_read_16 command 0 4) (\<lambda>dest_cid.
       case find (\<lambda>c. l2cap_is_dynamic_channel_type (channel_type c) \<and> l2_handle c = handle \<and>
           (if code AND 1 \<noteq> 0 then local_sig_id c = sig_id else local_cid c = dest_cid)) (l2cap_channels s) of
         None \<Rightarrow> Ret s
       | Some c \<Rightarrow> l2cap_signaling_handler_channel E (local_cid c) command s))))"

end
