(* ===== verification/L2capApi.thy ===== *)
theory L2capApi
  imports L2capSignal
begin

unbundle bit_operations_syntax

text \<open>
  \<^verbatim>\<open>l2cap.c\<close>, fourth part: the events of HCI, received ACL packets, and the functions for
  applications.
\<close>

subsection \<open>Events of HCI\<close>

definition event_address :: "bytes \<Rightarrow> int \<Rightarrow> bytes outcome" where
  "event_address packet pos = bind_outcome (rd_block packet pos 6) (\<lambda>bs. Ret (rev bs))"

text \<open>The channels of a link that is gone, one after the other.\<close>

fun disconnected_channels :: "u16 list \<Rightarrow> u16 \<Rightarrow> l2 \<Rightarrow> l2 outcome" where
  "disconnected_channels [] handle s = Ret s"
| "disconnected_channels (cid # cids) handle s =
     bind_outcome (l2_chan s cid) (\<lambda>c.
     if \<not> l2cap_is_dynamic_channel_type (channel_type c) \<or> l2_handle c \<noteq> handle then disconnected_channels cids handle s
     else disconnected_channels cids handle
       (l2cap_free_channel_entry cid
         (if channel_type c = L2CAP_CHANNEL_TYPE_CLASSIC then l2cap_handle_hci_disconnect_event c s else s)))"

fun features_received :: "l2_env \<Rightarrow> u16 list \<Rightarrow> u16 \<Rightarrow> l2 \<Rightarrow> l2 outcome" where
  "features_received E [] handle s = Ret s"
| "features_received E (cid # cids) handle s =
     bind_outcome (l2_chan s cid) (\<lambda>c.
     bind_outcome
       (if l2cap_is_dynamic_channel_type (channel_type c) \<and> l2_handle c = handle then
          l2cap_handle_remote_supported_features_received E cid s
        else Ret s) (features_received E cids handle))"

text \<open>One channel, when the security level of its link has changed.\<close>

definition security_level_changed :: "bytes \<Rightarrow> u16 \<Rightarrow> u16 \<Rightarrow> l2 \<Rightarrow> l2 outcome" where
  "security_level_changed packet handle cid s =
     bind_outcome (l2_chan s cid) (\<lambda>c.
     if \<not> l2cap_is_dynamic_channel_type (channel_type c) \<or> l2_handle c \<noteq> handle then Ret s
     else bind_outcome (rd packet 4) (\<lambda>actual_level.
     if l2_state c = L2CAP_STATE_WAIT_INCOMING_SECURITY_LEVEL_UPDATE then
       if actual_level \<ge> required_security_level c then
         bind_outcome (l2_set cid (\<lambda>c. c\<lparr>l2_state := L2CAP_STATE_WAIT_CLIENT_ACCEPT_OR_REJECT\<rparr>) s) (\<lambda>(s, c).
         Ret (l2cap_emit_incoming_connection c s))
       else
         Ret (l2_upd cid (\<lambda>c. c\<lparr>l2_reason := 3, l2_state := L2CAP_STATE_WILL_SEND_CONNECTION_RESPONSE_DECLINE\<rparr>) s)
     else if l2_state c = L2CAP_STATE_WAIT_OUTGOING_SECURITY_LEVEL_UPDATE then
       Ret (if actual_level \<ge> required_security_level c then l2_upd cid l2cap_ready_to_connect s
         else l2_act (DisconnectSecurityBlock handle) s)
     else Ret s))"

fun security_levels_changed :: "bytes \<Rightarrow> u16 list \<Rightarrow> u16 \<Rightarrow> l2 \<Rightarrow> l2 outcome" where
  "security_levels_changed packet [] handle s = Ret s"
| "security_levels_changed packet (cid # cids) handle s =
     bind_outcome (security_level_changed packet handle cid s) (security_levels_changed packet cids handle)"

definition event_command_status :: "l2_env \<Rightarrow> bytes \<Rightarrow> l2 \<Rightarrow> l2 outcome" where
  "event_command_status E packet s =
     bind_outcome (little_endian_read_16 packet 0 4) (\<lambda>opcode.
     bind_outcome
       (if opcode = 0x0405 then
          bind_outcome (rd packet 2) (\<lambda>status.
          let address = l2cap_outgoing_classic_addr s; s = s\<lparr>l2cap_outgoing_classic_addr := replicate 6 0\<rparr> in
          if status \<noteq> 0 then l2cap_handle_connection_failed_for_addr address status s else Ret s)
        else Ret s) (l2cap_run E))"

definition event_connection_complete :: "l2_env \<Rightarrow> bytes \<Rightarrow> l2 \<Rightarrow> l2 outcome" where
  "event_connection_complete E packet s =
     bind_outcome (event_address packet 5) (\<lambda>address.
     bind_outcome (rd packet 2) (\<lambda>status.
     if status = 0 then
       bind_outcome (little_endian_read_16 packet 0 3) (\<lambda>handle. l2cap_handle_connection_success_for_addr E address handle s)
     else l2cap_handle_connection_failed_for_addr address status s))"

definition event_command_complete :: "l2_env \<Rightarrow> bytes \<Rightarrow> l2 \<Rightarrow> l2 outcome" where
  "event_command_complete E packet s =
     bind_outcome (little_endian_read_16 packet 0 3) (\<lambda>opcode.
     bind_outcome
       (if opcode = 0x0408 then
          bind_outcome (rd packet 5) (\<lambda>status.
          if status = 0 then
            bind_outcome (event_address packet 6) (\<lambda>address. l2cap_handle_connection_failed_for_addr address 0x16 s)
          else Ret s)
        else Ret s) (l2cap_run E))"

definition event_timeout_check :: "l2_env \<Rightarrow> bytes \<Rightarrow> l2 \<Rightarrow> l2 outcome" where
  "event_timeout_check E packet s =
     bind_outcome (little_endian_read_16 packet 0 2) (\<lambda>handle.
     Ret (if \<not> gap_connection_is_acl (l2_hci s) handle then s
       else if authentication_active E handle then s
       else if \<exists>c \<in> set (l2cap_channels s). l2cap_is_dynamic_channel_type (channel_type c) \<and> l2_handle c = handle then s
       else if \<not> can_send_command E (length (l2_actions s)) then s
       else l2_act (Disconnect handle 0x13) s))"

definition event_features_complete :: "l2_env \<Rightarrow> bytes \<Rightarrow> l2 \<Rightarrow> l2 outcome" where
  "event_features_complete E packet s =
     bind_outcome (little_endian_read_16 packet 0 3) (\<lambda>handle.
     case hci_connection_for_handle (l2_hci s) handle of None \<Rightarrow> Ret s
     | Some conn \<Rightarrow>
         if bonding_flags conn AND BONDING_RECEIVED_REMOTE_FEATURES = 0 then Ret s
         else features_received E (map local_cid (l2cap_channels s)) handle s)"

definition event_security_level :: "bytes \<Rightarrow> l2 \<Rightarrow> l2 outcome" where
  "event_security_level packet s =
     bind_outcome (little_endian_read_16 packet 0 2) (\<lambda>handle.
     security_levels_changed packet (map local_cid (l2cap_channels s)) handle s)"

definition l2cap_hci_event_handler :: "l2_env \<Rightarrow> bytes \<Rightarrow> l2 \<Rightarrow> l2 outcome" where
  "l2cap_hci_event_handler E packet s =
     bind_outcome (rd packet 0) (\<lambda>event.
     bind_outcome
       (if event \<in> {0x6E, 0x13, 0x61} then bind_outcome (l2cap_run E s) (l2cap_notify_channel_can_send E)
        else if event = 0x0F then event_command_status E packet s
        else if event = 0x03 then event_connection_complete E packet s
        else if event = 0x0E then event_command_complete E packet s
        else if event = 0x05 then
          bind_outcome (little_endian_read_16 packet 0 3) (\<lambda>handle.
          disconnected_channels (map local_cid (l2cap_channels s)) handle s)
        else if event = 0x73 then event_timeout_check E packet s
        else if event \<in> {0x0B, 0x23} then event_features_complete E packet s
        else if event = 0xE0 then event_security_level packet s
        else Ret s) (l2cap_run E))"

subsection \<open>Received packets\<close>

definition l2cap_acl_classic_handler_for_channel :: "l2cap_channel \<Rightarrow> bytes \<Rightarrow> l2 \<Rightarrow> l2" where
  "l2cap_acl_classic_handler_for_channel c packet s = l2_act (L2Data (l2_handler c) (local_cid c) (drop 8 packet)) s"

text \<open>The commands of a signaling packet; with each, four bytes or more of the packet are done.\<close>

fun signaling_commands :: "nat \<Rightarrow> l2_env \<Rightarrow> u16 \<Rightarrow> bytes \<Rightarrow> nat \<Rightarrow> l2 \<Rightarrow> l2 outcome" where
  "signaling_commands n E handle packet offset s =
     (if \<not> offset + 4 < length packet then Ret s
      else case n of 0 \<Rightarrow> Undef
      | Suc n \<Rightarrow>
          bind_outcome (little_endian_read_16 packet 0 (int offset + 2)) (\<lambda>data_len.
          let next_offset = offset + 4 + unat data_len in
          if next_offset > length packet then Ret s
          else bind_outcome (l2cap_signaling_handler_dispatch E handle (drop offset packet) s)
            (signaling_commands n E handle packet next_offset)))"

declare signaling_commands.simps [simp del]

definition l2cap_acl_classic_handler :: "l2_env \<Rightarrow> u16 \<Rightarrow> bytes \<Rightarrow> l2 \<Rightarrow> l2 outcome" where
  "l2cap_acl_classic_handler E handle packet s =
     bind_outcome (little_endian_read_16 packet 0 6) (\<lambda>channel_id.
     if channel_id = 1 then signaling_commands (length packet) E handle packet 8 s
     else if channel_id = 2 then
       Ret (case l2cap_fixed_channel_for_channel_id s 2 of None \<Rightarrow> s
         | Some c \<Rightarrow> if l2_handler c = 0 then s else l2_act (L2Ucd (l2_handler c) handle (drop 8 packet)) s)
     else
       Ret (case l2cap_get_channel_for_local_cid s channel_id of None \<Rightarrow> s
         | Some c \<Rightarrow> l2cap_acl_classic_handler_for_channel c packet s))"

definition l2cap_acl_handler :: "l2_env \<Rightarrow> bytes \<Rightarrow> l2 \<Rightarrow> l2 outcome" where
  "l2cap_acl_handler E packet s =
     (if length packet < 8 then Ret s
      else bind_outcome (READ_ACL_CONNECTION_HANDLE packet) (\<lambda>handle.
        case hci_connection_for_handle (l2_hci s) handle of None \<Rightarrow> Ret s
        | Some conn \<Rightarrow>
            bind_outcome (if address_type conn = BD_ADDR_TYPE_ACL then l2cap_acl_classic_handler E handle packet s else Ret s) (l2cap_run E)))"

text \<open>A packet of the transport: HCI puts fragments together and hands complete packets to L2CAP.\<close>

definition receive_acl :: "l2_env \<Rightarrow> bytes \<Rightarrow> l2 \<Rightarrow> l2 outcome" where
  "receive_acl E packet s =
     bind_outcome (acl_handler packet (l2_hci s)) (\<lambda>(h, r).
     let s = s\<lparr>l2_hci := h\<rparr> in
     case r of None \<Rightarrow> Ret s | Some q \<Rightarrow> l2cap_acl_handler E q s)"

subsection \<open>Functions for applications\<close>

definition l2cap_init :: "l2 \<Rightarrow> l2" where
  "l2cap_init s =
     l2_act (Connectable False)
       (s\<lparr>signaling_responses := [], l2cap_services := [], require_security_level2_for_outgoing_sdp := False,
          l2cap_channels :=
            [\<lparr>channel_type = L2CAP_CHANNEL_TYPE_CONNECTIONLESS, local_cid = 2, l2_handler = 0, l2_waiting = False, rtx = None,
              l2_state = L2CAP_STATE_CLOSED, l2_var = {}, l2_handle = 0, l2_address = [], remote_sig_id = 0, local_sig_id = 0,
              remote_cid = 0, local_mtu = 0, remote_mtu = 0, flush_timeout = 0, psm = 0, required_security_level = 0, l2_reason = 0\<rparr>]\<rparr>)"

definition l2cap_request_can_send_fix_channel_now_event :: "l2_env \<Rightarrow> u16 \<Rightarrow> l2 \<Rightarrow> l2 outcome" where
  "l2cap_request_can_send_fix_channel_now_event E cid s =
     (case l2cap_fixed_channel_for_channel_id s cid of None \<Rightarrow> Ret s
      | Some c \<Rightarrow> l2cap_notify_channel_can_send E (l2_upd cid (\<lambda>c. c\<lparr>l2_waiting := True\<rparr>) s))"

definition l2cap_can_send_fixed_channel_packet_now :: "l2_env \<Rightarrow> u16 \<Rightarrow> l2 \<Rightarrow> bool" where
  "l2cap_can_send_fixed_channel_packet_now E handle s \<longleftrightarrow> hci_can_send_acl_packet_now (transport E) (l2_hci s) handle"

definition l2cap_reserve_packet_buffer :: "l2 \<Rightarrow> l2 \<times> int" where
  "l2cap_reserve_packet_buffer s = (case hci_reserve_packet_buffer (l2_hci s) of (h, r) \<Rightarrow> (s\<lparr>l2_hci := h\<rparr>, r))"

definition l2cap_release_packet_buffer :: "l2 \<Rightarrow> l2" where
  "l2cap_release_packet_buffer s = s\<lparr>l2_hci := hci_release_packet_buffer (l2_hci s)\<rparr>"

definition l2cap_request_can_send_now_event :: "l2_env \<Rightarrow> u16 \<Rightarrow> l2 \<Rightarrow> l2 outcome" where
  "l2cap_request_can_send_now_event E cid s =
     (case l2cap_get_channel_for_local_cid s cid of None \<Rightarrow> Ret s
      | Some c \<Rightarrow> l2cap_notify_channel_can_send E (l2_upd cid (\<lambda>c. c\<lparr>l2_waiting := True\<rparr>) s))"

definition l2cap_can_send_packet_now :: "l2_env \<Rightarrow> u16 \<Rightarrow> l2 \<Rightarrow> bool" where
  "l2cap_can_send_packet_now E cid s =
     (case l2cap_get_channel_for_local_cid s cid of None \<Rightarrow> False
      | Some c \<Rightarrow> hci_can_send_acl_packet_now (transport E) (l2_hci s) (l2_handle c))"

definition l2cap_can_send_prepared_packet_now :: "l2_env \<Rightarrow> u16 \<Rightarrow> l2 \<Rightarrow> bool" where
  "l2cap_can_send_prepared_packet_now E cid s =
     (case l2cap_get_channel_for_local_cid s cid of None \<Rightarrow> False
      | Some c \<Rightarrow> hci_can_send_prepared_acl_packet_now (transport E) (l2_hci s) (l2_handle c))"

definition l2cap_get_remote_mtu_for_local_cid :: "u16 \<Rightarrow> l2 \<Rightarrow> u16" where
  "l2cap_get_remote_mtu_for_local_cid cid s =
     (case l2cap_get_channel_for_local_cid s cid of None \<Rightarrow> 0 | Some c \<Rightarrow> remote_mtu c)"

definition l2cap_require_security_level_2_for_outgoing_sdp :: "l2 \<Rightarrow> l2" where
  "l2cap_require_security_level_2_for_outgoing_sdp s = s\<lparr>require_security_level2_for_outgoing_sdp := True\<rparr>"

definition l2cap_accept_connection :: "l2_env \<Rightarrow> u16 \<Rightarrow> l2 \<Rightarrow> l2 outcome" where
  "l2cap_accept_connection E cid s =
     (case l2cap_get_channel_for_local_cid s cid of None \<Rightarrow> Ret s
      | Some c \<Rightarrow> l2cap_run E (l2_upd cid (\<lambda>c. c\<lparr>l2_state := L2CAP_STATE_WILL_SEND_CONNECTION_RESPONSE_ACCEPT\<rparr>) s))"

definition l2cap_decline_connection :: "l2_env \<Rightarrow> u16 \<Rightarrow> l2 \<Rightarrow> l2 outcome" where
  "l2cap_decline_connection E cid s =
     (case l2cap_get_channel_for_local_cid s cid of None \<Rightarrow> Ret s
      | Some c \<Rightarrow> l2cap_run E
          (l2_upd cid (\<lambda>c. c\<lparr>l2_state := L2CAP_STATE_WILL_SEND_CONNECTION_RESPONSE_DECLINE, l2_reason := 4\<rparr>) s))"

definition l2cap_register_fixed_channel :: "nat \<Rightarrow> u16 \<Rightarrow> l2 \<Rightarrow> l2" where
  "l2cap_register_fixed_channel handler cid s =
     (case l2cap_fixed_channel_for_channel_id s cid of None \<Rightarrow> s | Some c \<Rightarrow> l2_upd cid (\<lambda>c. c\<lparr>l2_handler := handler\<rparr>) s)"

definition l2cap_register_service :: "l2_env \<Rightarrow> nat \<Rightarrow> u16 \<Rightarrow> u16 \<Rightarrow> byte \<Rightarrow> l2 \<Rightarrow> l2 \<times> byte" where
  "l2cap_register_service E handler p mtu level s =
     (if l2cap_get_service s p \<noteq> None then (s, 0x6B)
      else if \<not> new_service E then (s, 0x56)
      else
        (l2_act (Connectable True)
           (s\<lparr>l2cap_services := \<lparr>sv_psm = p, sv_mtu = mtu, sv_handler = handler, sv_security_level = level\<rparr> # l2cap_services s\<rparr>), 0))"

definition l2cap_unregister_service :: "u16 \<Rightarrow> l2 \<Rightarrow> l2 \<times> byte" where
  "l2cap_unregister_service p s =
     (case l2cap_get_service s p of None \<Rightarrow> (s, 0x6D)
      | Some v \<Rightarrow>
          let s = s\<lparr>l2cap_services := filter (\<lambda>v. sv_psm v \<noteq> p) (l2cap_services s)\<rparr> in
          (if l2cap_services s = [] then l2_act (Connectable False) s else s, 0))"

end
