(* ===== verification/L2capSend.thy ===== *)
theory L2capSend
  imports L2capApi
begin

unbundle bit_operations_syntax

text \<open>
  What L2CAP sends: every signaling command is written as one complete ACL packet, and HCI takes it
  without leaving its packet buffer.
\<close>

subsection \<open>HCI below L2CAP\<close>

lemma le16_join: "le16 ((ucast x :: u16) OR push_bit 8 (ucast y)) = [x, y :: byte]"
proof -
  have "ucast ((ucast x :: u16) OR push_bit 8 (ucast y)) = x"
    by (rule bit_word_eqI) (auto simp: bit_simps)
  moreover have "ucast (drop_bit 8 ((ucast x :: u16) OR push_bit 8 (ucast y))) = y"
    by (rule bit_word_eqI) (auto simp: bit_simps dest: bit_imp_le_length)
  ultimately show ?thesis by (simp add: le16_def be16_def)
qed
lemma read_holds:
  assumes "little_endian_read_16 m b p = Ret f"
  shows "holds_at m (b + p) (le16 f)"
proof -
  have f: "f = ucast (m ! nat (b + p)) OR push_bit 8 (ucast (m ! nat (b + p + 1)))" "0 \<le> b + p" "b + p + 1 < int (length m)"
    using assms by (auto simp: little_endian_read_16_def rd_def split: if_splits)
  have "nat (b + p + 1) = nat (b + p) + 1" using f(2) by linarith
  then show ?thesis
    unfolding f(1) le16_join using f(2,3) by (simp add: holds_at_nth less_Suc_eq_0_disj)
qed

definition hci_ok :: "hci \<Rightarrow> bool" where
  "hci_ok h \<longleftrightarrow> length (hci_packet_buffer h) = 1025 \<and> 4 \<le> unat (acl_data_packet_length h) \<and>
     (le_data_packets_length h = 0 \<or> 4 \<le> unat (le_data_packets_length h)) \<and> hci_conns_sound h"

text \<open>What sending leaves as it is.\<close>

definition hci_frame :: "hci \<Rightarrow> hci \<Rightarrow> bool" where
  "hci_frame h h' \<longleftrightarrow> length (hci_packet_buffer h') = length (hci_packet_buffer h) \<and>
     acl_data_packet_length h' = acl_data_packet_length h \<and> le_data_packets_length h' = le_data_packets_length h \<and>
     map (num_packets_sent_update (\<lambda>_. 0)) (connections h') = map (num_packets_sent_update (\<lambda>_. 0)) (connections h)"

lemma hci_frame_refl [simp]: "hci_frame h h"
  by (simp add: hci_frame_def)

lemma hci_frame_trans: "hci_frame h h' \<Longrightarrow> hci_frame h' h'' \<Longrightarrow> hci_frame h h''"
  by (simp add: hci_frame_def)

lemma sound_num: "conn_sound (c\<lparr>num_packets_sent := n\<rparr>) = conn_sound c"
  by (simp add: conn_sound_def conn_ok_def)

lemma hci_frame_ok:
  assumes "hci_frame h h'" "hci_ok h"
  shows "hci_ok h'"
proof -
  let ?f = "num_packets_sent_update (\<lambda>_. 0) :: hci_connection \<Rightarrow> hci_connection"
  have sets: "?f ` set (connections h') = ?f ` set (connections h)"
    using assms(1) unfolding hci_frame_def by (metis set_map)
  have sound: "conn_sound (?f c) = conn_sound c" for c by (rule sound_num)
  have "\<forall>d \<in> ?f ` set (connections h'). conn_sound d"
    unfolding sets using assms(2) by (simp add: hci_ok_def hci_conns_sound_def sound)
  then have "hci_conns_sound h'" by (simp add: hci_conns_sound_def sound)
  then show ?thesis using assms by (simp add: hci_ok_def hci_frame_def)
qed

lemma next_fragment_length: "next_fragment p n buf = Ret (buf', packet) \<Longrightarrow> length buf' = length buf"
  by (auto simp: next_fragment_def little_endian_store_16_def store_byte_def split: if_splits bind_outcome_split_asm dest!: wr_length)

lemma count_frame: "map (num_packets_sent_update (\<lambda>_. 0)) (upd_first h (\<lambda>c. c\<lparr>num_packets_sent := f c\<rparr>) cs) =
  map (num_packets_sent_update (\<lambda>_. 0)) cs"
  by (induction cs) auto

lemma fragments_loop_frame: "fragments_loop n T h m s = Ret (s', err, b) \<Longrightarrow> hci_frame s s'"
proof (induction n arbitrary: s)
  case (Suc n)
  let ?rest = "uint (acl_fragmentation_total_size s) - uint (acl_fragmentation_pos s)"
  let ?more = "?rest > m"
  let ?len = "if ?more then m else ?rest"
  obtain buf packet where p: "next_fragment (acl_fragmentation_pos s - 4) ?len (hci_packet_buffer s) = Ret (buf, packet)"
    using Suc.prems(1) by (cases "next_fragment (acl_fragmentation_pos s - 4) ?len (hci_packet_buffer s)") (auto simp: Let_def)
  let ?s1 = "(count_packet h s)\<lparr>hci_packet_buffer := buf\<rparr>"
  let ?s2 = "if ?more then ?s1\<lparr>acl_fragmentation_pos := acl_fragmentation_pos ?s1 + word_of_int ?len\<rparr>
             else ?s1\<lparr>acl_fragmentation_pos := 0, acl_fragmentation_total_size := 0\<rparr>"
  let ?t = "transport_send T packet (?s2\<lparr>acl_fragmentation_tx_active := True\<rparr>)"
  let ?s3 = "fst ?t"
  have frame: "hci_frame s ?s3"
    using next_fragment_length [OF p] by (simp add: hci_frame_def transport_send_def count_packet_def upd_connection_def count_frame)
  have loop: "fragments_loop (Suc n) T h m s =
    (if \<not> ?more then Ret (?s3, snd ?t, True)
     else if hci_can_send_prepared_acl_packet_now T ?s3 h then fragments_loop n T h m ?s3 else Ret (?s3, snd ?t, False))"
    using p by (simp add: Let_def count_packet_def split_beta)
  obtain s3 e where s3: "hci_frame s s3" "fragments_loop (Suc n) T h m s =
      (if \<not> ?more then Ret (s3, e, True)
       else if hci_can_send_prepared_acl_packet_now T s3 h then fragments_loop n T h m s3 else Ret (s3, e, False))"
    using frame loop by blast
  show ?case
  proof (cases "?more \<and> hci_can_send_prepared_acl_packet_now T s3 h")
    case True
    then have "fragments_loop n T h m s3 = Ret (s', err, b)" using Suc.prems(1) unfolding s3(2) by simp
    then show ?thesis using Suc.IH hci_frame_trans [OF s3(1)] by blast
  next
    case False
    then have "s' = s3" using Suc.prems(1) unfolding s3(2) by (auto split: if_splits)
    then show ?thesis using s3(1) by simp
  qed
qed simp

lemma send_frame: "hci_send_acl_packet_fragments T h s = Ret (s', err) \<Longrightarrow> hci_frame s s'"
  by (auto simp: hci_send_acl_packet_fragments_def hci_emit_transport_packet_sent_def hci_release_packet_buffer_def hci_frame_def
      split: bind_outcome_split_asm if_splits dest!: fragments_loop_frame)

lemma send_buffer_frame:
  assumes "hci_send_acl_packet_buffer T len s = Ret (s', err)"
  shows "hci_frame s s'"
proof -
  have fr: "hci_frame s (s\<lparr>acl_fragmentation_total_size := len, acl_fragmentation_pos := 4\<rparr>)" by (simp add: hci_frame_def)
  consider "hci_frame s s'" | h where "hci_send_acl_packet_fragments T h (s\<lparr>acl_fragmentation_total_size := len, acl_fragmentation_pos := 4\<rparr>) = Ret (s', err)"
    using assms
    by (auto simp: hci_send_acl_packet_buffer_def hci_frame_def hci_emit_transport_packet_sent_def hci_release_packet_buffer_def
        split: if_splits bind_outcome_split_asm option.splits)
  then show ?thesis using send_frame hci_frame_trans [OF fr] by cases blast+
qed

text \<open>Whatever is in the packet buffer, HCI sends it within bounds.\<close>

lemma max_len_ok: "hci_ok h \<Longrightarrow> 4 \<le> unat (max_acl_data_packet_length handle h)"
  by (auto simp: max_acl_data_packet_length_def hci_ok_def split: option.split)

lemma send_buffer_returns:
  assumes "hci_ok h" "4 \<le> unat len" "unat len \<le> 1025"
  shows "returns (hci_send_acl_packet_buffer T len h) (\<lambda>(h', err). hci_ok h' \<and> hci_frame h h')"
proof -
  have buf: "length (hci_packet_buffer h) = 1025" using assms(1) by (simp add: hci_ok_def)
  obtain f where f: "little_endian_read_16 (hci_packet_buffer h) 0 0 = Ret f"
    using returns_read_16(2) [of 0 0 "hci_packet_buffer h" "\<lambda>_. True"] buf by (auto elim!: returnsE)
  have "\<exists>r. hci_send_acl_packet_buffer T len h = Ret r"
  proof (cases "hci_packet_buffer_reserved h \<and> hci_can_send_prepared_acl_packet_now T h (f AND 0x0FFF)")
    case True
    let ?h = "f AND 0x0FFF"
    let ?rest = "take (unat len - 4) (drop 4 (hci_packet_buffer h))"
    let ?s = "h\<lparr>acl_fragmentation_total_size := len, acl_fragmentation_pos := 4\<rparr>"
    have conn: "hci_connection_for_handle h ?h \<noteq> None"
      using True by (auto simp: hci_can_send_prepared_acl_packet_now_def hci_number_free_acl_slots_for_handle_def split: option.splits)
    have same: "hci_connection_for_handle ?s ?h = hci_connection_for_handle h ?h" by (simp add: hci_connection_for_handle_def)
    have rest: "length ?rest = unat len - 4" using buf assms(3) by simp
    have "holds_at (hci_packet_buffer h) 0 (le16 f)" using read_holds [OF f] by simp
    moreover have "holds_at (hci_packet_buffer h) 4 ?rest" using buf assms(3) by (simp add: holds_at_def)
    ultimately have "sending ?s ?h f 0 ?rest"
      using conn same buf rest assms(2) by (simp add: sending_def holds_rest_def)
    moreover have "4 \<le> unat (max_acl_data_packet_length ?h ?s)"
      using max_len_ok [OF assms(1), of ?h] max_len_eq [of ?s ?h h] same by simp
    ultimately obtain s' err where "hci_send_acl_packet_fragments T ?h ?s = Ret (s', err)"
      using fragments_send [of ?s ?h f 0 ?rest "unat (max_acl_data_packet_length ?h ?s)" T] by blast
    then show ?thesis
      using True conn by (auto simp: hci_send_acl_packet_buffer_def READ_ACL_CONNECTION_HANDLE_def f split: option.split)
  next
    case False
    then show ?thesis by (auto simp: hci_send_acl_packet_buffer_def READ_ACL_CONNECTION_HANDLE_def f split: option.split)
  qed
  then obtain h' err where r: "hci_send_acl_packet_buffer T len h = Ret (h', err)" by auto
  show ?thesis unfolding r using send_buffer_frame [OF r] hci_frame_ok assms(1) by simp
qed

subsection \<open>Signaling commands\<close>

fun sig_data :: "sig_arg list \<Rightarrow> bytes" where
  "sig_data [] = []"
| "sig_data (Num w # args) = le16 w @ sig_data args"
| "sig_data (Data bs # args) = bs @ sig_data args"

text \<open>The arguments are those that the format asks for; there are no eight bit numbers in it.\<close>

fun sig_matches :: "string \<Rightarrow> sig_arg list \<Rightarrow> bool" where
  "sig_matches [] args \<longleftrightarrow> args = []"
| "sig_matches (f # fs) [] \<longleftrightarrow> False"
| "sig_matches (f # fs) (Num w # args) \<longleftrightarrow> f = CHR ''2'' \<and> sig_matches fs args"
| "sig_matches (f # fs) (Data bs # args) \<longleftrightarrow> f = CHR ''D'' \<and> sig_matches fs args"

definition sig_command :: "byte \<Rightarrow> byte \<Rightarrow> bytes \<Rightarrow> bytes" where
  "sig_command cmd identifier data = [cmd, identifier] @ le16 (of_nat (length data)) @ data"

definition l2cap_frame :: "u16 \<Rightarrow> bytes \<Rightarrow> bytes" where
  "l2cap_frame cid data = le16 (of_nat (length data)) @ le16 cid @ data"

lemma length_l2cap_frame [simp]: "length (l2cap_frame cid data) = length data + 4"
  by (simp add: l2cap_frame_def)

lemma length_sig_command [simp]: "length (sig_command cmd i data) = length data + 4"
  by (simp add: sig_command_def)

lemma two_bytes: "[ucast (w AND 0xFF), ucast (drop_bit 8 w)] = le16 (w :: u16)"
proof -
  have "ucast (w AND 0xFF) = (ucast w :: byte)"
  proof -
    have "(0xFF :: u16) = mask 8" by (simp add: mask_eq_exp_minus_1)
    then show ?thesis by (simp only: flip: take_bit_eq_mask) (rule bit_word_eqI, auto simp: bit_simps)
  qed
  then show ?thesis by (simp add: le16_def be16_def)
qed

lemma wr_block_empty: "0 \<le> p \<Longrightarrow> p \<le> int (length m) \<Longrightarrow> wr_block m p [] = Ret m"
  by (simp add: wr_block_def write_at_def)

lemma fields_written:
  assumes "sig_matches fs args" "unat pos + length (sig_data args) \<le> length buf" "length buf < 65536"
  shows "\<exists>buf'. signaling_fields fs args pos buf = Ret (buf', pos + of_nat (length (sig_data args))) \<and> length buf' = length buf \<and>
    holds_at buf' (uint pos) (sig_data args) \<and>
    (\<forall>q xs. holds_at buf q xs \<longrightarrow> q + int (length xs) \<le> uint pos \<longrightarrow> holds_at buf' q xs)"
  using assms
proof (induction fs args arbitrary: pos buf rule: sig_matches.induct)
  case (1 args)
  have "uint pos = int (unat pos)" by (simp only: uint_nat)
  then have "uint pos \<le> int (length buf)" using 1(2) by linarith
  then show ?case using 1(1) by simp
next
  case (3 f fs w args)
  have f: "f = CHR ''2''" "sig_matches fs args" using 3(2) by simp_all
  have up: "uint pos = int (unat pos)" by (simp only: uint_nat)
  have room: "unat pos + 2 + length (sig_data args) \<le> length buf" using 3(3) by simp
  have lt: "uint pos + 2 < 65536" and le: "uint pos + 2 \<le> int (length buf)" "0 \<le> uint pos" using up room 3(4) by linarith+
  have pos1: "uint (pos + 1) = uint pos + 1" and pos2: "uint (pos + 2) = uint pos + 2"
    using u16_sum [of pos 1] u16_sum [of pos 2] lt by simp_all
  then have upos2: "unat (pos + 2) = unat pos + 2" unfolding uint_nat by linarith
  obtain b where b: "wr_block buf (uint pos) (le16 w) = Ret b" "length b = length buf" "holds_at b (uint pos) (le16 w)"
      "\<And>q xs. holds_at buf q xs \<Longrightarrow> q + int (length xs) \<le> uint pos \<or> uint pos + int (length (le16 w)) \<le> q \<Longrightarrow> holds_at b q xs"
    by (rule wr_block_Ret [of "uint pos" "le16 w" buf]) (use le in simp_all)
  have two: "bind_outcome (wr buf (uint pos) (ucast (w AND 0xFF))) (\<lambda>m. wr m (uint pos + 1) (ucast (drop_bit 8 w))) = Ret b"
    using wr_bind_wr [of "uint pos + 1" "uint pos" "[ucast (w AND 0xFF)]" buf "ucast (drop_bit 8 w)"] b(1) two_bytes [of w]
    by (simp add: wr_as_block)
  have step: "signaling_fields (f # fs) (Num w # args) pos buf = signaling_fields fs args (pos + 2) b"
    using two f(1) pos1 by (cases "wr buf (uint pos) (ucast (w AND 0xFF))") (simp_all add: Let_def add.assoc)
  have "unat (pos + 2) + length (sig_data args) \<le> length b" using upos2 room b(2) by simp
  then obtain b' where b': "signaling_fields fs args (pos + 2) b = Ret (b', pos + 2 + of_nat (length (sig_data args)))" "length b' = length b"
      "holds_at b' (uint (pos + 2)) (sig_data args)"
      "\<forall>q xs. holds_at b q xs \<longrightarrow> q + int (length xs) \<le> uint (pos + 2) \<longrightarrow> holds_at b' q xs"
    using 3(1) [OF f(2), of "pos + 2" b] b(2) 3(4) by auto
  have "holds_at b' (uint pos) (le16 w @ sig_data args)"
    using b'(3,4) b(3) pos2 by (simp add: holds_at_append)
  then show ?case
    using step b' b(2,4) pos2 by (auto simp: add.assoc add.commute add.left_commute)
next
  case (4 f fs bs args)
  have f: "f = CHR ''D''" "sig_matches fs args" using 4(2) by simp_all
  have up: "uint pos = int (unat pos)" by (simp only: uint_nat)
  have room: "unat pos + length bs + length (sig_data args) \<le> length buf" using 4(3) by simp
  have small: "length bs < 65536" using room 4(4) by simp
  have lt: "uint pos + int (length bs) < 65536" and le: "uint pos + int (length bs) \<le> int (length buf)" "0 \<le> uint pos"
    using up room 4(4) by linarith+
  have pos2: "uint (pos + of_nat (length bs)) = uint pos + int (length bs)"
    using u16_sum [of pos "of_nat (length bs)"] lt uint_of_nat_u16 [OF small] by simp
  then have upos2: "unat (pos + of_nat (length bs)) = unat pos + length bs" unfolding uint_nat by linarith
  obtain b where b: "wr_block buf (uint pos) bs = Ret b" "length b = length buf" "holds_at b (uint pos) bs"
      "\<And>q xs. holds_at buf q xs \<Longrightarrow> q + int (length xs) \<le> uint pos \<or> uint pos + int (length bs) \<le> q \<Longrightarrow> holds_at b q xs"
    by (rule wr_block_Ret [of "uint pos" bs buf]) (use le in simp_all)
  have step: "signaling_fields (f # fs) (Data bs # args) pos buf = signaling_fields fs args (pos + of_nat (length bs)) b"
    using b(1) f(1) by simp
  have "unat (pos + of_nat (length bs)) + length (sig_data args) \<le> length b" using upos2 room b(2) by simp
  then obtain b' where b': "signaling_fields fs args (pos + of_nat (length bs)) b = Ret (b', pos + of_nat (length bs) + of_nat (length (sig_data args)))"
      "length b' = length b" "holds_at b' (uint (pos + of_nat (length bs))) (sig_data args)"
      "\<forall>q xs. holds_at b q xs \<longrightarrow> q + int (length xs) \<le> uint (pos + of_nat (length bs)) \<longrightarrow> holds_at b' q xs"
    using 4(1) [OF f(2), of "pos + of_nat (length bs)" b] b(2) 4(4) by auto
  have "holds_at b' (uint pos) (bs @ sig_data args)"
    using b'(3,4) b(3) pos2 by (simp add: holds_at_append)
  then show ?case
    using step b' b(2,4) pos2 by (auto simp: add.assoc add.commute add.left_commute)
qed simp

lemma sig_format:
  fixes handle :: u16
  assumes "sig_matches (l2cap_signaling_commands_format ! (unat cmd - 1)) args" "1 \<le> unat cmd" "unat cmd \<le> 11"
    "12 + length (sig_data args) \<le> 1025" "length (hci_packet_buffer h) = 1025"
  defines "flags \<equiv> handle OR (if non_flushable h then 0 else 0x2000)"
  shows "\<exists>buf. l2cap_create_signaling_classic h handle cmd i args = Ret (buf, of_nat (12 + length (sig_data args))) \<and>
    length buf = 1025 \<and> holds_at buf 0 (acl_packet flags (l2cap_frame 1 (sig_command cmd i (sig_data args))))"
proof -
  let ?d = "sig_data args"
  let ?n = "length ?d"
  let ?fmt = "l2cap_signaling_commands_format ! (unat cmd - 1)"
  have n: "?n \<le> 1013" using assms(4) by simp
  have st: "little_endian_store_16 m 0 p v = wr_block m (uint p) (le16 v)" if "unat p \<le> 100" for m p v
    using that by (subst le16.store_enc) simp_all
  let ?buf = "hci_packet_buffer h"
  obtain b1 where b1: "wr_block ?buf 0 (le16 flags) = Ret b1" "length b1 = 1025" "holds_at b1 0 (le16 flags)"
    by (rule wr_block_Ret [of 0 "le16 flags" ?buf]) (use assms(5) in simp_all)
  obtain b2 where b2: "wr_block b1 6 (le16 1) = Ret b2" "length b2 = 1025" "holds_at b2 6 (le16 1)"
      "\<And>q xs. holds_at b1 q xs \<Longrightarrow> q + int (length xs) \<le> 6 \<or> 8 \<le> q \<Longrightarrow> holds_at b2 q xs"
    by (rule wr_block_Ret [of 6 "le16 1" b1]) (use b1(2) in simp_all)
  obtain b3 where b3: "wr_block b2 8 [cmd] = Ret b3" "length b3 = 1025" "holds_at b3 8 [cmd]"
      "\<And>q xs. holds_at b2 q xs \<Longrightarrow> q + int (length xs) \<le> 8 \<or> 9 \<le> q \<Longrightarrow> holds_at b3 q xs"
    by (rule wr_block_Ret [of 8 "[cmd]" b2]) (use b2(2) in simp_all)
  obtain b4 where b4: "wr_block b3 9 [i] = Ret b4" "length b4 = 1025" "holds_at b4 9 [i]"
      "\<And>q xs. holds_at b3 q xs \<Longrightarrow> q + int (length xs) \<le> 9 \<or> 10 \<le> q \<Longrightarrow> holds_at b4 q xs"
    by (rule wr_block_Ret [of 9 "[i]" b3]) (use b3(2) in simp_all)
  have "unat (12 :: u16) + ?n \<le> length b4" "length b4 < 65536" using n b4(2) by simp_all
  then obtain b5 where b5: "signaling_fields ?fmt args 12 b4 = Ret (b5, 12 + of_nat ?n)" "length b5 = 1025" "holds_at b5 12 ?d"
      "\<And>q xs. holds_at b4 q xs \<Longrightarrow> q + int (length xs) \<le> 12 \<Longrightarrow> holds_at b5 q xs"
    using fields_written [OF assms(1), of 12 b4] b4(2) by auto
  obtain b6 where b6: "wr_block b5 2 (le16 (of_nat (?n + 8))) = Ret b6" "length b6 = 1025" "holds_at b6 2 (le16 (of_nat (?n + 8)))"
      "\<And>q xs. holds_at b5 q xs \<Longrightarrow> q + int (length xs) \<le> 2 \<or> 4 \<le> q \<Longrightarrow> holds_at b6 q xs"
    by (rule wr_block_Ret [of 2 "le16 (of_nat (?n + 8))" b5]) (use b5(2) in simp_all)
  obtain b7 where b7: "wr_block b6 4 (le16 (of_nat (?n + 4))) = Ret b7" "length b7 = 1025" "holds_at b7 4 (le16 (of_nat (?n + 4)))"
      "\<And>q xs. holds_at b6 q xs \<Longrightarrow> q + int (length xs) \<le> 4 \<or> 6 \<le> q \<Longrightarrow> holds_at b7 q xs"
    by (rule wr_block_Ret [of 4 "le16 (of_nat (?n + 4))" b6]) (use b6(2) in simp_all)
  obtain b8 where b8: "wr_block b7 10 (le16 (of_nat ?n)) = Ret b8" "length b8 = 1025" "holds_at b8 10 (le16 (of_nat ?n))"
      "\<And>q xs. holds_at b7 q xs \<Longrightarrow> q + int (length xs) \<le> 10 \<or> 12 \<le> q \<Longrightarrow> holds_at b8 q xs"
    by (rule wr_block_Ret [of 10 "le16 (of_nat ?n)" b7]) (use b7(2) in simp_all)
  have "holds_at b8 0 (le16 flags)" "holds_at b8 2 (le16 (of_nat (?n + 8)))" "holds_at b8 4 (le16 (of_nat (?n + 4)))"
      "holds_at b8 6 (le16 1)" "holds_at b8 8 [cmd]" "holds_at b8 9 [i]" "holds_at b8 12 ?d"
    using b1(3) b2(3,4) b3(3,4) b4(3,4) b5(3,4) b6(3,4) b7(3,4) b8(4) by simp_all
  note parts = this b8(3)
  have "holds_at b8 0 ((le16 flags @ le16 (of_nat (?n + 8)) @ le16 (of_nat (?n + 4)) @ le16 1) @ ([cmd] @ [i] @ le16 (of_nat ?n) @ ?d))"
    using parts by (simp only: holds_at_append length_append length_enc list.size) simp
  then have holds: "holds_at b8 0 (acl_packet flags (l2cap_frame 1 (sig_command cmd i ?d)))"
    by (simp add: acl_packet_def l2cap_frame_def sig_command_def add.commute)
  have words: "(12 :: u16) + of_nat ?n - 4 = of_nat (?n + 8)" "(12 :: u16) + of_nat ?n - 6 - 2 = of_nat (?n + 4)"
      "(12 :: u16) + of_nat ?n - 12 = of_nat ?n" "(12 :: u16) + of_nat ?n = of_nat (12 + ?n)" by simp_all
  have fl: "handle OR (if \<not> non_flushable h then push_bit 12 2 else 0) = flags" by (simp add: flags_def)
  have cmd: "\<not> (cmd = 0 \<or> unat cmd > length l2cap_signaling_commands_format)"
    using assms(2,3) by (auto simp: l2cap_signaling_commands_format_def)
  have "l2cap_create_signaling_classic h handle cmd i args = Ret (b8, of_nat (12 + ?n))"
    unfolding l2cap_create_signaling_classic_def l2cap_create_signaling_internal_def hci_non_flushable_packet_boundary_flag_supported_def fl
    using cmd b1(1) b2(1) b3(1) b4(1) b5(1) b6(1) b7(1) b8(1) words by (simp add: st wr_as_block del: of_nat_add)
  then show ?thesis using holds b8(2) by blast
qed

text \<open>A command of the right form is sent, or not, and only HCI notices.\<close>

definition sig_ok :: "byte \<Rightarrow> sig_arg list \<Rightarrow> bool" where
  "sig_ok cmd args \<longleftrightarrow> sig_matches (l2cap_signaling_commands_format ! (unat cmd - 1)) args \<and> 1 \<le> unat cmd \<and> unat cmd \<le> 11 \<and>
     length (sig_data args) \<le> 1013"

lemma send_signaling_returns:
  assumes "hci_ok (l2_hci s)" "sig_ok cmd args"
  shows "returns (l2cap_send_signaling_packet E handle cmd i args s) (\<lambda>(s', err). \<exists>h. s' = s\<lparr>l2_hci := h\<rparr> \<and> hci_ok h \<and> hci_frame (l2_hci s) h)"
proof (cases "hci_can_send_acl_packet_now (transport E) (l2_hci s) handle")
  case False
  then show ?thesis using assms(1) by (auto simp: l2cap_send_signaling_packet_def intro!: exI [of _ "l2_hci s"])
next
  case True
  let ?h = "fst (hci_reserve_packet_buffer (l2_hci s))"
  have frame: "hci_frame (l2_hci s) ?h" by (simp add: hci_frame_def hci_reserve_packet_buffer_def)
  then have h: "hci_ok ?h" using hci_frame_ok assms(1) by blast
  then have len: "length (hci_packet_buffer ?h) = 1025" by (simp add: hci_ok_def)
  have n: "12 + length (sig_data args) \<le> 1025" using assms(2) by (simp add: sig_ok_def)
  obtain buf where b: "l2cap_create_signaling_classic ?h handle cmd i args = Ret (buf, of_nat (12 + length (sig_data args)))" "length buf = 1025"
    using sig_format [of cmd args ?h handle i] assms(2) len n by (auto simp: sig_ok_def)
  let ?g = "?h\<lparr>hci_packet_buffer := buf\<rparr>"
  have g: "hci_frame (l2_hci s) ?g" using frame len b(2) by (simp add: hci_frame_def)
  have "unat (of_nat (12 + length (sig_data args)) :: u16) = 12 + length (sig_data args)" using n by (intro unat_of_nat_u16) simp
  then have "returns (hci_send_acl_packet_buffer (transport E) (of_nat (12 + length (sig_data args))) ?g) (\<lambda>(h', err). hci_ok h' \<and> hci_frame ?g h')"
    using hci_frame_ok [OF g assms(1)] n by (intro send_buffer_returns) simp_all
  then obtain h' err where r: "hci_send_acl_packet_buffer (transport E) (of_nat (12 + length (sig_data args))) ?g = Ret (h', err)"
      "hci_ok h'" "hci_frame ?g h'" by (auto elim!: returnsE)
  have "l2cap_send_signaling_packet E handle cmd i args s = Ret (s\<lparr>l2_hci := h'\<rparr>, err)"
    using True b(1) r(1) by (simp add: l2cap_send_signaling_packet_def Let_def del: of_nat_add)
  then show ?thesis using r(2) hci_frame_trans [OF g r(3)] by auto
qed

lemma signal_returns:
  assumes "hci_ok (l2_hci s)" "sig_ok cmd args"
  shows "\<exists>h. l2_signal E handle cmd i args s = Ret (s\<lparr>l2_hci := h\<rparr>) \<and> hci_ok h"
  using send_signaling_returns [OF assms, of E handle i] by (auto simp: l2_signal_def elim!: returnsE)

lemma sig_oks [simp]:
  "sig_ok CONNECTION_RESPONSE [Num a, Num b, Num c, Num d]" "sig_ok CONNECTION_REQUEST [Num a, Num b]"
  "sig_ok DISCONNECTION_REQUEST [Num a, Num b]" "sig_ok DISCONNECTION_RESPONSE [Num a, Num b]"
  "length bs \<le> 1007 \<Longrightarrow> sig_ok CONFIGURE_REQUEST [Num a, Num b, Data bs]"
  "length bs \<le> 1007 \<Longrightarrow> sig_ok CONFIGURE_RESPONSE [Num a, Num b, Num c, Data bs]"
  "length bs \<le> 1007 \<Longrightarrow> sig_ok INFORMATION_RESPONSE [Num a, Num b, Data bs]"
  "length bs \<le> 1007 \<Longrightarrow> sig_ok COMMAND_REJECT [Num a, Data bs]"
  "length bs \<le> 1013 \<Longrightarrow> sig_ok ECHO_RESPONSE [Data bs]" "length bs \<le> 1013 \<Longrightarrow> sig_ok ECHO_REQUEST [Data bs]"
  by (simp_all add: sig_ok_def sig_codes l2cap_signaling_commands_format_def)

end
