(* ===== verification/L2capMachine.thy ===== *)
theory L2capMachine
  imports L2capSend
begin

text \<open>
  An abstract machine for a channel of L2CAP: which state follows which, and what a channel has to
  have seen before it opens.  The invariant of L2CAP, and rules to show that a piece of code returns,
  keeps the invariant, and moves every channel by steps of the machine only.
\<close>

subsection \<open>The machine\<close>

definition chan_id :: "l2cap_channel \<Rightarrow> u16 \<times> l2cap_channel_type \<times> u16 \<times> bytes" where
  "chan_id c = (local_cid c, channel_type c, psm c, l2_address c)"

text \<open>State changes of their own accord, by the peer, by HCI, or by the application.\<close>

inductive state_step :: "L2CAP_STATE \<Rightarrow> L2CAP_STATE \<Rightarrow> bool" where
  stay: "state_step x x"
| paging: "state_step L2CAP_STATE_WILL_SEND_CREATE_CONNECTION L2CAP_STATE_WAIT_CONNECTION_COMPLETE"
| linked: "x \<in> {L2CAP_STATE_WILL_SEND_CREATE_CONNECTION, L2CAP_STATE_WAIT_CONNECTION_COMPLETE} \<Longrightarrow>
    state_step x L2CAP_STATE_WAIT_REMOTE_SUPPORTED_FEATURES"
| link_failed: "x \<in> {L2CAP_STATE_WILL_SEND_CREATE_CONNECTION, L2CAP_STATE_WAIT_CONNECTION_COMPLETE} \<Longrightarrow>
    state_step x L2CAP_STATE_EMIT_OPEN_FAILED_AND_DISCARD"
| secure: "state_step L2CAP_STATE_WAIT_REMOTE_SUPPORTED_FEATURES L2CAP_STATE_WAIT_OUTGOING_SECURITY_LEVEL_UPDATE"
| may_connect: "x \<in> {L2CAP_STATE_WAIT_REMOTE_SUPPORTED_FEATURES, L2CAP_STATE_WAIT_OUTGOING_SECURITY_LEVEL_UPDATE} \<Longrightarrow>
    state_step x L2CAP_STATE_WILL_SEND_CONNECTION_REQUEST"
| requested: "state_step L2CAP_STATE_WILL_SEND_CONNECTION_REQUEST L2CAP_STATE_WAIT_CONNECT_RSP"
| accepted: "x \<in> {L2CAP_STATE_WAIT_CONNECT_RSP, L2CAP_STATE_WILL_SEND_CONNECTION_RESPONSE_ACCEPT} \<Longrightarrow> state_step x L2CAP_STATE_CONFIG"
| asked: "state_step L2CAP_STATE_WAIT_INCOMING_SECURITY_LEVEL_UPDATE L2CAP_STATE_WAIT_CLIENT_ACCEPT_OR_REJECT"
| insecure: "state_step L2CAP_STATE_WAIT_INCOMING_SECURITY_LEVEL_UPDATE L2CAP_STATE_WILL_SEND_CONNECTION_RESPONSE_DECLINE"
| opened: "state_step L2CAP_STATE_CONFIG L2CAP_STATE_OPEN"
| peer_closes: "x \<in> {L2CAP_STATE_CONFIG, L2CAP_STATE_OPEN, L2CAP_STATE_WILL_SEND_DISCONNECT_REQUEST, L2CAP_STATE_WAIT_DISCONNECT} \<Longrightarrow>
    state_step x L2CAP_STATE_WILL_SEND_DISCONNECT_RESPONSE"
| closing: "state_step L2CAP_STATE_WILL_SEND_DISCONNECT_REQUEST L2CAP_STATE_WAIT_DISCONNECT"
| told: "x \<in> {L2CAP_STATE_WILL_SEND_DISCONNECT_REQUEST, L2CAP_STATE_WILL_SEND_CONNECTION_RESPONSE_ACCEPT,
      L2CAP_STATE_WILL_SEND_CONNECTION_RESPONSE_DECLINE} \<Longrightarrow> state_step y x"

inductive_simps state_step_to: "state_step x L2CAP_STATE_OPEN" "state_step x L2CAP_STATE_CONFIG"

text \<open>
  A step of a channel: configuration responses are received and sent in the state for it only, a
  rejected configuration is never sent as accepted, and the channel opens with both responses.
\<close>

definition chan_step :: "l2cap_channel \<Rightarrow> l2cap_channel \<Rightarrow> bool" where
  "chan_step c c' \<longleftrightarrow> chan_id c' = chan_id c \<and> state_step (l2_state c) (l2_state c') \<and>
     (SEND_CONF_RSP_INVALID \<in> l2_var c \<longrightarrow> SEND_CONF_RSP_INVALID \<in> l2_var c') \<and>
     (RCVD_CONF_RSP \<in> l2_var c \<longrightarrow> RCVD_CONF_RSP \<in> l2_var c') \<and>
     (RCVD_CONF_RSP \<in> l2_var c' - l2_var c \<longrightarrow> l2_state c = L2CAP_STATE_CONFIG) \<and>
     (SENT_CONF_RSP \<in> l2_var c' - l2_var c \<longrightarrow> l2_state c = L2CAP_STATE_CONFIG \<and> SEND_CONF_RSP_INVALID \<notin> l2_var c) \<and>
     (SENT_CONF_RSP \<in> l2_var c - l2_var c' \<longrightarrow> l2_state c = L2CAP_STATE_CONFIG \<and> l2_state c' = L2CAP_STATE_CONFIG) \<and>
     (INCOMING \<in> l2_var c' \<longleftrightarrow> INCOMING \<in> l2_var c) \<and>
     (l2_state c' = L2CAP_STATE_OPEN \<and> l2_state c \<noteq> L2CAP_STATE_OPEN \<longrightarrow> {RCVD_CONF_RSP, SENT_CONF_RSP} \<subseteq> l2_var c')"

abbreviation chan_steps :: "l2cap_channel \<Rightarrow> l2cap_channel \<Rightarrow> bool" where
  "chan_steps \<equiv> chan_step\<^sup>*\<^sup>*"

lemma chan_step_refl [simp]: "chan_step c c"
  by (simp add: chan_step_def stay)

lemma chan_steps_id: "chan_steps c c' \<Longrightarrow> chan_id c' = chan_id c"
  by (induction rule: rtranclp_induct) (auto simp: chan_step_def)

lemma chan_id_cid: "chan_id c' = chan_id c \<Longrightarrow> local_cid c' = local_cid c"
  by (simp add: chan_id_def)

text \<open>An open channel has both responses.\<close>

definition open_configured :: "l2cap_channel \<Rightarrow> bool" where
  "open_configured c \<longleftrightarrow> (l2_state c = L2CAP_STATE_OPEN \<longrightarrow> {RCVD_CONF_RSP, SENT_CONF_RSP} \<subseteq> l2_var c)"

lemma open_configured_step:
  assumes "chan_step c c'" "open_configured c"
  shows "open_configured c'"
proof (cases "l2_state c' = L2CAP_STATE_OPEN \<and> l2_state c = L2CAP_STATE_OPEN")
  case True
  then have "l2_state c' \<noteq> L2CAP_STATE_CONFIG" "RCVD_CONF_RSP \<in> l2_var c" "SENT_CONF_RSP \<in> l2_var c"
    using assms(2) by (simp_all add: open_configured_def)
  then have "RCVD_CONF_RSP \<in> l2_var c'" "SENT_CONF_RSP \<in> l2_var c'" using assms(1) unfolding chan_step_def by blast+
  then show ?thesis by (simp add: open_configured_def)
next
  case False
  then show ?thesis using assms(1) unfolding chan_step_def open_configured_def by argo
qed

lemma open_configured_steps: "chan_steps c c' \<Longrightarrow> open_configured c \<Longrightarrow> open_configured c'"
  by (induction rule: rtranclp_induct) (auto elim: open_configured_step)

text \<open>A channel that rejected an option of its peer, and has not accepted its configuration before.\<close>

definition rejected :: "l2cap_channel \<Rightarrow> bool" where
  "rejected c \<longleftrightarrow> SEND_CONF_RSP_INVALID \<in> l2_var c \<and> SENT_CONF_RSP \<notin> l2_var c \<and> l2_state c \<noteq> L2CAP_STATE_OPEN"

lemma rejected_step:
  assumes "chan_step c c'" "rejected c"
  shows "rejected c'"
proof -
  have c: "SEND_CONF_RSP_INVALID \<in> l2_var c" "SENT_CONF_RSP \<notin> l2_var c" "l2_state c \<noteq> L2CAP_STATE_OPEN"
    using assms(2) by (simp_all add: rejected_def)
  have "SEND_CONF_RSP_INVALID \<in> l2_var c'" "SENT_CONF_RSP \<notin> l2_var c'" using assms(1) c(1,2) unfolding chan_step_def by blast+
  moreover from this(2) have "l2_state c' \<noteq> L2CAP_STATE_OPEN" using assms(1) c(3) unfolding chan_step_def by blast
  ultimately show ?thesis by (simp add: rejected_def)
qed

lemma rejected_steps: "chan_steps c c' \<Longrightarrow> rejected c \<Longrightarrow> rejected c'"
  by (induction rule: rtranclp_induct) (auto elim: rejected_step)

text \<open>A channel as it is created, by the application or for the peer.\<close>

definition fresh_channel :: "l2cap_channel \<Rightarrow> bool" where
  "fresh_channel c \<longleftrightarrow> channel_type c = L2CAP_CHANNEL_TYPE_CLASSIC \<and>
     (l2_state c = L2CAP_STATE_WILL_SEND_CREATE_CONNECTION \<and> l2_var c = {} \<or>
      l2_state c = L2CAP_STATE_WAIT_INCOMING_SECURITY_LEVEL_UPDATE \<and> l2_var c = {SEND_CONN_RESP_PEND, INCOMING})"

text \<open>Every channel comes from one before, or from a new one when \<open>cr\<close> says that channels may be created.\<close>

definition l2_follows :: "bool \<Rightarrow> l2 \<Rightarrow> l2 \<Rightarrow> bool" where
  "l2_follows cr s s' \<longleftrightarrow>
     (\<forall>c' \<in> set (l2cap_channels s'). \<exists>c. (c \<in> set (l2cap_channels s) \<or> cr \<and> fresh_channel c) \<and> chan_steps c c')"

lemma follows_refl: "l2_follows cr s s"
  by (auto simp: l2_follows_def)

lemma follows_trans:
  assumes "l2_follows cr s s'" "l2_follows cr s' s''"
  shows "l2_follows cr s s''"
  unfolding l2_follows_def
proof
  fix c'' assume "c'' \<in> set (l2cap_channels s'')"
  then obtain c' where c': "c' \<in> set (l2cap_channels s') \<or> cr \<and> fresh_channel c'" "chan_steps c' c''" using assms(2) by (auto simp: l2_follows_def)
  show "\<exists>c. (c \<in> set (l2cap_channels s) \<or> cr \<and> fresh_channel c) \<and> chan_steps c c''"
  proof (cases "cr \<and> fresh_channel c'")
    case False
    then obtain c where "c \<in> set (l2cap_channels s) \<or> cr \<and> fresh_channel c" "chan_steps c c'" using c'(1) assms(1) by (auto simp: l2_follows_def)
    then show ?thesis using c'(2) by (meson rtranclp_trans)
  qed (use c'(2) in blast)
qed

subsection \<open>The invariant\<close>

definition chan_ok :: "l2cap_channel \<Rightarrow> bool" where
  "chan_ok c \<longleftrightarrow> (channel_type c = L2CAP_CHANNEL_TYPE_CLASSIC \<and> 0x40 \<le> local_cid c \<or>
      channel_type c = L2CAP_CHANNEL_TYPE_CONNECTIONLESS \<and> local_cid c < 0x40) \<and> remote_mtu c \<le> 1017"

definition l2_ok :: "l2 \<Rightarrow> bool" where
  "l2_ok s \<longleftrightarrow> hci_ok (l2_hci s) \<and> distinct (map local_cid (l2cap_channels s)) \<and> (\<forall>c \<in> set (l2cap_channels s). chan_ok c) \<and>
     length (signaling_responses s) \<le> 3 \<and> 0x40 \<le> local_source_cid s"

definition l2_good :: "bool \<Rightarrow> l2 \<Rightarrow> l2 \<Rightarrow> bool" where
  "l2_good cr s s' \<longleftrightarrow> (l2_ok s \<longrightarrow> l2_ok s' \<and> l2_follows cr s s')"

lemma good_refl [simp]: "l2_good cr s s"
  by (simp add: l2_good_def follows_refl)

lemma good_trans: "l2_good cr s s' \<Longrightarrow> l2_good cr s' s'' \<Longrightarrow> l2_good cr s s''"
  using follows_trans by (auto simp: l2_good_def)

lemma good_ok: "l2_good cr s s' \<Longrightarrow> l2_ok s \<Longrightarrow> l2_ok s'"
  by (simp add: l2_good_def)

text \<open>Sequences of code.\<close>

lemma good_bind:
  assumes "l2_ok s" "returns m (l2_good cr s)" "\<And>s'. l2_ok s' \<Longrightarrow> returns (f s') (l2_good cr s')"
  shows "returns (bind_outcome m f) (l2_good cr s)"
proof -
  obtain s' where s': "m = Ret s'" "l2_good cr s s'" using assms(2) by (rule returnsE)
  show ?thesis unfolding s'(1) bind_outcome_simps
    using assms(3) [OF good_ok [OF s'(2) assms(1)]] by (rule returns_mono) (rule good_trans [OF s'(2)])
qed

lemma good_from: "l2_good cr s s1 \<Longrightarrow> returns m (l2_good cr s1) \<Longrightarrow> returns m (l2_good cr s)"
  by (erule returns_mono) (rule good_trans)

subsection \<open>Pieces of code\<close>

text \<open>What is not the list of channels, the responses or HCI does not matter.\<close>

lemma good_same:
  assumes "l2cap_channels s' = l2cap_channels s" "hci_ok (l2_hci s) \<Longrightarrow> hci_ok (l2_hci s')"
    "length (signaling_responses s) \<le> 3 \<Longrightarrow> length (signaling_responses s') \<le> 3" "local_source_cid s' = local_source_cid s"
  shows "l2_good cr s s'"
  using assms by (auto simp: l2_good_def l2_ok_def l2_follows_def)

lemma good_act [simp]: "l2_good cr s (l2_act a s)"
  by (rule good_same) (simp_all add: l2_act_def)

lemma l2_act_simps [simp]:
  "l2cap_channels (l2_act a s) = l2cap_channels s" "l2_hci (l2_act a s) = l2_hci s" "signaling_responses (l2_act a s) = signaling_responses s"
  "local_source_cid (l2_act a s) = local_source_cid s"
  by (simp_all add: l2_act_def)

lemmas emit_defs = l2cap_handle_channel_open_failed_def l2cap_handle_channel_closed_def l2cap_emit_channel_opened_def
  l2cap_emit_channel_closed_def l2cap_emit_simple_event_with_cid_def l2cap_emit_incoming_connection_def l2cap_emit_can_send_now_def
  l2cap_dispatch_to_channel_def

lemma good_map:
  assumes "\<And>c. c \<in> set (l2cap_channels s) \<Longrightarrow> chan_ok c \<Longrightarrow> chan_steps c (f c) \<and> (remote_mtu c \<le> 1017 \<longrightarrow> remote_mtu (f c) \<le> 1017)"
  shows "l2_good cr s (s\<lparr>l2cap_channels := map f (l2cap_channels s)\<rparr>)"
  unfolding l2_good_def
proof
  assume ok: "l2_ok s"
  then have step: "chan_steps c (f c)" "remote_mtu (f c) \<le> 1017" if "c \<in> set (l2cap_channels s)" for c
    using assms that by (auto simp: l2_ok_def chan_ok_def)
  have id: "chan_id (f c) = chan_id c" if "c \<in> set (l2cap_channels s)" for c using step(1) [OF that] by (rule chan_steps_id)
  then have cids: "map local_cid (map f (l2cap_channels s)) = map local_cid (l2cap_channels s)" by (auto simp: chan_id_def)
  have chans: "chan_ok (f c)" if "c \<in> set (l2cap_channels s)" for c
    using id [OF that] step(2) [OF that] ok that by (auto simp: l2_ok_def chan_ok_def chan_id_def)
  have "distinct (map local_cid (map f (l2cap_channels s)))" unfolding cids using ok by (simp add: l2_ok_def)
  then show "l2_ok (s\<lparr>l2cap_channels := map f (l2cap_channels s)\<rparr>) \<and> l2_follows cr s (s\<lparr>l2cap_channels := map f (l2cap_channels s)\<rparr>)"
    using ok chans step(1) by (auto simp: l2_ok_def l2_follows_def)
qed

lemma found: "l2cap_channel_item_by_cid s cid = Some c \<Longrightarrow> c \<in> set (l2cap_channels s) \<and> local_cid c = cid"
  by (auto simp: l2cap_channel_item_by_cid_def find_Some_iff)

lemma chan_found: "l2_chan s cid = Ret c \<Longrightarrow> c \<in> set (l2cap_channels s) \<and> local_cid c = cid"
  by (auto simp: l2_chan_def dest: found split: option.splits)

lemma find_member: "distinct (map f xs) \<Longrightarrow> x \<in> set xs \<Longrightarrow> find (\<lambda>y. f y = f x) xs = Some x"
  by (induction xs) (auto simp: image_iff)

lemma chan_member: "l2_ok s \<Longrightarrow> c \<in> set (l2cap_channels s) \<Longrightarrow> l2_chan s (local_cid c) = Ret c"
  using find_member [of local_cid "l2cap_channels s" c] by (simp add: l2_ok_def l2_chan_def l2cap_channel_item_by_cid_def)

lemma good_upd:
  assumes "\<And>c. l2_chan s cid = Ret c \<Longrightarrow> chan_steps c (f c) \<and> (remote_mtu c \<le> 1017 \<longrightarrow> remote_mtu (f c) \<le> 1017)"
  shows "l2_good cr s (l2_upd cid f s)"
proof -
  have "l2_good cr s (l2_upd cid f s)" if "l2_ok s"
    unfolding l2_upd_def using assms chan_member [OF that] by (intro good_map) auto
  then show ?thesis by (auto simp: l2_good_def)
qed

lemma upd_simps [simp]:
  "l2_hci (l2_upd cid f s) = l2_hci s" "signaling_responses (l2_upd cid f s) = signaling_responses s"
  "local_source_cid (l2_upd cid f s) = local_source_cid s"
  "l2_actions (l2_upd cid f s) = l2_actions s"
  by (simp_all add: l2_upd_def)

lemma find_map_upd:
  "(\<And>c. local_cid c = cid \<Longrightarrow> local_cid (f c) = cid) \<Longrightarrow>
    find (\<lambda>c. local_cid c = k) (map (\<lambda>c. if local_cid c = cid then f c else c) cs) =
      map_option (\<lambda>c. if local_cid c = cid then f c else c) (find (\<lambda>c. local_cid c = k) cs)"
  by (induction cs) auto

lemma chan_upd:
  assumes "l2_chan s cid = Ret c" "\<And>c. local_cid c = cid \<Longrightarrow> local_cid (f c) = cid"
  shows "l2_chan (l2_upd cid f s) cid = Ret (f c)"
proof -
  have "local_cid c = cid" using chan_found [OF assms(1)] by simp
  then show ?thesis
    using assms find_map_upd [of cid f cid "l2cap_channels s"]
    by (auto simp: l2_chan_def l2cap_channel_item_by_cid_def l2_upd_def split: option.splits)
qed

lemma set_eq:
  assumes "l2_chan s cid = Ret c" "\<And>c. local_cid c = cid \<Longrightarrow> local_cid (f c) = cid"
  shows "l2_set cid f s = Ret (l2_upd cid f s, f c)"
  using chan_upd [OF assms] by (simp add: l2_set_def)

lemma upd_upd: "(\<And>c. local_cid c = cid \<Longrightarrow> local_cid (f c) = cid) \<Longrightarrow> l2_upd cid g (l2_upd cid f s) = l2_upd cid (g \<circ> f) s"
  by (simp add: l2_upd_def)

lemma chan_cong: "l2cap_channels s' = l2cap_channels s \<Longrightarrow> l2_chan s' cid = l2_chan s cid"
  by (simp add: l2_chan_def l2cap_channel_item_by_cid_def)

lemma good_free: "l2_good cr s (l2cap_free_channel_entry cid s)"
  by (auto simp: l2_good_def l2_ok_def l2_follows_def l2cap_free_channel_entry_def distinct_map_filter)

lemma good_hci: "hci_ok h \<Longrightarrow> l2_good cr s (s\<lparr>l2_hci := h\<rparr>)"
  by (rule good_same) simp_all

end
