(* ===== verification/L2capInv.thy ===== *)
theory L2capInv
  imports L2capMachine
begin

text \<open>
  The run loop of L2CAP and the notification of waiting channels return, keep the invariant and
  follow the machine.
\<close>

text \<open>A step that leaves alone the bits the machine looks at.\<close>

lemma chan_quiet:
  assumes "chan_id c' = chan_id c" "state_step (l2_state c) (l2_state c')" "l2_state c' = L2CAP_STATE_OPEN \<Longrightarrow> l2_state c = L2CAP_STATE_OPEN"
    "l2_var c' \<inter> {SEND_CONF_RSP_INVALID, RCVD_CONF_RSP, SENT_CONF_RSP, INCOMING} = l2_var c \<inter> {SEND_CONF_RSP_INVALID, RCVD_CONF_RSP, SENT_CONF_RSP, INCOMING}"
  shows "chan_steps c c'"
proof -
  have "f \<in> l2_var c' \<longleftrightarrow> f \<in> l2_var c" if "f \<in> {SEND_CONF_RSP_INVALID, RCVD_CONF_RSP, SENT_CONF_RSP, INCOMING}" for f
    using assms(4) that by blast
  then have "chan_step c c'" unfolding chan_step_def using assms(1-3) by auto
  then show ?thesis by blast
qed

lemma quiet_upd:
  assumes "\<And>c. l2_chan s cid = Ret c \<Longrightarrow> chan_id (f c) = chan_id c \<and> state_step (l2_state c) (l2_state (f c)) \<and>
     (l2_state (f c) = L2CAP_STATE_OPEN \<longrightarrow> l2_state c = L2CAP_STATE_OPEN) \<and>
     l2_var (f c) \<inter> {SEND_CONF_RSP_INVALID, RCVD_CONF_RSP, SENT_CONF_RSP, INCOMING} =
       l2_var c \<inter> {SEND_CONF_RSP_INVALID, RCVD_CONF_RSP, SENT_CONF_RSP, INCOMING} \<and> remote_mtu (f c) = remote_mtu c"
  shows "l2_good cr s (l2_upd cid f s)"
  using assms by (intro good_upd conjI chan_quiet) auto

lemmas chan_edits = chan_id_def channelStateVarSetFlag_def channelStateVarClearFlag_def l2cap_start_rtx_def l2cap_stop_rtx_def
  l2cap_start_ertx_def comp_def

lemma free_upd:
  assumes "\<And>c. local_cid c = cid \<Longrightarrow> local_cid (f c) = cid"
  shows "l2cap_free_channel_entry cid (l2_upd cid f s) = l2cap_free_channel_entry cid s"
proof -
  have "filter (\<lambda>c. local_cid c \<noteq> cid) (map (\<lambda>c. if local_cid c = cid then f c else c) cs) = filter (\<lambda>c. local_cid c \<noteq> cid) cs" for cs
    using assms by (induction cs) auto
  then show ?thesis by (simp add: l2cap_free_channel_entry_def l2_upd_def)
qed

lemma free_simps [simp]:
  "l2_hci (l2cap_free_channel_entry cid s) = l2_hci s" "signaling_responses (l2cap_free_channel_entry cid s) = signaling_responses s"
  "l2cap_free_channel_entry cid (s\<lparr>l2_hci := h\<rparr>) = (l2cap_free_channel_entry cid s)\<lparr>l2_hci := h\<rparr>"
  "l2cap_free_channel_entry cid (l2_act a s) = l2_act a (l2cap_free_channel_entry cid s)"
  by (simp_all add: l2cap_free_channel_entry_def l2_act_def)

lemma hci_upd [simp]: "l2_upd cid f (s\<lparr>l2_hci := h\<rparr>) = (l2_upd cid f s)\<lparr>l2_hci := h\<rparr>" "l2_chan (s\<lparr>l2_hci := h\<rparr>) cid = l2_chan s cid"
  by (simp_all add: l2_upd_def l2_chan_def l2cap_channel_item_by_cid_def)

lemma next_sig_id_facts:
  "l2cap_next_sig_id s = (s', n) \<Longrightarrow> l2_good cr s s' \<and> l2_chan s' cid = l2_chan s cid \<and> l2_hci s' = l2_hci s"
  by (auto simp: l2cap_next_sig_id_def Let_def l2_chan_def l2cap_channel_item_by_cid_def intro!: good_same)

lemma ok_hci: "l2_ok s \<Longrightarrow> hci_ok (l2_hci s)"
  by (simp add: l2_ok_def)

text \<open>A channel is changed, and a command that depends on it is sent.\<close>

lemma set_signal:
  assumes "l2_chan s cid = Ret c" "hci_ok (l2_hci s)" "\<And>c. chan_id (f c) = chan_id c" "sig_ok cmd (args (f c))"
  obtains h where "bind_outcome (l2_set cid f s) (\<lambda>(s, c). l2_signal E (hdl c) cmd (i c) (args c) s) = Ret ((l2_upd cid f s)\<lparr>l2_hci := h\<rparr>)" "hci_ok h"
proof -
  have id: "local_cid (f c) = cid" if "local_cid c = cid" for c using assms(3) [of c] that by (simp add: chan_id_def)
  have "hci_ok (l2_hci (l2_upd cid f s))" using assms(2) by simp
  then obtain h where "l2_signal E (hdl (f c)) cmd (i (f c)) (args (f c)) (l2_upd cid f s) = Ret ((l2_upd cid f s)\<lparr>l2_hci := h\<rparr>)" "hci_ok h"
    using signal_returns [OF _ assms(4)] by blast
  then show ?thesis using set_eq [OF assms(1) id] that by simp
qed

lemma pending_response_good:
  assumes "l2_ok s" "l2_chan s cid = Ret c"
  shows "returns (run_pending_response E cid s) (l2_good cr s)"
proof (cases "SEND_CONN_RESP_PEND \<in> l2_var c")
  case True
  obtain h where h: "bind_outcome (l2_set cid (channelStateVarClearFlag SEND_CONN_RESP_PEND) s)
      (\<lambda>(s, c). l2_signal E (l2_handle c) CONNECTION_RESPONSE (remote_sig_id c) [Num (local_cid c), Num (remote_cid c), Num 1, Num 0] s) =
      Ret ((l2_upd cid (channelStateVarClearFlag SEND_CONN_RESP_PEND) s)\<lparr>l2_hci := h\<rparr>)" "hci_ok h"
    by (rule set_signal [OF assms(2) ok_hci [OF assms(1)], of "channelStateVarClearFlag SEND_CONN_RESP_PEND" CONNECTION_RESPONSE
        "\<lambda>c. [Num (local_cid c), Num (remote_cid c), Num 1, Num 0]" E l2_handle remote_sig_id]) (simp_all add: chan_edits)
  have "l2_good cr s (l2_upd cid (channelStateVarClearFlag SEND_CONN_RESP_PEND) s)"
    by (rule quiet_upd) (auto simp: chan_edits stay)
  then have "l2_good cr s ((l2_upd cid (channelStateVarClearFlag SEND_CONN_RESP_PEND) s)\<lparr>l2_hci := h\<rparr>)"
    using good_hci [OF h(2)] by (rule good_trans)
  then show ?thesis using True h(1) assms(2) by (simp add: run_pending_response_def)
qed (simp add: run_pending_response_def assms(2))

lemma create_connection_good:
  assumes "l2_ok s" "l2_chan s cid = Ret c" "l2_state c = L2CAP_STATE_WILL_SEND_CREATE_CONNECTION"
  shows "returns (run_create_connection E cid s) (l2_good cr s)"
proof -
  let ?f = "\<lambda>c. c\<lparr>l2_state := L2CAP_STATE_WAIT_CONNECTION_COMPLETE\<rparr> :: l2cap_channel"
  have "l2_good cr s (l2_upd cid ?f s)" by (rule quiet_upd) (use assms(2,3) in \<open>auto simp: chan_edits paging\<close>)
  moreover have "l2_good cr s1 (s1\<lparr>l2cap_outgoing_classic_addr := a\<rparr>)" for s1 a by (rule good_same) simp_all
  ultimately have "l2_good cr s (l2_act x ((l2_upd cid ?f s)\<lparr>l2cap_outgoing_classic_addr := a\<rparr>))" for x a
    using good_act good_trans by blast
  then show ?thesis by (simp add: run_create_connection_def set_eq [OF assms(2)])
qed

lemma decline_good:
  assumes "l2_ok s" "l2_chan s cid = Ret c"
  shows "returns (run_decline E cid s) (l2_good cr s)"
proof -
  let ?f = "\<lambda>c. c\<lparr>l2_state := L2CAP_STATE_INVALID\<rparr> :: l2cap_channel"
  obtain h where h: "bind_outcome (l2_set cid ?f s) (\<lambda>(s, c). l2_signal E (l2_handle c) CONNECTION_RESPONSE (remote_sig_id c)
        [Num (local_cid c), Num (remote_cid c), Num (ucast (l2_reason c)), Num 0] s) = Ret ((l2_upd cid ?f s)\<lparr>l2_hci := h\<rparr>)" "hci_ok h"
    by (rule set_signal [OF assms(2) ok_hci [OF assms(1)], of ?f CONNECTION_RESPONSE
        "\<lambda>c. [Num (local_cid c), Num (remote_cid c), Num (ucast (l2_reason c)), Num 0]" E l2_handle remote_sig_id]) (simp_all add: chan_edits)
  have "run_decline E cid s = Ret ((l2cap_free_channel_entry cid s)\<lparr>l2_hci := h\<rparr>)"
    using h(1) set_eq [OF assms(2), of ?f] free_upd [of cid ?f s] by (auto simp: run_decline_def)
  then show ?thesis using good_trans [OF good_free good_hci [OF h(2)]] by simp
qed

lemma accept_good:
  assumes "l2_ok s" "l2_chan s cid = Ret c" "l2_state c = L2CAP_STATE_WILL_SEND_CONNECTION_RESPONSE_ACCEPT"
  shows "returns (run_accept E cid s) (l2_good cr s)"
proof -
  let ?f = "channelStateVarSetFlag SEND_CONF_REQ \<circ> (\<lambda>c. c\<lparr>l2_state := L2CAP_STATE_CONFIG\<rparr>)"
  obtain h where h: "bind_outcome (l2_set cid ?f s) (\<lambda>(s, c). l2_signal E (l2_handle c) CONNECTION_RESPONSE (remote_sig_id c)
        [Num (local_cid c), Num (remote_cid c), Num 0, Num 0] s) = Ret ((l2_upd cid ?f s)\<lparr>l2_hci := h\<rparr>)" "hci_ok h"
    by (rule set_signal [OF assms(2) ok_hci [OF assms(1)], of ?f CONNECTION_RESPONSE
        "\<lambda>c. [Num (local_cid c), Num (remote_cid c), Num 0, Num 0]" E l2_handle remote_sig_id]) (simp_all add: chan_edits)
  have "l2_good cr s (l2_upd cid ?f s)" by (rule quiet_upd) (use assms(2,3) in \<open>auto simp: chan_edits accepted\<close>)
  then show ?thesis using h(1) good_trans [OF _ good_hci [OF h(2)]] by (simp add: run_accept_def)
qed

lemma start_rtx_good: "l2_good cr s (l2_upd cid l2cap_start_rtx s)"
  by (rule quiet_upd) (simp add: chan_edits stay)

lemma connection_request_good:
  assumes "l2_ok s" "l2_chan s cid = Ret c" "l2_state c = L2CAP_STATE_WILL_SEND_CONNECTION_REQUEST"
  shows "returns (run_connection_request E cid s) (l2_good cr s)"
proof -
  obtain s1 n where next_id: "l2cap_next_sig_id s = (s1, n)" by fastforce
  let ?f = "\<lambda>c. c\<lparr>local_sig_id := n, l2_state := L2CAP_STATE_WAIT_CONNECT_RSP\<rparr> :: l2cap_channel"
  have chan: "l2_chan s1 cid = Ret c" and hci: "hci_ok (l2_hci s1)" and good: "l2_good cr s s1"
    using next_sig_id_facts [OF next_id, where cid = cid and cr = cr] assms(1,2) by (simp_all add: ok_hci)
  obtain h where h: "bind_outcome (l2_set cid ?f s1) (\<lambda>(s, c). l2_signal E (l2_handle c) CONNECTION_REQUEST (local_sig_id c)
        [Num (psm c), Num (local_cid c)] s) = Ret ((l2_upd cid ?f s1)\<lparr>l2_hci := h\<rparr>)" "hci_ok h"
    by (rule set_signal [OF chan hci, of ?f CONNECTION_REQUEST "\<lambda>c. [Num (psm c), Num (local_cid c)]" E l2_handle local_sig_id])
      (simp_all add: chan_edits)
  have "l2_good cr s1 (l2_upd cid ?f s1)" by (rule quiet_upd) (use chan assms(3) in \<open>auto simp: chan_edits requested\<close>)
  then have "l2_good cr s ((l2_upd cid ?f s1)\<lparr>l2_hci := h\<rparr>)" using good_trans [OF good_trans [OF good]] good_hci [OF h(2)] by blast
  then have "l2_good cr s (l2_upd cid l2cap_start_rtx ((l2_upd cid ?f s1)\<lparr>l2_hci := h\<rparr>))"
    by (rule good_trans) (rule start_rtx_good)
  moreover have set: "l2_set cid ?f s1 = Ret (l2_upd cid ?f s1, ?f c)" by (rule set_eq [OF chan]) simp
  then have "run_connection_request E cid s = Ret (l2_upd cid l2cap_start_rtx ((l2_upd cid ?f s1)\<lparr>l2_hci := h\<rparr>))"
    using h(1) set unfolding run_connection_request_def next_id by simp
  ultimately show ?thesis by (simp only: returns_simps)
qed

lemma disconnect_request_good:
  assumes "l2_ok s" "l2_chan s cid = Ret c" "l2_state c = L2CAP_STATE_WILL_SEND_DISCONNECT_REQUEST"
  shows "returns (run_disconnect_request E cid s) (l2_good cr s)"
proof -
  obtain s1 n where next_id: "l2cap_next_sig_id s = (s1, n)" by fastforce
  let ?f = "\<lambda>c. c\<lparr>local_sig_id := n, l2_state := L2CAP_STATE_WAIT_DISCONNECT\<rparr> :: l2cap_channel"
  have chan: "l2_chan s1 cid = Ret c" and hci: "hci_ok (l2_hci s1)" and good: "l2_good cr s s1"
    using next_sig_id_facts [OF next_id, where cid = cid and cr = cr] assms(1,2) by (simp_all add: ok_hci)
  obtain h where h: "bind_outcome (l2_set cid ?f s1) (\<lambda>(s, c). l2_signal E (l2_handle c) DISCONNECTION_REQUEST (local_sig_id c)
        [Num (remote_cid c), Num (local_cid c)] s) = Ret ((l2_upd cid ?f s1)\<lparr>l2_hci := h\<rparr>)" "hci_ok h"
    by (rule set_signal [OF chan hci, of ?f DISCONNECTION_REQUEST "\<lambda>c. [Num (remote_cid c), Num (local_cid c)]" E l2_handle local_sig_id])
      (simp_all add: chan_edits)
  have "l2_good cr s1 (l2_upd cid ?f s1)" by (rule quiet_upd) (use chan assms(3) in \<open>auto simp: chan_edits closing\<close>)
  then have "l2_good cr s ((l2_upd cid ?f s1)\<lparr>l2_hci := h\<rparr>)" using good_hci [OF h(2)] good good_trans by blast
  then show ?thesis using h(1) by (simp add: run_disconnect_request_def next_id)
qed

lemma finalize_good: "l2_good cr s (l2cap_finialize_channel_close c s)"
  unfolding l2cap_finialize_channel_close_def emit_defs using good_act good_free good_trans by blast

lemma disconnect_response_good:
  assumes "l2_ok s" "l2_chan s cid = Ret c"
  shows "returns (run_disconnect_response E cid s) (l2_good cr s)"
proof -
  let ?f = "\<lambda>c. c\<lparr>l2_state := L2CAP_STATE_INVALID\<rparr> :: l2cap_channel"
  obtain h where h: "bind_outcome (l2_set cid ?f s) (\<lambda>(s, c). l2_signal E (l2_handle c) DISCONNECTION_RESPONSE (remote_sig_id c)
        [Num (local_cid c), Num (remote_cid c)] s) = Ret ((l2_upd cid ?f s)\<lparr>l2_hci := h\<rparr>)" "hci_ok h"
    by (rule set_signal [OF assms(2) ok_hci [OF assms(1)], of ?f DISCONNECTION_RESPONSE "\<lambda>c. [Num (local_cid c), Num (remote_cid c)]"
        E l2_handle remote_sig_id]) (simp_all add: chan_edits)
  have cid: "local_cid c = cid" using chan_found [OF assms(2)] by simp
  have chan: "l2_chan (l2_upd cid ?f s) cid = Ret (?f c)" by (rule chan_upd [OF assms(2)]) simp
  have "run_disconnect_response E cid s = Ret (l2cap_finialize_channel_close (?f c) ((l2_upd cid ?f s)\<lparr>l2_hci := h\<rparr>))"
    using h(1) set_eq [OF assms(2), of ?f] chan by (auto simp: run_disconnect_response_def)
  also have "\<dots> = Ret (l2_act (L2Event (l2_handler c) cid ([0x71, 2] @ le16 cid)) ((l2cap_free_channel_entry cid s)\<lparr>l2_hci := h\<rparr>))"
    using cid free_upd [of cid ?f s] by (simp add: l2cap_finialize_channel_close_def emit_defs)
  finally show ?thesis using good_trans [OF good_trans [OF good_free good_hci [OF h(2)]] good_act] by simp
qed

lemma set_set:
  assumes "l2_chan s cid = Ret c" "\<And>c. local_cid (g c) = local_cid c" "\<And>c. local_cid (f c) = local_cid c"
  shows "l2_set cid f (l2_upd cid g s) = Ret (l2_upd cid (f \<circ> g) s, f (g c))"
  using set_eq [OF chan_upd [OF assms(1)], of g f] upd_upd [of cid g f s] assms(2,3) by simp

text \<open>A channel in the state of configuration, and maybe beyond it.\<close>

definition configuring :: "u16 \<Rightarrow> l2 \<Rightarrow> bool" where
  "configuring cid s \<longleftrightarrow> (\<exists>c. l2_chan s cid = Ret c \<and> l2_state c = L2CAP_STATE_CONFIG)"

definition settled :: "u16 \<Rightarrow> l2 \<Rightarrow> bool" where
  "settled cid s \<longleftrightarrow> (\<exists>c. l2_chan s cid = Ret c \<and> l2_state c \<in> {L2CAP_STATE_CONFIG, L2CAP_STATE_OPEN})"

lemma configuring_settled: "configuring cid s \<Longrightarrow> settled cid s"
  by (auto simp: configuring_def settled_def)

lemma chan_act [simp]: "l2_chan (l2_act a s) cid = l2_chan s cid"
  by (rule chan_cong) simp

lemma chan_addr [simp]: "l2_chan (s\<lparr>l2cap_outgoing_classic_addr := a\<rparr>) cid = l2_chan s cid"
  by (rule chan_cong) simp

lemma configuring_upd:
  assumes "configuring cid s" "\<And>c. local_cid (f c) = local_cid c" "\<And>c. l2_state (f c) = l2_state c"
  shows "configuring cid (l2_upd cid f s)"
  using assms chan_upd [of s cid _ f] by (fastforce simp: configuring_def)

lemma configuring_hci: "configuring cid s \<Longrightarrow> configuring cid (s\<lparr>l2_hci := h\<rparr>)"
  by (simp add: configuring_def)

text \<open>The response to a configuration: three assignments, then the command.\<close>

definition config_edit :: "l2cap_channel \<Rightarrow> l2cap_channel \<Rightarrow> l2cap_channel" where
  "config_edit c =
     (if SEND_CONF_RSP_INVALID \<in> l2_var c then channelStateVarClearFlag SENT_CONF_RSP
      else if SEND_CONF_RSP_MTU \<in> l2_var c then channelStateVarClearFlag SEND_CONF_RSP_MTU else (\<lambda>c. c)) \<circ>
     ((if SEND_CONF_RSP_CONT \<in> l2_var c then (\<lambda>c. c) else channelStateVarSetFlag SENT_CONF_RSP) \<circ> channelStateVarClearFlag SEND_CONF_RSP)"

text \<open>The arguments of the response.\<close>

definition config_answer :: "l2cap_channel \<Rightarrow> sig_arg list" where
  "config_answer c = [Num (remote_cid c), Num (if SEND_CONF_RSP_CONT \<in> l2_var c then 1 else 0),
     Num (if SEND_CONF_RSP_INVALID \<in> l2_var c then 3 else 0),
     Data (if SEND_CONF_RSP_INVALID \<in> l2_var c \<or> SEND_CONF_RSP_MTU \<notin> l2_var c then [] else l2cap_setup_options_mtu_response c)]"

lemma config_response_sent:
  assumes "l2_ok s" "l2_chan s cid = Ret c"
  obtains h where "run_config_response E cid s =
      Ret (l2_upd cid (channelStateVarClearFlag SEND_CONF_RSP_CONT) ((l2_upd cid (config_edit c) s)\<lparr>l2_hci := h\<rparr>))" "hci_ok h"
    "l2_signal E (l2_handle c) CONFIGURE_RESPONSE (remote_sig_id c) (config_answer c) (l2_upd cid (config_edit c) s) =
      Ret ((l2_upd cid (config_edit c) s)\<lparr>l2_hci := h\<rparr>)"
proof -
  let ?f0 = "channelStateVarClearFlag SEND_CONF_RSP"
  let ?f1 = "if SEND_CONF_RSP_CONT \<in> l2_var c then \<lambda>c. c else channelStateVarSetFlag SENT_CONF_RSP"
  let ?f2 = "if SEND_CONF_RSP_INVALID \<in> l2_var c then channelStateVarClearFlag SENT_CONF_RSP
    else if SEND_CONF_RSP_MTU \<in> l2_var c then channelStateVarClearFlag SEND_CONF_RSP_MTU else (\<lambda>c. c)"
  let ?F = "?f2 \<circ> (?f1 \<circ> ?f0)"
  have id: "local_cid (?f0 c') = local_cid c'" "local_cid (?f1 c') = local_cid c'" "local_cid (?f2 c') = local_cid c'" for c'
    by (simp_all add: chan_edits)
  define args where "args = (\<lambda>c'. [Num (remote_cid c'), Num (if SEND_CONF_RSP_CONT \<in> l2_var c then 1 else 0),
    Num (if SEND_CONF_RSP_INVALID \<in> l2_var c then 3 else 0),
    Data (if SEND_CONF_RSP_INVALID \<in> l2_var c \<or> SEND_CONF_RSP_MTU \<notin> l2_var c then [] else l2cap_setup_options_mtu_response c')])"
  have sig: "sig_ok CONFIGURE_RESPONSE (args c')" for c'
    by (simp add: args_def l2cap_setup_options_mtu_response_def l2cap_setup_options_mtu_def)
  have hci: "hci_ok (l2_hci (l2_upd cid ?F s))" using ok_hci [OF assms(1)] by simp
  obtain h where h: "l2_signal E (l2_handle (?F c)) CONFIGURE_RESPONSE (remote_sig_id (?F c)) (args (?F c)) (l2_upd cid ?F s) =
      Ret ((l2_upd cid ?F s)\<lparr>l2_hci := h\<rparr>)" "hci_ok h"
    using signal_returns [OF hci sig] by blast
  note sets = set_eq [OF assms(2), of ?f0] set_set [OF assms(2), of ?f0 ?f1] set_set [OF assms(2), of "?f1 \<circ> ?f0" ?f2]
  have vars: "SEND_CONF_RSP_CONT \<in> l2_var (?f0 c) \<longleftrightarrow> SEND_CONF_RSP_CONT \<in> l2_var c"
      "SEND_CONF_RSP_INVALID \<in> l2_var (?f1 (?f0 c)) \<longleftrightarrow> SEND_CONF_RSP_INVALID \<in> l2_var c"
      "SEND_CONF_RSP_MTU \<in> l2_var (?f1 (?f0 c)) \<longleftrightarrow> SEND_CONF_RSP_MTU \<in> l2_var c"
    by (simp_all add: chan_edits)
  have "run_config_response E cid s = Ret (l2_upd cid (channelStateVarClearFlag SEND_CONF_RSP_CONT) ((l2_upd cid ?F s)\<lparr>l2_hci := h\<rparr>))"
    using h(1) sets vars id unfolding run_config_response_def args_def
    by (cases "SEND_CONF_RSP_INVALID \<in> l2_var c"; cases "SEND_CONF_RSP_MTU \<in> l2_var c") (simp_all add: comp_def)
  moreover have "l2_handle (?F c) = l2_handle c" "remote_sig_id (?F c) = remote_sig_id c" "args (?F c) = config_answer c"
    by (simp_all add: args_def config_answer_def l2cap_setup_options_mtu_response_def chan_edits)
  ultimately show ?thesis using h by (intro that [of h]) (simp_all only: config_edit_def)
qed

lemma config_response_eq:
  assumes "l2_ok s" "l2_chan s cid = Ret c"
  obtains h where "run_config_response E cid s =
      Ret (l2_upd cid (channelStateVarClearFlag SEND_CONF_RSP_CONT) ((l2_upd cid (config_edit c) s)\<lparr>l2_hci := h\<rparr>))" "hci_ok h"
  using config_response_sent [OF assms] by blast

lemma config_edit_facts: "chan_id (config_edit c d) = chan_id d" "local_cid (config_edit c d) = local_cid d"
  "l2_state (config_edit c d) = l2_state d" "remote_mtu (config_edit c d) = remote_mtu d" "l2_handler (config_edit c d) = l2_handler d"
  by (simp_all add: config_edit_def chan_edits)

lemma config_response_good:
  assumes "l2_ok s" "l2_chan s cid = Ret c" "l2_state c = L2CAP_STATE_CONFIG"
  shows "returns (run_config_response E cid s) (\<lambda>s'. l2_good cr s s' \<and> configuring cid s')"
proof -
  have "chan_step c (config_edit c c)"
    unfolding chan_step_def using assms(3) by (auto simp: config_edit_def chan_edits stay)
  then have good: "l2_good cr s (l2_upd cid (config_edit c) s)"
    using assms(2) config_edit_facts(4) by (intro good_upd) auto
  obtain h where h: "run_config_response E cid s =
      Ret (l2_upd cid (channelStateVarClearFlag SEND_CONF_RSP_CONT) ((l2_upd cid (config_edit c) s)\<lparr>l2_hci := h\<rparr>))" "hci_ok h"
    by (rule config_response_eq [OF assms(1,2)])
  have "l2_good cr s1 (l2_upd cid (channelStateVarClearFlag SEND_CONF_RSP_CONT) s1)" for s1
    by (rule quiet_upd) (auto simp: chan_edits stay)
  moreover have "configuring cid (l2_upd cid (channelStateVarClearFlag SEND_CONF_RSP_CONT) ((l2_upd cid (config_edit c) s)\<lparr>l2_hci := h\<rparr>))"
    using assms(2,3) by (intro configuring_upd configuring_hci config_edit_facts) (simp_all add: configuring_def chan_edits)
  ultimately show ?thesis
    using good_trans [OF good_trans [OF good good_hci [OF h(2)]]] unfolding h(1) by (simp only: returns_simps simp_thms)
qed

text \<open>The last response opens the channel, and the application is told.\<close>

lemma run_config_opens:
  assumes "l2_ok s" "l2_chan s cid = Ret c" "l2_state c = L2CAP_STATE_CONFIG" "{RCVD_CONF_RSP, SEND_CONF_RSP} \<subseteq> l2_var c"
    "SEND_CONF_RSP_CONT \<notin> l2_var c" "SEND_CONF_RSP_INVALID \<notin> l2_var c"
  shows "\<exists>s' c'. run_config E cid s = Ret s' \<and> l2_chan s' cid = Ret c' \<and> l2_state c' = L2CAP_STATE_OPEN \<and> remote_cid c' = remote_cid c \<and>
    (\<exists>event. l2_actions s' = l2_actions s @ [L2Event (l2_handler c) cid ([0x70, 24, 0] @ event)]) \<and>
    l2_signal E (l2_handle c) CONFIGURE_RESPONSE (remote_sig_id c) (config_answer c) (l2_upd cid (config_edit c) s) =
      Ret ((l2_upd cid (config_edit c) s)\<lparr>l2_hci := l2_hci s'\<rparr>)"
proof -
  let ?clear = "channelStateVarClearFlag SEND_CONF_RSP_CONT"
  obtain h where h: "run_config_response E cid s = Ret (l2_upd cid ?clear ((l2_upd cid (config_edit c) s)\<lparr>l2_hci := h\<rparr>))" "hci_ok h"
      "l2_signal E (l2_handle c) CONFIGURE_RESPONSE (remote_sig_id c) (config_answer c) (l2_upd cid (config_edit c) s) =
        Ret ((l2_upd cid (config_edit c) s)\<lparr>l2_hci := h\<rparr>)"
    by (rule config_response_sent [OF assms(1,2)])
  let ?s = "l2_upd cid ?clear ((l2_upd cid (config_edit c) s)\<lparr>l2_hci := h\<rparr>)"
  let ?d = "?clear (config_edit c c)"
  let ?open = "\<lambda>c. c\<lparr>l2_state := L2CAP_STATE_OPEN\<rparr> :: l2cap_channel"
  have "l2_chan ((l2_upd cid (config_edit c) s)\<lparr>l2_hci := h\<rparr>) cid = Ret (config_edit c c)"
    using chan_upd [OF assms(2), of "config_edit c"] config_edit_facts(2) by simp
  then have d: "l2_chan ?s cid = Ret ?d" by (rule chan_upd) (simp add: chan_edits)
  have cid: "local_cid c = cid" using chan_found [OF assms(2)] by simp
  have ready: "l2cap_channel_ready_for_open ?d"
    using assms(3-6) by (auto simp: l2cap_channel_ready_for_open_def config_edit_def chan_edits)
  have fields: "l2_handler ?d = l2_handler c" "local_cid ?d = cid" "remote_cid ?d = remote_cid c"
    using cid by (simp_all add: config_edit_def chan_edits)
  have "run_config E cid s = open_if_ready cid ?s" using h(1) assms(2,4) by (simp add: run_config_def)
  also have "\<dots> = Ret (l2cap_emit_channel_opened 0 (?open ?d) (l2_upd cid ?open ?s))"
    using d ready set_eq [OF d, of ?open] by (simp add: open_if_ready_def)
  finally have run: "run_config E cid s = Ret (l2cap_emit_channel_opened 0 (?open ?d) (l2_upd cid ?open ?s))" .
  have "l2_chan (l2_upd cid ?open ?s) cid = Ret (?open ?d)" by (rule chan_upd [OF d]) simp
  then show ?thesis
    using fields h(3) by (simp add: run emit_defs l2_act_def l2_upd_def [of _ _ s]) (simp add: l2_chan_def l2cap_channel_item_by_cid_def)
qed

lemma config_request_good:
  assumes "l2_ok s" "configuring cid s"
  shows "returns (run_config_request E cid s) (\<lambda>s'. l2_good cr s s' \<and> configuring cid s')"
proof -
  let ?f = "channelStateVarSetFlag SENT_CONF_REQ \<circ> channelStateVarClearFlag SEND_CONF_REQ"
  obtain s1 n where next_id: "l2cap_next_sig_id (l2_upd cid ?f s) = (s1, n)" by fastforce
  let ?g = "\<lambda>c. c\<lparr>local_sig_id := n\<rparr> :: l2cap_channel"
  have good: "l2_good cr s (l2_upd cid ?f s)" by (rule quiet_upd) (auto simp: chan_edits stay)
  have conf: "configuring cid (l2_upd cid ?f s)" by (rule configuring_upd [OF assms(2)]) (simp_all add: chan_edits)
  have next_good: "l2_good cr (l2_upd cid ?f s) s1" "l2_chan s1 cid = l2_chan (l2_upd cid ?f s) cid" "l2_hci s1 = l2_hci s"
    using next_sig_id_facts [OF next_id, where cid = cid and cr = cr] by simp_all
  then obtain c where c: "l2_chan s1 cid = Ret c" "l2_state c = L2CAP_STATE_CONFIG" using conf by (auto simp: configuring_def)
  have hci: "hci_ok (l2_hci s1)" using next_good(3) assms(1) by (simp add: ok_hci)
  obtain h where h: "bind_outcome (l2_set cid ?g s1) (\<lambda>(s, c). l2_signal E (l2_handle c) CONFIGURE_REQUEST (local_sig_id c)
        [Num (remote_cid c), Num 0, Data (l2cap_setup_options_request c)] s) = Ret ((l2_upd cid ?g s1)\<lparr>l2_hci := h\<rparr>)" "hci_ok h"
    by (rule set_signal [OF c(1) hci, of ?g CONFIGURE_REQUEST "\<lambda>c. [Num (remote_cid c), Num 0, Data (l2cap_setup_options_request c)]"
        E l2_handle local_sig_id]) (simp_all add: chan_edits l2cap_setup_options_request_def l2cap_setup_options_mtu_def)
  let ?s2 = "(l2_upd cid ?g s1)\<lparr>l2_hci := h\<rparr>"
  have "l2_good cr s1 (l2_upd cid ?g s1)" by (rule quiet_upd) (simp add: chan_edits stay)
  then have "l2_good cr s ?s2" using good_trans [OF good_trans [OF good_trans [OF good next_good(1)]]] good_hci [OF h(2)] by blast
  then have "l2_good cr s (l2_upd cid l2cap_start_rtx ?s2)" using start_rtx_good by (rule good_trans)
  moreover have "configuring cid (l2_upd cid l2cap_start_rtx ?s2)"
    using c by (intro configuring_upd configuring_hci) (simp_all add: configuring_def chan_edits)
  moreover have set: "l2_set cid ?g s1 = Ret (l2_upd cid ?g s1, ?g c)" by (rule set_eq [OF c(1)]) simp
  then have "run_config_request E cid s = Ret (l2_upd cid l2cap_start_rtx ?s2)"
    using h(1) set unfolding run_config_request_def Let_def next_id by simp
  ultimately show ?thesis by (simp only: returns_simps simp_thms)
qed

text \<open>The channel opens, if it has both responses.\<close>

lemma open_if_ready_good:
  assumes "settled cid s"
  shows "returns (open_if_ready cid s) (\<lambda>s'. l2_good cr s s' \<and> settled cid s')"
proof -
  obtain c where c: "l2_chan s cid = Ret c" "l2_state c \<in> {L2CAP_STATE_CONFIG, L2CAP_STATE_OPEN}"
    using assms by (auto simp: settled_def)
  let ?f = "\<lambda>c. c\<lparr>l2_state := L2CAP_STATE_OPEN\<rparr> :: l2cap_channel"
  show ?thesis
  proof (cases "l2cap_channel_ready_for_open c")
    case True
    then have state: "l2_state c = L2CAP_STATE_CONFIG" using c(2) by (auto simp: l2cap_channel_ready_for_open_def split: if_splits)
    with True have "chan_step c (?f c)"
      unfolding chan_step_def by (auto simp: chan_id_def opened l2cap_channel_ready_for_open_def split: if_splits)
    then have "l2_good cr s (l2_upd cid ?f s)" using c(1) by (intro good_upd) auto
    moreover have "open_if_ready cid s = Ret (l2cap_emit_channel_opened 0 (?f c) (l2_upd cid ?f s))"
      using True c(1) set_eq [OF c(1), of ?f] by (simp add: open_if_ready_def)
    moreover have "l2_chan (l2_upd cid ?f s) cid = Ret (?f c)" by (rule chan_upd [OF c(1)]) simp
    ultimately show ?thesis using good_trans [OF _ good_act] by (simp add: emit_defs settled_def)
  qed (use assms in \<open>simp add: open_if_ready_def c(1)\<close>)
qed

lemma run_config_good:
  assumes "l2_ok s" "l2_chan s cid = Ret c" "l2_state c = L2CAP_STATE_CONFIG"
  shows "returns (run_config E cid s) (\<lambda>s'. l2_good cr s s' \<and> settled cid s')"
proof -
  have conf: "configuring cid s" using assms by (simp add: configuring_def)
  let ?m = "if SEND_CONF_RSP \<in> l2_var c then run_config_response E cid s
    else if SEND_CONF_REQ \<in> l2_var c then run_config_request E cid s else Ret s"
  have "returns ?m (\<lambda>s'. l2_good cr s s' \<and> configuring cid s')"
    using config_response_good [OF assms, where cr = cr] config_request_good [OF assms(1) conf, where cr = cr] conf by simp
  then obtain s' where s': "?m = Ret s'" "l2_good cr s s'" "configuring cid s'" by (auto elim: returnsE)
  have "run_config E cid s = open_if_ready cid s'" using s'(1) assms(2) by (simp add: run_config_def)
  then show ?thesis
    using open_if_ready_good [OF configuring_settled [OF s'(3)], where cr = cr] good_trans [OF s'(2)] by (auto elim!: returns_mono)
qed

lemma run_classic_good:
  assumes "l2_ok s" "l2_chan s cid = Ret c"
  shows "returns (l2cap_run_for_classic_channel E cid s) (l2_good cr s)"
  unfolding l2cap_run_for_classic_channel_def assms(2) bind_outcome_simps
  by (intro returns_if returns_Ret good_refl create_connection_good [OF assms] decline_good [OF assms] accept_good [OF assms]
      connection_request_good [OF assms] returns_mono [OF run_config_good [OF assms, where cr = cr]] disconnect_response_good [OF assms]
      disconnect_request_good [OF assms] pending_response_good [OF assms]) simp_all

text \<open>No channel disappears but the one at hand.\<close>

definition cids :: "l2 \<Rightarrow> u16 set" where
  "cids s = local_cid ` set (l2cap_channels s)"

lemma cids_simps [simp]:
  "cids (l2_act a s) = cids s" "cids (s\<lparr>l2_hci := h\<rparr>) = cids s" "cids (l2cap_free_channel_entry cid s) = cids s - {cid}"
  "cids (s\<lparr>l2cap_outgoing_classic_addr := b\<rparr>) = cids s" "cids (s\<lparr>signaling_responses := rs\<rparr>) = cids s"
  by (auto simp: cids_def l2_act_def l2cap_free_channel_entry_def)

lemma cids_upd:
  assumes "\<And>c. local_cid (f c) = local_cid c"
  shows "cids (l2_upd cid f s) = cids s"
proof -
  have "map local_cid (map (\<lambda>c. if local_cid c = cid then f c else c) cs) = map local_cid cs" for cs using assms by (induction cs) auto
  then show ?thesis unfolding cids_def l2_upd_def by (metis (no_types, lifting) l2.select_convs(2) l2.surjective l2.update_convs(2) set_map)
qed

lemma cids_chan: "cid \<in> cids s \<longleftrightarrow> (\<exists>c. l2_chan s cid = Ret c)"
proof
  show "\<exists>c. l2_chan s cid = Ret c" if "cid \<in> cids s"
    using that by (auto simp: cids_def l2_chan_def l2cap_channel_item_by_cid_def find_None_iff split: option.splits)
qed (auto simp: cids_def dest!: chan_found)

text \<open>The other channels stay as they are.\<close>

definition keeps :: "u16 \<Rightarrow> l2 \<Rightarrow> l2 outcome \<Rightarrow> bool" where
  "keeps cid s m \<longleftrightarrow> (\<forall>s'. m = Ret s' \<longrightarrow> (\<forall>k. k \<noteq> cid \<longrightarrow> l2_chan s' k = l2_chan s k))"

lemma chan_other_upd:
  assumes "\<And>c. local_cid (f c) = local_cid c" "k \<noteq> cid"
  shows "l2_chan (l2_upd cid f s) k = l2_chan s k"
proof -
  have "find (\<lambda>c. local_cid c = k) (map (\<lambda>c. if local_cid c = cid then f c else c) cs) = find (\<lambda>c. local_cid c = k) cs"
    for cs :: "l2cap_channel list" using assms by (induction cs) auto
  then show ?thesis by (simp add: l2_chan_def l2cap_channel_item_by_cid_def l2_upd_def)
qed

lemma chan_other_free: "k \<noteq> cid \<Longrightarrow> l2_chan (l2cap_free_channel_entry cid s) k = l2_chan s k"
proof -
  assume k: "k \<noteq> cid"
  have "find (\<lambda>c. local_cid c = k) (filter (\<lambda>c. local_cid c \<noteq> cid) cs) = find (\<lambda>c. local_cid c = k) cs"
    for cs :: "l2cap_channel list" using k by (induction cs) auto
  then show ?thesis by (simp add: l2_chan_def l2cap_channel_item_by_cid_def l2cap_free_channel_entry_def)
qed

lemma keeps_Ret: "(\<And>k. k \<noteq> cid \<Longrightarrow> l2_chan s' k = l2_chan s k) \<Longrightarrow> keeps cid s (Ret s')"
  by (simp add: keeps_def)

lemma keeps_same: "(\<And>k. k \<noteq> cid \<Longrightarrow> l2_chan t k = l2_chan s k) \<Longrightarrow> keeps cid t m \<Longrightarrow> keeps cid s m"
  by (simp add: keeps_def)

lemma keeps_bind:
  assumes "keeps cid s m" "\<And>s'. keeps cid s' (f s')"
  shows "keeps cid s (bind_outcome m f)"
proof (cases m)
  case (Ret t)
  then have "l2_chan t k = l2_chan s k" if "k \<noteq> cid" for k using assms(1) that by (simp add: keeps_def)
  then show ?thesis unfolding Ret bind_outcome_simps using assms(2) by (rule keeps_same)
qed (simp add: keeps_def)

lemma keeps_chan: "(\<And>c. keeps cid s (f c)) \<Longrightarrow> keeps cid s (bind_outcome (l2_chan s k) f)"
  unfolding keeps_def bind_outcome_Ret by blast

lemma keeps_set:
  assumes "\<And>c. local_cid (g c) = local_cid c" "\<And>s' c. keeps cid s' (f s' c)"
  shows "keeps cid s (bind_outcome (l2_set cid g s) (\<lambda>(s, c). f s c))"
proof -
  have "keeps cid s (bind_outcome (l2_chan (l2_upd cid g s) cid) (\<lambda>c. f (l2_upd cid g s) c))"
    by (rule keeps_same [OF chan_other_upd [of g, OF assms(1)]], assumption) (intro keeps_chan assms(2))
  moreover have "bind_outcome (l2_set cid g s) (\<lambda>(s, c). f s c) =
      bind_outcome (l2_chan (l2_upd cid g s) cid) (\<lambda>c. f (l2_upd cid g s) c)"
    by (cases "l2_chan (l2_upd cid g s) cid") (simp_all add: l2_set_def)
  ultimately show ?thesis by simp
qed

lemma keeps_signal: "keeps cid s (l2_signal E h cmd i args s)"
  by (auto simp: keeps_def l2_signal_def l2cap_send_signaling_packet_def Let_def bind_outcome_Ret split: if_splits)

lemma keeps_next:
  assumes "\<And>s' n. keeps cid s' (f s' n)"
  shows "keeps cid s (case l2cap_next_sig_id s of (s', n) \<Rightarrow> f s' n)"
proof -
  obtain t n where t: "l2cap_next_sig_id s = (t, n)" by fastforce
  then have "l2_chan t k = l2_chan s k" for k using next_sig_id_facts by blast
  then show ?thesis unfolding t prod.case using assms by (rule keeps_same)
qed

lemma keeps_if: "keeps cid s m \<Longrightarrow> keeps cid s m' \<Longrightarrow> keeps cid s (if b then m else m')"
  by simp

lemma keeps_upd: "(\<And>c. local_cid (f c) = local_cid c) \<Longrightarrow> keeps cid s (Ret (l2_upd cid f s))"
  by (rule keeps_Ret) (simp add: chan_other_upd)

lemmas keeps_rules = keeps_if keeps_chan keeps_set keeps_signal keeps_next keeps_upd keeps_bind

lemma keeps_config: "keeps cid s (run_config E cid s)"
proof -
  have "keeps cid s (run_config_response E cid s)" for s
    unfolding run_config_response_def Let_def by (intro keeps_rules) (simp_all add: chan_edits)
  moreover have "keeps cid s (run_config_request E cid s)" for s
    unfolding run_config_request_def Let_def
    by (rule keeps_same [of cid "l2_upd cid (channelStateVarSetFlag SENT_CONF_REQ \<circ> channelStateVarClearFlag SEND_CONF_REQ) s"])
      (simp add: chan_edits chan_other_upd, intro keeps_rules, simp_all add: chan_edits)
  moreover have "keeps cid s (open_if_ready cid s)" for s
    unfolding open_if_ready_def by (intro keeps_rules keeps_Ret) (simp_all add: emit_defs)
  ultimately show ?thesis unfolding run_config_def by (intro keeps_rules keeps_Ret) simp_all
qed

lemma run_classic_keeps: "keeps cid s (l2cap_run_for_classic_channel E cid s)"
proof -
  have "keeps cid s (run_create_connection E cid s)"
    unfolding run_create_connection_def by (intro keeps_rules keeps_Ret) simp_all
  moreover have "keeps cid s (run_decline E cid s)"
    unfolding run_decline_def by (intro keeps_rules keeps_Ret) (simp_all add: chan_other_free)
  moreover have "keeps cid s (run_accept E cid s)"
    unfolding run_accept_def by (intro keeps_rules) (simp add: chan_edits)
  moreover have "keeps cid s (run_connection_request E cid s)"
    unfolding run_connection_request_def by (intro keeps_rules) (simp_all add: chan_edits)
  moreover have "keeps cid s (run_disconnect_response E cid s)"
  proof -
    have "keeps cid s' (bind_outcome (l2_chan s' cid) (\<lambda>c. Ret (l2cap_finialize_channel_close c s')))" for s'
      by (auto simp: keeps_def bind_outcome_Ret l2cap_finialize_channel_close_def emit_defs chan_other_free dest: chan_found)
    then show ?thesis unfolding run_disconnect_response_def by (intro keeps_set keeps_bind keeps_signal) simp_all
  qed
  moreover have "keeps cid s (run_disconnect_request E cid s)"
    unfolding run_disconnect_request_def by (intro keeps_rules) simp
  moreover have "keeps cid s (run_pending_response E cid s)"
    unfolding run_pending_response_def by (intro keeps_rules keeps_Ret) (simp_all add: chan_edits)
  ultimately show ?thesis
    unfolding l2cap_run_for_classic_channel_def by (intro keeps_if keeps_chan keeps_Ret keeps_config) simp_all
qed

subsection \<open>The loops\<close>

lemma signal_good:
  assumes "l2_ok s" "sig_ok cmd args"
  shows "returns (l2_signal E handle cmd i args s) (l2_good cr s)"
proof -
  obtain h where "l2_signal E handle cmd i args s = Ret (s\<lparr>l2_hci := h\<rparr>)" "hci_ok h"
    using signal_returns [OF ok_hci [OF assms(1)] assms(2)] by blast
  then show ?thesis using good_hci by simp
qed

lemma signaling_response_good:
  assumes "l2_ok s"
  shows "returns (signaling_response E r s) (l2_good cr s)"
proof -
  have info: "sig_ok INFORMATION_RESPONSE
      (if rsp_data r = 1 then [Num (rsp_data r), Num 0, Data (le16 x)]
       else if rsp_data r = 2 then [Num (rsp_data r), Num 0, Data (le32 l2cap_extended_features_mask)]
       else if rsp_data r = 3 then [Num (rsp_data r), Num 0, Data [6, 0, 0, 0, 0, 0, 0, 0]]
       else [Num (rsp_data r), Num 1, Data []])" for x by simp
  have block: "returns (Ret (if b then l2_act a s1 else s1)) (l2_good cr s1)" for b a s1 by simp
  show ?thesis
    unfolding signaling_response_def
    by (intro returns_if returns_Ret good_refl signal_good [OF assms] good_bind [OF assms] block info) simp_all
qed

lemma run_responses_good: "l2_ok s \<Longrightarrow> returns (run_responses n E s) (l2_good cr s)"
proof (induction n arbitrary: s)
  case (Suc n)
  show ?case
  proof (cases "signaling_responses s")
    case (Cons r rs)
    have popped: "l2_good cr s (s\<lparr>signaling_responses := rs\<rparr>)" by (rule good_same) (use Cons in simp_all)
    have "returns (bind_outcome (signaling_response E r (s\<lparr>signaling_responses := rs\<rparr>)) (run_responses n E)) (l2_good cr (s\<lparr>signaling_responses := rs\<rparr>))"
      using good_ok [OF popped Suc.prems] signaling_response_good Suc.IH by (intro good_bind) simp_all
    then show ?thesis using good_from [OF popped] Cons by simp
  qed simp
qed simp

lemma run_channels_good:
  "l2_ok s \<Longrightarrow> distinct ks \<Longrightarrow> set ks \<subseteq> cids s \<Longrightarrow> returns (run_channels E ks s) (l2_good cr s)"
proof (induction ks arbitrary: s)
  case (Cons k ks)
  then obtain c where c: "l2_chan s k = Ret c" using cids_chan [of k s] by auto
  show ?case
  proof (cases "channel_type c = L2CAP_CHANNEL_TYPE_CLASSIC")
    case True
    obtain s' where s': "l2cap_run_for_classic_channel E k s = Ret s'" "l2_good cr s s'"
      using run_classic_good [OF Cons.prems(1) c] by (rule returnsE)
    have other: "l2_chan s' j = l2_chan s j" if "j \<noteq> k" for j using run_classic_keeps [of k s E] s'(1) that by (simp add: keeps_def)
    have "j \<in> cids s'" if "j \<in> set ks" for j
    proof -
      have "j \<noteq> k" "j \<in> cids s" using that Cons.prems(2,3) by auto
      then show ?thesis using other [of j] by (simp add: cids_chan)
    qed
    then have "set ks \<subseteq> cids s'" by blast
    then have "returns (run_channels E ks s') (l2_good cr s')" using Cons.IH good_ok [OF s'(2) Cons.prems(1)] Cons.prems(2) by simp
    then show ?thesis using good_from [OF s'(2)] c True s'(1) by simp
  qed (use Cons c in simp)
qed simp

lemma run_good:
  assumes "l2_ok s"
  shows "returns (l2cap_run E s) (l2_good cr s)"
  unfolding l2cap_run_def l2cap_run_signaling_response_def
proof (rule good_bind [OF assms run_responses_good [OF assms]])
  fix s' assume ok: "l2_ok s'"
  then have "distinct (map local_cid (l2cap_channels s'))" by (simp add: l2_ok_def)
  then show "returns (run_channels E (map local_cid (l2cap_channels s')) s') (l2_good cr s')"
    using ok by (intro run_channels_good) (auto simp: cids_def)
qed

text \<open>A channel that is configured or open stays so during a run, whatever becomes of the others.\<close>

lemma run_classic_settled:
  assumes "l2_ok s" "settled j s" "l2cap_run_for_classic_channel E k s = Ret s'"
  shows "settled j s'"
proof (cases "j = k")
  case False
  then show ?thesis using run_classic_keeps [of k s E] assms(2,3) by (simp add: keeps_def settled_def)
next
  case True
  then obtain c where c: "l2_chan s k = Ret c" "l2_state c \<in> {L2CAP_STATE_CONFIG, L2CAP_STATE_OPEN}"
    using assms(2) by (auto simp: settled_def)
  show ?thesis
  proof (cases "l2_state c = L2CAP_STATE_CONFIG \<and> hci_can_send_acl_packet_now (transport E) (l2_hci s) (l2_handle c)")
    case True
    then have "run_config E k s = Ret s'" using assms(3) c by (simp add: l2cap_run_for_classic_channel_def)
    then show ?thesis using run_config_good [OF assms(1) c(1), of E] True \<open>j = k\<close> by simp
  next
    case False
    then have "s' = s" using assms(3) c by (auto simp: l2cap_run_for_classic_channel_def)
    then show ?thesis using assms(2) by simp
  qed
qed

lemma signal_chan: "l2_signal E h cmd i args s = Ret s' \<Longrightarrow> l2_chan s' j = l2_chan s j"
  by (auto simp: l2_signal_def l2cap_send_signaling_packet_def Let_def bind_outcome_Ret split: if_splits)

lemma signaling_response_chan: "signaling_response E r s = Ret s' \<Longrightarrow> l2_chan s' j = l2_chan s j"
  by (auto simp: signaling_response_def bind_outcome_Ret signal_chan split: if_splits)

lemma run_responses_chan: "run_responses n E s = Ret s' \<Longrightarrow> l2_chan s' j = l2_chan s j"
proof (induction n arbitrary: s)
  case (Suc n)
  show ?case
  proof (cases "signaling_responses s")
    case (Cons r rs)
    have popped: "l2_chan (s\<lparr>signaling_responses := rs\<rparr>) j = l2_chan s j" by (rule chan_cong) simp
    show ?thesis
    proof (cases "hci_can_send_acl_packet_now (transport E) (l2_hci s) (rsp_handle r)")
      case True
      then obtain t where t: "signaling_response E r (s\<lparr>signaling_responses := rs\<rparr>) = Ret t" "run_responses n E t = Ret s'"
        using Suc.prems Cons by (auto simp: bind_outcome_Ret)
      show ?thesis using Suc.IH [OF t(2)] signaling_response_chan [OF t(1)] popped by simp
    qed (use Suc.prems Cons in simp)
  qed (use Suc.prems in simp)
qed simp

lemma run_channels_settled:
  "l2_ok s \<Longrightarrow> settled j s \<Longrightarrow> run_channels E ks s = Ret s' \<Longrightarrow> settled j s'"
proof (induction ks arbitrary: s)
  case (Cons k ks)
  obtain c where c: "l2_chan s k = Ret c" using Cons.prems(3) by (auto simp: bind_outcome_Ret)
  show ?case
  proof (cases "channel_type c = L2CAP_CHANNEL_TYPE_CLASSIC")
    case True
    then obtain t where t: "l2cap_run_for_classic_channel E k s = Ret t" "run_channels E ks t = Ret s'"
      using Cons.prems(3) c by (auto simp: bind_outcome_Ret)
    have "l2_good cr s t" using run_classic_good [OF Cons.prems(1) c, of E] t(1) by simp
    then show ?thesis
      using Cons.IH [OF good_ok run_classic_settled t(2)] Cons.prems(1,2) t(1) by blast
  qed (use Cons c in simp)
qed simp

lemma run_settled:
  assumes "l2_ok s" "settled j s" "l2cap_run E s = Ret s'"
  shows "settled j s'"
proof -
  obtain t where t: "run_responses (length (signaling_responses s)) E s = Ret t" "run_channels E (map local_cid (l2cap_channels t)) t = Ret s'"
    using assms(3) by (auto simp: l2cap_run_def l2cap_run_signaling_response_def bind_outcome_Ret)
  have "l2_good cr s t" using run_responses_good [OF assms(1), of "length (signaling_responses s)" E] t(1) by simp
  moreover have "settled j t" using assms(2) run_responses_chan [OF t(1)] by (simp add: settled_def)
  ultimately show ?thesis using run_channels_settled [OF good_ok] assms(1) t(2) by blast
qed

text \<open>Each round of the notification tells one waiting channel less.\<close>

lemma rotate_good:
  assumes "c \<in> set (l2cap_channels s)"
  shows "l2_good cr s (s\<lparr>l2cap_channels := filter (\<lambda>d. local_cid d \<noteq> local_cid c) (l2cap_channels s) @ [c]\<rparr>)"
  using assms by (auto simp: l2_good_def l2_ok_def l2_follows_def distinct_map_filter)

lemma waiting_removed:
  "distinct (map local_cid cs) \<Longrightarrow> c \<in> set cs \<Longrightarrow> l2_waiting c \<Longrightarrow>
    Suc (length (filter l2_waiting (filter (\<lambda>d. local_cid d \<noteq> local_cid c) cs))) = length (filter l2_waiting cs)"
proof (induction cs)
  case (Cons d cs)
  show ?case
  proof (cases "d = c")
    case True
    then have "filter (\<lambda>d. local_cid d \<noteq> local_cid c) cs = cs" using Cons.prems(1) by (auto simp: filter_id_conv) (metis image_eqI)
    then show ?thesis using True Cons.prems(3) by simp
  next
    case False
    then have "c \<in> set cs" using Cons.prems(2) by simp
    then have "local_cid d \<noteq> local_cid c" using Cons.prems(1) by (auto simp: image_iff)
    then show ?thesis using Cons.IH Cons.prems \<open>c \<in> set cs\<close> by simp
  qed
qed simp

lemma notify_loop_good:
  "l2_ok s \<Longrightarrow> length (filter l2_waiting (l2cap_channels s)) < n \<Longrightarrow> returns (notify_channel_loop n E s) (l2_good cr s)"
proof (induction n arbitrary: s)
  case (Suc n)
  show ?case
  proof (cases "find (l2cap_channel_ready_to_send E s) (l2cap_channels s)")
    case (Some c)
    then have c: "c \<in> set (l2cap_channels s)" "l2cap_channel_ready_to_send E s c" by (auto simp: find_Some_iff)
    then have waiting: "l2_waiting c" "channel_type c \<in> {L2CAP_CHANNEL_TYPE_CLASSIC, L2CAP_CHANNEL_TYPE_CONNECTIONLESS}"
      by (auto simp: l2cap_channel_ready_to_send_def split: l2cap_channel_type.splits)
    define rest where "rest = filter (\<lambda>d. local_cid d \<noteq> local_cid c) (l2cap_channels s)"
    let ?s1 = "s\<lparr>l2cap_channels := rest @ [c]\<rparr>"
    let ?s2 = "l2_upd (local_cid c) (\<lambda>c. c\<lparr>l2_waiting := False\<rparr>) ?s1"
    have others: "local_cid d \<noteq> local_cid c" if "d \<in> set rest" for d using that by (simp add: rest_def)
    have "map (\<lambda>d. if local_cid d = local_cid c then d\<lparr>l2_waiting := False\<rparr> else d) rest = rest"
      using others by (intro map_idI) simp
    then have chans: "l2cap_channels ?s2 = rest @ [c\<lparr>l2_waiting := False\<rparr>]" by (simp add: l2_upd_def)
    have count: "Suc (length (filter l2_waiting rest)) = length (filter l2_waiting (l2cap_channels s))"
      unfolding rest_def using Suc.prems(1) c(1) waiting(1) by (intro waiting_removed) (simp_all add: l2_ok_def)
    have "l2_good cr s ?s1" unfolding rest_def by (rule rotate_good [OF c(1)])
    moreover have "l2_good cr ?s1 ?s2" by (rule quiet_upd) (simp add: chan_edits stay)
    ultimately have good: "l2_good cr s (l2cap_channel_trigger_send c ?s1)"
      using waiting(2) good_trans [OF good_trans good_act] by (simp add: l2cap_channel_trigger_send_def emit_defs)
    have "length (filter l2_waiting (l2cap_channels (l2cap_channel_trigger_send c ?s1))) < n"
      using waiting(2) count Suc.prems(2) by (simp add: l2cap_channel_trigger_send_def emit_defs chans)
    then have "returns (notify_channel_loop n E (l2cap_channel_trigger_send c ?s1)) (l2_good cr (l2cap_channel_trigger_send c ?s1))"
      using Suc.IH good_ok [OF good Suc.prems(1)] by blast
    then show ?thesis using good_from [OF good] Some by (simp add: rest_def)
  qed simp
qed simp

lemma notify_good:
  assumes "l2_ok s"
  shows "returns (l2cap_notify_channel_can_send E s) (l2_good cr s)"
proof -
  have "length (filter l2_waiting (l2cap_channels s)) < Suc (length (l2cap_channels s))" by (simp add: less_Suc_eq_le)
  then show ?thesis unfolding l2cap_notify_channel_can_send_def by (rule notify_loop_good [OF assms])
qed

end
