(* ===== verification/L2capSafe.thy ===== *)
theory L2capSafe
  imports L2capInv
begin

unbundle bit_operations_syntax

text \<open>
  Connections and signaling commands: what L2CAP does with them returns, keeps the invariant and
  follows the machine, when the packets have the bytes that are read.
\<close>

subsection \<open>New channels\<close>

text \<open>There is memory for 65000 channels at most, so that a number is always free.\<close>

definition env_ok :: "l2_env \<Rightarrow> bool" where
  "env_ok E \<longleftrightarrow> (\<forall>n. new_channel E n \<longrightarrow> n \<le> 65000)"

definition next_cid :: "u16 \<Rightarrow> u16" where
  "next_cid c = (if c = 0xFFFF then 0x40 else c + 1)"

lemma l2_unat_u16: "unat (w :: u16) < 65536"
  using unsigned_less [of w, where 'a = nat] by simp

lemma next_cid_nat: "0x40 \<le> c \<Longrightarrow> unat (next_cid c) = 64 + (unat c - 64 + 1) mod 65472"
proof -
  assume c: "0x40 \<le> c"
  then have ge: "64 \<le> unat c" by (simp add: word_le_nat_alt)
  have lt: "unat c < 65536" by (rule l2_unat_u16)
  show ?thesis
  proof (cases "c = 0xFFFF")
    case False
    then have "unat c \<noteq> 65535" by (simp add: word_unat_eq_iff)
    then have "unat c < 65535" using lt by linarith
    moreover from this have "unat (c + 1) = unat c + 1" by (simp add: unat_word_ariths)
    ultimately show ?thesis using False ge by (simp add: next_cid_def)
  qed (simp add: next_cid_def)
qed

lemma next_cid_ge: "0x40 \<le> c \<Longrightarrow> 0x40 \<le> next_cid c"
  using next_cid_nat [of c] by (simp add: word_le_nat_alt)

lemma next_cids: "0x40 \<le> c \<Longrightarrow> 0x40 \<le> (next_cid ^^ k) c \<and> unat ((next_cid ^^ k) c) = 64 + (unat c - 64 + k) mod 65472"
proof (induction k)
  case 0
  have "unat c < 65536" by (rule l2_unat_u16)
  moreover have "64 \<le> unat c" using 0 by (simp add: word_le_nat_alt)
  ultimately have "unat c - 64 < 65472" by linarith
  then show ?case using 0 \<open>64 \<le> unat c\<close> by simp
next
  case (Suc k)
  then have ge: "0x40 \<le> (next_cid ^^ k) c" and eq: "unat ((next_cid ^^ k) c) - 64 = (unat c - 64 + k) mod 65472" by simp_all
  show ?case using next_cid_ge [OF ge] next_cid_nat [OF ge] unfolding eq by (simp add: mod_Suc_eq)
qed

lemma mod_sum_inj:
  assumes "(a + i) mod n = (a + j) mod n" "i < n" "j < n"
  shows "i = (j :: nat)"
proof -
  have less: "i = j" if "(a + i) mod n = (a + j) mod n" "i \<le> j" "j < n" for i j :: nat
  proof -
    have mods: "(a + j) mod n = (a + i) mod n" "a + i \<le> a + j" using that(1,2) by simp_all
    obtain q where "a + j = a + i + n * q" using mods by (rule mod_eq_nat1E)
    then have "j = i + n * q" by simp
    then show ?thesis using that(3) by (cases q) simp_all
  qed
  show ?thesis using less [of i j] less [of j i] assms by (cases "i \<le> j") simp_all
qed

lemma next_cids_distinct: "0x40 \<le> c \<Longrightarrow> inj_on (\<lambda>k. (next_cid ^^ Suc k) c) {..<65472}"
proof (rule inj_onI)
  fix i j :: nat assume c: "0x40 \<le> c" and ij: "i \<in> {..<65472}" "j \<in> {..<65472}" "(next_cid ^^ Suc i) c = (next_cid ^^ Suc j) c"
  have "(Suc (unat c - 64) + i) mod 65472 = (Suc (unat c - 64) + j) mod 65472"
    using next_cids [OF c, of "Suc i"] next_cids [OF c, of "Suc j"] ij(3) by simp
  then show "i = j" using ij(1,2) by (intro mod_sum_inj [of "Suc (unat c - 64)" i 65472 j]) simp_all
qed

lemma next_cid_free:
  assumes "0x40 \<le> c" "card A \<le> 65000" "finite A"
  shows "\<exists>k<65472. (next_cid ^^ Suc k) c \<notin> A"
proof (rule ccontr)
  assume "\<not> ?thesis"
  then have "(\<lambda>k. (next_cid ^^ Suc k) c) ` {..<65472} \<subseteq> A" by auto
  then have "card ((\<lambda>k. (next_cid ^^ Suc k) c) ` {..<65472}) \<le> card A" using assms(3) by (intro card_mono)
  then show False using card_image [OF next_cids_distinct [OF assms(1)]] assms(2) by simp
qed

lemma next_local_cid_returns:
  "0x40 \<le> local_source_cid s \<Longrightarrow> \<exists>k<n. (next_cid ^^ Suc k) (local_source_cid s) \<notin> cids s \<Longrightarrow>
    \<exists>cid. next_local_cid_loop n s = Ret (s\<lparr>local_source_cid := cid\<rparr>, cid) \<and> 0x40 \<le> cid \<and> cid \<notin> cids s"
proof (induction n arbitrary: s)
  case (Suc n)
  let ?c = "next_cid (local_source_cid s)"
  let ?s = "s\<lparr>local_source_cid := ?c\<rparr>"
  have ge: "0x40 \<le> ?c" by (rule next_cid_ge [OF Suc.prems(1)])
  have same: "cids ?s = cids s" by (simp add: cids_def)
  have used: "l2cap_get_channel_for_local_cid ?s ?c \<noteq> None \<longleftrightarrow> ?c \<in> cids s"
    using ge by (auto simp: l2cap_get_channel_for_local_cid_def l2cap_channel_item_by_cid_def cids_def find_None_iff image_iff
        linorder_not_less [symmetric]) metis
  have loop: "next_local_cid_loop (Suc n) s = (if ?c \<in> cids s then next_local_cid_loop n ?s else Ret (?s, ?c))"
    using used by (simp add: Let_def next_cid_def)
  show ?case
  proof (cases "?c \<in> cids s")
    case True
    obtain k where k: "k < Suc n" "(next_cid ^^ Suc k) (local_source_cid s) \<notin> cids s" using Suc.prems(2) by blast
    with True obtain j where j: "k = Suc j" by (cases k) simp_all
    have "(next_cid ^^ Suc j) ?c \<notin> cids ?s" unfolding same using k(2) unfolding j funpow_Suc_right [of "Suc j"] comp_apply .
    then have "\<exists>k<n. (next_cid ^^ Suc k) (local_source_cid ?s) \<notin> cids ?s" using k(1) j by (intro exI [of _ j]) simp
    then have "\<exists>cid. next_local_cid_loop n ?s = Ret (?s\<lparr>local_source_cid := cid\<rparr>, cid) \<and> 0x40 \<le> cid \<and> cid \<notin> cids ?s"
      using ge by (intro Suc.IH) simp_all
    then show ?thesis unfolding loop same using True by simp
  qed (use loop ge in simp)
qed simp

lemma next_local_cid_free:
  assumes "l2_ok s" "length (l2cap_channels s) \<le> 65000"
  obtains cid where "l2cap_next_local_cid s = Ret (s\<lparr>local_source_cid := cid\<rparr>, cid)" "0x40 \<le> cid" "cid \<notin> cids s"
proof -
  have ge: "0x40 \<le> local_source_cid s" using assms(1) by (simp add: l2_ok_def)
  have "finite (cids s)" "card (cids s) \<le> 65000"
    using assms(2) card_image_le [of "set (l2cap_channels s)" local_cid] card_length [of "l2cap_channels s"] by (simp_all add: cids_def)
  then obtain k where "k < 65472" "(next_cid ^^ Suc k) (local_source_cid s) \<notin> cids s" using next_cid_free [OF ge] by blast
  then have "\<exists>k<65536. (next_cid ^^ Suc k) (local_source_cid s) \<notin> cids s" by (intro exI [of _ k]) simp
  then show ?thesis using next_local_cid_returns [OF ge, of 65536] that by (auto simp: l2cap_next_local_cid_def)
qed

lemma create_entry:
  assumes "l2_ok s" "env_ok E"
  obtains "l2cap_create_channel_entry E handler type address p mtu level s = Ret (s, None)"
  | cid c where "l2cap_create_channel_entry E handler type address p mtu level s = Ret (s\<lparr>local_source_cid := cid\<rparr>, Some c)"
      "0x40 \<le> cid" "cid \<notin> cids s" "local_cid c = cid" "channel_type c = type" "l2_state c = L2CAP_STATE_WILL_SEND_CREATE_CONNECTION"
      "l2_var c = {}" "remote_mtu c = 672"
proof (cases "new_channel E (length (l2cap_channels s))")
  case True
  then have "length (l2cap_channels s) \<le> 65000" using assms(2) by (simp add: env_ok_def)
  then obtain cid where cid: "l2cap_next_local_cid s = Ret (s\<lparr>local_source_cid := cid\<rparr>, cid)" "0x40 \<le> cid" "cid \<notin> cids s"
    using next_local_cid_free [OF assms(1)] by blast
  have "\<exists>c. l2cap_create_channel_entry E handler type address p mtu level s = Ret (s\<lparr>local_source_cid := cid\<rparr>, Some c) \<and>
      local_cid c = cid \<and> channel_type c = type \<and> l2_state c = L2CAP_STATE_WILL_SEND_CREATE_CONNECTION \<and> l2_var c = {} \<and>
      remote_mtu c = 672"
    using cid(1) True by (simp add: l2cap_create_channel_entry_def)
  then show ?thesis using that(2) [OF _ cid(2,3)] by blast
qed (use that(1) in \<open>simp add: l2cap_create_channel_entry_def\<close>)

lemma add_channel_good:
  assumes "fresh_channel c" "0x40 \<le> local_cid c" "local_cid c \<notin> cids s" "remote_mtu c \<le> 1017"
  shows "l2_good True s (add_channel c (s\<lparr>local_source_cid := local_cid c\<rparr>))"
proof -
  have "\<exists>d. (d \<in> set (l2cap_channels s) \<or> fresh_channel d) \<and> chan_steps d c'" if "c' \<in> set (l2cap_channels s @ [c])" for c'
    using that assms(1) by (intro exI [of _ c']) auto
  then show ?thesis
    using assms by (auto simp: l2_good_def l2_ok_def l2_follows_def add_channel_def chan_ok_def fresh_channel_def cids_def)
qed

subsection \<open>Connections\<close>

lemma connection_complete_step: "chan_step c (l2cap_handle_connection_complete handle c)"
  by (auto simp: l2cap_handle_connection_complete_def chan_step_def chan_id_def stay linked)

lemma connection_complete_mtu: "remote_mtu (l2cap_handle_connection_complete handle c) = remote_mtu c"
  by (simp add: l2cap_handle_connection_complete_def)

lemma features_good:
  assumes "l2_chan s cid = Ret c"
  shows "returns (l2cap_handle_remote_supported_features_received E cid s) (\<lambda>s'. l2_good cr s s' \<and> cids s' = cids s)"
proof (cases "l2_state c = L2CAP_STATE_WAIT_REMOTE_SUPPORTED_FEATURES")
  case True
  have "l2_good cr s (l2_upd cid (\<lambda>c. c\<lparr>l2_state := L2CAP_STATE_WAIT_OUTGOING_SECURITY_LEVEL_UPDATE, required_security_level := level\<rparr>) s)" for level
    by (rule quiet_upd) (use assms True in \<open>auto simp: chan_edits secure\<close>)
  moreover have "l2_good cr s (l2_upd cid l2cap_ready_to_connect s)"
    by (rule quiet_upd) (use assms True in \<open>auto simp: chan_edits l2cap_ready_to_connect_def may_connect\<close>)
  ultimately show ?thesis
    using True assms good_trans [OF _ good_act]
    by (simp add: l2cap_handle_remote_supported_features_received_def cids_upd l2cap_ready_to_connect_def)
qed (simp add: l2cap_handle_remote_supported_features_received_def assms)

lemma create_channel_good:
  assumes "l2_ok s" "env_ok E"
  shows "returns (l2cap_create_channel E handler address p mtu s) (\<lambda>(s', status, cid). l2_good True s s')"
proof (cases rule: create_entry [OF assms, of handler L2CAP_CHANNEL_TYPE_CLASSIC address p "min mtu l2cap_max_mtu" 0])
  case 1
  then show ?thesis by (simp add: l2cap_create_channel_def)
next
  case (2 cid c)
  let ?s = "add_channel c (s\<lparr>local_source_cid := cid\<rparr>)"
  have added: "l2_good True s ?s" using 2(2-8) add_channel_good [of c s] by (simp add: fresh_channel_def)
  have ok: "l2_ok ?s" by (rule good_ok [OF added assms(1)])
  have c: "c \<in> set (l2cap_channels ?s)" by (simp add: add_channel_def)
  let ?m = "case hci_connection_for_bd_addr_and_type (l2_hci ?s) address BD_ADDR_TYPE_ACL of
              None \<Rightarrow> Ret ?s
            | Some conn \<Rightarrow>
                if hc_handle conn \<noteq> HCI_CON_HANDLE_INVALID then
                  let s = l2_upd (local_cid c) (l2cap_handle_connection_complete (hc_handle conn)) ?s in
                  if bonding_flags conn AND BONDING_RECEIVED_REMOTE_FEATURES \<noteq> 0 then
                    l2cap_handle_remote_supported_features_received E (local_cid c) s
                  else Ret s
                else Ret ?s"
  have "returns (let s = l2_upd (local_cid c) (l2cap_handle_connection_complete h) ?s in
      if b then l2cap_handle_remote_supported_features_received E (local_cid c) s else Ret s) (l2_good True ?s)" for h b
  proof -
    let ?t = "l2_upd (local_cid c) (l2cap_handle_connection_complete h) ?s"
    have good: "l2_good True ?s ?t" using connection_complete_step connection_complete_mtu by (intro good_upd) auto
    have "l2_chan ?t (local_cid c) = Ret (l2cap_handle_connection_complete h c)"
      by (rule chan_upd [OF chan_member [OF ok c]]) (simp add: l2cap_handle_connection_complete_def)
    then have "returns (l2cap_handle_remote_supported_features_received E (local_cid c) ?t) (l2_good True ?t)"
      by (rule returns_mono [OF features_good]) blast
    from good_from [OF good this] good show ?thesis unfolding Let_def by (intro returns_if returns_Ret)
  qed
  then have "returns ?m (l2_good True ?s)" by (simp split: option.split)
  then have "returns (bind_outcome ?m (l2cap_run E)) (l2_good True ?s)" using run_good by (rule good_bind [OF ok])
  from good_from [OF added this] obtain s1 s2 where r: "?m = Ret s1" "l2cap_run E s1 = Ret s2" "l2_good True s s2"
    by (auto simp: returns_bind_iff elim!: returnsE)
  show ?thesis
    using r unfolding l2cap_create_channel_def 2(1) bind_outcome_simps prod.case option.case Let_def by simp
qed

lemma disconnect_good:
  assumes "l2_ok s"
  shows "returns (l2cap_disconnect E cid s) (l2_good cr s)"
proof -
  have set: "l2_good cr s (l2_upd cid (\<lambda>c. c\<lparr>l2_state := L2CAP_STATE_WILL_SEND_DISCONNECT_REQUEST\<rparr>) s)"
    by (rule quiet_upd) (auto simp: chan_edits told)
  show ?thesis
    unfolding l2cap_disconnect_def using good_from [OF set run_good] good_ok [OF set assms] run_good [OF assms] by simp
qed

lemma discard_failed_good: "length (l2cap_channels s) < n \<Longrightarrow> returns (discard_failed_loop n status s) (l2_good cr s)"
proof (induction n arbitrary: s)
  case (Suc n)
  show ?case
  proof (cases "find (\<lambda>c. l2cap_is_dynamic_channel_type (channel_type c) \<and> l2_state c = L2CAP_STATE_EMIT_OPEN_FAILED_AND_DISCARD)
      (l2cap_channels s)")
    case (Some c)
    let ?s = "l2cap_free_channel_entry (local_cid c) (l2cap_handle_channel_open_failed status c s)"
    have c: "c \<in> set (l2cap_channels s)" using Some by (auto simp: find_Some_iff)
    have good: "l2_good cr s ?s" unfolding emit_defs using good_trans [OF good_act good_free] .
    have "length (l2cap_channels ?s) < length (l2cap_channels s)"
      using c length_filter_less [of c "l2cap_channels s" "\<lambda>d. local_cid d \<noteq> local_cid c"]
      by (simp add: emit_defs l2cap_free_channel_entry_def l2_act_def)
    then have "returns (discard_failed_loop n status ?s) (l2_good cr ?s)" using Suc by simp
    then show ?thesis using good_from [OF good] Some by simp
  qed simp
qed simp

lemma mark_failed_step: "chan_step c (mark_failed address c)"
  by (auto simp: mark_failed_def chan_step_def chan_id_def stay link_failed)

lemma mark_failed_mtu: "remote_mtu (mark_failed address c) = remote_mtu c"
  by (simp add: mark_failed_def)

lemma connection_failed_good:
  "returns (l2cap_handle_connection_failed_for_addr address status s) (l2_good cr s)"
proof -
  let ?s = "s\<lparr>l2cap_channels := map (mark_failed address) (l2cap_channels s)\<rparr>"
  have good: "l2_good cr s ?s" using mark_failed_step mark_failed_mtu by (intro good_map) auto
  have "returns (discard_failed_loop (Suc (length (l2cap_channels s))) status ?s) (l2_good cr ?s)"
    by (rule discard_failed_good) simp
  then show ?thesis unfolding l2cap_handle_connection_failed_for_addr_def using good_from [OF good] by simp
qed

lemma connection_success_good:
  assumes "l2_ok s"
  shows "returns (l2cap_handle_connection_success_for_addr E address handle s) (l2_good cr s)"
proof -
  let ?f = "\<lambda>c. if l2cap_is_dynamic_channel_type (channel_type c) \<and> memcmp (l2_address c) address = 0
     then l2cap_handle_connection_complete handle c else c"
  have good: "l2_good cr s (s\<lparr>l2cap_channels := map ?f (l2cap_channels s)\<rparr>)"
    using connection_complete_step connection_complete_mtu by (intro good_map) auto
  show ?thesis
    unfolding l2cap_handle_connection_success_for_addr_def by (rule good_from [OF good run_good [OF good_ok [OF good assms]]])
qed

lemma hci_disconnect_good: "l2_good cr s (l2cap_handle_hci_disconnect_event c s)"
  unfolding l2cap_handle_hci_disconnect_event_def emit_defs by simp

lemma register_response_good:
  assumes "l2_ok s"
  shows "returns (l2cap_register_signaling_response E handle code sig_id cid data s) (l2_good cr s)"
proof (cases "length (signaling_responses s) < 3")
  case True
  let ?s = "s\<lparr>signaling_responses := signaling_responses s @
      [\<lparr>rsp_handle = handle, rsp_sig_id = sig_id, rsp_code = code, rsp_cid = cid, rsp_data = data\<rparr>]\<rparr>"
  have good: "l2_good cr s ?s" by (rule good_same) (use True in simp_all)
  show ?thesis
    unfolding l2cap_register_signaling_response_def using good_from [OF good run_good [OF good_ok [OF good assms]]] True by simp
qed (simp add: l2cap_register_signaling_response_def)

subsection \<open>Signaling commands\<close>

lemma disconnect_request_received_good:
  assumes "l2_ok s" "l2_chan s cid = Ret c"
    "l2_state c \<in> {L2CAP_STATE_CONFIG, L2CAP_STATE_OPEN, L2CAP_STATE_WILL_SEND_DISCONNECT_REQUEST, L2CAP_STATE_WAIT_DISCONNECT}"
  shows "returns (l2cap_handle_disconnect_request E cid identifier s) (l2_good cr s)"
proof -
  have good: "l2_good cr s (l2_upd cid (\<lambda>c. c\<lparr>remote_sig_id := identifier, l2_state := L2CAP_STATE_WILL_SEND_DISCONNECT_RESPONSE\<rparr>) s)"
    by (rule quiet_upd) (use assms(2,3) in \<open>auto simp: chan_edits peer_closes\<close>)
  show ?thesis unfolding l2cap_handle_disconnect_request_def by (rule good_from [OF good run_good [OF good_ok [OF good assms(1)]]])
qed

lemma connection_request_received_good:
  assumes "l2_ok s" "env_ok E"
  shows "returns (l2cap_handle_connection_request E handle sig_id p source_cid s) (l2_good True s)"
proof (cases "l2cap_get_service s p")
  case None
  then show ?thesis using register_response_good [OF assms(1)] by (simp add: l2cap_handle_connection_request_def)
next
  case (Some v)
  show ?thesis
  proof (cases "hci_connection_for_handle (l2_hci s) handle")
    case None
    then show ?thesis using Some by (simp add: l2cap_handle_connection_request_def)
  next
    case conn: (Some conn)
    show ?thesis
    proof (cases rule: create_entry [OF assms, of "sv_handler v" L2CAP_CHANNEL_TYPE_CLASSIC "hc_address conn" p "sv_mtu v" "sv_security_level v"])
      case 1
      then show ?thesis using Some conn register_response_good [OF assms(1)] by (simp add: l2cap_handle_connection_request_def)
    next
      case (2 cid c)
      let ?c = "c\<lparr>l2_handle := handle, remote_cid := source_cid, remote_sig_id := sig_id,
        local_mtu := (if local_mtu c > l2cap_max_mtu then l2cap_max_mtu else local_mtu c),
        l2_state := L2CAP_STATE_WAIT_INCOMING_SECURITY_LEVEL_UPDATE, l2_var := {SEND_CONN_RESP_PEND, INCOMING}\<rparr>"
      have "l2_good True s (add_channel ?c (s\<lparr>local_source_cid := local_cid ?c\<rparr>))"
        using 2(2-8) by (intro add_channel_good) (simp_all add: fresh_channel_def)
      then have "l2_good True s (add_channel ?c (s\<lparr>local_source_cid := cid\<rparr>))" using 2(4) by simp
      then have "l2_good True s (l2_act a (add_channel ?c (s\<lparr>local_source_cid := cid\<rparr>)))" for a using good_act by (rule good_trans)
      then show ?thesis using Some conn 2(1) by (simp add: l2cap_handle_connection_request_def)
    qed
  qed
qed

text \<open>The options of a configure request end where the command ends, and those that are read have their two bytes.\<close>

fun opts_ok :: "bytes \<Rightarrow> bool" where
  "opts_ok [] = True"
| "opts_ok [t] = False"
| "opts_ok (t # l # opts) \<longleftrightarrow> (t AND 0x7F \<in> {1, 2} \<and> l = 2 \<longrightarrow> 2 \<le> length opts) \<and> opts_ok (drop (unat l) opts)"

text \<open>An option that must be understood, and is not.\<close>

fun unknown_option :: "bytes \<Rightarrow> bool" where
  "unknown_option (t # l # opts) \<longleftrightarrow>
     drop_bit 7 t = 0 \<and> (t AND 0x7F < 1 \<or> t AND 0x7F > 7) \<or> unknown_option (drop (unat l) opts)"
| "unknown_option _ = False"

text \<open>What the configuration of the peer changes.\<close>

definition conf_rel :: "l2cap_channel \<Rightarrow> l2cap_channel \<Rightarrow> bool" where
  "conf_rel c c' \<longleftrightarrow> chan_id c' = chan_id c \<and> l2_state c' = l2_state c \<and> l2_var c \<subseteq> l2_var c' \<and>
     l2_var c' \<subseteq> l2_var c \<union> {SEND_CONF_RSP, SEND_CONF_RSP_CONT, SEND_CONF_RSP_MTU, SEND_CONF_RSP_INVALID, RCVD_CONF_REQ} \<and>
     (remote_mtu c \<le> 1017 \<longrightarrow> remote_mtu c' \<le> 1017)"

lemma conf_refl [simp]: "conf_rel c c"
  by (auto simp: conf_rel_def)

lemma conf_trans: "conf_rel c c' \<Longrightarrow> conf_rel c' c'' \<Longrightarrow> conf_rel c c''"
  unfolding conf_rel_def by (intro conjI) (blast | simp)+

lemma conf_flag: "f \<in> {SEND_CONF_RSP, SEND_CONF_RSP_CONT, SEND_CONF_RSP_MTU, SEND_CONF_RSP_INVALID, RCVD_CONF_REQ} \<Longrightarrow>
    conf_rel c (channelStateVarSetFlag f c)"
  by (auto simp: conf_rel_def chan_edits)

lemma conf_step:
  assumes "conf_rel c c'"
  shows "chan_step c c'"
proof -
  have state: "l2_state c' = l2_state c" and id: "chan_id c' = chan_id c" using assms by (simp_all add: conf_rel_def)
  have more: "f \<in> l2_var c \<Longrightarrow> f \<in> l2_var c'" for f using assms by (auto simp: conf_rel_def)
  have same: "f \<in> l2_var c' \<longleftrightarrow> f \<in> l2_var c" if "f \<in> {RCVD_CONF_RSP, SENT_CONF_RSP, INCOMING}" for f
    using assms that unfolding conf_rel_def by blast
  show ?thesis unfolding chan_step_def using more same state id by (auto simp: stay)
qed

lemma rd_nth: "p < length m \<Longrightarrow> rd m (int p) = Ret (m ! p)"
  by (simp add: rd_def)

lemma configure_options_returns:
  assumes "opts_ok opts" "take (unat e - unat p) (drop (unat p) command) = opts" "length opts \<le> n" "unat e \<le> length command"
    "length command \<le> 32768"
  shows "returns (configure_options n command e p c)
    (\<lambda>d. conf_rel c d \<and> (unknown_option opts \<longrightarrow> SEND_CONF_RSP_INVALID \<in> l2_var d))"
  using assms
proof (induction opts arbitrary: n p c rule: opts_ok.induct)
  case 1
  then have "\<not> p < e" by (auto simp: word_less_nat_alt)
  then show ?case by (simp add: configure_options.simps [of n])
next
  case (3 t l opts)
  let ?p = "unat p"
  have len: "unat e - ?p = length opts + 2" using arg_cong [OF 3(3), of length] 3(5) by simp
  then have at: "?p + 2 + length opts = unat e" "p < e" by (simp_all add: word_less_nat_alt)
  have bytes: "command ! ?p = t" "command ! (?p + 1) = l"
    using arg_cong [OF 3(3), of "\<lambda>xs. xs ! 0"] arg_cong [OF 3(3), of "\<lambda>xs. xs ! 1"] len at(1) 3(5) by simp_all
  have small: "?p + 2 \<le> 32768" using at(1) 3(5,6) by linarith
  have p1: "unat (p + 1) = ?p + 1" and p2: "unat (p + 1 + 1) = ?p + 2" using small by (simp_all add: unat_word_ariths)
  have reads: "rd command (uint p) = Ret t" "rd command (uint (p + 1)) = Ret l"
    unfolding uint_nat p1 using rd_nth [of ?p command] rd_nth [of "?p + 1" command] bytes at(1) 3(5) by simp_all
  have lb: "unat l < 256" using unsigned_less [of l, where 'a = nat] by simp
  have "(?p + 2 + unat l) mod 65536 = ?p + 2 + unat l" by (rule mod_less) (use small lb in linarith)
  then have pos: "unat (p + 1 + 1 + ucast l) = ?p + 2 + unat l"
    unfolding unat_word_ariths(1) [of "p + 1 + 1"] p2 unat_byte_u16 by simp
  obtain m where n: "n = Suc m" "length opts < m" using 3(4) by (cases n) simp_all
  have "take (unat e - unat (p + 1 + 1 + ucast l)) (drop (unat (p + 1 + 1 + ucast l)) command) = drop (unat l) opts"
  proof -
    have "drop (unat l) opts = drop (2 + unat l) (take (unat e - ?p) (drop ?p command))" unfolding 3(3) by simp
    then show ?thesis unfolding pos by (simp add: drop_take add.commute add.left_commute)
  qed
  then have rest: "returns (configure_options m command e (p + 1 + 1 + ucast l) d)
      (\<lambda>x. conf_rel d x \<and> (unknown_option (drop (unat l) opts) \<longrightarrow> SEND_CONF_RSP_INVALID \<in> l2_var x))" for d
    using 3(1) [of _ m d] 3(2,5,6) n(2) by simp
  have read: "\<exists>v. little_endian_read_16 command 0 (uint (p + 1 + 1)) = Ret v" if "t AND 0x7F \<in> {1, 2} \<and> l = 2"
  proof -
    have "2 \<le> length opts" using 3(2) that by auto
    then have "uint (p + 1 + 1) + 1 < int (length command)" using at(1) 3(5) p2 unfolding uint_nat by linarith
    then show ?thesis by (auto simp: little_endian_read_16_def rd_def)
  qed
  let ?next = "p + 1 + 1 + ucast l"
  define check where "check = (\<lambda>d. if drop_bit 7 t = 0 \<and> (t AND 0x7F < 1 \<or> t AND 0x7F > 7) then channelStateVarSetFlag SEND_CONF_RSP_INVALID d else d)"
  have check: "conf_rel d (check d)" for d by (simp add: check_def conf_flag)
  have go: "returns (configure_options m command e ?next (check d))
      (\<lambda>x. conf_rel c x \<and> (unknown_option (t # l # opts) \<longrightarrow> SEND_CONF_RSP_INVALID \<in> l2_var x))" if "conf_rel c d" for d
  proof (rule returns_mono [OF rest [of "check d"]])
    fix x assume x: "conf_rel (check d) x \<and> (unknown_option (drop (unat l) opts) \<longrightarrow> SEND_CONF_RSP_INVALID \<in> l2_var x)"
    then have "conf_rel c x" using conf_trans [OF conf_trans [OF that check]] by blast
    moreover have "SEND_CONF_RSP_INVALID \<in> l2_var x" if "unknown_option (t # l # opts)"
    proof (cases "drop_bit 7 t = 0 \<and> (t AND 0x7F < 1 \<or> t AND 0x7F > 7)")
      case True
      then have "SEND_CONF_RSP_INVALID \<in> l2_var (check d)" by (simp add: check_def chan_edits)
      then show ?thesis using x unfolding conf_rel_def by blast
    qed (use that x in auto)
    ultimately show "conf_rel c x \<and> (unknown_option (t # l # opts) \<longrightarrow> SEND_CONF_RSP_INVALID \<in> l2_var x)" by blast
  qed
  have mtu: "returns (if t AND 0x7F = 1 \<and> l = 2 then
        bind_outcome (little_endian_read_16 command 0 (uint (p + 1 + 1))) (\<lambda>mtu.
        Ret (channelStateVarSetFlag SEND_CONF_RSP_MTU (c\<lparr>remote_mtu := (if mtu > l2cap_max_mtu then l2cap_max_mtu else mtu)\<rparr>)))
      else Ret c) (conf_rel c)"
    using read by (auto simp: conf_rel_def chan_edits l2cap_max_mtu_def linorder_not_less)
  have flush: "returns (if t AND 0x7F = 2 \<and> l = 2 then
        bind_outcome (little_endian_read_16 command 0 (uint (p + 1 + 1))) (\<lambda>t. Ret (d\<lparr>flush_timeout := t\<rparr>))
      else Ret d) (conf_rel d)" for d
    using read by (auto simp: conf_rel_def chan_edits)
  obtain d where d: "(if t AND 0x7F = 1 \<and> l = 2 then
        bind_outcome (little_endian_read_16 command 0 (uint (p + 1 + 1))) (\<lambda>mtu.
        Ret (channelStateVarSetFlag SEND_CONF_RSP_MTU (c\<lparr>remote_mtu := (if mtu > l2cap_max_mtu then l2cap_max_mtu else mtu)\<rparr>)))
      else Ret c) = Ret d" "conf_rel c d" using mtu by (rule returnsE)
  obtain d' where d': "(if t AND 0x7F = 2 \<and> l = 2 then
        bind_outcome (little_endian_read_16 command 0 (uint (p + 1 + 1))) (\<lambda>t. Ret (d\<lparr>flush_timeout := t\<rparr>))
      else Ret d) = Ret d'" "conf_rel d d'" using flush [of d] by (rule returnsE)
  have "configure_options (Suc m) command e p c = configure_options m command e ?next (check d')"
    unfolding configure_options.simps [of "Suc m"] Let_def reads nat.case bind_outcome_simps d(1) d'(1) check_def using at(2) by simp
  then show ?case unfolding n(1) using go [OF conf_trans [OF d(2) d'(2)]] by simp
qed simp

lemma configure_request_returns:
  assumes "rd command 1 = Ret i" "little_endian_read_16 command 0 2 = Ret len" "4 \<le> unat len" "4 + unat len \<le> length command"
    "length command \<le> 32768" "opts_ok (take (unat len - 4) (drop 8 command))"
  shows "returns (l2cap_signaling_handle_configure_request command c)
    (\<lambda>d. conf_rel c d \<and> (unknown_option (take (unat len - 4) (drop 8 command)) \<longrightarrow> SEND_CONF_RSP_INVALID \<in> l2_var d))"
proof -
  obtain flags where flags: "little_endian_read_16 command 0 6 = Ret flags"
    using assms(3,4) by (auto simp: little_endian_read_16_def rd_def)
  let ?c = "c\<lparr>remote_sig_id := i\<rparr>"
  let ?d = "if flags AND 1 \<noteq> 0 then channelStateVarSetFlag SEND_CONF_RSP_CONT ?c else ?c"
  have e: "unat (4 + len) = 4 + unat len" using assms(4,5) by (simp add: unat_word_ariths)
  have d: "conf_rel c ?d" by (auto simp: conf_rel_def chan_edits)
  have "returns (configure_options 65536 command (4 + len) 8 ?d)
      (\<lambda>x. conf_rel ?d x \<and> (unknown_option (take (unat len - 4) (drop 8 command)) \<longrightarrow> SEND_CONF_RSP_INVALID \<in> l2_var x))"
    using assms(4-6) e by (intro configure_options_returns [OF assms(6)]) (simp_all add: min_le_iff_disj)
  then have "returns (configure_options 65536 command (4 + len) 8 ?d)
      (\<lambda>x. conf_rel c x \<and> (unknown_option (take (unat len - 4) (drop 8 command)) \<longrightarrow> SEND_CONF_RSP_INVALID \<in> l2_var x))"
    by (rule returns_mono) (use conf_trans [OF d] in blast)
  then show ?thesis
    unfolding l2cap_signaling_handle_configure_request_def assms(1,2) flags bind_outcome_simps Let_def .
qed

text \<open>A signaling command that is all there, with room for the numbers that are read.\<close>

definition command_ok :: "bytes \<Rightarrow> bool" where
  "command_ok command \<longleftrightarrow> (\<exists>code i len. rd command 0 = Ret code \<and> rd command 1 = Ret i \<and> little_endian_read_16 command 0 2 = Ret len \<and>
     4 + unat len \<le> length command \<and> length command \<le> 32768 \<and>
     (code \<in> {COMMAND_REJECT, CONNECTION_RESPONSE, CONFIGURE_REQUEST, CONFIGURE_RESPONSE, DISCONNECTION_REQUEST, DISCONNECTION_RESPONSE,
        INFORMATION_RESPONSE} \<longrightarrow> 6 \<le> length command) \<and>
     (code = CONFIGURE_REQUEST \<and> 4 \<le> unat len \<longrightarrow> opts_ok (take (unat len - 4) (drop 8 command))))"

lemma connect_response_good:
  assumes "l2_ok s" "l2_chan s cid = Ret c" "l2_state c = L2CAP_STATE_WAIT_CONNECT_RSP" "4 + unat len \<le> length command"
  shows "returns (connect_response E code i len command c s) (l2_good cr s)"
proof (cases "code = CONNECTION_RESPONSE \<and> 8 \<le> len")
  case True
  have cid: "local_cid c = cid" using chan_found [OF assms(2)] by simp
  have nl: "\<not> len < 8" using True by (simp add: linorder_not_less)
  have len: "12 \<le> length command" using True assms(4) by (simp add: word_le_nat_alt)
  then obtain result where result: "little_endian_read_16 command 0 8 = Ret result" by (auto simp: little_endian_read_16_def rd_def)
  obtain rcid where rcid: "little_endian_read_16 command 0 4 = Ret rcid" using len by (auto simp: little_endian_read_16_def rd_def)
  have conf: "l2_good cr s (l2_upd cid (\<lambda>c. channelStateVarSetFlag SEND_CONF_REQ ((l2cap_stop_rtx c)\<lparr>remote_cid := rcid, l2_state := L2CAP_STATE_CONFIG\<rparr>)) s)"
    by (rule quiet_upd) (use assms(2,3) in \<open>auto simp: chan_edits accepted\<close>)
  have wait: "l2_good cr s (l2_upd cid (\<lambda>c. l2cap_start_ertx (l2cap_stop_rtx c)) s)"
    by (rule quiet_upd) (simp add: chan_edits stay)
  have act: "l2_good cr s (if b then l2_act a (l2_act a' s) else l2_act a' s)" for a a' b
    using good_trans [OF good_act good_act] by simp
  show ?thesis
    using True nl conf wait good_trans [OF act good_free]
    by (simp add: connect_response_def result rcid cid Let_def emit_defs)
qed (use register_response_good [OF assms(1)] in \<open>auto simp: connect_response_def linorder_not_less\<close>)

lemma register_settled:
  assumes "l2_ok s" "settled cid s"
  shows "returns (l2cap_register_signaling_response E handle code sig_id k data s) (\<lambda>s'. l2_good cr s s' \<and> settled cid s')"
proof -
  obtain t where t: "l2cap_register_signaling_response E handle code sig_id k data s = Ret t" "l2_good cr s t"
    using register_response_good [OF assms(1)] by (rule returnsE)
  have "settled cid t"
  proof (cases "length (signaling_responses s) < 3")
    case True
    let ?s = "s\<lparr>signaling_responses := signaling_responses s @
      [\<lparr>rsp_handle = handle, rsp_sig_id = sig_id, rsp_code = code, rsp_cid = k, rsp_data = data\<rparr>]\<rparr>"
    have good: "l2_good cr s ?s" by (rule good_same) (use True in simp_all)
    have "settled cid ?s" using assms(2) chan_cong [of ?s s cid] by (simp add: settled_def)
    moreover have "l2cap_run E ?s = Ret t" using t(1) True by (simp add: l2cap_register_signaling_response_def)
    ultimately show ?thesis using run_settled good_ok [OF good assms(1)] by blast
  next
    case False
    then show ?thesis using t(1) assms(2) by (simp add: l2cap_register_signaling_response_def)
  qed
  then show ?thesis using t by simp
qed

lemma config_command_good:
  assumes "l2_ok s" "l2_chan s cid = Ret c" "l2_state c = L2CAP_STATE_CONFIG"
    "rd command 1 = Ret i" "little_endian_read_16 command 0 2 = Ret len" "4 + unat len \<le> length command" "length command \<le> 32768"
    "code = CONFIGURE_REQUEST \<and> 4 \<le> unat len \<longrightarrow> opts_ok (take (unat len - 4) (drop 8 command))"
  shows "returns (config_command E code i len command c s) (\<lambda>s'. l2_good cr s s' \<and> settled cid s')"
proof -
  have cid: "local_cid c = cid" using chan_found [OF assms(2)] by simp
  have settled: "settled cid s" using assms(2,3) by (auto simp: settled_def)
  have reject: "returns (l2cap_register_signaling_response E (l2_handle c) COMMAND_REJECT i 0 0 s) (\<lambda>s'. l2_good cr s s' \<and> settled cid s')"
    by (rule register_settled [OF assms(1) settled])
  consider (req) "code = CONFIGURE_REQUEST" "4 \<le> len" | (rsp) "code = CONFIGURE_RESPONSE" "6 \<le> len"
    | (short) "code = CONFIGURE_REQUEST \<and> len < 4 \<or> code = CONFIGURE_RESPONSE \<and> len < 6" 
    | (other) "code \<noteq> CONFIGURE_REQUEST" "code \<noteq> CONFIGURE_RESPONSE"
    using linorder_not_less by blast
  then show ?thesis
  proof cases
    case req
    then have four: "4 \<le> unat len" by (simp add: word_le_nat_alt)
    obtain d where d: "l2cap_signaling_handle_configure_request command (channelStateVarSetFlag SEND_CONF_RSP c) = Ret d"
        "conf_rel (channelStateVarSetFlag SEND_CONF_RSP c) d"
      by (rule returnsE [OF configure_request_returns [OF assms(4,5) four assms(6,7)]]) (use assms(8) req four in blast)+
    let ?e = "if SEND_CONF_RSP_CONT \<notin> l2_var d then channelStateVarSetFlag RCVD_CONF_REQ d else d"
    have rel: "conf_rel c ?e" using conf_trans [OF conf_trans [OF conf_flag d(2)]] by (simp add: conf_flag)
    then have id: "chan_id ?e = chan_id c" "l2_state ?e = L2CAP_STATE_CONFIG" using assms(3) by (simp_all only: conf_rel_def)
    have good: "l2_good cr s (l2_upd cid (\<lambda>_. ?e) s)"
      using assms(2) rel conf_step [OF rel] unfolding conf_rel_def by (intro good_upd) auto
    have "l2_chan (l2_upd cid (\<lambda>_. ?e) s) cid = Ret ?e" using id(1) cid by (intro chan_upd [OF assms(2)]) (simp add: chan_id_def)
    then have "settled cid (l2_upd cid (\<lambda>_. ?e) s)" using id(2) by (simp only: settled_def) blast
    moreover have "\<not> len < 4" "local_cid d = cid"
      using req(2) d(2) cid by (auto simp: linorder_not_less conf_rel_def chan_id_def chan_edits)
    ultimately show ?thesis using good req(1) d(1) by (simp add: config_command_def)
  next
    case rsp
    then have "10 \<le> length command" using assms(6) by (simp add: word_le_nat_alt)
    then obtain result where result: "little_endian_read_16 command 0 8 = Ret result" by (auto simp: little_endian_read_16_def rd_def)
    let ?f = "\<lambda>c. let c = l2cap_stop_rtx c in
              if result = 0 then channelStateVarSetFlag RCVD_CONF_RSP c
              else if result = 4 then l2cap_start_ertx c
              else channelStateVarSetFlag SEND_CONF_REQ c"
    have "chan_step c (?f c)" unfolding chan_step_def using assms(3) by (auto simp: chan_edits Let_def stay)
    then have good: "l2_good cr s (l2_upd cid ?f s)" using assms(2) by (intro good_upd) (auto simp: chan_edits Let_def)
    have "l2_chan (l2_upd cid ?f s) cid = Ret (?f c)" by (intro chan_upd [OF assms(2)]) (simp add: chan_edits Let_def)
    then have "settled cid (l2_upd cid ?f s)" using assms(3) by (auto simp: settled_def chan_edits Let_def)
    moreover have "\<not> len < 6" using rsp(2) by (simp add: linorder_not_less)
    ultimately show ?thesis using good rsp(1) result cid by (simp add: config_command_def sig_codes)
  next
    case short
    then show ?thesis using reject by (auto simp: config_command_def sig_codes)
  next
    case other
    then show ?thesis using settled by (simp add: config_command_def)
  qed
qed

lemma handler_channel_good:
  assumes "l2_ok s" "l2_chan s cid = Ret c" "command_ok command"
  shows "returns (l2cap_signaling_handler_channel E cid command s) (l2_good cr s)"
proof -
  obtain code i len where r: "rd command 0 = Ret code" "rd command 1 = Ret i" "little_endian_read_16 command 0 2 = Ret len"
    and len: "4 + unat len \<le> length command" "length command \<le> 32768"
    and opts: "code = CONFIGURE_REQUEST \<and> 4 \<le> unat len \<longrightarrow> opts_ok (take (unat len - 4) (drop 8 command))"
    using assms(3) by (auto simp: command_ok_def)
  note good = assms(1,2)
  have config: "returns (bind_outcome (config_command E code i len command c s) (open_if_ready cid)) (l2_good cr s)"
    if state: "l2_state c = L2CAP_STATE_CONFIG"
  proof -
    obtain t where t: "config_command E code i len command c s = Ret t" "l2_good cr s t" "settled cid t"
      using config_command_good [OF good state r(2,3) len opts, of E] by (auto elim!: returnsE)
    then show ?thesis using open_if_ready_good [OF t(3), where cr = cr] good_trans [OF t(2)] by (auto elim!: returns_mono)
  qed
  have closed: "l2_good cr s (if b then l2cap_finialize_channel_close c s else s)" for b
    using finalize_good by simp
  show ?thesis
    unfolding l2cap_signaling_handler_channel_def assms(2) r bind_outcome_simps
    by (intro returns_if returns_Ret good_refl disconnect_request_received_good [OF good] connect_response_good [OF good _ len(1)] config closed)
qed

lemma dispatch_good:
  assumes "l2_ok s" "env_ok E" "command_ok command" "rd command 0 = Ret CONNECTION_REQUEST \<Longrightarrow> cr"
  shows "returns (l2cap_signaling_handler_dispatch E handle command s) (l2_good cr s)"
proof -
  obtain code i len where r: "rd command 0 = Ret code" "rd command 1 = Ret i" "little_endian_read_16 command 0 2 = Ret len"
    and len: "4 + unat len \<le> length command"
    and six: "code \<in> {COMMAND_REJECT, CONNECTION_RESPONSE, CONFIGURE_REQUEST, CONFIGURE_RESPONSE, DISCONNECTION_REQUEST, DISCONNECTION_RESPONSE,
        INFORMATION_RESPONSE} \<longrightarrow> 6 \<le> length command"
    using assms(3) by (auto simp: command_ok_def)
  have four: "\<exists>v. little_endian_read_16 command 0 4 = Ret v" if "6 \<le> length command"
    using that by (auto simp: little_endian_read_16_def rd_def)
  have read6: "\<exists>v. little_endian_read_16 command 0 6 = Ret v" if "len = 4"
    using that len by (auto simp: little_endian_read_16_def rd_def)
  have connect: "returns (bind_outcome (little_endian_read_16 command 0 4) (\<lambda>p.
      bind_outcome (little_endian_read_16 command 0 6) (\<lambda>source_cid.
      l2cap_handle_connection_request E handle i p source_cid s))) (l2_good cr s)" if "code = CONNECTION_REQUEST" "len = 4"
    using four read6 [OF that(2)] len that assms(4) r(1) connection_request_received_good [OF assms(1,2)] by fastforce
  have info: "returns (bind_outcome (little_endian_read_16 command 0 4) (\<lambda>info_type.
      l2cap_register_signaling_response E handle code i 0 info_type s)) (l2_good cr s)" if "len = 2"
    using four len that register_response_good [OF assms(1)] by fastforce
  have channel: "returns (bind_outcome (little_endian_read_16 command 0 4) (\<lambda>dest_cid.
      case find (\<lambda>c. l2cap_is_dynamic_channel_type (channel_type c) \<and> l2_handle c = handle \<and>
           (if code AND 1 \<noteq> 0 then local_sig_id c = i else local_cid c = dest_cid)) (l2cap_channels s) of
         None \<Rightarrow> Ret s
       | Some c \<Rightarrow> l2cap_signaling_handler_channel E (local_cid c) command s)) (l2_good cr s)" if six: "6 \<le> length command"
  proof -
    obtain v where v: "little_endian_read_16 command 0 4 = Ret v" using four [OF six] by blast
    have "returns (l2cap_signaling_handler_channel E (local_cid c) command s) (l2_good cr s)" if "c \<in> set (l2cap_channels s)" for c
      by (rule handler_channel_good [OF assms(1) chan_member [OF assms(1) that] assms(3)])
    then show ?thesis unfolding v bind_outcome_simps by (auto split: option.split simp: find_Some_iff)
  qed
  have codes: "code \<in> {COMMAND_REJECT, CONNECTION_RESPONSE, CONFIGURE_REQUEST, CONFIGURE_RESPONSE, DISCONNECTION_REQUEST,
      DISCONNECTION_RESPONSE, INFORMATION_RESPONSE}"
    if "\<not> (code < 1 \<or> code = ECHO_RESPONSE \<or> code > INFORMATION_RESPONSE)" "code \<noteq> CONNECTION_REQUEST" "code \<noteq> ECHO_REQUEST"
      "code \<noteq> INFORMATION_REQUEST"
  proof -
    have "1 \<le> unat code" "unat code \<le> 11" using that(1) by (auto simp: sig_codes word_less_nat_alt)
    then have "unat code = 1 \<or> unat code = 2 \<or> unat code = 3 \<or> unat code = 4 \<or> unat code = 5 \<or> unat code = 6 \<or> unat code = 7 \<or>
        unat code = 8 \<or> unat code = 9 \<or> unat code = 10 \<or> unat code = 11" by presburger
    then have "code \<in> {1, 2, 3, 4, 5, 6, 7, 8, 9, 10, 11}" by (auto simp: word_unat_eq_iff)
    then show ?thesis using that by (auto simp: sig_codes)
  qed
  show ?thesis
    unfolding l2cap_signaling_handler_dispatch_def r bind_outcome_simps
    by (intro returns_if register_response_good [OF assms(1)] connect info channel six [THEN mp] codes)
qed

end
