(* ===== verification/L2capSteps.thy ===== *)
theory L2capSteps
  imports L2capSafe
begin

unbundle bit_operations_syntax

text \<open>
  The inputs of L2CAP: events, received packets, calls of applications.  Each of them, when it has
  the bytes that are read, returns, keeps the invariant and follows the machine.
\<close>

subsection \<open>Received packets\<close>

text \<open>The commands in a signaling packet, one after the other.\<close>

function commands_ok :: "bytes \<Rightarrow> bool" where
  "commands_ok r \<longleftrightarrow>
     (if length r \<le> 4 then True
      else case little_endian_read_16 r 0 2 of Undef \<Rightarrow> False
      | Ret len \<Rightarrow> if 4 + unat len > length r then True else command_ok r \<and> commands_ok (drop (4 + unat len) r))"
  by pat_completeness auto
termination by (relation "measure length") auto

text \<open>Whether one of the commands asks for a connection.\<close>

function connects :: "bytes \<Rightarrow> bool" where
  "connects r \<longleftrightarrow>
     (if length r \<le> 4 then False
      else case little_endian_read_16 r 0 2 of Undef \<Rightarrow> False
      | Ret len \<Rightarrow> if 4 + unat len > length r then False else rd r 0 = Ret CONNECTION_REQUEST \<or> connects (drop (4 + unat len) r))"
  by pat_completeness auto
termination by (relation "measure length") auto

declare commands_ok.simps [simp del] connects.simps [simp del]

definition packet_connects :: "bytes \<Rightarrow> bool" where
  "packet_connects q \<longleftrightarrow> little_endian_read_16 q 0 6 = Ret 1 \<and> connects (drop 8 q)"

definition l2_packet_ok :: "bytes \<Rightarrow> bool" where
  "l2_packet_ok q \<longleftrightarrow> length q \<le> 32768 \<and> (little_endian_read_16 q 0 6 = Ret 1 \<longrightarrow> commands_ok (drop 8 q))"

lemma read_drop: "o' \<le> length m \<Longrightarrow> 0 \<le> p \<Longrightarrow> little_endian_read_16 (drop o' m) 0 p = little_endian_read_16 m 0 (int o' + p)"
  by (auto simp: little_endian_read_16_def rd_def nat_add_distrib add.assoc)

lemma read_Ret:
  assumes "0 \<le> p" "p + 1 < int (length m)"
  obtains v where "little_endian_read_16 m 0 p = Ret v"
proof -
  have "little_endian_read_16 m 0 p = Ret (ucast (m ! nat p) OR push_bit 8 (ucast (m ! nat (p + 1))))"
    unfolding little_endian_read_16_def rd_def using assms by simp
  then show ?thesis by (rule that)
qed

lemma commands_good:
  "l2_ok s \<Longrightarrow> env_ok E \<Longrightarrow> offset \<le> length packet \<Longrightarrow> commands_ok (drop offset packet) \<Longrightarrow> length packet - offset \<le> n \<Longrightarrow>
    (connects (drop offset packet) \<Longrightarrow> cr) \<Longrightarrow>
    returns (signaling_commands n E handle packet offset s) (l2_good cr s)"
proof (induction n arbitrary: offset s)
  case 0
  then show ?case by (simp add: signaling_commands.simps)
next
  case (Suc n)
  show ?case
  proof (cases "offset + 4 < length packet")
    case True
    let ?r = "drop offset packet"
    have big: "\<not> length ?r \<le> 4" using True by simp
    obtain len where len: "little_endian_read_16 packet 0 (int offset + 2) = Ret len"
      using True by (auto simp: little_endian_read_16_def rd_def)
    have lenr: "little_endian_read_16 ?r 0 2 = Ret len" using read_drop [of offset packet 2] len Suc.prems(3) by simp
    show ?thesis
    proof (cases "offset + 4 + unat len > length packet")
      case False
      then have fits: "\<not> 4 + unat len > length ?r" using Suc.prems(3) by simp
      then have ok: "command_ok ?r" "commands_ok (drop (4 + unat len) ?r)"
        using Suc.prems(4) big lenr commands_ok.simps [of ?r] by simp_all
      have new: "rd ?r 0 = Ret CONNECTION_REQUEST \<Longrightarrow> cr" "connects (drop (4 + unat len) ?r) \<Longrightarrow> cr"
        using Suc.prems(6) big lenr fits connects.simps [of ?r] by simp_all
      let ?o = "offset + 4 + unat len"
      have eq: "drop (4 + unat len) ?r = drop ?o packet" by (simp add: add.commute add.left_commute)
      have next_cmd: "returns (signaling_commands n E handle packet ?o s') (l2_good cr s')" if "l2_ok s'" for s'
        using False Suc.prems(2,5) ok(2) new(2) unfolding eq by (intro Suc.IH that) simp_all
      have "returns (bind_outcome (l2cap_signaling_handler_dispatch E handle ?r s) (signaling_commands n E handle packet ?o)) (l2_good cr s)"
        by (rule good_bind [OF Suc.prems(1) dispatch_good [OF Suc.prems(1,2) ok(1) new(1)] next_cmd])
      then show ?thesis
        unfolding signaling_commands.simps [of "Suc n"] len bind_outcome_simps nat.case Let_def using True False by simp
    qed (simp add: signaling_commands.simps [of "Suc n"] len True)
  qed (simp add: signaling_commands.simps)
qed

lemma classic_handler_good:
  assumes "l2_ok s" "env_ok E" "l2_packet_ok q" "8 \<le> length q" "packet_connects q \<Longrightarrow> cr"
  shows "returns (l2cap_acl_classic_handler E handle q s) (l2_good cr s)"
proof -
  obtain k where k: "little_endian_read_16 q 0 6 = Ret k" using assms(4) by (auto simp: little_endian_read_16_def rd_def)
  have "returns (signaling_commands (length q) E handle q 8 s) (l2_good cr s)" if "k = 1"
    using assms k that by (intro commands_good) (simp_all add: l2_packet_ok_def packet_connects_def)
  then show ?thesis
    unfolding l2cap_acl_classic_handler_def k
    by (auto simp: l2cap_acl_classic_handler_for_channel_def split: option.split)
qed

lemma l2cap_acl_handler_good:
  assumes "l2_ok s" "env_ok E" "l2_packet_ok q" "packet_connects q \<Longrightarrow> cr"
  shows "returns (l2cap_acl_handler E q s) (l2_good cr s)"
proof (cases "length q < 8")
  case False
  obtain v where v: "little_endian_read_16 q 0 0 = Ret v" by (rule read_Ret [of 0 q]) (use False in simp_all)
  let ?h = "v AND 0x0FFF"
  have part: "returns (if b then l2cap_acl_classic_handler E ?h q s else Ret s) (l2_good cr s)" for b
    using classic_handler_good [OF assms(1-3) _ assms(4)] False by simp
  have "returns (bind_outcome (if b then l2cap_acl_classic_handler E ?h q s else Ret s) (l2cap_run E)) (l2_good cr s)" for b
    by (rule good_bind [OF assms(1) part run_good])
  then show ?thesis
    using False by (simp add: l2cap_acl_handler_def READ_ACL_CONNECTION_HANDLE_def v split: option.split)
qed (simp add: l2cap_acl_handler_def)

lemma receive_acl_good:
  assumes "l2_ok s" "env_ok E" "6 \<le> length packet" "length packet < 65536"
    "\<And>h q. acl_handler packet (l2_hci s) = Ret (h, Some q) \<Longrightarrow> l2_packet_ok q"
    "\<And>h q. acl_handler packet (l2_hci s) = Ret (h, Some q) \<Longrightarrow> packet_connects q \<Longrightarrow> cr"
  shows "returns (receive_acl E packet s) (l2_good cr s)"
proof -
  have hci: "hci_ok (l2_hci s)" using assms(1) by (rule ok_hci)
  then have "returns (acl_handler packet (l2_hci s)) (\<lambda>(s', p). hci_conns_sound s' \<and> (\<forall>q. p = Some q \<longrightarrow> whole_packet q))"
    using assms(3,4) by (intro handler_sound) (simp_all add: hci_ok_def)
  then obtain h r where r: "acl_handler packet (l2_hci s) = Ret (h, r)" "hci_conns_sound h" by (auto elim!: returnsE)
  have "same_link (l2_hci s) h" using r(1) by (rule acl_handler_result) (auto intro: same_link_upd)
  then have "hci_ok h" using hci r(2) by (simp add: hci_ok_def same_link_def)
  then have good: "l2_good cr s (s\<lparr>l2_hci := h\<rparr>)" by (rule good_hci)
  have "returns (case r of None \<Rightarrow> Ret (s\<lparr>l2_hci := h\<rparr>) | Some q \<Rightarrow> l2cap_acl_handler E q (s\<lparr>l2_hci := h\<rparr>)) (l2_good cr (s\<lparr>l2_hci := h\<rparr>))"
    using l2cap_acl_handler_good [OF good_ok [OF good assms(1)] assms(2)] assms(5,6) r(1) by (simp split: option.split)
  then show ?thesis using good_from [OF good] r(1) by (simp add: receive_acl_def Let_def)
qed

subsection \<open>Events\<close>

lemma disconnected_good: "distinct ks \<Longrightarrow> set ks \<subseteq> cids s \<Longrightarrow> returns (disconnected_channels ks handle s) (l2_good cr s)"
proof (induction ks arbitrary: s)
  case (Cons k ks)
  then obtain c where c: "l2_chan s k = Ret c" using cids_chan [of k s] by auto
  let ?s = "l2cap_free_channel_entry k (if channel_type c = L2CAP_CHANNEL_TYPE_CLASSIC then l2cap_handle_hci_disconnect_event c s else s)"
  have good: "l2_good cr s ?s" using good_trans [OF hci_disconnect_good good_free] good_free by simp
  have "cids ?s = cids s - {k}" by (simp add: l2cap_handle_hci_disconnect_event_def emit_defs)
  then have "set ks \<subseteq> cids ?s" using Cons.prems by auto
  then have "returns (disconnected_channels ks handle ?s) (l2_good cr ?s)" using Cons.IH Cons.prems(1) by simp
  then show ?case using good_from [OF good] Cons c by simp
qed simp

lemma features_loop_good: "l2_ok s \<Longrightarrow> set ks \<subseteq> cids s \<Longrightarrow> returns (features_received E ks handle s) (l2_good cr s)"
proof (induction ks arbitrary: s)
  case (Cons k ks)
  then obtain c where c: "l2_chan s k = Ret c" using cids_chan [of k s] by auto
  have "returns (if l2cap_is_dynamic_channel_type (channel_type c) \<and> l2_handle c = handle then
      l2cap_handle_remote_supported_features_received E k s else Ret s) (\<lambda>s'. l2_good cr s s' \<and> cids s' = cids s)"
    using features_good [OF c] by simp
  then obtain t where t: "(if l2cap_is_dynamic_channel_type (channel_type c) \<and> l2_handle c = handle then
      l2cap_handle_remote_supported_features_received E k s else Ret s) = Ret t" "l2_good cr s t" "cids t = cids s" by (auto elim!: returnsE)
  have "returns (features_received E ks handle t) (l2_good cr t)"
    using Cons.IH good_ok [OF t(2) Cons.prems(1)] Cons.prems(2) t(3) by simp
  then show ?case using good_from [OF t(2)] c t(1) by simp
qed simp

lemma security_level_changed_good:
  assumes "l2_ok s" "l2_chan s k = Ret c" "5 \<le> length packet"
  shows "returns (security_level_changed packet handle k s) (\<lambda>s'. l2_good cr s s' \<and> cids s' = cids s)"
proof -
  let ?ask = "\<lambda>c. c\<lparr>l2_state := L2CAP_STATE_WAIT_CLIENT_ACCEPT_OR_REJECT\<rparr> :: l2cap_channel"
  let ?refuse = "\<lambda>c. c\<lparr>l2_reason := 3, l2_state := L2CAP_STATE_WILL_SEND_CONNECTION_RESPONSE_DECLINE\<rparr> :: l2cap_channel"
  have level: "rd packet 4 = Ret (packet ! 4)" using assms(3) by (simp add: rd_def)
  consider "l2_state c = L2CAP_STATE_WAIT_INCOMING_SECURITY_LEVEL_UPDATE" | "l2_state c = L2CAP_STATE_WAIT_OUTGOING_SECURITY_LEVEL_UPDATE"
    | "l2_state c \<notin> {L2CAP_STATE_WAIT_INCOMING_SECURITY_LEVEL_UPDATE, L2CAP_STATE_WAIT_OUTGOING_SECURITY_LEVEL_UPDATE}" by blast
  then show ?thesis
  proof cases
    case 1
    have "l2_good cr s (l2_upd k ?ask s)" by (rule quiet_upd) (use assms(2) 1 in \<open>auto simp: chan_edits asked\<close>)
    then have "l2_good cr s (l2_act a (l2_upd k ?ask s))" for a using good_act by (rule good_trans)
    moreover have "l2_good cr s (l2_upd k ?refuse s)" by (rule quiet_upd) (use assms(2) 1 in \<open>auto simp: chan_edits insecure\<close>)
    moreover have "l2_set k ?ask s = Ret (l2_upd k ?ask s, ?ask c)" by (rule set_eq [OF assms(2)]) simp
    ultimately show ?thesis using 1 by (simp add: security_level_changed_def assms(2) level emit_defs cids_upd)
  next
    case 2
    have "l2_good cr s (l2_upd k l2cap_ready_to_connect s)"
      by (rule quiet_upd) (use assms(2) 2 in \<open>auto simp: chan_edits l2cap_ready_to_connect_def may_connect\<close>)
    then show ?thesis using 2 by (simp add: security_level_changed_def assms(2) level cids_upd l2cap_ready_to_connect_def)
  qed (simp add: security_level_changed_def assms(2) level)
qed

lemma security_levels_good: "l2_ok s \<Longrightarrow> set ks \<subseteq> cids s \<Longrightarrow> 5 \<le> length packet \<Longrightarrow>
    returns (security_levels_changed packet ks handle s) (l2_good cr s)"
proof (induction ks arbitrary: s)
  case (Cons k ks)
  then obtain c where c: "l2_chan s k = Ret c" using cids_chan [of k s] by auto
  obtain t where t: "security_level_changed packet handle k s = Ret t" "l2_good cr s t" "cids t = cids s"
    using security_level_changed_good [OF Cons.prems(1) c Cons.prems(3), where handle = handle and cr = cr] by (auto elim!: returnsE)
  have "returns (security_levels_changed packet ks handle t) (l2_good cr t)"
    using Cons.IH good_ok [OF t(2) Cons.prems(1)] Cons.prems(2,3) t(3) by simp
  then show ?case using good_from [OF t(2)] t(1) by simp
qed simp

text \<open>An event with the bytes that its handler reads.\<close>

definition l2_event_ok :: "bytes \<Rightarrow> bool" where
  "l2_event_ok p \<longleftrightarrow> p \<noteq> [] \<and>
     (p ! 0 = 0x0F \<longrightarrow> 6 \<le> length p) \<and> (p ! 0 = 0x03 \<longrightarrow> 11 \<le> length p) \<and>
     (p ! 0 = 0x0E \<longrightarrow> 5 \<le> length p \<and> (little_endian_read_16 p 0 3 = Ret 0x0408 \<longrightarrow> 12 \<le> length p)) \<and>
     (p ! 0 = 0x73 \<longrightarrow> 4 \<le> length p) \<and> (p ! 0 \<in> {0x05, 0x0B, 0x23, 0xE0} \<longrightarrow> 5 \<le> length p)"

lemma address_returns: "0 \<le> p \<Longrightarrow> p + 6 \<le> int (length packet) \<Longrightarrow> \<exists>a. event_address packet p = Ret a"
  by (simp add: event_address_def rd_block_def)

lemma command_status_good:
  assumes "l2_ok s" "6 \<le> length packet"
  shows "returns (event_command_status E packet s) (l2_good cr s)"
proof -
  obtain opcode where opcode: "little_endian_read_16 packet 0 4 = Ret opcode" by (rule read_Ret [of 4 packet]) (use assms(2) in simp_all)
  have status: "rd packet 2 = Ret (packet ! 2)" using assms(2) by (simp add: rd_def)
  have good: "l2_good cr s (s\<lparr>l2cap_outgoing_classic_addr := a\<rparr>)" for a by (rule good_same) simp_all
  have "returns (if opcode = 0x0405 then
          bind_outcome (rd packet 2) (\<lambda>status.
          let address = l2cap_outgoing_classic_addr s; s = s\<lparr>l2cap_outgoing_classic_addr := replicate 6 0\<rparr> in
          if status \<noteq> 0 then l2cap_handle_connection_failed_for_addr address status s else Ret s)
        else Ret s) (l2_good cr s)"
    using good_from [OF good connection_failed_good] good by (simp add: status Let_def)
  then show ?thesis
    unfolding event_command_status_def opcode bind_outcome_simps by (rule good_bind [OF assms(1) _ run_good])
qed

lemma connection_complete_good:
  assumes "l2_ok s" "11 \<le> length packet"
  shows "returns (event_connection_complete E packet s) (l2_good cr s)"
proof -
  obtain a where a: "event_address packet 5 = Ret a" using address_returns [of 5 packet] assms(2) by auto
  obtain h where h: "little_endian_read_16 packet 0 3 = Ret h" by (rule read_Ret [of 3 packet]) (use assms(2) in simp_all)
  have status: "rd packet 2 = Ret (packet ! 2)" using assms(2) by (simp add: rd_def)
  show ?thesis
    using connection_success_good [OF assms(1)] connection_failed_good by (simp add: event_connection_complete_def a h status)
qed

lemma command_complete_good:
  assumes "l2_ok s" "5 \<le> length packet" "little_endian_read_16 packet 0 3 = Ret 0x0408 \<longrightarrow> 12 \<le> length packet"
  shows "returns (event_command_complete E packet s) (l2_good cr s)"
proof -
  obtain opcode where opcode: "little_endian_read_16 packet 0 3 = Ret opcode" by (rule read_Ret [of 3 packet]) (use assms(2) in simp_all)
  have "returns (if opcode = 0x0408 then
          bind_outcome (rd packet 5) (\<lambda>status.
          if status = 0 then
            bind_outcome (event_address packet 6) (\<lambda>address. l2cap_handle_connection_failed_for_addr address 0x16 s)
          else Ret s)
        else Ret s) (l2_good cr s)"
  proof (cases "opcode = 0x0408")
    case True
    then have len: "12 \<le> length packet" using assms(3) opcode by simp
    then obtain a where "event_address packet 6 = Ret a" using address_returns [of 6 packet] by auto
    then show ?thesis using True len connection_failed_good by (simp add: rd_def)
  qed simp
  then show ?thesis
    unfolding event_command_complete_def opcode bind_outcome_simps by (rule good_bind [OF assms(1) _ run_good])
qed

lemma all_cids: "l2_ok s \<Longrightarrow> distinct (map local_cid (l2cap_channels s)) \<and> set (map local_cid (l2cap_channels s)) \<subseteq> cids s"
  by (simp add: l2_ok_def cids_def)

lemma event_good:
  assumes "l2_ok s" "l2_event_ok packet"
  shows "returns (l2cap_hci_event_handler E packet s) (l2_good cr s)"
proof -
  have event: "rd packet 0 = Ret (packet ! 0)" using assms(2) by (simp add: rd_def l2_event_ok_def)
  have gone: "returns (bind_outcome (little_endian_read_16 packet 0 3) (\<lambda>handle.
      disconnected_channels (map local_cid (l2cap_channels s)) handle s)) (l2_good cr s)" if "5 \<le> length packet"
  proof -
    have len: "3 + 1 < int (length packet)" using that by simp
    obtain h where h: "little_endian_read_16 packet 0 3 = Ret h" by (rule read_Ret [OF _ len]) simp
    show ?thesis unfolding h bind_outcome_simps by (rule disconnected_good) (use all_cids [OF assms(1)] in blast)+
  qed
  have timeout: "returns (event_timeout_check E packet s) (l2_good cr s)" if "4 \<le> length packet"
  proof -
    have len: "2 + 1 < int (length packet)" using that by simp
    obtain h where h: "little_endian_read_16 packet 0 2 = Ret h" by (rule read_Ret [OF _ len]) simp
    show ?thesis by (simp add: event_timeout_check_def h)
  qed
  have features: "returns (event_features_complete E packet s) (l2_good cr s)" if "5 \<le> length packet"
  proof -
    have len: "3 + 1 < int (length packet)" using that by simp
    obtain h where h: "little_endian_read_16 packet 0 3 = Ret h" by (rule read_Ret [OF _ len]) simp
    have "returns (features_received E (map local_cid (l2cap_channels s)) h s) (l2_good cr s)"
      by (rule features_loop_good [OF assms(1)]) (use all_cids [OF assms(1)] in blast)
    then show ?thesis by (simp add: event_features_complete_def h split: option.split)
  qed
  have level: "returns (event_security_level packet s) (l2_good cr s)" if "5 \<le> length packet"
  proof -
    have len: "2 + 1 < int (length packet)" using that by simp
    obtain h where h: "little_endian_read_16 packet 0 2 = Ret h" by (rule read_Ret [OF _ len]) simp
    have "returns (security_levels_changed packet (map local_cid (l2cap_channels s)) h s) (l2_good cr s)"
      by (rule security_levels_good [OF assms(1) _ that]) (use all_cids [OF assms(1)] in blast)
    then show ?thesis by (simp add: event_security_level_def h)
  qed
  have sent: "returns (bind_outcome (l2cap_run E s) (l2cap_notify_channel_can_send E)) (l2_good cr s)"
    by (rule good_bind [OF assms(1) run_good [OF assms(1)] notify_good])
  have "returns (if packet ! 0 \<in> {0x6E, 0x13, 0x61} then bind_outcome (l2cap_run E s) (l2cap_notify_channel_can_send E)
        else if packet ! 0 = 0x0F then event_command_status E packet s
        else if packet ! 0 = 0x03 then event_connection_complete E packet s
        else if packet ! 0 = 0x0E then event_command_complete E packet s
        else if packet ! 0 = 0x05 then
          bind_outcome (little_endian_read_16 packet 0 3) (\<lambda>handle.
          disconnected_channels (map local_cid (l2cap_channels s)) handle s)
        else if packet ! 0 = 0x73 then event_timeout_check E packet s
        else if packet ! 0 \<in> {0x0B, 0x23} then event_features_complete E packet s
        else if packet ! 0 = 0xE0 then event_security_level packet s
        else Ret s) (l2_good cr s)"
    using assms(2) unfolding l2_event_ok_def
    by (intro returns_if returns_Ret good_refl sent command_status_good connection_complete_good command_complete_good gone timeout features
        level assms(1)) (simp_all, blast)
  then show ?thesis
    unfolding l2cap_hci_event_handler_def event bind_outcome_simps by (rule good_bind [OF assms(1) _ run_good])
qed

subsection \<open>Calls of applications\<close>

text \<open>\<open>HciChanges\<close> stands for anything that happens in HCI between two inputs.\<close>

datatype l2_input = HciEvent bytes | AclPacket bytes | HciChanges hci | RtxTimeout u16 | CreateChannel nat bytes u16 u16 |
  DisconnectChannel u16 | AcceptConnection u16 | DeclineConnection u16 | SendData u16 bytes | SendPrepared u16 u16 |
  SendConnectionless u16 u16 bytes | SendPreparedConnectionless u16 u16 u16 | SendEcho u16 bytes | RequestCanSend u16 |
  RequestCanSendFixed u16 | ReserveBuffer | ReleaseBuffer | RegisterFixed nat u16 | RegisterService nat u16 u16 byte |
  UnregisterService u16 | RequireSecurity

definition state_of :: "(l2 \<times> 'a) outcome \<Rightarrow> l2 outcome" where
  "state_of m = bind_outcome m (\<lambda>(s, _). Ret s)"

fun l2_do :: "l2_env \<Rightarrow> l2_input \<Rightarrow> l2 \<Rightarrow> l2 outcome" where
  "l2_do E (HciEvent p) s = l2cap_hci_event_handler E p s"
| "l2_do E (AclPacket p) s = receive_acl E p s"
| "l2_do E (HciChanges h) s = Ret (s\<lparr>l2_hci := h\<rparr>)"
| "l2_do E (RtxTimeout cid) s = Ret (l2cap_rtx_timeout cid s)"
| "l2_do E (CreateChannel handler a p mtu) s = state_of (l2cap_create_channel E handler a p mtu s)"
| "l2_do E (DisconnectChannel cid) s = l2cap_disconnect E cid s"
| "l2_do E (AcceptConnection cid) s = l2cap_accept_connection E cid s"
| "l2_do E (DeclineConnection cid) s = l2cap_decline_connection E cid s"
| "l2_do E (SendData cid data) s = state_of (l2cap_send E cid data s)"
| "l2_do E (SendPrepared cid len) s = state_of (l2cap_send_prepared E cid len s)"
| "l2_do E (SendConnectionless handle cid data) s = state_of (l2cap_send_connectionless E handle cid data s)"
| "l2_do E (SendPreparedConnectionless handle cid len) s = state_of (l2cap_send_prepared_connectionless E handle cid len s)"
| "l2_do E (SendEcho handle data) s = state_of (l2cap_send_echo_request E handle data s)"
| "l2_do E (RequestCanSend cid) s = l2cap_request_can_send_now_event E cid s"
| "l2_do E (RequestCanSendFixed cid) s = l2cap_request_can_send_fix_channel_now_event E cid s"
| "l2_do E ReserveBuffer s = Ret (fst (l2cap_reserve_packet_buffer s))"
| "l2_do E ReleaseBuffer s = Ret (l2cap_release_packet_buffer s)"
| "l2_do E (RegisterFixed handler cid) s = Ret (l2cap_register_fixed_channel handler cid s)"
| "l2_do E (RegisterService handler p mtu level) s = Ret (fst (l2cap_register_service E handler p mtu level s))"
| "l2_do E (UnregisterService p) s = Ret (fst (l2cap_unregister_service p s))"
| "l2_do E RequireSecurity s = Ret (l2cap_require_security_level_2_for_outgoing_sdp s)"

text \<open>What the code relies on; the lengths of data sent unchecked are bounded by the packet buffer.\<close>

fun input_ok :: "l2_input \<Rightarrow> l2 \<Rightarrow> bool" where
  "input_ok (HciEvent p) s = l2_event_ok p"
| "input_ok (AclPacket p) s = (6 \<le> length p \<and> length p < 65536 \<and> (\<forall>h q. acl_handler p (l2_hci s) = Ret (h, Some q) \<longrightarrow> l2_packet_ok q))"
| "input_ok (HciChanges h) s = hci_ok h"
| "input_ok (SendPrepared cid len) s = (unat len \<le> 1017)"
| "input_ok (SendConnectionless handle cid data) s = (length data \<le> 1017)"
| "input_ok (SendPreparedConnectionless handle cid len) s = (unat len \<le> 1017)"
| "input_ok (SendEcho handle data) s = (length data \<le> 1013)"
| "input_ok _ s = True"

text \<open>The inputs that may create a channel: the call for it, and packets with a request for a connection.\<close>

fun creates :: "l2_input \<Rightarrow> l2 \<Rightarrow> bool" where
  "creates (AclPacket p) s = (case acl_handler p (l2_hci s) of Ret (h, Some q) \<Rightarrow> packet_connects q | _ \<Rightarrow> False)"
| "creates (CreateChannel handler a p mtu) s = True"
| "creates _ s = False"

definition l2_sends :: "l2 \<Rightarrow> (l2 \<times> int) outcome \<Rightarrow> bool" where
  "l2_sends s m \<longleftrightarrow> returns m (\<lambda>(s', err). \<exists>h. s' = s\<lparr>l2_hci := h\<rparr> \<and> hci_ok h)"

lemma sends_good: "l2_sends s m \<Longrightarrow> returns (state_of m) (l2_good cr s)"
  by (auto simp: l2_sends_def state_of_def good_hci elim!: returnsE)

lemma header_returns:
  assumes "length buf = 1025"
  shows "\<exists>b. l2cap_setup_header buf handle pb cid len = Ret b \<and> length b = 1025"
proof -
  have st: "\<exists>b. little_endian_store_16 m 0 p v = Ret b \<and> length b = 1025" if "length m = 1025" "uint p \<le> 100" for m p v
    using that u16_sum [of p 1] by (auto simp: little_endian_store_16_def store_byte_def wr_def)
  obtain b1 where b1: "little_endian_store_16 buf 0 0 (handle OR push_bit 12 pb) = Ret b1" "length b1 = 1025" using st [OF assms, of 0] by auto
  obtain b2 where b2: "little_endian_store_16 b1 0 2 (len + 4) = Ret b2" "length b2 = 1025" using st [OF b1(2), of 2] by auto
  obtain b3 where b3: "little_endian_store_16 b2 0 4 len = Ret b3" "length b3 = 1025" using st [OF b2(2), of 4] by auto
  obtain b4 where b4: "little_endian_store_16 b3 0 6 cid = Ret b4" "length b4 = 1025" using st [OF b3(2), of 6] by auto
  show ?thesis using b1 b2 b3 b4 by (simp add: l2cap_setup_header_def)
qed

text \<open>A packet in the buffer, and its length, are handed to HCI with a new header.\<close>

lemma header_sent:
  assumes "hci_ok (l2_hci s)" "unat len \<le> 1017"
  shows "l2_sends s (bind_outcome (l2cap_setup_header (hci_packet_buffer (l2_hci s)) handle pb cid len) (\<lambda>buf.
    bind_outcome (hci_send_acl_packet_buffer (transport E) (len + 8) ((l2_hci s)\<lparr>hci_packet_buffer := buf\<rparr>)) (\<lambda>(h, err).
    Ret (s\<lparr>l2_hci := h\<rparr>, err))))"
proof -
  have "length (hci_packet_buffer (l2_hci s)) = 1025" using assms(1) by (simp add: hci_ok_def)
  then obtain b where b: "l2cap_setup_header (hci_packet_buffer (l2_hci s)) handle pb cid len = Ret b" "length b = 1025"
    using header_returns by blast
  have ok: "hci_ok ((l2_hci s)\<lparr>hci_packet_buffer := b\<rparr>)" using assms(1) b(2) by (simp add: hci_ok_def hci_conns_sound_def)
  have "unat (len + 8) = unat len + 8" using assms(2) by (simp add: unat_word_ariths)
  then obtain h err where "hci_send_acl_packet_buffer (transport E) (len + 8) ((l2_hci s)\<lparr>hci_packet_buffer := b\<rparr>) = Ret (h, err)" "hci_ok h"
    using send_buffer_returns [OF ok, of "len + 8" "transport E"] assms(2) by (auto elim!: returnsE)
  then show ?thesis using b(1) by (auto simp: l2_sends_def)
qed

lemma send_nothing: "hci_ok (l2_hci s) \<Longrightarrow> l2_sends s (Ret (s, err))"
  by (auto simp: l2_sends_def intro: exI [of _ "l2_hci s"])

lemma prepared_sent:
  assumes "hci_ok (l2_hci s)" "unat len \<le> 1017"
  shows "l2_sends s (l2cap_send_prepared E cid len s)" "l2_sends s (l2cap_send_prepared_connectionless E handle cid len s)"
  using send_nothing [OF assms(1)]
  by (auto simp: l2cap_send_prepared_def l2cap_send_prepared_connectionless_def intro!: header_sent [OF assms] split: option.split)

lemma copied:
  assumes "hci_ok (l2_hci s)" "length data \<le> 1017"
  defines "h \<equiv> fst (hci_reserve_packet_buffer (l2_hci s))"
  obtains buf where "wr_block (hci_packet_buffer h) 8 data = Ret buf" "hci_ok (h\<lparr>hci_packet_buffer := buf\<rparr>)"
    "unat (of_nat (length data) :: u16) \<le> 1017"
proof -
  have h: "hci_ok h" using assms(1) by (simp add: h_def hci_reserve_packet_buffer_def hci_ok_def hci_conns_sound_def)
  obtain buf where buf: "wr_block (hci_packet_buffer h) 8 data = Ret buf" "length buf = length (hci_packet_buffer h)"
    by (rule wr_block_Ret [of 8 data "hci_packet_buffer h"]) (use h assms(2) in \<open>simp_all add: hci_ok_def\<close>)
  have "hci_ok (h\<lparr>hci_packet_buffer := buf\<rparr>)" using h buf(2) by (simp add: hci_ok_def hci_conns_sound_def)
  moreover have "unat (of_nat (length data) :: u16) = length data" using assms(2) by (intro unat_of_nat_u16) simp
  ultimately show ?thesis using that buf(1) assms(2) by simp
qed

lemma l2_sends_from: "l2_sends (s\<lparr>l2_hci := h\<rparr>) m \<Longrightarrow> l2_sends s m"
  by (simp add: l2_sends_def)

lemma data_sent:
  assumes "l2_ok s"
  shows "l2_sends s (l2cap_send E cid data s)"
proof (cases "l2cap_get_channel_for_local_cid s cid")
  case (Some c)
  note hci = ok_hci [OF assms]
  show ?thesis
  proof (cases "length data \<le> unat (remote_mtu c) \<and> hci_can_send_acl_packet_now (transport E) (l2_hci s) (l2_handle c)")
    case True
    have "c \<in> set (l2cap_channels s)" using Some found by (auto simp: l2cap_get_channel_for_local_cid_def split: if_splits)
    then have "unat (remote_mtu c) \<le> 1017" using assms by (auto simp: l2_ok_def chan_ok_def word_le_nat_alt)
    then have "length data \<le> 1017" using True by linarith
    then obtain buf where buf: "wr_block (hci_packet_buffer (fst (hci_reserve_packet_buffer (l2_hci s)))) 8 data = Ret buf"
        "hci_ok ((fst (hci_reserve_packet_buffer (l2_hci s)))\<lparr>hci_packet_buffer := buf\<rparr>)" "unat (of_nat (length data) :: u16) \<le> 1017"
      by (rule copied [OF hci])
    let ?s = "s\<lparr>l2_hci := (fst (hci_reserve_packet_buffer (l2_hci s)))\<lparr>hci_packet_buffer := buf\<rparr>\<rparr>"
    have "l2_sends ?s (l2cap_send_prepared E cid (of_nat (length data)) ?s)" using buf(2,3) by (intro prepared_sent) simp_all
    then show ?thesis using Some True buf(1) l2_sends_from by (simp add: l2cap_send_def Let_def)
  qed (use Some send_nothing [OF hci] in \<open>auto simp: l2cap_send_def\<close>)
qed (simp add: l2cap_send_def send_nothing ok_hci [OF assms])

lemma connectionless_sent:
  assumes "hci_ok (l2_hci s)" "length data \<le> 1017"
  shows "l2_sends s (l2cap_send_connectionless E handle cid data s)"
proof (cases "hci_can_send_acl_packet_now (transport E) (l2_hci s) handle")
  case True
  obtain buf where buf: "wr_block (hci_packet_buffer (fst (hci_reserve_packet_buffer (l2_hci s)))) 8 data = Ret buf"
      "hci_ok ((fst (hci_reserve_packet_buffer (l2_hci s)))\<lparr>hci_packet_buffer := buf\<rparr>)" "unat (of_nat (length data) :: u16) \<le> 1017"
    by (rule copied [OF assms])
  let ?s = "s\<lparr>l2_hci := (fst (hci_reserve_packet_buffer (l2_hci s)))\<lparr>hci_packet_buffer := buf\<rparr>\<rparr>"
  have "l2_sends ?s (l2cap_send_prepared_connectionless E handle cid (of_nat (length data)) ?s)"
    using buf(2,3) by (intro prepared_sent) simp_all
  then show ?thesis using True buf(1) l2_sends_from by (simp add: l2cap_send_connectionless_def Let_def)
qed (use send_nothing [OF assms(1)] in \<open>simp add: l2cap_send_connectionless_def\<close>)

lemma echo_sent: "hci_ok (l2_hci s) \<Longrightarrow> length data \<le> 1013 \<Longrightarrow> l2_sends s (l2cap_send_echo_request E handle data s)"
  using send_signaling_returns [of s ECHO_REQUEST "[Data data]" E handle "0x77"]
  by (auto simp: l2cap_send_echo_request_def l2_sends_def elim!: returns_mono)

lemma rtx_good: "l2_good cr s (l2cap_rtx_timeout cid s)"
  using good_trans [OF good_act good_free] by (auto simp: l2cap_rtx_timeout_def emit_defs split: option.split)

lemma upd_run_good: "l2_ok s \<Longrightarrow> l2_good cr s (l2_upd cid f s) \<Longrightarrow> returns (l2cap_run E (l2_upd cid f s)) (l2_good cr s)"
  using good_from [OF _ run_good [OF good_ok]] by blast

lemma answer_good:
  assumes "l2_ok s"
  shows "returns (l2cap_accept_connection E cid s) (l2_good cr s)" "returns (l2cap_decline_connection E cid s) (l2_good cr s)"
proof -
  have "l2_good cr s (l2_upd cid (\<lambda>c. c\<lparr>l2_state := L2CAP_STATE_WILL_SEND_CONNECTION_RESPONSE_ACCEPT\<rparr>) s)"
    by (rule quiet_upd) (simp add: chan_edits told)
  moreover have "l2_good cr s (l2_upd cid (\<lambda>c. c\<lparr>l2_state := L2CAP_STATE_WILL_SEND_CONNECTION_RESPONSE_DECLINE, l2_reason := 4\<rparr>) s)"
    by (rule quiet_upd) (simp add: chan_edits told)
  ultimately show "returns (l2cap_accept_connection E cid s) (l2_good cr s)" "returns (l2cap_decline_connection E cid s) (l2_good cr s)"
    using upd_run_good [OF assms] by (simp_all add: l2cap_accept_connection_def l2cap_decline_connection_def split: option.split)
qed

lemma request_good:
  assumes "l2_ok s"
  shows "returns (l2cap_request_can_send_now_event E cid s) (l2_good cr s)"
    "returns (l2cap_request_can_send_fix_channel_now_event E cid s) (l2_good cr s)"
proof -
  have good: "l2_good cr s (l2_upd cid (\<lambda>c. c\<lparr>l2_waiting := True\<rparr>) s)" by (rule quiet_upd) (simp add: chan_edits stay)
  have "returns (l2cap_notify_channel_can_send E (l2_upd cid (\<lambda>c. c\<lparr>l2_waiting := True\<rparr>) s)) (l2_good cr s)"
    using good_from [OF good notify_good [OF good_ok [OF good assms]]] .
  then show "returns (l2cap_request_can_send_now_event E cid s) (l2_good cr s)"
    "returns (l2cap_request_can_send_fix_channel_now_event E cid s) (l2_good cr s)"
    by (simp_all add: l2cap_request_can_send_now_event_def l2cap_request_can_send_fix_channel_now_event_def split: option.split)
qed

lemma handler_registered_good: "l2_good cr s (l2cap_register_fixed_channel handler cid s)"
proof -
  have "l2_good cr s (l2_upd cid (\<lambda>c. c\<lparr>l2_handler := handler\<rparr>) s)" by (rule quiet_upd) (simp add: chan_edits stay)
  then show ?thesis by (simp add: l2cap_register_fixed_channel_def split: option.split)
qed

lemma service_good: "l2_good cr s (fst (l2cap_register_service E handler p mtu level s))" "l2_good cr s (fst (l2cap_unregister_service p s))"
proof -
  have same: "l2_good cr s (s\<lparr>l2cap_services := vs\<rparr>)" for vs by (rule good_same) simp_all
  show "l2_good cr s (fst (l2cap_register_service E handler p mtu level s))"
    using good_trans [OF same good_act] by (simp add: l2cap_register_service_def)
  show "l2_good cr s (fst (l2cap_unregister_service p s))"
    using same good_trans [OF same good_act] by (simp add: l2cap_unregister_service_def Let_def split: option.split)
qed

lemma buffer_good: "l2_good cr s (fst (l2cap_reserve_packet_buffer s))" "l2_good cr s (l2cap_release_packet_buffer s)"
  "l2_good cr s (l2cap_require_security_level_2_for_outgoing_sdp s)"
proof -
  have "hci_ok (fst (hci_reserve_packet_buffer h))" "hci_ok (hci_release_packet_buffer h)" if "hci_ok h" for h
    using that by (simp_all add: hci_ok_def hci_conns_sound_def hci_reserve_packet_buffer_def hci_release_packet_buffer_def)
  then show "l2_good cr s (fst (l2cap_reserve_packet_buffer s))" "l2_good cr s (l2cap_release_packet_buffer s)"
    by (auto simp: l2cap_reserve_packet_buffer_def l2cap_release_packet_buffer_def split_beta intro!: good_same)
  show "l2_good cr s (l2cap_require_security_level_2_for_outgoing_sdp s)"
    unfolding l2cap_require_security_level_2_for_outgoing_sdp_def by (rule good_same) simp_all
qed

lemma input_good:
  assumes "l2_ok s" "env_ok E" "input_ok i s"
  shows "returns (l2_do E i s) (l2_good (creates i s) s)"
proof (cases i)
  case (AclPacket p)
  then show ?thesis using receive_acl_good [OF assms(1,2), of p "creates i s"] assms(3) by simp
next
  case (CreateChannel handler a p mtu)
  then show ?thesis using create_channel_good [OF assms(1,2), of handler a p mtu] by (auto simp: state_of_def elim!: returnsE)
qed (use assms(1,3) ok_hci [OF assms(1)] in \<open>simp_all add: event_good good_hci rtx_good disconnect_good answer_good request_good
    handler_registered_good service_good buffer_good sends_good data_sent prepared_sent connectionless_sent echo_sent\<close>)

subsection \<open>The states that are reached\<close>

inductive l2_reached :: "l2 \<Rightarrow> bool" where
  initial: "hci_ok (l2_hci s) \<Longrightarrow> local_source_cid s = 0x40 \<Longrightarrow> l2_reached (l2cap_init s)"
| input: "l2_reached s \<Longrightarrow> env_ok E \<Longrightarrow> input_ok i s \<Longrightarrow> l2_do E i s = Ret s' \<Longrightarrow> l2_reached s'"

text \<open>Sequences of inputs; without \<open>cr\<close>, none of them asks for a new channel.\<close>

inductive l2_inputs :: "bool \<Rightarrow> l2 \<Rightarrow> l2 \<Rightarrow> bool" where
  no_input: "l2_inputs cr s s"
| more_input: "l2_inputs cr s s' \<Longrightarrow> env_ok E \<Longrightarrow> input_ok i s' \<Longrightarrow> (creates i s' \<longrightarrow> cr) \<Longrightarrow> l2_do E i s' = Ret s'' \<Longrightarrow>
    l2_inputs cr s s''"

lemma initial_ok: "hci_ok (l2_hci s) \<Longrightarrow> local_source_cid s = 0x40 \<Longrightarrow> l2_ok (l2cap_init s)"
  by (simp add: l2_ok_def l2cap_init_def l2_act_def chan_ok_def)

lemma reached_ok: "l2_reached s \<Longrightarrow> l2_ok s"
proof (induction rule: l2_reached.induct)
  case (input s E i s')
  then show ?case using input_good [OF input.IH input.hyps(2,3)] good_ok by (auto elim!: returnsE)
qed (rule initial_ok)

lemma follows_mono: "l2_follows b s s' \<Longrightarrow> (b \<Longrightarrow> cr) \<Longrightarrow> l2_follows cr s s'"
  by (auto simp: l2_follows_def)

lemma inputs_good: "l2_inputs cr s s' \<Longrightarrow> l2_good cr s s'"
proof (induction rule: l2_inputs.induct)
  case (more_input cr s s' E i s'')
  have "l2_good cr s' s''" if "l2_ok s'"
    using input_good [OF that more_input.hyps(2,3)] more_input.hyps(4,5) follows_mono that by (auto simp: l2_good_def)
  then have "l2_good cr s' s''" by (auto simp: l2_good_def)
  with more_input.IH show ?case by (rule good_trans)
qed simp

end
