(* ===== verification/L2capProps.thy ===== *)
theory L2capProps
  imports L2capSteps HciProps
begin

unbundle bit_operations_syntax

text \<open>
  The properties of L2CAP: it handles every input and its channels follow the machine, open channels
  are configured on both sides, data and signaling commands arrive as they were sent, and an option
  that is not understood blocks a channel.
\<close>

subsection \<open>Data\<close>

lemma header_written:
  assumes "length buf = 1025" "holds_at buf 8 data" "length data \<le> 1017"
  shows "\<exists>b. l2cap_setup_header buf handle pb cid (of_nat (length data)) = Ret b \<and> length b = 1025 \<and>
    holds_at b 0 (acl_packet (handle OR push_bit 12 pb) (l2cap_frame cid data))"
proof -
  let ?n = "length data"
  have st: "little_endian_store_16 m 0 p v = wr_block m (uint p) (le16 v)" if "unat p \<le> 100" for m p v
    using that by (subst le16.store_enc) simp_all
  let ?f = "handle OR push_bit 12 pb"
  obtain b1 where b1: "wr_block buf 0 (le16 ?f) = Ret b1" "length b1 = 1025" "holds_at b1 0 (le16 ?f)"
      "\<And>q xs. holds_at buf q xs \<Longrightarrow> q + int (length xs) \<le> 0 \<or> 2 \<le> q \<Longrightarrow> holds_at b1 q xs"
    by (rule wr_block_Ret [of 0 "le16 ?f" buf]) (use assms(1) in simp_all)
  obtain b2 where b2: "wr_block b1 2 (le16 (of_nat ?n + 4)) = Ret b2" "length b2 = 1025" "holds_at b2 2 (le16 (of_nat ?n + 4))"
      "\<And>q xs. holds_at b1 q xs \<Longrightarrow> q + int (length xs) \<le> 2 \<or> 4 \<le> q \<Longrightarrow> holds_at b2 q xs"
    by (rule wr_block_Ret [of 2 "le16 (of_nat ?n + 4)" b1]) (use b1(2) in simp_all)
  obtain b3 where b3: "wr_block b2 4 (le16 (of_nat ?n)) = Ret b3" "length b3 = 1025" "holds_at b3 4 (le16 (of_nat ?n))"
      "\<And>q xs. holds_at b2 q xs \<Longrightarrow> q + int (length xs) \<le> 4 \<or> 6 \<le> q \<Longrightarrow> holds_at b3 q xs"
    by (rule wr_block_Ret [of 4 "le16 (of_nat ?n)" b2]) (use b2(2) in simp_all)
  obtain b4 where b4: "wr_block b3 6 (le16 cid) = Ret b4" "length b4 = 1025" "holds_at b4 6 (le16 cid)"
      "\<And>q xs. holds_at b3 q xs \<Longrightarrow> q + int (length xs) \<le> 6 \<or> 8 \<le> q \<Longrightarrow> holds_at b4 q xs"
    by (rule wr_block_Ret [of 6 "le16 cid" b3]) (use b3(2) in simp_all)
  have "holds_at b4 0 (le16 ?f)" "holds_at b4 2 (le16 (of_nat ?n + 4))" "holds_at b4 4 (le16 (of_nat ?n))" "holds_at b4 8 data"
    using b1(3,4) b2(3,4) b3(3,4) b4(4) assms(2) by simp_all
  then have "holds_at b4 0 (le16 ?f @ le16 (of_nat ?n + 4) @ le16 (of_nat ?n) @ le16 cid @ data)"
    using b4(3) by (simp add: holds_at_append)
  moreover have "acl_packet ?f (l2cap_frame cid data) = le16 ?f @ le16 (of_nat ?n + 4) @ le16 (of_nat ?n) @ le16 cid @ data"
    by (simp add: acl_packet_def l2cap_frame_def) (simp only: add.commute)
  ultimately have "holds_at b4 0 (acl_packet ?f (l2cap_frame cid data))" by simp
  then show ?thesis using b1(1) b2(1) b3(1) b4(1,2) by (simp add: l2cap_setup_header_def st)
qed

lemma flags_handle: "(h :: u16) < 0x1000 \<Longrightarrow> pb \<in> {0, 2} \<Longrightarrow> (h OR push_bit 12 pb) AND 0x0FFF = h"
proof -
  assume h: "h < 0x1000" and pb: "pb \<in> {0, 2}"
  have "push_bit 12 pb AND (0x0FFF :: u16) = 0" using pb by auto
  then show "(h OR push_bit 12 pb) AND 0x0FFF = h" using handle_12 [OF h] by (simp add: bit.conj_disj_distrib2)
qed

lemma flags_boundary: "(h :: u16) < 0x1000 \<Longrightarrow> pb = 0 \<or> pb = 2 \<Longrightarrow> drop_bit 12 (h OR push_bit 12 pb) = pb"
proof -
  assume "h < 0x1000" and pb: "pb = 0 \<or> pb = 2"
  then have "drop_bit 12 h = 0" by (simp add: drop_bit_eq_div word_less_nat_alt word_arith_nat_div)
  then show "drop_bit 12 (h OR push_bit 12 pb) = pb" using pb by (auto simp: drop_bit_or)
qed

text \<open>A frame in the packet buffer is on its way, with the handle of the link in its header.\<close>

lemma frame_starts:
  assumes "l2_ok s" "hci_can_send_acl_packet_now (transport E) (l2_hci s) handle" "length buf = 1025"
    "holds_at buf 0 (acl_packet f (l2cap_frame cid data))" "f AND 0x0FFF = handle" "length data \<le> 1017"
  obtains g err n where
    "hci_send_acl_packet_buffer (transport E) (of_nat (8 + length data)) ((l2_hci s)\<lparr>hci_packet_buffer_reserved := True, hci_packet_buffer := buf\<rparr>) =
       Ret (g, err)" "4 \<le> n"
    "in_transit g handle f n (sends (l2_hci s)) (fragments_from f n 0 (l2cap_frame cid data))"
proof -
  have hci: "hci_ok (l2_hci s)" by (rule ok_hci [OF assms(1)])
  have free: "hci_can_send_prepared_acl_packet_now (transport E) (l2_hci s) handle"
    using assms(2) by (simp add: hci_can_send_acl_packet_now_def)
  let ?g = "(l2_hci s)\<lparr>hci_packet_buffer_reserved := True, hci_packet_buffer := buf\<rparr>"
  have slots: "hci_number_free_acl_slots_for_connection_type ?g t = hci_number_free_acl_slots_for_connection_type (l2_hci s) t" for t
    by (simp add: hci_number_free_acl_slots_for_connection_type_def Let_def)
  have can: "hci_can_send_prepared_acl_packet_now (transport E) ?g handle"
    using free by (auto simp: hci_can_send_prepared_acl_packet_now_def hci_transport_can_send_prepared_packet_now_def
        hci_number_free_acl_slots_for_handle_def hci_connection_for_handle_def slots split: option.splits)
  define n where "n = unat (max_acl_data_packet_length handle ?g)"
  have "hci_ok ?g" using hci assms(3) by (simp add: hci_ok_def hci_conns_sound_def)
  then have n: "4 \<le> n" unfolding n_def by (rule max_len_ok)
  let ?rest = "l2cap_frame cid data"
  have g: "hci_packet_buffer_reserved ?g" "holds_at (hci_packet_buffer ?g) 0 (acl_packet f ?rest)" "length (hci_packet_buffer ?g) < 65536"
    "length ?rest \<le> 1025" "unat (max_acl_data_packet_length handle ?g) = n" using assms(3,4,6) by (simp_all add: n_def)
  obtain g' err where g': "hci_send_acl_packet_buffer (transport E) (of_nat (4 + length ?rest)) ?g = Ret (g', err)"
      "in_transit g' handle f n (sends ?g) (fragments_from f n 0 ?rest)"
    by (rule send_starts [OF g(1) can g(2) assms(5) g(3,5) n g(4)])
  have "sends ?g = sends (l2_hci s)" by (rule sends_eq) simp
  then show ?thesis using g' n by (intro that [of g' err n]) (simp_all add: add.commute add.left_commute)
qed

text \<open>When all is sent, the controller has the frame for the link.\<close>

lemma frame_gathered:
  assumes "in_transit h1 handle f n old (fragments_from f n 0 (l2cap_frame cid data))" "4 \<le> n" "length data \<le> 1017"
    and "f AND 0x0FFF = handle" "drop_bit 12 f = 0 \<or> drop_bit 12 f = 2"
    and "(hci_step T)\<^sup>*\<^sup>* h1 h2" "acl_fragmentation_total_size h2 = 0"
  shows "\<exists>new. sends h2 = old @ new \<and> gather handle [] new = [l2cap_frame cid data]"
proof -
  have "sends h2 = old @ fragments_from f n 0 (l2cap_frame cid data)"
    using in_transit_steps [OF assms(6,1,2)] assms(7) by (simp add: in_transit_def)
  moreover have "gather handle [] (fragments_from f n 0 (l2cap_frame cid data)) = [l2cap_frame cid data]"
    by (rule gather_fragments [OF assms(5,4)]) (use assms(3) in simp)
  ultimately show ?thesis by blast
qed

text \<open>Sending puts the data, with headers for the peer's channel, on its way.\<close>

lemma data_starts:
  assumes "l2_ok s" "l2cap_get_channel_for_local_cid s cid = Some c" "length data \<le> unat (remote_mtu c)"
    "hci_can_send_acl_packet_now (transport E) (l2_hci s) (l2_handle c)" "l2_handle c < 0x1000"
  obtains s1 err f n where "l2cap_send E cid data s = Ret (s1, err)" "4 \<le> n" "f AND 0x0FFF = l2_handle c" "drop_bit 12 f = 0 \<or> drop_bit 12 f = 2"
    "in_transit (l2_hci s1) (l2_handle c) f n (sends (l2_hci s)) (fragments_from f n 0 (l2cap_frame (remote_cid c) data))"
proof -
  let ?h = "fst (hci_reserve_packet_buffer (l2_hci s))"
  let ?pb = "if non_flushable (l2_hci s) then 0 else 2 :: u16"
  let ?f = "l2_handle c OR push_bit 12 ?pb"
  let ?rest = "l2cap_frame (remote_cid c) data"
  have hci: "hci_ok (l2_hci s)" by (rule ok_hci [OF assms(1)])
  have free: "\<not> hci_packet_buffer_reserved (l2_hci s)" "hci_can_send_prepared_acl_packet_now (transport E) (l2_hci s) (l2_handle c)"
    using assms(4) by (simp_all add: hci_can_send_acl_packet_now_def)
  have h: "?h = (l2_hci s)\<lparr>hci_packet_buffer_reserved := True\<rparr>" using free(1) by (simp add: hci_reserve_packet_buffer_def)
  have "c \<in> set (l2cap_channels s)" using assms(2) found by (auto simp: l2cap_get_channel_for_local_cid_def split: if_splits)
  then have "unat (remote_mtu c) \<le> 1017" using assms(1) by (auto simp: l2_ok_def chan_ok_def word_le_nat_alt)
  then have len: "length data \<le> 1017" using assms(3) by linarith
  obtain buf where buf: "wr_block (hci_packet_buffer ?h) 8 data = Ret buf" "length buf = length (hci_packet_buffer ?h)" "holds_at buf 8 data"
    by (rule wr_block_Ret [of 8 data "hci_packet_buffer ?h"]) (use hci len h in \<open>simp_all add: hci_ok_def\<close>)
  have "length buf = 1025" using buf(2) h hci by (simp add: hci_ok_def)
  then obtain b where b: "l2cap_setup_header buf (l2_handle c) ?pb (remote_cid c) (of_nat (length data)) = Ret b" "length b = 1025"
      "holds_at b 0 (acl_packet ?f ?rest)"
    using header_written [OF _ buf(3) len] by blast
  have slots: "hci_number_free_acl_slots_for_connection_type ((l2_hci s)\<lparr>hci_packet_buffer_reserved := True, hci_packet_buffer := x\<rparr>) t =
      hci_number_free_acl_slots_for_connection_type (l2_hci s) t" for t x
    by (simp add: hci_number_free_acl_slots_for_connection_type_def Let_def)
  have can: "hci_can_send_prepared_acl_packet_now (transport E) ((l2_hci s)\<lparr>hci_packet_buffer_reserved := True, hci_packet_buffer := x\<rparr>) k =
      hci_can_send_prepared_acl_packet_now (transport E) (l2_hci s) k" for k x
    by (simp add: hci_can_send_prepared_acl_packet_now_def hci_transport_can_send_prepared_packet_now_def
        hci_number_free_acl_slots_for_handle_def hci_connection_for_handle_def slots split: option.split)
  have pb: "?pb = 0 \<or> ?pb = 2" by simp
  have f: "?f AND 0x0FFF = l2_handle c" using assms(5) by (intro flags_handle) simp_all
  have boundary: "drop_bit 12 ?f = 0 \<or> drop_bit 12 ?f = 2" unfolding flags_boundary [OF assms(5) pb] by (rule pb)
  obtain g err n where g: "hci_send_acl_packet_buffer (transport E) (of_nat (8 + length data))
        ((l2_hci s)\<lparr>hci_packet_buffer_reserved := True, hci_packet_buffer := b\<rparr>) = Ret (g, err)" "4 \<le> n"
      "in_transit g (l2_handle c) ?f n (sends (l2_hci s)) (fragments_from ?f n 0 ?rest)"
    by (rule frame_starts [OF assms(1,4) b(2,3) f len])
  have size: "of_nat (8 + length data) = of_nat (length data) + (8 :: u16)" by simp
  have get: "l2cap_get_channel_for_local_cid (s\<lparr>l2_hci := x\<rparr>) cid = Some c" for x
    using assms(2) by (simp add: l2cap_get_channel_for_local_cid_def l2cap_channel_item_by_cid_def split: if_splits)
  have "l2cap_send E cid data s = Ret (s\<lparr>l2_hci := g\<rparr>, err)"
    using assms(2-4) buf(1) b(1) g(1) can free(2) unfolding size
    by (simp add: l2cap_send_def l2cap_send_prepared_def h get hci_is_packet_buffer_reserved_def hci_non_flushable_packet_boundary_flag_supported_def)
  then show ?thesis using that [of "s\<lparr>l2_hci := g\<rparr>" err n ?f] g(2,3) f boundary by simp
qed

lemma receive_all_link: "receive_all ps s = Ret (s', qs) \<Longrightarrow> same_link s s'"
proof (induction ps arbitrary: s qs)
  case (Cons p ps)
  then obtain t r rs where t: "acl_handler p s = Ret (t, r)" "receive_all ps t = Ret (s', rs)"
    by (auto simp: bind_outcome_Ret)
  show ?case using same_link_trans [OF received_link [OF t(1)] Cons.IH [OF t(2)]] .
qed simp

text \<open>A packet for a channel is handed to the application, and L2CAP runs.\<close>

lemma data_delivered:
  assumes "hci_connection_for_handle (l2_hci r) k = Some conn" "address_type conn = BD_ADDR_TYPE_ACL" "k < 0x1000"
    "l2cap_get_channel_for_local_cid r cid = Some x" "length data \<le> 1017"
  shows "l2cap_acl_handler E (acl_packet (first_flags k) (l2cap_frame cid data)) r =
    l2cap_run E (l2_act (L2Data (l2_handler x) cid data) r)"
proof -
  let ?q = "acl_packet (first_flags k) (l2cap_frame cid data)"
  have handle: "READ_ACL_CONNECTION_HANDLE ?q = Ret k"
    using acl_header(1) [of "l2cap_frame cid data" "first_flags k"] acl_flags(1) [OF assms(3)] assms(5) by simp
  have "holds_at ?q 6 (le16 cid)"
    unfolding acl_packet_def l2cap_frame_def
    using holds_at_intro [of 6 "le16 (first_flags k) @ le16 (of_nat (length data + 4)) @ le16 (of_nat (length data))" "le16 cid" data]
    by (simp add: add.commute)
  then have chan: "little_endian_read_16 ?q 0 6 = Ret cid" by (intro le16.read_enc) simp
  have cid: "\<not> cid < 0x40" "local_cid x = cid"
    using assms(4) found by (auto simp: l2cap_get_channel_for_local_cid_def split: if_splits)
  then have "cid \<noteq> 1" "cid \<noteq> 2" by auto
  moreover have "drop 8 ?q = data" by (simp add: acl_packet_def l2cap_frame_def)
  ultimately show ?thesis
    using assms(1,2,4) cid(2)
    by (simp add: l2cap_acl_handler_def handle l2cap_acl_classic_handler_def chan l2cap_acl_classic_handler_for_channel_def)
qed

lemma frame_received:
  assumes "l2_ok r" "hci_connection_for_handle (l2_hci r) k = Some conn" "address_type conn = BD_ADDR_TYPE_ACL" "k < 0x1000"
    "length data \<le> 1017" "delivered k [l2cap_frame cid data] got"
  shows "\<exists>h conn'. receive_all got (l2_hci r) = Ret (h, [acl_packet (first_flags k) (l2cap_frame cid data)]) \<and>
    hci_connection_for_handle h k = Some conn' \<and> address_type conn' = BD_ADDR_TYPE_ACL"
proof -
  have "conn_sound conn" using ok_hci [OF assms(1)] for_handle_member [OF assms(2)] by (auto simp: hci_ok_def hci_conns_sound_def)
  then have ok: "conn_ok conn" by (simp add: conn_sound_def)
  have frame: "take 2 (l2cap_frame cid data) = le16 (of_nat (length data))" "length (l2cap_frame cid data) = length data + 4"
    "length data \<le> 1021" using assms(5) by (simp_all add: l2cap_frame_def)
  obtain h where h: "receive_all got (l2_hci r) = Ret (h, [acl_packet (first_flags k) (l2cap_frame cid data)])"
    using delivered_received [OF assms(6,4,2) ok frame] by blast
  have "map_option conn_kind (hci_connection_for_handle h k) = Some (conn_kind conn)"
    using same_link_for_handle [OF receive_all_link [OF h], of k] assms(2) by simp
  then show ?thesis using h assms(3) by (auto simp: conn_kind_def)
qed

lemma data_received:
  assumes "l2_ok r" "hci_connection_for_handle (l2_hci r) k = Some conn" "address_type conn = BD_ADDR_TYPE_ACL" "k < 0x1000"
    "l2cap_get_channel_for_local_cid r cid = Some x" "length data \<le> 1017" "delivered k [l2cap_frame cid data] got"
  shows "\<exists>h. receive_all got (l2_hci r) = Ret (h, [acl_packet (first_flags k) (l2cap_frame cid data)]) \<and>
    l2cap_acl_handler E (acl_packet (first_flags k) (l2cap_frame cid data)) (r\<lparr>l2_hci := h\<rparr>) =
      l2cap_run E (l2_act (L2Data (l2_handler x) cid data) (r\<lparr>l2_hci := h\<rparr>))"
proof -
  obtain h conn' where h: "receive_all got (l2_hci r) = Ret (h, [acl_packet (first_flags k) (l2cap_frame cid data)])"
      "hci_connection_for_handle h k = Some conn'" "address_type conn' = BD_ADDR_TYPE_ACL"
    using frame_received [OF assms(1-4,6,7)] by blast
  have get: "l2cap_get_channel_for_local_cid (r\<lparr>l2_hci := h\<rparr>) cid = Some x"
    using assms(5) by (simp add: l2cap_get_channel_for_local_cid_def l2cap_channel_item_by_cid_def split: if_splits)
  have "hci_connection_for_handle (l2_hci (r\<lparr>l2_hci := h\<rparr>)) k = Some conn'" using h(2) by simp
  from data_delivered [OF this h(3) assms(4) get assms(6)] h(1) show ?thesis by blast
qed

text \<open>
  C37. Data arrives: \<open>l2cap_send\<close> takes data up to the peer's MTU for an open way to the controller;
  whatever happens in HCI, when all of it is sent, the controller has gathered one frame for the link of
  the channel from the headers of the fragments; and the host that gets the frame on this link, cut
  in any way, hands exactly these data to the application of the channel with the peer's number, once,
  and goes on with its run loop.
\<close>
theorem l2cap_data_roundtrip:
  assumes "l2_ok s" "l2cap_get_channel_for_local_cid s cid = Some c" "length data \<le> unat (remote_mtu c)"
    and "hci_can_send_acl_packet_now (transport E) (l2_hci s) (l2_handle c)" "l2_handle c < 0x1000"
  shows "\<exists>s1 err. l2cap_send E cid data s = Ret (s1, err) \<and>
    (\<forall>h2. (hci_step (transport E))\<^sup>*\<^sup>* (l2_hci s1) h2 \<and> acl_fragmentation_total_size h2 = 0 \<longrightarrow>
      (\<exists>new. sends h2 = sends (l2_hci s) @ new \<and> gather (l2_handle c) [] new = [l2cap_frame (remote_cid c) data] \<and>
        (\<forall>got r k conn x. delivered k (gather (l2_handle c) [] new) got \<and> l2_ok r \<and> k < 0x1000 \<and>
           hci_connection_for_handle (l2_hci r) k = Some conn \<and> address_type conn = BD_ADDR_TYPE_ACL \<and>
           l2cap_get_channel_for_local_cid r (remote_cid c) = Some x \<and> l2_handle x = k \<longrightarrow>
           (\<exists>h q. receive_all got (l2_hci r) = Ret (h, [q]) \<and>
              l2cap_acl_handler E' q (r\<lparr>l2_hci := h\<rparr>) =
                l2cap_run E' (l2_act (L2Data (l2_handler x) (remote_cid c) data) (r\<lparr>l2_hci := h\<rparr>))))))"
proof -
  obtain s1 err f n where s1: "l2cap_send E cid data s = Ret (s1, err)" "4 \<le> n" "f AND 0x0FFF = l2_handle c"
      "drop_bit 12 f = 0 \<or> drop_bit 12 f = 2"
      "in_transit (l2_hci s1) (l2_handle c) f n (sends (l2_hci s)) (fragments_from f n 0 (l2cap_frame (remote_cid c) data))"
    by (rule data_starts [OF assms])
  have "c \<in> set (l2cap_channels s)" using assms(2) found by (auto simp: l2cap_get_channel_for_local_cid_def split: if_splits)
  then have "unat (remote_mtu c) \<le> 1017" using assms(1) by (auto simp: l2_ok_def chan_ok_def word_le_nat_alt)
  then have len: "length data \<le> 1017" using assms(3) by linarith
  show ?thesis
  proof (rule exI [of _ s1], rule exI [of _ err], rule conjI [OF s1(1)], intro allI impI, elim conjE)
    fix h2 assume h2: "(hci_step (transport E))\<^sup>*\<^sup>* (l2_hci s1) h2" "acl_fragmentation_total_size h2 = 0"
    obtain new where new: "sends h2 = sends (l2_hci s) @ new" "gather (l2_handle c) [] new = [l2cap_frame (remote_cid c) data]"
      using frame_gathered [OF s1(5,2) len s1(3,4) h2] by blast
    have arrive: "\<exists>h q. receive_all got (l2_hci r) = Ret (h, [q]) \<and>
        l2cap_acl_handler E' q (r\<lparr>l2_hci := h\<rparr>) =
          l2cap_run E' (l2_act (L2Data (l2_handler x) (remote_cid c) data) (r\<lparr>l2_hci := h\<rparr>))"
      if "delivered k (gather (l2_handle c) [] new) got \<and> l2_ok r \<and> k < 0x1000 \<and>
        hci_connection_for_handle (l2_hci r) k = Some conn \<and> address_type conn = BD_ADDR_TYPE_ACL \<and>
        l2cap_get_channel_for_local_cid r (remote_cid c) = Some x \<and> l2_handle x = k" for got r k conn x
      using that data_received [of r k conn "remote_cid c" x data got E'] len unfolding new(2) by blast
    show "\<exists>new. sends h2 = sends (l2_hci s) @ new \<and> gather (l2_handle c) [] new = [l2cap_frame (remote_cid c) data] \<and>
        (\<forall>got r k conn x. delivered k (gather (l2_handle c) [] new) got \<and> l2_ok r \<and> k < 0x1000 \<and>
           hci_connection_for_handle (l2_hci r) k = Some conn \<and> address_type conn = BD_ADDR_TYPE_ACL \<and>
           l2cap_get_channel_for_local_cid r (remote_cid c) = Some x \<and> l2_handle x = k \<longrightarrow>
           (\<exists>h q. receive_all got (l2_hci r) = Ret (h, [q]) \<and>
              l2cap_acl_handler E' q (r\<lparr>l2_hci := h\<rparr>) =
                l2cap_run E' (l2_act (L2Data (l2_handler x) (remote_cid c) data) (r\<lparr>l2_hci := h\<rparr>))))"
      by (rule exI [of _ new], intro conjI allI impI) (rule new(1), rule new(2), erule arrive)
  qed
qed

text \<open>
  The handler looks for the channel by its number only: what another device sends to this number, over
  its own link, is handed to the application of the channel as if the peer had sent it.
\<close>

lemma data_of_another_link_delivered:
  assumes "l2_ok r" "l2cap_get_channel_for_local_cid r cid = Some x" "l2_handle x \<noteq> k" "k < 0x1000" "length data \<le> 1017"
    and "hci_connection_for_handle (l2_hci r) k = Some conn" "address_type conn = BD_ADDR_TYPE_ACL" "delivered k [l2cap_frame cid data] got"
  shows "\<exists>h q. receive_all got (l2_hci r) = Ret (h, [q]) \<and>
    l2cap_acl_handler E q (r\<lparr>l2_hci := h\<rparr>) = l2cap_run E (l2_act (L2Data (l2_handler x) cid data) (r\<lparr>l2_hci := h\<rparr>))"
  using data_received [OF assms(1,6,7,4,2,5,8)] by blast

subsection \<open>Inputs\<close>

text \<open>
  C35. L2CAP handles every input that \<open>input_ok\<close> allows: in every state that is reached, an event with
  the bytes that its handler reads, a packet whose signaling commands and options have the bytes that
  are read, a timeout, or a call (those that copy or send without a check of the length: with data
  that the packet buffer holds) returns, also when it runs over all channels and notifies those that
  wait; no channel that was freed is used, numbers of channels stay distinct, and every channel
  afterwards comes from one before, or from a new one if the input asks for one, by steps of the abstract
  machine.  Commands and options that are too short, and data that is too long, are not handled safely
  (\<open>unchecked_lengths\<close>, \<open>unchecked_echo\<close>).
\<close>
theorem l2cap_input_handled:
  assumes "l2_reached s" "env_ok E" "input_ok i s"
  shows "\<exists>s'. l2_do E i s = Ret s' \<and> l2_reached s' \<and> l2_follows (creates i s) s s' \<and> distinct (map local_cid (l2cap_channels s'))"
proof -
  have ok: "l2_ok s" using assms(1) by (rule reached_ok)
  obtain s' where s': "l2_do E i s = Ret s'" "l2_good (creates i s) s s'" using input_good [OF ok assms(2,3)] by (rule returnsE)
  have "l2_reached s'" by (rule l2_reached.input [OF assms s'(1)])
  moreover have "l2_ok s'" "l2_follows (creates i s) s s'" using s'(2) ok by (simp_all add: l2_good_def)
  ultimately show ?thesis using s'(1) by (simp add: l2_ok_def)
qed

lemma fresh_configured:
  assumes "fresh_channel c"
  shows "open_configured c"
proof -
  have "l2_state c = L2CAP_STATE_WILL_SEND_CREATE_CONNECTION \<or> l2_state c = L2CAP_STATE_WAIT_INCOMING_SECURITY_LEVEL_UPDATE"
    using assms unfolding fresh_channel_def by blast
  then have "l2_state c \<noteq> L2CAP_STATE_OPEN" by (elim disjE) simp_all
  then show ?thesis by (simp add: open_configured_def)
qed

lemma reached_configured: "l2_reached s \<Longrightarrow> \<forall>c \<in> set (l2cap_channels s). open_configured c"
proof (induction rule: l2_reached.induct)
  case (initial s)
  then show ?case by (simp add: l2cap_init_def l2_act_def open_configured_def)
next
  case (input s E i s')
  note ok = reached_ok [OF input.hyps(1)]
  have "returns (Ret s') (l2_good (creates i s) s)" using input_good [OF ok input.hyps(2,3)] unfolding input.hyps(4) .
  then have follows: "l2_follows (creates i s) s s'" using ok by (simp add: l2_good_def)
  show ?case
  proof
    fix c' assume "c' \<in> set (l2cap_channels s')"
    then obtain c where c: "c \<in> set (l2cap_channels s) \<or> fresh_channel c" "chan_steps c c'" using follows unfolding l2_follows_def by blast
    then have "open_configured c" using fresh_configured input.IH by blast
    with c(2) show "open_configured c'" by (rule open_configured_steps)
  qed
qed

text \<open>
  C36. Channels are sound: whatever comes in, every channel is found by its number, a channel of a
  connection has a number from 0x40 and an MTU that the packet buffer holds, and it is open only when it
  has accepted the peer's configuration and the peer has accepted its own.
\<close>
theorem l2cap_channels_sound:
  assumes "l2_reached s" "c \<in> set (l2cap_channels s)"
  shows "l2cap_channel_item_by_cid s (local_cid c) = Some c \<and>
    (channel_type c = L2CAP_CHANNEL_TYPE_CLASSIC \<longrightarrow> 0x40 \<le> local_cid c \<and> remote_mtu c \<le> l2cap_max_mtu) \<and>
    (l2_state c = L2CAP_STATE_OPEN \<longrightarrow> {RCVD_CONF_RSP, SENT_CONF_RSP} \<subseteq> l2_var c)"
proof -
  have ok: "l2_ok s" using assms(1) by (rule reached_ok)
  then have "l2_chan s (local_cid c) = Ret c" using assms(2) by (rule chan_member)
  then have "l2cap_channel_item_by_cid s (local_cid c) = Some c" by (simp add: l2_chan_def split: option.splits)
  moreover have "chan_ok c" using ok assms(2) by (simp add: l2_ok_def)
  moreover have "open_configured c" using reached_configured assms by blast
  ultimately show ?thesis by (auto simp: chan_ok_def open_configured_def l2cap_max_mtu_def)
qed

text \<open>
  C40. An option that is not understood blocks a channel for good: after a configure request with such
  an option, on a channel that is being configured and has not accepted a configuration of the peer
  yet, the channel keeps the mark for it, so that every later configuration is answered as rejected
  too, and it never opens, whichever events, packets and calls follow, the peer's corrected requests
  included.  (Without requests for new channels among them: a new channel may get the number when this
  one is gone.)
\<close>
theorem unknown_option_blocks:
  assumes "l2_chan s cid = Ret c" "l2_state c = L2CAP_STATE_CONFIG" "SENT_CONF_RSP \<notin> l2_var c"
    and "command_ok command" "rd command 0 = Ret CONFIGURE_REQUEST" "little_endian_read_16 command 0 2 = Ret len" "4 \<le> unat len"
    and "unknown_option (take (unat len - 4) (drop 8 command))" "l2_ok s"
  shows "\<exists>s'. l2cap_signaling_handler_channel E cid command s = Ret s' \<and> cid \<in> cids s' \<and>
    (\<forall>s'' c''. l2_inputs False s' s'' \<and> c'' \<in> set (l2cap_channels s'') \<and> local_cid c'' = cid \<longrightarrow>
      l2_state c'' \<noteq> L2CAP_STATE_OPEN \<and> SEND_CONF_RSP_INVALID \<in> l2_var c'' \<and> SENT_CONF_RSP \<notin> l2_var c'')"
proof -
  obtain i where i: "rd command 1 = Ret i" and len: "4 + unat len \<le> length command" "length command \<le> 32768"
    and opts: "opts_ok (take (unat len - 4) (drop 8 command))"
    using assms(4-7) by (auto simp: command_ok_def)
  obtain d where d: "l2cap_signaling_handle_configure_request command (channelStateVarSetFlag SEND_CONF_RSP c) = Ret d"
      "conf_rel (channelStateVarSetFlag SEND_CONF_RSP c) d" "SEND_CONF_RSP_INVALID \<in> l2_var d"
    by (rule returnsE [OF configure_request_returns [OF i assms(6,7) len opts]]) (use assms(8) in blast)
  let ?e = "if SEND_CONF_RSP_CONT \<notin> l2_var d then channelStateVarSetFlag RCVD_CONF_REQ d else d"
  have cid: "local_cid c = cid" using chan_found [OF assms(1)] by simp
  have rel: "conf_rel c ?e" using conf_trans [OF conf_trans [OF conf_flag d(2)]] by (simp add: conf_flag)
  have id: "local_cid d = cid" "local_cid ?e = cid" using d(2) cid by (auto simp: conf_rel_def chan_id_def chan_edits)
  have e: "l2_state ?e = L2CAP_STATE_CONFIG" "SEND_CONF_RSP_INVALID \<in> l2_var ?e"
    using d(2,3) assms(2) by (auto simp: conf_rel_def chan_edits)
  have "SENT_CONF_RSP \<notin> l2_var ?e" using rel assms(3) unfolding conf_rel_def by blast
  with e have rej: "rejected ?e" by (simp add: rejected_def)
  let ?s = "l2_upd cid (\<lambda>_. ?e) s"
  have chan: "l2_chan ?s cid = Ret ?e" by (rule chan_upd [OF assms(1)]) (rule id(2))
  have "\<not> len < 4" using assms(7) by (simp add: word_less_nat_alt)
  then have conf: "config_command E CONFIGURE_REQUEST i len command c s = Ret ?s" using d(1) id(1) by (simp add: config_command_def)
  have "\<not> l2cap_channel_ready_for_open ?e" using rej by (simp add: rejected_def l2cap_channel_ready_for_open_def)
  then have "open_if_ready cid ?s = Ret ?s" using chan by (simp add: open_if_ready_def)
  then have handled: "l2cap_signaling_handler_channel E cid command s = Ret ?s"
    using conf assms(2) by (simp add: l2cap_signaling_handler_channel_def assms(1,5,6) i sig_codes)
  then have ok: "l2_ok ?s" using handler_channel_good [OF assms(9,1,4), of E False] assms(9) by (simp add: l2_good_def)
  have "rejected c''" if "l2_inputs False ?s s''" "c'' \<in> set (l2cap_channels s'')" "local_cid c'' = cid" for s'' c''
  proof -
    note c = that(2,3)
    have "l2_follows False ?s s''" using inputs_good [OF that(1)] ok by (simp add: l2_good_def)
    then obtain c' where c': "c' \<in> set (l2cap_channels ?s)" "chan_steps c' c''" using c(1) by (auto simp: l2_follows_def)
    then have "local_cid c' = cid" using chan_id_cid [OF chan_steps_id [OF c'(2)]] c(2) by simp
    then have "c' = ?e" using chan_member [OF ok c'(1)] chan by simp
    then show ?thesis using rejected_steps [OF c'(2)] rej by blast
  qed
  moreover have "cid \<in> cids ?s" using chan_found [OF chan] by (auto simp: cids_def)
  ultimately show ?thesis using handled unfolding rejected_def by blast
qed

subsection \<open>Signaling commands\<close>

lemma bind_Ret: "bind_outcome m (\<lambda>s. Ret s) = m"
  by (cases m) simp_all

text \<open>A packet on the signaling channel with one command: it is dispatched, unless it has no data.\<close>

lemma command_dispatched:
  assumes "length d \<le> 1013"
  shows "l2cap_acl_classic_handler E k (acl_packet f (l2cap_frame 1 (sig_command cmd i d))) s =
    (if d = [] then Ret s else l2cap_signaling_handler_dispatch E k (sig_command cmd i d) s)"
proof -
  let ?p = "acl_packet f (l2cap_frame 1 (sig_command cmd i d))"
  have len: "length ?p = 12 + length d" by simp
  have command: "drop 8 ?p = sig_command cmd i d" by (simp add: acl_packet_def l2cap_frame_def)
  have "holds_at ?p 6 (le16 1)"
    unfolding acl_packet_def l2cap_frame_def
    using holds_at_intro [of 6 "le16 f @ le16 (of_nat (length (sig_command cmd i d) + 4)) @ le16 (of_nat (length (sig_command cmd i d)))" "le16 1"
        "sig_command cmd i d"]
    by (simp add: add.commute)
  then have chan: "little_endian_read_16 ?p 0 6 = Ret 1" by (intro le16.read_enc) simp
  have "signaling_commands (length ?p) E k ?p 8 s = (if d = [] then Ret s else l2cap_signaling_handler_dispatch E k (sig_command cmd i d) s)"
  proof (cases "d = []")
    case True
    then have "length ?p = 12" unfolding len by simp
    then show ?thesis using True by (simp add: signaling_commands.simps)
  next
    case False
    have more: "8 + 4 < length ?p" using False unfolding len by (cases d) simp_all
    have "holds_at (drop 8 ?p) 2 (le16 (of_nat (length d)))"
      unfolding command unfolding sig_command_def using holds_at_intro [of 2 "[cmd, i]" "le16 (of_nat (length d))" d] by simp
    then have "little_endian_read_16 (drop 8 ?p) 0 2 = Ret (of_nat (length d))" by (intro le16.read_enc) simp
    then have read: "little_endian_read_16 ?p 0 (int 8 + 2) = Ret (of_nat (length d))" using read_drop [of 8 ?p 2] more by simp
    have size: "unat (of_nat (length d) :: u16) = length d" using assms by (intro unat_of_nat_u16) simp
    obtain m where m: "length ?p = Suc m" using more by (cases "length ?p") simp_all
    have stop: "signaling_commands m E k ?p (8 + 4 + length d) t = Ret t" for t
      unfolding signaling_commands.simps [of m] len by simp
    have fits: "\<not> 8 + 4 + length d > length ?p" using len by simp
    have "signaling_commands (length ?p) E k ?p 8 s =
        bind_outcome (l2cap_signaling_handler_dispatch E k (drop 8 ?p) s) (signaling_commands m E k ?p (8 + 4 + length d))"
      using more fits unfolding m signaling_commands.simps [of "Suc m"] read bind_outcome_simps Let_def size nat.case
      by (simp only: not_True_eq_False not_False_eq_True if_False if_True simp_thms)
    also have "\<dots> = l2cap_signaling_handler_dispatch E k (drop 8 ?p) s" unfolding stop by (rule bind_Ret)
    finally show ?thesis using False command by simp
  qed
  then show ?thesis by (simp add: l2cap_acl_classic_handler_def chan)
qed

text \<open>A command is on its way, in a frame of the signaling channel.\<close>

lemma signaling_starts:
  assumes "l2_ok s" "sig_ok cmd args" "hci_can_send_acl_packet_now (transport E) (l2_hci s) handle" "handle < 0x1000"
  obtains g err f m where "l2cap_send_signaling_packet E handle cmd i args s = Ret (s\<lparr>l2_hci := g\<rparr>, err)" "4 \<le> m"
    "f AND 0x0FFF = handle" "drop_bit 12 f = 0 \<or> drop_bit 12 f = 2" "length (sig_command cmd i (sig_data args)) \<le> 1017"
    "in_transit g handle f m (sends (l2_hci s)) (fragments_from f m 0 (l2cap_frame 1 (sig_command cmd i (sig_data args))))"
proof -
  let ?d = "sig_data args" and ?command = "sig_command cmd i (sig_data args)"
  have n: "length ?d \<le> 1013" "12 + length ?d \<le> 1025" using assms(2) by (simp_all add: sig_ok_def)
  let ?h = "fst (hci_reserve_packet_buffer (l2_hci s))"
  let ?pb = "if non_flushable (l2_hci s) then 0 else 2 :: u16"
  let ?f = "handle OR push_bit 12 ?pb"
  have h: "?h = (l2_hci s)\<lparr>hci_packet_buffer_reserved := True\<rparr>"
    using assms(3) by (simp add: hci_reserve_packet_buffer_def hci_can_send_acl_packet_now_def)
  have "length (hci_packet_buffer ?h) = 1025" using ok_hci [OF assms(1)] by (simp add: hci_ok_def h)
  moreover have "handle OR (if non_flushable ?h then 0 else 0x2000) = ?f" by (simp add: h)
  ultimately obtain buf where b: "l2cap_create_signaling_classic ?h handle cmd i args = Ret (buf, of_nat (12 + length ?d))" "length buf = 1025"
      "holds_at buf 0 (acl_packet ?f (l2cap_frame 1 ?command))"
    using sig_format [of cmd args ?h handle i] assms(2) n by (auto simp: sig_ok_def)
  have pb: "?pb = 0 \<or> ?pb = 2" by simp
  have f: "?f AND 0x0FFF = handle" using assms(4) by (intro flags_handle) simp_all
  have boundary: "drop_bit 12 ?f = 0 \<or> drop_bit 12 ?f = 2" unfolding flags_boundary [OF assms(4) pb] by (rule pb)
  have len: "length ?command \<le> 1017" "8 + length ?command = 12 + length ?d" using n by simp_all
  obtain g err m where g: "hci_send_acl_packet_buffer (transport E) (of_nat (8 + length ?command))
        ((l2_hci s)\<lparr>hci_packet_buffer_reserved := True, hci_packet_buffer := buf\<rparr>) = Ret (g, err)" "4 \<le> m"
      "in_transit g handle ?f m (sends (l2_hci s)) (fragments_from ?f m 0 (l2cap_frame 1 ?command))"
    by (rule frame_starts [OF assms(1,3) b(2,3) f len(1)])
  have sent: "l2cap_send_signaling_packet E handle cmd i args s = Ret (s\<lparr>l2_hci := g\<rparr>, err)"
    using assms(3) b(1) g(1) unfolding len(2) by (simp add: l2cap_send_signaling_packet_def h del: of_nat_add)
  show ?thesis by (rule that [OF sent g(2) f boundary len(1) g(3)])
qed

text \<open>
  C38. Signaling commands arrive: a command with at most 1013 bytes of data is sent on a link when HCI
  can send; whatever happens in HCI, when all of it is sent, the controller has gathered one frame of
  the signaling channel for this link from the headers of the fragments; and the host that gets the
  frame, cut in any way, dispatches the command, once, with its number and its data, and runs; except
  a command without data, as an echo request may be, which it ignores.
\<close>
theorem signaling_roundtrip:
  assumes "l2_ok s" "sig_ok cmd args" "hci_can_send_acl_packet_now (transport E) (l2_hci s) handle" "handle < 0x1000"
  shows "\<exists>s1 err. l2cap_send_signaling_packet E handle cmd i args s = Ret (s1, err) \<and>
    (\<forall>h2. (hci_step (transport E))\<^sup>*\<^sup>* (l2_hci s1) h2 \<and> acl_fragmentation_total_size h2 = 0 \<longrightarrow>
      (\<exists>new. sends h2 = sends (l2_hci s) @ new \<and> gather handle [] new = [l2cap_frame 1 (sig_command cmd i (sig_data args))] \<and>
        (\<forall>got r k conn. delivered k (gather handle [] new) got \<and> l2_ok r \<and> k < 0x1000 \<and>
           hci_connection_for_handle (l2_hci r) k = Some conn \<and> address_type conn = BD_ADDR_TYPE_ACL \<longrightarrow>
           (\<exists>h q. receive_all got (l2_hci r) = Ret (h, [q]) \<and>
              l2cap_acl_handler E' q (r\<lparr>l2_hci := h\<rparr>) =
                bind_outcome
                  (if sig_data args = [] then Ret (r\<lparr>l2_hci := h\<rparr>)
                   else l2cap_signaling_handler_dispatch E' k (sig_command cmd i (sig_data args)) (r\<lparr>l2_hci := h\<rparr>))
                  (l2cap_run E')))))"
proof -
  let ?d = "sig_data args" and ?command = "sig_command cmd i (sig_data args)"
  have n: "length ?d \<le> 1013" using assms(2) by (simp add: sig_ok_def)
  obtain g err f m where sent: "l2cap_send_signaling_packet E handle cmd i args s = Ret (s\<lparr>l2_hci := g\<rparr>, err)" and m: "4 \<le> m"
      and f: "f AND 0x0FFF = handle" "drop_bit 12 f = 0 \<or> drop_bit 12 f = 2" and len: "length ?command \<le> 1017"
      and g: "in_transit g handle f m (sends (l2_hci s)) (fragments_from f m 0 (l2cap_frame 1 ?command))"
    by (rule signaling_starts [OF assms])
  show ?thesis
  proof (rule exI [of _ "s\<lparr>l2_hci := g\<rparr>"], rule exI [of _ err], rule conjI [OF sent], intro allI impI, elim conjE)
    fix h2 assume "(hci_step (transport E))\<^sup>*\<^sup>* (l2_hci (s\<lparr>l2_hci := g\<rparr>)) h2" and total: "acl_fragmentation_total_size h2 = 0"
    then have steps: "(hci_step (transport E))\<^sup>*\<^sup>* g h2" by simp
    obtain new where new: "sends h2 = sends (l2_hci s) @ new" "gather handle [] new = [l2cap_frame 1 ?command]"
      using frame_gathered [OF g m len f steps total] by blast
    have arrive: "\<exists>h q. receive_all got (l2_hci r) = Ret (h, [q]) \<and>
        l2cap_acl_handler E' q (r\<lparr>l2_hci := h\<rparr>) =
          bind_outcome (if ?d = [] then Ret (r\<lparr>l2_hci := h\<rparr>) else l2cap_signaling_handler_dispatch E' k ?command (r\<lparr>l2_hci := h\<rparr>)) (l2cap_run E')"
      if "delivered k (gather handle [] new) got \<and> l2_ok r \<and> k < 0x1000 \<and>
        hci_connection_for_handle (l2_hci r) k = Some conn \<and> address_type conn = BD_ADDR_TYPE_ACL" for got r k conn
    proof -
      have t: "delivered k [l2cap_frame 1 ?command] got" "l2_ok r" "k < 0x1000" "hci_connection_for_handle (l2_hci r) k = Some conn"
        "address_type conn = BD_ADDR_TYPE_ACL" using that unfolding new(2) by blast+
      let ?q = "acl_packet (first_flags k) (l2cap_frame 1 ?command)"
      obtain h conn' where r: "receive_all got (l2_hci r) = Ret (h, [?q])" "hci_connection_for_handle h k = Some conn'"
          "address_type conn' = BD_ADDR_TYPE_ACL"
        using frame_received [OF t(2,4,5,3) len t(1)] by blast
      have "READ_ACL_CONNECTION_HANDLE ?q = Ret k"
        using acl_header(1) [of "l2cap_frame 1 ?command" "first_flags k"] acl_flags(1) [OF t(3)] len by simp
      then have "l2cap_acl_handler E' ?q (r\<lparr>l2_hci := h\<rparr>) =
          bind_outcome (if ?d = [] then Ret (r\<lparr>l2_hci := h\<rparr>) else l2cap_signaling_handler_dispatch E' k ?command (r\<lparr>l2_hci := h\<rparr>)) (l2cap_run E')"
        using r(2,3) by (simp only: l2cap_acl_handler_def command_dispatched [OF n] bind_outcome_simps) simp
      with r(1) show ?thesis by blast
    qed
    show "\<exists>new. sends h2 = sends (l2_hci s) @ new \<and> gather handle [] new = [l2cap_frame 1 ?command] \<and>
        (\<forall>got r k conn. delivered k (gather handle [] new) got \<and> l2_ok r \<and> k < 0x1000 \<and>
           hci_connection_for_handle (l2_hci r) k = Some conn \<and> address_type conn = BD_ADDR_TYPE_ACL \<longrightarrow>
           (\<exists>h q. receive_all got (l2_hci r) = Ret (h, [q]) \<and>
              l2cap_acl_handler E' q (r\<lparr>l2_hci := h\<rparr>) =
                bind_outcome
                  (if ?d = [] then Ret (r\<lparr>l2_hci := h\<rparr>) else l2cap_signaling_handler_dispatch E' k ?command (r\<lparr>l2_hci := h\<rparr>))
                  (l2cap_run E')))"
      by (rule exI [of _ new], intro conjI allI impI) (rule new(1), rule new(2), erule arrive)
  qed
qed

text \<open>
  C39. A configured channel opens: once the peer has accepted the own configuration, and its own request
  has been read with options that are all understood (no mark for an invalid one) and with no more to
  come, then, when HCI can send, one run of the channel answers the request with a configure response
  of result 0 (which is what the controller has for the link, when all of it is sent), opens the
  channel, and tells the application of it.
\<close>
theorem configured_channel_opens:
  assumes "l2_ok s" "l2_chan s cid = Ret c" "l2_state c = L2CAP_STATE_CONFIG" "{RCVD_CONF_RSP, SEND_CONF_RSP} \<subseteq> l2_var c"
    and "SEND_CONF_RSP_CONT \<notin> l2_var c" "SEND_CONF_RSP_INVALID \<notin> l2_var c"
    and "hci_can_send_acl_packet_now (transport E) (l2_hci s) (l2_handle c)" "l2_handle c < 0x1000"
  shows "\<exists>s' c'. l2cap_run_for_classic_channel E cid s = Ret s' \<and> l2_chan s' cid = Ret c' \<and> l2_state c' = L2CAP_STATE_OPEN \<and>
    remote_cid c' = remote_cid c \<and> (\<exists>event. l2_actions s' = l2_actions s @ [L2Event (l2_handler c) cid ([0x70, 24, 0] @ event)]) \<and>
    (\<forall>h2. (hci_step (transport E))\<^sup>*\<^sup>* (l2_hci s') h2 \<and> acl_fragmentation_total_size h2 = 0 \<longrightarrow>
      (\<exists>new. sends h2 = sends (l2_hci s) @ new \<and>
        gather (l2_handle c) [] new =
          [l2cap_frame 1 (sig_command CONFIGURE_RESPONSE (remote_sig_id c)
            (le16 (remote_cid c) @ le16 0 @ le16 0 @ (if SEND_CONF_RSP_MTU \<in> l2_var c then l2cap_setup_options_mtu_response c else [])))]))"
proof -
  have run: "l2cap_run_for_classic_channel E cid s = run_config E cid s"
    using assms(2,3,7) by (simp add: l2cap_run_for_classic_channel_def)
  obtain s' c' where s': "run_config E cid s = Ret s'" "l2_chan s' cid = Ret c'" "l2_state c' = L2CAP_STATE_OPEN" "remote_cid c' = remote_cid c"
      "\<exists>event. l2_actions s' = l2_actions s @ [L2Event (l2_handler c) cid ([0x70, 24, 0] @ event)]"
      "l2_signal E (l2_handle c) CONFIGURE_RESPONSE (remote_sig_id c) (config_answer c) (l2_upd cid (config_edit c) s) =
        Ret ((l2_upd cid (config_edit c) s)\<lparr>l2_hci := l2_hci s'\<rparr>)"
    using run_config_opens [OF assms(1-6), of E] by blast
  let ?t = "l2_upd cid (config_edit c) s"
  let ?answer = "le16 (remote_cid c) @ le16 0 @ le16 0 @ (if SEND_CONF_RSP_MTU \<in> l2_var c then l2cap_setup_options_mtu_response c else [])"
  have data: "sig_data (config_answer c) = ?answer" using assms(5,6) by (simp add: config_answer_def)
  have sig: "sig_ok CONFIGURE_RESPONSE (config_answer c)"
    unfolding config_answer_def by (intro sig_oks) (simp add: l2cap_setup_options_mtu_response_def l2cap_setup_options_mtu_def)
  have can: "hci_can_send_acl_packet_now (transport E) (l2_hci ?t) (l2_handle c)" using assms(7) by simp
  have "chan_step c (config_edit c c)"
    unfolding chan_step_def using assms(3) by (auto simp: config_edit_def chan_edits stay)
  then have "l2_good cr s ?t" using assms(2) config_edit_facts(4) by (intro good_upd) auto
  then have ok: "l2_ok ?t" using assms(1) by (simp add: l2_good_def)
  obtain g err f m where g: "l2cap_send_signaling_packet E (l2_handle c) CONFIGURE_RESPONSE (remote_sig_id c) (config_answer c) ?t =
        Ret (?t\<lparr>l2_hci := g\<rparr>, err)" "4 \<le> m" "f AND 0x0FFF = l2_handle c" "drop_bit 12 f = 0 \<or> drop_bit 12 f = 2"
      "length (sig_command CONFIGURE_RESPONSE (remote_sig_id c) (sig_data (config_answer c))) \<le> 1017"
      "in_transit g (l2_handle c) f m (sends (l2_hci ?t)) (fragments_from f m 0
        (l2cap_frame 1 (sig_command CONFIGURE_RESPONSE (remote_sig_id c) (sig_data (config_answer c)))))"
    by (rule signaling_starts [OF ok sig can assms(8)])
  have "l2_hci (?t\<lparr>l2_hci := g\<rparr>) = l2_hci (?t\<lparr>l2_hci := l2_hci s'\<rparr>)"
    using s'(6) g(1) unfolding l2_signal_def by simp
  then have same: "l2_hci s' = g" by simp
  have hci: "l2_hci ?t = l2_hci s" by simp
  have "\<exists>new. sends h2 = sends (l2_hci s) @ new \<and>
      gather (l2_handle c) [] new = [l2cap_frame 1 (sig_command CONFIGURE_RESPONSE (remote_sig_id c) ?answer)]"
    if "(hci_step (transport E))\<^sup>*\<^sup>* (l2_hci s') h2 \<and> acl_fragmentation_total_size h2 = 0" for h2
    using frame_gathered [OF g(6,2,5,3,4)] that unfolding same hci data by blast
  then show ?thesis using s'(1-5) unfolding run by blast
qed

text \<open>What is sent on a handle, or as an echo, is copied to the packet buffer without a look at its length.\<close>

lemma unchecked_lengths:
  assumes "hci_ok (l2_hci s)" "hci_can_send_acl_packet_now (transport E) (l2_hci s) handle"
  shows "1017 < length data \<Longrightarrow> l2cap_send_connectionless E handle cid data s = Undef"
proof -
  assume "1017 < length data"
  moreover have "length (hci_packet_buffer (fst (hci_reserve_packet_buffer (l2_hci s)))) = 1025"
    using assms(1) by (simp add: hci_ok_def hci_reserve_packet_buffer_def)
  ultimately show ?thesis using assms(2) by (simp add: l2cap_send_connectionless_def Let_def wr_block_def)
qed

lemma store_16_length: "little_endian_store_16 m b p v = Ret m' \<Longrightarrow> length m' = length m"
  by (auto simp: little_endian_store_16_def store_byte_def bind_outcome_Ret dest!: wr_length)

lemma unchecked_echo:
  assumes "hci_ok (l2_hci s)" "hci_can_send_acl_packet_now (transport E) (l2_hci s) handle" "1013 < length data"
  shows "l2cap_send_echo_request E handle data s = Undef"
proof -
  let ?h = "fst (hci_reserve_packet_buffer (l2_hci s))"
  have len: "length (hci_packet_buffer ?h) = 1025" using assms(1) by (simp add: hci_ok_def hci_reserve_packet_buffer_def)
  have fields: "wr_block buf 12 data = Undef" if "length buf = 1025" for buf
    using that assms(3) by (simp add: wr_block_def)
  have "l2cap_create_signaling_classic ?h handle ECHO_REQUEST i [Data data] \<noteq> Ret r" for i r
    using fields len
    by (auto simp: l2cap_create_signaling_classic_def l2cap_create_signaling_internal_def bind_outcome_Ret sig_codes
        l2cap_signaling_commands_format_def dest!: wr_length store_16_length)
  then have "l2cap_create_signaling_classic ?h handle ECHO_REQUEST i [Data data] = Undef" for i
    by (cases "l2cap_create_signaling_classic ?h handle ECHO_REQUEST i [Data data]") simp_all
  then show ?thesis using assms(2) by (simp add: l2cap_send_echo_request_def l2cap_send_signaling_packet_def Let_def)
qed

text \<open>A channel that is disconnected before there is a link misses the link when it comes, and when it fails.\<close>

lemma disconnected_early_stays:
  assumes "l2_state c = L2CAP_STATE_WILL_SEND_DISCONNECT_REQUEST"
  shows "l2cap_handle_connection_complete handle c = c" "mark_failed address c = c"
  using assms by (simp_all add: l2cap_handle_connection_complete_def mark_failed_def)

subsection \<open>Examples\<close>

text \<open>A link with handle 1, an open channel over it, and one that is being configured.\<close>

definition ex_l2_hci :: hci where
  "ex_l2_hci = (ex_hci 2)\<lparr>hci_packet_buffer := replicate 1025 0, hci_packet_buffer_reserved := False\<rparr>"

definition ex_chan :: "u16 \<Rightarrow> u16 \<Rightarrow> L2CAP_STATE \<Rightarrow> L2CAP_CHANNEL_STATE_VAR set \<Rightarrow> l2cap_channel" where
  "ex_chan lcid rcid state var =
     \<lparr>channel_type = L2CAP_CHANNEL_TYPE_CLASSIC, local_cid = lcid, l2_handler = 5, l2_waiting = False, rtx = None, l2_state = state,
      l2_var = var, l2_handle = 1, l2_address = [1, 2, 3, 4, 5, 6], remote_sig_id = 7, local_sig_id = 1, remote_cid = rcid, local_mtu = 672,
      remote_mtu = 672, flush_timeout = 0, psm = 3, required_security_level = 0, l2_reason = 0\<rparr>"

definition ex_l2 :: "l2cap_channel list \<Rightarrow> l2" where
  "ex_l2 cs = \<lparr>l2_hci = ex_l2_hci, l2cap_channels = cs, l2cap_services = [], require_security_level2_for_outgoing_sdp = False,
     l2cap_outgoing_classic_addr = [], local_source_cid = 0x40, sig_seq_nr = 0xFF, signaling_responses = [], l2_actions = []\<rparr>"

definition ex_env :: l2_env where
  "ex_env = \<lparr>transport = sync_transport, can_send_command = (\<lambda>_. True), gap_security_level = 2, authentication_active = (\<lambda>_. False),
     new_channel = (\<lambda>n. n < 16), new_service = True\<rparr>"

definition ex_open :: l2cap_channel where
  "ex_open = ex_chan 0x41 0x42 L2CAP_STATE_OPEN {RCVD_CONF_RSP, SENT_CONF_RSP}"

definition ex_config :: "L2CAP_CHANNEL_STATE_VAR set \<Rightarrow> l2cap_channel" where
  "ex_config var = ex_chan 0x41 0x42 L2CAP_STATE_CONFIG var"

lemma ex_hci_ok: "hci_ok ex_l2_hci"
  using ex_link_ok(2) by (simp add: hci_ok_def ex_l2_hci_def ex_hci_def hci_conns_sound_def)

lemma ex_can_send: "hci_can_send_acl_packet_now (transport ex_env) ex_l2_hci 1"
  by (simp add: hci_can_send_acl_packet_now_def hci_can_send_prepared_acl_packet_now_def hci_transport_can_send_prepared_packet_now_def
      sync_transport_def hci_number_free_acl_slots_for_handle_def hci_connection_for_handle_def
      hci_number_free_acl_slots_for_connection_type_def ex_l2_hci_def ex_hci_def ex_link_def ex_env_def
      create_connection_for_bd_addr_and_type_def)

lemma ex_ok: "l2_ok (ex_l2 [ex_open])" "l2_ok (ex_l2 [ex_config var])" "env_ok ex_env"
  using ex_hci_ok by (simp_all add: l2_ok_def ex_l2_def ex_open_def ex_config_def ex_chan_def chan_ok_def env_ok_def ex_env_def)

lemma l2cap_data_roundtrip_witness:
  "\<exists>s1 err. l2cap_send ex_env 0x41 [7, 8] (ex_l2 [ex_open]) = Ret (s1, err) \<and>
    (\<forall>h2. (hci_step (transport ex_env))\<^sup>*\<^sup>* (l2_hci s1) h2 \<and> acl_fragmentation_total_size h2 = 0 \<longrightarrow>
      (\<exists>new. sends h2 = new \<and>
        gather 1 [] new = [l2cap_frame 0x42 [7, 8]] \<and>
        (\<forall>got r k conn x. delivered k (gather 1 [] new) got \<and> l2_ok r \<and> k < 0x1000 \<and>
           hci_connection_for_handle (l2_hci r) k = Some conn \<and> address_type conn = BD_ADDR_TYPE_ACL \<and>
           l2cap_get_channel_for_local_cid r 0x42 = Some x \<and> l2_handle x = k \<longrightarrow>
           (\<exists>h q. receive_all got (l2_hci r) = Ret (h, [q]) \<and>
              l2cap_acl_handler ex_env q (r\<lparr>l2_hci := h\<rparr>) =
                l2cap_run ex_env (l2_act (L2Data (l2_handler x) 0x42 [7, 8]) (r\<lparr>l2_hci := h\<rparr>))))))"
proof -
  have "sends (l2_hci (ex_l2 [ex_open])) = []" by (simp add: sends_def ex_l2_def ex_l2_hci_def ex_hci_def)
  moreover have "remote_cid ex_open = 0x42" by (simp add: ex_open_def ex_chan_def)
  ultimately show ?thesis
    using l2cap_data_roundtrip [of "ex_l2 [ex_open]" "0x41" ex_open "[7, 8]" ex_env ex_env] ex_ok(1) ex_can_send
    by (simp add: l2cap_get_channel_for_local_cid_def l2cap_channel_item_by_cid_def ex_l2_def ex_open_def ex_chan_def)
qed

lemma ex_reached: "l2_reached (l2cap_init (ex_l2 []))"
  by (rule l2_reached.initial) (simp_all add: ex_l2_def ex_hci_ok)

lemma l2cap_input_handled_witness:
  "\<exists>s'. l2_do ex_env (CreateChannel 5 [1, 2, 3, 4, 5, 6] 3 672) (l2cap_init (ex_l2 [])) = Ret s' \<and> l2_reached s' \<and>
    l2_follows True (l2cap_init (ex_l2 [])) s' \<and> distinct (map local_cid (l2cap_channels s'))"
  using l2cap_input_handled [OF ex_reached ex_ok(3), of "CreateChannel 5 [1, 2, 3, 4, 5, 6] 3 672"] by simp

text \<open>A channel that an application asks for, when there is no link.\<close>

lemma ex_created:
  obtains s c where "l2_reached s" "c \<in> set (l2cap_channels s)" "channel_type c = L2CAP_CHANNEL_TYPE_CLASSIC" "local_cid c = 0x41"
proof -
  let ?E = "ex_env\<lparr>can_send_command := \<lambda>_. False\<rparr>" and ?i = "CreateChannel 5 [9, 9, 9, 9, 9, 9] 3 672"
  have E: "env_ok ?E" by (simp add: env_ok_def ex_env_def)
  have no_link: "hci_connection_for_bd_addr_and_type ex_l2_hci [9, 9, 9, 9, 9, 9] BD_ADDR_TYPE_ACL = None"
    by (simp add: hci_connection_for_bd_addr_and_type_def ex_l2_hci_def ex_hci_def ex_link_def create_connection_for_bd_addr_and_type_def)
  have "next_local_cid_loop (Suc n) (l2cap_init (ex_l2 [])) = Ret ((l2cap_init (ex_l2 []))\<lparr>local_source_cid := 0x41\<rparr>, 0x41)" for n
    by (simp add: l2cap_init_def l2_act_def ex_l2_def l2cap_get_channel_for_local_cid_def l2cap_channel_item_by_cid_def)
  from this [of 65535]
  have cid: "l2cap_next_local_cid (l2cap_init (ex_l2 [])) = Ret ((l2cap_init (ex_l2 []))\<lparr>local_source_cid := 0x41\<rparr>, 0x41)"
    by (simp add: l2cap_next_local_cid_def)
  have init: "l2_hci (l2cap_init (ex_l2 [])) = ex_l2_hci" "signaling_responses (l2cap_init (ex_l2 [])) = []"
    "length (l2cap_channels (l2cap_init (ex_l2 []))) = 1"
    by (simp_all add: l2cap_init_def l2_act_def ex_l2_def)
  have "\<exists>s. l2_do ?E ?i (l2cap_init (ex_l2 [])) = Ret s \<and>
      (\<exists>c \<in> set (l2cap_channels s). channel_type c = L2CAP_CHANNEL_TYPE_CLASSIC \<and> local_cid c = 0x41)"
    using cid no_link init
    by (simp add: state_of_def l2cap_create_channel_def l2cap_create_channel_entry_def add_channel_def ex_env_def l2cap_run_def
        l2cap_run_signaling_response_def l2cap_run_for_classic_channel_def l2_chan_def l2cap_channel_item_by_cid_def l2cap_init_def
        l2_act_def ex_l2_def)
  then obtain s where s: "l2_do ?E ?i (l2cap_init (ex_l2 [])) = Ret s"
      "\<exists>c \<in> set (l2cap_channels s). channel_type c = L2CAP_CHANNEL_TYPE_CLASSIC \<and> local_cid c = 0x41" by blast
  have "l2_reached s" by (rule l2_reached.input [OF ex_reached E _ s(1)]) simp
  then show ?thesis using that s(2) by blast
qed

lemma l2cap_channels_sound_witness:
  "\<exists>s c. l2_reached s \<and> channel_type c = L2CAP_CHANNEL_TYPE_CLASSIC \<and> l2cap_channel_item_by_cid s 0x41 = Some c \<and> remote_mtu c \<le> l2cap_max_mtu"
  using ex_created l2cap_channels_sound by (metis (no_types, lifting))

lemma unknown_option_blocks_witness:
  "\<exists>s'. l2cap_signaling_handler_channel ex_env 0x41 [4, 9, 7, 0, 0x41, 0, 0, 0, 8, 1, 0] (ex_l2 [ex_config {RCVD_CONF_RSP}]) = Ret s' \<and>
    0x41 \<in> cids s' \<and>
    (\<forall>s'' c''. l2_inputs False s' s'' \<and> c'' \<in> set (l2cap_channels s'') \<and> local_cid c'' = 0x41 \<longrightarrow>
      l2_state c'' \<noteq> L2CAP_STATE_OPEN \<and> SEND_CONF_RSP_INVALID \<in> l2_var c'' \<and> SENT_CONF_RSP \<notin> l2_var c'')"
proof (rule unknown_option_blocks [where c = "ex_config {RCVD_CONF_RSP}" and len = 7, OF _ _ _ _ _ _ _ _ ex_ok(2)])
  show "command_ok [4, 9, 7, 0, 0x41, 0, 0, 0, 8, 1, 0]"
    by (simp add: command_ok_def rd_def little_endian_read_16_def sig_codes)
qed (simp_all add: l2_chan_def l2cap_channel_item_by_cid_def ex_l2_def ex_config_def ex_chan_def rd_def little_endian_read_16_def sig_codes)

lemma configured_channel_opens_witness:
  "\<exists>s' c'. l2cap_run_for_classic_channel ex_env 0x41 (ex_l2 [ex_config {RCVD_CONF_RSP, SEND_CONF_RSP}]) = Ret s' \<and> l2_chan s' 0x41 = Ret c' \<and>
    l2_state c' = L2CAP_STATE_OPEN \<and> remote_cid c' = 0x42 \<and> (\<exists>event. l2_actions s' = [L2Event 5 0x41 ([0x70, 24, 0] @ event)]) \<and>
    (\<forall>h2. (hci_step (transport ex_env))\<^sup>*\<^sup>* (l2_hci s') h2 \<and> acl_fragmentation_total_size h2 = 0 \<longrightarrow>
      (\<exists>new. sends h2 = new \<and> gather 1 [] new = [l2cap_frame 1 [5, 7, 6, 0, 0x42, 0, 0, 0, 0, 0]]))"
proof -
  let ?c = "ex_config {RCVD_CONF_RSP, SEND_CONF_RSP}"
  have chan: "l2_chan (ex_l2 [?c]) 0x41 = Ret ?c"
    by (simp add: l2_chan_def l2cap_channel_item_by_cid_def ex_l2_def ex_config_def ex_chan_def)
  have fields: "l2_state ?c = L2CAP_STATE_CONFIG" "l2_var ?c = {RCVD_CONF_RSP, SEND_CONF_RSP}" "l2_handle ?c = 1" "l2_handler ?c = 5"
      "remote_cid ?c = 0x42" "remote_sig_id ?c = 7" "l2_actions (ex_l2 [?c]) = []" "l2_hci (ex_l2 [?c]) = ex_l2_hci"
    by (simp_all add: ex_config_def ex_chan_def ex_l2_def)
  have "sends ex_l2_hci = []" by (simp add: sends_def ex_l2_hci_def ex_hci_def)
  moreover have "sig_command CONFIGURE_RESPONSE 7 (le16 0x42 @ le16 0 @ le16 0) = [5, 7, 6, 0, 0x42, 0, 0, 0, 0, 0]"
    by (simp add: sig_command_def sig_codes le16_def be16_def)
  ultimately show ?thesis
    using configured_channel_opens [OF ex_ok(2) chan fields(1), of ex_env] fields ex_can_send by simp
qed

lemma signaling_roundtrip_witness:
  "\<exists>s1 err. l2cap_send_signaling_packet ex_env 1 CONNECTION_REQUEST 9 [Num 3, Num 0x41] (ex_l2 []) = Ret (s1, err) \<and>
    (\<forall>h2. (hci_step (transport ex_env))\<^sup>*\<^sup>* (l2_hci s1) h2 \<and> acl_fragmentation_total_size h2 = 0 \<longrightarrow>
      (\<exists>new. sends h2 = new \<and> gather 1 [] new = [l2cap_frame 1 [2, 9, 4, 0, 3, 0, 0x41, 0]] \<and>
        (\<forall>got r k conn. delivered k (gather 1 [] new) got \<and> l2_ok r \<and> k < 0x1000 \<and>
           hci_connection_for_handle (l2_hci r) k = Some conn \<and> address_type conn = BD_ADDR_TYPE_ACL \<longrightarrow>
           (\<exists>h q. receive_all got (l2_hci r) = Ret (h, [q]) \<and>
              l2cap_acl_handler ex_env q (r\<lparr>l2_hci := h\<rparr>) =
                bind_outcome (l2cap_signaling_handler_dispatch ex_env k [2, 9, 4, 0, 3, 0, 0x41, 0] (r\<lparr>l2_hci := h\<rparr>)) (l2cap_run ex_env)))))"
proof -
  have "sends (l2_hci (ex_l2 [])) = []" by (simp add: sends_def ex_l2_def ex_l2_hci_def ex_hci_def)
  moreover have "l2_ok (ex_l2 [])" using ex_hci_ok by (simp add: l2_ok_def ex_l2_def)
  moreover have "hci_can_send_acl_packet_now (transport ex_env) (l2_hci (ex_l2 [])) 1" using ex_can_send by (simp add: ex_l2_def)
  moreover have "sig_data [Num 3, Num 0x41] = [3, 0, 0x41, 0]" "sig_command CONNECTION_REQUEST 9 [3, 0, 0x41, 0] = [2, 9, 4, 0, 3, 0, 0x41, 0]"
    by (simp_all add: sig_command_def sig_codes le16_def be16_def)
  ultimately show ?thesis
    using signaling_roundtrip [of "ex_l2 []" CONNECTION_REQUEST "[Num 3, Num 0x41]" ex_env 1 9 ex_env] sig_oks(2) [of 3 "0x41"]
    by simp
qed

end
