(* ===== verification/Spec2Isabelle.thy ===== *)
theory Spec2Isabelle
  imports PairProps UtilProps MemoryPool SdpProps SdpServerProps SdpClientProps SppExchange RfcommProps HciProps
    L2capProps
begin

text \<open>
  A verification development for Showcase, which shows an iPhone's screen on a CarPlay head unit
  that it pairs with over Bluetooth.

  \<^bold>\<open>The program.\<close>  \<^verbatim>\<open>source/\<close> is Showcase itself: Objective-C processes around one C library,
  \<^verbatim>\<open>carplay_pair.c\<close>, which answers the pairing requests of the head unit (SRP-6a pair-setup,
  Curve25519 pair-verify, TLV8 messages) and derives the session keys.
  \<^verbatim>\<open>btstack-rootless/\<close> is the Bluetooth stack it runs on.  Showcase needs the classic side of it: the
  SDP server announces the service, the SDP client finds the peer's, RFCOMM carries the data, all
  over L2CAP.  The models follow the configuration of \<^verbatim>\<open>port/ios/btstack_config.h\<close>: classic only, no
  enhanced retransmission mode, blocks from \<open>malloc\<close>, assertions off.

  \<^bold>\<open>How the code is modelled.\<close>  Every function of a modelled part is one definition of the same
  name; helper definitions stand for a loop, a case of a large switch or a repeated sequence.  C
  integers are words of their width.  A function that can touch memory outside an object returns an
  \<open>outcome\<close> (Prelude): \<open>Undef\<close> for such an access, \<open>Ret\<close> with the result otherwise, so that a theorem
  that a call is \<open>Ret\<close> is a theorem of memory safety.  Static variables are one record per file,
  passed and returned.  Objects that the code links into lists and frees (RFCOMM channels and
  multiplexers, list items) live in a map from addresses; a freed object is absent, and reading it
  is \<open>Undef\<close>.  Allocators are arguments: the address they return, or none.  Calls out of a component,
  to the layer below or to the handlers of applications, are recorded in order as actions; what
  comes back from them later is a further step of the model.  Errors are values: the code's status,
  or an option.  Loops are structural recursion, recursion with a termination proof, or have fuel
  where the code may loop forever, and then a theorem says what amount is enough.

  \<^bold>\<open>Pairing\<close> (\<^verbatim>\<open>source/carplay_pair.c\<close>).
  \<^item> Prelude, OpenSsl: shared vocabulary, the locale \<open>machine\<close> of event-driven components with its
    reachability rule; the functions of libcrypto as a parameter with the laws the code relies on,
    and a toy instance that satisfies them.
  \<^item> Tlv8, Crypto, Srp, PairCtx, PairSetup, PairVerify: the sections of the file in their order.
  \<^item> SrpSpec: what SRP computes, in closed form, from the laws of the library.
  \<^item> PairProps: both handshakes complete with an honest peer (pair-setup unless the salt starts with a
    zero byte), both sides derive the same secrets, only a proof of the password is accepted, no state leads to session keys without pair-verify, and deviations: a salt
    with a leading zero byte, M3 of pair-verify that ignores the signature.

  \<^bold>\<open>Foundations of BTstack\<close> (\<^verbatim>\<open>btstack-rootless/src\<close>).
  \<^item> Mem, Util, UtilProps (\<^verbatim>\<open>btstack_util.c\<close>): reads and writes of numbers in packets, with the locale
    \<open>packet_number\<close> interpreted for each width and byte order; addresses; the CRC-8 of RFCOMM.
  \<^item> LinkedList, MemoryPool (\<^verbatim>\<open>btstack_linked_list.c\<close>, \<^verbatim>\<open>btstack_memory_pool.c\<close>): an explicit store; the
    operations refine those of HOL lists; the locale \<open>block_store\<close>, interpreted by the list as a
    stack and by the pool, says that a block handed out is not handed out again before it is freed.

  \<^bold>\<open>SDP\<close> (\<^verbatim>\<open>classic/sdp_util.c\<close>, \<^verbatim>\<open>classic/sdp_server.c\<close>, \<^verbatim>\<open>classic/sdp_client.c\<close>,
  \<^verbatim>\<open>classic/spp_server.c\<close>, \<^verbatim>\<open>classic/sdp_client_rfcomm.c\<close>).
  \<^item> Sdp, SdpSpec, SdpAttr, SdpFilter, SdpMatch, SdpProps: data elements: traversal, attribute
    look-up, fragmented copies, search patterns as a statement about trees.
  \<^item> SdpServer, SdpResponse, SdpServerProps, SdpAnswers: the records, the queue of waiting
    connections, and the answers to the three requests, across continuation states.
  \<^item> SdpClient, SdpParser: requests, and the stream parser of responses that may be cut anywhere.
  \<^item> SdpExchange: what the server's packet handler makes of a service search attribute request: the
    parameters it reads, and the answer as a list of the selected attributes of matching records.
  \<^item> SdpClientProps: the parser delivers the values; the request of the client is read by the server
    as it was meant; no packet makes the client leave its buffers.
  \<^item> SppServer, RfcommQuery, SppProps, SppExchange: the record of a serial port, the query for RFCOMM
    channels and names, and that the one is found by the other, from the call of the application over
    the request, the server's answer and the client's parser to the last event (SppExchange); services without a name are lost or get the length
    of another's name (\<open>nameless_service_lost\<close>, \<open>name_length_stays\<close>).

  \<^bold>\<open>RFCOMM\<close> (\<^verbatim>\<open>classic/rfcomm.c\<close>).
  \<^item> Rfcomm, RfcommChannel, RfcommMux, RfcommApi: frames and events; the channel state machine, one
    definition for each group of states; multiplexers, packets and events of L2CAP; the API.
  \<^item> Wp: weakest preconditions of outcomes, the collection \<open>wp\<close> the safety proofs are driven by.
  \<^item> RfcommInv, RfcommSafe, RfcommPackets, RfcommSteps: the invariant \<open>rf_ok\<close> (lists and live objects
    agree, identifiers are distinct, frames fit the buffer), that every operation keeps it, and
    the step relation of everything that can happen to RFCOMM.
  \<^item> RfcommData, RfcommProps: data arrives as it was sent; channels open; refusals; error paths that
    leave dangling pointers.
  The contract \<open>allowed\<close> of the steps is what \<open>rfcomm_calls_return\<close> assumes: complete frames, fresh
  objects from the allocator, and not the one call whose failure path is wrong
  (\<open>failed_connection_dangles\<close>).

  \<^bold>\<open>ACL data in HCI\<close> (\<^verbatim>\<open>hci.c\<close>, the part that carries L2CAP).
  \<^item> HciAcl: the one packet buffer and its reservation, the count of free buffers in the controller,
    sending in fragments, the events of HCI that concern data, and the recombination of received
    fragments.  The H4 transport is synchronous: a packet is sent when its function returns.
  \<^item> HciLink: what is sent, as the controller takes it: \<open>gather\<close> puts fragments together by the
    handle, the flags and the length in their headers; \<open>delivered\<close> are the fragments, cut in any way, that
    the host at the other end of the link gets of it.
  \<^item> HciRecombine, HciSend, HciBudget, HciProps: a packet that is cut into fragments arrives as it
    was; any packet of the controller of at least six bytes is handled without leaving a buffer; the host never has more
    packets under way than the controller has buffers; a disconnection in the middle of a packet
    leaves the packet buffer reserved.

  \<^bold>\<open>L2CAP\<close> (\<^verbatim>\<open>l2cap.c\<close>, \<^verbatim>\<open>l2cap_signaling.c\<close>).
  \<^item> L2cap, L2capRun, L2capSignal, L2capApi: channels and their events, the commands that are sent,
    the run loop, the commands that are received with their configuration options, the events of
    HCI, packets, and the functions for applications.  The state contains that of HciAcl, and what
    L2CAP sends is sent by the model of HCI; requests to other parts of HCI (connect, disconnect,
    security) and calls of packet handlers are recorded, and their consequences are inputs of later
    steps.  Channels are named by their local channel identifier, which no two of them share.
  \<^item> L2capSend: every command leaves as one complete packet.
  \<^item> L2capMachine: the abstract machine of one channel, the invariant \<open>l2_ok\<close>, and the rules by which
    a piece of code is shown to return, to keep the invariant and to follow the machine.
  \<^item> L2capInv, L2capSafe, L2capSteps: each part of L2CAP obeys these rules, up to the inputs of the
    whole component and the reachable states.
  \<^item> L2capProps: every well-formed input is handled; a channel opens only when both sides are
    configured, and does so when they are; data and commands arrive as they were sent, through HCI on
    both sides; an option that is not understood blocks a channel, over all sequences of inputs
    (\<open>l2_inputs\<close>), as the code follows the machine, in which the mark for such an option stays.  \<open>unchecked_lengths\<close> and \<open>unchecked_echo\<close> show what
    the code reads when commands are shorter than the contract \<open>input_ok\<close> says.
  \<open>l2cap_init\<close> models the first call of the function, when no handler is registered for connectionless
  data; allocated channels are zeroed, as \<^verbatim>\<open>btstack_memory.c\<close> does it; the words of an information
  response are stored by a little-endian host (the code copies them from memory).  A packet handler
  that is told it can send is a recorded action; in the code it runs at once, and may use up the room
  of those that wait after it.

  \<^bold>\<open>Bounds and fuel.\<close>  \<open>next_client_cid_loop\<close> has 65535 rounds, one for each identifier, and returns
  while fewer channels exist; \<open>open_failed_loop\<close> one round more than there are channels, as each round
  removes one.  The sequences of SDP traversals end because elements have a positive length, except
  for the length that wraps to zero (\<open>zero_length_never_ends\<close>).  \<open>fragments_loop\<close> of HCI has 65536
  rounds, as each sends at least four bytes of a packet whose size is a 16-bit number.  The
  configuration options of a signaling packet have 65536 rounds, enough for the packets of at most
  32768 bytes that \<open>input_ok\<close> admits; the commands of a packet as many as it has bytes;
  \<open>next_local_cid_loop\<close> 65536, enough for the 65000 channels that memory holds; the loops that notify
  or discard channels one more than there are channels.

  \<^bold>\<open>Not modelled\<close>, and why: the Objective-C parts (private frameworks, run loops, XPC), the connection and
  initialisation machines of HCI and its transports, the retransmission mode and the LE channels of
  L2CAP (compiled out in this configuration), the run loops, persistent storage, the daemon's socket protocol (varargs and system
  calls), generated accessors and constant tables, and the profiles that Showcase does not use (LE,
  mesh, audio, HID, network).  Of libcrypto, failing allocations of digest contexts are not modelled, and \<open>lib_ok\<close>
  says of \<open>BN_hex2bn\<close> and its kin what the code needs for its constants.  Lengths that
  \<^verbatim>\<open>carplay_pair.c\<close> casts to \<open>int\<close> are natural numbers, the same below 2 GB.  Blocks of a memory pool
  have room for a pointer, as its callers see to.  Logging is left out of every definition.  Re-entrant calls of an
  application from inside one of its callbacks are not steps of their own: a callback is recorded,
  and what the application does then is taken to follow the step that called it.
\<close>

end
